(* ===== verification/Prelude.thy ===== *)
theory Prelude
  imports Main "HOL-Library.AList"
begin

section \<open>Shared vocabulary of the MochiPort model\<close>

text \<open>
  This theory holds what every component shares: the model of the standard library's
  containers and saturating integers, the string operations the sources use, and the
  lemmas about them that carry the component proofs.

  \<^item> A \<open>HashMap\<close> or \<open>BTreeMap\<close> is an association list; the list order stands for the
    iteration order, which the sources leave unspecified for a \<open>HashMap\<close>. Theorems are stated for
    every list, so they hold for every iteration order. Lookups are \<open>map_of\<close>, \<open>insert\<close> is
    \<open>AList.update\<close>, \<open>remove\<close> is \<open>AList.delete\<close>. \<open>hwf\<close> says that no key occurs twice.
  \<^item> A Rust \<open>String\<close> is a \<open>string\<close>, one character per Unicode scalar value; the characters of HOL
    are the scalar values U+0000 to U+00FF.
  \<^item> \<open>u64\<close>, \<open>usize\<close> (64 bits) and \<open>u128\<close> values are \<open>nat\<close> with saturation and wrapping written out.
\<close>

named_theorems hmap_simps \<open>rewriting of association-list hash maps\<close>

type_synonym ('k, 'v) hmap = "('k \<times> 'v) list"

abbreviation hget :: "('k, 'v) hmap \<Rightarrow> 'k \<Rightarrow> 'v option" where
  "hget m k \<equiv> map_of m k"

abbreviation hinsert :: "'k \<Rightarrow> 'v \<Rightarrow> ('k, 'v) hmap \<Rightarrow> ('k, 'v) hmap" where
  "hinsert k v m \<equiv> AList.update k v m"

abbreviation hremove :: "'k \<Rightarrow> ('k, 'v) hmap \<Rightarrow> ('k, 'v) hmap" where
  "hremove k m \<equiv> AList.delete k m"

definition hcontains :: "('k, 'v) hmap \<Rightarrow> 'k \<Rightarrow> bool" where
  "hcontains m k = (map_of m k \<noteq> None)"

definition hwf :: "('k, 'v) hmap \<Rightarrow> bool" where
  "hwf m = distinct (map fst m)"

definition hretain :: "('k \<Rightarrow> 'v \<Rightarrow> bool) \<Rightarrow> ('k, 'v) hmap \<Rightarrow> ('k, 'v) hmap" where
  "hretain P m = filter (\<lambda>(k, v). P k v) m"

lemma hget_hinsert [simp, hmap_simps]:
  "hget (hinsert k v m) k' = (if k' = k then Some v else hget m k')"
  by (simp add: update_conv')

lemma hget_hremove [simp, hmap_simps]:
  "hget (hremove k m) k' = (if k' = k then None else hget m k')"
  by (simp add: delete_conv')

lemma hcontains_hinsert [simp, hmap_simps]:
  "hcontains (hinsert k v m) k' = (k' = k \<or> hcontains m k')"
  by (simp add: hcontains_def)

lemma hcontains_hremove [simp, hmap_simps]:
  "hcontains (hremove k m) k' = (k' \<noteq> k \<and> hcontains m k')"
  by (simp add: hcontains_def)

lemma hcontains_Nil [simp]: "\<not> hcontains [] k"
  by (simp add: hcontains_def)

lemma hcontains_iff: "hcontains m k \<longleftrightarrow> k \<in> fst ` set m"
  by (simp add: hcontains_def map_of_eq_None_iff)

lemma hwf_Nil [simp]: "hwf []"
  by (simp add: hwf_def)

lemma hwf_hinsert [simp, intro]: "hwf m \<Longrightarrow> hwf (hinsert k v m)"
  by (simp add: hwf_def distinct_update)

lemma hwf_hremove [simp, intro]: "hwf m \<Longrightarrow> hwf (hremove k m)"
  by (simp add: hwf_def distinct_delete)

lemma hwf_hretain [simp, intro]: "hwf m \<Longrightarrow> hwf (hretain P m)"
  by (induction m) (auto simp: hwf_def hretain_def)

lemma fst_hretain: "fst ` set (hretain P m) \<subseteq> fst ` set m"
  by (auto simp: hretain_def)

lemma hget_hretain:
  "hwf m \<Longrightarrow> hget (hretain P m) k =
     (case hget m k of None \<Rightarrow> None | Some v \<Rightarrow> if P k v then Some v else None)"
proof (induction m)
  case Nil
  then show ?case by (simp add: hretain_def)
next
  case (Cons kv m)
  obtain k' v' where kv: "kv = (k', v')" by fastforce
  have fresh: "k' \<notin> fst ` set m" and wf: "hwf m"
    using Cons.prems kv by (auto simp: hwf_def)
  have none: "hget (hretain P m) k' = None"
    using fresh fst_hretain[of P m] by (auto simp: map_of_eq_None_iff)
  show ?case
    using Cons.IH[OF wf] none kv by (auto simp: hretain_def)
qed

lemma hget_in_set: "hget m k = Some v \<Longrightarrow> (k, v) \<in> set m"
  by (rule map_of_SomeD)

lemma hwf_in_set_hget: "hwf m \<Longrightarrow> (k, v) \<in> set m \<Longrightarrow> hget m k = Some v"
  by (simp add: hwf_def map_of_is_SomeI)

lemma hremove_absent: "\<not> hcontains m k \<Longrightarrow> hremove k m = m"
  by (simp add: hcontains_iff delete_id)

lemma set_hinsert_subset: "set (hinsert k v m) \<subseteq> insert (k, v) (set m)"
  by (induction m) auto

lemma set_hinsert: "hwf m \<Longrightarrow> set (hinsert k v m) = insert (k, v) {p \<in> set m. fst p \<noteq> k}"
  by (induction m) (auto simp: hwf_def rev_image_eqI)

lemma fst_set_hinsert [simp]: "fst ` set (hinsert k v m) = insert k (fst ` set m)"
  by (simp add: dom_update)

lemma map_fst_hinsert_known: "hcontains m k \<Longrightarrow> map fst (hinsert k v m) = map fst m"
  by (simp add: hcontains_iff update_keys)

lemma set_hremove: "set (hremove k m) = {p \<in> set m. fst p \<noteq> k}"
  by (auto simp: AList.delete_eq)

lemma fst_set_hremove [simp]: "fst ` set (hremove k m) = fst ` set m - {k}"
  using arg_cong[OF delete_keys[of k m], of set] by auto

lemma hget_fst: "hget m k = Some v \<Longrightarrow> k \<in> fst ` set m"
  by (metis fst_conv image_eqI map_of_SomeD)

lemma length_hinsert_le: "length (hinsert k v m) \<le> Suc (length m)"
  by (induction m) auto

subsection \<open>Unsigned integers\<close>

definition u64_max :: nat where "u64_max = 2 ^ 64 - 1"

definition i64_max :: int where "i64_max = 2 ^ 63 - 1"

definition sat_add :: "nat \<Rightarrow> nat \<Rightarrow> nat" where
  "sat_add a b = min (a + b) u64_max"

lemma sat_add_le [simp]: "sat_add a b \<le> u64_max"
  by (simp add: sat_add_def)

lemma sat_add_ge: "a \<le> u64_max \<Longrightarrow> a \<le> sat_add a b"
  by (simp add: sat_add_def)

lemma sat_add_Suc: "a < u64_max \<Longrightarrow> sat_add a 1 = Suc a"
  by (simp add: sat_add_def)

lemma sat_add_mono_lt: "a < u64_max \<Longrightarrow> a < sat_add a 1"
  by (simp add: sat_add_def)

subsection \<open>Bounded vectors\<close>

text \<open>
  \<open>vec.drain(..excess)\<close> with \<open>excess = vec.len() - cap\<close>, guarded by \<open>vec.len() > cap\<close>: the
  oldest elements go, the newest \<open>cap\<close> stay.
\<close>

definition keep_last :: "nat \<Rightarrow> 'a list \<Rightarrow> 'a list" where
  "keep_last cap xs = (if length xs > cap then drop (length xs - cap) xs else xs)"

lemma keep_last_length [simp]: "length (keep_last cap xs) = min cap (length xs)"
  by (simp add: keep_last_def)

lemma keep_last_short [simp]: "length xs \<le> cap \<Longrightarrow> keep_last cap xs = xs"
  by (simp add: keep_last_def)

lemma keep_last_suffix: "\<exists>dropped. xs = dropped @ keep_last cap xs"
  by (metis append_Nil append_take_drop_id keep_last_def)

lemma set_keep_last: "set (keep_last cap xs) \<subseteq> set xs"
  by (simp add: keep_last_def set_drop_subset)

lemma distinct_keep_last: "distinct xs \<Longrightarrow> distinct (keep_last cap xs)"
  by (simp add: keep_last_def)

lemma last_keep_last: "0 < cap \<Longrightarrow> xs \<noteq> [] \<Longrightarrow> last (keep_last cap xs) = last xs"
  by (simp add: keep_last_def)

lemma map_keep_last: "map f (keep_last cap xs) = keep_last cap (map f xs)"
  by (simp add: keep_last_def drop_map)

lemma keep_last_append_single:
  "length xs \<le> cap \<Longrightarrow> 0 < cap \<Longrightarrow>
   keep_last cap (xs @ [x]) = (if length xs = cap then tl xs else xs) @ [x]"
  by (cases xs) (auto simp: keep_last_def Suc_diff_le)

subsection \<open>Searching vectors\<close>

text \<open>\<open>iter().position(P)\<close>, and replacing the first element that satisfies \<open>P\<close>
  (\<open>iter_mut().find(P)\<close> followed by an assignment through the reference).\<close>

fun position :: "('a \<Rightarrow> bool) \<Rightarrow> 'a list \<Rightarrow> nat option" where
  "position P [] = None"
| "position P (x # xs) = (if P x then Some 0 else map_option Suc (position P xs))"

fun update_first :: "('a \<Rightarrow> bool) \<Rightarrow> ('a \<Rightarrow> 'a) \<Rightarrow> 'a list \<Rightarrow> 'a list" where
  "update_first P f [] = []"
| "update_first P f (x # xs) = (if P x then f x # xs else x # update_first P f xs)"

lemma length_update_first [simp]: "length (update_first P f xs) = length xs"
  by (induction xs) auto

lemma map_update_first:
  "(\<And>x. P x \<Longrightarrow> g (f x) = g x) \<Longrightarrow> map g (update_first P f xs) = map g xs"
  by (induction xs) auto

lemma find_update_first_same:
  "List.find P xs = Some x \<Longrightarrow> P (f x) \<Longrightarrow> List.find P (update_first P f xs) = Some (f x)"
  by (induction xs) (auto split: if_splits)

lemma set_update_first: "set (update_first P f xs) \<subseteq> set xs \<union> f ` {x \<in> set xs. P x}"
  by (induction xs) auto

lemma find_None_iff_all: "List.find P xs = None \<longleftrightarrow> (\<forall>x \<in> set xs. \<not> P x)"
  by (auto simp: find_None_iff)

lemma find_append: "List.find P (xs @ ys) = (case List.find P xs of None \<Rightarrow> List.find P ys | Some x \<Rightarrow> Some x)"
  by (induction xs) auto

lemma find_Some_in: "List.find P xs = Some x \<Longrightarrow> x \<in> set xs \<and> P x"
  by (auto simp: find_Some_iff)

lemma position_Some: "position P xs = Some i \<Longrightarrow> i < length xs \<and> P (xs ! i)"
  by (induction xs arbitrary: i) (auto split: if_splits)

lemma position_None: "position P xs = None \<longleftrightarrow> (\<forall>x \<in> set xs. \<not> P x)"
  by (induction xs) auto

subsection \<open>Strings\<close>

text \<open>\<open>char::is_whitespace\<close> on U+0000 to U+00FF, \<open>str::trim\<close> and its one-sided forms.\<close>

definition is_ws :: "char \<Rightarrow> bool" where
  "is_ws c = (let n = (of_char c :: nat) in (9 \<le> n \<and> n \<le> 13) \<or> n = 32 \<or> n = 133 \<or> n = 160)"

definition trim_start :: "string \<Rightarrow> string" where
  "trim_start s = dropWhile is_ws s"

definition trim_end :: "string \<Rightarrow> string" where
  "trim_end s = rev (dropWhile is_ws (rev s))"

definition trim :: "string \<Rightarrow> string" where
  "trim s = trim_end (trim_start s)"

definition starts_with :: "string \<Rightarrow> string \<Rightarrow> bool" where
  "starts_with p s = (take (length p) s = p)"

definition strip_prefix :: "string \<Rightarrow> string \<Rightarrow> string option" where
  "strip_prefix p s = (if starts_with p s then Some (drop (length p) s) else None)"

text \<open>\<open>str::find\<close> of a non-empty pattern: the byte offset is a character offset here.\<close>

fun find_sub :: "string \<Rightarrow> string \<Rightarrow> nat option" where
  "find_sub p [] = (if p = [] then Some 0 else None)"
| "find_sub p (c # s) = (if starts_with p (c # s) then Some 0 else map_option Suc (find_sub p s))"

definition contains :: "string \<Rightarrow> string \<Rightarrow> bool" where
  "contains p s = (find_sub p s \<noteq> None)"

text \<open>\<open>str::split\<close> at a character: at least one piece.\<close>

fun split_at_char :: "char \<Rightarrow> string \<Rightarrow> string list" where
  "split_at_char sep [] = [[]]"
| "split_at_char sep (c # cs) =
     (if c = sep then [] # split_at_char sep cs
      else case split_at_char sep cs of [] \<Rightarrow> [[c]] | piece # pieces \<Rightarrow> (c # piece) # pieces)"

lemma split_at_char_not_Nil [simp]: "split_at_char sep s \<noteq> []"
  by (induction s) (auto split: list.splits)

lemma split_at_char_none: "sep \<notin> set s \<Longrightarrow> split_at_char sep s = [s]"
  by (induction s) auto

lemma split_at_char_append:
  "sep \<notin> set p \<Longrightarrow> split_at_char sep (p @ s) = (p @ hd (split_at_char sep s)) # tl (split_at_char sep s)"
  by (induction p) (auto split: list.splits simp: neq_Nil_conv)

lemma split_at_char_at: "sep \<notin> set p \<Longrightarrow> split_at_char sep (p @ sep # s) = p # split_at_char sep s"
  by (simp add: split_at_char_append)

lemma starts_with_append [simp]: "starts_with p (p @ s)"
  by (simp add: starts_with_def)

lemma starts_with_iff: "starts_with p s \<longleftrightarrow> (\<exists>t. s = p @ t)"
  by (metis append_eq_conv_conj append_take_drop_id starts_with_def)

lemma strip_prefix_append [simp]: "strip_prefix p (p @ s) = Some s"
  by (simp add: strip_prefix_def)

lemma strip_prefix_Some: "strip_prefix p s = Some t \<longleftrightarrow> s = p @ t"
  by (auto simp: strip_prefix_def starts_with_iff)

lemma trim_Nil [simp]: "trim [] = []"
  by (simp add: trim_def trim_start_def trim_end_def)

lemma trim_start_idem: "trim_start (trim_start s) = trim_start s"
  by (induction s) (auto simp: trim_start_def)

lemma trim_end_id: "s = [] \<or> \<not> is_ws (last s) \<Longrightarrow> trim_end s = s"
  by (cases s rule: rev_cases) (auto simp: trim_end_def)

lemma trim_end_last: "trim_end s = [] \<or> \<not> is_ws (last (trim_end s))"
  by (metis hd_dropWhile hd_rev last_rev rev_is_Nil_conv rev_rev_ident trim_end_def)

lemma trim_end_hd: "trim_end s \<noteq> [] \<Longrightarrow> hd (trim_end s) = hd s"
proof -
  assume ne: "trim_end s \<noteq> []"
  have "\<exists>t. s = trim_end s @ t"
    by (metis rev_append rev_rev_ident takeWhile_dropWhile_id trim_end_def)
  then obtain t where t: "s = trim_end s @ t" by blast
  show ?thesis using ne by (subst (2) t) simp
qed

lemma trim_id: "s = [] \<or> (\<not> is_ws (hd s) \<and> \<not> is_ws (last s)) \<Longrightarrow> trim s = s"
  by (cases s) (auto simp: trim_def trim_start_def trim_end_id)

lemma trim_idem [simp]: "trim (trim s) = trim s"
proof (cases "trim s = []")
  case True
  then show ?thesis by simp
next
  case False
  have ne: "trim_end (trim_start s) \<noteq> []" using False by (simp add: trim_def)
  then have ne2: "trim_start s \<noteq> []" by (auto simp: trim_end_def)
  have "\<not> is_ws (hd (trim_start s))"
    using ne2 by (simp add: trim_start_def hd_dropWhile)
  then have "\<not> is_ws (hd (trim s))" using trim_end_hd[OF ne] by (simp add: trim_def)
  moreover have "\<not> is_ws (last (trim s))"
    using trim_end_last[of "trim_start s"] ne by (simp add: trim_def)
  ultimately show ?thesis by (simp add: trim_id)
qed

text \<open>\<open>map(str::trim).filter(|s| !s.is_empty())\<close>.\<close>

definition non_blank :: "string \<Rightarrow> string option" where
  "non_blank s = (if trim s = [] then None else Some (trim s))"

definition opt_filter :: "('a \<Rightarrow> bool) \<Rightarrow> 'a option \<Rightarrow> 'a option" where
  "opt_filter P x = (case x of None \<Rightarrow> None | Some v \<Rightarrow> if P v then Some v else None)"

lemma opt_filter_simps [simp]:
  "opt_filter P None = None"
  "opt_filter P (Some v) = (if P v then Some v else None)"
  by (simp_all add: opt_filter_def)

definition unwrap_or :: "'a option \<Rightarrow> 'a \<Rightarrow> 'a" where
  "unwrap_or x d = (case x of None \<Rightarrow> d | Some v \<Rightarrow> v)"

lemma unwrap_or_simps [simp]: "unwrap_or None d = d" "unwrap_or (Some v) d = v"
  by (simp_all add: unwrap_or_def)

definition opt_or :: "'a option \<Rightarrow> 'a option \<Rightarrow> 'a option" where
  "opt_or x y = (case x of None \<Rightarrow> y | Some v \<Rightarrow> Some v)"

lemma opt_or_simps [simp]: "opt_or None y = y" "opt_or (Some v) y = Some v"
  by (simp_all add: opt_or_def)

subsection \<open>Iterators\<close>

text \<open>\<open>Iterator::find_map\<close> and \<open>[String]::join\<close>; \<open>filter_map\<close> is \<open>List.map_filter\<close>.\<close>

fun find_map :: "('a \<Rightarrow> 'b option) \<Rightarrow> 'a list \<Rightarrow> 'b option" where
  "find_map f [] = None"
| "find_map f (x # xs) = (case f x of Some y \<Rightarrow> Some y | None \<Rightarrow> find_map f xs)"

lemma find_map_cong [fundef_cong]:
  "xs = ys \<Longrightarrow> (\<And>x. x \<in> set ys \<Longrightarrow> f x = g x) \<Longrightarrow> find_map f xs = find_map g ys"
  by (induction ys arbitrary: xs) (auto split: option.split)

lemma find_map_Some: "find_map f xs = Some y \<Longrightarrow> \<exists>x \<in> set xs. f x = Some y"
  by (induction xs) (auto split: option.splits)

lemma map_filter_cong [fundef_cong]:
  "xs = ys \<Longrightarrow> (\<And>x. x \<in> set ys \<Longrightarrow> f x = g x) \<Longrightarrow> List.map_filter f xs = List.map_filter g ys"
  by (induction ys arbitrary: xs) (auto simp: List.map_filter_simps split: option.split)

fun join_with :: "string \<Rightarrow> string list \<Rightarrow> string" where
  "join_with sep [] = []"
| "join_with sep [s] = s"
| "join_with sep (s # t # rest) = s @ sep @ join_with sep (t # rest)"

end
