(* ===== verification/Lifecycle.thy ===== *)
theory Lifecycle
  imports Prelude
begin

section \<open>Lifecycle admission (src/src/app_state.rs)\<close>

text \<open>
  The gate that protects work from a daemon restart. Its methods are made of atomic operations that
  threads interleave, so each atomic operation is one step here: a worker of \<open>try_admit\<close> reads the
  state, increments the permit count, reads the state again, and then holds the permit or gives it
  back; giving back is a decrement, and a notification when the count was one. A drain waiter runs
  the loop of \<open>wait_for_drain\<close> in the same way. The lemmas show that the count is the number of
  workers between increment and decrement, that a drain observed complete stays complete until it is
  cancelled, and that no wake-up of the waiter is lost.
\<close>

subsection \<open>The gate\<close>

datatype admission_state = Active | Draining | ShutdownCommitted

fun admission_as_str :: "admission_state \<Rightarrow> string" where
  "admission_as_str Active = ''active''"
| "admission_as_str Draining = ''draining''"
| "admission_as_str ShutdownCommitted = ''shutdownCommitted''"

fun admission_raw :: "admission_state \<Rightarrow> nat" where
  "admission_raw Active = 0"
| "admission_raw Draining = 1"
| "admission_raw ShutdownCommitted = 2"

definition admission_from_raw :: "nat \<Rightarrow> admission_state" where
  "admission_from_raw raw = (if raw = 1 then Draining else if raw = 2 then ShutdownCommitted else Active)"

text \<open>\<open>LifecycleAdmission\<close>: the state, the number of active permits, and whether the \<open>Notify\<close> holds
  a stored notification.\<close>

record admission =
  ad_state :: nat
  ad_active_permits :: nat
  ad_notified :: bool

definition admission_new :: admission where
  "admission_new = \<lparr> ad_state = admission_raw Active, ad_active_permits = 0, ad_notified = False \<rparr>"

definition admission_state_of :: "admission \<Rightarrow> admission_state" where
  "admission_state_of ad = admission_from_raw (ad_state ad)"

text \<open>\<open>compare_exchange\<close> on the state.\<close>

definition exchange_state :: "admission_state \<Rightarrow> admission_state \<Rightarrow> admission \<Rightarrow> bool \<times> admission" where
  "exchange_state expected next_state ad =
     (if ad_state ad = admission_raw expected
      then (True, ad\<lparr>ad_state := admission_raw next_state\<rparr>) else (False, ad))"

definition begin_draining :: "admission \<Rightarrow> bool \<times> admission" where
  "begin_draining = exchange_state Active Draining"

definition commit_shutdown :: "admission \<Rightarrow> bool \<times> admission" where
  "commit_shutdown = exchange_state Draining ShutdownCommitted"

definition cancel_draining :: "admission \<Rightarrow> bool \<times> admission" where
  "cancel_draining = exchange_state Draining Active"

definition active_permit_count :: "admission \<Rightarrow> nat" where
  "active_permit_count ad = ad_active_permits ad"

subsection \<open>Workers and the waiter\<close>

text \<open>Where a worker is: before the first read of \<open>try_admit\<close>, after a first read that was active,
  after the increment, refused (about to give back), holding a permit, or between the decrement that
  reached zero and the notification.\<close>

datatype worker = Outside | Checked | Counted | Refused | Holding | Notifying

text \<open>One atomic operation of a worker. \<open>try_admit\<close> is the steps from \<open>Outside\<close> to \<open>Holding\<close> or
  back; dropping a permit (or undoing a refused admission) is \<open>release_permit\<close>.\<close>

fun worker_step :: "worker \<Rightarrow> admission \<Rightarrow> worker \<times> admission" where
  "worker_step Outside ad =
     (if admission_state_of ad \<noteq> Active then (Outside, ad) else (Checked, ad))"
| "worker_step Checked ad = (Counted, ad\<lparr>ad_active_permits := ad_active_permits ad + 1\<rparr>)"
| "worker_step Counted ad =
     (if admission_state_of ad \<noteq> Active then (Refused, ad) else (Holding, ad))"
| "worker_step Refused ad =
     (if ad_active_permits ad = 1 then Notifying else Outside,
      ad\<lparr>ad_active_permits := ad_active_permits ad - 1\<rparr>)"
| "worker_step Holding ad =
     (if ad_active_permits ad = 1 then Notifying else Outside,
      ad\<lparr>ad_active_permits := ad_active_permits ad - 1\<rparr>)"
| "worker_step Notifying ad = (Outside, ad\<lparr>ad_notified := True\<rparr>)"

text \<open>The loop of \<open>wait_for_drain\<close>: read the count, return at zero, otherwise await a notification,
  which consumes a stored one.\<close>

datatype waiter = Reading | Awaiting | Drained

fun waiter_step :: "waiter \<Rightarrow> admission \<Rightarrow> (waiter \<times> admission) option" where
  "waiter_step Reading ad = Some (if ad_active_permits ad = 0 then Drained else Awaiting, ad)"
| "waiter_step Awaiting ad =
     (if ad_notified ad then Some (Reading, ad\<lparr>ad_notified := False\<rparr>) else None)"
| "waiter_step Drained ad = None"

text \<open>\<open>wait_for_drain_with_timeout\<close> returns whether the waiter was done when the time ran out.\<close>

definition wait_for_drain_with_timeout :: "waiter \<Rightarrow> bool" where
  "wait_for_drain_with_timeout w = (w = Drained)"

record gate =
  ga_admission :: admission
  ga_workers :: "worker list"
  ga_waiter :: waiter

inductive gate_step :: "gate \<Rightarrow> gate \<Rightarrow> bool" where
  worker: "i < length (ga_workers g) \<Longrightarrow> worker_step (ga_workers g ! i) (ga_admission g) = (w, ad) \<Longrightarrow>
    gate_step g (g\<lparr>ga_admission := ad, ga_workers := (ga_workers g)[i := w]\<rparr>)"
| waiter: "waiter_step (ga_waiter g) (ga_admission g) = Some (w, ad) \<Longrightarrow>
    gate_step g (g\<lparr>ga_admission := ad, ga_waiter := w\<rparr>)"
| begin_drain: "begin_draining (ga_admission g) = (ok, ad) \<Longrightarrow> gate_step g (g\<lparr>ga_admission := ad\<rparr>)"
| commit: "commit_shutdown (ga_admission g) = (ok, ad) \<Longrightarrow> gate_step g (g\<lparr>ga_admission := ad\<rparr>)"
| join: "gate_step g (g\<lparr>ga_workers := ga_workers g @ [Outside]\<rparr>)"
| wait_again: "ga_waiter g = Drained \<Longrightarrow> gate_step g (g\<lparr>ga_waiter := Reading\<rparr>)"

text \<open>A cancelled drain is a step apart, so that a property can speak of runs without one.\<close>

inductive gate_run_step :: "gate \<Rightarrow> gate \<Rightarrow> bool" where
  step: "gate_step g g' \<Longrightarrow> gate_run_step g g'"
| cancel: "cancel_draining (ga_admission g) = (ok, ad) \<Longrightarrow> gate_run_step g (g\<lparr>ga_admission := ad\<rparr>)"

definition gate_new :: gate where
  "gate_new = \<lparr> ga_admission = admission_new, ga_workers = [], ga_waiter = Reading \<rparr>"

subsection \<open>The permit count\<close>

text \<open>A worker counts between its increment and its decrement.\<close>

fun counts :: "worker \<Rightarrow> nat" where
  "counts Counted = 1"
| "counts Refused = 1"
| "counts Holding = 1"
| "counts _ = 0"

definition gate_inv :: "gate \<Rightarrow> bool" where
  "gate_inv g \<longleftrightarrow>
     ad_active_permits (ga_admission g) = sum_list (map counts (ga_workers g)) \<and>
     (ga_waiter g = Awaiting \<and> ad_active_permits (ga_admission g) = 0 \<longrightarrow>
        ad_notified (ga_admission g) \<or> Notifying \<in> set (ga_workers g))"

lemma admission_from_raw_raw [simp]: "admission_from_raw (admission_raw s) = s"
  by (cases s) (simp_all add: admission_from_raw_def)

lemma exchange_state_frame:
  "exchange_state s s' ad = (ok, ad') \<Longrightarrow>
     ad_active_permits ad' = ad_active_permits ad \<and> ad_notified ad' = ad_notified ad"
  by (auto simp: exchange_state_def split: if_splits)

lemma sum_list_counts_update:
  assumes "i < length ws"
  shows "sum_list (map counts (ws[i := w])) + counts (ws ! i) = sum_list (map counts ws) + counts w"
proof -
  have len: "i < length (map counts ws)" using assms by simp
  have "counts (ws ! i) \<le> sum_list (map counts ws)"
    using member_le_sum_list[of "counts (ws ! i)" "map counts ws"] assms by simp
  then show ?thesis
    using sum_list_update[OF len, of "counts w"] assms by (simp add: map_update)
qed

lemma worker_step_counts:
  assumes "worker_step w ad = (w', ad')"
    and "counts w \<le> ad_active_permits ad"
  shows "ad_active_permits ad' + counts w = ad_active_permits ad + counts w'"
  using assms by (cases w) (auto split: if_splits)

lemma worker_step_notified:
  assumes "worker_step w ad = (w', ad')" and "ad_active_permits ad' = 0"
  shows "ad_notified ad' \<or> w' = Notifying \<or>
    (ad_active_permits ad = 0 \<and> ad_notified ad' = ad_notified ad \<and> w \<noteq> Notifying)
    \<or> (ad_active_permits ad = 0 \<and> w \<in> {Refused, Holding})"
  using assms by (cases w) (auto split: if_splits)

lemma gate_inv_worker:
  assumes inv: "gate_inv g" and i: "i < length (ga_workers g)"
    and step: "worker_step (ga_workers g ! i) (ga_admission g) = (w, ad)"
  shows "gate_inv (g\<lparr>ga_admission := ad, ga_workers := (ga_workers g)[i := w]\<rparr>)"
proof -
  let ?ws = "ga_workers g" and ?ad = "ga_admission g"
  have count: "ad_active_permits ?ad = sum_list (map counts ?ws)" using inv by (simp add: gate_inv_def)
  have le: "counts (?ws ! i) \<le> ad_active_permits ?ad"
    unfolding count using member_le_sum_list[of "counts (?ws ! i)" "map counts ?ws"] i by simp
  have new: "ad_active_permits ad = sum_list (map counts (?ws[i := w]))"
    using worker_step_counts[OF step le] sum_list_counts_update[OF i, of w] count by linarith
  have "ad_notified ad \<or> Notifying \<in> set (?ws[i := w])"
    if wait: "ga_waiter g = Awaiting" and zero: "ad_active_permits ad = 0"
  proof -
    consider "ad_notified ad" | "w = Notifying"
      | "ad_active_permits ?ad = 0" "ad_notified ad = ad_notified ?ad" "?ws ! i \<noteq> Notifying"
      | "ad_active_permits ?ad = 0" "?ws ! i \<in> {Refused, Holding}"
      using worker_step_notified[OF step zero] by (elim disjE conjE) simp_all
    then show ?thesis
    proof cases
      case 2
      then show ?thesis using i by (simp add: set_update_memI)
    next
      case 3
      then have "ad_notified ?ad \<or> Notifying \<in> set ?ws" using inv wait by (simp add: gate_inv_def)
      then show ?thesis
      proof
        assume "Notifying \<in> set ?ws"
        then obtain j where j: "j < length ?ws" "?ws ! j = Notifying" by (auto simp: in_set_conv_nth)
        then have "j \<noteq> i" using 3 by auto
        then have "?ws[i := w] ! j = Notifying" using j by simp
        then show ?thesis using j by (metis length_list_update nth_mem)
      qed (use 3 in simp)
    next
      case 4
      then show ?thesis using le by auto
    qed simp
  qed
  then show ?thesis using new by (simp add: gate_inv_def)
qed

lemma gate_inv_waiter:
  assumes "gate_inv g" and "waiter_step (ga_waiter g) (ga_admission g) = Some (w, ad)"
  shows "gate_inv (g\<lparr>ga_admission := ad, ga_waiter := w\<rparr>)"
  using assms by (cases "ga_waiter g") (auto simp: gate_inv_def split: if_splits)

lemma gate_inv_exchange:
  assumes "gate_inv g" and "exchange_state s s' (ga_admission g) = (ok, ad)"
  shows "gate_inv (g\<lparr>ga_admission := ad\<rparr>)"
  using assms exchange_state_frame[OF assms(2)] by (simp add: gate_inv_def)

lemma gate_step_inv:
  assumes "gate_step g g'" and "gate_inv g"
  shows "gate_inv g'"
  using assms
proof (induction rule: gate_step.induct)
  case (worker i g w ad)
  then show ?case by (simp add: gate_inv_worker)
next
  case (waiter g w ad)
  then show ?case by (simp add: gate_inv_waiter)
next
  case (begin_drain g ok ad)
  then show ?case using gate_inv_exchange unfolding begin_draining_def by blast
next
  case (commit g ok ad)
  then show ?case using gate_inv_exchange unfolding commit_shutdown_def by blast
qed (simp_all add: gate_inv_def)

lemma gate_run_inv:
  assumes "gate_run_step\<^sup>*\<^sup>* gate_new g"
  shows "gate_inv g"
  using assms
proof (induction rule: rtranclp_induct)
  case base
  then show ?case by (simp add: gate_inv_def gate_new_def admission_new_def)
next
  case (step g g')
  from step.hyps(2) show ?case
  proof cases
    case step
    then show ?thesis using gate_step_inv \<open>gate_inv g\<close> by blast
  next
    case (cancel ok ad)
    then show ?thesis using gate_inv_exchange \<open>gate_inv g\<close> unfolding cancel_draining_def by blast
  qed
qed

subsection \<open>A complete drain\<close>

definition closed :: "gate \<Rightarrow> bool" where
  "closed g \<longleftrightarrow> admission_state_of (ga_admission g) \<noteq> Active \<and> Holding \<notin> set (ga_workers g)"

lemma admission_state_cases:
  assumes "exchange_state s s' ad = (ok, ad')"
  shows "admission_state_of ad' = (if ok then s' else admission_state_of ad) \<and>
    ok = (ad_state ad = admission_raw s)"
  using assms by (auto simp: exchange_state_def admission_state_of_def split: if_splits)

lemma worker_step_closed:
  assumes "worker_step w ad = (w', ad')" and "admission_state_of ad \<noteq> Active"
  shows "admission_state_of ad' = admission_state_of ad \<and> w' \<noteq> Holding"
  using assms by (cases w) (auto simp: admission_state_of_def split: if_splits)

lemma waiter_step_state:
  "waiter_step w ad = Some (w', ad') \<Longrightarrow> admission_state_of ad' = admission_state_of ad"
  by (cases w) (auto simp: admission_state_of_def split: if_splits)

lemma gate_step_closed:
  assumes "gate_step g g'" and "closed g"
  shows "closed g'"
  using assms
proof (induction rule: gate_step.induct)
  case (worker i g w ad)
  then have "admission_state_of ad \<noteq> Active" "w \<noteq> Holding"
    using worker_step_closed[OF worker.hyps(2)] by (auto simp: closed_def)
  then show ?case using worker.prems set_update_subset_insert[of "ga_workers g" i w]
    by (auto simp: closed_def)
next
  case (waiter g w ad)
  then show ?case using waiter_step_state[OF waiter.hyps] by (simp add: closed_def)
next
  case (begin_drain g ok ad)
  then show ?case using admission_state_cases[of Active Draining "ga_admission g" ok ad]
    by (auto simp: closed_def begin_draining_def)
next
  case (commit g ok ad)
  then show ?case using admission_state_cases[of Draining ShutdownCommitted "ga_admission g" ok ad]
    by (auto simp: closed_def commit_shutdown_def)
qed (simp_all add: closed_def)

subsection \<open>Executable runs\<close>

text \<open>An action taken when it is possible, so that a schedule of actions can be evaluated.\<close>

datatype gate_action = Work nat | Wait | BeginDrain | Commit | Join | Cancel

fun gate_do :: "gate_action \<Rightarrow> gate \<Rightarrow> gate" where
  "gate_do (Work i) g =
     (if i < length (ga_workers g)
      then (let (w, ad) = worker_step (ga_workers g ! i) (ga_admission g)
            in g\<lparr>ga_admission := ad, ga_workers := (ga_workers g)[i := w]\<rparr>)
      else g)"
| "gate_do Wait g =
     (case waiter_step (ga_waiter g) (ga_admission g) of
        None \<Rightarrow> g | Some (w, ad) \<Rightarrow> g\<lparr>ga_admission := ad, ga_waiter := w\<rparr>)"
| "gate_do BeginDrain g = g\<lparr>ga_admission := snd (begin_draining (ga_admission g))\<rparr>"
| "gate_do Commit g = g\<lparr>ga_admission := snd (commit_shutdown (ga_admission g))\<rparr>"
| "gate_do Join g = g\<lparr>ga_workers := ga_workers g @ [Outside]\<rparr>"
| "gate_do Cancel g = g\<lparr>ga_admission := snd (cancel_draining (ga_admission g))\<rparr>"

lemma gate_do_step: "a \<noteq> Cancel \<Longrightarrow> gate_step\<^sup>*\<^sup>* g (gate_do a g)"
proof (cases a)
  case (Work i)
  then show ?thesis
    by (auto simp: Let_def split: prod.splits intro!: r_into_rtranclp gate_step.worker)
next
  case Wait
  then show ?thesis
    by (auto split: option.splits intro!: r_into_rtranclp gate_step.waiter)
next
  case BeginDrain
  then show ?thesis by (auto intro!: r_into_rtranclp gate_step.begin_drain prod.collapse[symmetric])
next
  case Commit
  then show ?thesis by (auto intro!: r_into_rtranclp gate_step.commit prod.collapse[symmetric])
next
  case Join
  then show ?thesis by (auto intro!: r_into_rtranclp gate_step.join)
qed simp

lemma gate_do_steps: "Cancel \<notin> set as \<Longrightarrow> gate_step\<^sup>*\<^sup>* g (fold gate_do as g)"
proof (induction as arbitrary: g)
  case (Cons a as)
  then have "gate_step\<^sup>*\<^sup>* g (gate_do a g)" "gate_step\<^sup>*\<^sup>* (gate_do a g) (fold gate_do as (gate_do a g))"
    using gate_do_step[of a g] by auto
  then show ?case by simp
qed simp

lemma gate_steps_run: "gate_step\<^sup>*\<^sup>* g g' \<Longrightarrow> gate_run_step\<^sup>*\<^sup>* g g'"
  by (induction rule: rtranclp_induct) (auto intro: gate_run_step.step rtranclp.rtrancl_into_rtrancl)

lemma gate_do_reachable: "Cancel \<notin> set as \<Longrightarrow> gate_run_step\<^sup>*\<^sup>* gate_new (fold gate_do as gate_new)"
  using gate_do_steps gate_steps_run by blast

subsection \<open>Properties\<close>

text \<open>C6. A complete drain admits nothing. Once the gate has left the active state and its permit
  count was read as zero, no worker holds a permit, and none gets one in any later interleaving of
  the workers, the waiter and the shutdown, also not a worker that passed the first check of
  \<open>try_admit\<close> before the drain began; only cancelling the drain reopens the gate.\<close>

theorem drained_admits_nothing:
  assumes "gate_run_step\<^sup>*\<^sup>* gate_new g" and "admission_state_of (ga_admission g) \<noteq> Active"
    and "active_permit_count (ga_admission g) = 0" and "gate_step\<^sup>*\<^sup>* g g'"
  shows "Holding \<notin> set (ga_workers g') \<and> admission_state_of (ga_admission g') \<noteq> Active"
proof -
  have "sum_list (map counts (ga_workers g)) = 0"
    using gate_run_inv[OF assms(1)] assms(3) by (simp add: gate_inv_def active_permit_count_def)
  then have "Holding \<notin> set (ga_workers g)" by auto
  then have "closed g" using assms(2) by (simp add: closed_def)
  with assms(4) have "closed g'"
    by (induction rule: rtranclp_induct) (use gate_step_closed in blast)+
  then show ?thesis by (simp add: closed_def)
qed

text \<open>C38. The drain waiter is not left behind. In every reachable state in which no worker is between
  its increment and its decrement or owes a notification, a waiting \<open>wait_for_drain\<close> has a
  notification to consume and then returns, so a drain whose permits were all given back ends.\<close>

theorem drain_waiter_wakes:
  assumes "gate_run_step\<^sup>*\<^sup>* gate_new g" and "ga_waiter g = Awaiting"
    and "set (ga_workers g) \<inter> {Counted, Refused, Holding, Notifying} = {}"
  shows "\<exists>woken. waiter_step (ga_waiter g) (ga_admission g) = Some (Reading, woken) \<and>
    waiter_step Reading woken = Some (Drained, woken)"
proof -
  have "counts w = 0" if "w \<in> set (ga_workers g)" for w
    using assms(3) that by (cases w) auto
  then have "sum_list (map counts (ga_workers g)) = 0" by simp
  then have "ad_active_permits (ga_admission g) = 0" "ad_notified (ga_admission g)"
    using gate_run_inv[OF assms(1)] assms(2,3) by (auto simp: gate_inv_def)
  then show ?thesis using assms(2) by simp
qed


theorem drained_admits_nothing_witness:
  "Holding \<notin> set (ga_workers (fold gate_do [Work 0, Work 0, Wait, Commit, Work 0]
     (fold gate_do [Join, Work 0, BeginDrain] gate_new)))"
proof -
  have draining: "admission_state_of (ga_admission (fold gate_do [Join, Work 0, BeginDrain] gate_new)) \<noteq> Active"
    "active_permit_count (ga_admission (fold gate_do [Join, Work 0, BeginDrain] gate_new)) = 0"
    by (simp_all add: gate_new_def admission_new_def begin_draining_def exchange_state_def
        admission_state_of_def admission_from_raw_def active_permit_count_def)
  show ?thesis
    by (rule drained_admits_nothing[THEN conjunct1, OF gate_do_reachable draining gate_do_steps]) simp_all
qed

theorem drain_waiter_wakes_witness:
  "\<exists>woken. waiter_step Awaiting (ga_admission (fold gate_do
      [Join, Work 0, Work 0, Wait, BeginDrain, Work 0, Work 0, Work 0] gate_new)) = Some (Reading, woken) \<and>
    waiter_step Reading woken = Some (Drained, woken)"
proof -
  let ?g = "fold gate_do [Join, Work 0, Work 0, Wait, BeginDrain, Work 0, Work 0, Work 0] gate_new"
  have at: "ga_waiter ?g = Awaiting" "ga_workers ?g = [Outside]"
    by (simp_all add: gate_new_def admission_new_def begin_draining_def exchange_state_def
        admission_state_of_def admission_from_raw_def)
  have quiet: "set (ga_workers ?g) \<inter> {Counted, Refused, Holding, Notifying} = {}" unfolding at by simp
  have reach: "gate_run_step\<^sup>*\<^sup>* gate_new ?g" by (rule gate_do_reachable) simp
  show ?thesis using drain_waiter_wakes[OF reach at(1) quiet] unfolding at .
qed

text \<open>The shutdown is committed once. Only a draining gate can be committed; then it stays committed
  in every later run, cancellations included, and beginning, committing or cancelling a drain
  fails.\<close>

theorem shutdown_committed_once:
  assumes "commit_shutdown (ga_admission g) = (True, ad)"
    and "gate_run_step\<^sup>*\<^sup>* (g\<lparr>ga_admission := ad\<rparr>) g'"
  shows "admission_state_of (ga_admission g) = Draining \<and>
    admission_state_of (ga_admission g') = ShutdownCommitted \<and>
    \<not> fst (begin_draining (ga_admission g')) \<and> \<not> fst (commit_shutdown (ga_admission g')) \<and>
    \<not> fst (cancel_draining (ga_admission g'))"
proof -
  have before: "ad_state (ga_admission g) = 1" and after: "ad_state ad = 2"
    using assms(1) by (auto simp: commit_shutdown_def exchange_state_def split: if_splits)
  have worker: "ad_state ad2 = ad_state ad1" if "worker_step w ad1 = (w', ad2)" for w ad1 w' ad2
    using that by (cases w) (auto split: if_splits)
  have waiter: "ad_state ad2 = ad_state ad1" if "waiter_step w ad1 = Some (w', ad2)" for w ad1 w' ad2
    using that by (cases w) (auto split: if_splits)
  from assms(2) have "ad_state (ga_admission g') = 2"
  proof (induction rule: rtranclp_induct)
    case base
    then show ?case using after by simp
  next
    case (step g1 g2)
    from step.hyps(2) show ?case
    proof cases
      case step1: step
      from step1 show ?thesis
        by (cases rule: gate_step.cases) (use step.IH worker waiter in \<open>auto simp: begin_draining_def
            commit_shutdown_def exchange_state_def\<close>)
    next
      case (cancel ok ad)
      then show ?thesis using step.IH by (auto simp: cancel_draining_def exchange_state_def)
    qed
  qed
  then show ?thesis using before
    by (simp add: admission_state_of_def admission_from_raw_def begin_draining_def commit_shutdown_def
        cancel_draining_def exchange_state_def)
qed

theorem shutdown_committed_once_witness:
  "admission_state_of (ga_admission (gate_new\<lparr>ga_admission := \<lparr> ad_state = 2, ad_active_permits = 0,
     ad_notified = False \<rparr>\<rparr>)) = ShutdownCommitted"
proof -
  let ?g = "fold gate_do [BeginDrain] gate_new"
  have commit: "commit_shutdown (ga_admission ?g) =
      (True, \<lparr> ad_state = 2, ad_active_permits = 0, ad_notified = False \<rparr>)"
    by (simp add: gate_new_def admission_new_def begin_draining_def commit_shutdown_def exchange_state_def)
  have same: "?g\<lparr>ga_admission := a\<rparr> = gate_new\<lparr>ga_admission := a\<rparr>" for a by (simp add: gate_new_def)
  show ?thesis
    using shutdown_committed_once[OF commit rtranclp.rtrancl_refl] unfolding same by simp
qed

end
