(* ===== verification/Outcome.thy ===== *)
theory Outcome
  imports Prelude
begin

section \<open>Fallible results, ceiling division and chunks\<close>

text \<open>
  \<open>Result\<close> is a sum with the error on the left: the \<open>?\<close> operator, \<open>ok_or\<close>, and collecting a list
  of results. \<open>usize::div_ceil\<close> and \<open>slice::chunks\<close> of the standard library, with the lemmas the
  segmentation of messages uses: the chunks of a list are its pieces in order, there are
  \<open>div_ceil (length xs) k\<close> of them, and no piece but possibly the last is shorter than \<open>k\<close>.
\<close>

fun try_bind :: "'e + 'a \<Rightarrow> ('a \<Rightarrow> 'e + 'b) \<Rightarrow> 'e + 'b" where
  "try_bind (Inl e) f = Inl e"
| "try_bind (Inr x) f = f x"

definition ok_or :: "'e \<Rightarrow> 'a option \<Rightarrow> 'e + 'a" where
  "ok_or e x = (case x of None \<Rightarrow> Inl e | Some v \<Rightarrow> Inr v)"

fun collect_results :: "('e + 'a) list \<Rightarrow> 'e + 'a list" where
  "collect_results [] = Inr []"
| "collect_results (r # rs) = try_bind r (\<lambda>x. try_bind (collect_results rs) (\<lambda>xs. Inr (x # xs)))"

lemma try_bind_Inr: "try_bind r f = Inr y \<longleftrightarrow> (\<exists>x. r = Inr x \<and> f x = Inr y)"
  by (cases r) simp_all

lemma try_bind_assoc: "try_bind (try_bind r f) g = try_bind r (\<lambda>x. try_bind (f x) g)"
  by (cases r) simp_all

lemma ok_or_Inr [simp]: "ok_or e x = Inr v \<longleftrightarrow> x = Some v"
  by (cases x) (simp_all add: ok_or_def)

lemma ok_or_Some [simp]: "ok_or e (Some v) = Inr v"
  by (simp add: ok_or_def)

lemma collect_results_Inr: "collect_results rs = Inr xs \<longleftrightarrow> rs = map Inr xs"
  by (induction rs arbitrary: xs) (auto simp: try_bind_Inr Cons_eq_map_conv)

lemma collect_results_map [simp]: "collect_results (map (\<lambda>x. Inr (f x)) xs) = Inr (map f xs)"
  by (induction xs) simp_all

subsection \<open>Ceiling division\<close>

definition div_ceil :: "nat \<Rightarrow> nat \<Rightarrow> nat" where
  "div_ceil n d = (if n mod d > 0 then n div d + 1 else n div d)"

lemma div_ceil_le_iff: "0 < d \<Longrightarrow> div_ceil n d \<le> q \<longleftrightarrow> n \<le> q * d"
proof -
  assume d: "0 < d"
  have n: "n = n div d * d + n mod d" by simp
  have m: "n mod d < d" using d by simp
  show ?thesis
  proof (cases "n mod d = 0")
    case True
    then have "n = n div d * d" using n by simp
    then show ?thesis using d True unfolding div_ceil_def by (metis less_irrefl mult_le_cancel2)
  next
    case False
    have "n div d + 1 \<le> q \<longleftrightarrow> n \<le> q * d"
    proof
      assume "n div d + 1 \<le> q"
      then have "(n div d + 1) * d \<le> q * d" by (rule mult_le_mono1)
      moreover have "(n div d + 1) * d = n div d * d + d" by simp
      ultimately show "n \<le> q * d" using n m by linarith
    next
      assume "n \<le> q * d"
      then have "n div d * d < q * d" using n False by linarith
      then show "n div d + 1 \<le> q" by simp
    qed
    then show ?thesis using False by (simp add: div_ceil_def)
  qed
qed

lemma div_ceil_mult: "0 < d \<Longrightarrow> n \<le> div_ceil n d * d"
  using div_ceil_le_iff[of d n "div_ceil n d"] by simp

lemma div_ceil_self [simp]: "0 < n \<Longrightarrow> div_ceil n n = 1"
  by (simp add: div_ceil_def)

lemma div_ceil_pos: "0 < n \<Longrightarrow> 0 < d \<Longrightarrow> 0 < div_ceil n d"
  using div_ceil_mult[of d n] by (cases "div_ceil n d") auto

lemma div_ceil_anti: "0 < d \<Longrightarrow> d \<le> d' \<Longrightarrow> div_ceil n d' \<le> div_ceil n d"
proof -
  assume d: "0 < d" "d \<le> d'"
  have "n \<le> div_ceil n d * d" using d by (simp add: div_ceil_mult)
  also have "\<dots> \<le> div_ceil n d * d'" using d by simp
  finally show ?thesis using d by (simp add: div_ceil_le_iff)
qed

lemma div_ceil_twice: "0 < d \<Longrightarrow> 0 < n \<Longrightarrow> div_ceil n (div_ceil n d) \<le> d"
  using div_ceil_mult[of d n] div_ceil_pos[of n d]
  by (simp add: div_ceil_le_iff mult.commute)

subsection \<open>Chunks\<close>

text \<open>\<open>slice::chunks\<close>; the code never calls it with size 0, which panics there.\<close>

function chunks :: "nat \<Rightarrow> 'a list \<Rightarrow> 'a list list" where
  "chunks k xs = (if xs = [] \<or> k = 0 then [] else take k xs # chunks k (drop k xs))"
  by pat_completeness auto
termination by (relation "measure (\<lambda>(k, xs). length xs)") auto

declare chunks.simps [simp del]

lemma chunks_Nil [simp]: "chunks k [] = []"
  by (simp add: chunks.simps)

lemma chunks_step: "xs \<noteq> [] \<Longrightarrow> 0 < k \<Longrightarrow> chunks k xs = take k xs # chunks k (drop k xs)"
  by (simp add: chunks.simps[of k xs])

lemma concat_chunks: "0 < k \<Longrightarrow> concat (chunks k xs) = xs"
proof (induction k xs rule: chunks.induct)
  case (1 k xs)
  then show ?case by (cases "xs = []") (simp_all add: chunks_step)
qed

lemma length_chunks: "0 < k \<Longrightarrow> length (chunks k xs) = div_ceil (length xs) k"
proof (induction k xs rule: chunks.induct)
  case (1 k xs)
  show ?case
  proof (cases "xs = []")
    case True
    then show ?thesis by (simp add: div_ceil_def)
  next
    case False
    have "length (chunks k xs) = Suc (div_ceil (length xs - k) k)"
      using 1 False by (simp add: chunks_step)
    also have "\<dots> = div_ceil (length xs) k"
    proof (cases "length xs \<le> k")
      case True
      then have "div_ceil (length xs) k = 1" using False 1(2) div_ceil_le_iff[of k "length xs" 1]
          div_ceil_pos[of "length xs" k] by simp
      then show ?thesis using True by (simp add: div_ceil_def)
    next
      case less: False
      then show ?thesis using 1(2) by (simp add: div_ceil_def le_div_geq le_mod_geq)
    qed
    finally show ?thesis .
  qed
qed

lemma chunks_nonempty: "c \<in> set (chunks k xs) \<Longrightarrow> c \<noteq> []"
proof (induction k xs rule: chunks.induct)
  case (1 k xs)
  then show ?case by (cases "xs = [] \<or> k = 0") (auto simp: chunks.simps[of k xs])
qed

lemma length_chunk_le: "c \<in> set (chunks k xs) \<Longrightarrow> length c \<le> k"
proof (induction k xs rule: chunks.induct)
  case (1 k xs)
  then show ?case by (cases "xs = [] \<or> k = 0") (auto simp: chunks.simps[of k xs])
qed

lemma enumerate_snd: "p \<in> set (List.enumerate n xs) \<Longrightarrow> snd p \<in> set xs"
  by (metis image_eqI list.set_map map_snd_enumerate)

end
