(* ===== verification/Json.thy ===== *)
theory Json
  imports Prelude
begin

section \<open>JSON values\<close>

text \<open>
  The data of \<open>serde_json::Value\<close> and the accessors the sources call on it. The serialiser and
  the parser are library code outside the repository; where a component uses them they are
  arguments of its definitions. A floating-point number is kept as its text.
\<close>

datatype json =
    JNull
  | JBool bool
  | JNum int
  | JFloat string
  | JStr string
  | JArr "json list"
  | JObj "(string \<times> json) list"

fun jget :: "string \<Rightarrow> json \<Rightarrow> json option" where
  "jget k (JObj fields) = map_of fields k"
| "jget k _ = None"

fun as_str :: "json \<Rightarrow> string option" where
  "as_str (JStr s) = Some s"
| "as_str _ = None"

fun as_bool :: "json \<Rightarrow> bool option" where
  "as_bool (JBool b) = Some b"
| "as_bool _ = None"

fun as_u64 :: "json \<Rightarrow> nat option" where
  "as_u64 (JNum i) = (if 0 \<le> i \<and> i < 2 ^ 64 then Some (nat i) else None)"
| "as_u64 _ = None"

fun as_array :: "json \<Rightarrow> json list option" where
  "as_array (JArr items) = Some items"
| "as_array _ = None"

fun as_object :: "json \<Rightarrow> (string \<times> json) list option" where
  "as_object (JObj fields) = Some fields"
| "as_object _ = None"

definition jget_str :: "string \<Rightarrow> json \<Rightarrow> string option" where
  "jget_str k v = Option.bind (jget k v) as_str"

lemma jget_str_obj [simp]:
  "jget_str k (JObj fs) = Option.bind (map_of fs k) as_str"
  by (simp add: jget_str_def)

text \<open>A value that is reached by an accessor is smaller, for functions that recurse along them.\<close>

lemma size_field: "(k, w) \<in> set fields \<Longrightarrow> size w < Suc (size_list (size_prod (\<lambda>_. 0) size) fields)"
  by (induction fields) auto

lemma size_jget [termination_simp]: "jget k v = Some w \<Longrightarrow> size w < size v"
  by (cases v) (auto simp: size_field dest!: map_of_SomeD)

lemma size_as_array [termination_simp]: "as_array v = Some items \<Longrightarrow> w \<in> set items \<Longrightarrow> size w < size v"
  by (cases v) (auto simp: less_Suc_eq_le dest: size_list_estimation'[where f = size, OF _ order.refl])

end
