(* ===== verification/RcProtocol.thy ===== *)
theory RcProtocol
  imports Outcome Decimal Json
begin

section \<open>Remote-control envelopes (src/src/remote_control_backend/protocol.rs)\<close>

text \<open>
  Messages travel in envelopes, and a message whose envelope is too big in segments. The definitions
  build the envelopes of a client message and reassemble the segments of a server message. Base64
  (\<open>encode64\<close>, \<open>decode64\<close>) and the JSON serialiser and parser (\<open>to_vec\<close>, \<open>from_slice\<close>) are library
  code and arguments of the definitions; bytes are naturals. The lemmas show that segmentation ends,
  that every envelope it gives is within the size limit, that reassembling the segments gives the
  message back, and that what reassembly keeps is bounded.
\<close>

subsection \<open>Data\<close>

definition REMOTE_CONTROL_SEGMENT_TARGET_BYTES :: nat where
  "REMOTE_CONTROL_SEGMENT_TARGET_BYTES = 100 * 1024"
definition REMOTE_CONTROL_SEGMENT_MAX_BYTES :: nat where
  "REMOTE_CONTROL_SEGMENT_MAX_BYTES = 150 * 1024"
definition REMOTE_CONTROL_REASSEMBLED_MAX_BYTES :: nat where
  "REMOTE_CONTROL_REASSEMBLED_MAX_BYTES = 100 * 1024 * 1024"
definition REMOTE_CONTROL_SEGMENT_COUNT_MAX :: nat where
  "REMOTE_CONTROL_SEGMENT_COUNT_MAX = 1024"

datatype incoming_event =
    ServerMessage json
  | ServerMessageChunk nat nat nat string
  | AckEvent
  | PongEvent string

record incoming_envelope =
  ie_event :: incoming_event
  ie_client_id :: string
  ie_stream_id :: string
  ie_seq_id :: nat

text \<open>A chunk's fields are the segment's index, the number of segments, the size of the message in
  bytes and the base64 text.\<close>

datatype outgoing_event =
    ClientMessage json
  | ClientMessageChunk nat nat nat string
  | ClientAck "nat option"
  | ClientPing

record outgoing_envelope =
  oe_event :: outgoing_event
  oe_client_id :: string
  oe_stream_id :: "string option"
  oe_seq_id :: "nat option"
  oe_cursor :: "string option"

text \<open>The serde attributes: the event is flattened with its tag \<open>type\<close> in snake case; absent optional
  fields are skipped, except the segment of an acknowledgement, which is \<open>null\<close>.\<close>

fun outgoing_event_fields :: "outgoing_event \<Rightarrow> (string \<times> json) list" where
  "outgoing_event_fields (ClientMessage message) =
     [(''type'', JStr ''client_message''), (''message'', message)]"
| "outgoing_event_fields (ClientMessageChunk segment_id segment_count message_size_bytes chunk_base64) =
     [(''type'', JStr ''client_message_chunk''), (''segment_id'', JNum (int segment_id)),
      (''segment_count'', JNum (int segment_count)),
      (''message_size_bytes'', JNum (int message_size_bytes)),
      (''message_chunk_base64'', JStr chunk_base64)]"
| "outgoing_event_fields (ClientAck segment_id) =
     [(''type'', JStr ''ack''),
      (''segment_id'', case segment_id of None \<Rightarrow> JNull | Some s \<Rightarrow> JNum (int s))]"
| "outgoing_event_fields ClientPing = [(''type'', JStr ''ping'')]"

definition skip_none :: "string \<Rightarrow> ('a \<Rightarrow> json) \<Rightarrow> 'a option \<Rightarrow> (string \<times> json) list" where
  "skip_none name value field = (case field of None \<Rightarrow> [] | Some v \<Rightarrow> [(name, value v)])"

definition envelope_value :: "outgoing_envelope \<Rightarrow> json" where
  "envelope_value envelope =
     JObj (outgoing_event_fields (oe_event envelope) @ [(''client_id'', JStr (oe_client_id envelope))]
       @ skip_none ''stream_id'' JStr (oe_stream_id envelope)
       @ skip_none ''seq_id'' (\<lambda>n. JNum (int n)) (oe_seq_id envelope)
       @ skip_none ''cursor'' JStr (oe_cursor envelope))"

datatype protocol_error =
  SegmentCountExceeded nat | MessageTooLarge nat | CannotFit | SerializeFailed

subsection \<open>Building envelopes\<close>

definition build_client_ping_envelope :: "string \<Rightarrow> string \<Rightarrow> string option \<Rightarrow> json" where
  "build_client_ping_envelope client_id stream_id cursor =
     envelope_value \<lparr> oe_event = ClientPing, oe_client_id = client_id, oe_stream_id = Some stream_id,
       oe_seq_id = None, oe_cursor = cursor \<rparr>"

definition build_client_ack_envelope :: "string \<Rightarrow> string \<Rightarrow> nat \<Rightarrow> nat option \<Rightarrow> json" where
  "build_client_ack_envelope client_id stream_id seq_id segment_id =
     envelope_value \<lparr> oe_event = ClientAck segment_id, oe_client_id = client_id,
       oe_stream_id = Some stream_id, oe_seq_id = Some seq_id, oe_cursor = None \<rparr>"

definition build_client_envelope ::
  "string \<Rightarrow> string option \<Rightarrow> nat \<Rightarrow> json \<Rightarrow> string option \<Rightarrow> json" where
  "build_client_envelope client_id stream_id seq_id message cursor =
     envelope_value \<lparr> oe_event = ClientMessage message, oe_client_id = client_id,
       oe_stream_id = stream_id, oe_seq_id = Some seq_id, oe_cursor = cursor \<rparr>"

definition build_client_chunk_envelope ::
  "(nat list \<Rightarrow> string) \<Rightarrow> string \<Rightarrow> string \<Rightarrow> nat \<Rightarrow> string option \<Rightarrow> nat \<Rightarrow> nat \<Rightarrow> nat \<Rightarrow> nat list
     \<Rightarrow> protocol_error + json" where
  "build_client_chunk_envelope encode64 client_id stream_id seq_id cursor
       segment_id segment_count message_size_bytes chunk =
     (if segment_count > REMOTE_CONTROL_SEGMENT_COUNT_MAX then Inl (SegmentCountExceeded segment_count)
      else Inr (envelope_value
        \<lparr> oe_event = ClientMessageChunk segment_id segment_count message_size_bytes (encode64 chunk),
          oe_client_id = client_id, oe_stream_id = Some stream_id, oe_seq_id = Some seq_id,
          oe_cursor = cursor \<rparr>))"

definition serialized_json_len :: "(json \<Rightarrow> nat list option) \<Rightarrow> json \<Rightarrow> protocol_error + nat" where
  "serialized_json_len to_vec value =
     try_bind (ok_or SerializeFailed (to_vec value)) (\<lambda>bytes. Inr (length bytes))"

definition serialized_client_chunk_len ::
  "(nat list \<Rightarrow> string) \<Rightarrow> (json \<Rightarrow> nat list option) \<Rightarrow> string \<Rightarrow> string \<Rightarrow> nat \<Rightarrow> string option
     \<Rightarrow> nat \<Rightarrow> nat \<Rightarrow> nat \<Rightarrow> nat list \<Rightarrow> protocol_error + nat" where
  "serialized_client_chunk_len encode64 to_vec client_id stream_id seq_id cursor
       segment_id segment_count message_size_bytes chunk =
     try_bind (build_client_chunk_envelope encode64 client_id stream_id seq_id cursor
        segment_id segment_count message_size_bytes chunk) (serialized_json_len to_vec)"

text \<open>The test \<open>segments_fit\<close>: every segment's envelope is within the limit.\<close>

definition segments_fit ::
  "(nat \<Rightarrow> nat \<Rightarrow> nat list \<Rightarrow> protocol_error + nat) \<Rightarrow> nat list \<Rightarrow> nat \<Rightarrow> nat \<Rightarrow> bool" where
  "segments_fit chunk_len raw chunk_size segment_count =
     list_all (\<lambda>(segment_id, chunk).
         case chunk_len segment_id segment_count chunk of
           Inl _ \<Rightarrow> False
         | Inr len \<Rightarrow> len \<le> REMOTE_CONTROL_SEGMENT_MAX_BYTES)
       (List.enumerate 0 (chunks chunk_size raw))"

text \<open>The loop: the chunk size and the number of segments with which all segments fit. The chunk
  size decreases in every round.\<close>

function segment_loop :: "(nat \<Rightarrow> nat \<Rightarrow> bool) \<Rightarrow> nat \<Rightarrow> nat \<Rightarrow> protocol_error + nat \<times> nat" where
  "segment_loop fits message_size_bytes segment_count =
     (if segment_count > REMOTE_CONTROL_SEGMENT_COUNT_MAX then Inl (SegmentCountExceeded segment_count)
      else
        (let chunk_size = max 1 (div_ceil message_size_bytes segment_count);
             segment_count = div_ceil message_size_bytes chunk_size
         in if fits chunk_size segment_count then Inr (chunk_size, segment_count)
            else if chunk_size = 1 then Inl CannotFit
            else
              (let next_segment_count = segment_count + 1;
                   next_chunk_size = max 1 (div_ceil message_size_bytes next_segment_count)
               in segment_loop fits message_size_bytes
                    (if next_chunk_size = chunk_size then message_size_bytes else next_segment_count))))"
  by pat_completeness auto

lemma next_chunk_size_less:
  assumes "c = max 1 (div_ceil n k)" and "c \<noteq> 1" and "s = div_ceil n c"
  shows "max 1 (div_ceil n (if max 1 (div_ceil n (s + 1)) = c then n else s + 1)) < c"
proof -
  have c: "1 < c" using assms(1,2) by auto
  have n: "0 < n" using assms(1,2) by (cases n) (auto simp: div_ceil_def)
  have s: "0 < s" using div_ceil_pos[OF n, of c] c assms(3) by simp
  have "div_ceil n (s + 1) \<le> div_ceil n s" using s by (simp add: div_ceil_anti)
  also have "\<dots> \<le> c" unfolding assms(3) using div_ceil_twice[of c n] c n by simp
  finally have "max 1 (div_ceil n (s + 1)) \<le> c" using c by simp
  then show ?thesis using c n by auto
qed

termination segment_loop
proof (relation "measure (\<lambda>(fits, n, k). max 1 (div_ceil n k))")
  fix fits :: "nat \<Rightarrow> nat \<Rightarrow> bool" and n k c s s' c'
  assume c: "c = max 1 (div_ceil n k)" and s: "s = div_ceil n c" and more: "c \<noteq> 1"
    and s': "s' = s + 1" and c': "c' = max 1 (div_ceil n s')"
  have "max 1 (div_ceil n (if c' = c then n else s')) < c"
    unfolding c' s' by (rule next_chunk_size_less[OF c more s])
  then show "((fits, n, if c' = c then n else s'), fits, n, k) \<in> measure (\<lambda>(fits, n, k). max 1 (div_ceil n k))"
    by (simp only: in_measure prod.case c[symmetric])
qed simp

declare segment_loop.simps [simp del]

definition build_client_message_envelopes ::
  "(nat list \<Rightarrow> string) \<Rightarrow> (json \<Rightarrow> nat list option) \<Rightarrow> string \<Rightarrow> string \<Rightarrow> nat \<Rightarrow> json \<Rightarrow> string option
     \<Rightarrow> protocol_error + json list" where
  "build_client_message_envelopes encode64 to_vec client_id stream_id seq_id message cursor =
     (let envelope = build_client_envelope client_id (Some stream_id) seq_id message cursor in
      try_bind (serialized_json_len to_vec envelope) (\<lambda>len.
        if len \<le> REMOTE_CONTROL_SEGMENT_MAX_BYTES then Inr [envelope]
        else try_bind (ok_or SerializeFailed (to_vec message)) (\<lambda>raw.
          let message_size_bytes = length raw;
              chunk_len = (\<lambda>segment_id segment_count chunk.
                serialized_client_chunk_len encode64 to_vec client_id stream_id seq_id cursor
                  segment_id segment_count message_size_bytes chunk)
          in if message_size_bytes > REMOTE_CONTROL_REASSEMBLED_MAX_BYTES
             then Inl (MessageTooLarge message_size_bytes)
             else try_bind (chunk_len 0 (min (max message_size_bytes 1) REMOTE_CONTROL_SEGMENT_COUNT_MAX)
                              (take 1 raw)) (\<lambda>minimal.
               if minimal > REMOTE_CONTROL_SEGMENT_MAX_BYTES then Inl CannotFit
               else try_bind (segment_loop (segments_fit chunk_len raw) message_size_bytes
                        (max 2 (div_ceil message_size_bytes REMOTE_CONTROL_SEGMENT_TARGET_BYTES)))
                      (\<lambda>(chunk_size, segment_count).
                         collect_results (map (\<lambda>(segment_id, chunk).
                           build_client_chunk_envelope encode64 client_id stream_id seq_id cursor
                             segment_id segment_count message_size_bytes chunk)
                           (List.enumerate 0 (chunks chunk_size raw))))))))"

subsection \<open>Reassembling\<close>

record chunk_assembly =
  as_segment_count :: nat
  as_message_size_bytes :: nat
  as_raw :: "nat list"
  as_next_segment_id :: nat

datatype chunk_observation = ChunkPending | ChunkComplete json | ChunkDropped

type_synonym chunk_map = "(string \<times> string \<times> nat, chunk_assembly) hmap"

definition new_assembly :: "nat \<Rightarrow> nat \<Rightarrow> chunk_assembly" where
  "new_assembly segment_count message_size_bytes =
     \<lparr> as_segment_count = segment_count, as_message_size_bytes = message_size_bytes,
       as_raw = [], as_next_segment_id = 0 \<rparr>"

definition invalid_chunk_metadata :: "nat \<Rightarrow> nat \<Rightarrow> nat \<Rightarrow> string \<Rightarrow> bool" where
  "invalid_chunk_metadata segment_id segment_count message_size_bytes chunk_base64 \<longleftrightarrow>
     segment_count = 0 \<or> segment_count > REMOTE_CONTROL_SEGMENT_COUNT_MAX
     \<or> segment_id \<ge> segment_count \<or> message_size_bytes = 0
     \<or> message_size_bytes > REMOTE_CONTROL_REASSEMBLED_MAX_BYTES \<or> chunk_base64 = []"

text \<open>What happens to the assembly a valid segment belongs to: it goes on, ends with a message, or is
  given up (in the last two cases it leaves the map).\<close>

definition extend_assembly ::
  "(string \<Rightarrow> nat list option) \<Rightarrow> (nat list \<Rightarrow> json option) \<Rightarrow> nat \<Rightarrow> nat \<Rightarrow> nat \<Rightarrow> string
     \<Rightarrow> chunk_assembly \<Rightarrow> chunk_observation \<times> chunk_assembly option" where
  "extend_assembly decode64 from_slice segment_id segment_count message_size_bytes chunk_base64 assembly =
     (if as_segment_count assembly \<noteq> segment_count
         \<or> as_message_size_bytes assembly \<noteq> message_size_bytes
         \<or> as_next_segment_id assembly \<noteq> segment_id
      then (ChunkDropped, None)
      else case decode64 chunk_base64 of
             None \<Rightarrow> (ChunkDropped, None)
           | Some chunk \<Rightarrow>
               if sat_add (length (as_raw assembly)) (length chunk) > as_message_size_bytes assembly
               then (ChunkDropped, None)
               else
                 (let assembly = assembly\<lparr>as_raw := as_raw assembly @ chunk,
                                          as_next_segment_id := as_next_segment_id assembly + 1\<rparr>
                  in if as_next_segment_id assembly < as_segment_count assembly
                     then (ChunkPending, Some assembly)
                     else if length (as_raw assembly) \<noteq> as_message_size_bytes assembly
                     then (ChunkDropped, None)
                     else case from_slice (as_raw assembly) of
                            Some message \<Rightarrow> (ChunkComplete message, None)
                          | None \<Rightarrow> (ChunkDropped, None)))"

definition observe_server_chunk ::
  "(string \<Rightarrow> nat list option) \<Rightarrow> (nat list \<Rightarrow> json option) \<Rightarrow> string \<Rightarrow> string \<Rightarrow> nat
     \<Rightarrow> nat \<Rightarrow> nat \<Rightarrow> nat \<Rightarrow> string \<Rightarrow> chunk_map \<Rightarrow> chunk_observation \<times> chunk_map" where
  "observe_server_chunk decode64 from_slice client_id stream_id seq_id
       segment_id segment_count message_size_bytes chunk_base64 assemblies =
     (let key = (client_id, stream_id, seq_id) in
      if (case hget assemblies key of None \<Rightarrow> False
          | Some assembly \<Rightarrow> segment_id < as_next_segment_id assembly)
      then (ChunkDropped, assemblies)
      else if invalid_chunk_metadata segment_id segment_count message_size_bytes chunk_base64
      then (ChunkDropped, hremove key assemblies)
      else
        (let assembly = unwrap_or (hget assemblies key) (new_assembly segment_count message_size_bytes)
         in case extend_assembly decode64 from_slice segment_id segment_count message_size_bytes
                   chunk_base64 assembly of
              (outcome, Some assembly) \<Rightarrow> (outcome, hinsert key assembly assemblies)
            | (outcome, None) \<Rightarrow> (outcome, hremove key assemblies)))"

subsection \<open>Segmentation\<close>

lemma segment_loop_sound:
  "segment_loop fits n k = Inr (c, s) \<Longrightarrow> fits c s \<and> 0 < c \<and> s = div_ceil n c"
proof (induction fits n k rule: segment_loop.induct)
  case (1 fits n k)
  let ?c = "max 1 (div_ceil n k)"
  let ?s = "div_ceil n ?c"
  have bound: "\<not> k > REMOTE_CONTROL_SEGMENT_COUNT_MAX"
    using "1.prems" by (subst (asm) segment_loop.simps) (simp split: if_splits)
  show ?case
  proof (cases "fits ?c ?s")
    case True
    then have "segment_loop fits n k = Inr (?c, ?s)"
      using bound by (subst segment_loop.simps) (simp only: Let_def if_False if_True)
    then show ?thesis using "1.prems" True by auto
  next
    case False
    have more: "?c \<noteq> 1"
      using "1.prems" bound False by (subst (asm) segment_loop.simps) (auto simp only: Let_def sum.simps split: if_splits)
    then have "segment_loop fits n k
        = segment_loop fits n (if max 1 (div_ceil n (?s + 1)) = ?c then n else ?s + 1)"
      using bound False by (subst segment_loop.simps) (simp only: Let_def if_False)
    then have "segment_loop fits n (if max 1 (div_ceil n (?s + 1)) = ?c then n else ?s + 1) = Inr (c, s)"
      using "1.prems" by (rule trans[OF sym])
    then show ?thesis by (rule "1.IH"[OF bound refl refl False more refl refl])
  qed
qed

lemma segments_fit_enumerate:
  assumes "segments_fit chunk_len raw c s" and "(i, chunk) \<in> set (List.enumerate 0 (chunks c raw))"
  shows "\<exists>len. chunk_len i s chunk = Inr len \<and> len \<le> REMOTE_CONTROL_SEGMENT_MAX_BYTES"
proof -
  have "case chunk_len i s chunk of Inl _ \<Rightarrow> False | Inr len \<Rightarrow> len \<le> REMOTE_CONTROL_SEGMENT_MAX_BYTES"
    using bspec[OF assms(1)[unfolded segments_fit_def list_all_iff] assms(2)] by simp
  then show ?thesis by (cases "chunk_len i s chunk") simp_all
qed

text \<open>The envelope of a numbered segment.\<close>

definition chunk_envelope ::
  "(nat list \<Rightarrow> string) \<Rightarrow> string \<Rightarrow> string \<Rightarrow> nat \<Rightarrow> string option \<Rightarrow> nat \<Rightarrow> nat \<Rightarrow> nat \<times> nat list \<Rightarrow> json" where
  "chunk_envelope encode64 client_id stream_id seq_id cursor segment_count message_size_bytes p =
     envelope_value \<lparr> oe_event = ClientMessageChunk (fst p) segment_count message_size_bytes (encode64 (snd p)),
       oe_client_id = client_id, oe_stream_id = Some stream_id, oe_seq_id = Some seq_id,
       oe_cursor = cursor \<rparr>"

lemma build_client_chunk_envelope_Inr:
  "build_client_chunk_envelope encode64 cid sid q cursor i n len chunk = Inr v \<longleftrightarrow>
     n \<le> REMOTE_CONTROL_SEGMENT_COUNT_MAX \<and> v = chunk_envelope encode64 cid sid q cursor n len (i, chunk)"
  by (auto simp: build_client_chunk_envelope_def chunk_envelope_def)

lemma serialized_client_chunk_len_Inr:
  "serialized_client_chunk_len encode64 to_vec cid sid q cursor i n len chunk = Inr l \<longleftrightarrow>
     n \<le> REMOTE_CONTROL_SEGMENT_COUNT_MAX \<and>
     (\<exists>bytes. to_vec (chunk_envelope encode64 cid sid q cursor n len (i, chunk)) = Some bytes \<and> length bytes = l)"
  by (auto simp: serialized_client_chunk_len_def serialized_json_len_def try_bind_Inr
      build_client_chunk_envelope_Inr)

lemma chunk_envelopes_collect:
  assumes "collect_results (map (\<lambda>(i, chunk).
      build_client_chunk_envelope encode64 cid sid q cursor i n len chunk) ps) = Inr envs"
  shows "envs = map (chunk_envelope encode64 cid sid q cursor n len) ps"
  using assms
  by (induction ps arbitrary: envs) (auto simp: try_bind_Inr build_client_chunk_envelope_Inr)

text \<open>The envelopes of a message: the plain one, or its segments for some chunk size.\<close>

lemma build_client_message_envelopes_cases:
  assumes "build_client_message_envelopes encode64 to_vec cid sid q message cursor = Inr envs"
  obtains (plain) bytes where
    "to_vec (build_client_envelope cid (Some sid) q message cursor) = Some bytes"
    "length bytes \<le> REMOTE_CONTROL_SEGMENT_MAX_BYTES"
    "envs = [build_client_envelope cid (Some sid) q message cursor]"
  | (segmented) whole raw c n where
    "to_vec (build_client_envelope cid (Some sid) q message cursor) = Some whole"
    "length whole > REMOTE_CONTROL_SEGMENT_MAX_BYTES"
    "to_vec message = Some raw" "length raw \<le> REMOTE_CONTROL_REASSEMBLED_MAX_BYTES" "0 < c"
    "n = length (chunks c raw)"
    "envs = map (chunk_envelope encode64 cid sid q cursor n (length raw)) (List.enumerate 0 (chunks c raw))"
    "segments_fit (\<lambda>i n. serialized_client_chunk_len encode64 to_vec cid sid q cursor i n (length raw)) raw c n"
proof -
  let ?env = "build_client_envelope cid (Some sid) q message cursor"
  obtain whole where whole: "to_vec ?env = Some whole"
    using assms unfolding build_client_message_envelopes_def Let_def try_bind_Inr serialized_json_len_def ok_or_Inr
    by blast
  show ?thesis
  proof (cases "length whole \<le> REMOTE_CONTROL_SEGMENT_MAX_BYTES")
    case True
    then have "envs = [?env]"
      using assms whole by (simp add: build_client_message_envelopes_def serialized_json_len_def Let_def)
    then show ?thesis using plain whole True by blast
  next
    case False
    have rest: "try_bind (ok_or SerializeFailed (to_vec message)) (\<lambda>raw.
        if length raw > REMOTE_CONTROL_REASSEMBLED_MAX_BYTES then Inl (MessageTooLarge (length raw))
        else try_bind (serialized_client_chunk_len encode64 to_vec cid sid q cursor 0
              (min (max (length raw) 1) REMOTE_CONTROL_SEGMENT_COUNT_MAX) (length raw) (take 1 raw)) (\<lambda>minimal.
          if minimal > REMOTE_CONTROL_SEGMENT_MAX_BYTES then Inl CannotFit
          else try_bind (segment_loop (segments_fit (\<lambda>i n. serialized_client_chunk_len encode64 to_vec cid sid q
                cursor i n (length raw)) raw) (length raw)
                (max 2 (div_ceil (length raw) REMOTE_CONTROL_SEGMENT_TARGET_BYTES)))
              (\<lambda>(c, n). collect_results (map (\<lambda>(i, chunk). build_client_chunk_envelope encode64 cid sid q cursor
                i n (length raw) chunk) (List.enumerate 0 (chunks c raw)))))) = Inr envs"
      using assms whole False
      by (simp add: build_client_message_envelopes_def serialized_json_len_def Let_def)
    then obtain raw where raw: "to_vec message = Some raw"
      unfolding try_bind_Inr ok_or_Inr by blast
    define chunk_len where "chunk_len = (\<lambda>i n. serialized_client_chunk_len encode64 to_vec cid sid q cursor
      i n (length raw))"
    have small: "length raw \<le> REMOTE_CONTROL_REASSEMBLED_MAX_BYTES"
      using rest raw by (simp split: if_splits)
    have "\<exists>c n. segment_loop (segments_fit chunk_len raw) (length raw)
          (max 2 (div_ceil (length raw) REMOTE_CONTROL_SEGMENT_TARGET_BYTES)) = Inr (c, n) \<and>
        collect_results (map (\<lambda>(i, chunk). build_client_chunk_envelope encode64 cid sid q cursor i n
          (length raw) chunk) (List.enumerate 0 (chunks c raw))) = Inr envs"
      using rest raw small unfolding chunk_len_def
      by (auto simp: try_bind_Inr split: if_splits)
    then obtain c n where loop: "segment_loop (segments_fit chunk_len raw) (length raw)
          (max 2 (div_ceil (length raw) REMOTE_CONTROL_SEGMENT_TARGET_BYTES)) = Inr (c, n)"
      and envs: "collect_results (map (\<lambda>(i, chunk). build_client_chunk_envelope encode64 cid sid q cursor i n
          (length raw) chunk) (List.enumerate 0 (chunks c raw))) = Inr envs" by blast
    have found: "segments_fit chunk_len raw c n" "0 < c" "n = div_ceil (length raw) c"
      using segment_loop_sound[OF loop] by blast+
    then have n: "n = length (chunks c raw)" by (simp add: length_chunks)
    show ?thesis
      using segmented[OF whole _ raw small found(2) n chunk_envelopes_collect[OF envs]] False found(1)
      unfolding chunk_len_def by simp
  qed
qed

lemma build_envelopes_fit:
  assumes "build_client_message_envelopes encode64 to_vec cid sid q message cursor = Inr envs"
    and "env \<in> set envs"
  shows "\<exists>bytes. to_vec env = Some bytes \<and> length bytes \<le> REMOTE_CONTROL_SEGMENT_MAX_BYTES"
  using assms(1)
proof (cases rule: build_client_message_envelopes_cases)
  case (segmented whole raw c n)
  then obtain p where p: "p \<in> set (List.enumerate 0 (chunks c raw))"
      "env = chunk_envelope encode64 cid sid q cursor n (length raw) p"
    using assms(2) by auto
  then show ?thesis
    using segments_fit_enumerate[OF segmented(8), of "fst p" "snd p"]
    by (auto simp: serialized_client_chunk_len_Inr)
qed (use assms(2) in auto)

lemma build_envelopes_count:
  assumes "build_client_message_envelopes encode64 to_vec cid sid q message cursor = Inr envs"
  shows "length envs \<le> REMOTE_CONTROL_SEGMENT_COUNT_MAX"
  using assms
proof (cases rule: build_client_message_envelopes_cases)
  case (segmented whole raw c n)
  show ?thesis
  proof (cases "chunks c raw")
    case Nil
    then show ?thesis using segmented(7) by simp
  next
    case (Cons p ps)
    then have "(0, p) \<in> set (List.enumerate 0 (chunks c raw))" by simp
    then have "n \<le> REMOTE_CONTROL_SEGMENT_COUNT_MAX"
      using segments_fit_enumerate[OF segmented(8)] by (fastforce simp: serialized_client_chunk_len_Inr)
    then show ?thesis using segmented(6,7) by simp
  qed
qed (simp add: REMOTE_CONTROL_SEGMENT_COUNT_MAX_def)

text \<open>What is sent respects the limits. Every envelope built for a message serialises to at most
  150 KiB, and a message is split into at most 1024 segments (segmentation always ends: its
  chunk size shrinks in every round).\<close>

theorem envelopes_within_limits:
  assumes "build_client_message_envelopes encode64 to_vec cid sid q message cursor = Inr envs"
  shows "(\<forall>env \<in> set envs. \<exists>bytes. to_vec env = Some bytes \<and> length bytes \<le> REMOTE_CONTROL_SEGMENT_MAX_BYTES) \<and>
    length envs \<le> REMOTE_CONTROL_SEGMENT_COUNT_MAX"
  using build_envelopes_fit[OF assms] build_envelopes_count[OF assms] by blast

subsection \<open>Reassembling what was segmented\<close>

text \<open>The fields of a segment's envelope, and a receiver that hands them to reassembly in order.\<close>

definition segment_fields :: "json \<Rightarrow> nat \<times> nat \<times> nat \<times> string" where
  "segment_fields env =
     (unwrap_or (Option.bind (jget ''segment_id'' env) as_u64) 0,
      unwrap_or (Option.bind (jget ''segment_count'' env) as_u64) 0,
      unwrap_or (Option.bind (jget ''message_size_bytes'' env) as_u64) 0,
      unwrap_or (Option.bind (jget ''message_chunk_base64'' env) as_str) [])"

fun receive_segments ::
  "(string \<Rightarrow> nat list option) \<Rightarrow> (nat list \<Rightarrow> json option) \<Rightarrow> string \<Rightarrow> string \<Rightarrow> nat \<Rightarrow> json list
     \<Rightarrow> chunk_map \<Rightarrow> chunk_observation list \<times> chunk_map" where
  "receive_segments decode64 from_slice cid sid q [] m = ([], m)"
| "receive_segments decode64 from_slice cid sid q (env # envs) m =
     (let (i, n, len, chunk) = segment_fields env;
          (outcome, m) = observe_server_chunk decode64 from_slice cid sid q i n len chunk m;
          (outcomes, m) = receive_segments decode64 from_slice cid sid q envs m
      in (outcome # outcomes, m))"

lemma segment_fields_envelope:
  assumes "i < 2 ^ 64" "n < 2 ^ 64" "len < 2 ^ 64"
  shows "segment_fields (chunk_envelope encode64 cid sid q cursor n len (i, chunk)) = (i, n, len, encode64 chunk)"
  using assms by (simp add: segment_fields_def chunk_envelope_def envelope_value_def)

lemma receive_segments_from:
  assumes "rest \<noteq> []" and "pre @ concat rest = raw" and "i + length rest = n"
    and "n \<le> REMOTE_CONTROL_SEGMENT_COUNT_MAX" and "length raw \<le> REMOTE_CONTROL_REASSEMBLED_MAX_BYTES"
    and "\<forall>chunk \<in> set rest. chunk \<noteq> [] \<and> decode64 (encode64 chunk) = Some chunk \<and> encode64 chunk \<noteq> []"
    and "from_slice raw = Some message"
    and "hget m (cid, sid, q) = (if i = 0 then None else Some \<lparr> as_segment_count = n,
      as_message_size_bytes = length raw, as_raw = pre, as_next_segment_id = i \<rparr>)"
    and "i = 0 \<longrightarrow> pre = []"
  shows "receive_segments decode64 from_slice cid sid q
      (map (chunk_envelope encode64 cid sid q cursor n (length raw)) (List.enumerate i rest)) m
    = (replicate (length rest - 1) ChunkPending @ [ChunkComplete message], hremove (cid, sid, q) m)"
  using assms
proof (induction rest arbitrary: pre i m)
  case (Cons chunk rest)
  let ?key = "(cid, sid, q)"
  let ?as = "\<lparr> as_segment_count = n, as_message_size_bytes = length raw, as_raw = pre, as_next_segment_id = i \<rparr>"
  let ?as' = "?as\<lparr>as_raw := pre @ chunk, as_next_segment_id := i + 1\<rparr>"
  have len: "length pre + length chunk \<le> length raw" using Cons.prems(2) by auto
  have i: "i < n" using Cons.prems(3) by simp
  have bounds: "i < 2 ^ 64" "n < 2 ^ 64" "length raw < 2 ^ 64"
    using i Cons.prems(4,5) by (simp_all add: REMOTE_CONTROL_SEGMENT_COUNT_MAX_def
        REMOTE_CONTROL_REASSEMBLED_MAX_BYTES_def)
  have chunk: "chunk \<noteq> []" "decode64 (encode64 chunk) = Some chunk" "encode64 chunk \<noteq> []"
    using Cons.prems(6) by simp_all
  then have raw: "raw \<noteq> []" using Cons.prems(2) by auto
  have valid: "\<not> invalid_chunk_metadata i n (length raw) (encode64 chunk)"
    using i Cons.prems(4,5) chunk raw by (simp add: invalid_chunk_metadata_def)
  have current: "unwrap_or (hget m ?key) (new_assembly n (length raw)) = ?as"
    using Cons.prems(8,9) by (simp add: new_assembly_def)
  have fits: "\<not> length raw < sat_add (length pre) (length chunk)"
    using len by (simp add: sat_add_def)
  have not_old: "\<not> (case hget m ?key of None \<Rightarrow> False | Some a \<Rightarrow> i < as_next_segment_id a)"
    using Cons.prems(8) by simp
  show ?case
  proof (cases "rest = []")
    case True
    then have all: "pre @ chunk = raw" "n = i + 1" using Cons.prems(2,3) by simp_all
    have finish: "extend_assembly decode64 from_slice i n (length raw) (encode64 chunk) ?as
        = (ChunkComplete message, None)"
      using chunk fits all Cons.prems(7) by (simp add: extend_assembly_def)
    show ?thesis
      using True valid current finish not_old
      by (simp add: segment_fields_envelope[OF bounds] observe_server_chunk_def Let_def)
  next
    case False
    then have more: "i + 1 < n" using Cons.prems(3) by (cases rest) simp_all
    have pending: "extend_assembly decode64 from_slice i n (length raw) (encode64 chunk) ?as
        = (ChunkPending, Some ?as')"
      using chunk fits more by (simp add: extend_assembly_def)
    have observed: "observe_server_chunk decode64 from_slice cid sid q i n (length raw) (encode64 chunk) m
        = (ChunkPending, hinsert ?key ?as' m)"
      using valid current pending not_old by (simp add: observe_server_chunk_def Let_def)
    have step: "receive_segments decode64 from_slice cid sid q
        (map (chunk_envelope encode64 cid sid q cursor n (length raw)) (List.enumerate (Suc i) rest))
        (hinsert ?key ?as' m)
      = (replicate (length rest - 1) ChunkPending @ [ChunkComplete message], hremove ?key m)"
      using Cons.IH[of "pre @ chunk" "Suc i" "hinsert ?key ?as' m"] False Cons.prems
      by (simp add: delete_update_same)
    have count: "length (chunk # rest) - 1 = Suc (length rest - 1)" using False by (cases rest) simp_all
    show ?thesis
      unfolding count by (simp add: segment_fields_envelope[OF bounds] observed step[simplified])
  qed
qed simp

text \<open>C5. A segmented message arrives whole. When a message is too big for one envelope, handing the
  envelopes built for it to reassembly in order, on a stream and number with nothing assembled yet,
  gives pending for all but the last segment and then the message itself, and leaves the assemblies
  as they were. (Base64 decoding undoes encoding, and parsing undoes serialising this message.)\<close>

theorem segments_reassemble:
  assumes "build_client_message_envelopes encode64 to_vec cid sid q message cursor = Inr envs"
    and "to_vec (build_client_envelope cid (Some sid) q message cursor) = Some whole"
    and "REMOTE_CONTROL_SEGMENT_MAX_BYTES < length whole"
    and "to_vec message = Some raw" and "raw \<noteq> []" and "from_slice raw = Some message"
    and "\<forall>b \<in> set raw. b < 256"
    and "\<And>chunk. chunk \<noteq> [] \<Longrightarrow> \<forall>b \<in> set chunk. b < 256 \<Longrightarrow>
      decode64 (encode64 chunk) = Some chunk \<and> encode64 chunk \<noteq> []"
    and "hget m (cid, sid, q) = None"
  shows "receive_segments decode64 from_slice cid sid q envs m
    = (replicate (length envs - 1) ChunkPending @ [ChunkComplete message], m)"
  using assms(1)
proof (cases rule: build_client_message_envelopes_cases)
  case (plain bytes)
  then show ?thesis using assms(2,3) by simp
next
  case (segmented whole' raw' c n)
  then have raw: "raw' = raw" using assms(4) by simp
  have whole: "concat (chunks c raw) = raw" using concat_chunks segmented(5) by blast
  then have some: "chunks c raw \<noteq> []" using assms(5) by auto
  have "n = length envs" using segmented(6,7) raw by simp
  then have count: "n \<le> REMOTE_CONTROL_SEGMENT_COUNT_MAX"
    using build_envelopes_count[OF assms(1)] by simp
  have absent: "hremove (cid, sid, q) m = m" using assms(9) by (simp add: hremove_absent hcontains_def)
  have "receive_segments decode64 from_slice cid sid q
      (map (chunk_envelope encode64 cid sid q cursor n (length raw)) (List.enumerate 0 (chunks c raw))) m
    = (replicate (length (chunks c raw) - 1) ChunkPending @ [ChunkComplete message], hremove (cid, sid, q) m)"
  proof (rule receive_segments_from[OF some])
    show "\<forall>chunk \<in> set (chunks c raw). chunk \<noteq> [] \<and> decode64 (encode64 chunk) = Some chunk \<and> encode64 chunk \<noteq> []"
    proof
      fix chunk assume "chunk \<in> set (chunks c raw)"
      then have "chunk \<noteq> []" "\<forall>b \<in> set chunk. b < 256"
        using chunks_nonempty assms(7) whole by (blast, metis UN_I set_concat)
      then show "chunk \<noteq> [] \<and> decode64 (encode64 chunk) = Some chunk \<and> encode64 chunk \<noteq> []"
        using assms(8) by blast
    qed
  qed (use whole segmented(4,6) raw count assms(6,9) in simp_all)
  then show ?thesis using segmented(7) raw absent by simp
qed

subsection \<open>A message is not refused\<close>

lemma target_pos: "0 < REMOTE_CONTROL_SEGMENT_TARGET_BYTES"
  by (simp add: REMOTE_CONTROL_SEGMENT_TARGET_BYTES_def)

lemma first_segmentation_fits:
  assumes "0 < n" and "n \<le> REMOTE_CONTROL_REASSEMBLED_MAX_BYTES"
    and "k = max 2 (div_ceil n REMOTE_CONTROL_SEGMENT_TARGET_BYTES)" and "c = max 1 (div_ceil n k)"
  shows "k \<le> REMOTE_CONTROL_SEGMENT_COUNT_MAX \<and> c \<le> REMOTE_CONTROL_SEGMENT_TARGET_BYTES \<and>
    div_ceil n c \<le> REMOTE_CONTROL_SEGMENT_COUNT_MAX"
proof -
  note target = target_pos
  have "div_ceil n REMOTE_CONTROL_SEGMENT_TARGET_BYTES \<le> 1024"
    using assms(2) div_ceil_le_iff[OF target, of n 1024]
    by (simp add: REMOTE_CONTROL_SEGMENT_TARGET_BYTES_def REMOTE_CONTROL_REASSEMBLED_MAX_BYTES_def)
  then have k: "0 < k" "k \<le> 1024" using assms(3) by simp_all
  have "n \<le> div_ceil n REMOTE_CONTROL_SEGMENT_TARGET_BYTES * REMOTE_CONTROL_SEGMENT_TARGET_BYTES"
    using target by (rule div_ceil_mult)
  also have "\<dots> \<le> k * REMOTE_CONTROL_SEGMENT_TARGET_BYTES" using assms(3) by simp
  finally have "div_ceil n k \<le> REMOTE_CONTROL_SEGMENT_TARGET_BYTES"
    using k div_ceil_le_iff[of k n REMOTE_CONTROL_SEGMENT_TARGET_BYTES] by (simp add: mult.commute)
  then have c: "c \<le> REMOTE_CONTROL_SEGMENT_TARGET_BYTES" using assms(4) target by simp
  have "c = div_ceil n k" using assms(4) div_ceil_pos[OF assms(1) k(1)] by simp
  then have "div_ceil n c \<le> k" using div_ceil_twice[OF k(1) assms(1)] by simp
  then show ?thesis using k c by (simp add: REMOTE_CONTROL_SEGMENT_COUNT_MAX_def)
qed

text \<open>No message of legal size is refused. When the serialiser succeeds and the envelope of every
  segment of at most 100 KiB stays within the limit, building the envelopes of a message of at most
  100 MiB gives envelopes, never an error: the first segmentation tried already fits.\<close>

theorem legal_message_is_sent:
  assumes "to_vec (build_client_envelope cid (Some sid) q message cursor) = Some whole"
    and "to_vec message = Some raw" and "raw \<noteq> []"
    and "length raw \<le> REMOTE_CONTROL_REASSEMBLED_MAX_BYTES"
    and "\<And>i n chunk. n \<le> REMOTE_CONTROL_SEGMENT_COUNT_MAX \<Longrightarrow>
      length chunk \<le> REMOTE_CONTROL_SEGMENT_TARGET_BYTES \<Longrightarrow>
      \<exists>bytes. to_vec (chunk_envelope encode64 cid sid q cursor n (length raw) (i, chunk)) = Some bytes \<and>
        length bytes \<le> REMOTE_CONTROL_SEGMENT_MAX_BYTES"
  shows "\<exists>envs. build_client_message_envelopes encode64 to_vec cid sid q message cursor = Inr envs \<and> envs \<noteq> []"
proof (cases "length whole \<le> REMOTE_CONTROL_SEGMENT_MAX_BYTES")
  case True
  then show ?thesis using assms(1)
    by (simp add: build_client_message_envelopes_def serialized_json_len_def Let_def)
next
  case False
  define chunk_len where "chunk_len = (\<lambda>i n. serialized_client_chunk_len encode64 to_vec cid sid q cursor
    i n (length raw))"
  let ?k = "max 2 (div_ceil (length raw) REMOTE_CONTROL_SEGMENT_TARGET_BYTES)"
  let ?c = "max 1 (div_ceil (length raw) ?k)"
  let ?n = "div_ceil (length raw) ?c"
  have bounds: "?k \<le> REMOTE_CONTROL_SEGMENT_COUNT_MAX" "?c \<le> REMOTE_CONTROL_SEGMENT_TARGET_BYTES"
    "?n \<le> REMOTE_CONTROL_SEGMENT_COUNT_MAX"
    using first_segmentation_fits[OF _ assms(4) refl refl] assms(3) by auto
  have len: "\<exists>l. chunk_len i n chunk = Inr l \<and> l \<le> REMOTE_CONTROL_SEGMENT_MAX_BYTES"
    if "n \<le> REMOTE_CONTROL_SEGMENT_COUNT_MAX" "length chunk \<le> REMOTE_CONTROL_SEGMENT_TARGET_BYTES" for i n chunk
    unfolding chunk_len_def serialized_client_chunk_len_Inr using assms(5)[OF that, of i] that(1) by blast
  have "length chunk \<le> REMOTE_CONTROL_SEGMENT_TARGET_BYTES" if "chunk \<in> set (chunks ?c raw)" for chunk
    by (rule order_trans[OF length_chunk_le[OF that] bounds(2)])
  then have each: "\<exists>l. chunk_len i ?n chunk = Inr l \<and> l \<le> REMOTE_CONTROL_SEGMENT_MAX_BYTES"
    if "chunk \<in> set (chunks ?c raw)" for i chunk
    using len[OF bounds(3)] that by blast
  have fits: "segments_fit chunk_len raw ?c ?n"
    unfolding segments_fit_def list_all_iff
  proof (intro ballI)
    fix p assume "p \<in> set (List.enumerate 0 (chunks ?c raw))"
    then have "snd p \<in> set (chunks ?c raw)" by (rule enumerate_snd)
    then show "case p of (i, chunk) \<Rightarrow> (case chunk_len i ?n chunk of
        Inl _ \<Rightarrow> False | Inr len \<Rightarrow> len \<le> REMOTE_CONTROL_SEGMENT_MAX_BYTES)"
      using each[of "snd p" "fst p"] by (auto simp: split_beta)
  qed
  have loop: "segment_loop (segments_fit chunk_len raw) (length raw) ?k = Inr (?c, ?n)"
    using bounds(1) fits by (subst segment_loop.simps) (simp only: Let_def if_True leD if_False not_less)
  obtain l where minimal: "chunk_len 0 (min (max (length raw) 1) REMOTE_CONTROL_SEGMENT_COUNT_MAX) (take 1 raw) = Inr l"
      "l \<le> REMOTE_CONTROL_SEGMENT_MAX_BYTES"
  proof -
    have "length (take 1 raw) \<le> REMOTE_CONTROL_SEGMENT_TARGET_BYTES"
      using target_pos by simp
    from len[OF min.cobounded2 this] show ?thesis using that by blast
  qed
  let ?envs = "map (chunk_envelope encode64 cid sid q cursor ?n (length raw)) (List.enumerate 0 (chunks ?c raw))"
  have collect: "collect_results (map (\<lambda>(i, chunk). build_client_chunk_envelope encode64 cid sid q cursor i ?n
      (length raw) chunk) (List.enumerate 0 (chunks ?c raw))) = Inr ?envs"
    unfolding collect_results_Inr using bounds(3) by (auto simp: build_client_chunk_envelope_Inr)
  have "build_client_message_envelopes encode64 to_vec cid sid q message cursor = Inr ?envs"
    unfolding build_client_message_envelopes_def Let_def serialized_json_len_def assms(1,2) ok_or_Some
      try_bind.simps if_not_P[OF False] if_not_P[OF leD[OF assms(4)]]
      minimal(1)[unfolded chunk_len_def] if_not_P[OF leD[OF minimal(2)]] loop[unfolded chunk_len_def]
      prod.case collect ..
  moreover have "?envs \<noteq> []" using assms(3) by (simp add: chunks_step)
  ultimately show ?thesis by blast
qed

subsection \<open>Bounds of reassembly\<close>

definition assembly_ok :: "chunk_assembly \<Rightarrow> bool" where
  "assembly_ok a \<longleftrightarrow> as_segment_count a \<le> REMOTE_CONTROL_SEGMENT_COUNT_MAX \<and>
     as_next_segment_id a < as_segment_count a \<and> length (as_raw a) \<le> as_message_size_bytes a \<and>
     as_message_size_bytes a \<le> REMOTE_CONTROL_REASSEMBLED_MAX_BYTES"

definition assemblies_ok :: "chunk_map \<Rightarrow> bool" where
  "assemblies_ok m \<longleftrightarrow> (\<forall>p \<in> set m. assembly_ok (snd p))"

lemma extend_assembly_ok:
  assumes "extend_assembly decode64 from_slice i n len chunk a = (outcome, Some a')" and "assembly_ok a"
  shows "assembly_ok a' \<and> outcome = ChunkPending"
  using assms
  by (auto simp: extend_assembly_def Let_def assembly_ok_def sat_add_def u64_max_def
      REMOTE_CONTROL_REASSEMBLED_MAX_BYTES_def split: if_splits option.splits)

lemma extend_assembly_complete:
  assumes "extend_assembly decode64 from_slice i n len chunk a = (ChunkComplete message, a')"
  shows "a' = None \<and> (\<exists>raw. from_slice raw = Some message \<and> length raw = len)"
  using assms by (auto simp: extend_assembly_def Let_def split: if_splits option.splits)

lemma assemblies_ok_hinsert: "assemblies_ok m \<Longrightarrow> assembly_ok a \<Longrightarrow> assemblies_ok (hinsert k a m)"
  using set_hinsert_subset[of k a m] by (auto simp: assemblies_ok_def)

lemma assemblies_ok_hremove: "assemblies_ok m \<Longrightarrow> assemblies_ok (hremove k m)"
  by (auto simp: assemblies_ok_def set_hremove)

text \<open>Reassembly is bounded. Whatever segment arrives, every assembly kept stays within 1024
  segments and within the size it announced, at most 100 MiB; the assemblies of other streams and
  numbers are left alone; and a message is only completed from exactly the announced number of
  bytes, and then its assembly is gone.\<close>

theorem reassembly_bounded:
  assumes "assemblies_ok m"
    and "observe_server_chunk decode64 from_slice cid sid q i n len chunk m = (outcome, m')"
  shows "assemblies_ok m' \<and> (\<forall>k. k \<noteq> (cid, sid, q) \<longrightarrow> hget m' k = hget m k) \<and>
    (\<forall>message. outcome = ChunkComplete message \<longrightarrow>
      hget m' (cid, sid, q) = None \<and> (\<exists>raw. from_slice raw = Some message \<and> length raw = len) \<and>
      len \<le> REMOTE_CONTROL_REASSEMBLED_MAX_BYTES)"
proof -
  let ?key = "(cid, sid, q)"
  let ?a = "unwrap_or (hget m ?key) (new_assembly n len)"
  let ?old = "case hget m ?key of None \<Rightarrow> False | Some a \<Rightarrow> i < as_next_segment_id a"
  consider (dropped) "outcome = ChunkDropped" "m' = m \<or> m' = hremove ?key m"
    | (extended) "\<not> invalid_chunk_metadata i n len chunk"
      "(case extend_assembly decode64 from_slice i n len chunk ?a of
          (outcome, Some a) \<Rightarrow> (outcome, hinsert ?key a m)
        | (outcome, None) \<Rightarrow> (outcome, hremove ?key m)) = (outcome, m')"
  proof (cases "?old \<or> invalid_chunk_metadata i n len chunk")
    case True
    then have "outcome = ChunkDropped \<and> (m' = m \<or> m' = hremove ?key m)"
      using assms(2) unfolding observe_server_chunk_def Let_def by (auto split: if_splits)
    then show ?thesis using dropped by blast
  next
    case False
    then show ?thesis using assms(2) extended unfolding observe_server_chunk_def Let_def by simp
  qed
  then show ?thesis
  proof cases
    case dropped
    then show ?thesis using assms(1) by (auto simp: assemblies_ok_hremove)
  next
    case extended
    have "assembly_ok ?a"
    proof (cases "hget m ?key")
      case None
      then show ?thesis using extended(1)
        by (auto simp: assembly_ok_def new_assembly_def invalid_chunk_metadata_def)
    next
      case (Some a)
      then show ?thesis using assms(1) hget_in_set[OF Some] by (auto simp: assemblies_ok_def)
    qed
    moreover obtain out a' where e: "extend_assembly decode64 from_slice i n len chunk ?a = (out, a')"
      by (cases "extend_assembly decode64 from_slice i n len chunk ?a")
    moreover have "len \<le> REMOTE_CONTROL_REASSEMBLED_MAX_BYTES"
      using extended(1) by (auto simp: invalid_chunk_metadata_def)
    ultimately show ?thesis using extended(2) assms(1) extend_assembly_complete
      by (cases a') (auto simp: assemblies_ok_hinsert assemblies_ok_hremove dest: extend_assembly_ok)
  qed
qed

subsection \<open>A concrete codec\<close>

text \<open>A codec for the witnesses: a byte is as many digits one and a comma, and the serialiser gives the
  message three bytes, its plain envelope too many, and every other value none.\<close>

definition sample_encode64 :: "nat list \<Rightarrow> string" where
  "sample_encode64 bytes = concat (map (\<lambda>b. replicate b (CHR ''1'') @ '','') bytes)"

fun sample_decode :: "nat \<Rightarrow> string \<Rightarrow> nat list" where
  "sample_decode n [] = []"
| "sample_decode n (c # cs) = (if c = CHR '','' then n # sample_decode 0 cs else sample_decode (Suc n) cs)"

definition sample_decode64 :: "string \<Rightarrow> nat list option" where
  "sample_decode64 s = Some (sample_decode 0 s)"

definition sample_notice :: json where "sample_notice = JObj [(''method'', JStr ''initialized'')]"

definition sample_to_vec :: "json \<Rightarrow> nat list option" where
  "sample_to_vec v =
     (if jget ''method'' v \<noteq> None then Some [7, 8, 9]
      else if jget_str ''type'' v = Some ''client_message'' then Some (replicate 200000 0) else Some [])"

definition sample_from_slice :: "nat list \<Rightarrow> json option" where
  "sample_from_slice raw = (if raw = [7, 8, 9] then Some sample_notice else None)"

lemma sample_decode_run: "sample_decode n (replicate b (CHR ''1'') @ CHR '','' # s) = (n + b) # sample_decode 0 s"
  by (induction b arbitrary: n) simp_all

lemma sample_decode64_encode64: "sample_decode64 (sample_encode64 bytes) = Some bytes"
  unfolding sample_decode64_def sample_encode64_def
  by (induction bytes) (simp_all add: sample_decode_run)

definition sample_segments :: "json list" where
  "sample_segments = map (chunk_envelope sample_encode64 ''c'' ''s'' 5 None 2 3) [(0, [7, 8]), (1, [9])]"

lemma sample_codec:
  "sample_to_vec sample_notice = Some [7, 8, 9]"
  "sample_to_vec (build_client_envelope cid (Some sid) q sample_notice cursor) = Some (replicate 200000 0)"
  "sample_to_vec (chunk_envelope encode64 cid sid q cursor n len p) = Some []"
  "sample_from_slice [7, 8, 9] = Some sample_notice"
  by (simp_all add: sample_to_vec_def sample_notice_def sample_from_slice_def build_client_envelope_def
      chunk_envelope_def envelope_value_def skip_none_def split: option.split)

lemma sample_build:
  "build_client_message_envelopes sample_encode64 sample_to_vec ''c'' ''s'' 5 sample_notice None
    = Inr sample_segments"
proof -
  have ceil: "div_ceil 3 2 = 2" by (simp add: div_ceil_def)
  have size: "max 1 2 = (2::nat)" by simp
  have three: "length [7, 8, 9::nat] = 3" by simp
  have start: "max 2 (div_ceil 3 REMOTE_CONTROL_SEGMENT_TARGET_BYTES) = 2"
    by (simp add: div_ceil_def REMOTE_CONTROL_SEGMENT_TARGET_BYTES_def)
  have chunks: "chunks 2 [7, 8, 9] = [[7, 8], [9::nat]]" by (simp add: chunks_step)
  have len: "serialized_client_chunk_len sample_encode64 sample_to_vec ''c'' ''s'' 5 None i n len chunk = Inr 0"
    if "n \<le> 1024" for i n len chunk
    using that unfolding serialized_client_chunk_len_Inr
    by (simp add: sample_codec REMOTE_CONTROL_SEGMENT_COUNT_MAX_def)
  have fits: "segments_fit (\<lambda>i n. serialized_client_chunk_len sample_encode64 sample_to_vec ''c'' ''s'' 5 None
      i n 3) [7, 8, 9] 2 2"
    by (simp add: segments_fit_def chunks len)
  have loop: "segment_loop (segments_fit (\<lambda>i n. serialized_client_chunk_len sample_encode64 sample_to_vec
      ''c'' ''s'' 5 None i n 3) [7, 8, 9]) 3 2 = Inr (2, 2)"
    by (subst segment_loop.simps)
      (simp only: Let_def size ceil fits if_True, simp add: REMOTE_CONTROL_SEGMENT_COUNT_MAX_def)
  show ?thesis
    unfolding build_client_message_envelopes_def Let_def serialized_json_len_def sample_codec ok_or_Some
      try_bind.simps three start loop prod.case chunks
    by (simp add: len sample_segments_def build_client_chunk_envelope_def
        chunk_envelope_def REMOTE_CONTROL_SEGMENT_MAX_BYTES_def REMOTE_CONTROL_REASSEMBLED_MAX_BYTES_def
        REMOTE_CONTROL_SEGMENT_COUNT_MAX_def)
qed

theorem envelopes_within_limits_witness:
  "\<exists>bytes. sample_to_vec (chunk_envelope sample_encode64 ''c'' ''s'' 5 None 2 3 (1, [9])) = Some bytes \<and>
    length bytes \<le> REMOTE_CONTROL_SEGMENT_MAX_BYTES"
  using envelopes_within_limits[OF sample_build] by (simp add: sample_segments_def)

theorem segments_reassemble_witness:
  "receive_segments sample_decode64 sample_from_slice ''c'' ''s'' 5 sample_segments []
    = ([ChunkPending, ChunkComplete sample_notice], [])"
proof -
  have encode: "sample_decode64 (sample_encode64 chunk) = Some chunk \<and> sample_encode64 chunk \<noteq> []"
    if "chunk \<noteq> []" for chunk
    using that by (cases chunk) (auto simp: sample_decode64_encode64, simp add: sample_encode64_def)
  have "receive_segments sample_decode64 sample_from_slice ''c'' ''s'' 5 sample_segments []
      = (replicate (length sample_segments - 1) ChunkPending @ [ChunkComplete sample_notice], [])"
  proof (rule segments_reassemble)
    show "build_client_message_envelopes sample_encode64 sample_to_vec ''c'' ''s'' 5 sample_notice None
      = Inr sample_segments" by (rule sample_build)
    show "sample_to_vec (build_client_envelope ''c'' (Some ''s'') 5 sample_notice None)
      = Some (replicate 200000 0)" by (rule sample_codec)
    show "sample_to_vec sample_notice = Some [7, 8, 9]" by (rule sample_codec)
  qed (simp_all add: sample_build sample_codec encode REMOTE_CONTROL_SEGMENT_MAX_BYTES_def)
  then show ?thesis by (simp add: sample_segments_def)
qed

theorem legal_message_is_sent_witness:
  "\<exists>envs. build_client_message_envelopes sample_encode64 sample_to_vec ''c'' ''s'' 9 sample_notice (Some ''k'')
    = Inr envs \<and> envs \<noteq> []"
  by (rule legal_message_is_sent[OF sample_codec(2) sample_codec(1)])
    (simp_all add: sample_codec REMOTE_CONTROL_REASSEMBLED_MAX_BYTES_def)

theorem reassembly_bounded_witness:
  "assemblies_ok (snd (observe_server_chunk sample_decode64 sample_from_slice ''c'' ''s'' 5 0 2 3 ''1,'' []))"
  by (rule reassembly_bounded[THEN conjunct1, OF _ prod.collapse[symmetric]]) (simp add: assemblies_ok_def)

end
