(* ===== verification/RcUtils.thy ===== *)
theory RcUtils
  imports Decimal "HOL-Library.Word"
begin

section \<open>Remote-control utilities (src/src/remote_control_backend/utils.rs)\<close>

text \<open>
  Timestamps and stable identifiers (FNV-1a on 64-bit words). The lemmas show that the conversion of
  a day number to a civil date follows the calendar: day 0 is the first of January 1970, and the date
  of the next day is the day after, by the rule of leap years.
\<close>

unbundle bit_operations_syntax

subsection \<open>Dates\<close>

text \<open>\<open>{n:0w}\<close>: at least \<open>w\<close> digits, filled with zeros.\<close>

definition pad_nat :: "nat \<Rightarrow> nat \<Rightarrow> string" where
  "pad_nat w n = replicate (w - length (show_nat n)) (CHR ''0'') @ show_nat n"

text \<open>Rust divides with truncation towards zero; all dividends below are not negative but \<open>era\<close>'s,
  where the code shifts a negative one first. The casts to 32 bits wrap.\<close>

definition trunc_div :: "int \<Rightarrow> int \<Rightarrow> int" where
  "trunc_div a b = (if a < 0 then - ((- a) div b) else a div b)"

definition as_i32 :: "int \<Rightarrow> int" where "as_i32 i = (i + 2 ^ 31) mod 2 ^ 32 - 2 ^ 31"

definition as_u32 :: "int \<Rightarrow> int" where "as_u32 i = i mod 2 ^ 32"

definition civil_from_days :: "int \<Rightarrow> int \<times> int \<times> int" where
  "civil_from_days days_since_unix_epoch =
     (let z = days_since_unix_epoch + 719468;
          era = trunc_div (if z \<ge> 0 then z else z - 146096) 146097;
          doe = z - era * 146097;
          yoe = (doe - doe div 1460 + doe div 36524 - doe div 146096) div 365;
          year = yoe + era * 400;
          day_of_year = doe - (365 * yoe + yoe div 4 - yoe div 100);
          month_prime = (5 * day_of_year + 2) div 153;
          day = day_of_year - (153 * month_prime + 2) div 5 + 1;
          month = month_prime + (if month_prime < 10 then 3 else - 9);
          year = year + (if month \<le> 2 then 1 else 0)
      in (as_i32 year, as_u32 month, as_u32 day))"

definition format_rfc3339_utc :: "nat \<Rightarrow> string" where
  "format_rfc3339_utc timestamp =
     (let days = timestamp div 86400;
          seconds_of_day = timestamp mod 86400;
          (year, month, day) = civil_from_days (int days);
          hour = seconds_of_day div 3600;
          minute = (seconds_of_day mod 3600) div 60;
          second = seconds_of_day mod 60
      in (if year < 0 then ''-'' @ pad_nat 3 (nat (- year)) else pad_nat 4 (nat year))
         @ ''-'' @ pad_nat 2 (nat month) @ ''-'' @ pad_nat 2 (nat day) @ ''T''
         @ pad_nat 2 hour @ '':'' @ pad_nat 2 minute @ '':'' @ pad_nat 2 second @ ''Z'')"

subsection \<open>Identifiers\<close>

definition fnv_step :: "64 word \<Rightarrow> char \<Rightarrow> 64 word" where
  "fnv_step hash byte = (hash XOR word_of_nat (of_char byte)) * 0x100000001b3"

definition word_be_bytes :: "64 word \<Rightarrow> nat list" where
  "word_be_bytes w = map (\<lambda>i. unat (drop_bit (56 - 8 * i) w AND 0xff)) [0..<8]"

definition stable_id :: "string \<Rightarrow> string \<Rightarrow> string" where
  "stable_id prefix seed =
     prefix @ ''_'' @ hex_bytes (word_be_bytes (foldl fnv_step 0xcbf29ce484222325 seed))"

subsection \<open>The calendar\<close>

text \<open>The reference: leap years, the length of a month and the day after a date, as the Gregorian
  calendar defines them.\<close>

definition leap_year :: "int \<Rightarrow> bool" where
  "leap_year y \<longleftrightarrow> y mod 4 = 0 \<and> (y mod 100 \<noteq> 0 \<or> y mod 400 = 0)"

definition month_length :: "int \<Rightarrow> int \<Rightarrow> int" where
  "month_length y m =
     (if m = 2 then (if leap_year y then 29 else 28)
      else if m \<in> {4, 6, 9, 11} then 30 else 31)"

text \<open>The day after a date.\<close>

definition next_day :: "int \<times> int \<times> int \<Rightarrow> int \<times> int \<times> int" where
  "next_day d =
     (case d of (y, m, n) \<Rightarrow>
        if n < month_length y m then (y, m, n + 1)
        else if m < 12 then (y, m + 1, 1) else (y + 1, 1, 1))"

text \<open>A year that begins in March, which is how the code counts: the date of a day of such a year.\<close>

definition month_prime :: "int \<Rightarrow> int" where "month_prime doy = (5 * doy + 2) div 153"

definition month_day :: "int \<Rightarrow> int" where "month_day doy = doy - (153 * month_prime doy + 2) div 5 + 1"

definition march_date :: "int \<Rightarrow> int \<Rightarrow> int \<times> int \<times> int" where
  "march_date y doy =
     (let month = month_prime doy + (if month_prime doy < 10 then 3 else - 9)
      in (y + (if month \<le> 2 then 1 else 0), month, month_day doy))"

text \<open>The lengths of the months from March on, February at its shorter length.\<close>

definition march_lengths :: "int list" where
  "march_lengths = [31, 30, 31, 30, 31, 31, 30, 31, 30, 31, 31, 28]"

lemma march_table:
  "list_all (\<lambda>doy. month_prime doy \<in> {0..11} \<and> month_day doy \<in> {1..31} \<and>
      (if month_day doy < march_lengths ! nat (month_prime doy)
       then month_prime (doy + 1) = month_prime doy \<and> month_day (doy + 1) = month_day doy + 1
       else month_prime doy < 11 \<and> month_prime (doy + 1) = month_prime doy + 1 \<and> month_day (doy + 1) = 1))
     [0..363]"
  by code_simp

lemma march_entry:
  assumes "0 \<le> doy" "doy < 364"
  shows "month_prime doy \<in> {0..11} \<and> month_day doy \<in> {1..31} \<and>
      (if month_day doy < march_lengths ! nat (month_prime doy)
       then month_prime (doy + 1) = month_prime doy \<and> month_day (doy + 1) = month_day doy + 1
       else month_prime doy < 11 \<and> month_prime (doy + 1) = month_prime doy + 1 \<and> month_day (doy + 1) = 1)"
  by (rule bspec[OF march_table[unfolded list_all_iff set_upto]]) (use assms in simp)

lemma march_length:
  assumes "mp \<in> {0..10}"
  shows "month_length y (mp + (if mp < 10 then 3 else - 9)) = march_lengths ! nat mp"
proof -
  have "mp = 0 \<or> mp = 1 \<or> mp = 2 \<or> mp = 3 \<or> mp = 4 \<or> mp = 5 \<or> mp = 6 \<or> mp = 7 \<or> mp = 8 \<or> mp = 9 \<or> mp = 10"
    using assms unfolding atLeastAtMost_iff by presburger
  then show ?thesis by (elim disjE) (simp_all add: month_length_def march_lengths_def)
qed

lemma march_date_next:
  assumes "0 \<le> doy" "doy < 364"
  shows "next_day (march_date y doy) = march_date y (doy + 1)"
proof -
  let ?mp = "month_prime doy"
  let ?y = "y + (if ?mp + (if ?mp < 10 then 3 else - 9) \<le> 2 then 1 else 0)"
  let ?m = "?mp + (if ?mp < 10 then 3 else - 9)"
  have date: "march_date y doy = (?y, ?m, month_day doy)" by (simp add: march_date_def Let_def)
  show ?thesis
  proof (cases "month_day doy < march_lengths ! nat ?mp")
    case True
    have "month_day doy < month_length ?y ?m"
    proof (cases "?mp = 11")
      case True
      then show ?thesis using \<open>month_day doy < march_lengths ! nat ?mp\<close>
        by (simp add: march_lengths_def month_length_def)
    next
      case False
      then show ?thesis using march_entry[OF assms] True march_length[of ?mp ?y] by simp
    qed
    then show ?thesis using march_entry[OF assms] True by (simp add: next_day_def march_date_def Let_def)
  next
    case False
    then have mp: "?mp \<in> {0..10}" "month_prime (doy + 1) = ?mp + 1" "month_day (doy + 1) = 1"
      using march_entry[OF assms] by auto
    then have "\<not> month_day doy < month_length ?y ?m" using False march_length[of ?mp ?y] by simp
    moreover have "?mp \<noteq> 9 \<longrightarrow> ?m < 12 \<and> ((?mp + 1 + (if ?mp + 1 < 10 then 3 else - 9)) = ?m + 1)"
      using mp(1) by auto
    ultimately show ?thesis using mp
      by (cases "?mp = 9") (auto simp: next_day_def march_date_def Let_def)
  qed
qed

lemma march_date_364:
  "next_day (march_date y 364) = (if leap_year (y + 1) then march_date y 365 else march_date (y + 1) 0)"
  by (simp add: next_day_def march_date_def month_prime_def month_day_def month_length_def)

lemma march_date_365:
  "leap_year (y + 1) \<Longrightarrow> next_day (march_date y 365) = march_date (y + 1) 0"
  by (simp add: next_day_def march_date_def month_prime_def month_day_def month_length_def)

text \<open>The place of a day in its era of 400 years: the century, the group of four years, the day in the
  group and the year in it.\<close>

definition era_place :: "int \<Rightarrow> int \<Rightarrow> int \<Rightarrow> bool" where
  "era_place c q s \<longleftrightarrow> c \<in> {0..3} \<and> q \<in> {0..24} \<and> s \<in> {0..1460} \<and> (q = 24 \<and> c < 3 \<longrightarrow> s \<le> 1459)"

definition era_day :: "int \<Rightarrow> int \<Rightarrow> int \<Rightarrow> int" where
  "era_day c q s = 36524 * c + 1461 * q + s"

lemma div_between: "b * q \<le> a \<Longrightarrow> a < b * q + b \<Longrightarrow> a div b = (q::int)"
  by (rule int_div_pos_eq[where r = "a - b * q"]) simp_all

lemma year_cases:
  assumes "0 \<le> s" "s \<le> 1460" "k = min 3 (s div 365)"
  obtains "k = 0" "0 \<le> s" "s < 365" | "k = 1" "365 \<le> s" "s < 730"
    | "k = 2" "730 \<le> s" "s < 1095" | "k = (3::int)" "1095 \<le> s" "s \<le> 1460"
proof -
  consider "s < 365" | "365 \<le> s" "s < 730" | "730 \<le> s" "s < 1095" | "1095 \<le> s" "s < 1460" | "s = 1460"
    using assms(2) by linarith
  then show ?thesis
  proof cases
    case 1
    then have "s div 365 = 0" using assms(1) by (intro div_between) simp_all
    then show ?thesis using that(1) 1 assms by simp
  next
    case 2
    then have "s div 365 = 1" by (intro div_between) simp_all
    then show ?thesis using that(2) 2 assms by simp
  next
    case 3
    then have "s div 365 = 2" by (intro div_between) simp_all
    then show ?thesis using that(3) 3 assms by simp
  next
    case 4
    then have "s div 365 = 3" by (intro div_between) simp_all
    then show ?thesis using that(4) 4 assms by simp
  next
    case 5
    then show ?thesis using that(4) assms by simp
  qed
qed

lemma era_place_exists:
  assumes "0 \<le> doe" "doe < 146097"
  shows "\<exists>c q s. era_place c q s \<and> doe = era_day c q s"
proof -
  define c where "c = min 3 (doe div 36524)"
  define r where "r = doe - 36524 * c"
  have "0 \<le> c \<and> c \<le> 3 \<and> 0 \<le> r \<and> r \<le> 36524 \<and> (c < 3 \<longrightarrow> r < 36524)"
    using assms unfolding c_def r_def by (auto simp: min_def)
  moreover have "r = 1461 * (r div 1461) + r mod 1461" "0 \<le> r mod 1461" "r mod 1461 < 1461" by simp_all
  moreover have "doe = 36524 * c + r" by (simp add: r_def)
  ultimately have "era_place c (r div 1461) (r mod 1461) \<and> doe = era_day c (r div 1461) (r mod 1461)"
    unfolding era_place_def era_day_def atLeastAtMost_iff by (intro conjI impI; (elim conjE)?; linarith)
  then show ?thesis by blast
qed

lemma year_of_era:
  assumes "era_place c q s" and "k = min 3 (s div 365)" and "doe = era_day c q s"
  shows "(doe - doe div 1460 + doe div 36524 - doe div 146096) div 365 = 100 * c + 4 * q + k"
proof -
  define e where "e = (24 * c + q + s) div 1460"
  have place: "0 \<le> c" "c \<le> 3" "0 \<le> q" "q \<le> 24" "0 \<le> s" "s \<le> 1460" "q = 24 \<and> c < 3 \<longrightarrow> s \<le> 1459"
    using assms(1) by (auto simp: era_place_def)
  have a: "doe div 1460 = 25 * c + q + e"
  proof -
    have "doe = (24 * c + q + s) + (25 * c + q) * 1460" unfolding assms(3) era_day_def by simp
    then show ?thesis unfolding e_def by simp
  qed
  have e: "e = (if 24 * c + q + s < 1460 then 0 else 1)"
    using place unfolding e_def by (auto intro: div_pos_pos_trivial)
  have b: "doe div 36524 - doe div 146096 = c"
  proof (cases "c = 3 \<and> q = 24 \<and> s = 1460")
    case True
    then show ?thesis unfolding assms(3) era_day_def by simp
  next
    case False
    have r: "1461 * q + s \<le> 36523"
    proof (cases "q = 24")
      case True
      then have "s \<le> 1459" using False place by auto
      then show ?thesis using True by simp
    qed (use place in linarith)
    have "doe div 36524 = c" using r place unfolding assms(3) era_day_def by (intro div_between) simp_all
    moreover have "doe div 146096 = 0" using r place unfolding assms(3) era_day_def by (intro div_between) simp_all
    ultimately show ?thesis by simp
  qed
  have "doe - doe div 1460 + doe div 36524 - doe div 146096 = 365 * (100 * c + 4 * q) + (s - e)"
    using a b unfolding assms(3) era_day_def by simp
  moreover have "(s - e) div 365 = k"
    using place(5,6) assms(2)
    by (rule year_cases) (use place e in \<open>auto intro!: div_between split: if_splits\<close>)
  ultimately show ?thesis by simp
qed

lemma month_bounds:
  assumes "0 \<le> doy" "doy \<le> 365"
  shows "0 \<le> month_prime doy \<and> month_prime doy \<le> 11 \<and> 0 \<le> month_day doy \<and> month_day doy \<le> 31"
proof (cases "doy < 364")
  case True
  then show ?thesis using march_entry[OF assms(1)] by auto
next
  case False
  then have "doy = 364 \<or> doy = 365" using assms(2) by linarith
  then show ?thesis by (auto simp: month_prime_def month_day_def)
qed

lemma as_i32_small: "0 \<le> i \<Longrightarrow> i < 2 ^ 31 \<Longrightarrow> as_i32 i = i"
  by (simp add: as_i32_def)

lemma civil_of_era:
  assumes place: "era_place c q s" and k: "k = min 3 (s div 365)" and era: "0 \<le> era" "era \<le> 5000000"
  shows "civil_from_days (146097 * era + era_day c q s - 719468)
    = march_date (400 * era + 100 * c + 4 * q + k) (s - 365 * k)"
proof -
  let ?doe = "era_day c q s"
  let ?yoe = "100 * c + 4 * q + k"
  have bounds: "0 \<le> c" "c \<le> 3" "0 \<le> q" "q \<le> 24" "0 \<le> s" "s \<le> 1460" "q = 24 \<and> c < 3 \<longrightarrow> s \<le> 1459"
    using place by (auto simp: era_place_def)
  have kb: "0 \<le> k" "k \<le> 3" "0 \<le> s - 365 * k" "s - 365 * k \<le> 365"
    using bounds(5,6) k by (rule year_cases; simp)+
  have doe: "0 \<le> ?doe" "?doe < 146097" using bounds unfolding era_day_def by linarith+
  have z: "trunc_div (146097 * era + ?doe) 146097 = era" using doe era by (simp add: trunc_div_def)
  have y4: "?yoe div 4 = 25 * c + q" using kb by (intro div_between) simp_all
  have y100: "?yoe div 100 = c" using bounds kb by (intro div_between) simp_all
  have doy: "?doe - (365 * ?yoe + ?yoe div 4 - ?yoe div 100) = s - 365 * k"
    unfolding y4 y100 era_day_def by simp
  have m: "0 \<le> month_prime (s - 365 * k)" "month_prime (s - 365 * k) \<le> 11"
    "0 \<le> month_day (s - 365 * k)" "month_day (s - 365 * k) \<le> 31"
    using month_bounds[OF kb(3,4)] by auto
  let ?mp = "month_prime (s - 365 * k)"
  have nonneg: "0 \<le> 146097 * era + ?doe" using doe era by simp
  have off: "146097 * era + ?doe - era * 146097 = ?doe" by simp
  have year: "as_i32 (?yoe + era * 400 + (if ?mp + (if ?mp < 10 then 3 else - 9) \<le> 2 then 1 else 0))
      = 400 * era + ?yoe + (if ?mp + (if ?mp < 10 then 3 else - 9) \<le> 2 then 1 else 0)"
    using bounds kb era by (simp add: as_i32_small)
  have month: "as_u32 (?mp + (if ?mp < 10 then 3 else - 9)) = ?mp + (if ?mp < 10 then 3 else - 9)"
    using m by (simp add: as_u32_def)
  have day: "as_u32 (month_day (s - 365 * k)) = month_day (s - 365 * k)"
    using m by (simp add: as_u32_def)
  have "civil_from_days (146097 * era + ?doe - 719468)
      = (as_i32 (?yoe + era * 400 + (if ?mp + (if ?mp < 10 then 3 else - 9) \<le> 2 then 1 else 0)),
         as_u32 (?mp + (if ?mp < 10 then 3 else - 9)), as_u32 (month_day (s - 365 * k)))"
    unfolding civil_from_days_def Let_def diff_add_cancel if_P[OF nonneg] z off
      year_of_era[OF place k refl] doy month_prime_def[symmetric] month_day_def[symmetric] ..
  then show ?thesis unfolding year month day march_date_def Let_def by (simp add: add.assoc)
qed

lemma leap_year_place:
  assumes "c \<in> {0..3}" "q \<in> {0..24}" "k \<in> {0..3}"
  shows "leap_year (400 * era + 100 * c + 4 * q + k + 1) \<longleftrightarrow> k = 3 \<and> (q < 24 \<or> c = 3)"
proof -
  let ?y = "400 * era + 100 * c + 4 * q + k + 1"
  have k: "k = 0 \<or> k = 1 \<or> k = 2 \<or> k = 3" using assms(3) by auto
  have "?y = 4 * (100 * era + 25 * c + q) + (k + 1)" by simp
  then have "?y mod 4 = (k + 1) mod 4" by (simp only: mod_mult_self4)
  then have m4: "?y mod 4 = 0 \<longleftrightarrow> k = 3" using k by auto
  show ?thesis
  proof (cases "k = 3")
    case False
    then show ?thesis using m4 by (simp add: leap_year_def)
  next
    case k3: True
    show ?thesis
    proof (cases "q < 24")
      case True
      have "?y mod 100 = 4 * q + 4"
        by (rule int_mod_pos_eq[where q = "4 * era + c"]) (use True k3 assms in auto)
      then show ?thesis using m4 k3 True assms by (auto simp: leap_year_def)
    next
      case False
      then have q: "q = 24" using assms by simp
      have "?y mod 100 = 0"
        by (rule int_mod_pos_eq[where q = "4 * era + c + 1"]) (use q k3 in auto)
      moreover have "?y mod 400 = (if c = 3 then 0 else 100 * c + 100)"
        by (rule int_mod_pos_eq[where q = "if c = 3 then era + 1 else era"]) (use q k3 assms in auto)
      ultimately show ?thesis using m4 k3 q assms by (auto simp: leap_year_def)
    qed
  qed
qed

lemma civil_next_same_group:
  assumes "era_place c q s" and "era_place c q (s + 1)" and "k = min 3 (s div 365)"
    and "k' = min 3 ((s + 1) div 365)"
  shows "next_day (march_date (400 * era + 100 * c + 4 * q + k) (s - 365 * k))
    = march_date (400 * era + 100 * c + 4 * q + k') (s + 1 - 365 * k')"
proof -
  let ?y = "400 * era + 100 * c + 4 * q + k"
  have ranges: "c \<in> {0..3}" "q \<in> {0..24}" "0 \<le> s" "s + 1 \<le> 1460" "q = 24 \<and> c < 3 \<longrightarrow> s + 1 \<le> 1459"
    using assms(1,2) by (auto simp: era_place_def)
  have k: "0 \<le> k" "k \<le> 3" "365 * k \<le> s" "s < 365 * k + 365"
    using ranges(3) _ assms(3) by (rule year_cases; use ranges(4) in simp)+
  have kk: "s - 365 * k < 364 \<Longrightarrow> k' = k" "s - 365 * k = 364 \<Longrightarrow> k < 3 \<Longrightarrow> k' = k + 1" "k = 3 \<Longrightarrow> k' = 3"
    using _ ranges(4) assms(4) by (rule year_cases; use ranges(3) k in simp)+
  consider "s - 365 * k < 364" | "s - 365 * k = 364" "k < 3" | "s = 1459" "k = 3" using k by linarith
  then show ?thesis
  proof cases
    case 1
    then have "next_day (march_date ?y (s - 365 * k)) = march_date ?y (s - 365 * k + 1)"
      using k by (intro march_date_next) simp_all
    then show ?thesis using kk(1)[OF 1] by (simp add: algebra_simps)
  next
    case 2
    then have "\<not> leap_year (?y + 1)" using leap_year_place[OF ranges(1,2), of k era] k by simp
    then show ?thesis using march_date_364[of ?y] kk(2)[OF 2] 2 by (simp add: algebra_simps)
  next
    case 3
    then have "leap_year (?y + 1)" using leap_year_place[OF ranges(1,2), of k era] ranges by auto
    then show ?thesis using march_date_364[of ?y] kk(3) 3 by simp
  qed
qed

text \<open>The day after the last day of a group of four years, of a century or of an era.\<close>

lemma civil_next_group:
  assumes "era_place c q s" and "\<not> era_place c q (s + 1)"
  obtains era' c' q' where "era_place c' q' 0"
    "146097 * era + era_day c q s + 1 = 146097 * era' + era_day c' q' 0" "era' = era \<or> era' = era + 1"
    "next_day (march_date (400 * era + 100 * c + 4 * q + 3) (s - 365 * 3))
      = march_date (400 * era' + 100 * c' + 4 * q') 0"
    "1095 \<le> s"
proof -
  have ranges: "c \<in> {0..3}" "q \<in> {0..24}" "s \<in> {0..1460}" "q = 24 \<and> c < 3 \<longrightarrow> s \<le> 1459"
    using assms(1) by (auto simp: era_place_def)
  let ?y = "400 * era + 100 * c + 4 * q + 3"
  have leap: "leap_year (?y + 1) \<longleftrightarrow> q < 24 \<or> c = 3"
    using leap_year_place[OF ranges(1,2), of 3 era] by simp
  have le: "0 \<le> c" "c \<le> 3" "q \<le> 24" "0 \<le> s" "s \<le> 1460" using ranges by simp_all
  have "s + 1 \<notin> {0..1460} \<or> q = 24 \<and> c < 3 \<and> \<not> s + 1 \<le> 1459"
    using assms(2) ranges(1,2) unfolding era_place_def by blast
  then have "s = 1460 \<or> q = 24 \<and> c < 3 \<and> s = 1459"
    using le(4,5) ranges(4) unfolding atLeastAtMost_iff by linarith
  then consider "s = 1460" "q < 24" | "s = 1460" "q = 24" "c = 3" | "s = 1459" "q = 24" "c < 3"
    using le ranges(4) by linarith
  then show ?thesis
  proof cases
    case 1
    have day: "s - 365 * 3 = 365" using 1 by simp
    have y: "?y + 1 = 400 * era + 100 * c + 4 * (q + 1)" by simp
    have "next_day (march_date ?y (s - 365 * 3)) = march_date (400 * era + 100 * c + 4 * (q + 1)) 0"
      unfolding day y[symmetric] by (rule march_date_365) (use leap 1 in blast)
    then show ?thesis
      by (rule that[of c "q + 1" era, rotated 3]) (use 1 ranges in \<open>auto simp: era_place_def era_day_def\<close>)
  next
    case 2
    have day: "s - 365 * 3 = 365" using 2 by simp
    have y: "?y + 1 = 400 * (era + 1) + 100 * 0 + 4 * 0" using 2 by simp
    have "next_day (march_date ?y (s - 365 * 3)) = march_date (400 * (era + 1) + 100 * 0 + 4 * 0) 0"
      unfolding day y[symmetric] by (rule march_date_365) (use leap 2 in blast)
    then show ?thesis
      by (rule that[of 0 0 "era + 1", rotated 3]) (use 2 in \<open>auto simp: era_place_def era_day_def\<close>)
  next
    case 3
    have day: "s - 365 * 3 = 364" using 3 by simp
    have y: "?y + 1 = 400 * era + 100 * (c + 1) + 4 * 0" using 3 by simp
    have "next_day (march_date ?y (s - 365 * 3)) = march_date (400 * era + 100 * (c + 1) + 4 * 0) 0"
      unfolding day y[symmetric] march_date_364 using leap 3 by (simp only: if_False) auto
    then show ?thesis
      by (rule that[of "c + 1" 0 era, rotated 3]) (use 3 ranges in \<open>auto simp: era_place_def era_day_def\<close>)
  qed
qed

text \<open>The calendar is right. Day 0 is the first of January 1970, and from one day to the next the
  date moves as the Gregorian calendar says (leap years included), for every day the 32-bit year
  can hold well beyond need (700 billion days).\<close>

theorem civil_follows_calendar:
  assumes "0 \<le> d" and "d < 700000000000"
  shows "civil_from_days 0 = (1970, 1, 1) \<and> civil_from_days (d + 1) = next_day (civil_from_days d)"
proof
  show "civil_from_days 0 = (1970, 1, 1)" by code_simp
  define era where "era = (d + 719468) div 146097"
  have era: "0 \<le> era" "era + 1 \<le> 5000000" using assms zdiv_mono1[of "d + 719468" "700000719468" 146097] unfolding era_def
    by (simp_all add: pos_imp_zdiv_nonneg_iff)
  have "0 \<le> (d + 719468) mod 146097" "(d + 719468) mod 146097 < 146097" by simp_all
  then obtain c q s where place: "era_place c q s" and doe: "(d + 719468) mod 146097 = era_day c q s"
    using era_place_exists by blast
  have d: "d = 146097 * era + era_day c q s - 719468" unfolding doe[symmetric] era_def by simp
  define k where "k = min 3 (s div 365)"
  define y where "y = 400 * era + 100 * c + 4 * q + k"
  have today: "civil_from_days d = march_date y (s - 365 * k)"
    unfolding d y_def by (rule civil_of_era[OF place k_def era(1)]) (use era(2) in simp)
  show "civil_from_days (d + 1) = next_day (civil_from_days d)"
  proof (cases "era_place c q (s + 1)")
    case True
    define k' where "k' = min 3 ((s + 1) div 365)"
    have tomorrow: "d + 1 = 146097 * era + era_day c q (s + 1) - 719468"
      unfolding d by (simp add: era_day_def)
    have "civil_from_days (d + 1) = march_date (400 * era + 100 * c + 4 * q + k') (s + 1 - 365 * k')"
      unfolding tomorrow by (rule civil_of_era[OF True k'_def era(1)]) (use era(2) in simp)
    then show ?thesis using civil_next_same_group[OF place True k_def k'_def, of era] today by (simp add: y_def)
  next
    case False
    obtain era' c' q' where after: "era_place c' q' 0"
      "146097 * era + era_day c q s + 1 = 146097 * era' + era_day c' q' 0" "era' = era \<or> era' = era + 1"
      "next_day (march_date (400 * era + 100 * c + 4 * q + 3) (s - 365 * 3))
        = march_date (400 * era' + 100 * c' + 4 * q') 0" "1095 \<le> s"
      using civil_next_group[OF place False] by metis
    have "s div 365 \<ge> 3" using zdiv_mono1[OF after(5), of 365] by simp
    then have k: "k = 3" unfolding k_def by simp
    have tomorrow: "d + 1 = 146097 * era' + era_day c' q' 0 - 719468" using d after(2) by simp
    have "civil_from_days (d + 1) = march_date (400 * era' + 100 * c' + 4 * q' + 0) (0 - 365 * 0)"
      unfolding tomorrow by (rule civil_of_era[OF after(1)]) (use era after(3) in auto)
    then show ?thesis using after(4) today by (simp add: y_def k)
  qed
qed

theorem civil_follows_calendar_witness:
  "civil_from_days 19782 = next_day (civil_from_days 19781) \<and> civil_from_days 19782 = (2024, 2, 29)"
proof -
  have "civil_from_days (19781 + 1) = next_day (civil_from_days 19781)"
    using civil_follows_calendar[of 19781] by simp
  moreover have "civil_from_days 19782 = (2024, 2, 29)" by code_simp
  ultimately show ?thesis by simp
qed

end
