(* ===== verification/RcTypes.thy ===== *)
theory RcTypes
  imports RcProtocol RcUtils "HOL-Library.Product_Lexorder"
begin

section \<open>Remote-control state (src/src/app_state.rs, src/src/remote_control_backend.rs)\<close>

text \<open>
  The structs and constants of the remote-control backend: connections from app servers, the virtual
  clients on each of them, pending requests, recent events and stream diagnostics. Channels are
  identifiers: an \<open>UnboundedSender\<close> names a channel whose messages are kept in a map, a oneshot sender
  names the request that waits. The \<open>Mutex\<close> around the state makes each locked section one operation.
\<close>

subsection \<open>Constants\<close>

definition REMOTE_CONTROL_PONG_TIMEOUT_MS :: nat where "REMOTE_CONTROL_PONG_TIMEOUT_MS = 60000"
definition REMOTE_CONTROL_SERVER_WORK_QUEUE_CAPACITY :: nat where
  "REMOTE_CONTROL_SERVER_WORK_QUEUE_CAPACITY = 4096"
definition REMOTE_CONTROL_RECENT_EVENT_LIMIT :: nat where "REMOTE_CONTROL_RECENT_EVENT_LIMIT = 96"
definition REMOTE_CONTROL_DIAGNOSTIC_WINDOW_MS :: nat where
  "REMOTE_CONTROL_DIAGNOSTIC_WINDOW_MS = 10000"
definition REMOTE_CONTROL_SOURCE_HINT_TTL_MS :: nat where "REMOTE_CONTROL_SOURCE_HINT_TTL_MS = 30000"
definition MOCHIPORT_BRIDGE_CLIENT_ID :: string where
  "MOCHIPORT_BRIDGE_CLIENT_ID = ''mochiport-bridge''"
definition DEFAULT_REMOTE_CLIENT_KEY :: string where "DEFAULT_REMOTE_CLIENT_KEY = ''default''"

subsection \<open>Data\<close>

datatype source_kind = CodexApp | Vscode | Cli | UnknownSource

datatype stale_reason_code = InitializeTimeout | PongTimeout

datatype outbound_message =
  OutText json | OutPing "nat list" | OutPong "nat list" | OutClose string

record pending_request =
  pr_connection_epoch :: nat
  pr_method :: string
  pr_thread_id :: "string option"
  pr_track_thread_active :: bool
  pr_lifecycle_permit :: bool
  pr_response_tx :: nat
  pr_message :: json
  pr_envelopes :: "json list"

record remote_client =
  cl_client_id :: string
  cl_stream_id :: string
  cl_initialized :: bool
  cl_next_seq_id :: nat
  cl_pending :: "(string, pending_request) hmap"
  cl_current_thread_id :: "string option"
  cl_current_turn_id :: "string option"
  cl_last_app_ping_at_ms :: "nat option"
  cl_last_app_pong_at_ms :: "nat option"
  cl_last_app_pong_status :: "string option"
  cl_last_initialize_sent_at_ms :: "nat option"
  cl_recovery_attempt :: nat
  cl_recovery_started_at_ms :: "nat option"

record stream_diagnostics =
  sd_output_delta_count :: nat
  sd_output_delta_last_seq_id :: "nat option"
  sd_output_delta_last_item_id :: "string option"
  sd_output_delta_last_thread_id :: "string option"
  sd_output_delta_last_seen_at_ms :: "nat option"
  sd_output_delta_last_worker_capacity :: "nat option"
  sd_window_started_at_ms :: "nat option"
  sd_window_server_in_count :: nat
  sd_window_output_delta_count :: nat
  sd_window_ack_count :: nat
  sd_window_first_seq_id :: "nat option"
  sd_window_last_seq_id :: "nat option"
  sd_max_window_server_in_count :: nat
  sd_max_window_output_delta_count :: nat
  sd_max_window_ack_count :: nat
  sd_max_window_started_at_ms :: "nat option"
  sd_max_window_last_at_ms :: "nat option"
  sd_ack_count :: nat
  sd_max_ack_elapsed_ms :: nat
  sd_last_ack_elapsed_ms :: "nat option"
  sd_last_ack_seq_id :: "nat option"

record server_connection =
  cn_connection_id :: string
  cn_connection_epoch :: nat
  cn_default_client_key :: string
  cn_connected :: bool
  cn_source_kind :: source_kind
  cn_user_agent :: "string option"
  cn_server_id :: "string option"
  cn_environment_id :: "string option"
  cn_server_name :: "string option"
  cn_installation_id :: "string option"
  cn_account_id :: "string option"
  cn_subscribe_cursor :: "string option"
  cn_outbound_tx :: "nat option"
  cn_connected_at_ms :: "nat option"
  cn_last_ws_inbound_at_ms :: "nat option"
  cn_last_ws_ping_at_ms :: "nat option"
  cn_last_ws_pong_at_ms :: "nat option"
  cn_last_error :: "string option"
  cn_clients :: "(string, remote_client) hmap"
  cn_server_ack_cursors :: "(string, nat \<times> nat option) hmap"
  cn_stream_diagnostics :: "(string, stream_diagnostics) hmap"

record source_hint =
  sh_source_kind :: source_kind
  sh_user_agent :: "string option"
  sh_captured_at_ms :: nat

record recent_event =
  re_ts_ms :: nat
  re_direction :: string
  re_connection_epoch :: nat
  re_client_id :: string
  re_stream_id :: string
  re_seq_id :: "nat option"
  re_kind :: string
  re_summary :: string

record authorized_client =
  au_client_id :: string
  au_account_user_id :: string
  au_device_identity :: "json option"
  au_display_name :: string
  au_last_seen_at_ms :: nat

record remote_inner =
  ri_connections :: "(string, server_connection) hmap"
  ri_next_connection_epoch :: nat
  ri_pending_source_hints_by_installation :: "(string, source_hint) hmap"
  ri_authorized_clients :: "(string, authorized_client) hmap"
  ri_revoked_clients :: "string set"
  ri_recent_events :: "recent_event list"

definition remote_inner_new :: remote_inner where
  "remote_inner_new = \<lparr> ri_connections = [], ri_next_connection_epoch = 0,
     ri_pending_source_hints_by_installation = [], ri_authorized_clients = [],
     ri_revoked_clients = {}, ri_recent_events = [] \<rparr>"

definition diagnostics_default :: stream_diagnostics where
  "diagnostics_default = \<lparr> sd_output_delta_count = 0, sd_output_delta_last_seq_id = None,
     sd_output_delta_last_item_id = None, sd_output_delta_last_thread_id = None,
     sd_output_delta_last_seen_at_ms = None, sd_output_delta_last_worker_capacity = None,
     sd_window_started_at_ms = None, sd_window_server_in_count = 0, sd_window_output_delta_count = 0,
     sd_window_ack_count = 0, sd_window_first_seq_id = None, sd_window_last_seq_id = None,
     sd_max_window_server_in_count = 0, sd_max_window_output_delta_count = 0,
     sd_max_window_ack_count = 0, sd_max_window_started_at_ms = None, sd_max_window_last_at_ms = None,
     sd_ack_count = 0, sd_max_ack_elapsed_ms = 0, sd_last_ack_elapsed_ms = None,
     sd_last_ack_seq_id = None \<rparr>"

subsection \<open>The greatest element by a key\<close>

text \<open>\<open>Iterator::max_by_key\<close>: of several greatest elements the last one.\<close>

fun max_by_key :: "('a \<Rightarrow> 'b::linorder) \<Rightarrow> 'a list \<Rightarrow> 'a option" where
  "max_by_key key [] = None"
| "max_by_key key (x # xs) =
     Some (fold (\<lambda>y best. if key best \<le> key y then y else best) xs x)"

lemma fold_max_in:
  "fold (\<lambda>y best. if key best \<le> (key y :: 'b::linorder) then y else best) xs x \<in> insert x (set xs)"
proof (induction xs arbitrary: x)
  case (Cons y ys)
  show ?case using Cons.IH[of y] Cons.IH[of x] by auto
qed simp

lemma fold_max_ge:
  "\<forall>z \<in> insert x (set xs). key z \<le>
     key (fold (\<lambda>y best. if key best \<le> (key y :: 'b::linorder) then y else best) xs x)"
proof (induction xs arbitrary: x)
  case (Cons y ys)
  show ?case
  proof (cases "key x \<le> key y")
    case True
    then show ?thesis using Cons.IH[of y] by (auto intro: order_trans)
  next
    case False
    then show ?thesis using Cons.IH[of x] by (auto intro: order_trans)
  qed
qed simp

lemma max_by_key_None [simp]: "max_by_key key xs = None \<longleftrightarrow> xs = []"
  by (cases xs) simp_all

lemma max_by_key_Some:
  assumes "max_by_key key xs = Some m"
  shows "m \<in> set xs \<and> (\<forall>x \<in> set xs. key x \<le> key m)"
  using assms fold_max_in fold_max_ge by (cases xs) fastforce+

lemma max_by_key_unique:
  assumes "inj_on key (set xs)" and "m \<in> set xs" and "\<forall>x \<in> set xs. key x \<le> key m"
  shows "max_by_key key xs = Some m"
proof -
  have "max_by_key key xs \<noteq> None" using assms(2) by auto
  then obtain m' where m': "max_by_key key xs = Some m'" by blast
  then have "m' \<in> set xs" "key m \<le> key m'" "key m' \<le> key m"
    using max_by_key_Some[OF m'] assms(2,3) by auto
  then have "m' = m" using assms(1,2) by (metis antisym inj_onD)
  then show ?thesis using m' by simp
qed

lemma max_by_key_same_set:
  assumes "inj_on key (set xs)" and "set xs = set ys"
  shows "max_by_key key xs = max_by_key key ys"
proof (cases "max_by_key key ys")
  case None
  then show ?thesis using assms(2) by simp
next
  case (Some m)
  then have "m \<in> set xs \<and> (\<forall>x \<in> set xs. key x \<le> key m)"
    using max_by_key_Some[OF Some] assms(2) by simp
  then show ?thesis using max_by_key_unique[OF assms(1), of m] Some by simp
qed

subsection \<open>Looking up and changing a connection\<close>

text \<open>Connections are found by their epoch. A mutable reference to a connection is the function
  applied to it in place.\<close>

definition connection_for_epoch_locked :: "remote_inner \<Rightarrow> nat \<Rightarrow> server_connection option" where
  "connection_for_epoch_locked remote connection_epoch =
     List.find (\<lambda>connection. cn_connection_epoch connection = connection_epoch)
       (map snd (ri_connections remote))"

definition connection_for_epoch_mut_locked ::
  "nat \<Rightarrow> (server_connection \<Rightarrow> server_connection) \<Rightarrow> remote_inner \<Rightarrow> remote_inner" where
  "connection_for_epoch_mut_locked connection_epoch change remote =
     remote\<lparr>ri_connections := update_first
       (\<lambda>(_, connection). cn_connection_epoch connection = connection_epoch)
       (\<lambda>(connection_id, connection). (connection_id, change connection)) (ri_connections remote)\<rparr>"

definition connection_initialized :: "server_connection \<Rightarrow> bool" where
  "connection_initialized connection =
     (case hget (cn_clients connection) (cn_default_client_key connection) of
        None \<Rightarrow> False | Some client \<Rightarrow> cl_initialized client)"

named_theorems connection_simps \<open>lookups of connections after a change\<close>

lemma find_after_change:
  assumes "\<And>connection. cn_connection_epoch (change connection) = cn_connection_epoch connection"
  shows "List.find (\<lambda>connection. cn_connection_epoch connection = e')
      (map snd (update_first (\<lambda>(_, connection). cn_connection_epoch connection = e)
        (\<lambda>(k, connection). (k, change connection)) m)) =
    (if e' = e then map_option change (List.find (\<lambda>connection. cn_connection_epoch connection = e) (map snd m))
     else List.find (\<lambda>connection. cn_connection_epoch connection = e') (map snd m))"
  using assms by (induction m) auto

lemma connection_after_change [connection_simps]:
  assumes "\<And>connection. cn_connection_epoch (change connection) = cn_connection_epoch connection"
  shows "connection_for_epoch_locked (connection_for_epoch_mut_locked e change remote) e' =
    (if e' = e then map_option change (connection_for_epoch_locked remote e)
     else connection_for_epoch_locked remote e')"
  unfolding connection_for_epoch_locked_def connection_for_epoch_mut_locked_def
  by (simp add: find_after_change[OF assms])

lemma update_first_none:
  "List.find P (map snd m) = None \<Longrightarrow> update_first (\<lambda>(_, x). P x) f m = m"
  by (induction m) (auto split: if_splits)

lemma connection_change_absent:
  assumes "connection_for_epoch_locked remote e = None"
  shows "connection_for_epoch_mut_locked e change remote = remote"
  using update_first_none[OF assms[unfolded connection_for_epoch_locked_def]]
  unfolding connection_for_epoch_mut_locked_def by simp

lemma connection_epoch_of_found:
  "connection_for_epoch_locked remote e = Some connection \<Longrightarrow> cn_connection_epoch connection = e"
  by (auto simp: connection_for_epoch_locked_def dest: find_Some_in)

lemma connection_found_in:
  "connection_for_epoch_locked remote e = Some connection \<Longrightarrow>
     \<exists>k. (k, connection) \<in> set (ri_connections remote)"
  by (fastforce simp: connection_for_epoch_locked_def dest!: find_Some_in)

lemma connections_change_fields [simp]:
  "ri_next_connection_epoch (connection_for_epoch_mut_locked e change remote) = ri_next_connection_epoch remote"
  "ri_recent_events (connection_for_epoch_mut_locked e change remote) = ri_recent_events remote"
  "ri_revoked_clients (connection_for_epoch_mut_locked e change remote) = ri_revoked_clients remote"
  "ri_pending_source_hints_by_installation (connection_for_epoch_mut_locked e change remote) =
     ri_pending_source_hints_by_installation remote"
  by (simp_all add: connection_for_epoch_mut_locked_def)

end
