(* ===== verification/RcClients.thy ===== *)
theory RcClients
  imports RcTypes "HOL-Library.Multiset"
begin

section \<open>Connections and virtual clients (src/src/remote_control_backend/client_state.rs)\<close>

text \<open>
  Keys of virtual clients, their creation on a connection, the choice of the active connection and the
  migration of a connection's default client. A function that returns a mutable reference to a client
  takes the change to make as an argument. \<open>uuid\<close> is the identifier \<open>uuid_like\<close> would generate. The
  lemmas show that the choice is the best usable connection whatever the order of the hash map, and
  that creating, migrating and pruning lose no client.
\<close>

subsection \<open>Keys\<close>

definition normalize_remote_client_key :: "string \<Rightarrow> string" where
  "normalize_remote_client_key client_key =
     (let client_key = trim client_key
      in if client_key = [] then DEFAULT_REMOTE_CLIENT_KEY else client_key)"

definition is_legacy_default_client_key :: "string \<Rightarrow> bool" where
  "is_legacy_default_client_key client_key \<longleftrightarrow>
     client_key = DEFAULT_REMOTE_CLIENT_KEY \<or> starts_with ''default:'' client_key"

fun source_default_client_key :: "source_kind \<Rightarrow> string" where
  "source_default_client_key CodexApp = ''default:codex_app''"
| "source_default_client_key Vscode = ''default:vscode''"
| "source_default_client_key Cli = ''default:cli''"
| "source_default_client_key UnknownSource = ''default:unknown''"

definition source_kind_from_default_client_key :: "string \<Rightarrow> source_kind option" where
  "source_kind_from_default_client_key client_key =
     (if client_key = ''default:codex_app'' then Some CodexApp
      else if client_key = ''default:vscode'' then Some Vscode
      else if client_key = ''default:cli'' then Some Cli
      else if client_key = ''default:unknown'' then Some UnknownSource
      else None)"

definition source_kind_from_user_agent :: "string \<Rightarrow> source_kind" where
  "source_kind_from_user_agent user_agent =
     (let user_agent = trim user_agent
      in if starts_with ''Codex Desktop/'' user_agent then CodexApp
         else if starts_with ''codex_vscode/'' user_agent then Vscode
         else if starts_with ''mochiport/'' user_agent \<or> starts_with ''codexhub/'' user_agent
            \<or> contains ''WindowsTerminal'' user_agent \<or> contains ''Terminal'' user_agent then Cli
         else UnknownSource)"

fun source_kind_priority :: "source_kind \<Rightarrow> nat" where
  "source_kind_priority CodexApp = 40"
| "source_kind_priority Vscode = 30"
| "source_kind_priority Cli = 20"
| "source_kind_priority UnknownSource = 10"

lemma source_kind_of_default_key [simp]:
  "source_kind_from_default_client_key (source_default_client_key kind) = Some kind"
  by (cases kind) (simp_all add: source_kind_from_default_client_key_def)

lemma default_key_of_source_kind:
  "source_kind_from_default_client_key key = Some kind \<Longrightarrow> source_default_client_key kind = key"
  by (auto simp: source_kind_from_default_client_key_def split: if_splits)

lemma source_default_key_legacy [simp]: "is_legacy_default_client_key (source_default_client_key kind)"
  by (cases kind) (simp_all add: is_legacy_default_client_key_def starts_with_def)

lemma normalize_key_idem [simp]:
  "normalize_remote_client_key (normalize_remote_client_key key) = normalize_remote_client_key key"
proof -
  have "trim DEFAULT_REMOTE_CLIENT_KEY = DEFAULT_REMOTE_CLIENT_KEY"
    by (simp add: DEFAULT_REMOTE_CLIENT_KEY_def trim_def trim_start_def trim_end_def is_ws_def)
  then show ?thesis by (simp add: normalize_remote_client_key_def Let_def)
qed

subsection \<open>Clients of a connection\<close>

text \<open>The key a client has on a connection: blank and \<open>default\<close> name the connection's default client.\<close>

definition client_key_on :: "server_connection \<Rightarrow> string \<Rightarrow> string" where
  "client_key_on connection client_key =
     (if trim client_key = [] \<or> client_key = DEFAULT_REMOTE_CLIENT_KEY
      then cn_default_client_key connection else normalize_remote_client_key client_key)"

definition new_client :: "string \<Rightarrow> remote_client" where
  "new_client stream_id =
     \<lparr> cl_client_id = MOCHIPORT_BRIDGE_CLIENT_ID, cl_stream_id = stream_id, cl_initialized = False,
       cl_next_seq_id = 1, cl_pending = [], cl_current_thread_id = None, cl_current_turn_id = None,
       cl_last_app_ping_at_ms = None, cl_last_app_pong_at_ms = None, cl_last_app_pong_status = None,
       cl_last_initialize_sent_at_ms = None, cl_recovery_attempt = 0, cl_recovery_started_at_ms = None \<rparr>"

definition with_client_on :: "string \<Rightarrow> string \<Rightarrow> server_connection \<Rightarrow> server_connection" where
  "with_client_on uuid client_key connection =
     (if hcontains (cn_clients connection) client_key then connection
      else
        (let default_stream_id =
               (case hget (cn_clients connection) (cn_default_client_key connection) of
                  Some client \<Rightarrow> cl_stream_id client | None \<Rightarrow> uuid);
             stream_id = (if client_key = cn_default_client_key connection then default_stream_id
                          else stable_id ''stream'' (default_stream_id @ '':'' @ client_key))
         in connection\<lparr>cn_clients := hinsert client_key (new_client stream_id) (cn_clients connection)\<rparr>))"

definition change_client :: "string \<Rightarrow> remote_client \<Rightarrow> server_connection \<Rightarrow> server_connection" where
  "change_client client_key client connection =
     connection\<lparr>cn_clients := hinsert client_key client (cn_clients connection)\<rparr>"

definition ensure_client_state_for_connection_locked ::
  "string \<Rightarrow> nat \<Rightarrow> string \<Rightarrow> (remote_client \<Rightarrow> 'a \<times> remote_client) \<Rightarrow> remote_inner
     \<Rightarrow> 'a option \<times> remote_inner" where
  "ensure_client_state_for_connection_locked uuid connection_epoch client_key change remote =
     (case connection_for_epoch_locked remote connection_epoch of
        None \<Rightarrow> (None, remote)
      | Some connection \<Rightarrow>
          (let client_key = client_key_on connection client_key;
               remote = connection_for_epoch_mut_locked connection_epoch
                          (with_client_on uuid client_key) remote
           in case hget (cn_clients (with_client_on uuid client_key connection)) client_key of
                None \<Rightarrow> (None, remote)
              | Some client \<Rightarrow>
                  (let (result, client) = change client
                   in (Some result, connection_for_epoch_mut_locked connection_epoch
                         (change_client client_key client) remote))))"

definition client_state_for_connection_locked ::
  "remote_inner \<Rightarrow> nat \<Rightarrow> string \<Rightarrow> remote_client option" where
  "client_state_for_connection_locked remote connection_epoch client_key =
     Option.bind (connection_for_epoch_locked remote connection_epoch)
       (\<lambda>connection. hget (cn_clients connection) (client_key_on connection client_key))"

definition client_state_mut_for_connection_locked ::
  "nat \<Rightarrow> string \<Rightarrow> (remote_client \<Rightarrow> 'a \<times> remote_client) \<Rightarrow> remote_inner \<Rightarrow> 'a option \<times> remote_inner" where
  "client_state_mut_for_connection_locked connection_epoch client_key change remote =
     (case connection_for_epoch_locked remote connection_epoch of
        None \<Rightarrow> (None, remote)
      | Some connection \<Rightarrow>
          (case hget (cn_clients connection) (client_key_on connection client_key) of
             None \<Rightarrow> (None, remote)
           | Some client \<Rightarrow>
               (let (result, client) = change client
                in (Some result, connection_for_epoch_mut_locked connection_epoch
                      (change_client (client_key_on connection client_key) client) remote))))"

definition default_client_key_for_connection_locked :: "remote_inner \<Rightarrow> nat \<Rightarrow> string" where
  "default_client_key_for_connection_locked remote connection_epoch =
     unwrap_or (map_option cn_default_client_key (connection_for_epoch_locked remote connection_epoch))
       DEFAULT_REMOTE_CLIENT_KEY"

definition remote_client_key_for_stream_on_connection_locked ::
  "remote_inner \<Rightarrow> nat \<Rightarrow> string \<Rightarrow> string \<Rightarrow> string option" where
  "remote_client_key_for_stream_on_connection_locked remote connection_epoch client_id stream_id =
     Option.bind (connection_for_epoch_locked remote connection_epoch)
       (\<lambda>connection. map_option fst
          (List.find (\<lambda>(_, client). cl_client_id client = client_id \<and> cl_stream_id client = stream_id)
             (cn_clients connection)))"

subsection \<open>Migrating the default client\<close>

definition move_default_client :: "string \<Rightarrow> string \<Rightarrow> remote_client \<Rightarrow> server_connection \<Rightarrow> server_connection" where
  "move_default_client old_client_key new_client_key old_client connection =
     connection\<lparr>cn_clients := hinsert new_client_key old_client (hremove old_client_key (cn_clients connection)),
       cn_default_client_key := new_client_key\<rparr>"

definition migrate_source_default_client_key_locked ::
  "nat \<Rightarrow> string \<Rightarrow> source_kind \<Rightarrow> string \<Rightarrow> string \<Rightarrow> remote_inner \<Rightarrow> string \<times> remote_inner" where
  "migrate_source_default_client_key_locked connection_epoch old_client_key new_source_kind
       client_id stream_id remote =
     (let old_client_key = normalize_remote_client_key old_client_key in
      if new_source_kind = UnknownSource \<or> \<not> is_legacy_default_client_key old_client_key
      then (old_client_key, remote)
      else
        (let new_client_key = source_default_client_key new_source_kind in
         if old_client_key = new_client_key then (old_client_key, remote)
         else case connection_for_epoch_locked remote connection_epoch of
                None \<Rightarrow> (old_client_key, remote)
              | Some connection \<Rightarrow>
                  if hcontains (cn_clients connection) new_client_key then (old_client_key, remote)
                  else case hget (cn_clients connection) old_client_key of
                         None \<Rightarrow> (old_client_key, remote)
                       | Some client \<Rightarrow>
                           if cl_client_id client = client_id \<and> cl_stream_id client = stream_id
                           then (new_client_key, connection_for_epoch_mut_locked connection_epoch
                                   (move_default_client old_client_key new_client_key client) remote)
                           else (old_client_key, remote)))"

subsection \<open>The active connection\<close>

definition usable :: "server_connection \<Rightarrow> bool" where
  "usable connection \<longleftrightarrow> cn_connected connection \<and> cn_outbound_tx connection \<noteq> None"

definition last_seen_ms :: "server_connection \<Rightarrow> nat" where
  "last_seen_ms connection =
     unwrap_or (opt_or (cn_last_ws_inbound_at_ms connection) (cn_connected_at_ms connection)) 0"

definition connection_rank :: "server_connection \<Rightarrow> bool \<times> nat \<times> nat \<times> nat" where
  "connection_rank connection =
     (connection_initialized connection, source_kind_priority (cn_source_kind connection),
      last_seen_ms connection, cn_connection_epoch connection)"

definition prune_inactive_remote_connections_locked :: "remote_inner \<Rightarrow> remote_inner" where
  "prune_inactive_remote_connections_locked remote =
     remote\<lparr>ri_connections := hretain (\<lambda>_. usable) (ri_connections remote)\<rparr>"

definition select_active_connection_id_locked :: "remote_inner \<Rightarrow> string option" where
  "select_active_connection_id_locked remote =
     map_option cn_connection_id
       (max_by_key connection_rank (filter usable (map snd (ri_connections remote))))"

definition active_connection_locked :: "remote_inner \<Rightarrow> server_connection option" where
  "active_connection_locked remote =
     Option.bind (select_active_connection_id_locked remote) (hget (ri_connections remote))"

definition active_connection_mut_locked ::
  "(server_connection \<Rightarrow> server_connection) \<Rightarrow> remote_inner \<Rightarrow> remote_inner" where
  "active_connection_mut_locked change remote =
     (case select_active_connection_id_locked remote of
        None \<Rightarrow> remote
      | Some connection_id \<Rightarrow>
          (case hget (ri_connections remote) connection_id of
             None \<Rightarrow> remote
           | Some connection \<Rightarrow>
               remote\<lparr>ri_connections := hinsert connection_id (change connection) (ri_connections remote)\<rparr>))"

definition active_connection_epoch_locked :: "remote_inner \<Rightarrow> nat option" where
  "active_connection_epoch_locked remote =
     map_option cn_connection_epoch (active_connection_locked remote)"

definition active_default_client_key_locked :: "remote_inner \<Rightarrow> string" where
  "active_default_client_key_locked remote =
     unwrap_or (map_option cn_default_client_key
        (Option.bind (select_active_connection_id_locked remote) (hget (ri_connections remote))))
       DEFAULT_REMOTE_CLIENT_KEY"

definition serves_default_key :: "string \<Rightarrow> server_connection \<Rightarrow> bool" where
  "serves_default_key client_key connection \<longleftrightarrow>
     cn_connected connection \<and> connection_initialized connection \<and> cn_outbound_tx connection \<noteq> None \<and>
     (cn_default_client_key connection = client_key \<or>
      source_kind_from_default_client_key client_key = Some (cn_source_kind connection))"

definition connection_epoch_for_client_key_locked :: "remote_inner \<Rightarrow> string \<Rightarrow> nat option" where
  "connection_epoch_for_client_key_locked remote client_key =
     (if client_key = DEFAULT_REMOTE_CLIENT_KEY \<or> \<not> is_legacy_default_client_key client_key
      then active_connection_epoch_locked remote
      else map_option cn_connection_epoch
             (max_by_key (\<lambda>connection. (last_seen_ms connection, cn_connection_epoch connection))
                (filter (serves_default_key client_key) (map snd (ri_connections remote)))))"

definition resolve_remote_client_key_for_connection_locked :: "remote_inner \<Rightarrow> nat \<Rightarrow> string \<Rightarrow> string" where
  "resolve_remote_client_key_for_connection_locked remote connection_epoch client_key =
     (let client_key = normalize_remote_client_key client_key
      in if client_key = DEFAULT_REMOTE_CLIENT_KEY \<or> source_kind_from_default_client_key client_key \<noteq> None
         then default_client_key_for_connection_locked remote connection_epoch
         else client_key)"

definition resolve_remote_client_key_locked :: "remote_inner \<Rightarrow> string \<Rightarrow> string" where
  "resolve_remote_client_key_locked remote client_key =
     (let client_key = normalize_remote_client_key client_key in
      if client_key = DEFAULT_REMOTE_CLIENT_KEY then active_default_client_key_locked remote
      else if \<not> is_legacy_default_client_key client_key then client_key
      else case connection_epoch_for_client_key_locked remote client_key of
             None \<Rightarrow> client_key
           | Some connection_epoch \<Rightarrow>
               resolve_remote_client_key_for_connection_locked remote connection_epoch client_key)"

definition outbound_tx_for_connection_epoch_locked :: "remote_inner \<Rightarrow> nat \<Rightarrow> nat option" where
  "outbound_tx_for_connection_epoch_locked remote connection_epoch =
     Option.bind (opt_filter cn_connected (connection_for_epoch_locked remote connection_epoch))
       cn_outbound_tx"

definition connection_exists_locked :: "remote_inner \<Rightarrow> nat \<Rightarrow> bool" where
  "connection_exists_locked remote connection_epoch =
     (case connection_for_epoch_locked remote connection_epoch of
        None \<Rightarrow> False | Some connection \<Rightarrow> cn_connected connection)"

definition keep_pending :: "nat \<Rightarrow> remote_client \<Rightarrow> remote_client" where
  "keep_pending connection_epoch client =
     client\<lparr>cl_pending := hretain (\<lambda>_ pending. pr_method pending \<noteq> ''initialize''
         \<or> pr_connection_epoch pending \<noteq> connection_epoch) (cl_pending client)\<rparr>"

definition remove_pending_initialize_for_connection_locked :: "nat \<Rightarrow> remote_inner \<Rightarrow> nat \<times> remote_inner" where
  "remove_pending_initialize_for_connection_locked connection_epoch remote =
     (case connection_for_epoch_locked remote connection_epoch of
        None \<Rightarrow> (0, remote)
      | Some connection \<Rightarrow>
          (sum_list (map (\<lambda>(_, client).
               length (cl_pending client) - length (cl_pending (keep_pending connection_epoch client)))
             (cn_clients connection)),
           connection_for_epoch_mut_locked connection_epoch
             (\<lambda>connection. connection\<lparr>cn_clients :=
                map (\<lambda>(key, client). (key, keep_pending connection_epoch client)) (cn_clients connection)\<rparr>)
             remote))"

subsection \<open>Well-formed states\<close>

definition client_ok :: "remote_client \<Rightarrow> bool" where
  "client_ok client \<longleftrightarrow>
     cl_client_id client = MOCHIPORT_BRIDGE_CLIENT_ID \<and>
     1 \<le> cl_next_seq_id client \<and> cl_next_seq_id client \<le> u64_max \<and> hwf (cl_pending client)"

definition clients_ok :: "(string, remote_client) hmap \<Rightarrow> bool" where
  "clients_ok clients \<longleftrightarrow> hwf clients \<and> (\<forall>client \<in> snd ` set clients. client_ok client)"

definition connection_ok :: "string \<times> server_connection \<Rightarrow> bool" where
  "connection_ok entry \<longleftrightarrow>
     (let (connection_id, connection) = entry in
      cn_connection_id connection = connection_id \<and>
      cn_default_client_key connection \<in> range source_default_client_key \<and>
      clients_ok (cn_clients connection) \<and>
      hwf (cn_server_ack_cursors connection) \<and> hwf (cn_stream_diagnostics connection))"

definition epochs :: "remote_inner \<Rightarrow> nat list" where
  "epochs remote = map (\<lambda>(_, connection). cn_connection_epoch connection) (ri_connections remote)"

definition remote_ok :: "remote_inner \<Rightarrow> bool" where
  "remote_ok remote \<longleftrightarrow>
     hwf (ri_connections remote) \<and> (\<forall>entry \<in> set (ri_connections remote). connection_ok entry) \<and>
     distinct (epochs remote) \<and> (\<forall>e \<in> set (epochs remote). e \<le> ri_next_connection_epoch remote) \<and>
     length (ri_recent_events remote) \<le> REMOTE_CONTROL_RECENT_EVENT_LIMIT"

named_theorems remote_ok_intros \<open>operations keep the state well formed\<close>

lemma remote_ok_new: "remote_ok remote_inner_new"
  by (simp add: remote_ok_def remote_inner_new_def epochs_def)

lemma epochs_change:
  assumes "\<And>connection. cn_connection_epoch (change connection) = cn_connection_epoch connection"
  shows "epochs (connection_for_epoch_mut_locked e change remote) = epochs remote"
  unfolding epochs_def connection_for_epoch_mut_locked_def
  by (simp, rule map_update_first) (auto simp: assms)

lemma map_fst_connections_change:
  "map fst (ri_connections (connection_for_epoch_mut_locked e change remote)) = map fst (ri_connections remote)"
  unfolding connection_for_epoch_mut_locked_def by (simp, rule map_update_first) auto

lemma remote_ok_change [remote_ok_intros]:
  assumes ok: "remote_ok remote"
    and epoch: "\<And>connection. cn_connection_epoch (change connection) = cn_connection_epoch connection"
    and change: "\<And>k connection. connection_ok (k, connection) \<Longrightarrow> connection_ok (k, change connection)"
  shows "remote_ok (connection_for_epoch_mut_locked e change remote)"
proof -
  have "connection_ok entry"
    if "entry \<in> set (ri_connections (connection_for_epoch_mut_locked e change remote))" for entry
  proof -
    have "entry \<in> set (ri_connections remote) \<or>
        entry \<in> (\<lambda>(k, connection). (k, change connection)) ` set (ri_connections remote)"
      using that set_update_first unfolding connection_for_epoch_mut_locked_def by fastforce
    then show ?thesis using ok change by (auto simp: remote_ok_def)
  qed
  then show ?thesis
    using ok epochs_change[OF epoch] map_fst_connections_change[of e change remote]
    by (simp add: remote_ok_def hwf_def)
qed

lemma clients_ok_hget: "clients_ok m \<Longrightarrow> hget m key = Some client \<Longrightarrow> client_ok client"
  by (auto simp: clients_ok_def dest!: map_of_SomeD)

lemma clients_ok_hinsert [simp]: "clients_ok m \<Longrightarrow> client_ok client \<Longrightarrow> clients_ok (hinsert key client m)"
  using set_hinsert_subset[of key client m] by (auto simp: clients_ok_def image_subset_iff)

lemma clients_ok_hremove [simp]: "clients_ok m \<Longrightarrow> clients_ok (hremove key m)"
  by (auto simp: clients_ok_def set_hremove)

lemma connection_ok_client:
  "connection_ok (k, connection) \<Longrightarrow> hget (cn_clients connection) key = Some client \<Longrightarrow> client_ok client"
  by (auto simp: connection_ok_def dest: clients_ok_hget)

lemma new_client_ok [simp]: "client_ok (new_client stream_id)"
  by (simp add: client_ok_def new_client_def u64_max_def)

lemma connection_ok_change_client:
  "connection_ok (k, connection) \<Longrightarrow> client_ok client \<Longrightarrow> connection_ok (k, change_client key client connection)"
  by (simp add: connection_ok_def change_client_def)

lemma connection_ok_with_client:
  "connection_ok (k, connection) \<Longrightarrow> connection_ok (k, with_client_on uuid key connection)"
  by (simp add: connection_ok_def with_client_on_def Let_def)

lemma change_epochs [simp]:
  "cn_connection_epoch (change_client key client connection) = cn_connection_epoch connection"
  "cn_connection_epoch (with_client_on uuid key connection) = cn_connection_epoch connection"
  "cn_connection_epoch (move_default_client old new client connection) = cn_connection_epoch connection"
  by (simp_all add: change_client_def with_client_on_def move_default_client_def Let_def)

lemma connection_ok_found:
  "remote_ok remote \<Longrightarrow> connection_for_epoch_locked remote e = Some connection \<Longrightarrow>
     \<exists>k. connection_ok (k, connection)"
  using connection_found_in by (fastforce simp: remote_ok_def)

lemma remote_ok_ensure [remote_ok_intros]:
  assumes ok: "remote_ok remote" and change: "\<And>client. client_ok client \<Longrightarrow> client_ok (snd (change client))"
  shows "remote_ok (snd (ensure_client_state_for_connection_locked uuid e key change remote))"
proof (cases "connection_for_epoch_locked remote e")
  case None
  then show ?thesis using ok by (simp add: ensure_client_state_for_connection_locked_def)
next
  case (Some connection)
  let ?key = "client_key_on connection key"
  let ?remote = "connection_for_epoch_mut_locked e (with_client_on uuid ?key) remote"
  have step: "remote_ok ?remote" by (rule remote_ok_change[OF ok]) (simp_all add: connection_ok_with_client)
  show ?thesis
  proof (cases "hget (cn_clients (with_client_on uuid ?key connection)) ?key")
    case None
    then show ?thesis using step Some by (simp add: ensure_client_state_for_connection_locked_def Let_def)
  next
    case found: (Some client)
    obtain k where "connection_ok (k, connection)" using connection_ok_found[OF ok Some] by blast
    then have "client_ok client" using connection_ok_client[OF connection_ok_with_client found] by blast
    then have "client_ok (snd (change client))" by (rule change)
    then have "remote_ok (connection_for_epoch_mut_locked e (change_client ?key (snd (change client))) ?remote)"
      by (intro remote_ok_change[OF step]) (simp_all add: connection_ok_change_client)
    then show ?thesis
      using Some found by (cases "change client") (simp add: ensure_client_state_for_connection_locked_def Let_def)
  qed
qed

lemma remote_ok_client_mut [remote_ok_intros]:
  assumes ok: "remote_ok remote" and change: "\<And>client. client_ok client \<Longrightarrow> client_ok (snd (change client))"
  shows "remote_ok (snd (client_state_mut_for_connection_locked e key change remote))"
proof -
  have "remote_ok (connection_for_epoch_mut_locked e (change_client key' (snd (change client))) remote)"
    if conn: "connection_for_epoch_locked remote e = Some connection"
      and cl: "hget (cn_clients connection) key' = Some client"
    for connection key' client
  proof -
    obtain k where "connection_ok (k, connection)" using connection_ok_found[OF ok conn] by blast
    then have "client_ok (snd (change client))" using connection_ok_client[OF _ cl] change by blast
    then show ?thesis by (intro remote_ok_change[OF ok]) (simp_all add: connection_ok_change_client)
  qed
  then show ?thesis
    using ok by (fastforce simp: client_state_mut_for_connection_locked_def Let_def split: option.splits prod.splits)
qed

lemma connection_ok_move_default:
  assumes "connection_ok (k, connection)" and "client_ok client" and "new \<in> range source_default_client_key"
  shows "connection_ok (k, move_default_client old new client connection)"
  using assms by (simp add: connection_ok_def move_default_client_def)

lemma remote_ok_migrate [remote_ok_intros]:
  assumes ok: "remote_ok remote"
  shows "remote_ok (snd (migrate_source_default_client_key_locked e old kind client_id stream_id remote))"
proof -
  have "remote_ok (connection_for_epoch_mut_locked e
      (move_default_client old' (source_default_client_key kind) client) remote)"
    if conn: "connection_for_epoch_locked remote e = Some connection"
      and cl: "hget (cn_clients connection) old' = Some client"
    for connection old' client
  proof -
    obtain k where "connection_ok (k, connection)" using connection_ok_found[OF ok conn] by blast
    then have "client_ok client" by (rule connection_ok_client[OF _ cl])
    then show ?thesis by (intro remote_ok_change[OF ok]) (simp_all add: connection_ok_move_default)
  qed
  then show ?thesis
    using ok by (auto simp: migrate_source_default_client_key_locked_def Let_def split: option.splits)
qed

lemma keep_pending_ok: "client_ok client \<Longrightarrow> client_ok (keep_pending e client)"
  by (simp add: client_ok_def keep_pending_def)

lemma clients_ok_map:
  assumes "clients_ok m" and "\<And>client. client_ok client \<Longrightarrow> client_ok (f client)"
  shows "clients_ok (map (\<lambda>(key, client). (key, f client)) m)"
proof -
  have "map fst (map (\<lambda>(key, client). (key, f client)) m) = map fst m" by (induction m) auto
  then show ?thesis using assms by (auto simp: clients_ok_def hwf_def simp del: map_map)
qed

lemma remote_ok_remove_initialize [remote_ok_intros]:
  assumes "remote_ok remote"
  shows "remote_ok (snd (remove_pending_initialize_for_connection_locked e remote))"
proof -
  have "remote_ok (connection_for_epoch_mut_locked e (\<lambda>connection. connection\<lparr>cn_clients :=
      map (\<lambda>(key, client). (key, keep_pending e client)) (cn_clients connection)\<rparr>) remote)"
    by (intro remote_ok_change[OF assms]) (simp_all add: connection_ok_def clients_ok_map keep_pending_ok)
  then show ?thesis
    using assms by (simp add: remove_pending_initialize_for_connection_locked_def split: option.splits)
qed

lemma epochs_filter: "distinct (map f m) \<Longrightarrow> distinct (map f (hretain P m))"
  by (induction m) (auto simp: hretain_def)

lemma remote_ok_prune [remote_ok_intros]:
  "remote_ok remote \<Longrightarrow> remote_ok (prune_inactive_remote_connections_locked remote)"
  by (auto simp: remote_ok_def prune_inactive_remote_connections_locked_def epochs_def
      intro!: epochs_filter) (auto simp: hretain_def)

subsection \<open>The choice of the active connection\<close>

definition candidates :: "remote_inner \<Rightarrow> server_connection list" where
  "candidates remote = filter usable (map snd (ri_connections remote))"

lemma candidates_iff: "connection \<in> set (candidates remote) \<longleftrightarrow>
    connection \<in> snd ` set (ri_connections remote) \<and> usable connection"
  by (auto simp: candidates_def)

lemma rank_inj:
  assumes "distinct (epochs remote)"
  shows "inj_on connection_rank (snd ` set (ri_connections remote))"
proof -
  have same: "distinct (map (\<lambda>(_, connection). cn_connection_epoch connection) m) \<Longrightarrow>
      (k, c) \<in> set m \<Longrightarrow> (k', c') \<in> set m \<Longrightarrow> cn_connection_epoch c = cn_connection_epoch c' \<Longrightarrow> c = c'"
    for m :: "(string, server_connection) hmap" and k k' c c'
    by (induction m) force+
  show ?thesis
  proof (rule inj_onI)
    fix c c'
    assume "c \<in> snd ` set (ri_connections remote)" and "c' \<in> snd ` set (ri_connections remote)"
      and "connection_rank c = connection_rank c'"
    then show "c = c'"
      using same[of "ri_connections remote"] assms by (auto simp: epochs_def connection_rank_def)
  qed
qed

lemma hget_of_connection:
  assumes "remote_ok remote" and "connection \<in> snd ` set (ri_connections remote)"
  shows "hget (ri_connections remote) (cn_connection_id connection) = Some connection"
proof -
  obtain k where "(k, connection) \<in> set (ri_connections remote)" using assms(2) by auto
  then show ?thesis using assms(1) hwf_in_set_hget by (fastforce simp: remote_ok_def connection_ok_def)
qed

lemma active_connection_max:
  assumes "remote_ok remote"
  shows "active_connection_locked remote = max_by_key connection_rank (candidates remote)"
proof (cases "max_by_key connection_rank (candidates remote)")
  case None
  then show ?thesis
    by (simp add: active_connection_locked_def select_active_connection_id_locked_def candidates_def)
next
  case (Some best)
  then have "best \<in> snd ` set (ri_connections remote)"
    using max_by_key_Some[OF Some] by (simp add: candidates_iff)
  then show ?thesis
    using Some hget_of_connection[OF assms]
    by (simp add: active_connection_locked_def select_active_connection_id_locked_def candidates_def)
qed

lemma remote_ok_reorder:
  assumes "remote_ok remote" and "mset connections = mset (ri_connections remote)"
  shows "remote_ok (remote\<lparr>ri_connections := connections\<rparr>)"
proof -
  have "mset (map f connections) = mset (map f (ri_connections remote))" for f :: "string \<times> server_connection \<Rightarrow> 'a"
    using assms(2) by simp
  note same = mset_eq_imp_distinct_iff[OF this] mset_eq_setD[OF this]
  show ?thesis
    using assms(1) same[of fst] same[of "\<lambda>(_, connection). cn_connection_epoch connection"] mset_eq_setD[OF assms(2)]
    unfolding remote_ok_def hwf_def epochs_def by simp
qed

text \<open>The active connection is the best usable one: there is one exactly when some connection is
  connected and can be written to, every other usable connection ranks strictly lower (initialized
  before not initialized, then the kind of app server, then the latest traffic, then the later
  connection), dropping the unusable connections does not change it, and neither does the order in
  which the hash map enumerates them.\<close>

theorem active_connection_best:
  assumes "remote_ok remote"
  shows "(active_connection_locked remote = None \<longleftrightarrow>
      (\<forall>connection \<in> snd ` set (ri_connections remote). \<not> usable connection)) \<and>
    (\<forall>best. active_connection_locked remote = Some best \<longrightarrow>
      best \<in> snd ` set (ri_connections remote) \<and> usable best \<and>
      (\<forall>connection \<in> snd ` set (ri_connections remote).
         usable connection \<longrightarrow> connection \<noteq> best \<longrightarrow> connection_rank connection < connection_rank best)) \<and>
    active_connection_locked (prune_inactive_remote_connections_locked remote) = active_connection_locked remote \<and>
    (\<forall>connections. mset connections = mset (ri_connections remote) \<longrightarrow>
      active_connection_locked (remote\<lparr>ri_connections := connections\<rparr>) = active_connection_locked remote)"
proof (intro conjI allI impI)
  have inj: "inj_on connection_rank (snd ` set (ri_connections remote))"
    using assms by (simp add: rank_inj remote_ok_def)
  show "active_connection_locked remote = None \<longleftrightarrow>
      (\<forall>connection \<in> snd ` set (ri_connections remote). \<not> usable connection)"
    unfolding active_connection_max[OF assms] by (auto simp: candidates_def filter_empty_conv)
  show "active_connection_locked (prune_inactive_remote_connections_locked remote) = active_connection_locked remote"
  proof -
    have "candidates (prune_inactive_remote_connections_locked remote) = candidates remote"
      unfolding candidates_def prune_inactive_remote_connections_locked_def hretain_def
      by (simp add: filter_map comp_def case_prod_beta)
    then show ?thesis by (simp add: active_connection_max assms remote_ok_prune)
  qed
  {
    fix best
    assume "active_connection_locked remote = Some best"
    then have best: "best \<in> set (candidates remote)"
      "\<forall>c \<in> set (candidates remote). connection_rank c \<le> connection_rank best"
      using max_by_key_Some[of connection_rank "candidates remote" best]
      by (simp_all add: active_connection_max[OF assms])
    show "best \<in> snd ` set (ri_connections remote)" "usable best"
      using best(1) by (simp_all add: candidates_iff)
    show "\<forall>connection \<in> snd ` set (ri_connections remote).
        usable connection \<longrightarrow> connection \<noteq> best \<longrightarrow> connection_rank connection < connection_rank best"
      using best inj by (metis candidates_iff inj_onD order_le_less)
  }
  fix connections
  assume same: "mset connections = mset (ri_connections remote)"
  have "set (candidates (remote\<lparr>ri_connections := connections\<rparr>)) = set (candidates remote)"
    using mset_eq_setD[OF same] by (auto simp: candidates_def)
  moreover have "inj_on connection_rank (set (candidates (remote\<lparr>ri_connections := connections\<rparr>)))"
    using inj mset_eq_setD[OF same] by (auto simp: candidates_def intro: inj_on_subset)
  ultimately show "active_connection_locked (remote\<lparr>ri_connections := connections\<rparr>) = active_connection_locked remote"
    unfolding active_connection_max[OF assms] active_connection_max[OF remote_ok_reorder[OF assms same]]
    by (intro max_by_key_same_set)
qed

subsection \<open>Migration\<close>

lemma hinsert_fresh: "hget m k = None \<Longrightarrow> hinsert k v m = m @ [(k, v)]"
  by (induction m) (auto split: if_splits)

lemma mset_hremove: "hwf m \<Longrightarrow> hget m k = Some v \<Longrightarrow> mset m = add_mset (k, v) (mset (hremove k m))"
proof (induction m)
  case (Cons p m)
  obtain k' v' where p: "p = (k', v')" by fastforce
  show ?case
  proof (cases "k' = k")
    case True
    then have "\<not> hcontains m k" using Cons.prems(1) p by (simp add: hwf_def hcontains_iff)
    then show ?thesis using hremove_absent[of m k] Cons.prems p True by simp
  next
    case False
    then show ?thesis using Cons p by (simp add: hwf_def)
  qed
qed simp

lemma mset_move:
  assumes "hwf m" and "hget m old = Some v" and "hget m new = None" and "old \<noteq> new"
  shows "mset (map snd (hinsert new v (hremove old m))) = mset (map snd m)"
proof -
  have "hget (hremove old m) new = None" using assms(3,4) by simp
  then have "mset (hinsert new v (hremove old m)) = add_mset (new, v) (mset (hremove old m))"
    by (simp add: hinsert_fresh)
  then show ?thesis using mset_hremove[OF assms(1,2)] by simp
qed

text \<open>Migrating the default client to another source kind loses no client and no other connection
  is touched: the connection has the same clients as before (the same multiset, so with the same
  streams, sequence numbers and pending requests). Either nothing changed, or the key returned is the
  connection's new default key, the client that had the old key has it, and no other key changed.\<close>

theorem default_client_migration:
  assumes "remote_ok remote" and "connection_for_epoch_locked remote e = Some connection"
    and "migrate_source_default_client_key_locked e old kind client_id stream_id remote = (key, remote')"
  shows "(\<forall>e'. e' \<noteq> e \<longrightarrow> connection_for_epoch_locked remote' e' = connection_for_epoch_locked remote e') \<and>
    (\<exists>migrated. connection_for_epoch_locked remote' e = Some migrated \<and>
      mset (map snd (cn_clients migrated)) = mset (map snd (cn_clients connection)) \<and>
      (key = normalize_remote_client_key old \<and> remote' = remote \<or>
       key = source_default_client_key kind \<and> cn_default_client_key migrated = key \<and>
       hget (cn_clients migrated) key = hget (cn_clients connection) (normalize_remote_client_key old) \<and>
       hget (cn_clients migrated) (normalize_remote_client_key old) = None \<and>
       (\<forall>k. k \<noteq> key \<and> k \<noteq> normalize_remote_client_key old \<longrightarrow>
          hget (cn_clients migrated) k = hget (cn_clients connection) k)))"
proof (cases "remote' = remote \<and> key = normalize_remote_client_key old")
  case True
  then show ?thesis using assms(2) by auto
next
  case False
  let ?old = "normalize_remote_client_key old" and ?new = "source_default_client_key kind"
  obtain client where client: "hget (cn_clients connection) ?old = Some client" and fresh: "hget (cn_clients connection) ?new = None"
    and neq: "?old \<noteq> ?new"
    and moved: "(key, remote') = (?new, connection_for_epoch_mut_locked e (move_default_client ?old ?new client) remote)"
    using assms(2,3) False unfolding migrate_source_default_client_key_locked_def Let_def
    by (auto simp: hcontains_def split: if_splits option.splits)
  obtain k where "connection_ok (k, connection)" using connection_ok_found[OF assms(1,2)] by blast
  then have wf: "hwf (cn_clients connection)" by (simp add: connection_ok_def clients_ok_def)
  let ?migrated = "move_default_client ?old ?new client connection"
  have at: "connection_for_epoch_locked remote' e' =
      (if e' = e then Some ?migrated else connection_for_epoch_locked remote e')" for e'
    using moved assms(2) by (simp add: connection_after_change)
  have "mset (map snd (cn_clients ?migrated)) = mset (map snd (cn_clients connection))"
    unfolding move_default_client_def using mset_move[OF wf client fresh neq] by simp
  then show ?thesis
    using moved at client neq by (simp add: move_default_client_def)
qed

subsection \<open>Sample connections\<close>

definition sample_connection :: "string \<Rightarrow> nat \<Rightarrow> source_kind \<Rightarrow> nat option \<Rightarrow> server_connection" where
  "sample_connection connection_id connection_epoch kind tx =
     \<lparr> cn_connection_id = connection_id, cn_connection_epoch = connection_epoch,
       cn_default_client_key = source_default_client_key kind, cn_connected = True, cn_source_kind = kind,
       cn_user_agent = None, cn_server_id = None, cn_environment_id = None, cn_server_name = None,
       cn_installation_id = None, cn_account_id = None, cn_subscribe_cursor = None, cn_outbound_tx = tx,
       cn_connected_at_ms = Some 10, cn_last_ws_inbound_at_ms = None, cn_last_ws_ping_at_ms = None,
       cn_last_ws_pong_at_ms = None, cn_last_error = None,
       cn_clients = [(source_default_client_key kind, new_client ''s'')],
       cn_server_ack_cursors = [], cn_stream_diagnostics = [] \<rparr>"

definition sample_remote :: remote_inner where
  "sample_remote = remote_inner_new\<lparr>ri_connections :=
     [(''a'', sample_connection ''a'' 1 UnknownSource (Some 1)), (''b'', sample_connection ''b'' 2 Cli (Some 2))],
     ri_next_connection_epoch := 2\<rparr>"

lemma sample_connection_ok: "connection_ok (connection_id, sample_connection connection_id e kind tx)"
  unfolding connection_ok_def sample_connection_def by (simp add: clients_ok_def hwf_def)

lemma sample_remote_ok: "remote_ok sample_remote"
  by (simp add: remote_ok_def sample_remote_def remote_inner_new_def sample_connection_ok epochs_def hwf_def)
    (simp add: sample_connection_def)

theorem active_connection_best_witness:
  "active_connection_locked (prune_inactive_remote_connections_locked sample_remote) =
     Some (sample_connection ''b'' 2 Cli (Some 2))"
proof -
  have "active_connection_locked (prune_inactive_remote_connections_locked sample_remote) =
      active_connection_locked sample_remote"
    using active_connection_best[OF sample_remote_ok] by blast
  then show ?thesis
    by (simp add: sample_remote_def remote_inner_new_def sample_connection_def active_connection_locked_def
        select_active_connection_id_locked_def usable_def connection_rank_def connection_initialized_def
        last_seen_ms_def new_client_def)
qed

theorem default_client_migration_witness:
  "\<exists>migrated. connection_for_epoch_locked (snd (migrate_source_default_client_key_locked 1 ''default:unknown''
       CodexApp MOCHIPORT_BRIDGE_CLIENT_ID ''s'' sample_remote)) 1 = Some migrated \<and>
     mset (map snd (cn_clients migrated)) = {#new_client ''s''#} \<and>
     cn_default_client_key migrated = ''default:codex_app''"
proof -
  have found: "connection_for_epoch_locked sample_remote 1 = Some (sample_connection ''a'' 1 UnknownSource (Some 1))"
    by (simp add: connection_for_epoch_locked_def sample_remote_def sample_connection_def)
  have key: "normalize_remote_client_key ''default:unknown'' = ''default:unknown''"
    by code_simp
  have moved: "fst (migrate_source_default_client_key_locked 1 ''default:unknown'' CodexApp
      MOCHIPORT_BRIDGE_CLIENT_ID ''s'' sample_remote) = ''default:codex_app''"
    unfolding migrate_source_default_client_key_locked_def key Let_def found
    by (simp add: sample_connection_def new_client_def hcontains_def is_legacy_default_client_key_def
        starts_with_def)
  show ?thesis
    using default_client_migration[OF sample_remote_ok found prod.collapse[symmetric], of "''default:unknown''" CodexApp
        MOCHIPORT_BRIDGE_CLIENT_ID "''s''"] moved key
    by (auto simp: sample_connection_def)
qed

end
