(* ===== verification/ImTypes.thy ===== *)
theory ImTypes
  imports Decimal
begin

section \<open>Messaging-channel types (src/src/types.rs)\<close>

text \<open>
  The platform kinds, inbound attachments, the conversation key of an inbound message and the
  encoded Telegram message target. The lemmas show that the key spelling of a platform is
  injective and case-insensitively parsed back, and that a Telegram target can be split back
  into the chat and topic it was built from.
\<close>

datatype im_platform_kind = Feishu | Telegram | Wechat | Wecom

fun platform_key :: "im_platform_kind \<Rightarrow> string" where
  "platform_key Feishu = ''feishu''"
| "platform_key Telegram = ''telegram''"
| "platform_key Wechat = ''wechat''"
| "platform_key Wecom = ''wecom''"

definition ascii_lower :: "char \<Rightarrow> char" where
  "ascii_lower c = (let n = (of_char c :: nat) in if 65 \<le> n \<and> n \<le> 90 then char_of (n + 32) else c)"

definition eq_ignore_ascii_case :: "string \<Rightarrow> string \<Rightarrow> bool" where
  "eq_ignore_ascii_case a b = (map ascii_lower a = map ascii_lower b)"

definition platform_from_key :: "string \<Rightarrow> im_platform_kind option" where
  "platform_from_key value =
     (let value = trim value in
      if eq_ignore_ascii_case value ''feishu'' then Some Feishu
      else if eq_ignore_ascii_case value ''telegram'' then Some Telegram
      else if eq_ignore_ascii_case value ''wechat'' then Some Wechat
      else if eq_ignore_ascii_case value ''wecom'' then Some Wecom
      else None)"

record inbound_attachment =
  ia_kind :: string
  ia_name :: "string option"
  ia_mime_type :: "string option"
  ia_text_hint :: "string option"
  ia_local_path :: "string option"

text \<open>\<open>InboundMessage::conversation_key\<close>, on the three fields it reads.\<close>

definition conversation_key :: "im_platform_kind \<Rightarrow> string \<Rightarrow> string \<Rightarrow> string" where
  "conversation_key platform account_id chat_id =
     platform_key platform @ '':'' @ account_id @ '':'' @ chat_id"

text \<open>\<open>str::split_once\<close> at the first occurrence of a separator.\<close>

definition split_once :: "string \<Rightarrow> string \<Rightarrow> (string \<times> string) option" where
  "split_once sep s =
     (case find_sub sep s of
        None \<Rightarrow> None
      | Some i \<Rightarrow> Some (take i s, drop (i + length sep) s))"

definition topic_sep :: string where "topic_sep = ''|topic=''"

definition split_telegram_message_target :: "string \<Rightarrow> string \<times> int option" where
  "split_telegram_message_target target =
     (case split_once topic_sep target of
        None \<Rightarrow> (target, None)
      | Some (chat_id, suffix) \<Rightarrow>
          (chat_id, opt_filter (\<lambda>value. value > 0) (parse_i64 suffix)))"

definition telegram_message_target :: "string \<Rightarrow> int option \<Rightarrow> string" where
  "telegram_message_target chat_id topic_id =
     (let (chat_id, existing_topic_id) = split_telegram_message_target chat_id;
          topic_id = opt_or topic_id existing_topic_id
      in case topic_id of
           Some topic_id \<Rightarrow> chat_id @ ''|topic='' @ show_int topic_id
         | None \<Rightarrow> chat_id)"

subsection \<open>Platform keys\<close>

lemma platform_key_inj: "platform_key a = platform_key b \<longleftrightarrow> a = b"
  by (cases a; cases b) simp_all

lemma platform_from_key_key: "platform_from_key (platform_key p) = Some p"
  by (cases p) (simp_all add: platform_from_key_def trim_def trim_start_def trim_end_def is_ws_def
      eq_ignore_ascii_case_def ascii_lower_def)

lemma ascii_lower_idem [simp]: "ascii_lower (ascii_lower c) = ascii_lower c"
  by (simp add: ascii_lower_def Let_def)

lemma eq_ignore_ascii_case_trans:
  "eq_ignore_ascii_case a b \<Longrightarrow> eq_ignore_ascii_case a c = eq_ignore_ascii_case b c"
  by (simp add: eq_ignore_ascii_case_def)

lemma platform_key_no_colon [simp]: "CHR '':'' \<notin> set (platform_key p)"
  by (cases p) simp_all

subsection \<open>Telegram targets\<close>

lemma find_sub_no_bar: "CHR ''|'' \<notin> set s \<Longrightarrow> find_sub topic_sep s = None"
  by (induction s) (auto simp: topic_sep_def starts_with_def)

lemma find_sub_first:
  "CHR ''|'' \<notin> set s \<Longrightarrow> find_sub topic_sep (s @ topic_sep @ t) = Some (length s)"
proof (induction s)
  case Nil
  then show ?case by (simp add: topic_sep_def starts_with_def)
next
  case (Cons c s)
  then have "\<not> starts_with topic_sep ((c # s) @ topic_sep @ t)"
    by (auto simp: topic_sep_def starts_with_def)
  with Cons show ?case by simp
qed

lemma split_target_plain:
  "CHR ''|'' \<notin> set s \<Longrightarrow> split_telegram_message_target s = (s, None)"
  by (simp add: split_telegram_message_target_def split_once_def find_sub_no_bar)

lemma split_target_topic:
  assumes "CHR ''|'' \<notin> set s" and "0 < topic" and "topic < 2 ^ 63"
  shows "split_telegram_message_target (s @ topic_sep @ show_int topic) = (s, Some topic)"
  using assms
  by (simp add: split_telegram_message_target_def split_once_def find_sub_first
      parse_i64_show_int)

lemma topic_sep_literal: "''|topic='' @ t = topic_sep @ t"
  by (simp add: topic_sep_def)

lemma telegram_message_target_plain:
  "CHR ''|'' \<notin> set s \<Longrightarrow>
   telegram_message_target s t =
     (case t of None \<Rightarrow> s | Some topic \<Rightarrow> s @ topic_sep @ show_int topic)"
  by (simp add: telegram_message_target_def split_target_plain topic_sep_def split: option.splits)

lemma split_telegram_message_target_roundtrip_lemma:
  assumes "CHR ''|'' \<notin> set s" and "\<And>t. topic = Some t \<Longrightarrow> 0 < t \<and> t < 2 ^ 63"
  shows "split_telegram_message_target (telegram_message_target s topic) = (s, topic)"
  using assms
  by (cases topic) (simp_all add: telegram_message_target_plain split_target_plain split_target_topic)

lemma telegram_message_target_keeps_topic:
  assumes "CHR ''|'' \<notin> set s" and "0 < topic" and "topic < 2 ^ 63"
  shows "telegram_message_target (telegram_message_target s (Some topic)) None =
         telegram_message_target s (Some topic)"
  using assms
  by (simp add: telegram_message_target_plain)
     (simp add: telegram_message_target_def split_target_topic topic_sep_def
        split_target_topic[unfolded topic_sep_def, simplified])

end
