(* ===== verification/RcConnections.thy ===== *)
theory RcConnections
  imports RcClients ImTypes "HOL-Library.List_Lexorder" "HOL-Library.Char_ord"
begin

section \<open>The life of a connection\<close>

text \<open>
  Opening and closing a connection (websocket.rs), its liveness (remote_control_backend.rs,
  diagnostics.rs), recovery of a client the app server no longer knows (recovery.rs), metadata and hints
  from enrollment (enrollment.rs), authorized clients (clients.rs), and the bounded list of recent
  events. Each definition is one section under the state's lock; \<open>now_ms\<close> and \<open>uuid\<close> are what the clock
  and \<open>uuid_like\<close> would give. Sending on a connection's channel is in theory RcOutbound. The lemmas show
  that every operation keeps the state well formed and when a connection counts as stale.
\<close>

subsection \<open>Recent events\<close>

definition push_remote_recent_event_locked ::
  "nat \<Rightarrow> string \<Rightarrow> nat \<Rightarrow> string \<Rightarrow> string \<Rightarrow> nat option \<Rightarrow> string \<Rightarrow> string \<Rightarrow> remote_inner \<Rightarrow> remote_inner" where
  "push_remote_recent_event_locked now_ms direction connection_epoch client_id stream_id seq_id kind summary remote =
     remote\<lparr>ri_recent_events := keep_last REMOTE_CONTROL_RECENT_EVENT_LIMIT (ri_recent_events remote @
       [\<lparr> re_ts_ms = now_ms, re_direction = direction, re_connection_epoch = connection_epoch,
          re_client_id = client_id, re_stream_id = stream_id, re_seq_id = seq_id, re_kind = kind,
          re_summary = summary \<rparr>])\<rparr>"

definition record_remote_recent_event ::
  "nat \<Rightarrow> string \<Rightarrow> nat \<Rightarrow> string \<Rightarrow> string \<Rightarrow> nat option \<Rightarrow> string \<Rightarrow> string \<Rightarrow> remote_inner \<Rightarrow> remote_inner" where
  "record_remote_recent_event now_ms direction connection_epoch client_id stream_id seq_id kind summary remote =
     (if \<not> connection_exists_locked remote connection_epoch then remote
      else push_remote_recent_event_locked now_ms direction connection_epoch client_id stream_id seq_id
             kind summary remote)"

text \<open>\<open>try_lock\<close> may find the state locked (\<open>lock_free\<close> is whether it does not).\<close>

definition try_record_remote_recent_event ::
  "bool \<Rightarrow> nat \<Rightarrow> string \<Rightarrow> nat \<Rightarrow> string \<Rightarrow> string \<Rightarrow> nat option \<Rightarrow> string \<Rightarrow> string \<Rightarrow> remote_inner \<Rightarrow> remote_inner" where
  "try_record_remote_recent_event lock_free now_ms direction connection_epoch client_id stream_id seq_id
       kind summary remote =
     (if \<not> lock_free then remote
      else if \<not> connection_exists_locked remote connection_epoch then remote
      else push_remote_recent_event_locked now_ms direction connection_epoch client_id stream_id seq_id
             kind summary remote)"

subsection \<open>Opening and closing\<close>

text \<open>The headers of the handshake the connection keeps.\<close>

record ws_headers =
  wh_server_id :: "string option"
  wh_server_name :: "string option"
  wh_installation_id :: "string option"
  wh_account_id :: "string option"
  wh_subscribe_cursor :: "string option"
  wh_user_agent :: "string option"

definition fresh_hint :: "nat \<Rightarrow> ws_headers \<Rightarrow> remote_inner \<Rightarrow> source_hint option" where
  "fresh_hint now_ms headers remote =
     opt_filter (\<lambda>hint. now_ms - sh_captured_at_ms hint \<le> REMOTE_CONTROL_SOURCE_HINT_TTL_MS)
       (Option.bind (wh_installation_id headers) (hget (ri_pending_source_hints_by_installation remote)))"

definition handshake_source_kind :: "source_hint option \<Rightarrow> ws_headers \<Rightarrow> source_kind" where
  "handshake_source_kind source_hint headers =
     unwrap_or (opt_or (map_option sh_source_kind source_hint)
       (map_option source_kind_from_user_agent (wh_user_agent headers))) UnknownSource"

definition handshake_user_agent :: "source_hint option \<Rightarrow> ws_headers \<Rightarrow> string option" where
  "handshake_user_agent source_hint headers =
     opt_or (Option.bind source_hint sh_user_agent) (wh_user_agent headers)"

definition new_connection ::
  "nat \<Rightarrow> nat \<Rightarrow> string \<Rightarrow> nat \<Rightarrow> source_kind \<Rightarrow> string option \<Rightarrow> ws_headers \<Rightarrow> server_connection" where
  "new_connection connected_at_ms outbound_tx connection_id connection_epoch source_kind user_agent headers =
     \<lparr> cn_connection_id = connection_id, cn_connection_epoch = connection_epoch,
       cn_default_client_key = source_default_client_key source_kind, cn_connected = True,
       cn_source_kind = source_kind, cn_user_agent = user_agent, cn_server_id = wh_server_id headers,
       cn_environment_id = None, cn_server_name = wh_server_name headers,
       cn_installation_id = wh_installation_id headers, cn_account_id = wh_account_id headers,
       cn_subscribe_cursor = wh_subscribe_cursor headers, cn_outbound_tx = Some outbound_tx,
       cn_connected_at_ms = Some connected_at_ms, cn_last_ws_inbound_at_ms = Some connected_at_ms,
       cn_last_ws_ping_at_ms = None, cn_last_ws_pong_at_ms = None, cn_last_error = None,
       cn_clients = [], cn_server_ack_cursors = [], cn_stream_diagnostics = [] \<rparr>"

definition open_connection ::
  "string \<Rightarrow> nat \<Rightarrow> nat \<Rightarrow> ws_headers \<Rightarrow> remote_inner \<Rightarrow> (string \<times> nat \<times> (string \<times> string) option) \<times> remote_inner" where
  "open_connection uuid connected_at_ms outbound_tx headers remote =
     (let connection_epoch = sat_add (ri_next_connection_epoch remote) 1;
          remote = remote\<lparr>ri_next_connection_epoch := connection_epoch\<rparr>;
          connection_id = stable_id ''conn'' (unwrap_or (wh_server_id headers) [] @ '':''
            @ unwrap_or (wh_installation_id headers) [] @ '':''
            @ unwrap_or (wh_subscribe_cursor headers) [] @ '':'' @ show_nat connection_epoch);
          source_hint = fresh_hint connected_at_ms headers remote;
          remote = (case wh_installation_id headers of
                      None \<Rightarrow> remote
                    | Some installation_id \<Rightarrow>
                        remote\<lparr>ri_pending_source_hints_by_installation :=
                          hremove installation_id (ri_pending_source_hints_by_installation remote)\<rparr>);
          source_kind = handshake_source_kind source_hint headers;
          remote = remote\<lparr>ri_connections := hinsert connection_id
            (new_connection connected_at_ms outbound_tx connection_id connection_epoch source_kind
               (handshake_user_agent source_hint headers) headers) (ri_connections remote)\<rparr>;
          (stream, remote) = ensure_client_state_for_connection_locked uuid connection_epoch
            (source_default_client_key source_kind)
            (\<lambda>client. ((cl_client_id client, cl_stream_id client), client)) remote
      in ((connection_id, connection_epoch, stream), prune_inactive_remote_connections_locked remote))"

definition cleanup_remote_control_connection ::
  "string \<Rightarrow> nat \<Rightarrow> string option \<Rightarrow> remote_inner \<Rightarrow> remote_inner" where
  "cleanup_remote_control_connection connection_id connection_epoch last_error remote =
     (let remote = snd (remove_pending_initialize_for_connection_locked connection_epoch remote);
          remote = (case hget (ri_connections remote) connection_id of
                      None \<Rightarrow> remote
                    | Some connection \<Rightarrow>
                        remote\<lparr>ri_connections := hinsert connection_id (connection\<lparr>cn_last_error := last_error\<rparr>)
                                                (ri_connections remote)\<rparr>);
          remote = remote\<lparr>ri_connections := hremove connection_id (ri_connections remote)\<rparr>
      in prune_inactive_remote_connections_locked remote)"

text \<open>The clients a new connection initializes: its default client, then those of the bound threads in
  the order of their keys (a \<open>BTreeSet\<close>). \<open>bound_client_keys\<close> are the keys of the runtime's routes.\<close>

definition client_keys_to_initialize :: "string list \<Rightarrow> nat \<Rightarrow> remote_inner \<Rightarrow> string list" where
  "client_keys_to_initialize bound_client_keys connection_epoch remote =
     (if \<not> connection_exists_locked remote connection_epoch then []
      else
        (let default_client_key = default_client_key_for_connection_locked remote connection_epoch
         in default_client_key # sort (remdups (filter (\<lambda>client_key. client_key \<noteq> default_client_key)
              (map (resolve_remote_client_key_for_connection_locked remote connection_epoch)
                 bound_client_keys)))))"

text \<open>The first two locked sections of \<open>ensure_remote_control_client_initialized\<close>: the resolved key and
  whether to send an initialize request.\<close>

definition claim_initialize :: "string \<Rightarrow> nat \<Rightarrow> string \<Rightarrow> remote_inner \<Rightarrow> (string \<times> bool) \<times> remote_inner" where
  "claim_initialize uuid connection_epoch client_key remote =
     (let client_key = resolve_remote_client_key_for_connection_locked remote connection_epoch
            (normalize_remote_client_key client_key)
      in if \<not> connection_exists_locked remote connection_epoch then ((client_key, False), remote)
         else
           (let (claimed, remote) = ensure_client_state_for_connection_locked uuid connection_epoch client_key
                  (\<lambda>client.
                     if (\<exists>(_, pending) \<in> set (cl_pending client).
                           pr_method pending = ''initialize'' \<and> pr_connection_epoch pending = connection_epoch)
                        \<or> cl_initialized client
                     then (False, client)
                     else (True, client\<lparr>cl_last_app_pong_status := None\<rparr>)) remote
            in ((client_key, unwrap_or claimed False), remote)))"

subsection \<open>Liveness\<close>

definition remote_control_liveness_stale_reason ::
  "bool \<Rightarrow> bool \<Rightarrow> nat option \<Rightarrow> nat option \<Rightarrow> nat option \<Rightarrow> nat option \<Rightarrow> nat \<Rightarrow> (stale_reason_code \<times> string) option" where
  "remote_control_liveness_stale_reason connected initialized initialize_started_at_ms last_ping_at_ms
       last_pong_at_ms connected_at_ms now_ms =
     (if \<not> connected then None
      else
        (let timeout_ms = REMOTE_CONTROL_PONG_TIMEOUT_MS in
         if \<not> initialized \<and>
            (case initialize_started_at_ms of None \<Rightarrow> False | Some started_at_ms \<Rightarrow> now_ms - started_at_ms \<ge> timeout_ms)
         then Some (InitializeTimeout,
           ''remote-control initialize timed out after '' @ show_nat (timeout_ms div 1000) @ ''s'')
         else case last_ping_at_ms of
                None \<Rightarrow> None
              | Some last_ping_at_ms \<Rightarrow>
                  (let last_pong_or_connect_at_ms =
                         unwrap_or (opt_or last_pong_at_ms connected_at_ms) last_ping_at_ms
                   in if last_ping_at_ms > last_pong_or_connect_at_ms
                         \<and> now_ms - last_pong_or_connect_at_ms \<ge> timeout_ms
                      then Some (PongTimeout,
                        ''websocket pong timed out after '' @ show_nat (timeout_ms div 1000) @ ''s'')
                      else None)))"

definition remote_control_server_connection_stale_reason ::
  "server_connection \<Rightarrow> nat \<Rightarrow> (stale_reason_code \<times> string) option" where
  "remote_control_server_connection_stale_reason connection now_ms =
     remote_control_liveness_stale_reason (cn_connected connection) (connection_initialized connection)
       (opt_or (Option.bind (hget (cn_clients connection) (cn_default_client_key connection))
                  cl_last_initialize_sent_at_ms)
          (cn_connected_at_ms connection))
       (cn_last_ws_ping_at_ms connection) (cn_last_ws_pong_at_ms connection)
       (cn_connected_at_ms connection) now_ms"

definition remote_control_stale_reason_locked ::
  "remote_inner \<Rightarrow> nat \<Rightarrow> (stale_reason_code \<times> string) option" where
  "remote_control_stale_reason_locked remote now_ms =
     Option.bind (active_connection_locked remote)
       (\<lambda>connection. remote_control_server_connection_stale_reason connection now_ms)"

definition remote_control_connection_stale_reason_locked ::
  "remote_inner \<Rightarrow> nat \<Rightarrow> nat \<Rightarrow> (stale_reason_code \<times> string) option" where
  "remote_control_connection_stale_reason_locked remote connection_epoch now_ms =
     Option.bind (connection_for_epoch_locked remote connection_epoch)
       (\<lambda>connection. remote_control_server_connection_stale_reason connection now_ms)"

definition mark_remote_ws_inbound :: "nat \<Rightarrow> nat \<Rightarrow> remote_inner \<Rightarrow> remote_inner" where
  "mark_remote_ws_inbound now_ms connection_epoch =
     connection_for_epoch_mut_locked connection_epoch (\<lambda>connection. connection\<lparr>cn_last_ws_inbound_at_ms := Some now_ms\<rparr>)"

definition mark_remote_ws_ping :: "nat \<Rightarrow> nat \<Rightarrow> remote_inner \<Rightarrow> remote_inner" where
  "mark_remote_ws_ping now_ms connection_epoch =
     connection_for_epoch_mut_locked connection_epoch (\<lambda>connection. connection\<lparr>cn_last_ws_ping_at_ms := Some now_ms\<rparr>)"

definition mark_remote_ws_pong :: "nat \<Rightarrow> nat \<Rightarrow> remote_inner \<Rightarrow> remote_inner" where
  "mark_remote_ws_pong now_ms connection_epoch =
     connection_for_epoch_mut_locked connection_epoch
       (\<lambda>connection. connection\<lparr>cn_last_ws_inbound_at_ms := Some now_ms, cn_last_ws_pong_at_ms := Some now_ms\<rparr>)"

definition mark_remote_app_ping :: "string \<Rightarrow> nat \<Rightarrow> nat \<Rightarrow> string \<Rightarrow> remote_inner \<Rightarrow> remote_inner" where
  "mark_remote_app_ping uuid now_ms connection_epoch client_key remote =
     snd (ensure_client_state_for_connection_locked uuid connection_epoch (normalize_remote_client_key client_key)
       (\<lambda>client. ((), client\<lparr>cl_last_app_ping_at_ms := Some now_ms\<rparr>)) remote)"

definition remote_app_ping_targets :: "nat \<Rightarrow> remote_inner \<Rightarrow> (string \<times> string \<times> string) list" where
  "remote_app_ping_targets connection_epoch remote =
     (if \<not> connection_exists_locked remote connection_epoch
         \<or> outbound_tx_for_connection_epoch_locked remote connection_epoch = None then []
      else case connection_for_epoch_locked remote connection_epoch of
             None \<Rightarrow> []
           | Some connection \<Rightarrow>
               map (\<lambda>(client_key, client). (client_key, cl_client_id client, cl_stream_id client))
                 (filter (\<lambda>(_, client). cl_initialized client) (cn_clients connection)))"

definition is_current_remote_stream :: "remote_inner \<Rightarrow> nat \<Rightarrow> string \<Rightarrow> string \<Rightarrow> bool" where
  "is_current_remote_stream remote connection_epoch client_id stream_id \<longleftrightarrow>
     connection_exists_locked remote connection_epoch \<and>
     remote_client_key_for_stream_on_connection_locked remote connection_epoch client_id stream_id \<noteq> None"

definition record_remote_app_pong ::
  "string \<Rightarrow> nat \<Rightarrow> nat \<Rightarrow> string \<Rightarrow> string \<Rightarrow> string \<Rightarrow> remote_inner \<Rightarrow> bool \<times> remote_inner" where
  "record_remote_app_pong uuid now_ms connection_epoch client_id stream_id status remote =
     (let normalized_status = map ascii_lower (trim status) in
      if \<not> connection_exists_locked remote connection_epoch then (False, remote)
      else case remote_client_key_for_stream_on_connection_locked remote connection_epoch client_id stream_id of
             None \<Rightarrow> (False, remote)
           | Some client_key \<Rightarrow>
               (let (reinitialize, remote) =
                      ensure_client_state_for_connection_locked uuid connection_epoch client_key
                        (\<lambda>client. (normalized_status = ''unknown'' \<and> cl_initialized client,
                           client\<lparr>cl_last_app_pong_at_ms := Some now_ms,
                                  cl_last_app_pong_status := Some normalized_status\<rparr>)) remote
                in (unwrap_or reinitialize False, remote)))"

subsection \<open>Recovery\<close>

text \<open>The locked section of \<open>start_remote_control_client_recovery\<close>: \<open>None\<close> is an early return, otherwise
  the client's key, the attempt and whether to spawn the recovery.\<close>

definition begin_client_recovery ::
  "string \<Rightarrow> nat \<Rightarrow> nat \<Rightarrow> string \<Rightarrow> string \<Rightarrow> string \<Rightarrow> remote_inner
     \<Rightarrow> (string \<times> nat \<times> bool) option \<times> remote_inner" where
  "begin_client_recovery uuid now_ms connection_epoch client_key client_id stream_id remote =
     (if \<not> connection_exists_locked remote connection_epoch then (None, remote)
      else
        (let client_key = resolve_remote_client_key_for_connection_locked remote connection_epoch
               (normalize_remote_client_key client_key);
             (outcome, remote) = ensure_client_state_for_connection_locked uuid connection_epoch client_key
               (\<lambda>client.
                  if cl_client_id client \<noteq> client_id \<or> cl_stream_id client \<noteq> stream_id then (None, client)
                  else if cl_recovery_started_at_ms client \<noteq> None
                  then (Some (cl_recovery_attempt client, False), client)
                  else
                    (let attempt = sat_add (cl_recovery_attempt client) 1
                     in (Some (attempt, True),
                         client\<lparr>cl_recovery_attempt := attempt, cl_recovery_started_at_ms := Some now_ms,
                           cl_initialized := False, cl_last_app_pong_status := Some ''unknown''\<rparr>))) remote
         in (map_option (\<lambda>(attempt, spawn). (client_key, attempt, spawn))
               (Option.bind outcome (\<lambda>found. found)), remote)))"

text \<open>The locked section of \<open>reset_remote_control_client_for_key\<close>: the client is no longer initialized and
  its pending requests are taken, to be answered with an error.\<close>

definition take_pending_for_reset ::
  "string \<Rightarrow> nat \<Rightarrow> string \<Rightarrow> remote_inner \<Rightarrow> (string \<times> (string, pending_request) hmap) option \<times> remote_inner" where
  "take_pending_for_reset uuid connection_epoch client_key remote =
     (if \<not> connection_exists_locked remote connection_epoch then (None, remote)
      else
        (let client_key = resolve_remote_client_key_for_connection_locked remote connection_epoch
               (normalize_remote_client_key client_key);
             (pending, remote) = ensure_client_state_for_connection_locked uuid connection_epoch client_key
               (\<lambda>client. (cl_pending client, client\<lparr>cl_initialized := False, cl_pending := []\<rparr>)) remote
         in (map_option (\<lambda>pending. (client_key, pending)) pending, remote)))"

datatype recovery_error = EpochChanged | ClientDisappeared string

definition finish_remote_control_client_recovery ::
  "nat \<Rightarrow> string \<Rightarrow> remote_inner \<Rightarrow> (recovery_error + string \<times> string \<times> nat) \<times> remote_inner" where
  "finish_remote_control_client_recovery connection_epoch client_key remote =
     (if \<not> connection_exists_locked remote connection_epoch then (Inl EpochChanged, remote)
      else
        (let client_key = resolve_remote_client_key_for_connection_locked remote connection_epoch client_key;
             (found, remote) = client_state_mut_for_connection_locked connection_epoch client_key
               (\<lambda>client. ((cl_client_id client, cl_stream_id client, cl_recovery_attempt client),
                         client\<lparr>cl_recovery_started_at_ms := None\<rparr>)) remote
         in case found of
              None \<Rightarrow> (Inl (ClientDisappeared client_key), remote)
            | Some result \<Rightarrow>
                (Inr result, connection_for_epoch_mut_locked connection_epoch
                   (\<lambda>connection. connection\<lparr>cn_last_error := None\<rparr>) remote)))"

subsection \<open>Enrollment and authorized clients\<close>

definition describes_connection :: "string \<Rightarrow> string \<Rightarrow> server_connection \<Rightarrow> bool" where
  "describes_connection installation_id server_id connection \<longleftrightarrow>
     cn_server_id connection = Some server_id \<or>
     (installation_id \<noteq> ''unknown-installation'' \<and> cn_installation_id connection = Some installation_id)"

definition set_metadata ::
  "string \<Rightarrow> string \<Rightarrow> string option \<Rightarrow> string option \<Rightarrow> server_connection \<Rightarrow> server_connection" where
  "set_metadata server_id environment_id server_name account_id connection =
     connection\<lparr>cn_server_id := Some server_id, cn_environment_id := Some environment_id,
       cn_server_name := (case server_name of None \<Rightarrow> cn_server_name connection | Some name \<Rightarrow> Some name),
       cn_account_id := (case account_id of None \<Rightarrow> cn_account_id connection | Some account \<Rightarrow> Some account),
       cn_last_error := None\<rparr>"

definition update_live_connection_metadata ::
  "string \<Rightarrow> string \<Rightarrow> string \<Rightarrow> string option \<Rightarrow> string option \<Rightarrow> remote_inner \<Rightarrow> remote_inner" where
  "update_live_connection_metadata installation_id server_id environment_id server_name account_id remote =
     fold (\<lambda>connection_epoch. connection_for_epoch_mut_locked connection_epoch
            (set_metadata server_id environment_id server_name account_id))
       (map cn_connection_epoch (filter (describes_connection installation_id server_id)
          (map snd (ri_connections remote)))) remote"

text \<open>The locked section of \<open>refresh\<close>: metadata, and a hint about the app server that will connect.\<close>

definition refresh_live_state ::
  "nat \<Rightarrow> string \<Rightarrow> string \<Rightarrow> string \<Rightarrow> string option \<Rightarrow> string option \<Rightarrow> remote_inner \<Rightarrow> remote_inner" where
  "refresh_live_state now_ms installation_id server_id environment_id account_id user_agent remote =
     (let remote = update_live_connection_metadata installation_id server_id environment_id None account_id remote
      in case user_agent of
           None \<Rightarrow> remote
         | Some user_agent \<Rightarrow>
             (let source_kind = source_kind_from_user_agent user_agent
              in if source_kind = UnknownSource then remote
                 else remote\<lparr>ri_pending_source_hints_by_installation := hinsert installation_id
                        \<lparr> sh_source_kind = source_kind, sh_user_agent = Some user_agent,
                          sh_captured_at_ms = now_ms \<rparr> (ri_pending_source_hints_by_installation remote)\<rparr>))"

definition LEGACY_FEISHU_BRIDGE_CLIENT_ID :: string where
  "LEGACY_FEISHU_BRIDGE_CLIENT_ID = ''codexhub-feishu''"

definition is_bridge_client_id :: "string \<Rightarrow> bool" where
  "is_bridge_client_id client_id \<longleftrightarrow>
     client_id = MOCHIPORT_BRIDGE_CLIENT_ID \<or> client_id = LEGACY_FEISHU_BRIDGE_CLIENT_ID"

definition bridge_client_revoked :: "string set \<Rightarrow> bool" where
  "bridge_client_revoked revoked_clients \<longleftrightarrow>
     MOCHIPORT_BRIDGE_CLIENT_ID \<in> revoked_clients \<or> LEGACY_FEISHU_BRIDGE_CLIENT_ID \<in> revoked_clients"

definition revoke_bridge_client :: "string \<Rightarrow> string set \<Rightarrow> string set" where
  "revoke_bridge_client client_id revoked_clients =
     (if is_bridge_client_id client_id
      then insert LEGACY_FEISHU_BRIDGE_CLIENT_ID (insert MOCHIPORT_BRIDGE_CLIENT_ID revoked_clients)
      else revoked_clients)"

definition remember_remote_control_client ::
  "authorized_client \<Rightarrow> remote_inner \<Rightarrow> remote_inner" where
  "remember_remote_control_client client remote =
     remote\<lparr>ri_authorized_clients := hinsert (au_client_id client) client (ri_authorized_clients remote)\<rparr>"

definition delete_remote_control_client :: "string \<Rightarrow> remote_inner \<Rightarrow> remote_inner" where
  "delete_remote_control_client client_id remote =
     (let remote = remote\<lparr>ri_authorized_clients := hremove client_id (ri_authorized_clients remote)\<rparr>
      in if is_bridge_client_id client_id
         then remote\<lparr>ri_authorized_clients := hremove LEGACY_FEISHU_BRIDGE_CLIENT_ID
                (hremove MOCHIPORT_BRIDGE_CLIENT_ID (ri_authorized_clients remote)),
              ri_revoked_clients := revoke_bridge_client client_id (ri_revoked_clients remote)\<rparr>
         else remote)"

subsection \<open>Every operation keeps the state well formed\<close>

lemma remote_ok_same_connections:
  "remote_ok remote \<Longrightarrow> ri_connections remote' = ri_connections remote \<Longrightarrow>
     ri_next_connection_epoch remote' = ri_next_connection_epoch remote \<Longrightarrow>
     length (ri_recent_events remote') \<le> REMOTE_CONTROL_RECENT_EVENT_LIMIT \<Longrightarrow> remote_ok remote'"
  by (simp add: remote_ok_def epochs_def)

lemma remote_ok_push_event [remote_ok_intros]:
  "remote_ok remote \<Longrightarrow>
     remote_ok (push_remote_recent_event_locked now direction e client_id stream_id seq_id kind summary remote)"
  unfolding push_remote_recent_event_locked_def by (rule remote_ok_same_connections) simp_all

lemma remote_ok_record_event [remote_ok_intros]:
  "remote_ok remote \<Longrightarrow>
     remote_ok (record_remote_recent_event now direction e client_id stream_id seq_id kind summary remote)"
  "remote_ok remote \<Longrightarrow>
     remote_ok (try_record_remote_recent_event free now direction e client_id stream_id seq_id kind summary remote)"
  by (simp_all add: record_remote_recent_event_def try_record_remote_recent_event_def remote_ok_push_event)

lemma connection_ok_new:
  "connection_ok (connection_id, new_connection now tx connection_id e kind user_agent headers)"
  by (simp add: connection_ok_def new_connection_def clients_ok_def)

lemma remote_ok_insert_connection:
  assumes ok: "remote_ok remote" and less: "ri_next_connection_epoch remote < e"
    and new: "connection_ok (connection_id, connection)" "cn_connection_epoch connection = e"
  shows "remote_ok (remote\<lparr>ri_next_connection_epoch := e,
    ri_connections := hinsert connection_id connection (ri_connections remote)\<rparr>)"
proof -
  let ?m = "ri_connections remote"
  have entries: "entry = (connection_id, connection) \<or> entry \<in> set ?m"
    if "entry \<in> set (hinsert connection_id connection ?m)" for entry
    using that set_hinsert_subset[of connection_id connection ?m] by auto
  have "distinct (map (\<lambda>(_, c). cn_connection_epoch c) (hinsert connection_id connection m))"
    if "distinct (map (\<lambda>(_, c). cn_connection_epoch c) m)" "\<forall>c \<in> snd ` set m. cn_connection_epoch c < e"
    for m :: "(string, server_connection) hmap"
    using that
  proof (induction m)
    case (Cons p m)
    obtain k c where p: "p = (k, c)" by fastforce
    have "(\<lambda>(_, c). cn_connection_epoch c) ` set (hinsert connection_id connection m)
        \<subseteq> insert e ((\<lambda>(_, c). cn_connection_epoch c) ` set m)"
      using set_hinsert_subset[of connection_id connection m] new(2) by fastforce
    then show ?case using Cons p new(2) by fastforce
  qed simp
  moreover have below: "\<forall>c \<in> snd ` set ?m. cn_connection_epoch c < e"
    using ok less by (fastforce simp: remote_ok_def epochs_def)
  ultimately have "distinct (map (\<lambda>(_, c). cn_connection_epoch c) (hinsert connection_id connection ?m))"
    using ok by (simp add: remote_ok_def epochs_def)
  moreover have "\<forall>(_, c) \<in> set (hinsert connection_id connection ?m). cn_connection_epoch c \<le> e"
    using entries below new(2) by fastforce
  ultimately show ?thesis
    using ok entries new(1) by (auto simp: remote_ok_def epochs_def)
qed

lemma remote_ok_open [remote_ok_intros]:
  assumes ok: "remote_ok remote" and fresh: "ri_next_connection_epoch remote < u64_max"
  shows "remote_ok (snd (open_connection uuid now tx headers remote))"
proof -
  let ?e = "sat_add (ri_next_connection_epoch remote) 1"
  have less: "ri_next_connection_epoch remote < ?e" by (rule sat_add_mono_lt[OF fresh])
  have hints: "remote_ok (r\<lparr>ri_pending_source_hints_by_installation := h\<rparr>)" if "remote_ok r" for r h
    using that by (simp add: remote_ok_def epochs_def)
  have "remote_ok (r\<lparr>ri_connections := hinsert cid (new_connection now tx cid ?e kind ua headers) (ri_connections r)\<rparr>)"
    if "r = remote\<lparr>ri_next_connection_epoch := ?e\<rparr> \<or>
        (\<exists>h. r = remote\<lparr>ri_next_connection_epoch := ?e, ri_pending_source_hints_by_installation := h\<rparr>)"
    for r cid kind ua
  proof -
    have "remote_ok (remote\<lparr>ri_next_connection_epoch := ?e,
        ri_connections := hinsert cid (new_connection now tx cid ?e kind ua headers) (ri_connections remote)\<rparr>)"
      by (rule remote_ok_insert_connection[OF ok less connection_ok_new]) (simp add: new_connection_def)
    then show ?thesis using that by (auto simp: remote_ok_def epochs_def)
  qed
  note inserted = this
  show ?thesis
    unfolding open_connection_def Let_def case_prod_beta snd_conv
    by (intro remote_ok_prune remote_ok_ensure inserted) (auto split: option.split)
qed

lemma hremove_hretain: "hremove k m = hretain (\<lambda>k' _. k' \<noteq> k) m"
  by (induction m) (auto simp: hretain_def)

lemma distinct_map_hremove: "distinct (map f m) \<Longrightarrow> distinct (map f (hremove k m))"
  unfolding hremove_hretain by (rule epochs_filter)

lemma remote_ok_cleanup [remote_ok_intros]:
  assumes "remote_ok remote"
  shows "remote_ok (cleanup_remote_control_connection connection_id e last_error remote)"
proof -
  have remove: "remote_ok (r\<lparr>ri_connections := hremove connection_id (ri_connections r)\<rparr>)"
    if "remote_ok r" for r
    using that by (auto simp: remote_ok_def epochs_def set_hremove distinct_map_hremove)
  have same: "hremove connection_id (hinsert connection_id c m) = hremove connection_id m"
    for c and m :: "(string, server_connection) hmap" by (induction m) auto
  let ?r = "snd (remove_pending_initialize_for_connection_locked e remote)"
  have "remote_ok (?r\<lparr>ri_connections := hremove connection_id (ri_connections ?r)\<rparr>)"
    by (rule remove[OF remote_ok_remove_initialize[OF assms]])
  then show ?thesis
    unfolding cleanup_remote_control_connection_def Let_def
    by (auto simp: same intro!: remote_ok_prune split: option.splits)
qed

lemma client_ok_updates [simp]:
  "client_ok (client\<lparr>cl_initialized := b\<rparr>) = client_ok client"
  "client_ok (client\<lparr>cl_last_app_pong_status := s\<rparr>) = client_ok client"
  "client_ok (client\<lparr>cl_last_app_ping_at_ms := t\<rparr>) = client_ok client"
  "client_ok (client\<lparr>cl_last_app_pong_at_ms := t\<rparr>) = client_ok client"
  "client_ok (client\<lparr>cl_recovery_started_at_ms := t\<rparr>) = client_ok client"
  "client_ok (client\<lparr>cl_recovery_attempt := n\<rparr>) = client_ok client"
  "client_ok (client\<lparr>cl_current_thread_id := s\<rparr>) = client_ok client"
  "client_ok (client\<lparr>cl_current_turn_id := s\<rparr>) = client_ok client"
  "client_ok (client\<lparr>cl_last_initialize_sent_at_ms := t\<rparr>) = client_ok client"
  "client_ok client \<Longrightarrow> client_ok (client\<lparr>cl_pending := []\<rparr>)"
  by (simp_all add: client_ok_def)

lemma connection_ok_updates [simp]:
  "connection_ok (k, connection\<lparr>cn_last_ws_inbound_at_ms := t\<rparr>) = connection_ok (k, connection)"
  "connection_ok (k, connection\<lparr>cn_last_ws_ping_at_ms := t\<rparr>) = connection_ok (k, connection)"
  "connection_ok (k, connection\<lparr>cn_last_ws_pong_at_ms := t\<rparr>) = connection_ok (k, connection)"
  "connection_ok (k, connection\<lparr>cn_last_error := s\<rparr>) = connection_ok (k, connection)"
  "connection_ok (k, set_metadata server_id environment_id server_name account_id connection) = connection_ok (k, connection)"
  by (simp_all add: connection_ok_def set_metadata_def)

lemma remote_ok_marks [remote_ok_intros]:
  "remote_ok remote \<Longrightarrow> remote_ok (mark_remote_ws_inbound now e remote)"
  "remote_ok remote \<Longrightarrow> remote_ok (mark_remote_ws_ping now e remote)"
  "remote_ok remote \<Longrightarrow> remote_ok (mark_remote_ws_pong now e remote)"
  "remote_ok remote \<Longrightarrow> remote_ok (mark_remote_app_ping uuid now e key remote)"
  unfolding mark_remote_ws_inbound_def mark_remote_ws_ping_def mark_remote_ws_pong_def mark_remote_app_ping_def
  by (auto intro!: remote_ok_change remote_ok_ensure)

lemma remote_ok_pong [remote_ok_intros]:
  "remote_ok remote \<Longrightarrow> remote_ok (snd (record_remote_app_pong uuid now e client_id stream_id status remote))"
  unfolding record_remote_app_pong_def Let_def
  by (auto simp: case_prod_beta intro!: remote_ok_ensure split: option.split)

lemma remote_ok_claim_initialize [remote_ok_intros]:
  "remote_ok remote \<Longrightarrow> remote_ok (snd (claim_initialize uuid e key remote))"
  unfolding claim_initialize_def Let_def by (auto simp: case_prod_beta intro!: remote_ok_ensure)

lemma remote_ok_begin_recovery [remote_ok_intros]:
  "remote_ok remote \<Longrightarrow> remote_ok (snd (begin_client_recovery uuid now e key client_id stream_id remote))"
  unfolding begin_client_recovery_def Let_def by (auto simp: case_prod_beta intro!: remote_ok_ensure)

lemma remote_ok_take_pending [remote_ok_intros]:
  "remote_ok remote \<Longrightarrow> remote_ok (snd (take_pending_for_reset uuid e key remote))"
  unfolding take_pending_for_reset_def Let_def by (auto simp: case_prod_beta intro!: remote_ok_ensure)

lemma remote_ok_finish_recovery [remote_ok_intros]:
  "remote_ok remote \<Longrightarrow> remote_ok (snd (finish_remote_control_client_recovery e key remote))"
  unfolding finish_remote_control_client_recovery_def Let_def
  by (auto simp: case_prod_beta intro!: remote_ok_change remote_ok_client_mut split: option.split)

lemma set_metadata_epoch:
  "cn_connection_epoch (set_metadata server_id env name account connection) = cn_connection_epoch connection"
  by (simp add: set_metadata_def)

lemma remote_ok_metadata [remote_ok_intros]:
  "remote_ok remote \<Longrightarrow> remote_ok (update_live_connection_metadata inst server_id env name account remote)"
proof -
  have "remote_ok r \<Longrightarrow> remote_ok (fold (\<lambda>e. connection_for_epoch_mut_locked e
      (set_metadata server_id env name account)) es r)" for r es
    by (induction es arbitrary: r) (simp_all add: remote_ok_change set_metadata_epoch)
  then show "remote_ok remote \<Longrightarrow> remote_ok (update_live_connection_metadata inst server_id env name account remote)"
    by (simp add: update_live_connection_metadata_def)
qed

lemma remote_ok_refresh [remote_ok_intros]:
  "remote_ok remote \<Longrightarrow> remote_ok (refresh_live_state now inst server_id env account user_agent remote)"
  using remote_ok_metadata[of remote inst server_id env None account]
  by (auto simp: refresh_live_state_def Let_def remote_ok_def epochs_def split: option.splits)

lemma remote_ok_authorized [remote_ok_intros]:
  "remote_ok remote \<Longrightarrow> remote_ok (remember_remote_control_client client remote)"
  "remote_ok remote \<Longrightarrow> remote_ok (delete_remote_control_client client_id remote)"
  by (simp_all add: remember_remote_control_client_def delete_remote_control_client_def remote_ok_def epochs_def Let_def)

subsection \<open>Liveness, case by case\<close>

text \<open>A connection counts as stale only after a full timeout without an answer: it is connected, and
  either no initialize was answered within sixty seconds of sending it, or a ping was sent after the
  last pong (or the opening) and that pong is at least sixty seconds old. A pong that arrives after
  the last ping clears the reason on an initialized connection.\<close>

theorem stale_only_after_timeout:
  assumes "connection_for_epoch_locked remote e = Some connection"
  shows "(\<forall>code reason. remote_control_connection_stale_reason_locked remote e now = Some (code, reason) \<longrightarrow>
      cn_connected connection \<and>
      (code = InitializeTimeout \<longrightarrow> \<not> connection_initialized connection \<and>
         (\<exists>sent. opt_or (Option.bind (hget (cn_clients connection) (cn_default_client_key connection))
             cl_last_initialize_sent_at_ms) (cn_connected_at_ms connection) = Some sent \<and> sent + 60000 \<le> now)) \<and>
      (code = PongTimeout \<longrightarrow> (\<exists>ping answered. cn_last_ws_ping_at_ms connection = Some ping \<and>
         opt_or (cn_last_ws_pong_at_ms connection) (cn_connected_at_ms connection) = Some answered \<and>
         answered < ping \<and> answered + 60000 \<le> now))) \<and>
    (connection_initialized connection \<and> (\<forall>ping. cn_last_ws_ping_at_ms connection = Some ping \<longrightarrow> ping \<le> now) \<longrightarrow>
      remote_control_connection_stale_reason_locked (mark_remote_ws_pong now e remote) e later = None)"
proof (intro conjI allI impI)
  fix code reason
  assume "remote_control_connection_stale_reason_locked remote e now = Some (code, reason)"
  then have stale: "remote_control_liveness_stale_reason (cn_connected connection) (connection_initialized connection)
      (opt_or (Option.bind (hget (cn_clients connection) (cn_default_client_key connection))
        cl_last_initialize_sent_at_ms) (cn_connected_at_ms connection))
      (cn_last_ws_ping_at_ms connection) (cn_last_ws_pong_at_ms connection) (cn_connected_at_ms connection) now
      = Some (code, reason)"
    using assms
    by (simp add: remote_control_connection_stale_reason_locked_def remote_control_server_connection_stale_reason_def)
  show "cn_connected connection"
    using stale by (simp add: remote_control_liveness_stale_reason_def split: if_splits)
  show "\<not> connection_initialized connection" if "code = InitializeTimeout"
    using stale that by (auto simp: remote_control_liveness_stale_reason_def Let_def split: if_splits option.splits)
  show "\<exists>sent. opt_or (Option.bind (hget (cn_clients connection) (cn_default_client_key connection))
        cl_last_initialize_sent_at_ms) (cn_connected_at_ms connection) = Some sent \<and> sent + 60000 \<le> now"
    if "code = InitializeTimeout"
    using stale that
    by (auto simp: remote_control_liveness_stale_reason_def REMOTE_CONTROL_PONG_TIMEOUT_MS_def Let_def
        split: if_splits option.splits)
  show "\<exists>ping answered. cn_last_ws_ping_at_ms connection = Some ping \<and>
      opt_or (cn_last_ws_pong_at_ms connection) (cn_connected_at_ms connection) = Some answered \<and>
      answered < ping \<and> answered + 60000 \<le> now"
    if "code = PongTimeout"
    using stale that
    by (cases "opt_or (cn_last_ws_pong_at_ms connection) (cn_connected_at_ms connection)")
      (auto simp: remote_control_liveness_stale_reason_def REMOTE_CONTROL_PONG_TIMEOUT_MS_def Let_def
        split: if_splits option.splits)
next
  assume init: "connection_initialized connection \<and> (\<forall>ping. cn_last_ws_ping_at_ms connection = Some ping \<longrightarrow> ping \<le> now)"
  let ?marked = "connection\<lparr>cn_last_ws_inbound_at_ms := Some now, cn_last_ws_pong_at_ms := Some now\<rparr>"
  have "connection_for_epoch_locked (mark_remote_ws_pong now e remote) e = Some ?marked"
    using assms by (simp add: mark_remote_ws_pong_def connection_after_change)
  moreover have "connection_initialized ?marked" using init by (simp add: connection_initialized_def)
  ultimately show "remote_control_connection_stale_reason_locked (mark_remote_ws_pong now e remote) e later = None"
    using init
    by (auto simp: remote_control_connection_stale_reason_locked_def remote_control_server_connection_stale_reason_def
        remote_control_liveness_stale_reason_def Let_def split: option.splits)
qed

theorem stale_only_after_timeout_witness:
  "remote_control_connection_stale_reason_locked (mark_remote_ws_pong 80000 2 (sample_remote\<lparr>ri_connections :=
     [(''b'', (sample_connection ''b'' 2 Cli (Some 2))\<lparr>cn_last_ws_ping_at_ms := Some 70000,
        cn_clients := [(''default:cli'', (new_client ''s'')\<lparr>cl_initialized := True\<rparr>)]\<rparr>)]\<rparr>)) 2 200000 = None"
proof -
  let ?connection = "(sample_connection ''b'' 2 Cli (Some 2))\<lparr>cn_last_ws_ping_at_ms := Some 70000,
        cn_clients := [(''default:cli'', (new_client ''s'')\<lparr>cl_initialized := True\<rparr>)]\<rparr>"
  have "connection_for_epoch_locked (sample_remote\<lparr>ri_connections := [(''b'', ?connection)]\<rparr>) 2 = Some ?connection"
    by (simp add: connection_for_epoch_locked_def sample_connection_def)
  from stale_only_after_timeout[OF this, of 80000 200000] show ?thesis
    by (simp add: sample_connection_def connection_initialized_def)
qed

end
