(* ===== verification/RcMessages.thy ===== *)
theory RcMessages
  imports RcTypes
begin

section \<open>Reading and summarising messages (src/src/remote_control_backend/log_format.rs)\<close>

text \<open>
  The identifiers a message carries and the summaries that go to the log and to the recent events. The
  display of a JSON value (\<open>Value::to_string\<close>) is library code and the argument \<open>display\<close>.
\<close>

definition show_opt_nat :: "nat option \<Rightarrow> string" where
  "show_opt_nat value = unwrap_or (map_option show_nat value) []"

definition jpath_str :: "string \<Rightarrow> string \<Rightarrow> json \<Rightarrow> string option" where
  "jpath_str outer inner value = Option.bind (jget outer value) (jget_str inner)"

definition thread_id_from_payload :: "json \<Rightarrow> string option" where
  "thread_id_from_payload value =
     opt_or (jget_str ''threadId'' value) (opt_or (jget_str ''thread_id'' value)
       (opt_or (jpath_str ''thread'' ''id'' value) (jpath_str ''turn'' ''threadId'' value)))"

definition turn_id_from_payload :: "json \<Rightarrow> string option" where
  "turn_id_from_payload value = opt_or (jget_str ''turnId'' value) (jpath_str ''turn'' ''id'' value)"

definition is_command_execution_output_delta_message :: "json \<Rightarrow> bool" where
  "is_command_execution_output_delta_message message =
     (let message = unwrap_or (jget ''message'' message) message
      in jget_str ''method'' message = Some ''item/commandExecution/outputDelta'')"

text \<open>\<open>str::replace\<close> of a carriage return and line feed by a line feed, then of a line feed by a
  backslash and an n.\<close>

fun crlf_to_lf :: "string \<Rightarrow> string" where
  "crlf_to_lf (a # b # s) =
     (if a = char_of (13 :: nat) \<and> b = char_of (10 :: nat) then char_of (10 :: nat) # crlf_to_lf s
      else a # crlf_to_lf (b # s))"
| "crlf_to_lf s = s"

definition escape_lf :: "string \<Rightarrow> string" where
  "escape_lf s = concat (map (\<lambda>c. if c = char_of (10 :: nat) then [char_of (92 :: nat), CHR ''n''] else [c]) s)"

definition json_preview :: "string \<Rightarrow> string" where
  "json_preview s =
     (let compact = escape_lf (crlf_to_lf s)
      in take 220 compact @ (if length compact > 220 then ''...'' else []))"

lemma json_field_size: "jget k x = Some v \<Longrightarrow> size v < size x"
proof (cases x)
  case (JObj fields)
  assume "jget k x = Some v"
  then have "(k, v) \<in> set fields" using JObj by (auto dest: map_of_SomeD)
  then have "size_prod (\<lambda>_. 0) size (k, v) \<le> size_list (size_prod (\<lambda>_. 0) size) fields"
    by (rule size_list_estimation'[OF _ order_refl])
  then show ?thesis using JObj by simp
qed simp_all

function message_summary :: "(json \<Rightarrow> string) \<Rightarrow> json \<Rightarrow> string" where
  "message_summary display value =
     (case jget ''message'' value of
        Some message \<Rightarrow> message_summary display message
      | None \<Rightarrow>
          (case jget_str ''method'' value of
             Some method \<Rightarrow>
               ''method='' @ method @ '' id='' @ unwrap_or (map_option display (jget ''id'' value)) []
               @ '' thread='' @ unwrap_or (opt_or (thread_id_from_payload value)
                    (Option.bind (jget ''params'' value) thread_id_from_payload)) []
           | None \<Rightarrow>
               (case (jget ''id'' value, jget ''result'' value, jget ''error'' value) of
                  (Some request_id, Some result, _) \<Rightarrow>
                    ''response id='' @ display request_id @ '' thread='' @ unwrap_or (thread_id_from_payload result) []
                | (Some request_id, None, Some err) \<Rightarrow>
                    ''error id='' @ display request_id @ '' body='' @ json_preview (display err)
                | _ \<Rightarrow> json_preview (display value))))"
  by pat_completeness auto

termination message_summary
  by (relation "measure (\<lambda>(display, value). size value)") (auto dest: json_field_size)

declare message_summary.simps [simp del]

definition client_envelope_recent_kind :: "json \<Rightarrow> string" where
  "client_envelope_recent_kind envelope = unwrap_or (jget_str ''type'' envelope) ''client_message''"

definition request_id_key :: "(json \<Rightarrow> string) \<Rightarrow> json \<Rightarrow> string" where
  "request_id_key display request_id = unwrap_or (as_str request_id) (display request_id)"

definition build_pending_message :: "string \<Rightarrow> nat \<Rightarrow> json \<Rightarrow> json" where
  "build_pending_message method request_id params =
     JObj [(''id'', JNum (int request_id)), (''method'', JStr method), (''params'', params)]"

definition pending_requests_summary :: "(string, pending_request) hmap \<Rightarrow> string" where
  "pending_requests_summary pending =
     join_with '','' (map (\<lambda>(request_key, pending).
       request_key @ '':'' @ pr_method pending @ '':thread='' @ unwrap_or (pr_thread_id pending) []
       @ '':envelopes='' @ show_nat (length (pr_envelopes pending))) pending)"

definition format_recent_event :: "recent_event \<Rightarrow> string" where
  "format_recent_event event =
     ''ts_ms='' @ show_nat (re_ts_ms event) @ '' direction='' @ re_direction event
     @ '' connection_epoch='' @ show_nat (re_connection_epoch event) @ '' client_id='' @ re_client_id event
     @ '' stream_id='' @ re_stream_id event @ '' seq_id='' @ show_opt_nat (re_seq_id event)
     @ '' kind='' @ re_kind event @ '' summary='' @ re_summary event"

end
