(* ===== verification/RcOutbound.thy ===== *)
theory RcOutbound
  imports RcConnections RcMessages
begin

section \<open>Sending to the app server (src/src/remote_control_backend/outbound.rs, recovery.rs)\<close>

text \<open>
  What the backend sends on a connection: requests and notifications with sequence numbers of their
  client, acknowledgements, initialize requests and their bookkeeping, replays, and the reset of a client.
  The state of the backend is extended by the channels still read by a writer task, the log of what
  was sent on them, the answers given to waiting requests and the two global counters. An asynchronous
  function is given as it runs when no other task changes the state between its locked sections.
  Base64 and JSON are the argument \<open>codec\<close>.
\<close>

subsection \<open>State\<close>

record codec =
  co_encode64 :: "nat list \<Rightarrow> string"
  co_decode64 :: "string \<Rightarrow> nat list option"
  co_to_vec :: "json \<Rightarrow> nat list option"
  co_from_slice :: "nat list \<Rightarrow> json option"
  co_display :: "json \<Rightarrow> string"

datatype outbound_error =
    NotConnected
  | ChannelClosed
  | TargetNotRegistered string string
  | ConnectionDisappeared
  | LifecycleDraining
  | ProtocolFailed protocol_error

record remote_world =
  rw_inner :: remote_inner
  rw_open_channels :: "nat set"
  rw_sent :: "(nat \<times> outbound_message) list"
  rw_responses :: "(nat \<times> (string + json)) list"
  rw_next_request_id :: nat
  rw_next_subscribe_cursor_id :: nat

text \<open>The \<open>?\<close> operator between steps that change the state.\<close>

fun and_then :: "('e + 'a) \<times> 's \<Rightarrow> ('a \<Rightarrow> 's \<Rightarrow> ('e + 'b) \<times> 's) \<Rightarrow> ('e + 'b) \<times> 's" where
  "and_then (Inl e, s) f = (Inl e, s)"
| "and_then (Inr x, s) f = f x s"

lemma and_then_Inr: "and_then r f = (Inr y, s') \<longleftrightarrow> (\<exists>x s. r = (Inr x, s) \<and> f x s = (Inr y, s'))"
  by (cases r; cases "fst r") auto

definition with_inner :: "(remote_inner \<Rightarrow> 'a \<times> remote_inner) \<Rightarrow> remote_world \<Rightarrow> 'a \<times> remote_world" where
  "with_inner operation world =
     (let (result, inner) = operation (rw_inner world) in (result, world\<lparr>rw_inner := inner\<rparr>))"

definition change_inner :: "(remote_inner \<Rightarrow> remote_inner) \<Rightarrow> remote_world \<Rightarrow> remote_world" where
  "change_inner operation world = world\<lparr>rw_inner := operation (rw_inner world)\<rparr>"

definition channel_send ::
  "nat \<Rightarrow> outbound_message \<Rightarrow> remote_world \<Rightarrow> (outbound_error + unit) \<times> remote_world" where
  "channel_send tx message world =
     (if tx \<in> rw_open_channels world then (Inr (), world\<lparr>rw_sent := rw_sent world @ [(tx, message)]\<rparr>)
      else (Inl ChannelClosed, world))"

subsection \<open>Counters and sequence numbers\<close>

definition next_request_id :: "remote_world \<Rightarrow> nat \<times> remote_world" where
  "next_request_id world =
     (rw_next_request_id world, world\<lparr>rw_next_request_id := (rw_next_request_id world + 1) mod 2 ^ 64\<rparr>)"

definition next_remote_subscribe_cursor :: "remote_world \<Rightarrow> string \<times> remote_world" where
  "next_remote_subscribe_cursor world =
     (let cursor = ''mochiport:'' @ show_nat (rw_next_subscribe_cursor_id world);
          world = world\<lparr>rw_next_subscribe_cursor_id := (rw_next_subscribe_cursor_id world + 1) mod 2 ^ 64\<rparr>
      in (cursor, change_inner (active_connection_mut_locked
            (\<lambda>connection. connection\<lparr>cn_subscribe_cursor := Some cursor\<rparr>)) world))"

definition take_seq_id :: "remote_client \<Rightarrow> nat \<times> remote_client" where
  "take_seq_id client = (cl_next_seq_id client, client\<lparr>cl_next_seq_id := sat_add (cl_next_seq_id client) 1\<rparr>)"

definition next_client_envelope_parts ::
  "string \<Rightarrow> string \<Rightarrow> remote_inner \<Rightarrow> (outbound_error + string \<times> string \<times> nat) \<times> remote_inner" where
  "next_client_envelope_parts uuid client_key remote =
     (case active_connection_epoch_locked remote of
        None \<Rightarrow> (Inl NotConnected, remote)
      | Some connection_epoch \<Rightarrow>
          (let client_key = resolve_remote_client_key_for_connection_locked remote connection_epoch
                 (normalize_remote_client_key client_key);
               (parts, remote) = ensure_client_state_for_connection_locked uuid connection_epoch client_key
                 (\<lambda>client. let (seq_id, changed) = take_seq_id client
                           in ((cl_client_id client, cl_stream_id client, seq_id), changed)) remote
           in (ok_or ConnectionDisappeared parts, remote)))"

text \<open>The locked section of \<open>send_response_for_stream\<close> and \<open>send_initialized_for_stream\<close>.\<close>

definition take_seq_for_stream ::
  "string \<Rightarrow> nat \<Rightarrow> string \<Rightarrow> string \<Rightarrow> remote_inner \<Rightarrow> (outbound_error + nat) \<times> remote_inner" where
  "take_seq_for_stream uuid connection_epoch client_id stream_id remote =
     (case remote_client_key_for_stream_on_connection_locked remote connection_epoch client_id stream_id of
        None \<Rightarrow> (Inl (TargetNotRegistered client_id stream_id), remote)
      | Some client_key \<Rightarrow>
          (let (seq_id, remote) =
                 ensure_client_state_for_connection_locked uuid connection_epoch client_key take_seq_id remote
           in (ok_or ConnectionDisappeared seq_id, remote)))"

subsection \<open>Sending envelopes\<close>

text \<open>One envelope: the recent event, then the channel.\<close>

definition send_on_channel ::
  "codec \<Rightarrow> nat \<Rightarrow> nat \<Rightarrow> nat \<Rightarrow> json \<Rightarrow> remote_world \<Rightarrow> (outbound_error + unit) \<times> remote_world" where
  "send_on_channel codec now_ms connection_epoch tx envelope world =
     channel_send tx (OutText envelope)
       (change_inner (record_remote_recent_event now_ms ''client_out'' connection_epoch
          (unwrap_or (jget_str ''client_id'' envelope) []) (unwrap_or (jget_str ''stream_id'' envelope) [])
          (Option.bind (jget ''seq_id'' envelope) as_u64) (client_envelope_recent_kind envelope)
          (message_summary (co_display codec) envelope)) world)"

fun send_all_on_channel ::
  "codec \<Rightarrow> nat \<Rightarrow> nat \<Rightarrow> nat \<Rightarrow> json list \<Rightarrow> remote_world \<Rightarrow> (outbound_error + unit) \<times> remote_world" where
  "send_all_on_channel codec now_ms connection_epoch tx [] world = (Inr (), world)"
| "send_all_on_channel codec now_ms connection_epoch tx (envelope # envelopes) world =
     and_then (send_on_channel codec now_ms connection_epoch tx envelope world)
       (\<lambda>_. send_all_on_channel codec now_ms connection_epoch tx envelopes)"

definition send_envelopes_on_connection ::
  "codec \<Rightarrow> nat \<Rightarrow> nat \<Rightarrow> json list \<Rightarrow> remote_world \<Rightarrow> (outbound_error + unit) \<times> remote_world" where
  "send_envelopes_on_connection codec now_ms connection_epoch envelopes world =
     (case outbound_tx_for_connection_epoch_locked (rw_inner world) connection_epoch of
        None \<Rightarrow> (Inl NotConnected, world)
      | Some tx \<Rightarrow> send_all_on_channel codec now_ms connection_epoch tx envelopes world)"

definition send_envelope_on_connection ::
  "codec \<Rightarrow> nat \<Rightarrow> nat \<Rightarrow> json \<Rightarrow> remote_world \<Rightarrow> (outbound_error + unit) \<times> remote_world" where
  "send_envelope_on_connection codec now_ms connection_epoch envelope world =
     (case outbound_tx_for_connection_epoch_locked (rw_inner world) connection_epoch of
        None \<Rightarrow> (Inl NotConnected, world)
      | Some tx \<Rightarrow> send_on_channel codec now_ms connection_epoch tx envelope world)"

definition send_envelopes ::
  "codec \<Rightarrow> nat \<Rightarrow> json list \<Rightarrow> remote_world \<Rightarrow> (outbound_error + unit) \<times> remote_world" where
  "send_envelopes codec now_ms envelopes world =
     (case active_connection_epoch_locked (rw_inner world) of
        None \<Rightarrow> (Inl NotConnected, world)
      | Some connection_epoch \<Rightarrow> send_envelopes_on_connection codec now_ms connection_epoch envelopes world)"

definition send_ws_control_ping :: "nat \<Rightarrow> remote_world \<Rightarrow> (outbound_error + unit) \<times> remote_world" where
  "send_ws_control_ping connection_epoch world =
     (case outbound_tx_for_connection_epoch_locked (rw_inner world) connection_epoch of
        None \<Rightarrow> (Inl NotConnected, world)
      | Some tx \<Rightarrow> channel_send tx (OutPing []) world)"

definition send_ws_control_pong :: "nat \<Rightarrow> nat list \<Rightarrow> remote_world \<Rightarrow> (outbound_error + unit) \<times> remote_world" where
  "send_ws_control_pong connection_epoch data world =
     (case outbound_tx_for_connection_epoch_locked (rw_inner world) connection_epoch of
        None \<Rightarrow> (Inl NotConnected, world)
      | Some tx \<Rightarrow> channel_send tx (OutPong data) world)"

text \<open>\<open>lock_free\<close>: whether the state is unlocked when the acknowledgement is recorded.\<close>

definition ack_server_envelope ::
  "bool \<Rightarrow> nat \<Rightarrow> nat \<Rightarrow> nat \<Rightarrow> string \<Rightarrow> string \<Rightarrow> nat \<Rightarrow> nat option \<Rightarrow> remote_world
     \<Rightarrow> (outbound_error + unit) \<times> remote_world" where
  "ack_server_envelope lock_free now_ms tx connection_epoch client_id stream_id seq_id segment_id world =
     and_then (channel_send tx (OutText (build_client_ack_envelope client_id stream_id seq_id segment_id)) world)
       (\<lambda>_ world. (Inr (), change_inner (try_record_remote_recent_event lock_free now_ms ''client_out''
          connection_epoch client_id stream_id (Some seq_id) ''ack''
          (''segment_id='' @ show_opt_nat segment_id)) world))"

definition build_on :: "codec \<Rightarrow> string \<Rightarrow> string \<Rightarrow> nat \<Rightarrow> json \<Rightarrow> string \<Rightarrow> outbound_error + json list" where
  "build_on codec client_id stream_id seq_id message cursor =
     (case build_client_message_envelopes (co_encode64 codec) (co_to_vec codec) client_id stream_id seq_id
             message (Some cursor) of
        Inl err \<Rightarrow> Inl (ProtocolFailed err) | Inr envelopes \<Rightarrow> Inr envelopes)"

text \<open>A message to a registered stream: \<open>send_response_for_stream\<close> and \<open>send_initialized_for_stream\<close>
  differ in the message.\<close>

definition send_to_stream ::
  "codec \<Rightarrow> string \<Rightarrow> nat \<Rightarrow> nat \<Rightarrow> string \<Rightarrow> string \<Rightarrow> json \<Rightarrow> remote_world \<Rightarrow> (outbound_error + unit) \<times> remote_world" where
  "send_to_stream codec uuid now_ms connection_epoch client_id stream_id message world =
     and_then (with_inner (take_seq_for_stream uuid connection_epoch client_id stream_id) world)
       (\<lambda>seq_id world.
          let (cursor, world) = next_remote_subscribe_cursor world
          in case build_on codec client_id stream_id seq_id message cursor of
               Inl err \<Rightarrow> (Inl err, world)
             | Inr envelopes \<Rightarrow> send_envelopes_on_connection codec now_ms connection_epoch envelopes world)"

definition send_response_for_stream ::
  "codec \<Rightarrow> string \<Rightarrow> nat \<Rightarrow> nat \<Rightarrow> string \<Rightarrow> string \<Rightarrow> json \<Rightarrow> json \<Rightarrow> remote_world
     \<Rightarrow> (outbound_error + unit) \<times> remote_world" where
  "send_response_for_stream codec uuid now_ms connection_epoch client_id stream_id request_id result =
     send_to_stream codec uuid now_ms connection_epoch client_id stream_id
       (JObj [(''id'', request_id), (''result'', result)])"

definition send_initialized_for_stream ::
  "codec \<Rightarrow> string \<Rightarrow> nat \<Rightarrow> nat \<Rightarrow> string \<Rightarrow> string \<Rightarrow> remote_world \<Rightarrow> (outbound_error + unit) \<times> remote_world" where
  "send_initialized_for_stream codec uuid now_ms connection_epoch client_id stream_id =
     send_to_stream codec uuid now_ms connection_epoch client_id stream_id
       (JObj [(''method'', JStr ''initialized'')])"

subsection \<open>Initialize requests\<close>

definition initialize_message :: "string \<Rightarrow> nat \<Rightarrow> json" where
  "initialize_message version initialize_id =
     JObj [(''id'', JNum (int initialize_id)), (''method'', JStr ''initialize''),
       (''params'', JObj
          [(''clientInfo'', JObj [(''name'', JStr ''mochiport''), (''title'', JStr ''MochiPort''),
             (''version'', JStr version)]),
           (''capabilities'', JObj [(''experimentalApi'', JBool True), (''requestAttestation'', JBool False)])])]"

text \<open>What the locked section does to the client: time stamp, sequence number, envelopes, pending entry.
  An error of the envelopes leaves the first two changes.\<close>

definition register_initialize ::
  "codec \<Rightarrow> nat \<Rightarrow> nat \<Rightarrow> nat \<Rightarrow> json \<Rightarrow> string \<Rightarrow> remote_client
     \<Rightarrow> (outbound_error + json list) \<times> remote_client" where
  "register_initialize codec now_ms connection_epoch initialize_id message cursor client =
     (let client = client\<lparr>cl_last_initialize_sent_at_ms := Some now_ms\<rparr>;
          (seq_id, client) = take_seq_id client
      in case build_on codec (cl_client_id client) (cl_stream_id client) seq_id message cursor of
           Inl err \<Rightarrow> (Inl err, client)
         | Inr envelopes \<Rightarrow>
             (Inr envelopes, client\<lparr>cl_pending := hinsert (show_nat initialize_id)
                \<lparr> pr_connection_epoch = connection_epoch, pr_method = ''initialize'', pr_thread_id = None,
                  pr_track_thread_active = False, pr_lifecycle_permit = True, pr_response_tx = initialize_id,
                  pr_message = message, pr_envelopes = envelopes \<rparr> (cl_pending client)\<rparr>))"

definition forget_pending :: "nat \<Rightarrow> string \<Rightarrow> string \<Rightarrow> remote_inner \<Rightarrow> remote_inner" where
  "forget_pending connection_epoch client_key request_key remote =
     snd (client_state_mut_for_connection_locked connection_epoch client_key
       (\<lambda>client. ((), client\<lparr>cl_pending := hremove request_key (cl_pending client)\<rparr>)) remote)"

text \<open>\<open>admitted\<close> is the outcome of \<open>try_admit\<close> (theory Lifecycle), \<open>version\<close> the package's version.\<close>

definition send_initialize_for_client_on_connection ::
  "codec \<Rightarrow> string \<Rightarrow> string \<Rightarrow> nat \<Rightarrow> bool \<Rightarrow> nat \<Rightarrow> string \<Rightarrow> remote_world
     \<Rightarrow> (outbound_error + nat) \<times> remote_world" where
  "send_initialize_for_client_on_connection codec version uuid now_ms admitted connection_epoch client_key world =
     (if \<not> admitted then (Inl LifecycleDraining, world)
      else
        (let client_key = normalize_remote_client_key client_key;
             (initialize_id, world) = next_request_id world;
             message = initialize_message version initialize_id;
             (cursor, world) = next_remote_subscribe_cursor world;
             (registered, world) = with_inner (ensure_client_state_for_connection_locked uuid connection_epoch
                client_key (register_initialize codec now_ms connection_epoch initialize_id message cursor)) world
         in case registered of
              None \<Rightarrow> (Inl ConnectionDisappeared, world)
            | Some (Inl err) \<Rightarrow> (Inl err, world)
            | Some (Inr envelopes) \<Rightarrow>
                (case send_envelopes_on_connection codec now_ms connection_epoch envelopes world of
                   (Inl err, world) \<Rightarrow>
                     (Inl err, change_inner (forget_pending connection_epoch client_key (show_nat initialize_id)) world)
                 | (Inr _, world) \<Rightarrow> (Inr initialize_id, world))))"

definition ensure_remote_control_client_initialized ::
  "codec \<Rightarrow> string \<Rightarrow> string \<Rightarrow> nat \<Rightarrow> bool \<Rightarrow> nat \<Rightarrow> string \<Rightarrow> remote_world
     \<Rightarrow> (outbound_error + unit) \<times> remote_world" where
  "ensure_remote_control_client_initialized codec version uuid now_ms admitted connection_epoch client_key world =
     (let ((client_key, should_initialize), world) =
            with_inner (claim_initialize uuid connection_epoch client_key) world
      in if should_initialize
         then and_then (send_initialize_for_client_on_connection codec version uuid now_ms admitted
                connection_epoch client_key world) (\<lambda>_ world. (Inr (), world))
         else (Inr (), world))"

text \<open>All clients of a new connection, in turn; the first error ends the loop.\<close>

fun initialize_each ::
  "codec \<Rightarrow> string \<Rightarrow> string \<Rightarrow> nat \<Rightarrow> bool \<Rightarrow> nat \<Rightarrow> string list \<Rightarrow> remote_world
     \<Rightarrow> (outbound_error + unit) \<times> remote_world" where
  "initialize_each codec version uuid now_ms admitted connection_epoch [] world = (Inr (), world)"
| "initialize_each codec version uuid now_ms admitted connection_epoch (client_key # client_keys) world =
     and_then (ensure_remote_control_client_initialized codec version uuid now_ms admitted connection_epoch
        client_key world)
       (\<lambda>_. initialize_each codec version uuid now_ms admitted connection_epoch client_keys)"

definition initialize_remote_clients_for_connection ::
  "codec \<Rightarrow> string \<Rightarrow> string \<Rightarrow> nat \<Rightarrow> bool \<Rightarrow> string list \<Rightarrow> nat \<Rightarrow> remote_world
     \<Rightarrow> (outbound_error + unit) \<times> remote_world" where
  "initialize_remote_clients_for_connection codec version uuid now_ms admitted bound_client_keys
       connection_epoch world =
     initialize_each codec version uuid now_ms admitted connection_epoch
       (client_keys_to_initialize bound_client_keys connection_epoch (rw_inner world)) world"

subsection \<open>Replay and recovery\<close>

definition replayable :: "nat \<Rightarrow> string \<Rightarrow> remote_inner \<Rightarrow> json list list" where
  "replayable connection_epoch client_key remote =
     (case client_state_for_connection_locked remote connection_epoch (normalize_remote_client_key client_key) of
        None \<Rightarrow> []
      | Some client \<Rightarrow>
          if \<not> connection_exists_locked remote connection_epoch \<or> \<not> cl_initialized client then []
          else map (\<lambda>(_, pending). pr_envelopes pending)
                 (filter (\<lambda>(_, pending). pr_method pending \<noteq> ''initialize'') (cl_pending client)))"

fun send_each ::
  "codec \<Rightarrow> nat \<Rightarrow> nat \<Rightarrow> json list list \<Rightarrow> remote_world \<Rightarrow> (outbound_error + unit) \<times> remote_world" where
  "send_each codec now_ms connection_epoch [] world = (Inr (), world)"
| "send_each codec now_ms connection_epoch (envelopes # rest) world =
     and_then (send_envelopes_on_connection codec now_ms connection_epoch envelopes world)
       (\<lambda>_. send_each codec now_ms connection_epoch rest)"

definition replay_pending_requests ::
  "codec \<Rightarrow> nat \<Rightarrow> nat \<Rightarrow> string \<Rightarrow> remote_world \<Rightarrow> (outbound_error + unit) \<times> remote_world" where
  "replay_pending_requests codec now_ms connection_epoch client_key world =
     send_each codec now_ms connection_epoch (replayable connection_epoch client_key (rw_inner world)) world"

definition CLIENT_REINITIALIZED_ERROR :: string where
  "CLIENT_REINITIALIZED_ERROR = ''remote-control client was reported unknown by app-server''"

definition reset_remote_control_client_for_key ::
  "codec \<Rightarrow> string \<Rightarrow> string \<Rightarrow> nat \<Rightarrow> bool \<Rightarrow> nat \<Rightarrow> string \<Rightarrow> remote_world
     \<Rightarrow> (outbound_error + unit) \<times> remote_world" where
  "reset_remote_control_client_for_key codec version uuid now_ms admitted connection_epoch client_key world =
     (case with_inner (take_pending_for_reset uuid connection_epoch client_key) world of
        (None, world) \<Rightarrow> (Inr (), world)
      | (Some (client_key, pending), world) \<Rightarrow>
          (let world = world\<lparr>rw_responses := rw_responses world
                 @ map (\<lambda>(_, pending). (pr_response_tx pending, Inl CLIENT_REINITIALIZED_ERROR)) pending\<rparr>
           in and_then (send_initialize_for_client_on_connection codec version uuid now_ms admitted
                connection_epoch client_key world) (\<lambda>_ world. (Inr (), world))))"

definition force_remote_control_ws_reconnect ::
  "nat \<Rightarrow> string \<Rightarrow> string \<Rightarrow> remote_world \<Rightarrow> (outbound_error + unit) \<times> remote_world" where
  "force_remote_control_ws_reconnect connection_epoch client_key reason world =
     (if \<not> connection_exists_locked (rw_inner world) connection_epoch then (Inr (), world)
      else
        (let world = change_inner (connection_for_epoch_mut_locked connection_epoch
               (\<lambda>connection. connection\<lparr>cn_last_error :=
                  Some (''remote-control recovery forcing websocket reconnect: client_key='' @ client_key
                    @ '' reason='' @ reason)\<rparr>)) world
         in case outbound_tx_for_connection_epoch_locked (rw_inner world) connection_epoch of
              None \<Rightarrow> (Inl NotConnected, world)
            | Some tx \<Rightarrow> channel_send tx (OutClose reason) world))"

end
