(* ===== verification/RcServer.thy ===== *)
theory RcServer
  imports RcOutbound
begin

section \<open>Envelopes from the app server (server_envelopes.rs, server_work.rs, diagnostics.rs)\<close>

text \<open>
  The reader task of a connection: every envelope is classified (unknown stream, duplicate, new), new
  messages are handed to a bounded work queue, and the envelope is acknowledged and remembered by the
  stream's cursor. \<open>handle_server_envelope\<close> locks the state several times; what other tasks do to the
  state before its \<open>i\<close>-th locked section is the argument \<open>others i\<close>. The log of accepted hand-offs
  keeps the segment that completed each. What the handler guarantees is in theory RcReader.
\<close>

subsection \<open>Stream diagnostics\<close>

datatype stream_window_event = ServerIn | OutputDelta | AckSent

definition server_ack_cursor_key :: "nat \<Rightarrow> string \<Rightarrow> string \<Rightarrow> string" where
  "server_ack_cursor_key connection_epoch client_id stream_id =
     show_nat connection_epoch @ [CHR 0x0A] @ client_id @ [CHR 0x0A] @ stream_id"

definition reset_window :: "nat \<Rightarrow> nat \<Rightarrow> stream_diagnostics \<Rightarrow> stream_diagnostics" where
  "reset_window now_ms seq_id diagnostics =
     (if (case sd_window_started_at_ms diagnostics of None \<Rightarrow> True
          | Some started_at \<Rightarrow> now_ms - started_at > REMOTE_CONTROL_DIAGNOSTIC_WINDOW_MS)
      then diagnostics\<lparr>sd_window_started_at_ms := Some now_ms, sd_window_server_in_count := 0,
             sd_window_output_delta_count := 0, sd_window_ack_count := 0,
             sd_window_first_seq_id := Some seq_id\<rparr>
      else diagnostics)"

fun count_window_event :: "stream_window_event \<Rightarrow> stream_diagnostics \<Rightarrow> stream_diagnostics" where
  "count_window_event ServerIn diagnostics =
     diagnostics\<lparr>sd_window_server_in_count := sat_add (sd_window_server_in_count diagnostics) 1\<rparr>"
| "count_window_event OutputDelta diagnostics =
     diagnostics\<lparr>sd_window_output_delta_count := sat_add (sd_window_output_delta_count diagnostics) 1\<rparr>"
| "count_window_event AckSent diagnostics =
     diagnostics\<lparr>sd_window_ack_count := sat_add (sd_window_ack_count diagnostics) 1\<rparr>"

definition observe_stream_window_event ::
  "nat \<Rightarrow> nat \<Rightarrow> stream_window_event \<Rightarrow> stream_diagnostics \<Rightarrow> stream_diagnostics" where
  "observe_stream_window_event now_ms seq_id event diagnostics =
     (let diagnostics = (reset_window now_ms seq_id diagnostics)\<lparr>sd_window_last_seq_id := Some seq_id\<rparr>;
          diagnostics = count_window_event event diagnostics
      in if sd_window_server_in_count diagnostics > sd_max_window_server_in_count diagnostics
            \<or> sd_window_output_delta_count diagnostics > sd_max_window_output_delta_count diagnostics
         then diagnostics\<lparr>sd_max_window_server_in_count := sd_window_server_in_count diagnostics,
                sd_max_window_output_delta_count := sd_window_output_delta_count diagnostics,
                sd_max_window_ack_count := sd_window_ack_count diagnostics,
                sd_max_window_started_at_ms := sd_window_started_at_ms diagnostics,
                sd_max_window_last_at_ms := Some now_ms\<rparr>
         else diagnostics)"

text \<open>A change of the stream's entry, made with the default when it is new.\<close>

definition change_diagnostics ::
  "string \<Rightarrow> (stream_diagnostics \<Rightarrow> stream_diagnostics) \<Rightarrow> server_connection \<Rightarrow> server_connection" where
  "change_diagnostics key change connection =
     connection\<lparr>cn_stream_diagnostics := hinsert key
        (change (unwrap_or (hget (cn_stream_diagnostics connection) key) diagnostics_default))
        (cn_stream_diagnostics connection)\<rparr>"

definition observe_server_envelope_window ::
  "nat \<Rightarrow> string \<Rightarrow> string \<Rightarrow> nat \<Rightarrow> nat \<Rightarrow> remote_inner \<Rightarrow> remote_inner" where
  "observe_server_envelope_window connection_epoch client_id stream_id seq_id received_at_ms =
     connection_for_epoch_mut_locked connection_epoch
       (change_diagnostics (server_ack_cursor_key connection_epoch client_id stream_id)
          (observe_stream_window_event received_at_ms seq_id ServerIn))"

definition observe_command_output_delta_received ::
  "nat \<Rightarrow> nat \<Rightarrow> string \<Rightarrow> string \<Rightarrow> nat \<Rightarrow> json \<Rightarrow> nat \<Rightarrow> remote_inner \<Rightarrow> remote_inner" where
  "observe_command_output_delta_received now_ms connection_epoch client_id stream_id seq_id message
       worker_capacity =
     (let message = unwrap_or (jget ''message'' message) message;
          params = jget ''params'' message;
          thread_id = opt_or (Option.bind params thread_id_from_payload) (thread_id_from_payload message);
          item_id = Option.bind params (jget_str ''itemId'')
      in connection_for_epoch_mut_locked connection_epoch
           (change_diagnostics (server_ack_cursor_key connection_epoch client_id stream_id)
              (\<lambda>diagnostics.
                 (let diagnostics = observe_stream_window_event now_ms seq_id OutputDelta diagnostics
                  in diagnostics\<lparr>sd_output_delta_count := sat_add (sd_output_delta_count diagnostics) 1,
                       sd_output_delta_last_seq_id := Some seq_id, sd_output_delta_last_item_id := item_id,
                       sd_output_delta_last_thread_id := thread_id,
                       sd_output_delta_last_seen_at_ms := Some now_ms,
                       sd_output_delta_last_worker_capacity := Some worker_capacity\<rparr>))))"

definition record_server_ack_diagnostics ::
  "nat \<Rightarrow> nat \<Rightarrow> string \<Rightarrow> string \<Rightarrow> nat \<Rightarrow> nat \<Rightarrow> remote_inner \<Rightarrow> remote_inner" where
  "record_server_ack_diagnostics ack_at_ms connection_epoch client_id stream_id seq_id received_at_ms =
     (let elapsed_ms = ack_at_ms - received_at_ms
      in connection_for_epoch_mut_locked connection_epoch
           (change_diagnostics (server_ack_cursor_key connection_epoch client_id stream_id)
              (\<lambda>diagnostics.
                 (let diagnostics = observe_stream_window_event ack_at_ms seq_id AckSent diagnostics
                  in diagnostics\<lparr>sd_ack_count := sat_add (sd_ack_count diagnostics) 1,
                       sd_last_ack_elapsed_ms := Some elapsed_ms, sd_last_ack_seq_id := Some seq_id,
                       sd_max_ack_elapsed_ms :=
                         (if elapsed_ms > sd_max_ack_elapsed_ms diagnostics then elapsed_ms
                          else sd_max_ack_elapsed_ms diagnostics)\<rparr>))))"

subsection \<open>The work queue\<close>

datatype work_item =
    WorkMessage nat nat string string json
  | WorkAck nat nat string string
  | WorkPong nat nat string string string bool

fun remote_server_work_item_kind :: "work_item \<Rightarrow> string" where
  "remote_server_work_item_kind (WorkMessage e q c s m) = ''server_message''"
| "remote_server_work_item_kind (WorkAck e q c s) = ''ack''"
| "remote_server_work_item_kind (WorkPong e q c s status reinit) = ''pong''"

datatype server_error =
    InvalidEnvelope string
  | WorkQueueFull string
  | WorkQueueClosed string
  | AckFailed outbound_error

record reader =
  rd_world :: remote_world
  rd_chunks :: chunk_map
  rd_queue :: "work_item list"
  rd_queue_closed :: bool
  rd_accepted :: "(work_item \<times> nat option) list"
  rd_ended :: bool

definition queue_capacity :: "reader \<Rightarrow> nat" where
  "queue_capacity reader = REMOTE_CONTROL_SERVER_WORK_QUEUE_CAPACITY - length (rd_queue reader)"

definition enqueue_remote_server_work ::
  "nat option \<Rightarrow> work_item \<Rightarrow> reader \<Rightarrow> (server_error + unit) \<times> reader" where
  "enqueue_remote_server_work segment_id item reader =
     (if rd_queue_closed reader then (Inl (WorkQueueClosed (remote_server_work_item_kind item)), reader)
      else if queue_capacity reader = 0 then (Inl (WorkQueueFull (remote_server_work_item_kind item)), reader)
      else (Inr (), reader\<lparr>rd_queue := rd_queue reader @ [item],
                           rd_accepted := rd_accepted reader @ [(item, segment_id)]\<rparr>))"

subsection \<open>Acknowledgement cursors\<close>

definition usize_max :: nat where "usize_max = 2 ^ 64 - 1"

definition cursor_position :: "nat \<times> nat option \<Rightarrow> nat \<times> nat" where
  "cursor_position cursor = (fst cursor, unwrap_or (snd cursor) usize_max)"

definition ack_cursor_gt :: "nat \<times> nat option \<Rightarrow> nat \<times> nat option \<Rightarrow> bool" where
  "ack_cursor_gt left right \<longleftrightarrow> cursor_position left > cursor_position right"

definition ack_cursor :: "remote_inner \<Rightarrow> nat \<Rightarrow> string \<Rightarrow> (nat \<times> nat option) option" where
  "ack_cursor remote connection_epoch key =
     Option.bind (connection_for_epoch_locked remote connection_epoch)
       (\<lambda>connection. hget (cn_server_ack_cursors connection) key)"

definition advance_cursor :: "string \<Rightarrow> nat \<times> nat option \<Rightarrow> server_connection \<Rightarrow> server_connection" where
  "advance_cursor key cursor connection =
     (if (case hget (cn_server_ack_cursors connection) key of None \<Rightarrow> True
          | Some current \<Rightarrow> ack_cursor_gt cursor current)
      then connection\<lparr>cn_server_ack_cursors := hinsert key cursor (cn_server_ack_cursors connection)\<rparr>
      else connection)"

definition mark_server_envelope_acked ::
  "nat \<Rightarrow> string \<Rightarrow> string \<Rightarrow> nat \<Rightarrow> nat option \<Rightarrow> remote_inner \<Rightarrow> remote_inner" where
  "mark_server_envelope_acked connection_epoch client_id stream_id seq_id segment_id =
     connection_for_epoch_mut_locked connection_epoch
       (advance_cursor (server_ack_cursor_key connection_epoch client_id stream_id) (seq_id, segment_id))"

definition is_duplicate_server_envelope ::
  "remote_inner \<Rightarrow> nat \<Rightarrow> string \<Rightarrow> string \<Rightarrow> nat \<Rightarrow> nat option \<Rightarrow> bool" where
  "is_duplicate_server_envelope remote connection_epoch client_id stream_id seq_id segment_id =
     (case ack_cursor remote connection_epoch (server_ack_cursor_key connection_epoch client_id stream_id) of
        None \<Rightarrow> False
      | Some current \<Rightarrow> \<not> ack_cursor_gt (seq_id, segment_id) current)"

subsection \<open>The handler\<close>

fun server_event_segment_id :: "incoming_event \<Rightarrow> nat option" where
  "server_event_segment_id (ServerMessageChunk segment_id segment_count message_size text64) = Some segment_id"
| "server_event_segment_id (ServerMessage message) = None"
| "server_event_segment_id AckEvent = None"
| "server_event_segment_id (PongEvent status) = None"

fun server_event_kind :: "incoming_event \<Rightarrow> string" where
  "server_event_kind (ServerMessage message) = ''server_message''"
| "server_event_kind (ServerMessageChunk segment_id segment_count message_size text64) = ''server_message_chunk''"
| "server_event_kind AckEvent = ''ack''"
| "server_event_kind (PongEvent status) = ''pong''"

fun server_event_recent_summary :: "(json \<Rightarrow> string) \<Rightarrow> incoming_event \<Rightarrow> string" where
  "server_event_recent_summary display (ServerMessage message) = message_summary display message"
| "server_event_recent_summary display (ServerMessageChunk segment_id segment_count message_size text64) =
     ''segment='' @ show_nat segment_id @ ''/'' @ show_nat segment_count @ '' message_size_bytes='' @ show_nat message_size"
| "server_event_recent_summary display AckEvent = []"
| "server_event_recent_summary display (PongEvent status) = ''status='' @ status"

text \<open>The \<open>i\<close>-th locked section of the handler.\<close>

definition locked ::
  "(nat \<Rightarrow> remote_inner \<Rightarrow> remote_inner) \<Rightarrow> nat \<Rightarrow> (remote_inner \<Rightarrow> 'a \<times> remote_inner) \<Rightarrow> reader \<Rightarrow> 'a \<times> reader" where
  "locked others i operation reader =
     (let (result, world) = with_inner (\<lambda>remote. operation (others i remote)) (rd_world reader)
      in (result, reader\<lparr>rd_world := world\<rparr>))"

definition locked_change ::
  "(nat \<Rightarrow> remote_inner \<Rightarrow> remote_inner) \<Rightarrow> nat \<Rightarrow> (remote_inner \<Rightarrow> remote_inner) \<Rightarrow> reader \<Rightarrow> reader" where
  "locked_change others i operation reader = snd (locked others i (\<lambda>remote. ((), operation remote)) reader)"

text \<open>What is the same for every handler: the acknowledgement, its diagnostics and the cursor. \<open>now\<close> gives
  the clock, \<open>tx\<close> the outbound channel of the reader.\<close>

record reader_env =
  en_codec :: codec
  en_parse :: "string \<Rightarrow> incoming_envelope option"
  en_others :: "nat \<Rightarrow> remote_inner \<Rightarrow> remote_inner"
  en_lock_free :: bool
  en_now :: "nat \<Rightarrow> nat"
  en_uuid :: string

definition send_ack ::
  "reader_env \<Rightarrow> nat \<Rightarrow> nat \<Rightarrow> string \<Rightarrow> string \<Rightarrow> nat \<Rightarrow> nat option \<Rightarrow> reader \<Rightarrow> (server_error + unit) \<times> reader" where
  "send_ack env tx connection_epoch client_id stream_id seq_id segment_id reader =
     (let (sent, world) = ack_server_envelope (en_lock_free env) (en_now env 5) tx connection_epoch client_id
            stream_id seq_id segment_id (change_inner (en_others env 5) (rd_world reader))
      in (case sent of Inl err \<Rightarrow> Inl (AckFailed err) | Inr _ \<Rightarrow> Inr (), reader\<lparr>rd_world := world\<rparr>))"

definition acknowledge ::
  "reader_env \<Rightarrow> nat \<Rightarrow> nat \<Rightarrow> string \<Rightarrow> string \<Rightarrow> nat \<Rightarrow> nat option \<Rightarrow> nat \<Rightarrow> reader \<Rightarrow> (server_error + unit) \<times> reader" where
  "acknowledge env tx connection_epoch client_id stream_id seq_id segment_id received_at_ms reader =
     and_then (send_ack env tx connection_epoch client_id stream_id seq_id segment_id reader)
       (\<lambda>_ reader.
          let reader = locked_change (en_others env) 6 (record_server_ack_diagnostics (en_now env 6)
                 connection_epoch client_id stream_id seq_id received_at_ms) reader;
              reader = locked_change (en_others env) 7 (mark_server_envelope_acked connection_epoch client_id
                 stream_id seq_id segment_id) reader
          in (Inr (), reader))"

text \<open>The hand-off of an event that is new.\<close>

definition hand_off ::
  "reader_env \<Rightarrow> nat \<Rightarrow> string \<Rightarrow> string \<Rightarrow> nat \<Rightarrow> incoming_event \<Rightarrow> reader \<Rightarrow> (server_error + unit) \<times> reader" where
  "hand_off env connection_epoch client_id stream_id seq_id event reader =
     (case event of
        ServerMessage message \<Rightarrow>
          (let reader = (if is_command_execution_output_delta_message message
                 then locked_change (en_others env) 4 (observe_command_output_delta_received (en_now env 4)
                        connection_epoch client_id stream_id seq_id message (queue_capacity reader)) reader
                 else reader)
           in enqueue_remote_server_work None (WorkMessage connection_epoch seq_id client_id stream_id message) reader)
      | ServerMessageChunk segment_id segment_count message_size_bytes message_chunk_base64 \<Rightarrow>
          (let (observation, assemblies) = observe_server_chunk (co_decode64 (en_codec env))
                 (co_from_slice (en_codec env)) client_id stream_id seq_id segment_id segment_count
                 message_size_bytes message_chunk_base64 (rd_chunks reader);
               reader = reader\<lparr>rd_chunks := assemblies\<rparr>
           in (case observation of
                 ChunkComplete message \<Rightarrow>
                   enqueue_remote_server_work (Some segment_id)
                     (WorkMessage connection_epoch seq_id client_id stream_id message) reader
               | ChunkPending \<Rightarrow> (Inr (), reader)
               | ChunkDropped \<Rightarrow> (Inr (), reader)))
      | AckEvent \<Rightarrow>
          enqueue_remote_server_work None (WorkAck connection_epoch seq_id client_id stream_id) reader
      | PongEvent status \<Rightarrow>
          (let (should_reinitialize, reader) = locked (en_others env) 4 (record_remote_app_pong (en_uuid env)
                 (en_now env 4) connection_epoch client_id stream_id status) reader
           in enqueue_remote_server_work None
                (WorkPong connection_epoch seq_id client_id stream_id status should_reinitialize) reader))"

definition handle_server_envelope ::
  "reader_env \<Rightarrow> nat \<Rightarrow> nat \<Rightarrow> string \<Rightarrow> reader \<Rightarrow> (server_error + unit) \<times> reader" where
  "handle_server_envelope env tx connection_epoch message_text reader =
     (case en_parse env message_text of
        None \<Rightarrow> (Inl (InvalidEnvelope message_text), reader)
      | Some envelope \<Rightarrow>
          (let event = ie_event envelope; client_id = ie_client_id envelope;
               stream_id = ie_stream_id envelope; seq_id = ie_seq_id envelope;
               received_at_ms = en_now env 0;
               segment_id = server_event_segment_id event;
               reader = locked_change (en_others env) 0 (observe_server_envelope_window connection_epoch
                  client_id stream_id seq_id received_at_ms) reader;
               reader = locked_change (en_others env) 1 (record_remote_recent_event (en_now env 1) ''server_in''
                  connection_epoch client_id stream_id (Some seq_id) (server_event_kind event)
                  (server_event_recent_summary (co_display (en_codec env)) event)) reader;
               (is_current, reader) = locked (en_others env) 2
                  (\<lambda>remote. (is_current_remote_stream remote connection_epoch client_id stream_id, remote)) reader
           in if \<not> is_current
              then acknowledge env tx connection_epoch client_id stream_id seq_id segment_id received_at_ms reader
              else
                (let (is_duplicate, reader) = locked (en_others env) 3
                       (\<lambda>remote. (is_duplicate_server_envelope remote connection_epoch client_id stream_id
                          seq_id segment_id, remote)) reader
                 in if is_duplicate
                    then send_ack env tx connection_epoch client_id stream_id seq_id segment_id reader
                    else and_then (hand_off env connection_epoch client_id stream_id seq_id event reader)
                           (\<lambda>_. acknowledge env tx connection_epoch client_id stream_id seq_id segment_id
                                  received_at_ms))))"

end
