(* ===== verification/RcReader.thy ===== *)
theory RcReader
  imports RcServer
begin

section \<open>What the reader of a connection guarantees\<close>

text \<open>
  Lemmas about \<open>handle_server_envelope\<close> (theory RcServer). The view of a reader is the map of
  acknowledgement cursors of its connection; every stage of the handler is described by what it does to
  the view, to the queue and to the messages sent, and \<open>envelope_effect\<close> puts the stages together. A step
  relation runs the reader with the worker and the other tasks. The properties: a message is handed
  off at most once and in order, and an envelope is acknowledged exactly when it was dealt with.
\<close>

subsection \<open>What the operations do to the cursors\<close>

definition cursor_view :: "remote_inner \<Rightarrow> nat \<Rightarrow> (string, nat \<times> nat option) hmap option" where
  "cursor_view remote e = map_option cn_server_ack_cursors (connection_for_epoch_locked remote e)"

named_theorems cursor_view_simps \<open>operations that keep the cursors\<close>

lemma ack_cursor_view: "ack_cursor remote e key = Option.bind (cursor_view remote e) (\<lambda>m. hget m key)"
  by (cases "connection_for_epoch_locked remote e") (simp_all add: ack_cursor_def cursor_view_def)

lemma cursor_view_change:
  assumes "\<And>c. cn_connection_epoch (change c) = cn_connection_epoch c"
    and "\<And>c. cn_server_ack_cursors (change c) = cn_server_ack_cursors c"
  shows "cursor_view (connection_for_epoch_mut_locked e' change remote) e = cursor_view remote e"
  using assms by (simp add: cursor_view_def connection_after_change option.map_comp comp_def)

lemma cursor_view_connections:
  "ri_connections remote' = ri_connections remote \<Longrightarrow> cursor_view remote' e = cursor_view remote e"
  by (simp add: cursor_view_def connection_for_epoch_locked_def)

lemma cursor_view_record [cursor_view_simps]:
  "cursor_view (record_remote_recent_event now d e' c s q k m remote) e = cursor_view remote e"
  "cursor_view (try_record_remote_recent_event free now d e' c s q k m remote) e = cursor_view remote e"
  by (auto simp: record_remote_recent_event_def try_record_remote_recent_event_def
      push_remote_recent_event_locked_def intro: cursor_view_connections)

lemma cursor_view_with_client:
  "cursor_view (connection_for_epoch_mut_locked e' (with_client_on uuid key) remote) e = cursor_view remote e"
  "cursor_view (connection_for_epoch_mut_locked e' (change_client key client) remote) e = cursor_view remote e"
  by (rule cursor_view_change; simp add: with_client_on_def change_client_def Let_def)+

lemma cursor_view_ensure [cursor_view_simps]:
  "cursor_view (snd (ensure_client_state_for_connection_locked uuid e' key change remote)) e = cursor_view remote e"
  by (auto simp: ensure_client_state_for_connection_locked_def Let_def cursor_view_with_client
      split: option.split prod.split)

lemma cursor_view_pong [cursor_view_simps]:
  "cursor_view (snd (record_remote_app_pong uuid now e' c s status remote)) e = cursor_view remote e"
  by (simp add: record_remote_app_pong_def Let_def case_prod_beta cursor_view_ensure split: option.split)

lemma cursor_view_diagnostics [cursor_view_simps]:
  "cursor_view (observe_server_envelope_window e' c s q t remote) e = cursor_view remote e"
  "cursor_view (observe_command_output_delta_received now e' c s q m cap remote) e = cursor_view remote e"
  "cursor_view (record_server_ack_diagnostics now e' c s q t remote) e = cursor_view remote e"
  unfolding observe_server_envelope_window_def observe_command_output_delta_received_def
    record_server_ack_diagnostics_def Let_def
  by (rule cursor_view_change; simp add: change_diagnostics_def)+

lemma cursor_view_mark:
  "cursor_view (mark_server_envelope_acked e c s q g remote) e = map_option (\<lambda>m.
     let key = server_ack_cursor_key e c s
     in if (case hget m key of None \<Rightarrow> True | Some current \<Rightarrow> ack_cursor_gt (q, g) current)
        then hinsert key (q, g) m else m) (cursor_view remote e)"
proof -
  have "cn_connection_epoch (advance_cursor key cursor connection) = cn_connection_epoch connection" for key cursor connection
    by (simp add: advance_cursor_def)
  then show ?thesis
    by (cases "connection_for_epoch_locked remote e")
      (simp_all add: mark_server_envelope_acked_def cursor_view_def connection_after_change advance_cursor_def Let_def)
qed

lemma ack_cursor_mark:
  assumes "cursor_view remote e \<noteq> None"
  shows "\<exists>cursor. ack_cursor (mark_server_envelope_acked e c s q g remote) e (server_ack_cursor_key e c s) = Some cursor \<and>
    cursor_position (q, g) \<le> cursor_position cursor \<and>
    (ack_cursor remote e (server_ack_cursor_key e c s) = None \<or>
     ack_cursor_gt (q, g) (the (ack_cursor remote e (server_ack_cursor_key e c s))) \<longrightarrow> cursor = (q, g)) \<and>
    (\<forall>current. ack_cursor remote e (server_ack_cursor_key e c s) = Some current \<longrightarrow>
       cursor_position current \<le> cursor_position cursor)"
  using assms
  by (auto simp: ack_cursor_view cursor_view_mark Let_def ack_cursor_gt_def split: option.split)

lemma ack_cursor_mark_other:
  "key \<noteq> server_ack_cursor_key e c s \<Longrightarrow>
     ack_cursor (mark_server_envelope_acked e c s q g remote) e key = ack_cursor remote e key"
  by (cases "cursor_view remote e") (auto simp: ack_cursor_view cursor_view_mark Let_def split: option.split)

text \<open>Other tasks leave the cursors of this connection alone: only its reader changes them.\<close>

definition keeps_cursors :: "nat \<Rightarrow> reader_env \<Rightarrow> bool" where
  "keeps_cursors e env \<longleftrightarrow> (\<forall>i remote. cursor_view (en_others env i remote) e = cursor_view remote e)"

definition reader_view :: "reader \<Rightarrow> nat \<Rightarrow> (string, nat \<times> nat option) hmap option" where
  "reader_view reader e = cursor_view (rw_inner (rd_world reader)) e"

text \<open>A locked section that keeps the cursors keeps all of the reader but the state behind the lock.\<close>

definition same_but_state :: "reader \<Rightarrow> reader \<Rightarrow> bool" where
  "same_but_state reader reader' \<longleftrightarrow>
     rd_chunks reader' = rd_chunks reader \<and> rd_queue reader' = rd_queue reader \<and>
     rd_queue_closed reader' = rd_queue_closed reader \<and> rd_accepted reader' = rd_accepted reader \<and>
     rd_ended reader' = rd_ended reader \<and> rw_sent (rd_world reader') = rw_sent (rd_world reader) \<and>
     rw_open_channels (rd_world reader') = rw_open_channels (rd_world reader)"

lemma same_but_state_refl [simp]: "same_but_state reader reader"
  by (simp add: same_but_state_def)

lemma same_but_state_trans: "same_but_state a b \<Longrightarrow> same_but_state b c \<Longrightarrow> same_but_state a c"
  by (simp add: same_but_state_def)

lemma locked_same: "same_but_state reader (snd (locked others i operation reader))"
  "same_but_state reader (locked_change others i change reader)"
  by (simp_all add: same_but_state_def locked_def locked_change_def with_inner_def case_prod_beta)

lemma locked_view:
  assumes "keeps_cursors e env" and "\<And>remote. cursor_view (snd (operation remote)) e = cursor_view remote e"
  shows "reader_view (snd (locked (en_others env) i operation reader)) e = reader_view reader e"
  using assms by (simp add: reader_view_def locked_def with_inner_def case_prod_beta keeps_cursors_def)

lemma locked_change_view:
  assumes "keeps_cursors e env" and "\<And>remote. cursor_view (change remote) e = cursor_view remote e"
  shows "reader_view (locked_change (en_others env) i change reader) e = reader_view reader e"
  unfolding locked_change_def using assms by (intro locked_view) simp_all

lemma fst_locked: "fst (locked others i operation reader) = fst (operation (others i (rw_inner (rd_world reader))))"
  by (simp add: locked_def with_inner_def case_prod_beta)

subsection \<open>The stages of the handler\<close>

fun item_source :: "work_item \<Rightarrow> nat \<times> string \<times> string \<times> nat" where
  "item_source (WorkMessage e q c s m) = (e, c, s, q)"
| "item_source (WorkAck e q c s) = (e, c, s, q)"
| "item_source (WorkPong e q c s status reinit) = (e, c, s, q)"

text \<open>A stage that changes neither the queue nor what was accepted.\<close>

definition same_queue :: "reader \<Rightarrow> reader \<Rightarrow> bool" where
  "same_queue reader reader' \<longleftrightarrow>
     rd_queue reader' = rd_queue reader \<and> rd_queue_closed reader' = rd_queue_closed reader \<and>
     rd_accepted reader' = rd_accepted reader \<and> rd_ended reader' = rd_ended reader \<and>
     rw_open_channels (rd_world reader') = rw_open_channels (rd_world reader)"

lemma same_but_state_queue:
  "same_but_state reader reader' \<Longrightarrow> same_queue reader reader' \<and> rw_sent (rd_world reader') = rw_sent (rd_world reader)"
  by (simp add: same_but_state_def same_queue_def)

lemma same_queue_trans: "same_queue a b \<Longrightarrow> same_queue b c \<Longrightarrow> same_queue a c"
  by (simp add: same_queue_def)

lemma send_ack_outcome:
  assumes "keeps_cursors e env" and "send_ack env tx e' c s q g reader = (result, reader')"
  shows "same_queue reader reader' \<and> reader_view reader' e = reader_view reader e \<and>
    rd_chunks reader' = rd_chunks reader \<and>
    (if tx \<in> rw_open_channels (rd_world reader)
     then result = Inr () \<and> rw_sent (rd_world reader') =
       rw_sent (rd_world reader) @ [(tx, OutText (build_client_ack_envelope c s q g))]
     else result = Inl (AckFailed ChannelClosed) \<and> rw_sent (rd_world reader') = rw_sent (rd_world reader))"
  using assms(2)[symmetric] assms(1)
  by (auto simp: send_ack_def ack_server_envelope_def channel_send_def change_inner_def same_queue_def
      reader_view_def cursor_view_record keeps_cursors_def split: if_splits)

lemma acknowledge_outcome:
  assumes "keeps_cursors e env" and "acknowledge env tx e c s q g t reader = (result, reader')"
  shows "same_queue reader reader' \<and> rd_chunks reader' = rd_chunks reader \<and>
    (if tx \<in> rw_open_channels (rd_world reader)
     then result = Inr () \<and> rw_sent (rd_world reader') =
         rw_sent (rd_world reader) @ [(tx, OutText (build_client_ack_envelope c s q g))] \<and>
       (\<exists>remote. cursor_view remote e = reader_view reader e \<and>
          reader_view reader' e = cursor_view (mark_server_envelope_acked e c s q g remote) e)
     else result = Inl (AckFailed ChannelClosed) \<and> rw_sent (rd_world reader') = rw_sent (rd_world reader) \<and>
       reader_view reader' e = reader_view reader e)"
proof -
  obtain sent reader1 where ack: "send_ack env tx e c s q g reader = (sent, reader1)" by fastforce
  note stage1 = send_ack_outcome[OF assms(1) ack]
  let ?reader2 = "locked_change (en_others env) 6 (record_server_ack_diagnostics (en_now env 6) e c s q t) reader1"
  let ?reader3 = "locked_change (en_others env) 7 (mark_server_envelope_acked e c s q g) ?reader2"
  have same: "same_but_state reader1 ?reader3" using locked_same(2) same_but_state_trans by blast
  have view2: "reader_view ?reader2 e = reader_view reader1 e"
    by (rule locked_change_view[OF assms(1) cursor_view_diagnostics(3)])
  let ?remote = "en_others env 7 (rw_inner (rd_world ?reader2))"
  have view3: "reader_view ?reader3 e = cursor_view (mark_server_envelope_acked e c s q g ?remote) e"
    by (simp add: reader_view_def locked_change_def locked_def with_inner_def)
  have before: "cursor_view ?remote e = reader_view reader1 e"
    using assms(1) view2 by (simp add: keeps_cursors_def reader_view_def)
  show ?thesis
  proof (cases "tx \<in> rw_open_channels (rd_world reader)")
    case True
    then have "result = Inr ()" "reader' = ?reader3"
      using assms(2) ack stage1 by (simp_all add: acknowledge_def Let_def)
    then show ?thesis
      using True stage1 same same_but_state_queue[OF same] same_queue_trans view3 before
      by (auto simp: same_but_state_def)
  next
    case False
    then show ?thesis using assms(2) ack stage1 by (simp add: acknowledge_def)
  qed
qed

lemma enqueue_outcome:
  assumes "enqueue_remote_server_work g item reader = (result, reader')"
  shows "rd_world reader' = rd_world reader \<and> rd_chunks reader' = rd_chunks reader \<and>
    rd_queue_closed reader' = rd_queue_closed reader \<and> rd_ended reader' = rd_ended reader \<and>
    (if rd_queue_closed reader
     then result = Inl (WorkQueueClosed (remote_server_work_item_kind item)) \<and> reader' = reader
     else if queue_capacity reader = 0
     then result = Inl (WorkQueueFull (remote_server_work_item_kind item)) \<and> reader' = reader
     else result = Inr () \<and> rd_queue reader' = rd_queue reader @ [item] \<and>
       rd_accepted reader' = rd_accepted reader @ [(item, g)])"
  using assms[symmetric] by (auto simp: enqueue_remote_server_work_def split: if_splits)

text \<open>A hand-off changes no cursor and sends nothing; it fails only on the queue, leaving it unchanged.\<close>

definition hands_off :: "nat \<times> string \<times> string \<times> nat \<Rightarrow> nat option \<Rightarrow> reader \<Rightarrow> reader \<Rightarrow> bool" where
  "hands_off source g reader reader' \<longleftrightarrow>
     (\<exists>item. item_source item = source \<and> rd_queue reader' = rd_queue reader @ [item] \<and>
        rd_accepted reader' = rd_accepted reader @ [(item, g)])"

lemma enqueue_stage:
  assumes "same_but_state reader0 reader \<or> (\<exists>m. reader = reader0\<lparr>rd_chunks := m\<rparr>)"
    and "reader_view reader e = reader_view reader0 e"
    and "enqueue_remote_server_work g item reader = (result, reader')"
  shows "reader_view reader' e = reader_view reader0 e \<and>
    rw_sent (rd_world reader') = rw_sent (rd_world reader0) \<and>
    rw_open_channels (rd_world reader') = rw_open_channels (rd_world reader0) \<and>
    rd_queue_closed reader' = rd_queue_closed reader0 \<and> rd_ended reader' = rd_ended reader0 \<and>
    (case result of
       Inl err \<Rightarrow> same_queue reader0 reader' \<and> (rd_queue_closed reader0 \<or> queue_capacity reader0 = 0) \<and>
         err \<in> {WorkQueueClosed (remote_server_work_item_kind item), WorkQueueFull (remote_server_work_item_kind item)}
     | Inr _ \<Rightarrow> \<not> rd_queue_closed reader0 \<and> queue_capacity reader0 \<noteq> 0 \<and> hands_off (item_source item) g reader0 reader')"
  using enqueue_outcome[OF assms(3)] assms(1,2)
  by (auto simp: same_but_state_def same_queue_def hands_off_def reader_view_def queue_capacity_def split: if_splits)

definition queue_open :: "reader \<Rightarrow> bool" where
  "queue_open reader \<longleftrightarrow> \<not> rd_queue_closed reader \<and> queue_capacity reader \<noteq> 0"

lemma hand_off_outcome:
  assumes keeps: "keeps_cursors e env" and run: "hand_off env e c s q event reader = (result, reader')"
  shows "reader_view reader' e = reader_view reader e \<and>
    rw_sent (rd_world reader') = rw_sent (rd_world reader) \<and>
    rw_open_channels (rd_world reader') = rw_open_channels (rd_world reader) \<and>
    rd_queue_closed reader' = rd_queue_closed reader \<and> rd_ended reader' = rd_ended reader \<and>
    (case result of
       Inl err \<Rightarrow> same_queue reader reader' \<and> \<not> queue_open reader
     | Inr _ \<Rightarrow> queue_open reader \<and> hands_off (e, c, s, q) (server_event_segment_id event) reader reader' \<or>
         server_event_segment_id event \<noteq> None \<and> same_queue reader reader') \<and>
    (server_event_segment_id event = None \<longrightarrow> (case result of Inl _ \<Rightarrow> \<not> queue_open reader | Inr _ \<Rightarrow> queue_open reader))"
proof (cases event)
  case (ServerMessage message)
  let ?start = "if is_command_execution_output_delta_message message
    then locked_change (en_others env) 4 (observe_command_output_delta_received (en_now env 4) e c s q message
      (queue_capacity reader)) reader else reader"
  have start: "same_but_state reader ?start" "reader_view ?start e = reader_view reader e"
    using locked_same(2) locked_change_view[OF keeps cursor_view_diagnostics(2)] by simp_all
  have "enqueue_remote_server_work None (WorkMessage e q c s message) ?start = (result, reader')"
    using run ServerMessage by (simp add: hand_off_def Let_def split: if_splits)
  from enqueue_stage[OF disjI1[OF start(1)] start(2) this] show ?thesis
    using ServerMessage by (auto simp: queue_open_def split: sum.splits)
next
  case (ServerMessageChunk i n len chunk)
  obtain observation assemblies where chunk: "observe_server_chunk (co_decode64 (en_codec env))
      (co_from_slice (en_codec env)) c s q i n len chunk (rd_chunks reader) = (observation, assemblies)" by fastforce
  let ?start = "reader\<lparr>rd_chunks := assemblies\<rparr>"
  have start: "\<exists>m. ?start = reader\<lparr>rd_chunks := m\<rparr>" "reader_view ?start e = reader_view reader e"
    by (auto simp: reader_view_def)
  show ?thesis
  proof (cases observation)
    case (ChunkComplete message)
    then have "enqueue_remote_server_work (Some i) (WorkMessage e q c s message) ?start = (result, reader')"
      using run ServerMessageChunk chunk by (simp add: hand_off_def)
    from enqueue_stage[OF disjI2[OF start(1)] start(2) this] show ?thesis
      using ServerMessageChunk by (auto simp: queue_open_def split: sum.splits)
  qed (use run[symmetric] ServerMessageChunk chunk in \<open>simp_all add: hand_off_def same_queue_def reader_view_def\<close>)
next
  case AckEvent
  have start: "same_but_state reader reader" by simp
  have "enqueue_remote_server_work None (WorkAck e q c s) reader = (result, reader')"
    using run AckEvent by (simp add: hand_off_def)
  from enqueue_stage[OF disjI1[OF start] refl this] show ?thesis
    using AckEvent by (auto simp: queue_open_def split: sum.splits)
next
  case (PongEvent status)
  obtain reinit start where pong: "locked (en_others env) 4 (record_remote_app_pong (en_uuid env) (en_now env 4)
      e c s status) reader = (reinit, start)" by fastforce
  have at: "start = snd (locked (en_others env) 4 (record_remote_app_pong (en_uuid env) (en_now env 4)
      e c s status) reader)" using pong by simp
  have start: "same_but_state reader start" "reader_view start e = reader_view reader e"
    unfolding at by (rule locked_same(1), rule locked_view[OF keeps cursor_view_pong])
  have "enqueue_remote_server_work None (WorkPong e q c s status reinit) start = (result, reader')"
    using run PongEvent pong by (simp add: hand_off_def)
  from enqueue_stage[OF disjI1[OF start(1)] start(2) this] show ?thesis
    using PongEvent by (auto simp: queue_open_def split: sum.splits)
qed

subsection \<open>The handler, case by case\<close>

definition view_cursor :: "reader \<Rightarrow> nat \<Rightarrow> string \<Rightarrow> (nat \<times> nat option) option" where
  "view_cursor reader e key = Option.bind (reader_view reader e) (\<lambda>m. hget m key)"

definition already_acked :: "reader \<Rightarrow> nat \<Rightarrow> string \<Rightarrow> nat \<times> nat option \<Rightarrow> bool" where
  "already_acked reader e key cursor \<longleftrightarrow>
     (\<exists>current. view_cursor reader e key = Some current \<and> \<not> ack_cursor_gt cursor current)"

lemma current_stream_present:
  "is_current_remote_stream remote e c s \<Longrightarrow> cursor_view remote e \<noteq> None"
  by (auto simp: is_current_remote_stream_def connection_exists_locked_def cursor_view_def split: option.splits)

lemma handle_cases [consumes 3, case_names stale duplicate new]:
  assumes keeps: "keeps_cursors e env"
    and envelope: "en_parse env message_text = Some \<lparr> ie_event = event, ie_client_id = c, ie_stream_id = s, ie_seq_id = q \<rparr>"
    and run: "handle_server_envelope env tx e message_text reader = (result, reader')"
  obtains
    (stale) reader1 where "same_but_state reader reader1" "reader_view reader1 e = reader_view reader e"
      "acknowledge env tx e c s q (server_event_segment_id event) (en_now env 0) reader1 = (result, reader')"
  | (duplicate) reader1 where "same_but_state reader reader1" "reader_view reader1 e = reader_view reader e"
      "reader_view reader e \<noteq> None"
      "already_acked reader e (server_ack_cursor_key e c s) (q, server_event_segment_id event)"
      "send_ack env tx e c s q (server_event_segment_id event) reader1 = (result, reader')"
  | (new) reader1 where "same_but_state reader reader1" "reader_view reader1 e = reader_view reader e"
      "reader_view reader e \<noteq> None"
      "\<not> already_acked reader e (server_ack_cursor_key e c s) (q, server_event_segment_id event)"
      "and_then (hand_off env e c s q event reader1) (\<lambda>_. acknowledge env tx e c s q
         (server_event_segment_id event) (en_now env 0)) = (result, reader')"
proof -
  let ?g = "server_event_segment_id event"
  define r1 where "r1 = locked_change (en_others env) 0 (observe_server_envelope_window e c s q (en_now env 0)) reader"
  define r2 where "r2 = locked_change (en_others env) 1 (record_remote_recent_event (en_now env 1) ''server_in''
    e c s (Some q) (server_event_kind event) (server_event_recent_summary (co_display (en_codec env)) event)) r1"
  define look where "look = locked (en_others env) 2 (\<lambda>remote. (is_current_remote_stream remote e c s, remote)) r2"
  define look' where "look' = locked (en_others env) 3
    (\<lambda>remote. (is_duplicate_server_envelope remote e c s q ?g, remote)) (snd look)"
  have "handle_server_envelope env tx e message_text reader = (if \<not> fst look then acknowledge env tx e c s q ?g (en_now env 0) (snd look)
      else if fst look' then send_ack env tx e c s q ?g (snd look')
      else and_then (hand_off env e c s q event (snd look')) (\<lambda>_. acknowledge env tx e c s q ?g (en_now env 0)))"
    by (simp only: handle_server_envelope_def envelope option.case Let_def case_prod_beta
        incoming_envelope.select_convs r1_def r2_def look_def look'_def)
  note run' = trans[OF run[symmetric] this]
  have v2: "reader_view r2 e = reader_view reader e"
    unfolding r2_def r1_def
    by (simp add: locked_change_view[OF keeps] cursor_view_record cursor_view_diagnostics)
  have v: "reader_view (snd look) e = reader_view reader e" "reader_view (snd look') e = reader_view reader e"
    unfolding look'_def look_def using v2 by (simp_all add: locked_view[OF keeps])
  have same2: "same_but_state reader r2"
    unfolding r2_def r1_def using locked_same(2) same_but_state_trans by blast
  have same: "same_but_state reader (snd look)" "same_but_state reader (snd look')"
    unfolding look'_def look_def using same2 locked_same(1) same_but_state_trans by blast+
  have present: "reader_view reader e \<noteq> None" if "fst look"
  proof -
    have "cursor_view (en_others env 2 (rw_inner (rd_world r2))) e \<noteq> None"
      using that current_stream_present unfolding look_def fst_locked by simp
    then show ?thesis using keeps v2 by (simp add: keeps_cursors_def reader_view_def)
  qed
  have "ack_cursor (en_others env 3 (rw_inner (rd_world (snd look)))) e key = view_cursor reader e key" for key
    using keeps v(1) by (simp add: ack_cursor_view keeps_cursors_def reader_view_def view_cursor_def)
  then have dup: "fst look' \<longleftrightarrow> already_acked reader e (server_ack_cursor_key e c s) (q, ?g)"
    unfolding look'_def fst_locked by (auto simp: is_duplicate_server_envelope_def already_acked_def split: option.splits)
  show ?thesis
  proof (cases "fst look")
    case False
    then show ?thesis using stale[OF same(1) v(1)] run' by simp
  next
    case True
    then show ?thesis
      using duplicate[OF same(2) v(2) present[OF True]] new[OF same(2) v(2) present[OF True]] run' dup
      by (cases "fst look'") simp_all
  qed
qed

lemma mark_already_acked:
  assumes "cursor_view remote e = reader_view reader e"
    and "already_acked reader e (server_ack_cursor_key e c s) (q, g)"
  shows "cursor_view (mark_server_envelope_acked e c s q g remote) e = cursor_view remote e"
proof -
  obtain m current where "reader_view reader e = Some m" "hget m (server_ack_cursor_key e c s) = Some current"
      "\<not> ack_cursor_gt (q, g) current"
    using assms(2) by (auto simp: already_acked_def view_cursor_def bind_eq_Some_conv)
  then show ?thesis by (simp add: cursor_view_mark assms(1) Let_def)
qed

lemma mark_new:
  assumes "cursor_view remote e = reader_view reader e" and "reader_view reader e \<noteq> None"
    and "\<not> already_acked reader e (server_ack_cursor_key e c s) (q, g)"
  shows "\<exists>m. cursor_view (mark_server_envelope_acked e c s q g remote) e = Some m \<and>
    hget m (server_ack_cursor_key e c s) = Some (q, g)"
proof -
  obtain m where m: "reader_view reader e = Some m" using assms(2) by blast
  have "case hget m (server_ack_cursor_key e c s) of None \<Rightarrow> True | Some current \<Rightarrow> ack_cursor_gt (q, g) current"
    using assms(3) m by (auto simp: already_acked_def view_cursor_def split: option.splits)
  then show ?thesis by (simp add: cursor_view_mark assms(1) m Let_def)
qed

lemma same_state_transfer:
  assumes "same_but_state reader reader1" and "reader_view reader1 e = reader_view reader e"
  shows "rw_sent (rd_world reader1) = rw_sent (rd_world reader)"
    "rw_open_channels (rd_world reader1) = rw_open_channels (rd_world reader)"
    "queue_open reader1 = queue_open reader" "same_queue reader reader1"
    "already_acked reader1 e key cursor = already_acked reader e key cursor"
    "hands_off source g reader1 reader' = hands_off source g reader reader'"
    "same_queue reader1 reader' = same_queue reader reader'"
  using assms by (simp_all add: same_but_state_def queue_open_def queue_capacity_def same_queue_def
      already_acked_def view_cursor_def hands_off_def)

text \<open>All that a handled envelope can do.\<close>

definition envelope_effect ::
  "nat \<Rightarrow> nat \<Rightarrow> string \<Rightarrow> string \<Rightarrow> nat \<Rightarrow> nat option \<Rightarrow> reader \<Rightarrow> server_error + unit \<Rightarrow> reader \<Rightarrow> bool" where
  "envelope_effect tx e c s q g reader result reader' \<longleftrightarrow>
     (let key = server_ack_cursor_key e c s; acked = already_acked reader e key (q, g) in
      rd_ended reader' = rd_ended reader \<and> rd_queue_closed reader' = rd_queue_closed reader \<and>
      rw_open_channels (rd_world reader') = rw_open_channels (rd_world reader) \<and>
      (case result of
         Inr _ \<Rightarrow> rw_sent (rd_world reader') =
             rw_sent (rd_world reader) @ [(tx, OutText (build_client_ack_envelope c s q g))] \<and>
           (\<not> acked \<and> reader_view reader e \<noteq> None \<longrightarrow> view_cursor reader' e key = Some (q, g))
       | Inl _ \<Rightarrow> rw_sent (rd_world reader') = rw_sent (rd_world reader) \<and>
           reader_view reader' e = reader_view reader e \<and>
           (\<not> queue_open reader \<or> tx \<notin> rw_open_channels (rd_world reader))) \<and>
      (acked \<longrightarrow> reader_view reader' e = reader_view reader e) \<and>
      (\<forall>key'. key' \<noteq> key \<longrightarrow> view_cursor reader' e key' = view_cursor reader e key') \<and>
      (same_queue reader reader' \<or>
       \<not> acked \<and> reader_view reader e \<noteq> None \<and> queue_open reader \<and> hands_off (e, c, s, q) g reader reader'))"

lemma envelope_effect_start:
  assumes "same_but_state reader reader1" and "reader_view reader1 e = reader_view reader e"
  shows "envelope_effect tx e c s q g reader1 result reader' = envelope_effect tx e c s q g reader result reader'"
proof -
  have "view_cursor reader1 e = view_cursor reader e" using assms(2) by (simp add: view_cursor_def fun_eq_iff)
  moreover have "rd_ended reader1 = rd_ended reader" "rd_queue_closed reader1 = rd_queue_closed reader"
    using assms(1) by (simp_all add: same_but_state_def)
  ultimately show ?thesis
    unfolding envelope_effect_def Let_def
    by (simp only: same_state_transfer[OF assms] assms(2))
qed

lemma view_cursor_other:
  assumes "cursor_view remote e = reader_view reader e"
    and "reader_view reader' e = cursor_view (mark_server_envelope_acked e c s q g remote) e"
    and "key' \<noteq> server_ack_cursor_key e c s"
  shows "view_cursor reader' e key' = view_cursor reader e key'"
  using ack_cursor_mark_other[OF assms(3), of q g remote] assms(1,2)
  by (simp add: view_cursor_def ack_cursor_view)

lemma acknowledge_effect:
  assumes keeps: "keeps_cursors e env" and run: "acknowledge env tx e c s q g t reader = (result, reader')"
  shows "envelope_effect tx e c s q g reader result reader'"
proof (cases "tx \<in> rw_open_channels (rd_world reader)")
  case True
  then obtain remote where marked: "cursor_view remote e = reader_view reader e"
      "reader_view reader' e = cursor_view (mark_server_envelope_acked e c s q g remote) e"
    and rest: "same_queue reader reader'" "result = Inr ()"
      "rw_sent (rd_world reader') = rw_sent (rd_world reader) @ [(tx, OutText (build_client_ack_envelope c s q g))]"
    using acknowledge_outcome[OF keeps run] by auto
  have "view_cursor reader' e (server_ack_cursor_key e c s) = Some (q, g)"
    if "\<not> already_acked reader e (server_ack_cursor_key e c s) (q, g)" "reader_view reader e \<noteq> None"
    using mark_new[OF marked(1) that(2,1)] marked(2) by (auto simp: view_cursor_def)
  then show ?thesis
    using rest marked mark_already_acked[OF marked(1)] view_cursor_other[OF marked]
    by (auto simp: envelope_effect_def Let_def same_queue_def)
next
  case False
  then show ?thesis
    using acknowledge_outcome[OF keeps run] by (auto simp: envelope_effect_def Let_def same_queue_def view_cursor_def)
qed

lemma handle_effect:
  assumes keeps: "keeps_cursors e env"
    and envelope: "en_parse env message_text = Some \<lparr> ie_event = event, ie_client_id = c, ie_stream_id = s, ie_seq_id = q \<rparr>"
    and run: "handle_server_envelope env tx e message_text reader = (result, reader')"
  shows "envelope_effect tx e c s q (server_event_segment_id event) reader result reader'"
proof -
  let ?g = "server_event_segment_id event"
  from keeps envelope run show ?thesis
  proof (cases rule: handle_cases)
    case (stale reader1)
    then show ?thesis using acknowledge_effect[OF keeps stale(3)] envelope_effect_start[OF stale(1,2)] by simp
  next
    case (duplicate reader1)
    then show ?thesis
      using send_ack_outcome[OF keeps duplicate(5)] same_state_transfer[OF duplicate(1,2)]
      by (auto simp: envelope_effect_def Let_def same_but_state_def view_cursor_def same_queue_def split: if_splits)
  next
    case (new reader1)
    obtain outcome reader2 where off: "hand_off env e c s q event reader1 = (outcome, reader2)" by fastforce
    note handed = hand_off_outcome[OF keeps off]
    note same = same_state_transfer[OF new(1,2)]
    show ?thesis
    proof (cases outcome)
      case (Inl err)
      then have "result = Inl err" "reader' = reader2" using new(5) off by simp_all
      then show ?thesis
        using Inl handed same new(2) new(1)
        by (simp add: envelope_effect_def Let_def view_cursor_def same_but_state_def)
    next
      case (Inr u)
      then have ack: "acknowledge env tx e c s q ?g (en_now env 0) reader2 = (result, reader')"
        using new(5) off by simp
      note effect = acknowledge_effect[OF keeps ack]
      have view: "reader_view reader2 e = reader_view reader e" using handed new(2) by simp
      have acked: "already_acked reader2 e key cursor = already_acked reader e key cursor" for key cursor
        using view by (simp add: already_acked_def view_cursor_def)
      have queue: "same_queue reader2 reader'" using acknowledge_outcome[OF keeps ack] by blast
      have off_queue: "same_queue reader reader2 \<or> queue_open reader \<and> hands_off (e, c, s, q) ?g reader reader2"
        using handed Inr same by auto
      then have "same_queue reader reader' \<or> queue_open reader \<and> hands_off (e, c, s, q) ?g reader reader'"
        using queue by (auto simp: same_queue_def hands_off_def)
      then have queue_part: "same_queue reader reader' \<or> \<not> already_acked reader e (server_ack_cursor_key e c s) (q, ?g) \<and>
          reader_view reader e \<noteq> None \<and> queue_open reader \<and> hands_off (e, c, s, q) ?g reader reader'"
        using new(3,4) by blast
      have cursors: "view_cursor reader2 e = view_cursor reader e" using view by (simp add: view_cursor_def fun_eq_iff)
      have sent: "rw_sent (rd_world reader2) = rw_sent (rd_world reader)"
          "rw_open_channels (rd_world reader2) = rw_open_channels (rd_world reader)"
          "rd_ended reader2 = rd_ended reader" "rd_queue_closed reader2 = rd_queue_closed reader"
        using handed same new(1) by (simp_all add: same_but_state_def)
      have closed: "tx \<notin> rw_open_channels (rd_world reader)" if "result = Inl err" for err
        using acknowledge_outcome[OF keeps ack] that sent(2) by (auto split: if_splits)
      show ?thesis
        using effect queue_part closed
        unfolding envelope_effect_def Let_def acked cursors view sent by (cases result) simp_all
    qed
  qed
qed

subsection \<open>Runs of the reader\<close>

text \<open>The reader task of connection \<open>e\<close> with outbound channel \<open>tx\<close>, the worker that takes from the queue,
  and everything else, which may change the state but not this connection's cursors. The reader ends
  with the first error.\<close>

inductive reader_step :: "nat \<Rightarrow> nat \<Rightarrow> reader \<Rightarrow> reader \<Rightarrow> bool" for tx e where
  handled: "\<not> rd_ended reader \<Longrightarrow> keeps_cursors e env \<Longrightarrow>
    handle_server_envelope env tx e message_text reader = (Inr (), reader') \<Longrightarrow> reader_step tx e reader reader'"
| failed: "\<not> rd_ended reader \<Longrightarrow> keeps_cursors e env \<Longrightarrow>
    handle_server_envelope env tx e message_text reader = (Inl err, reader') \<Longrightarrow>
    reader_step tx e reader (reader'\<lparr>rd_ended := True\<rparr>)"
| worked: "rd_queue reader = item # rest \<Longrightarrow> reader_step tx e reader (reader\<lparr>rd_queue := rest\<rparr>)"
| worker_gone: "reader_step tx e reader (reader\<lparr>rd_queue_closed := True\<rparr>)"
| elsewhere: "cursor_view (rw_inner world) e = reader_view reader e \<Longrightarrow>
    reader_step tx e reader (reader\<lparr>rd_world := world\<rparr>)"

definition item_key :: "work_item \<Rightarrow> string" where
  "item_key item = (case item_source item of (e, c, s, q) \<Rightarrow> server_ack_cursor_key e c s)"

definition item_seq :: "work_item \<Rightarrow> nat" where
  "item_seq item = (case item_source item of (e, c, s, q) \<Rightarrow> q)"

text \<open>The positions (sequence number, segment) of the hand-offs accepted for a stream, in order.\<close>

definition accepted_positions :: "string \<Rightarrow> reader \<Rightarrow> (nat \<times> nat) list" where
  "accepted_positions key reader =
     map (\<lambda>(item, g). cursor_position (item_seq item, g))
       (filter (\<lambda>(item, g). item_key item = key) (rd_accepted reader))"

definition reader_inv :: "nat \<Rightarrow> reader \<Rightarrow> bool" where
  "reader_inv e reader \<longleftrightarrow> (\<forall>key. sorted_wrt (<) (accepted_positions key reader) \<and>
     (\<not> rd_ended reader \<longrightarrow> (\<forall>p \<in> set (accepted_positions key reader).
        \<exists>cursor. view_cursor reader e key = Some cursor \<and> p \<le> cursor_position cursor)))"

lemma accepted_positions_same: "same_queue reader reader' \<Longrightarrow> accepted_positions key reader' = accepted_positions key reader"
  by (simp add: accepted_positions_def same_queue_def)

lemma accepted_positions_hands_off:
  "hands_off (e, c, s, q) g reader reader' \<Longrightarrow> accepted_positions key reader' =
     accepted_positions key reader @ (if key = server_ack_cursor_key e c s then [cursor_position (q, g)] else [])"
  by (auto simp: hands_off_def accepted_positions_def item_key_def item_seq_def)

lemma view_cursor_world:
  "view_cursor (reader\<lparr>rd_queue := queue\<rparr>) e = view_cursor reader e"
  "view_cursor (reader\<lparr>rd_queue_closed := b\<rparr>) e = view_cursor reader e"
  "view_cursor (reader\<lparr>rd_ended := b\<rparr>) e = view_cursor reader e"
  by (simp_all add: view_cursor_def reader_view_def fun_eq_iff)

text \<open>The step of the invariant: what is accepted is beyond the cursor, and then the cursor moves there.\<close>

lemma effect_keeps_inv:
  assumes inv: "reader_inv e reader" and alive: "\<not> rd_ended reader"
    and effect: "envelope_effect tx e c s q g reader result reader'"
  shows "(\<forall>key. sorted_wrt (<) (accepted_positions key reader')) \<and> (result = Inr () \<longrightarrow> reader_inv e reader')"
proof -
  let ?key = "server_ack_cursor_key e c s"
  let ?new = "\<lambda>key. accepted_positions key reader' = accepted_positions key reader @
      (if key = ?key then [cursor_position (q, g)] else [])"
  have below: "\<exists>cursor. view_cursor reader e key = Some cursor \<and> p \<le> cursor_position cursor"
    if "p \<in> set (accepted_positions key reader)" for key p
    using inv alive that by (auto simp: reader_inv_def)
  have alive': "\<not> rd_ended reader'" using effect alive by (simp add: envelope_effect_def Let_def)
  have fresh: "\<forall>p \<in> set (accepted_positions ?key reader). p < cursor_position (q, g)"
    if "\<not> already_acked reader e ?key (q, g)"
    using below[of _ ?key] that by (fastforce simp: already_acked_def ack_cursor_gt_def)
  have positions: "(\<forall>key. accepted_positions key reader' = accepted_positions key reader) \<or>
      \<not> already_acked reader e ?key (q, g) \<and> (\<forall>key. ?new key)"
    using effect accepted_positions_same accepted_positions_hands_off
    unfolding envelope_effect_def Let_def by blast
  have sorted: "sorted_wrt (<) (accepted_positions key reader')" for key
    using positions inv fresh by (auto simp: reader_inv_def sorted_wrt_append)
  have covered: "\<exists>cursor. view_cursor reader' e key = Some cursor \<and> p \<le> cursor_position cursor"
    if ok: "result = Inr ()" and p: "p \<in> set (accepted_positions key reader')" for key p
  proof -
    have old: "p \<in> set (accepted_positions key reader) \<or>
        \<not> already_acked reader e ?key (q, g) \<and> reader_view reader e \<noteq> None \<and> key = ?key \<and> p = cursor_position (q, g)"
      using p effect accepted_positions_same[of reader reader' key] accepted_positions_hands_off[of e c s q g reader reader' key]
      unfolding envelope_effect_def Let_def by (auto split: if_splits)
    show ?thesis
    proof (cases "key = ?key \<and> \<not> already_acked reader e ?key (q, g)")
      case True
      have "reader_view reader e \<noteq> None"
        using old below[of p key] by (auto simp: view_cursor_def bind_eq_Some_conv)
      then have "view_cursor reader' e key = Some (q, g)"
        using True ok effect by (simp add: envelope_effect_def Let_def)
      moreover have "p \<le> cursor_position (q, g)" using old True fresh by auto
      ultimately show ?thesis by blast
    next
      case False
      then have "view_cursor reader' e key = view_cursor reader e key"
        using effect by (auto simp: envelope_effect_def Let_def view_cursor_def)
      then show ?thesis using old False below[of p key] by auto
    qed
  qed
  show ?thesis using sorted covered alive' by (auto simp: reader_inv_def)
qed

lemma reader_step_inv: "reader_step tx e reader reader' \<Longrightarrow> reader_inv e reader \<Longrightarrow> reader_inv e reader'"
proof (induction rule: reader_step.induct)
  case (handled reader env message_text reader')
  then obtain envelope where parsed: "en_parse env message_text = Some envelope"
    by (auto simp: handle_server_envelope_def split: option.splits)
  obtain event c s q where "envelope = \<lparr> ie_event = event, ie_client_id = c, ie_stream_id = s, ie_seq_id = q \<rparr>"
    by (cases envelope) blast
  then show ?case
    using effect_keeps_inv[OF handled.prems handled.hyps(1) handle_effect[OF handled.hyps(2) _ handled.hyps(3)]] parsed
    by blast
next
  case (failed reader env message_text err reader')
  have "\<forall>key. sorted_wrt (<) (accepted_positions key reader')"
  proof (cases "en_parse env message_text")
    case None
    then have "reader' = reader" using failed.hyps(3) by (simp add: handle_server_envelope_def)
    then show ?thesis using failed.prems by (simp add: reader_inv_def)
  next
    case (Some envelope)
    obtain event c s q where "envelope = \<lparr> ie_event = event, ie_client_id = c, ie_stream_id = s, ie_seq_id = q \<rparr>"
      by (cases envelope) blast
    then show ?thesis
      using effect_keeps_inv[OF failed.prems failed.hyps(1) handle_effect[OF failed.hyps(2) _ failed.hyps(3)]] Some
      by blast
  qed
  then show ?case by (simp add: reader_inv_def accepted_positions_def)
next
  case (elsewhere world reader)
  then have "view_cursor (reader\<lparr>rd_world := world\<rparr>) e = view_cursor reader e"
    by (simp add: view_cursor_def reader_view_def fun_eq_iff)
  then show ?case using elsewhere.prems by (simp add: reader_inv_def accepted_positions_def)
qed (simp_all add: reader_inv_def accepted_positions_def view_cursor_world)

lemma reader_run_inv: "(reader_step tx e)\<^sup>*\<^sup>* reader reader' \<Longrightarrow> reader_inv e reader \<Longrightarrow> reader_inv e reader'"
  by (induction rule: rtranclp_induct) (auto intro: reader_step_inv)

text \<open>The worker takes the accepted items in order, and at most 4096 wait.\<close>

definition queue_inv :: "reader \<Rightarrow> bool" where
  "queue_inv reader \<longleftrightarrow> (\<exists>taken. map fst (rd_accepted reader) = taken @ rd_queue reader) \<and>
     length (rd_queue reader) \<le> REMOTE_CONTROL_SERVER_WORK_QUEUE_CAPACITY"

lemma effect_queue_inv:
  assumes "queue_inv reader" and "envelope_effect tx e c s q g reader result reader'"
  shows "queue_inv reader'"
proof -
  have "same_queue reader reader' \<or> queue_open reader \<and> hands_off (e, c, s, q) g reader reader'"
    using assms(2) by (auto simp: envelope_effect_def Let_def)
  then show ?thesis
    using assms(1) by (auto simp: queue_inv_def same_queue_def hands_off_def queue_open_def queue_capacity_def)
qed

lemma handle_queue_inv:
  assumes "queue_inv reader" and "keeps_cursors e env" and "handle_server_envelope env tx e message_text reader = (result, reader')"
  shows "queue_inv reader'"
proof (cases "en_parse env message_text")
  case None
  then show ?thesis using assms by (simp add: handle_server_envelope_def)
next
  case (Some envelope)
  then show ?thesis
    using effect_queue_inv[OF assms(1) handle_effect[OF assms(2) _ assms(3)]] by (cases envelope) blast
qed

lemma reader_step_queue_inv: "reader_step tx e reader reader' \<Longrightarrow> queue_inv reader \<Longrightarrow> queue_inv reader'"
proof (induction rule: reader_step.induct)
  case (handled reader env message_text reader')
  then show ?case by (blast intro: handle_queue_inv)
next
  case (failed reader env message_text err reader')
  then have "queue_inv reader'" by (blast intro: handle_queue_inv)
  then show ?case by (simp add: queue_inv_def)
next
  case (worked reader item rest)
  then obtain taken where "map fst (rd_accepted reader) = taken @ item # rest" by (auto simp: queue_inv_def)
  then have "map fst (rd_accepted reader) = (taken @ [item]) @ rest" by simp
  then show ?case using worked by (fastforce simp: queue_inv_def)
qed (simp_all add: queue_inv_def)

lemma reader_run_queue_inv: "(reader_step tx e)\<^sup>*\<^sup>* reader reader' \<Longrightarrow> queue_inv reader \<Longrightarrow> queue_inv reader'"
  by (induction rule: rtranclp_induct) (auto intro: reader_step_queue_inv)

subsection \<open>Properties\<close>

text \<open>C7. Messages are handed off at most once and in order. In any run of a connection's reader, with
  whatever duplicates and segments the app server sends and however the worker and the other tasks
  interleave, the hand-offs accepted for a stream have strictly increasing positions (sequence
  number, then segment), the worker sees them in that order, and at most 4096 wait.\<close>

theorem messages_handed_off_once:
  assumes "(reader_step tx e)\<^sup>*\<^sup>* reader reader'" and "rd_accepted reader = []" and "rd_queue reader = []"
  shows "sorted_wrt (<) (accepted_positions key reader') \<and>
    (\<exists>taken. map fst (rd_accepted reader') = taken @ rd_queue reader') \<and>
    length (rd_queue reader') \<le> REMOTE_CONTROL_SERVER_WORK_QUEUE_CAPACITY"
proof -
  have "reader_inv e reader" "queue_inv reader"
    using assms(2,3) by (simp_all add: reader_inv_def queue_inv_def accepted_positions_def)
  then show ?thesis
    using reader_run_inv[OF assms(1)] reader_run_queue_inv[OF assms(1)] by (simp add: reader_inv_def queue_inv_def)
qed

text \<open>C39. An envelope is acknowledged exactly when it was dealt with. If the handler succeeds it has sent
  exactly one acknowledgement, of this envelope; if it fails it has sent nothing and moved no cursor,
  so the app server will send the envelope again, and the queue had no room or the channel was closed.
  An envelope at or before the stream's cursor is never handed off again, and other streams' cursors
  do not move.\<close>

theorem acknowledged_iff_dealt_with:
  assumes "keeps_cursors e env"
    and "en_parse env message_text = Some \<lparr> ie_event = event, ie_client_id = c, ie_stream_id = s, ie_seq_id = q \<rparr>"
    and "handle_server_envelope env tx e message_text reader = (result, reader')"
  shows "(case result of
      Inr _ \<Rightarrow> rw_sent (rd_world reader') = rw_sent (rd_world reader)
        @ [(tx, OutText (build_client_ack_envelope c s q (server_event_segment_id event)))]
    | Inl _ \<Rightarrow> rw_sent (rd_world reader') = rw_sent (rd_world reader) \<and>
        (\<forall>key. view_cursor reader' e key = view_cursor reader e key) \<and>
        (\<not> queue_open reader \<or> tx \<notin> rw_open_channels (rd_world reader))) \<and>
    (already_acked reader e (server_ack_cursor_key e c s) (q, server_event_segment_id event) \<longrightarrow>
      rd_accepted reader' = rd_accepted reader) \<and>
    (\<forall>key. key \<noteq> server_ack_cursor_key e c s \<longrightarrow> view_cursor reader' e key = view_cursor reader e key)"
  using handle_effect[OF assms]
  by (auto simp: envelope_effect_def Let_def same_queue_def view_cursor_def split: sum.splits)

subsection \<open>A sample reader\<close>

definition sample_codec :: codec where
  "sample_codec = \<lparr> co_encode64 = sample_encode64, co_decode64 = sample_decode64, co_to_vec = sample_to_vec,
     co_from_slice = sample_from_slice, co_display = (\<lambda>_. []) \<rparr>"

definition sample_env :: reader_env where
  "sample_env = \<lparr> en_codec = sample_codec,
     en_parse = (\<lambda>t. Some \<lparr> ie_event = ServerMessage sample_notice, ie_client_id = MOCHIPORT_BRIDGE_CLIENT_ID,
       ie_stream_id = ''s'', ie_seq_id = length t \<rparr>),
     en_others = (\<lambda>_ remote. remote), en_lock_free = True, en_now = (\<lambda>i. i), en_uuid = ''u'' \<rparr>"

definition sample_reader :: reader where
  "sample_reader = \<lparr> rd_world = \<lparr> rw_inner = sample_remote, rw_open_channels = {1}, rw_sent = [], rw_responses = [],
       rw_next_request_id = 200000, rw_next_subscribe_cursor_id = 1 \<rparr>,
     rd_chunks = [], rd_queue = [], rd_queue_closed = False, rd_accepted = [], rd_ended = False \<rparr>"

lemma sample_env_keeps: "keeps_cursors e sample_env"
  by (simp add: keeps_cursors_def sample_env_def)

lemma sample_reader_open: "queue_open sample_reader" "1 \<in> rw_open_channels (rd_world sample_reader)"
  by (simp_all add: sample_reader_def queue_open_def queue_capacity_def REMOTE_CONTROL_SERVER_WORK_QUEUE_CAPACITY_def)

theorem acknowledged_iff_dealt_with_witness:
  "rw_sent (rd_world (snd (handle_server_envelope sample_env 1 1 ''xyz'' sample_reader))) =
     [(1, OutText (build_client_ack_envelope MOCHIPORT_BRIDGE_CLIENT_ID ''s'' 3 None))]"
proof -
  have "en_parse sample_env ''xyz'' = Some \<lparr> ie_event = ServerMessage sample_notice,
      ie_client_id = MOCHIPORT_BRIDGE_CLIENT_ID, ie_stream_id = ''s'', ie_seq_id = 3 \<rparr>"
    by (simp add: sample_env_def)
  from acknowledged_iff_dealt_with[OF sample_env_keeps this prod.collapse[symmetric], of 1 1 sample_reader]
  show ?thesis
    using sample_reader_open
    by (cases "fst (handle_server_envelope sample_env 1 1 ''xyz'' sample_reader)")
      (simp_all add: sample_reader_def)
qed

theorem messages_handed_off_once_witness:
  "sorted_wrt (<) (accepted_positions (server_ack_cursor_key 1 MOCHIPORT_BRIDGE_CLIENT_ID ''s'')
     ((snd (handle_server_envelope sample_env 1 1 ''xyz'' sample_reader))\<lparr>rd_queue_closed := True\<rparr>))"
proof -
  let ?next = "snd (handle_server_envelope sample_env 1 1 ''xyz'' sample_reader)"
  have "en_parse sample_env ''xyz'' = Some \<lparr> ie_event = ServerMessage sample_notice,
      ie_client_id = MOCHIPORT_BRIDGE_CLIENT_ID, ie_stream_id = ''s'', ie_seq_id = 3 \<rparr>"
    by (simp add: sample_env_def)
  from handle_effect[OF sample_env_keeps this prod.collapse[symmetric], of 1 1 sample_reader]
  have "fst (handle_server_envelope sample_env 1 1 ''xyz'' sample_reader) = Inr ()"
    using sample_reader_open
    by (cases "fst (handle_server_envelope sample_env 1 1 ''xyz'' sample_reader)")
      (simp_all add: envelope_effect_def Let_def)
  then have "handle_server_envelope sample_env 1 1 ''xyz'' sample_reader = (Inr (), ?next)"
    by (metis prod.collapse)
  then have "reader_step 1 1 sample_reader ?next"
    by (intro reader_step.handled[OF _ sample_env_keeps]) (simp_all add: sample_reader_def)
  then have "(reader_step 1 1)\<^sup>*\<^sup>* sample_reader (?next\<lparr>rd_queue_closed := True\<rparr>)"
    using reader_step.worker_gone[of 1 1 ?next] by (meson converse_rtranclp_into_rtranclp r_into_rtranclp)
  then show ?thesis
    using messages_handed_off_once[of 1 1 sample_reader] by (simp add: sample_reader_def)
qed

end
