(* ===== verification/RcSystem.thy ===== *)
theory RcSystem
  imports RcReader
begin

section \<open>The remote-control backend as a whole\<close>

text \<open>
  One step relation over the operations of theories RcClients, RcConnections, RcOutbound and RcServer, and
  the invariant all of them keep (theory RcBackend adds requests and the remaining operations): connections are stored under their own identifier with distinct
  epochs, their clients, cursors and diagnostics are proper maps, sequence numbers are positive 64-bit
  numbers, and at most 96 recent events are kept.
\<close>

subsection \<open>Sending keeps the state well formed\<close>

named_theorems world_ok_intros \<open>operations of the world keep the state well formed\<close>

abbreviation world_ok :: "remote_world \<Rightarrow> bool" where
  "world_ok world \<equiv> remote_ok (rw_inner world)"

lemma epochs_replace:
  "hget m k = Some c \<Longrightarrow> f (k, c') = f (k, c) \<Longrightarrow> map f (hinsert k c' m) = map f m"
  by (induction m) auto

lemma remote_ok_replace:
  assumes ok: "remote_ok remote" and found: "hget (ri_connections remote) k = Some c"
    and new: "connection_ok (k, c')" "cn_connection_epoch c' = cn_connection_epoch c"
  shows "remote_ok (remote\<lparr>ri_connections := hinsert k c' (ri_connections remote)\<rparr>)"
proof -
  have "epochs (remote\<lparr>ri_connections := hinsert k c' (ri_connections remote)\<rparr>) = epochs remote"
    using epochs_replace[OF found, of "\<lambda>(_, c). cn_connection_epoch c" c'] new(2) by (simp add: epochs_def)
  then show ?thesis
    using ok new(1) set_hinsert_subset[of k c' "ri_connections remote"] by (auto simp: remote_ok_def)
qed

lemma remote_ok_active_mut:
  assumes "remote_ok remote"
    and "\<And>k connection. connection_ok (k, connection) \<Longrightarrow> connection_ok (k, change connection)"
    and "\<And>connection. cn_connection_epoch (change connection) = cn_connection_epoch connection"
  shows "remote_ok (active_connection_mut_locked change remote)"
proof -
  have "connection_ok (k, connection)" if "hget (ri_connections remote) k = Some connection" for k connection
    using assms(1) that by (auto simp: remote_ok_def dest!: map_of_SomeD)
  then show ?thesis
    using assms by (auto simp: active_connection_mut_locked_def intro!: remote_ok_replace split: option.split)
qed

lemma client_ok_take_seq: "client_ok client \<Longrightarrow> client_ok (snd (take_seq_id client))"
  by (auto simp: client_ok_def take_seq_id_def sat_add_def u64_max_def)

lemma client_ok_register:
  "client_ok client \<Longrightarrow> client_ok (snd (register_initialize codec now e i message cursor client))"
  by (auto simp: client_ok_def register_initialize_def take_seq_id_def Let_def sat_add_def u64_max_def split: sum.split)

lemma remote_ok_parts [remote_ok_intros]:
  "remote_ok remote \<Longrightarrow> remote_ok (snd (next_client_envelope_parts uuid key remote))"
  "remote_ok remote \<Longrightarrow> remote_ok (snd (take_seq_for_stream uuid e c s remote))"
  unfolding next_client_envelope_parts_def take_seq_for_stream_def Let_def
  by (auto simp: case_prod_beta client_ok_take_seq intro!: remote_ok_ensure split: option.split)

lemma remote_ok_forget [remote_ok_intros]:
  "remote_ok remote \<Longrightarrow> remote_ok (forget_pending e key request_key remote)"
  unfolding forget_pending_def by (rule remote_ok_client_mut) (simp_all add: client_ok_def)

lemma world_ok_request_id [world_ok_intros]: "world_ok world \<Longrightarrow> world_ok (snd (next_request_id world))"
  by (simp add: next_request_id_def)

lemma world_ok_cursor [world_ok_intros]: "world_ok world \<Longrightarrow> world_ok (snd (next_remote_subscribe_cursor world))"
  by (auto simp: next_remote_subscribe_cursor_def Let_def change_inner_def connection_ok_def intro!: remote_ok_active_mut)

lemma world_ok_with_inner [world_ok_intros]:
  "(\<And>remote. remote_ok remote \<Longrightarrow> remote_ok (snd (operation remote))) \<Longrightarrow> world_ok world \<Longrightarrow>
     world_ok (snd (with_inner operation world))"
  by (simp add: with_inner_def case_prod_beta)

lemma world_ok_send [world_ok_intros]: "world_ok world \<Longrightarrow> world_ok (snd (channel_send tx message world))"
  by (simp add: channel_send_def)

lemma world_ok_and_then:
  "world_ok (snd r) \<Longrightarrow> (\<And>x world. world_ok world \<Longrightarrow> world_ok (snd (f x world))) \<Longrightarrow> world_ok (snd (and_then r f))"
  by (cases r; cases "fst r") auto

lemma world_ok_send_on [world_ok_intros]:
  "world_ok world \<Longrightarrow> world_ok (snd (send_on_channel codec now e tx envelope world))"
  unfolding send_on_channel_def by (rule world_ok_send) (simp add: change_inner_def remote_ok_record_event)

lemma world_ok_send_all [world_ok_intros]:
  "world_ok world \<Longrightarrow> world_ok (snd (send_all_on_channel codec now e tx envelopes world))"
  by (induction envelopes arbitrary: world) (auto intro!: world_ok_and_then world_ok_send_on)

lemma world_ok_send_envelopes [world_ok_intros]:
  "world_ok world \<Longrightarrow> world_ok (snd (send_envelopes_on_connection codec now e envelopes world))"
  "world_ok world \<Longrightarrow> world_ok (snd (send_envelope_on_connection codec now e envelope world))"
  "world_ok world \<Longrightarrow> world_ok (snd (send_envelopes codec now envelopes world))"
  unfolding send_envelopes_on_connection_def send_envelope_on_connection_def send_envelopes_def
  by (auto intro!: world_ok_send_all world_ok_send_on split: option.split)

lemma world_ok_control [world_ok_intros]:
  "world_ok world \<Longrightarrow> world_ok (snd (send_ws_control_ping e world))"
  "world_ok world \<Longrightarrow> world_ok (snd (send_ws_control_pong e data world))"
  unfolding send_ws_control_ping_def send_ws_control_pong_def by (auto intro!: world_ok_send split: option.split)

lemma world_ok_ack [world_ok_intros]:
  "world_ok world \<Longrightarrow> world_ok (snd (ack_server_envelope free now tx e c s q g world))"
  unfolding ack_server_envelope_def
  by (intro world_ok_and_then world_ok_send) (simp_all add: change_inner_def remote_ok_record_event)

lemma world_ok_to_stream [world_ok_intros]:
  "world_ok world \<Longrightarrow> world_ok (snd (send_to_stream codec uuid now e c s message world))"
  unfolding send_to_stream_def
  by (intro world_ok_and_then world_ok_with_inner remote_ok_parts)
    (auto simp: Let_def case_prod_beta intro!: world_ok_send_envelopes world_ok_cursor split: sum.split)

lemma world_ok_initialize [world_ok_intros]:
  assumes "world_ok world"
  shows "world_ok (snd (send_initialize_for_client_on_connection codec version uuid now admitted e key world))"
proof -
  let ?w1 = "snd (next_request_id world)"
  let ?message = "initialize_message version (fst (next_request_id world))"
  let ?w2 = "snd (next_remote_subscribe_cursor ?w1)"
  define r where "r = with_inner (ensure_client_state_for_connection_locked uuid e (normalize_remote_client_key key)
    (register_initialize codec now e (fst (next_request_id world)) ?message (fst (next_remote_subscribe_cursor ?w1)))) ?w2"
  have "world_ok ?w2" by (intro world_ok_cursor world_ok_request_id assms)
  then have ok: "world_ok (snd r)"
    unfolding r_def by (intro world_ok_with_inner remote_ok_ensure client_ok_register)
  have "world_ok (snd (send_envelopes_on_connection codec now e envelopes (snd r)))" for envelopes
    by (intro world_ok_send_envelopes ok)
  then show ?thesis
    using ok assms unfolding send_initialize_for_client_on_connection_def Let_def case_prod_beta r_def[symmetric]
    by (auto simp: change_inner_def intro!: remote_ok_forget split: option.split sum.split prod.split)
qed

lemma world_ok_ensure_initialized [world_ok_intros]:
  "world_ok world \<Longrightarrow>
     world_ok (snd (ensure_remote_control_client_initialized codec version uuid now admitted e key world))"
  unfolding ensure_remote_control_client_initialized_def Let_def
  by (auto simp: case_prod_beta intro!: world_ok_and_then world_ok_initialize world_ok_with_inner remote_ok_claim_initialize)

lemma world_ok_initialize_each [world_ok_intros]:
  "world_ok world \<Longrightarrow> world_ok (snd (initialize_each codec version uuid now admitted e keys world))"
  by (induction keys arbitrary: world) (auto intro!: world_ok_and_then world_ok_ensure_initialized)

lemma world_ok_initialize_all [world_ok_intros]:
  "world_ok world \<Longrightarrow>
     world_ok (snd (initialize_remote_clients_for_connection codec version uuid now admitted bound e world))"
  unfolding initialize_remote_clients_for_connection_def by (rule world_ok_initialize_each)

lemma world_ok_send_each: "world_ok world \<Longrightarrow> world_ok (snd (send_each codec now e batches world))"
  by (induction batches arbitrary: world) (auto intro!: world_ok_and_then world_ok_send_envelopes)

lemma world_ok_replay [world_ok_intros]:
  "world_ok world \<Longrightarrow> world_ok (snd (replay_pending_requests codec now e key world))"
  unfolding replay_pending_requests_def by (rule world_ok_send_each)

lemma world_ok_reset [world_ok_intros]:
  assumes "world_ok world"
  shows "world_ok (snd (reset_remote_control_client_for_key codec version uuid now admitted e key world))"
proof -
  have "world_ok (snd (with_inner (take_pending_for_reset uuid e key) world))"
    by (intro world_ok_with_inner remote_ok_take_pending assms)
  then show ?thesis
    unfolding reset_remote_control_client_for_key_def Let_def
    by (auto intro!: world_ok_and_then world_ok_initialize split: option.split prod.split)
qed

lemma world_ok_reconnect [world_ok_intros]:
  assumes "world_ok world"
  shows "world_ok (snd (force_remote_control_ws_reconnect e key reason world))"
proof -
  have "world_ok (change_inner (connection_for_epoch_mut_locked e (\<lambda>c. c\<lparr>cn_last_error := err\<rparr>)) world)" for err
    using assms by (auto simp: change_inner_def intro!: remote_ok_change)
  then show ?thesis
    using assms unfolding force_remote_control_ws_reconnect_def Let_def
    by (auto intro!: world_ok_send split: option.split)
qed

subsection \<open>The reader keeps the state well formed\<close>

definition keeps_ok :: "reader_env \<Rightarrow> bool" where
  "keeps_ok env \<longleftrightarrow> (\<forall>i remote. remote_ok remote \<longrightarrow> remote_ok (en_others env i remote))"

lemma locked_ok:
  "keeps_ok env \<Longrightarrow> (\<And>remote. remote_ok remote \<Longrightarrow> remote_ok (snd (operation remote))) \<Longrightarrow>
     world_ok (rd_world reader) \<Longrightarrow> world_ok (rd_world (snd (locked (en_others env) i operation reader)))"
  by (simp add: locked_def with_inner_def case_prod_beta keeps_ok_def)

lemma locked_change_ok:
  "keeps_ok env \<Longrightarrow> (\<And>remote. remote_ok remote \<Longrightarrow> remote_ok (change remote)) \<Longrightarrow>
     world_ok (rd_world reader) \<Longrightarrow> world_ok (rd_world (locked_change (en_others env) i change reader))"
  unfolding locked_change_def by (rule locked_ok) simp_all

lemma remote_ok_diagnostics [remote_ok_intros]:
  "remote_ok remote \<Longrightarrow> remote_ok (observe_server_envelope_window e c s q t remote)"
  "remote_ok remote \<Longrightarrow> remote_ok (observe_command_output_delta_received now e c s q m cap remote)"
  "remote_ok remote \<Longrightarrow> remote_ok (record_server_ack_diagnostics now e c s q t remote)"
  "remote_ok remote \<Longrightarrow> remote_ok (mark_server_envelope_acked e c s q g remote)"
  unfolding observe_server_envelope_window_def observe_command_output_delta_received_def
    record_server_ack_diagnostics_def mark_server_envelope_acked_def Let_def
  by (rule remote_ok_change; simp add: change_diagnostics_def advance_cursor_def connection_ok_def)+

lemma send_ack_ok:
  "keeps_ok env \<Longrightarrow> world_ok (rd_world reader) \<Longrightarrow>
     world_ok (rd_world (snd (send_ack env tx e c s q g reader)))"
  unfolding send_ack_def by (simp add: case_prod_beta keeps_ok_def world_ok_ack change_inner_def)

lemma acknowledge_ok:
  assumes "keeps_ok env" and "world_ok (rd_world reader)"
  shows "world_ok (rd_world (snd (acknowledge env tx e c s q g t reader)))"
proof -
  have sent: "world_ok (rd_world (snd (send_ack env tx e c s q g reader)))" by (rule send_ack_ok[OF assms])
  have "world_ok (rd_world (locked_change (en_others env) 7 (mark_server_envelope_acked e c s q g)
      (locked_change (en_others env) 6 (record_server_ack_diagnostics now e c s q t) r)))"
    if "world_ok (rd_world r)" for r now
    by (intro locked_change_ok[OF assms(1)] remote_ok_diagnostics that)
  then show ?thesis
    using sent unfolding acknowledge_def Let_def
    by (cases "send_ack env tx e c s q g reader"; cases "fst (send_ack env tx e c s q g reader)") auto
qed

lemma enqueue_world [simp]: "rd_world (snd (enqueue_remote_server_work g item reader)) = rd_world reader"
  by (simp add: enqueue_remote_server_work_def)

lemma hand_off_ok:
  assumes "keeps_ok env" and "world_ok (rd_world reader)"
  shows "world_ok (rd_world (snd (hand_off env e c s q event reader)))"
  unfolding hand_off_def Let_def
  by (auto simp: case_prod_beta assms(2) intro!: locked_change_ok[OF assms(1)] locked_ok[OF assms(1)]
      remote_ok_diagnostics remote_ok_pong split: incoming_event.split chunk_observation.split)

lemma handle_ok:
  assumes keeps: "keeps_ok env" and ok: "world_ok (rd_world reader)"
  shows "world_ok (rd_world (snd (handle_server_envelope env tx e message_text reader)))"
proof (cases "en_parse env message_text")
  case None
  then show ?thesis using ok by (simp add: handle_server_envelope_def)
next
  case (Some envelope)
  have both: "world_ok (rd_world (snd (and_then (hand_off env e c s q event r)
      (\<lambda>_. acknowledge env tx e c s q g t))))" if "world_ok (rd_world r)" for c s q event g t r
  proof -
    obtain outcome r' where off: "hand_off env e c s q event r = (outcome, r')" by fastforce
    then have "world_ok (rd_world r')" using hand_off_ok[OF keeps that, of e c s q event] by simp
    then show ?thesis unfolding off using acknowledge_ok[OF keeps] by (cases outcome) simp_all
  qed
  show ?thesis
    unfolding handle_server_envelope_def Some option.case Let_def case_prod_beta
    by (auto intro!: both send_ack_ok[OF keeps] acknowledge_ok[OF keeps] locked_ok[OF keeps]
        locked_change_ok[OF keeps] remote_ok_diagnostics remote_ok_record_event ok)
qed

subsection \<open>Reachable states\<close>

text \<open>The operations of these theories on the shared state; the epoch counter is below its maximum when a
  connection opens.\<close>

inductive remote_step :: "remote_world \<Rightarrow> remote_world \<Rightarrow> bool" where
  opened: "ri_next_connection_epoch (rw_inner w) < u64_max \<Longrightarrow>
    remote_step w (snd (with_inner (open_connection uuid now tx headers) w))"
| closed: "remote_step w (change_inner (cleanup_remote_control_connection connection_id e err) w)"
| ws_inbound: "remote_step w (change_inner (mark_remote_ws_inbound now e) w)"
| ws_ping: "remote_step w (change_inner (mark_remote_ws_ping now e) w)"
| ws_pong: "remote_step w (change_inner (mark_remote_ws_pong now e) w)"
| app_ping: "remote_step w (change_inner (mark_remote_app_ping uuid now e key) w)"
| migrated: "remote_step w (snd (with_inner (migrate_source_default_client_key_locked e key kind c s) w))"
| recovery: "remote_step w (snd (with_inner (begin_client_recovery uuid now e key c s) w))"
| recovered: "remote_step w (snd (with_inner (finish_remote_control_client_recovery e key) w))"
| refreshed: "remote_step w (change_inner (refresh_live_state now inst server_id env_id account agent) w)"
| authorized: "remote_step w (change_inner (remember_remote_control_client client) w)"
| revoked: "remote_step w (change_inner (delete_remote_control_client client_id) w)"
| parts: "remote_step w (snd (with_inner (next_client_envelope_parts uuid key) w))"
| sent: "remote_step w (snd (send_envelopes_on_connection codec now e envelopes w))"
| pinged: "remote_step w (snd (send_envelope_on_connection codec now e envelope w))"
| control_ping: "remote_step w (snd (send_ws_control_ping e w))"
| control_pong: "remote_step w (snd (send_ws_control_pong e data w))"
| answered: "remote_step w (snd (send_response_for_stream codec uuid now e c s request_id outcome w))"
| initialized: "remote_step w (snd (send_initialized_for_stream codec uuid now e c s w))"
| initialize_all: "remote_step w (snd (initialize_remote_clients_for_connection codec version uuid now admitted bound e w))"
| replayed: "remote_step w (snd (replay_pending_requests codec now e key w))"
| reset: "remote_step w (snd (reset_remote_control_client_for_key codec version uuid now admitted e key w))"
| reconnect: "remote_step w (snd (force_remote_control_ws_reconnect e key reason w))"
| received: "keeps_ok env \<Longrightarrow> rd_world reader = w \<Longrightarrow>
    remote_step w (rd_world (snd (handle_server_envelope env tx e message_text reader)))"

lemma remote_step_ok: "remote_step w w' \<Longrightarrow> world_ok w \<Longrightarrow> world_ok w'"
proof (induction rule: remote_step.induct)
  case (opened w uuid now tx headers)
  then show ?case by (simp add: with_inner_def case_prod_beta remote_ok_open)
next
  case (received env reader w tx e message_text)
  then show ?case using handle_ok by blast
next
  case (answered w codec uuid now e c s request_id outcome)
  then show ?case unfolding send_response_for_stream_def by (rule world_ok_to_stream)
next
  case (initialized w codec uuid now e c s)
  then show ?case unfolding send_initialized_for_stream_def by (rule world_ok_to_stream)
qed (simp_all add: change_inner_def world_ok_intros remote_ok_cleanup remote_ok_marks remote_ok_refresh
    remote_ok_authorized world_ok_with_inner remote_ok_migrate remote_ok_begin_recovery remote_ok_finish_recovery
    remote_ok_parts)

definition world_new :: remote_world where
  "world_new = \<lparr> rw_inner = remote_inner_new, rw_open_channels = {}, rw_sent = [], rw_responses = [],
     rw_next_request_id = 200000, rw_next_subscribe_cursor_id = 1 \<rparr>"

definition sample_headers :: ws_headers where
  "sample_headers = \<lparr> wh_server_id = Some ''srv'', wh_server_name = None, wh_installation_id = None,
     wh_account_id = None, wh_subscribe_cursor = None, wh_user_agent = Some ''mochiport/1'' \<rparr>"

lemma ensure_next_epoch:
  "ri_next_connection_epoch (snd (ensure_client_state_for_connection_locked uuid e key change remote)) =
     ri_next_connection_epoch remote"
  by (simp add: ensure_client_state_for_connection_locked_def Let_def split: option.split prod.split)

lemma open_next_epoch:
  "ri_next_connection_epoch (snd (open_connection uuid now tx headers remote)) = sat_add (ri_next_connection_epoch remote) 1"
  by (auto simp: open_connection_def Let_def case_prod_beta prune_inactive_remote_connections_locked_def
      ensure_next_epoch split: option.split)

end
