(* ===== verification/RuntimeTypes.thy ===== *)
theory RuntimeTypes
  imports ImTypes Json
begin

section \<open>The messaging runtime: data (src/src/im/runtime.rs)\<close>

text \<open>
  The structs and enums of \<open>im/runtime.rs\<close>. Field names carry a prefix per record where the
  source repeats a name; the fields of \<open>RuntimeState\<close> keep the source's names.

  Two things have no field in the source. A \<open>tokio::sync::Notify\<close> behind an \<open>Arc\<close> is a handle
  (a number); \<open>notify_next\<close> is the next fresh handle and \<open>notify_log\<close> lists the handles on
  which \<open>notify_one\<close> was called, oldest first. The wall clock \<open>now_ms()\<close> is an argument of the
  operations that read it.
\<close>

definition PENDING_ATTACHMENTS_MAX_AGE_MS :: nat where "PENDING_ATTACHMENTS_MAX_AGE_MS = 600000"
definition PENDING_ATTACHMENTS_MAX_COUNT :: nat where "PENDING_ATTACHMENTS_MAX_COUNT = 8"
definition TELEGRAM_QUEUED_TURNS_MAX_COUNT :: nat where "TELEGRAM_QUEUED_TURNS_MAX_COUNT = 8"
definition TELEGRAM_COMMENTARY_MAX_ENTRIES :: nat where "TELEGRAM_COMMENTARY_MAX_ENTRIES = 64"
definition TELEGRAM_COMMAND_PROGRESS_MAX_ENTRIES :: nat where
  "TELEGRAM_COMMAND_PROGRESS_MAX_ENTRIES = 128"
definition TELEGRAM_COLLAB_PROGRESS_MAX_AGENTS :: nat where
  "TELEGRAM_COLLAB_PROGRESS_MAX_AGENTS = 64"
definition TELEGRAM_COMPLETED_TYPING_HISTORY_MAX :: nat where
  "TELEGRAM_COMPLETED_TYPING_HISTORY_MAX = 512"
definition TERMINAL_NOTICE_TURN_HISTORY_MAX :: nat where "TERMINAL_NOTICE_TURN_HISTORY_MAX = 256"
definition TELEGRAM_REASONING_MAX_CHARS :: nat where "TELEGRAM_REASONING_MAX_CHARS = 12000"
definition TELEGRAM_PLAN_MAX_STEPS :: nat where "TELEGRAM_PLAN_MAX_STEPS = 64"
definition TELEGRAM_DIFF_MAX_PATHS :: nat where "TELEGRAM_DIFF_MAX_PATHS = 128"
definition TELEGRAM_WEB_SEARCH_MAX_ENTRIES :: nat where "TELEGRAM_WEB_SEARCH_MAX_ENTRIES = 16"

record commentary_entry =
  ce_item_id :: string
  ce_text :: string
  ce_sequence :: nat

record pending_attachments =
  pa_attachments :: "inbound_attachment list"
  pa_received_at_ms :: nat

record pending_telegram_turn =
  pt_text :: string
  pt_attachments :: "inbound_attachment list"

datatype telegram_queue_enqueue_outcome = Added nat | Full | NotRunning

record route_target =
  ro_platform :: im_platform_kind
  ro_conversation_key :: string
  ro_account_id :: string
  ro_chat_id :: string
  ro_remote_client_key :: string

record approval_decision_option =
  ad_label :: string
  ad_decision :: json

record pending_approval =
  ap_request_id :: json
  ap_request_kind :: string
  ap_method :: string
  ap_params :: json
  ap_summary :: string
  ap_decisions :: "approval_decision_option list"
  ap_message_id :: "string option"
  ap_remote_client_key :: "string option"

record resolved_approval =
  ra_conversation_key :: string
  ra_approval :: pending_approval
  ra_was_current :: bool
  ra_next_current :: "pending_approval option"

datatype thread_routing_stage = Choice | ResumeList | CreateSettings | CreateOptions

record thread_create_draft_state =
  cd_cwd_choice :: "string option"
  cd_cwd_custom :: "string option"
  cd_model :: "string option"
  cd_effort :: "string option"
  cd_permission :: "string option"

record thread_routing_request_state =
  tr_request_id :: string
  tr_conversation_key :: string
  tr_account_id :: string
  tr_chat_id :: string
  tr_message_id :: "string option"
  tr_stage :: thread_routing_stage
  tr_page :: nat
  tr_page_cursors :: "string option list"
  tr_thread_ids_by_page :: "string list list"
  tr_create_draft :: thread_create_draft_state
  tr_create_option_values_by_field_page :: "(string, string list list) hmap"
  tr_history_cursor :: "string option"
  tr_history_has_next :: bool

datatype 'a observed_setting = Unknown | Known "'a option"

record thread_settings_snapshot =
  ss_model :: "string observed_setting"
  ss_effort :: "string observed_setting"
  ss_service_tier :: "string observed_setting"

record thread_settings_model_choice =
  mc_model :: string
  mc_label :: string
  mc_supported_efforts :: "string list"
  mc_default_effort :: "string option"
  mc_supports_fast :: bool

datatype thread_settings_speed = Standard | Fast

record thread_settings_draft =
  dr_model :: "string option"
  dr_effort :: "string option"
  dr_speed :: "thread_settings_speed option"

datatype patch_value = Unchanged | SetValue string | ClearValue

record thread_settings_patch =
  pv_model :: patch_value
  pv_effort :: patch_value
  pv_service_tier :: patch_value

datatype thread_settings_stage =
  Overview | ModelStage | EffortStage | SpeedStage | CompatibilityConfirmation

record thread_settings_compatibility =
  cp_reset_effort :: bool
  cp_reset_speed :: bool

record pending_thread_settings_apply =
  pe_patch :: thread_settings_patch
  pe_submitted_at_ms :: nat

record model_switch_request =
  ms_request_id :: string
  ms_conversation_key :: string
  ms_account_id :: string
  ms_chat_id :: string
  ms_expected_thread_id :: string
  ms_remote_client_key :: string
  ms_catalog :: "thread_settings_model_choice list"
  ms_observed :: thread_settings_snapshot
  ms_draft :: thread_settings_draft
  ms_revision :: nat
  ms_expires_at_ms :: nat
  ms_stage :: thread_settings_stage
  ms_model_page :: nat
  ms_compatibility :: "thread_settings_compatibility option"
  ms_pending_apply :: "pending_thread_settings_apply option"
  ms_stale :: bool
  ms_message_id :: "string option"

datatype turn_origin = OriginFeishu | OriginTelegram | OriginWechat | OriginWecom

datatype thread_turn_state = Starting | Running string

record terminal_status_fallback =
  fb_turn_id :: string
  fb_token :: nat
  fb_event_driver_started :: bool
  fb_server_driver_started :: bool

record telegram_typing_state =
  ty_generation :: int
  ty_sending :: bool
  ty_dirty :: bool
  ty_finished :: bool
  ty_revision :: nat
  ty_last_attempt_at_ms :: nat
  ty_wake_driver :: nat
  ty_completed :: nat

datatype command_progress_status = CmdRunning | CmdInterrupted | CmdSucceeded | CmdFailed

datatype command_progress_entry_kind = CommandEntry | McpToolEntry

record command_progress_entry =
  en_item_id :: string
  en_kind :: command_progress_entry_kind
  en_command :: string
  en_status :: command_progress_status
  en_exit_code :: "int option"
  en_duration_ms :: "nat option"
  en_failure_output :: "string option"
  en_sequence :: nat

record web_search_entry =
  ws_item_id :: string
  ws_summary :: string
  ws_blocks :: "json list"
  ws_fallback_markdown :: string

datatype plan_step_status = PlanPending | PlanInProgress | PlanCompleted

record plan_step =
  pl_step :: string
  pl_status :: plan_step_status

record diff_file_summary =
  df_path :: string
  df_additions :: nat
  df_deletions :: nat

record diff_summary =
  di_file_count :: nat
  di_additions :: nat
  di_deletions :: nat
  di_files :: "diff_file_summary list"
  di_paths :: "string list"
  di_omitted_paths :: nat

datatype collab_status = CoRunning | CoResponded | CoSucceeded | CoFailed | CoInterrupted

record collab_update =
  cu_agent_id :: string
  cu_name :: "string option"
  cu_status :: "collab_status option"
  cu_detail :: "string option"
  cu_occurred_at_ms :: nat
  cu_create_if_missing :: bool
  cu_restart :: bool

record collab_entry =
  co_agent_id :: string
  co_name :: string
  co_status :: collab_status
  co_detail :: "string option"
  co_started_at_ms :: nat
  co_updated_at_ms :: nat

record collab_snapshot =
  cs_entries :: "collab_entry list"
  cs_dropped_entries :: nat
  cs_completed :: bool

record command_progress_snapshot =
  sn_turn_id :: string
  sn_revision :: nat
  sn_message_id :: "string option"
  sn_entries :: "command_progress_entry list"
  sn_dropped_entries :: nat
  sn_retry_count :: nat
  sn_retry_error :: "string option"
  sn_reasoning_summary :: "string option"
  sn_plan_explanation :: "string option"
  sn_plan :: "plan_step list"
  sn_diff_summary :: "diff_summary option"
  sn_web_searches :: "web_search_entry list"
  sn_dropped_web_searches :: nat
  sn_commentary :: "commentary_entry list"
  sn_commentary_dropped_entries :: nat
  sn_collab :: "collab_snapshot option"
  sn_final_reply :: "string option"
  sn_elapsed_ms :: "nat option"
  sn_completed :: bool
  sn_failed :: bool

record command_progress_state =
  pg_turn_id :: string
  pg_revision :: nat
  pg_message_id :: "string option"
  pg_entries :: "command_progress_entry list"
  pg_dropped_entries :: nat
  pg_retry_count :: nat
  pg_retry_error :: "string option"
  pg_reasoning_item_id :: "string option"
  pg_reasoning_summary_index :: "int option"
  pg_reasoning_summary :: string
  pg_reasoning_completed :: bool
  pg_plan_explanation :: "string option"
  pg_plan :: "plan_step list"
  pg_diff_summary :: "diff_summary option"
  pg_web_searches :: "web_search_entry list"
  pg_dropped_web_searches :: nat
  pg_commentary_entries :: "commentary_entry list"
  pg_commentary_dropped_entries :: nat
  pg_next_sequence :: nat
  pg_reserved_commentary_sequences :: "(string, nat) hmap"
  pg_collab_entries :: "collab_entry list"
  pg_collab_dropped_entries :: nat
  pg_final_reply :: "string option"
  pg_elapsed_ms :: "nat option"
  pg_completed :: bool
  pg_failed :: bool
  pg_dirty :: bool
  pg_sending :: bool
  pg_in_flight_revision :: "nat option"
  pg_cleanup_after_delivery :: bool

datatype typing_send_action = Continue | Stop

record wecom_stream_state =
  we_req_id :: string
  we_stream_id :: string
  we_content :: string
  we_sent_content :: string
  we_finished :: bool
  we_sending :: bool
  we_dirty :: bool
  we_delivered :: bool
  we_cleanup_after_delivery :: bool
  we_revision :: nat

record feishu_streaming_card_state =
  fc_account_id :: string
  fc_chat_id :: string
  fc_receive_id_type :: string
  fc_receive_id :: string
  fc_kind :: string
  fc_message_id :: "string option"
  fc_card_id :: "string option"
  fc_sequence :: nat
  fc_text :: string
  fc_sent_text :: string
  fc_completed :: bool
  fc_sending :: bool
  fc_dirty :: bool
  fc_last_sent_at :: "nat option"

record runtime_state =
  bridge_generation :: nat
  current_turn_by_thread :: "(string, string) hmap"
  starting_turn_by_thread :: "string set"
  turn_started_at_by_thread :: "(string, nat) hmap"
  turn_finished_at_by_thread :: "(string, nat) hmap"
  turn_origin_by_id :: "(string, turn_origin) hmap"
  terminal_notice_failed_by_turn :: "(string, bool) hmap"
  terminal_notice_turn_order :: "string list"
  terminal_status_fallback_by_thread :: "(string, terminal_status_fallback) hmap"
  next_terminal_status_fallback_token :: nat
  last_sent_text_by_route :: "(string, string) hmap"
  turn_last_agent_message :: "(string, string \<times> string \<times> bool) hmap"
  route_by_thread :: "(string, route_target) hmap"
  last_route :: "route_target option"
  pending_approvals_by_conversation :: "(string, pending_approval list) hmap"
  pending_approval_request_keys :: "string set"
  feishu_streaming_cards_by_item :: "(string, feishu_streaming_card_state) hmap"
  telegram_typing_by_item :: "(string, telegram_typing_state) hmap"
  telegram_typing_suspended_threads :: "string set"
  telegram_completed_typing_keys :: "string set"
  telegram_completed_typing_order :: "string list"
  telegram_command_progress_by_thread :: "(string, command_progress_state) hmap"
  next_telegram_typing_generation :: int
  wecom_streams_by_thread :: "(string, wecom_stream_state) hmap"
  thread_routing_requests :: "(string, thread_routing_request_state) hmap"
  telegram_model_switch_requests :: "(string, model_switch_request) hmap"
  telegram_model_switch_request_by_conversation :: "(string, string) hmap"
  thread_settings_by_thread :: "(string, thread_settings_snapshot) hmap"
  pending_attachments_by_conversation :: "(string, pending_attachments) hmap"
  pending_telegram_turns_by_conversation :: "(string, pending_telegram_turn list) hmap"
  notify_next :: nat
  notify_log :: "nat list"

text \<open>\<open>RuntimeState::default()\<close>.\<close>

definition runtime_default :: runtime_state where
  "runtime_default =
     \<lparr> bridge_generation = 0, current_turn_by_thread = [], starting_turn_by_thread = {},
       turn_started_at_by_thread = [], turn_finished_at_by_thread = [], turn_origin_by_id = [],
       terminal_notice_failed_by_turn = [], terminal_notice_turn_order = [],
       terminal_status_fallback_by_thread = [], next_terminal_status_fallback_token = 0,
       last_sent_text_by_route = [], turn_last_agent_message = [], route_by_thread = [],
       last_route = None, pending_approvals_by_conversation = [],
       pending_approval_request_keys = {}, feishu_streaming_cards_by_item = [],
       telegram_typing_by_item = [], telegram_typing_suspended_threads = {},
       telegram_completed_typing_keys = {}, telegram_completed_typing_order = [],
       telegram_command_progress_by_thread = [], next_telegram_typing_generation = 0,
       wecom_streams_by_thread = [], thread_routing_requests = [],
       telegram_model_switch_requests = [], telegram_model_switch_request_by_conversation = [],
       thread_settings_by_thread = [], pending_attachments_by_conversation = [],
       pending_telegram_turns_by_conversation = [], notify_next = 0, notify_log = [] \<rparr>"

lemma runtime_default_simps [simp]:
  "bridge_generation runtime_default = 0"
  "current_turn_by_thread runtime_default = []"
  "starting_turn_by_thread runtime_default = {}"
  "turn_started_at_by_thread runtime_default = []"
  "turn_finished_at_by_thread runtime_default = []"
  "turn_origin_by_id runtime_default = []"
  "terminal_notice_failed_by_turn runtime_default = []"
  "terminal_notice_turn_order runtime_default = []"
  "terminal_status_fallback_by_thread runtime_default = []"
  "next_terminal_status_fallback_token runtime_default = 0"
  "last_sent_text_by_route runtime_default = []"
  "turn_last_agent_message runtime_default = []"
  "route_by_thread runtime_default = []"
  "last_route runtime_default = None"
  "pending_approvals_by_conversation runtime_default = []"
  "pending_approval_request_keys runtime_default = {}"
  "feishu_streaming_cards_by_item runtime_default = []"
  "telegram_typing_by_item runtime_default = []"
  "telegram_typing_suspended_threads runtime_default = {}"
  "telegram_completed_typing_keys runtime_default = {}"
  "telegram_completed_typing_order runtime_default = []"
  "telegram_command_progress_by_thread runtime_default = []"
  "next_telegram_typing_generation runtime_default = 0"
  "wecom_streams_by_thread runtime_default = []"
  "thread_routing_requests runtime_default = []"
  "telegram_model_switch_requests runtime_default = []"
  "telegram_model_switch_request_by_conversation runtime_default = []"
  "thread_settings_by_thread runtime_default = []"
  "pending_attachments_by_conversation runtime_default = []"
  "pending_telegram_turns_by_conversation runtime_default = []"
  "notify_next runtime_default = 0"
  "notify_log runtime_default = []"
  by (simp_all only: runtime_default_def runtime_state.select_convs)

end
