(* ===== verification/History.thy ===== *)
theory History
  imports Prelude
begin

section \<open>Bounded histories\<close>

text \<open>
  Two parts of the runtime remember recently seen keys in a set (or map) beside a deque and, once
  the deque is longer than a bound, forget the oldest: the completed typing indicators and the
  turns a terminal notice was sent for. \<open>evict_oldest\<close> is their loop. The locale states the
  interface both give their callers, and proves once that the history stays coherent and that a
  key is not forgotten before \<open>cap\<close> newer keys have been remembered.
\<close>

fun evict_oldest :: "nat \<Rightarrow> ('k \<Rightarrow> 's \<Rightarrow> 's) \<Rightarrow> 'k list \<Rightarrow> 's \<Rightarrow> 'k list \<times> 's" where
  "evict_oldest cap forget [] s = ([], s)"
| "evict_oldest cap forget (x # xs) s =
     (if cap < length (x # xs) then evict_oldest cap forget xs (forget x s) else (x # xs, s))"

lemma evict_oldest_order: "fst (evict_oldest cap forget xs s) = keep_last cap xs"
  by (induction xs arbitrary: s) (auto simp: keep_last_def Suc_diff_le)

lemma evict_oldest_none: "length xs \<le> cap \<Longrightarrow> evict_oldest cap forget xs s = (xs, s)"
  by (cases xs) auto

lemma evict_oldest_one:
  "length xs = Suc cap \<Longrightarrow> evict_oldest cap forget xs s = (tl xs, forget (hd xs) s)"
  by (cases xs) (auto simp: evict_oldest_none)

locale bounded_history =
  fixes cap :: nat
    and members :: "'s \<Rightarrow> 'k set"
    and order :: "'s \<Rightarrow> 'k list"
    and remember :: "'k \<Rightarrow> 's \<Rightarrow> 's"
  assumes cap_pos: "0 < cap"
    and known_members: "k \<in> members s \<Longrightarrow> members (remember k s) = members s"
    and known_order: "k \<in> members s \<Longrightarrow> order (remember k s) = order s"
    and new_order: "k \<notin> members s \<Longrightarrow> length (order s) \<le> cap \<Longrightarrow>
      order (remember k s) = keep_last cap (order s @ [k])"
    and new_members: "k \<notin> members s \<Longrightarrow> length (order s) \<le> cap \<Longrightarrow> distinct (order s) \<Longrightarrow>
      set (order s) = members s \<Longrightarrow>
      members (remember k s) = set (keep_last cap (order s @ [k]))"
begin

definition coherent :: "'s \<Rightarrow> bool" where
  "coherent s \<longleftrightarrow> distinct (order s) \<and> set (order s) = members s \<and> length (order s) \<le> cap"

lemma coherent_remember:
  assumes "coherent s"
  shows "coherent (remember k s)"
proof (cases "k \<in> members s")
  case True
  then show ?thesis using assms by (simp add: coherent_def known_members known_order)
next
  case False
  have "order (remember k s) = keep_last cap (order s @ [k])"
    and "members (remember k s) = set (keep_last cap (order s @ [k]))"
    using False assms new_order[of k s] new_members[of k s] by (simp_all add: coherent_def)
  then show ?thesis
    using False assms by (auto simp: coherent_def intro: distinct_keep_last)
qed

lemma member_remember:
  assumes "coherent s"
  shows "k \<in> members (remember k s)"
proof (cases "k \<in> members s")
  case True
  then show ?thesis by (simp add: known_members)
next
  case False
  then have "members (remember k s) = set (keep_last cap (order s @ [k]))"
    using assms new_members[of k s] by (simp add: coherent_def)
  moreover have "k \<in> set (keep_last cap (order s @ [k]))"
    using last_keep_last[OF cap_pos, of "order s @ [k]"] last_in_set[of "keep_last cap (order s @ [k])"]
      cap_pos by (auto simp flip: length_0_conv)
  ultimately show ?thesis by simp
qed

text \<open>How deep a key sits in the deque, counted from the newest end.\<close>

definition younger :: "'k \<Rightarrow> 's \<Rightarrow> nat" where
  "younger k s = length (takeWhile (\<lambda>x. x \<noteq> k) (rev (order s)))"

lemma younger_remember:
  assumes "coherent s" and "k \<in> members s" and "Suc (younger k s) < cap"
  shows "k \<in> members (remember x s) \<and> younger k (remember x s) \<le> Suc (younger k s)"
proof (cases "x \<in> members s")
  case True
  then show ?thesis using assms by (simp add: known_members known_order younger_def)
next
  case False
  have ord: "order (remember x s) = keep_last cap (order s @ [x])"
    and mem: "members (remember x s) = set (keep_last cap (order s @ [x]))"
    using False assms new_order[of x s] new_members[of x s] by (simp_all add: coherent_def)
  have len: "length (order s) \<le> cap" and kin: "k \<in> set (order s)"
    using assms by (auto simp: coherent_def)
  obtain as bs where split: "order s = as @ k # bs" and nb: "k \<notin> set bs"
    using split_list_last[OF kin] by blast
  have young: "younger k s = length bs"
    using nb by (auto simp: younger_def split takeWhile_append)
  have "length (order s @ [x]) - cap \<le> length as"
    using len young assms(3) by (auto simp: split)
  then have keep: "\<exists>as'. keep_last cap (order s @ [x]) = as' @ k # bs @ [x]"
    by (auto simp: keep_last_def split)
  have xk: "x \<noteq> k" using False assms(2) by blast
  from keep obtain as' where as': "keep_last cap (order s @ [x]) = as' @ k # bs @ [x]" by blast
  have "younger k (remember x s) = Suc (length bs)"
    using nb xk by (auto simp: younger_def ord as' takeWhile_append)
  then show ?thesis using mem as' young by auto
qed

lemma kept_while_recent:
  assumes "coherent s" and "k \<in> members s" and "younger k s + length ks < cap"
  shows "k \<in> members (fold remember ks s)"
  using assms
proof (induction ks arbitrary: s)
  case Nil
  then show ?case by simp
next
  case (Cons x ks)
  then have "k \<in> members (remember x s)" "younger k (remember x s) \<le> Suc (younger k s)"
    using younger_remember[of s k x] by auto
  moreover have "coherent (remember x s)" by (rule coherent_remember[OF Cons.prems(1)])
  ultimately show ?case using Cons.IH[of "remember x s"] Cons.prems(3) by simp
qed

lemma younger_new:
  assumes "coherent s" and "k \<notin> members s"
  shows "younger k (remember k s) = 0"
proof -
  have ord: "order (remember k s) = keep_last cap (order s @ [k])"
    using assms new_order[of k s] by (simp add: coherent_def)
  have ne: "keep_last cap (order s @ [k]) \<noteq> []"
    using cap_pos by (simp flip: length_0_conv)
  have "hd (rev (keep_last cap (order s @ [k]))) = k"
    using last_keep_last[OF cap_pos, of "order s @ [k]"] ne by (simp add: hd_rev)
  then show ?thesis using ne unfolding younger_def ord
    by (metis (mono_tags) list.collapse list.size(3) rev_is_Nil_conv takeWhile.simps(2))
qed

lemma remembered_recently:
  assumes "coherent s" and "k \<notin> members s" and "length ks < cap"
  shows "k \<in> members (fold remember ks (remember k s))"
  using kept_while_recent[OF coherent_remember[OF assms(1)] member_remember[OF assms(1)]]
    younger_new[OF assms(1,2)] assms(3) by simp

end

end
