(* ===== verification/RuntimeTyping.thy ===== *)
theory RuntimeTyping
  imports RuntimeTypes History "HOL-Library.Char_ord" "HOL-Library.List_Lexorder"
begin

section \<open>Telegram typing indicators (src/src/im/runtime.rs)\<close>

text \<open>
  One typing indicator per Codex thread, driven by an asynchronous sender that holds a
  generation number. The operations below are the methods of \<open>RuntimeState\<close> on
  \<open>telegram_typing_by_item\<close>; the invariant \<open>typing_inv\<close> says that a thread has at most one
  indicator, that its generation was handed out, and that the history of completed indicators
  is coherent. The history is an interpretation of \<open>bounded_history\<close>.
\<close>

definition unit_separator :: char where "unit_separator = char_of (31 :: nat)"

definition typing_thread_prefix :: "string \<Rightarrow> string" where
  "typing_thread_prefix thread_id = thread_id @ [unit_separator]"

definition typing_key :: "string \<Rightarrow> string \<Rightarrow> string" where
  "typing_key thread_id item_id = typing_thread_prefix thread_id @ item_id"

definition notify_one :: "nat \<Rightarrow> runtime_state \<Rightarrow> runtime_state" where
  "notify_one h rs = rs\<lparr>notify_log := notify_log rs @ [h]\<rparr>"

definition put_typing :: "string \<Rightarrow> telegram_typing_state \<Rightarrow> runtime_state \<Rightarrow> runtime_state" where
  "put_typing key ty rs = rs\<lparr>telegram_typing_by_item := hinsert key ty (telegram_typing_by_item rs)\<rparr>"

definition bump_typing :: "telegram_typing_state \<Rightarrow> telegram_typing_state" where
  "bump_typing ty = ty\<lparr>ty_revision := sat_add (ty_revision ty) 1\<rparr>"

definition remember_completed_typing :: "string \<Rightarrow> runtime_state \<Rightarrow> runtime_state" where
  "remember_completed_typing key rs =
     (if key \<in> telegram_completed_typing_keys rs then rs
      else
        (let (order, keys) =
           evict_oldest TELEGRAM_COMPLETED_TYPING_HISTORY_MAX (\<lambda>oldest ks. ks - {oldest})
             (telegram_completed_typing_order rs @ [key])
             (insert key (telegram_completed_typing_keys rs))
         in rs\<lparr>telegram_completed_typing_order := order, telegram_completed_typing_keys := keys\<rparr>))"

definition remove_typing :: "string \<Rightarrow> runtime_state \<Rightarrow> runtime_state" where
  "remove_typing key rs =
     (case hget (telegram_typing_by_item rs) key of
        None \<Rightarrow> rs
      | Some ty \<Rightarrow>
          notify_one (ty_completed ty) (notify_one (ty_wake_driver ty)
            (rs\<lparr>telegram_typing_by_item := hremove key (telegram_typing_by_item rs)\<rparr>)))"

text \<open>The block of \<open>start_telegram_typing\<close> that registers a missing indicator.\<close>

definition register_typing :: "string \<Rightarrow> runtime_state \<Rightarrow> runtime_state" where
  "register_typing key rs =
     (if hcontains (telegram_typing_by_item rs) key then rs
      else
        (let g = min (next_telegram_typing_generation rs + 1) i64_max;
             g = (if g \<le> 0 then 1 else g);
             h = notify_next rs
         in put_typing key
              \<lparr> ty_generation = g, ty_sending = False, ty_dirty = False,
                ty_finished = False, ty_revision = 0, ty_last_attempt_at_ms = 0,
                ty_wake_driver = h, ty_completed = h + 1 \<rparr>
              (rs\<lparr>next_telegram_typing_generation := g, notify_next := h + 2\<rparr>)))"

definition start_telegram_typing :: "string \<Rightarrow> string \<Rightarrow> runtime_state \<Rightarrow> int option \<times> runtime_state" where
  "start_telegram_typing thread_id item_id rs =
     (let key = typing_key thread_id item_id;
          thread_prefix = typing_thread_prefix thread_id
      in if thread_id \<in> telegram_typing_suspended_threads rs
            \<or> key \<in> telegram_completed_typing_keys rs then (None, rs)
         else if \<not> hcontains (telegram_typing_by_item rs) key
            \<and> list_ex (starts_with thread_prefix) (map fst (telegram_typing_by_item rs)) then (None, rs)
         else
           (let rs = register_typing key rs
            in case hget (telegram_typing_by_item rs) key of
                 None \<Rightarrow> (None, rs)
               | Some ty \<Rightarrow>
                   if ty_sending ty then (None, rs)
                   else (Some (ty_generation ty),
                         put_typing key (bump_typing (ty\<lparr>ty_sending := True, ty_dirty := True\<rparr>)) rs)))"

text \<open>The loop of \<open>stop_telegram_typing_for_thread\<close> over the sorted item ids.\<close>

fun stop_typing_items ::
  "string \<Rightarrow> bool \<Rightarrow> string list \<Rightarrow> runtime_state \<Rightarrow> (string \<times> int \<times> bool) list \<times> runtime_state" where
  "stop_typing_items thread_id terminal [] rs = ([], rs)"
| "stop_typing_items thread_id terminal (item_id # item_ids) rs =
     (let key = typing_key thread_id item_id;
          rs = (if terminal then remember_completed_typing key rs else rs)
      in case hget (telegram_typing_by_item rs) key of
           None \<Rightarrow> stop_typing_items thread_id terminal item_ids rs
         | Some ty \<Rightarrow>
             (let ty' = (bump_typing (ty\<lparr>ty_dirty := True, ty_finished := True\<rparr>))\<lparr>ty_sending := True\<rparr>;
                  rs = notify_one (ty_wake_driver ty) (put_typing key ty' rs);
                  (finishing, rs) = stop_typing_items thread_id terminal item_ids rs
              in ((item_id, ty_generation ty, \<not> ty_sending ty) # finishing, rs)))"

definition stop_telegram_typing_for_thread ::
  "string \<Rightarrow> bool \<Rightarrow> string option \<Rightarrow> runtime_state \<Rightarrow> (string \<times> int \<times> bool) list \<times> runtime_state" where
  "stop_telegram_typing_for_thread thread_id terminal terminal_turn_id rs =
     (let terminal_turn_id =
        (if terminal then opt_or terminal_turn_id (hget (current_turn_by_thread rs) thread_id) else None);
          rs = (case terminal_turn_id of
                  None \<Rightarrow> rs
                | Some turn_id \<Rightarrow>
                    remember_completed_typing (typing_key thread_id (''turn:'' @ turn_id)) rs);
          item_ids = sort (List.map_filter (strip_prefix (typing_thread_prefix thread_id))
                       (map fst (telegram_typing_by_item rs)))
      in stop_typing_items thread_id terminal item_ids rs)"

definition finish_telegram_typing_for_thread ::
  "string \<Rightarrow> runtime_state \<Rightarrow> (string \<times> int \<times> bool) list \<times> runtime_state" where
  "finish_telegram_typing_for_thread thread_id rs = stop_telegram_typing_for_thread thread_id True None rs"

definition suspend_telegram_typing ::
  "string \<Rightarrow> bool \<Rightarrow> string option \<Rightarrow> runtime_state \<Rightarrow> (string \<times> int \<times> bool) list \<times> runtime_state" where
  "suspend_telegram_typing thread_id terminal turn_id rs =
     stop_telegram_typing_for_thread thread_id terminal turn_id
       (rs\<lparr>telegram_typing_suspended_threads := insert thread_id (telegram_typing_suspended_threads rs)\<rparr>)"

definition resume_telegram_typing :: "string \<Rightarrow> runtime_state \<Rightarrow> runtime_state" where
  "resume_telegram_typing thread_id rs =
     rs\<lparr>telegram_typing_suspended_threads := telegram_typing_suspended_threads rs - {thread_id}\<rparr>"

definition take_telegram_typing_snapshot ::
  "string \<Rightarrow> string \<Rightarrow> int \<Rightarrow> nat \<Rightarrow> runtime_state \<Rightarrow> (bool \<times> nat) option \<times> runtime_state" where
  "take_telegram_typing_snapshot thread_id item_id generation attempted_at_ms rs =
     (let key = typing_key thread_id item_id in
      case hget (telegram_typing_by_item rs) key of
        None \<Rightarrow> (None, rs)
      | Some ty \<Rightarrow>
          if ty_generation ty \<noteq> generation then (None, rs)
          else if \<not> ty_sending ty \<or> \<not> ty_dirty ty then (None, put_typing key (ty\<lparr>ty_sending := False\<rparr>) rs)
          else (Some (ty_finished ty, ty_revision ty),
                put_typing key (ty\<lparr>ty_dirty := False, ty_last_attempt_at_ms := max attempted_at_ms 1\<rparr>) rs))"

definition telegram_typing_send_delay_ms ::
  "string \<Rightarrow> string \<Rightarrow> int \<Rightarrow> nat \<Rightarrow> nat \<Rightarrow> runtime_state \<Rightarrow> nat option" where
  "telegram_typing_send_delay_ms thread_id item_id generation now_ms throttle_ms rs =
     (case hget (telegram_typing_by_item rs) (typing_key thread_id item_id) of
        None \<Rightarrow> None
      | Some ty \<Rightarrow>
          if ty_generation ty \<noteq> generation \<or> \<not> ty_sending ty \<or> \<not> ty_dirty ty then None
          else if ty_finished ty then Some 0
          else if ty_last_attempt_at_ms ty = 0 then Some 0
          else Some (min (throttle_ms - (now_ms - ty_last_attempt_at_ms ty)) u64_max))"

definition telegram_typing_wait_for_update ::
  "string \<Rightarrow> string \<Rightarrow> int \<Rightarrow> nat \<Rightarrow> nat \<Rightarrow> runtime_state \<Rightarrow> (nat \<times> nat) option" where
  "telegram_typing_wait_for_update thread_id item_id generation now_ms heartbeat_ms rs =
     (case hget (telegram_typing_by_item rs) (typing_key thread_id item_id) of
        None \<Rightarrow> None
      | Some ty \<Rightarrow>
          if ty_generation ty \<noteq> generation \<or> \<not> ty_sending ty \<or> ty_dirty ty \<or> ty_finished ty then None
          else
            (let delay_ms = min (if ty_last_attempt_at_ms ty = 0 then heartbeat_ms
                                 else heartbeat_ms - (now_ms - ty_last_attempt_at_ms ty)) u64_max
             in Some (ty_wake_driver ty, delay_ms)))"

definition telegram_typing_wake_driver ::
  "string \<Rightarrow> string \<Rightarrow> int \<Rightarrow> runtime_state \<Rightarrow> nat option" where
  "telegram_typing_wake_driver thread_id item_id generation rs =
     (case hget (telegram_typing_by_item rs) (typing_key thread_id item_id) of
        None \<Rightarrow> None
      | Some ty \<Rightarrow>
          if ty_generation ty = generation \<and> ty_sending ty then Some (ty_wake_driver ty) else None)"

definition telegram_typing_is_active :: "string \<Rightarrow> string \<Rightarrow> int \<Rightarrow> runtime_state \<Rightarrow> bool" where
  "telegram_typing_is_active thread_id item_id generation rs =
     (case hget (telegram_typing_by_item rs) (typing_key thread_id item_id) of
        None \<Rightarrow> False
      | Some ty \<Rightarrow> ty_generation ty = generation)"

definition cancel_telegram_typing_generation ::
  "string \<Rightarrow> string \<Rightarrow> int \<Rightarrow> runtime_state \<Rightarrow> bool \<times> runtime_state" where
  "cancel_telegram_typing_generation thread_id item_id generation rs =
     (let key = typing_key thread_id item_id in
      if \<not> telegram_typing_is_active thread_id item_id generation rs then (False, rs)
      else (True, remove_typing key (remember_completed_typing key rs)))"

definition mark_telegram_typing_renewal_due ::
  "string \<Rightarrow> string \<Rightarrow> int \<Rightarrow> runtime_state \<Rightarrow> bool \<times> runtime_state" where
  "mark_telegram_typing_renewal_due thread_id item_id generation rs =
     (let key = typing_key thread_id item_id in
      case hget (telegram_typing_by_item rs) key of
        None \<Rightarrow> (False, rs)
      | Some ty \<Rightarrow>
          if ty_generation ty \<noteq> generation \<or> \<not> ty_sending ty then (False, rs)
          else if ty_finished ty then (True, rs)
          else (True, if ty_dirty ty then rs
                      else put_typing key (bump_typing (ty\<lparr>ty_dirty := True\<rparr>)) rs))"

text \<open>The loop body of \<open>wake_telegram_typing_for_thread\<close>: an unfinished indicator of the thread
  becomes dirty. The drivers are notified in iteration order.\<close>

definition woken :: "string \<Rightarrow> string \<times> telegram_typing_state \<Rightarrow> bool" where
  "woken prefix p = (starts_with prefix (fst p) \<and> \<not> ty_finished (snd p))"

definition wake_entry ::
  "string \<Rightarrow> string \<times> telegram_typing_state \<Rightarrow> string \<times> telegram_typing_state" where
  "wake_entry prefix p =
     (if woken prefix p \<and> \<not> ty_dirty (snd p)
      then (fst p, bump_typing ((snd p)\<lparr>ty_dirty := True\<rparr>)) else p)"

definition wake_telegram_typing_for_thread :: "string \<Rightarrow> runtime_state \<Rightarrow> nat \<times> runtime_state" where
  "wake_telegram_typing_for_thread thread_id rs =
     (let prefix = typing_thread_prefix thread_id;
          items = telegram_typing_by_item rs;
          drivers = map (\<lambda>p. ty_wake_driver (snd p)) (filter (woken prefix) items)
      in (length drivers,
          rs\<lparr>telegram_typing_by_item := map (wake_entry prefix) items,
             notify_log := notify_log rs @ drivers\<rparr>))"

definition complete_telegram_typing_send ::
  "string \<Rightarrow> string \<Rightarrow> int \<Rightarrow> nat \<Rightarrow> bool \<Rightarrow> runtime_state \<Rightarrow> typing_send_action \<times> runtime_state" where
  "complete_telegram_typing_send thread_id item_id generation revision succeeded rs =
     (let key = typing_key thread_id item_id;
          removed = (\<lambda>ty. notify_one (ty_completed ty)
            (rs\<lparr>telegram_typing_by_item := hremove key (telegram_typing_by_item rs)\<rparr>))
      in case hget (telegram_typing_by_item rs) key of
           None \<Rightarrow> (Stop, rs)
         | Some ty \<Rightarrow>
             if ty_generation ty \<noteq> generation then (Stop, rs)
             else if \<not> succeeded then
               (Stop, if ty_finished ty then removed ty
                      else put_typing key (ty\<lparr>ty_sending := False, ty_dirty := True\<rparr>) rs)
             else if ty_dirty ty \<or> ty_revision ty \<noteq> revision then (Continue, rs)
             else if ty_finished ty then (Stop, removed ty)
             else (Continue, rs))"

definition forget_typing :: "string \<Rightarrow> runtime_state \<Rightarrow> runtime_state" where
  "forget_typing key rs = remove_typing key (remember_completed_typing key rs)"

definition clear_telegram_typing_for_thread :: "string \<Rightarrow> runtime_state \<Rightarrow> runtime_state" where
  "clear_telegram_typing_for_thread thread_id rs =
     fold forget_typing
       (filter (starts_with (typing_thread_prefix thread_id)) (map fst (telegram_typing_by_item rs))) rs"

definition clear_all_telegram_typing :: "runtime_state \<Rightarrow> runtime_state" where
  "clear_all_telegram_typing rs =
     fold forget_typing (map fst (telegram_typing_by_item rs))
       (rs\<lparr>telegram_typing_suspended_threads := {}\<rparr>)"

subsection \<open>Key syntax\<close>

text \<open>The thread a typing key belongs to is what precedes the first unit separator.\<close>

definition typing_owner :: "string \<Rightarrow> string" where
  "typing_owner key = takeWhile (\<lambda>c. c \<noteq> unit_separator) key"

lemma typing_owner_key [simp]: "unit_separator \<notin> set t \<Longrightarrow> typing_owner (typing_key t i) = t"
  by (auto simp: typing_owner_def typing_key_def typing_thread_prefix_def takeWhile_append)

lemma separator_in_typing_key [simp]: "unit_separator \<in> set (typing_key t i)"
  by (simp add: typing_key_def typing_thread_prefix_def)

lemma starts_with_typing_prefix:
  "unit_separator \<notin> set t \<Longrightarrow>
   starts_with (typing_thread_prefix t) k \<longleftrightarrow> typing_owner k = t \<and> unit_separator \<in> set k"
proof
  assume t: "unit_separator \<notin> set t" and "starts_with (typing_thread_prefix t) k"
  then obtain r where "k = typing_key t r"
    by (auto simp: starts_with_iff typing_key_def)
  then show "typing_owner k = t \<and> unit_separator \<in> set k" using t by simp
next
  assume k: "typing_owner k = t \<and> unit_separator \<in> set k"
  then obtain ys r where kr: "k = ys @ unit_separator # r" and "unit_separator \<notin> set ys"
    by (meson split_list_first)
  then have "ys = t" using k by (auto simp: typing_owner_def takeWhile_append)
  with kr show "starts_with (typing_thread_prefix t) k"
    by (simp add: starts_with_iff typing_thread_prefix_def)
qed

lemma typing_key_inj [simp]: "typing_key t i = typing_key t j \<longleftrightarrow> i = j"
  by (simp add: typing_key_def)

subsection \<open>The history of completed indicators\<close>

interpretation typing_history: bounded_history TELEGRAM_COMPLETED_TYPING_HISTORY_MAX
  telegram_completed_typing_keys telegram_completed_typing_order remember_completed_typing
proof unfold_locales
  show "0 < TELEGRAM_COMPLETED_TYPING_HISTORY_MAX"
    by (simp add: TELEGRAM_COMPLETED_TYPING_HISTORY_MAX_def)
next
  fix k and s :: runtime_state assume "k \<in> telegram_completed_typing_keys s"
  then show "telegram_completed_typing_keys (remember_completed_typing k s)
      = telegram_completed_typing_keys s"
    and "telegram_completed_typing_order (remember_completed_typing k s)
      = telegram_completed_typing_order s"
    by (simp_all add: remember_completed_typing_def)
next
  fix k and s :: runtime_state assume "k \<notin> telegram_completed_typing_keys s"
  then show "telegram_completed_typing_order (remember_completed_typing k s) =
      keep_last TELEGRAM_COMPLETED_TYPING_HISTORY_MAX (telegram_completed_typing_order s @ [k])"
    by (simp add: remember_completed_typing_def evict_oldest_order split_def Let_def)
next
  fix k and s :: runtime_state
  assume fresh: "k \<notin> telegram_completed_typing_keys s"
    and len: "length (telegram_completed_typing_order s) \<le> TELEGRAM_COMPLETED_TYPING_HISTORY_MAX"
    and dist: "distinct (telegram_completed_typing_order s)"
    and set: "set (telegram_completed_typing_order s) = telegram_completed_typing_keys s"
  let ?o = "telegram_completed_typing_order s"
  show "telegram_completed_typing_keys (remember_completed_typing k s) =
      set (keep_last TELEGRAM_COMPLETED_TYPING_HISTORY_MAX (?o @ [k]))"
  proof (cases "length ?o = TELEGRAM_COMPLETED_TYPING_HISTORY_MAX")
    case True
    then obtain x xs where o: "?o = x # xs"
      by (cases ?o) (auto simp: TELEGRAM_COMPLETED_TYPING_HISTORY_MAX_def)
    have "insert k (telegram_completed_typing_keys s) - {x} = insert k (set xs)"
      using fresh dist set o by auto
    then show ?thesis using fresh True o
      by (simp add: remember_completed_typing_def evict_oldest_none keep_last_def)
  next
    case False
    then show ?thesis using fresh len set
      by (simp add: remember_completed_typing_def evict_oldest_none)
  qed
qed

lemma remember_completed_typing_frame [simp]:
  "telegram_typing_by_item (remember_completed_typing key rs) = telegram_typing_by_item rs"
  "next_telegram_typing_generation (remember_completed_typing key rs) = next_telegram_typing_generation rs"
  "notify_next (remember_completed_typing key rs) = notify_next rs"
  "notify_log (remember_completed_typing key rs) = notify_log rs"
  "telegram_typing_suspended_threads (remember_completed_typing key rs) = telegram_typing_suspended_threads rs"
  by (simp_all add: remember_completed_typing_def split_def Let_def)

lemma typing_history_frame:
  "telegram_completed_typing_keys rs' = telegram_completed_typing_keys rs \<Longrightarrow>
   telegram_completed_typing_order rs' = telegram_completed_typing_order rs \<Longrightarrow>
   typing_history.coherent rs \<Longrightarrow> typing_history.coherent rs'"
  by (simp add: typing_history.coherent_def)

subsection \<open>The invariant\<close>

definition typing_item_ok :: "int \<Rightarrow> string \<times> telegram_typing_state \<Rightarrow> bool" where
  "typing_item_ok g p \<longleftrightarrow>
     unit_separator \<in> set (fst p) \<and> 1 \<le> ty_generation (snd p) \<and> ty_generation (snd p) \<le> g"

definition typing_items_ok :: "(string, telegram_typing_state) hmap \<Rightarrow> int \<Rightarrow> bool" where
  "typing_items_ok items g \<longleftrightarrow>
     hwf items \<and> inj_on typing_owner (fst ` set items) \<and> (\<forall>p \<in> set items. typing_item_ok g p)"

definition typing_inv :: "runtime_state \<Rightarrow> bool" where
  "typing_inv rs \<longleftrightarrow>
     typing_items_ok (telegram_typing_by_item rs) (next_telegram_typing_generation rs) \<and>
     0 \<le> next_telegram_typing_generation rs \<and> next_telegram_typing_generation rs \<le> i64_max \<and>
     typing_history.coherent rs"

lemma typing_items_ok_hinsert:
  assumes "typing_items_ok items g" and "inj_on typing_owner (insert k (fst ` set items))"
    and "typing_item_ok g' (k, ty)" and "g \<le> g'"
  shows "typing_items_ok (hinsert k ty items) g'"
proof -
  have "typing_item_ok g' p" if "p \<in> set (hinsert k ty items)" for p
  proof -
    from that set_hinsert_subset[of k ty items] have "p = (k, ty) \<or> p \<in> set items" by blast
    then show ?thesis using assms by (auto simp: typing_items_ok_def typing_item_ok_def)
  qed
  then show ?thesis using assms by (simp add: typing_items_ok_def)
qed

lemma typing_items_ok_put:
  assumes ok: "typing_items_ok items g" and k: "hget items k = Some ty"
    and "ty_generation ty' = ty_generation ty"
  shows "typing_items_ok (hinsert k ty' items) g"
proof (rule typing_items_ok_hinsert[OF ok _ _ order_refl])
  show "inj_on typing_owner (insert k (fst ` set items))"
    using ok hget_fst[OF k] by (simp add: typing_items_ok_def insert_absorb)
  have "typing_item_ok g (k, ty)" using ok hget_in_set[OF k] by (simp add: typing_items_ok_def)
  then show "typing_item_ok g (k, ty')" using assms(3) by (simp add: typing_item_ok_def)
qed

lemma typing_items_ok_remove:
  "typing_items_ok items g \<Longrightarrow> typing_items_ok (hremove k items) g"
  by (auto simp: typing_items_ok_def set_hremove intro: inj_on_subset)

lemma typing_items_ok_new:
  assumes ok: "typing_items_ok items g" and g: "g \<le> g'" "1 \<le> g'" and t: "unit_separator \<notin> set t"
    and none: "\<not> list_ex (starts_with (typing_thread_prefix t)) (map fst items)"
    and gen: "ty_generation ty = g'"
  shows "typing_items_ok (hinsert (typing_key t i) ty items) g'"
proof (rule typing_items_ok_hinsert[OF ok _ _ g(1)])
  have "typing_owner k \<noteq> t" if k: "k \<in> fst ` set items" for k
  proof -
    have "\<not> starts_with (typing_thread_prefix t) k" using none k by (auto simp: list_ex_iff)
    moreover have "unit_separator \<in> set k"
      using k ok by (auto simp: typing_items_ok_def typing_item_ok_def)
    ultimately show ?thesis using starts_with_typing_prefix[OF t] by blast
  qed
  then show "inj_on typing_owner (insert (typing_key t i) (fst ` set items))"
    using ok t by (auto simp: typing_items_ok_def)
  show "typing_item_ok g' (typing_key t i, ty)" using g gen by (simp add: typing_item_ok_def)
qed

lemma typing_inv_put:
  "typing_inv rs \<Longrightarrow> hget (telegram_typing_by_item rs) k = Some ty \<Longrightarrow>
   ty_generation ty' = ty_generation ty \<Longrightarrow> typing_inv (put_typing k ty' rs)"
  by (simp add: typing_inv_def put_typing_def typing_items_ok_put typing_history.coherent_def)

lemma typing_inv_notify [simp]: "typing_inv (notify_one h rs) = typing_inv rs"
  by (simp add: typing_inv_def notify_one_def typing_history.coherent_def)

lemma typing_inv_remember [simp]:
  "typing_inv rs \<Longrightarrow> typing_inv (remember_completed_typing k rs)"
  by (simp add: typing_inv_def typing_history.coherent_remember)

lemma typing_inv_hremove:
  "typing_inv rs \<Longrightarrow>
   typing_inv (rs\<lparr>telegram_typing_by_item := hremove k (telegram_typing_by_item rs)\<rparr>)"
  by (simp add: typing_inv_def typing_items_ok_remove typing_history.coherent_def)

lemma typing_inv_remove [simp]: "typing_inv rs \<Longrightarrow> typing_inv (remove_typing k rs)"
  by (simp add: remove_typing_def typing_inv_hremove split: option.split)

lemma typing_inv_suspended [simp]:
  "typing_inv (rs\<lparr>telegram_typing_suspended_threads := X\<rparr>) = typing_inv rs"
  by (simp add: typing_inv_def typing_history.coherent_def)

lemma typing_inv_forget: "typing_inv rs \<Longrightarrow> typing_inv (forget_typing k rs)"
  by (simp add: forget_typing_def)

lemma typing_inv_fold_forget: "typing_inv rs \<Longrightarrow> typing_inv (fold forget_typing ks rs)"
  by (induction ks arbitrary: rs) (auto simp: typing_inv_forget)

lemma typing_generation_bump [simp]: "ty_generation (bump_typing ty) = ty_generation ty"
  by (simp add: bump_typing_def)

lemmas typing_defs = put_typing_def notify_one_def bump_typing_def

lemma typing_inv_register:
  assumes inv: "typing_inv rs" and t: "unit_separator \<notin> set t"
    and none: "hcontains (telegram_typing_by_item rs) (typing_key t i)
      \<or> \<not> list_ex (starts_with (typing_thread_prefix t)) (map fst (telegram_typing_by_item rs))"
  shows "typing_inv (register_typing (typing_key t i) rs)"
proof (cases "hcontains (telegram_typing_by_item rs) (typing_key t i)")
  case True
  then show ?thesis using inv by (simp add: register_typing_def)
next
  case False
  let ?g = "min (next_telegram_typing_generation rs + 1) i64_max"
  have range: "0 \<le> next_telegram_typing_generation rs" "next_telegram_typing_generation rs \<le> i64_max"
    and ok: "typing_items_ok (telegram_typing_by_item rs) (next_telegram_typing_generation rs)"
    using inv by (simp_all add: typing_inv_def)
  then have g: "next_telegram_typing_generation rs \<le> ?g" "1 \<le> ?g" "?g \<le> i64_max" "\<not> ?g \<le> 0"
    by (auto simp: i64_max_def)
  have "typing_items_ok (hinsert (typing_key t i)
      \<lparr> ty_generation = ?g, ty_sending = False, ty_dirty = False, ty_finished = False,
        ty_revision = 0, ty_last_attempt_at_ms = 0, ty_wake_driver = notify_next rs,
        ty_completed = notify_next rs + 1 \<rparr> (telegram_typing_by_item rs)) ?g"
    using none False by (intro typing_items_ok_new[OF ok g(1,2) t]) auto
  then show ?thesis using False inv g
    by (simp add: register_typing_def Let_def put_typing_def typing_inv_def typing_history.coherent_def)
qed

lemma typing_inv_start:
  assumes "typing_inv rs" and "unit_separator \<notin> set thread_id"
  shows "typing_inv (snd (start_telegram_typing thread_id item_id rs))"
  using assms typing_inv_register[OF assms, of item_id]
  by (auto simp: start_telegram_typing_def Let_def intro!: typing_inv_put split: option.split)

lemma typing_inv_stop_items:
  "typing_inv rs \<Longrightarrow> typing_inv (snd (stop_typing_items t terminal ids rs))"
proof (induction ids arbitrary: rs)
  case Nil
  then show ?case by simp
next
  case (Cons i ids)
  let ?rs = "if terminal then remember_completed_typing (typing_key t i) rs else rs"
  have inv: "typing_inv ?rs" using Cons.prems by simp
  show ?case
  proof (cases "hget (telegram_typing_by_item ?rs) (typing_key t i)")
    case None
    then show ?thesis using Cons.IH[OF inv] by (simp add: Let_def)
  next
    case (Some ty)
    have "typing_inv (notify_one (ty_wake_driver ty) (put_typing (typing_key t i)
       ((bump_typing (ty\<lparr>ty_dirty := True, ty_finished := True\<rparr>))\<lparr>ty_sending := True\<rparr>) ?rs))"
      using typing_inv_put[OF inv Some] by simp
    from Cons.IH[OF this] Some show ?thesis by (simp add: Let_def split_def)
  qed
qed

lemma typing_inv_stop:
  "typing_inv rs \<Longrightarrow> typing_inv (snd (stop_telegram_typing_for_thread t terminal turn rs))"
  by (simp add: stop_telegram_typing_for_thread_def Let_def typing_inv_stop_items split: option.split)

lemma typing_inv_snapshot:
  "typing_inv rs \<Longrightarrow> typing_inv (snd (take_telegram_typing_snapshot t i g now rs))"
  by (auto simp: take_telegram_typing_snapshot_def Let_def intro: typing_inv_put split: option.split)

lemma typing_inv_cancel:
  "typing_inv rs \<Longrightarrow> typing_inv (snd (cancel_telegram_typing_generation t i g rs))"
  by (simp add: cancel_telegram_typing_generation_def Let_def)

lemma typing_inv_renewal:
  "typing_inv rs \<Longrightarrow> typing_inv (snd (mark_telegram_typing_renewal_due t i g rs))"
  by (auto simp: mark_telegram_typing_renewal_due_def Let_def intro: typing_inv_put split: option.split)

lemma typing_inv_complete:
  "typing_inv rs \<Longrightarrow> typing_inv (snd (complete_telegram_typing_send t i g sent ok rs))"
  by (auto simp: complete_telegram_typing_send_def Let_def typing_inv_hremove intro: typing_inv_put
      split: option.split)

lemma fst_wake_entry [simp]: "fst (wake_entry p e) = fst e"
  by (simp add: wake_entry_def)

lemma wake_entry_item_ok [simp]: "typing_item_ok g (wake_entry p e) = typing_item_ok g e"
  by (simp add: wake_entry_def typing_item_ok_def)

lemma typing_items_ok_wake:
  "typing_items_ok items g \<Longrightarrow> typing_items_ok (map (wake_entry p) items) g"
  by (simp add: typing_items_ok_def hwf_def image_image o_def)

lemma typing_inv_wake: "typing_inv rs \<Longrightarrow> typing_inv (snd (wake_telegram_typing_for_thread t rs))"
  by (simp add: wake_telegram_typing_for_thread_def Let_def typing_inv_def typing_items_ok_wake
      typing_history.coherent_def)

subsection \<open>The step relation and what it keeps\<close>

text \<open>One rule per method. A thread id is taken to hold no unit separator (Codex thread ids are
  UUIDs); item ids are arbitrary.\<close>

inductive typing_step :: "runtime_state \<Rightarrow> runtime_state \<Rightarrow> bool" where
  step_start: "unit_separator \<notin> set t \<Longrightarrow> typing_step rs (snd (start_telegram_typing t i rs))"
| step_finish: "typing_step rs (snd (finish_telegram_typing_for_thread t rs))"
| step_suspend: "typing_step rs (snd (suspend_telegram_typing t terminal turn rs))"
| step_resume: "typing_step rs (resume_telegram_typing t rs)"
| step_snapshot: "typing_step rs (snd (take_telegram_typing_snapshot t i g now rs))"
| step_cancel: "typing_step rs (snd (cancel_telegram_typing_generation t i g rs))"
| step_renewal: "typing_step rs (snd (mark_telegram_typing_renewal_due t i g rs))"
| step_wake: "typing_step rs (snd (wake_telegram_typing_for_thread t rs))"
| step_complete: "typing_step rs (snd (complete_telegram_typing_send t i g sent ok rs))"
| step_clear: "typing_step rs (clear_telegram_typing_for_thread t rs)"
| step_clear_all: "typing_step rs (clear_all_telegram_typing rs)"

inductive_cases typing_stepE: "typing_step rs rs'"

lemma typing_step_inv: "typing_step rs rs' \<Longrightarrow> typing_inv rs \<Longrightarrow> typing_inv rs'"
  by (induction rule: typing_step.induct)
     (simp_all add: typing_inv_start finish_telegram_typing_for_thread_def suspend_telegram_typing_def
      typing_inv_stop resume_telegram_typing_def typing_inv_snapshot typing_inv_cancel
      typing_inv_renewal typing_inv_wake typing_inv_complete clear_telegram_typing_for_thread_def
      clear_all_telegram_typing_def typing_inv_fold_forget)

lemma typing_inv_default: "typing_inv runtime_default"
  by (simp add: typing_inv_def typing_items_ok_def typing_history.coherent_def
      i64_max_def)

lemma typing_inv_unique:
  assumes "typing_inv rs" and "unit_separator \<notin> set t"
    and "hcontains (telegram_typing_by_item rs) (typing_key t i)"
    and "hcontains (telegram_typing_by_item rs) (typing_key t j)"
  shows "i = j"
proof -
  have same: "typing_owner (typing_key t i) = typing_owner (typing_key t j)" using assms(2) by simp
  have inj: "inj_on typing_owner (fst ` set (telegram_typing_by_item rs))"
    using assms(1) by (simp add: typing_inv_def typing_items_ok_def)
  have "typing_key t i = typing_key t j"
    using inj_onD[OF inj same] assms(3,4) by (simp add: hcontains_iff)
  then show ?thesis by simp
qed

subsection \<open>Finishing an indicator\<close>

text \<open>What \<open>stop_telegram_typing_for_thread\<close> leaves of an indicator.\<close>

definition finished_typing :: "telegram_typing_state \<Rightarrow> telegram_typing_state" where
  "finished_typing ty =
     (bump_typing (ty\<lparr>ty_dirty := True, ty_finished := True\<rparr>))\<lparr>ty_sending := True\<rparr>"

lemma finished_typing_simps [simp]:
  "ty_generation (finished_typing ty) = ty_generation ty" "ty_sending (finished_typing ty)"
  "ty_dirty (finished_typing ty)" "ty_finished (finished_typing ty)"
  "ty_completed (finished_typing ty) = ty_completed ty"
  by (simp_all add: finished_typing_def bump_typing_def)

lemma stop_typing_items_lookup:
  "distinct ids \<Longrightarrow>
   hget (telegram_typing_by_item (snd (stop_typing_items t terminal ids rs))) k =
     (case hget (telegram_typing_by_item rs) k of
        None \<Rightarrow> None
      | Some ty \<Rightarrow> if k \<in> typing_key t ` set ids then Some (finished_typing ty) else Some ty)"
proof (induction ids arbitrary: rs)
  case Nil
  then show ?case by (simp split: option.split)
next
  case (Cons i ids)
  let ?rs = "if terminal then remember_completed_typing (typing_key t i) rs else rs"
  have items: "telegram_typing_by_item ?rs = telegram_typing_by_item rs" by simp
  have notin: "typing_key t i \<notin> typing_key t ` set ids" using Cons.prems by auto
  show ?case
  proof (cases "hget (telegram_typing_by_item rs) (typing_key t i)")
    case None
    then show ?thesis using Cons by (auto simp: Let_def items split: option.split)
  next
    case (Some ty)
    then show ?thesis using Cons notin
      by (auto simp: Let_def items split_def put_typing_def notify_one_def finished_typing_def
          split: option.split)
  qed
qed

lemma stop_typing_item_ids:
  "i \<in> set (sort (List.map_filter (strip_prefix (typing_thread_prefix t)) ks)) \<longleftrightarrow> typing_key t i \<in> set ks"
  by (auto simp: map_filter_def strip_prefix_Some typing_key_def image_iff)

lemma stop_typing_ids_distinct:
  "distinct ks \<Longrightarrow> distinct (sort (List.map_filter (strip_prefix (typing_thread_prefix t)) ks))"
  by (induction ks) (auto simp: List.map_filter_simps strip_prefix_Some
      stop_typing_item_ids[unfolded set_sort] typing_key_def split: option.split)

lemma stop_typing_lookup:
  assumes "hwf (telegram_typing_by_item rs)"
    and "hget (telegram_typing_by_item rs) (typing_key t i) = Some ty"
  shows "hget (telegram_typing_by_item (snd (stop_telegram_typing_for_thread t terminal turn rs)))
           (typing_key t i) = Some (finished_typing ty)"
proof -
  let ?items = "telegram_typing_by_item rs"
  let ?ids = "sort (List.map_filter (strip_prefix (typing_thread_prefix t)) (map fst ?items))"
  obtain rs0 where stop: "stop_telegram_typing_for_thread t terminal turn rs = stop_typing_items t terminal ?ids rs0"
    and items: "telegram_typing_by_item rs0 = ?items"
    by (cases "if terminal then opt_or turn (hget (current_turn_by_thread rs) t) else None")
       (simp_all add: stop_telegram_typing_for_thread_def Let_def)
  have "distinct ?ids" using assms(1) by (intro stop_typing_ids_distinct) (simp add: hwf_def)
  moreover have "typing_key t i \<in> typing_key t ` set ?ids"
    using hget_fst[OF assms(2)] by (intro imageI) (simp add: stop_typing_item_ids del: set_sort)
  ultimately show ?thesis
    using stop_typing_items_lookup[of ?ids t terminal rs0 "typing_key t i"]
    unfolding stop items assms(2) by simp
qed

text \<open>The driver's next round after the stop: it sends the final state and the indicator goes,
  whether or not the send succeeds, and the waiter on \<open>completed\<close> is notified.\<close>

lemma finished_typing_round:
  assumes "hget (telegram_typing_by_item rs) (typing_key t i) = Some (finished_typing ty)"
    and "take_telegram_typing_snapshot t i (ty_generation ty) now rs = (snap, rs')"
  shows "snap = Some (True, ty_revision (finished_typing ty))"
    and "fst (complete_telegram_typing_send t i (ty_generation ty) (ty_revision (finished_typing ty)) ok rs') = Stop"
    and "\<not> hcontains (telegram_typing_by_item
           (snd (complete_telegram_typing_send t i (ty_generation ty) (ty_revision (finished_typing ty)) ok rs')))
           (typing_key t i)"
    and "ty_completed ty \<in> set (notify_log
           (snd (complete_telegram_typing_send t i (ty_generation ty) (ty_revision (finished_typing ty)) ok rs')))"
  using assms
  by (auto simp: take_telegram_typing_snapshot_def complete_telegram_typing_send_def put_typing_def
      notify_one_def Let_def hcontains_def)

subsection \<open>Frame\<close>

text \<open>The runtime state without the typing component: every typing method leaves it unchanged.\<close>

definition outside_typing :: "runtime_state \<Rightarrow> runtime_state" where
  "outside_typing rs =
     rs\<lparr>telegram_typing_by_item := [], telegram_typing_suspended_threads := {},
        telegram_completed_typing_keys := {}, telegram_completed_typing_order := [],
        next_telegram_typing_generation := 0, notify_next := 0, notify_log := []\<rparr>"

lemma outside_typing_updates [simp]:
  "outside_typing (put_typing k ty rs) = outside_typing rs"
  "outside_typing (notify_one h rs) = outside_typing rs"
  "outside_typing (remember_completed_typing k rs) = outside_typing rs"
  "outside_typing (rs\<lparr>telegram_typing_by_item := items\<rparr>) = outside_typing rs"
  "outside_typing (rs\<lparr>telegram_typing_by_item := items, notify_log := ns\<rparr>) = outside_typing rs"
  "outside_typing (rs\<lparr>telegram_typing_suspended_threads := X\<rparr>) = outside_typing rs"
  "outside_typing (rs\<lparr>next_telegram_typing_generation := g, notify_next := h\<rparr>) = outside_typing rs"
  by (simp_all add: outside_typing_def put_typing_def notify_one_def remember_completed_typing_def
      split_def Let_def)

lemma outside_typing_remove [simp]: "outside_typing (remove_typing k rs) = outside_typing rs"
  by (simp add: remove_typing_def split: option.split)

lemma outside_typing_fold_forget [simp]: "outside_typing (fold forget_typing ks rs) = outside_typing rs"
  by (induction ks arbitrary: rs) (auto simp: forget_typing_def)

lemma outside_typing_register [simp]: "outside_typing (register_typing k rs) = outside_typing rs"
  by (simp add: register_typing_def Let_def)

lemma outside_typing_stop_items [simp]:
  "outside_typing (snd (stop_typing_items t terminal ids rs)) = outside_typing rs"
  by (induction ids arbitrary: rs) (auto simp: Let_def split_def split: option.split)

lemma outside_typing_stop [simp]:
  "outside_typing (snd (stop_telegram_typing_for_thread t terminal turn rs)) = outside_typing rs"
  by (simp add: stop_telegram_typing_for_thread_def Let_def split: option.split)

lemma outside_typing_clear [simp]:
  "outside_typing (clear_telegram_typing_for_thread t rs) = outside_typing rs"
  "outside_typing (clear_all_telegram_typing rs) = outside_typing rs"
  by (simp_all add: clear_telegram_typing_for_thread_def clear_all_telegram_typing_def)

lemma outside_typing_ops [simp]:
  "outside_typing (snd (start_telegram_typing t i rs)) = outside_typing rs"
  "outside_typing (snd (take_telegram_typing_snapshot t i g now rs)) = outside_typing rs"
  "outside_typing (snd (cancel_telegram_typing_generation t i g rs)) = outside_typing rs"
  "outside_typing (snd (mark_telegram_typing_renewal_due t i g rs)) = outside_typing rs"
  "outside_typing (snd (wake_telegram_typing_for_thread t rs)) = outside_typing rs"
  "outside_typing (snd (complete_telegram_typing_send t i g sent ok rs)) = outside_typing rs"
  by (simp_all add: start_telegram_typing_def take_telegram_typing_snapshot_def
      cancel_telegram_typing_generation_def mark_telegram_typing_renewal_due_def
      wake_telegram_typing_for_thread_def complete_telegram_typing_send_def Let_def split: option.split)

lemma typing_step_outside: "typing_step rs rs' \<Longrightarrow> outside_typing rs' = outside_typing rs"
  by (induction rule: typing_step.induct)
     (simp_all add: finish_telegram_typing_for_thread_def suspend_telegram_typing_def
      resume_telegram_typing_def)

lemma outside_typing_select:
  "current_turn_by_thread (outside_typing rs) = current_turn_by_thread rs"
  "starting_turn_by_thread (outside_typing rs) = starting_turn_by_thread rs"
  "turn_origin_by_id (outside_typing rs) = turn_origin_by_id rs"
  "turn_finished_at_by_thread (outside_typing rs) = turn_finished_at_by_thread rs"
  "terminal_notice_failed_by_turn (outside_typing rs) = terminal_notice_failed_by_turn rs"
  "terminal_notice_turn_order (outside_typing rs) = terminal_notice_turn_order rs"
  "terminal_status_fallback_by_thread (outside_typing rs) = terminal_status_fallback_by_thread rs"
  "telegram_command_progress_by_thread (outside_typing rs) = telegram_command_progress_by_thread rs"
  "route_by_thread (outside_typing rs) = route_by_thread rs"
  "pending_telegram_turns_by_conversation (outside_typing rs) = pending_telegram_turns_by_conversation rs"
  "telegram_model_switch_requests (outside_typing rs) = telegram_model_switch_requests rs"
  "telegram_model_switch_request_by_conversation (outside_typing rs) = telegram_model_switch_request_by_conversation rs"
  "thread_routing_requests (outside_typing rs) = thread_routing_requests rs"
  "pending_approvals_by_conversation (outside_typing rs) = pending_approvals_by_conversation rs"
  "pending_approval_request_keys (outside_typing rs) = pending_approval_request_keys rs"
  by (simp_all add: outside_typing_def)

text \<open>So a field outside the component is the same before and after.\<close>

lemma clear_typing_frame [simp]:
  "current_turn_by_thread (clear_telegram_typing_for_thread t rs) = current_turn_by_thread rs"
  "starting_turn_by_thread (clear_telegram_typing_for_thread t rs) = starting_turn_by_thread rs"
  "turn_origin_by_id (clear_telegram_typing_for_thread t rs) = turn_origin_by_id rs"
  "turn_finished_at_by_thread (clear_telegram_typing_for_thread t rs) = turn_finished_at_by_thread rs"
  "terminal_notice_failed_by_turn (clear_telegram_typing_for_thread t rs) = terminal_notice_failed_by_turn rs"
  "terminal_notice_turn_order (clear_telegram_typing_for_thread t rs) = terminal_notice_turn_order rs"
  "terminal_status_fallback_by_thread (clear_telegram_typing_for_thread t rs) = terminal_status_fallback_by_thread rs"
  "telegram_command_progress_by_thread (clear_telegram_typing_for_thread t rs) = telegram_command_progress_by_thread rs"
  "route_by_thread (clear_telegram_typing_for_thread t rs) = route_by_thread rs"
  "pending_telegram_turns_by_conversation (clear_telegram_typing_for_thread t rs) = pending_telegram_turns_by_conversation rs"
  "telegram_model_switch_requests (clear_telegram_typing_for_thread t rs) = telegram_model_switch_requests rs"
  "telegram_model_switch_request_by_conversation (clear_telegram_typing_for_thread t rs) = telegram_model_switch_request_by_conversation rs"
  "thread_routing_requests (clear_telegram_typing_for_thread t rs) = thread_routing_requests rs"
  "pending_approvals_by_conversation (clear_telegram_typing_for_thread t rs) = pending_approvals_by_conversation rs"
  "pending_approval_request_keys (clear_telegram_typing_for_thread t rs) = pending_approval_request_keys rs"
  by (metis outside_typing_clear(1) outside_typing_select)+

text \<open>Clearing a thread's indicators removes them all.\<close>

lemma forget_typing_items:
  "telegram_typing_by_item (forget_typing k rs) = hremove k (telegram_typing_by_item rs)"
proof (cases "hget (telegram_typing_by_item rs) k")
  case None
  then show ?thesis by (simp add: forget_typing_def remove_typing_def hremove_absent hcontains_def)
next
  case (Some ty)
  then show ?thesis by (simp add: forget_typing_def remove_typing_def notify_one_def)
qed

lemma fold_forget_typing_items:
  "hcontains (telegram_typing_by_item (fold forget_typing ks rs)) k \<longleftrightarrow>
   hcontains (telegram_typing_by_item rs) k \<and> k \<notin> set ks"
  by (induction ks arbitrary: rs) (auto simp: forget_typing_items)

lemma clear_typing_removes:
  "\<not> hcontains (telegram_typing_by_item (clear_telegram_typing_for_thread t rs)) (typing_key t i)"
proof -
  have "starts_with (typing_thread_prefix t) (typing_key t i)" by (simp add: typing_key_def)
  then show ?thesis
    by (simp add: clear_telegram_typing_for_thread_def fold_forget_typing_items)
       (auto simp: hcontains_iff)
qed

end
