(* ===== verification/RuntimeTurns.thy ===== *)
theory RuntimeTurns
  imports RuntimeTyping
begin

section \<open>Turn lifecycle (src/src/im/runtime.rs)\<close>

text \<open>
  The per-thread turn state (idle, starting, running), the history of terminal notices, the latch
  of the terminal-status fallback with its two drivers, the last agent message of a turn and the
  duplicate-text filter. The invariant \<open>turn_inv\<close>: a thread is never starting and running at
  once, a fallback latch always belongs to the thread's current turn, and the notice history is
  coherent (an interpretation of \<open>bounded_history\<close>).
\<close>

definition current_turn_id :: "string \<Rightarrow> runtime_state \<Rightarrow> string option" where
  "current_turn_id thread_id rs = hget (current_turn_by_thread rs) thread_id"

definition turn_in_progress :: "string \<Rightarrow> runtime_state \<Rightarrow> bool" where
  "turn_in_progress thread_id rs =
     (hcontains (current_turn_by_thread rs) thread_id \<or> thread_id \<in> starting_turn_by_thread rs)"

definition mark_turn_started :: "string \<Rightarrow> string \<Rightarrow> nat \<Rightarrow> runtime_state \<Rightarrow> runtime_state" where
  "mark_turn_started thread_id turn_id now_ms rs =
     (let rs = rs\<lparr>starting_turn_by_thread := starting_turn_by_thread rs - {thread_id}\<rparr>;
          rs = rs\<lparr>terminal_status_fallback_by_thread :=
                 hremove thread_id (terminal_status_fallback_by_thread rs)\<rparr>;
          rs = (case hget (telegram_command_progress_by_thread rs) thread_id of
                  None \<Rightarrow> rs
                | Some progress \<Rightarrow>
                    if pg_turn_id progress \<noteq> turn_id
                    then rs\<lparr>telegram_command_progress_by_thread :=
                           hremove thread_id (telegram_command_progress_by_thread rs)\<rparr>
                    else rs);
          rs = rs\<lparr>current_turn_by_thread := hinsert thread_id turn_id (current_turn_by_thread rs)\<rparr>
      in rs\<lparr>turn_started_at_by_thread := hinsert thread_id now_ms (turn_started_at_by_thread rs)\<rparr>)"

definition try_mark_turn_starting ::
  "string \<Rightarrow> runtime_state \<Rightarrow> (thread_turn_state + unit) \<times> runtime_state" where
  "try_mark_turn_starting thread_id rs =
     (case hget (current_turn_by_thread rs) thread_id of
        Some turn_id \<Rightarrow> (Inl (Running turn_id), rs)
      | None \<Rightarrow>
          if thread_id \<in> starting_turn_by_thread rs then (Inl Starting, rs)
          else (Inr (), rs\<lparr>starting_turn_by_thread := insert thread_id (starting_turn_by_thread rs)\<rparr>))"

definition clear_turn_starting :: "string \<Rightarrow> runtime_state \<Rightarrow> runtime_state" where
  "clear_turn_starting thread_id rs =
     rs\<lparr>starting_turn_by_thread := starting_turn_by_thread rs - {thread_id}\<rparr>"

definition message_is_stale_for_latest_turn :: "string \<Rightarrow> nat \<Rightarrow> runtime_state \<Rightarrow> bool" where
  "message_is_stale_for_latest_turn thread_id received_at_ms rs =
     (received_at_ms > 0 \<and>
      ((case hget (turn_finished_at_by_thread rs) thread_id of
          None \<Rightarrow> False | Some finished_at_ms \<Rightarrow> received_at_ms < finished_at_ms) \<or>
       (case hget (turn_started_at_by_thread rs) thread_id of
          None \<Rightarrow> False | Some started_at_ms \<Rightarrow> received_at_ms < started_at_ms)))"

definition turn_elapsed_ms :: "string \<Rightarrow> nat \<Rightarrow> runtime_state \<Rightarrow> nat option" where
  "turn_elapsed_ms thread_id now_ms rs =
     (case hget (turn_started_at_by_thread rs) thread_id of
        None \<Rightarrow> None
      | Some started_at_ms \<Rightarrow>
          Some (unwrap_or (hget (turn_finished_at_by_thread rs) thread_id) now_ms - started_at_ms))"

definition remember_turn_origin :: "string \<Rightarrow> turn_origin \<Rightarrow> runtime_state \<Rightarrow> runtime_state" where
  "remember_turn_origin turn_id origin rs =
     rs\<lparr>turn_origin_by_id := hinsert turn_id origin (turn_origin_by_id rs)\<rparr>"

definition turn_origin_of :: "string \<Rightarrow> runtime_state \<Rightarrow> turn_origin option" where
  "turn_origin_of turn_id rs = hget (turn_origin_by_id rs) turn_id"

definition claim_terminal_notice :: "string \<Rightarrow> bool \<Rightarrow> runtime_state \<Rightarrow> bool \<times> runtime_state" where
  "claim_terminal_notice turn_id failed rs =
     (case hget (terminal_notice_failed_by_turn rs) turn_id of
        Some previous_failed \<Rightarrow>
          if failed \<and> \<not> previous_failed
          then (True, rs\<lparr>terminal_notice_failed_by_turn :=
                        hinsert turn_id True (terminal_notice_failed_by_turn rs)\<rparr>)
          else (False, rs)
      | None \<Rightarrow>
          (let (order, failed_by_turn) =
             evict_oldest TERMINAL_NOTICE_TURN_HISTORY_MAX hremove
               (terminal_notice_turn_order rs @ [turn_id])
               (hinsert turn_id failed (terminal_notice_failed_by_turn rs))
           in (True, rs\<lparr>terminal_notice_turn_order := order,
                       terminal_notice_failed_by_turn := failed_by_turn\<rparr>)))"

definition release_terminal_notice :: "string \<Rightarrow> runtime_state \<Rightarrow> runtime_state" where
  "release_terminal_notice turn_id rs =
     (if \<not> hcontains (terminal_notice_failed_by_turn rs) turn_id then rs
      else rs\<lparr>terminal_notice_failed_by_turn := hremove turn_id (terminal_notice_failed_by_turn rs),
              terminal_notice_turn_order :=
                filter (\<lambda>current. current \<noteq> turn_id) (terminal_notice_turn_order rs)\<rparr>)"

subsection \<open>The terminal-status fallback latch\<close>

text \<open>\<open>next_terminal_status_fallback_token\<close>: \<open>wrapping_add(1).max(1)\<close>.\<close>

definition next_fallback_token :: "runtime_state \<Rightarrow> nat \<times> runtime_state" where
  "next_fallback_token rs =
     (let token = max 1 ((next_terminal_status_fallback_token rs + 1) mod 2 ^ 64)
      in (token, rs\<lparr>next_terminal_status_fallback_token := token\<rparr>))"

definition put_fallback :: "string \<Rightarrow> terminal_status_fallback \<Rightarrow> runtime_state \<Rightarrow> runtime_state" where
  "put_fallback thread_id fb rs =
     rs\<lparr>terminal_status_fallback_by_thread :=
        hinsert thread_id fb (terminal_status_fallback_by_thread rs)\<rparr>"

definition register_terminal_status_fallback_token ::
  "string \<Rightarrow> string \<Rightarrow> runtime_state \<Rightarrow> (nat \<times> bool) option \<times> runtime_state" where
  "register_terminal_status_fallback_token thread_id turn_id rs =
     (let fresh =
        (let (token, rs) = next_fallback_token rs
         in (Some (token, True),
             put_fallback thread_id
               \<lparr> fb_turn_id = turn_id, fb_token = token,
                 fb_event_driver_started = False, fb_server_driver_started = True \<rparr> rs))
      in if current_turn_id thread_id rs \<noteq> Some turn_id then (None, rs)
         else case hget (terminal_status_fallback_by_thread rs) thread_id of
                Some existing \<Rightarrow>
                  if fb_turn_id existing = turn_id
                  then (Some (fb_token existing, \<not> fb_server_driver_started existing),
                        put_fallback thread_id (existing\<lparr>fb_server_driver_started := True\<rparr>) rs)
                  else fresh
              | None \<Rightarrow> fresh)"

definition start_terminal_status_fallback ::
  "string \<Rightarrow> string \<Rightarrow> runtime_state \<Rightarrow> nat option \<times> runtime_state" where
  "start_terminal_status_fallback thread_id turn_id rs =
     (if current_turn_id thread_id rs \<noteq> Some turn_id then (None, rs)
      else case hget (terminal_status_fallback_by_thread rs) thread_id of
             Some existing \<Rightarrow>
               if fb_turn_id existing \<noteq> turn_id \<or> fb_event_driver_started existing then (None, rs)
               else (Some (fb_token existing),
                     put_fallback thread_id (existing\<lparr>fb_event_driver_started := True\<rparr>) rs)
           | None \<Rightarrow>
               (let (token, rs) = next_fallback_token rs
                in (Some token,
                    put_fallback thread_id
                      \<lparr> fb_turn_id = turn_id, fb_token = token,
                        fb_event_driver_started = True, fb_server_driver_started = False \<rparr> rs)))"

definition cancel_terminal_status_fallback :: "string \<Rightarrow> string \<Rightarrow> runtime_state \<Rightarrow> runtime_state" where
  "cancel_terminal_status_fallback thread_id turn_id rs =
     (case hget (terminal_status_fallback_by_thread rs) thread_id of
        None \<Rightarrow> rs
      | Some current \<Rightarrow>
          if fb_turn_id current = turn_id
          then rs\<lparr>terminal_status_fallback_by_thread :=
                 hremove thread_id (terminal_status_fallback_by_thread rs)\<rparr>
          else rs)"

definition terminal_status_fallback_matches_token ::
  "string \<Rightarrow> string \<Rightarrow> nat \<Rightarrow> runtime_state \<Rightarrow> bool" where
  "terminal_status_fallback_matches_token thread_id turn_id token rs =
     (case hget (terminal_status_fallback_by_thread rs) thread_id of
        None \<Rightarrow> False
      | Some current \<Rightarrow> fb_turn_id current = turn_id \<and> fb_token current = token)"

definition claim_terminal_status_fallback ::
  "string \<Rightarrow> string \<Rightarrow> nat \<Rightarrow> runtime_state \<Rightarrow> bool \<times> runtime_state" where
  "claim_terminal_status_fallback thread_id turn_id token rs =
     (if current_turn_id thread_id rs \<noteq> Some turn_id
         \<or> \<not> terminal_status_fallback_matches_token thread_id turn_id token rs then (False, rs)
      else (True, rs\<lparr>terminal_status_fallback_by_thread :=
                    hremove thread_id (terminal_status_fallback_by_thread rs)\<rparr>))"

subsection \<open>Agent messages and duplicate text\<close>

definition remember_turn_agent_message ::
  "string \<Rightarrow> string \<Rightarrow> string \<Rightarrow> bool \<Rightarrow> runtime_state \<Rightarrow> runtime_state" where
  "remember_turn_agent_message turn_id item_id text is_explicit_final rs =
     rs\<lparr>turn_last_agent_message :=
        hinsert turn_id (item_id, text, is_explicit_final) (turn_last_agent_message rs)\<rparr>"

definition take_turn_last_agent_message ::
  "string \<Rightarrow> runtime_state \<Rightarrow> (string \<times> string \<times> bool) option \<times> runtime_state" where
  "take_turn_last_agent_message turn_id rs =
     (hget (turn_last_agent_message rs) turn_id,
      rs\<lparr>turn_last_agent_message := hremove turn_id (turn_last_agent_message rs)\<rparr>)"

definition should_skip_duplicate_text :: "string \<Rightarrow> string \<Rightarrow> runtime_state \<Rightarrow> bool" where
  "should_skip_duplicate_text route_key text rs =
     (case hget (last_sent_text_by_route rs) route_key of None \<Rightarrow> False | Some previous \<Rightarrow> previous = text)"

definition remember_sent_text :: "string \<Rightarrow> string \<Rightarrow> runtime_state \<Rightarrow> runtime_state" where
  "remember_sent_text route_key text rs =
     rs\<lparr>last_sent_text_by_route := hinsert route_key text (last_sent_text_by_route rs)\<rparr>"

subsection \<open>Completing a turn\<close>

text \<open>The aggregate message survives the turn only while a delivery of its completed state is
  under way; it then carries the order to clean up after that delivery.\<close>

definition retire_command_progress :: "string \<Rightarrow> runtime_state \<Rightarrow> runtime_state" where
  "retire_command_progress thread_id rs =
     (let removed = rs\<lparr>telegram_command_progress_by_thread :=
                       hremove thread_id (telegram_command_progress_by_thread rs)\<rparr>
      in case hget (telegram_command_progress_by_thread rs) thread_id of
           None \<Rightarrow> removed
         | Some progress \<Rightarrow>
             if pg_completed progress \<and> pg_sending progress
             then rs\<lparr>telegram_command_progress_by_thread :=
                    hinsert thread_id (progress\<lparr>pg_cleanup_after_delivery := True\<rparr>)
                      (telegram_command_progress_by_thread rs)\<rparr>
             else removed)"

text \<open>What \<open>mark_turn_completed\<close> does once the turn id was accepted.\<close>

definition complete_accepted_turn ::
  "string \<Rightarrow> string option \<Rightarrow> nat \<Rightarrow> runtime_state \<Rightarrow> runtime_state" where
  "complete_accepted_turn thread_id turn_id now_ms rs =
     (let completed_turn_id = hget (current_turn_by_thread rs) thread_id;
          rs = rs\<lparr>terminal_status_fallback_by_thread :=
                 hremove thread_id (terminal_status_fallback_by_thread rs),
               starting_turn_by_thread := starting_turn_by_thread rs - {thread_id},
               current_turn_by_thread := hremove thread_id (current_turn_by_thread rs)\<rparr>;
          rs = (case opt_or turn_id completed_turn_id of
                  None \<Rightarrow> rs
                | Some tid \<Rightarrow> rs\<lparr>turn_origin_by_id := hremove tid (turn_origin_by_id rs)\<rparr>);
          rs = retire_command_progress thread_id (clear_telegram_typing_for_thread thread_id rs)
      in rs\<lparr>turn_finished_at_by_thread := hinsert thread_id now_ms (turn_finished_at_by_thread rs)\<rparr>)"

definition mark_turn_completed ::
  "string \<Rightarrow> string option \<Rightarrow> nat \<Rightarrow> runtime_state \<Rightarrow> bool \<times> runtime_state" where
  "mark_turn_completed thread_id turn_id now_ms rs =
     (case turn_id of
        Some tid \<Rightarrow>
          if hget (current_turn_by_thread rs) thread_id \<noteq> Some tid
          then (False, rs\<lparr>turn_origin_by_id := hremove tid (turn_origin_by_id rs)\<rparr>)
          else (True, complete_accepted_turn thread_id turn_id now_ms rs)
      | None \<Rightarrow> (True, complete_accepted_turn thread_id turn_id now_ms rs))"

subsection \<open>The notice history\<close>

text \<open>The history the locale speaks of: a turn is a member when it has an entry in the map.
  Remembering a turn is claiming its (first or upgraded) notice.\<close>

definition noticed_turns :: "runtime_state \<Rightarrow> string set" where
  "noticed_turns rs = fst ` set (terminal_notice_failed_by_turn rs)"

definition claim_notice_state :: "bool \<Rightarrow> string \<Rightarrow> runtime_state \<Rightarrow> runtime_state" where
  "claim_notice_state failed turn_id rs = snd (claim_terminal_notice turn_id failed rs)"

lemma noticed_iff: "turn_id \<in> noticed_turns rs \<longleftrightarrow> hget (terminal_notice_failed_by_turn rs) turn_id \<noteq> None"
  by (simp add: noticed_turns_def map_of_eq_None_iff)

lemma noticed_not_iff: "turn_id \<notin> noticed_turns rs \<longleftrightarrow> hget (terminal_notice_failed_by_turn rs) turn_id = None"
  using noticed_iff by blast

interpretation notice_history: bounded_history TERMINAL_NOTICE_TURN_HISTORY_MAX
  noticed_turns terminal_notice_turn_order "claim_notice_state failed"
proof unfold_locales
  show "0 < TERMINAL_NOTICE_TURN_HISTORY_MAX" by (simp add: TERMINAL_NOTICE_TURN_HISTORY_MAX_def)
next
  fix k and s :: runtime_state assume k: "k \<in> noticed_turns s"
  then obtain b where b: "hget (terminal_notice_failed_by_turn s) k = Some b"
    by (auto simp: noticed_iff)
  show "noticed_turns (claim_notice_state failed k s) = noticed_turns s"
    using b k by (auto simp: claim_notice_state_def claim_terminal_notice_def noticed_turns_def)
  show "terminal_notice_turn_order (claim_notice_state failed k s) = terminal_notice_turn_order s"
    using b by (simp add: claim_notice_state_def claim_terminal_notice_def)
next
  fix k and s :: runtime_state assume "k \<notin> noticed_turns s"
  then show "terminal_notice_turn_order (claim_notice_state failed k s) =
      keep_last TERMINAL_NOTICE_TURN_HISTORY_MAX (terminal_notice_turn_order s @ [k])"
    by (simp add: claim_notice_state_def claim_terminal_notice_def evict_oldest_order noticed_not_iff
        split_def Let_def)
next
  fix k and s :: runtime_state
  let ?o = "terminal_notice_turn_order s"
  assume fresh: "k \<notin> noticed_turns s" and len: "length ?o \<le> TERMINAL_NOTICE_TURN_HISTORY_MAX"
    and dist: "distinct ?o" and set: "set ?o = noticed_turns s"
  have none: "hget (terminal_notice_failed_by_turn s) k = None"
    using fresh by (simp only: noticed_not_iff)
  show "noticed_turns (claim_notice_state failed k s) =
      set (keep_last TERMINAL_NOTICE_TURN_HISTORY_MAX (?o @ [k]))"
  proof (cases "length ?o = TERMINAL_NOTICE_TURN_HISTORY_MAX")
    case True
    then obtain x xs where o: "?o = x # xs"
      by (cases ?o) (auto simp: TERMINAL_NOTICE_TURN_HISTORY_MAX_def)
    have "insert k (noticed_turns s) - {x} = insert k (set xs)" using fresh dist set o by auto
    then have removed: "fst ` set (hremove x (hinsert k failed (terminal_notice_failed_by_turn s)))
        = insert k (set xs)"
      by (simp add: noticed_turns_def)
    have "evict_oldest TERMINAL_NOTICE_TURN_HISTORY_MAX hremove (?o @ [k])
        (hinsert k failed (terminal_notice_failed_by_turn s))
        = (xs @ [k], hremove x (hinsert k failed (terminal_notice_failed_by_turn s)))"
      using True o by (simp add: evict_oldest_none)
    then have "noticed_turns (claim_notice_state failed k s) = insert k (set xs)"
      using removed none by (simp add: claim_notice_state_def claim_terminal_notice_def noticed_turns_def)
    then show ?thesis using True o by (simp add: keep_last_def)
  next
    case False
    then have "noticed_turns (claim_notice_state failed k s) = insert k (noticed_turns s)"
      using len none by (simp add: claim_notice_state_def claim_terminal_notice_def evict_oldest_none
          noticed_turns_def)
    then show ?thesis using False len set by simp
  qed
qed

subsection \<open>The turn invariant\<close>

definition turn_inv :: "runtime_state \<Rightarrow> bool" where
  "turn_inv rs \<longleftrightarrow>
     (\<forall>t. t \<in> starting_turn_by_thread rs \<longrightarrow> hget (current_turn_by_thread rs) t = None) \<and>
     (\<forall>t fb. hget (terminal_status_fallback_by_thread rs) t = Some fb \<longrightarrow>
        hget (current_turn_by_thread rs) t = Some (fb_turn_id fb)) \<and>
     notice_history.coherent rs"

lemma turn_inv_outside_typing: "turn_inv (outside_typing rs) = turn_inv rs"
  by (simp add: turn_inv_def notice_history.coherent_def noticed_turns_def outside_typing_select)

lemma turn_inv_typing_step: "typing_step rs rs' \<Longrightarrow> turn_inv rs \<Longrightarrow> turn_inv rs'"
  by (metis turn_inv_outside_typing typing_step_outside)

lemma turn_inv_default: "turn_inv runtime_default"
  by (simp add: turn_inv_def notice_history.coherent_def noticed_turns_def)

lemma coherent_frame:
  "terminal_notice_failed_by_turn rs' = terminal_notice_failed_by_turn rs \<Longrightarrow>
   terminal_notice_turn_order rs' = terminal_notice_turn_order rs \<Longrightarrow>
   notice_history.coherent rs' = notice_history.coherent rs"
  by (simp add: notice_history.coherent_def noticed_turns_def)

lemma turn_inv_started: "turn_inv rs \<Longrightarrow> turn_inv (mark_turn_started t turn now rs)"
  by (auto simp: turn_inv_def mark_turn_started_def Let_def notice_history.coherent_def noticed_turns_def
      split: option.split if_splits)

lemma turn_inv_try_starting: "turn_inv rs \<Longrightarrow> turn_inv (snd (try_mark_turn_starting t rs))"
  by (auto simp: turn_inv_def try_mark_turn_starting_def notice_history.coherent_def noticed_turns_def
      split: option.split)

lemma turn_inv_clear_starting: "turn_inv rs \<Longrightarrow> turn_inv (clear_turn_starting t rs)"
  by (auto simp: turn_inv_def clear_turn_starting_def notice_history.coherent_def noticed_turns_def)

lemma claim_notice_frame [simp]:
  "current_turn_by_thread (snd (claim_terminal_notice turn failed rs)) = current_turn_by_thread rs"
  "starting_turn_by_thread (snd (claim_terminal_notice turn failed rs)) = starting_turn_by_thread rs"
  "terminal_status_fallback_by_thread (snd (claim_terminal_notice turn failed rs))
     = terminal_status_fallback_by_thread rs"
  by (simp_all add: claim_terminal_notice_def split_def Let_def split: option.split)

lemma turn_inv_claim_notice: "turn_inv rs \<Longrightarrow> turn_inv (snd (claim_terminal_notice turn failed rs))"
  using notice_history.coherent_remember[of rs failed turn]
  by (simp add: turn_inv_def claim_notice_state_def)

lemma turn_inv_release_notice: "turn_inv rs \<Longrightarrow> turn_inv (release_terminal_notice turn rs)"
  by (auto simp: turn_inv_def release_terminal_notice_def notice_history.coherent_def noticed_turns_def
      intro: le_trans[OF length_filter_le])

lemma turn_inv_put_fallback:
  "turn_inv rs \<Longrightarrow> current_turn_id t rs = Some (fb_turn_id fb) \<Longrightarrow> turn_inv (put_fallback t fb rs)"
  by (simp add: turn_inv_def put_fallback_def current_turn_id_def notice_history.coherent_def
      noticed_turns_def)

lemma turn_inv_next_token [simp]: "turn_inv (snd (next_fallback_token rs)) = turn_inv rs"
  by (simp add: turn_inv_def next_fallback_token_def Let_def notice_history.coherent_def noticed_turns_def)

lemma current_turn_next_token [simp]:
  "current_turn_id t (snd (next_fallback_token rs)) = current_turn_id t rs"
  by (simp add: current_turn_id_def next_fallback_token_def Let_def)

lemma turn_inv_register:
  "turn_inv rs \<Longrightarrow> turn_inv (snd (register_terminal_status_fallback_token t turn rs))"
  by (auto simp: register_terminal_status_fallback_token_def Let_def split_def
      intro!: turn_inv_put_fallback split: option.split)

lemma turn_inv_start_fallback:
  "turn_inv rs \<Longrightarrow> turn_inv (snd (start_terminal_status_fallback t turn rs))"
  by (auto simp: start_terminal_status_fallback_def Let_def split_def
      intro!: turn_inv_put_fallback split: option.split)

lemma turn_inv_cancel_fallback: "turn_inv rs \<Longrightarrow> turn_inv (cancel_terminal_status_fallback t turn rs)"
  by (auto simp: turn_inv_def cancel_terminal_status_fallback_def notice_history.coherent_def
      noticed_turns_def split: option.split)

lemma turn_inv_claim_fallback:
  "turn_inv rs \<Longrightarrow> turn_inv (snd (claim_terminal_status_fallback t turn token rs))"
  by (auto simp: turn_inv_def claim_terminal_status_fallback_def notice_history.coherent_def
      noticed_turns_def)

lemma retire_frame [simp]:
  "current_turn_by_thread (retire_command_progress t rs) = current_turn_by_thread rs"
  "starting_turn_by_thread (retire_command_progress t rs) = starting_turn_by_thread rs"
  "terminal_status_fallback_by_thread (retire_command_progress t rs) = terminal_status_fallback_by_thread rs"
  "terminal_notice_failed_by_turn (retire_command_progress t rs) = terminal_notice_failed_by_turn rs"
  "terminal_notice_turn_order (retire_command_progress t rs) = terminal_notice_turn_order rs"
  "turn_origin_by_id (retire_command_progress t rs) = turn_origin_by_id rs"
  "telegram_typing_by_item (retire_command_progress t rs) = telegram_typing_by_item rs"
  by (simp_all add: retire_command_progress_def Let_def split: option.split)

lemma complete_accepted_turn_maps:
  "current_turn_by_thread (complete_accepted_turn t turn now rs) = hremove t (current_turn_by_thread rs)"
  "starting_turn_by_thread (complete_accepted_turn t turn now rs) = starting_turn_by_thread rs - {t}"
  "terminal_status_fallback_by_thread (complete_accepted_turn t turn now rs)
     = hremove t (terminal_status_fallback_by_thread rs)"
  "terminal_notice_failed_by_turn (complete_accepted_turn t turn now rs) = terminal_notice_failed_by_turn rs"
  "terminal_notice_turn_order (complete_accepted_turn t turn now rs) = terminal_notice_turn_order rs"
  by (simp_all add: complete_accepted_turn_def Let_def split: option.split)

lemma turn_inv_completed: "turn_inv rs \<Longrightarrow> turn_inv (snd (mark_turn_completed t turn now rs))"
  by (auto simp: turn_inv_def mark_turn_completed_def complete_accepted_turn_maps
      notice_history.coherent_def noticed_turns_def split: option.split)


subsection \<open>The turn operations as a step relation\<close>

inductive turn_step :: "runtime_state \<Rightarrow> runtime_state \<Rightarrow> bool" where
  started: "turn_step rs (mark_turn_started t turn now rs)"
| try_starting: "turn_step rs (snd (try_mark_turn_starting t rs))"
| clear_starting: "turn_step rs (clear_turn_starting t rs)"
| turn_completed: "turn_step rs (snd (mark_turn_completed t turn_opt now rs))"
| turn_origin_remembered: "turn_step rs (remember_turn_origin turn origin rs)"
| notice_claimed: "turn_step rs (snd (claim_terminal_notice turn failed rs))"
| notice_released: "turn_step rs (release_terminal_notice turn rs)"
| fallback_registered: "turn_step rs (snd (register_terminal_status_fallback_token t turn rs))"
| fallback_started: "turn_step rs (snd (start_terminal_status_fallback t turn rs))"
| fallback_cancelled: "turn_step rs (cancel_terminal_status_fallback t turn rs)"
| fallback_claimed: "turn_step rs (snd (claim_terminal_status_fallback t turn token rs))"
| agent_message_remembered: "turn_step rs (remember_turn_agent_message turn item text explicit_final rs)"
| agent_message_taken: "turn_step rs (snd (take_turn_last_agent_message turn rs))"
| sent_text_remembered: "turn_step rs (remember_sent_text route_key text rs)"

lemma turn_inv_records:
  "turn_inv (remember_turn_origin turn origin rs) = turn_inv rs"
  "turn_inv (remember_turn_agent_message turn item text explicit_final rs) = turn_inv rs"
  "turn_inv (snd (take_turn_last_agent_message turn rs)) = turn_inv rs"
  "turn_inv (remember_sent_text route_key text rs) = turn_inv rs"
  by (simp_all add: turn_inv_def remember_turn_origin_def remember_turn_agent_message_def
      take_turn_last_agent_message_def remember_sent_text_def notice_history.coherent_def noticed_turns_def)

lemmas turn_inv_ops = turn_inv_started turn_inv_try_starting turn_inv_clear_starting turn_inv_completed
  turn_inv_claim_notice turn_inv_release_notice turn_inv_register turn_inv_start_fallback
  turn_inv_cancel_fallback turn_inv_claim_fallback

lemma turn_step_inv: "turn_step rs rs' \<Longrightarrow> turn_inv rs \<Longrightarrow> turn_inv rs'"
  by (induction rule: turn_step.induct) (simp_all add: turn_inv_ops turn_inv_records)

text \<open>The typing component under a turn step: nothing changes, except that a completed turn
  clears the thread's indicators.\<close>

definition typing_part :: "runtime_state \<Rightarrow>
  (string, telegram_typing_state) hmap \<times> string set \<times> string set \<times> string list \<times> int \<times> nat \<times> nat list" where
  "typing_part rs = (telegram_typing_by_item rs, telegram_typing_suspended_threads rs,
     telegram_completed_typing_keys rs, telegram_completed_typing_order rs,
     next_telegram_typing_generation rs, notify_next rs, notify_log rs)"

lemma typing_inv_part: "typing_part rs' = typing_part rs \<Longrightarrow> typing_inv rs' = typing_inv rs"
  by (simp add: typing_part_def typing_inv_def typing_history.coherent_def)

lemma typing_part_retire: "typing_part (retire_command_progress t rs) = typing_part rs"
  by (simp add: typing_part_def retire_command_progress_def Let_def split: option.split)

lemma typing_inv_clear: "typing_inv rs \<Longrightarrow> typing_inv (clear_telegram_typing_for_thread t rs)"
  by (simp add: clear_telegram_typing_for_thread_def typing_inv_fold_forget)

lemma typing_inv_complete_accepted:
  assumes "typing_inv rs"
  shows "typing_inv (complete_accepted_turn t turn now rs)"
proof -
  obtain rs1 where rs1: "typing_part rs1 = typing_part rs"
    and step: "typing_part (complete_accepted_turn t turn now rs)
      = typing_part (clear_telegram_typing_for_thread t rs1)"
  proof
    let ?rs0 = "rs\<lparr>terminal_status_fallback_by_thread := hremove t (terminal_status_fallback_by_thread rs),
      starting_turn_by_thread := starting_turn_by_thread rs - {t},
      current_turn_by_thread := hremove t (current_turn_by_thread rs)\<rparr>"
    let ?rs1 = "case opt_or turn (hget (current_turn_by_thread rs) t) of None \<Rightarrow> ?rs0
      | Some tid \<Rightarrow> ?rs0\<lparr>turn_origin_by_id := hremove tid (turn_origin_by_id ?rs0)\<rparr>"
    show "typing_part ?rs1 = typing_part rs" by (simp add: typing_part_def split: option.split)
    show "typing_part (complete_accepted_turn t turn now rs)
      = typing_part (clear_telegram_typing_for_thread t ?rs1)"
      using typing_part_retire[of t "clear_telegram_typing_for_thread t ?rs1"]
      by (simp add: typing_part_def complete_accepted_turn_def Let_def)
  qed
  have "typing_inv (clear_telegram_typing_for_thread t rs1)"
    using assms typing_inv_part[OF rs1] by (simp add: typing_inv_clear)
  then show ?thesis using typing_inv_part[OF step] by simp
qed

lemma typing_part_next_token: "typing_part (snd (next_fallback_token rs)) = typing_part rs"
  by (simp add: typing_part_def next_fallback_token_def Let_def)

lemma typing_part_put_fallback: "typing_part (put_fallback t fb rs) = typing_part rs"
  by (simp add: typing_part_def put_fallback_def)

lemma typing_part_ops:
  "typing_part (mark_turn_started t turn now rs) = typing_part rs"
  "typing_part (snd (try_mark_turn_starting t rs)) = typing_part rs"
  "typing_part (clear_turn_starting t rs) = typing_part rs"
  "typing_part (remember_turn_origin turn origin rs) = typing_part rs"
  "typing_part (snd (claim_terminal_notice turn failed rs)) = typing_part rs"
  "typing_part (release_terminal_notice turn rs) = typing_part rs"
  "typing_part (cancel_terminal_status_fallback t turn rs) = typing_part rs"
  "typing_part (snd (claim_terminal_status_fallback t turn token rs)) = typing_part rs"
  "typing_part (remember_turn_agent_message turn item text explicit_final rs) = typing_part rs"
  "typing_part (snd (take_turn_last_agent_message turn rs)) = typing_part rs"
  "typing_part (remember_sent_text route_key text rs) = typing_part rs"
  by (simp_all add: typing_part_def mark_turn_started_def try_mark_turn_starting_def clear_turn_starting_def
      remember_turn_origin_def claim_terminal_notice_def release_terminal_notice_def
      cancel_terminal_status_fallback_def claim_terminal_status_fallback_def
      remember_turn_agent_message_def take_turn_last_agent_message_def remember_sent_text_def
      Let_def split_def split: option.split)

lemma typing_part_fallbacks:
  "typing_part (snd (register_terminal_status_fallback_token t turn rs)) = typing_part rs"
  "typing_part (snd (start_terminal_status_fallback t turn rs)) = typing_part rs"
  by (simp_all add: register_terminal_status_fallback_token_def start_terminal_status_fallback_def
      Let_def split_def typing_part_put_fallback typing_part_next_token split: option.split)

lemma typing_inv_completed: "typing_inv rs \<Longrightarrow> typing_inv (snd (mark_turn_completed t turn now rs))"
  using typing_inv_part[of "rs\<lparr>turn_origin_by_id := X\<rparr>" rs for X]
  by (simp add: mark_turn_completed_def typing_inv_complete_accepted typing_part_def split: option.split)

lemma turn_step_typing_inv: "turn_step rs rs' \<Longrightarrow> typing_inv rs \<Longrightarrow> typing_inv rs'"
  by (induction rule: turn_step.induct)
     (simp_all add: typing_inv_completed typing_part_ops[THEN typing_inv_part]
        typing_part_fallbacks[THEN typing_inv_part])

end
