(* ===== verification/RuntimeQueues.thy ===== *)
theory RuntimeQueues
  imports RuntimeTurns
begin

section \<open>Pending attachments and queued turns (src/src/im/runtime.rs)\<close>

text \<open>
  Attachments that arrived without a text wait, per conversation, for the text that uses them: at
  most eight, for at most ten minutes. Turns that arrive while another runs wait in a queue per
  conversation. The locale \<open>bounded_fifo\<close> is the queue's contract (what each operation does to the
  contents of one key and of the others; only enqueueing heeds the bound); the model of the queue methods
  interprets it, and inherits the refinement to lists and the first-in-first-out theorem.
\<close>

subsection \<open>Attachments\<close>

definition hold_pending_attachments ::
  "string \<Rightarrow> inbound_attachment list \<Rightarrow> nat \<Rightarrow> runtime_state \<Rightarrow> nat \<times> runtime_state" where
  "hold_pending_attachments conv_key attachments received_at_ms rs =
     (let entry = unwrap_or (hget (pending_attachments_by_conversation rs) conv_key)
                    \<lparr> pa_attachments = [], pa_received_at_ms = received_at_ms \<rparr>;
          entry = (if received_at_ms - pa_received_at_ms entry > PENDING_ATTACHMENTS_MAX_AGE_MS
                   then entry\<lparr>pa_attachments := []\<rparr> else entry);
          entry = entry\<lparr>pa_received_at_ms := received_at_ms,
                        pa_attachments := pa_attachments entry @ attachments\<rparr>;
          entry = entry\<lparr>pa_attachments := keep_last PENDING_ATTACHMENTS_MAX_COUNT (pa_attachments entry)\<rparr>
      in (length (pa_attachments entry),
          rs\<lparr>pending_attachments_by_conversation :=
             hinsert conv_key entry (pending_attachments_by_conversation rs)\<rparr>))"

definition take_pending_attachments ::
  "string \<Rightarrow> nat \<Rightarrow> runtime_state \<Rightarrow> inbound_attachment list \<times> runtime_state" where
  "take_pending_attachments conv_key received_at_ms rs =
     ((case opt_filter (\<lambda>entry. received_at_ms - pa_received_at_ms entry \<le> PENDING_ATTACHMENTS_MAX_AGE_MS)
              (hget (pending_attachments_by_conversation rs) conv_key) of
         None \<Rightarrow> [] | Some entry \<Rightarrow> pa_attachments entry),
      rs\<lparr>pending_attachments_by_conversation :=
         hremove conv_key (pending_attachments_by_conversation rs)\<rparr>)"

subsection \<open>Queued turns\<close>

definition enqueue_telegram_turn ::
  "string \<Rightarrow> pending_telegram_turn \<Rightarrow> runtime_state \<Rightarrow> nat option \<times> runtime_state" where
  "enqueue_telegram_turn conv_key turn rs =
     (let queue = unwrap_or (hget (pending_telegram_turns_by_conversation rs) conv_key) [];
          store = (\<lambda>queue. rs\<lparr>pending_telegram_turns_by_conversation :=
             hinsert conv_key queue (pending_telegram_turns_by_conversation rs)\<rparr>)
      in if length queue \<ge> TELEGRAM_QUEUED_TURNS_MAX_COUNT then (None, store queue)
         else (Some (length (queue @ [turn])), store (queue @ [turn])))"

definition enqueue_telegram_turn_if_active ::
  "string \<Rightarrow> pending_telegram_turn \<Rightarrow> runtime_state \<Rightarrow> telegram_queue_enqueue_outcome \<times> runtime_state" where
  "enqueue_telegram_turn_if_active conv_key turn rs =
     (case List.find (\<lambda>(thread_id, route). ro_conversation_key route = conv_key)
             (route_by_thread rs) of
        None \<Rightarrow> (NotRunning, rs)
      | Some (thread_id, route) \<Rightarrow>
          if \<not> turn_in_progress thread_id rs then (NotRunning, rs)
          else (case enqueue_telegram_turn conv_key turn rs of
                  (Some place, rs) \<Rightarrow> (Added place, rs)
                | (None, rs) \<Rightarrow> (Full, rs)))"

definition take_next_telegram_turn ::
  "string \<Rightarrow> runtime_state \<Rightarrow> pending_telegram_turn option \<times> runtime_state" where
  "take_next_telegram_turn conv_key rs =
     (case hget (pending_telegram_turns_by_conversation rs) conv_key of
        None \<Rightarrow> (None, rs)
      | Some queue \<Rightarrow>
          (let (turn, queue) = (case queue of [] \<Rightarrow> (None, []) | t # ts \<Rightarrow> (Some t, ts))
           in (turn, rs\<lparr>pending_telegram_turns_by_conversation :=
                 (if queue = []
                  then hremove conv_key (pending_telegram_turns_by_conversation rs)
                  else hinsert conv_key queue (pending_telegram_turns_by_conversation rs))\<rparr>)))"

definition requeue_telegram_turn_front ::
  "string \<Rightarrow> pending_telegram_turn \<Rightarrow> runtime_state \<Rightarrow> runtime_state" where
  "requeue_telegram_turn_front conv_key turn rs =
     (let queue = unwrap_or (hget (pending_telegram_turns_by_conversation rs) conv_key) []
      in rs\<lparr>pending_telegram_turns_by_conversation :=
           hinsert conv_key (turn # queue) (pending_telegram_turns_by_conversation rs)\<rparr>)"

definition telegram_queue_len :: "string \<Rightarrow> runtime_state \<Rightarrow> nat" where
  "telegram_queue_len conv_key rs =
     (case hget (pending_telegram_turns_by_conversation rs) conv_key of
        None \<Rightarrow> 0 | Some queue \<Rightarrow> length queue)"

definition clear_telegram_queue :: "string \<Rightarrow> runtime_state \<Rightarrow> runtime_state" where
  "clear_telegram_queue conv_key rs =
     rs\<lparr>pending_telegram_turns_by_conversation :=
        hremove conv_key (pending_telegram_turns_by_conversation rs)\<rparr>"

subsection \<open>The contract of a bounded queue per key\<close>

datatype 'a fifo_op = Enqueue 'a | EnqueueIfActive 'a | Dequeue | PutBack 'a | Clear

datatype 'a fifo_answer = Position "nat option" | Outcome telegram_queue_enqueue_outcome | Item "'a option" | NoAnswer

text \<open>The queue as a list: what each operation answers and leaves. Only enqueueing heeds the bound; putting a turn
  back must not lose it. Whether a turn is active for the key is not the queue's to change.\<close>

fun fifo_spec :: "nat \<Rightarrow> bool \<Rightarrow> 'a fifo_op \<Rightarrow> 'a list \<Rightarrow> 'a fifo_answer \<times> 'a list" where
  "fifo_spec cap active (Enqueue x) q =
     (if cap \<le> length q then (Position None, q) else (Position (Some (Suc (length q))), q @ [x]))"
| "fifo_spec cap active (EnqueueIfActive x) q =
     (if \<not> active then (Outcome NotRunning, q)
      else if cap \<le> length q then (Outcome Full, q)
      else (Outcome (Added (Suc (length q))), q @ [x]))"
| "fifo_spec cap active Dequeue [] = (Item None, [])"
| "fifo_spec cap active Dequeue (x # q) = (Item (Some x), q)"
| "fifo_spec cap active (PutBack x) q = (NoAnswer, x # q)"
| "fifo_spec cap active Clear q = (NoAnswer, [])"

fun fifo_spec_run :: "nat \<Rightarrow> bool \<Rightarrow> 'a fifo_op list \<Rightarrow> 'a list \<Rightarrow> 'a fifo_answer list \<times> 'a list" where
  "fifo_spec_run cap active [] q = ([], q)"
| "fifo_spec_run cap active (a # ops) q =
     (let (r, q) = fifo_spec cap active a q; (rs, q) = fifo_spec_run cap active ops q in (r # rs, q))"

lemma fifo_spec_enqueue_all:
  "length q + length xs \<le> cap \<Longrightarrow> snd (fifo_spec_run cap active (map Enqueue xs) q) = q @ xs"
  by (induction xs arbitrary: q) (auto simp: Let_def split_def)

lemma fifo_spec_dequeue_all:
  "fifo_spec_run cap active (replicate (length q) Dequeue) q = (map (Item \<circ> Some) q, [])"
  by (induction q) auto

lemma fifo_spec_run_append:
  "fifo_spec_run cap active (xs @ ys) q =
     (let (r1, q1) = fifo_spec_run cap active xs q; (r2, q2) = fifo_spec_run cap active ys q1 in (r1 @ r2, q2))"
  by (induction xs arbitrary: q) (auto simp: Let_def split_def)

text \<open>The bound: what was there or the cap, and one for each turn put back.\<close>

fun put_backs :: "'a fifo_op list \<Rightarrow> nat" where
  "put_backs [] = 0"
| "put_backs (PutBack x # ops) = Suc (put_backs ops)"
| "put_backs (_ # ops) = put_backs ops"

lemma fifo_spec_bound:
  "length (snd (fifo_spec cap active a q)) \<le> max cap (length q) + put_backs [a]"
  by (cases "(cap, active, a, q)" rule: fifo_spec.cases) auto

lemma fifo_spec_run_bound:
  "length (snd (fifo_spec_run cap active ops q)) \<le> max cap (length q) + put_backs ops"
proof (induction ops arbitrary: q)
  case (Cons a ops)
  have "put_backs (a # ops) = put_backs [a] + put_backs ops" by (cases a) simp_all
  then show ?case using Cons[of "snd (fifo_spec cap active a q)"] fifo_spec_bound[of cap active a q]
    by (simp add: Let_def split_def)
qed simp

locale bounded_fifo =
  fixes cap :: nat
    and contents :: "'k \<Rightarrow> 's \<Rightarrow> 'a list"
    and active :: "'k \<Rightarrow> 's \<Rightarrow> bool"
    and enqueue :: "'k \<Rightarrow> 'a \<Rightarrow> 's \<Rightarrow> nat option \<times> 's"
    and enqueue_if :: "'k \<Rightarrow> 'a \<Rightarrow> 's \<Rightarrow> telegram_queue_enqueue_outcome \<times> 's"
    and dequeue :: "'k \<Rightarrow> 's \<Rightarrow> 'a option \<times> 's"
    and put_back :: "'k \<Rightarrow> 'a \<Rightarrow> 's \<Rightarrow> 's"
    and clear :: "'k \<Rightarrow> 's \<Rightarrow> 's"
  assumes enqueue_answer: "fst (enqueue k x s) =
      (if cap \<le> length (contents k s) then None else Some (Suc (length (contents k s))))"
    and enqueue_contents: "contents k' (snd (enqueue k x s)) =
      (if k' = k \<and> length (contents k s) < cap then contents k s @ [x] else contents k' s)"
    and enqueue_if_answer: "fst (enqueue_if k x s) =
      (if \<not> active k s then NotRunning
       else if cap \<le> length (contents k s) then Full else Added (Suc (length (contents k s))))"
    and enqueue_if_contents: "contents k' (snd (enqueue_if k x s)) =
      (if k' = k \<and> active k s \<and> length (contents k s) < cap then contents k s @ [x] else contents k' s)"
    and dequeue_answer: "fst (dequeue k s) = (case contents k s of [] \<Rightarrow> None | x # q \<Rightarrow> Some x)"
    and dequeue_contents: "contents k' (snd (dequeue k s)) =
      (if k' = k then tl (contents k s) else contents k' s)"
    and put_back_contents: "contents k' (put_back k x s) =
      (if k' = k then x # contents k s else contents k' s)"
    and clear_contents: "contents k' (clear k s) = (if k' = k then [] else contents k' s)"
    and active_kept: "active k' (snd (enqueue k x s)) = active k' s" "active k' (snd (enqueue_if k x s)) = active k' s"
      "active k' (snd (dequeue k s)) = active k' s" "active k' (put_back k x s) = active k' s"
      "active k' (clear k s) = active k' s"
begin

fun perform :: "'k \<Rightarrow> 'a fifo_op \<Rightarrow> 's \<Rightarrow> 'a fifo_answer \<times> 's" where
  "perform k (Enqueue x) s = (let (r, s) = enqueue k x s in (Position r, s))"
| "perform k (EnqueueIfActive x) s = (let (r, s) = enqueue_if k x s in (Outcome r, s))"
| "perform k Dequeue s = (let (r, s) = dequeue k s in (Item r, s))"
| "perform k (PutBack x) s = (NoAnswer, put_back k x s)"
| "perform k Clear s = (NoAnswer, clear k s)"

fun performs :: "'k \<Rightarrow> 'a fifo_op list \<Rightarrow> 's \<Rightarrow> 'a fifo_answer list \<times> 's" where
  "performs k [] s = ([], s)"
| "performs k (a # ops) s =
     (let (r, s) = perform k a s; (rs, s) = performs k ops s in (r # rs, s))"

lemma perform_active: "active k' (snd (perform k a s)) = active k' s"
  by (cases a) (simp_all add: Let_def split_def active_kept)

lemma perform_refines:
  "perform k a s = (r, s') \<Longrightarrow> fifo_spec cap (active k s) a (contents k s) = (r, contents k s')"
  by (cases a; cases "contents k s")
     (auto simp: Let_def split_def enqueue_answer enqueue_contents enqueue_if_answer enqueue_if_contents
        dequeue_answer dequeue_contents put_back_contents clear_contents)

lemma perform_other: "k' \<noteq> k \<Longrightarrow> contents k' (snd (perform k a s)) = contents k' s"
  by (cases a) (auto simp: Let_def split_def enqueue_contents enqueue_if_contents dequeue_contents put_back_contents
      clear_contents)

lemma performs_refine:
  "performs k ops s = (rs, s') \<Longrightarrow> fifo_spec_run cap (active k s) ops (contents k s) = (rs, contents k s')"
proof (induction ops arbitrary: s rs s')
  case Nil
  then show ?case by simp
next
  case (Cons a ops)
  obtain r s1 where a: "perform k a s = (r, s1)" by fastforce
  obtain rs1 s2 where rest: "performs k ops s1 = (rs1, s2)" by fastforce
  show ?case using Cons.prems a rest Cons.IH[OF rest] perform_refines[OF a] perform_active[of k k a s] by simp
qed

lemma performs_other: "k' \<noteq> k \<Longrightarrow> contents k' (snd (performs k ops s)) = contents k' s"
  by (induction ops arbitrary: s) (auto simp: Let_def split_def perform_other)

text \<open>First in, first out.\<close>

lemma fifo_order:
  assumes "length (contents k s) + length xs \<le> cap"
  shows "drop (length xs) (fst (performs k (map Enqueue xs @
      replicate (length (contents k s) + length xs) Dequeue) s)) = map (Item \<circ> Some) (contents k s @ xs)"
proof -
  let ?ops = "map Enqueue xs @ replicate (length (contents k s) + length xs) Dequeue"
  obtain rs s' where run: "performs k ?ops s = (rs, s')" by fastforce
  let ?active = "active k s"
  have spec: "fifo_spec_run cap ?active ?ops (contents k s) = (rs, contents k s')"
    by (rule performs_refine[OF run])
  have "length (fst (fifo_spec_run cap ?active os q)) = length os" for os and q :: "'a list"
    by (induction os arbitrary: q) (auto simp: Let_def split_def)
  then have len: "length (fst (fifo_spec_run cap ?active (map Enqueue xs) (contents k s))) = length xs" by simp
  have "fst (fifo_spec_run cap ?active ?ops (contents k s))
      = fst (fifo_spec_run cap ?active (map Enqueue xs) (contents k s)) @ map (Item \<circ> Some) (contents k s @ xs)"
    using fifo_spec_enqueue_all[OF assms] fifo_spec_dequeue_all[of cap ?active "contents k s @ xs"]
    by (simp add: fifo_spec_run_append Let_def split_def)
  then show ?thesis using run spec len by simp
qed

end

definition queued_turns :: "string \<Rightarrow> runtime_state \<Rightarrow> pending_telegram_turn list" where
  "queued_turns conv_key rs =
     unwrap_or (hget (pending_telegram_turns_by_conversation rs) conv_key) []"

text \<open>A conversation is busy when the thread it is bound to has a turn starting or running.\<close>

definition conversation_busy :: "string \<Rightarrow> runtime_state \<Rightarrow> bool" where
  "conversation_busy conv_key rs =
     (case List.find (\<lambda>(thread_id, route). ro_conversation_key route = conv_key) (route_by_thread rs) of
        None \<Rightarrow> False
      | Some (thread_id, _) \<Rightarrow> turn_in_progress thread_id rs)"

lemma enqueue_if_busy:
  "enqueue_telegram_turn_if_active k x s =
     (if \<not> conversation_busy k s then (NotRunning, s)
      else case enqueue_telegram_turn k x s of (Some place, s) \<Rightarrow> (Added place, s) | (None, s) \<Rightarrow> (Full, s))"
  by (auto simp: enqueue_telegram_turn_if_active_def conversation_busy_def split: option.split)

interpretation turn_queue: bounded_fifo TELEGRAM_QUEUED_TURNS_MAX_COUNT queued_turns conversation_busy
  enqueue_telegram_turn enqueue_telegram_turn_if_active take_next_telegram_turn requeue_telegram_turn_front
  clear_telegram_queue
proof unfold_locales
  fix k k' x and s :: runtime_state
  show answer: "fst (enqueue_telegram_turn k x s) = (if TELEGRAM_QUEUED_TURNS_MAX_COUNT \<le> length (queued_turns k s)
      then None else Some (Suc (length (queued_turns k s))))" for k s
    by (simp add: enqueue_telegram_turn_def queued_turns_def Let_def)
  show contents: "queued_turns k' (snd (enqueue_telegram_turn k x s)) =
      (if k' = k \<and> length (queued_turns k s) < TELEGRAM_QUEUED_TURNS_MAX_COUNT
       then queued_turns k s @ [x] else queued_turns k' s)"
    by (simp add: enqueue_telegram_turn_def queued_turns_def Let_def)
  show "fst (enqueue_telegram_turn_if_active k x s) =
      (if \<not> conversation_busy k s then NotRunning
       else if TELEGRAM_QUEUED_TURNS_MAX_COUNT \<le> length (queued_turns k s) then Full
       else Added (Suc (length (queued_turns k s))))"
    using answer[of k s] by (cases "enqueue_telegram_turn k x s") (auto simp: enqueue_if_busy split: option.split if_splits)
  show "queued_turns k' (snd (enqueue_telegram_turn_if_active k x s)) =
      (if k' = k \<and> conversation_busy k s \<and> length (queued_turns k s) < TELEGRAM_QUEUED_TURNS_MAX_COUNT
       then queued_turns k s @ [x] else queued_turns k' s)"
    using contents by (cases "enqueue_telegram_turn k x s") (auto simp: enqueue_if_busy split: option.split)
  show "fst (take_next_telegram_turn k s) = (case queued_turns k s of [] \<Rightarrow> None | x # q \<Rightarrow> Some x)"
    by (auto simp: take_next_telegram_turn_def queued_turns_def Let_def split: option.split list.split)
  show "queued_turns k' (snd (take_next_telegram_turn k s)) =
      (if k' = k then tl (queued_turns k s) else queued_turns k' s)"
    by (auto simp: take_next_telegram_turn_def queued_turns_def Let_def split: option.split list.split)
  show "queued_turns k' (requeue_telegram_turn_front k x s) =
      (if k' = k then x # queued_turns k s else queued_turns k' s)"
    by (simp add: requeue_telegram_turn_front_def queued_turns_def Let_def)
  show "queued_turns k' (clear_telegram_queue k s) = (if k' = k then [] else queued_turns k' s)"
    by (simp add: clear_telegram_queue_def queued_turns_def)
  have busy: "conversation_busy k' (s\<lparr>pending_telegram_turns_by_conversation := queues\<rparr>) = conversation_busy k' s" for queues
    by (simp add: conversation_busy_def turn_in_progress_def split: option.split)
  then show enqueued: "conversation_busy k' (snd (enqueue_telegram_turn k x s)) = conversation_busy k' s"
    by (simp add: enqueue_telegram_turn_def Let_def)
  then show "conversation_busy k' (snd (enqueue_telegram_turn_if_active k x s)) = conversation_busy k' s"
    by (cases "enqueue_telegram_turn k x s") (auto simp: enqueue_if_busy split: option.split)
  show "conversation_busy k' (snd (take_next_telegram_turn k s)) = conversation_busy k' s"
    using busy by (simp add: take_next_telegram_turn_def Let_def split: option.split list.split)
  show "conversation_busy k' (requeue_telegram_turn_front k x s) = conversation_busy k' s"
    using busy by (simp add: requeue_telegram_turn_front_def Let_def)
  show "conversation_busy k' (clear_telegram_queue k s) = conversation_busy k' s"
    using busy by (simp add: clear_telegram_queue_def)
qed

subsection \<open>Steps and frame\<close>

inductive queue_step :: "runtime_state \<Rightarrow> runtime_state \<Rightarrow> bool" where
  held: "queue_step rs (snd (hold_pending_attachments k atts now rs))"
| attachments_taken: "queue_step rs (snd (take_pending_attachments k now rs))"
| enqueued: "queue_step rs (snd (enqueue_telegram_turn k turn rs))"
| enqueued_if_active: "queue_step rs (snd (enqueue_telegram_turn_if_active k turn rs))"
| dequeued: "queue_step rs (snd (take_next_telegram_turn k rs))"
| put_back: "queue_step rs (requeue_telegram_turn_front k turn rs)"
| cleared: "queue_step rs (clear_telegram_queue k rs)"

definition outside_queues :: "runtime_state \<Rightarrow> runtime_state" where
  "outside_queues rs = rs\<lparr>pending_attachments_by_conversation := [], pending_telegram_turns_by_conversation := []\<rparr>"

lemma outside_queues_enqueue: "outside_queues (snd (enqueue_telegram_turn k turn rs)) = outside_queues rs"
  by (simp add: outside_queues_def enqueue_telegram_turn_def Let_def)

lemma queue_step_outside: "queue_step rs rs' \<Longrightarrow> outside_queues rs' = outside_queues rs"
proof (induction rule: queue_step.induct)
  case (enqueued_if_active rs k turn)
  then show ?case
    using outside_queues_enqueue[of k turn rs]
    by (auto simp: enqueue_telegram_turn_if_active_def split: option.split prod.split)
qed (simp_all add: outside_queues_enqueue,
    simp_all add: outside_queues_def hold_pending_attachments_def take_pending_attachments_def
      take_next_telegram_turn_def requeue_telegram_turn_front_def clear_telegram_queue_def Let_def
      split_def split: option.split)

subsection \<open>Held attachments\<close>

definition held_attachments :: "string \<Rightarrow> nat \<Rightarrow> runtime_state \<Rightarrow> inbound_attachment list" where
  "held_attachments k now rs = fst (take_pending_attachments k now rs)"

text \<open>Held attachments. Attachments held for a conversation are the newest eight of those
  already held (unless these are older than ten minutes, which drops them) and the new ones; the
  answer is their number; they are handed out by a later take exactly when it comes within ten
  minutes, and no other conversation's attachments change.\<close>

theorem hold_then_take:
  "hold_pending_attachments k atts now rs = (n, rs') \<Longrightarrow>
   (let kept = keep_last PENDING_ATTACHMENTS_MAX_COUNT (held_attachments k now rs @ atts)
    in n = length kept \<and> n \<le> PENDING_ATTACHMENTS_MAX_COUNT \<and>
       held_attachments k later rs'
         = (if later - now \<le> PENDING_ATTACHMENTS_MAX_AGE_MS then kept else [])) \<and>
   (\<forall>k'. k' \<noteq> k \<longrightarrow> held_attachments k' later rs' = held_attachments k' later rs)"
  by (cases "hget (pending_attachments_by_conversation rs) k")
     (auto simp: hold_pending_attachments_def held_attachments_def take_pending_attachments_def Let_def)

definition sample_attachment :: "string \<Rightarrow> inbound_attachment" where
  "sample_attachment name = \<lparr> ia_kind = ''image'', ia_name = Some name, ia_mime_type = None,
     ia_text_hint = None, ia_local_path = None \<rparr>"

text \<open>Nine attachments: the first goes; a take after ten minutes finds nothing.\<close>

definition nine_attachments :: "inbound_attachment list" where
  "nine_attachments = sample_attachment ''first'' # replicate 8 (sample_attachment ''next'')"

theorem hold_then_take_witness:
  "held_attachments ''c'' 600100 (snd (hold_pending_attachments ''c'' nine_attachments 100 runtime_default))
     = replicate 8 (sample_attachment ''next'')
   \<and> held_attachments ''c'' 600101 (snd (hold_pending_attachments ''c'' nine_attachments 100 runtime_default)) = []"
proof -
  have none: "held_attachments ''c'' 100 runtime_default = []"
    by (simp add: held_attachments_def take_pending_attachments_def)
  have kept: "keep_last PENDING_ATTACHMENTS_MAX_COUNT nine_attachments = replicate 8 (sample_attachment ''next'')"
    by (simp add: nine_attachments_def PENDING_ATTACHMENTS_MAX_COUNT_def keep_last_def)
  show ?thesis
    using hold_then_take[where later = 600100, OF prod.collapse[symmetric, of "hold_pending_attachments ''c'' nine_attachments 100 runtime_default"]]
      hold_then_take[where later = 600101, OF prod.collapse[symmetric, of "hold_pending_attachments ''c'' nine_attachments 100 runtime_default"]]
    by (simp add: none kept Let_def PENDING_ATTACHMENTS_MAX_AGE_MS_def)
qed

subsection \<open>Queue properties\<close>

text \<open>C37. The turn queue is a list. Any sequence of the queue's operations on one conversation (enqueueing, also
  only when the conversation is busy, taking, putting back, clearing) gives the answers of the list and leaves
  its contents: an enqueue is refused exactly when eight turns wait, a take hands out the oldest, a turn put back
  is the oldest again, even beyond the eight. So the queue holds no more than it held, or eight, and a turn for
  each put-back. No other conversation's queue changes.\<close>

theorem turn_queue_refines_list:
  assumes "turn_queue.performs k ops rs = (answers, rs')"
  shows "fifo_spec_run TELEGRAM_QUEUED_TURNS_MAX_COUNT (conversation_busy k rs) ops (queued_turns k rs) = (answers, queued_turns k rs')
    \<and> length (queued_turns k rs') \<le> max TELEGRAM_QUEUED_TURNS_MAX_COUNT (length (queued_turns k rs)) + put_backs ops
    \<and> (\<forall>k'. k' \<noteq> k \<longrightarrow> queued_turns k' rs' = queued_turns k' rs)
    \<and> telegram_queue_len k rs' = length (queued_turns k rs')"
proof -
  note refines = turn_queue.performs_refine[OF assms]
  have "k' \<noteq> k \<Longrightarrow> queued_turns k' rs' = queued_turns k' rs" for k'
    using turn_queue.performs_other[of k' k ops rs] assms by simp
  moreover have "telegram_queue_len k rs' = length (queued_turns k rs')"
    by (simp add: telegram_queue_len_def queued_turns_def split: option.split)
  moreover have "length (queued_turns k rs') \<le> max TELEGRAM_QUEUED_TURNS_MAX_COUNT (length (queued_turns k rs)) + put_backs ops"
    using fifo_spec_run_bound[of TELEGRAM_QUEUED_TURNS_MAX_COUNT "conversation_busy k rs" ops "queued_turns k rs"] refines by simp
  ultimately show ?thesis using refines by blast
qed

definition sample_turn :: "string \<Rightarrow> pending_telegram_turn" where
  "sample_turn t = \<lparr> pt_text = t, pt_attachments = [] \<rparr>"

definition sample_queue_ops :: "pending_telegram_turn fifo_op list" where
  "sample_queue_ops = [Enqueue (sample_turn ''a''), Enqueue (sample_turn ''b''), EnqueueIfActive (sample_turn ''c''), Dequeue,
     PutBack (sample_turn ''a''), Dequeue, Clear, Dequeue]"

theorem turn_queue_refines_list_witness:
  "fst (turn_queue.performs ''c'' sample_queue_ops runtime_default)
     = [Position (Some 1), Position (Some 2), Outcome NotRunning, Item (Some (sample_turn ''a'')), NoAnswer,
        Item (Some (sample_turn ''a'')), NoAnswer, Item None]"
    (is "_ = ?answers")
proof -
  have "fifo_spec_run TELEGRAM_QUEUED_TURNS_MAX_COUNT (conversation_busy ''c'' runtime_default) sample_queue_ops
      (queued_turns ''c'' runtime_default) = (?answers, [])"
    by (simp add: sample_queue_ops_def queued_turns_def TELEGRAM_QUEUED_TURNS_MAX_COUNT_def conversation_busy_def runtime_default_def)
  then show ?thesis
    using turn_queue_refines_list[OF prod.collapse[symmetric, of
        "turn_queue.performs ''c'' sample_queue_ops runtime_default"]] by simp
qed

text \<open>Turns drain in the order they came. When \<open>xs\<close> are enqueued behind the turns already
  waiting (within the bound) and everything is then taken, the takes hand out the waiting turns and
  then \<open>xs\<close>, in order.\<close>

theorem turn_queue_fifo:
  assumes "length (queued_turns k rs) + length xs \<le> TELEGRAM_QUEUED_TURNS_MAX_COUNT"
  shows "drop (length xs) (fst (turn_queue.performs k (map Enqueue xs @
      replicate (length (queued_turns k rs) + length xs) Dequeue) rs))
    = map (Item \<circ> Some) (queued_turns k rs @ xs)"
  by (rule turn_queue.fifo_order[OF assms])

theorem turn_queue_fifo_witness:
  "drop 2 (fst (turn_queue.performs ''c'' (map Enqueue [sample_turn ''a'', sample_turn ''b''] @ replicate 2 Dequeue)
      runtime_default)) = [Item (Some (sample_turn ''a'')), Item (Some (sample_turn ''b''))]"
  using turn_queue_fifo[of "''c''" runtime_default "[sample_turn ''a'', sample_turn ''b'']"]
  by (simp add: queued_turns_def TELEGRAM_QUEUED_TURNS_MAX_COUNT_def eval_nat_numeral)

text \<open>A message is queued only behind a turn. A turn is added for a conversation only when some
  thread bound to the conversation has a turn starting or running; the queue is then one longer. In
  the other cases the queues keep their contents.\<close>

theorem enqueue_if_active_outcome:
  assumes "enqueue_telegram_turn_if_active k turn rs = (outcome, rs')"
  shows "(case outcome of
      Added place \<Rightarrow> place = Suc (length (queued_turns k rs)) \<and> queued_turns k rs' = queued_turns k rs @ [turn] \<and>
        (\<exists>p \<in> set (route_by_thread rs). ro_conversation_key (snd p) = k \<and> turn_in_progress (fst p) rs)
    | Full \<Rightarrow> TELEGRAM_QUEUED_TURNS_MAX_COUNT \<le> length (queued_turns k rs) \<and> queued_turns k rs' = queued_turns k rs
    | NotRunning \<Rightarrow> rs' = rs)"
proof (cases "List.find (\<lambda>(t, route). ro_conversation_key route = k) (route_by_thread rs)")
  case None
  then show ?thesis using assms by (simp add: enqueue_telegram_turn_if_active_def)
next
  case (Some p)
  obtain t route where p: "p = (t, route)" by fastforce
  obtain a rs1 where enq: "enqueue_telegram_turn k turn rs = (a, rs1)" by fastforce
  note answer = turn_queue.enqueue_answer[of k turn rs] turn_queue.enqueue_contents[of k k turn rs]
  have bound: "p \<in> set (route_by_thread rs)" "ro_conversation_key (snd p) = k"
    using find_Some_in[OF Some] by (auto simp: p)
  show ?thesis
  proof (cases "turn_in_progress t rs")
    case False
    then show ?thesis using assms Some p by (simp add: enqueue_telegram_turn_if_active_def)
  next
    case True
    then have "\<exists>p \<in> set (route_by_thread rs). ro_conversation_key (snd p) = k \<and> turn_in_progress (fst p) rs"
      using bound by (intro bexI[of _ p]) (simp_all add: p)
    moreover have "outcome = (case a of Some place \<Rightarrow> Added place | None \<Rightarrow> Full)" "rs' = rs1"
      using assms Some p True enq
      by (simp_all add: enqueue_telegram_turn_if_active_def split: option.splits)
    ultimately show ?thesis
      using enq answer by (cases a) (simp_all split: if_splits)
  qed
qed

definition busy_runtime :: runtime_state where
  "busy_runtime = (mark_turn_started ''th'' ''t1'' 5 runtime_default)\<lparr>route_by_thread :=
     [(''th'', \<lparr> ro_platform = Telegram, ro_conversation_key = ''c'', ro_account_id = ''a'',
        ro_chat_id = ''1'', ro_remote_client_key = ''k'' \<rparr>)]\<rparr>"

theorem enqueue_if_active_outcome_witness:
  "enqueue_telegram_turn_if_active ''c'' (sample_turn ''x'') busy_runtime
     = (Added 1, snd (enqueue_telegram_turn ''c'' (sample_turn ''x'') busy_runtime))
   \<and> queued_turns ''c'' (snd (enqueue_telegram_turn ''c'' (sample_turn ''x'') busy_runtime)) = [sample_turn ''x'']"
proof -
  have eq: "enqueue_telegram_turn_if_active ''c'' (sample_turn ''x'') busy_runtime
     = (Added 1, snd (enqueue_telegram_turn ''c'' (sample_turn ''x'') busy_runtime))"
    by (simp add: enqueue_telegram_turn_if_active_def busy_runtime_def mark_turn_started_def
        turn_in_progress_def enqueue_telegram_turn_def TELEGRAM_QUEUED_TURNS_MAX_COUNT_def Let_def hcontains_def)
  then show ?thesis
    using enqueue_if_active_outcome[OF eq]
    by (simp add: queued_turns_def busy_runtime_def mark_turn_started_def)
qed

end
