(* ===== verification/RuntimeApprovals.thy ===== *)
theory RuntimeApprovals
  imports RuntimeQueues Decimal "HOL-Library.Multiset"
begin

section \<open>Pending approvals (src/src/im/runtime.rs)\<close>

text \<open>
  Approval requests of the app server wait in a list per conversation; the first is the current one.
  A set of request keys refuses a request that is already pending. The key is the JSON id with its
  kind in front. How \<open>serde_json\<close> prints an id that is neither a number nor a string is a parameter
  (\<open>display\<close>), and so is the SHA-256 digest of the fingerprint (\<open>sha256\<close>). The invariant
  \<open>approval_inv\<close> ties the set of keys to the queued approvals.
\<close>

subsection \<open>Keys\<close>

definition approval_request_key :: "(json \<Rightarrow> string) \<Rightarrow> json \<Rightarrow> string" where
  "approval_request_key display request_id =
     (case request_id of
        JNum value \<Rightarrow> ''number:'' @ show_int value
      | JFloat value \<Rightarrow> ''number:'' @ value
      | JStr value \<Rightarrow> ''string:'' @ value
      | other \<Rightarrow> ''json:'' @ display other)"

definition request_key :: "(json \<Rightarrow> string) \<Rightarrow> pending_approval \<Rightarrow> string" where
  "request_key display approval = approval_request_key display (ap_request_id approval)"

definition approval_request_fingerprint :: "(string \<Rightarrow> nat list) \<Rightarrow> string \<Rightarrow> string" where
  "approval_request_fingerprint sha256 key = hex_bytes (take 8 (sha256 key))"

subsection \<open>Operations\<close>

definition has_pending_approvals :: "string \<Rightarrow> runtime_state \<Rightarrow> bool" where
  "has_pending_approvals conv_key rs =
     (case hget (pending_approvals_by_conversation rs) conv_key of
        None \<Rightarrow> False | Some approvals \<Rightarrow> approvals \<noteq> [])"

definition push_approval ::
  "(json \<Rightarrow> string) \<Rightarrow> string \<Rightarrow> pending_approval \<Rightarrow> runtime_state \<Rightarrow> bool \<times> runtime_state" where
  "push_approval display conv_key approval rs =
     (let key = request_key display approval
      in if key \<in> pending_approval_request_keys rs then (False, rs)
         else (True, rs\<lparr>pending_approval_request_keys := insert key (pending_approval_request_keys rs),
                pending_approvals_by_conversation :=
                  hinsert conv_key
                    (unwrap_or (hget (pending_approvals_by_conversation rs) conv_key) [] @ [approval])
                    (pending_approvals_by_conversation rs)\<rparr>))"

definition current_approval :: "string \<Rightarrow> runtime_state \<Rightarrow> pending_approval option" where
  "current_approval conv_key rs =
     (case hget (pending_approvals_by_conversation rs) conv_key of
        None \<Rightarrow> None
      | Some approvals \<Rightarrow> (case approvals of [] \<Rightarrow> None | approval # _ \<Rightarrow> Some approval))"

definition is_current_approval :: "(json \<Rightarrow> string) \<Rightarrow> string \<Rightarrow> string \<Rightarrow> runtime_state \<Rightarrow> bool" where
  "is_current_approval display conv_key key rs =
     (case current_approval conv_key rs of
        None \<Rightarrow> False | Some approval \<Rightarrow> request_key display approval = key)"

fun find_approval_anywhere ::
  "(json \<Rightarrow> string) \<Rightarrow> string \<Rightarrow> (string, pending_approval list) hmap \<Rightarrow> (string \<times> pending_approval) option" where
  "find_approval_anywhere display key [] = None"
| "find_approval_anywhere display key ((conv_key, approvals) # rest) =
     (case List.find (\<lambda>approval. request_key display approval = key) approvals of
        Some approval \<Rightarrow> Some (conv_key, approval)
      | None \<Rightarrow> find_approval_anywhere display key rest)"

definition approval_by_request_key_anywhere ::
  "(json \<Rightarrow> string) \<Rightarrow> string \<Rightarrow> runtime_state \<Rightarrow> (string \<times> pending_approval) option" where
  "approval_by_request_key_anywhere display key rs =
     find_approval_anywhere display key (pending_approvals_by_conversation rs)"

fun set_message_id_anywhere ::
  "(json \<Rightarrow> string) \<Rightarrow> string \<Rightarrow> string \<Rightarrow> (string, pending_approval list) hmap
     \<Rightarrow> bool \<times> (string, pending_approval list) hmap" where
  "set_message_id_anywhere display key message_id [] = (False, [])"
| "set_message_id_anywhere display key message_id ((conv_key, approvals) # rest) =
     (let matches = (\<lambda>approval. request_key display approval = key)
      in if List.find matches approvals \<noteq> None
         then (True, (conv_key, update_first matches (\<lambda>approval. approval\<lparr>ap_message_id := Some message_id\<rparr>)
                        approvals) # rest)
         else (let (found, rest) = set_message_id_anywhere display key message_id rest
               in (found, (conv_key, approvals) # rest)))"

definition remember_approval_message_id ::
  "(json \<Rightarrow> string) \<Rightarrow> json \<Rightarrow> string \<Rightarrow> runtime_state \<Rightarrow> bool \<times> runtime_state" where
  "remember_approval_message_id display request_id message_id rs =
     (let (found, approvals) = set_message_id_anywhere display (approval_request_key display request_id)
            message_id (pending_approvals_by_conversation rs)
      in (found, rs\<lparr>pending_approvals_by_conversation := approvals\<rparr>))"

text \<open>The loop of \<open>resolve_approval_request_with_context\<close>: what was resolved, the conversation left
  without approvals, and the map.\<close>

fun resolve_anywhere ::
  "(json \<Rightarrow> string) \<Rightarrow> string \<Rightarrow> (string, pending_approval list) hmap
     \<Rightarrow> resolved_approval option \<times> string option \<times> (string, pending_approval list) hmap" where
  "resolve_anywhere display key [] = (None, None, [])"
| "resolve_anywhere display key ((conv_key, approvals) # rest) =
     (case position (\<lambda>approval. request_key display approval = key) approvals of
        Some index \<Rightarrow>
          (let approval = approvals ! index;
               approvals = take index approvals @ drop (Suc index) approvals;
               was_current = (index = 0);
               next_current = (if was_current then (case approvals of [] \<Rightarrow> None | a # _ \<Rightarrow> Some a) else None)
           in (Some \<lparr> ra_conversation_key = conv_key, ra_approval = approval,
                 ra_was_current = was_current, ra_next_current = next_current \<rparr>,
               (if approvals = [] then Some conv_key else None),
               (conv_key, approvals) # rest))
      | None \<Rightarrow>
          (let (resolved, empty_key, rest) = resolve_anywhere display key rest
           in (resolved, empty_key, (conv_key, approvals) # rest)))"

definition resolve_approval_request_with_context ::
  "(json \<Rightarrow> string) \<Rightarrow> json \<Rightarrow> runtime_state \<Rightarrow> resolved_approval option \<times> runtime_state" where
  "resolve_approval_request_with_context display request_id rs =
     (let key = approval_request_key display request_id;
          (resolved, empty_key, approvals) =
            resolve_anywhere display key (pending_approvals_by_conversation rs);
          approvals = (case empty_key of None \<Rightarrow> approvals | Some conv_key \<Rightarrow> hremove conv_key approvals)
      in (resolved, rs\<lparr>pending_approval_request_keys := pending_approval_request_keys rs - {key},
            pending_approvals_by_conversation := approvals\<rparr>))"

subsection \<open>The invariant\<close>

definition approvals_of :: "string \<Rightarrow> runtime_state \<Rightarrow> pending_approval list" where
  "approvals_of conv_key rs = unwrap_or (hget (pending_approvals_by_conversation rs) conv_key) []"

definition queued_keys :: "(json \<Rightarrow> string) \<Rightarrow> (string, pending_approval list) hmap \<Rightarrow> string list" where
  "queued_keys display m = map (request_key display) (concat (map snd m))"

definition approval_inv :: "(json \<Rightarrow> string) \<Rightarrow> runtime_state \<Rightarrow> bool" where
  "approval_inv display rs \<longleftrightarrow>
     hwf (pending_approvals_by_conversation rs) \<and>
     distinct (queued_keys display (pending_approvals_by_conversation rs)) \<and>
     set (queued_keys display (pending_approvals_by_conversation rs)) = pending_approval_request_keys rs \<and>
     [] \<notin> snd ` set (pending_approvals_by_conversation rs)"

lemma approval_inv_default: "approval_inv display runtime_default"
  by (simp add: approval_inv_def queued_keys_def)

lemma queued_keys_simps [simp]:
  "queued_keys display [] = []"
  "queued_keys display ((c, as) # m) = map (request_key display) as @ queued_keys display m"
  by (simp_all add: queued_keys_def)

lemma queued_keys_push:
  "hwf m \<Longrightarrow> mset (queued_keys display (hinsert c (unwrap_or (hget m c) [] @ [a]) m))
     = add_mset (request_key display a) (mset (queued_keys display m))"
proof (induction m)
  case Nil
  then show ?case by simp
next
  case (Cons kv m)
  then show ?case by (cases kv) (auto simp: hwf_def)
qed

lemma distinct_same_mset: "mset xs = mset ys \<Longrightarrow> distinct xs = distinct ys"
  using mset_eq_imp_distinct_iff by blast

lemma approval_inv_push:
  assumes "approval_inv display rs"
  shows "approval_inv display (snd (push_approval display c a rs))"
proof (cases "request_key display a \<in> pending_approval_request_keys rs")
  case True
  then show ?thesis using assms by (simp add: push_approval_def Let_def)
next
  case False
  let ?m = "pending_approvals_by_conversation rs"
  let ?m' = "hinsert c (unwrap_or (hget ?m c) [] @ [a]) ?m"
  have keys: "mset (queued_keys display ?m') = mset (request_key display a # queued_keys display ?m)"
    using assms by (simp add: queued_keys_push approval_inv_def)
  have "distinct (request_key display a # queued_keys display ?m)"
    using assms False by (simp add: approval_inv_def)
  then have "distinct (queued_keys display ?m')" using keys distinct_same_mset by blast
  moreover have "set (queued_keys display ?m') = insert (request_key display a) (pending_approval_request_keys rs)"
    using mset_eq_setD[OF keys] assms by (simp add: approval_inv_def)
  moreover have "[] \<notin> snd ` set ?m'"
    using assms set_hinsert_subset[of c "unwrap_or (hget ?m c) [] @ [a]" ?m] by (force simp: approval_inv_def)
  ultimately show ?thesis using assms False by (simp add: push_approval_def Let_def approval_inv_def)
qed

lemma set_message_id_keys:
  "set_message_id_anywhere display key mid m = (b, m') \<Longrightarrow>
     map fst m' = map fst m \<and> queued_keys display m' = queued_keys display m \<and>
     ([] \<in> snd ` set m' \<longleftrightarrow> [] \<in> snd ` set m)"
proof (induction m arbitrary: b m')
  case Nil
  then show ?case by simp
next
  case (Cons kv m)
  obtain c as where kv: "kv = (c, as)" by fastforce
  let ?P = "\<lambda>a. request_key display a = key"
  show ?case
  proof (cases "List.find ?P as")
    case None
    obtain b1 m1 where rest: "set_message_id_anywhere display key mid m = (b1, m1)" by fastforce
    have "m' = (c, as) # m1" using Cons.prems kv None rest by simp
    then show ?thesis using kv Cons.IH[OF rest] by simp
  next
    case (Some x)
    have "map (request_key display) (update_first ?P (\<lambda>a. a\<lparr>ap_message_id := Some mid\<rparr>) as) = map (request_key display) as"
      by (rule map_update_first) (simp add: request_key_def)
    moreover have "update_first ?P (\<lambda>a. a\<lparr>ap_message_id := Some mid\<rparr>) as = [] \<longleftrightarrow> as = []"
      by (metis length_0_conv length_update_first)
    ultimately show ?thesis using Cons.prems kv Some by (auto simp: Let_def)
  qed
qed

lemma approval_inv_message_id:
  "approval_inv display rs \<Longrightarrow> approval_inv display (snd (remember_approval_message_id display r mid rs))"
  using set_message_id_keys[OF prod.collapse[symmetric], of display "approval_request_key display r" mid
      "pending_approvals_by_conversation rs"]
  by (simp add: remember_approval_message_id_def approval_inv_def split_def Let_def hwf_def)

subsection \<open>Resolving\<close>

lemma position_split:
  "(\<forall>x \<in> set xs. \<not> P x) \<Longrightarrow> P a \<Longrightarrow> position P (xs @ a # ys) = Some (length xs)"
  by (induction xs) auto

lemma resolve_absent:
  "key \<notin> set (queued_keys display m) \<Longrightarrow> resolve_anywhere display key m = (None, None, m)"
proof (induction m)
  case Nil
  then show ?case by simp
next
  case (Cons kv m)
  obtain c as where kv: "kv = (c, as)" by fastforce
  have "position (\<lambda>a. request_key display a = key) as = None"
    using Cons.prems kv by (auto simp: position_None)
  then show ?case using Cons kv by simp
qed

lemma resolve_split:
  assumes "key \<notin> set (queued_keys display pre)" and "key \<notin> request_key display ` set xs"
    and "request_key display a = key"
  shows "resolve_anywhere display key (pre @ (c, xs @ a # ys) # post) =
     (Some \<lparr> ra_conversation_key = c, ra_approval = a, ra_was_current = (xs = []),
        ra_next_current = (if xs = [] then (case ys of [] \<Rightarrow> None | b # _ \<Rightarrow> Some b) else None) \<rparr>,
      (if xs @ ys = [] then Some c else None), pre @ (c, xs @ ys) # post)"
  using assms(1)
proof (induction pre)
  case Nil
  have "position (\<lambda>a. request_key display a = key) (xs @ a # ys) = Some (length xs)"
    using assms(2,3) by (intro position_split) (auto simp: image_iff)
  then show ?case by (auto simp: Let_def nth_append split: list.split)
next
  case (Cons kv pre)
  obtain c' as where kv: "kv = (c', as)" by fastforce
  have "position (\<lambda>a. request_key display a = key) as = None"
    using Cons.prems kv by (auto simp: position_None)
  then show ?case using Cons kv by simp
qed

text \<open>Where a queued key sits.\<close>

lemma queued_key_split:
  assumes "approval_inv display rs" and "approvals_of c rs = xs @ a # ys" and "request_key display a = key"
  obtains pre post where "pending_approvals_by_conversation rs = pre @ (c, xs @ a # ys) # post"
    and "key \<notin> set (queued_keys display pre)" and "key \<notin> request_key display ` set xs"
    and "c \<notin> fst ` set pre" and "c \<notin> fst ` set post"
proof -
  have "hget (pending_approvals_by_conversation rs) c = Some (xs @ a # ys)"
    using assms(2) by (cases "hget (pending_approvals_by_conversation rs) c") (auto simp: approvals_of_def)
  then obtain pre post where m: "pending_approvals_by_conversation rs = pre @ (c, xs @ a # ys) # post"
    by (meson map_of_SomeD split_list)
  have "distinct (queued_keys display (pending_approvals_by_conversation rs))"
    "hwf (pending_approvals_by_conversation rs)"
    using assms(1) by (simp_all add: approval_inv_def)
  then show thesis
    using assms(3) by (intro that[OF m]) (auto simp: m queued_keys_def hwf_def)
qed

lemma hremove_split:
  "c \<notin> fst ` set pre \<Longrightarrow> c \<notin> fst ` set post \<Longrightarrow> hremove c (pre @ (c, v) # post) = pre @ post"
  by (induction pre) (auto intro: hremove_absent simp: hcontains_iff)

lemma hget_split:
  "c \<notin> fst ` set pre \<Longrightarrow> hget (pre @ (c, v) # post) c' = (if c' = c then Some v else hget (pre @ post) c')"
  by (induction pre) auto

lemma hget_append_absent: "c \<notin> fst ` set pre \<Longrightarrow> c \<notin> fst ` set post \<Longrightarrow> hget (pre @ post) c = None"
  by (simp add: map_of_eq_None_iff image_Un)

lemma resolve_effect:
  assumes inv: "approval_inv display rs" and at: "approvals_of c rs = xs @ a # ys"
    and key: "request_key display a = approval_request_key display r"
    and res: "resolve_approval_request_with_context display r rs = (out, rs')"
  shows "out = Some \<lparr> ra_conversation_key = c, ra_approval = a, ra_was_current = (xs = []),
      ra_next_current = (if xs = [] then (case ys of [] \<Rightarrow> None | b # _ \<Rightarrow> Some b) else None) \<rparr>"
    and "approvals_of c' rs' = (if c' = c then xs @ ys else approvals_of c' rs)"
    and "approval_inv display rs'"
proof -
  obtain pre post where m: "pending_approvals_by_conversation rs = pre @ (c, xs @ a # ys) # post"
    and keys: "approval_request_key display r \<notin> set (queued_keys display pre)"
      "approval_request_key display r \<notin> request_key display ` set xs"
    and fresh: "c \<notin> fst ` set pre" "c \<notin> fst ` set post"
    by (rule queued_key_split[OF inv at key])
  have res': "out = Some \<lparr> ra_conversation_key = c, ra_approval = a, ra_was_current = (xs = []),
      ra_next_current = (if xs = [] then (case ys of [] \<Rightarrow> None | b # _ \<Rightarrow> Some b) else None) \<rparr>"
    "pending_approvals_by_conversation rs' = (if xs @ ys = [] then pre @ post else pre @ (c, xs @ ys) # post)"
    "pending_approval_request_keys rs' = pending_approval_request_keys rs - {approval_request_key display r}"
    using res resolve_split[OF keys key, of c ys post] fresh
    by (auto simp: resolve_approval_request_with_context_def m Let_def hremove_split)
  show "out = Some \<lparr> ra_conversation_key = c, ra_approval = a, ra_was_current = (xs = []),
      ra_next_current = (if xs = [] then (case ys of [] \<Rightarrow> None | b # _ \<Rightarrow> Some b) else None) \<rparr>"
    by (rule res'(1))
  show "approvals_of c' rs' = (if c' = c then xs @ ys else approvals_of c' rs)"
    using fresh by (auto simp: approvals_of_def res'(2) m hget_split hget_append_absent simp del: map_of_append)
  have old: "distinct (queued_keys display (pre @ (c, xs @ a # ys) # post))"
    "set (queued_keys display (pre @ (c, xs @ a # ys) # post)) = pending_approval_request_keys rs"
    "hwf (pre @ (c, xs @ a # ys) # post)" "[] \<notin> snd ` set (pre @ (c, xs @ a # ys) # post)"
    using inv unfolding approval_inv_def m by blast+
  have q: "queued_keys display (pending_approvals_by_conversation rs')
      = queued_keys display pre @ map (request_key display) (xs @ ys) @ queued_keys display post"
    unfolding res'(2) by (auto simp: queued_keys_def)
  have "distinct (queued_keys display (pending_approvals_by_conversation rs'))"
    unfolding q using old(1) by (auto simp: queued_keys_def)
  moreover have "set (queued_keys display (pending_approvals_by_conversation rs')) = pending_approval_request_keys rs'"
    unfolding q res'(3) old(2)[symmetric] using old(1) key by (auto simp: queued_keys_def)
  moreover have "hwf (pending_approvals_by_conversation rs')" "[] \<notin> snd ` set (pending_approvals_by_conversation rs')"
    unfolding res'(2) using old(3,4) by (auto simp: hwf_def)
  ultimately show "approval_inv display rs'" by (simp add: approval_inv_def)
qed

lemma resolve_unknown:
  assumes inv: "approval_inv display rs" and "approval_request_key display r \<notin> pending_approval_request_keys rs"
  shows "resolve_approval_request_with_context display r rs = (None, rs)"
  using assms resolve_absent[of "approval_request_key display r" display "pending_approvals_by_conversation rs"]
  by (simp add: resolve_approval_request_with_context_def approval_inv_def Let_def)

lemma queued_key_in:
  assumes "approval_inv display rs" and "key \<in> pending_approval_request_keys rs"
  obtains c xs a ys where "approvals_of c rs = xs @ a # ys" and "request_key display a = key"
proof -
  have "key \<in> set (queued_keys display (pending_approvals_by_conversation rs))"
    using assms by (simp add: approval_inv_def)
  then obtain c as a where "(c, as) \<in> set (pending_approvals_by_conversation rs)" "a \<in> set as"
    "request_key display a = key"
    by (auto simp: queued_keys_def)
  moreover have "hwf (pending_approvals_by_conversation rs)" using assms(1) by (simp add: approval_inv_def)
  ultimately have "approvals_of c rs = as" "a \<in> set as" "request_key display a = key"
    by (simp_all add: approvals_of_def hwf_in_set_hget)
  then show thesis using that split_list by metis
qed

lemma approval_inv_resolve:
  assumes "approval_inv display rs"
  shows "approval_inv display (snd (resolve_approval_request_with_context display r rs))"
proof (cases "approval_request_key display r \<in> pending_approval_request_keys rs")
  case True
  then obtain c xs a ys where "approvals_of c rs = xs @ a # ys"
    "request_key display a = approval_request_key display r"
    using queued_key_in[OF assms] by blast
  then show ?thesis using resolve_effect(3)[OF assms _ _ prod.collapse[symmetric]] by blast
next
  case False
  then show ?thesis using resolve_unknown[OF assms] assms by simp
qed

inductive approval_step :: "(json \<Rightarrow> string) \<Rightarrow> runtime_state \<Rightarrow> runtime_state \<Rightarrow> bool" for display where
  pushed: "approval_step display rs (snd (push_approval display c a rs))"
| message_id: "approval_step display rs (snd (remember_approval_message_id display r mid rs))"
| resolved: "approval_step display rs (snd (resolve_approval_request_with_context display r rs))"

lemma approval_step_inv: "approval_step display rs rs' \<Longrightarrow> approval_inv display rs \<Longrightarrow> approval_inv display rs'"
  by (induction rule: approval_step.induct)
     (simp_all add: approval_inv_push approval_inv_message_id approval_inv_resolve)

definition outside_approvals :: "runtime_state \<Rightarrow> runtime_state" where
  "outside_approvals rs = rs\<lparr>pending_approvals_by_conversation := [], pending_approval_request_keys := {}\<rparr>"

lemma approval_step_outside: "approval_step display rs rs' \<Longrightarrow> outside_approvals rs' = outside_approvals rs"
  by (induction rule: approval_step.induct)
     (simp_all add: outside_approvals_def push_approval_def remember_approval_message_id_def
        resolve_approval_request_with_context_def Let_def split_def)

subsection \<open>Properties\<close>

text \<open>C31. Resolving an approval is exact. In a state whose keys are in order, resolving a request that
  is queued (as approval \<open>a\<close> between \<open>xs\<close> and \<open>ys\<close> of a conversation) reports that approval, that it
  was current exactly when nothing was before it, and the next current one; it removes this
  approval only, keeps the order of the others and every other conversation, forgets its key only,
  and leaves the keys in order.\<close>

theorem resolve_exact:
  assumes inv: "approval_inv display rs" and at: "approvals_of c rs = xs @ a # ys"
    and key: "request_key display a = approval_request_key display r"
  shows "\<exists>rs'. resolve_approval_request_with_context display r rs =
      (Some \<lparr> ra_conversation_key = c, ra_approval = a, ra_was_current = (xs = []),
         ra_next_current = (if xs = [] then current_approval c rs' else None) \<rparr>, rs') \<and>
    approvals_of c rs' = xs @ ys \<and> (\<forall>c'. c' \<noteq> c \<longrightarrow> approvals_of c' rs' = approvals_of c' rs) \<and>
    pending_approval_request_keys rs' = pending_approval_request_keys rs - {request_key display a} \<and>
    approval_inv display rs'"
proof -
  obtain out rs' where res: "resolve_approval_request_with_context display r rs = (out, rs')" by fastforce
  note effect = resolve_effect[OF inv at key res]
  have current: "current_approval c rs' = (case approvals_of c rs' of [] \<Rightarrow> None | b # _ \<Rightarrow> Some b)"
    by (simp add: current_approval_def approvals_of_def split: option.split)
  have "pending_approval_request_keys rs' = pending_approval_request_keys rs - {request_key display a}"
    using res key by (auto simp: resolve_approval_request_with_context_def Let_def split_def)
  then show ?thesis
    using res effect(1,3) effect(2)[of c] effect(2) current by (intro exI[of _ rs']) simp
qed

definition sample_approval :: "int \<Rightarrow> pending_approval" where
  "sample_approval n = \<lparr> ap_request_id = JNum n, ap_request_kind = ''exec'', ap_method = ''m'',
     ap_params = JNull, ap_summary = ''run'', ap_decisions = [], ap_message_id = None,
     ap_remote_client_key = None \<rparr>"

definition sample_pending :: runtime_state where
  "sample_pending = snd (push_approval (\<lambda>_. ''null'') ''c'' (sample_approval 2)
     (snd (push_approval (\<lambda>_. ''null'') ''c'' (sample_approval 1) runtime_default)))"

lemma sample_pending_approvals:
  "approvals_of ''c'' sample_pending = [sample_approval 1, sample_approval 2]"
  by (auto simp: sample_pending_def push_approval_def request_key_def approval_request_key_def
      sample_approval_def approvals_of_def show_int_def Let_def dest: show_nat_inj)

lemma sample_pending_inv: "approval_inv (\<lambda>_. ''null'') sample_pending"
  by (simp add: sample_pending_def approval_inv_push approval_inv_default)

theorem resolve_exact_witness:
  "\<exists>rs'. resolve_approval_request_with_context (\<lambda>_. ''null'') (JNum 1) sample_pending =
     (Some \<lparr> ra_conversation_key = ''c'', ra_approval = sample_approval 1, ra_was_current = True,
        ra_next_current = current_approval ''c'' rs' \<rparr>, rs')
   \<and> approvals_of ''c'' rs' = [sample_approval 2]"
proof -
  have "request_key (\<lambda>_. ''null'') (sample_approval 1) = approval_request_key (\<lambda>_. ''null'') (JNum 1)"
    by (simp add: request_key_def sample_approval_def)
  from resolve_exact[OF sample_pending_inv _ this, of "''c''" "[]" "[sample_approval 2]"]
  show ?thesis using sample_pending_approvals by auto
qed

lemma push_refused_iff:
  assumes "approval_inv display rs"
  shows "fst (push_approval display c a rs) \<longleftrightarrow>
    approval_by_request_key_anywhere display (request_key display a) rs = None"
proof -
  have "find_approval_anywhere display key m = None \<longleftrightarrow> key \<notin> set (queued_keys display m)" for key m
    by (induction m) (auto simp: find_None_iff_all dest: find_Some_in split: option.splits)
  then show ?thesis
    using assms by (simp add: approval_by_request_key_anywhere_def push_approval_def Let_def approval_inv_def)
qed

lemma sample_pending_reached: "(approval_step (\<lambda>_. ''null''))\<^sup>*\<^sup>* runtime_default sample_pending"
  unfolding sample_pending_def
  by (meson approval_step.pushed rtranclp.rtrancl_into_rtrancl rtranclp.rtrancl_refl)

end
