(* ===== verification/RuntimeMenus.thy ===== *)
theory RuntimeMenus
  imports RuntimeApprovals
begin

section \<open>Interactive menus and thread settings (src/src/im/runtime.rs)\<close>

text \<open>
  A conversation shows at most one interactive menu: thread-routing requests and the staged
  thread-settings editor (the model switch) exclude each other. The editor's requests have an index
  by conversation. Settings observed from the app server confirm a submitted edit or make a draft
  stale. \<open>menu_inv\<close> is the coherence of the two maps, the index and the exclusion.
\<close>

subsection \<open>Observed settings\<close>

definition snapshot_default :: thread_settings_snapshot where
  "snapshot_default = \<lparr> ss_model = Unknown, ss_effort = Unknown, ss_service_tier = Unknown \<rparr>"

definition merge_observed_setting :: "'a observed_setting \<Rightarrow> 'a observed_setting \<Rightarrow> 'a observed_setting" where
  "merge_observed_setting target update = (case update of Unknown \<Rightarrow> target | Known value \<Rightarrow> Known value)"

definition merge_from :: "thread_settings_snapshot \<Rightarrow> thread_settings_snapshot \<Rightarrow> thread_settings_snapshot" where
  "merge_from self update =
     \<lparr> ss_model = merge_observed_setting (ss_model self) (ss_model update),
       ss_effort = merge_observed_setting (ss_effort self) (ss_effort update),
       ss_service_tier = merge_observed_setting (ss_service_tier self) (ss_service_tier update) \<rparr>"

fun observed_string :: "json \<Rightarrow> string list \<Rightarrow> string observed_setting" where
  "observed_string value [] = Unknown"
| "observed_string value (key # keys) =
     (case jget key value of
        Some value \<Rightarrow> Known (opt_filter (\<lambda>value. value \<noteq> []) (map_option trim (as_str value)))
      | None \<Rightarrow> observed_string value keys)"

definition from_protocol_value :: "json \<Rightarrow> thread_settings_snapshot" where
  "from_protocol_value value =
     (let value = unwrap_or (jget ''thread'' value) value
      in \<lparr> ss_model = observed_string value [''model''],
           ss_effort = observed_string value [''reasoningEffort'', ''effort''],
           ss_service_tier = observed_string value [''serviceTier'', ''service_tier''] \<rparr>)"

definition patch_value_matches :: "patch_value \<Rightarrow> string observed_setting \<Rightarrow> bool" where
  "patch_value_matches patch observed =
     (case patch of
        Unchanged \<Rightarrow> True
      | SetValue expected \<Rightarrow> observed = Known (Some expected)
      | ClearValue \<Rightarrow> observed = Known None)"

definition telegram_thread_settings_patch_matches ::
  "thread_settings_patch \<Rightarrow> thread_settings_snapshot \<Rightarrow> bool" where
  "telegram_thread_settings_patch_matches patch snapshot =
     (patch_value_matches (pv_model patch) (ss_model snapshot)
      \<and> patch_value_matches (pv_effort patch) (ss_effort snapshot)
      \<and> patch_value_matches (pv_service_tier patch) (ss_service_tier snapshot))"

definition observed_setting_changed :: "'a observed_setting \<Rightarrow> 'a observed_setting \<Rightarrow> bool" where
  "observed_setting_changed previous update =
     ((case previous of Known _ \<Rightarrow> True | Unknown \<Rightarrow> False)
      \<and> (case update of Known _ \<Rightarrow> True | Unknown \<Rightarrow> False) \<and> previous \<noteq> update)"

definition telegram_thread_settings_draft_was_changed_externally ::
  "thread_settings_draft \<Rightarrow> thread_settings_snapshot \<Rightarrow> thread_settings_snapshot \<Rightarrow> bool" where
  "telegram_thread_settings_draft_was_changed_externally draft previous update =
     (dr_model draft \<noteq> None \<and> observed_setting_changed (ss_model previous) (ss_model update)
      \<or> dr_effort draft \<noteq> None \<and> observed_setting_changed (ss_effort previous) (ss_effort update)
      \<or> dr_speed draft \<noteq> None \<and> observed_setting_changed (ss_service_tier previous) (ss_service_tier update))"

definition patch_is_empty :: "thread_settings_patch \<Rightarrow> bool" where
  "patch_is_empty patch =
     (pv_model patch = Unchanged \<and> pv_effort patch = Unchanged \<and> pv_service_tier patch = Unchanged)"

text \<open>\<open>fetch_add(1)\<close> on the process-wide counter, which wraps: the request id and the new counter.\<close>

definition next_telegram_model_switch_request_id :: "nat \<Rightarrow> string \<times> nat" where
  "next_telegram_model_switch_request_id counter =
     (''thread-model-'' @ show_nat counter, (counter + 1) mod 2 ^ 64)"

subsection \<open>Thread-routing menus\<close>

definition clear_telegram_model_switch_requests_for_conversation ::
  "string \<Rightarrow> runtime_state \<Rightarrow> runtime_state" where
  "clear_telegram_model_switch_requests_for_conversation conv_key rs =
     (let request_ids = map fst (filter (\<lambda>(_, request). ms_conversation_key request = conv_key)
                                  (telegram_model_switch_requests rs))
      in rs\<lparr>telegram_model_switch_requests :=
              fold hremove request_ids (telegram_model_switch_requests rs),
            telegram_model_switch_request_by_conversation :=
              hremove conv_key (telegram_model_switch_request_by_conversation rs)\<rparr>)"

definition clear_thread_routing_requests_for_conversation :: "string \<Rightarrow> runtime_state \<Rightarrow> runtime_state" where
  "clear_thread_routing_requests_for_conversation conv_key rs =
     (let request_ids = map fst (filter (\<lambda>(_, request). tr_conversation_key request = conv_key)
                                  (thread_routing_requests rs))
      in rs\<lparr>thread_routing_requests := fold hremove request_ids (thread_routing_requests rs)\<rparr>)"

definition remember_thread_routing_request ::
  "thread_routing_request_state \<Rightarrow> runtime_state \<Rightarrow> runtime_state" where
  "remember_thread_routing_request request rs =
     (let rs = clear_telegram_model_switch_requests_for_conversation (tr_conversation_key request) rs
      in rs\<lparr>thread_routing_requests :=
           hinsert (tr_request_id request) request (thread_routing_requests rs)\<rparr>)"

definition thread_routing_request :: "string \<Rightarrow> runtime_state \<Rightarrow> thread_routing_request_state option" where
  "thread_routing_request request_id rs = hget (thread_routing_requests rs) request_id"

definition update_thread_routing_request_message_id ::
  "string \<Rightarrow> string \<Rightarrow> runtime_state \<Rightarrow> bool \<times> runtime_state" where
  "update_thread_routing_request_message_id request_id message_id rs =
     (case hget (thread_routing_requests rs) request_id of
        None \<Rightarrow> (False, rs)
      | Some request \<Rightarrow>
          (True, rs\<lparr>thread_routing_requests :=
             hinsert request_id (request\<lparr>tr_message_id := Some message_id\<rparr>) (thread_routing_requests rs)\<rparr>))"

definition clear_thread_routing_request ::
  "string \<Rightarrow> runtime_state \<Rightarrow> thread_routing_request_state option \<times> runtime_state" where
  "clear_thread_routing_request request_id rs =
     (hget (thread_routing_requests rs) request_id,
      rs\<lparr>thread_routing_requests := hremove request_id (thread_routing_requests rs)\<rparr>)"

subsection \<open>The thread-settings editor\<close>

definition put_switch_request :: "string \<Rightarrow> model_switch_request \<Rightarrow> runtime_state \<Rightarrow> runtime_state" where
  "put_switch_request request_id request rs =
     rs\<lparr>telegram_model_switch_requests :=
        hinsert request_id request (telegram_model_switch_requests rs)\<rparr>"

definition is_current_telegram_model_switch_request :: "string \<Rightarrow> string \<Rightarrow> runtime_state \<Rightarrow> bool" where
  "is_current_telegram_model_switch_request request_id conv_key rs =
     (hget (telegram_model_switch_request_by_conversation rs) conv_key = Some request_id)"

definition clear_telegram_model_switch_request ::
  "string \<Rightarrow> runtime_state \<Rightarrow> model_switch_request option \<times> runtime_state" where
  "clear_telegram_model_switch_request request_id rs =
     (case hget (telegram_model_switch_requests rs) request_id of
        None \<Rightarrow> (None, rs)
      | Some request \<Rightarrow>
          (let rs = rs\<lparr>telegram_model_switch_requests :=
                 hremove request_id (telegram_model_switch_requests rs)\<rparr>
           in (Some request,
               if is_current_telegram_model_switch_request request_id (ms_conversation_key request) rs
               then rs\<lparr>telegram_model_switch_request_by_conversation :=
                      hremove (ms_conversation_key request)
                        (telegram_model_switch_request_by_conversation rs)\<rparr>
               else rs)))"

definition remember_telegram_model_switch_request ::
  "model_switch_request \<Rightarrow> runtime_state \<Rightarrow> runtime_state" where
  "remember_telegram_model_switch_request request rs =
     (let rs = clear_thread_routing_requests_for_conversation (ms_conversation_key request) rs;
          rs = snd (clear_telegram_model_switch_request (ms_request_id request) rs);
          rs = clear_telegram_model_switch_requests_for_conversation (ms_conversation_key request) rs;
          rs = rs\<lparr>telegram_model_switch_request_by_conversation :=
                 hinsert (ms_conversation_key request) (ms_request_id request)
                   (telegram_model_switch_request_by_conversation rs)\<rparr>
      in put_switch_request (ms_request_id request) request rs)"

definition telegram_model_switch_request :: "string \<Rightarrow> runtime_state \<Rightarrow> model_switch_request option" where
  "telegram_model_switch_request request_id rs = hget (telegram_model_switch_requests rs) request_id"

definition current_telegram_model_switch_request ::
  "string \<Rightarrow> runtime_state \<Rightarrow> model_switch_request option" where
  "current_telegram_model_switch_request conv_key rs =
     (case hget (telegram_model_switch_request_by_conversation rs) conv_key of
        None \<Rightarrow> None
      | Some request_id \<Rightarrow> hget (telegram_model_switch_requests rs) request_id)"

definition thread_settings_snapshot_of :: "string \<Rightarrow> runtime_state \<Rightarrow> thread_settings_snapshot" where
  "thread_settings_snapshot_of thread_id rs =
     unwrap_or (hget (thread_settings_by_thread rs) thread_id) snapshot_default"

datatype settings_observation =
  NoObservation | Confirmed model_switch_request | Stale model_switch_request

text \<open>The part of \<open>observe_thread_settings\<close> after the request was found and its \<open>observed\<close> field set.\<close>

definition stale_request :: "model_switch_request \<Rightarrow> model_switch_request" where
  "stale_request request =
     request\<lparr>ms_stale := True, ms_pending_apply := None, ms_compatibility := None, ms_stage := Overview,
       ms_revision := sat_add (ms_revision request) 1\<rparr>"

definition observe_request ::
  "string \<Rightarrow> model_switch_request \<Rightarrow> thread_settings_snapshot \<Rightarrow> thread_settings_snapshot
     \<Rightarrow> thread_settings_snapshot \<Rightarrow> runtime_state \<Rightarrow> settings_observation \<times> runtime_state" where
  "observe_request request_id request previous update merged rs =
     (let request = request\<lparr>ms_observed := merged\<rparr>;
          rs = put_switch_request request_id request rs;
          confirmed = (case ms_pending_apply request of
                         None \<Rightarrow> False
                       | Some pending \<Rightarrow>
                           telegram_thread_settings_patch_matches (pe_patch pending) merged)
      in if confirmed
         then (case clear_telegram_model_switch_request request_id rs of
                 (Some request, rs) \<Rightarrow> (Confirmed request, rs)
               | (None, rs) \<Rightarrow> (NoObservation, rs))
         else if \<not> ms_stale request
              \<and> telegram_thread_settings_draft_was_changed_externally (ms_draft request) previous update
         then (Stale (stale_request request), put_switch_request request_id (stale_request request) rs)
         else (NoObservation, rs))"

definition observe_thread_settings ::
  "string \<Rightarrow> thread_settings_snapshot \<Rightarrow> runtime_state \<Rightarrow> settings_observation \<times> runtime_state" where
  "observe_thread_settings thread_id update rs =
     (let previous = thread_settings_snapshot_of thread_id rs;
          merged = merge_from previous update;
          rs = rs\<lparr>thread_settings_by_thread :=
                 hinsert thread_id merged (thread_settings_by_thread rs)\<rparr>
      in case List.find (\<lambda>(_, request). ms_expected_thread_id request = thread_id)
                (telegram_model_switch_requests rs) of
           None \<Rightarrow> (NoObservation, rs)
         | Some (request_id, request) \<Rightarrow>
             observe_request request_id request previous update merged rs)"

definition update_telegram_model_switch_request ::
  "model_switch_request \<Rightarrow> runtime_state \<Rightarrow> bool \<times> runtime_state" where
  "update_telegram_model_switch_request request rs =
     (if \<not> is_current_telegram_model_switch_request (ms_request_id request) (ms_conversation_key request) rs
      then (False, rs)
      else (True, put_switch_request (ms_request_id request) request rs))"

definition claim_telegram_thread_settings_apply ::
  "string \<Rightarrow> nat \<Rightarrow> thread_settings_patch \<Rightarrow> nat \<Rightarrow> runtime_state
     \<Rightarrow> model_switch_request option \<times> runtime_state" where
  "claim_telegram_thread_settings_apply request_id revision patch submitted_at_ms rs =
     (case hget (telegram_model_switch_requests rs) request_id of
        None \<Rightarrow> (None, rs)
      | Some request \<Rightarrow>
          if ms_revision request \<noteq> revision \<or> ms_pending_apply request \<noteq> None \<or> ms_stale request
          then (None, rs)
          else (let request = request\<lparr>ms_pending_apply := Some \<lparr> pe_patch = patch,
                       pe_submitted_at_ms = submitted_at_ms \<rparr>\<rparr>
                in (Some request, put_switch_request request_id request rs)))"

definition take_unconfirmed_telegram_thread_settings_apply ::
  "string \<Rightarrow> nat \<Rightarrow> runtime_state \<Rightarrow> model_switch_request option \<times> runtime_state" where
  "take_unconfirmed_telegram_thread_settings_apply request_id revision rs =
     (case hget (telegram_model_switch_requests rs) request_id of
        None \<Rightarrow> (None, rs)
      | Some request \<Rightarrow>
          if ms_revision request \<noteq> revision \<or> ms_pending_apply request = None then (None, rs)
          else clear_telegram_model_switch_request request_id rs)"

definition release_telegram_thread_settings_apply ::
  "string \<Rightarrow> nat \<Rightarrow> runtime_state \<Rightarrow> model_switch_request option \<times> runtime_state" where
  "release_telegram_thread_settings_apply request_id revision rs =
     (case hget (telegram_model_switch_requests rs) request_id of
        None \<Rightarrow> (None, rs)
      | Some request \<Rightarrow>
          if ms_revision request \<noteq> revision \<or> ms_pending_apply request = None then (None, rs)
          else (let request = request\<lparr>ms_pending_apply := None\<rparr>
                in (Some request, put_switch_request request_id request rs)))"

definition update_telegram_model_switch_request_message_id ::
  "string \<Rightarrow> string \<Rightarrow> runtime_state \<Rightarrow> bool \<times> runtime_state" where
  "update_telegram_model_switch_request_message_id request_id message_id rs =
     (case hget (telegram_model_switch_requests rs) request_id of
        None \<Rightarrow> (False, rs)
      | Some request \<Rightarrow>
          (True, put_switch_request request_id (request\<lparr>ms_message_id := Some message_id\<rparr>) rs))"

subsection \<open>Coherence\<close>

text \<open>The index holds exactly the conversations with a request, each with its only request; ids are
  the keys; no conversation has a routing menu and a settings editor.\<close>

definition index_exact ::
  "(string \<Rightarrow> model_switch_request option) \<Rightarrow> (string \<Rightarrow> string option) \<Rightarrow> bool" where
  "index_exact requests index \<longleftrightarrow>
     (\<forall>c i. index c = Some i \<longleftrightarrow> (\<exists>r. requests i = Some r \<and> ms_conversation_key r = c))"

definition ids_are_keys :: "('r \<Rightarrow> string) \<Rightarrow> (string \<Rightarrow> 'r option) \<Rightarrow> bool" where
  "ids_are_keys request_id m \<longleftrightarrow> (\<forall>i r. m i = Some r \<longrightarrow> request_id r = i)"

definition menus_exclusive :: "(string \<Rightarrow> thread_routing_request_state option) \<Rightarrow> (string \<Rightarrow> string option) \<Rightarrow> bool" where
  "menus_exclusive routings index \<longleftrightarrow> (\<forall>i r. routings i = Some r \<longrightarrow> index (tr_conversation_key r) = None)"

definition menu_inv :: "runtime_state \<Rightarrow> bool" where
  "menu_inv rs \<longleftrightarrow>
     hwf (telegram_model_switch_requests rs) \<and> hwf (thread_routing_requests rs) \<and>
     index_exact (hget (telegram_model_switch_requests rs)) (hget (telegram_model_switch_request_by_conversation rs)) \<and>
     ids_are_keys ms_request_id (hget (telegram_model_switch_requests rs)) \<and>
     ids_are_keys tr_request_id (hget (thread_routing_requests rs)) \<and>
     menus_exclusive (hget (thread_routing_requests rs)) (hget (telegram_model_switch_request_by_conversation rs))"

lemma index_exactD:
  "index_exact S B \<Longrightarrow> S i = Some r \<Longrightarrow> B (ms_conversation_key r) = Some i"
  "index_exact S B \<Longrightarrow> B c = Some i \<Longrightarrow> \<exists>r. S i = Some r \<and> ms_conversation_key r = c"
  by (auto simp: index_exact_def)

lemma index_exact_clear_conversation:
  assumes "index_exact S B"
    and "\<And>k. S' k = (case S k of None \<Rightarrow> None | Some r \<Rightarrow> if ms_conversation_key r = c then None else Some r)"
  shows "index_exact S' (B(c := None))"
  using assms(1) unfolding index_exact_def assms(2) by (auto split: option.splits if_splits)

lemma index_exact_remove:
  assumes "index_exact S B" and "S i = Some r"
  shows "index_exact (S(i := None)) (B(ms_conversation_key r := None))"
  unfolding index_exact_def
proof (intro allI)
  fix c j
  show "(B(ms_conversation_key r := None)) c = Some j \<longleftrightarrow>
      (\<exists>q. (S(i := None)) j = Some q \<and> ms_conversation_key q = c)"
    using assms(2) index_exactD(1)[OF assms(1)] index_exactD(2)[OF assms(1)]
    by (cases "j = i"; cases "c = ms_conversation_key r"; simp) (metis option.inject)+
qed

lemma index_exact_put:
  assumes "index_exact S B" and "S i = Some r" and "ms_conversation_key r' = ms_conversation_key r"
  shows "index_exact (S(i := Some r')) B"
  using assms by (auto simp: index_exact_def)

lemma index_exact_new:
  assumes "index_exact S B" and "B c = None" and "S i = None" and "ms_conversation_key r = c"
  shows "index_exact (S(i := Some r)) (B(c := Some i))"
  unfolding index_exact_def
proof (intro allI)
  fix c' j
  show "(B(c := Some i)) c' = Some j \<longleftrightarrow> (\<exists>q. (S(i := Some r)) j = Some q \<and> ms_conversation_key q = c')"
    using assms(2-4) index_exactD(1)[OF assms(1)] index_exactD(2)[OF assms(1)]
    by (cases "j = i"; cases "c' = c"; simp) (metis option.inject option.distinct(1))+
qed

lemma menus_exclusive_smaller:
  "menus_exclusive T B \<Longrightarrow> (\<And>c. B' c = None \<or> B' c = B c) \<Longrightarrow> (\<And>i. T' i = None \<or> T' i = T i) \<Longrightarrow> menus_exclusive T' B'"
  unfolding menus_exclusive_def by (metis option.distinct(1))

lemma ids_are_keys_smaller:
  "ids_are_keys f T \<Longrightarrow> (\<And>i. T' i = None \<or> T' i = T i) \<Longrightarrow> ids_are_keys f T'"
  unfolding ids_are_keys_def by (metis option.distinct(1))

lemma menu_inv_default: "menu_inv runtime_default"
  by (simp add: menu_inv_def index_exact_def ids_are_keys_def menus_exclusive_def)

lemma hget_fun [simp]:
  "hget (hinsert k v m) = (hget m)(k := Some v)" "hget (hremove k m) = (hget m)(k := None)"
  by (auto simp: fun_eq_iff)

lemma hget_fold_hremove: "hget (fold hremove ks m) k = (if k \<in> set ks then None else hget m k)"
  by (induction ks arbitrary: m) auto

lemma hwf_fold_hremove: "hwf m \<Longrightarrow> hwf (fold hremove ks m)"
  by (induction ks arbitrary: m) auto

lemma hget_clear_matching:
  assumes "hwf m"
  shows "hget (fold hremove (map fst (filter (\<lambda>(_, r). P r) m)) m) k =
     (case hget m k of None \<Rightarrow> None | Some r \<Rightarrow> if P r then None else Some r)"
proof (cases "hget m k")
  case None
  then show ?thesis by (simp add: hget_fold_hremove)
next
  case (Some r)
  have "k \<in> set (map fst (filter (\<lambda>(_, r). P r) m)) \<longleftrightarrow> P r"
  proof
    assume "k \<in> set (map fst (filter (\<lambda>(_, r). P r) m))"
    then obtain r' where "(k, r') \<in> set m" "P r'" by auto
    then show "P r" using hwf_in_set_hget[OF assms, of k r'] Some by simp
  next
    assume "P r"
    then show "k \<in> set (map fst (filter (\<lambda>(_, r). P r) m))"
      using hget_in_set[OF Some] by (auto intro!: image_eqI[of _ fst "(k, r)"])
  qed
  then show ?thesis using Some by (simp add: hget_fold_hremove)
qed

lemma clear_switches_maps:
  assumes "hwf (telegram_model_switch_requests rs)"
  shows "hwf (telegram_model_switch_requests (clear_telegram_model_switch_requests_for_conversation c rs))"
    and "hget (telegram_model_switch_requests (clear_telegram_model_switch_requests_for_conversation c rs)) k =
     (case hget (telegram_model_switch_requests rs) k of None \<Rightarrow> None
        | Some r \<Rightarrow> if ms_conversation_key r = c then None else Some r)"
    and "telegram_model_switch_request_by_conversation (clear_telegram_model_switch_requests_for_conversation c rs)
       = hremove c (telegram_model_switch_request_by_conversation rs)"
    and "thread_routing_requests (clear_telegram_model_switch_requests_for_conversation c rs) = thread_routing_requests rs"
  using hget_clear_matching[OF assms, of "\<lambda>r. ms_conversation_key r = c"]
  by (simp_all add: clear_telegram_model_switch_requests_for_conversation_def Let_def hwf_fold_hremove assms)

lemma clear_routings_maps:
  assumes "hwf (thread_routing_requests rs)"
  shows "hwf (thread_routing_requests (clear_thread_routing_requests_for_conversation c rs))"
    and "hget (thread_routing_requests (clear_thread_routing_requests_for_conversation c rs)) k =
     (case hget (thread_routing_requests rs) k of None \<Rightarrow> None
        | Some r \<Rightarrow> if tr_conversation_key r = c then None else Some r)"
    and "telegram_model_switch_request_by_conversation (clear_thread_routing_requests_for_conversation c rs)
       = telegram_model_switch_request_by_conversation rs"
    and "telegram_model_switch_requests (clear_thread_routing_requests_for_conversation c rs)
       = telegram_model_switch_requests rs"
  using hget_clear_matching[OF assms, of "\<lambda>r. tr_conversation_key r = c"]
  by (simp_all add: clear_thread_routing_requests_for_conversation_def Let_def hwf_fold_hremove assms)

lemma menu_inv_clear_switches:
  assumes "menu_inv rs"
  shows "menu_inv (clear_telegram_model_switch_requests_for_conversation c rs)"
proof -
  let ?rs = "clear_telegram_model_switch_requests_for_conversation c rs"
  have inv: "hwf (telegram_model_switch_requests rs)" "hwf (thread_routing_requests rs)"
    "index_exact (hget (telegram_model_switch_requests rs)) (hget (telegram_model_switch_request_by_conversation rs))"
    "ids_are_keys ms_request_id (hget (telegram_model_switch_requests rs))"
    "ids_are_keys tr_request_id (hget (thread_routing_requests rs))"
    "menus_exclusive (hget (thread_routing_requests rs)) (hget (telegram_model_switch_request_by_conversation rs))"
    using assms by (simp_all add: menu_inv_def)
  note maps = clear_switches_maps[OF inv(1), of c]
  have "index_exact (hget (telegram_model_switch_requests ?rs))
      ((hget (telegram_model_switch_request_by_conversation rs))(c := None))"
    by (rule index_exact_clear_conversation[OF inv(3) maps(2)])
  moreover have "ids_are_keys ms_request_id (hget (telegram_model_switch_requests ?rs))"
    by (rule ids_are_keys_smaller[OF inv(4)]) (auto simp: maps(2) split: option.split)
  moreover have "menus_exclusive (hget (thread_routing_requests rs))
      ((hget (telegram_model_switch_request_by_conversation rs))(c := None))"
    by (rule menus_exclusive_smaller[OF inv(6)]) auto
  ultimately show ?thesis using inv(2,5) maps(1) unfolding menu_inv_def maps(3,4) by simp
qed

lemma menu_inv_clear_routings:
  assumes "menu_inv rs"
  shows "menu_inv (clear_thread_routing_requests_for_conversation c rs)"
proof -
  let ?rs = "clear_thread_routing_requests_for_conversation c rs"
  have wf: "hwf (thread_routing_requests rs)" using assms by (simp add: menu_inv_def)
  note maps = clear_routings_maps[OF wf, of c]
  have smaller: "hget (thread_routing_requests ?rs) i = None \<or>
      hget (thread_routing_requests ?rs) i = hget (thread_routing_requests rs) i" for i
    by (auto simp: maps(2) split: option.split)
  have "ids_are_keys tr_request_id (hget (thread_routing_requests ?rs))"
    by (rule ids_are_keys_smaller[OF _ smaller]) (use assms in \<open>simp add: menu_inv_def\<close>)
  moreover have "menus_exclusive (hget (thread_routing_requests ?rs))
      (hget (telegram_model_switch_request_by_conversation rs))"
    by (rule menus_exclusive_smaller[of "hget (thread_routing_requests rs)"
          "hget (telegram_model_switch_request_by_conversation rs)", OF _ _ smaller])
       (use assms in \<open>simp_all add: menu_inv_def\<close>)
  ultimately show ?thesis using assms maps(1) unfolding menu_inv_def maps(3,4) by simp
qed

lemma menu_inv_put_routing:
  assumes "menu_inv rs"
    and "hget (telegram_model_switch_request_by_conversation rs) (tr_conversation_key request) = None"
  shows "menu_inv (rs\<lparr>thread_routing_requests :=
    hinsert (tr_request_id request) request (thread_routing_requests rs)\<rparr>)"
  using assms by (simp add: menu_inv_def ids_are_keys_def menus_exclusive_def)

lemma menu_inv_remember_routing:
  assumes "menu_inv rs"
  shows "menu_inv (remember_thread_routing_request request rs)"
proof -
  have wf: "hwf (telegram_model_switch_requests rs)" using assms by (simp add: menu_inv_def)
  show ?thesis
    using menu_inv_put_routing[OF menu_inv_clear_switches[OF assms], of "tr_conversation_key request" request]
    by (simp add: remember_thread_routing_request_def Let_def clear_switches_maps(3)[OF wf])
qed

lemma clear_switch_maps:
  assumes "menu_inv rs"
  shows "clear_telegram_model_switch_request i rs =
     (case hget (telegram_model_switch_requests rs) i of None \<Rightarrow> (None, rs)
      | Some r \<Rightarrow> (Some r, rs\<lparr>telegram_model_switch_requests := hremove i (telegram_model_switch_requests rs),
          telegram_model_switch_request_by_conversation :=
            hremove (ms_conversation_key r) (telegram_model_switch_request_by_conversation rs)\<rparr>))"
  using assms index_exactD(1)[of "hget (telegram_model_switch_requests rs)" _ i]
  by (auto simp: clear_telegram_model_switch_request_def menu_inv_def Let_def
      is_current_telegram_model_switch_request_def split: option.split)

lemma menu_inv_clear_switch:
  assumes "menu_inv rs"
  shows "menu_inv (snd (clear_telegram_model_switch_request i rs))"
proof (cases "hget (telegram_model_switch_requests rs) i")
  case None
  then show ?thesis using assms by (simp add: clear_switch_maps)
next
  case (Some r)
  have "index_exact ((hget (telegram_model_switch_requests rs))(i := None))
      ((hget (telegram_model_switch_request_by_conversation rs))(ms_conversation_key r := None))"
    by (rule index_exact_remove[of "hget (telegram_model_switch_requests rs)", OF _ Some]) (use assms in \<open>simp add: menu_inv_def\<close>)
  moreover have "ids_are_keys ms_request_id ((hget (telegram_model_switch_requests rs))(i := None))"
    by (rule ids_are_keys_smaller[of _ "hget (telegram_model_switch_requests rs)"])
       (use assms in \<open>auto simp: menu_inv_def\<close>)
  moreover have "menus_exclusive (hget (thread_routing_requests rs))
      ((hget (telegram_model_switch_request_by_conversation rs))(ms_conversation_key r := None))"
    by (rule menus_exclusive_smaller[of _ "hget (telegram_model_switch_request_by_conversation rs)"])
       (use assms in \<open>auto simp: menu_inv_def\<close>)
  ultimately show ?thesis
    using assms Some unfolding clear_switch_maps[OF assms] by (simp add: menu_inv_def fun_upd_def)
qed

lemma menu_inv_put:
  assumes "menu_inv rs" and "hget (telegram_model_switch_requests rs) i = Some r"
    and "ms_request_id r' = i" and "ms_conversation_key r' = ms_conversation_key r"
  shows "menu_inv (put_switch_request i r' rs)"
  using assms index_exact_put[of "hget (telegram_model_switch_requests rs)", OF _ assms(2,4)]
  by (simp add: menu_inv_def put_switch_request_def ids_are_keys_def fun_upd_def)

lemma menu_inv_open:
  assumes inv: "menu_inv rs"
    and fresh: "hget (telegram_model_switch_requests rs) (ms_request_id request) = None"
      "hget (telegram_model_switch_request_by_conversation rs) (ms_conversation_key request) = None"
    and none: "\<And>j q. hget (thread_routing_requests rs) j = Some q \<Longrightarrow>
      tr_conversation_key q \<noteq> ms_conversation_key request"
  shows "menu_inv (rs\<lparr>telegram_model_switch_request_by_conversation :=
      hinsert (ms_conversation_key request) (ms_request_id request) (telegram_model_switch_request_by_conversation rs),
    telegram_model_switch_requests := hinsert (ms_request_id request) request (telegram_model_switch_requests rs)\<rparr>)"
proof -
  have "index_exact ((hget (telegram_model_switch_requests rs))(ms_request_id request := Some request))
      ((hget (telegram_model_switch_request_by_conversation rs))(ms_conversation_key request := Some (ms_request_id request)))"
    using inv fresh by (intro index_exact_new) (simp_all add: menu_inv_def)
  moreover have "menus_exclusive (hget (thread_routing_requests rs))
      ((hget (telegram_model_switch_request_by_conversation rs))(ms_conversation_key request := Some (ms_request_id request)))"
    using inv none by (auto simp: menu_inv_def menus_exclusive_def)
  moreover have "ids_are_keys ms_request_id ((hget (telegram_model_switch_requests rs))(ms_request_id request := Some request))"
    using inv by (simp add: menu_inv_def ids_are_keys_def)
  ultimately show ?thesis
    using inv by (simp add: menu_inv_def fun_upd_def)
qed

lemma menu_inv_remember_switch:
  assumes "menu_inv rs"
  shows "menu_inv (remember_telegram_model_switch_request request rs)"
proof -
  let ?c = "ms_conversation_key request" and ?i = "ms_request_id request"
  let ?rs1 = "clear_thread_routing_requests_for_conversation ?c rs"
  let ?rs2 = "snd (clear_telegram_model_switch_request ?i ?rs1)"
  let ?rs3 = "clear_telegram_model_switch_requests_for_conversation ?c ?rs2"
  have inv1: "menu_inv ?rs1" and inv2: "menu_inv ?rs2" and inv3: "menu_inv ?rs3"
    using assms by (simp_all add: menu_inv_clear_routings menu_inv_clear_switch menu_inv_clear_switches)
  have wf0: "hwf (thread_routing_requests rs)" and wf2: "hwf (telegram_model_switch_requests ?rs2)"
    using assms inv2 by (simp_all add: menu_inv_def)
  have gone: "hget (telegram_model_switch_requests ?rs2) ?i = None"
    by (simp add: clear_switch_maps[OF inv1] split: option.split)
  have routings: "thread_routing_requests ?rs2 = thread_routing_requests ?rs1"
    by (simp add: clear_switch_maps[OF inv1] split: option.split)
  have "hget (telegram_model_switch_requests ?rs3) ?i = None"
    using gone by (simp add: clear_switches_maps(2)[OF wf2])
  moreover have "hget (telegram_model_switch_request_by_conversation ?rs3) ?c = None"
    by (simp add: clear_switches_maps(3)[OF wf2])
  moreover have "hget (thread_routing_requests ?rs3) j = Some q \<Longrightarrow> tr_conversation_key q \<noteq> ?c" for j q
    by (auto simp: clear_switches_maps(4)[OF wf2] routings clear_routings_maps(2)[OF wf0]
        split: option.splits if_splits)
  ultimately have "menu_inv (?rs3\<lparr>telegram_model_switch_request_by_conversation :=
      hinsert ?c ?i (telegram_model_switch_request_by_conversation ?rs3),
    telegram_model_switch_requests := hinsert ?i request (telegram_model_switch_requests ?rs3)\<rparr>)"
    by (rule menu_inv_open[OF inv3])
  then show ?thesis
    unfolding remember_telegram_model_switch_request_def put_switch_request_def Let_def by simp
qed

lemma menu_inv_settings [simp]:
  "menu_inv (rs\<lparr>thread_settings_by_thread := m\<rparr>) = menu_inv rs"
  by (simp add: menu_inv_def)

lemma menu_inv_observe_request:
  assumes "menu_inv rs" and at: "hget (telegram_model_switch_requests rs) i = Some r"
  shows "menu_inv (snd (observe_request i r previous update merged rs))"
proof -
  let ?r = "r\<lparr>ms_observed := merged\<rparr>"
  let ?rs = "put_switch_request i ?r rs"
  have id: "ms_request_id r = i" using assms by (simp add: menu_inv_def ids_are_keys_def)
  have inv: "menu_inv ?rs" by (rule menu_inv_put[OF assms]) (simp_all add: id)
  have at': "hget (telegram_model_switch_requests ?rs) i = Some ?r" by (simp add: put_switch_request_def)
  have stale: "menu_inv (put_switch_request i (stale_request ?r) ?rs)"
    by (rule menu_inv_put[OF inv at']) (simp_all add: id stale_request_def)
  show ?thesis
    using inv stale menu_inv_clear_switch[OF inv, of i]
    by (auto simp: observe_request_def Let_def split: option.split prod.split)
qed

lemma menu_inv_observe:
  assumes "menu_inv rs"
  shows "menu_inv (snd (observe_thread_settings t update rs))"
proof (cases "List.find (\<lambda>(_, request). ms_expected_thread_id request = t) (telegram_model_switch_requests rs)")
  case None
  then show ?thesis using assms by (simp add: observe_thread_settings_def Let_def)
next
  case (Some p)
  obtain i r where p: "p = (i, r)" by fastforce
  have "(i, r) \<in> set (telegram_model_switch_requests rs)" using find_Some_in[OF Some] p by simp
  then have at: "hget (telegram_model_switch_requests rs) i = Some r"
    using assms by (intro hwf_in_set_hget) (simp_all add: menu_inv_def)
  show ?thesis
    using Some p menu_inv_observe_request[of "rs\<lparr>thread_settings_by_thread := m\<rparr>" i r for m] assms at
    by (simp add: observe_thread_settings_def Let_def)
qed

inductive menu_step :: "runtime_state \<Rightarrow> runtime_state \<Rightarrow> bool" where
  routing_opened: "menu_step rs (remember_thread_routing_request request rs)"
| routing_message: "menu_step rs (snd (update_thread_routing_request_message_id i mid rs))"
| routing_closed: "menu_step rs (snd (clear_thread_routing_request i rs))"
| routings_closed: "menu_step rs (clear_thread_routing_requests_for_conversation c rs)"
| editor_opened: "menu_step rs (remember_telegram_model_switch_request switch rs)"
| settings_observed: "menu_step rs (snd (observe_thread_settings t update rs))"
| editor_updated: "menu_step rs (snd (update_telegram_model_switch_request switch rs))"
| apply_claimed: "menu_step rs (snd (claim_telegram_thread_settings_apply i revision patch now rs))"
| apply_expired: "menu_step rs (snd (take_unconfirmed_telegram_thread_settings_apply i revision rs))"
| apply_released: "menu_step rs (snd (release_telegram_thread_settings_apply i revision rs))"
| editor_message: "menu_step rs (snd (update_telegram_model_switch_request_message_id i mid rs))"
| editor_closed: "menu_step rs (snd (clear_telegram_model_switch_request i rs))"
| editors_closed: "menu_step rs (clear_telegram_model_switch_requests_for_conversation c rs)"

lemma menu_inv_put_known:
  "menu_inv rs \<Longrightarrow> hget (telegram_model_switch_requests rs) i = Some r \<Longrightarrow>
   ms_request_id r' = ms_request_id r \<Longrightarrow> ms_conversation_key r' = ms_conversation_key r \<Longrightarrow>
   menu_inv (put_switch_request i r' rs)"
  by (rule menu_inv_put) (simp_all add: menu_inv_def ids_are_keys_def)

lemma menu_inv_update:
  assumes "menu_inv rs"
  shows "menu_inv (snd (update_telegram_model_switch_request switch rs))"
proof (cases "is_current_telegram_model_switch_request (ms_request_id switch) (ms_conversation_key switch) rs")
  case True
  then obtain r where "hget (telegram_model_switch_requests rs) (ms_request_id switch) = Some r"
    "ms_conversation_key r = ms_conversation_key switch"
    using assms unfolding menu_inv_def is_current_telegram_model_switch_request_def
    by (meson index_exactD(2))
  then show ?thesis
    using True menu_inv_put[OF assms] by (simp add: update_telegram_model_switch_request_def)
next
  case False
  then show ?thesis using assms by (simp add: update_telegram_model_switch_request_def)
qed

lemma menu_inv_routing_message:
  assumes "menu_inv rs"
  shows "menu_inv (snd (update_thread_routing_request_message_id i mid rs))"
proof (cases "hget (thread_routing_requests rs) i")
  case None
  then show ?thesis using assms by (simp add: update_thread_routing_request_message_id_def)
next
  case (Some r)
  have "tr_request_id r = i" "hget (telegram_model_switch_request_by_conversation rs) (tr_conversation_key r) = None"
    using assms Some by (auto simp: menu_inv_def ids_are_keys_def menus_exclusive_def)
  then show ?thesis
    using Some menu_inv_put_routing[OF assms, of "r\<lparr>tr_message_id := Some mid\<rparr>"]
    by (simp add: update_thread_routing_request_message_id_def)
qed

lemma menu_inv_routing_closed:
  assumes "menu_inv rs"
  shows "menu_inv (snd (clear_thread_routing_request i rs))"
  using assms
  by (auto simp: clear_thread_routing_request_def menu_inv_def ids_are_keys_def menus_exclusive_def)

lemma menu_step_inv: "menu_step rs rs' \<Longrightarrow> menu_inv rs \<Longrightarrow> menu_inv rs'"
  by (induction rule: menu_step.induct)
     (auto simp: menu_inv_remember_routing menu_inv_routing_message menu_inv_routing_closed
        menu_inv_clear_routings menu_inv_remember_switch menu_inv_observe menu_inv_update
        menu_inv_clear_switch menu_inv_clear_switches claim_telegram_thread_settings_apply_def
        take_unconfirmed_telegram_thread_settings_apply_def release_telegram_thread_settings_apply_def
        update_telegram_model_switch_request_message_id_def Let_def
        intro: menu_inv_put_known split: option.split)

subsection \<open>Properties\<close>

lemma menu_inv_one_menu:
  assumes inv: "menu_inv rs"
  shows "(hget (telegram_model_switch_requests rs) i = Some r \<longrightarrow>
      current_telegram_model_switch_request (ms_conversation_key r) rs = Some r \<and>
      (\<forall>j q. hget (telegram_model_switch_requests rs) j = Some q \<and>
         ms_conversation_key q = ms_conversation_key r \<longrightarrow> j = i \<and> q = r)) \<and>
    (hget (thread_routing_requests rs) k = Some m \<longrightarrow>
      current_telegram_model_switch_request (tr_conversation_key m) rs = None)"
proof -
  have index: "index_exact (hget (telegram_model_switch_requests rs))
      (hget (telegram_model_switch_request_by_conversation rs))"
    using inv by (simp add: menu_inv_def)
  have "hget (thread_routing_requests rs) k = Some m \<Longrightarrow>
      hget (telegram_model_switch_request_by_conversation rs) (tr_conversation_key m) = None"
    using inv by (simp add: menu_inv_def menus_exclusive_def)
  moreover have "j = i \<and> q = r"
    if "hget (telegram_model_switch_requests rs) i = Some r" "hget (telegram_model_switch_requests rs) j = Some q"
      "ms_conversation_key q = ms_conversation_key r" for j q
    using index_exactD(1)[OF index that(1)] index_exactD(1)[OF index that(2)] that by simp
  moreover have "current_telegram_model_switch_request (ms_conversation_key r) rs = Some r"
    if "hget (telegram_model_switch_requests rs) i = Some r"
    using index_exactD(1)[OF index that] that by (simp add: current_telegram_model_switch_request_def)
  ultimately show ?thesis by (auto simp: current_telegram_model_switch_request_def)
qed

definition sample_draft :: thread_create_draft_state where
  "sample_draft = \<lparr> cd_cwd_choice = None, cd_cwd_custom = None, cd_model = None, cd_effort = None,
     cd_permission = None \<rparr>"

definition sample_routing :: thread_routing_request_state where
  "sample_routing = \<lparr> tr_request_id = ''r1'', tr_conversation_key = ''c'', tr_account_id = ''a'',
     tr_chat_id = ''1'', tr_message_id = None, tr_stage = Choice, tr_page = 0, tr_page_cursors = [],
     tr_thread_ids_by_page = [], tr_create_draft = sample_draft,
     tr_create_option_values_by_field_page = [], tr_history_cursor = None, tr_history_has_next = False \<rparr>"

definition sample_editor :: model_switch_request where
  "sample_editor = \<lparr> ms_request_id = ''e1'', ms_conversation_key = ''c'', ms_account_id = ''a'',
     ms_chat_id = ''1'', ms_expected_thread_id = ''th'', ms_remote_client_key = ''k'', ms_catalog = [],
     ms_observed = snapshot_default,
     ms_draft = \<lparr> dr_model = Some ''m2'', dr_effort = None, dr_speed = None \<rparr>,
     ms_revision = 3, ms_expires_at_ms = 99, ms_stage = Overview, ms_model_page = 0,
     ms_compatibility = None, ms_pending_apply = None, ms_stale = False, ms_message_id = None \<rparr>"

text \<open>Opening the editor closes the routing menu; opening the routing menu closes the editor.\<close>

definition sample_menus :: runtime_state where
  "sample_menus = remember_thread_routing_request sample_routing
     (remember_telegram_model_switch_request sample_editor runtime_default)"

lemma sample_menus_reached: "menu_step\<^sup>*\<^sup>* runtime_default sample_menus"
  unfolding sample_menus_def
  by (meson menu_step.editor_opened menu_step.routing_opened rtranclp.rtrancl_into_rtrancl rtranclp.rtrancl_refl)

text \<open>A settings edit is submitted once. A claim succeeds only for the request's current
  revision, when it is not stale and nothing is submitted; it returns the request with the patch as
  pending, and from then on every claim on the request is refused until it is released; the release
  gives the request back as it was.\<close>

theorem settings_apply_claimed_once:
  assumes "claim_telegram_thread_settings_apply i revision patch now rs = (Some r, rs1)"
  shows "(\<exists>r0. hget (telegram_model_switch_requests rs) i = Some r0 \<and> ms_revision r0 = revision \<and>
      \<not> ms_stale r0 \<and> ms_pending_apply r0 = None \<and>
      r = r0\<lparr>ms_pending_apply := Some \<lparr> pe_patch = patch, pe_submitted_at_ms = now \<rparr>\<rparr> \<and>
      claim_telegram_thread_settings_apply i revision' patch' now' rs1 = (None, rs1) \<and>
      fst (release_telegram_thread_settings_apply i revision rs1) = Some r0)"
  using assms
  by (auto simp: claim_telegram_thread_settings_apply_def release_telegram_thread_settings_apply_def
      put_switch_request_def Let_def split: option.splits if_splits)

definition sample_patch :: thread_settings_patch where
  "sample_patch = \<lparr> pv_model = SetValue ''m2'', pv_effort = Unchanged, pv_service_tier = Unchanged \<rparr>"

definition sample_editing :: runtime_state where
  "sample_editing = runtime_default\<lparr>telegram_model_switch_requests := [(''e1'', sample_editor)],
     telegram_model_switch_request_by_conversation := [(''c'', ''e1'')]\<rparr>"

theorem settings_apply_claimed_once_witness:
  "fst (claim_telegram_thread_settings_apply ''e1'' 3 sample_patch 8
     (snd (claim_telegram_thread_settings_apply ''e1'' 3 sample_patch 7 sample_editing))) = None"
proof -
  have "claim_telegram_thread_settings_apply ''e1'' 3 sample_patch 7 sample_editing =
     (Some (sample_editor\<lparr>ms_pending_apply := Some \<lparr> pe_patch = sample_patch, pe_submitted_at_ms = 7 \<rparr>\<rparr>),
      snd (claim_telegram_thread_settings_apply ''e1'' 3 sample_patch 7 sample_editing))"
    by (simp add: claim_telegram_thread_settings_apply_def sample_editing_def sample_editor_def Let_def)
  from settings_apply_claimed_once[OF this, of 3 sample_patch 8] show ?thesis by auto
qed

text \<open>The editor an observation works on, and the three outcomes for it.\<close>

lemma observed_editor:
  assumes "hwf (telegram_model_switch_requests rs)" and "hget (telegram_model_switch_requests rs) i = Some r"
    and "ms_expected_thread_id r = t"
    and "\<forall>j q. hget (telegram_model_switch_requests rs) j = Some q \<and> ms_expected_thread_id q = t \<longrightarrow> j = i"
  shows "List.find (\<lambda>(_, request). ms_expected_thread_id request = t) (telegram_model_switch_requests rs) = Some (i, r)"
    (is "List.find ?P _ = _")
proof (cases "List.find ?P (telegram_model_switch_requests rs)")
  case None
  then show ?thesis using hget_in_set[OF assms(2)] assms(3) by (auto simp: find_None_iff_all)
next
  case (Some p)
  obtain j q where p: "p = (j, q)" by fastforce
  have "(j, q) \<in> set (telegram_model_switch_requests rs)" "ms_expected_thread_id q = t"
    using find_Some_in[OF Some] by (simp_all add: p)
  then have "hget (telegram_model_switch_requests rs) j = Some q" "j = i"
    using hwf_in_set_hget[OF assms(1)] assms(4) by blast+
  then show ?thesis using Some p assms(2) by simp
qed

lemma observe_request_cases:
  fixes merged r i rs
  defines "r1 \<equiv> r\<lparr>ms_observed := merged\<rparr>"
  defines "rs1 \<equiv> put_switch_request i r1 rs"
  assumes "menu_inv rs1"
  shows "observe_request i r previous update merged rs =
    (if \<exists>pending. ms_pending_apply r = Some pending \<and> telegram_thread_settings_patch_matches (pe_patch pending) merged
     then (Confirmed r1, rs1\<lparr>telegram_model_switch_requests := hremove i (telegram_model_switch_requests rs1),
        telegram_model_switch_request_by_conversation :=
          hremove (ms_conversation_key r) (telegram_model_switch_request_by_conversation rs1)\<rparr>)
     else if \<not> ms_stale r \<and> telegram_thread_settings_draft_was_changed_externally (ms_draft r) previous update
     then (Stale (stale_request r1), put_switch_request i (stale_request r1) rs1)
     else (NoObservation, rs1))"
proof -
  have at: "hget (telegram_model_switch_requests rs1) i = Some r1" by (simp add: rs1_def put_switch_request_def)
  have clear: "clear_telegram_model_switch_request i rs1 = (Some r1,
      rs1\<lparr>telegram_model_switch_requests := hremove i (telegram_model_switch_requests rs1),
        telegram_model_switch_request_by_conversation :=
          hremove (ms_conversation_key r) (telegram_model_switch_request_by_conversation rs1)\<rparr>)"
    unfolding clear_switch_maps[OF assms(3)] at by (simp add: r1_def)
  show ?thesis
    unfolding observe_request_def Let_def r1_def[symmetric] rs1_def[symmetric]
    using at clear by (auto simp: r1_def split: option.splits)
qed

text \<open>What an observation of a thread's settings does to the editor open for it. If the submitted
  patch matches the merged settings, the editor is confirmed and closed; otherwise, if the draft
  edits a setting whose known value changed, the editor becomes stale, its submission is dropped and
  no claim on it succeeds any more; otherwise it stays, with the observed settings recorded. Settings
  the update does not mention keep their value.\<close>

theorem observed_settings_outcome:
  assumes "menu_inv rs" and "hget (telegram_model_switch_requests rs) i = Some r"
    and "ms_expected_thread_id r = t"
    and "\<forall>j q. hget (telegram_model_switch_requests rs) j = Some q \<and> ms_expected_thread_id q = t \<longrightarrow> j = i"
    and "observe_thread_settings t update rs = (outcome, rs')"
    and "merged = merge_from (thread_settings_snapshot_of t rs) update"
  shows "thread_settings_snapshot_of t rs' = merged \<and>
    (if \<exists>pending. ms_pending_apply r = Some pending \<and> telegram_thread_settings_patch_matches (pe_patch pending) merged
     then outcome = Confirmed (r\<lparr>ms_observed := merged\<rparr>) \<and> hget (telegram_model_switch_requests rs') i = None \<and>
       current_telegram_model_switch_request (ms_conversation_key r) rs' = None
     else if \<not> ms_stale r \<and> telegram_thread_settings_draft_was_changed_externally (ms_draft r)
       (thread_settings_snapshot_of t rs) update
     then \<exists>r'. outcome = Stale r' \<and> hget (telegram_model_switch_requests rs') i = Some r' \<and> ms_stale r' \<and>
       ms_pending_apply r' = None \<and> claim_telegram_thread_settings_apply i revision patch now rs' = (None, rs')
     else outcome = NoObservation \<and> hget (telegram_model_switch_requests rs') i = Some (r\<lparr>ms_observed := merged\<rparr>))"
proof -
  let ?confirmed = "\<exists>pending. ms_pending_apply r = Some pending \<and>
    telegram_thread_settings_patch_matches (pe_patch pending) merged"
  let ?stale = "\<not> ms_stale r \<and> telegram_thread_settings_draft_was_changed_externally (ms_draft r)
    (thread_settings_snapshot_of t rs) update"
  let ?rs0 = "rs\<lparr>thread_settings_by_thread := hinsert t merged (thread_settings_by_thread rs)\<rparr>"
  let ?rs1 = "put_switch_request i (r\<lparr>ms_observed := merged\<rparr>) ?rs0"
  have "hwf (telegram_model_switch_requests rs)" using assms(1) by (simp add: menu_inv_def)
  note observed_editor[OF this assms(2-4)]
  then have "observe_request i r (thread_settings_snapshot_of t rs) update merged ?rs0 = (outcome, rs')"
    using assms(5,6) by (simp add: observe_thread_settings_def Let_def)
  moreover have "menu_inv ?rs1"
    using menu_inv_put_known[of ?rs0 i r "r\<lparr>ms_observed := merged\<rparr>"] assms(1,2) by simp
  ultimately have split: "(outcome, rs') = (if ?confirmed
     then (Confirmed (r\<lparr>ms_observed := merged\<rparr>),
        ?rs1\<lparr>telegram_model_switch_requests := hremove i (telegram_model_switch_requests ?rs1),
        telegram_model_switch_request_by_conversation :=
          hremove (ms_conversation_key r) (telegram_model_switch_request_by_conversation ?rs1)\<rparr>)
     else if ?stale then (Stale (stale_request (r\<lparr>ms_observed := merged\<rparr>)),
        put_switch_request i (stale_request (r\<lparr>ms_observed := merged\<rparr>)) ?rs1)
     else (NoObservation, ?rs1))"
    using observe_request_cases[of i merged r ?rs0 "thread_settings_snapshot_of t rs" update] by simp
  consider (confirmed) ?confirmed | (stale) "\<not> ?confirmed" ?stale | (quiet) "\<not> ?confirmed" "\<not> ?stale" by blast
  then show ?thesis
  proof cases
    case confirmed
    show ?thesis using split unfolding if_P[OF confirmed]
      by (simp add: thread_settings_snapshot_of_def current_telegram_model_switch_request_def put_switch_request_def)
  next
    case stale
    show ?thesis using split unfolding if_not_P[OF stale(1)] if_P[OF stale(2)]
      by (auto simp: thread_settings_snapshot_of_def put_switch_request_def stale_request_def
          claim_telegram_thread_settings_apply_def)
  next
    case quiet
    show ?thesis using split unfolding if_not_P[OF quiet(1)] if_not_P[OF quiet(2)]
      by (simp add: thread_settings_snapshot_of_def put_switch_request_def)
  qed
qed

definition sample_update :: thread_settings_snapshot where
  "sample_update = \<lparr> ss_model = Known (Some ''m2''), ss_effort = Unknown, ss_service_tier = Unknown \<rparr>"

definition sample_submitted :: runtime_state where
  "sample_submitted = snd (claim_telegram_thread_settings_apply ''e1'' 3 sample_patch 7 sample_editing)"

theorem observed_settings_outcome_witness:
  "current_telegram_model_switch_request ''c''
     (snd (observe_thread_settings ''th'' sample_update sample_submitted)) = None"
proof -
  let ?r = "sample_editor\<lparr>ms_pending_apply := Some \<lparr> pe_patch = sample_patch, pe_submitted_at_ms = 7 \<rparr>\<rparr>"
  have state: "telegram_model_switch_requests sample_submitted = [(''e1'', ?r)]"
    "telegram_model_switch_request_by_conversation sample_submitted = [(''c'', ''e1'')]"
    "thread_routing_requests sample_submitted = []"
    by (simp_all add: sample_submitted_def claim_telegram_thread_settings_apply_def sample_editing_def
        sample_editor_def put_switch_request_def Let_def)
  have inv: "menu_inv sample_submitted"
    unfolding menu_inv_def state
    by (auto simp: hwf_def index_exact_def ids_are_keys_def menus_exclusive_def sample_editor_def)
  have at: "hget (telegram_model_switch_requests sample_submitted) ''e1'' = Some ?r" by (simp add: state)
  have only: "\<forall>j q. hget (telegram_model_switch_requests sample_submitted) j = Some q \<and>
      ms_expected_thread_id q = ''th'' \<longrightarrow> j = ''e1''" by (simp add: state)
  have thread: "ms_expected_thread_id ?r = ''th''" by (simp add: sample_editor_def)
  note outcome = observed_settings_outcome[OF inv at thread only prod.collapse[symmetric] refl, of sample_update]
  have "ms_conversation_key ?r = ''c''" by (simp add: sample_editor_def)
  moreover have "telegram_thread_settings_patch_matches sample_patch
      (merge_from (thread_settings_snapshot_of ''th'' sample_submitted) sample_update)"
    by (simp add: telegram_thread_settings_patch_matches_def patch_value_matches_def sample_patch_def
        merge_from_def merge_observed_setting_def sample_update_def)
  ultimately show ?thesis using outcome by simp
qed

end
