(* ===== verification/RuntimeCollab.thy ===== *)
theory RuntimeCollab
  imports RuntimeTypes
begin

section \<open>Collaboration progress (src/src/im/runtime.rs, merge_telegram_collab_progress_updates)\<close>

text \<open>
  Updates about sub-agents are merged into a bounded list of entries, one per agent. The lemmas
  show what the merge promises: one entry per agent and at most 64 of them, timestamps never going
  back, updates older than the entry ignored, an agent's status only moving forward unless the
  update is a restart, and that a merge reporting no change changed nothing.
\<close>

definition nonblank :: "string option \<Rightarrow> string option" where
  "nonblank x = opt_filter (\<lambda>value. trim value \<noteq> []) x"

definition collab_should_change :: "collab_status \<Rightarrow> collab_status \<Rightarrow> bool \<Rightarrow> bool" where
  "collab_should_change current status restart =
     (if current = status then False
      else if restart \<and> status = CoRunning then True
      else case current of
             CoRunning \<Rightarrow> True
           | CoResponded \<Rightarrow> status = CoSucceeded \<or> status = CoFailed
           | CoSucceeded \<Rightarrow> status = CoFailed
           | CoInterrupted \<Rightarrow> status = CoFailed
           | CoFailed \<Rightarrow> False)"

text \<open>The three parts of the update of a known agent. Each returns the entry and whether it
  changed; the status part also says whether an old detail is stale.\<close>

definition collab_name_part :: "collab_update \<Rightarrow> collab_entry \<Rightarrow> collab_entry \<times> bool" where
  "collab_name_part update entry =
     (case nonblank (cu_name update) of
        None \<Rightarrow> (entry, False)
      | Some name \<Rightarrow>
          if co_name entry \<noteq> name then (entry\<lparr>co_name := name\<rparr>, True) else (entry, False))"

definition collab_status_part ::
  "collab_update \<Rightarrow> nat \<Rightarrow> collab_entry \<Rightarrow> collab_entry \<times> bool \<times> bool" where
  "collab_status_part update timestamp entry =
     (case cu_status update of
        None \<Rightarrow> (entry, False, False)
      | Some status \<Rightarrow>
          (let should_change = collab_should_change (co_status entry) status (cu_restart update);
               clear_stale_detail =
                 (co_status entry = status \<or> should_change) \<and>
                 (status = CoSucceeded \<or> (cu_restart update \<and> status = CoRunning))
           in if should_change
              then ((if status = CoRunning then entry\<lparr>co_started_at_ms := timestamp\<rparr> else entry)
                      \<lparr>co_status := status\<rparr>, True, clear_stale_detail)
              else (entry, False, clear_stale_detail)))"

definition collab_detail_part :: "collab_update \<Rightarrow> bool \<Rightarrow> collab_entry \<Rightarrow> collab_entry \<times> bool" where
  "collab_detail_part update clear_stale_detail entry =
     (case nonblank (cu_detail update) of
        Some detail \<Rightarrow>
          if co_detail entry \<noteq> Some detail then (entry\<lparr>co_detail := Some detail\<rparr>, True)
          else (entry, False)
      | None \<Rightarrow>
          if clear_stale_detail \<and> co_detail entry \<noteq> None then (entry\<lparr>co_detail := None\<rparr>, True)
          else (entry, False))"

definition update_collab_entry :: "collab_update \<Rightarrow> nat \<Rightarrow> collab_entry \<Rightarrow> collab_entry \<times> bool" where
  "update_collab_entry update timestamp entry =
     (if timestamp < co_updated_at_ms entry then (entry, False)
      else
        (let (entry, name_changed) = collab_name_part update entry;
             (entry, status_changed, clear_stale_detail) = collab_status_part update timestamp entry;
             (entry, detail_changed) = collab_detail_part update clear_stale_detail entry
         in if name_changed \<or> status_changed \<or> detail_changed
            then (entry\<lparr>co_updated_at_ms :=
                    max (max (co_updated_at_ms entry) timestamp) (co_started_at_ms entry)\<rparr>, True)
            else (entry, False)))"

definition new_collab_entry :: "collab_update \<Rightarrow> string \<Rightarrow> nat \<Rightarrow> collab_entry" where
  "new_collab_entry update name timestamp =
     \<lparr> co_agent_id = cu_agent_id update, co_name = name,
       co_status = unwrap_or (cu_status update) CoRunning,
       co_detail = nonblank (cu_detail update),
       co_started_at_ms = timestamp, co_updated_at_ms = timestamp \<rparr>"

text \<open>One pass of the loop: the list, the number of dropped entries, whether something changed.\<close>

definition merge_collab_update ::
  "collab_update \<Rightarrow> collab_entry list \<times> nat \<times> bool \<Rightarrow> collab_entry list \<times> nat \<times> bool" where
  "merge_collab_update update acc =
     (let (entries, dropped_entries, changed) = acc;
          timestamp = max (cu_occurred_at_ms update) 1;
          same_agent = (\<lambda>entry. co_agent_id entry = cu_agent_id update)
      in case List.find same_agent entries of
           Some entry \<Rightarrow>
             (let (entry', entry_changed) = update_collab_entry update timestamp entry
              in (update_first same_agent (\<lambda>_. entry') entries, dropped_entries,
                  changed \<or> entry_changed))
         | None \<Rightarrow>
             if \<not> cu_create_if_missing update then (entries, dropped_entries, changed)
             else case nonblank (cu_name update) of
                    None \<Rightarrow> (entries, dropped_entries, changed)
                  | Some name \<Rightarrow>
                      (let entries = entries @ [new_collab_entry update name timestamp];
                           excess = length entries - TELEGRAM_COLLAB_PROGRESS_MAX_AGENTS
                       in (keep_last TELEGRAM_COLLAB_PROGRESS_MAX_AGENTS entries,
                           (if excess > 0 then sat_add dropped_entries excess else dropped_entries),
                           True)))"

definition merge_telegram_collab_progress_updates ::
  "collab_entry list \<Rightarrow> nat \<Rightarrow> collab_update list \<Rightarrow> collab_entry list \<times> nat \<times> bool" where
  "merge_telegram_collab_progress_updates entries dropped_entries updates =
     fold merge_collab_update updates (entries, dropped_entries, False)"

subsection \<open>One entry\<close>

lemma collab_name_part_frame:
  "collab_name_part u e = (e', c) \<Longrightarrow>
     co_agent_id e' = co_agent_id e \<and> co_status e' = co_status e \<and> co_started_at_ms e' = co_started_at_ms e
     \<and> co_updated_at_ms e' = co_updated_at_ms e \<and> (\<not> c \<longrightarrow> e' = e)"
  by (auto simp: collab_name_part_def split: option.splits if_splits)

lemma collab_status_part_frame:
  "collab_status_part u ts e = (e', c, stale) \<Longrightarrow>
     co_agent_id e' = co_agent_id e \<and> co_updated_at_ms e' = co_updated_at_ms e \<and> (\<not> c \<longrightarrow> e' = e)
     \<and> co_status e' = (case cu_status u of None \<Rightarrow> co_status e
         | Some s \<Rightarrow> if collab_should_change (co_status e) s (cu_restart u) then s else co_status e)"
  by (auto simp: collab_status_part_def Let_def split: option.splits if_splits)

lemma collab_detail_part_frame:
  "collab_detail_part u stale e = (e', c) \<Longrightarrow>
     co_agent_id e' = co_agent_id e \<and> co_status e' = co_status e \<and> co_started_at_ms e' = co_started_at_ms e
     \<and> co_updated_at_ms e' = co_updated_at_ms e \<and> (\<not> c \<longrightarrow> e' = e)"
  by (auto simp: collab_detail_part_def split: option.splits if_splits)

lemma collab_parts:
  obtains e1 c1 e2 c2 stale e3 c3 where
    "collab_name_part u e = (e1, c1)" "collab_status_part u ts e1 = (e2, c2, stale)"
    "collab_detail_part u stale e2 = (e3, c3)"
    "update_collab_entry u ts e =
      (if ts < co_updated_at_ms e then (e, False)
       else if c1 \<or> c2 \<or> c3
       then (e3\<lparr>co_updated_at_ms := max (max (co_updated_at_ms e3) ts) (co_started_at_ms e3)\<rparr>, True)
       else (e3, False))"
  by (cases "collab_name_part u e"; cases "collab_status_part u ts (fst (collab_name_part u e))";
      cases "collab_detail_part u (snd (snd (collab_status_part u ts (fst (collab_name_part u e)))))
        (fst (collab_status_part u ts (fst (collab_name_part u e))))")
     (auto simp: update_collab_entry_def)

lemma update_collab_entry_frame:
  assumes upd: "update_collab_entry u ts e = (e', c)"
  shows "co_agent_id e' = co_agent_id e" and "\<not> c \<Longrightarrow> e' = e"
    and "co_updated_at_ms e \<le> co_updated_at_ms e'"
    and "co_status e' = co_status e \<or>
      (\<exists>s. cu_status u = Some s \<and> co_status e' = s \<and> collab_should_change (co_status e) s (cu_restart u))"
proof -
  obtain e1 c1 e2 c2 stale e3 c3 where parts:
    "collab_name_part u e = (e1, c1)" "collab_status_part u ts e1 = (e2, c2, stale)"
    "collab_detail_part u stale e2 = (e3, c3)"
    and res: "update_collab_entry u ts e =
      (if ts < co_updated_at_ms e then (e, False)
       else if c1 \<or> c2 \<or> c3
       then (e3\<lparr>co_updated_at_ms := max (max (co_updated_at_ms e3) ts) (co_started_at_ms e3)\<rparr>, True)
       else (e3, False))"
    by (rule collab_parts)
  note frames = collab_name_part_frame[OF parts(1)] collab_status_part_frame[OF parts(2)]
    collab_detail_part_frame[OF parts(3)]
  show "co_agent_id e' = co_agent_id e" "\<not> c \<Longrightarrow> e' = e"
    "co_updated_at_ms e \<le> co_updated_at_ms e'"
    using frames upd unfolding res by (auto split: if_splits)
  show "co_status e' = co_status e \<or>
      (\<exists>s. cu_status u = Some s \<and> co_status e' = s \<and> collab_should_change (co_status e) s (cu_restart u))"
    using frames upd unfolding res by (auto split: if_splits option.splits)
qed

text \<open>The timestamps of an entry: \<open>started\<close> is at least 1 and never after \<open>updated\<close>.\<close>

definition collab_entry_ok :: "collab_entry \<Rightarrow> bool" where
  "collab_entry_ok e \<longleftrightarrow> 1 \<le> co_started_at_ms e \<and> co_started_at_ms e \<le> co_updated_at_ms e"

lemma update_collab_entry_ok:
  assumes upd: "update_collab_entry u ts e = (e', c)" and ok: "collab_entry_ok e" and ts: "1 \<le> ts"
  shows "collab_entry_ok e'"
proof -
  obtain e1 c1 e2 c2 stale e3 c3 where parts:
    "collab_name_part u e = (e1, c1)" "collab_status_part u ts e1 = (e2, c2, stale)"
    "collab_detail_part u stale e2 = (e3, c3)"
    and res: "update_collab_entry u ts e =
      (if ts < co_updated_at_ms e then (e, False)
       else if c1 \<or> c2 \<or> c3
       then (e3\<lparr>co_updated_at_ms := max (max (co_updated_at_ms e3) ts) (co_started_at_ms e3)\<rparr>, True)
       else (e3, False))"
    by (rule collab_parts)
  have "1 \<le> co_started_at_ms e2"
    using collab_name_part_frame[OF parts(1)] parts(2) ok ts
    by (auto simp: collab_status_part_def Let_def collab_entry_ok_def split: option.splits if_splits)
  then have "1 \<le> co_started_at_ms e3" using collab_detail_part_frame[OF parts(3)] by simp
  then show ?thesis
    using upd ok collab_name_part_frame[OF parts(1)] collab_status_part_frame[OF parts(2)]
      collab_detail_part_frame[OF parts(3)]
    unfolding res by (auto simp: collab_entry_ok_def split: if_splits)
qed

subsection \<open>The order of statuses\<close>

fun collab_rank :: "collab_status \<Rightarrow> nat" where
  "collab_rank CoRunning = 0"
| "collab_rank CoResponded = 1"
| "collab_rank CoSucceeded = 2"
| "collab_rank CoInterrupted = 2"
| "collab_rank CoFailed = 3"

instantiation collab_status :: preorder
begin

definition less_eq_collab_status :: "collab_status \<Rightarrow> collab_status \<Rightarrow> bool" where
  "less_eq_collab_status a b = (collab_rank a \<le> collab_rank b)"

definition less_collab_status :: "collab_status \<Rightarrow> collab_status \<Rightarrow> bool" where
  "less_collab_status a b = (collab_rank a < collab_rank b)"

instance by standard (auto simp: less_eq_collab_status_def less_collab_status_def)

end

lemma collab_should_change_forward:
  "collab_should_change current status False \<Longrightarrow> current < status"
  by (cases current; cases status) (auto simp: collab_should_change_def less_collab_status_def)

lemma update_collab_entry_forward:
  "update_collab_entry u ts e = (e', c) \<Longrightarrow> \<not> cu_restart u \<Longrightarrow> co_status e \<le> co_status e'"
  using update_collab_entry_frame(4)[of u ts e e' c] collab_should_change_forward
  by (metis (full_types) less_imp_le order_refl)

subsection \<open>The list\<close>

definition collab_inv :: "collab_entry list \<Rightarrow> bool" where
  "collab_inv entries \<longleftrightarrow>
     distinct (map co_agent_id entries) \<and> length entries \<le> TELEGRAM_COLLAB_PROGRESS_MAX_AGENTS \<and>
     (\<forall>e \<in> set entries. collab_entry_ok e)"

lemma collab_inv_Nil [simp]: "collab_inv []"
  by (simp add: collab_inv_def)

lemma collab_inv_merge_one:
  assumes inv: "collab_inv entries" and step: "merge_collab_update u (entries, d, c) = (entries', d', c')"
  shows "collab_inv entries'"
proof (cases "List.find (\<lambda>e. co_agent_id e = cu_agent_id u) entries")
  case (Some e)
  let ?same = "\<lambda>e. co_agent_id e = cu_agent_id u"
  obtain e' ec where upd: "update_collab_entry u (max (cu_occurred_at_ms u) 1) e = (e', ec)"
    by fastforce
  have e: "e \<in> set entries" "co_agent_id e = cu_agent_id u" using find_Some_in[OF Some] by auto
  have agent: "co_agent_id e' = cu_agent_id u" using update_collab_entry_frame(1)[OF upd] e by simp
  have "collab_entry_ok e'"
    using update_collab_entry_ok[OF upd] inv e by (simp add: collab_inv_def)
  moreover have entries': "entries' = update_first ?same (\<lambda>_. e') entries"
    using step Some upd by (simp add: merge_collab_update_def Let_def)
  moreover have "map co_agent_id entries' = map co_agent_id entries"
    unfolding entries' using agent by (intro map_update_first) simp
  ultimately show ?thesis
    using inv set_update_first[of ?same "\<lambda>_. e'" entries] unfolding collab_inv_def by auto
next
  case None
  show ?thesis
  proof (cases "entries' = entries")
    case True
    then show ?thesis using inv by simp
  next
    case False
    then obtain name where
      entries': "entries' = keep_last TELEGRAM_COLLAB_PROGRESS_MAX_AGENTS
        (entries @ [new_collab_entry u name (max (cu_occurred_at_ms u) 1)])"
      using step None by (auto simp: merge_collab_update_def Let_def split: if_splits option.splits)
    let ?all = "entries @ [new_collab_entry u name (max (cu_occurred_at_ms u) 1)]"
    have "distinct (map co_agent_id ?all)"
      using None inv by (auto simp: find_None_iff_all new_collab_entry_def collab_inv_def)
    then have "distinct (map co_agent_id entries')"
      unfolding entries' by (metis distinct_keep_last map_keep_last)
    moreover have "\<forall>e \<in> set ?all. collab_entry_ok e"
      using inv by (auto simp: collab_inv_def collab_entry_ok_def new_collab_entry_def)
    ultimately show ?thesis
      unfolding collab_inv_def entries' using set_keep_last by fastforce
  qed
qed

lemma collab_inv_fold:
  "collab_inv entries \<Longrightarrow> collab_inv (fst (fold merge_collab_update us (entries, d, c)))"
proof (induction us arbitrary: entries d c)
  case Nil
  then show ?case by simp
next
  case (Cons u us)
  obtain entries' d' c' where "merge_collab_update u (entries, d, c) = (entries', d', c')"
    by (metis prod_cases3)
  then show ?case using Cons collab_inv_merge_one by fastforce
qed

lemma collab_inv_merge:
  "collab_inv entries \<Longrightarrow> collab_inv (fst (merge_telegram_collab_progress_updates entries d us))"
  by (simp add: merge_telegram_collab_progress_updates_def collab_inv_fold)

text \<open>A merge that reports no change changed nothing.\<close>

lemma merge_one_changed_mono:
  "merge_collab_update u (entries, d, c) = (entries', d', c') \<Longrightarrow> c \<Longrightarrow> c'"
  by (auto simp: merge_collab_update_def Let_def split_def split: option.splits if_splits)

lemma update_first_same_id: "List.find P xs = Some x \<Longrightarrow> update_first P (\<lambda>_. x) xs = xs"
  by (induction xs) (auto split: if_splits)

lemma merge_one_unchanged:
  "merge_collab_update u (entries, d, c) = (entries', d', c') \<Longrightarrow> \<not> c' \<Longrightarrow> entries' = entries \<and> d' = d"
  by (auto simp: merge_collab_update_def Let_def split_def update_first_same_id
      dest: update_collab_entry_frame(2)[OF prod.collapse[symmetric]]
      split: option.splits if_splits)

lemma merge_fold_changed_mono:
  "fold merge_collab_update us (entries, d, True) = (entries', d', c') \<Longrightarrow> c'"
proof (induction us arbitrary: entries d)
  case Nil
  then show ?case by simp
next
  case (Cons u us)
  obtain e1 d1 c1 where one: "merge_collab_update u (entries, d, True) = (e1, d1, c1)"
    by (metis prod_cases3)
  then show ?case using Cons merge_one_changed_mono[OF one] by simp
qed

lemma merge_unchanged:
  "merge_telegram_collab_progress_updates entries d us = (entries', d', False) \<Longrightarrow>
   entries' = entries \<and> d' = d"
proof (induction us arbitrary: entries d)
  case Nil
  then show ?case by (simp add: merge_telegram_collab_progress_updates_def)
next
  case (Cons u us)
  obtain e1 d1 c1 where one: "merge_collab_update u (entries, d, False) = (e1, d1, c1)"
    by (metis prod_cases3)
  have "\<not> c1"
    using Cons.prems one merge_fold_changed_mono[of us e1 d1 entries' d' False]
    by (cases c1) (auto simp: merge_telegram_collab_progress_updates_def)
  then show ?case
    using Cons one merge_one_unchanged[OF one] by (simp add: merge_telegram_collab_progress_updates_def)
qed

text \<open>Following one agent through a merge.\<close>

definition collab_of :: "string \<Rightarrow> collab_entry list \<Rightarrow> collab_entry option" where
  "collab_of a entries = List.find (\<lambda>e. co_agent_id e = a) entries"

lemma collab_of_update_first:
  "(\<And>e. P e \<Longrightarrow> co_agent_id (f e) = co_agent_id e) \<Longrightarrow>
   (\<And>e. P e \<longleftrightarrow> co_agent_id e = b) \<Longrightarrow>
   collab_of a (update_first P f entries) =
     (if a = b then map_option f (collab_of a entries) else collab_of a entries)"
  by (induction entries) (auto simp: collab_of_def)

lemma collab_of_append: "collab_of a entries = Some e \<Longrightarrow> collab_of a (entries @ [x]) = Some e"
  by (induction entries) (auto simp: collab_of_def split: if_splits)

lemma merge_one_dropped_mono:
  "merge_collab_update u (entries, d, c) = (entries', d', c') \<Longrightarrow> d \<le> u64_max \<Longrightarrow> d \<le> d' \<and> d' \<le> u64_max"
  by (auto simp: merge_collab_update_def Let_def split_def sat_add_ge split: option.splits if_splits)

lemma merge_fold_dropped_mono:
  "fold merge_collab_update us (entries, d, c) = (entries', d', c') \<Longrightarrow> d \<le> u64_max \<Longrightarrow> d \<le> d'"
proof (induction us arbitrary: entries d c)
  case Nil
  then show ?case by simp
next
  case (Cons u us)
  obtain e1 d1 c1 where one: "merge_collab_update u (entries, d, c) = (e1, d1, c1)"
    by (metis prod_cases3)
  then show ?case using Cons merge_one_dropped_mono[OF one] by fastforce
qed

lemma merge_one_forward:
  assumes step: "merge_collab_update u (entries, d, c) = (entries', d, c')" and d: "d < u64_max"
    and old: "collab_of a entries = Some e" and u: "\<not> cu_restart u"
  shows "\<exists>e'. collab_of a entries' = Some e' \<and> co_status e \<le> co_status e'
    \<and> co_updated_at_ms e \<le> co_updated_at_ms e'"
proof (cases "List.find (\<lambda>e. co_agent_id e = cu_agent_id u) entries")
  case (Some e0)
  obtain e1 ec where upd: "update_collab_entry u (max (cu_occurred_at_ms u) 1) e0 = (e1, ec)"
    by fastforce
  have e0: "co_agent_id e0 = cu_agent_id u" using find_Some_in[OF Some] by simp
  have entries': "entries' = update_first (\<lambda>e. co_agent_id e = cu_agent_id u) (\<lambda>_. e1) entries"
    using step Some upd by (simp add: merge_collab_update_def Let_def)
  have "collab_of a entries' = (if a = cu_agent_id u then Some e1 else Some e)"
    unfolding entries' using update_collab_entry_frame(1)[OF upd] e0 old
    by (subst collab_of_update_first[where b = "cu_agent_id u"]) auto
  moreover have "a = cu_agent_id u \<Longrightarrow> e0 = e" using Some old by (simp add: collab_of_def)
  ultimately show ?thesis
    using update_collab_entry_forward[OF upd u] update_collab_entry_frame(3)[OF upd] by auto
next
  case None
  have "collab_of a entries' = Some e"
  proof (cases "entries' = entries")
    case False
    then obtain x where
      entries': "entries' = keep_last TELEGRAM_COLLAB_PROGRESS_MAX_AGENTS (entries @ [x])"
      and d': "d = (if length (entries @ [x]) - TELEGRAM_COLLAB_PROGRESS_MAX_AGENTS > 0
        then sat_add d (length (entries @ [x]) - TELEGRAM_COLLAB_PROGRESS_MAX_AGENTS) else d)"
      using step None by (auto simp: merge_collab_update_def Let_def split: if_splits option.splits)
    have "length (entries @ [x]) \<le> TELEGRAM_COLLAB_PROGRESS_MAX_AGENTS"
      using d' d by (auto simp: sat_add_def split: if_splits)
    then show ?thesis using old entries' by (simp add: collab_of_append)
  qed (use old in simp)
  then show ?thesis by auto
qed

lemma merge_fold_forward:
  assumes "fold merge_collab_update us (entries, d, c) = (entries', d, c')" and "d < u64_max"
    and "collab_of a entries = Some e" and "\<forall>u \<in> set us. \<not> cu_restart u"
  shows "\<exists>e'. collab_of a entries' = Some e' \<and> co_status e \<le> co_status e'
    \<and> co_updated_at_ms e \<le> co_updated_at_ms e'"
  using assms
proof (induction us arbitrary: entries c e)
  case Nil
  then show ?case by simp
next
  case (Cons u us)
  obtain e1 d1 c1 where one: "merge_collab_update u (entries, d, c) = (e1, d1, c1)"
    by (metis prod_cases3)
  have rest: "fold merge_collab_update us (e1, d1, c1) = (entries', d, c')"
    using Cons.prems(1) one by simp
  have d1: "d1 = d"
    using merge_one_dropped_mono[OF one] merge_fold_dropped_mono[OF rest] Cons.prems(2) by simp
  obtain e' where e': "collab_of a e1 = Some e'" "co_status e \<le> co_status e'"
    "co_updated_at_ms e \<le> co_updated_at_ms e'"
    using merge_one_forward[of u entries d c e1 c1 a e] one d1 Cons.prems by auto
  show ?case
    using Cons.IH[OF rest[unfolded d1] Cons.prems(2) e'(1)] Cons.prems(4) e'
    by (meson list.set_intros(2) order_trans)
qed

text \<open>Agent statuses only move forward. When a batch of collaboration updates contains no
  restart and pushes no agent out of the bounded list (the dropped counter stays the same), every
  agent known before the merge is still known after it, its status has not gone back in the order
  running, responded, succeeded or interrupted, failed, and its timestamp has not gone back.\<close>

theorem collab_status_forward:
  assumes "merge_telegram_collab_progress_updates entries d us = (entries', d, c)" and "d < u64_max"
    and "collab_of a entries = Some e" and "\<forall>u \<in> set us. \<not> cu_restart u"
  shows "\<exists>e'. collab_of a entries' = Some e' \<and> co_status e \<le> co_status e'
    \<and> co_updated_at_ms e \<le> co_updated_at_ms e'"
  using merge_fold_forward[of us entries d False entries' c a e] assms
  by (simp add: merge_telegram_collab_progress_updates_def)

definition sample_collab_entry :: collab_entry where
  "sample_collab_entry = \<lparr> co_agent_id = ''a1'', co_name = ''worker'', co_status = CoSucceeded,
     co_detail = None, co_started_at_ms = 5, co_updated_at_ms = 9 \<rparr>"

definition sample_collab_update :: collab_update where
  "sample_collab_update = \<lparr> cu_agent_id = ''a1'', cu_name = None, cu_status = Some CoRunning,
     cu_detail = Some ''late'', cu_occurred_at_ms = 20, cu_create_if_missing = True, cu_restart = False \<rparr>"

theorem collab_status_forward_witness:
  "\<exists>e'. collab_of ''a1'' [sample_collab_entry\<lparr>co_detail := Some ''late'', co_updated_at_ms := 20\<rparr>]
     = Some e' \<and> CoSucceeded \<le> co_status e' \<and> 9 \<le> co_updated_at_ms e'"
proof -
  have "merge_telegram_collab_progress_updates [sample_collab_entry] 0 [sample_collab_update]
      = ([sample_collab_entry\<lparr>co_detail := Some ''late'', co_updated_at_ms := 20\<rparr>], 0, True)"
    by code_simp
  from collab_status_forward[OF this, of "''a1''" sample_collab_entry] show ?thesis
    by (simp add: collab_of_def sample_collab_entry_def sample_collab_update_def u64_max_def)
qed

end
