(* ===== verification/RuntimeProgress.thy ===== *)
theory RuntimeProgress
  imports RuntimeCollab RuntimeTurns "HOL-Library.Multiset"
begin

section \<open>The aggregate progress message: content (src/src/im/runtime.rs)\<close>

text \<open>
  A turn's commands, commentary, web searches, plan, diff, reasoning, retries and sub-agents are
  folded into one message. Every method of the source fetches the thread's progress state,
  possibly creating or resetting it, changes it and returns a snapshot to deliver. Here the change
  itself is a function on \<open>command_progress_state\<close> (\<open>\<dots>_body\<close>), and the method is its lifting to
  the runtime state. The invariant \<open>progress_inv\<close> bounds every list, keeps item ids distinct and
  the arrival sequence numbers distinct, and ties the delivery flags together.
\<close>

subsection \<open>The state of one message\<close>

definition telegram_command_progress_state :: "string \<Rightarrow> command_progress_state" where
  "telegram_command_progress_state turn_id =
     \<lparr> pg_turn_id = turn_id, pg_revision = 0, pg_message_id = None, pg_entries = [],
       pg_dropped_entries = 0, pg_retry_count = 0, pg_retry_error = None,
       pg_reasoning_item_id = None, pg_reasoning_summary_index = None, pg_reasoning_summary = '''',
       pg_reasoning_completed = False, pg_plan_explanation = None, pg_plan = [],
       pg_diff_summary = None, pg_web_searches = [], pg_dropped_web_searches = 0,
       pg_commentary_entries = [], pg_commentary_dropped_entries = 0, pg_next_sequence = 1,
       pg_reserved_commentary_sequences = [], pg_collab_entries = [],
       pg_collab_dropped_entries = 0, pg_final_reply = None, pg_elapsed_ms = None,
       pg_completed = False, pg_failed = False, pg_dirty = False, pg_sending = False,
       pg_in_flight_revision = None, pg_cleanup_after_delivery = False \<rparr>"

definition telegram_command_progress_snapshot :: "command_progress_state \<Rightarrow> command_progress_snapshot" where
  "telegram_command_progress_snapshot progress =
     \<lparr> sn_turn_id = pg_turn_id progress, sn_revision = pg_revision progress,
       sn_message_id = pg_message_id progress, sn_entries = pg_entries progress,
       sn_dropped_entries = pg_dropped_entries progress, sn_retry_count = pg_retry_count progress,
       sn_retry_error = pg_retry_error progress,
       sn_reasoning_summary =
         nonblank (if pg_reasoning_completed progress then Some (pg_reasoning_summary progress) else None),
       sn_plan_explanation = pg_plan_explanation progress, sn_plan = pg_plan progress,
       sn_diff_summary = pg_diff_summary progress, sn_web_searches = pg_web_searches progress,
       sn_dropped_web_searches = pg_dropped_web_searches progress,
       sn_commentary = pg_commentary_entries progress,
       sn_commentary_dropped_entries = pg_commentary_dropped_entries progress,
       sn_collab =
         (if pg_collab_entries progress \<noteq> []
          then Some \<lparr> cs_entries = pg_collab_entries progress,
                      cs_dropped_entries = pg_collab_dropped_entries progress,
                      cs_completed = pg_completed progress \<rparr>
          else None),
       sn_final_reply = nonblank (pg_final_reply progress),
       sn_elapsed_ms = pg_elapsed_ms progress, sn_completed = pg_completed progress,
       sn_failed = pg_failed progress \<rparr>"

definition allocate_sequence :: "command_progress_state \<Rightarrow> nat \<times> command_progress_state" where
  "allocate_sequence progress =
     (pg_next_sequence progress,
      progress\<lparr>pg_next_sequence := sat_add (pg_next_sequence progress) 1\<rparr>)"

definition telegram_command_progress_has_content :: "command_progress_state \<Rightarrow> bool" where
  "telegram_command_progress_has_content progress =
     (pg_entries progress \<noteq> [] \<or> pg_retry_count progress > 0
      \<or> (pg_reasoning_completed progress \<and> trim (pg_reasoning_summary progress) \<noteq> [])
      \<or> pg_plan_explanation progress \<noteq> None \<or> pg_plan progress \<noteq> []
      \<or> pg_diff_summary progress \<noteq> None \<or> pg_web_searches progress \<noteq> []
      \<or> pg_commentary_entries progress \<noteq> []
      \<or> (case pg_final_reply progress of None \<Rightarrow> False | Some v \<Rightarrow> trim v \<noteq> [])
      \<or> pg_collab_entries progress \<noteq> [])"

definition append_bounded_text :: "string \<Rightarrow> string \<Rightarrow> nat \<Rightarrow> string" where
  "append_bounded_text target delta max_chars =
     (let target = target @ delta;
          overflow = length target - max_chars
      in if overflow = 0 then target else drop overflow target)"

definition limit_telegram_diff_summary :: "diff_summary \<Rightarrow> diff_summary" where
  "limit_telegram_diff_summary summary =
     (let summary = summary\<lparr>di_files := take TELEGRAM_DIFF_MAX_PATHS (di_files summary),
                           di_paths := take TELEGRAM_DIFF_MAX_PATHS (di_paths summary)\<rparr>;
          visible_files = max (length (di_files summary)) (length (di_paths summary))
      in summary\<lparr>di_omitted_paths :=
           max (di_omitted_paths summary) (di_file_count summary - visible_files)\<rparr>)"

text \<open>\<open>revision.saturating_add(1)\<close> and \<open>dirty = true\<close>, the end of every change.\<close>

definition touch_progress :: "command_progress_state \<Rightarrow> command_progress_state" where
  "touch_progress progress =
     progress\<lparr>pg_revision := sat_add (pg_revision progress) 1, pg_dirty := True\<rparr>"

text \<open>The result of a change: the snapshot to deliver, if any, and the new state.\<close>

type_synonym progress_result = "command_progress_snapshot option \<times> command_progress_state"

definition touched :: "bool \<Rightarrow> command_progress_state \<Rightarrow> progress_result" where
  "touched deliver progress =
     (let progress = touch_progress progress
      in (if deliver then Some (telegram_command_progress_snapshot progress) else None, progress))"

text \<open>\<open>entry(thread).or_insert_with(\<dots>)\<close>, the reset of a state of another turn, and storing the
  changed state back through the reference.\<close>

definition progress_or_new :: "string \<Rightarrow> string \<Rightarrow> runtime_state \<Rightarrow> command_progress_state" where
  "progress_or_new thread_id turn_id rs =
     unwrap_or (hget (telegram_command_progress_by_thread rs) thread_id)
       (telegram_command_progress_state turn_id)"

definition progress_for_turn :: "string \<Rightarrow> command_progress_state \<Rightarrow> command_progress_state" where
  "progress_for_turn turn_id progress =
     (if pg_turn_id progress \<noteq> turn_id then telegram_command_progress_state turn_id else progress)"

definition put_progress :: "string \<Rightarrow> command_progress_state \<Rightarrow> runtime_state \<Rightarrow> runtime_state" where
  "put_progress thread_id progress rs =
     rs\<lparr>telegram_command_progress_by_thread :=
        hinsert thread_id progress (telegram_command_progress_by_thread rs)\<rparr>"

text \<open>Methods that create or reset the state, methods that create it but leave the state of another
  turn alone, and methods that only act on a state that exists.\<close>

definition with_reset_progress ::
  "string \<Rightarrow> string \<Rightarrow> (command_progress_state \<Rightarrow> 'r \<times> command_progress_state)
     \<Rightarrow> runtime_state \<Rightarrow> 'r \<times> runtime_state" where
  "with_reset_progress thread_id turn_id body rs =
     (let (result, progress) = body (progress_for_turn turn_id (progress_or_new thread_id turn_id rs))
      in (result, put_progress thread_id progress rs))"

definition with_new_progress ::
  "string \<Rightarrow> string \<Rightarrow> 'r \<Rightarrow> (command_progress_state \<Rightarrow> 'r \<times> command_progress_state)
     \<Rightarrow> runtime_state \<Rightarrow> 'r \<times> runtime_state" where
  "with_new_progress thread_id turn_id refused body rs =
     (let progress = progress_or_new thread_id turn_id rs
      in if pg_turn_id progress \<noteq> turn_id \<or> pg_completed progress
         then (refused, put_progress thread_id progress rs)
         else (let (result, progress) = body progress
               in (result, put_progress thread_id progress rs)))"

definition with_progress ::
  "string \<Rightarrow> string \<Rightarrow> 'r \<Rightarrow> (command_progress_state \<Rightarrow> 'r \<times> command_progress_state)
     \<Rightarrow> runtime_state \<Rightarrow> 'r \<times> runtime_state" where
  "with_progress thread_id turn_id refused body rs =
     (case hget (telegram_command_progress_by_thread rs) thread_id of
        None \<Rightarrow> (refused, rs)
      | Some progress \<Rightarrow>
          if pg_turn_id progress \<noteq> turn_id then (refused, rs)
          else (let (result, progress) = body progress
                in (result, put_progress thread_id progress rs)))"

subsection \<open>Commands\<close>

definition upsert_command_body ::
  "command_progress_entry \<Rightarrow> bool \<Rightarrow> command_progress_state \<Rightarrow> progress_result" where
  "upsert_command_body entry deliver_update progress =
     (let same_item = (\<lambda>current. en_item_id current = en_item_id entry)
      in if pg_completed progress then (None, progress)
         else case List.find same_item (pg_entries progress) of
                None \<Rightarrow>
                  (let (sequence, progress) = allocate_sequence progress;
                       entries = pg_entries progress @ [entry\<lparr>en_sequence := sequence\<rparr>];
                       excess = length entries - TELEGRAM_COMMAND_PROGRESS_MAX_ENTRIES
                   in touched True
                        (progress\<lparr>pg_entries := keep_last TELEGRAM_COMMAND_PROGRESS_MAX_ENTRIES entries,
                           pg_dropped_entries :=
                             (if excess > 0 then sat_add (pg_dropped_entries progress) excess
                              else pg_dropped_entries progress)\<rparr>))
              | Some current \<Rightarrow>
                  (let entry = entry\<lparr>en_sequence := en_sequence current\<rparr>
                   in if current = entry then (None, progress)
                      else touched (deliver_update \<or> pg_message_id progress = None)
                             (progress\<lparr>pg_entries :=
                                update_first same_item (\<lambda>_. entry) (pg_entries progress)\<rparr>)))"

definition upsert_telegram_command_progress ::
  "string \<Rightarrow> string \<Rightarrow> command_progress_entry \<Rightarrow> bool \<Rightarrow> runtime_state
     \<Rightarrow> command_progress_snapshot option \<times> runtime_state" where
  "upsert_telegram_command_progress thread_id turn_id entry deliver_update rs =
     with_reset_progress thread_id turn_id (upsert_command_body entry deliver_update) rs"

subsection \<open>Web searches\<close>

definition upsert_web_search_body ::
  "web_search_entry \<Rightarrow> command_progress_state \<Rightarrow> progress_result" where
  "upsert_web_search_body entry progress =
     (let same_item = (\<lambda>current. ws_item_id current = ws_item_id entry)
      in if pg_completed progress then (None, progress)
         else case List.find same_item (pg_web_searches progress) of
                Some current \<Rightarrow>
                  if current = entry then (None, progress)
                  else touched True
                         (progress\<lparr>pg_web_searches :=
                            update_first same_item (\<lambda>_. entry) (pg_web_searches progress)\<rparr>)
              | None \<Rightarrow>
                  (let entries = pg_web_searches progress @ [entry];
                       excess = length entries - TELEGRAM_WEB_SEARCH_MAX_ENTRIES
                   in touched True
                        (progress\<lparr>pg_web_searches := keep_last TELEGRAM_WEB_SEARCH_MAX_ENTRIES entries,
                           pg_dropped_web_searches :=
                             (if excess > 0 then sat_add (pg_dropped_web_searches progress) excess
                              else pg_dropped_web_searches progress)\<rparr>)))"

definition upsert_telegram_web_search_progress ::
  "string \<Rightarrow> string \<Rightarrow> web_search_entry \<Rightarrow> runtime_state
     \<Rightarrow> command_progress_snapshot option \<times> runtime_state" where
  "upsert_telegram_web_search_progress thread_id turn_id entry rs =
     (if current_turn_id thread_id rs \<noteq> Some turn_id then (None, rs)
      else with_reset_progress thread_id turn_id (upsert_web_search_body entry) rs)"

subsection \<open>Retries\<close>

definition record_retry_body :: "string option \<Rightarrow> command_progress_state \<Rightarrow> progress_result" where
  "record_retry_body error progress =
     (if pg_completed progress then (None, progress)
      else (let progress = progress\<lparr>pg_retry_count := sat_add (pg_retry_count progress) 1\<rparr>;
                progress = (case nonblank error of
                              None \<Rightarrow> progress
                            | Some error \<Rightarrow> progress\<lparr>pg_retry_error := Some error\<rparr>)
            in touched True progress))"

definition record_telegram_retry ::
  "string \<Rightarrow> string \<Rightarrow> string option \<Rightarrow> runtime_state
     \<Rightarrow> command_progress_snapshot option \<times> runtime_state" where
  "record_telegram_retry thread_id turn_id error rs =
     (if current_turn_id thread_id rs \<noteq> Some turn_id then (None, rs)
      else with_reset_progress thread_id turn_id (record_retry_body error) rs)"

subsection \<open>Reasoning\<close>

definition append_reasoning_body ::
  "string \<Rightarrow> int \<Rightarrow> string \<Rightarrow> command_progress_state \<Rightarrow> unit \<times> command_progress_state" where
  "append_reasoning_body item_id summary_index delta progress =
     (let append = (\<lambda>progress. ((), touch_progress
             (progress\<lparr>pg_reasoning_summary :=
                append_bounded_text (pg_reasoning_summary progress) delta TELEGRAM_REASONING_MAX_CHARS\<rparr>)))
      in if pg_reasoning_item_id progress \<noteq> Some item_id
         then append (progress\<lparr>pg_reasoning_item_id := Some item_id,
                pg_reasoning_summary_index := Some summary_index, pg_reasoning_summary := '''',
                pg_reasoning_completed := False\<rparr>)
         else if (case pg_reasoning_summary_index progress of
                    None \<Rightarrow> False | Some current \<Rightarrow> summary_index < current)
         then ((), progress)
         else if pg_reasoning_summary_index progress \<noteq> Some summary_index
         then append (progress\<lparr>pg_reasoning_summary_index := Some summary_index,
                pg_reasoning_summary := ''''\<rparr>)
         else append progress)"

definition append_telegram_reasoning_delta ::
  "string \<Rightarrow> string \<Rightarrow> string \<Rightarrow> int \<Rightarrow> string \<Rightarrow> runtime_state \<Rightarrow> runtime_state" where
  "append_telegram_reasoning_delta thread_id turn_id item_id summary_index delta rs =
     (if delta = [] \<or> current_turn_id thread_id rs \<noteq> Some turn_id then rs
      else snd (with_new_progress thread_id turn_id ()
                  (append_reasoning_body item_id summary_index delta) rs))"

definition complete_reasoning_body ::
  "string \<Rightarrow> string option \<Rightarrow> command_progress_state \<Rightarrow> progress_result" where
  "complete_reasoning_body item_id summary progress =
     (if pg_completed progress then (None, progress)
      else
        (let finish = (\<lambda>content_changed progress.
               if trim (pg_reasoning_summary progress) = [] then (None, progress)
               else if \<not> content_changed \<and> pg_reasoning_completed progress then (None, progress)
               else touched True (progress\<lparr>pg_reasoning_completed := True\<rparr>))
         in case nonblank summary of
              Some summary \<Rightarrow>
                finish (pg_reasoning_item_id progress \<noteq> Some item_id
                          \<or> pg_reasoning_summary progress \<noteq> summary)
                  (progress\<lparr>pg_reasoning_item_id := Some item_id,
                     pg_reasoning_summary_index := None, pg_reasoning_summary := summary\<rparr>)
            | None \<Rightarrow>
                if pg_reasoning_item_id progress \<noteq> Some item_id then (None, progress)
                else finish False progress))"

definition complete_telegram_reasoning ::
  "string \<Rightarrow> string \<Rightarrow> string \<Rightarrow> string option \<Rightarrow> runtime_state
     \<Rightarrow> command_progress_snapshot option \<times> runtime_state" where
  "complete_telegram_reasoning thread_id turn_id item_id summary rs =
     (if current_turn_id thread_id rs \<noteq> Some turn_id then (None, rs)
      else with_progress thread_id turn_id None (complete_reasoning_body item_id summary) rs)"

subsection \<open>Plan and diff\<close>

definition update_plan_body ::
  "string option \<Rightarrow> plan_step list \<Rightarrow> bool \<Rightarrow> command_progress_state \<Rightarrow> progress_result" where
  "update_plan_body explanation plan deliver_update progress =
     (let explanation = nonblank explanation;
          plan = take TELEGRAM_PLAN_MAX_STEPS plan
      in if pg_plan_explanation progress = explanation \<and> pg_plan progress = plan
         then (None, progress)
         else
           (let progress = progress\<lparr>pg_plan_explanation := explanation, pg_plan := plan\<rparr>
            in if pg_message_id progress = None \<and> \<not> telegram_command_progress_has_content progress
               then (None, progress\<lparr>pg_dirty := False\<rparr>)
               else touched deliver_update progress))"

definition update_telegram_plan ::
  "string \<Rightarrow> string \<Rightarrow> string option \<Rightarrow> plan_step list \<Rightarrow> bool \<Rightarrow> runtime_state
     \<Rightarrow> command_progress_snapshot option \<times> runtime_state" where
  "update_telegram_plan thread_id turn_id explanation plan deliver_update rs =
     (if current_turn_id thread_id rs \<noteq> Some turn_id then (None, rs)
      else with_new_progress thread_id turn_id None
             (update_plan_body explanation plan deliver_update) rs)"

definition update_diff_body ::
  "diff_summary option \<Rightarrow> bool \<Rightarrow> command_progress_state \<Rightarrow> progress_result" where
  "update_diff_body diff_summary deliver_update progress =
     (case diff_summary of
        None \<Rightarrow>
          if pg_diff_summary progress \<noteq> None
          then touched deliver_update (progress\<lparr>pg_diff_summary := None\<rparr>)
          else (None, progress)
      | Some summary \<Rightarrow>
          (let summary = limit_telegram_diff_summary summary
           in if pg_diff_summary progress = Some summary then (None, progress)
              else touched deliver_update (progress\<lparr>pg_diff_summary := Some summary\<rparr>)))"

definition update_telegram_diff ::
  "string \<Rightarrow> string \<Rightarrow> diff_summary option \<Rightarrow> bool \<Rightarrow> runtime_state
     \<Rightarrow> command_progress_snapshot option \<times> runtime_state" where
  "update_telegram_diff thread_id turn_id diff_summary deliver_update rs =
     (if current_turn_id thread_id rs \<noteq> Some turn_id then (None, rs)
      else with_new_progress thread_id turn_id None (update_diff_body diff_summary deliver_update) rs)"

definition complete_file_change_body ::
  "diff_summary option \<Rightarrow> command_progress_state \<Rightarrow> progress_result" where
  "complete_file_change_body fallback progress =
     (let progress =
        (case (pg_diff_summary progress, fallback) of
           (None, Some fallback) \<Rightarrow>
             touch_progress (progress\<lparr>pg_diff_summary := Some (limit_telegram_diff_summary fallback)\<rparr>)
         | _ \<Rightarrow> progress)
      in (if pg_dirty progress then Some (telegram_command_progress_snapshot progress) else None,
          progress))"

definition complete_telegram_file_change ::
  "string \<Rightarrow> string \<Rightarrow> diff_summary option \<Rightarrow> runtime_state
     \<Rightarrow> command_progress_snapshot option \<times> runtime_state" where
  "complete_telegram_file_change thread_id turn_id fallback rs =
     (if current_turn_id thread_id rs \<noteq> Some turn_id then (None, rs)
      else with_new_progress thread_id turn_id None (complete_file_change_body fallback) rs)"

subsection \<open>Commentary\<close>

definition reserve_commentary_body ::
  "string \<Rightarrow> command_progress_state \<Rightarrow> nat \<times> command_progress_state" where
  "reserve_commentary_body item_id progress =
     (case List.find (\<lambda>entry. ce_item_id entry = item_id) (pg_commentary_entries progress) of
        Some existing \<Rightarrow> (ce_sequence existing, progress)
      | None \<Rightarrow>
          case hget (pg_reserved_commentary_sequences progress) item_id of
            Some reserved \<Rightarrow> (reserved, progress)
          | None \<Rightarrow>
              (let (sequence, progress) = allocate_sequence progress
               in (sequence, progress\<lparr>pg_reserved_commentary_sequences :=
                     hinsert item_id sequence (pg_reserved_commentary_sequences progress)\<rparr>)))"

definition reserve_commentary_sequence ::
  "string \<Rightarrow> string \<Rightarrow> string \<Rightarrow> runtime_state \<Rightarrow> nat \<times> runtime_state" where
  "reserve_commentary_sequence thread_id turn_id item_id rs =
     with_reset_progress thread_id turn_id (reserve_commentary_body item_id) rs"

text \<open>The sequence number of a commentary entry: its own, else the reserved one (which is used
  up), else the next.\<close>

definition commentary_sequence ::
  "string \<Rightarrow> command_progress_state \<Rightarrow> nat \<times> command_progress_state" where
  "commentary_sequence item_id progress =
     (case List.find (\<lambda>entry. ce_item_id entry = item_id) (pg_commentary_entries progress) of
        Some existing \<Rightarrow> (ce_sequence existing, progress)
      | None \<Rightarrow>
          case hget (pg_reserved_commentary_sequences progress) item_id of
            Some reserved \<Rightarrow>
              (reserved, progress\<lparr>pg_reserved_commentary_sequences :=
                 hremove item_id (pg_reserved_commentary_sequences progress)\<rparr>)
          | None \<Rightarrow> allocate_sequence progress)"

definition upsert_commentary_body ::
  "string \<Rightarrow> string \<Rightarrow> command_progress_state \<Rightarrow> progress_result" where
  "upsert_commentary_body item_id text progress =
     (let same_item = (\<lambda>entry. ce_item_id entry = item_id)
      in if pg_completed progress then (None, progress)
         else
           (let (sequence, progress) = commentary_sequence item_id progress
            in case List.find same_item (pg_commentary_entries progress) of
                 Some entry \<Rightarrow>
                   if ce_text entry = text then (None, progress)
                   else touched True
                          (progress\<lparr>pg_commentary_entries :=
                             update_first same_item (\<lambda>entry. entry\<lparr>ce_text := text\<rparr>)
                               (pg_commentary_entries progress)\<rparr>)
               | None \<Rightarrow>
                   (let entries = pg_commentary_entries progress
                          @ [\<lparr> ce_item_id = item_id, ce_text = text, ce_sequence = sequence \<rparr>];
                        excess = length entries - TELEGRAM_COMMENTARY_MAX_ENTRIES
                    in touched True
                         (progress\<lparr>pg_commentary_entries :=
                            keep_last TELEGRAM_COMMENTARY_MAX_ENTRIES entries,
                            pg_commentary_dropped_entries :=
                              (if excess > 0
                               then sat_add (pg_commentary_dropped_entries progress) excess
                               else pg_commentary_dropped_entries progress)\<rparr>))))"

definition upsert_telegram_commentary_progress ::
  "string \<Rightarrow> string \<Rightarrow> string \<Rightarrow> string \<Rightarrow> runtime_state
     \<Rightarrow> command_progress_snapshot option \<times> runtime_state" where
  "upsert_telegram_commentary_progress thread_id turn_id item_id text rs =
     (if current_turn_id thread_id rs \<noteq> Some turn_id then (None, rs)
      else with_reset_progress thread_id turn_id (upsert_commentary_body item_id text) rs)"

text \<open>Removing commentary, by item or by (trimmed) text; not guarded by \<open>completed\<close>.\<close>

definition retain_commentary_body ::
  "(commentary_entry \<Rightarrow> bool) \<Rightarrow> command_progress_state \<Rightarrow> progress_result" where
  "retain_commentary_body keep progress =
     (let entries = filter keep (pg_commentary_entries progress);
          before = length (pg_commentary_entries progress);
          progress = progress\<lparr>pg_commentary_entries := entries\<rparr>
      in if length entries = before then (None, progress) else touched True progress)"

definition remove_telegram_commentary_progress ::
  "string \<Rightarrow> string \<Rightarrow> string \<Rightarrow> runtime_state
     \<Rightarrow> command_progress_snapshot option \<times> runtime_state" where
  "remove_telegram_commentary_progress thread_id turn_id item_id rs =
     with_progress thread_id turn_id None
       (retain_commentary_body (\<lambda>entry. ce_item_id entry \<noteq> item_id)) rs"

definition remove_commentary_matching_text ::
  "string \<Rightarrow> string \<Rightarrow> string \<Rightarrow> runtime_state
     \<Rightarrow> command_progress_snapshot option \<times> runtime_state" where
  "remove_commentary_matching_text thread_id turn_id text rs =
     with_progress thread_id turn_id None
       (retain_commentary_body (\<lambda>entry. trim (ce_text entry) \<noteq> trim text)) rs"

subsection \<open>Sub-agents\<close>

definition merge_collab_body :: "collab_update list \<Rightarrow> command_progress_state \<Rightarrow> progress_result" where
  "merge_collab_body updates progress =
     (if pg_completed progress then (None, progress)
      else
        (let (entries, dropped, changed) =
           merge_telegram_collab_progress_updates (pg_collab_entries progress)
             (pg_collab_dropped_entries progress) updates;
           progress = progress\<lparr>pg_collab_entries := entries, pg_collab_dropped_entries := dropped\<rparr>
         in if changed then touched True progress else (None, progress)))"

definition upsert_telegram_collab_task_progress ::
  "string \<Rightarrow> string \<Rightarrow> collab_update list \<Rightarrow> runtime_state
     \<Rightarrow> command_progress_snapshot option \<times> runtime_state" where
  "upsert_telegram_collab_task_progress thread_id turn_id updates rs =
     (if updates = [] \<or> current_turn_id thread_id rs \<noteq> Some turn_id then (None, rs)
      else with_reset_progress thread_id turn_id (merge_collab_body updates) rs)"

subsection \<open>The end of the turn\<close>

definition set_final_reply_body ::
  "string \<Rightarrow> nat option \<Rightarrow> command_progress_state \<Rightarrow> bool \<times> command_progress_state" where
  "set_final_reply_body text elapsed_ms progress =
     (True, touch_progress (progress\<lparr>pg_final_reply := Some text, pg_elapsed_ms := elapsed_ms\<rparr>))"

definition set_telegram_command_progress_final_reply ::
  "string \<Rightarrow> string \<Rightarrow> string \<Rightarrow> nat option \<Rightarrow> runtime_state \<Rightarrow> bool \<times> runtime_state" where
  "set_telegram_command_progress_final_reply thread_id turn_id text elapsed_ms rs =
     with_progress thread_id turn_id False (set_final_reply_body text elapsed_ms) rs"

definition interrupt_entry :: "command_progress_entry \<Rightarrow> command_progress_entry" where
  "interrupt_entry entry =
     (if en_status entry = CmdRunning then entry\<lparr>en_status := CmdInterrupted\<rparr> else entry)"

definition interrupt_collab :: "nat \<Rightarrow> collab_entry \<Rightarrow> collab_entry" where
  "interrupt_collab now_ms entry =
     (if co_status entry = CoRunning
      then entry\<lparr>co_status := CoInterrupted,
             co_updated_at_ms := max (max (co_updated_at_ms entry) now_ms) (co_started_at_ms entry)\<rparr>
      else entry)"

definition finish_body :: "bool \<Rightarrow> nat \<Rightarrow> command_progress_state \<Rightarrow> progress_result" where
  "finish_body failed now_ms progress =
     (if \<not> telegram_command_progress_has_content progress then (None, progress)
      else
        (let interrupted = length (filter (\<lambda>e. en_status e = CmdRunning) (pg_entries progress));
             interrupted_collab = length (filter (\<lambda>e. co_status e = CoRunning) (pg_collab_entries progress));
             progress = progress\<lparr>pg_entries := map interrupt_entry (pg_entries progress),
                          pg_collab_entries := map (interrupt_collab now_ms) (pg_collab_entries progress)\<rparr>;
             progress = (if failed then progress\<lparr>pg_failed := True\<rparr> else progress);
             progress = (if \<not> pg_completed progress \<or> interrupted > 0 \<or> interrupted_collab > 0 \<or> failed
                         then touch_progress (progress\<lparr>pg_completed := True\<rparr>) else progress)
         in (if pg_dirty progress then Some (telegram_command_progress_snapshot progress) else None,
             progress)))"

definition finish_telegram_command_progress_with_outcome ::
  "string \<Rightarrow> string \<Rightarrow> bool \<Rightarrow> nat \<Rightarrow> runtime_state
     \<Rightarrow> command_progress_snapshot option \<times> runtime_state" where
  "finish_telegram_command_progress_with_outcome thread_id turn_id failed now_ms rs =
     with_progress thread_id turn_id None (finish_body failed now_ms) rs"

definition finish_telegram_command_progress ::
  "string \<Rightarrow> string \<Rightarrow> nat \<Rightarrow> runtime_state
     \<Rightarrow> command_progress_snapshot option \<times> runtime_state" where
  "finish_telegram_command_progress thread_id turn_id now_ms rs =
     finish_telegram_command_progress_with_outcome thread_id turn_id False now_ms rs"

definition clear_telegram_command_progress_for_thread :: "string \<Rightarrow> runtime_state \<Rightarrow> runtime_state" where
  "clear_telegram_command_progress_for_thread thread_id rs =
     rs\<lparr>telegram_command_progress_by_thread :=
        hremove thread_id (telegram_command_progress_by_thread rs)\<rparr>"

subsection \<open>The invariant of the content\<close>

definition progress_sequences :: "command_progress_state \<Rightarrow> nat list" where
  "progress_sequences p = map en_sequence (pg_entries p) @ map ce_sequence (pg_commentary_entries p)
     @ map snd (pg_reserved_commentary_sequences p)"

text \<open>The arrival numbers are pairwise distinct and below the counter, until the counter saturates.\<close>

definition sequences_ok :: "command_progress_state \<Rightarrow> bool" where
  "sequences_ok p \<longleftrightarrow> 1 \<le> pg_next_sequence p \<and>
     (pg_next_sequence p < u64_max \<longrightarrow>
        distinct (progress_sequences p) \<and>
        (\<forall>s \<in> set (progress_sequences p). 1 \<le> s \<and> s < pg_next_sequence p))"

definition bounds_ok :: "command_progress_state \<Rightarrow> bool" where
  "bounds_ok p \<longleftrightarrow>
     length (pg_entries p) \<le> TELEGRAM_COMMAND_PROGRESS_MAX_ENTRIES \<and>
     length (pg_commentary_entries p) \<le> TELEGRAM_COMMENTARY_MAX_ENTRIES \<and>
     length (pg_web_searches p) \<le> TELEGRAM_WEB_SEARCH_MAX_ENTRIES \<and>
     length (pg_plan p) \<le> TELEGRAM_PLAN_MAX_STEPS"

definition item_ids_ok :: "command_progress_state \<Rightarrow> bool" where
  "item_ids_ok p \<longleftrightarrow>
     distinct (map en_item_id (pg_entries p)) \<and> distinct (map ce_item_id (pg_commentary_entries p)) \<and>
     distinct (map ws_item_id (pg_web_searches p)) \<and> hwf (pg_reserved_commentary_sequences p) \<and>
     collab_inv (pg_collab_entries p)"

definition content_inv :: "command_progress_state \<Rightarrow> bool" where
  "content_inv p \<longleftrightarrow> sequences_ok p \<and> bounds_ok p \<and> item_ids_ok p"

text \<open>The changes a method makes to a message.\<close>

inductive content_step :: "command_progress_state \<Rightarrow> command_progress_state \<Rightarrow> bool" where
  command: "content_step p (snd (upsert_command_body entry deliver p))"
| web_search: "content_step p (snd (upsert_web_search_body search p))"
| retried: "content_step p (snd (record_retry_body error p))"
| reasoning_delta: "\<not> pg_completed p \<Longrightarrow> content_step p (snd (append_reasoning_body item idx delta p))"
| reasoning_done: "content_step p (snd (complete_reasoning_body item summary p))"
| plan: "\<not> pg_completed p \<Longrightarrow> content_step p (snd (update_plan_body explanation steps deliver p))"
| diff: "\<not> pg_completed p \<Longrightarrow> content_step p (snd (update_diff_body diff deliver p))"
| file_change: "\<not> pg_completed p \<Longrightarrow> content_step p (snd (complete_file_change_body fallback p))"
| reserve: "content_step p (snd (reserve_commentary_body item p))"
| commentary: "content_step p (snd (upsert_commentary_body item text p))"
| retain_commentary: "content_step p (snd (retain_commentary_body keep p))"
| collab: "content_step p (snd (merge_collab_body updates p))"
| final_reply: "content_step p (snd (set_final_reply_body text elapsed p))"
| finished: "content_step p (snd (finish_body failed now p))"

lemma snd_touched [simp]: "snd (touched d p) = touch_progress p"
  by (simp add: touched_def Let_def)

lemma touch_progress_simps [simp]:
  "pg_turn_id (touch_progress p) = pg_turn_id p"
  "pg_message_id (touch_progress p) = pg_message_id p"
  "pg_entries (touch_progress p) = pg_entries p"
  "pg_commentary_entries (touch_progress p) = pg_commentary_entries p"
  "pg_reserved_commentary_sequences (touch_progress p) = pg_reserved_commentary_sequences p"
  "pg_next_sequence (touch_progress p) = pg_next_sequence p"
  "pg_web_searches (touch_progress p) = pg_web_searches p"
  "pg_plan (touch_progress p) = pg_plan p"
  "pg_collab_entries (touch_progress p) = pg_collab_entries p"
  "pg_completed (touch_progress p) = pg_completed p"
  "pg_sending (touch_progress p) = pg_sending p"
  "pg_in_flight_revision (touch_progress p) = pg_in_flight_revision p"
  "pg_cleanup_after_delivery (touch_progress p) = pg_cleanup_after_delivery p"
  "pg_dirty (touch_progress p)"
  "pg_revision (touch_progress p) = sat_add (pg_revision p) 1"
  by (simp_all add: touch_progress_def)

lemmas content_bodies = upsert_command_body_def upsert_web_search_body_def record_retry_body_def
  append_reasoning_body_def complete_reasoning_body_def update_plan_body_def update_diff_body_def
  complete_file_change_body_def reserve_commentary_body_def upsert_commentary_body_def
  retain_commentary_body_def merge_collab_body_def set_final_reply_body_def finish_body_def
  allocate_sequence_def commentary_sequence_def

lemma bounds_ok_step: "content_step p p' \<Longrightarrow> bounds_ok p \<Longrightarrow> bounds_ok p'"
  by (induction rule: content_step.induct)
     (auto simp: content_bodies bounds_ok_def Let_def split_def
      split: option.split intro: le_trans[OF length_filter_le])

lemma map_update_first_find:
  "List.find P xs = Some x \<Longrightarrow> g y = g x \<Longrightarrow> map g (update_first P (\<lambda>_. y) xs) = map g xs"
  by (induction xs) (auto split: if_splits)

lemma distinct_map_filter: "distinct (map f xs) \<Longrightarrow> distinct (map f (filter P xs))"
  by (induction xs) auto

lemma distinct_map_keep_last: "distinct (map f xs) \<Longrightarrow> distinct (map f (keep_last n xs))"
  by (metis distinct_keep_last map_keep_last)

lemma interrupt_entry_simps [simp]:
  "en_item_id (interrupt_entry e) = en_item_id e" "en_sequence (interrupt_entry e) = en_sequence e"
  by (simp_all add: interrupt_entry_def)

lemma interrupt_collab_simps [simp]:
  "co_agent_id (interrupt_collab now e) = co_agent_id e"
  "collab_entry_ok e \<Longrightarrow> collab_entry_ok (interrupt_collab now e)"
  by (auto simp: interrupt_collab_def collab_entry_ok_def)

lemma map_interrupt [simp]:
  "map (en_item_id \<circ> interrupt_entry) es = map en_item_id es"
  "map (en_sequence \<circ> interrupt_entry) es = map en_sequence es"
  "map (co_agent_id \<circ> interrupt_collab now) cs = map co_agent_id cs"
  by simp_all

lemma collab_inv_interrupt: "collab_inv cs \<Longrightarrow> collab_inv (map (interrupt_collab now) cs)"
  by (auto simp: collab_inv_def)

lemma distinct_upsert_new:
  "List.find (\<lambda>z. g z = k) xs = None \<Longrightarrow> g y = k \<Longrightarrow> distinct (map g xs) \<Longrightarrow>
   distinct (map g (keep_last n (xs @ [y])))"
  by (rule distinct_map_keep_last) (auto simp: find_None_iff_all)

lemma distinct_update_all:
  "(\<And>x. g (f x) = g x) \<Longrightarrow> map g (update_first P f xs) = map g xs"
  by (rule map_update_first) simp

lemma find_key: "List.find (\<lambda>z. g z = k) xs = Some x \<Longrightarrow> g x = k"
  by (auto simp: find_Some_iff)

lemma item_ids_ok_command:
  assumes "item_ids_ok p"
  shows "item_ids_ok (snd (upsert_command_body entry deliver p))"
proof (cases "List.find (\<lambda>e. en_item_id e = en_item_id entry) (pg_entries p)")
  case None
  then have "distinct (map en_item_id (keep_last TELEGRAM_COMMAND_PROGRESS_MAX_ENTRIES
      (pg_entries p @ [entry\<lparr>en_sequence := pg_next_sequence p\<rparr>])))"
    using assms by (intro distinct_upsert_new[OF None]) (simp_all add: item_ids_ok_def)
  then show ?thesis using assms None
    by (simp add: upsert_command_body_def Let_def allocate_sequence_def item_ids_ok_def del: map_append)
next
  case (Some current)
  let ?entry = "entry\<lparr>en_sequence := en_sequence current\<rparr>"
  have "map en_item_id (update_first (\<lambda>e. en_item_id e = en_item_id entry) (\<lambda>_. ?entry) (pg_entries p))
      = map en_item_id (pg_entries p)"
    by (rule map_update_first_find[OF Some]) (simp add: find_key[OF Some])
  then show ?thesis using assms Some
    by (simp add: upsert_command_body_def Let_def item_ids_ok_def)
qed

lemma item_ids_ok_web:
  assumes "item_ids_ok p"
  shows "item_ids_ok (snd (upsert_web_search_body search p))"
proof (cases "List.find (\<lambda>e. ws_item_id e = ws_item_id search) (pg_web_searches p)")
  case None
  have "distinct (map ws_item_id (keep_last TELEGRAM_WEB_SEARCH_MAX_ENTRIES (pg_web_searches p @ [search])))"
    using assms by (intro distinct_upsert_new[OF None]) (simp_all add: item_ids_ok_def)
  then show ?thesis using assms None
    by (simp add: upsert_web_search_body_def Let_def item_ids_ok_def del: map_append)
next
  case (Some current)
  have "map ws_item_id (update_first (\<lambda>e. ws_item_id e = ws_item_id search) (\<lambda>_. search) (pg_web_searches p))
      = map ws_item_id (pg_web_searches p)"
    by (rule map_update_first_find[OF Some]) (simp add: find_key[OF Some])
  then show ?thesis using assms Some
    by (simp add: upsert_web_search_body_def Let_def item_ids_ok_def)
qed

lemma commentary_sequence_frame [simp]:
  "pg_commentary_entries (snd (commentary_sequence item p)) = pg_commentary_entries p"
  "pg_completed (snd (commentary_sequence item p)) = pg_completed p"
  by (simp_all add: commentary_sequence_def allocate_sequence_def split: option.split)

lemma item_ids_ok_commentary_sequence:
  "item_ids_ok p \<Longrightarrow> item_ids_ok (snd (commentary_sequence item p))"
  by (auto simp: commentary_sequence_def allocate_sequence_def item_ids_ok_def split: option.split)

lemma item_ids_ok_commentary:
  assumes "item_ids_ok p"
  shows "item_ids_ok (snd (upsert_commentary_body item text p))"
proof (cases "List.find (\<lambda>e. ce_item_id e = item) (pg_commentary_entries p)")
  case None
  have "distinct (map ce_item_id (keep_last TELEGRAM_COMMENTARY_MAX_ENTRIES
      (pg_commentary_entries p @ [\<lparr>ce_item_id = item, ce_text = text, ce_sequence = n\<rparr>])))" for n
    using assms by (intro distinct_upsert_new[OF None]) (simp_all add: item_ids_ok_def)
  then show ?thesis using assms None item_ids_ok_commentary_sequence[OF assms, of item]
    by (simp add: upsert_commentary_body_def Let_def split_def item_ids_ok_def del: map_append)
next
  case (Some current)
  have "map ce_item_id (update_first (\<lambda>e. ce_item_id e = item) (\<lambda>e. e\<lparr>ce_text := text\<rparr>) (pg_commentary_entries p))
      = map ce_item_id (pg_commentary_entries p)"
    by (rule distinct_update_all) simp
  then show ?thesis using assms Some item_ids_ok_commentary_sequence[OF assms, of item]
    by (simp add: upsert_commentary_body_def Let_def split_def item_ids_ok_def)
qed

lemma item_ids_ok_reserve: "item_ids_ok p \<Longrightarrow> item_ids_ok (snd (reserve_commentary_body item p))"
  by (auto simp: reserve_commentary_body_def allocate_sequence_def item_ids_ok_def split: option.split)

lemma item_ids_ok_collab: "item_ids_ok p \<Longrightarrow> item_ids_ok (snd (merge_collab_body updates p))"
  using collab_inv_merge[of "pg_collab_entries p" "pg_collab_dropped_entries p" updates]
  by (simp add: merge_collab_body_def item_ids_ok_def split_def Let_def)

lemma item_ids_ok_finish: "item_ids_ok p \<Longrightarrow> item_ids_ok (snd (finish_body failed now p))"
  by (simp add: finish_body_def Let_def item_ids_ok_def collab_inv_interrupt)

lemma item_ids_ok_retain: "item_ids_ok p \<Longrightarrow> item_ids_ok (snd (retain_commentary_body keep p))"
  by (simp add: retain_commentary_body_def Let_def item_ids_ok_def distinct_map_filter)

lemma item_ids_ok_same:
  "pg_entries p' = pg_entries p \<Longrightarrow> pg_commentary_entries p' = pg_commentary_entries p \<Longrightarrow>
   pg_web_searches p' = pg_web_searches p \<Longrightarrow> pg_collab_entries p' = pg_collab_entries p \<Longrightarrow>
   pg_reserved_commentary_sequences p' = pg_reserved_commentary_sequences p \<Longrightarrow>
   item_ids_ok p \<Longrightarrow> item_ids_ok p'"
  by (simp add: item_ids_ok_def)

text \<open>The other bodies leave these lists alone.\<close>

inductive plain_step :: "command_progress_state \<Rightarrow> command_progress_state \<Rightarrow> bool" where
  "plain_step p (snd (record_retry_body error p))"
| "plain_step p (snd (append_reasoning_body item idx delta p))"
| "plain_step p (snd (complete_reasoning_body item summary p))"
| "plain_step p (snd (update_plan_body explanation steps deliver p))"
| "plain_step p (snd (update_diff_body diff deliver p))"
| "plain_step p (snd (complete_file_change_body fallback p))"
| "plain_step p (snd (set_final_reply_body text elapsed p))"

lemma plain_step_lists:
  "plain_step p p' \<Longrightarrow>
     pg_entries p' = pg_entries p \<and> pg_commentary_entries p' = pg_commentary_entries p \<and>
     pg_web_searches p' = pg_web_searches p \<and> pg_collab_entries p' = pg_collab_entries p \<and>
     pg_reserved_commentary_sequences p' = pg_reserved_commentary_sequences p \<and>
     pg_next_sequence p' = pg_next_sequence p"
  by (induction rule: plain_step.induct)
     (simp_all add: content_bodies Let_def split: option.split)

lemma item_ids_ok_plain: "plain_step p p' \<Longrightarrow> item_ids_ok p \<Longrightarrow> item_ids_ok p'"
  using plain_step_lists item_ids_ok_same by blast

lemma item_ids_ok_step: "content_step p p' \<Longrightarrow> item_ids_ok p \<Longrightarrow> item_ids_ok p'"
  by (induction rule: content_step.induct)
     (blast intro: item_ids_ok_command item_ids_ok_web item_ids_ok_commentary item_ids_ok_reserve
        item_ids_ok_collab item_ids_ok_finish item_ids_ok_retain item_ids_ok_plain plain_step.intros)+

subsection \<open>Arrival numbers\<close>

abbreviation numbers :: "command_progress_state \<Rightarrow> nat multiset" where
  "numbers p \<equiv> mset (progress_sequences p)"

lemma distinct_count_le: "distinct xs \<longleftrightarrow> (\<forall>a. count (mset xs) a \<le> 1)"
proof (induction xs)
  case Nil
  then show ?case by simp
next
  case (Cons x xs)
  have "x \<notin> set xs \<longleftrightarrow> count (mset xs) x = 0" by (simp add: count_eq_zero_iff)
  then show ?case using Cons by (auto simp: le_Suc_eq)
qed

lemma distinct_fewer: "mset xs \<subseteq># mset ys \<Longrightarrow> distinct ys \<Longrightarrow> distinct xs"
  unfolding distinct_count_le by (meson le_trans mset_subset_eq_count)

lemma sequences_ok_fewer:
  assumes "sequences_ok p" and "pg_next_sequence p' = pg_next_sequence p" and "numbers p' \<subseteq># numbers p"
  shows "sequences_ok p'"
proof -
  have "distinct (progress_sequences p')" if "distinct (progress_sequences p)"
    using that assms(3) by (rule distinct_fewer[rotated])
  moreover have "set (progress_sequences p') \<subseteq> set (progress_sequences p)"
    using assms(3) by (metis set_mset_mono set_mset_mset)
  ultimately show ?thesis using assms(1,2) by (auto simp: sequences_ok_def)
qed

lemma sequences_ok_allocated:
  assumes "sequences_ok p" and "pg_next_sequence p' = sat_add (pg_next_sequence p) 1"
    and "numbers p' \<subseteq># add_mset (pg_next_sequence p) (numbers p)"
  shows "sequences_ok p'"
proof (cases "pg_next_sequence p' < u64_max")
  case True
  then have n: "pg_next_sequence p' = Suc (pg_next_sequence p)" "pg_next_sequence p < u64_max"
    using assms(2) by (auto simp: sat_add_def)
  have old: "distinct (progress_sequences p)" "1 \<le> pg_next_sequence p"
    "\<forall>s \<in> set (progress_sequences p). 1 \<le> s \<and> s < pg_next_sequence p"
    using assms(1) n by (auto simp: sequences_ok_def)
  have "distinct (pg_next_sequence p # progress_sequences p)" using old by auto
  then have "distinct (progress_sequences p')"
    using assms(3) distinct_fewer[of "progress_sequences p'" "pg_next_sequence p # progress_sequences p"]
    by simp
  moreover have "set (progress_sequences p') \<subseteq> insert (pg_next_sequence p) (set (progress_sequences p))"
    using set_mset_mono[OF assms(3)] by simp
  ultimately show ?thesis using old n by (fastforce simp: sequences_ok_def)
next
  case False
  then show ?thesis using assms(1,2) by (auto simp: sequences_ok_def sat_add_def u64_max_def)
qed

lemma mset_map_keep_last: "mset (map f (keep_last n xs)) \<subseteq># mset (map f xs)"
proof -
  obtain ys where "xs = ys @ keep_last n xs" using keep_last_suffix by blast
  then have "mset (map f xs) = mset (map f ys) + mset (map f (keep_last n xs))"
    by (metis map_append mset_append)
  then show ?thesis by simp
qed

lemma mset_snd_hremove:
  "hwf m \<Longrightarrow> hget m k = Some v \<Longrightarrow> mset (map snd m) = add_mset v (mset (map snd (hremove k m)))"
proof (induction m)
  case Nil
  then show ?case by simp
next
  case (Cons kv m)
  have wf: "hwf m" using Cons.prems(1) by (simp add: hwf_def)
  show ?case
  proof (cases "fst kv = k")
    case True
    then have "hremove k m = m" using Cons.prems(1) by (intro hremove_absent) (simp add: hcontains_iff hwf_def)
    then show ?thesis using True Cons.prems by (cases kv) simp
  next
    case False
    then show ?thesis using Cons.IH[OF wf] Cons.prems(2) by (cases kv) simp
  qed
qed

lemma map_snd_hinsert_new: "hget m k = None \<Longrightarrow> map snd (hinsert k v m) = map snd m @ [v]"
  by (induction m) (auto split: if_splits)

lemma sequences_ok_command:
  assumes "sequences_ok p"
  shows "sequences_ok (snd (upsert_command_body entry deliver p))"
proof (cases "List.find (\<lambda>e. en_item_id e = en_item_id entry) (pg_entries p)")
  case None
  let ?new = "entry\<lparr>en_sequence := pg_next_sequence p\<rparr>"
  have "mset (map en_sequence (keep_last TELEGRAM_COMMAND_PROGRESS_MAX_ENTRIES (pg_entries p @ [?new])))
      \<subseteq># add_mset (pg_next_sequence p) (mset (map en_sequence (pg_entries p)))"
    using mset_map_keep_last[of en_sequence _ "pg_entries p @ [?new]"] by simp
  then show ?thesis using assms None
    by (cases "pg_completed p")
       (auto simp: upsert_command_body_def Let_def allocate_sequence_def progress_sequences_def
          intro!: sequences_ok_allocated[OF assms] simp flip: union_mset_add_mset_left
          intro: subset_mset.add_right_mono simp del: mset_map)
next
  case (Some current)
  let ?entry = "entry\<lparr>en_sequence := en_sequence current\<rparr>"
  have "map en_sequence (update_first (\<lambda>e. en_item_id e = en_item_id entry) (\<lambda>_. ?entry) (pg_entries p))
      = map en_sequence (pg_entries p)"
    by (rule map_update_first_find[OF Some]) simp
  then have "sequences_ok (touch_progress (p\<lparr>pg_entries :=
      update_first (\<lambda>e. en_item_id e = en_item_id entry) (\<lambda>_. ?entry) (pg_entries p)\<rparr>))"
    by (intro sequences_ok_fewer[OF assms]) (simp_all add: progress_sequences_def del: mset_map)
  then show ?thesis using assms Some by (simp add: upsert_command_body_def Let_def)
qed

lemma sequences_ok_reserve:
  assumes "sequences_ok p"
  shows "sequences_ok (snd (reserve_commentary_body item p))"
proof (cases "List.find (\<lambda>e. ce_item_id e = item) (pg_commentary_entries p) = None
    \<and> hget (pg_reserved_commentary_sequences p) item = None")
  case True
  then show ?thesis
    by (auto simp: reserve_commentary_body_def allocate_sequence_def progress_sequences_def
        map_snd_hinsert_new simp del: mset_map intro!: sequences_ok_allocated[OF assms])
next
  case False
  then show ?thesis using assms by (auto simp: reserve_commentary_body_def split: option.split)
qed

text \<open>Adding a commentary entry moves the reserved number, or the next one, to the entry.\<close>

lemma sequences_ok_commentary_new:
  assumes ok: "sequences_ok p" and ids: "item_ids_ok p"
    and none: "List.find (\<lambda>e. ce_item_id e = item) (pg_commentary_entries p) = None"
    and seq: "commentary_sequence item p = (n, q)"
    and entries: "pg_commentary_entries q' = keep_last TELEGRAM_COMMENTARY_MAX_ENTRIES
        (pg_commentary_entries p @ [\<lparr>ce_item_id = item, ce_text = text, ce_sequence = n\<rparr>])"
    and rest: "pg_entries q' = pg_entries p" "pg_next_sequence q' = pg_next_sequence q"
      "pg_reserved_commentary_sequences q' = pg_reserved_commentary_sequences q"
  shows "sequences_ok q'"
proof -
  let ?new = "\<lparr>ce_item_id = item, ce_text = text, ce_sequence = n\<rparr>"
  have kept: "mset (map ce_sequence (pg_commentary_entries q'))
      \<subseteq># add_mset n (mset (map ce_sequence (pg_commentary_entries p)))"
    unfolding entries using mset_map_keep_last[of ce_sequence _ "pg_commentary_entries p @ [?new]"] by simp
  show ?thesis
  proof (cases "hget (pg_reserved_commentary_sequences p) item")
    case None
    then have n: "n = pg_next_sequence p" and q: "pg_next_sequence q = sat_add (pg_next_sequence p) 1"
      "pg_reserved_commentary_sequences q = pg_reserved_commentary_sequences p"
      using seq none by (auto simp: commentary_sequence_def allocate_sequence_def)
    have "numbers q' \<subseteq># add_mset (pg_next_sequence p) (numbers p)"
      using kept rest q n by (simp add: progress_sequences_def subset_mset.add_mono del: mset_map)
    then show ?thesis using q rest by (intro sequences_ok_allocated[OF ok]) simp_all
  next
    case (Some r)
    then have n: "n = r" and q: "pg_next_sequence q = pg_next_sequence p"
      "pg_reserved_commentary_sequences q = hremove item (pg_reserved_commentary_sequences p)"
      using seq none by (auto simp: commentary_sequence_def)
    have "mset (map snd (pg_reserved_commentary_sequences p))
        = add_mset r (mset (map snd (hremove item (pg_reserved_commentary_sequences p))))"
      using ids Some by (intro mset_snd_hremove) (simp_all add: item_ids_ok_def)
    then have "numbers q' \<subseteq># numbers p"
      using kept rest q n by (simp add: progress_sequences_def subset_mset.add_mono del: mset_map)
    then show ?thesis using q rest by (intro sequences_ok_fewer[OF ok]) simp_all
  qed
qed

lemma sequences_ok_commentary:
  assumes ok: "sequences_ok p" and ids: "item_ids_ok p"
  shows "sequences_ok (snd (upsert_commentary_body item text p))"
proof (cases "pg_completed p")
  case True
  then show ?thesis using ok by (simp add: upsert_commentary_body_def Let_def)
next
  case False
  obtain n q where seq: "commentary_sequence item p = (n, q)" by fastforce
  have frame: "pg_commentary_entries q = pg_commentary_entries p"
    using commentary_sequence_frame(1)[of item p] seq by simp
  show ?thesis
  proof (cases "List.find (\<lambda>e. ce_item_id e = item) (pg_commentary_entries p)")
    case None
    have entries: "pg_entries q = pg_entries p"
      using seq by (auto simp: commentary_sequence_def allocate_sequence_def split: option.splits)
    show ?thesis
      using False None frame seq entries
      by (intro sequences_ok_commentary_new[OF ok ids None seq])
         (simp_all add: upsert_commentary_body_def Let_def)
  next
    case (Some current)
    have q: "q = p" using seq Some by (simp add: commentary_sequence_def)
    have "map ce_sequence (update_first (\<lambda>e. ce_item_id e = item) (\<lambda>e. e\<lparr>ce_text := text\<rparr>)
        (pg_commentary_entries p)) = map ce_sequence (pg_commentary_entries p)"
      by (rule distinct_update_all) simp
    then have "sequences_ok (touch_progress (p\<lparr>pg_commentary_entries :=
        update_first (\<lambda>e. ce_item_id e = item) (\<lambda>e. e\<lparr>ce_text := text\<rparr>) (pg_commentary_entries p)\<rparr>))"
      by (intro sequences_ok_fewer[OF ok]) (simp_all add: progress_sequences_def del: mset_map)
    then show ?thesis using False Some seq q ok
      by (simp add: upsert_commentary_body_def Let_def)
  qed
qed

lemma mset_map_filter_le: "mset (map f (filter P xs)) \<subseteq># mset (map f xs)"
  by (induction xs) (auto intro: subset_mset.order_trans simp: subset_mset.add_increasing)

lemma sequences_ok_retain:
  assumes "sequences_ok p"
  shows "sequences_ok (snd (retain_commentary_body keep p))"
proof -
  have "numbers (snd (retain_commentary_body keep p)) \<subseteq># numbers p"
    using mset_map_filter_le[of ce_sequence keep "pg_commentary_entries p"]
    by (auto simp: retain_commentary_body_def Let_def progress_sequences_def simp del: mset_map)
  moreover have "pg_next_sequence (snd (retain_commentary_body keep p)) = pg_next_sequence p"
    by (simp add: retain_commentary_body_def Let_def)
  ultimately show ?thesis using assms sequences_ok_fewer by blast
qed

lemma sequences_ok_same:
  "sequences_ok p \<Longrightarrow> progress_sequences p' = progress_sequences p \<Longrightarrow>
   pg_next_sequence p' = pg_next_sequence p \<Longrightarrow> sequences_ok p'"
  by (simp add: sequences_ok_def)

lemma sequences_ok_web: "sequences_ok p \<Longrightarrow> sequences_ok (snd (upsert_web_search_body search p))"
  by (erule sequences_ok_same)
     (simp_all add: upsert_web_search_body_def Let_def progress_sequences_def split: option.split)

lemma sequences_ok_collab: "sequences_ok p \<Longrightarrow> sequences_ok (snd (merge_collab_body updates p))"
  by (erule sequences_ok_same)
     (simp_all add: merge_collab_body_def Let_def split_def progress_sequences_def)

lemma sequences_ok_finish: "sequences_ok p \<Longrightarrow> sequences_ok (snd (finish_body failed now p))"
  by (erule sequences_ok_same) (simp_all add: finish_body_def Let_def progress_sequences_def)

lemma sequences_ok_plain: "plain_step p p' \<Longrightarrow> sequences_ok p \<Longrightarrow> sequences_ok p'"
  using plain_step_lists by (fastforce intro: sequences_ok_same simp: progress_sequences_def)

lemma sequences_ok_step: "content_step p p' \<Longrightarrow> sequences_ok p \<Longrightarrow> item_ids_ok p \<Longrightarrow> sequences_ok p'"
  by (induction rule: content_step.induct)
     (blast intro: sequences_ok_command sequences_ok_web sequences_ok_commentary sequences_ok_reserve
        sequences_ok_collab sequences_ok_finish sequences_ok_retain sequences_ok_plain plain_step.intros)+

lemma content_inv_step: "content_step p p' \<Longrightarrow> content_inv p \<Longrightarrow> content_inv p'"
  using sequences_ok_step bounds_ok_step item_ids_ok_step by (auto simp: content_inv_def)

lemma content_inv_new: "content_inv (telegram_command_progress_state turn)"
  by (simp add: content_inv_def sequences_ok_def bounds_ok_def item_ids_ok_def
      telegram_command_progress_state_def progress_sequences_def)

subsection \<open>Order of arrival\<close>

definition commentary_of :: "string \<Rightarrow> command_progress_state \<Rightarrow> commentary_entry option" where
  "commentary_of item p = List.find (\<lambda>e. ce_item_id e = item) (pg_commentary_entries p)"

definition command_of :: "string \<Rightarrow> command_progress_state \<Rightarrow> command_progress_entry option" where
  "command_of item p = List.find (\<lambda>e. en_item_id e = item) (pg_entries p)"

lemma find_append_new:
  "List.find P xs = None \<Longrightarrow> P y \<Longrightarrow> List.find P (xs @ [y]) = Some y"
  by (induction xs) (auto split: if_splits)

lemma find_keep_last_new:
  assumes "List.find P xs = None" and "P y" and "0 < n"
  shows "List.find P (keep_last n (xs @ [y])) = Some y"
proof -
  have "\<exists>zs. keep_last n (xs @ [y]) = zs @ [y] \<and> set zs \<subseteq> set xs"
    using assms(3) by (cases "length xs < n") (auto simp: keep_last_def dest: in_set_dropD)
  then obtain zs where zs: "keep_last n (xs @ [y]) = zs @ [y]" "set zs \<subseteq> set xs" by blast
  have "List.find P zs = None" using assms(1) zs(2) by (auto simp: find_None_iff_all)
  then show ?thesis using assms(2) zs(1) by (simp add: find_append_new)
qed

lemma reserved_below_next:
  assumes "sequences_ok p" and "reserve_commentary_body item p = (s, p1)" and "pg_next_sequence p < u64_max"
  shows "s < pg_next_sequence p1"
proof (cases "commentary_of item p")
  case (Some e)
  then have "e \<in> set (pg_commentary_entries p)" "s = ce_sequence e" "p1 = p"
    using assms(2) by (auto simp: commentary_of_def reserve_commentary_body_def dest: find_Some_in)
  then show ?thesis using assms(1,3) by (auto simp: sequences_ok_def progress_sequences_def)
next
  case None
  show ?thesis
  proof (cases "hget (pg_reserved_commentary_sequences p) item")
    case (Some r)
    then have "s = r" "p1 = p" "r \<in> set (map snd (pg_reserved_commentary_sequences p))"
      using None assms(2) map_of_SomeD[OF Some]
      by (auto simp: commentary_of_def reserve_commentary_body_def intro: rev_image_eqI)
    then show ?thesis using assms(1,3) by (auto simp: sequences_ok_def progress_sequences_def)
  next
    case None2: None
    then show ?thesis using None assms(2,3)
      by (auto simp: commentary_of_def reserve_commentary_body_def allocate_sequence_def sat_add_def
          split: option.splits)
  qed
qed

lemma reserved_stays:
  assumes "reserve_commentary_body item p = (s, p1)"
  shows "(case commentary_of item p1 of Some e \<Rightarrow> ce_sequence e = s
     | None \<Rightarrow> hget (pg_reserved_commentary_sequences p1) item = Some s)"
    and "pg_completed p1 = pg_completed p" and "pg_entries p1 = pg_entries p"
  using assms by (auto simp: reserve_commentary_body_def commentary_of_def allocate_sequence_def split: option.splits)

text \<open>Thinking that began before a tool is shown before it. A number is reserved when a
  commentary item starts; a tool item not seen before arrives; the commentary text arrives. Then the
  commentary entry carries the reserved number and the tool entry a greater one, although the text
  came later (until the counter saturates).\<close>

theorem commentary_ordered_before_later_tool:
  assumes "content_inv p" and "\<not> pg_completed p" and "pg_next_sequence p < u64_max"
    and "command_of (en_item_id entry) p = None"
    and "reserve_commentary_body item p = (s, p1)"
    and "p2 = snd (upsert_command_body entry deliver p1)"
    and "p3 = snd (upsert_commentary_body item text p2)"
  shows "(\<exists>c e. commentary_of item p3 = Some c \<and> ce_text c = text \<and> ce_sequence c = s \<and>
    command_of (en_item_id entry) p3 = Some e \<and> s < en_sequence e)"
proof -
  note p1 = reserved_stays[OF assms(5)]
  have fresh: "List.find (\<lambda>e. en_item_id e = en_item_id entry) (pg_entries p1) = None"
    using assms(4) p1(3) by (simp add: command_of_def)
  have p2: "command_of (en_item_id entry) p2 = Some (entry\<lparr>en_sequence := pg_next_sequence p1\<rparr>)"
    "pg_commentary_entries p2 = pg_commentary_entries p1" "\<not> pg_completed p2"
    "pg_reserved_commentary_sequences p2 = pg_reserved_commentary_sequences p1"
    using fresh p1(2) assms(2) unfolding assms(6)
    by (simp_all add: upsert_command_body_def Let_def allocate_sequence_def command_of_def
        find_keep_last_new TELEGRAM_COMMAND_PROGRESS_MAX_ENTRIES_def)
  have p3: "command_of (en_item_id entry) p3 = command_of (en_item_id entry) p2"
    unfolding assms(7) by (simp add: command_of_def upsert_commentary_body_def Let_def split_def
        commentary_sequence_def allocate_sequence_def split: option.split)
  have "\<exists>c. commentary_of item p3 = Some c \<and> ce_text c = text \<and> ce_sequence c = s"
  proof (cases "commentary_of item p1")
    case (Some c)
    then have seq: "ce_sequence c = s" using p1(1) by simp
    have found: "List.find (\<lambda>e. ce_item_id e = item) (pg_commentary_entries p2) = Some c"
      using Some p2(2) by (simp add: commentary_of_def)
    have "commentary_of item p3 = Some (c\<lparr>ce_text := text\<rparr>)"
      using found p2(3) find_key[OF found]
      unfolding assms(7) by (auto simp: commentary_of_def upsert_commentary_body_def Let_def split_def
          commentary_sequence_def find_update_first_same)
    then show ?thesis using seq by simp
  next
    case None
    then have res: "hget (pg_reserved_commentary_sequences p2) item = Some s"
      using p1(1) p2(4) by simp
    have fnd: "List.find (\<lambda>e. ce_item_id e = item) (pg_commentary_entries p2) = None"
      using None p2(2) by (simp add: commentary_of_def)
    have "commentary_of item p3 = Some \<lparr>ce_item_id = item, ce_text = text, ce_sequence = s\<rparr>"
      using fnd res p2(3) unfolding assms(7)
      by (simp add: commentary_of_def upsert_commentary_body_def Let_def split_def
          commentary_sequence_def find_keep_last_new TELEGRAM_COMMENTARY_MAX_ENTRIES_def)
    then show ?thesis by simp
  qed
  then show ?thesis
    using p2(1) p3 reserved_below_next[of p item s p1] assms(1,3,5) by (auto simp: content_inv_def)
qed

definition sample_tool :: command_progress_entry where
  "sample_tool = \<lparr> en_item_id = ''tool'', en_kind = McpToolEntry, en_command = ''grep'',
     en_status = CmdRunning, en_exit_code = None, en_duration_ms = None, en_failure_output = None,
     en_sequence = 0 \<rparr>"

theorem commentary_ordered_before_later_tool_witness:
  "\<exists>c e. commentary_of ''say'' (snd (upsert_commentary_body ''say'' ''why'' (snd (upsert_command_body sample_tool True
       (snd (reserve_commentary_body ''say'' (telegram_command_progress_state ''t1''))))))) = Some c
     \<and> ce_text c = ''why'' \<and> ce_sequence c = 1
     \<and> command_of ''tool'' (snd (upsert_commentary_body ''say'' ''why'' (snd (upsert_command_body sample_tool True
       (snd (reserve_commentary_body ''say'' (telegram_command_progress_state ''t1''))))))) = Some e
     \<and> 1 < en_sequence e"
proof -
  have "reserve_commentary_body ''say'' (telegram_command_progress_state ''t1'')
      = (1, snd (reserve_commentary_body ''say'' (telegram_command_progress_state ''t1'')))"
    by (simp add: reserve_commentary_body_def allocate_sequence_def telegram_command_progress_state_def)
  from commentary_ordered_before_later_tool[of _ sample_tool "''say''" 1 _ _ True _ "''why''",
      OF content_inv_new _ _ _ this refl refl]
  show ?thesis
    by (simp add: telegram_command_progress_state_def u64_max_def command_of_def sample_tool_def)
qed

end
