(* ===== verification/RuntimeDelivery.thy ===== *)
theory RuntimeDelivery
  imports RuntimeProgress
begin

section \<open>The aggregate progress message: delivery (src/src/im/runtime.rs)\<close>

text \<open>
  One driver task at a time sends the aggregate message: it claims a snapshot, sends it, reports
  success (and is handed the next snapshot if the content changed meanwhile) or failure. The locale
  \<open>latest_value_channel\<close> states that contract; inside it stands the theorem that a channel at rest
  shows its latest content. The model of the five delivery methods is an interpretation.
\<close>

subsection \<open>The delivery methods\<close>

definition claim_next_telegram_command_progress_snapshot :: "command_progress_state \<Rightarrow> progress_result" where
  "claim_next_telegram_command_progress_snapshot progress =
     (if \<not> pg_sending progress \<or> pg_in_flight_revision progress \<noteq> None \<or> \<not> pg_dirty progress
      then (None, progress)
      else (let progress = progress\<lparr>pg_dirty := False,
                             pg_in_flight_revision := Some (pg_revision progress)\<rparr>
            in (Some (telegram_command_progress_snapshot progress), progress)))"

definition claim_delivery_body :: "bool \<Rightarrow> command_progress_state \<Rightarrow> progress_result" where
  "claim_delivery_body turn_is_current progress =
     (if pg_sending progress \<or> \<not> pg_dirty progress
         \<or> (\<not> turn_is_current \<and> \<not> pg_cleanup_after_delivery progress)
      then (None, progress)
      else claim_next_telegram_command_progress_snapshot (progress\<lparr>pg_sending := True\<rparr>))"

definition claim_telegram_command_progress_delivery ::
  "string \<Rightarrow> string \<Rightarrow> runtime_state \<Rightarrow> command_progress_snapshot option \<times> runtime_state" where
  "claim_telegram_command_progress_delivery thread_id turn_id rs =
     with_progress thread_id turn_id None
       (claim_delivery_body (current_turn_id thread_id rs = Some turn_id)) rs"

definition telegram_command_progress_delivery_is_current ::
  "string \<Rightarrow> string \<Rightarrow> nat \<Rightarrow> runtime_state \<Rightarrow> bool" where
  "telegram_command_progress_delivery_is_current thread_id turn_id revision rs =
     (case hget (telegram_command_progress_by_thread rs) thread_id of
        None \<Rightarrow> False
      | Some progress \<Rightarrow>
          pg_turn_id progress = turn_id \<and> pg_sending progress
          \<and> pg_in_flight_revision progress = Some revision
          \<and> (current_turn_id thread_id rs = Some turn_id \<or> pg_cleanup_after_delivery progress))"

text \<open>The next snapshot, and whether the state is to be removed.\<close>

definition complete_delivery_body ::
  "nat \<Rightarrow> string \<Rightarrow> command_progress_state
     \<Rightarrow> (command_progress_snapshot option \<times> bool) \<times> command_progress_state" where
  "complete_delivery_body revision message_id progress =
     (if \<not> pg_sending progress \<or> pg_in_flight_revision progress \<noteq> Some revision
      then ((None, False), progress)
      else
        (let progress = progress\<lparr>pg_message_id := Some message_id, pg_in_flight_revision := None\<rparr>
         in if pg_dirty progress
            then (let (next_snapshot, progress) = claim_next_telegram_command_progress_snapshot progress
                  in ((next_snapshot, False), progress))
            else ((None, pg_completed progress \<and> pg_cleanup_after_delivery progress),
                  progress\<lparr>pg_sending := False\<rparr>)))"

definition complete_telegram_command_progress_delivery ::
  "string \<Rightarrow> string \<Rightarrow> nat \<Rightarrow> string \<Rightarrow> runtime_state
     \<Rightarrow> command_progress_snapshot option \<times> runtime_state" where
  "complete_telegram_command_progress_delivery thread_id turn_id revision message_id rs =
     (let ((next_snapshot, cleanup), rs) =
        with_progress thread_id turn_id (None, False) (complete_delivery_body revision message_id) rs
      in (next_snapshot,
          if cleanup then clear_telegram_command_progress_for_thread thread_id rs else rs))"

definition fail_delivery_body :: "nat \<Rightarrow> command_progress_state \<Rightarrow> bool \<times> command_progress_state" where
  "fail_delivery_body revision progress =
     (if \<not> pg_sending progress \<or> pg_in_flight_revision progress \<noteq> Some revision
      then (False, progress)
      else
        (let progress = progress\<lparr>pg_in_flight_revision := None, pg_dirty := True\<rparr>
         in if pg_completed progress then (True, progress)
            else (False, progress\<lparr>pg_sending := False\<rparr>)))"

definition fail_telegram_command_progress_delivery ::
  "string \<Rightarrow> string \<Rightarrow> nat \<Rightarrow> runtime_state \<Rightarrow> bool \<times> runtime_state" where
  "fail_telegram_command_progress_delivery thread_id turn_id revision rs =
     with_progress thread_id turn_id False (fail_delivery_body revision) rs"

definition retry_delivery_body :: "command_progress_state \<Rightarrow> progress_result" where
  "retry_delivery_body progress =
     (if \<not> pg_sending progress \<or> pg_in_flight_revision progress \<noteq> None \<or> \<not> pg_dirty progress
      then (None, progress)
      else claim_next_telegram_command_progress_snapshot progress)"

definition retry_telegram_command_progress_delivery ::
  "string \<Rightarrow> string \<Rightarrow> runtime_state \<Rightarrow> command_progress_snapshot option \<times> runtime_state" where
  "retry_telegram_command_progress_delivery thread_id turn_id rs =
     with_progress thread_id turn_id None retry_delivery_body rs"

subsection \<open>The delivery flags\<close>

definition delivery_ok :: "command_progress_state \<Rightarrow> bool" where
  "delivery_ok p \<longleftrightarrow> pg_revision p \<le> u64_max \<and>
     (\<forall>r. pg_in_flight_revision p = Some r \<longrightarrow> pg_sending p \<and> r \<le> pg_revision p) \<and>
     (pg_sending p \<and> pg_in_flight_revision p = None \<longrightarrow> pg_dirty p \<and> pg_completed p)"

inductive delivery_step :: "command_progress_state \<Rightarrow> command_progress_state \<Rightarrow> bool" where
  claimed: "delivery_step p (snd (claim_delivery_body cur p))"
| delivered: "delivery_step p (snd (complete_delivery_body revision mid p))"
| failed: "delivery_step p (snd (fail_delivery_body revision p))"
| retry: "delivery_step p (snd (retry_delivery_body p))"

lemmas delivery_bodies = claim_delivery_body_def complete_delivery_body_def fail_delivery_body_def
  retry_delivery_body_def claim_next_telegram_command_progress_snapshot_def

lemma delivery_ok_step: "delivery_step p p' \<Longrightarrow> delivery_ok p \<Longrightarrow> delivery_ok p'"
  by (induction rule: delivery_step.induct)
     (auto simp: delivery_bodies delivery_ok_def Let_def split_def)

lemma delivery_step_content: "delivery_step p p' \<Longrightarrow> content_inv p' = content_inv p"
  by (induction rule: delivery_step.induct)
     (auto simp: delivery_bodies content_inv_def sequences_ok_def bounds_ok_def item_ids_ok_def
        progress_sequences_def Let_def split_def)

lemma delivery_step_turn: "delivery_step p p' \<Longrightarrow> pg_turn_id p' = pg_turn_id p"
  by (induction rule: delivery_step.induct) (auto simp: delivery_bodies Let_def split_def)

text \<open>A content change leaves the flags of the driver alone; a completed message stays completed.\<close>

lemma content_step_flags:
  "content_step p p' \<Longrightarrow>
     pg_sending p' = pg_sending p \<and> pg_in_flight_revision p' = pg_in_flight_revision p \<and>
     pg_message_id p' = pg_message_id p \<and> pg_cleanup_after_delivery p' = pg_cleanup_after_delivery p \<and>
     pg_turn_id p' = pg_turn_id p \<and> (pg_completed p \<longrightarrow> pg_completed p') \<and>
     (pg_revision p' = pg_revision p \<or> pg_revision p' = sat_add (pg_revision p) 1)"
  by (induction rule: content_step.induct)
     (simp_all add: content_bodies Let_def split_def split: option.split)

lemma content_step_delivery_ok:
  assumes step: "content_step p p'" and ok: "delivery_ok p"
    and dirty: "pg_completed p \<Longrightarrow> pg_dirty p \<Longrightarrow> pg_dirty p'"
  shows "delivery_ok p'"
  using content_step_flags[OF step] ok dirty sat_add_ge[of "pg_revision p" 1]
  by (auto simp: delivery_ok_def intro: le_trans)

subsection \<open>What the reader of the message sees\<close>

definition snapshot_content :: "command_progress_snapshot \<Rightarrow> command_progress_snapshot" where
  "snapshot_content sn = sn\<lparr>sn_revision := 0, sn_message_id := None\<rparr>"

definition progress_content :: "command_progress_state \<Rightarrow> command_progress_snapshot" where
  "progress_content p = snapshot_content (telegram_command_progress_snapshot p)"

text \<open>\<open>telegram_command_progress_has_content\<close> depends on the visible content only.\<close>

definition content_blank :: "command_progress_snapshot \<Rightarrow> bool" where
  "content_blank sn \<longleftrightarrow> sn_entries sn = [] \<and> sn_retry_count sn = 0 \<and> sn_reasoning_summary sn = None \<and>
     sn_plan_explanation sn = None \<and> sn_plan sn = [] \<and> sn_diff_summary sn = None \<and>
     sn_web_searches sn = [] \<and> sn_commentary sn = [] \<and> sn_final_reply sn = None \<and> sn_collab sn = None"

lemma nonblank_None: "nonblank x = None \<longleftrightarrow> (case x of None \<Rightarrow> True | Some v \<Rightarrow> trim v = [])"
  by (simp add: nonblank_def split: option.split)

lemma has_content_content:
  "telegram_command_progress_has_content p \<longleftrightarrow> \<not> content_blank (progress_content p)"
  by (auto simp: telegram_command_progress_has_content_def content_blank_def progress_content_def
      snapshot_content_def telegram_command_progress_snapshot_def nonblank_None split: option.split)

definition visible_fields :: "command_progress_state \<Rightarrow> command_progress_state" where
  "visible_fields p = p\<lparr>pg_revision := 0, pg_message_id := None, pg_next_sequence := 0,
     pg_reserved_commentary_sequences := [], pg_dirty := False, pg_sending := False,
     pg_in_flight_revision := None, pg_cleanup_after_delivery := False, pg_reasoning_item_id := None,
     pg_reasoning_summary_index := None\<rparr>"

lemma visible_content: "visible_fields p' = visible_fields p \<Longrightarrow> progress_content p' = progress_content p"
  unfolding visible_fields_def progress_content_def snapshot_content_def telegram_command_progress_snapshot_def
  by (cases p; cases p') simp

text \<open>The one change that clears the dirty flag: a plan update that leaves nothing to show before
  the message exists.\<close>

definition cleared_unsent :: "command_progress_state \<Rightarrow> bool" where
  "cleared_unsent p \<longleftrightarrow> pg_message_id p = None \<and> content_blank (progress_content p)
     \<and> \<not> pg_completed p \<and> \<not> pg_dirty p"

definition quiet_change :: "command_progress_state \<Rightarrow> command_progress_state \<Rightarrow> bool" where
  "quiet_change p p' \<longleftrightarrow> visible_fields p' = visible_fields p \<and> pg_dirty p' = pg_dirty p"

lemma quiet_change_refl [simp]: "quiet_change p p"
  by (simp add: quiet_change_def)

lemma cleared_unsent_plan:
  "\<not> pg_completed p \<Longrightarrow> pg_dirty (snd (update_plan_body explanation steps deliver p)) \<or>
   quiet_change p (snd (update_plan_body explanation steps deliver p)) \<or>
   cleared_unsent (snd (update_plan_body explanation steps deliver p))"
  by (auto simp: update_plan_body_def Let_def cleared_unsent_def has_content_content[symmetric]
      telegram_command_progress_has_content_def)

lemma quiet_or_dirty:
  "pg_dirty (snd (upsert_command_body entry deliver p)) \<or> quiet_change p (snd (upsert_command_body entry deliver p))"
  "pg_dirty (snd (upsert_web_search_body search p)) \<or> quiet_change p (snd (upsert_web_search_body search p))"
  "pg_dirty (snd (record_retry_body error p)) \<or> quiet_change p (snd (record_retry_body error p))"
  "pg_dirty (snd (append_reasoning_body item idx delta p))
     \<or> quiet_change p (snd (append_reasoning_body item idx delta p))"
  "pg_dirty (snd (update_diff_body diff deliver p)) \<or> quiet_change p (snd (update_diff_body diff deliver p))"
  "pg_dirty (snd (complete_file_change_body fallback p))
     \<or> quiet_change p (snd (complete_file_change_body fallback p))"
  "pg_dirty (snd (set_final_reply_body text elapsed p)) \<or> quiet_change p (snd (set_final_reply_body text elapsed p))"
  by (simp_all add: content_bodies Let_def split: option.split)

lemma quiet_reserve: "quiet_change p (snd (reserve_commentary_body item p))"
  by (simp add: quiet_change_def visible_fields_def reserve_commentary_body_def allocate_sequence_def
      split: option.split)

lemma quiet_commentary:
  "pg_dirty (snd (upsert_commentary_body item text p)) \<or> quiet_change p (snd (upsert_commentary_body item text p))"
  by (simp add: upsert_commentary_body_def Let_def split_def commentary_sequence_def quiet_change_def
      allocate_sequence_def split: option.split)

lemma quiet_retain:
  "pg_dirty (snd (retain_commentary_body keep p)) \<or> quiet_change p (snd (retain_commentary_body keep p))"
proof (cases "filter keep (pg_commentary_entries p) = pg_commentary_entries p")
  case True
  then show ?thesis by (simp add: retain_commentary_body_def Let_def)
next
  case False
  then have "length (filter keep (pg_commentary_entries p)) \<noteq> length (pg_commentary_entries p)"
    by (metis filter_id_conv length_filter_less nat_less_le)
  then show ?thesis by (simp add: retain_commentary_body_def Let_def)
qed

lemma quiet_collab:
  "pg_dirty (snd (merge_collab_body updates p)) \<or> quiet_change p (snd (merge_collab_body updates p))"
proof -
  obtain entries d c where m: "merge_telegram_collab_progress_updates (pg_collab_entries p)
      (pg_collab_dropped_entries p) updates = (entries, d, c)" by (metis prod_cases3)
  then show ?thesis
    using merge_unchanged[of "pg_collab_entries p" "pg_collab_dropped_entries p" updates entries d]
    by (cases c) (simp_all add: merge_collab_body_def)
qed

lemma filter_Nil_map_id: "filter P xs = [] \<Longrightarrow> (\<And>x. \<not> P x \<Longrightarrow> f x = x) \<Longrightarrow> map f xs = xs"
  by (induction xs) (auto split: if_splits)

lemma quiet_finish:
  "pg_dirty (snd (finish_body failed now p)) \<or> quiet_change p (snd (finish_body failed now p))"
  by (auto simp: finish_body_def Let_def filter_Nil_map_id interrupt_entry_def interrupt_collab_def)

lemma quiet_reasoning:
  "pg_dirty (snd (complete_reasoning_body item summary p)) \<or>
   quiet_change p (snd (complete_reasoning_body item summary p))"
proof (cases "nonblank summary")
  case None
  then show ?thesis by (simp add: complete_reasoning_body_def Let_def)
next
  case (Some body)
  then have "trim body \<noteq> []" by (auto simp: nonblank_def opt_filter_def split: option.splits if_splits)
  then show ?thesis using Some
    by (auto simp: complete_reasoning_body_def Let_def quiet_change_def visible_fields_def)
qed

definition change_effect_ok :: "command_progress_state \<Rightarrow> command_progress_state \<Rightarrow> bool" where
  "change_effect_ok p p' \<longleftrightarrow> pg_dirty p' \<or> quiet_change p p' \<or> (cleared_unsent p' \<and> \<not> pg_completed p)"

lemma change_effect_okI: "pg_dirty p' \<or> quiet_change p p' \<Longrightarrow> change_effect_ok p p'"
  by (auto simp: change_effect_ok_def)

lemma change_effect_plan:
  "\<not> pg_completed p \<Longrightarrow> change_effect_ok p (snd (update_plan_body explanation steps deliver p))"
  using cleared_unsent_plan[of p explanation steps deliver] by (auto simp: change_effect_ok_def)

lemmas change_effects = quiet_or_dirty[THEN change_effect_okI]
  quiet_reserve[THEN disjI2, THEN change_effect_okI]
  quiet_commentary[THEN change_effect_okI] quiet_retain[THEN change_effect_okI]
  quiet_collab[THEN change_effect_okI] quiet_finish[THEN change_effect_okI]
  quiet_reasoning[THEN change_effect_okI] change_effect_plan

lemma content_step_effect: "content_step p p' \<Longrightarrow> change_effect_ok p p'"
  by (induction rule: content_step.induct) (simp_all add: change_effects)

lemma content_step_delivery_inv:
  assumes "content_step p p'" and "delivery_ok p"
  shows "delivery_ok p'"
  using content_step_effect[OF assms(1)] assms
  by (intro content_step_delivery_ok[OF assms(1,2)])
     (auto simp: quiet_change_def change_effect_ok_def)

subsection \<open>The latest-value channel\<close>

text \<open>
  The contract between a producer that changes a value, and a driver that shows it: a change marks
  the channel dirty unless nothing visible changed or there is nothing to show and nothing under
  way; a claim hands out the current value and cleans the mark; a finished delivery either rests
  clean or is handed the next value; a failed one leaves the channel dirty. In \<open>channel_step\<close> the
  two added components are the value being sent and the value the reader sees.
\<close>

locale latest_value_channel =
  fixes content :: "'s \<Rightarrow> 'c"
    and blank :: "'c \<Rightarrow> bool"
    and dirty :: "'s \<Rightarrow> bool"
    and in_flight :: "'s \<Rightarrow> bool"
    and visible :: "'s \<Rightarrow> bool"
    and change :: "'s \<Rightarrow> 's \<Rightarrow> bool"
    and claim :: "'s \<Rightarrow> 'c \<Rightarrow> 's \<Rightarrow> bool"
    and deliver :: "'s \<Rightarrow> 'c option \<Rightarrow> 's \<Rightarrow> bool"
    and lose :: "'s \<Rightarrow> 's \<Rightarrow> bool"
  assumes change_flags: "change s s' \<Longrightarrow> in_flight s' = in_flight s \<and> visible s' = visible s"
    and change_effect: "change s s' \<Longrightarrow> dirty s' \<or> (content s' = content s \<and> dirty s' = dirty s)
      \<or> (\<not> in_flight s \<and> \<not> visible s \<and> blank (content s'))"
    and claim_effect: "claim s c s' \<Longrightarrow> \<not> in_flight s \<and> in_flight s' \<and> visible s' = visible s
      \<and> c = content s' \<and> content s' = content s"
    and deliver_rest: "deliver s None s' \<Longrightarrow> in_flight s \<and> \<not> in_flight s' \<and> \<not> dirty s \<and> visible s'
      \<and> content s' = content s"
    and deliver_next: "deliver s (Some c) s' \<Longrightarrow> in_flight s \<and> in_flight s' \<and> visible s'
      \<and> c = content s' \<and> content s' = content s"
    and lose_effect: "lose s s' \<Longrightarrow> in_flight s \<and> \<not> in_flight s' \<and> visible s' = visible s \<and> dirty s'"
begin

inductive channel_step ::
  "'s \<times> 'c option \<times> 'c option \<Rightarrow> 's \<times> 'c option \<times> 'c option \<Rightarrow> bool" where
  changed: "change s s' \<Longrightarrow> channel_step (s, f, v) (s', f, v)"
| claimed: "claim s c s' \<Longrightarrow> channel_step (s, f, v) (s', Some c, v)"
| delivered: "deliver s upcoming s' \<Longrightarrow> channel_step (s, f, v) (s', upcoming, f)"
| lost: "lose s s' \<Longrightarrow> channel_step (s, f, v) (s', None, v)"

definition channel_inv :: "'s \<times> 'c option \<times> 'c option \<Rightarrow> bool" where
  "channel_inv b \<longleftrightarrow> (case b of (s, f, v) \<Rightarrow>
     (in_flight s \<longleftrightarrow> f \<noteq> None) \<and> (visible s \<longleftrightarrow> v \<noteq> None) \<and>
     (\<not> dirty s \<longrightarrow> (case f of Some c \<Rightarrow> c = content s
        | None \<Rightarrow> (case v of Some c \<Rightarrow> c = content s | None \<Rightarrow> blank (content s)))))"

lemma channel_inv_step: "channel_step b b' \<Longrightarrow> channel_inv b \<Longrightarrow> channel_inv b'"
proof (induction rule: channel_step.induct)
  case (changed s s' f v)
  then show ?case
    using change_flags[OF changed.hyps] change_effect[OF changed.hyps]
    by (auto simp: channel_inv_def split: option.splits)
next
  case (claimed s c s' f v)
  then show ?case using claim_effect[OF claimed.hyps] by (auto simp: channel_inv_def)
next
  case (delivered s nxt s' f v)
  then show ?case
    using deliver_rest[of s s'] deliver_next[of s _ s']
    by (cases nxt) (auto simp: channel_inv_def split: option.splits)
next
  case (lost s s' f v)
  then show ?case using lose_effect[OF lost.hyps] by (auto simp: channel_inv_def)
qed

lemma channel_inv_reachable: "channel_step\<^sup>*\<^sup>* b b' \<Longrightarrow> channel_inv b \<Longrightarrow> channel_inv b'"
  by (induction rule: rtranclp_induct) (auto intro: channel_inv_step)

text \<open>At rest, the reader sees the latest content, or there is nothing to see.\<close>

lemma rest_shows_latest:
  assumes "channel_step\<^sup>*\<^sup>* b (s, f, v)" and "channel_inv b" and "\<not> dirty s" and "\<not> in_flight s"
  shows "v = Some (content s) \<or> (v = None \<and> blank (content s))"
  using channel_inv_reachable[OF assms(1,2)] assms(3,4)
  by (auto simp: channel_inv_def split: option.splits)

end

subsection \<open>The aggregate message is such a channel\<close>

definition progress_in_flight :: "command_progress_state \<Rightarrow> bool" where
  "progress_in_flight p = (pg_in_flight_revision p \<noteq> None)"

definition progress_visible :: "command_progress_state \<Rightarrow> bool" where
  "progress_visible p = (pg_message_id p \<noteq> None)"

text \<open>The changes of the contract: all of them but the plan update that empties a message while
  its first version is being sent (see \<open>cleared_plan_is_lost\<close>).\<close>

definition progress_change :: "command_progress_state \<Rightarrow> command_progress_state \<Rightarrow> bool" where
  "progress_change p p' \<longleftrightarrow> content_step p p' \<and> \<not> (cleared_unsent p' \<and> progress_in_flight p)"

inductive progress_claim ::
  "command_progress_state \<Rightarrow> command_progress_snapshot \<Rightarrow> command_progress_state \<Rightarrow> bool" where
  first: "claim_delivery_body cur p = (Some sn, p') \<Longrightarrow> progress_claim p (snapshot_content sn) p'"
| again: "retry_delivery_body p = (Some sn, p') \<Longrightarrow> progress_claim p (snapshot_content sn) p'"

inductive progress_deliver ::
  "command_progress_state \<Rightarrow> command_progress_snapshot option \<Rightarrow> command_progress_state \<Rightarrow> bool" where
  "pg_sending p \<Longrightarrow> pg_in_flight_revision p = Some revision \<Longrightarrow>
   complete_delivery_body revision mid p = ((sn, cleanup), p') \<Longrightarrow>
   progress_deliver p (map_option snapshot_content sn) p'"

inductive progress_lose :: "command_progress_state \<Rightarrow> command_progress_state \<Rightarrow> bool" where
  "pg_sending p \<Longrightarrow> pg_in_flight_revision p = Some revision \<Longrightarrow>
   fail_delivery_body revision p = (keep_trying, p') \<Longrightarrow> progress_lose p p'"

inductive_cases progress_deliverE: "progress_deliver p c p'"
inductive_cases progress_claimE: "progress_claim p c p'"
inductive_cases progress_loseE: "progress_lose p p'"

lemma progress_content_flags [simp]:
  "progress_content (p\<lparr>pg_dirty := d\<rparr>) = progress_content p"
  "progress_content (p\<lparr>pg_sending := b\<rparr>) = progress_content p"
  "progress_content (p\<lparr>pg_in_flight_revision := r\<rparr>) = progress_content p"
  "progress_content (p\<lparr>pg_message_id := m\<rparr>) = progress_content p"
  "progress_content (p\<lparr>pg_dirty := d, pg_in_flight_revision := r\<rparr>) = progress_content p"
  "progress_content (p\<lparr>pg_message_id := m, pg_in_flight_revision := r\<rparr>) = progress_content p"
  by (simp_all add: progress_content_def snapshot_content_def telegram_command_progress_snapshot_def)

lemma snapshot_content_snapshot [simp]:
  "snapshot_content (telegram_command_progress_snapshot p) = progress_content p"
  by (simp add: progress_content_def)

lemma claim_next_some:
  "claim_next_telegram_command_progress_snapshot p = (Some sn, p') \<longleftrightarrow>
     pg_sending p \<and> pg_in_flight_revision p = None \<and> pg_dirty p \<and>
     p' = p\<lparr>pg_dirty := False, pg_in_flight_revision := Some (pg_revision p)\<rparr> \<and>
     sn = telegram_command_progress_snapshot p'"
  by (auto simp: claim_next_telegram_command_progress_snapshot_def Let_def)

interpretation progress_channel: latest_value_channel progress_content content_blank pg_dirty
  progress_in_flight progress_visible progress_change progress_claim progress_deliver progress_lose
proof unfold_locales
  fix p p' assume ch: "progress_change p p'"
  then have step: "content_step p p'" by (simp add: progress_change_def)
  then show "progress_in_flight p' = progress_in_flight p \<and> progress_visible p' = progress_visible p"
    using content_step_flags[OF step] by (simp add: progress_in_flight_def progress_visible_def)
  show "pg_dirty p' \<or> (progress_content p' = progress_content p \<and> pg_dirty p' = pg_dirty p) \<or>
      (\<not> progress_in_flight p \<and> \<not> progress_visible p \<and> content_blank (progress_content p'))"
    using content_step_effect[OF step] content_step_flags[OF step] ch visible_content[of p' p]
    by (auto simp: change_effect_ok_def quiet_change_def cleared_unsent_def progress_visible_def
        progress_change_def)
next
  fix p c p' assume "progress_claim p c p'"
  then show "\<not> progress_in_flight p \<and> progress_in_flight p' \<and> progress_visible p' = progress_visible p
      \<and> c = progress_content p' \<and> progress_content p' = progress_content p"
    by (auto elim!: progress_claimE simp: claim_delivery_body_def retry_delivery_body_def claim_next_some
        progress_in_flight_def progress_visible_def split: if_splits)
next
  fix p p' assume "progress_deliver p None p'"
  then show "progress_in_flight p \<and> \<not> progress_in_flight p' \<and> \<not> pg_dirty p \<and> progress_visible p'
      \<and> progress_content p' = progress_content p"
    by (auto elim!: progress_deliverE simp: complete_delivery_body_def Let_def split_def
        claim_next_telegram_command_progress_snapshot_def
        progress_in_flight_def progress_visible_def split: if_splits)
next
  fix p c p' assume "progress_deliver p (Some c) p'"
  then show "progress_in_flight p \<and> progress_in_flight p' \<and> progress_visible p'
      \<and> c = progress_content p' \<and> progress_content p' = progress_content p"
    by (auto elim!: progress_deliverE simp: complete_delivery_body_def Let_def split_def
        claim_next_telegram_command_progress_snapshot_def
        progress_in_flight_def progress_visible_def split: if_splits)
next
  fix p p' assume "progress_lose p p'"
  then show "progress_in_flight p \<and> \<not> progress_in_flight p' \<and> progress_visible p' = progress_visible p
      \<and> pg_dirty p'"
    by (auto elim!: progress_loseE simp: fail_delivery_body_def Let_def
        progress_in_flight_def progress_visible_def split: if_splits)
qed

lemma channel_inv_new:
  "progress_channel.channel_inv (telegram_command_progress_state turn, None, None)"
  by (simp add: progress_channel.channel_inv_def progress_in_flight_def progress_visible_def
      telegram_command_progress_state_def progress_content_def snapshot_content_def
      telegram_command_progress_snapshot_def content_blank_def nonblank_def)

subsection \<open>The methods on the runtime state\<close>

definition progress_inv :: "runtime_state \<Rightarrow> bool" where
  "progress_inv rs \<longleftrightarrow> (\<forall>t p. hget (telegram_command_progress_by_thread rs) t = Some p \<longrightarrow>
     content_inv p \<and> delivery_ok p)"

definition sound_body :: "(command_progress_state \<Rightarrow> 'r \<times> command_progress_state) \<Rightarrow> bool" where
  "sound_body body \<longleftrightarrow> (\<forall>p. content_inv p \<and> delivery_ok p \<longrightarrow>
     content_inv (snd (body p)) \<and> delivery_ok (snd (body p)))"

definition sound_body_open :: "(command_progress_state \<Rightarrow> 'r \<times> command_progress_state) \<Rightarrow> bool" where
  "sound_body_open body \<longleftrightarrow> (\<forall>p. content_inv p \<and> delivery_ok p \<and> \<not> pg_completed p \<longrightarrow>
     content_inv (snd (body p)) \<and> delivery_ok (snd (body p)))"

lemma sound_content: "(\<And>p. content_step p (snd (body p))) \<Longrightarrow> sound_body body"
  by (auto simp: sound_body_def intro: content_inv_step content_step_delivery_inv)

lemma sound_content_open: "(\<And>p. \<not> pg_completed p \<Longrightarrow> content_step p (snd (body p))) \<Longrightarrow> sound_body_open body"
  by (auto simp: sound_body_open_def intro: content_inv_step content_step_delivery_inv)

lemma sound_delivery: "(\<And>p. delivery_step p (snd (body p))) \<Longrightarrow> sound_body body"
  using delivery_step_content delivery_ok_step by (fastforce simp: sound_body_def)

lemma new_progress_ok [simp]:
  "content_inv (telegram_command_progress_state turn)" "delivery_ok (telegram_command_progress_state turn)"
  by (rule content_inv_new) (simp add: delivery_ok_def telegram_command_progress_state_def)

lemma progress_inv_put:
  "progress_inv rs \<Longrightarrow> content_inv p \<Longrightarrow> delivery_ok p \<Longrightarrow> progress_inv (put_progress t p rs)"
  by (simp add: progress_inv_def put_progress_def)

lemma progress_or_new_ok:
  "progress_inv rs \<Longrightarrow> content_inv (progress_or_new t turn rs) \<and> delivery_ok (progress_or_new t turn rs)"
  by (cases "hget (telegram_command_progress_by_thread rs) t")
     (auto simp: progress_or_new_def progress_inv_def)

lemma progress_inv_with_reset:
  "progress_inv rs \<Longrightarrow> sound_body body \<Longrightarrow> progress_inv (snd (with_reset_progress t turn body rs))"
  using progress_or_new_ok[of rs t turn]
  by (auto simp: with_reset_progress_def split_def Let_def sound_body_def progress_for_turn_def
      intro!: progress_inv_put)

lemma progress_inv_with_new:
  "progress_inv rs \<Longrightarrow> sound_body_open body \<Longrightarrow> progress_inv (snd (with_new_progress t turn r body rs))"
  using progress_or_new_ok[of rs t turn]
  by (auto simp: with_new_progress_def split_def Let_def sound_body_open_def intro!: progress_inv_put)

lemma progress_inv_with:
  "progress_inv rs \<Longrightarrow> sound_body body \<Longrightarrow> progress_inv (snd (with_progress t turn r body rs))"
  by (auto simp: with_progress_def split_def Let_def sound_body_def progress_inv_def put_progress_def
      split: option.split)

lemma progress_inv_clear:
  "progress_inv rs \<Longrightarrow> progress_inv (clear_telegram_command_progress_for_thread t rs)"
  by (simp add: progress_inv_def clear_telegram_command_progress_for_thread_def)

inductive progress_step :: "runtime_state \<Rightarrow> runtime_state \<Rightarrow> bool" where
  "progress_step rs (snd (upsert_telegram_command_progress t turn entry deliver rs))"
| "progress_step rs (snd (upsert_telegram_web_search_progress t turn search rs))"
| "progress_step rs (snd (record_telegram_retry t turn error rs))"
| "progress_step rs (append_telegram_reasoning_delta t turn item idx delta rs)"
| "progress_step rs (snd (complete_telegram_reasoning t turn item summary rs))"
| "progress_step rs (snd (update_telegram_plan t turn explanation steps deliver rs))"
| "progress_step rs (snd (update_telegram_diff t turn diff deliver rs))"
| "progress_step rs (snd (complete_telegram_file_change t turn fallback rs))"
| "progress_step rs (snd (reserve_commentary_sequence t turn item rs))"
| "progress_step rs (snd (upsert_telegram_commentary_progress t turn item text rs))"
| "progress_step rs (snd (remove_telegram_commentary_progress t turn item rs))"
| "progress_step rs (snd (remove_commentary_matching_text t turn text rs))"
| "progress_step rs (snd (upsert_telegram_collab_task_progress t turn updates rs))"
| "progress_step rs (snd (set_telegram_command_progress_final_reply t turn text elapsed rs))"
| "progress_step rs (snd (finish_telegram_command_progress_with_outcome t turn failed now rs))"
| "progress_step rs (snd (claim_telegram_command_progress_delivery t turn rs))"
| "progress_step rs (snd (complete_telegram_command_progress_delivery t turn revision mid rs))"
| "progress_step rs (snd (fail_telegram_command_progress_delivery t turn revision rs))"
| "progress_step rs (snd (retry_telegram_command_progress_delivery t turn rs))"
| "progress_step rs (clear_telegram_command_progress_for_thread t rs)"

lemmas sound_bodies = content_step.intros[THEN sound_content] delivery_step.intros[THEN sound_delivery]
lemmas sound_open_bodies = content_step.intros[THEN sound_content_open]

lemma sound_complete: "sound_body (complete_delivery_body revision mid)"
  by (rule sound_delivery) (rule delivery_step.delivered)

lemma progress_inv_complete:
  "progress_inv rs \<Longrightarrow> progress_inv (snd (complete_telegram_command_progress_delivery t turn revision mid rs))"
  using progress_inv_with[OF _ sound_complete, of rs t turn "(None, False)" revision mid]
  by (auto simp: complete_telegram_command_progress_delivery_def split_def Let_def intro: progress_inv_clear)

lemma progress_step_inv: "progress_step rs rs' \<Longrightarrow> progress_inv rs \<Longrightarrow> progress_inv rs'"
  by (induction rule: progress_step.induct)
     (simp_all add: upsert_telegram_command_progress_def upsert_telegram_web_search_progress_def
        record_telegram_retry_def append_telegram_reasoning_delta_def complete_telegram_reasoning_def
        update_telegram_plan_def update_telegram_diff_def complete_telegram_file_change_def
        reserve_commentary_sequence_def upsert_telegram_commentary_progress_def
        remove_telegram_commentary_progress_def remove_commentary_matching_text_def
        upsert_telegram_collab_task_progress_def set_telegram_command_progress_final_reply_def
        finish_telegram_command_progress_with_outcome_def claim_telegram_command_progress_delivery_def
        fail_telegram_command_progress_delivery_def retry_telegram_command_progress_delivery_def
        progress_inv_with_reset progress_inv_with_new progress_inv_with progress_inv_clear
        progress_inv_complete sound_bodies sound_open_bodies)

lemma progress_inv_default: "progress_inv runtime_default"
  by (simp add: progress_inv_def)

subsection \<open>Properties\<close>

text \<open>C2. No lost update. Follow one aggregate message from its creation through any sequence of
  content changes, claims, successful and failed deliveries (excluding only the plan update that
  empties the message while its first version is being sent). Whenever the message is not dirty and
  nothing is being sent, the content the reader sees is the current content, or there is no
  message and nothing to show.\<close>

theorem message_at_rest_shows_latest:
  assumes "progress_channel.channel_step\<^sup>*\<^sup>* (telegram_command_progress_state turn, None, None) (p, f, shown)"
    and "\<not> pg_dirty p" and "pg_in_flight_revision p = None"
  shows "shown = Some (progress_content p) \<or> (shown = None \<and> \<not> telegram_command_progress_has_content p)"
  using progress_channel.rest_shows_latest[OF assms(1) channel_inv_new assms(2)] assms(3)
  by (simp add: progress_in_flight_def has_content_content)

lemmas progress_eval = content_bodies delivery_bodies touched_def touch_progress_def
  telegram_command_progress_state_def telegram_command_progress_snapshot_def
  telegram_command_progress_has_content_def sat_add_def u64_max_def nonblank_def
  TELEGRAM_PLAN_MAX_STEPS_def TELEGRAM_COMMAND_PROGRESS_MAX_ENTRIES_def Let_def split_def

definition sample_command :: command_progress_entry where
  "sample_command = \<lparr> en_item_id = ''i1'', en_kind = CommandEntry, en_command = ''ls'',
     en_status = CmdRunning, en_exit_code = None, en_duration_ms = None, en_failure_output = None,
     en_sequence = 0 \<rparr>"

definition sample_message :: command_progress_state where
  "sample_message = snd (upsert_command_body sample_command False (telegram_command_progress_state ''t1''))"

definition sample_sent :: command_progress_state where
  "sample_sent = snd (complete_delivery_body 1 ''m9'' (snd (claim_delivery_body True sample_message)))"

theorem message_at_rest_shows_latest_witness:
  "snapshot_content (the (fst (claim_delivery_body True sample_message))) = progress_content sample_sent"
proof -
  let ?p0 = "telegram_command_progress_state ''t1''" and ?p1 = sample_message
  let ?p2 = "snd (claim_delivery_body True sample_message)"
  have s1: "progress_channel.channel_step (?p0, None, None) (?p1, None, None)"
    unfolding sample_message_def
    by (intro progress_channel.channel_step.changed)
       (auto simp: progress_change_def progress_in_flight_def telegram_command_progress_state_def
         intro: content_step.command)
  obtain sn where sn: "claim_delivery_body True sample_message = (Some sn, ?p2)"
    by (simp add: sample_message_def sample_command_def upsert_command_body_def Let_def claim_delivery_body_def
        allocate_sequence_def telegram_command_progress_state_def
        claim_next_telegram_command_progress_snapshot_def touched_def touch_progress_def)
  have s2: "progress_channel.channel_step (?p1, None, None) (?p2, Some (snapshot_content sn), None)"
    by (rule progress_channel.channel_step.claimed) (rule progress_claim.first[OF sn])
  have flags: "pg_sending ?p2" "pg_in_flight_revision ?p2 = Some 1"
    "\<not> pg_dirty sample_sent" "pg_in_flight_revision sample_sent = None"
    by (simp_all add: sample_message_def sample_sent_def sample_command_def progress_eval)
  have fin: "complete_delivery_body 1 ''m9'' ?p2 = ((None, False), sample_sent)"
    by (simp add: sample_sent_def sample_message_def sample_command_def progress_eval)
  have s3: "progress_channel.channel_step (?p2, Some (snapshot_content sn), None)
      (sample_sent, None, Some (snapshot_content sn))"
    using progress_deliver.intros[OF flags(1,2) fin] progress_channel.channel_step.delivered by fastforce
  have run: "progress_channel.channel_step\<^sup>*\<^sup>* (?p0, None, None) (sample_sent, None, Some (snapshot_content sn))"
    using s1 s2 s3 by (meson converse_rtranclp_into_rtranclp rtranclp.rtrancl_refl)
  show ?thesis using message_at_rest_shows_latest[OF run flags(3,4)] arg_cong[OF sn, of fst] by simp
qed

text \<open>Sending is single-flight: once a delivery is claimed, the content may change in any way, and
  every further claim is refused until the delivery is reported.\<close>

lemma content_steps_flags:
  "content_step\<^sup>*\<^sup>* p p' \<Longrightarrow>
     pg_sending p' = pg_sending p \<and> pg_in_flight_revision p' = pg_in_flight_revision p \<and>
     pg_message_id p' = pg_message_id p \<and> pg_turn_id p' = pg_turn_id p \<and>
     (pg_completed p \<longrightarrow> pg_completed p' \<and> (pg_dirty p \<longrightarrow> pg_dirty p'))"
proof (induction rule: rtranclp_induct)
  case base
  then show ?case by simp
next
  case (step q q')
  then show ?case
    using content_step_flags[OF step.hyps(2)] content_step_effect[OF step.hyps(2)]
    by (auto simp: change_effect_ok_def quiet_change_def)
qed

lemma claim_marks_sending:
  "claim_telegram_command_progress_delivery t turn rs = (Some sn, rs') \<Longrightarrow>
   \<exists>p. hget (telegram_command_progress_by_thread rs') t = Some p \<and> pg_sending p \<and>
     pg_turn_id p = turn \<and> pg_in_flight_revision p = Some (sn_revision sn) \<and> \<not> pg_dirty p"
  by (auto simp: claim_telegram_command_progress_delivery_def with_progress_def claim_delivery_body_def
      claim_next_telegram_command_progress_snapshot_def split_def Let_def put_progress_def
      telegram_command_progress_snapshot_def split: option.splits if_splits)

text \<open>Single flight. After a delivery of a thread's aggregate message is claimed, and after any
  further changes of its content, no second claim succeeds and the state is left alone: only one
  driver sends at a time, and the claimed revision is the one the driver may report.\<close>

theorem delivery_single_flight:
  assumes "claim_telegram_command_progress_delivery t turn rs = (Some sn, rs1)"
    and "hget (telegram_command_progress_by_thread rs1) t = Some p" and "content_step\<^sup>*\<^sup>* p p'"
  shows "claim_telegram_command_progress_delivery t turn' (put_progress t p' rs1)
      = (None, put_progress t p' rs1)
    \<and> fst (retry_telegram_command_progress_delivery t turn' (put_progress t p' rs1)) = None
    \<and> pg_in_flight_revision p' = Some (sn_revision sn) \<and> pg_turn_id p' = turn"
proof -
  have p': "pg_sending p'" "pg_turn_id p' = turn" "pg_in_flight_revision p' = Some (sn_revision sn)"
    using claim_marks_sending[OF assms(1)] content_steps_flags[OF assms(3)] assms(2) by auto
  have "claim_telegram_command_progress_delivery t turn' (put_progress t p' rs1)
      = (None, put_progress t p' rs1)"
    using p' by (simp add: claim_telegram_command_progress_delivery_def with_progress_def
        claim_delivery_body_def put_progress_def split_def Let_def update_triv)
  moreover have "fst (retry_telegram_command_progress_delivery t turn' (put_progress t p' rs1)) = None"
    using p' by (simp add: retry_telegram_command_progress_delivery_def with_progress_def
        retry_delivery_body_def put_progress_def split_def Let_def)
  ultimately show ?thesis using p' by simp
qed

definition sample_runtime :: runtime_state where
  "sample_runtime = snd (upsert_telegram_command_progress ''th'' ''t1'' sample_command False
     (mark_turn_started ''th'' ''t1'' 5 runtime_default))"

lemma sample_runtime_progress:
  "telegram_command_progress_by_thread sample_runtime = [(''th'', sample_message)]"
  "current_turn_id ''th'' sample_runtime = Some ''t1''"
  by (simp_all add: sample_runtime_def sample_message_def upsert_telegram_command_progress_def
      with_reset_progress_def mark_turn_started_def progress_or_new_def progress_for_turn_def
      put_progress_def current_turn_id_def progress_eval)

definition sample_claimed :: command_progress_state where
  "sample_claimed = sample_message\<lparr>pg_dirty := False, pg_sending := True, pg_in_flight_revision := Some 1\<rparr>"

lemma sample_claim:
  "claim_telegram_command_progress_delivery ''th'' ''t1'' sample_runtime
     = (Some (telegram_command_progress_snapshot sample_claimed), put_progress ''th'' sample_claimed sample_runtime)"
  by (simp add: claim_telegram_command_progress_delivery_def with_progress_def sample_runtime_progress)
     (simp add: sample_message_def sample_claimed_def sample_command_def progress_eval)

theorem delivery_single_flight_witness:
  "fst (claim_telegram_command_progress_delivery ''th'' ''t1''
     (put_progress ''th'' (snd (set_final_reply_body ''ok'' None sample_claimed))
       (put_progress ''th'' sample_claimed sample_runtime))) = None"
proof -
  have step: "content_step\<^sup>*\<^sup>* sample_claimed (snd (set_final_reply_body ''ok'' None sample_claimed))"
    by (rule r_into_rtranclp) (rule content_step.final_reply)
  have p: "hget (telegram_command_progress_by_thread (put_progress ''th'' sample_claimed sample_runtime)) ''th''
      = Some sample_claimed"
    by (simp add: put_progress_def)
  show ?thesis using delivery_single_flight[OF sample_claim p step] by simp
qed

text \<open>The completed state is not given up. When sending a completed message fails, the driver
  is told to retry, and whatever changes the content makes until then, the retry hands it a
  snapshot of the newest content.\<close>

theorem final_delivery_retried:
  assumes "hget (telegram_command_progress_by_thread rs) t = Some p" and "pg_turn_id p = turn"
    and "pg_completed p" and "pg_sending p" and "pg_in_flight_revision p = Some revision"
    and "fail_telegram_command_progress_delivery t turn revision rs = (keep_trying, rs1)"
    and "hget (telegram_command_progress_by_thread rs1) t = Some p1" and "content_step\<^sup>*\<^sup>* p1 p2"
  shows "keep_trying \<and> (\<exists>sn rs2. retry_telegram_command_progress_delivery t turn (put_progress t p2 rs1)
      = (Some sn, rs2) \<and> snapshot_content sn = progress_content p2)"
proof -
  have p1: "keep_trying" "p1 = p\<lparr>pg_in_flight_revision := None, pg_dirty := True\<rparr>"
    using assms by (auto simp: fail_telegram_command_progress_delivery_def with_progress_def
        fail_delivery_body_def put_progress_def Let_def)
  then have "pg_sending p2" "pg_turn_id p2 = turn" "pg_in_flight_revision p2 = None" "pg_dirty p2"
    using content_steps_flags[OF assms(8)] assms by auto
  then show ?thesis
    using p1(1) by (auto simp: retry_telegram_command_progress_delivery_def with_progress_def
        retry_delivery_body_def claim_next_telegram_command_progress_snapshot_def put_progress_def Let_def)
qed

definition sample_completed :: runtime_state where
  "sample_completed = put_progress ''th'' (sample_claimed\<lparr>pg_completed := True\<rparr>) sample_runtime"

theorem final_delivery_retried_witness:
  "\<exists>sn rs2. retry_telegram_command_progress_delivery ''th'' ''t1''
     (put_progress ''th'' (snd (set_final_reply_body ''ok'' None
         (sample_claimed\<lparr>pg_completed := True, pg_in_flight_revision := None, pg_dirty := True\<rparr>)))
       (snd (fail_telegram_command_progress_delivery ''th'' ''t1'' 1 sample_completed))) = (Some sn, rs2)
     \<and> sn_final_reply (snapshot_content sn) = Some ''ok''"
proof -
  let ?p = "sample_claimed\<lparr>pg_completed := True\<rparr>"
  let ?p1 = "?p\<lparr>pg_in_flight_revision := None, pg_dirty := True\<rparr>"
  let ?p2 = "snd (set_final_reply_body ''ok'' None ?p1)"
  have p: "hget (telegram_command_progress_by_thread sample_completed) ''th'' = Some ?p"
    by (simp add: sample_completed_def put_progress_def)
  have flags: "pg_turn_id ?p = ''t1''" "pg_completed ?p" "pg_sending ?p" "pg_in_flight_revision ?p = Some 1"
    by (simp_all add: sample_claimed_def sample_message_def progress_eval)
  have failed: "fail_telegram_command_progress_delivery ''th'' ''t1'' 1 sample_completed
      = (True, put_progress ''th'' ?p1 sample_completed)"
    using p flags by (simp add: fail_telegram_command_progress_delivery_def with_progress_def
        fail_delivery_body_def Let_def)
  have p1: "hget (telegram_command_progress_by_thread (put_progress ''th'' ?p1 sample_completed)) ''th'' = Some ?p1"
    by (simp add: put_progress_def)
  have step: "content_step\<^sup>*\<^sup>* ?p1 ?p2" by (rule r_into_rtranclp) (rule content_step.final_reply)
  have reply: "sn_final_reply (progress_content ?p2) = Some ''ok''"
    by (simp add: progress_content_def snapshot_content_def set_final_reply_body_def progress_eval
        trim_id is_ws_def)
  show ?thesis
    using final_delivery_retried[OF p flags failed p1 step] reply failed by force
qed

text \<open>The excluded case: a plan is shown first, and emptied while that first version is being sent.
  The update clears the dirty mark, so the sent plan stays on display although the plan is empty.\<close>

definition lost_plan_run :: "command_progress_state \<times> command_progress_snapshot option" where
  "lost_plan_run =
     (let p = telegram_command_progress_state ''t1'';
          p = snd (update_plan_body None [\<lparr> pl_step = ''build'', pl_status = PlanInProgress \<rparr>] True p);
          (sent, p) = claim_delivery_body True p;
          p = snd (update_plan_body None [] True p);
          p = snd (complete_delivery_body 1 ''m9'' p)
      in (p, sent))"

lemma cleared_plan_is_lost:
  "\<not> pg_dirty (fst lost_plan_run) \<and> \<not> pg_sending (fst lost_plan_run) \<and>
   pg_message_id (fst lost_plan_run) = Some ''m9'' \<and> pg_plan (fst lost_plan_run) = [] \<and>
   map_option (map pl_step \<circ> sn_plan) (snd lost_plan_run) = Some [''build'']"
  by (simp add: lost_plan_run_def progress_eval)

end
