(* ===== verification/RuntimeRoutes.thy ===== *)
theory RuntimeRoutes
  imports RuntimeMenus RuntimeDelivery
begin

section \<open>Routes, bridge generations and protected work (src/src/im/runtime.rs)\<close>

text \<open>
  A thread is bound to the conversation its messages go to. A conversation key is the platform, the
  account and the chat joined by colons; the remote client key of a route is derived from them with a
  SHA-256 digest (the parameter \<open>sha256\<close>, from a string to the bytes of its digest). Starting or
  invalidating a bridge generation drops the delivery state; unbinding a conversation drops the turn
  state of its threads.
\<close>

subsection \<open>Keys\<close>

definition deterministic_remote_client_key_for ::
  "(string \<Rightarrow> nat list) \<Rightarrow> im_platform_kind \<Rightarrow> string \<Rightarrow> string \<Rightarrow> string" where
  "deterministic_remote_client_key_for sha256 platform account_id chat_id =
     (let source = platform_key platform @ '':'' @ trim account_id @ '':'' @ trim chat_id;
          digest = sha256 source;
          suffix = hex_bytes (take 8 digest)
      in ''im:'' @ platform_key platform @ '':'' @ suffix)"

definition with_deterministic_remote_client_key ::
  "(string \<Rightarrow> nat list) \<Rightarrow> route_target \<Rightarrow> route_target" where
  "with_deterministic_remote_client_key sha256 route =
     route\<lparr>ro_remote_client_key :=
        deterministic_remote_client_key_for sha256 (ro_platform route) (ro_account_id route) (ro_chat_id route)\<rparr>"

text \<open>\<open>str::splitn\<close> with a character: at most \<open>n\<close> parts, the last one unsplit.\<close>

fun splitn :: "nat \<Rightarrow> char \<Rightarrow> string \<Rightarrow> string list" where
  "splitn 0 sep s = []"
| "splitn (Suc 0) sep s = [s]"
| "splitn (Suc (Suc n)) sep s =
     (case dropWhile (\<lambda>c. c \<noteq> sep) s of
        [] \<Rightarrow> [s]
      | _ # rest \<Rightarrow> takeWhile (\<lambda>c. c \<noteq> sep) s # splitn (Suc n) sep rest)"

definition channel_platform :: "string \<Rightarrow> im_platform_kind option" where
  "channel_platform channel =
     (if channel = ''feishu'' then Some Feishu
      else if channel = ''telegram'' then Some Telegram
      else if channel = ''wechat'' then Some Wechat
      else if channel = ''wecom'' then Some Wecom
      else None)"

definition route_from_conversation_key :: "(string \<Rightarrow> nat list) \<Rightarrow> string \<Rightarrow> route_target option" where
  "route_from_conversation_key sha256 conv_key =
     (case splitn 3 (CHR '':'') conv_key of
        [channel, account_id, chat_id] \<Rightarrow>
          (case channel_platform channel of
             None \<Rightarrow> None
           | Some platform \<Rightarrow>
               Some (with_deterministic_remote_client_key sha256
                 \<lparr> ro_platform = platform, ro_conversation_key = conv_key, ro_account_id = account_id,
                   ro_chat_id = chat_id, ro_remote_client_key = '''' \<rparr>))
      | _ \<Rightarrow> None)"

subsection \<open>Protected work\<close>

definition protected_work_item_counts :: "runtime_state \<Rightarrow> nat \<times> nat \<times> nat" where
  "protected_work_item_counts rs =
     (let codex_turns =
            card (fst ` set (current_turn_by_thread rs) \<union> starting_turn_by_thread rs)
            + sum_list (map (length \<circ> snd) (pending_telegram_turns_by_conversation rs));
          im_streams =
            length (feishu_streaming_cards_by_item rs)
            + length (filter (\<lambda>(_, typing). \<not> ty_finished typing) (telegram_typing_by_item rs))
            + length (filter (\<lambda>(_, stream). \<not> we_finished stream \<or> \<not> we_delivered stream)
                (wecom_streams_by_thread rs));
          pending_approvals = card (pending_approval_request_keys rs)
      in (codex_turns, im_streams, pending_approvals))"

subsection \<open>Bridge generations\<close>

definition invalidate_bridge_generation :: "runtime_state \<Rightarrow> runtime_state" where
  "invalidate_bridge_generation rs =
     (let rs = rs\<lparr>bridge_generation := sat_add (bridge_generation rs) 1,
                feishu_streaming_cards_by_item := []\<rparr>;
          rs = clear_all_telegram_typing rs
      in rs\<lparr>telegram_command_progress_by_thread := [],
            terminal_notice_failed_by_turn := [],
            terminal_notice_turn_order := [],
            terminal_status_fallback_by_thread := [],
            wecom_streams_by_thread := [],
            telegram_model_switch_requests := [],
            telegram_model_switch_request_by_conversation := [],
            thread_settings_by_thread := [],
            pending_attachments_by_conversation := [],
            pending_telegram_turns_by_conversation := []\<rparr>)"

definition start_bridge_generation :: "runtime_state \<Rightarrow> nat \<times> runtime_state" where
  "start_bridge_generation rs =
     (let rs = rs\<lparr>bridge_generation := sat_add (bridge_generation rs) 1,
                feishu_streaming_cards_by_item := []\<rparr>;
          rs = clear_all_telegram_typing rs;
          rs = rs\<lparr>telegram_command_progress_by_thread := [],
                  terminal_notice_failed_by_turn := [],
                  terminal_notice_turn_order := [],
                  terminal_status_fallback_by_thread := [],
                  wecom_streams_by_thread := [],
                  telegram_model_switch_requests := [],
                  telegram_model_switch_request_by_conversation := [],
                  thread_settings_by_thread := [],
                  pending_attachments_by_conversation := [],
                  pending_telegram_turns_by_conversation := []\<rparr>
      in (bridge_generation rs, rs))"

definition is_bridge_generation :: "nat \<Rightarrow> runtime_state \<Rightarrow> bool" where
  "is_bridge_generation generation rs = (bridge_generation rs = generation)"

subsection \<open>Binding\<close>

definition route_for_thread :: "string \<Rightarrow> runtime_state \<Rightarrow> route_target option" where
  "route_for_thread thread_id rs = hget (route_by_thread rs) thread_id"

definition bind_route :: "string \<Rightarrow> route_target \<Rightarrow> runtime_state \<Rightarrow> runtime_state" where
  "bind_route thread_id route rs =
     (let previous = hget (route_by_thread rs) thread_id;
          rs = rs\<lparr>last_route := Some route,
                  route_by_thread := hinsert thread_id route (route_by_thread rs)\<rparr>;
          changed = (case previous of
                       None \<Rightarrow> True
                     | Some previous \<Rightarrow>
                         ro_conversation_key previous \<noteq> ro_conversation_key route
                         \<or> ro_remote_client_key previous \<noteq> ro_remote_client_key route)
      in if \<not> changed then rs
         else (let rs = clear_telegram_model_switch_requests_for_conversation (ro_conversation_key route) rs
               in case previous of
                    None \<Rightarrow> rs
                  | Some previous \<Rightarrow>
                      clear_telegram_model_switch_requests_for_conversation
                        (ro_conversation_key previous) rs))"

definition unbind_thread :: "string \<times> route_target \<Rightarrow> runtime_state \<Rightarrow> runtime_state" where
  "unbind_thread entry rs =
     (let (thread_id, route) = entry;
          current = hget (current_turn_by_thread rs) thread_id;
          rs = rs\<lparr>route_by_thread := hremove thread_id (route_by_thread rs),
                  current_turn_by_thread := hremove thread_id (current_turn_by_thread rs)\<rparr>;
          rs = (case current of
                  None \<Rightarrow> rs
                | Some turn_id \<Rightarrow> rs\<lparr>turn_origin_by_id := hremove turn_id (turn_origin_by_id rs)\<rparr>);
          rs = rs\<lparr>starting_turn_by_thread := starting_turn_by_thread rs - {thread_id},
                  turn_started_at_by_thread := hremove thread_id (turn_started_at_by_thread rs),
                  turn_finished_at_by_thread := hremove thread_id (turn_finished_at_by_thread rs)\<rparr>;
          rs = clear_telegram_typing_for_thread thread_id rs
      in rs\<lparr>telegram_command_progress_by_thread :=
              hremove thread_id (telegram_command_progress_by_thread rs),
            terminal_status_fallback_by_thread :=
              hremove thread_id (terminal_status_fallback_by_thread rs),
            thread_settings_by_thread := hremove thread_id (thread_settings_by_thread rs),
            pending_telegram_turns_by_conversation :=
              hremove (ro_conversation_key route) (pending_telegram_turns_by_conversation rs)\<rparr>)"

definition unbind_routes_for_conversation_with_reason ::
  "string \<Rightarrow> runtime_state \<Rightarrow> string list \<times> runtime_state" where
  "unbind_routes_for_conversation_with_reason conv_key rs =
     (let entries = filter (\<lambda>(_, route). ro_conversation_key route = conv_key) (route_by_thread rs);
          rs = fold unbind_thread entries rs;
          rs = clear_telegram_model_switch_requests_for_conversation conv_key rs
      in (map fst entries, rs))"

subsection \<open>Properties of the keys\<close>

lemma split_at_sep:
  "sep \<notin> set s \<Longrightarrow> dropWhile (\<lambda>c. c \<noteq> sep) (s @ sep # t) = sep # t"
  "sep \<notin> set s \<Longrightarrow> takeWhile (\<lambda>c. c \<noteq> sep) (s @ sep # t) = s"
  by (induction s) auto

lemma splitn_first: "sep \<notin> set s \<Longrightarrow> splitn (Suc (Suc n)) sep (s @ sep # t) = s # splitn (Suc n) sep t"
  by (simp add: split_at_sep)

lemma takeWhile_platform_key: "takeWhile (\<lambda>c. c \<noteq> CHR '':'') (platform_key p @ CHR '':'' # s) = platform_key p"
  by (cases p) simp_all

lemma channel_platform_key: "channel_platform (platform_key p) = Some p"
  by (cases p) (simp_all add: channel_platform_def)

lemma hex_digit_inj: "a < 16 \<Longrightarrow> b < 16 \<Longrightarrow> hex_digit a = hex_digit b \<Longrightarrow> a = b"
proof -
  assume ab: "a < 16" "b < 16" and eq: "hex_digit a = hex_digit b"
  have "(if a < 10 then 48 + a else 87 + a) = (if b < 10 then 48 + b else 87 + b)"
    unfolding hex_digit_code[OF ab(1), symmetric] hex_digit_code[OF ab(2), symmetric] eq by (rule refl)
  then show "a = b" using ab by (auto split: if_splits)
qed

lemma hex_byte_inj: "a < 256 \<Longrightarrow> b < 256 \<Longrightarrow> hex_byte a = hex_byte b \<Longrightarrow> a = b"
proof -
  assume ab: "a < 256" "b < 256" and "hex_byte a = hex_byte b"
  then have "a div 16 mod 16 = b div 16 mod 16" "a mod 16 = b mod 16"
    using hex_digit_inj[of "a div 16 mod 16" "b div 16 mod 16"] hex_digit_inj[of "a mod 16" "b mod 16"]
    by (simp_all add: hex_byte_def)
  then have "a div 16 = b div 16" "a mod 16 = b mod 16" using ab by (simp_all add: div_less_mono)
  then show "a = b" by (metis div_mult_mod_eq)
qed

lemma hex_bytes_inj:
  "length xs = length ys \<Longrightarrow> \<forall>b \<in> set xs \<union> set ys. b < 256 \<Longrightarrow> hex_bytes xs = hex_bytes ys \<Longrightarrow> xs = ys"
proof (induction xs ys rule: list_induct2)
  case Nil
  then show ?case by simp
next
  case (Cons x xs y ys)
  have len: "length (hex_byte x) = length (hex_byte y)" by (simp add: hex_byte_def)
  have "hex_byte x = hex_byte y" "hex_bytes xs = hex_bytes ys"
    using Cons.prems(2) len by (simp_all add: hex_bytes_def)
  then show ?case using Cons hex_byte_inj[of x y] by simp
qed

text \<open>A conversation key leads back to its route. For an account id without a colon, the route
  read from the conversation key has the key's platform, account and chat (whatever colons the chat
  id has), and the remote client key derived from them.\<close>

theorem route_from_conversation_key_roundtrip:
  assumes "CHR '':'' \<notin> set account_id"
  shows "route_from_conversation_key sha256 (conversation_key platform account_id chat_id) =
    Some \<lparr> ro_platform = platform, ro_conversation_key = conversation_key platform account_id chat_id,
      ro_account_id = account_id, ro_chat_id = chat_id,
      ro_remote_client_key = deterministic_remote_client_key_for sha256 platform account_id chat_id \<rparr>"
proof -
  have "splitn 3 (CHR '':'') (conversation_key platform account_id chat_id)
      = [platform_key platform, account_id, chat_id]"
    using assms by (simp add: conversation_key_def numeral_3_eq_3 splitn_first del: splitn.simps(3))
  then show ?thesis
    by (simp add: route_from_conversation_key_def channel_platform_key
        with_deterministic_remote_client_key_def)
qed

theorem route_from_conversation_key_roundtrip_witness:
  "route_from_conversation_key (\<lambda>_. [1, 2]) (conversation_key Telegram ''acc'' ''7:8'') =
    Some \<lparr> ro_platform = Telegram, ro_conversation_key = ''telegram:acc:7:8'',
      ro_account_id = ''acc'', ro_chat_id = ''7:8'',
      ro_remote_client_key = ''im:telegram:0102'' \<rparr>"
proof -
  have "hex_bytes [1, 2] = ''0102''" by code_simp
  then show ?thesis
    using route_from_conversation_key_roundtrip[of "''acc''" "\<lambda>_. [1, 2]" Telegram "''7:8''"]
    by (simp add: conversation_key_def deterministic_remote_client_key_for_def)
qed

text \<open>Remote client keys tell routes apart up to the digest. With a digest function that returns
  at least eight bytes, two routes have the same key only if they are of the same platform and the
  first eight bytes of the digests of their trimmed sources agree; blanks around the ids do not
  matter.\<close>

theorem remote_client_key_separates:
  assumes "\<forall>s. 8 \<le> length (sha256 s) \<and> (\<forall>b \<in> set (sha256 s). b < 256)"
    and "deterministic_remote_client_key_for sha256 p1 a1 c1 = deterministic_remote_client_key_for sha256 p2 a2 c2"
  shows "p1 = p2 \<and>
    take 8 (sha256 (conversation_key p1 (trim a1) (trim c1))) = take 8 (sha256 (conversation_key p2 (trim a2) (trim c2))) \<and>
    deterministic_remote_client_key_for sha256 p1 (trim a1) (trim c1) = deterministic_remote_client_key_for sha256 p1 a1 c1"
proof -
  let ?d1 = "take 8 (sha256 (conversation_key p1 (trim a1) (trim c1)))"
  let ?d2 = "take 8 (sha256 (conversation_key p2 (trim a2) (trim c2)))"
  have eq: "platform_key p1 @ '':'' @ hex_bytes ?d1 = platform_key p2 @ '':'' @ hex_bytes ?d2"
    using assms(2) by (simp add: deterministic_remote_client_key_for_def conversation_key_def Let_def)
  have "platform_key p1 = platform_key p2"
    using arg_cong[OF eq, of "takeWhile (\<lambda>c. c \<noteq> CHR '':'')"] by (simp add: takeWhile_platform_key)
  then have p: "p1 = p2" by (simp add: platform_key_inj)
  then have "hex_bytes ?d1 = hex_bytes ?d2" using eq by simp
  moreover have "length ?d1 = 8" "length ?d2 = 8" using assms(1) by simp_all
  moreover have "\<forall>b \<in> set ?d1 \<union> set ?d2. b < 256" using assms(1) by (auto dest: in_set_takeD)
  ultimately have "?d1 = ?d2" by (intro hex_bytes_inj) simp_all
  then show ?thesis using p by (simp add: deterministic_remote_client_key_for_def Let_def)
qed

text \<open>A digest that adds up the codes of the characters stands in for SHA-256.\<close>

definition toy_digest :: "string \<Rightarrow> nat list" where
  "toy_digest s = replicate 8 (sum_list (map (of_char :: char \<Rightarrow> nat) s) mod 256)"

theorem remote_client_key_separates_witness:
  "deterministic_remote_client_key_for toy_digest Wecom '' a '' ''c'' =
   deterministic_remote_client_key_for toy_digest Wecom ''a'' ''c'' \<and>
   take 8 (toy_digest (conversation_key Wecom ''a'' ''c'')) = take 8 (toy_digest (conversation_key Wecom ''a'' ''c''))"
proof -
  have digest: "\<forall>s. 8 \<le> length (toy_digest s) \<and> (\<forall>b \<in> set (toy_digest s). b < 256)"
    by (simp add: toy_digest_def)
  have a: "trim '' a '' = ''a''" by code_simp
  have c: "trim ''c'' = ''c''" by code_simp
  have "deterministic_remote_client_key_for toy_digest Wecom '' a '' ''c'' =
      deterministic_remote_client_key_for toy_digest Wecom '' a '' ''c''" by (rule refl)
  from remote_client_key_separates[OF digest this] show ?thesis by (simp add: a c)
qed

end
