(* ===== verification/RuntimeSystem.thy ===== *)
theory RuntimeSystem
  imports RuntimeRoutes
begin

section \<open>The runtime as a whole (src/src/im/runtime.rs)\<close>

text \<open>
  All operations of the runtime as one step relation, and the invariant of every reachable state:
  the conjunction of the components' invariants. Each component's invariant reads only its part of
  the state; the frame lemmas say which parts a component's steps leave alone.
\<close>

subsection \<open>Parts\<close>

definition turn_part where
  "turn_part rs = (current_turn_by_thread rs, starting_turn_by_thread rs, terminal_status_fallback_by_thread rs,
     terminal_notice_failed_by_turn rs, terminal_notice_turn_order rs)"

definition approval_part where
  "approval_part rs = (pending_approvals_by_conversation rs, pending_approval_request_keys rs)"

definition menu_part where
  "menu_part rs = (telegram_model_switch_requests rs, telegram_model_switch_request_by_conversation rs,
     thread_routing_requests rs)"

lemma turn_inv_part: "turn_part rs' = turn_part rs \<Longrightarrow> turn_inv rs' = turn_inv rs"
  by (simp add: turn_part_def turn_inv_def notice_history.coherent_def noticed_turns_def)

lemma approval_inv_part: "approval_part rs' = approval_part rs \<Longrightarrow> approval_inv display rs' = approval_inv display rs"
  by (simp add: approval_part_def approval_inv_def)

lemma menu_inv_part: "menu_part rs' = menu_part rs \<Longrightarrow> menu_inv rs' = menu_inv rs"
  by (simp add: menu_part_def menu_inv_def)

lemma progress_inv_part:
  "telegram_command_progress_by_thread rs' = telegram_command_progress_by_thread rs \<Longrightarrow> progress_inv rs' = progress_inv rs"
  by (simp add: progress_inv_def)

lemmas part_defs = turn_part_def approval_part_def menu_part_def typing_part_def

subsection \<open>Frames\<close>

lemma parts_outside_typing:
  "turn_part (outside_typing rs) = turn_part rs" "approval_part (outside_typing rs) = approval_part rs"
  "menu_part (outside_typing rs) = menu_part rs"
  "telegram_command_progress_by_thread (outside_typing rs) = telegram_command_progress_by_thread rs"
  by (simp_all add: part_defs outside_typing_select)

lemma typing_step_parts:
  assumes "typing_step rs rs'"
  shows "turn_part rs' = turn_part rs" "approval_part rs' = approval_part rs" "menu_part rs' = menu_part rs"
    "telegram_command_progress_by_thread rs' = telegram_command_progress_by_thread rs"
  using typing_step_outside[OF assms] by (metis parts_outside_typing)+

lemma parts_outside_queues:
  "turn_part (outside_queues rs) = turn_part rs" "approval_part (outside_queues rs) = approval_part rs"
  "menu_part (outside_queues rs) = menu_part rs" "typing_part (outside_queues rs) = typing_part rs"
  "telegram_command_progress_by_thread (outside_queues rs) = telegram_command_progress_by_thread rs"
  by (simp_all add: part_defs outside_queues_def)

lemma queue_step_parts:
  assumes "queue_step rs rs'"
  shows "turn_part rs' = turn_part rs" "approval_part rs' = approval_part rs" "menu_part rs' = menu_part rs"
    "typing_part rs' = typing_part rs"
    "telegram_command_progress_by_thread rs' = telegram_command_progress_by_thread rs"
  using queue_step_outside[OF assms] by (metis parts_outside_queues)+

lemma parts_outside_approvals:
  "turn_part (outside_approvals rs) = turn_part rs"
  "menu_part (outside_approvals rs) = menu_part rs" "typing_part (outside_approvals rs) = typing_part rs"
  "telegram_command_progress_by_thread (outside_approvals rs) = telegram_command_progress_by_thread rs"
  by (simp_all add: part_defs outside_approvals_def)

lemma approval_step_parts:
  assumes "approval_step display rs rs'"
  shows "turn_part rs' = turn_part rs" "menu_part rs' = menu_part rs" "typing_part rs' = typing_part rs"
    "telegram_command_progress_by_thread rs' = telegram_command_progress_by_thread rs"
  using approval_step_outside[OF assms] by (metis parts_outside_approvals)+

subsubsection \<open>Progress\<close>

definition outside_progress :: "runtime_state \<Rightarrow> runtime_state" where
  "outside_progress rs = rs\<lparr>telegram_command_progress_by_thread := []\<rparr>"

lemma outside_progress_with [simp]:
  "outside_progress (put_progress t p rs) = outside_progress rs"
  "outside_progress (snd (with_reset_progress t turn body rs)) = outside_progress rs"
  "outside_progress (snd (with_new_progress t turn r body' rs)) = outside_progress rs"
  "outside_progress (snd (with_progress t turn r body' rs)) = outside_progress rs"
  "outside_progress (clear_telegram_command_progress_for_thread t rs) = outside_progress rs"
  by (simp_all add: outside_progress_def put_progress_def with_reset_progress_def with_new_progress_def
      with_progress_def clear_telegram_command_progress_for_thread_def Let_def split_def split: option.split)

lemma progress_step_outside: "progress_step rs rs' \<Longrightarrow> outside_progress rs' = outside_progress rs"
  by (induction rule: progress_step.induct)
     (simp_all add: upsert_telegram_command_progress_def upsert_telegram_web_search_progress_def
        record_telegram_retry_def append_telegram_reasoning_delta_def complete_telegram_reasoning_def
        update_telegram_plan_def update_telegram_diff_def complete_telegram_file_change_def
        reserve_commentary_sequence_def upsert_telegram_commentary_progress_def
        remove_telegram_commentary_progress_def remove_commentary_matching_text_def
        upsert_telegram_collab_task_progress_def set_telegram_command_progress_final_reply_def
        finish_telegram_command_progress_with_outcome_def claim_telegram_command_progress_delivery_def
        fail_telegram_command_progress_delivery_def retry_telegram_command_progress_delivery_def
        complete_telegram_command_progress_delivery_def Let_def split_def)

lemma parts_outside_progress:
  "turn_part (outside_progress rs) = turn_part rs" "approval_part (outside_progress rs) = approval_part rs"
  "menu_part (outside_progress rs) = menu_part rs" "typing_part (outside_progress rs) = typing_part rs"
  by (simp_all add: part_defs outside_progress_def)

lemma progress_step_parts:
  assumes "progress_step rs rs'"
  shows "turn_part rs' = turn_part rs" "approval_part rs' = approval_part rs" "menu_part rs' = menu_part rs"
    "typing_part rs' = typing_part rs"
  using progress_step_outside[OF assms] by (metis parts_outside_progress)+

subsubsection \<open>Menus\<close>

definition outside_menus :: "runtime_state \<Rightarrow> runtime_state" where
  "outside_menus rs = rs\<lparr>telegram_model_switch_requests := [],
     telegram_model_switch_request_by_conversation := [], thread_routing_requests := [],
     thread_settings_by_thread := []\<rparr>"

lemma outside_menus_ops [simp]:
  "outside_menus (put_switch_request i r rs) = outside_menus rs"
  "outside_menus (clear_telegram_model_switch_requests_for_conversation c rs) = outside_menus rs"
  "outside_menus (clear_thread_routing_requests_for_conversation c rs) = outside_menus rs"
  "outside_menus (snd (clear_telegram_model_switch_request i rs)) = outside_menus rs"
  "outside_menus (rs\<lparr>thread_settings_by_thread := m\<rparr>) = outside_menus rs"
  "outside_menus (rs\<lparr>thread_routing_requests := m2\<rparr>) = outside_menus rs"
  "outside_menus (rs\<lparr>telegram_model_switch_request_by_conversation := m3\<rparr>) = outside_menus rs"
  by (simp_all add: outside_menus_def put_switch_request_def Let_def
      clear_telegram_model_switch_requests_for_conversation_def
      clear_thread_routing_requests_for_conversation_def clear_telegram_model_switch_request_def
      split: option.split)

lemma outside_menus_clear: "clear_telegram_model_switch_request i rs = (r, rs') \<Longrightarrow> outside_menus rs' = outside_menus rs"
  using outside_menus_ops(4)[of i rs] by simp

lemma outside_menus_observe [simp]:
  "outside_menus (snd (observe_thread_settings t update rs)) = outside_menus rs"
  by (auto simp: observe_thread_settings_def observe_request_def Let_def dest!: outside_menus_clear
      split: option.split prod.split)

lemma menu_step_outside: "menu_step rs rs' \<Longrightarrow> outside_menus rs' = outside_menus rs"
  by (induction rule: menu_step.induct)
     (simp_all add: remember_thread_routing_request_def update_thread_routing_request_message_id_def
        clear_thread_routing_request_def remember_telegram_model_switch_request_def
        update_telegram_model_switch_request_def claim_telegram_thread_settings_apply_def
        take_unconfirmed_telegram_thread_settings_apply_def release_telegram_thread_settings_apply_def
        update_telegram_model_switch_request_message_id_def Let_def split: option.split)

lemma parts_outside_menus:
  "turn_part (outside_menus rs) = turn_part rs" "approval_part (outside_menus rs) = approval_part rs"
  "typing_part (outside_menus rs) = typing_part rs"
  "telegram_command_progress_by_thread (outside_menus rs) = telegram_command_progress_by_thread rs"
  by (simp_all add: part_defs outside_menus_def)

lemma outside_menus_parts:
  assumes "outside_menus rs' = outside_menus rs"
  shows "turn_part rs' = turn_part rs" "approval_part rs' = approval_part rs"
    "typing_part rs' = typing_part rs"
    "telegram_command_progress_by_thread rs' = telegram_command_progress_by_thread rs"
  using assms by (metis parts_outside_menus)+

lemmas menu_step_parts = outside_menus_parts[OF menu_step_outside]

subsubsection \<open>Turns\<close>

text \<open>A completed turn also touches the typing and progress parts; approvals and menus are untouched.\<close>

definition outside_turns :: "runtime_state \<Rightarrow> runtime_state" where
  "outside_turns rs = (outside_typing rs)\<lparr>current_turn_by_thread := [], starting_turn_by_thread := {},
     turn_started_at_by_thread := [], turn_finished_at_by_thread := [], turn_origin_by_id := [],
     terminal_notice_failed_by_turn := [], terminal_notice_turn_order := [],
     terminal_status_fallback_by_thread := [], next_terminal_status_fallback_token := 0,
     last_sent_text_by_route := [], turn_last_agent_message := [],
     telegram_command_progress_by_thread := [], thread_settings_by_thread := []\<rparr>"

lemma outside_turns_clear [simp]:
  "outside_turns (clear_telegram_typing_for_thread t rs) = outside_turns rs"
  by (simp add: outside_turns_def)

lemma outside_turns_retire [simp]: "outside_turns (retire_command_progress t rs) = outside_turns rs"
  by (simp add: outside_turns_def outside_typing_def retire_command_progress_def Let_def split: option.split)

lemma outside_turns_updates [simp]:
  "outside_turns (rs\<lparr>turn_finished_at_by_thread := m1\<rparr>) = outside_turns rs"
  "outside_turns (rs\<lparr>turn_origin_by_id := m2\<rparr>) = outside_turns rs"
  "outside_turns (rs\<lparr>telegram_command_progress_by_thread := m3\<rparr>) = outside_turns rs"
  "outside_turns (rs\<lparr>terminal_status_fallback_by_thread := m4\<rparr>) = outside_turns rs"
  "outside_turns (rs\<lparr>thread_settings_by_thread := m5\<rparr>) = outside_turns rs"
  "outside_turns (rs\<lparr>current_turn_by_thread := m6\<rparr>) = outside_turns rs"
  "outside_turns (rs\<lparr>starting_turn_by_thread := m7, turn_started_at_by_thread := m8,
     turn_finished_at_by_thread := m1\<rparr>) = outside_turns rs"
  "outside_turns (rs\<lparr>terminal_status_fallback_by_thread := m4, starting_turn_by_thread := m7,
     current_turn_by_thread := m6\<rparr>) = outside_turns rs"
  "outside_turns (rs\<lparr>terminal_status_fallback_by_thread := m4, starting_turn_by_thread := m7\<rparr>) = outside_turns rs"
  by (simp_all add: outside_turns_def outside_typing_def)

lemma outside_turns_completed [simp]:
  "outside_turns (complete_accepted_turn t turn now rs) = outside_turns rs"
  by (simp add: complete_accepted_turn_def Let_def split: option.split)

lemma outside_turns_fallbacks [simp]:
  "outside_turns (put_fallback t fb rs) = outside_turns rs"
  "outside_turns (snd (next_fallback_token rs)) = outside_turns rs"
  by (simp_all add: outside_turns_def outside_typing_def put_fallback_def next_fallback_token_def Let_def)

lemma turn_step_outside: "turn_step rs rs' \<Longrightarrow> outside_turns rs' = outside_turns rs"
proof (induction rule: turn_step.induct)
  case (turn_completed rs t turn_opt now)
  then show ?case by (simp add: mark_turn_completed_def split: option.split)
next
  case (fallback_registered rs t turn)
  then show ?case
    by (simp add: register_terminal_status_fallback_token_def Let_def split_def split: option.split)
next
  case (fallback_started rs t turn)
  then show ?case by (simp add: start_terminal_status_fallback_def Let_def split_def split: option.split)
qed (simp_all add: outside_turns_def outside_typing_def mark_turn_started_def try_mark_turn_starting_def
    clear_turn_starting_def remember_turn_origin_def claim_terminal_notice_def release_terminal_notice_def
    cancel_terminal_status_fallback_def claim_terminal_status_fallback_def remember_turn_agent_message_def
    take_turn_last_agent_message_def remember_sent_text_def Let_def split_def split: option.split)

lemma parts_outside_turns:
  "approval_part (outside_turns rs) = approval_part rs" "menu_part (outside_turns rs) = menu_part rs"
  by (simp_all add: part_defs outside_turns_def outside_typing_def)

lemma turn_step_parts:
  assumes "turn_step rs rs'"
  shows "approval_part rs' = approval_part rs" "menu_part rs' = menu_part rs"
  using turn_step_outside[OF assms] by (metis parts_outside_turns)+

text \<open>A turn step drops progress entries or sets the cleanup flag of one.\<close>

lemma content_inv_cleanup [simp]: "content_inv (p\<lparr>pg_cleanup_after_delivery := b\<rparr>) = content_inv p"
  by (simp add: content_inv_def sequences_ok_def bounds_ok_def item_ids_ok_def progress_sequences_def)

lemma delivery_ok_cleanup [simp]: "delivery_ok (p\<lparr>pg_cleanup_after_delivery := b\<rparr>) = delivery_ok p"
  by (simp add: delivery_ok_def)

lemma retire_progress_map:
  "telegram_command_progress_by_thread (retire_command_progress t rs) =
     (let m = telegram_command_progress_by_thread rs in
      case hget m t of
        None \<Rightarrow> hremove t m
      | Some p \<Rightarrow> if pg_completed p \<and> pg_sending p then hinsert t (p\<lparr>pg_cleanup_after_delivery := True\<rparr>) m
                  else hremove t m)"
  by (simp add: retire_command_progress_def Let_def split: option.split)

lemma completed_progress_map:
  "telegram_command_progress_by_thread (complete_accepted_turn t turn now rs)
     = telegram_command_progress_by_thread (retire_command_progress t rs)"
  by (cases "opt_or turn (hget (current_turn_by_thread rs) t)")
     (simp_all add: complete_accepted_turn_def retire_progress_map Let_def)

lemma progress_inv_retire: "progress_inv rs \<Longrightarrow> progress_inv (retire_command_progress t rs)"
proof (cases "hget (telegram_command_progress_by_thread rs) t")
  case None
  assume "progress_inv rs"
  then show ?thesis using None by (simp add: progress_inv_def retire_progress_map Let_def)
next
  case (Some p)
  assume inv: "progress_inv rs"
  then have "content_inv p" "delivery_ok p" using Some by (auto simp: progress_inv_def)
  then show ?thesis using inv Some by (simp add: progress_inv_def retire_progress_map Let_def)
qed

lemma progress_inv_completed: "progress_inv rs \<Longrightarrow> progress_inv (complete_accepted_turn t turn now rs)"
  using progress_inv_retire[of rs t] progress_inv_part[OF completed_progress_map] by blast

lemma turn_step_progress: "turn_step rs rs' \<Longrightarrow> progress_inv rs \<Longrightarrow> progress_inv rs'"
proof (induction rule: turn_step.induct)
  case (turn_completed rs t turn_opt now)
  then show ?case
    using progress_inv_completed[of rs t turn_opt now]
    by (simp add: mark_turn_completed_def progress_inv_def split: option.split)
next
  case (started rs t turn now)
  then show ?case
    by (auto simp: mark_turn_started_def progress_inv_def Let_def split: option.splits if_splits)
next
  case (fallback_registered rs t turn)
  then show ?case
    by (simp add: register_terminal_status_fallback_token_def put_fallback_def next_fallback_token_def
        progress_inv_def Let_def split_def split: option.split)
next
  case (fallback_started rs t turn)
  then show ?case
    by (simp add: start_terminal_status_fallback_def put_fallback_def next_fallback_token_def
        progress_inv_def Let_def split_def split: option.split)
qed (simp_all add: progress_inv_def try_mark_turn_starting_def
    clear_turn_starting_def remember_turn_origin_def claim_terminal_notice_def release_terminal_notice_def
    cancel_terminal_status_fallback_def claim_terminal_status_fallback_def remember_turn_agent_message_def
    take_turn_last_agent_message_def remember_sent_text_def Let_def split_def split: option.split)

subsubsection \<open>Routes and bridge generations\<close>

inductive route_step :: "runtime_state \<Rightarrow> runtime_state \<Rightarrow> bool" where
  bound: "route_step rs (bind_route t route rs)"
| unbound: "route_step rs (snd (unbind_routes_for_conversation_with_reason c rs))"
| bridge_started: "route_step rs (snd (start_bridge_generation rs))"
| bridge_invalidated: "route_step rs (invalidate_bridge_generation rs)"

lemma start_bridge_state: "snd (start_bridge_generation rs) = invalidate_bridge_generation rs"
  by (simp add: start_bridge_generation_def invalidate_bridge_generation_def Let_def)

definition runtime_inv :: "(json \<Rightarrow> string) \<Rightarrow> runtime_state \<Rightarrow> bool" where
  "runtime_inv display rs \<longleftrightarrow> typing_inv rs \<and> turn_inv rs \<and> progress_inv rs \<and> approval_inv display rs \<and> menu_inv rs"

lemma runtime_inv_default: "runtime_inv display runtime_default"
  by (simp add: runtime_inv_def typing_inv_default turn_inv_default progress_inv_default
      approval_inv_default menu_inv_default)

text \<open>A change of the other fields keeps the invariant.\<close>

lemma runtime_inv_frame:
  assumes "typing_part rs' = typing_part rs" "turn_part rs' = turn_part rs" "approval_part rs' = approval_part rs"
    "menu_part rs' = menu_part rs"
    "telegram_command_progress_by_thread rs' = telegram_command_progress_by_thread rs"
  shows "runtime_inv display rs' = runtime_inv display rs"
  using typing_inv_part[OF assms(1)] turn_inv_part[OF assms(2)] approval_inv_part[OF assms(3)]
    menu_inv_part[OF assms(4)] progress_inv_part[OF assms(5)]
  by (simp add: runtime_inv_def)

lemma runtime_inv_clear_switches:
  assumes "runtime_inv display rs"
  shows "runtime_inv display (clear_telegram_model_switch_requests_for_conversation c rs)"
proof -
  let ?rs = "clear_telegram_model_switch_requests_for_conversation c rs"
  note parts = outside_menus_parts[OF outside_menus_ops(2)[of c rs]]
  show ?thesis
    using assms menu_inv_clear_switches[of rs c] typing_inv_part[OF parts(3)] turn_inv_part[OF parts(1)]
      approval_inv_part[OF parts(2)] progress_inv_part[OF parts(4)]
    by (simp add: runtime_inv_def)
qed

lemma runtime_inv_bind:
  assumes "runtime_inv display rs"
  shows "runtime_inv display (bind_route t route rs)"
proof -
  have "runtime_inv display (rs\<lparr>last_route := Some route, route_by_thread := m\<rparr>)" for m
    using assms by (subst runtime_inv_frame) (simp_all add: part_defs)
  then show ?thesis
    by (simp add: bind_route_def Let_def runtime_inv_clear_switches split: option.split)
qed

text \<open>Unbinding a thread: its turn state goes first, then its indicators, then the rest.\<close>

lemma turn_inv_drop_thread:
  "turn_inv rs \<Longrightarrow>
   current_turn_by_thread rs' = hremove t (current_turn_by_thread rs) \<Longrightarrow>
   starting_turn_by_thread rs' = starting_turn_by_thread rs - {t} \<Longrightarrow>
   terminal_status_fallback_by_thread rs' = hremove t (terminal_status_fallback_by_thread rs) \<Longrightarrow>
   terminal_notice_failed_by_turn rs' = terminal_notice_failed_by_turn rs \<Longrightarrow>
   terminal_notice_turn_order rs' = terminal_notice_turn_order rs \<Longrightarrow> turn_inv rs'"
  by (auto simp: turn_inv_def notice_history.coherent_def noticed_turns_def)

lemma unbind_thread_typing:
  "\<exists>rs1. typing_part rs1 = typing_part rs \<and>
     typing_part (unbind_thread (t, route) rs) = typing_part (clear_telegram_typing_for_thread t rs1)"
proof
  let ?base = "rs\<lparr>route_by_thread := hremove t (route_by_thread rs),
    current_turn_by_thread := hremove t (current_turn_by_thread rs)\<rparr>"
  let ?mid = "(case hget (current_turn_by_thread rs) t of None \<Rightarrow> ?base
      | Some turn \<Rightarrow> ?base\<lparr>turn_origin_by_id := hremove turn (turn_origin_by_id ?base)\<rparr>)
    \<lparr>starting_turn_by_thread := starting_turn_by_thread rs - {t},
     turn_started_at_by_thread := hremove t (turn_started_at_by_thread rs),
     turn_finished_at_by_thread := hremove t (turn_finished_at_by_thread rs)\<rparr>"
  show "typing_part ?mid = typing_part rs \<and>
     typing_part (unbind_thread (t, route) rs) = typing_part (clear_telegram_typing_for_thread t ?mid)"
    by (simp add: unbind_thread_def typing_part_def Let_def split: option.split)
qed

lemma unbind_thread_maps:
  "current_turn_by_thread (unbind_thread (t, route) rs) = hremove t (current_turn_by_thread rs)"
  "starting_turn_by_thread (unbind_thread (t, route) rs) = starting_turn_by_thread rs - {t}"
  "terminal_status_fallback_by_thread (unbind_thread (t, route) rs) = hremove t (terminal_status_fallback_by_thread rs)"
  "terminal_notice_failed_by_turn (unbind_thread (t, route) rs) = terminal_notice_failed_by_turn rs"
  "terminal_notice_turn_order (unbind_thread (t, route) rs) = terminal_notice_turn_order rs"
  "telegram_command_progress_by_thread (unbind_thread (t, route) rs) = hremove t (telegram_command_progress_by_thread rs)"
  "route_by_thread (unbind_thread (t, route) rs) = hremove t (route_by_thread rs)"
  "pending_telegram_turns_by_conversation (unbind_thread (t, route) rs)
     = hremove (ro_conversation_key route) (pending_telegram_turns_by_conversation rs)"
  by (simp_all add: unbind_thread_def Let_def split: option.split)

lemma unbind_thread_parts:
  "approval_part (unbind_thread (t, route) rs) = approval_part rs"
  "menu_part (unbind_thread (t, route) rs) = menu_part rs"
  by (simp_all add: part_defs unbind_thread_def Let_def split: option.split)

lemma runtime_inv_unbind_thread:
  assumes "runtime_inv display rs"
  shows "runtime_inv display (unbind_thread (t, route) rs)"
proof -
  obtain rs1 where rs1: "typing_part rs1 = typing_part rs"
    "typing_part (unbind_thread (t, route) rs) = typing_part (clear_telegram_typing_for_thread t rs1)"
    using unbind_thread_typing by blast
  have "typing_inv (unbind_thread (t, route) rs)"
    using assms typing_inv_part[OF rs1(1)] typing_inv_part[OF rs1(2)] typing_inv_clear
    by (simp add: runtime_inv_def)
  moreover have "turn_inv (unbind_thread (t, route) rs)"
    using assms by (intro turn_inv_drop_thread[OF _ unbind_thread_maps(1-5)]) (simp add: runtime_inv_def)
  moreover have "progress_inv (unbind_thread (t, route) rs)"
    using assms by (simp add: runtime_inv_def progress_inv_def unbind_thread_maps)
  ultimately show ?thesis
    using assms approval_inv_part[OF unbind_thread_parts(1)] menu_inv_part[OF unbind_thread_parts(2)]
    by (simp add: runtime_inv_def)
qed

lemma runtime_inv_unbind:
  assumes "runtime_inv display rs"
  shows "runtime_inv display (snd (unbind_routes_for_conversation_with_reason c rs))"
proof -
  have "runtime_inv display (fold unbind_thread entries rs)" for entries
    using assms by (induction entries arbitrary: rs) (auto intro: runtime_inv_unbind_thread)
  then show ?thesis
    by (simp add: unbind_routes_for_conversation_with_reason_def Let_def runtime_inv_clear_switches)
qed

lemma runtime_inv_invalidate:
  assumes "runtime_inv display rs"
  shows "runtime_inv display (invalidate_bridge_generation rs)"
proof -
  let ?base = "rs\<lparr>bridge_generation := sat_add (bridge_generation rs) 1, feishu_streaming_cards_by_item := []\<rparr>"
  let ?rs = "invalidate_bridge_generation rs"
  have "typing_inv (clear_all_telegram_typing ?base)"
  proof (rule typing_step_inv[OF typing_step.step_clear_all])
    have "typing_part ?base = typing_part rs" by (simp add: typing_part_def)
    then show "typing_inv ?base" using assms typing_inv_part[of ?base rs] by (simp add: runtime_inv_def)
  qed
  moreover have "typing_part ?rs = typing_part (clear_all_telegram_typing ?base)"
    by (simp add: invalidate_bridge_generation_def typing_part_def Let_def)
  ultimately have "typing_inv ?rs" using typing_inv_part by blast
  moreover have "current_turn_by_thread ?rs = current_turn_by_thread rs"
    "starting_turn_by_thread ?rs = starting_turn_by_thread rs" "approval_part ?rs = approval_part rs"
    "thread_routing_requests ?rs = thread_routing_requests rs"
    using typing_step_parts[OF typing_step.step_clear_all[of ?base]]
    by (simp_all add: invalidate_bridge_generation_def part_defs Let_def)
  moreover have "terminal_status_fallback_by_thread ?rs = []" "terminal_notice_failed_by_turn ?rs = []"
    "terminal_notice_turn_order ?rs = []" "telegram_command_progress_by_thread ?rs = []"
    "telegram_model_switch_requests ?rs = []" "telegram_model_switch_request_by_conversation ?rs = []"
    by (simp_all add: invalidate_bridge_generation_def Let_def)
  ultimately show ?thesis
    using assms approval_inv_part[of ?rs rs]
    by (simp add: runtime_inv_def turn_inv_def progress_inv_def menu_inv_def index_exact_def
        ids_are_keys_def menus_exclusive_def notice_history.coherent_def noticed_turns_def)
qed

lemma route_step_inv: "route_step rs rs' \<Longrightarrow> runtime_inv display rs \<Longrightarrow> runtime_inv display rs'"
  by (induction rule: route_step.induct)
     (simp_all add: runtime_inv_bind runtime_inv_unbind runtime_inv_invalidate start_bridge_state)

subsection \<open>The runtime\<close>

inductive runtime_step :: "(json \<Rightarrow> string) \<Rightarrow> runtime_state \<Rightarrow> runtime_state \<Rightarrow> bool" for display where
  typing: "typing_step rs rs' \<Longrightarrow> runtime_step display rs rs'"
| turn: "turn_step rs rs' \<Longrightarrow> runtime_step display rs rs'"
| progress: "progress_step rs rs' \<Longrightarrow> runtime_step display rs rs'"
| queue: "queue_step rs rs' \<Longrightarrow> runtime_step display rs rs'"
| approval: "approval_step display rs rs' \<Longrightarrow> runtime_step display rs rs'"
| menu: "menu_step rs rs' \<Longrightarrow> runtime_step display rs rs'"
| route: "route_step rs rs' \<Longrightarrow> runtime_step display rs rs'"

lemma runtime_step_inv:
  assumes "runtime_step display rs rs'" and "runtime_inv display rs"
  shows "runtime_inv display rs'"
  using assms
proof (induction rule: runtime_step.induct)
  case (typing rs rs')
  note parts = typing_step_parts[OF typing.hyps]
  show ?case using typing typing_step_inv[OF typing.hyps] turn_inv_part[OF parts(1)]
      approval_inv_part[OF parts(2)] menu_inv_part[OF parts(3)] progress_inv_part[OF parts(4)]
    by (simp add: runtime_inv_def)
next
  case (turn rs rs')
  note parts = turn_step_parts[OF turn.hyps]
  show ?case using turn turn_step_inv[OF turn.hyps] turn_step_typing_inv[OF turn.hyps]
      turn_step_progress[OF turn.hyps] approval_inv_part[OF parts(1)] menu_inv_part[OF parts(2)]
    by (simp add: runtime_inv_def)
next
  case (progress rs rs')
  note parts = progress_step_parts[OF progress.hyps]
  show ?case using progress progress_step_inv[OF progress.hyps] turn_inv_part[OF parts(1)]
      approval_inv_part[OF parts(2)] menu_inv_part[OF parts(3)] typing_inv_part[OF parts(4)]
    by (simp add: runtime_inv_def)
next
  case (queue rs rs')
  note parts = queue_step_parts[OF queue.hyps]
  show ?case using queue runtime_inv_frame[OF parts(4,1,2,3,5)] by simp
next
  case (approval rs rs')
  note parts = approval_step_parts[OF approval.hyps]
  show ?case using approval approval_step_inv[OF approval.hyps] turn_inv_part[OF parts(1)]
      menu_inv_part[OF parts(2)] typing_inv_part[OF parts(3)] progress_inv_part[OF parts(4)]
    by (simp add: runtime_inv_def)
next
  case (menu rs rs')
  note parts = menu_step_parts[OF menu.hyps]
  show ?case using menu menu_step_inv[OF menu.hyps] turn_inv_part[OF parts(1)]
      approval_inv_part[OF parts(2)] typing_inv_part[OF parts(3)] progress_inv_part[OF parts(4)]
    by (simp add: runtime_inv_def)
next
  case (route rs rs')
  then show ?case using route_step_inv by blast
qed

definition runtime_reachable :: "(json \<Rightarrow> string) \<Rightarrow> runtime_state \<Rightarrow> bool" where
  "runtime_reachable display rs \<longleftrightarrow> (runtime_step display)\<^sup>*\<^sup>* runtime_default rs"

lemma reachable_inv: "runtime_reachable display rs \<Longrightarrow> runtime_inv display rs"
  unfolding runtime_reachable_def
  by (induction rule: rtranclp_induct) (auto intro: runtime_inv_default runtime_step_inv)

subsection \<open>Properties of reachable states\<close>

text \<open>C1. The runtime keeps its state coherent. Every state reached from the initial one by any
  sequence of the runtime's operations satisfies the invariant of each component: typing
  indicators (one per thread, generations in range, history of completed ones coherent), turns (never
  starting and running at once, a fallback latch belongs to the current turn, notice history coherent),
  aggregate messages (bounded lists, distinct ids and arrival numbers, delivery flags consistent),
  approvals (keys exact) and menus (index exact, menus exclusive).\<close>

theorem reachable_states_coherent:
  assumes "runtime_reachable display rs"
  shows "typing_inv rs \<and> turn_inv rs \<and> progress_inv rs \<and> approval_inv display rs \<and> menu_inv rs"
  using reachable_inv[OF assms] by (simp add: runtime_inv_def)

lemma reachable_default: "runtime_reachable display runtime_default"
  by (simp add: runtime_reachable_def)

lemma reachable_step:
  "runtime_reachable display rs \<Longrightarrow> runtime_step display rs rs' \<Longrightarrow> runtime_reachable display rs'"
  by (simp add: runtime_reachable_def)

text \<open>A sample run: a turn starts, a command is reported, its delivery is claimed, the turn completes.\<close>

definition sample_run :: runtime_state where
  "sample_run = snd (mark_turn_completed ''th'' (Some ''t1'') 9
     (snd (claim_telegram_command_progress_delivery ''th'' ''t1'' sample_runtime)))"

lemma sample_run_reachable: "runtime_reachable display sample_run"
proof -
  have "runtime_reachable display (mark_turn_started ''th'' ''t1'' 5 runtime_default)"
    by (rule reachable_step[OF reachable_default runtime_step.turn]) (rule turn_step.started)
  then have "runtime_reachable display sample_runtime"
    unfolding sample_runtime_def by (rule reachable_step) (rule runtime_step.progress, rule progress_step.intros)
  then have "runtime_reachable display (snd (claim_telegram_command_progress_delivery ''th'' ''t1'' sample_runtime))"
    by (rule reachable_step) (rule runtime_step.progress, rule progress_step.intros)
  then show ?thesis
    unfolding sample_run_def by (rule reachable_step) (rule runtime_step.turn, rule turn_step.turn_completed)
qed

theorem reachable_states_coherent_witness:
  "typing_inv sample_run \<and> turn_inv sample_run \<and> progress_inv sample_run
   \<and> approval_inv (\<lambda>_. ''null'') sample_run \<and> menu_inv sample_run"
  by (rule reachable_states_coherent[OF sample_run_reachable])

text \<open>C3. No request is asked twice. In every reachable state the key set holds exactly the keys of the
  queued approvals and no key is queued twice, in one conversation or across conversations; so a
  push is refused exactly when an approval with its key is queued somewhere.\<close>

theorem approvals_pending_once:
  assumes "runtime_reachable display rs"
  shows "distinct (queued_keys display (pending_approvals_by_conversation rs)) \<and>
    set (queued_keys display (pending_approvals_by_conversation rs)) = pending_approval_request_keys rs \<and>
    (fst (push_approval display c a rs) \<longleftrightarrow>
      approval_by_request_key_anywhere display (request_key display a) rs = None)"
  using reachable_inv[OF assms] push_refused_iff[of display rs c a]
  by (simp add: runtime_inv_def approval_inv_def)

lemma sample_pending_reachable: "runtime_reachable (\<lambda>_. ''null'') sample_pending"
  unfolding runtime_reachable_def
  by (rule rtranclp_mono[THEN predicate2D, OF _ sample_pending_reached]) (blast intro: runtime_step.approval)

theorem approvals_pending_once_witness:
  "\<not> fst (push_approval (\<lambda>_. ''null'') ''other'' (sample_approval 1) sample_pending)"
proof -
  have "approval_by_request_key_anywhere (\<lambda>_. ''null'') (request_key (\<lambda>_. ''null'') (sample_approval 1)) sample_pending
      = Some (''c'', sample_approval 1)"
    by (auto simp: approval_by_request_key_anywhere_def sample_pending_def push_approval_def request_key_def
        approval_request_key_def sample_approval_def show_int_def Let_def dest: show_nat_inj)
  then show ?thesis
    using approvals_pending_once[OF sample_pending_reachable, of "''other''" "sample_approval 1"] by simp
qed

text \<open>One interactive menu per conversation. In every reachable state, the settings editor the
  index gives for a conversation is the only request of that conversation, every request is indexed,
  and a conversation with a thread-routing menu has no settings editor, so a numeric reply cannot be
  consumed by the wrong flow.\<close>

theorem one_menu_per_conversation:
  assumes "runtime_reachable display rs"
  shows "(hget (telegram_model_switch_requests rs) i = Some r \<longrightarrow>
      current_telegram_model_switch_request (ms_conversation_key r) rs = Some r \<and>
      (\<forall>j q. hget (telegram_model_switch_requests rs) j = Some q \<and>
         ms_conversation_key q = ms_conversation_key r \<longrightarrow> j = i \<and> q = r)) \<and>
    (hget (thread_routing_requests rs) k = Some m \<longrightarrow>
      current_telegram_model_switch_request (tr_conversation_key m) rs = None)"
  by (rule menu_inv_one_menu) (use reachable_inv[OF assms] in \<open>simp add: runtime_inv_def\<close>)

lemma sample_menus_reachable: "runtime_reachable display sample_menus"
  unfolding runtime_reachable_def
  by (rule rtranclp_mono[THEN predicate2D, OF _ sample_menus_reached]) (blast intro: runtime_step.menu)

theorem one_menu_per_conversation_witness:
  "current_telegram_model_switch_request ''c'' sample_menus = None"
proof -
  have "hget (thread_routing_requests sample_menus) ''r1'' = Some sample_routing"
    by (simp add: sample_menus_def remember_thread_routing_request_def sample_routing_def Let_def)
  then show ?thesis
    using one_menu_per_conversation[OF sample_menus_reachable, of "''e1''" sample_editor "''r1''" sample_routing]
    by (simp add: sample_routing_def)
qed

end
