(* ===== verification/RcTracking.thy ===== *)
theory RcTracking
  imports RcSystem RuntimeSystem
begin

section \<open>Threads and turns of a client (src/src/remote_control_backend/session_api.rs)\<close>

text \<open>
  The daemon's state joins the backend and the messaging runtime: the remote world, the runtime state, the
  persisted bindings of conversations to threads, the list of events (newest 300, level and kind), the
  notifications broadcast to the messaging side, and the tasks spawned with a delay. The definitions say
  which thread and turn a client works on and which notifications concern it. Each function is given as it
  runs when no other task changes the state between its locked sections.
\<close>

record codex_notification =
  nt_method :: string
  nt_params :: "json option"
  nt_request_id :: "json option"
  nt_remote_client_key :: "string option"
  nt_remote_connection_epoch :: "nat option"

datatype spawned_task =
    ResubscribeTask nat string nat
  | OrphanedTurnCleanup string string nat
  | ClientRecovery nat string

record daemon_world =
  dw_remote :: remote_world
  dw_runtime :: runtime_state
  dw_thread_bindings :: "(string, string) hmap"
  dw_events :: "(string \<times> string) list"
  dw_notifications :: "codex_notification list"
  dw_spawned :: "spawned_task list"

definition push_event :: "string \<Rightarrow> string \<Rightarrow> daemon_world \<Rightarrow> daemon_world" where
  "push_event level kind world = world\<lparr>dw_events := keep_last 300 (dw_events world @ [(level, kind)])\<rparr>"

definition with_remote :: "(remote_world \<Rightarrow> 'a \<times> remote_world) \<Rightarrow> daemon_world \<Rightarrow> 'a \<times> daemon_world" where
  "with_remote operation world =
     (let (result, remote) = operation (dw_remote world) in (result, world\<lparr>dw_remote := remote\<rparr>))"

definition with_runtime :: "(runtime_state \<Rightarrow> 'a \<times> runtime_state) \<Rightarrow> daemon_world \<Rightarrow> 'a \<times> daemon_world" where
  "with_runtime operation world =
     (let (result, runtime) = operation (dw_runtime world) in (result, world\<lparr>dw_runtime := runtime\<rparr>))"

abbreviation dw_inner :: "daemon_world \<Rightarrow> remote_inner" where
  "dw_inner world \<equiv> rw_inner (dw_remote world)"

text \<open>A change of one client in a locked section of its own.\<close>

definition change_client_at ::
  "nat \<Rightarrow> string \<Rightarrow> (remote_client \<Rightarrow> 'a \<times> remote_client) \<Rightarrow> daemon_world \<Rightarrow> 'a option \<times> daemon_world" where
  "change_client_at connection_epoch client_key change =
     with_remote (with_inner (client_state_mut_for_connection_locked connection_epoch client_key change))"

subsection \<open>Status of a thread\<close>

definition thread_status_type_from_payload :: "json \<Rightarrow> string option" where
  "thread_status_type_from_payload value =
     Option.bind (Option.bind (jget ''status'' value) (\<lambda>status. opt_or (jget_str ''type'' status) (as_str status)))
       non_blank"

definition is_terminal_or_inactive_thread_status :: "string \<Rightarrow> bool" where
  "is_terminal_or_inactive_thread_status status_type \<longleftrightarrow>
     status_type = ''idle'' \<or> status_type = ''notLoaded'' \<or> status_type = ''systemError''"

subsection \<open>Which notifications concern a client\<close>

definition route_remote_client_key_matches :: "string \<Rightarrow> string \<Rightarrow> bool" where
  "route_remote_client_key_matches route_client_key client_key =
     (let client_key = normalize_remote_client_key client_key;
          route_client_key = normalize_remote_client_key route_client_key
      in route_client_key = client_key \<or>
         route_client_key = DEFAULT_REMOTE_CLIENT_KEY \<and> starts_with ''default:'' client_key)"

definition client_works_on :: "string \<Rightarrow> remote_client \<Rightarrow> bool" where
  "client_works_on thread_id client \<longleftrightarrow>
     cl_current_thread_id client = Some thread_id \<or>
     list_ex (\<lambda>(_, pending). pr_thread_id pending = Some thread_id) (cl_pending client)"

definition should_track_notification_thread_for_client ::
  "string option \<Rightarrow> string \<Rightarrow> daemon_world \<Rightarrow> bool" where
  "should_track_notification_thread_for_client client_key thread_id world =
     (case map_option normalize_remote_client_key client_key of
        None \<Rightarrow> route_for_thread thread_id (dw_runtime world) \<noteq> None
      | Some client_key \<Rightarrow>
          list_ex (\<lambda>(bound_thread_id, route).
              route_remote_client_key_matches (ro_remote_client_key route) client_key \<and> bound_thread_id = thread_id)
            (route_by_thread (dw_runtime world)) \<or>
          (let remote = dw_inner world in
           case Option.bind (connection_epoch_for_client_key_locked remote client_key)
                  (\<lambda>connection_epoch. client_state_for_connection_locked remote connection_epoch
                     (resolve_remote_client_key_for_connection_locked remote connection_epoch client_key)) of
             None \<Rightarrow> False
           | Some client \<Rightarrow> client_works_on thread_id client))"

subsection \<open>Setting and clearing the current thread\<close>

definition set_current_thread :: "string \<Rightarrow> remote_client \<Rightarrow> bool \<times> remote_client" where
  "set_current_thread thread_id client =
     (if cl_current_thread_id client = Some thread_id then (False, client)
      else (True, client\<lparr>cl_current_thread_id := Some thread_id, cl_current_turn_id := None\<rparr>))"

definition mark_thread_active_on :: "string \<Rightarrow> nat \<Rightarrow> string \<Rightarrow> string \<Rightarrow> daemon_world \<Rightarrow> daemon_world" where
  "mark_thread_active_on uuid connection_epoch client_key thread_id world =
     (case with_remote (with_inner (ensure_client_state_for_connection_locked uuid connection_epoch client_key
             (set_current_thread thread_id))) world of
        (Some True, world) \<Rightarrow> push_event ''info'' ''remote_control_thread_active'' world
      | (_, world) \<Rightarrow> world)"

definition mark_thread_active :: "string \<Rightarrow> string \<Rightarrow> daemon_world \<Rightarrow> daemon_world" where
  "mark_thread_active uuid thread_id world =
     (case active_connection_locked (dw_inner world) of
        None \<Rightarrow> world
      | Some connection \<Rightarrow>
          mark_thread_active_on uuid (cn_connection_epoch connection) (cn_default_client_key connection)
            thread_id world)"

definition mark_thread_active_for_client_on_connection ::
  "string \<Rightarrow> nat \<Rightarrow> string \<Rightarrow> string \<Rightarrow> daemon_world \<Rightarrow> daemon_world" where
  "mark_thread_active_for_client_on_connection uuid connection_epoch client_key thread_id world =
     mark_thread_active_on uuid connection_epoch (resolve_remote_client_key_for_connection_locked (dw_inner world)
       connection_epoch (normalize_remote_client_key client_key)) thread_id world"

definition mark_thread_active_for_client ::
  "string \<Rightarrow> string option \<Rightarrow> string \<Rightarrow> daemon_world \<Rightarrow> daemon_world" where
  "mark_thread_active_for_client uuid client_key thread_id world =
     (case client_key of
        None \<Rightarrow> mark_thread_active uuid thread_id world
      | Some client_key \<Rightarrow>
          (let client_key = normalize_remote_client_key client_key
           in case connection_epoch_for_client_key_locked (dw_inner world) client_key of
                None \<Rightarrow> world
              | Some connection_epoch \<Rightarrow>
                  mark_thread_active_for_client_on_connection uuid connection_epoch client_key thread_id world))"

definition mark_notification_thread_active_for_client ::
  "string \<Rightarrow> string option \<Rightarrow> string \<Rightarrow> daemon_world \<Rightarrow> daemon_world" where
  "mark_notification_thread_active_for_client uuid client_key thread_id world =
     (if should_track_notification_thread_for_client client_key thread_id world
      then mark_thread_active_for_client uuid client_key thread_id world else world)"

definition current_thread_for_client :: "string \<Rightarrow> remote_inner \<Rightarrow> string option" where
  "current_thread_for_client client_key remote =
     (let requested_client_key = normalize_remote_client_key client_key
      in Option.bind (connection_epoch_for_client_key_locked remote requested_client_key)
           (\<lambda>connection_epoch. Option.bind (client_state_for_connection_locked remote connection_epoch
                (resolve_remote_client_key_for_connection_locked remote connection_epoch requested_client_key))
              cl_current_thread_id))"

text \<open>\<open>clear_turn_for_client\<close> and \<open>clear_thread_for_client\<close> find the client the same way.\<close>

definition change_client_for_key ::
  "string \<Rightarrow> (remote_client \<Rightarrow> remote_client) \<Rightarrow> remote_inner \<Rightarrow> remote_inner" where
  "change_client_for_key client_key change remote =
     (let requested_client_key = normalize_remote_client_key client_key
      in case connection_epoch_for_client_key_locked remote requested_client_key of
           None \<Rightarrow> remote
         | Some connection_epoch \<Rightarrow>
             snd (client_state_mut_for_connection_locked connection_epoch
               (resolve_remote_client_key_for_connection_locked remote connection_epoch requested_client_key)
               (\<lambda>client. ((), change client)) remote))"

definition clear_turn_for_client :: "string \<Rightarrow> string option \<Rightarrow> remote_inner \<Rightarrow> remote_inner" where
  "clear_turn_for_client client_key turn_id =
     change_client_for_key client_key (\<lambda>client.
       if turn_id = None \<or> cl_current_turn_id client = turn_id
       then client\<lparr>cl_current_turn_id := None\<rparr> else client)"

definition clear_thread_for_client :: "string \<Rightarrow> string option \<Rightarrow> remote_inner \<Rightarrow> remote_inner" where
  "clear_thread_for_client client_key thread_id =
     change_client_for_key client_key (\<lambda>client.
       if thread_id = None \<or> cl_current_thread_id client = thread_id
       then client\<lparr>cl_current_thread_id := None, cl_current_turn_id := None\<rparr> else client)"

end
