(* ===== verification/RcIncoming.thy ===== *)
theory RcIncoming
  imports RcTracking
begin

section \<open>Messages of the app server (src/src/remote_control_backend/server_messages.rs, server_work.rs)\<close>

text \<open>
  The worker of a connection takes work items from its queue. A message is a request of the server, an
  answer to a request of the daemon, or a notification. Answers are matched with the pending request;
  notifications update the current thread and turn of their client, cancel the fallback of a turn that
  ended and are broadcast to the messaging side. An item is given as it is handled when no other task
  changes the state between its locked sections.
\<close>

record server_env =
  se_codec :: codec
  se_uuid :: string
  se_now_ms :: nat
  se_sha256 :: "string \<Rightarrow> nat list"
  se_auth_tokens :: "string + json"

subsection \<open>Selection and forwarding\<close>

definition is_selected_active_connection_epoch :: "remote_inner \<Rightarrow> nat \<Rightarrow> bool" where
  "is_selected_active_connection_epoch remote connection_epoch =
     (case select_active_connection_id_locked remote of
        None \<Rightarrow> False
      | Some active_connection_id \<Rightarrow>
          (case hget (ri_connections remote) active_connection_id of
             None \<Rightarrow> False
           | Some connection \<Rightarrow> cn_connection_epoch connection = connection_epoch))"

definition telegram_thread_is_bound :: "(string \<Rightarrow> nat list) \<Rightarrow> string \<Rightarrow> daemon_world \<Rightarrow> bool" where
  "telegram_thread_is_bound sha256 thread_id world =
     ((case route_for_thread thread_id (dw_runtime world) of
         None \<Rightarrow> False | Some route \<Rightarrow> ro_platform route = Telegram) \<or>
      list_ex (\<lambda>(conv_key, bound_thread_id). bound_thread_id = thread_id \<and>
          (case route_from_conversation_key sha256 conv_key of
             None \<Rightarrow> False | Some route \<Rightarrow> ro_platform route = Telegram))
        (dw_thread_bindings world))"

definition is_thread_lifecycle :: "string \<Rightarrow> bool" where
  "is_thread_lifecycle method \<longleftrightarrow>
     method = ''thread/archived'' \<or> method = ''thread/unarchived'' \<or> method = ''thread/deleted''"

definition should_forward_server_notification_to_im ::
  "(string \<Rightarrow> nat list) \<Rightarrow> string option \<Rightarrow> string \<Rightarrow> json option \<Rightarrow> daemon_world \<Rightarrow> bool" where
  "should_forward_server_notification_to_im sha256 client_key method params world =
     (case Option.bind params thread_id_from_payload of
        None \<Rightarrow> True
      | Some thread_id \<Rightarrow>
          should_track_notification_thread_for_client client_key thread_id world \<or>
          method = ''thread/started'' \<or>
          is_thread_lifecycle method \<and> telegram_thread_is_bound sha256 thread_id world \<or>
          (client_key = Some DEFAULT_REMOTE_CLIENT_KEY \<or> client_key = Some ''default:codex_app'') \<and>
            is_thread_lifecycle method)"

definition broadcast :: "codex_notification \<Rightarrow> daemon_world \<Rightarrow> daemon_world" where
  "broadcast notification world = world\<lparr>dw_notifications := dw_notifications world @ [notification]\<rparr>"

definition spawn :: "spawned_task \<Rightarrow> daemon_world \<Rightarrow> daemon_world" where
  "spawn task world = world\<lparr>dw_spawned := dw_spawned world @ [task]\<rparr>"

subsection \<open>Requests of the server\<close>

definition answer_auth_refresh ::
  "server_env \<Rightarrow> nat \<Rightarrow> string \<Rightarrow> string \<Rightarrow> json \<Rightarrow> daemon_world \<Rightarrow> daemon_world" where
  "answer_auth_refresh env connection_epoch client_id stream_id request_id world =
     (case se_auth_tokens env of
        Inl _ \<Rightarrow> push_event ''error'' ''remote_control_auth_refresh_failed'' world
      | Inr result \<Rightarrow>
          (case with_remote (send_response_for_stream (se_codec env) (se_uuid env) (se_now_ms env)
                  connection_epoch client_id stream_id request_id result) world of
             (Inl _, world) \<Rightarrow> push_event ''error'' ''remote_control_auth_refresh_failed'' world
           | (Inr _, world) \<Rightarrow> push_event ''info'' ''remote_control_auth_refresh'' world))"

definition observe_server_request ::
  "server_env \<Rightarrow> nat \<Rightarrow> string \<Rightarrow> string \<Rightarrow> string option \<Rightarrow> bool \<Rightarrow> json \<Rightarrow> string \<Rightarrow> json \<Rightarrow> daemon_world
     \<Rightarrow> daemon_world" where
  "observe_server_request env connection_epoch client_id stream_id client_key selected request_id method
       message world =
     (if method = ''account/chatgptAuthTokens/refresh''
      then answer_auth_refresh env connection_epoch client_id stream_id request_id world
      else if \<not> selected then world
      else
        (let params = jget ''params'' message
         in if \<not> should_forward_server_notification_to_im (se_sha256 env) client_key method params world then world
            else broadcast \<lparr> nt_method = method, nt_params = params, nt_request_id = Some request_id,
                   nt_remote_client_key = client_key, nt_remote_connection_epoch = Some connection_epoch \<rparr>
                 (push_event ''info'' ''remote_control_server_request'' world)))"

subsection \<open>Answers\<close>

text \<open>The entry is removed and read in one locked section.\<close>

definition take_pending ::
  "nat \<Rightarrow> string option \<Rightarrow> string \<Rightarrow> daemon_world \<Rightarrow> pending_request option \<times> daemon_world" where
  "take_pending connection_epoch client_key pending_key world =
     (case client_key of
        None \<Rightarrow> (None, world)
      | Some client_key \<Rightarrow>
          (let (found, world) = change_client_at connection_epoch client_key
                 (\<lambda>client. (hget (cl_pending client) pending_key,
                            client\<lparr>cl_pending := hremove pending_key (cl_pending client)\<rparr>)) world
           in (Option.bind found (\<lambda>pending. pending), world)))"

definition mark_client_active :: "remote_client \<Rightarrow> bool \<times> remote_client" where
  "mark_client_active client =
     (cl_recovery_started_at_ms client \<noteq> None,
      client\<lparr>cl_initialized := True, cl_last_app_pong_status := Some ''active'', cl_recovery_started_at_ms := None\<rparr>)"

text \<open>The locked section of an initialize result: what the connection learns from the user agent, the
  migration of its default client, and the client's flags. The result is the client's new key and whether
  its bound threads should be subscribed again.\<close>

definition accept_initialize_result ::
  "nat \<Rightarrow> string \<Rightarrow> string \<Rightarrow> string option \<Rightarrow> string option \<Rightarrow> remote_inner
     \<Rightarrow> (string option \<times> bool) \<times> remote_inner" where
  "accept_initialize_result connection_epoch client_id stream_id client_key user_agent remote =
     (let result_kind = (case user_agent of None \<Rightarrow> UnknownSource | Some agent \<Rightarrow> source_kind_from_user_agent agent);
          remote = connection_for_epoch_mut_locked connection_epoch (\<lambda>connection.
             connection\<lparr>cn_user_agent := opt_or (cn_user_agent connection) user_agent,
               cn_source_kind := (if cn_source_kind connection = UnknownSource then result_kind
                                  else cn_source_kind connection),
               cn_last_error := None\<rparr>) remote;
          source_kind = (case connection_for_epoch_locked remote connection_epoch of
                           None \<Rightarrow> result_kind | Some connection \<Rightarrow> cn_source_kind connection)
      in case client_key of
           None \<Rightarrow> ((None, False), remote)
         | Some client_key \<Rightarrow>
             (let (migrated_client_key, remote) = migrate_source_default_client_key_locked connection_epoch
                    client_key source_kind client_id stream_id remote;
                  (was_recovering, remote) = client_state_mut_for_connection_locked connection_epoch
                    migrated_client_key mark_client_active remote
              in ((Some migrated_client_key, was_recovering = Some False), remote)))"

definition observe_initialize_result ::
  "server_env \<Rightarrow> nat \<Rightarrow> string \<Rightarrow> string \<Rightarrow> string option \<Rightarrow> json \<Rightarrow> daemon_world \<Rightarrow> daemon_world" where
  "observe_initialize_result env connection_epoch client_id stream_id client_key result world =
     (let ((initialized_client_key, should_resubscribe), world) = with_remote (with_inner
            (accept_initialize_result connection_epoch client_id stream_id client_key
               (jget_str ''userAgent'' result))) world;
          world = (case with_remote (send_initialized_for_stream (se_codec env) (se_uuid env) (se_now_ms env)
                          connection_epoch client_id stream_id) world of
             (Inl _, world) \<Rightarrow> push_event ''error'' ''remote_control_initialized_send_failed'' world
           | (Inr _, world) \<Rightarrow>
               (case client_key of
                  None \<Rightarrow> world
                | Some client_key \<Rightarrow>
                    (case with_remote (replay_pending_requests (se_codec env) (se_now_ms env) connection_epoch
                            (unwrap_or initialized_client_key client_key)) world of
                       (Inl _, world) \<Rightarrow> push_event ''error'' ''remote_control_pending_replay_failed'' world
                     | (Inr _, world) \<Rightarrow> world)))
      in if should_resubscribe
         then (case initialized_client_key of
                 None \<Rightarrow> world | Some client_key \<Rightarrow> spawn (ResubscribeTask connection_epoch client_key 0) world)
         else world)"

definition record_turn ::
  "nat \<Rightarrow> string option \<Rightarrow> string option \<Rightarrow> string option \<Rightarrow> daemon_world \<Rightarrow> daemon_world" where
  "record_turn connection_epoch client_key thread_id turn_id world =
     (case client_key of
        None \<Rightarrow> world
      | Some client_key \<Rightarrow>
          snd (change_client_at connection_epoch client_key (\<lambda>client.
            ((), client\<lparr>cl_current_thread_id := opt_or thread_id (cl_current_thread_id client),
                        cl_current_turn_id := opt_or turn_id (cl_current_turn_id client)\<rparr>)) world))"

definition observe_result ::
  "server_env \<Rightarrow> nat \<Rightarrow> string \<Rightarrow> string \<Rightarrow> string option \<Rightarrow> pending_request option \<Rightarrow> json \<Rightarrow> daemon_world
     \<Rightarrow> daemon_world" where
  "observe_result env connection_epoch client_id stream_id client_key pending result world =
     (let method = map_option pr_method pending;
          track = unwrap_or (map_option pr_track_thread_active pending) True;
          world = (if method = Some ''initialize''
                   then observe_initialize_result env connection_epoch client_id stream_id client_key result world
                   else world);
          world = (case thread_id_from_payload result of
                     None \<Rightarrow> world
                   | Some thread_id \<Rightarrow>
                       if track then mark_thread_active_for_client (se_uuid env) client_key thread_id world else world)
      in case jpath_str ''turn'' ''id'' result of
           None \<Rightarrow> world
         | Some turn_id \<Rightarrow>
             if method = Some ''turn/start'' \<or> method = Some ''turn/steer''
             then record_turn connection_epoch client_key
                    (opt_or (Option.bind pending pr_thread_id) (jpath_str ''turn'' ''threadId'' result))
                    (Some turn_id) world
             else world)"

definition response_outcome :: "(json \<Rightarrow> string) \<Rightarrow> json \<Rightarrow> string + json" where
  "response_outcome display message =
     (case jget ''error'' message of
        Some err \<Rightarrow> Inl (''remote-control request failed: '' @ display err)
      | None \<Rightarrow> Inr (unwrap_or (jget ''result'' message) JNull))"

definition respond :: "pending_request option \<Rightarrow> string + json \<Rightarrow> daemon_world \<Rightarrow> daemon_world" where
  "respond pending outcome world =
     (case pending of
        None \<Rightarrow> world
      | Some pending \<Rightarrow>
          snd (with_remote (\<lambda>remote. ((), remote\<lparr>rw_responses :=
             rw_responses remote @ [(pr_response_tx pending, outcome)]\<rparr>)) world))"

definition observe_response ::
  "server_env \<Rightarrow> nat \<Rightarrow> string \<Rightarrow> string \<Rightarrow> string option \<Rightarrow> json \<Rightarrow> json \<Rightarrow> daemon_world \<Rightarrow> daemon_world" where
  "observe_response env connection_epoch client_id stream_id client_key request_id message world =
     (let (pending, world) = take_pending connection_epoch client_key
            (request_id_key (co_display (se_codec env)) request_id) world;
          world = (if pending = None then world else push_event ''info'' ''remote_control_response'' world);
          world = (case jget ''result'' message of
                     None \<Rightarrow> world
                   | Some result \<Rightarrow>
                       observe_result env connection_epoch client_id stream_id client_key pending result world);
          world = (if jget ''error'' message = None then world
                   else push_event ''error'' ''remote_control_app_server_error'' world)
      in respond pending (response_outcome (co_display (se_codec env)) message) world)"

subsection \<open>Notifications\<close>

definition observe_initialized :: "nat \<Rightarrow> string option \<Rightarrow> daemon_world \<Rightarrow> daemon_world" where
  "observe_initialized connection_epoch client_key world =
     push_event ''info'' ''remote_control_initialized'' (snd (with_remote (with_inner (\<lambda>remote.
       let remote = connection_for_epoch_mut_locked connection_epoch
             (\<lambda>connection. connection\<lparr>cn_last_error := None\<rparr>) remote
       in ((), case client_key of
                 None \<Rightarrow> remote
               | Some client_key \<Rightarrow> snd (client_state_mut_for_connection_locked connection_epoch client_key
                   mark_client_active remote)))) world))"

definition is_turn_end :: "string \<Rightarrow> json option \<Rightarrow> bool" where
  "is_turn_end method params \<longleftrightarrow>
     (method = ''error'' \<or> method = ''turn/completed'' \<or> method = ''codex/event/turn_completed'') \<and>
     \<not> (method = ''error'' \<and>
        Option.bind (Option.bind params (jget ''willRetry'')) as_bool = Some True)"

text \<open>The fallback of a turn that ended is cancelled in the runtime before the notification is broadcast.\<close>

definition ended_turn :: "json option \<Rightarrow> string \<Rightarrow> runtime_state \<Rightarrow> string option" where
  "ended_turn params thread_id rs =
     opt_or (Option.bind params turn_id_from_payload) (current_turn_id thread_id rs)"

definition cancel_fallback_at_turn_end :: "string \<Rightarrow> json option \<Rightarrow> daemon_world \<Rightarrow> daemon_world" where
  "cancel_fallback_at_turn_end method params world =
     (if \<not> is_turn_end method params then world
      else case Option.bind params thread_id_from_payload of
             None \<Rightarrow> world
           | Some thread_id \<Rightarrow>
               snd (with_runtime (\<lambda>rs. ((),
                 case ended_turn params thread_id rs of
                   None \<Rightarrow> rs
                 | Some turn_id \<Rightarrow> cancel_terminal_status_fallback thread_id turn_id rs)) world))"

definition json_string :: "json \<Rightarrow> string \<Rightarrow> string option" where
  "json_string value key = Option.bind (jget_str key value) non_blank"

definition observe_remote_control_status_changed :: "nat \<Rightarrow> json option \<Rightarrow> daemon_world \<Rightarrow> daemon_world" where
  "observe_remote_control_status_changed connection_epoch params world =
     (case params of
        None \<Rightarrow> world
      | Some params \<Rightarrow>
          snd (with_remote (with_inner (\<lambda>remote. ((),
            connection_for_epoch_mut_locked connection_epoch (\<lambda>connection.
              connection\<lparr>cn_server_name := opt_or (json_string params ''serverName'') (cn_server_name connection),
                cn_installation_id := opt_or (json_string params ''installationId'') (cn_installation_id connection),
                cn_environment_id := opt_or (json_string params ''environmentId'') (cn_environment_id connection),
                cn_last_error := (if json_string params ''status'' = Some ''connected'' then None
                                  else cn_last_error connection)\<rparr>) remote))) world))"

text \<open>A thread that became inactive: the client's turn is cleared, and a fallback is registered that
  completes the turn later unless its end arrives.\<close>

definition take_turn_of_thread :: "string \<Rightarrow> remote_client \<Rightarrow> string option \<times> remote_client" where
  "take_turn_of_thread thread_id client =
     (if cl_current_thread_id client = Some thread_id
      then (cl_current_turn_id client, client\<lparr>cl_current_turn_id := None\<rparr>) else (None, client))"

definition observe_thread_status_changed ::
  "nat \<Rightarrow> string option \<Rightarrow> string \<Rightarrow> string \<Rightarrow> daemon_world \<Rightarrow> daemon_world" where
  "observe_thread_status_changed connection_epoch client_key thread_id status_type world =
     (if \<not> is_terminal_or_inactive_thread_status status_type then world
      else case map_option normalize_remote_client_key client_key of
             None \<Rightarrow> world
           | Some client_key \<Rightarrow>
               (let (cleared, world) = change_client_at connection_epoch client_key
                      (take_turn_of_thread thread_id) world
                in case Option.bind cleared (\<lambda>turn_id. turn_id) of
                     None \<Rightarrow> world
                   | Some turn_id \<Rightarrow>
                       (let (registration, world) = with_runtime
                              (register_terminal_status_fallback_token thread_id turn_id) world;
                            world = (case registration of
                                       Some (token, True) \<Rightarrow> spawn (OrphanedTurnCleanup thread_id turn_id token) world
                                     | _ \<Rightarrow> world)
                        in push_event ''warn'' ''remote_control_thread_status_cleared_current_turn'' world)))"

text \<open>What the spawned task does when its delay of 120 seconds is over.\<close>

definition run_orphaned_turn_cleanup ::
  "nat \<Rightarrow> string \<Rightarrow> string \<Rightarrow> nat \<Rightarrow> daemon_world \<Rightarrow> daemon_world" where
  "run_orphaned_turn_cleanup now_ms thread_id turn_id token world =
     (let (cleaned, world) = with_runtime (\<lambda>rs.
            let (claimed, rs) = claim_terminal_status_fallback thread_id turn_id token rs
            in if claimed then mark_turn_completed thread_id (Some turn_id) now_ms rs else (False, rs)) world
      in if cleaned then push_event ''warn'' ''remote_control_orphaned_turn_cleaned'' world else world)"

definition started_turn_id :: "json \<Rightarrow> string option" where
  "started_turn_id params = opt_or (jpath_str ''turn'' ''id'' params) (jget_str ''turnId'' params)"

text \<open>What a notification does to the client it concerns.\<close>

definition track_notification ::
  "server_env \<Rightarrow> nat \<Rightarrow> string option \<Rightarrow> string \<Rightarrow> json option \<Rightarrow> daemon_world \<Rightarrow> daemon_world" where
  "track_notification env connection_epoch client_key method params world =
     (let thread_id = Option.bind params thread_id_from_payload in
      if method = ''thread/started'' then
        (case thread_id of
           None \<Rightarrow> world
         | Some thread_id \<Rightarrow>
             mark_notification_thread_active_for_client (se_uuid env) client_key thread_id world)
      else if method = ''thread/status/changed'' then
        (case (thread_id, Option.bind params thread_status_type_from_payload) of
           (Some thread_id, Some status_type) \<Rightarrow>
             observe_thread_status_changed connection_epoch client_key thread_id status_type world
         | _ \<Rightarrow> world)
      else if method = ''turn/started'' then
        (if (case thread_id of
               None \<Rightarrow> True
             | Some thread_id \<Rightarrow> should_track_notification_thread_for_client client_key thread_id world)
         then record_turn connection_epoch client_key thread_id (Option.bind params started_turn_id) world
         else world)
      else if method = ''turn/completed'' then
        (case client_key of
           None \<Rightarrow> world
         | Some client_key \<Rightarrow>
             snd (change_client_at connection_epoch client_key (\<lambda>client. ((),
               if thread_id = None \<or> cl_current_thread_id client = thread_id
               then client\<lparr>cl_current_turn_id := None\<rparr> else client)) world))
      else if method = ''thread/closed'' then
        (case (thread_id, client_key) of
           (Some thread_id, Some client_key) \<Rightarrow>
             snd (change_client_at connection_epoch client_key (\<lambda>client. ((),
               if cl_current_thread_id client = Some thread_id
               then client\<lparr>cl_current_thread_id := None, cl_current_turn_id := None\<rparr> else client)) world)
         | _ \<Rightarrow> world)
      else world)"

definition observe_notification ::
  "server_env \<Rightarrow> nat \<Rightarrow> string option \<Rightarrow> bool \<Rightarrow> string \<Rightarrow> json \<Rightarrow> daemon_world \<Rightarrow> daemon_world" where
  "observe_notification env connection_epoch client_key selected method message world =
     (if method = ''initialized'' then observe_initialized connection_epoch client_key world
      else if \<not> selected then world
      else
        (let params = jget ''params'' message in
         if \<not> should_forward_server_notification_to_im (se_sha256 env) client_key method params world then world
         else if method = ''item/commandExecution/outputDelta'' then world
         else
           (let world = cancel_fallback_at_turn_end method params world;
                world = (if method = ''remoteControl/status/changed''
                         then observe_remote_control_status_changed connection_epoch params world else world);
                world = track_notification env connection_epoch client_key method params world
            in broadcast \<lparr> nt_method = method, nt_params = params, nt_request_id = jget ''id'' message,
                   nt_remote_client_key = client_key, nt_remote_connection_epoch = Some connection_epoch \<rparr>
                 (push_event ''info'' ''remote_control_notification'' world))))"

subsection \<open>One message, one work item\<close>

definition observe_app_server_message ::
  "server_env \<Rightarrow> nat \<Rightarrow> string \<Rightarrow> string \<Rightarrow> json \<Rightarrow> daemon_world \<Rightarrow> daemon_world" where
  "observe_app_server_message env connection_epoch client_id stream_id message world =
     (let selected = is_selected_active_connection_epoch (dw_inner world) connection_epoch;
          client_key = remote_client_key_for_stream_on_connection_locked (dw_inner world) connection_epoch
            client_id stream_id;
          message = unwrap_or (jget ''message'' message) message
      in case (jget ''id'' message, jget_str ''method'' message) of
           (Some request_id, Some method) \<Rightarrow>
             observe_server_request env connection_epoch client_id stream_id client_key selected request_id
               method message world
         | (Some request_id, None) \<Rightarrow>
             observe_response env connection_epoch client_id stream_id client_key request_id message world
         | (None, Some method) \<Rightarrow>
             observe_notification env connection_epoch client_key selected method message world
         | (None, None) \<Rightarrow> world)"

definition start_remote_control_client_recovery ::
  "server_env \<Rightarrow> nat \<Rightarrow> string \<Rightarrow> string \<Rightarrow> string \<Rightarrow> daemon_world \<Rightarrow> daemon_world" where
  "start_remote_control_client_recovery env connection_epoch client_key client_id stream_id world =
     (case with_remote (with_inner (begin_client_recovery (se_uuid env) (se_now_ms env) connection_epoch client_key
             client_id stream_id)) world of
        (Some (client_key, attempt, True), world) \<Rightarrow>
          spawn (ClientRecovery connection_epoch client_key)
            (push_event ''warn'' ''remote_control_recovery_start'' world)
      | (_, world) \<Rightarrow> world)"

definition handle_remote_app_pong_after_ack ::
  "server_env \<Rightarrow> nat \<Rightarrow> string \<Rightarrow> string \<Rightarrow> string \<Rightarrow> bool \<Rightarrow> daemon_world \<Rightarrow> daemon_world" where
  "handle_remote_app_pong_after_ack env connection_epoch client_id stream_id status should_reinitialize world =
     (let client_key = remote_client_key_for_stream_on_connection_locked (dw_inner world) connection_epoch
            client_id stream_id;
          world = push_event ''info'' ''remote_control_pong'' world
      in if \<not> should_reinitialize then world
         else case client_key of
                None \<Rightarrow> world
              | Some client_key \<Rightarrow>
                  start_remote_control_client_recovery env connection_epoch client_key client_id stream_id
                    (push_event ''warn'' ''remote_control_client_unknown'' world))"

fun run_work_item :: "server_env \<Rightarrow> work_item \<Rightarrow> daemon_world \<Rightarrow> daemon_world" where
  "run_work_item env (WorkMessage connection_epoch seq_id client_id stream_id message) world =
     observe_app_server_message env connection_epoch client_id stream_id message world"
| "run_work_item env (WorkAck connection_epoch seq_id client_id stream_id) world =
     push_event ''info'' ''remote_control_ack'' world"
| "run_work_item env (WorkPong connection_epoch seq_id client_id stream_id status should_reinitialize) world =
     handle_remote_app_pong_after_ack env connection_epoch client_id stream_id status should_reinitialize world"

end
