(* ===== verification/RcInitialize.thy ===== *)
theory RcInitialize
  imports RcOutbound
begin

section \<open>Initialize requests are tracked or undone\<close>

text \<open>
  The bookkeeping of \<open>send_initialize_for_client_on_connection\<close>: what a change of the active connection
  does to a lookup by epoch, what sending a list of envelopes does, and that a request which was sent has
  a pending entry while one that failed has none.
\<close>

definition pending_on :: "server_connection \<Rightarrow> string \<Rightarrow> (string, pending_request) hmap" where
  "pending_on connection key =
     (case hget (cn_clients connection) key of None \<Rightarrow> [] | Some client \<Rightarrow> cl_pending client)"

lemma find_replaced:
  assumes "hget m k = Some c" and "P c' = P c" and "List.find P (map snd m) = Some x"
  shows "\<exists>x'. List.find P (map snd (hinsert k c' m)) = Some x' \<and> (x' = x \<or> x = c \<and> x' = c')"
  using assms by (induction m) (auto split: if_splits)

lemma connection_active_mut:
  assumes found: "connection_for_epoch_locked remote e = Some connection"
    and epoch: "\<And>c. cn_connection_epoch (change c) = cn_connection_epoch c"
  shows "\<exists>connection'. connection_for_epoch_locked (active_connection_mut_locked change remote) e = Some connection' \<and>
    (connection' = connection \<or> connection' = change connection)"
proof -
  have "\<exists>connection'. List.find (\<lambda>x. cn_connection_epoch x = e) (map snd (hinsert k (change c) (ri_connections remote)))
      = Some connection' \<and> (connection' = connection \<or> connection' = change connection)"
    if "hget (ri_connections remote) k = Some c" for k c
    using find_replaced[OF that, of "\<lambda>x. cn_connection_epoch x = e" "change c" connection] found epoch
    by (auto simp: connection_for_epoch_locked_def)
  then show ?thesis
    using found by (auto simp: active_connection_mut_locked_def connection_for_epoch_locked_def split: option.split)
qed

lemma cursor_keeps_connection:
  assumes "connection_for_epoch_locked (rw_inner w) e = Some connection"
  shows "\<exists>subscribe. connection_for_epoch_locked (rw_inner (snd (next_remote_subscribe_cursor w))) e
    = Some (connection\<lparr>cn_subscribe_cursor := subscribe\<rparr>)"
proof -
  have same: "connection = connection\<lparr>cn_subscribe_cursor := cn_subscribe_cursor connection\<rparr>" by simp
  let ?change = "\<lambda>c. c\<lparr>cn_subscribe_cursor := Some (''mochiport:'' @ show_nat (rw_next_subscribe_cursor_id w))\<rparr>"
  obtain connection' where found: "connection_for_epoch_locked (active_connection_mut_locked ?change (rw_inner w)) e
      = Some connection'" and "connection' = connection \<or> connection' = ?change connection"
    using connection_active_mut[OF assms, of ?change] by auto
  then have "\<exists>subscribe. connection' = connection\<lparr>cn_subscribe_cursor := subscribe\<rparr>" using same by metis
  then show ?thesis using found by (auto simp: next_remote_subscribe_cursor_def change_inner_def Let_def)
qed

lemma with_client_present: "hget (cn_clients (with_client_on uuid key connection)) key \<noteq> None"
  by (auto simp: with_client_on_def Let_def hcontains_def)

lemma with_client_pending: "pending_on (with_client_on uuid key connection) key = pending_on connection key"
  by (auto simp: with_client_on_def Let_def hcontains_def pending_on_def new_client_def)

lemma ensure_outcome:
  assumes "connection_for_epoch_locked remote e = Some connection"
  shows "\<exists>client. hget (cn_clients (with_client_on uuid (client_key_on connection key) connection))
        (client_key_on connection key) = Some client \<and>
      fst (ensure_client_state_for_connection_locked uuid e key change remote) = Some (fst (change client)) \<and>
      connection_for_epoch_locked (snd (ensure_client_state_for_connection_locked uuid e key change remote)) e =
        Some (change_client (client_key_on connection key) (snd (change client))
          (with_client_on uuid (client_key_on connection key) connection))"
proof -
  let ?key = "client_key_on connection key"
  obtain client where client: "hget (cn_clients (with_client_on uuid ?key connection)) ?key = Some client"
    using with_client_present by blast
  then show ?thesis
    using assms by (cases "change client")
      (simp add: ensure_client_state_for_connection_locked_def Let_def connection_after_change)
qed

lemma send_on_channel_outcome:
  "send_on_channel codec now e tx envelope w = (result, w') \<Longrightarrow>
    ri_connections (rw_inner w') = ri_connections (rw_inner w) \<and> rw_open_channels w' = rw_open_channels w \<and>
    (if tx \<in> rw_open_channels w then result = Inr () \<and> rw_sent w' = rw_sent w @ [(tx, OutText envelope)]
     else result = Inl ChannelClosed \<and> rw_sent w' = rw_sent w)"
  by (auto simp: send_on_channel_def channel_send_def change_inner_def record_remote_recent_event_def
      push_remote_recent_event_locked_def split: if_splits)

lemma send_all_open:
  "tx \<in> rw_open_channels w \<Longrightarrow> \<exists>w'. send_all_on_channel codec now e tx envelopes w = (Inr (), w') \<and>
    rw_open_channels w' = rw_open_channels w \<and> ri_connections (rw_inner w') = ri_connections (rw_inner w) \<and>
    rw_sent w' = rw_sent w @ map (\<lambda>envelope. (tx, OutText envelope)) envelopes"
proof (induction envelopes arbitrary: w)
  case (Cons envelope envelopes)
  obtain first w1 where first: "send_on_channel codec now e tx envelope w = (first, w1)" by fastforce
  note outcome = send_on_channel_outcome[OF first]
  then show ?case using Cons.IH[of w1] Cons.prems first by auto
qed simp

lemma send_all_outcome:
  assumes "send_all_on_channel codec now e tx envelopes w = (result, w')"
  shows "ri_connections (rw_inner w') = ri_connections (rw_inner w) \<and>
    (case result of
       Inr _ \<Rightarrow> rw_sent w' = rw_sent w @ map (\<lambda>envelope. (tx, OutText envelope)) envelopes
     | Inl _ \<Rightarrow> rw_sent w' = rw_sent w)"
proof (cases "tx \<in> rw_open_channels w \<or> envelopes = []")
  case True
  then show ?thesis using assms send_all_open[of tx w codec now e envelopes] by auto
next
  case False
  then obtain envelope rest where envelopes: "envelopes = envelope # rest" by (cases envelopes) auto
  obtain first w1 where first: "send_on_channel codec now e tx envelope w = (first, w1)" by fastforce
  show ?thesis using False assms first send_on_channel_outcome[OF first] by (auto simp: envelopes)
qed

text \<open>The pending requests of a client under registration and after forgetting it.\<close>

lemma register_outcome:
  assumes "register_initialize codec now e i message cursor client = (result, client')"
  shows "case result of
      Inl _ \<Rightarrow> cl_pending client' = cl_pending client
    | Inr envelopes \<Rightarrow> \<exists>pending. cl_pending client' = hinsert (show_nat i) pending (cl_pending client) \<and>
        pr_method pending = ''initialize'' \<and> pr_connection_epoch pending = e \<and> pr_envelopes pending = envelopes"
  using assms by (auto simp: register_initialize_def take_seq_id_def Let_def split: sum.splits)

lemma forget_outcome:
  assumes "connection_for_epoch_locked remote e = Some connection"
    and "hget (cn_clients connection) (client_key_on connection key) = Some client"
  shows "\<exists>connection'. connection_for_epoch_locked (forget_pending e key request_key remote) e = Some connection' \<and>
    pending_on connection' (client_key_on connection key) = hremove request_key (cl_pending client)"
  using assms by (simp add: forget_pending_def client_state_mut_for_connection_locked_def connection_after_change
      change_client_def pending_on_def)

text \<open>The function up to the registration of the request, and the rest of it.\<close>

definition initialize_registered ::
  "codec \<Rightarrow> string \<Rightarrow> string \<Rightarrow> nat \<Rightarrow> nat \<Rightarrow> string \<Rightarrow> remote_world
     \<Rightarrow> (outbound_error + json list) option \<times> remote_world" where
  "initialize_registered codec version uuid now e key w =
     (let (cursor, w2) = next_remote_subscribe_cursor (snd (next_request_id w))
      in with_inner (ensure_client_state_for_connection_locked uuid e key (register_initialize codec now e
           (rw_next_request_id w) (initialize_message version (rw_next_request_id w)) cursor)) w2)"

lemma initialize_stages:
  "send_initialize_for_client_on_connection codec version uuid now True e client_key w =
    (let (registered, w3) = initialize_registered codec version uuid now e (normalize_remote_client_key client_key) w
     in case registered of
       None \<Rightarrow> (Inl ConnectionDisappeared, w3)
     | Some (Inl err) \<Rightarrow> (Inl err, w3)
     | Some (Inr envelopes) \<Rightarrow>
         (case send_envelopes_on_connection codec now e envelopes w3 of
            (Inl err, world) \<Rightarrow> (Inl err, change_inner (forget_pending e (normalize_remote_client_key client_key)
               (show_nat (rw_next_request_id w))) world)
          | (Inr _, world) \<Rightarrow> (Inr (rw_next_request_id w), world)))"
proof -
  have "fst (next_request_id w) = rw_next_request_id w" by (simp add: next_request_id_def)
  then show ?thesis
    by (simp only: send_initialize_for_client_on_connection_def initialize_registered_def Let_def case_prod_beta
        not_True_eq_False if_False)
qed

lemma registered_outcome:
  assumes "connection_for_epoch_locked (rw_inner w) e = Some connection" and "key = client_key_on connection norm"
  shows "\<exists>registered w3 connection3 client3. initialize_registered codec version uuid now e norm w = (Some registered, w3) \<and>
    connection_for_epoch_locked (rw_inner w3) e = Some connection3 \<and> client_key_on connection3 norm = key \<and>
    hget (cn_clients connection3) key = Some client3 \<and> rw_sent w3 = rw_sent w \<and>
    cn_connected connection3 = cn_connected connection \<and> cn_outbound_tx connection3 = cn_outbound_tx connection \<and>
    (case registered of
       Inl _ \<Rightarrow> cl_pending client3 = pending_on connection key
     | Inr envelopes \<Rightarrow> \<exists>pending.
         cl_pending client3 = hinsert (show_nat (rw_next_request_id w)) pending (pending_on connection key) \<and>
         pr_method pending = ''initialize'' \<and> pr_connection_epoch pending = e \<and> pr_envelopes pending = envelopes)"
proof -
  define w2 where "w2 = snd (next_remote_subscribe_cursor (snd (next_request_id w)))"
  define change where "change = register_initialize codec now e (rw_next_request_id w)
    (initialize_message version (rw_next_request_id w)) (fst (next_remote_subscribe_cursor (snd (next_request_id w))))"
  have "connection_for_epoch_locked (rw_inner (snd (next_request_id w))) e = Some connection"
    using assms(1) by (simp add: next_request_id_def)
  then obtain subscribe where at2: "connection_for_epoch_locked (rw_inner w2) e =
      Some (connection\<lparr>cn_subscribe_cursor := subscribe\<rparr>)"
    unfolding w2_def using cursor_keeps_connection by blast
  let ?with = "with_client_on uuid key (connection\<lparr>cn_subscribe_cursor := subscribe\<rparr>)"
  let ?ensured = "ensure_client_state_for_connection_locked uuid e norm change (rw_inner w2)"
  have key2: "client_key_on (connection\<lparr>cn_subscribe_cursor := subscribe\<rparr>) norm = key"
    unfolding assms(2) by (simp add: client_key_on_def)
  obtain client where client: "hget (cn_clients ?with) key = Some client"
    and first: "fst ?ensured = Some (fst (change client))"
    and at3: "connection_for_epoch_locked (snd ?ensured) e = Some (change_client key (snd (change client)) ?with)"
    using ensure_outcome[OF at2, of uuid norm change] unfolding key2 by auto
  have old: "cl_pending client = pending_on connection key"
    using with_client_pending[of uuid key "connection\<lparr>cn_subscribe_cursor := subscribe\<rparr>"] client
    by (simp add: pending_on_def)
  note registered = register_outcome[of codec now e "rw_next_request_id w"
      "initialize_message version (rw_next_request_id w)"
      "fst (next_remote_subscribe_cursor (snd (next_request_id w)))" client, OF prod.collapse[symmetric],
      folded change_def, unfolded old]
  have run: "initialize_registered codec version uuid now e norm w =
      (Some (fst (change client)), w2\<lparr>rw_inner := snd ?ensured\<rparr>)"
    using first by (simp add: initialize_registered_def with_inner_def case_prod_beta Let_def change_def w2_def)
  have "rw_sent w2 = rw_sent w"
    by (simp add: w2_def next_request_id_def next_remote_subscribe_cursor_def change_inner_def Let_def)
  moreover have "client_key_on (change_client key c ?with) norm = key" for c
    unfolding key2[symmetric] by (simp add: client_key_on_def change_client_def with_client_on_def Let_def)
  moreover have "hget (cn_clients (change_client key c ?with)) key = Some c"
    "cn_connected (change_client key c ?with) = cn_connected connection"
    "cn_outbound_tx (change_client key c ?with) = cn_outbound_tx connection" for c
    by (simp_all add: change_client_def with_client_on_def Let_def)
  ultimately show ?thesis
    using registered run at3 by (intro exI[of _ "fst (change client)"] exI[of _ "w2\<lparr>rw_inner := snd ?ensured\<rparr>"]
      exI[of _ "change_client key (snd (change client)) ?with"] exI[of _ "snd (change client)"]) simp
qed

lemma send_on_connection_outcome:
  assumes "send_envelopes_on_connection codec now e envelopes w = (result, w')"
    and "connection_for_epoch_locked (rw_inner w) e = Some connection"
  shows "connection_for_epoch_locked (rw_inner w') e = Some connection \<and>
    (case result of
       Inr _ \<Rightarrow> \<exists>tx. cn_outbound_tx connection = Some tx \<and>
         rw_sent w' = rw_sent w @ map (\<lambda>envelope. (tx, OutText envelope)) envelopes
     | Inl _ \<Rightarrow> rw_sent w' = rw_sent w)"
proof -
  have tx: "outbound_tx_for_connection_epoch_locked (rw_inner w) e =
      (if cn_connected connection then cn_outbound_tx connection else None)"
    unfolding outbound_tx_for_connection_epoch_locked_def assms(2) by simp
  have "ri_connections (rw_inner w') = ri_connections (rw_inner w) \<and> (case result of
       Inr _ \<Rightarrow> \<exists>tx. cn_outbound_tx connection = Some tx \<and>
         rw_sent w' = rw_sent w @ map (\<lambda>envelope. (tx, OutText envelope)) envelopes
     | Inl _ \<Rightarrow> rw_sent w' = rw_sent w)"
    using assms(1) send_all_outcome[of codec now e _ envelopes w result w'] tx
    by (auto simp: send_envelopes_on_connection_def split: option.splits if_splits sum.splits)
  then show ?thesis using assms(2) by (simp add: connection_for_epoch_locked_def)
qed

text \<open>An initialize request is tracked exactly when it was sent. When the function succeeds, the
  client has a pending initialize of this connection under the new request's identifier, and the
  envelopes kept for a replay are the ones sent, all of them and in order; when it fails on a
  connection that exists (the daemon drains, the message does not fit, the channel is closed), nothing
  was sent and the client's pending requests are what they were.\<close>

theorem initialize_tracked_or_undone:
  assumes "connection_for_epoch_locked (rw_inner w) e = Some connection"
    and "key = client_key_on connection (normalize_remote_client_key client_key)"
    and "hget (pending_on connection key) (show_nat (rw_next_request_id w)) = None"
    and "send_initialize_for_client_on_connection codec version uuid now admitted e client_key w = (result, w')"
  shows "\<exists>connection'. connection_for_epoch_locked (rw_inner w') e = Some connection' \<and>
    (case result of
       Inl _ \<Rightarrow> rw_sent w' = rw_sent w \<and>
         (\<forall>k. hget (pending_on connection' key) k = hget (pending_on connection key) k)
     | Inr request_id \<Rightarrow> request_id = rw_next_request_id w \<and>
         (\<exists>tx pending. cn_outbound_tx connection = Some tx \<and>
            hget (pending_on connection' key) (show_nat request_id) = Some pending \<and>
            pr_method pending = ''initialize'' \<and> pr_connection_epoch pending = e \<and>
            rw_sent w' = rw_sent w @ map (\<lambda>envelope. (tx, OutText envelope)) (pr_envelopes pending)))"
proof (cases admitted)
  case False
  then show ?thesis using assms by (auto simp: send_initialize_for_client_on_connection_def)
next
  case True
  let ?norm = "normalize_remote_client_key client_key"
  obtain registered w3 connection3 client3 where
    registered: "initialize_registered codec version uuid now e ?norm w = (Some registered, w3)"
    and at3: "connection_for_epoch_locked (rw_inner w3) e = Some connection3" "client_key_on connection3 ?norm = key"
      "hget (cn_clients connection3) key = Some client3"
    and same: "rw_sent w3 = rw_sent w" "cn_outbound_tx connection3 = cn_outbound_tx connection"
    and pending: "case registered of Inl _ \<Rightarrow> cl_pending client3 = pending_on connection key
      | Inr envelopes \<Rightarrow> \<exists>pending.
          cl_pending client3 = hinsert (show_nat (rw_next_request_id w)) pending (pending_on connection key) \<and>
          pr_method pending = ''initialize'' \<and> pr_connection_epoch pending = e \<and> pr_envelopes pending = envelopes"
    using registered_outcome[OF assms(1,2)] by blast
  have there: "pending_on connection3 key = cl_pending client3" using at3(3) by (simp add: pending_on_def)
  note run = assms(4)[unfolded eqTrueI[OF True] initialize_stages registered Let_def prod.case option.case]
  show ?thesis
  proof (cases registered)
    case (Inl err)
    then show ?thesis using run at3(1) there pending same(1) by auto
  next
    case (Inr envelopes)
    obtain outcome w4 where send: "send_envelopes_on_connection codec now e envelopes w3 = (outcome, w4)" by fastforce
    note effect = send_on_connection_outcome[OF send at3(1)]
    show ?thesis
    proof (cases outcome)
      case (Inl err)
      obtain connection' where
        "connection_for_epoch_locked (forget_pending e ?norm (show_nat (rw_next_request_id w)) (rw_inner w4)) e = Some connection'"
        "pending_on connection' key = hremove (show_nat (rw_next_request_id w)) (cl_pending client3)"
        using forget_outcome[of "rw_inner w4" e connection3 ?norm client3] effect at3 by auto
      then show ?thesis
        using run Inr send Inl effect same(1) pending assms(3) by (auto simp: change_inner_def)
    next
      case outcome: (Inr u)
      then show ?thesis using run Inr send effect same pending there by auto
    qed
  qed
qed

definition plain_codec :: codec where
  "plain_codec = \<lparr> co_encode64 = (\<lambda>_. []), co_decode64 = (\<lambda>_. None), co_to_vec = (\<lambda>_. Some [0]),
     co_from_slice = (\<lambda>_. None), co_display = (\<lambda>_. []) \<rparr>"

definition sample_world :: remote_world where
  "sample_world = \<lparr> rw_inner = sample_remote, rw_open_channels = {2}, rw_sent = [], rw_responses = [],
     rw_next_request_id = 7, rw_next_subscribe_cursor_id = 1 \<rparr>"

lemma sample_initialize_build:
  "build_on plain_codec c s q message cursor = Inr [build_client_envelope c (Some s) q message (Some cursor)]"
  by (simp add: build_on_def plain_codec_def build_client_message_envelopes_def serialized_json_len_def Let_def
      REMOTE_CONTROL_SEGMENT_MAX_BYTES_def)

lemma sample_initialize_sent:
  "fst (send_initialize_for_client_on_connection plain_codec ''1'' ''u'' 5 True 2 ''default'' sample_world) = Inr 7"
proof -
  let ?w2 = "snd (next_remote_subscribe_cursor (snd (next_request_id sample_world)))"
  have found: "connection_for_epoch_locked sample_remote 2 = Some (sample_connection ''b'' 2 Cli (Some 2))"
    by (simp add: connection_for_epoch_locked_def sample_remote_def sample_connection_def)
  have "connection_for_epoch_locked (rw_inner (snd (next_request_id sample_world))) 2
      = Some (sample_connection ''b'' 2 Cli (Some 2))"
    by (simp add: next_request_id_def sample_world_def found)
  then obtain subscribe where at2: "connection_for_epoch_locked (rw_inner ?w2) 2 =
      Some ((sample_connection ''b'' 2 Cli (Some 2))\<lparr>cn_subscribe_cursor := subscribe\<rparr>)"
    using cursor_keeps_connection by blast
  have key: "normalize_remote_client_key ''default'' = ''default''" by code_simp
  have open2: "rw_open_channels (?w2\<lparr>rw_inner := inner\<rparr>) = {2}" for inner
    by (simp add: next_remote_subscribe_cursor_def next_request_id_def sample_world_def change_inner_def Let_def)
  let ?change = "register_initialize plain_codec 5 2 7 (initialize_message ''1'' 7)
      (fst (next_remote_subscribe_cursor (snd (next_request_id sample_world))))"
  let ?ensured = "ensure_client_state_for_connection_locked ''u'' 2 ''default'' ?change (rw_inner ?w2)"
  obtain client where ensured: "fst ?ensured = Some (fst (?change client))"
      "connection_for_epoch_locked (snd ?ensured) 2 = Some (change_client
        (client_key_on ((sample_connection ''b'' 2 Cli (Some 2))\<lparr>cn_subscribe_cursor := subscribe\<rparr>) ''default'')
        (snd (?change client)) (with_client_on ''u''
        (client_key_on ((sample_connection ''b'' 2 Cli (Some 2))\<lparr>cn_subscribe_cursor := subscribe\<rparr>) ''default'')
        ((sample_connection ''b'' 2 Cli (Some 2))\<lparr>cn_subscribe_cursor := subscribe\<rparr>)))"
    using ensure_outcome[OF at2, of "''u''" "''default''" ?change] by blast
  obtain envelope where built: "fst (?change client) = Inr [envelope]"
    by (simp add: register_initialize_def take_seq_id_def sample_initialize_build Let_def)
  have tx: "outbound_tx_for_connection_epoch_locked (snd ?ensured) 2 = Some 2"
    unfolding outbound_tx_for_connection_epoch_locked_def ensured(2)
    by (simp add: change_client_def with_client_on_def Let_def sample_connection_def)
  have "fst (send_envelopes_on_connection plain_codec 5 2 [envelope] (?w2\<lparr>rw_inner := snd ?ensured\<rparr>)) = Inr ()"
    using open2 tx by (simp add: send_envelopes_on_connection_def send_on_channel_def channel_send_def change_inner_def)
  then show ?thesis
    using ensured(1) built
    by (cases "send_envelopes_on_connection plain_codec 5 2 [envelope] (?w2\<lparr>rw_inner := snd ?ensured\<rparr>)")
      (simp add: send_initialize_for_client_on_connection_def key with_inner_def case_prod_beta Let_def
        next_request_id_def sample_world_def)
qed

theorem initialize_tracked_or_undone_witness:
  "\<exists>connection' pending. connection_for_epoch_locked (rw_inner (snd (send_initialize_for_client_on_connection
        plain_codec ''1'' ''u'' 5 True 2 ''default'' sample_world))) 2 = Some connection' \<and>
     hget (pending_on connection' ''default:cli'') ''7'' = Some pending \<and> pr_method pending = ''initialize''"
proof -
  have found: "connection_for_epoch_locked (rw_inner sample_world) 2 = Some (sample_connection ''b'' 2 Cli (Some 2))"
    by (simp add: connection_for_epoch_locked_def sample_remote_def sample_connection_def sample_world_def)
  have norm: "normalize_remote_client_key ''default'' = ''default''" by code_simp
  have key: "''default:cli'' = client_key_on (sample_connection ''b'' 2 Cli (Some 2)) (normalize_remote_client_key ''default'')"
    by (simp add: norm client_key_on_def sample_connection_def DEFAULT_REMOTE_CLIENT_KEY_def)
  have show7: "show_nat 7 = ''7''" by code_simp
  have none: "hget (pending_on (sample_connection ''b'' 2 Cli (Some 2)) ''default:cli'')
      (show_nat (rw_next_request_id sample_world)) = None"
    by (simp add: pending_on_def sample_connection_def new_client_def)
  have id: "rw_next_request_id sample_world = 7" by (simp add: sample_world_def)
  show ?thesis
    using initialize_tracked_or_undone[OF found key none prod.collapse[symmetric], of plain_codec "''1''" "''u''" 5 True]
      sample_initialize_sent id show7 by auto
qed

end
