(* ===== verification/RcAnswers.thy ===== *)
theory RcAnswers
  imports RcIncoming RcInitialize
begin

section \<open>Requests waiting for an answer\<close>

text \<open>
  A change of the backend is calm when it keeps the state well formed, answers no request and adds no
  request that waits for an answer. Every operation of theories RcTracking and RcIncoming is calm but
  the one that takes a pending request and answers it; from this follows that a request is answered once.
\<close>

subsection \<open>The requests that wait\<close>

definition waiting_at :: "server_connection \<Rightarrow> (string \<times> string \<times> string) set" where
  "waiting_at connection = {(cl_client_id client, cl_stream_id client, pending_key) | key client pending_key.
     (key, client) \<in> set (cn_clients connection) \<and> hcontains (cl_pending client) pending_key}"

definition outstanding :: "remote_inner \<Rightarrow> (nat \<times> string \<times> string \<times> string) set" where
  "outstanding remote = {(cn_connection_epoch connection, stream) | k connection stream.
     (k, connection) \<in> set (ri_connections remote) \<and> stream \<in> waiting_at connection}"

definition calm_inner :: "remote_inner \<Rightarrow> remote_inner \<Rightarrow> bool" where
  "calm_inner remote remote' \<longleftrightarrow>
     (remote_ok remote \<longrightarrow> remote_ok remote') \<and> outstanding remote' \<subseteq> outstanding remote"

definition calm :: "remote_world \<Rightarrow> remote_world \<Rightarrow> bool" where
  "calm world world' \<longleftrightarrow>
     calm_inner (rw_inner world) (rw_inner world') \<and> (world_ok world \<longrightarrow> world_ok world') \<and>
     rw_responses world' = rw_responses world"

named_theorems calm_intros \<open>operations that are calm\<close>

lemma calm_inner_refl [calm_intros]: "calm_inner remote remote"
  by (simp add: calm_inner_def)

lemma calm_inner_trans [trans]: "calm_inner a b \<Longrightarrow> calm_inner b c \<Longrightarrow> calm_inner a c"
  by (auto simp: calm_inner_def)

lemma calm_refl [calm_intros]: "calm world world"
  by (simp add: calm_def calm_inner_def)

lemma calm_trans [trans]: "calm a b \<Longrightarrow> calm b c \<Longrightarrow> calm a c"
  by (auto simp: calm_def intro: calm_inner_trans)

lemma outstandingI:
  "(k, connection) \<in> set (ri_connections remote) \<Longrightarrow> stream \<in> waiting_at connection \<Longrightarrow>
     (cn_connection_epoch connection, stream) \<in> outstanding remote"
  by (cases stream) (auto simp: outstanding_def)

lemma set_update_first_found:
  "List.find P (map snd m) = Some found \<Longrightarrow>
     set (update_first (\<lambda>(_, x). P x) (\<lambda>(k, x). (k, change x)) m) \<subseteq> set m \<union> UNIV \<times> {change found}"
proof (induction m)
  case (Cons entry m)
  then show ?case by (cases entry; cases "P (snd entry)") auto
qed simp

lemma outstanding_change:
  assumes "\<And>connection. connection_for_epoch_locked remote e = Some connection \<Longrightarrow>
      cn_connection_epoch (change connection) = cn_connection_epoch connection \<and>
      waiting_at (change connection) \<subseteq> waiting_at connection"
  shows "outstanding (connection_for_epoch_mut_locked e change remote) \<subseteq> outstanding remote"
proof (cases "connection_for_epoch_locked remote e")
  case None
  then show ?thesis by (simp add: connection_change_absent)
next
  case (Some connection)
  obtain k where k: "(k, connection) \<in> set (ri_connections remote)" using connection_found_in[OF Some] by blast
  have all: "set (ri_connections (connection_for_epoch_mut_locked e change remote))
      \<subseteq> set (ri_connections remote) \<union> UNIV \<times> {change connection}"
    using set_update_first_found[OF Some[unfolded connection_for_epoch_locked_def], of change]
    by (simp add: connection_for_epoch_mut_locked_def)
  show ?thesis
  proof
    fix x assume "x \<in> outstanding (connection_for_epoch_mut_locked e change remote)"
    then obtain k' c stream where x: "x = (cn_connection_epoch c, stream)" "stream \<in> waiting_at c"
      "(k', c) \<in> set (ri_connections (connection_for_epoch_mut_locked e change remote))"
      by (auto simp: outstanding_def)
    then have "(k', c) \<in> set (ri_connections remote) \<or> c = change connection" using all by blast
    then show "x \<in> outstanding remote"
      using x(1,2) outstandingI[of k' c remote stream] outstandingI[OF k, of stream] assms[OF Some] by auto
  qed
qed

lemma outstanding_active:
  assumes "\<And>connection. cn_connection_epoch (change connection) = cn_connection_epoch connection \<and>
      waiting_at (change connection) \<subseteq> waiting_at connection"
  shows "outstanding (active_connection_mut_locked change remote) \<subseteq> outstanding remote"
proof -
  have "outstanding (remote\<lparr>ri_connections := hinsert k (change connection) (ri_connections remote)\<rparr>)
      \<subseteq> outstanding remote" if "hget (ri_connections remote) k = Some connection" for k connection
  proof -
    have "(k, connection) \<in> set (ri_connections remote)" using that by (rule hget_in_set)
    then show ?thesis
      using assms[of connection] set_hinsert_subset[of k "change connection" "ri_connections remote"]
        outstandingI[of _ _ remote] by (fastforce simp: outstanding_def[of "remote\<lparr>ri_connections := _\<rparr>"])
  qed
  then show ?thesis by (auto simp: active_connection_mut_locked_def split: option.split)
qed

subsection \<open>Clients\<close>

definition calm_client :: "remote_client \<Rightarrow> remote_client \<Rightarrow> bool" where
  "calm_client client client' \<longleftrightarrow>
     cl_client_id client' = cl_client_id client \<and> cl_stream_id client' = cl_stream_id client \<and>
     (\<forall>pending_key. hcontains (cl_pending client') pending_key \<longrightarrow> hcontains (cl_pending client) pending_key) \<and>
     (client_ok client \<longrightarrow> client_ok client')"

lemma waiting_change_client:
  assumes "hget (cn_clients connection) key = Some client" and "calm_client client client'"
  shows "waiting_at (change_client key client' connection) \<subseteq> waiting_at connection"
proof -
  have "(key, client) \<in> set (cn_clients connection)" using assms(1) by (rule hget_in_set)
  then show ?thesis
    using assms(2) set_hinsert_subset[of key client' "cn_clients connection"]
    unfolding waiting_at_def change_client_def calm_client_def by fastforce
qed

lemma waiting_with_client: "waiting_at (with_client_on uuid key connection) \<subseteq> waiting_at connection"
proof -
  have "waiting_at (connection\<lparr>cn_clients := hinsert key (new_client stream_id) (cn_clients connection)\<rparr>)
      \<subseteq> waiting_at connection" for stream_id
    using set_hinsert_subset[of key "new_client stream_id" "cn_clients connection"]
    unfolding waiting_at_def by (fastforce simp: new_client_def)
  then show ?thesis by (simp add: with_client_on_def Let_def)
qed

lemma calm_client_mut [calm_intros]:
  assumes "\<And>client. calm_client client (snd (change client))"
  shows "calm_inner remote (snd (client_state_mut_for_connection_locked e key change remote))"
proof -
  have "remote_ok remote \<Longrightarrow> remote_ok (snd (client_state_mut_for_connection_locked e key change remote))"
    using assms by (intro remote_ok_client_mut) (auto simp: calm_client_def)
  moreover have "outstanding (snd (client_state_mut_for_connection_locked e key change remote)) \<subseteq> outstanding remote"
  proof -
    have "outstanding (connection_for_epoch_mut_locked e (change_client key' (snd (change client))) remote)
        \<subseteq> outstanding remote"
      if "connection_for_epoch_locked remote e = Some connection" "hget (cn_clients connection) key' = Some client"
      for connection key' client
      using waiting_change_client[OF that(2) assms] that(1) by (intro outstanding_change) (simp add: change_client_def)
    then show ?thesis
      by (simp add: client_state_mut_for_connection_locked_def case_prod_beta split: option.split)
  qed
  ultimately show ?thesis by (simp add: calm_inner_def)
qed

lemma calm_ensure [calm_intros]:
  assumes "\<And>client. calm_client client (snd (change client))"
  shows "calm_inner remote (snd (ensure_client_state_for_connection_locked uuid e key change remote))"
proof (cases "connection_for_epoch_locked remote e")
  case None
  then show ?thesis by (simp add: ensure_client_state_for_connection_locked_def calm_inner_refl)
next
  case (Some connection)
  let ?key = "client_key_on connection key"
  let ?r1 = "connection_for_epoch_mut_locked e (with_client_on uuid ?key) remote"
  have found1: "connection_for_epoch_locked ?r1 e = Some (with_client_on uuid ?key connection)"
    using Some by (simp add: connection_after_change)
  have first: "outstanding ?r1 \<subseteq> outstanding remote"
    by (rule outstanding_change) (simp add: waiting_with_client)
  have "outstanding (connection_for_epoch_mut_locked e (change_client ?key (snd (change client))) ?r1) \<subseteq> outstanding ?r1"
    if "hget (cn_clients (with_client_on uuid ?key connection)) ?key = Some client" for client
    using waiting_change_client[OF that assms] found1
    by (intro outstanding_change) (simp add: change_client_def)
  then have "outstanding (snd (ensure_client_state_for_connection_locked uuid e key change remote)) \<subseteq> outstanding remote"
    using Some first
    by (cases "hget (cn_clients (with_client_on uuid ?key connection)) ?key")
      (auto simp: ensure_client_state_for_connection_locked_def Let_def case_prod_beta dest: subsetD)
  moreover have "remote_ok remote \<Longrightarrow> remote_ok (snd (ensure_client_state_for_connection_locked uuid e key change remote))"
    using assms by (intro remote_ok_ensure) (auto simp: calm_client_def)
  ultimately show ?thesis by (simp add: calm_inner_def)
qed

subsection \<open>Connections\<close>

text \<open>A change of a connection that leaves its clients alone.\<close>

lemma calm_connection [calm_intros]:
  assumes "\<And>connection. cn_connection_epoch (change connection) = cn_connection_epoch connection"
    and "\<And>connection. cn_clients (change connection) = cn_clients connection"
    and "\<And>k connection. connection_ok (k, connection) \<Longrightarrow> connection_ok (k, change connection)"
  shows "calm_inner remote (connection_for_epoch_mut_locked e change remote)"
  unfolding calm_inner_def
  using remote_ok_change[of remote change e] outstanding_change[of remote e change] assms
  by (simp add: waiting_at_def)

lemma calm_active [calm_intros]:
  assumes "\<And>connection. cn_connection_epoch (change connection) = cn_connection_epoch connection"
    and "\<And>connection. cn_clients (change connection) = cn_clients connection"
    and "\<And>k connection. connection_ok (k, connection) \<Longrightarrow> connection_ok (k, change connection)"
  shows "calm_inner remote (active_connection_mut_locked change remote)"
  unfolding calm_inner_def
  using remote_ok_active_mut[of remote change] outstanding_active[of change remote] assms
  by (simp add: waiting_at_def)

lemma calm_migrate [calm_intros]:
  "calm_inner remote (snd (migrate_source_default_client_key_locked e old kind client_id stream_id remote))"
proof -
  have "outstanding (connection_for_epoch_mut_locked e (move_default_client old' new' client) remote)
      \<subseteq> outstanding remote"
    if "connection_for_epoch_locked remote e = Some connection" "hget (cn_clients connection) old' = Some client"
    for connection old' new' client
  proof (rule outstanding_change)
    fix c assume "connection_for_epoch_locked remote e = Some c"
    then have "(old', client) \<in> set (cn_clients c)" using that hget_in_set by fastforce
    then have "waiting_at (move_default_client old' new' client c) \<subseteq> waiting_at c"
      using set_hinsert_subset[of new' client "hremove old' (cn_clients c)"]
      by (fastforce simp: waiting_at_def move_default_client_def set_hremove)
    then show "cn_connection_epoch (move_default_client old' new' client c) = cn_connection_epoch c \<and>
        waiting_at (move_default_client old' new' client c) \<subseteq> waiting_at c"
      by (simp add: move_default_client_def)
  qed
  then have "outstanding (snd (migrate_source_default_client_key_locked e old kind client_id stream_id remote))
      \<subseteq> outstanding remote"
    by (simp add: migrate_source_default_client_key_locked_def Let_def split: option.split)
  then show ?thesis by (simp add: calm_inner_def remote_ok_migrate)
qed

lemma calm_event [calm_intros]:
  "calm_inner remote (record_remote_recent_event now direction e c s q kind summary remote)"
proof -
  have "outstanding (record_remote_recent_event now direction e c s q kind summary remote) = outstanding remote"
    by (simp add: record_remote_recent_event_def push_remote_recent_event_locked_def outstanding_def)
  then show ?thesis by (simp add: calm_inner_def remote_ok_record_event)
qed

subsection \<open>Sending\<close>

lemma calm_with_inner [calm_intros]:
  "(\<And>remote. calm_inner remote (snd (operation remote))) \<Longrightarrow> calm world (snd (with_inner operation world))"
  by (simp add: calm_def with_inner_def case_prod_beta calm_inner_def)

lemma calm_change_inner [calm_intros]:
  "(\<And>remote. calm_inner remote (operation remote)) \<Longrightarrow> calm world (change_inner operation world)"
  by (simp add: calm_def change_inner_def calm_inner_def)

lemma calm_and_then:
  assumes "calm world (snd r)" and "\<And>x world. calm world (snd (f x world))"
  shows "calm world (snd (and_then r f))"
  using assms(1) calm_trans[OF assms(1) assms(2)] by (cases r; cases "fst r") auto

lemma calm_channel_send [calm_intros]: "calm world (snd (channel_send tx message world))"
  by (simp add: channel_send_def calm_def calm_inner_def)

lemma calm_send_on [calm_intros]: "calm world (snd (send_on_channel codec now e tx envelope world))"
  unfolding send_on_channel_def
  by (rule calm_trans[OF calm_change_inner[OF calm_event] calm_channel_send])

lemma calm_send_all [calm_intros]: "calm world (snd (send_all_on_channel codec now e tx envelopes world))"
  by (induction envelopes arbitrary: world) (simp_all add: calm_refl calm_and_then calm_send_on)

lemma calm_send_envelopes [calm_intros]:
  "calm world (snd (send_envelopes_on_connection codec now e envelopes world))"
  by (simp add: send_envelopes_on_connection_def calm_refl calm_send_all split: option.split)

lemma calm_cursor [calm_intros]: "calm world (snd (next_remote_subscribe_cursor world))"
proof -
  let ?w = "world\<lparr>rw_next_subscribe_cursor_id := (rw_next_subscribe_cursor_id world + 1) mod 2 ^ 64\<rparr>"
  have "calm world ?w" by (simp add: calm_def calm_inner_def)
  also have "calm ?w (snd (next_remote_subscribe_cursor world))"
    by (auto simp: next_remote_subscribe_cursor_def Let_def connection_ok_def intro!: calm_intros)
  finally show ?thesis .
qed

lemma calm_client_take_seq: "calm_client client (snd (take_seq_id client))"
  using client_ok_take_seq[of client] by (simp add: calm_client_def take_seq_id_def)

lemma calm_to_stream [calm_intros]:
  "calm world (snd (send_to_stream codec uuid now e c s message world))"
  unfolding send_to_stream_def
proof (rule calm_and_then)
  have "calm_inner remote (snd (take_seq_for_stream uuid e c s remote))" for remote
    by (simp add: take_seq_for_stream_def Let_def case_prod_beta calm_inner_refl calm_ensure calm_client_take_seq
        split: option.split)
  then show "calm world (snd (with_inner (take_seq_for_stream uuid e c s) world))" by (rule calm_with_inner)
next
  fix seq_id and w :: remote_world
  show "calm w (snd (let (cursor, world) = next_remote_subscribe_cursor w
      in case build_on codec c s seq_id message cursor of Inl err \<Rightarrow> (Inl err, world)
         | Inr envelopes \<Rightarrow> send_envelopes_on_connection codec now e envelopes world))"
    using calm_trans[OF calm_cursor calm_send_envelopes]
    by (simp add: Let_def case_prod_beta calm_cursor split: sum.split)
qed

lemma calm_send_each: "calm world (snd (send_each codec now e batches world))"
  by (induction batches arbitrary: world) (simp_all add: calm_refl calm_and_then calm_send_envelopes)

lemma calm_replay [calm_intros]: "calm world (snd (replay_pending_requests codec now e key world))"
  unfolding replay_pending_requests_def by (rule calm_send_each)

subsection \<open>The daemon\<close>

definition quiet :: "daemon_world \<Rightarrow> daemon_world \<Rightarrow> bool" where
  "quiet world world' \<longleftrightarrow> calm (dw_remote world) (dw_remote world') \<and>
     dw_runtime world' = dw_runtime world \<and> dw_notifications world' = dw_notifications world \<and>
     dw_thread_bindings world' = dw_thread_bindings world"

named_theorems quiet_intros \<open>operations that are quiet\<close>

lemma quiet_refl [quiet_intros]: "quiet world world"
  by (simp add: quiet_def calm_refl)

lemma quiet_trans [trans]: "quiet a b \<Longrightarrow> quiet b c \<Longrightarrow> quiet a c"
  by (auto simp: quiet_def intro: calm_trans)

lemma quiet_push_event [quiet_intros]: "quiet world (push_event level kind world)"
  by (simp add: quiet_def push_event_def calm_refl)

lemma quiet_spawn [quiet_intros]: "quiet world (spawn task world)"
  by (simp add: quiet_def spawn_def calm_refl)

lemma quiet_with_remote [quiet_intros]:
  "(\<And>remote. calm remote (snd (operation remote))) \<Longrightarrow> quiet world (snd (with_remote operation world))"
  by (simp add: quiet_def with_remote_def case_prod_beta)

lemma quiet_then_event: "quiet world w \<Longrightarrow> quiet world (push_event level kind w)"
  by (rule quiet_trans[OF _ quiet_push_event])

lemma quiet_change_client [quiet_intros]:
  "(\<And>client. calm_client client (snd (change client))) \<Longrightarrow> quiet world (snd (change_client_at e key change world))"
  unfolding change_client_at_def by (rule quiet_with_remote[OF calm_with_inner[OF calm_client_mut]])

lemma calm_client_threads:
  "calm_client client (client\<lparr>cl_current_thread_id := t, cl_current_turn_id := u\<rparr>)"
  "calm_client client (client\<lparr>cl_current_turn_id := u\<rparr>)"
  "calm_client client client"
  by (simp_all add: calm_client_def client_ok_def)

lemma calm_client_ops:
  "calm_client client (snd (set_current_thread t client))"
  "calm_client client (snd (take_turn_of_thread t client))"
  "calm_client client (snd (mark_client_active client))"
  by (simp_all add: calm_client_def client_ok_def set_current_thread_def take_turn_of_thread_def mark_client_active_def)

lemma quiet_mark_on: "quiet world (mark_thread_active_on uuid e key t world)"
proof -
  obtain r w where run: "with_remote (with_inner (ensure_client_state_for_connection_locked uuid e key
      (set_current_thread t))) world = (r, w)" by fastforce
  have "quiet world (snd (with_remote (with_inner (ensure_client_state_for_connection_locked uuid e key
      (set_current_thread t))) world))"
    by (rule quiet_with_remote[OF calm_with_inner[OF calm_ensure[OF calm_client_ops(1)]]])
  then have "quiet world w" using run by simp
  then show ?thesis
    using run quiet_then_event by (auto simp: mark_thread_active_on_def split: option.split bool.split)
qed

lemma quiet_mark [quiet_intros]:
  "quiet world (mark_thread_active_for_client uuid client_key t world)"
  "quiet world (mark_notification_thread_active_for_client uuid client_key t world)"
  by (simp_all add: mark_thread_active_for_client_def mark_thread_active_def Let_def quiet_mark_on quiet_refl
      mark_thread_active_for_client_on_connection_def mark_notification_thread_active_for_client_def
      split: option.split)

lemma quiet_record_turn [quiet_intros]: "quiet world (record_turn e client_key t u world)"
  by (auto simp: record_turn_def calm_client_threads intro!: quiet_intros split: option.split)

lemma quiet_auth_refresh [quiet_intros]: "quiet world (answer_auth_refresh env e c s request_id world)"
proof (cases "se_auth_tokens env")
  case (Inr tokens)
  obtain r w where run: "with_remote (send_response_for_stream (se_codec env) (se_uuid env) (se_now_ms env)
      e c s request_id tokens) world = (r, w)" by fastforce
  have "quiet world (snd (with_remote (send_response_for_stream (se_codec env) (se_uuid env) (se_now_ms env)
      e c s request_id tokens) world))"
    by (rule quiet_with_remote) (simp add: send_response_for_stream_def calm_to_stream)
  then show ?thesis
    using run Inr by (auto simp: answer_auth_refresh_def intro: quiet_then_event split: sum.split)
qed (simp add: answer_auth_refresh_def quiet_push_event)

lemma calm_accept_initialize [calm_intros]:
  "calm_inner remote (snd (accept_initialize_result e c s client_key user_agent remote))"
proof -
  define change :: "server_connection \<Rightarrow> server_connection" where "change = (\<lambda>connection. connection\<lparr>cn_user_agent := opt_or (cn_user_agent connection) user_agent,
      cn_source_kind := (if cn_source_kind connection = UnknownSource
        then (case user_agent of None \<Rightarrow> UnknownSource | Some agent \<Rightarrow> source_kind_from_user_agent agent)
        else cn_source_kind connection), cn_last_error := None\<rparr>)"
  have first: "calm_inner remote (connection_for_epoch_mut_locked e change remote)"
    by (rule calm_connection) (simp_all add: change_def connection_ok_def)
  have rest: "calm_inner r (snd (client_state_mut_for_connection_locked e key' mark_client_active
      (snd (migrate_source_default_client_key_locked e key kind c s r))))" for r key key' kind
    by (rule calm_inner_trans[OF calm_migrate calm_client_mut[OF calm_client_ops(3)]])
  show ?thesis
    using first calm_inner_trans[OF first rest]
    by (simp add: accept_initialize_result_def Let_def case_prod_beta change_def[symmetric] split: option.split)
qed

lemma quiet_initialize_result [quiet_intros]:
  "quiet world (observe_initialize_result env e c s client_key outcome world)"
proof -
  obtain keys resub w1 where one: "with_remote (with_inner (accept_initialize_result e c s client_key
      (jget_str ''userAgent'' outcome))) world = ((keys, resub), w1)" by (metis surj_pair)
  obtain sent w2 where two: "with_remote (send_initialized_for_stream (se_codec env) (se_uuid env) (se_now_ms env)
      e c s) w1 = (sent, w2)" by fastforce
  have "quiet world (snd (with_remote (with_inner (accept_initialize_result e c s client_key
      (jget_str ''userAgent'' outcome))) world))"
    by (rule quiet_with_remote[OF calm_with_inner[OF calm_accept_initialize]])
  then have "quiet world w1" using one by simp
  moreover have "quiet w1 w2"
    using quiet_with_remote[of "send_initialized_for_stream (se_codec env) (se_uuid env) (se_now_ms env) e c s" w1] two
    by (simp add: send_initialized_for_stream_def calm_to_stream)
  ultimately have until: "quiet world w2" by (rule quiet_trans)
  have replay: "quiet w2 (case with_remote (replay_pending_requests (se_codec env) (se_now_ms env) e key) w2 of
      (Inl _, world) \<Rightarrow> push_event level kind world | (Inr _, world) \<Rightarrow> world)" for key level kind
  proof -
    have "quiet w2 (snd (with_remote (replay_pending_requests (se_codec env) (se_now_ms env) e key) w2))"
      by (rule quiet_with_remote[OF calm_replay])
    then show ?thesis by (simp add: split_beta quiet_then_event split: sum.split)
  qed
  define w3 where "w3 = (case sent of
      Inl _ \<Rightarrow> push_event ''error'' ''remote_control_initialized_send_failed'' w2
    | Inr _ \<Rightarrow> (case client_key of None \<Rightarrow> w2 | Some client_key \<Rightarrow>
        (case with_remote (replay_pending_requests (se_codec env) (se_now_ms env) e (unwrap_or keys client_key)) w2 of
           (Inl _, world) \<Rightarrow> push_event ''error'' ''remote_control_pending_replay_failed'' world
         | (Inr _, world) \<Rightarrow> world)))"
  have third: "quiet world w3"
    using until quiet_trans[OF until replay] quiet_then_event[OF until]
    by (simp add: w3_def split: sum.split option.split)
  have "observe_initialize_result env e c s client_key outcome world =
      (if resub then (case keys of None \<Rightarrow> w3 | Some client_key \<Rightarrow> spawn (ResubscribeTask e client_key 0) w3) else w3)"
    by (simp only: observe_initialize_result_def one two w3_def Let_def prod.case)
  then show ?thesis using third quiet_trans[OF third quiet_spawn] by (simp split: option.split)
qed

lemma quiet_result [quiet_intros]:
  "quiet world (observe_result env e c s client_key pending outcome world)"
proof -
  define w1 where "w1 = (if map_option pr_method pending = Some ''initialize''
    then observe_initialize_result env e c s client_key outcome world else world)"
  define w2 where "w2 = (case thread_id_from_payload outcome of None \<Rightarrow> w1 | Some thread_id \<Rightarrow>
    if unwrap_or (map_option pr_track_thread_active pending) True
    then mark_thread_active_for_client (se_uuid env) client_key thread_id w1 else w1)"
  have "quiet world w1" by (simp add: w1_def quiet_initialize_result quiet_refl)
  also have "quiet w1 w2" by (simp add: w2_def quiet_mark quiet_refl split: option.split)
  also have "quiet w2 (observe_result env e c s client_key pending outcome world)"
  proof -
    have "observe_result env e c s client_key pending outcome world = (case jpath_str ''turn'' ''id'' outcome of
        None \<Rightarrow> w2
      | Some turn_id \<Rightarrow>
          if map_option pr_method pending = Some ''turn/start'' \<or> map_option pr_method pending = Some ''turn/steer''
          then record_turn e client_key (opt_or (Option.bind pending pr_thread_id)
            (jpath_str ''turn'' ''threadId'' outcome)) (Some turn_id) w2 else w2)"
      by (simp only: observe_result_def Let_def w1_def w2_def)
    then show ?thesis by (simp only: quiet_record_turn quiet_refl split: option.split if_split) simp
  qed
  finally show ?thesis .
qed

lemma quiet_initialized [quiet_intros]: "quiet world (observe_initialized e client_key world)"
proof -
  have first: "calm_inner remote (connection_for_epoch_mut_locked e (\<lambda>c. c\<lparr>cn_last_error := None\<rparr>) remote)" for remote
    by (rule calm_connection) (simp_all add: connection_ok_def)
  show ?thesis
    unfolding observe_initialized_def
    by (intro quiet_then_event quiet_with_remote calm_with_inner)
      (simp add: Let_def first calm_inner_trans[OF first calm_client_mut[OF calm_client_ops(3)]] split: option.split)
qed

lemma quiet_status_changed [quiet_intros]: "quiet world (observe_remote_control_status_changed e params world)"
  unfolding observe_remote_control_status_changed_def
  by (auto simp: quiet_refl connection_ok_def split: option.split
      intro!: quiet_with_remote calm_with_inner calm_connection)

lemma quiet_change_if [quiet_intros]:
  "(\<And>client. calm_client client (f client)) \<Longrightarrow>
     quiet world (snd (change_client_at e key (\<lambda>client. ((), if P client then f client else client)) world))"
  by (rule quiet_change_client) (simp add: calm_client_threads)

lemmas quiet_change = quiet_change_if[of f _ e key "\<lambda>_. True" for f e key, simplified]

text \<open>Of the notifications only a status change touches the runtime.\<close>

lemma quiet_track [quiet_intros]:
  "method \<noteq> ''thread/status/changed'' \<Longrightarrow> quiet world (track_notification env e client_key method params world)"
  by (simp add: track_notification_def Let_def calm_client_threads quiet_refl quiet_mark quiet_record_turn
      quiet_change_if quiet_change split: option.split)

subsection \<open>Every request is answered once\<close>

text \<open>The one client of a connection that has the stream.\<close>

definition owns_stream :: "server_connection \<Rightarrow> string \<Rightarrow> string \<Rightarrow> string \<Rightarrow> remote_client \<Rightarrow> bool" where
  "owns_stream connection client_id stream_id key client \<longleftrightarrow>
     client_key_on connection key = key \<and> hget (cn_clients connection) key = Some client \<and>
     (\<forall>key' client'. (key', client') \<in> set (cn_clients connection) \<longrightarrow>
        (cl_client_id client' = client_id \<and> cl_stream_id client' = stream_id) = (key' = key))"

lemma same_epoch_same_connection:
  assumes "remote_ok remote" and "connection_for_epoch_locked remote e = Some connection"
    and "(k, c) \<in> set (ri_connections remote)" and "cn_connection_epoch c = e"
  shows "c = connection"
proof -
  have "distinct (map (\<lambda>(_, c). cn_connection_epoch c) (ri_connections remote))"
    using assms(1) by (simp add: remote_ok_def epochs_def)
  moreover obtain k' where "(k', connection) \<in> set (ri_connections remote)" "cn_connection_epoch connection = e"
    using connection_found_in[OF assms(2)] connection_epoch_of_found[OF assms(2)] by blast
  ultimately show ?thesis
    using assms(3,4) inj_onD[of "\<lambda>(_, c). cn_connection_epoch c" "set (ri_connections remote)" "(k, c)" "(k', connection)"]
    by (auto simp: distinct_map)
qed

lemma stream_key_found:
  assumes "connection_for_epoch_locked remote e = Some connection" and "owns_stream connection c s key client"
  shows "remote_client_key_for_stream_on_connection_locked remote e c s = Some key"
proof -
  let ?P = "\<lambda>(_, client). cl_client_id client = c \<and> cl_stream_id client = s"
  have "(key, client) \<in> set (cn_clients connection)" using assms(2) by (auto simp: owns_stream_def hget_in_set)
  then have "List.find ?P (cn_clients connection) \<noteq> None"
    unfolding find_None_iff_all using assms(2) by (auto simp: owns_stream_def)
  then obtain key' client' where found: "List.find ?P (cn_clients connection) = Some (key', client')" by auto
  then have "key' = key" using assms(2) find_Some_in[OF found] by (auto simp: owns_stream_def)
  then show ?thesis using assms(1) found by (simp add: remote_client_key_for_stream_on_connection_locked_def)
qed

lemma take_pending_outcome:
  assumes ok: "world_ok (dw_remote world)"
    and found: "connection_for_epoch_locked (dw_inner world) e = Some connection"
    and owner: "owns_stream connection c s key client"
  shows "fst (take_pending e (Some key) pk world) = hget (cl_pending client) pk \<and>
    rw_responses (dw_remote (snd (take_pending e (Some key) pk world))) = rw_responses (dw_remote world) \<and>
    (e, c, s, pk) \<notin> outstanding (dw_inner (snd (take_pending e (Some key) pk world)))"
proof -
  let ?client = "client\<lparr>cl_pending := hremove pk (cl_pending client)\<rparr>"
  let ?remote = "connection_for_epoch_mut_locked e (change_client key ?client) (dw_inner world)"
  have key: "client_key_on connection key = key" "hget (cn_clients connection) key = Some client"
    using owner by (simp_all add: owns_stream_def)
  have run: "take_pending e (Some key) pk world = (hget (cl_pending client) pk,
      world\<lparr>dw_remote := (dw_remote world)\<lparr>rw_inner := ?remote\<rparr>\<rparr>)"
    using found key by (simp add: take_pending_def change_client_at_def with_remote_def with_inner_def
        client_state_mut_for_connection_locked_def)
  have ok': "remote_ok ?remote"
    using remote_ok_client_mut[of "dw_inner world" "\<lambda>client. ((), client\<lparr>cl_pending := hremove pk (cl_pending client)\<rparr>)"
        e key] ok found key
    by (simp add: client_state_mut_for_connection_locked_def client_ok_def hwf_hremove)
  have found': "connection_for_epoch_locked ?remote e = Some (change_client key ?client connection)"
    using found by (simp add: connection_after_change change_client_def)
  obtain k where "(k, connection) \<in> set (ri_connections (dw_inner world))"
    using connection_found_in[OF found] by blast
  then have wf: "hwf (cn_clients connection)"
    using ok by (fastforce simp: remote_ok_def connection_ok_def clients_ok_def)
  have "(c, s, pk) \<notin> waiting_at (change_client key ?client connection)"
    using owner by (auto simp: waiting_at_def change_client_def set_hinsert[OF wf] owns_stream_def)
  then have "(e, c, s, pk) \<notin> outstanding ?remote"
    using same_epoch_same_connection[OF ok' found'] by (auto simp: outstanding_def)
  then show ?thesis by (simp add: run)
qed

text \<open>Everything between taking the request and answering it is quiet.\<close>

lemma response_stages:
  "\<exists>w. quiet (snd (take_pending e client_key (request_id_key (co_display (se_codec env)) request_id) world)) w \<and>
    observe_response env e c s client_key request_id message world =
      respond (fst (take_pending e client_key (request_id_key (co_display (se_codec env)) request_id) world))
        (response_outcome (co_display (se_codec env)) message) w"
proof -
  obtain pending w1 where taken: "take_pending e client_key (request_id_key (co_display (se_codec env)) request_id) world
      = (pending, w1)" by fastforce
  define w2 where "w2 = (if pending = None then w1 else push_event ''info'' ''remote_control_response'' w1)"
  define w3 where "w3 = (case jget ''result'' message of None \<Rightarrow> w2
    | Some outcome \<Rightarrow> observe_result env e c s client_key pending outcome w2)"
  define w4 where "w4 = (if jget ''error'' message = None then w3
    else push_event ''error'' ''remote_control_app_server_error'' w3)"
  have "quiet w1 w2" by (simp add: w2_def quiet_refl quiet_push_event)
  also have "quiet w2 w3" by (simp add: w3_def quiet_refl quiet_result split: option.split)
  also have "quiet w3 w4" by (simp add: w4_def quiet_refl quiet_push_event)
  finally have "quiet w1 w4" .
  moreover have "observe_response env e c s client_key request_id message world =
      respond pending (response_outcome (co_display (se_codec env)) message) w4"
    by (simp only: observe_response_def taken Let_def prod.case w2_def w3_def w4_def)
  ultimately show ?thesis by (simp only: taken fst_conv snd_conv) blast
qed

lemma respond_frame:
  "rw_responses (dw_remote (respond pending outcome world)) = rw_responses (dw_remote world) @
     (case pending of None \<Rightarrow> [] | Some p \<Rightarrow> [(pr_response_tx p, outcome)])"
  "dw_inner (respond pending outcome world) = dw_inner world"
  "dw_runtime (respond pending outcome world) = dw_runtime world"
  "dw_notifications (respond pending outcome world) = dw_notifications world"
  by (simp_all add: respond_def with_remote_def split: option.split)

lemma answer_reaches_waiter:
  assumes "world_ok (dw_remote world)"
    and "connection_for_epoch_locked (dw_inner world) e = Some connection"
    and "owns_stream connection c s key client"
    and "jget ''id'' (unwrap_or (jget ''message'' message) message) = Some request_id"
    and "jget_str ''method'' (unwrap_or (jget ''message'' message) message) = None"
    and "pk = request_id_key (co_display (se_codec env)) request_id"
    and "world' = observe_app_server_message env e c s message world"
  shows "rw_responses (dw_remote world') = rw_responses (dw_remote world) @
      (case hget (cl_pending client) pk of None \<Rightarrow> []
       | Some pending \<Rightarrow> [(pr_response_tx pending, response_outcome (co_display (se_codec env))
            (unwrap_or (jget ''message'' message) message))]) \<and>
    (e, c, s, pk) \<notin> outstanding (dw_inner world')"
proof -
  let ?m = "unwrap_or (jget ''message'' message) message"
  have run: "world' = observe_response env e c s (Some key) request_id ?m world"
    using assms(4,5,7) stream_key_found[OF assms(2,3)] by (simp add: observe_app_server_message_def Let_def)
  obtain w where w: "quiet (snd (take_pending e (Some key) pk world)) w"
    "world' = respond (fst (take_pending e (Some key) pk world)) (response_outcome (co_display (se_codec env)) ?m) w"
    using response_stages[of e "Some key" env request_id world c s ?m] run assms(6) by blast
  then have "rw_responses (dw_remote w) = rw_responses (dw_remote world)" "(e, c, s, pk) \<notin> outstanding (dw_inner w)"
    using take_pending_outcome[OF assms(1-3), of pk] by (auto simp: quiet_def calm_def calm_inner_def)
  then show ?thesis using w(2) take_pending_outcome[OF assms(1-3), of pk] by (simp add: respond_frame)
qed

text \<open>C8. An answer of the app server reaches the task that waits for it, once. When a message with an
  identifier and no method arrives on a stream, the request that waits for this identifier, if any, is
  answered with the message's error or result, no other waiting task is answered, and afterwards no
  client of the stream waits for the identifier, so that a repetition of the message answers nobody.
  This holds for every kind of request: also for initialize, whose answer migrates the client to another
  key and replays its pending requests.\<close>

theorem request_answered_once:
  assumes "world_ok (dw_remote world)"
    and "connection_for_epoch_locked (dw_inner world) e = Some connection"
    and "owns_stream connection c s key client"
    and "jget ''id'' (unwrap_or (jget ''message'' message) message) = Some request_id"
    and "jget_str ''method'' (unwrap_or (jget ''message'' message) message) = None"
    and "pk = request_id_key (co_display (se_codec env)) request_id"
    and "world' = observe_app_server_message env e c s message world"
  shows "rw_responses (dw_remote world') = rw_responses (dw_remote world) @
      (case hget (cl_pending client) pk of None \<Rightarrow> []
       | Some pending \<Rightarrow> [(pr_response_tx pending, response_outcome (co_display (se_codec env))
            (unwrap_or (jget ''message'' message) message))]) \<and>
    (e, c, s, pk) \<notin> outstanding (dw_inner world')"
  using assms by (rule answer_reaches_waiter)

subsection \<open>A sample daemon\<close>

definition sample_server_env :: server_env where
  "sample_server_env = \<lparr> se_codec = plain_codec, se_uuid = ''u'', se_now_ms = 5, se_sha256 = (\<lambda>_. []),
     se_auth_tokens = Inl ''none'' \<rparr>"

definition sample_waiting :: pending_request where
  "sample_waiting = \<lparr> pr_connection_epoch = 2, pr_method = ''thread/list'', pr_thread_id = None,
     pr_track_thread_active = True, pr_lifecycle_permit = True, pr_response_tx = 3, pr_message = JNull,
     pr_envelopes = [] \<rparr>"

definition sample_working :: remote_client where
  "sample_working = (new_client ''s'')\<lparr>cl_initialized := True, cl_current_thread_id := Some ''th'',
     cl_current_turn_id := Some ''t1'', cl_pending := [(''9'', sample_waiting)]\<rparr>"

definition sample_working_connection :: server_connection where
  "sample_working_connection =
     (sample_connection ''b'' 2 Cli (Some 2))\<lparr>cn_clients := [(''default:cli'', sample_working)]\<rparr>"

definition sample_daemon :: "runtime_state \<Rightarrow> daemon_world" where
  "sample_daemon rs = \<lparr> dw_remote = \<lparr> rw_inner = remote_inner_new\<lparr>ri_connections :=
         [(''b'', sample_working_connection)], ri_next_connection_epoch := 2\<rparr>,
       rw_open_channels = {2}, rw_sent = [], rw_responses = [], rw_next_request_id = 10,
       rw_next_subscribe_cursor_id = 1 \<rparr>,
     dw_runtime = rs, dw_thread_bindings = [], dw_events = [], dw_notifications = [], dw_spawned = [] \<rparr>"

lemma sample_daemon_ok: "world_ok (dw_remote (sample_daemon rs))"
  by (simp add: sample_daemon_def remote_ok_def remote_inner_new_def epochs_def hwf_def connection_ok_def
      sample_working_connection_def sample_connection_def clients_ok_def sample_working_def new_client_def client_ok_def
      u64_max_def image_iff)
    (metis source_default_client_key.simps(3))

lemma sample_daemon_connection:
  "connection_for_epoch_locked (dw_inner (sample_daemon rs)) 2 = Some sample_working_connection"
  by (simp add: sample_daemon_def connection_for_epoch_locked_def sample_working_connection_def sample_connection_def)

lemma sample_daemon_owner:
  "owns_stream sample_working_connection MOCHIPORT_BRIDGE_CLIENT_ID ''s'' ''default:cli'' sample_working"
proof -
  have "normalize_remote_client_key ''default:cli'' = ''default:cli''" "trim ''default:cli'' \<noteq> []" by code_simp+
  then show ?thesis
    by (auto simp: owns_stream_def sample_working_connection_def sample_working_def new_client_def client_key_on_def
        DEFAULT_REMOTE_CLIENT_KEY_def)
qed

theorem request_answered_once_witness:
  "rw_responses (dw_remote (observe_app_server_message sample_server_env 2 MOCHIPORT_BRIDGE_CLIENT_ID ''s''
     (JObj [(''id'', JStr ''9''), (''result'', JBool True)]) (sample_daemon runtime_default))) = [(3, Inr (JBool True))]"
proof -
  let ?message = "JObj [(''id'', JStr ''9''), (''result'', JBool True)]"
  let ?world' = "observe_app_server_message sample_server_env 2 MOCHIPORT_BRIDGE_CLIENT_ID ''s'' ?message
    (sample_daemon runtime_default)"
  have message: "unwrap_or (jget ''message'' ?message) ?message = ?message" by (simp add: unwrap_or_simps)
  have "jget ''id'' (unwrap_or (jget ''message'' ?message) ?message) = Some (JStr ''9'')"
    "jget_str ''method'' (unwrap_or (jget ''message'' ?message) ?message) = None"
    unfolding message by simp_all
  note answered = request_answered_once[OF sample_daemon_ok sample_daemon_connection sample_daemon_owner this refl refl,
      of sample_server_env runtime_default, unfolded message]
  have "request_id_key (co_display (se_codec sample_server_env)) (JStr ''9'') = ''9''"
    by (simp add: request_id_key_def unwrap_or_simps)
  moreover have "hget (cl_pending sample_working) ''9'' = Some sample_waiting"
    by (simp add: sample_working_def new_client_def)
  moreover have "response_outcome d ?message = Inr (JBool True)" for d
    by (simp add: response_outcome_def unwrap_or_simps)
  moreover have "rw_responses (dw_remote (sample_daemon runtime_default)) = []" "pr_response_tx sample_waiting = 3"
    by (simp_all add: sample_daemon_def sample_waiting_def)
  ultimately show ?thesis using answered by (simp only: option.case append_Nil)
qed

end
