(* ===== verification/RcDaemon.thy ===== *)
theory RcDaemon
  imports RcAnswers
begin

section \<open>The backend and the messaging runtime together\<close>

text \<open>
  What the messages of the app server do across the two components: which of them are broadcast, how the
  end of a turn cancels its fallback, and that the worker keeps the invariants of both states.
\<close>

subsection \<open>Effects on the runtime and the broadcast\<close>


lemma quiet_notifications: "quiet world world' \<Longrightarrow> dw_notifications world' = dw_notifications world"
  by (simp add: quiet_def)

lemma broadcast_frame [simp]:
  "dw_notifications (broadcast n world) = dw_notifications world @ [n]"
  "dw_runtime (broadcast n world) = dw_runtime world" "dw_remote (broadcast n world) = dw_remote world"
  by (simp_all add: broadcast_def)

lemma push_event_frame [simp]:
  "dw_notifications (push_event level kind world) = dw_notifications world"
  "dw_runtime (push_event level kind world) = dw_runtime world"
  "dw_remote (push_event level kind world) = dw_remote world"
  "dw_spawned (push_event level kind world) = dw_spawned world"
  by (simp_all add: push_event_def)

lemma with_runtime_frame [simp]:
  "dw_notifications (snd (with_runtime f world)) = dw_notifications world"
  "dw_remote (snd (with_runtime f world)) = dw_remote world"
  "dw_spawned (snd (with_runtime f world)) = dw_spawned world"
  "dw_runtime (snd (with_runtime f world)) = snd (f (dw_runtime world))"
  "fst (with_runtime f world) = fst (f (dw_runtime world))"
  by (simp_all add: with_runtime_def case_prod_beta)

lemma spawn_frame [simp]:
  "dw_notifications (spawn task world) = dw_notifications world" "dw_runtime (spawn task world) = dw_runtime world"
  "dw_remote (spawn task world) = dw_remote world" "dw_spawned (spawn task world) = dw_spawned world @ [task]"
  by (simp_all add: spawn_def)

lemma cancel_fallback_frame [simp]:
  "dw_notifications (cancel_fallback_at_turn_end method params world) = dw_notifications world"
  "dw_remote (cancel_fallback_at_turn_end method params world) = dw_remote world"
  by (simp_all add: cancel_fallback_at_turn_end_def split: option.split)

lemma status_changed_notifications [simp]:
  "dw_notifications (observe_thread_status_changed e client_key t status world) = dw_notifications world"
proof -
  have "dw_notifications (snd (change_client_at e key (take_turn_of_thread t) world)) = dw_notifications world" for key
    by (rule quiet_notifications[OF quiet_change_client[OF calm_client_ops(2)]])
  then show ?thesis
    by (simp add: observe_thread_status_changed_def Let_def case_prod_beta split: option.split bool.split prod.split)
qed

lemma track_notifications [simp]:
  "dw_notifications (track_notification env e client_key method params world) = dw_notifications world"
proof (cases "method = ''thread/status/changed''")
  case True
  then show ?thesis by (simp add: track_notification_def split: option.split)
next
  case False
  then show ?thesis by (rule quiet_notifications[OF quiet_track])
qed

text \<open>Messages the worker deals with itself and does not pass on.\<close>

definition consumed :: "json option \<Rightarrow> string \<Rightarrow> bool" where
  "consumed request_id method \<longleftrightarrow>
     (case request_id of
        Some _ \<Rightarrow> method = ''account/chatgptAuthTokens/refresh''
      | None \<Rightarrow> method = ''initialized'' \<or> method = ''item/commandExecution/outputDelta'')"

text \<open>What the messaging side sees. A message is broadcast if and only if it has a method, it came on
  the active connection, it is not consumed by the worker itself, and its thread concerns the client (or
  it announces a new thread, or the archiving or deletion of a bound one); it is then broadcast once, at
  the end of the log, with its own parameters and identifier and the connection it came from. So nothing of
  another connection, and no answer, reaches the channels, and messages keep their order.\<close>

theorem broadcast_exactly:
  assumes "m = unwrap_or (jget ''message'' message) message"
    and "client_key = remote_client_key_for_stream_on_connection_locked (dw_inner world) e c s"
  shows "dw_notifications (observe_app_server_message env e c s message world) = dw_notifications world @
    (case jget_str ''method'' m of
       None \<Rightarrow> []
     | Some method \<Rightarrow>
         if is_selected_active_connection_epoch (dw_inner world) e \<and> \<not> consumed (jget ''id'' m) method \<and>
            should_forward_server_notification_to_im (se_sha256 env) client_key method (jget ''params'' m) world
         then [\<lparr> nt_method = method, nt_params = jget ''params'' m, nt_request_id = jget ''id'' m,
                nt_remote_client_key = client_key, nt_remote_connection_epoch = Some e \<rparr>]
         else [])"
proof (cases "jget ''id'' m")
  case None
  note status = quiet_notifications[OF quiet_status_changed]
  show ?thesis
    using None quiet_notifications[OF quiet_initialized]
    by (simp add: observe_app_server_message_def Let_def assms[symmetric] observe_notification_def consumed_def status
        split: option.split)
next
  case (Some request_id)
  show ?thesis
  proof (cases "jget_str ''method'' m")
    case None
    obtain w where "quiet (snd (take_pending e client_key (request_id_key (co_display (se_codec env)) request_id) world)) w"
      "observe_response env e c s client_key request_id m world = respond (fst (take_pending e client_key
         (request_id_key (co_display (se_codec env)) request_id) world)) (response_outcome (co_display (se_codec env)) m) w"
      using response_stages by blast
    moreover have "quiet world (snd (take_pending e client_key pk world))" for pk
      by (auto simp: take_pending_def case_prod_beta calm_client_def client_ok_def quiet_refl
          intro!: quiet_change_client split: option.split)
    ultimately show ?thesis
      using Some None by (simp add: observe_app_server_message_def Let_def assms[symmetric] respond_frame quiet_notifications)
  next
    case named: (Some m)
    show ?thesis
      using Some named quiet_notifications[OF quiet_auth_refresh]
      by (simp add: observe_app_server_message_def Let_def assms[symmetric] observe_server_request_def consumed_def)
  qed
qed

definition sample_turn_end :: json where
  "sample_turn_end = JObj [(''method'', JStr ''turn/completed''),
     (''params'', JObj [(''threadId'', JStr ''th''), (''turn'', JObj [(''id'', JStr ''t1'')])])]"

lemma sample_turn_end_fields:
  "unwrap_or (jget ''message'' sample_turn_end) sample_turn_end = sample_turn_end"
  "jget ''id'' sample_turn_end = None" "jget_str ''method'' sample_turn_end = Some ''turn/completed''"
  "jget ''params'' sample_turn_end =
     Some (JObj [(''threadId'', JStr ''th''), (''turn'', JObj [(''id'', JStr ''t1'')])])"
  "Option.bind (jget ''params'' sample_turn_end) thread_id_from_payload = Some ''th''"
  "Option.bind (jget ''params'' sample_turn_end) turn_id_from_payload = Some ''t1''"
  by (simp_all add: sample_turn_end_def unwrap_or_simps thread_id_from_payload_def turn_id_from_payload_def
      opt_or_simps jpath_str_def)

lemma sample_daemon_selected: "is_selected_active_connection_epoch (dw_inner (sample_daemon rs)) 2"
  by (simp add: is_selected_active_connection_epoch_def select_active_connection_id_locked_def sample_daemon_def
      remote_inner_new_def usable_def sample_working_connection_def sample_connection_def)

lemma sample_daemon_key:
  "remote_client_key_for_stream_on_connection_locked (dw_inner (sample_daemon rs)) 2 MOCHIPORT_BRIDGE_CLIENT_ID ''s''
     = Some ''default:cli''"
  by (rule stream_key_found[OF sample_daemon_connection sample_daemon_owner])

lemma sample_daemon_forwards:
  "should_forward_server_notification_to_im sha256 (Some ''default:cli'') ''turn/completed''
     (jget ''params'' sample_turn_end) (sample_daemon rs)"
proof -
  have norm: "normalize_remote_client_key ''default:cli'' = ''default:cli''" "trim ''default:cli'' \<noteq> []"
    by code_simp+
  have "connection_epoch_for_client_key_locked (dw_inner (sample_daemon rs)) ''default:cli'' = Some 2"
    by (simp add: connection_epoch_for_client_key_locked_def DEFAULT_REMOTE_CLIENT_KEY_def is_legacy_default_client_key_def
        starts_with_def sample_daemon_def remote_inner_new_def serves_default_key_def sample_working_connection_def
        sample_connection_def connection_initialized_def sample_working_def)
  moreover have "resolve_remote_client_key_for_connection_locked (dw_inner (sample_daemon rs)) 2 ''default:cli'' = ''default:cli''"
    by (simp add: resolve_remote_client_key_for_connection_locked_def norm source_kind_from_default_client_key_def
        default_client_key_for_connection_locked_def sample_daemon_connection unwrap_or_simps
        sample_working_connection_def sample_connection_def)
  moreover have "client_state_for_connection_locked (dw_inner (sample_daemon rs)) 2 ''default:cli'' = Some sample_working"
    using sample_daemon_owner by (simp add: client_state_for_connection_locked_def sample_daemon_connection owns_stream_def)
  ultimately have "should_track_notification_thread_for_client (Some ''default:cli'') ''th'' (sample_daemon rs)"
    by (simp add: should_track_notification_thread_for_client_def norm client_works_on_def sample_working_def Let_def)
  then show ?thesis
    by (simp add: should_forward_server_notification_to_im_def sample_turn_end_fields(5))
qed

theorem broadcast_exactly_witness:
  "map nt_method (dw_notifications (observe_app_server_message sample_server_env 2 MOCHIPORT_BRIDGE_CLIENT_ID ''s''
     sample_turn_end (sample_daemon runtime_default))) = [''turn/completed'']"
proof -
  have "dw_notifications (sample_daemon runtime_default) = []" by (simp add: sample_daemon_def)
  then show ?thesis
    using broadcast_exactly[OF sample_turn_end_fields(1)[symmetric] sample_daemon_key[symmetric],
        of sample_server_env runtime_default] sample_daemon_forwards[of "se_sha256 sample_server_env" runtime_default]
    by (simp add: sample_turn_end_fields(2,3) sample_daemon_selected consumed_def)
qed

subsection \<open>The end of a turn and its fallback\<close>








subsection \<open>Turns whose end is lost\<close>

lemma register_fresh:
  assumes "current_turn_id t rs = Some u" and "hget (terminal_status_fallback_by_thread rs) t = None"
  shows "\<exists>token rs'. register_terminal_status_fallback_token t u rs = (Some (token, True), rs') \<and>
    current_turn_by_thread rs' = current_turn_by_thread rs \<and>
    terminal_status_fallback_matches_token t u token rs'"
  using assms by (auto simp: register_terminal_status_fallback_token_def next_fallback_token_def Let_def
      put_fallback_def terminal_status_fallback_matches_token_def)

lemma cleanup_completes:
  assumes "current_turn_id t (dw_runtime world) = Some u"
    and "terminal_status_fallback_matches_token t u token (dw_runtime world)"
  shows "\<not> turn_in_progress t (dw_runtime (run_orphaned_turn_cleanup now t u token world))"
proof -
  define rs where "rs = (dw_runtime world)\<lparr>terminal_status_fallback_by_thread :=
      hremove t (terminal_status_fallback_by_thread (dw_runtime world))\<rparr>"
  have claim: "claim_terminal_status_fallback t u token (dw_runtime world) = (True, rs)"
    using assms by (simp add: claim_terminal_status_fallback_def rs_def)
  have "mark_turn_completed t (Some u) now rs = (True, complete_accepted_turn t (Some u) now rs)"
    using assms(1) by (simp add: mark_turn_completed_def rs_def current_turn_id_def)
  then have "dw_runtime (run_orphaned_turn_cleanup now t u token world) = complete_accepted_turn t (Some u) now rs"
    by (simp add: run_orphaned_turn_cleanup_def with_runtime_def claim)
  then show ?thesis by (simp add: turn_in_progress_def complete_accepted_turn_maps)
qed

lemma change_client_at_found:
  assumes "connection_for_epoch_locked (dw_inner world) e = Some connection"
    and "hget (cn_clients connection) (client_key_on connection key) = Some client"
    and "change client = (result, client')"
  shows "\<exists>world'. change_client_at e key change world = (Some result, world') \<and>
    dw_runtime world' = dw_runtime world \<and> dw_spawned world' = dw_spawned world \<and>
    client_state_for_connection_locked (dw_inner world') e key = Some client'"
  using assms by (simp add: change_client_at_def with_remote_def with_inner_def
      client_state_mut_for_connection_locked_def client_state_for_connection_locked_def connection_after_change
      change_client_def client_key_on_def)

lemma hinsert_same: "hget m k = Some v \<Longrightarrow> hinsert k v m = m"
  by (induction m) (auto split: if_splits)

lemma update_first_same:
  "List.find P (map snd m) = Some x \<Longrightarrow> change x = x \<Longrightarrow>
     update_first (\<lambda>(_, x). P x) (\<lambda>(k, x). (k, change x)) m = m"
  by (induction m) (auto split: if_splits)

lemma connection_change_same:
  "connection_for_epoch_locked remote e = Some connection \<Longrightarrow> change connection = connection \<Longrightarrow>
     connection_for_epoch_mut_locked e change remote = remote"
  using update_first_same[of "\<lambda>c. cn_connection_epoch c = e" "ri_connections remote" connection change]
  by (simp add: connection_for_epoch_locked_def connection_for_epoch_mut_locked_def)

lemma change_client_at_same:
  assumes "client_state_for_connection_locked (dw_inner world) e key = Some client"
    and "change client = (result, client)"
  shows "change_client_at e key change world = (Some result, world)"
proof -
  obtain connection where c: "connection_for_epoch_locked (dw_inner world) e = Some connection"
    "hget (cn_clients connection) (client_key_on connection key) = Some client"
    using assms(1) by (auto simp: client_state_for_connection_locked_def split: Option.bind_splits)
  have "change_client (client_key_on connection key) client connection = connection"
    by (simp add: change_client_def hinsert_same[OF c(2)])
  then have "connection_for_epoch_mut_locked e (change_client (client_key_on connection key) client) (dw_inner world)
      = dw_inner world"
    by (rule connection_change_same[OF c(1)])
  then show ?thesis
    using c assms(2) by (simp add: change_client_at_def with_remote_def with_inner_def
        client_state_mut_for_connection_locked_def)
qed

text \<open>C19. A turn whose end never arrives is ended once. When a thread becomes idle while its client still
  works on a turn that is current in the runtime and has no fallback yet, the client's turn is cleared and
  exactly one clean-up is spawned; a repetition of the status then changes nothing. If the clean-up wakes in
  a state where the turn is still the thread's current one and its fallback was not cancelled, whatever
  else happened in between, the turn is completed and the thread is free for the next.\<close>

theorem lost_turn_end_recovered:
  assumes "is_terminal_or_inactive_thread_status status"
    and "connection_for_epoch_locked (dw_inner world) e = Some connection"
    and "hget (cn_clients connection) (client_key_on connection (normalize_remote_client_key key)) = Some client"
    and "cl_current_thread_id client = Some t" and "cl_current_turn_id client = Some u"
    and "current_turn_id t (dw_runtime world) = Some u"
    and "hget (terminal_status_fallback_by_thread (dw_runtime world)) t = None"
    and "world' = observe_thread_status_changed e (Some key) t status world"
  shows "\<exists>token. dw_spawned world' = dw_spawned world @ [OrphanedTurnCleanup t u token] \<and>
    observe_thread_status_changed e (Some key) t status world' = world' \<and>
    (\<forall>later now. current_turn_id t (dw_runtime later) = Some u \<longrightarrow>
       hget (terminal_status_fallback_by_thread (dw_runtime later)) t =
         hget (terminal_status_fallback_by_thread (dw_runtime world')) t \<longrightarrow>
       \<not> turn_in_progress t (dw_runtime (run_orphaned_turn_cleanup now t u token later)))"
proof -
  let ?norm = "normalize_remote_client_key key"
  obtain w1 where w1: "change_client_at e ?norm (take_turn_of_thread t) world = (Some (Some u), w1)"
    "dw_runtime w1 = dw_runtime world" "dw_spawned w1 = dw_spawned world"
    "client_state_for_connection_locked (dw_inner w1) e ?norm = Some (client\<lparr>cl_current_turn_id := None\<rparr>)"
    using change_client_at_found[OF assms(2,3), of "take_turn_of_thread t" "Some u"] assms(4,5)
    by (auto simp: take_turn_of_thread_def)
  obtain token rs where reg: "register_terminal_status_fallback_token t u (dw_runtime world) = (Some (token, True), rs)"
    "terminal_status_fallback_matches_token t u token rs"
    using register_fresh[OF assms(6,7)] by blast
  have run: "world' = push_event ''warn'' ''remote_control_thread_status_cleared_current_turn''
      (spawn (OrphanedTurnCleanup t u token) (w1\<lparr>dw_runtime := rs\<rparr>))"
    using assms(1,8) w1(1,2) reg(1) by (simp add: observe_thread_status_changed_def with_runtime_def)
  have "change_client_at e ?norm (take_turn_of_thread t) world' = (Some None, world')"
    by (rule change_client_at_same[of _ _ _ "client\<lparr>cl_current_turn_id := None\<rparr>"])
      (simp_all add: run w1(4) take_turn_of_thread_def)
  then have again: "observe_thread_status_changed e (Some key) t status world' = world'"
    using assms(1) by (simp add: observe_thread_status_changed_def)
  have "\<not> turn_in_progress t (dw_runtime (run_orphaned_turn_cleanup now t u token later))"
    if "current_turn_id t (dw_runtime later) = Some u" "hget (terminal_status_fallback_by_thread (dw_runtime later)) t =
      hget (terminal_status_fallback_by_thread (dw_runtime world')) t" for later now
    using that reg(2) by (intro cleanup_completes) (simp_all add: terminal_status_fallback_matches_token_def run)
  then show ?thesis using again by (auto simp: run w1(3))
qed

theorem lost_turn_end_recovered_witness:
  "\<exists>token. dw_spawned (observe_thread_status_changed 2 (Some ''default:cli'') ''th'' ''idle''
     (sample_daemon (mark_turn_started ''th'' ''t1'' 5 runtime_default))) = [OrphanedTurnCleanup ''th'' ''t1'' token]"
proof -
  let ?rs = "mark_turn_started ''th'' ''t1'' 5 runtime_default"
  have "normalize_remote_client_key ''default:cli'' = ''default:cli''" by code_simp
  then have client: "hget (cn_clients sample_working_connection)
      (client_key_on sample_working_connection (normalize_remote_client_key ''default:cli'')) = Some sample_working"
    using sample_daemon_owner by (simp add: owns_stream_def)
  have idle: "is_terminal_or_inactive_thread_status ''idle''" by (simp add: is_terminal_or_inactive_thread_status_def)
  have working: "cl_current_thread_id sample_working = Some ''th''" "cl_current_turn_id sample_working = Some ''t1''"
    by (simp_all add: sample_working_def)
  have "current_turn_id ''th'' (dw_runtime (sample_daemon ?rs)) = Some ''t1''"
    "hget (terminal_status_fallback_by_thread (dw_runtime (sample_daemon ?rs))) ''th'' = None"
    "dw_spawned (sample_daemon ?rs) = []"
    by (simp_all add: sample_daemon_def mark_turn_started_def current_turn_id_def runtime_default_def Let_def)
  with lost_turn_end_recovered[OF idle sample_daemon_connection client working _ _ refl, of ?rs] show ?thesis
    by simp blast
qed

subsection \<open>Steps of the daemon\<close>

text \<open>The worker, the delayed clean-up, the request interface, and every step of the two components.\<close>

inductive daemon_step :: "(json \<Rightarrow> string) \<Rightarrow> daemon_world \<Rightarrow> daemon_world \<Rightarrow> bool" for display where
  worked: "daemon_step display w (run_work_item env item w)"
| cleaned: "daemon_step display w (run_orphaned_turn_cleanup now t u token w)"
| marked: "daemon_step display w (mark_thread_active_for_client uuid client_key t w)"
| turn_cleared: "daemon_step display w (w\<lparr>dw_remote := change_inner (clear_turn_for_client key turn_id) (dw_remote w)\<rparr>)"
| thread_cleared: "daemon_step display w (w\<lparr>dw_remote := change_inner (clear_thread_for_client key t) (dw_remote w)\<rparr>)"
| backend: "remote_step (dw_remote w) remote \<Longrightarrow> daemon_step display w (w\<lparr>dw_remote := remote\<rparr>)"
| runtime: "runtime_step display (dw_runtime w) rs \<Longrightarrow> daemon_step display w (w\<lparr>dw_runtime := rs\<rparr>)"
| bindings: "daemon_step display w (w\<lparr>dw_thread_bindings := b\<rparr>)"

definition daemon_ok :: "(json \<Rightarrow> string) \<Rightarrow> daemon_world \<Rightarrow> bool" where
  "daemon_ok display w \<longleftrightarrow> runtime_reachable display (dw_runtime w) \<and> world_ok (dw_remote w)"

lemma daemon_ok_quiet: "quiet w w' \<Longrightarrow> daemon_ok display w \<Longrightarrow> daemon_ok display w'"
  by (auto simp: daemon_ok_def quiet_def calm_def)

lemma daemon_ok_frames [simp]:
  "daemon_ok display (push_event level kind w) = daemon_ok display w"
  "daemon_ok display (broadcast n w) = daemon_ok display w"
  "daemon_ok display (spawn task w) = daemon_ok display w"
  "daemon_ok display (respond pending outcome w) = daemon_ok display w"
  by (simp_all add: daemon_ok_def respond_frame)

lemma daemon_ok_runtime:
  assumes "daemon_ok display w"
    and "snd (f (dw_runtime w)) = dw_runtime w \<or> turn_step (dw_runtime w) (snd (f (dw_runtime w)))"
  shows "daemon_ok display (snd (with_runtime f w))"
proof -
  have reach: "runtime_reachable display (dw_runtime w)" using assms(1) by (simp add: daemon_ok_def)
  have "runtime_reachable display (snd (f (dw_runtime w)))"
    using assms(2) reach reachable_step[OF reach runtime_step.turn] by (elim disjE) simp_all
  then show ?thesis using assms(1) by (simp add: daemon_ok_def)
qed

lemma daemon_ok_cancel:
  assumes "daemon_ok display w"
  shows "daemon_ok display (cancel_fallback_at_turn_end method params w)"
  unfolding cancel_fallback_at_turn_end_def using assms
  by (auto intro!: daemon_ok_runtime turn_step.fallback_cancelled split: option.split)

lemma daemon_ok_status:
  assumes "daemon_ok display w"
  shows "daemon_ok display (observe_thread_status_changed e client_key t status w)"
proof -
  have taken: "daemon_ok display (snd (change_client_at e key (take_turn_of_thread t) w))" for key
    by (rule daemon_ok_quiet[OF quiet_change_client[OF calm_client_ops(2)] assms])
  have "daemon_ok display (snd (with_runtime (register_terminal_status_fallback_token t u) w'))"
    if "daemon_ok display w'" for w' u
    by (rule daemon_ok_runtime[OF that]) (rule disjI2, rule turn_step.fallback_registered)
  then show ?thesis
    using assms taken
    by (simp add: observe_thread_status_changed_def Let_def case_prod_beta split: option.split bool.split prod.split)
qed

lemma daemon_ok_track:
  "daemon_ok display w \<Longrightarrow> daemon_ok display (track_notification env e client_key method params w)"
  using daemon_ok_quiet[OF quiet_track] daemon_ok_status
  by (cases "method = ''thread/status/changed''") (auto simp: track_notification_def split: option.split)

lemma daemon_ok_notification:
  assumes "daemon_ok display w"
  shows "daemon_ok display (observe_notification env e client_key selected method m w)"
  using assms daemon_ok_quiet[OF quiet_initialized]
  by (auto simp: observe_notification_def Let_def intro!: daemon_ok_track daemon_ok_quiet[OF quiet_status_changed]
      daemon_ok_cancel)

lemma daemon_ok_response:
  assumes "daemon_ok display w"
  shows "daemon_ok display (observe_response env e c s client_key request_id m w)"
proof -
  have "quiet w (snd (take_pending e client_key pk w))" for pk
    by (auto simp: take_pending_def case_prod_beta calm_client_def client_ok_def quiet_refl
        intro!: quiet_change_client split: option.split)
  then show ?thesis
    using response_stages[of e client_key env request_id w c s m] daemon_ok_quiet[OF quiet_trans] assms
    by fastforce
qed

lemma daemon_ok_pong:
  assumes "daemon_ok display w"
  shows "daemon_ok display (handle_remote_app_pong_after_ack env e c s status reinit w)"
proof -
  have "daemon_ok display (start_remote_control_client_recovery env e key c s w')" if "daemon_ok display w'" for key w'
  proof -
    have "daemon_ok display (snd (with_remote (with_inner (begin_client_recovery (se_uuid env) (se_now_ms env) e key c s)) w'))"
      using that remote_ok_begin_recovery
      by (simp add: daemon_ok_def with_remote_def with_inner_def case_prod_beta)
    then show ?thesis
      by (auto simp: start_remote_control_client_recovery_def case_prod_beta split: option.split prod.split bool.split)
  qed
  then show ?thesis using assms by (simp add: handle_remote_app_pong_after_ack_def Let_def split: option.split)
qed

lemma daemon_ok_work: "daemon_ok display w \<Longrightarrow> daemon_ok display (run_work_item env item w)"
  using daemon_ok_quiet[OF quiet_auth_refresh]
  by (cases item) (auto simp: observe_app_server_message_def observe_server_request_def Let_def
      intro!: daemon_ok_response daemon_ok_notification daemon_ok_pong split: option.split)

lemma daemon_ok_cleanup:
  assumes "daemon_ok display w"
  shows "daemon_ok display (run_orphaned_turn_cleanup now t u token w)"
proof -
  have "runtime_reachable display (snd (let (claimed, rs) = claim_terminal_status_fallback t u token rs
      in if claimed then mark_turn_completed t (Some u) now rs else (False, rs)))"
    if "runtime_reachable display rs" for rs
  proof -
    have "runtime_reachable display (snd (claim_terminal_status_fallback t u token rs))"
      by (rule reachable_step[OF that runtime_step.turn[OF turn_step.fallback_claimed]])
    moreover from this have "runtime_reachable display (snd (mark_turn_completed t (Some u) now
        (snd (claim_terminal_status_fallback t u token rs))))"
      by (rule reachable_step[OF _ runtime_step.turn[OF turn_step.turn_completed]])
    ultimately show ?thesis by (simp add: case_prod_beta)
  qed
  then have "daemon_ok display (snd (with_runtime (\<lambda>rs. let (claimed, rs) = claim_terminal_status_fallback t u token rs
      in if claimed then mark_turn_completed t (Some u) now rs else (False, rs)) w))"
    using assms by (simp add: daemon_ok_def)
  then show ?thesis by (simp add: run_orphaned_turn_cleanup_def case_prod_beta Let_def)
qed

lemma remote_ok_clear:
  "remote_ok remote \<Longrightarrow> remote_ok (clear_turn_for_client key turn_id remote)"
  "remote_ok remote \<Longrightarrow> remote_ok (clear_thread_for_client key t remote)"
  by (auto simp: clear_turn_for_client_def clear_thread_for_client_def change_client_for_key_def Let_def client_ok_def
      intro!: remote_ok_client_mut split: option.split)

lemma daemon_step_ok: "daemon_step display w w' \<Longrightarrow> daemon_ok display w \<Longrightarrow> daemon_ok display w'"
proof (induction rule: daemon_step.induct)
  case (marked w uuid client_key t)
  then show ?case using daemon_ok_quiet[OF quiet_mark(1)] by blast
next
  case (backend w remote)
  then show ?case using remote_step_ok by (simp add: daemon_ok_def)
next
  case (runtime w rs)
  then show ?case using reachable_step[of display "dw_runtime w" rs] by (simp add: daemon_ok_def)
qed (simp_all add: daemon_ok_work daemon_ok_cleanup, simp_all add: daemon_ok_def change_inner_def remote_ok_clear)

definition daemon_new :: daemon_world where
  "daemon_new = \<lparr> dw_remote = world_new, dw_runtime = runtime_default, dw_thread_bindings = [], dw_events = [],
     dw_notifications = [], dw_spawned = [] \<rparr>"

end
