(* ===== verification/RcRequests.thy ===== *)
theory RcRequests
  imports RcDaemon
begin

section \<open>Requests to the app server (src/src/remote_control_backend/session_api.rs)\<close>

text \<open>
  A request is admitted by the lifecycle gate, waits until its client is initialized, is registered as
  pending and sent, and waits for its answer. While a request waits, other tasks run: a polling loop takes
  the list of what they do between its polls (as many as fit into its time limit), and the wait for the
  answer takes what they do until it ends. A request that failed because its client was reinitialized is
  repeated once when repeating it is harmless.
\<close>

subsection \<open>Errors and environment\<close>

datatype request_error =
    AnswerError string
  | ResponseChannelClosed
  | RequestTimedOut
  | RequestDraining
  | RequestNotConnected
  | ConnectionNotReady
  | ConnectionStale string
  | ConnectionGone
  | ClientNotInitialized
  | DisconnectedDuringInitialize
  | InitializeIncomplete
  | RequestSendFailed outbound_error
  | NotReplayed string

text \<open>\<open>err.to_string().contains(REMOTE_CONTROL_CLIENT_REINITIALIZED_ERROR)\<close>: of the errors only the text of
  an answer can hold this message.\<close>

fun reinitialized_error :: "request_error \<Rightarrow> bool" where
  "reinitialized_error (AnswerError message) = contains CLIENT_REINITIALIZED_ERROR message"
| "reinitialized_error _ = False"

type_synonym others = "daemon_world \<Rightarrow> daemon_world"

record request_env =
  rq_codec :: codec
  rq_version :: string
  rq_uuid :: string
  rq_now_ms :: nat
  rq_admitted :: bool
  rq_initialize_admitted :: bool
  rq_recovery_polls :: "others list"
  rq_ready_polls :: "others list"
  rq_until_answer :: others

definition lift_error :: "('e \<Rightarrow> 'f) \<Rightarrow> ('e + 'a) \<times> 's \<Rightarrow> ('f + 'a) \<times> 's" where
  "lift_error f outcome =
     (case outcome of (Inl err, world) \<Rightarrow> (Inl (f err), world) | (Inr value, world) \<Rightarrow> (Inr value, world))"

subsection \<open>Waiting for a client\<close>

text \<open>A loop that checks the state, ends at its time limit, and sleeps between two checks.\<close>

fun poll_until :: "(remote_inner \<Rightarrow> 'r option) \<Rightarrow> others list \<Rightarrow> daemon_world \<Rightarrow> 'r option \<times> daemon_world" where
  "poll_until check [] world = (check (dw_inner world), world)"
| "poll_until check (meanwhile # later) world =
     (case check (dw_inner world) of
        Some result \<Rightarrow> (Some result, world)
      | None \<Rightarrow> poll_until check later (meanwhile world))"

definition initialized_check :: "string \<Rightarrow> remote_inner \<Rightarrow> (request_error + unit) option" where
  "initialized_check client_key remote =
     (case connection_epoch_for_client_key_locked remote client_key of
        None \<Rightarrow> Some (Inl DisconnectedDuringInitialize)
      | Some connection_epoch \<Rightarrow>
          (let resolved_client_key = resolve_remote_client_key_for_connection_locked remote connection_epoch client_key
           in case connection_for_epoch_locked remote connection_epoch of
                None \<Rightarrow> Some (Inl DisconnectedDuringInitialize)
              | Some connection \<Rightarrow>
                  if cn_connected connection \<and> connection_initialized connection \<and>
                     (case hget (cn_clients connection) resolved_client_key of
                        None \<Rightarrow> False | Some client \<Rightarrow> cl_initialized client)
                  then Some (Inr ())
                  else if \<not> cn_connected connection then Some (Inl DisconnectedDuringInitialize)
                  else None))"

definition wait_for_remote_control_initialized ::
  "others list \<Rightarrow> string \<Rightarrow> daemon_world \<Rightarrow> (request_error + unit) \<times> daemon_world" where
  "wait_for_remote_control_initialized polls client_key world =
     (case poll_until (initialized_check (normalize_remote_client_key client_key)) polls world of
        (Some result, world) \<Rightarrow> (result, world)
      | (None, world) \<Rightarrow> (Inl InitializeIncomplete, world))"

definition initialized_on_connection_check ::
  "nat \<Rightarrow> string \<Rightarrow> remote_inner \<Rightarrow> (request_error + string) option" where
  "initialized_on_connection_check connection_epoch requested_client_key remote =
     (case connection_for_epoch_locked remote connection_epoch of
        None \<Rightarrow> Some (Inl DisconnectedDuringInitialize)
      | Some connection \<Rightarrow>
          if \<not> cn_connected connection \<or> cn_outbound_tx connection = None
          then Some (Inl DisconnectedDuringInitialize)
          else
            (let resolved_client_key = resolve_remote_client_key_for_connection_locked remote connection_epoch
                   requested_client_key
             in case client_state_for_connection_locked remote connection_epoch resolved_client_key of
                  None \<Rightarrow> None
                | Some client \<Rightarrow> if cl_initialized client then Some (Inr resolved_client_key) else None))"

definition wait_for_remote_control_initialized_on_connection ::
  "others list \<Rightarrow> nat \<Rightarrow> string \<Rightarrow> daemon_world \<Rightarrow> (request_error + string) \<times> daemon_world" where
  "wait_for_remote_control_initialized_on_connection polls connection_epoch client_key world =
     (case poll_until (initialized_on_connection_check connection_epoch (normalize_remote_client_key client_key))
             polls world of
        (Some result, world) \<Rightarrow> (result, world)
      | (None, world) \<Rightarrow> (Inl InitializeIncomplete, world))"

definition wait_for_recovery_if_needed ::
  "others list \<Rightarrow> string \<Rightarrow> daemon_world \<Rightarrow> (request_error + unit) \<times> daemon_world" where
  "wait_for_recovery_if_needed polls client_key world =
     (let client_key = normalize_remote_client_key client_key;
          remote = dw_inner world;
          recovering = (case Option.bind (connection_epoch_for_client_key_locked remote client_key)
              (\<lambda>connection_epoch. client_state_for_connection_locked remote connection_epoch
                 (resolve_remote_client_key_for_connection_locked remote connection_epoch client_key)) of
            None \<Rightarrow> False | Some client \<Rightarrow> cl_recovery_started_at_ms client \<noteq> None)
      in if recovering then wait_for_remote_control_initialized polls client_key world else (Inr (), world))"

definition ensure_initialized ::
  "request_env \<Rightarrow> nat \<Rightarrow> string \<Rightarrow> daemon_world \<Rightarrow> (request_error + unit) \<times> daemon_world" where
  "ensure_initialized env connection_epoch client_key world =
     lift_error RequestSendFailed (with_remote (ensure_remote_control_client_initialized (rq_codec env) (rq_version env)
       (rq_uuid env) (rq_now_ms env) (rq_initialize_admitted env) connection_epoch client_key) world)"

definition ensure_remote_control_client_ready ::
  "request_env \<Rightarrow> string \<Rightarrow> daemon_world \<Rightarrow> (request_error + unit) \<times> daemon_world" where
  "ensure_remote_control_client_ready env client_key world =
     (let requested_client_key = normalize_remote_client_key client_key
      in case connection_epoch_for_client_key_locked (dw_inner world) requested_client_key of
           None \<Rightarrow> (Inl RequestNotConnected, world)
         | Some connection_epoch \<Rightarrow>
             (let resolved_client_key = resolve_remote_client_key_for_connection_locked (dw_inner world)
                    connection_epoch requested_client_key
              in and_then (ensure_initialized env connection_epoch resolved_client_key world)
                   (\<lambda>_. wait_for_remote_control_initialized (rq_ready_polls env) resolved_client_key)))"

subsection \<open>One request\<close>

text \<open>The locked section that registers the request.\<close>

definition register_request ::
  "codec \<Rightarrow> string \<Rightarrow> nat \<Rightarrow> nat option \<Rightarrow> bool \<Rightarrow> string \<Rightarrow> nat \<Rightarrow> string \<Rightarrow> string option \<Rightarrow> json \<Rightarrow> string
     \<Rightarrow> remote_inner \<Rightarrow> (request_error + nat \<times> json list) \<times> remote_inner" where
  "register_request codec uuid now_ms target track client_key request_id method thread_id message cursor remote =
     (case (case target of
              Some connection_epoch \<Rightarrow>
                if connection_exists_locked remote connection_epoch then Some connection_epoch else None
            | None \<Rightarrow> connection_epoch_for_client_key_locked remote client_key) of
        None \<Rightarrow> (Inl RequestNotConnected, remote)
      | Some connection_epoch \<Rightarrow>
          (case connection_for_epoch_locked remote connection_epoch of
             None \<Rightarrow> (Inl ConnectionNotReady, remote)
           | Some connection \<Rightarrow>
               if \<not> cn_connected connection \<or> cn_outbound_tx connection = None then (Inl ConnectionNotReady, remote)
               else case remote_control_connection_stale_reason_locked remote connection_epoch now_ms of
                 Some (_, reason) \<Rightarrow>
                   (Inl (ConnectionStale reason), connection_for_epoch_mut_locked connection_epoch
                      (\<lambda>connection. connection\<lparr>cn_last_error := Some reason\<rparr>) remote)
               | None \<Rightarrow>
                   (let (registered, remote) = ensure_client_state_for_connection_locked uuid connection_epoch client_key
                      (\<lambda>client.
                         if \<not> cl_initialized client then (Inl ClientNotInitialized, client)
                         else
                           (let (seq_id, client) = take_seq_id client
                            in case build_on codec (cl_client_id client) (cl_stream_id client) seq_id message cursor of
                                 Inl err \<Rightarrow> (Inl (RequestSendFailed err), client)
                               | Inr envelopes \<Rightarrow>
                                   (Inr (connection_epoch, envelopes),
                                    client\<lparr>cl_pending := hinsert (show_nat request_id)
                                      \<lparr> pr_connection_epoch = connection_epoch, pr_method = method,
                                        pr_thread_id = thread_id, pr_track_thread_active = track,
                                        pr_lifecycle_permit = True, pr_response_tx = request_id,
                                        pr_message = message, pr_envelopes = envelopes \<rparr>
                                      (cl_pending client)\<rparr>))) remote
                    in (try_bind (ok_or ConnectionGone registered) (\<lambda>outcome. outcome), remote))))"

definition forget_request :: "nat \<Rightarrow> string \<Rightarrow> nat \<Rightarrow> daemon_world \<Rightarrow> daemon_world" where
  "forget_request connection_epoch client_key request_id world =
     world\<lparr>dw_remote := change_inner (forget_pending connection_epoch client_key (show_nat request_id)) (dw_remote world)\<rparr>"

text \<open>The oneshot channel of the request: its answer, if one was sent, and whether its sender still exists.\<close>

definition answer_of :: "nat \<Rightarrow> remote_world \<Rightarrow> (string + json) option" where
  "answer_of request_id world = map_option snd (List.find (\<lambda>(tx, _). tx = request_id) (rw_responses world))"

definition sender_alive :: "nat \<Rightarrow> remote_inner \<Rightarrow> bool" where
  "sender_alive request_id remote \<longleftrightarrow>
     list_ex (\<lambda>(_, connection). list_ex (\<lambda>(_, client).
        list_ex (\<lambda>(_, pending). pr_response_tx pending = request_id) (cl_pending client)) (cn_clients connection))
       (ri_connections remote)"

definition await_answer ::
  "nat \<Rightarrow> string \<Rightarrow> nat \<Rightarrow> daemon_world \<Rightarrow> (request_error + json) \<times> daemon_world" where
  "await_answer connection_epoch client_key request_id world =
     (case answer_of request_id (dw_remote world) of
        Some (Inr value) \<Rightarrow> (Inr value, world)
      | Some (Inl message) \<Rightarrow> (Inl (AnswerError message), world)
      | None \<Rightarrow>
          if \<not> sender_alive request_id (dw_inner world) then (Inl ResponseChannelClosed, world)
          else (Inl RequestTimedOut, push_event ''warn'' ''remote_control_request_timeout''
                  (forget_request connection_epoch client_key request_id world)))"

definition send_request ::
  "request_env \<Rightarrow> nat option \<Rightarrow> bool \<Rightarrow> string \<Rightarrow> string \<Rightarrow> json \<Rightarrow> daemon_world
     \<Rightarrow> (request_error + json) \<times> daemon_world" where
  "send_request env target track client_key method params world =
     (let (request_id, world) = with_remote next_request_id world;
          message = build_pending_message method request_id params;
          (cursor, world) = with_remote next_remote_subscribe_cursor world
      in and_then (with_remote (with_inner (register_request (rq_codec env) (rq_uuid env) (rq_now_ms env) target track
             client_key request_id method (jget_str ''threadId'' params) message cursor)) world)
           (\<lambda>(connection_epoch, envelopes) world.
              case with_remote (send_envelopes_on_connection (rq_codec env) (rq_now_ms env) connection_epoch envelopes)
                     world of
                (Inl err, world) \<Rightarrow>
                  (Inl (RequestSendFailed err), forget_request connection_epoch client_key request_id world)
              | (Inr _, world) \<Rightarrow> await_answer connection_epoch client_key request_id (rq_until_answer env world)))"

definition request_once_with_timeout_for_client_inner ::
  "request_env \<Rightarrow> nat option \<Rightarrow> bool \<Rightarrow> bool \<Rightarrow> string \<Rightarrow> string \<Rightarrow> json \<Rightarrow> daemon_world
     \<Rightarrow> (request_error + json) \<times> daemon_world" where
  "request_once_with_timeout_for_client_inner env target wait_for_recovery track client_key method params world =
     (if \<not> rq_admitted env then (Inl RequestDraining, world)
      else
        (let requested_client_key = normalize_remote_client_key client_key;
             client_key = (case target of
                Some connection_epoch \<Rightarrow> resolve_remote_client_key_for_connection_locked (dw_inner world)
                  connection_epoch requested_client_key
              | None \<Rightarrow> resolve_remote_client_key_locked (dw_inner world) requested_client_key)
         in and_then (if wait_for_recovery then wait_for_recovery_if_needed (rq_recovery_polls env) client_key world
                      else (Inr (), world))
              (\<lambda>_ world. and_then
                 (case target of
                    Some connection_epoch \<Rightarrow>
                      and_then (ensure_initialized env connection_epoch client_key world)
                        (\<lambda>_. wait_for_remote_control_initialized_on_connection (rq_ready_polls env)
                               connection_epoch client_key)
                  | None \<Rightarrow>
                      and_then (ensure_remote_control_client_ready env client_key world)
                        (\<lambda>_ world. (Inr client_key, world)))
                 (\<lambda>client_key. send_request env target track client_key method params))))"

definition request_once_with_timeout_for_client ::
  "request_env \<Rightarrow> string \<Rightarrow> string \<Rightarrow> json \<Rightarrow> daemon_world \<Rightarrow> (request_error + json) \<times> daemon_world" where
  "request_once_with_timeout_for_client env client_key method params =
     request_once_with_timeout_for_client_inner env None True True client_key method params"

definition request_once_with_timeout_for_client_on_connection ::
  "request_env \<Rightarrow> nat \<Rightarrow> string \<Rightarrow> string \<Rightarrow> json \<Rightarrow> daemon_world \<Rightarrow> (request_error + json) \<times> daemon_world" where
  "request_once_with_timeout_for_client_on_connection env connection_epoch client_key method params =
     request_once_with_timeout_for_client_inner env (Some connection_epoch) False False client_key method params"

subsection \<open>Repeating a request\<close>

definition should_retry_request_after_reinitialize :: "string \<Rightarrow> bool" where
  "should_retry_request_after_reinitialize method \<longleftrightarrow>
     \<not> (method = ''thread/start'' \<or> method = ''thread/fork'' \<or> method = ''turn/start'' \<or> method = ''turn/steer'')"

text \<open>The loop over attempts: \<open>env i\<close> is the environment of attempt \<open>i\<close>, \<open>polls\<close> that of the wait before
  the second one.\<close>

function request_loop ::
  "(nat \<Rightarrow> request_env) \<Rightarrow> others list \<Rightarrow> string \<Rightarrow> string \<Rightarrow> json \<Rightarrow> nat \<Rightarrow> bool \<Rightarrow> daemon_world
     \<Rightarrow> (request_error + json) \<times> daemon_world" where
  "request_loop env polls client_key method params attempt retry world =
     (case request_once_with_timeout_for_client (env attempt) client_key method params world of
        (Inr value, world) \<Rightarrow> (Inr value, world)
      | (Inl err, world) \<Rightarrow>
          if retry \<and> should_retry_request_after_reinitialize method \<and> reinitialized_error err
          then and_then (wait_for_remote_control_initialized polls client_key world)
                 (\<lambda>_ world. request_loop env polls client_key method params (Suc attempt) False
                    (push_event ''warn'' ''remote_control_request_retry_after_reinitialize'' world))
          else if reinitialized_error err
          then (Inl (NotReplayed method),
                push_event ''warn'' ''remote_control_request_not_retried_after_reinitialize'' world)
          else (Inl err, world))"
  by pat_completeness auto
termination
  by (relation "measure (\<lambda>(_, _, _, _, _, _, retry, _). if retry then 1 else 0)") auto

definition request_with_timeout_for_client ::
  "(nat \<Rightarrow> request_env) \<Rightarrow> others list \<Rightarrow> string \<Rightarrow> string \<Rightarrow> json \<Rightarrow> daemon_world
     \<Rightarrow> (request_error + json) \<times> daemon_world" where
  "request_with_timeout_for_client env polls client_key method params =
     request_loop env polls (normalize_remote_client_key client_key) method params 0 True"

declare request_loop.simps [simp del]

text \<open>An attempt that is the last one, and one that is not.\<close>

definition last_attempt ::
  "request_env \<Rightarrow> string \<Rightarrow> string \<Rightarrow> json \<Rightarrow> daemon_world \<Rightarrow> (request_error + json) \<times> daemon_world" where
  "last_attempt env client_key method params world =
     (case request_once_with_timeout_for_client env client_key method params world of
        (Inr value, world) \<Rightarrow> (Inr value, world)
      | (Inl err, world) \<Rightarrow>
          if reinitialized_error err
          then (Inl (NotReplayed method),
                push_event ''warn'' ''remote_control_request_not_retried_after_reinitialize'' world)
          else (Inl err, world))"

lemma last_attempt_loop:
  "\<not> retry \<or> \<not> should_retry_request_after_reinitialize method \<Longrightarrow>
     request_loop env polls client_key method params i retry world = last_attempt (env i) client_key method params world"
  by (subst request_loop.simps) (auto simp: last_attempt_def split: prod.split sum.split)

lemma last_attempt_error:
  "fst (last_attempt env client_key method params world) = Inl err \<Longrightarrow> \<not> reinitialized_error err"
  by (auto simp: last_attempt_def split: prod.splits sum.splits if_splits)

lemma first_attempt_loop:
  assumes "should_retry_request_after_reinitialize method"
  shows "request_loop env polls client_key method params 0 True world =
    (case request_once_with_timeout_for_client (env 0) client_key method params world of
       (Inr value, world) \<Rightarrow> (Inr value, world)
     | (Inl err, world) \<Rightarrow>
         if reinitialized_error err
         then and_then (wait_for_remote_control_initialized polls client_key world)
                (\<lambda>_ world. last_attempt (env 1) client_key method params
                   (push_event ''warn'' ''remote_control_request_retry_after_reinitialize'' world))
         else (Inl err, world))"
proof -
  have second: "request_loop env polls client_key method params (Suc 0) False w = last_attempt (env 1) client_key method params w"
    for w using last_attempt_loop[of False] by simp
  show ?thesis
    by (subst request_loop.simps) (simp add: assms second split: prod.split sum.split)
qed

lemma poll_until_check: "fst (poll_until check polls world) = Some r \<Longrightarrow> \<exists>remote. check remote = Some r"
  by (induction polls arbitrary: world) (auto split: option.splits)

lemma wait_error:
  assumes "fst (wait_for_remote_control_initialized polls client_key world) = Inl err"
  shows "\<not> reinitialized_error err"
proof -
  have "\<not> reinitialized_error e" if "initialized_check key remote = Some (Inl e)" for e key remote
    using that by (auto simp: initialized_check_def Let_def split: option.splits if_splits)
  then show ?thesis
    using assms poll_until_check[of "initialized_check (normalize_remote_client_key client_key)" polls world]
    by (fastforce simp: wait_for_remote_control_initialized_def split: prod.splits option.splits)
qed

lemma and_then_error:
  assumes "fst (and_then r f) = Inl err" and "\<And>e. fst r = Inl e \<Longrightarrow> P e"
    and "\<And>x world. fst (f x world) = Inl err \<Longrightarrow> P err"
  shows "P err"
  using assms by (cases r; cases "fst r") auto

text \<open>C31. A request is repeated at most once, and only when repeating it is harmless. What a request does
  depends on no attempt after the second, and for the requests that start a thread or a turn, fork or
  steer, on no attempt after the first; and the caller never sees the internal error of a reinitialized
  client.\<close>

theorem requests_repeated_at_most_once:
  "(\<forall>env'. env' 0 = env 0 \<longrightarrow> (should_retry_request_after_reinitialize method \<longrightarrow> env' 1 = env 1) \<longrightarrow>
      request_with_timeout_for_client env' polls client_key method params world =
      request_with_timeout_for_client env polls client_key method params world) \<and>
   (\<forall>err. fst (request_with_timeout_for_client env polls client_key method params world) = Inl err \<longrightarrow>
      \<not> reinitialized_error err)"
proof (cases "should_retry_request_after_reinitialize method")
  case False
  then show ?thesis
    using last_attempt_error by (simp add: request_with_timeout_for_client_def last_attempt_loop)
next
  case True
  let ?key = "normalize_remote_client_key client_key"
  have second: "\<not> reinitialized_error err"
    if "fst (and_then (wait_for_remote_control_initialized polls ?key w)
        (\<lambda>_ world. last_attempt (env 1) ?key method params (push_event level kind world))) = Inl err" for err w level kind
    by (rule and_then_error[OF that]) (auto dest: wait_error last_attempt_error)
  have "\<not> reinitialized_error err"
    if "fst (request_loop env polls ?key method params 0 True world) = Inl err" for err
    using that second unfolding first_attempt_loop[OF True] by (auto split: prod.splits sum.splits if_splits)
  moreover have "request_loop env' polls ?key method params 0 True world = request_loop env polls ?key method params 0 True world"
    if "env' 0 = env 0" "env' 1 = env 1" for env'
    unfolding first_attempt_loop[OF True] that ..
  ultimately show ?thesis using True unfolding request_with_timeout_for_client_def by blast
qed

definition sample_request_env :: "bool \<Rightarrow> request_env" where
  "sample_request_env admitted = \<lparr> rq_codec = plain_codec, rq_version = ''1'', rq_uuid = ''u'', rq_now_ms = 5,
     rq_admitted = admitted, rq_initialize_admitted = admitted, rq_recovery_polls = [], rq_ready_polls = [],
     rq_until_answer = (\<lambda>world. world) \<rparr>"

theorem requests_repeated_at_most_once_witness:
  "request_with_timeout_for_client (\<lambda>i. sample_request_env (i = 1)) [] ''default'' ''turn/start'' JNull daemon_new
     = request_with_timeout_for_client (\<lambda>_. sample_request_env False) [] ''default'' ''turn/start'' JNull daemon_new"
proof -
  have "\<not> should_retry_request_after_reinitialize ''turn/start''"
    by (simp add: should_retry_request_after_reinitialize_def)
  then show ?thesis
    by (intro requests_repeated_at_most_once[THEN conjunct1, THEN spec, THEN mp, THEN mp]) auto
qed

end
