(* ===== verification/RcReply.thy ===== *)
theory RcReply
  imports RcRequests
begin

section \<open>A request and its answer\<close>

text \<open>
  The two directions together: a request registered and sent by theory RcRequests, and the message handled
  by theory RcIncoming that answers it.
\<close>

lemma owns_stream_ids:
  "owns_stream connection c s key client \<Longrightarrow> cl_client_id client = c \<and> cl_stream_id client = s"
  by (auto simp: owns_stream_def dest: hget_in_set)

lemma owns_stream_change:
  assumes "owns_stream connection c s key client" and "hwf (cn_clients connection)"
    and "cl_client_id client' = cl_client_id client" and "cl_stream_id client' = cl_stream_id client"
  shows "owns_stream (change_client key client' connection) c s key client'"
  using assms owns_stream_ids[OF assms(1)]
  by (auto simp: owns_stream_def change_client_def client_key_on_def set_hinsert)

lemma connection_clients_wf:
  assumes "remote_ok remote" and "connection_for_epoch_locked remote e = Some connection"
  shows "hwf (cn_clients connection)"
  using assms(1) connection_found_in[OF assms(2)] by (fastforce simp: remote_ok_def connection_ok_def clients_ok_def)

text \<open>Registering on a live connection whose client is initialized.\<close>

lemma register_request_outcome:
  assumes ok: "remote_ok remote" and found: "connection_for_epoch_locked remote e = Some connection"
    and up: "cn_connected connection" "cn_outbound_tx connection \<noteq> None"
    and live: "remote_control_server_connection_stale_reason connection now = None"
    and owner: "owns_stream connection c s key client" and init: "cl_initialized client"
    and built: "build_on codec c s (cl_next_seq_id client) message cursor = Inr envelopes"
  shows "\<exists>client' pending remote'. register_request codec uuid now (Some e) track key i method t message cursor remote
      = (Inr (e, envelopes), remote') \<and> remote_ok remote' \<and>
    connection_for_epoch_locked remote' e = Some (change_client key client' connection) \<and>
    owns_stream (change_client key client' connection) c s key client' \<and>
    hget (cl_pending client') (show_nat i) = Some pending \<and> pr_response_tx pending = i"
proof -
  have ids: "cl_client_id client = c" "cl_stream_id client = s" using owns_stream_ids[OF owner] by simp_all
  have key: "client_key_on connection key = key" "hget (cn_clients connection) key = Some client"
    using owner by (simp_all add: owns_stream_def)
  have there: "with_client_on uuid key connection = connection"
    using key(2) by (simp add: with_client_on_def hcontains_def)
  let ?pending = "\<lparr> pr_connection_epoch = e, pr_method = method, pr_thread_id = t, pr_track_thread_active = track,
      pr_lifecycle_permit = True, pr_response_tx = i, pr_message = message, pr_envelopes = envelopes \<rparr>"
  let ?client = "client\<lparr>cl_next_seq_id := sat_add (cl_next_seq_id client) 1,
      cl_pending := hinsert (show_nat i) ?pending (cl_pending client)\<rparr>"
  define change where "change = (\<lambda>client. if \<not> cl_initialized client then (Inl ClientNotInitialized, client)
     else (let (seq_id, client) = take_seq_id client
       in case build_on codec (cl_client_id client) (cl_stream_id client) seq_id message cursor of
            Inl err \<Rightarrow> (Inl (RequestSendFailed err), client)
          | Inr envelopes \<Rightarrow> (Inr (e, envelopes), client\<lparr>cl_pending := hinsert (show_nat i)
              \<lparr> pr_connection_epoch = e, pr_method = method, pr_thread_id = t, pr_track_thread_active = track,
                pr_lifecycle_permit = True, pr_response_tx = i, pr_message = message, pr_envelopes = envelopes \<rparr>
              (cl_pending client)\<rparr>)))"
  have changed: "change client = (Inr (e, envelopes), ?client)"
    using init built ids by (simp add: change_def take_seq_id_def)
  have "client_ok (snd (change cl))" if "client_ok cl" for cl
    using that by (auto simp: change_def take_seq_id_def client_ok_def sat_add_def u64_max_def split: sum.split)
  then have ok': "remote_ok (snd (ensure_client_state_for_connection_locked uuid e key change remote))"
    by (rule remote_ok_ensure[OF ok])
  have ensured: "fst (ensure_client_state_for_connection_locked uuid e key change remote) = Some (Inr (e, envelopes))"
    "connection_for_epoch_locked (snd (ensure_client_state_for_connection_locked uuid e key change remote)) e
       = Some (change_client key ?client connection)"
    using ensure_outcome[OF found, of uuid key change] key(2) changed unfolding key(1) there by auto
  have "register_request codec uuid now (Some e) track key i method t message cursor remote =
      (try_bind (ok_or ConnectionGone (fst (ensure_client_state_for_connection_locked uuid e key change remote)))
         (\<lambda>outcome. outcome), snd (ensure_client_state_for_connection_locked uuid e key change remote))"
    using up live found by (cases "cn_outbound_tx connection")
      (simp_all add: register_request_def connection_exists_locked_def remote_control_connection_stale_reason_locked_def
        change_def[symmetric] case_prod_beta)
  then show ?thesis
    using ok' ensured owns_stream_change[OF owner connection_clients_wf[OF ok found], of ?client]
    by (intro exI[of _ ?client] exI[of _ ?pending]) simp
qed

lemma send_request_stages:
  assumes "next_request_id (dw_remote w) = (i, r1)" and "next_remote_subscribe_cursor r1 = (cursor, r2)"
    and "register_request (rq_codec env) (rq_uuid env) (rq_now_ms env) target track key i method
      (jget_str ''threadId'' params) (build_pending_message method i params) cursor (rw_inner r2)
        = (Inr (e, envelopes), inner)"
    and "send_envelopes_on_connection (rq_codec env) (rq_now_ms env) e envelopes (r2\<lparr>rw_inner := inner\<rparr>) = (Inr (), r4)"
  shows "send_request env target track key method params w =
    await_answer e key i (rq_until_answer env (w\<lparr>dw_remote := r4\<rparr>))"
  using assms by (simp add: send_request_def with_remote_def with_inner_def)

lemma answer_of_append:
  "answer_of i world = None \<Longrightarrow> rw_responses world' = rw_responses world @ [(i, outcome)] \<Longrightarrow>
     answer_of i world' = Some outcome"
  by (simp add: answer_of_def find_append)

text \<open>Up to the wait for the answer.\<close>

lemma request_sent_and_pending:
  assumes "world_ok (dw_remote w)" and "connection_for_epoch_locked (dw_inner w) e = Some connection"
    and "cn_connected connection" and "cn_outbound_tx connection = Some tx"
    and "tx \<in> rw_open_channels (dw_remote w)"
    and "remote_control_server_connection_stale_reason connection (rq_now_ms env) = None"
    and "owns_stream connection c s key client" and "cl_initialized client"
    and "i = rw_next_request_id (dw_remote w)"
    and "build_on (rq_codec env) c s (cl_next_seq_id client) (build_pending_message method i params)
      (''mochiport:'' @ show_nat (rw_next_subscribe_cursor_id (dw_remote w))) = Inr envelopes"
  shows "\<exists>w4 connection' client' pending.
    send_request env (Some e) track key method params w = await_answer e key i (rq_until_answer env w4) \<and>
    world_ok (dw_remote w4) \<and> rw_responses (dw_remote w4) = rw_responses (dw_remote w) \<and>
    connection_for_epoch_locked (dw_inner w4) e = Some connection' \<and> owns_stream connection' c s key client' \<and>
    hget (cl_pending client') (show_nat i) = Some pending \<and> pr_response_tx pending = i"
proof -
  let ?cursor = "''mochiport:'' @ show_nat (rw_next_subscribe_cursor_id (dw_remote w))"
  define r1 where "r1 = snd (next_request_id (dw_remote w))"
  define r2 where "r2 = snd (next_remote_subscribe_cursor r1)"
  have "calm r1 r2" unfolding r2_def by (rule calm_cursor)
  moreover have "rw_inner r1 = dw_inner w" "rw_responses r1 = rw_responses (dw_remote w)"
    by (simp_all add: r1_def next_request_id_def)
  ultimately have two: "remote_ok (rw_inner r2)" "rw_responses r2 = rw_responses (dw_remote w)"
    using assms(1) by (auto simp: calm_def)
  have opened: "rw_open_channels r2 = rw_open_channels (dw_remote w)"
    by (simp add: r2_def r1_def next_remote_subscribe_cursor_def next_request_id_def change_inner_def Let_def)
  obtain sub where found2: "connection_for_epoch_locked (rw_inner r2) e = Some (connection\<lparr>cn_subscribe_cursor := sub\<rparr>)"
    using cursor_keeps_connection[of r1 e connection] assms(2) \<open>rw_inner r1 = dw_inner w\<close> unfolding r2_def by auto
  let ?c2 = "connection\<lparr>cn_subscribe_cursor := sub\<rparr>"
  have same: "client_key_on ?c2 key = client_key_on connection key" by (simp add: client_key_on_def)
  have c2: "owns_stream ?c2 c s key client"
    using assms(7) by (simp add: owns_stream_def same)
  have fresh: "remote_control_server_connection_stale_reason ?c2 (rq_now_ms env) = None"
    using assms(6) by (simp add: remote_control_server_connection_stale_reason_def connection_initialized_def)
  have up: "cn_connected ?c2" "cn_outbound_tx ?c2 \<noteq> None" using assms(3,4) by simp_all
  obtain client' pending inner where registered: "register_request (rq_codec env) (rq_uuid env) (rq_now_ms env) (Some e)
      track key i method (jget_str ''threadId'' params) (build_pending_message method i params) ?cursor (rw_inner r2)
        = (Inr (e, envelopes), inner)" "remote_ok inner"
    "connection_for_epoch_locked inner e = Some (change_client key client' ?c2)"
    "owns_stream (change_client key client' ?c2) c s key client'"
    "hget (cl_pending client') (show_nat i) = Some pending" "pr_response_tx pending = i"
    using register_request_outcome[OF two(1) found2 up fresh c2 assms(8,10),
        of "rq_uuid env" track i "method" "jget_str ''threadId'' params"] by blast
  define r3 where "r3 = r2\<lparr>rw_inner := inner\<rparr>"
  have "outbound_tx_for_connection_epoch_locked inner e = Some tx"
    using registered(3) assms(3,4) by (simp add: outbound_tx_for_connection_epoch_locked_def change_client_def)
  then obtain r4 where send: "send_envelopes_on_connection (rq_codec env) (rq_now_ms env) e envelopes r3 = (Inr (), r4)"
    "ri_connections (rw_inner r4) = ri_connections inner"
    using send_all_open[of tx r3 "rq_codec env" "rq_now_ms env" e envelopes] opened assms(5)
    by (auto simp: send_envelopes_on_connection_def r3_def)
  then have four: "remote_ok (rw_inner r4)" "rw_responses r4 = rw_responses (dw_remote w)"
    using calm_send_envelopes[of r3 "rq_codec env" "rq_now_ms env" e envelopes] registered(2) two(2)
    by (auto simp: calm_def r3_def)
  define w4 where "w4 = w\<lparr>dw_remote := r4\<rparr>"
  have found4: "connection_for_epoch_locked (dw_inner w4) e = Some (change_client key client' ?c2)"
    using registered(3) send(2) by (simp add: w4_def connection_for_epoch_locked_def)
  have "next_request_id (dw_remote w) = (i, r1)" by (simp add: r1_def next_request_id_def assms(9))
  moreover have "next_remote_subscribe_cursor r1 = (?cursor, r2)"
    by (simp add: r2_def r1_def next_request_id_def next_remote_subscribe_cursor_def Let_def)
  ultimately have "send_request env (Some e) track key method params w = await_answer e key i (rq_until_answer env w4)"
    using send_request_stages[OF _ _ registered(1) send(1)[unfolded r3_def]] by (simp add: w4_def)
  then show ?thesis using four found4 registered(4,5,6)
    by (intro exI[of _ w4] exI[of _ "change_client key client' ?c2"] exI[of _ client'] exI[of _ pending])
      (simp add: w4_def)
qed

text \<open>C9. A request gets its own answer. On a live connection whose client is initialized, a request that
  is sent and whose answer arrives as the next message of its stream returns the result of exactly that
  answer to the caller; the answer is matched by the identifier the request was given, and afterwards no
  client of the stream waits for it. The serialiser is assumed to print a number in decimal.\<close>

theorem request_receives_its_answer:
  assumes "world_ok (dw_remote w)" and "connection_for_epoch_locked (dw_inner w) e = Some connection"
    and "cn_connected connection" and "cn_outbound_tx connection = Some tx"
    and "tx \<in> rw_open_channels (dw_remote w)"
    and "remote_control_server_connection_stale_reason connection (rq_now_ms env) = None"
    and "owns_stream connection c s key client" and "cl_initialized client"
    and "i = rw_next_request_id (dw_remote w)" and "answer_of i (dw_remote w) = None"
    and "build_on (rq_codec env) c s (cl_next_seq_id client) (build_pending_message method i params)
      (''mochiport:'' @ show_nat (rw_next_subscribe_cursor_id (dw_remote w))) = Inr envelopes"
    and "rq_until_answer env = observe_app_server_message senv e c s (JObj [(''id'', JNum (int i)), (''result'', v)])"
    and "co_display (se_codec senv) (JNum (int i)) = show_nat i"
  shows "\<exists>w'. send_request env (Some e) track key method params w = (Inr v, w') \<and>
    (e, c, s, show_nat i) \<notin> outstanding (dw_inner w')"
proof -
  let ?message = "JObj [(''id'', JNum (int i)), (''result'', v)]"
  obtain w4 connection' client' pending where sent:
    "send_request env (Some e) track key method params w = await_answer e key i (rq_until_answer env w4)"
    "world_ok (dw_remote w4)" "rw_responses (dw_remote w4) = rw_responses (dw_remote w)"
    "connection_for_epoch_locked (dw_inner w4) e = Some connection'" "owns_stream connection' c s key client'"
    "hget (cl_pending client') (show_nat i) = Some pending" "pr_response_tx pending = i"
    using request_sent_and_pending[OF assms(1-9,11)] by blast
  define w5 where "w5 = observe_app_server_message senv e c s ?message w4"
  have message: "unwrap_or (jget ''message'' ?message) ?message = ?message" by (simp add: unwrap_or_simps)
  have parts: "jget ''id'' (unwrap_or (jget ''message'' ?message) ?message) = Some (JNum (int i))"
    "jget_str ''method'' (unwrap_or (jget ''message'' ?message) ?message) = None"
    unfolding message by simp_all
  have "show_nat i = request_id_key (co_display (se_codec senv)) (JNum (int i))"
    by (simp add: request_id_key_def assms(13) unwrap_or_simps)
  note answer = answer_reaches_waiter[OF sent(2,4,5) parts this w5_def]
  have answered: "rw_responses (dw_remote w5) = rw_responses (dw_remote w) @ [(i, Inr v)]"
    "(e, c, s, show_nat i) \<notin> outstanding (dw_inner w5)"
    using answer sent(3,6,7) unfolding message by (simp_all add: response_outcome_def unwrap_or_simps)
  have "answer_of i (dw_remote w5) = Some (Inr v)"
    by (rule answer_of_append[OF assms(10) answered(1)])
  then show ?thesis using sent(1) answered(2) assms(12) by (simp add: w5_def await_answer_def)
qed

definition decimal_env :: server_env where
  "decimal_env = sample_server_env\<lparr>se_codec := plain_codec\<lparr>co_display :=
     (\<lambda>value. case value of JNum n \<Rightarrow> show_nat (nat n) | _ \<Rightarrow> [])\<rparr>\<rparr>"

theorem request_receives_its_answer_witness:
  "\<exists>w'. send_request ((sample_request_env True)\<lparr>rq_until_answer := observe_app_server_message decimal_env 2
        MOCHIPORT_BRIDGE_CLIENT_ID ''s'' (JObj [(''id'', JNum (int 10)), (''result'', JBool True)])\<rparr>)
      (Some 2) True ''default:cli'' ''thread/list'' JNull (sample_daemon runtime_default) = (Inr (JBool True), w') \<and>
    (2, MOCHIPORT_BRIDGE_CLIENT_ID, ''s'', show_nat 10) \<notin> outstanding (dw_inner w')"
proof (rule request_receives_its_answer[OF sample_daemon_ok sample_daemon_connection _ _ _ _ sample_daemon_owner])
  show "cn_connected sample_working_connection" "cn_outbound_tx sample_working_connection = Some 2"
    by (simp_all add: sample_working_connection_def sample_connection_def)
  show "2 \<in> rw_open_channels (dw_remote (sample_daemon runtime_default))"
    "10 = rw_next_request_id (dw_remote (sample_daemon runtime_default))"
    "answer_of 10 (dw_remote (sample_daemon runtime_default)) = None"
    by (simp_all add: sample_daemon_def answer_of_def)
  show "cl_initialized sample_working" by (simp add: sample_working_def)
  show "remote_control_server_connection_stale_reason sample_working_connection
      (rq_now_ms ((sample_request_env True)\<lparr>rq_until_answer := u\<rparr>)) = None" for u
    by (simp add: sample_working_connection_def sample_connection_def sample_request_env_def
        remote_control_server_connection_stale_reason_def remote_control_liveness_stale_reason_def
        connection_initialized_def sample_working_def)
  show "co_display (se_codec decimal_env) (JNum (int 10)) = show_nat 10" by (simp add: decimal_env_def)
  show "build_on (rq_codec ((sample_request_env True)\<lparr>rq_until_answer := u\<rparr>)) c s q message cursor
      = Inr [build_client_envelope c (Some s) q message (Some cursor)]" for u c s q message cursor
    by (simp add: sample_request_env_def sample_initialize_build)
qed simp

end
