(* ===== verification/RcSessions.thy ===== *)
theory RcSessions
  imports RcReply "HOL-Library.Product_Lexorder"
begin

section \<open>Sessions of the app server (src/src/remote_control_backend/session_api.rs)\<close>

text \<open>
  The requests the messaging side makes: their parameters, what they read from the answers, and the history
  of sessions, which is read page by page from the first connection that serves it. A request is that of
  theory RcRequests; what other tasks do meanwhile is in its environment. An object is the list of its
  fields; their order has no meaning.
\<close>

datatype session_error =
    SessionRequest request_error
  | ResponseMissing string string
  | EmptyThreadName
  | EmptyPatch
  | EmptyPatchField string
  | SessionNotConnected
  | SessionConnectionGone
  | NoHealthyConnection
  | HistoryFailed "session_error list"

record session_env =
  sn_attempts :: "nat \<Rightarrow> request_env"
  sn_polls :: "others list"
  sn_uuid :: string
  sn_display :: "json \<Rightarrow> string"

definition request_for_client ::
  "session_env \<Rightarrow> string \<Rightarrow> string \<Rightarrow> json \<Rightarrow> daemon_world \<Rightarrow> (session_error + json) \<times> daemon_world" where
  "request_for_client env client_key method params world =
     lift_error SessionRequest
       (request_with_timeout_for_client (sn_attempts env) (sn_polls env) client_key method params world)"

subsection \<open>Parameters\<close>

definition non_empty :: "string option \<Rightarrow> string option" where
  "non_empty s = Option.bind s non_blank"

definition opt_field :: "string \<Rightarrow> ('a \<Rightarrow> json) \<Rightarrow> 'a option \<Rightarrow> (string \<times> json) list" where
  "opt_field key to_json s = (case s of None \<Rightarrow> [] | Some x \<Rightarrow> [(key, to_json x)])"

record thread_start_options =
  so_cwd :: "string option"
  so_model_provider :: "string option"
  so_model :: "string option"
  so_reasoning_effort :: "string option"
  so_permissions :: "string option"
  so_approval_policy :: "string option"
  so_approvals_reviewer :: "string option"

definition thread_start_params :: "thread_start_options \<Rightarrow> json" where
  "thread_start_params options = JObj
     (opt_field ''cwd'' JStr (non_empty (so_cwd options)) @
      opt_field ''runtimeWorkspaceRoots'' (\<lambda>cwd. JArr [JStr cwd]) (non_empty (so_cwd options)) @
      opt_field ''modelProvider'' JStr (non_empty (so_model_provider options)) @
      opt_field ''model'' JStr (non_empty (so_model options)) @
      opt_field ''config'' (\<lambda>effort. JObj [(''model_reasoning_effort'', JStr effort)])
        (non_empty (so_reasoning_effort options)) @
      opt_field ''permissions'' JStr (non_empty (so_permissions options)) @
      opt_field ''approvalPolicy'' JStr (non_empty (so_approval_policy options)) @
      opt_field ''approvalsReviewer'' JStr (non_empty (so_approvals_reviewer options)))"

definition thread_set_name_params :: "string \<Rightarrow> string \<Rightarrow> json" where
  "thread_set_name_params thread_id name = JObj [(''threadId'', JStr thread_id), (''name'', JStr name)]"

definition settings_patch_is_empty :: "thread_settings_patch \<Rightarrow> bool" where
  "settings_patch_is_empty patch \<longleftrightarrow> pv_model patch = Unchanged \<and> pv_effort patch = Unchanged \<and> pv_service_tier patch = Unchanged"

fun append_thread_settings_patch_value ::
  "string \<Rightarrow> patch_value \<Rightarrow> (string \<times> json) list \<Rightarrow> session_error + (string \<times> json) list" where
  "append_thread_settings_patch_value field Unchanged params = Inr params"
| "append_thread_settings_patch_value field ClearValue params = Inr (hinsert field JNull params)"
| "append_thread_settings_patch_value field (SetValue s) params =
     (case non_blank s of
        None \<Rightarrow> Inl (EmptyPatchField field)
      | Some s \<Rightarrow> Inr (hinsert field (JStr s) params))"

definition thread_settings_update_params :: "string \<Rightarrow> thread_settings_patch \<Rightarrow> session_error + json" where
  "thread_settings_update_params thread_id patch =
     (if settings_patch_is_empty patch then Inl EmptyPatch
      else try_bind (append_thread_settings_patch_value ''model'' (pv_model patch) [(''threadId'', JStr thread_id)])
        (\<lambda>params. try_bind (append_thread_settings_patch_value ''effort'' (pv_effort patch) params)
          (\<lambda>params. try_bind (append_thread_settings_patch_value ''serviceTier'' (pv_service_tier patch) params)
            (\<lambda>params. Inr (JObj params)))))"

definition config_read_params :: "string option \<Rightarrow> bool \<Rightarrow> json" where
  "config_read_params cwd include_layers = JObj
     (opt_field ''cwd'' JStr (non_empty cwd) @ (if include_layers then [(''includeLayers'', JBool True)] else []))"

definition model_list_params :: "bool \<Rightarrow> nat option \<Rightarrow> json" where
  "model_list_params include_hidden limit = JObj
     ((''includeHidden'', JBool include_hidden) # opt_field ''limit'' (\<lambda>n. JNum (int n)) limit)"

definition INTERACTIVE_ROOT_SOURCE_KINDS :: "string list" where
  "INTERACTIVE_ROOT_SOURCE_KINDS = [''cli'', ''vscode'', ''appServer'']"

definition thread_list_params ::
  "string option \<Rightarrow> nat option \<Rightarrow> string option \<Rightarrow> string option \<Rightarrow> json" where
  "thread_list_params cursor limit cwd model_provider = JObj
     (opt_field ''cursor'' JStr cursor @ opt_field ''limit'' (\<lambda>n. JNum (int n)) limit @
      [(''sortKey'', JStr ''updated_at''), (''sourceKinds'', JArr (map JStr INTERACTIVE_ROOT_SOURCE_KINDS)),
       (''archived'', JBool False), (''useStateDbOnly'', JBool True)] @
      opt_field ''cwd'' JStr cwd @ opt_field ''modelProviders'' (\<lambda>p. JArr [JStr p]) (non_empty model_provider))"

definition session_history_thread_list_params :: "string option \<Rightarrow> nat option \<Rightarrow> bool \<Rightarrow> json" where
  "session_history_thread_list_params cursor limit archived = JObj
     ([(''sortKey'', JStr ''updated_at''), (''sourceKinds'', JArr (map JStr INTERACTIVE_ROOT_SOURCE_KINDS)),
       (''archived'', JBool archived), (''modelProviders'', JArr []), (''useStateDbOnly'', JBool False)] @
      opt_field ''cursor'' JStr cursor @ opt_field ''limit'' (\<lambda>n. JNum (int n)) limit)"

definition thread_loaded_list_params :: "string option \<Rightarrow> nat option \<Rightarrow> json" where
  "thread_loaded_list_params cursor limit = JObj
     (opt_field ''cursor'' JStr cursor @ opt_field ''limit'' (\<lambda>n. JNum (int n)) limit)"

definition resume_params :: "string \<Rightarrow> string option \<Rightarrow> bool \<Rightarrow> json" where
  "resume_params thread_id path exclude_turns = JObj
     ([(''threadId'', JStr thread_id), (''excludeTurns'', JBool exclude_turns)] @
      opt_field ''path'' JStr (non_empty path))"

definition text_item :: "string \<Rightarrow> json" where
  "text_item s = JObj [(''type'', JStr ''text''), (''text'', JStr s), (''text_elements'', JArr [])]"

definition attachment_item :: "inbound_attachment \<Rightarrow> json list" where
  "attachment_item attachment =
     (case non_empty (ia_local_path attachment) of
        None \<Rightarrow> []
      | Some local_path \<Rightarrow>
          if ia_kind attachment = ''image''
          then [JObj [(''type'', JStr ''localImage''), (''path'', JStr local_path)]]
          else if ia_kind attachment \<in> {''file'', ''text'', ''video'', ''audio''}
          then [text_item (''File: '' @ local_path)]
          else [])"

definition turn_input_items :: "string \<Rightarrow> inbound_attachment list \<Rightarrow> json list" where
  "turn_input_items message attachments =
     (let items = (if trim message = [] then [] else [text_item (trim message)]) @ concat (map attachment_item attachments)
      in if items = [] then [text_item []] else items)"

subsection \<open>Requests\<close>

definition start_thread_for_client ::
  "session_env \<Rightarrow> string \<Rightarrow> thread_start_options \<Rightarrow> daemon_world \<Rightarrow> (session_error + string) \<times> daemon_world" where
  "start_thread_for_client env client_key options world =
     and_then (request_for_client env client_key ''thread/start'' (thread_start_params options) world)
       (\<lambda>response world.
          case jpath_str ''thread'' ''id'' response of
            None \<Rightarrow> (Inl (ResponseMissing ''thread/start response missing thread.id: '' (sn_display env response)), world)
          | Some thread_id \<Rightarrow>
              (Inr thread_id, mark_thread_active_for_client (sn_uuid env) (Some client_key) thread_id world))"

definition set_thread_name_for_client ::
  "session_env \<Rightarrow> string \<Rightarrow> string \<Rightarrow> string \<Rightarrow> daemon_world \<Rightarrow> (session_error + unit) \<times> daemon_world" where
  "set_thread_name_for_client env client_key thread_id name world =
     (case non_blank name of
        None \<Rightarrow> (Inl EmptyThreadName, world)
      | Some name \<Rightarrow>
          and_then (request_for_client env client_key ''thread/name/set'' (thread_set_name_params thread_id name) world)
            (\<lambda>_ world. (Inr (), world)))"

definition update_thread_settings_for_client ::
  "session_env \<Rightarrow> string \<Rightarrow> string \<Rightarrow> thread_settings_patch \<Rightarrow> daemon_world \<Rightarrow> (session_error + json) \<times> daemon_world" where
  "update_thread_settings_for_client env client_key thread_id patch world =
     (case thread_settings_update_params thread_id patch of
        Inl err \<Rightarrow> (Inl err, world)
      | Inr params \<Rightarrow> request_for_client env client_key ''thread/settings/update'' params world)"

definition config_read_for_client ::
  "session_env \<Rightarrow> string \<Rightarrow> string option \<Rightarrow> bool \<Rightarrow> daemon_world \<Rightarrow> (session_error + json) \<times> daemon_world" where
  "config_read_for_client env client_key cwd include_layers =
     request_for_client env client_key ''config/read'' (config_read_params cwd include_layers)"

definition model_list_for_client ::
  "session_env \<Rightarrow> string \<Rightarrow> bool \<Rightarrow> nat option \<Rightarrow> daemon_world \<Rightarrow> (session_error + json) \<times> daemon_world" where
  "model_list_for_client env client_key include_hidden limit =
     request_for_client env client_key ''model/list'' (model_list_params include_hidden limit)"

definition request_thread_list_with_params ::
  "session_env \<Rightarrow> string \<Rightarrow> json \<Rightarrow> daemon_world \<Rightarrow> (session_error + json) \<times> daemon_world" where
  "request_thread_list_with_params env client_key = request_for_client env client_key ''thread/list''"

definition thread_list_for_client ::
  "session_env \<Rightarrow> string \<Rightarrow> string option \<Rightarrow> nat option \<Rightarrow> string option \<Rightarrow> string option \<Rightarrow> daemon_world
     \<Rightarrow> (session_error + json) \<times> daemon_world" where
  "thread_list_for_client env client_key cursor limit cwd model_provider =
     request_thread_list_with_params env client_key (thread_list_params cursor limit cwd model_provider)"

definition thread_loaded_list_for_client ::
  "session_env \<Rightarrow> string \<Rightarrow> string option \<Rightarrow> nat option \<Rightarrow> daemon_world \<Rightarrow> (session_error + json) \<times> daemon_world" where
  "thread_loaded_list_for_client env client_key cursor limit =
     request_for_client env client_key ''thread/loaded/list'' (thread_loaded_list_params cursor limit)"

definition resume_thread_for_client_with_path ::
  "session_env \<Rightarrow> string \<Rightarrow> string \<Rightarrow> string option \<Rightarrow> bool \<Rightarrow> daemon_world \<Rightarrow> (session_error + json) \<times> daemon_world" where
  "resume_thread_for_client_with_path env client_key thread_id path exclude_turns world =
     and_then (request_for_client env client_key ''thread/resume'' (resume_params thread_id path exclude_turns) world)
       (\<lambda>response world.
          (Inr response, mark_thread_active_for_client (sn_uuid env) (Some client_key) thread_id world))"

definition resume_thread_for_client ::
  "session_env \<Rightarrow> string \<Rightarrow> string \<Rightarrow> bool \<Rightarrow> daemon_world \<Rightarrow> (session_error + json) \<times> daemon_world" where
  "resume_thread_for_client env client_key thread_id =
     resume_thread_for_client_with_path env client_key thread_id None"

definition request_on_connection ::
  "request_env \<Rightarrow> nat \<Rightarrow> string \<Rightarrow> string \<Rightarrow> json \<Rightarrow> daemon_world \<Rightarrow> (session_error + json) \<times> daemon_world" where
  "request_on_connection env connection_epoch client_key method params world =
     lift_error SessionRequest
       (request_once_with_timeout_for_client_on_connection env connection_epoch client_key method params world)"

definition resume_thread_for_client_on_connection_with_path ::
  "request_env \<Rightarrow> nat \<Rightarrow> string \<Rightarrow> string \<Rightarrow> string option \<Rightarrow> bool \<Rightarrow> daemon_world
     \<Rightarrow> (session_error + json) \<times> daemon_world" where
  "resume_thread_for_client_on_connection_with_path env connection_epoch client_key thread_id path exclude_turns world =
     and_then (request_on_connection env connection_epoch client_key ''thread/resume''
         (resume_params thread_id path exclude_turns) world)
       (\<lambda>response world. (Inr response,
          mark_thread_active_for_client_on_connection (rq_uuid env) connection_epoch client_key thread_id world))"

text \<open>The locked section after a turn was started.\<close>

definition record_started_turn ::
  "string \<Rightarrow> string \<Rightarrow> string \<Rightarrow> string \<Rightarrow> remote_inner \<Rightarrow> (session_error + unit) \<times> remote_inner" where
  "record_started_turn uuid client_key thread_id turn_id remote =
     (let requested_client_key = normalize_remote_client_key client_key
      in case connection_epoch_for_client_key_locked remote requested_client_key of
           None \<Rightarrow> (Inl SessionNotConnected, remote)
         | Some connection_epoch \<Rightarrow>
             (let (found, remote) = ensure_client_state_for_connection_locked uuid connection_epoch
                    (resolve_remote_client_key_for_connection_locked remote connection_epoch requested_client_key)
                    (\<lambda>client. ((), client\<lparr>cl_current_thread_id := Some thread_id, cl_current_turn_id := Some turn_id\<rparr>))
                    remote
              in (ok_or SessionConnectionGone found, remote)))"

definition start_turn_for_client ::
  "session_env \<Rightarrow> string \<Rightarrow> string \<Rightarrow> string \<Rightarrow> inbound_attachment list \<Rightarrow> daemon_world
     \<Rightarrow> (session_error + string) \<times> daemon_world" where
  "start_turn_for_client env client_key thread_id message attachments world =
     and_then (request_for_client env client_key ''turn/start''
         (JObj [(''threadId'', JStr thread_id), (''input'', JArr (turn_input_items message attachments))]) world)
       (\<lambda>response world.
          case jpath_str ''turn'' ''id'' response of
            None \<Rightarrow> (Inl (ResponseMissing ''turn/start response missing turn.id: '' (sn_display env response)), world)
          | Some turn_id \<Rightarrow>
              and_then (with_remote (with_inner (record_started_turn (sn_uuid env) client_key thread_id turn_id)) world)
                (\<lambda>_ world. (Inr turn_id, world)))"

definition interrupt_turn_for_client ::
  "session_env \<Rightarrow> string \<Rightarrow> string \<Rightarrow> string \<Rightarrow> daemon_world \<Rightarrow> (session_error + unit) \<times> daemon_world" where
  "interrupt_turn_for_client env client_key thread_id turn_id world =
     and_then (request_for_client env client_key ''turn/interrupt''
         (JObj [(''threadId'', JStr thread_id), (''turnId'', JStr turn_id)]) world)
       (\<lambda>_ world. (Inr (), world))"

definition steer_turn_for_client ::
  "session_env \<Rightarrow> string \<Rightarrow> string \<Rightarrow> string \<Rightarrow> string \<Rightarrow> inbound_attachment list \<Rightarrow> daemon_world
     \<Rightarrow> (session_error + string) \<times> daemon_world" where
  "steer_turn_for_client env client_key thread_id turn_id message attachments world =
     and_then (request_for_client env client_key ''turn/steer''
         (JObj [(''threadId'', JStr thread_id), (''expectedTurnId'', JStr turn_id),
                (''input'', JArr (turn_input_items message attachments))]) world)
       (\<lambda>response world.
          case jget_str ''turnId'' response of
            None \<Rightarrow> (Inl (ResponseMissing ''turn/steer response missing turnId: '' (sn_display env response)), world)
          | Some steered \<Rightarrow> (Inr steered, world))"

subsection \<open>History\<close>

definition discoverable :: "nat \<Rightarrow> remote_inner \<Rightarrow> server_connection \<Rightarrow> bool" where
  "discoverable now_ms remote connection \<longleftrightarrow> cn_connected connection \<and> connection_initialized connection \<and>
     cn_outbound_tx connection \<noteq> None \<and>
     remote_control_connection_stale_reason_locked remote (cn_connection_epoch connection) now_ms = None"

definition discovery_rank :: "string option \<Rightarrow> server_connection \<Rightarrow> bool \<times> nat \<times> nat" where
  "discovery_rank active_connection_id connection =
     (cn_connection_id connection = unwrap_or active_connection_id [],
      unwrap_or (opt_or (cn_last_ws_inbound_at_ms connection) (cn_connected_at_ms connection)) 0,
      cn_connection_epoch connection)"

definition discovery_connection_candidates_locked :: "nat \<Rightarrow> remote_inner \<Rightarrow> nat list" where
  "discovery_connection_candidates_locked now_ms remote =
     map (\<lambda>(_, _, connection_epoch). connection_epoch)
       (rev (sort (map (discovery_rank (select_active_connection_id_locked remote))
          (filter (discoverable now_ms remote) (map snd (ri_connections remote))))))"

text \<open>Pages \<open>page\<close>, \<open>page + 1\<close>, and so on: as many as are left, or until there is no cursor.\<close>

fun history_pages ::
  "(nat \<Rightarrow> request_env) \<Rightarrow> nat \<Rightarrow> string \<Rightarrow> nat \<Rightarrow> bool \<Rightarrow> nat \<Rightarrow> nat \<Rightarrow> string option \<Rightarrow> json list \<Rightarrow> daemon_world
     \<Rightarrow> (session_error + json list) \<times> daemon_world" where
  "history_pages env connection_epoch client_key page_limit archived page 0 cursor threads world = (Inr threads, world)"
| "history_pages env connection_epoch client_key page_limit archived page (Suc left) cursor threads world =
     and_then (request_on_connection (env page) connection_epoch client_key ''thread/list''
         (session_history_thread_list_params cursor (Some page_limit) archived) world)
       (\<lambda>response world.
          case Option.bind (jget ''data'' response) as_array of
            None \<Rightarrow> (Inl (ResponseMissing ''thread/list response missing data array'' []), world)
          | Some items \<Rightarrow>
              (case jget_str ''nextCursor'' response of
                 None \<Rightarrow> (Inr (threads @ items), world)
               | Some cursor \<Rightarrow>
                   history_pages env connection_epoch client_key page_limit archived (Suc page) left (Some cursor)
                     (threads @ items) world))"

definition session_history_threads_on_connection ::
  "(nat \<Rightarrow> request_env) \<Rightarrow> nat \<Rightarrow> string \<Rightarrow> nat \<Rightarrow> nat \<Rightarrow> bool \<Rightarrow> daemon_world
     \<Rightarrow> (session_error + json list) \<times> daemon_world" where
  "session_history_threads_on_connection env connection_epoch client_key page_limit max_pages archived world =
     history_pages env connection_epoch client_key page_limit archived 0 max_pages None [] world"

fun history_from ::
  "(nat \<Rightarrow> nat \<Rightarrow> request_env) \<Rightarrow> string \<Rightarrow> nat \<Rightarrow> nat \<Rightarrow> bool \<Rightarrow> nat list \<Rightarrow> session_error list \<Rightarrow> daemon_world
     \<Rightarrow> (session_error + nat \<times> json list) \<times> daemon_world" where
  "history_from env client_key page_limit max_pages archived [] failures world = (Inl (HistoryFailed failures), world)"
| "history_from env client_key page_limit max_pages archived (connection_epoch # remaining) failures world =
     (case session_history_threads_on_connection (env connection_epoch) connection_epoch client_key page_limit
             max_pages archived world of
        (Inr threads, world) \<Rightarrow> (Inr (connection_epoch, threads), world)
      | (Inl err, world) \<Rightarrow>
          history_from env client_key page_limit max_pages archived remaining (failures @ [err])
            (push_event ''warn'' ''session_history_connection_fallback'' world))"

definition session_history_threads_with_connection ::
  "(nat \<Rightarrow> nat \<Rightarrow> request_env) \<Rightarrow> nat \<Rightarrow> string \<Rightarrow> nat \<Rightarrow> nat \<Rightarrow> bool \<Rightarrow> daemon_world
     \<Rightarrow> (session_error + nat \<times> json list) \<times> daemon_world" where
  "session_history_threads_with_connection env now_ms client_key page_limit max_pages archived world =
     (let epochs_to_try = discovery_connection_candidates_locked now_ms (dw_inner world)
      in if epochs_to_try = [] then (Inl NoHealthyConnection, world)
         else history_from env client_key page_limit max_pages archived epochs_to_try [] world)"

definition session_history_threads ::
  "(nat \<Rightarrow> nat \<Rightarrow> request_env) \<Rightarrow> nat \<Rightarrow> string \<Rightarrow> nat \<Rightarrow> nat \<Rightarrow> bool \<Rightarrow> daemon_world
     \<Rightarrow> (session_error + json list) \<times> daemon_world" where
  "session_history_threads env now_ms client_key page_limit max_pages archived world =
     and_then (session_history_threads_with_connection env now_ms client_key page_limit max_pages archived world)
       (\<lambda>(_, threads) world. (Inr threads, world))"

subsection \<open>Settings\<close>

text \<open>What a receiver reads: an omitted field is unchanged, a null clears.\<close>

definition patch_value_in :: "string \<Rightarrow> json \<Rightarrow> patch_value" where
  "patch_value_in field params =
     (case jget field params of
        None \<Rightarrow> Unchanged
      | Some (JStr s) \<Rightarrow> SetValue s
      | Some _ \<Rightarrow> ClearValue)"

fun trimmed_value :: "patch_value \<Rightarrow> patch_value option" where
  "trimmed_value (SetValue s) = map_option SetValue (non_blank s)"
| "trimmed_value v = Some v"

lemma append_patch_value:
  "append_thread_settings_patch_value field v params =
     (case trimmed_value v of
        None \<Rightarrow> Inl (EmptyPatchField field)
      | Some Unchanged \<Rightarrow> Inr params
      | Some ClearValue \<Rightarrow> Inr (hinsert field JNull params)
      | Some (SetValue s) \<Rightarrow> Inr (hinsert field (JStr s) params))"
  by (cases v) (simp_all split: option.split)

text \<open>An update of thread settings says exactly what the patch says. A patch without a change, or with a
  blank new value, is refused; otherwise the parameters name the thread, and a receiver reads from them every
  value to set, trimmed, every value to clear, and leaves the others alone.\<close>

theorem settings_update_roundtrip:
  "case thread_settings_update_params thread_id patch of
     Inl err \<Rightarrow> settings_patch_is_empty patch \<or>
       (\<exists>s \<in> {pv_model patch, pv_effort patch, pv_service_tier patch}. trimmed_value s = None)
   | Inr params \<Rightarrow> jget_str ''threadId'' params = Some thread_id \<and> \<not> settings_patch_is_empty patch \<and>
       trimmed_value (pv_model patch) = Some (patch_value_in ''model'' params) \<and>
       trimmed_value (pv_effort patch) = Some (patch_value_in ''effort'' params) \<and>
       trimmed_value (pv_service_tier patch) = Some (patch_value_in ''serviceTier'' params)"
  unfolding thread_settings_update_params_def append_patch_value
  by (cases "trimmed_value (pv_model patch)"; cases "trimmed_value (pv_effort patch)";
      cases "trimmed_value (pv_service_tier patch)")
    (auto simp: patch_value_in_def split: patch_value.split)

subsection \<open>Which connection answers a query of the history\<close>

lemma discovery_epochs:
  "mset (discovery_connection_candidates_locked now_ms remote) =
     mset (map cn_connection_epoch (filter (discoverable now_ms remote) (map snd (ri_connections remote))))"
proof -
  have sorted: "mset (map f (rev (sort ranks))) = mset (map f ranks)"
    for f :: "bool \<times> nat \<times> nat \<Rightarrow> nat" and ranks by simp
  show ?thesis unfolding discovery_connection_candidates_locked_def sorted by (simp add: discovery_rank_def comp_def)
qed

lemma distinct_discovery_epochs:
  assumes "remote_ok remote"
  shows "distinct (discovery_connection_candidates_locked now_ms remote)"
proof -
  have "distinct (map cn_connection_epoch (map snd (ri_connections remote)))"
    using assms by (simp add: remote_ok_def epochs_def case_prod_beta' comp_def)
  then have "distinct (map cn_connection_epoch (filter (discoverable now_ms remote) (map snd (ri_connections remote))))"
    by (rule distinct_map_filter)
  then show ?thesis using discovery_epochs[of now_ms remote] by (metis mset_eq_imp_distinct_iff)
qed

lemma set_discovery_epochs:
  "set (discovery_connection_candidates_locked now_ms remote) =
     cn_connection_epoch ` {connection \<in> snd ` set (ri_connections remote). discoverable now_ms remote connection}"
  using arg_cong[OF discovery_epochs, of set_mset now_ms remote] by (auto simp: image_iff)

lemma greatest_first:
  assumes "x \<in> set xs" and "\<And>y. y \<in> set xs \<Longrightarrow> y \<le> (x :: 'a :: linorder)"
  obtains rest where "rev (sort xs) = x # rest"
proof (cases "rev (sort xs)")
  case Nil
  then have "set (sort xs) = {}" by simp
  then show ?thesis using assms(1) by simp
next
  case (Cons first rest)
  then have sorted: "sort xs = rev rest @ [first]" by (metis rev_rev_ident rev.simps(2))
  then have "first \<in> set xs" by (metis in_set_conv_decomp set_sort)
  moreover have "x \<in> set (rev rest @ [first])" using assms(1) sorted by (metis set_sort)
  moreover have "\<forall>y \<in> set rest. y \<le> first"
    using sorted_sort[of xs] unfolding sorted by (simp add: sorted_append)
  ultimately have "first = x" using assms(2)[of first] by (auto intro: antisym)
  with Cons that show ?thesis by blast
qed

lemma selected_connection_first:
  assumes ok: "remote_ok remote" and entry: "(connection_id, connection) \<in> set (ri_connections remote)"
    and selected: "select_active_connection_id_locked remote = Some connection_id"
    and healthy: "discoverable now_ms remote connection"
  shows "\<exists>rest. discovery_connection_candidates_locked now_ms remote = cn_connection_epoch connection # rest"
proof -
  let ?rank = "discovery_rank (Some connection_id)"
  let ?found = "filter (discoverable now_ms remote) (map snd (ri_connections remote))"
  have same_id: "cn_connection_id connection = connection_id"
    using ok entry by (fastforce simp: remote_ok_def connection_ok_def)
  have below: "rank \<le> ?rank connection" if "rank \<in> set (map ?rank ?found)" for rank
  proof -
    from that obtain other_id other where other: "(other_id, other) \<in> set (ri_connections remote)" "rank = ?rank other"
      by auto
    have "other_id = cn_connection_id other" using ok other(1) by (fastforce simp: remote_ok_def connection_ok_def)
    moreover have "other = connection" if "other_id = connection_id"
      using ok entry other(1) that by (auto simp: remote_ok_def hwf_def dest: eq_key_imp_eq_value)
    ultimately show ?thesis using same_id other(2)
      by (cases "cn_connection_id other = connection_id") (auto simp: discovery_rank_def less_eq_prod_def)
  qed
  have "?rank connection \<in> set (map ?rank ?found)" using entry healthy by force
  from greatest_first[OF this below] obtain rest where "rev (sort (map ?rank ?found)) = ?rank connection # rest" by blast
  then show ?thesis by (simp add: discovery_connection_candidates_locked_def selected discovery_rank_def)
qed

text \<open>Connections asked one after the other, each of which failed, with their errors and the world between.\<close>

inductive tried_and_failed ::
  "(nat \<Rightarrow> daemon_world \<Rightarrow> (session_error + json list) \<times> daemon_world) \<Rightarrow> nat list \<Rightarrow> session_error list
     \<Rightarrow> daemon_world \<Rightarrow> daemon_world \<Rightarrow> bool" for ask where
  none_tried: "tried_and_failed ask [] [] world world"
| one_failed: "ask e world = (Inl err, world') \<Longrightarrow>
    tried_and_failed ask es errs (push_event ''warn'' ''session_history_connection_fallback'' world') world'' \<Longrightarrow>
    tried_and_failed ask (e # es) (err # errs) world world''"

inductive_simps tried_and_failed_simps: "tried_and_failed ask [] errs world world'"

lemma history_from_outcome:
  assumes "ask = (\<lambda>e at. session_history_threads_on_connection (env e) e client_key page_limit max_pages archived at)"
  shows "case history_from env client_key page_limit max_pages archived epochs_left failures world of
     (Inl err, world') \<Rightarrow> \<exists>errs. err = HistoryFailed (failures @ errs) \<and> tried_and_failed ask epochs_left errs world world'
   | (Inr (e, threads), world') \<Rightarrow> \<exists>tried errs rest at. epochs_left = tried @ e # rest \<and>
       tried_and_failed ask tried errs world at \<and> ask e at = (Inr threads, world')"
proof (induction epochs_left arbitrary: failures world)
  case Nil
  then show ?case by (simp add: tried_and_failed_simps)
next
  case (Cons e epochs_left)
  obtain outcome world' where tried: "ask e world = (outcome, world')" by fastforce
  show ?case
  proof (cases outcome)
    case (Inr threads)
    have "tried_and_failed ask [] [] world world" by (rule none_tried)
    then show ?thesis using tried Inr unfolding assms by fastforce
  next
    case (Inl err)
    let ?next = "push_event ''warn'' ''session_history_connection_fallback'' world'"
    let ?rest = "history_from env client_key page_limit max_pages archived epochs_left (failures @ [err]) ?next"
    have step: "history_from env client_key page_limit max_pages archived (e # epochs_left) failures world = ?rest"
      using tried Inl unfolding assms by simp
    have extend: "tried_and_failed ask (e # es) (err # errs) world world''" if "tried_and_failed ask es errs ?next world''"
      for es errs world'' using one_failed[of ask e world err world' es errs world''] tried Inl that by simp
    obtain result final where rest: "?rest = (result, final)" by fastforce
    show ?thesis
    proof (cases result)
      case (Inl all)
      with Cons.IH[of "failures @ [err]" ?next] rest obtain errs where "all = HistoryFailed (failures @ err # errs)"
        "tried_and_failed ask epochs_left errs ?next final" by auto
      then show ?thesis unfolding step rest using extend Inl by auto
    next
      case (Inr answer)
      then obtain served threads where "answer = (served, threads)" by fastforce
      with Cons.IH[of "failures @ [err]" ?next] rest Inr obtain tried' errs rest' at
        where "epochs_left = tried' @ served # rest'" "tried_and_failed ask tried' errs ?next at" "ask served at = (Inr threads, final)"
        by auto
      with extend have "e # epochs_left = (e # tried') @ served # rest' \<and>
          tried_and_failed ask (e # tried') (err # errs) world at \<and> ask served at = (Inr threads, final)" by simp
      then show ?thesis unfolding step rest Inr \<open>answer = (served, threads)\<close> prod.case sum.case by blast
    qed
  qed
qed

text \<open>C34. A query of the history falls back from connection to connection and gives up only when it must.
  The connections it may ask are the initialized ones that can send and are not stale, each once, and the
  selected connection first when it is among them. It asks them in this order: the answer is of the first that
  serves it, all before it having been asked and failed. It reports no healthy connection exactly when there is
  none, without asking, and otherwise fails only after all of them failed, with their errors in order.\<close>

theorem history_falls_back:
  assumes "remote_ok (dw_inner world)"
    and "tries = discovery_connection_candidates_locked now_ms (dw_inner world)"
    and "ask = (\<lambda>e at. session_history_threads_on_connection (env e) e client_key page_limit max_pages archived at)"
  shows "distinct tries \<and>
    set tries = cn_connection_epoch ` {connection \<in> snd ` set (ri_connections (dw_inner world)).
      discoverable now_ms (dw_inner world) connection} \<and>
    (\<forall>(connection_id, connection) \<in> set (ri_connections (dw_inner world)).
      select_active_connection_id_locked (dw_inner world) = Some connection_id \<and>
      discoverable now_ms (dw_inner world) connection \<longrightarrow> (\<exists>rest. tries = cn_connection_epoch connection # rest)) \<and>
    (case session_history_threads_with_connection env now_ms client_key page_limit max_pages archived world of
       (Inl err, world') \<Rightarrow> if tries = [] then err = NoHealthyConnection \<and> world' = world
         else \<exists>errs. err = HistoryFailed errs \<and> tried_and_failed ask tries errs world world'
     | (Inr (e, threads), world') \<Rightarrow> (\<exists>tried errs rest at. tries = tried @ e # rest \<and>
         tried_and_failed ask tried errs world at \<and> ask e at = (Inr threads, world')))"
proof (intro conjI)
  show "case session_history_threads_with_connection env now_ms client_key page_limit max_pages archived world of
       (Inl err, world') \<Rightarrow> if tries = [] then err = NoHealthyConnection \<and> world' = world
         else \<exists>errs. err = HistoryFailed errs \<and> tried_and_failed ask tries errs world world'
     | (Inr (e, threads), world') \<Rightarrow> (\<exists>tried errs rest at. tries = tried @ e # rest \<and>
         tried_and_failed ask tried errs world at \<and> ask e at = (Inr threads, world'))"
    using history_from_outcome[OF assms(3), where failures = "[]" and epochs_left = tries and world = world]
    by (auto simp: session_history_threads_with_connection_def simp flip: assms(2) split: prod.splits sum.splits)
qed (auto simp: assms(2) distinct_discovery_epochs[OF assms(1)] set_discovery_epochs
      intro: selected_connection_first[OF assms(1)])

theorem history_falls_back_witness:
  "\<exists>rest. discovery_connection_candidates_locked 5 (dw_inner (sample_daemon runtime_default)) = 2 # rest"
proof -
  let ?w = "sample_daemon runtime_default"
  have entry: "(''b'', sample_working_connection) \<in> set (ri_connections (dw_inner ?w))"
    by (simp add: sample_daemon_def)
  have healthy: "discoverable 5 (dw_inner ?w) sample_working_connection"
    by (simp add: discoverable_def sample_daemon_def sample_working_connection_def sample_connection_def
        remote_control_connection_stale_reason_locked_def remote_control_server_connection_stale_reason_def
        remote_control_liveness_stale_reason_def connection_initialized_def sample_working_def
        connection_for_epoch_locked_def)
  have selected: "select_active_connection_id_locked (dw_inner ?w) = Some ''b''"
    by (simp add: select_active_connection_id_locked_def sample_daemon_def sample_working_connection_def
        sample_connection_def usable_def)
  have "cn_connection_epoch sample_working_connection = 2"
    by (simp add: sample_working_connection_def sample_connection_def)
  with history_falls_back[OF sample_daemon_ok refl refl, where now_ms = 5] entry healthy selected
  show ?thesis by fastforce
qed

end
