(* ===== verification/RcBackend.thy ===== *)
theory RcBackend
  imports RcSessions
begin

section \<open>Every state of the backend (src/src/remote_control_backend)\<close>

text \<open>
  The backend's state is behind one lock. A section of the code that holds it is a step of
  \<open>locked_section\<close>, one constructor for each place that changes the state: opening and closing a
  connection, status, enrollment and client pages, web socket and stream marks, sequence numbers, pending
  entries of requests and of initialize, migration, recovery, thread and turn marks. Between two sections
  any other may run. The operations that take several sections, as the other theories have them, are steps
  of \<open>backend_step\<close> as well. The theorem is the invariant of all states these steps reach.
\<close>

subsection \<open>The locked sections\<close>

text \<open>\<open>rename_remote_control_environment\<close> names the active connection; a blank name changes nothing.\<close>

definition rename_remote_control_environment :: "string option \<Rightarrow> remote_inner \<Rightarrow> remote_inner" where
  "rename_remote_control_environment name remote =
     (case Option.bind name non_blank of
        None \<Rightarrow> remote
      | Some name \<Rightarrow> active_connection_mut_locked (\<lambda>connection. connection\<lparr>cn_server_name := Some name\<rparr>) remote)"

text \<open>The changes of one client a notification or an answer makes.\<close>

definition set_thread_and_turn :: "string option \<Rightarrow> string option \<Rightarrow> remote_client \<Rightarrow> remote_client" where
  "set_thread_and_turn thread_id turn_id client =
     client\<lparr>cl_current_thread_id := opt_or thread_id (cl_current_thread_id client),
       cl_current_turn_id := opt_or turn_id (cl_current_turn_id client)\<rparr>"

definition end_turn_of :: "string option \<Rightarrow> remote_client \<Rightarrow> remote_client" where
  "end_turn_of thread_id client =
     (if thread_id = None \<or> cl_current_thread_id client = thread_id
      then client\<lparr>cl_current_turn_id := None\<rparr> else client)"

definition close_thread :: "string \<Rightarrow> remote_client \<Rightarrow> remote_client" where
  "close_thread thread_id client =
     (if cl_current_thread_id client = Some thread_id
      then client\<lparr>cl_current_thread_id := None, cl_current_turn_id := None\<rparr> else client)"

text \<open>The epoch counter is below its maximum when a connection opens.\<close>

inductive locked_section :: "remote_inner \<Rightarrow> remote_inner \<Rightarrow> bool" where
  opened: "ri_next_connection_epoch r < u64_max \<Longrightarrow> locked_section r (snd (open_connection uuid now tx headers r))"
| closed: "locked_section r (cleanup_remote_control_connection connection_id e err r)"
| pruned: "locked_section r (prune_inactive_remote_connections_locked r)"
| enrolled: "locked_section r (update_live_connection_metadata inst server_id env_id name account r)"
| refreshed: "locked_section r (refresh_live_state now inst server_id env_id account agent r)"
| authorized: "locked_section r (remember_remote_control_client authorized_client r)"
| revoked: "locked_section r (delete_remote_control_client client_id r)"
| renamed: "locked_section r (rename_remote_control_environment name r)"
| described: "locked_section r (connection_for_epoch_mut_locked e (\<lambda>connection.
    connection\<lparr>cn_server_name := name, cn_installation_id := inst, cn_environment_id := env_id, cn_last_error := err\<rparr>) r)"
| ws_inbound: "locked_section r (mark_remote_ws_inbound now e r)"
| ws_ping: "locked_section r (mark_remote_ws_ping now e r)"
| ws_pong: "locked_section r (mark_remote_ws_pong now e r)"
| app_ping: "locked_section r (mark_remote_app_ping uuid now e key r)"
| app_pong: "locked_section r (snd (record_remote_app_pong uuid now e c s status r))"
| event: "locked_section r (record_remote_recent_event now direction e c s q kind summary r)"
| window: "locked_section r (observe_server_envelope_window e c s q t r)"
| delta: "locked_section r (observe_command_output_delta_received now e c s q m cap r)"
| ack_diagnostics: "locked_section r (record_server_ack_diagnostics now e c s q t r)"
| acked: "locked_section r (mark_server_envelope_acked e c s q g r)"
| cursor: "locked_section r (active_connection_mut_locked (\<lambda>connection. connection\<lparr>cn_subscribe_cursor := Some cursor\<rparr>) r)"
| parts: "locked_section r (snd (next_client_envelope_parts uuid key r))"
| stream_parts: "locked_section r (snd (take_seq_for_stream uuid e c s r))"
| initialize_claimed: "locked_section r (snd (claim_initialize uuid e key r))"
| initialize_registered: "locked_section r (snd (ensure_client_state_for_connection_locked uuid e key
    (register_initialize codec now e initialize_id message cursor) r))"
| initialize_accepted: "locked_section r (snd (accept_initialize_result e c s client_key agent r))"
| client_active: "locked_section r (snd (client_state_mut_for_connection_locked e key mark_client_active r))"
| request_registered: "locked_section r
    (snd (register_request codec uuid now target track key request_id meth thread_id message cursor r))"
| request_forgotten: "locked_section r (forget_pending e key pending_key r)"
| request_taken: "locked_section r (snd (client_state_mut_for_connection_locked e key
    (\<lambda>client. (hget (cl_pending client) pending_key,
       client\<lparr>cl_pending := hremove pending_key (cl_pending client)\<rparr>)) r))"
| migrated: "locked_section r (snd (migrate_source_default_client_key_locked e key kind c s r))"
| recovery_begun: "locked_section r (snd (begin_client_recovery uuid now e key c s r))"
| recovery_finished: "locked_section r (snd (finish_remote_control_client_recovery e key r))"
| reset: "locked_section r (snd (take_pending_for_reset uuid e key r))"
| failed: "locked_section r (connection_for_epoch_mut_locked e (\<lambda>connection. connection\<lparr>cn_last_error := err\<rparr>) r)"
| thread_marked: "locked_section r (snd (ensure_client_state_for_connection_locked uuid e key (set_current_thread thread_id) r))"
| turn_started: "locked_section r (snd (record_started_turn uuid key thread_id turn_id r))"
| turn_recorded: "locked_section r (snd (client_state_mut_for_connection_locked e key
    (\<lambda>client. ((), set_thread_and_turn thread turn client)) r))"
| turn_ended: "locked_section r (snd (client_state_mut_for_connection_locked e key (\<lambda>client. ((), end_turn_of thread client)) r))"
| thread_closed: "locked_section r (snd (client_state_mut_for_connection_locked e key (\<lambda>client. ((), close_thread thread_id client)) r))"
| turn_taken: "locked_section r (snd (client_state_mut_for_connection_locked e key (take_turn_of_thread thread_id) r))"
| turn_cleared: "locked_section r (clear_turn_for_client key turn r)"
| thread_cleared: "locked_section r (clear_thread_for_client key thread r)"

lemma remote_ok_rename: "remote_ok r \<Longrightarrow> remote_ok (rename_remote_control_environment name r)"
  unfolding rename_remote_control_environment_def
  by (auto intro!: remote_ok_active_mut simp: connection_ok_def split: option.split)

lemma remote_ok_subscribe:
  "remote_ok r \<Longrightarrow> remote_ok (active_connection_mut_locked (\<lambda>c. c\<lparr>cn_subscribe_cursor := Some cursor\<rparr>) r)"
  by (rule remote_ok_active_mut) (simp_all add: connection_ok_def)

lemma remote_ok_described:
  "remote_ok r \<Longrightarrow> remote_ok (connection_for_epoch_mut_locked e (\<lambda>c. c\<lparr>cn_last_error := err\<rparr>) r)"
  "remote_ok r \<Longrightarrow> remote_ok (connection_for_epoch_mut_locked e (\<lambda>c.
     c\<lparr>cn_server_name := name, cn_installation_id := inst, cn_environment_id := env_id, cn_last_error := err\<rparr>) r)"
  by (rule remote_ok_change; simp add: connection_ok_def)+

lemma client_ok_marks:
  "client_ok client \<Longrightarrow> client_ok (set_thread_and_turn thread turn client)"
  "client_ok client \<Longrightarrow> client_ok (end_turn_of thread client)"
  "client_ok client \<Longrightarrow> client_ok (close_thread thread_id client)"
  "client_ok client \<Longrightarrow> client_ok (snd (take_turn_of_thread thread_id client))"
  "client_ok client \<Longrightarrow> client_ok (snd (set_current_thread thread_id client))"
  "client_ok client \<Longrightarrow> client_ok (snd (mark_client_active client))"
  "client_ok client \<Longrightarrow> client_ok (client\<lparr>cl_pending := hremove pending_key (cl_pending client)\<rparr>)"
  by (simp_all add: client_ok_def set_thread_and_turn_def end_turn_of_def close_thread_def take_turn_of_thread_def
      set_current_thread_def mark_client_active_def)

lemma remote_ok_client_marks:
  assumes "remote_ok r"
  shows "remote_ok (snd (client_state_mut_for_connection_locked e key (\<lambda>client. ((), set_thread_and_turn thread turn client)) r))"
    and "remote_ok (snd (client_state_mut_for_connection_locked e key (\<lambda>client. ((), end_turn_of thread client)) r))"
    and "remote_ok (snd (client_state_mut_for_connection_locked e key (\<lambda>client. ((), close_thread thread_id client)) r))"
    and "remote_ok (snd (client_state_mut_for_connection_locked e key (take_turn_of_thread thread_id) r))"
    and "remote_ok (snd (client_state_mut_for_connection_locked e key mark_client_active r))"
    and "remote_ok (snd (client_state_mut_for_connection_locked e key (\<lambda>client. (hget (cl_pending client) pending_key,
      client\<lparr>cl_pending := hremove pending_key (cl_pending client)\<rparr>)) r))"
  by (rule remote_ok_client_mut[OF assms]; simp add: client_ok_marks)+

lemma remote_ok_ensured:
  assumes "remote_ok r"
  shows "remote_ok (snd (ensure_client_state_for_connection_locked uuid e key (set_current_thread thread_id) r))"
    and "remote_ok (snd (ensure_client_state_for_connection_locked uuid e key (register_initialize codec now e i m cursor) r))"
  by (rule remote_ok_ensure[OF assms]; simp add: client_ok_marks client_ok_register)+

lemma remote_ok_turn_started: "remote_ok r \<Longrightarrow> remote_ok (snd (record_started_turn uuid key thread_id turn_id r))"
  unfolding record_started_turn_def Let_def
  by (auto simp: case_prod_beta client_ok_def intro!: remote_ok_ensure split: option.split)

text \<open>The section that registers a request: the client's next sequence number and pending entry.\<close>

lemma client_ok_request:
  assumes "client_ok client"
  shows "client_ok (snd (if \<not> cl_initialized client then (Inl ClientNotInitialized, client)
    else let (seq_id, client) = take_seq_id client
      in case build_on codec (cl_client_id client) (cl_stream_id client) seq_id message cursor of
           Inl err \<Rightarrow> (Inl (RequestSendFailed err), client)
         | Inr envelopes \<Rightarrow> (Inr (e, envelopes),
             client\<lparr>cl_pending := hinsert key (entry envelopes) (cl_pending client)\<rparr>)))"
  using assms client_ok_take_seq[OF assms]
  by (auto simp: client_ok_def Let_def case_prod_beta split: sum.split)

lemma remote_ok_request:
  assumes "remote_ok r"
  shows "remote_ok (snd (register_request codec uuid now target track key request_id meth thread_id message cursor r))"
  using assms unfolding register_request_def
  by (auto simp: case_prod_beta Let_def[of "ensure_client_state_for_connection_locked _ _ _ _ _"]
      intro!: remote_ok_described remote_ok_ensure client_ok_request split: option.split)

lemma remote_ok_accept: "remote_ok r \<Longrightarrow> remote_ok (snd (accept_initialize_result e c s client_key agent r))"
  using calm_accept_initialize[of r e c s client_key agent] by (simp add: calm_inner_def)

lemma locked_section_ok: "locked_section r r' \<Longrightarrow> remote_ok r \<Longrightarrow> remote_ok r'"
  by (induction rule: locked_section.induct)
    (simp_all add: remote_ok_open remote_ok_cleanup remote_ok_prune remote_ok_metadata remote_ok_refresh
      remote_ok_authorized remote_ok_rename remote_ok_described remote_ok_marks remote_ok_pong remote_ok_record_event
      remote_ok_diagnostics remote_ok_subscribe remote_ok_parts remote_ok_claim_initialize remote_ok_ensured
      remote_ok_accept remote_ok_client_marks remote_ok_request remote_ok_forget remote_ok_migrate
      remote_ok_begin_recovery remote_ok_finish_recovery remote_ok_take_pending remote_ok_turn_started remote_ok_clear)

subsection \<open>Requests keep the state well formed\<close>

text \<open>What other tasks do while a request waits.\<close>

definition tasks_keep :: "(daemon_world \<Rightarrow> bool) \<Rightarrow> others list \<Rightarrow> bool" where
  "tasks_keep P tasks \<longleftrightarrow> (\<forall>task \<in> set tasks. \<forall>w. P w \<longrightarrow> P (task w))"

definition env_keeps :: "(daemon_world \<Rightarrow> bool) \<Rightarrow> request_env \<Rightarrow> bool" where
  "env_keeps P env \<longleftrightarrow>
     tasks_keep P (rq_recovery_polls env) \<and> tasks_keep P (rq_ready_polls env) \<and> tasks_keep P [rq_until_answer env]"

lemma keeps_poll: "tasks_keep P polls \<Longrightarrow> P w \<Longrightarrow> P (snd (poll_until check polls w))"
  by (induction polls arbitrary: w) (auto simp: tasks_keep_def split: option.split)

lemma keeps_and_then: "P (snd r) \<Longrightarrow> (\<And>x w. P w \<Longrightarrow> P (snd (f x w))) \<Longrightarrow> P (snd (and_then r f))"
  by (cases r; cases "fst r") auto

lemma keeps_wait:
  "tasks_keep P polls \<Longrightarrow> P w \<Longrightarrow> P (snd (wait_for_remote_control_initialized polls key w))"
  "tasks_keep P polls \<Longrightarrow> P w \<Longrightarrow> P (snd (wait_for_remote_control_initialized_on_connection polls e key w))"
  "tasks_keep P polls \<Longrightarrow> P w \<Longrightarrow> P (snd (wait_for_recovery_if_needed polls key w))"
proof -
  have both: "P (snd (case r of (Some result, w) \<Rightarrow> (result, w) | (None, w) \<Rightarrow> (Inl InitializeIncomplete, w)))"
    if "P (snd r)" for r :: "(request_error + 'a) option \<times> daemon_world"
    using that by (cases r; cases "fst r") auto
  show first: "tasks_keep P polls \<Longrightarrow> P w \<Longrightarrow> P (snd (wait_for_remote_control_initialized polls key w))" for w key
    unfolding wait_for_remote_control_initialized_def
    using keeps_poll[of P polls w "initialized_check (normalize_remote_client_key key)"]
    by (auto split: prod.split option.split)
  show "tasks_keep P polls \<Longrightarrow> P w \<Longrightarrow> P (snd (wait_for_remote_control_initialized_on_connection polls e key w))"
    unfolding wait_for_remote_control_initialized_on_connection_def
    using keeps_poll[of P polls w "initialized_on_connection_check e (normalize_remote_client_key key)"]
    by (auto split: prod.split option.split)
  show "tasks_keep P polls \<Longrightarrow> P w \<Longrightarrow> P (snd (wait_for_recovery_if_needed polls key w))"
    unfolding wait_for_recovery_if_needed_def Let_def using first by simp
qed

lemma daemon_ok_with_remote:
  "(\<And>remote. world_ok remote \<Longrightarrow> world_ok (snd (operation remote))) \<Longrightarrow> daemon_ok display w \<Longrightarrow>
     daemon_ok display (snd (with_remote operation w))"
  by (simp add: with_remote_def case_prod_beta daemon_ok_def)

lemma daemon_ok_lift: "daemon_ok display (snd r) \<Longrightarrow> daemon_ok display (snd (lift_error f r))"
  by (cases r; cases "fst r") (auto simp: lift_error_def)

lemma daemon_ok_ready:
  assumes "env_keeps (daemon_ok display) env" and "daemon_ok display w"
  shows "daemon_ok display (snd (ensure_initialized env e key w))"
    and "daemon_ok display (snd (ensure_remote_control_client_ready env key w))"
proof -
  show ready: "daemon_ok display (snd (ensure_initialized env e key w))" for e key
    unfolding ensure_initialized_def by (intro daemon_ok_lift daemon_ok_with_remote world_ok_ensure_initialized assms)
  have polls: "tasks_keep (daemon_ok display) (rq_ready_polls env)" using assms(1) by (simp add: env_keeps_def)
  have both: "daemon_ok display (snd (and_then (ensure_initialized env e key w)
      (\<lambda>_. wait_for_remote_control_initialized (rq_ready_polls env) key)))" for e key
    by (rule keeps_and_then[of "daemon_ok display", OF ready keeps_wait(1)[OF polls]])
  show "daemon_ok display (snd (ensure_remote_control_client_ready env key w))"
    unfolding ensure_remote_control_client_ready_def Let_def
    using assms(2) both by (simp split: option.split)
qed

lemma daemon_ok_forget_request: "daemon_ok display w \<Longrightarrow> daemon_ok display (forget_request e key i w)"
  by (simp add: forget_request_def daemon_ok_def change_inner_def remote_ok_forget)

lemma daemon_ok_await: "daemon_ok display w \<Longrightarrow> daemon_ok display (snd (await_answer e key i w))"
  by (auto simp: await_answer_def daemon_ok_forget_request split: option.split sum.split)

lemma daemon_ok_send_request:
  assumes "env_keeps (daemon_ok display) env" and "daemon_ok display w"
  shows "daemon_ok display (snd (send_request env target track key meth params w))"
proof -
  have until: "daemon_ok display (rq_until_answer env w)" if "daemon_ok display w" for w
    using assms(1) that by (simp add: env_keeps_def tasks_keep_def)
  have ids: "daemon_ok display (snd (with_remote next_request_id w))" if "daemon_ok display w" for w
    by (intro daemon_ok_with_remote world_ok_request_id that)
  have cursors: "daemon_ok display (snd (with_remote next_remote_subscribe_cursor w))" if "daemon_ok display w" for w
    by (intro daemon_ok_with_remote world_ok_cursor that)
  have registered: "daemon_ok display (snd (with_remote (with_inner (register_request (rq_codec env) (rq_uuid env)
      (rq_now_ms env) target track key i meth t m c)) w))" if "daemon_ok display w" for i t m c w
    by (intro daemon_ok_with_remote world_ok_with_inner remote_ok_request that)
  have sent: "daemon_ok display (snd (with_remote (send_envelopes_on_connection (rq_codec env) (rq_now_ms env) e envelopes) w))"
    if "daemon_ok display w" for e envelopes w
    by (intro daemon_ok_with_remote world_ok_send_envelopes that)
  let ?send = "\<lambda>e envelopes. with_remote (send_envelopes_on_connection (rq_codec env) (rq_now_ms env) e envelopes)"
  have last: "daemon_ok display (snd (case fst (?send e envelopes w) of
        Inl err \<Rightarrow> (Inl (RequestSendFailed err), forget_request e key i (snd (?send e envelopes w)))
      | Inr _ \<Rightarrow> await_answer e key i (rq_until_answer env (snd (?send e envelopes w)))))"
    if "daemon_ok display w" for e envelopes i w
    using sent[OF that, of e envelopes] until daemon_ok_await daemon_ok_forget_request by (auto split: sum.split)
  show ?thesis
    unfolding send_request_def Let_def case_prod_beta
    by (intro keeps_and_then[of "daemon_ok display"] registered cursors ids assms(2)) (rule last)
qed

lemma daemon_ok_request_once:
  assumes env: "env_keeps (daemon_ok display) env" and ok: "daemon_ok display w"
  shows "daemon_ok display
    (snd (request_once_with_timeout_for_client_inner env target wait track key meth params w))"
proof -
  note steps = keeps_and_then[of "daemon_ok display"]
  have polls: "tasks_keep (daemon_ok display) (rq_recovery_polls env)" "tasks_keep (daemon_ok display) (rq_ready_polls env)"
    using env by (simp_all add: env_keeps_def)
  have ready: "daemon_ok display (snd (case target of
        Some e \<Rightarrow> and_then (ensure_initialized env e key w)
          (\<lambda>_. wait_for_remote_control_initialized_on_connection (rq_ready_polls env) e key)
      | None \<Rightarrow> and_then (ensure_remote_control_client_ready env key w) (\<lambda>_ w. (Inr key, w))))"
    if "daemon_ok display w" for key w
    using daemon_ok_ready[OF env that] keeps_wait(2)[OF polls(2)]
    by (auto intro!: steps split: option.split)
  show ?thesis
    unfolding request_once_with_timeout_for_client_inner_def Let_def
    using ok by (auto intro!: steps keeps_wait(3)[OF polls(1)] ready daemon_ok_send_request[OF env])
qed

lemma daemon_ok_last_attempt:
  assumes "env_keeps (daemon_ok display) env" and "daemon_ok display w"
  shows "daemon_ok display (snd (last_attempt env key meth params w))"
  using daemon_ok_request_once[OF assms, of None True True key meth params]
  by (auto simp: last_attempt_def request_once_with_timeout_for_client_def split: prod.split sum.split)

lemma daemon_ok_request:
  assumes env: "\<And>i. env_keeps (daemon_ok display) (env i)" and polls: "tasks_keep (daemon_ok display) polls"
    and ok: "daemon_ok display w"
  shows "daemon_ok display (snd (request_with_timeout_for_client env polls key meth params w))"
proof (cases "should_retry_request_after_reinitialize meth")
  case False
  then show ?thesis
    using daemon_ok_last_attempt[OF env ok]
    by (simp add: request_with_timeout_for_client_def last_attempt_loop)
next
  case True
  let ?key = "normalize_remote_client_key key"
  obtain r w' where once: "request_once_with_timeout_for_client (env 0) ?key meth params w = (r, w')" by fastforce
  then have ok': "daemon_ok display w'"
    using daemon_ok_request_once[OF env ok, of 0 None True True ?key meth params]
    by (simp add: request_once_with_timeout_for_client_def)
  have "daemon_ok display (snd (and_then (wait_for_remote_control_initialized polls ?key w')
      (\<lambda>_ w. last_attempt (env 1) ?key meth params
         (push_event ''warn'' ''remote_control_request_retry_after_reinitialize'' w))))"
    by (intro keeps_and_then[of "daemon_ok display"] keeps_wait(1)[OF polls ok'] daemon_ok_last_attempt[OF env])
      simp
  then show ?thesis
    using ok' by (simp add: request_with_timeout_for_client_def first_attempt_loop[OF True] once split: sum.split)
qed

subsection \<open>Every reachable state\<close>

inductive backend_step :: "(json \<Rightarrow> string) \<Rightarrow> daemon_world \<Rightarrow> daemon_world \<Rightarrow> bool" for display where
  section_run: "locked_section (dw_inner w) remote \<Longrightarrow>
    backend_step display w (w\<lparr>dw_remote := (dw_remote w)\<lparr>rw_inner := remote\<rparr>\<rparr>)"
| operation_run: "daemon_step display w w' \<Longrightarrow> backend_step display w w'"
| requested: "(\<And>i. env_keeps (daemon_ok display) (env i)) \<Longrightarrow> tasks_keep (daemon_ok display) polls \<Longrightarrow>
    backend_step display w (snd (request_with_timeout_for_client env polls key meth params w))"
| requested_on: "env_keeps (daemon_ok display) once \<Longrightarrow>
    backend_step display w (snd (request_once_with_timeout_for_client_on_connection once e key meth params w))"
| elsewhere: "dw_remote w' = dw_remote w \<Longrightarrow> dw_runtime w' = dw_runtime w \<Longrightarrow> backend_step display w w'"

lemma backend_step_ok: "backend_step display w w' \<Longrightarrow> daemon_ok display w \<Longrightarrow> daemon_ok display w'"
proof (induction rule: backend_step.induct)
  case (section_run w remote)
  then show ?case using locked_section_ok by (simp add: daemon_ok_def)
next
  case (operation_run w w')
  then show ?case using daemon_step_ok by blast
next
  case (requested env polls w key meth params)
  then show ?case using daemon_ok_request by blast
next
  case (requested_on once w e key meth params)
  then show ?case
    using daemon_ok_request_once by (simp add: request_once_with_timeout_for_client_on_connection_def)
next
  case (elsewhere w' w)
  then show ?case by (simp add: daemon_ok_def)
qed

lemma backend_run_ok:
  assumes "(backend_step display)\<^sup>*\<^sup>* daemon_new w"
  shows "remote_ok (dw_inner w)"
proof -
  have "daemon_ok display w"
    using assms
  proof (induction rule: rtranclp_induct)
    case base
    then show ?case by (simp add: daemon_ok_def daemon_new_def reachable_default world_new_def remote_ok_new)
  next
    case (step v w)
    then show ?case using backend_step_ok by blast
  qed
  then show ?thesis by (simp add: daemon_ok_def)
qed

lemma connection_found_by_epoch:
  assumes "remote_ok r" and "(k, c) \<in> set (ri_connections r)"
  shows "connection_for_epoch_locked r (cn_connection_epoch c) = Some c"
proof -
  have "List.find (\<lambda>x. cn_connection_epoch x = cn_connection_epoch c) (map snd m) = Some c"
    if "distinct (map (\<lambda>(_, c). cn_connection_epoch c) m)" "(k, c) \<in> set m"
    for m :: "(string, server_connection) hmap" using that by (induction m) force+
  then show ?thesis using assms by (simp add: connection_for_epoch_locked_def remote_ok_def epochs_def)
qed

lemma remote_ok_client:
  assumes "remote_ok r" and "(k, c) \<in> set (ri_connections r)" and "(key, client) \<in> set (cn_clients c)"
  shows "client_ok client"
  using assms by (fastforce simp: remote_ok_def connection_ok_def clients_ok_def)

text \<open>C40. Every state the backend reaches is well formed. Its state changes only in sections that hold the
  lock, and every one of them is a step here, in any order and with any arguments: connections opening and
  closing, status, enrollment and client pages, marks of pings and envelopes, clients created, migrated,
  recovered and reset, sequence numbers, requests registered, answered and forgotten, threads and turns
  marked and cleared; the operations composed of them are steps too (requests with whatever the other tasks
  do while they wait, as long as that keeps the state well formed). In every such state a connection is
  stored once, under its own identifier, and found by its epoch, which no other connection has and the
  counter has passed; every client of it is the bridge client with a positive 64-bit sequence number; no map
  has a key twice; and at most 96 recent events are kept. The epoch counter is assumed below its 64-bit
  maximum whenever a connection opens.\<close>

theorem remote_states_well_formed:
  assumes "(backend_step display)\<^sup>*\<^sup>* daemon_new w"
  shows "hwf (ri_connections (dw_inner w)) \<and> distinct (epochs (dw_inner w)) \<and>
    (\<forall>(connection_id, connection) \<in> set (ri_connections (dw_inner w)).
       cn_connection_id connection = connection_id \<and>
       connection_for_epoch_locked (dw_inner w) (cn_connection_epoch connection) = Some connection \<and>
       cn_connection_epoch connection \<le> ri_next_connection_epoch (dw_inner w) \<and>
       hwf (cn_clients connection) \<and> hwf (cn_server_ack_cursors connection) \<and>
       (\<forall>(key, client) \<in> set (cn_clients connection).
          cl_client_id client = MOCHIPORT_BRIDGE_CLIENT_ID \<and> 1 \<le> cl_next_seq_id client \<and>
          cl_next_seq_id client \<le> u64_max \<and> hwf (cl_pending client))) \<and>
    length (ri_recent_events (dw_inner w)) \<le> REMOTE_CONTROL_RECENT_EVENT_LIMIT"
proof -
  have ok: "remote_ok (dw_inner w)" by (rule backend_run_ok[OF assms])
  have passed: "cn_connection_epoch c \<le> ri_next_connection_epoch (dw_inner w)"
    if "(k, c) \<in> set (ri_connections (dw_inner w))" for k c
    using ok that by (fastforce simp: remote_ok_def epochs_def)
  show ?thesis
    using ok passed connection_found_by_epoch[OF ok] remote_ok_client[OF ok]
    by (fastforce simp: remote_ok_def connection_ok_def clients_ok_def client_ok_def)
qed

theorem remote_states_well_formed_witness:
  "distinct (epochs (snd (open_connection ''v'' 6 2 sample_headers
     (snd (open_connection ''u'' 5 1 sample_headers remote_inner_new)))))"
proof -
  let ?r1 = "snd (open_connection ''u'' 5 1 sample_headers remote_inner_new)"
  let ?r2 = "snd (open_connection ''v'' 6 2 sample_headers ?r1)"
  let ?w1 = "daemon_new\<lparr>dw_remote := (dw_remote daemon_new)\<lparr>rw_inner := ?r1\<rparr>\<rparr>"
  let ?w2 = "?w1\<lparr>dw_remote := (dw_remote ?w1)\<lparr>rw_inner := ?r2\<rparr>\<rparr>"
  have new: "dw_inner daemon_new = remote_inner_new" by (simp add: daemon_new_def world_new_def)
  have "ri_next_connection_epoch ?r1 = sat_add 0 1"
    by (simp add: open_next_epoch remote_inner_new_def del: One_nat_def)
  then have below: "ri_next_connection_epoch ?r1 < u64_max" by (simp add: sat_add_def u64_max_def)
  have "locked_section (dw_inner daemon_new) ?r1"
    unfolding new by (rule locked_section.opened) (simp add: remote_inner_new_def u64_max_def)
  then have first: "backend_step (\<lambda>_. []) daemon_new ?w1" by (rule backend_step.section_run)
  have "locked_section (dw_inner ?w1) ?r2" using locked_section.opened[OF below] by simp
  then have "backend_step (\<lambda>_. []) ?w1 ?w2" by (rule backend_step.section_run)
  then have "(backend_step (\<lambda>_. []))\<^sup>*\<^sup>* daemon_new ?w2" using first by simp
  then have "distinct (epochs (dw_inner ?w2))" using remote_states_well_formed by blast
  then show ?thesis by simp
qed

end
