(* ===== verification/RuntimeProperties.thy ===== *)
theory RuntimeProperties
  imports RuntimeSystem
begin

section \<open>Properties of the runtime's turns, indicators and generations (src/src/im/runtime.rs)\<close>

text \<open>
  The properties of typing indicators, of starting and completing turns, of the terminal-status
  fallback and the terminal notices, and of what starting a bridge generation or unbinding a
  conversation leaves. Where they speak of reachable states they rest on \<open>RuntimeSystem\<close>.
\<close>

subsection \<open>Typing indicators\<close>

text \<open>One indicator per thread. In every reachable state a thread (whose id has no unit separator)
  has at most one typing indicator, and while it has one for an item, a start for another item of the
  thread is refused and changes nothing.\<close>

theorem one_typing_indicator_per_thread:
  assumes "runtime_reachable display rs" and "unit_separator \<notin> set t"
    and "hcontains (telegram_typing_by_item rs) (typing_key t i)"
  shows "(hcontains (telegram_typing_by_item rs) (typing_key t j) \<longrightarrow> i = j) \<and>
    (i \<noteq> j \<longrightarrow> start_telegram_typing t j rs = (None, rs))"
proof -
  have inv: "typing_inv rs" using reachable_inv[OF assms(1)] by (simp add: runtime_inv_def)
  have unique: "hcontains (telegram_typing_by_item rs) (typing_key t j) \<Longrightarrow> i = j"
    by (rule typing_inv_unique[OF inv assms(2,3)])
  have "list_ex (starts_with (typing_thread_prefix t)) (map fst (telegram_typing_by_item rs))"
    using assms(3) by (force simp: list_ex_iff hcontains_iff typing_key_def)
  then show ?thesis using unique by (auto simp: start_telegram_typing_def Let_def)
qed

definition sample_typing :: runtime_state where
  "sample_typing = snd (start_telegram_typing ''th'' ''turn:t1'' runtime_default)"

lemma sample_typing_reachable: "runtime_reachable display sample_typing"
  unfolding sample_typing_def
  by (rule reachable_step[OF reachable_default runtime_step.typing], rule typing_step.step_start) code_simp

lemma sample_typing_item:
  "hget (telegram_typing_by_item sample_typing) (typing_key ''th'' ''turn:t1'') =
     Some \<lparr> ty_generation = 1, ty_sending = True, ty_dirty = True, ty_finished = False, ty_revision = 1,
       ty_last_attempt_at_ms = 0, ty_wake_driver = 0, ty_completed = 1 \<rparr>"
  by (simp add: sample_typing_def start_telegram_typing_def register_typing_def put_typing_def bump_typing_def
      sat_add_def u64_max_def i64_max_def Let_def)

theorem one_typing_indicator_per_thread_witness:
  "start_telegram_typing ''th'' ''reply'' sample_typing = (None, sample_typing)"
proof -
  have sep: "unit_separator \<notin> set ''th''" by code_simp
  have has: "hcontains (telegram_typing_by_item sample_typing) (typing_key ''th'' ''turn:t1'')"
    by (simp add: hcontains_def sample_typing_item)
  show ?thesis
    using one_typing_indicator_per_thread[OF sample_typing_reachable sep has, of "''reply''"] by simp
qed

text \<open>A stopped indicator is delivered and removed. Stopping a thread marks its indicator finished
  and dirty, so the driver's next round takes a snapshot of the finished state without delay, and
  reporting the send, whether it succeeded or failed, removes the indicator, stops the driver and
  notifies whoever waits for its completion.\<close>

theorem stopped_typing_is_delivered:
  assumes "runtime_reachable display rs"
    and "hget (telegram_typing_by_item rs) (typing_key t i) = Some ty"
    and "stopped_rs = snd (stop_telegram_typing_for_thread t terminal turn rs)"
    and "take_telegram_typing_snapshot t i (ty_generation ty) now stopped_rs = (snap, snapped)"
    and "complete_telegram_typing_send t i (ty_generation ty) revision succeeded snapped = (action, final)"
    and "\<not> succeeded \<or> revision = ty_revision (finished_typing ty)"
  shows "telegram_typing_send_delay_ms t i (ty_generation ty) now throttle stopped_rs = Some 0 \<and>
    snap = Some (True, ty_revision (finished_typing ty)) \<and> action = Stop \<and>
    \<not> hcontains (telegram_typing_by_item final) (typing_key t i) \<and> ty_completed ty \<in> set (notify_log final)"
proof -
  have "hwf (telegram_typing_by_item rs)"
    using reachable_inv[OF assms(1)] by (simp add: runtime_inv_def typing_inv_def typing_items_ok_def)
  then have stopped: "hget (telegram_typing_by_item stopped_rs) (typing_key t i) = Some (finished_typing ty)"
    using stop_typing_lookup assms(2,3) by simp
  have fail: "complete_telegram_typing_send t i g r False s = complete_telegram_typing_send t i g r' False s"
    for g r r' and s :: runtime_state by (cases "hget (telegram_typing_by_item s) (typing_key t i)")
      (simp_all add: complete_telegram_typing_send_def Let_def)
  have "complete_telegram_typing_send t i (ty_generation ty) (ty_revision (finished_typing ty)) succeeded snapped
      = (action, final)"
    using assms(5,6) fail[of "ty_generation ty" "ty_revision (finished_typing ty)" snapped revision]
    by (cases succeeded) auto
  then show ?thesis
    using finished_typing_round(1)[OF stopped assms(4)]
      finished_typing_round(2-4)[OF stopped assms(4), of succeeded] stopped
    by (simp add: telegram_typing_send_delay_ms_def)
qed

theorem stopped_typing_is_delivered_witness:
  "\<exists>rs2 rs3. take_telegram_typing_snapshot ''th'' ''turn:t1'' 1 7
      (snd (stop_telegram_typing_for_thread ''th'' True None sample_typing)) = (Some (True, 2), rs2) \<and>
    complete_telegram_typing_send ''th'' ''turn:t1'' 1 2 True rs2 = (Stop, rs3) \<and>
    \<not> hcontains (telegram_typing_by_item rs3) (typing_key ''th'' ''turn:t1'')"
proof -
  let ?stopped = "snd (stop_telegram_typing_for_thread ''th'' True None sample_typing)"
  obtain snap rs2 where snap: "take_telegram_typing_snapshot ''th'' ''turn:t1'' 1 7 ?stopped = (snap, rs2)"
    by fastforce
  obtain action rs3 where sent: "complete_telegram_typing_send ''th'' ''turn:t1'' 1 2 True rs2 = (action, rs3)"
    by fastforce
  have rev: "ty_revision (finished_typing \<lparr> ty_generation = 1, ty_sending = True, ty_dirty = True,
      ty_finished = False, ty_revision = 1, ty_last_attempt_at_ms = 0, ty_wake_driver = 0, ty_completed = 1 \<rparr>) = 2"
    by (simp add: finished_typing_def bump_typing_def sat_add_def u64_max_def)
  show ?thesis
    using stopped_typing_is_delivered[OF sample_typing_reachable sample_typing_item refl,
        where terminal = True and turn = None and now = 7 and snap = snap and snapped = rs2 and revision = 2
          and succeeded = True and action = action and final = rs3]
      snap sent rev by simp
qed

text \<open>A completed indicator stays completed. After an item's indicator is first remembered as
  completed, it cannot be started again, whatever fewer than 512 other indicators complete
  meanwhile.\<close>

theorem completed_typing_not_restarted:
  assumes "runtime_reachable display rs" and "typing_key t i \<notin> telegram_completed_typing_keys rs"
    and "length ks < TELEGRAM_COMPLETED_TYPING_HISTORY_MAX"
    and "rs' = fold remember_completed_typing ks (remember_completed_typing (typing_key t i) rs)"
  shows "start_telegram_typing t i rs' = (None, rs')"
proof -
  have "typing_history.coherent rs"
    using reachable_inv[OF assms(1)] by (simp add: runtime_inv_def typing_inv_def)
  then have "typing_key t i \<in> telegram_completed_typing_keys rs'"
    using typing_history.remembered_recently[OF _ assms(2,3)] assms(4) by simp
  then show ?thesis by (simp add: start_telegram_typing_def Let_def)
qed

theorem completed_typing_not_restarted_witness:
  "fst (start_telegram_typing ''th'' ''turn:t1'' (fold remember_completed_typing
      (map (\<lambda>n. typing_key ''th'' (show_nat n)) [0..<511])
      (remember_completed_typing (typing_key ''th'' ''turn:t1'') sample_typing))) = None"
proof -
  have fresh: "typing_key ''th'' ''turn:t1'' \<notin> telegram_completed_typing_keys sample_typing"
    by (simp add: sample_typing_def start_telegram_typing_def register_typing_def put_typing_def Let_def)
  have len: "length (map (\<lambda>n. typing_key ''th'' (show_nat n)) [0..<511]) < TELEGRAM_COMPLETED_TYPING_HISTORY_MAX"
    by (simp add: TELEGRAM_COMPLETED_TYPING_HISTORY_MAX_def)
  show ?thesis
    using completed_typing_not_restarted[OF sample_typing_reachable fresh len refl] by simp
qed

subsection \<open>Turns\<close>

text \<open>C4. Starting a turn is exclusive. A start is granted exactly when the thread has no turn starting
  or running; once granted, a second start is refused as starting, and, after the turn was reported
  started, as running that turn; completing the turn (or clearing the start) frees the thread again.\<close>

theorem turn_start_exclusive:
  "(fst (try_mark_turn_starting t rs) = Inr () \<longleftrightarrow> \<not> turn_in_progress t rs) \<and>
   (try_mark_turn_starting t rs = (Inr (), rs1) \<longrightarrow>
      fst (try_mark_turn_starting t rs1) = Inl Starting \<and>
      fst (try_mark_turn_starting t (clear_turn_starting t rs1)) = Inr ()) \<and>
   fst (try_mark_turn_starting t (mark_turn_started t turn now rs)) = Inl (Running turn) \<and>
   fst (try_mark_turn_starting t (snd (mark_turn_completed t (Some turn) later
     (mark_turn_started t turn now rs)))) = Inr ()"
proof -
  have a: "fst (try_mark_turn_starting t rs) = Inr () \<longleftrightarrow> \<not> turn_in_progress t rs"
    by (auto simp: try_mark_turn_starting_def turn_in_progress_def hcontains_def split: option.split)
  have b: "try_mark_turn_starting t rs = (Inr (), rs1) \<Longrightarrow>
      fst (try_mark_turn_starting t rs1) = Inl Starting \<and>
      fst (try_mark_turn_starting t (clear_turn_starting t rs1)) = Inr ()"
    by (auto simp: try_mark_turn_starting_def clear_turn_starting_def split: option.splits if_splits)
  have started: "current_turn_by_thread (mark_turn_started t turn now rs) = hinsert t turn (current_turn_by_thread rs)"
    by (simp add: mark_turn_started_def Let_def split: option.split)
  then have c: "fst (try_mark_turn_starting t (mark_turn_started t turn now rs)) = Inl (Running turn)"
    by (simp add: try_mark_turn_starting_def)
  have "fst (try_mark_turn_starting t (snd (mark_turn_completed t (Some turn) later
     (mark_turn_started t turn now rs)))) = Inr ()"
    by (simp add: mark_turn_completed_def started try_mark_turn_starting_def complete_accepted_turn_maps)
  then show ?thesis using a b c by blast
qed

theorem turn_start_exclusive_witness:
  "fst (try_mark_turn_starting ''th'' (snd (try_mark_turn_starting ''th'' runtime_default))) = Inl Starting"
proof -
  have "try_mark_turn_starting ''th'' runtime_default
      = (Inr (), snd (try_mark_turn_starting ''th'' runtime_default))"
    by (simp add: try_mark_turn_starting_def)
  then show ?thesis using turn_start_exclusive[of "''th''" runtime_default] by blast
qed

text \<open>Only the current turn's completion counts. A completion that names another turn than the
  current one is refused, and only forgets that turn's origin; an accepted one leaves the thread idle
  with no indicator, no fallback latch and its finish time recorded, and keeps the aggregate message
  only when its completed state is being sent, then with the order to clean up after the delivery.\<close>

theorem turn_completion:
  assumes "mark_turn_completed t turn now rs = (accepted, rs')"
  shows "if turn \<noteq> None \<and> current_turn_id t rs \<noteq> turn
    then \<not> accepted \<and> rs' = rs\<lparr>turn_origin_by_id := hremove (the turn) (turn_origin_by_id rs)\<rparr>
    else accepted \<and> \<not> turn_in_progress t rs' \<and>
      \<not> hcontains (telegram_typing_by_item rs') (typing_key t i) \<and>
      \<not> hcontains (terminal_status_fallback_by_thread rs') t \<and>
      hget (turn_finished_at_by_thread rs') t = Some now \<and>
      hget (telegram_command_progress_by_thread rs') t =
        (case hget (telegram_command_progress_by_thread rs) t of
           None \<Rightarrow> None
         | Some p \<Rightarrow> if pg_completed p \<and> pg_sending p then Some (p\<lparr>pg_cleanup_after_delivery := True\<rparr>) else None)"
proof (cases "turn \<noteq> None \<and> current_turn_id t rs \<noteq> turn")
  case True
  then show ?thesis using assms by (auto simp: mark_turn_completed_def current_turn_id_def)
next
  case False
  then have acc: "accepted" "rs' = complete_accepted_turn t turn now rs"
    using assms by (auto simp: mark_turn_completed_def current_turn_id_def split: option.splits)
  have typing: "telegram_typing_by_item rs' = telegram_typing_by_item (clear_telegram_typing_for_thread t rs0)"
    if "rs0 = (case opt_or turn (hget (current_turn_by_thread rs) t) of
        None \<Rightarrow> rs\<lparr>terminal_status_fallback_by_thread := hremove t (terminal_status_fallback_by_thread rs),
          starting_turn_by_thread := starting_turn_by_thread rs - {t},
          current_turn_by_thread := hremove t (current_turn_by_thread rs)\<rparr>
      | Some tid \<Rightarrow> rs\<lparr>terminal_status_fallback_by_thread := hremove t (terminal_status_fallback_by_thread rs),
          starting_turn_by_thread := starting_turn_by_thread rs - {t},
          current_turn_by_thread := hremove t (current_turn_by_thread rs),
          turn_origin_by_id := hremove tid (turn_origin_by_id rs)\<rparr>)" for rs0
    using that by (auto simp: acc(2) complete_accepted_turn_def Let_def split: option.split)
  have "\<not> hcontains (telegram_typing_by_item rs') (typing_key t i)"
    using typing[OF refl] clear_typing_removes by simp
  moreover have "hget (turn_finished_at_by_thread rs') t = Some now"
    by (simp add: acc(2) complete_accepted_turn_def Let_def)
  moreover have "hget (telegram_command_progress_by_thread rs') t =
        (case hget (telegram_command_progress_by_thread rs) t of
           None \<Rightarrow> None
         | Some p \<Rightarrow> if pg_completed p \<and> pg_sending p then Some (p\<lparr>pg_cleanup_after_delivery := True\<rparr>) else None)"
    by (simp add: acc(2) completed_progress_map retire_progress_map Let_def split: option.split)
  moreover have "\<not> turn_in_progress t rs'" "\<not> hcontains (terminal_status_fallback_by_thread rs') t"
    by (simp_all add: acc(2) complete_accepted_turn_maps turn_in_progress_def)
  ultimately show ?thesis using False acc(1) by simp
qed

theorem turn_completion_witness:
  "\<not> turn_in_progress ''th'' (snd (mark_turn_completed ''th'' (Some ''t1'') 9 sample_runtime))"
  using turn_completion[OF prod.collapse[symmetric, of "mark_turn_completed ''th'' (Some ''t1'') 9 sample_runtime"]]
    sample_runtime_progress(2) by simp

subsection \<open>The terminal-status fallback and the terminal notices\<close>

text \<open>The fallback latch is consumed once. A claim succeeds only for the thread's current turn and
  the latch's own token; it leaves the turn running and consumes the latch, so every further claim for
  the thread fails until a new latch is registered.\<close>

theorem fallback_claimed_once:
  assumes "claim_terminal_status_fallback t turn token rs = (True, consumed)"
  shows "current_turn_id t rs = Some turn \<and> terminal_status_fallback_matches_token t turn token rs \<and>
    current_turn_id t consumed = Some turn \<and>
    claim_terminal_status_fallback t turn' token' consumed = (False, consumed)"
  using assms
  by (auto simp: claim_terminal_status_fallback_def terminal_status_fallback_matches_token_def
      current_turn_id_def split: if_splits option.splits)

definition sample_latch :: runtime_state where
  "sample_latch = snd (start_terminal_status_fallback ''th'' ''t1'' sample_runtime)"

lemma sample_latch_started:
  "start_terminal_status_fallback ''th'' ''t1'' sample_runtime = (Some 1, sample_latch)"
  "terminal_status_fallback_matches_token ''th'' ''t1'' 1 sample_latch"
  "current_turn_id ''th'' sample_latch = Some ''t1''"
proof -
  have none: "terminal_status_fallback_by_thread sample_runtime = []"
    "next_terminal_status_fallback_token sample_runtime = 0"
    by (simp_all add: sample_runtime_def upsert_telegram_command_progress_def with_reset_progress_def
        mark_turn_started_def put_progress_def Let_def split_def split: option.split)
  show "start_terminal_status_fallback ''th'' ''t1'' sample_runtime = (Some 1, sample_latch)"
    "terminal_status_fallback_matches_token ''th'' ''t1'' 1 sample_latch"
    "current_turn_id ''th'' sample_latch = Some ''t1''"
    using sample_runtime_progress(2) none
    by (simp_all add: sample_latch_def start_terminal_status_fallback_def next_fallback_token_def put_fallback_def
        terminal_status_fallback_matches_token_def current_turn_id_def Let_def)
qed

theorem fallback_claimed_once_witness:
  "\<not> fst (claim_terminal_status_fallback ''th'' ''t1'' 1
     (snd (claim_terminal_status_fallback ''th'' ''t1'' 1 sample_latch)))"
proof -
  have "claim_terminal_status_fallback ''th'' ''t1'' 1 sample_latch
      = (True, snd (claim_terminal_status_fallback ''th'' ''t1'' 1 sample_latch))"
    using sample_latch_started by (simp add: claim_terminal_status_fallback_def)
  from fallback_claimed_once[OF this, of "''t1''" 1] show ?thesis by simp
qed

text \<open>The two fallback drivers share one latch. Once the event driver was started for the current
  turn, it is not started again; the server driver is given the same token, and told to start only the
  first time; the token then claims the latch.\<close>

theorem fallback_drivers_share_token:
  assumes "start_terminal_status_fallback t turn rs = (Some token, started)"
  shows "start_terminal_status_fallback t turn started = (None, started) \<and>
    (\<exists>fresh joined. register_terminal_status_fallback_token t turn started = (Some (token, fresh), joined) \<and>
      fst (register_terminal_status_fallback_token t turn joined) = Some (token, False) \<and>
      fst (claim_terminal_status_fallback t turn token joined))"
proof -
  obtain fb where fb: "hget (terminal_status_fallback_by_thread started) t = Some fb" "fb_turn_id fb = turn"
    "fb_token fb = token" "fb_event_driver_started fb" "current_turn_id t started = Some turn"
    using assms
    by (auto simp: start_terminal_status_fallback_def put_fallback_def next_fallback_token_def current_turn_id_def
        Let_def split: option.splits if_splits)
  have again: "start_terminal_status_fallback t turn started = (None, started)"
    using fb by (simp add: start_terminal_status_fallback_def)
  have joined: "register_terminal_status_fallback_token t turn started = (Some (token, \<not> fb_server_driver_started fb),
      put_fallback t (fb\<lparr>fb_server_driver_started := True\<rparr>) started)"
    using fb by (simp add: register_terminal_status_fallback_token_def Let_def split_def)
  have "fst (register_terminal_status_fallback_token t turn
      (put_fallback t (fb\<lparr>fb_server_driver_started := True\<rparr>) started)) = Some (token, False)"
    "fst (claim_terminal_status_fallback t turn token (put_fallback t (fb\<lparr>fb_server_driver_started := True\<rparr>) started))"
    using fb by (simp_all add: register_terminal_status_fallback_token_def put_fallback_def current_turn_id_def
        claim_terminal_status_fallback_def terminal_status_fallback_matches_token_def Let_def split_def)
  then show ?thesis using again joined by blast
qed

theorem fallback_drivers_share_token_witness:
  "\<exists>fresh joined. register_terminal_status_fallback_token ''th'' ''t1'' sample_latch = (Some (1, fresh), joined)"
  using fallback_drivers_share_token[OF sample_latch_started(1)] by blast

text \<open>A turn's terminal notice is sent once. In every reachable state, a notice claimed for a turn
  not noticed before is granted; after it, whatever fewer than 256 other turns are noticed meanwhile
  (with one severity), a repeated notice that is no failure is refused and changes nothing.\<close>

theorem terminal_notice_once:
  assumes "runtime_reachable display rs" and "hget (terminal_notice_failed_by_turn rs) turn = None"
    and "length others < TERMINAL_NOTICE_TURN_HISTORY_MAX"
    and "later = fold (claim_notice_state failed) others (claim_notice_state failed turn rs)"
  shows "fst (claim_terminal_notice turn failed rs) \<and> claim_terminal_notice turn False later = (False, later)"
proof -
  have "turn_inv rs" using reachable_inv[OF assms(1)] by (simp add: runtime_inv_def)
  then have coh: "notice_history.coherent rs" by (simp add: turn_inv_def)
  have fresh: "turn \<notin> noticed_turns rs" using assms(2) by (simp only: noticed_not_iff)
  have "turn \<in> noticed_turns later"
    using notice_history.remembered_recently[OF coh fresh assms(3)] assms(4) by simp
  then obtain b where "hget (terminal_notice_failed_by_turn later) turn = Some b"
    by (auto simp: noticed_iff)
  then show ?thesis using assms(2) by (simp add: claim_terminal_notice_def split_def Let_def)
qed

theorem terminal_notice_once_witness:
  "fst (claim_terminal_notice ''t1'' True sample_run) \<and>
   \<not> fst (claim_terminal_notice ''t1'' False
      (fold (claim_notice_state True) (map show_nat [0..<255]) (claim_notice_state True ''t1'' sample_run)))"
proof -
  have none: "terminal_notice_failed_by_turn sample_run = []"
    by (simp add: sample_run_def sample_runtime_def mark_turn_completed_def complete_accepted_turn_maps
        claim_telegram_command_progress_delivery_def with_progress_def put_progress_def mark_turn_started_def
        upsert_telegram_command_progress_def with_reset_progress_def Let_def split_def split: option.split)
  have len: "length (map show_nat [0..<255]) < TERMINAL_NOTICE_TURN_HISTORY_MAX"
    by (simp add: TERMINAL_NOTICE_TURN_HISTORY_MAX_def)
  show ?thesis
    using terminal_notice_once[OF sample_run_reachable _ len refl, of "''t1''" True] none by simp
qed

subsection \<open>Bridge generations\<close>

lemma forget_typing_log: "set (notify_log rs) \<subseteq> set (notify_log (forget_typing k rs))"
  by (auto simp: forget_typing_def remove_typing_def notify_one_def split: option.split)

lemma fold_forget_log: "set (notify_log rs) \<subseteq> set (notify_log (fold forget_typing ks rs))"
proof (induction ks arbitrary: rs)
  case Nil
  then show ?case by simp
next
  case (Cons k ks)
  then show ?case using forget_typing_log[of rs k] by fastforce
qed

lemma fold_forget_notifies:
  "hget (telegram_typing_by_item rs) k = Some ty \<Longrightarrow> k \<in> set ks \<Longrightarrow>
   ty_completed ty \<in> set (notify_log (fold forget_typing ks rs))"
proof (induction ks arbitrary: rs)
  case Nil
  then show ?case by simp
next
  case (Cons x ks)
  show ?case
  proof (cases "x = k")
    case True
    have "ty_completed ty \<in> set (notify_log (forget_typing k rs))"
      using Cons.prems(1) by (simp add: forget_typing_def remove_typing_def notify_one_def)
    then show ?thesis using True fold_forget_log by auto
  next
    case False
    then show ?thesis using Cons by (simp add: forget_typing_items)
  qed
qed

text \<open>A new bridge generation starts clean. Starting a generation returns the next number (until
  it saturates), so the old number is no longer current; it removes every typing indicator and wakes
  whoever waits for it, and forgets aggregate messages, fallback latches, notices, settings editors,
  held attachments and queued turns; the turns and pending approvals stay.\<close>

theorem bridge_generation_clean:
  assumes "start_bridge_generation rs = (g, rs')"
  shows "g = sat_add (bridge_generation rs) 1 \<and> is_bridge_generation g rs' \<and>
    (bridge_generation rs < u64_max \<longrightarrow> \<not> is_bridge_generation (bridge_generation rs) rs') \<and>
    \<not> hcontains (telegram_typing_by_item rs') k \<and>
    (hget (telegram_typing_by_item rs) k = Some ty \<longrightarrow> ty_completed ty \<in> set (notify_log rs')) \<and>
    telegram_command_progress_by_thread rs' = [] \<and> terminal_status_fallback_by_thread rs' = [] \<and>
    terminal_notice_failed_by_turn rs' = [] \<and> current_telegram_model_switch_request c rs' = None \<and>
    queued_turns c rs' = [] \<and> held_attachments c now rs' = [] \<and>
    turn_in_progress t rs' = turn_in_progress t rs \<and> approvals_of c rs' = approvals_of c rs"
proof -
  let ?base = "rs\<lparr>bridge_generation := sat_add (bridge_generation rs) 1, feishu_streaming_cards_by_item := []\<rparr>"
  let ?cleared = "clear_all_telegram_typing ?base"
  note parts = typing_step_parts[OF typing_step.step_clear_all[of ?base]]
  have gen: "bridge_generation ?cleared = sat_add (bridge_generation rs) 1"
  proof -
    have "bridge_generation (outside_typing ?cleared) = bridge_generation (outside_typing ?base)" by simp
    then show ?thesis by (simp add: outside_typing_def)
  qed
  have items: "\<not> hcontains (telegram_typing_by_item ?cleared) k"
    unfolding clear_all_telegram_typing_def fold_forget_typing_items by (auto simp: hcontains_iff)
  have log: "hget (telegram_typing_by_item rs) k = Some ty \<Longrightarrow> ty_completed ty \<in> set (notify_log ?cleared)"
    using fold_forget_notifies[of "?base\<lparr>telegram_typing_suspended_threads := {}\<rparr>" k ty] hget_fst[of _ k ty]
    by (auto simp: clear_all_telegram_typing_def)
  have turns: "turn_in_progress t ?cleared = turn_in_progress t rs" "approvals_of c ?cleared = approvals_of c rs"
    using parts(1,2) by (simp_all add: part_defs turn_in_progress_def approvals_of_def)
  show ?thesis
    using assms gen items log turns
    by (auto simp: start_bridge_generation_def is_bridge_generation_def sat_add_def turn_in_progress_def
        approvals_of_def queued_turns_def held_attachments_def take_pending_attachments_def
        current_telegram_model_switch_request_def Let_def)
qed

theorem bridge_generation_clean_witness:
  "fst (start_bridge_generation sample_typing) = 1 \<and>
   1 \<in> set (notify_log (snd (start_bridge_generation sample_typing)))"
proof -
  have gen: "bridge_generation sample_typing = 0"
    by (simp add: sample_typing_def start_telegram_typing_def register_typing_def put_typing_def Let_def)
  show ?thesis
    using bridge_generation_clean[OF prod.collapse[symmetric, of "start_bridge_generation sample_typing"],
        of "typing_key ''th'' ''turn:t1''"] sample_typing_item gen
    by (simp add: sat_add_def u64_max_def) fastforce
qed

subsection \<open>Routes\<close>

lemma routes_outside:
  "route_by_thread (outside_typing rs) = route_by_thread rs" "route_by_thread (outside_queues rs) = route_by_thread rs"
  "route_by_thread (outside_approvals rs) = route_by_thread rs" "route_by_thread (outside_progress rs) = route_by_thread rs"
  "route_by_thread (outside_menus rs) = route_by_thread rs" "route_by_thread (outside_turns rs) = route_by_thread rs"
  by (simp_all add: outside_typing_def outside_queues_def outside_approvals_def outside_progress_def
      outside_menus_def outside_turns_def)

lemma routes_clear_switches [simp]:
  "route_by_thread (clear_telegram_model_switch_requests_for_conversation c rs) = route_by_thread rs"
  by (metis outside_menus_ops(2) routes_outside(5))

lemma routes_fold_unbind: "hwf (route_by_thread rs) \<Longrightarrow> hwf (route_by_thread (fold unbind_thread es rs))"
proof (induction es arbitrary: rs)
  case Nil
  then show ?case by simp
next
  case (Cons e es)
  then show ?case by (cases e) (simp add: unbind_thread_maps)
qed

lemma routes_invalidate: "route_by_thread (invalidate_bridge_generation rs) = route_by_thread rs"
proof -
  have "route_by_thread (clear_all_telegram_typing rs0) = route_by_thread rs0" for rs0
    by (metis outside_typing_clear(2) routes_outside(1))
  then show ?thesis by (simp add: invalidate_bridge_generation_def Let_def)
qed

lemma route_step_wf: "route_step rs rs' \<Longrightarrow> hwf (route_by_thread rs) \<Longrightarrow> hwf (route_by_thread rs')"
proof (induction rule: route_step.induct)
  case (bound rs t route)
  then show ?case by (simp add: bind_route_def Let_def split: option.split)
next
  case (unbound rs c)
  then show ?case by (simp add: unbind_routes_for_conversation_with_reason_def Let_def routes_fold_unbind)
qed (simp_all add: start_bridge_state routes_invalidate)

lemma runtime_step_routes:
  assumes "runtime_step display rs rs'" and "hwf (route_by_thread rs)"
  shows "hwf (route_by_thread rs')"
  using assms
proof (induction rule: runtime_step.induct)
  case (typing rs rs')
  then show ?case by (metis typing_step_outside routes_outside(1))
next
  case (turn rs rs')
  then show ?case by (metis turn_step_outside routes_outside(6))
next
  case (progress rs rs')
  then show ?case by (metis progress_step_outside routes_outside(4))
next
  case (queue rs rs')
  then show ?case by (metis queue_step_outside routes_outside(2))
next
  case (approval rs rs')
  then show ?case by (metis approval_step_outside routes_outside(3))
next
  case (menu rs rs')
  then show ?case by (metis menu_step_outside routes_outside(5))
next
  case (route rs rs')
  then show ?case using route_step_wf by blast
qed

lemma reachable_routes_wf: "runtime_reachable display rs \<Longrightarrow> hwf (route_by_thread rs)"
  unfolding runtime_reachable_def
proof (induction rule: rtranclp_induct)
  case base
  then show ?case by simp
next
  case (step y z)
  then show ?case using runtime_step_routes by blast
qed

text \<open>What unbinding a list of threads leaves.\<close>

definition thread_free :: "string \<Rightarrow> runtime_state \<Rightarrow> bool" where
  "thread_free t rs \<longleftrightarrow> \<not> turn_in_progress t rs \<and>
     \<not> hcontains (telegram_command_progress_by_thread rs) t \<and>
     \<not> hcontains (terminal_status_fallback_by_thread rs) t \<and>
     (\<forall>i. \<not> hcontains (telegram_typing_by_item rs) (typing_key t i))"

lemma forget_typing_shrinks:
  "hcontains (telegram_typing_by_item (clear_telegram_typing_for_thread t rs)) k \<Longrightarrow>
   hcontains (telegram_typing_by_item rs) k"
  by (simp add: clear_telegram_typing_for_thread_def fold_forget_typing_items)

lemma unbind_thread_typing_items:
  "hcontains (telegram_typing_by_item (unbind_thread (t, route) rs)) k \<Longrightarrow>
   hcontains (telegram_typing_by_item rs) k \<and> (\<forall>i. k \<noteq> typing_key t i)"
proof -
  assume k: "hcontains (telegram_typing_by_item (unbind_thread (t, route) rs)) k"
  obtain mid where mid: "typing_part mid = typing_part rs"
    "typing_part (unbind_thread (t, route) rs) = typing_part (clear_telegram_typing_for_thread t mid)"
    using unbind_thread_typing by blast
  then have "hcontains (telegram_typing_by_item (clear_telegram_typing_for_thread t mid)) k"
    "telegram_typing_by_item mid = telegram_typing_by_item rs"
    using k by (simp_all add: typing_part_def)
  then show ?thesis using forget_typing_shrinks[of t mid k] clear_typing_removes[of t mid] by metis
qed

lemma unbind_thread_free: "thread_free t (unbind_thread (t, route) rs)"
  using unbind_thread_typing_items[of t route rs]
  by (auto simp: thread_free_def turn_in_progress_def unbind_thread_maps)

lemma unbind_keeps_free: "thread_free t rs \<Longrightarrow> thread_free t (unbind_thread (t', route) rs)"
  using unbind_thread_typing_items[of t' route rs]
  by (auto simp: thread_free_def turn_in_progress_def unbind_thread_maps)

lemma fold_unbind_keeps_free: "thread_free t rs \<Longrightarrow> thread_free t (fold unbind_thread es rs)"
proof (induction es arbitrary: rs)
  case Nil
  then show ?case by simp
next
  case (Cons e es)
  then show ?case by (cases e) (simp add: unbind_keeps_free)
qed

lemma fold_unbind_free: "t \<in> fst ` set es \<Longrightarrow> thread_free t (fold unbind_thread es rs)"
proof (induction es arbitrary: rs)
  case Nil
  then show ?case by simp
next
  case (Cons e es)
  then show ?case
    by (cases e) (auto intro: fold_unbind_keeps_free unbind_thread_free)
qed

lemma fold_unbind_maps:
  "hget (route_by_thread (fold unbind_thread es rs)) t =
     (if t \<in> fst ` set es then None else hget (route_by_thread rs) t)"
  "hget (current_turn_by_thread (fold unbind_thread es rs)) t =
     (if t \<in> fst ` set es then None else hget (current_turn_by_thread rs) t)"
  "hget (telegram_command_progress_by_thread (fold unbind_thread es rs)) t =
     (if t \<in> fst ` set es then None else hget (telegram_command_progress_by_thread rs) t)"
proof (induction es arbitrary: rs)
  case Nil
  { case 1 then show ?case by simp next case 2 then show ?case by simp next case 3 then show ?case by simp }
next
  case (Cons e es)
  { case 1 then show ?case using Cons.IH(1) by (cases e) (simp add: unbind_thread_maps)
  next case 2 then show ?case using Cons.IH(2) by (cases e) (simp add: unbind_thread_maps)
  next case 3 then show ?case using Cons.IH(3) by (cases e) (simp add: unbind_thread_maps) }
qed

lemma fold_unbind_queues:
  "\<forall>e \<in> set es. ro_conversation_key (snd e) = c \<Longrightarrow>
   queued_turns c' (fold unbind_thread es rs) = (if c' = c \<and> es \<noteq> [] then [] else queued_turns c' rs)"
proof (induction es arbitrary: rs)
  case Nil
  then show ?case by simp
next
  case (Cons e es)
  then show ?case by (cases e) (simp add: unbind_thread_maps queued_turns_def)
qed

lemma clear_switches_queues [simp]:
  "queued_turns c' (clear_telegram_model_switch_requests_for_conversation c rs) = queued_turns c' rs"
  "current_turn_by_thread (clear_telegram_model_switch_requests_for_conversation c rs) = current_turn_by_thread rs"
  "telegram_command_progress_by_thread (clear_telegram_model_switch_requests_for_conversation c rs)
     = telegram_command_progress_by_thread rs"
  "thread_free t (clear_telegram_model_switch_requests_for_conversation c rs) = thread_free t rs"
  by (simp_all add: queued_turns_def clear_telegram_model_switch_requests_for_conversation_def Let_def
      thread_free_def turn_in_progress_def)

lemma unbind_routes_effect:
  assumes wf: "hwf (route_by_thread rs)"
    and "unbind_routes_for_conversation_with_reason c rs = (threads, rs')"
  shows "(t \<in> set threads \<longleftrightarrow> (\<exists>route. route_for_thread t rs = Some route \<and> ro_conversation_key route = c)) \<and>
    (t \<in> set threads \<longrightarrow> route_for_thread t rs' = None \<and> thread_free t rs') \<and>
    (t \<notin> set threads \<longrightarrow> route_for_thread t rs' = route_for_thread t rs \<and>
       current_turn_id t rs' = current_turn_id t rs \<and>
       hget (telegram_command_progress_by_thread rs') t = hget (telegram_command_progress_by_thread rs) t) \<and>
    queued_turns c' rs' = (if c' = c \<and> threads \<noteq> [] then [] else queued_turns c' rs) \<and>
    current_telegram_model_switch_request c rs' = None"
proof -
  let ?es = "filter (\<lambda>(_, route). ro_conversation_key route = c) (route_by_thread rs)"
  have threads: "threads = map fst ?es"
    and rs': "rs' = clear_telegram_model_switch_requests_for_conversation c (fold unbind_thread ?es rs)"
    using assms(2) by (simp_all add: unbind_routes_for_conversation_with_reason_def Let_def)
  have mem: "t \<in> set threads \<longleftrightarrow> (\<exists>route. route_for_thread t rs = Some route \<and> ro_conversation_key route = c)"
  proof
    assume "t \<in> set threads"
    then obtain route where "(t, route) \<in> set (route_by_thread rs)" "ro_conversation_key route = c"
      by (auto simp: threads)
    then show "\<exists>route. route_for_thread t rs = Some route \<and> ro_conversation_key route = c"
      using hwf_in_set_hget[OF wf] by (auto simp: route_for_thread_def)
  next
    assume "\<exists>route. route_for_thread t rs = Some route \<and> ro_conversation_key route = c"
    then obtain route where "hget (route_by_thread rs) t = Some route" "ro_conversation_key route = c"
      by (auto simp: route_for_thread_def)
    then show "t \<in> set threads"
      using hget_in_set[of "route_by_thread rs" t route] by (auto simp: threads intro!: image_eqI[of _ fst "(t, route)"])
  qed
  have fst_es: "fst ` set ?es = set threads" by (simp add: threads)
  have free: "t \<in> set threads \<Longrightarrow> thread_free t rs'"
    unfolding rs' using fold_unbind_free[of t ?es rs] fst_es by simp
  have queues: "queued_turns c' rs' = (if c' = c \<and> threads \<noteq> [] then [] else queued_turns c' rs)"
    unfolding rs' using fold_unbind_queues[of ?es c c' rs] by (auto simp: threads)
  have editor: "current_telegram_model_switch_request c rs' = None"
    unfolding rs' by (simp add: current_telegram_model_switch_request_def
        clear_telegram_model_switch_requests_for_conversation_def Let_def)
  have maps: "route_for_thread t rs' = (if t \<in> set threads then None else route_for_thread t rs)"
    "t \<notin> set threads \<Longrightarrow> current_turn_id t rs' = current_turn_id t rs"
    "t \<notin> set threads \<Longrightarrow>
       hget (telegram_command_progress_by_thread rs') t = hget (telegram_command_progress_by_thread rs) t"
    unfolding rs' using fold_unbind_maps[of ?es rs t] fst_es by (simp_all add: route_for_thread_def current_turn_id_def)
  show ?thesis by (intro conjI impI mem queues editor) (use free maps in simp_all)
qed

text \<open>Unbinding a conversation. In a reachable state, unbinding returns exactly the threads bound to
  the conversation and leaves them unbound, idle, and without indicator, aggregate message and fallback
  latch; every other thread keeps its route, turn and message; the conversation's queue is emptied when
  it had a thread, other queues stay, and it has no settings editor left.\<close>

theorem unbind_conversation:
  assumes "runtime_reachable display rs"
    and "unbind_routes_for_conversation_with_reason c rs = (threads, rs')"
  shows "(t \<in> set threads \<longleftrightarrow> (\<exists>route. route_for_thread t rs = Some route \<and> ro_conversation_key route = c)) \<and>
    (t \<in> set threads \<longrightarrow> route_for_thread t rs' = None \<and> thread_free t rs') \<and>
    (t \<notin> set threads \<longrightarrow> route_for_thread t rs' = route_for_thread t rs \<and>
       current_turn_id t rs' = current_turn_id t rs \<and>
       hget (telegram_command_progress_by_thread rs') t = hget (telegram_command_progress_by_thread rs) t) \<and>
    queued_turns c' rs' = (if c' = c \<and> threads \<noteq> [] then [] else queued_turns c' rs) \<and>
    current_telegram_model_switch_request c rs' = None"
  by (rule unbind_routes_effect[OF reachable_routes_wf[OF assms(1)] assms(2)])

definition sample_bound :: runtime_state where
  "sample_bound = bind_route ''th'' \<lparr> ro_platform = Telegram, ro_conversation_key = ''c'', ro_account_id = ''a'',
     ro_chat_id = ''1'', ro_remote_client_key = ''k'' \<rparr> sample_runtime"

lemma sample_bound_reachable: "runtime_reachable display sample_bound"
proof -
  have "runtime_reachable display (mark_turn_started ''th'' ''t1'' 5 runtime_default)"
    by (rule reachable_step[OF reachable_default runtime_step.turn]) (rule turn_step.started)
  then have "runtime_reachable display sample_runtime"
    unfolding sample_runtime_def by (rule reachable_step) (rule runtime_step.progress, rule progress_step.intros)
  then show ?thesis
    unfolding sample_bound_def by (rule reachable_step) (rule runtime_step.route, rule route_step.bound)
qed

theorem unbind_conversation_witness:
  "thread_free ''th'' (snd (unbind_routes_for_conversation_with_reason ''c'' sample_bound))"
proof -
  have "route_for_thread ''th'' sample_bound = Some \<lparr> ro_platform = Telegram, ro_conversation_key = ''c'',
      ro_account_id = ''a'', ro_chat_id = ''1'', ro_remote_client_key = ''k'' \<rparr>"
    by (simp add: sample_bound_def bind_route_def route_for_thread_def Let_def split: option.split)
  then show ?thesis
    using unbind_conversation[OF sample_bound_reachable prod.collapse[symmetric, of
        "unbind_routes_for_conversation_with_reason ''c'' sample_bound"], of "''th''"] by auto
qed

subsection \<open>Protected work\<close>

text \<open>The lifecycle counts are exact about idleness. With finitely many starting turns and keys (a
  hash set is finite), the three counts that block a daemon lifecycle operation are all zero exactly
  when no turn is starting or running, no turn is queued, no card or unfinished indicator or undelivered
  stream is left, and no approval is pending.\<close>

theorem protected_counts_zero_iff_idle:
  assumes "finite (starting_turn_by_thread rs)" and "finite (pending_approval_request_keys rs)"
  shows "protected_work_item_counts rs = (0, 0, 0) \<longleftrightarrow>
    (\<forall>t. \<not> turn_in_progress t rs) \<and>
    (\<forall>p \<in> set (pending_telegram_turns_by_conversation rs). snd p = []) \<and>
    feishu_streaming_cards_by_item rs = [] \<and>
    (\<forall>p \<in> set (telegram_typing_by_item rs). ty_finished (snd p)) \<and>
    (\<forall>p \<in> set (wecom_streams_by_thread rs). we_finished (snd p) \<and> we_delivered (snd p)) \<and>
    pending_approval_request_keys rs = {}"
proof -
  let ?turns = "fst ` set (current_turn_by_thread rs) \<union> starting_turn_by_thread rs"
  have "card ?turns = 0 \<longleftrightarrow> ?turns = {}" using assms(1) by (intro card_0_eq) simp
  also have "\<dots> \<longleftrightarrow> (\<forall>t. t \<notin> ?turns)" by (rule all_not_in_conv[symmetric])
  finally have turns: "card ?turns = 0 \<longleftrightarrow> (\<forall>t. \<not> turn_in_progress t rs)"
    by (simp only: turn_in_progress_def hcontains_iff Un_iff)
  have queues: "sum_list (map (length \<circ> snd) m) = 0 \<longleftrightarrow> (\<forall>p \<in> set m. snd p = [])"
    for m :: "(string \<times> pending_telegram_turn list) list" by (induction m) auto
  have typing: "filter (\<lambda>(_, typing). \<not> ty_finished typing) m = [] \<longleftrightarrow> (\<forall>p \<in> set m. ty_finished (snd p))"
    for m :: "(string \<times> telegram_typing_state) list" by (auto simp: filter_empty_conv)
  have streams: "filter (\<lambda>(_, stream). \<not> we_finished stream \<or> \<not> we_delivered stream) m = [] \<longleftrightarrow>
      (\<forall>p \<in> set m. we_finished (snd p) \<and> we_delivered (snd p))"
    for m :: "(string \<times> wecom_stream_state) list" by (auto simp: filter_empty_conv)
  show ?thesis
    unfolding protected_work_item_counts_def Let_def prod.inject add_is_0 turns queues length_0_conv typing
      streams card_0_eq[OF assms(2)] by (simp only: conj_assoc)
qed

theorem protected_counts_zero_iff_idle_witness:
  "protected_work_item_counts runtime_default = (0, 0, 0)"
  using protected_counts_zero_iff_idle[of runtime_default] by (simp add: turn_in_progress_def)

end
