(* ===== verification/TelegramAccess.thy ===== *)
theory TelegramAccess
  imports Decimal ImTypes
begin

section \<open>Who may talk to the bot (src/src/im/telegram/polling.rs, src/src/config.rs)\<close>

text \<open>
  The polling task of a Telegram account decides for every message whether its chat may talk to the bot.
  Groups are served when a project is configured for them. A private chat is served when it is on the list
  of allowed chats; with a pairing code it gets on the list by sending the code, with at most five wrong
  guesses before a pause of ten minutes, and without one only when the list is still empty. The list the
  task works with is a copy taken when polling starts; the configuration is shared with other tasks, so any
  change of it may happen between two messages. Saving the configuration may fail; the outcome is an input.
  Texts of replies are named, not spelled out; of the account's configuration the fields for access are kept.
\<close>

subsection \<open>The configuration\<close>

record project_group =
  tg_chat_id :: string
  tg_project_name :: string
  tg_cwd :: string

record telegram_config =
  tc_enabled :: bool
  tc_account_id :: string
  tc_bot_token :: string
  tc_display_name :: string
  tc_mention_only :: bool
  tc_allowed_chat_ids :: "string list"
  tc_project_groups :: "project_group list"
  tc_pairing_code :: string

record telegram_settings =
  st_account_id :: string
  st_bot_token :: string
  st_mention_only :: bool
  st_allowed_chat_ids :: "string list"
  st_project_groups :: "project_group list"

definition settings_from_app_config :: "telegram_config \<Rightarrow> telegram_settings" where
  "settings_from_app_config config = \<lparr> st_account_id = tc_account_id config, st_bot_token = tc_bot_token config,
     st_mention_only = tc_mention_only config, st_allowed_chat_ids = tc_allowed_chat_ids config,
     st_project_groups = tc_project_groups config \<rparr>"

definition settings_account_id :: "telegram_settings \<Rightarrow> string" where
  "settings_account_id settings =
     (if trim (st_account_id settings) = [] then ''telegram'' else trim (st_account_id settings))"

definition project_group_for_chat :: "string \<Rightarrow> telegram_settings \<Rightarrow> project_group option" where
  "project_group_for_chat chat_id settings =
     List.find (\<lambda>group. trim (tg_chat_id group) = trim chat_id \<and> trim (tg_cwd group) \<noteq> [])
       (st_project_groups settings)"

datatype chat_allow_result = AllowAllowed | AllowBound | AllowDenied | AllowAccountNotFound

definition should_save :: "chat_allow_result \<Rightarrow> bool" where
  "should_save result \<longleftrightarrow> result = AllowBound"

definition chat_allowed :: "string list \<Rightarrow> string \<Rightarrow> bool" where
  "chat_allowed allowed_chat_ids chat_id = list_ex (\<lambda>allowed. trim allowed = chat_id) allowed_chat_ids"

definition names_account :: "string \<Rightarrow> telegram_config \<Rightarrow> bool" where
  "names_account account_id account \<longleftrightarrow>
     trim (tc_account_id account) = account_id \<or> (trim (tc_account_id account) = [] \<and> account_id = ''telegram'')"

definition ensure_telegram_chat_id_on_account ::
  "string \<Rightarrow> telegram_config \<Rightarrow> chat_allow_result \<times> telegram_config" where
  "ensure_telegram_chat_id_on_account chat_id account =
     (if chat_allowed (tc_allowed_chat_ids account) chat_id then (AllowAllowed, account)
      else if tc_allowed_chat_ids account \<noteq> [] then (AllowDenied, account)
      else (AllowBound, account\<lparr>tc_allowed_chat_ids := tc_allowed_chat_ids account @ [chat_id]\<rparr>))"

definition add_chat_id_on_account :: "string \<Rightarrow> telegram_config \<Rightarrow> chat_allow_result \<times> telegram_config" where
  "add_chat_id_on_account chat_id account =
     (if chat_allowed (tc_allowed_chat_ids account) chat_id then (AllowAllowed, account)
      else (AllowBound, account\<lparr>tc_allowed_chat_ids := tc_allowed_chat_ids account @ [chat_id]\<rparr>))"

text \<open>A change of the first account with the identifier.\<close>

definition change_account ::
  "string \<Rightarrow> (telegram_config \<Rightarrow> chat_allow_result \<times> telegram_config) \<Rightarrow> telegram_config list
     \<Rightarrow> chat_allow_result \<times> telegram_config list" where
  "change_account account_id change accounts =
     (case List.find (names_account account_id) accounts of
        None \<Rightarrow> (AllowAccountNotFound, accounts)
      | Some account \<Rightarrow>
          (fst (change account), update_first (names_account account_id) (\<lambda>account. snd (change account)) accounts))"

definition ensure_telegram_allowed_chat_id ::
  "string \<Rightarrow> string \<Rightarrow> telegram_config list \<Rightarrow> chat_allow_result \<times> telegram_config list" where
  "ensure_telegram_allowed_chat_id account_id chat_id accounts =
     (if trim account_id = [] \<or> trim chat_id = [] then (AllowAccountNotFound, accounts)
      else change_account (trim account_id) (ensure_telegram_chat_id_on_account (trim chat_id)) accounts)"

definition add_telegram_allowed_chat_id ::
  "string \<Rightarrow> string \<Rightarrow> telegram_config list \<Rightarrow> chat_allow_result \<times> telegram_config list" where
  "add_telegram_allowed_chat_id account_id chat_id accounts =
     (if trim account_id = [] \<or> trim chat_id = [] then (AllowAccountNotFound, accounts)
      else change_account (trim account_id) (add_chat_id_on_account (trim chat_id)) accounts)"

definition telegram_pairing_code :: "string \<Rightarrow> telegram_config list \<Rightarrow> string option" where
  "telegram_pairing_code account_id accounts =
     (if trim account_id = [] then None
      else map_option (\<lambda>account. trim (tc_pairing_code account))
             (List.find (names_account (trim account_id)) accounts))"

subsection \<open>Wrong guesses\<close>

definition PAIRING_MAX_FAILURES :: nat where "PAIRING_MAX_FAILURES = 5"

definition PAIRING_COOLDOWN_MS :: int where "PAIRING_COOLDOWN_MS = 10 * 60 * 1000"

record pairing_attempts =
  pa_failures :: "(string, nat) hmap"
  pa_locked_until_ms :: "(string, int) hmap"

definition pairing_attempts_default :: pairing_attempts where
  "pairing_attempts_default = \<lparr> pa_failures = [], pa_locked_until_ms = [] \<rparr>"

definition is_locked :: "string \<Rightarrow> int \<Rightarrow> pairing_attempts \<Rightarrow> bool" where
  "is_locked chat_id now_ms attempts =
     (case hget (pa_locked_until_ms attempts) chat_id of None \<Rightarrow> False | Some until \<Rightarrow> until > now_ms)"

definition record_pairing_failure :: "string \<Rightarrow> int \<Rightarrow> pairing_attempts \<Rightarrow> bool \<times> pairing_attempts" where
  "record_pairing_failure chat_id now_ms attempts =
     (let failures = (case hget (pa_failures attempts) chat_id of None \<Rightarrow> 1 | Some count \<Rightarrow> count + 1);
          attempts = attempts\<lparr>pa_failures := hinsert chat_id failures (pa_failures attempts)\<rparr>
      in if failures < PAIRING_MAX_FAILURES then (False, attempts)
         else (True, attempts\<lparr>pa_failures := hremove chat_id (pa_failures attempts),
                pa_locked_until_ms := hinsert chat_id (now_ms + PAIRING_COOLDOWN_MS) (pa_locked_until_ms attempts)\<rparr>))"

definition record_pairing_success :: "string \<Rightarrow> pairing_attempts \<Rightarrow> pairing_attempts" where
  "record_pairing_success chat_id attempts =
     attempts\<lparr>pa_failures := hremove chat_id (pa_failures attempts),
       pa_locked_until_ms := hremove chat_id (pa_locked_until_ms attempts)\<rparr>"

definition pairing_text_matches :: "string option \<Rightarrow> string \<Rightarrow> bool" where
  "pairing_text_matches message_text pairing_code =
     (case message_text of
        None \<Rightarrow> False
      | Some message \<Rightarrow>
          trim message = pairing_code \<or>
          (case strip_prefix ''/'' (trim message) of
             None \<Rightarrow> False
           | Some rest \<Rightarrow>
               (let command = takeWhile (\<lambda>c. c \<noteq> CHR ''@'') (takeWhile (\<lambda>c. \<not> is_ws c) rest);
                    payload = trim (drop 1 (dropWhile (\<lambda>c. \<not> is_ws c) rest))
                in eq_ignore_ascii_case command ''start'' \<and> payload = pairing_code)))"

subsection \<open>The decision\<close>

datatype reply = PairingHint | PairingLockout | PairingSuccess

datatype access_decision = ChatAllowed | ChatDenied | ChatDeniedWith reply | ChatIgnored | ChatConsumed

record telegram_chat =
  ch_id :: int
  ch_kind :: string

text \<open>The state: the shared configuration, the task's list and attempts, events (level and kind) and replies.\<close>

record gate_state =
  gs_accounts :: "telegram_config list"
  gs_access :: "string list"
  gs_attempts :: pairing_attempts
  gs_events :: "(string \<times> string) list"
  gs_sent :: "(string \<times> reply) list"

definition gate_event :: "string \<Rightarrow> string \<Rightarrow> gate_state \<Rightarrow> gate_state" where
  "gate_event level kind gs = gs\<lparr>gs_events := keep_last 300 (gs_events gs @ [(level, kind)])\<rparr>"

definition remember_chat :: "string \<Rightarrow> gate_state \<Rightarrow> gate_state" where
  "remember_chat chat_id gs =
     (if chat_allowed (gs_access gs) chat_id then gs else gs\<lparr>gs_access := gs_access gs @ [chat_id]\<rparr>)"

text \<open>What the surroundings do during one decision: other tasks may change the configuration after the pairing code
  was read and before it is locked again to bind the chat, and saving may fail.\<close>

record gate_env =
  ge_meanwhile :: "telegram_config list \<Rightarrow> telegram_config list"
  ge_save_fails :: bool

definition quiet_env :: gate_env where
  "quiet_env = \<lparr> ge_meanwhile = (\<lambda>accounts. accounts), ge_save_fails = False \<rparr>"

text \<open>Binding a chat in the configuration and saving it, under a lock of its own.\<close>

definition bind_chat ::
  "(telegram_config list \<Rightarrow> chat_allow_result \<times> telegram_config list) \<Rightarrow> gate_env \<Rightarrow> gate_state
     \<Rightarrow> (chat_allow_result \<times> bool) \<times> gate_state" where
  "bind_chat bind_account ge gs =
     (let (result, accounts) = bind_account (ge_meanwhile ge (gs_accounts gs))
      in ((result, should_save result \<and> ge_save_fails ge), gs\<lparr>gs_accounts := accounts\<rparr>))"

definition ensure_pairing ::
  "string \<Rightarrow> string \<Rightarrow> string \<Rightarrow> string option \<Rightarrow> int \<Rightarrow> gate_env \<Rightarrow> gate_state \<Rightarrow> access_decision \<times> gate_state" where
  "ensure_pairing account_id chat_id pairing_code message_text now ge gs =
     (if message_text = None then (ChatDeniedWith PairingHint, gs)
      else if is_locked chat_id now (gs_attempts gs) then (ChatIgnored, gs)
      else if \<not> pairing_text_matches message_text pairing_code then
        (let (just_locked, attempts) = record_pairing_failure chat_id now (gs_attempts gs);
             gs = gate_event ''warn'' ''telegram_pairing_failed'' (gs\<lparr>gs_attempts := attempts\<rparr>)
         in (ChatDeniedWith (if just_locked then PairingLockout else PairingHint), gs))
      else
        (let ((bind_result, save_failed), gs) = bind_chat (add_telegram_allowed_chat_id account_id chat_id) ge gs
         in if save_failed then (ChatDenied, gate_event ''error'' ''telegram_chat_bind_failed'' gs)
            else case bind_result of
                AllowAccountNotFound \<Rightarrow> (ChatDenied, gate_event ''warn'' ''telegram_chat_bind_account_missing'' gs)
              | AllowDenied \<Rightarrow> (ChatDenied, gate_event ''warn'' ''telegram_chat_denied'' gs)
              | _ \<Rightarrow>
                  (let gs = remember_chat chat_id gs;
                       gs = gs\<lparr>gs_attempts := record_pairing_success chat_id (gs_attempts gs)\<rparr>;
                       gs = (if bind_result = AllowBound then gate_event ''info'' ''telegram_chat_bound'' gs else gs)
                   in (ChatConsumed, gs\<lparr>gs_sent := gs_sent gs @ [(chat_id, PairingSuccess)]\<rparr>))))"

definition ensure_chat_allowed ::
  "telegram_settings \<Rightarrow> telegram_chat \<Rightarrow> string option \<Rightarrow> int \<Rightarrow> gate_env \<Rightarrow> gate_state \<Rightarrow> access_decision \<times> gate_state" where
  "ensure_chat_allowed settings chat message_text now ge gs =
     (let account_id = settings_account_id settings; chat_id = show_int (ch_id chat)
      in if ch_kind chat \<noteq> ''private''
         then ((if project_group_for_chat chat_id settings \<noteq> None then ChatAllowed else ChatIgnored), gs)
         else if chat_allowed (gs_access gs) chat_id then (ChatAllowed, gs)
         else
           (let pairing_code = unwrap_or (telegram_pairing_code account_id (gs_accounts gs)) []
            in if pairing_code \<noteq> []
               then ensure_pairing account_id chat_id pairing_code message_text now ge gs
               else if gs_access gs \<noteq> [] then (ChatDenied, gate_event ''warn'' ''telegram_chat_denied'' gs)
               else
                 (let ((bind_result, save_failed), gs) =
                        bind_chat (ensure_telegram_allowed_chat_id account_id chat_id) ge gs
                  in if save_failed then (ChatDenied, gate_event ''error'' ''telegram_chat_bind_failed'' gs)
                     else case bind_result of
                         AllowDenied \<Rightarrow> (ChatDenied, gate_event ''warn'' ''telegram_chat_denied'' gs)
                       | AllowAccountNotFound \<Rightarrow>
                           (ChatDenied, gate_event ''warn'' ''telegram_chat_bind_account_missing'' gs)
                       | _ \<Rightarrow>
                           (let gs = remember_chat chat_id gs
                            in (ChatAllowed, if bind_result = AllowBound
                                             then gate_event ''info'' ''telegram_chat_bound'' gs else gs)))))"

definition ensure_message_chat_allowed ::
  "telegram_settings \<Rightarrow> telegram_chat \<Rightarrow> string option \<Rightarrow> int \<Rightarrow> gate_env \<Rightarrow> gate_state \<Rightarrow> access_decision \<times> gate_state" where
  "ensure_message_chat_allowed = ensure_chat_allowed"

definition ensure_callback_chat_allowed ::
  "telegram_settings \<Rightarrow> telegram_chat option \<Rightarrow> int \<Rightarrow> gate_env \<Rightarrow> gate_state \<Rightarrow> access_decision \<times> gate_state" where
  "ensure_callback_chat_allowed settings chat now ge gs =
     (case chat of
        None \<Rightarrow> (ChatIgnored, gs)
      | Some chat \<Rightarrow> ensure_chat_allowed settings chat None now ge gs)"

subsection \<open>What a message changes\<close>

definition pairing_code_of :: "telegram_settings \<Rightarrow> gate_state \<Rightarrow> string" where
  "pairing_code_of settings gs = unwrap_or (telegram_pairing_code (settings_account_id settings) (gs_accounts gs)) []"

text \<open>A message earns access when it shows the pairing code, or when there is no code and no chat yet.\<close>

definition earns_access ::
  "telegram_settings \<Rightarrow> telegram_chat \<Rightarrow> string option \<Rightarrow> int \<Rightarrow> gate_state \<Rightarrow> bool" where
  "earns_access settings chat message_text now gs \<longleftrightarrow> ch_kind chat = ''private'' \<and>
     (if pairing_code_of settings gs = [] then gs_access gs = []
      else pairing_text_matches message_text (pairing_code_of settings gs) \<and>
           \<not> is_locked (show_int (ch_id chat)) now (gs_attempts gs))"

definition counted_guess ::
  "telegram_settings \<Rightarrow> telegram_chat \<Rightarrow> string option \<Rightarrow> int \<Rightarrow> gate_state \<Rightarrow> bool" where
  "counted_guess settings chat message_text now gs \<longleftrightarrow> ch_kind chat = ''private'' \<and>
     \<not> chat_allowed (gs_access gs) (show_int (ch_id chat)) \<and> pairing_code_of settings gs \<noteq> [] \<and>
     message_text \<noteq> None \<and> \<not> is_locked (show_int (ch_id chat)) now (gs_attempts gs) \<and>
     \<not> pairing_text_matches message_text (pairing_code_of settings gs)"

lemma gate_event_frame [simp]:
  "gs_access (gate_event level kind gs) = gs_access gs" "gs_attempts (gate_event level kind gs) = gs_attempts gs"
  by (simp_all add: gate_event_def)

lemma bind_chat_frame [simp]:
  "gs_access (snd (bind_chat f ge gs)) = gs_access gs"
  "gs_attempts (snd (bind_chat f ge gs)) = gs_attempts gs"
  by (simp_all add: bind_chat_def case_prod_beta)

lemma remember_chat_frame [simp]: "gs_attempts (remember_chat chat_id gs) = gs_attempts gs"
  by (simp add: remember_chat_def)

lemma remember_chat_access [simp]:
  "chat_allowed (gs_access (remember_chat chat_id gs)) c \<longleftrightarrow>
     chat_allowed (gs_access gs) c \<or> (\<not> chat_allowed (gs_access gs) chat_id \<and> trim chat_id = c)"
  by (auto simp: remember_chat_def chat_allowed_def)

lemma trim_show_int [simp]: "trim (show_int n) = show_int n"
proof (rule trim_id)
  have "\<not> is_ws c" if "c \<in> set (show_int n)" for c
    using that show_nat_digits[of c] by (fastforce simp: show_int_def is_ws_def Let_def split: if_splits)
  moreover have "show_int n \<noteq> []" by (simp add: show_int_def)
  ultimately show "show_int n = [] \<or> \<not> is_ws (hd (show_int n)) \<and> \<not> is_ws (last (show_int n))" by simp
qed

lemma ensure_pairing_effect:
  assumes "ensure_pairing account_id chat_id code message_text now ge gs = (d, gs')" and "code \<noteq> []"
  shows "(gs_access gs' = gs_access gs \<and>
      (message_text \<noteq> None \<and> \<not> is_locked chat_id now (gs_attempts gs) \<and> \<not> pairing_text_matches message_text code \<and>
         gs_attempts gs' = snd (record_pairing_failure chat_id now (gs_attempts gs)) \<or>
       (message_text = None \<or> is_locked chat_id now (gs_attempts gs) \<or> pairing_text_matches message_text code) \<and>
         gs_attempts gs' = gs_attempts gs) \<and> d \<notin> {ChatAllowed, ChatConsumed}) \<or>
    (pairing_text_matches message_text code \<and> \<not> is_locked chat_id now (gs_attempts gs) \<and>
     gs_access gs' = gs_access (remember_chat chat_id gs) \<and> d = ChatConsumed)"
proof -
  obtain r failed gs1 where bound: "bind_chat (add_telegram_allowed_chat_id account_id chat_id) ge gs = ((r, failed), gs1)"
    by (metis surj_pair)
  have "gs_access gs1 = gs_access gs" "gs_attempts gs1 = gs_attempts gs"
    using bind_chat_frame[of "add_telegram_allowed_chat_id account_id chat_id" ge gs] bound by simp_all
  then show ?thesis
    using assms bound
    by (auto simp: ensure_pairing_def Let_def case_prod_beta remember_chat_def split: if_splits chat_allow_result.splits)
qed

lemma ensure_chat_effect:
  assumes "ensure_chat_allowed settings chat message_text now ge gs = (d, gs')"
  shows "(gs_access gs' = gs_access gs \<and>
      gs_attempts gs' = (if counted_guess settings chat message_text now gs
        then snd (record_pairing_failure (show_int (ch_id chat)) now (gs_attempts gs)) else gs_attempts gs) \<and>
      (d \<in> {ChatAllowed, ChatConsumed} \<longrightarrow>
         ch_kind chat \<noteq> ''private'' \<or> chat_allowed (gs_access gs) (show_int (ch_id chat)))) \<or>
    (earns_access settings chat message_text now gs \<and> \<not> counted_guess settings chat message_text now gs \<and>
     gs_access gs' = gs_access (remember_chat (show_int (ch_id chat)) gs))"
proof -
  let ?id = "show_int (ch_id chat)" and ?account = "settings_account_id settings"
  consider "ch_kind chat \<noteq> ''private'' \<or> chat_allowed (gs_access gs) ?id"
    | "ch_kind chat = ''private''" "\<not> chat_allowed (gs_access gs) ?id" "pairing_code_of settings gs \<noteq> []"
    | "ch_kind chat = ''private''" "\<not> chat_allowed (gs_access gs) ?id" "pairing_code_of settings gs = []"
    by blast
  then show ?thesis
  proof cases
    case 1
    then show ?thesis
      using assms by (auto simp: ensure_chat_allowed_def Let_def counted_guess_def split: if_splits)
  next
    case 2
    then have "ensure_pairing ?account ?id (pairing_code_of settings gs) message_text now ge gs = (d, gs')"
      using assms by (simp add: ensure_chat_allowed_def Let_def pairing_code_of_def)
    from ensure_pairing_effect[OF this 2(3)] show ?thesis
      using 2 by (auto simp: counted_guess_def earns_access_def pairing_text_matches_def)
  next
    case 3
    obtain r failed gs1 where bound:
      "bind_chat (ensure_telegram_allowed_chat_id ?account ?id) ge gs = ((r, failed), gs1)"
      by (metis surj_pair)
    have "gs_access gs1 = gs_access gs" "gs_attempts gs1 = gs_attempts gs"
      using bind_chat_frame[of "ensure_telegram_allowed_chat_id ?account ?id" ge gs] bound by simp_all
    then show ?thesis
      using assms bound 3
      by (auto simp: ensure_chat_allowed_def Let_def pairing_code_of_def counted_guess_def earns_access_def
          remember_chat_def split: if_splits chat_allow_result.splits)
  qed
qed

subsection \<open>Runs of the polling task\<close>

text \<open>Messages, callbacks, and changes of the configuration by other tasks.\<close>

datatype polling_input =
    GateMessage telegram_chat "string option" int gate_env
  | GateCallback "telegram_chat option" int gate_env
  | GateConfig "telegram_config list"

fun polling_step :: "telegram_settings \<Rightarrow> polling_input \<Rightarrow> gate_state \<Rightarrow> gate_state" where
  "polling_step settings (GateMessage chat message_text now ge) gs =
     snd (ensure_message_chat_allowed settings chat message_text now ge gs)"
| "polling_step settings (GateCallback chat now ge) gs =
     snd (ensure_callback_chat_allowed settings chat now ge gs)"
| "polling_step settings (GateConfig accounts) gs = gs\<lparr>gs_accounts := accounts\<rparr>"

fun polling_run :: "telegram_settings \<Rightarrow> polling_input list \<Rightarrow> gate_state \<Rightarrow> gate_state" where
  "polling_run settings [] gs = gs"
| "polling_run settings (input # inputs) gs = polling_run settings inputs (polling_step settings input gs)"

text \<open>The chats that earned access by an input.\<close>

fun earning :: "telegram_settings \<Rightarrow> polling_input \<Rightarrow> gate_state \<Rightarrow> string set" where
  "earning settings (GateMessage chat message_text now ge) gs =
     (if earns_access settings chat message_text now gs then {show_int (ch_id chat)} else {})"
| "earning settings (GateCallback (Some chat) now ge) gs =
     (if earns_access settings chat None now gs then {show_int (ch_id chat)} else {})"
| "earning settings _ gs = {}"

fun earned :: "telegram_settings \<Rightarrow> polling_input list \<Rightarrow> gate_state \<Rightarrow> string set" where
  "earned settings [] gs = {}"
| "earned settings (input # inputs) gs =
     earning settings input gs \<union> earned settings inputs (polling_step settings input gs)"

lemma ensure_chat_access:
  "chat_allowed (gs_access (snd (ensure_chat_allowed settings chat message_text now ge gs))) c \<Longrightarrow>
     chat_allowed (gs_access gs) c \<or>
     (earns_access settings chat message_text now gs \<and> c = show_int (ch_id chat))"
  using ensure_chat_effect[of settings chat message_text now ge gs]
  by (cases "ensure_chat_allowed settings chat message_text now ge gs") auto

lemma polling_step_access:
  "chat_allowed (gs_access (polling_step settings input gs)) c \<Longrightarrow>
     chat_allowed (gs_access gs) c \<or> c \<in> earning settings input gs"
proof (cases "(settings, input, gs)" rule: earning.cases)
  case (1 settings' chat message_text now ge gs')
  then show "chat_allowed (gs_access (polling_step settings input gs)) c \<Longrightarrow> ?thesis"
    using ensure_chat_access[of settings chat message_text now ge gs c]
    by (auto simp: ensure_message_chat_allowed_def)
next
  case (2 settings' chat now ge gs')
  then show "chat_allowed (gs_access (polling_step settings input gs)) c \<Longrightarrow> ?thesis"
    using ensure_chat_access[of settings chat None now ge gs c]
    by (auto simp: ensure_callback_chat_allowed_def)
qed (auto simp: ensure_callback_chat_allowed_def)

lemma polling_run_access:
  "chat_allowed (gs_access (polling_run settings inputs gs)) c \<Longrightarrow>
     chat_allowed (gs_access gs) c \<or> c \<in> earned settings inputs gs"
proof (induction inputs arbitrary: gs)
  case (Cons input inputs)
  then show ?case using polling_step_access[of settings input gs c] by auto
qed simp

text \<open>The decision an input meets, and the chat it comes from.\<close>

fun input_decision :: "telegram_settings \<Rightarrow> polling_input \<Rightarrow> gate_state \<Rightarrow> access_decision option" where
  "input_decision settings (GateMessage chat message_text now ge) gs =
     Some (fst (ensure_message_chat_allowed settings chat message_text now ge gs))"
| "input_decision settings (GateCallback chat now ge) gs =
     Some (fst (ensure_callback_chat_allowed settings chat now ge gs))"
| "input_decision settings (GateConfig accounts) gs = None"

fun input_chat :: "polling_input \<Rightarrow> telegram_chat option" where
  "input_chat (GateMessage chat message_text now ge) = Some chat"
| "input_chat (GateCallback chat now ge) = chat"
| "input_chat (GateConfig accounts) = None"

lemma let_through_earned:
  assumes "fst (ensure_chat_allowed settings chat message_text now ge gs) \<in> {ChatAllowed, ChatConsumed}"
  shows "if ch_kind chat = ''private''
    then chat_allowed (gs_access gs) (show_int (ch_id chat)) \<or> earns_access settings chat message_text now gs
    else project_group_for_chat (show_int (ch_id chat)) settings \<noteq> None"
proof (cases "ch_kind chat = ''private''")
  case True
  obtain d gs' where run: "ensure_chat_allowed settings chat message_text now ge gs = (d, gs')" by fastforce
  show ?thesis using ensure_chat_effect[OF run] run assms True by auto
next
  case False
  then show ?thesis using assms by (auto simp: ensure_chat_allowed_def Let_def split: if_splits)
qed

text \<open>C32. Nobody talks to the bot without having earned it. Whatever messages and callbacks arrive and however
  the configuration is changed in between, also while a decision is under way: when a message or a callback
  is let through, or a message accepted as pairing, its chat is known; a private chat was on the list when
  polling started or earned access by one of its inputs, which showed the pairing code of that moment while
  the chat was not locked out, or found no pairing code and no chat on the list; and any other chat has a
  project.\<close>

theorem access_is_earned:
  assumes "input_decision settings input (polling_run settings inputs gs) = Some d" and "d \<in> {ChatAllowed, ChatConsumed}"
  shows "\<exists>chat. input_chat input = Some chat \<and>
    (if ch_kind chat = ''private''
     then chat_allowed (gs_access gs) (show_int (ch_id chat)) \<or>
       show_int (ch_id chat) \<in> earned settings (inputs @ [input]) gs
     else project_group_for_chat (show_int (ch_id chat)) settings \<noteq> None)"
proof -
  let ?gs = "polling_run settings inputs gs"
  have split: "earned settings (xs @ ys) g = earned settings xs g \<union> earned settings ys (polling_run settings xs g)" for xs ys g
    by (induction xs arbitrary: g) auto
  obtain chat where chat: "input_chat input = Some chat"
    "if ch_kind chat = ''private'' then chat_allowed (gs_access ?gs) (show_int (ch_id chat)) \<or>
       show_int (ch_id chat) \<in> earning settings input ?gs
     else project_group_for_chat (show_int (ch_id chat)) settings \<noteq> None"
  proof (cases input)
    case (GateMessage chat message_text now ge)
    then show thesis
      using let_through_earned[of settings chat message_text now ge ?gs] assms that
      by (auto simp: ensure_message_chat_allowed_def split: if_splits)
  next
    case (GateCallback chat now ge)
    show thesis
    proof (cases chat)
      case None
      then show thesis using GateCallback assms by (simp add: ensure_callback_chat_allowed_def)
    next
      case (Some sender)
      then show thesis
        using GateCallback let_through_earned[of settings sender None now ge ?gs] assms that[of sender]
        by (auto simp: ensure_callback_chat_allowed_def split: if_splits)
    qed
  qed (use assms in simp)
  then show ?thesis
    using polling_run_access[of settings inputs gs "show_int (ch_id chat)"] by (auto simp: split split: if_splits)
qed

subsection \<open>Guessing the code is slow\<close>

fun input_time :: "polling_input \<Rightarrow> int option" where
  "input_time (GateMessage chat message_text now ge) = Some now"
| "input_time (GateCallback chat now ge) = Some now"
| "input_time (GateConfig accounts) = None"

fun in_order :: "int \<Rightarrow> polling_input list \<Rightarrow> bool" where
  "in_order start [] = True"
| "in_order start (input # inputs) =
     (case input_time input of None \<Rightarrow> in_order start inputs | Some now \<Rightarrow> start \<le> now \<and> in_order now inputs)"

text \<open>A wrong guess of a chat outside that is answered: anything but silence tells the chat that its guess was
  looked at and is wrong.\<close>

definition answered_guess ::
  "telegram_settings \<Rightarrow> telegram_chat \<Rightarrow> string option \<Rightarrow> int \<Rightarrow> gate_env \<Rightarrow> gate_state \<Rightarrow> bool" where
  "answered_guess settings chat message_text now ge gs \<longleftrightarrow> ch_kind chat = ''private'' \<and>
     \<not> chat_allowed (gs_access gs) (show_int (ch_id chat)) \<and> pairing_code_of settings gs \<noteq> [] \<and>
     message_text \<noteq> None \<and> \<not> pairing_text_matches message_text (pairing_code_of settings gs) \<and>
     fst (ensure_message_chat_allowed settings chat message_text now ge gs) \<noteq> ChatIgnored"

lemma answered_guess_counted:
  "answered_guess settings chat message_text now ge gs \<longleftrightarrow> counted_guess settings chat message_text now gs"
  by (auto simp: answered_guess_def counted_guess_def ensure_message_chat_allowed_def ensure_chat_allowed_def
      ensure_pairing_def pairing_code_of_def Let_def case_prod_beta)

text \<open>The answered wrong guesses of a chat in the ten minutes from an instant on.\<close>

fun guess_in :: "telegram_settings \<Rightarrow> string \<Rightarrow> int \<Rightarrow> polling_input \<Rightarrow> gate_state \<Rightarrow> bool" where
  "guess_in settings c start (GateMessage chat message_text now ge) gs \<longleftrightarrow>
     show_int (ch_id chat) = c \<and> answered_guess settings chat message_text now ge gs \<and>
     start \<le> now \<and> now < start + PAIRING_COOLDOWN_MS"
| "guess_in settings c start _ gs \<longleftrightarrow> False"

fun guesses :: "telegram_settings \<Rightarrow> string \<Rightarrow> int \<Rightarrow> polling_input list \<Rightarrow> gate_state \<Rightarrow> nat" where
  "guesses settings c start [] gs = 0"
| "guesses settings c start (input # inputs) gs =
     (if guess_in settings c start input gs then 1 else 0) + guesses settings c start inputs (polling_step settings input gs)"

abbreviation failures_of :: "string \<Rightarrow> gate_state \<Rightarrow> nat" where
  "failures_of c gs \<equiv> unwrap_or (hget (pa_failures (gs_attempts gs)) c) 0"

abbreviation locked_until :: "string \<Rightarrow> gate_state \<Rightarrow> int option" where
  "locked_until c gs \<equiv> hget (pa_locked_until_ms (gs_attempts gs)) c"

lemma record_failure_outcome:
  "hget (pa_failures (snd (record_pairing_failure chat_id now attempts))) c =
     (if c \<noteq> chat_id then hget (pa_failures attempts) c
      else if unwrap_or (hget (pa_failures attempts) c) 0 + 1 < PAIRING_MAX_FAILURES
      then Some (unwrap_or (hget (pa_failures attempts) c) 0 + 1) else None)"
  "hget (pa_locked_until_ms (snd (record_pairing_failure chat_id now attempts))) c =
     (if c = chat_id \<and> \<not> unwrap_or (hget (pa_failures attempts) c) 0 + 1 < PAIRING_MAX_FAILURES
      then Some (now + PAIRING_COOLDOWN_MS) else hget (pa_locked_until_ms attempts) c)"
  by (auto simp: record_pairing_failure_def Let_def split: option.split)

text \<open>What one input does to the count of a chat that is still outside.\<close>

definition count_step :: "string \<Rightarrow> int option \<Rightarrow> gate_state \<Rightarrow> gate_state \<Rightarrow> bool" where
  "count_step c guessed gs gs' \<longleftrightarrow>
     (case guessed of
        None \<Rightarrow> failures_of c gs' = failures_of c gs \<and> locked_until c gs' = locked_until c gs
      | Some now \<Rightarrow>
          (if failures_of c gs + 1 < PAIRING_MAX_FAILURES
           then failures_of c gs' = failures_of c gs + 1 \<and> locked_until c gs' = locked_until c gs
           else failures_of c gs' = 0 \<and> locked_until c gs' = Some (now + PAIRING_COOLDOWN_MS)))"

definition outside :: "string \<Rightarrow> gate_state \<Rightarrow> bool" where
  "outside c gs \<longleftrightarrow> \<not> chat_allowed (gs_access gs) c"

lemma ensure_pairing_attempts:
  "gs_attempts (snd (ensure_pairing account_id chat_id code message_text now ge gs)) \<in>
     {gs_attempts gs, snd (record_pairing_failure chat_id now (gs_attempts gs)),
      record_pairing_success chat_id (gs_attempts gs)}"
  using bind_chat_frame(2)[of "add_telegram_allowed_chat_id account_id chat_id" ge gs]
  by (auto simp: ensure_pairing_def Let_def case_prod_beta split: chat_allow_result.split)

lemma ensure_chat_attempts:
  "gs_attempts (snd (ensure_chat_allowed settings chat message_text now ge gs)) \<in>
     {gs_attempts gs, snd (record_pairing_failure (show_int (ch_id chat)) now (gs_attempts gs)),
      record_pairing_success (show_int (ch_id chat)) (gs_attempts gs)}"
  using ensure_pairing_attempts
    bind_chat_frame(2)[of "ensure_telegram_allowed_chat_id (settings_account_id settings) (show_int (ch_id chat))" ge gs]
  by (auto simp: ensure_chat_allowed_def Let_def case_prod_beta split: chat_allow_result.split)

lemma ensure_chat_others:
  "c \<noteq> show_int (ch_id chat) \<Longrightarrow>
     count_step c None gs (snd (ensure_chat_allowed settings chat message_text now ge gs))"
  using ensure_chat_attempts[of settings chat message_text now ge gs]
  by (auto simp: count_step_def record_failure_outcome record_pairing_success_def)

lemma ensure_chat_count:
  assumes "outside c (snd (ensure_chat_allowed settings chat message_text now ge gs))"
  shows "outside c gs \<and> count_step c
    (if show_int (ch_id chat) = c \<and> counted_guess settings chat message_text now gs then Some now else None)
    gs (snd (ensure_chat_allowed settings chat message_text now ge gs))"
proof (cases "c = show_int (ch_id chat)")
  case True
  obtain d gs' where run: "ensure_chat_allowed settings chat message_text now ge gs = (d, gs')" by fastforce
  then show ?thesis
    using ensure_chat_effect[OF run] assms True
    by (auto simp: outside_def count_step_def record_failure_outcome)
next
  case False
  obtain d gs' where run: "ensure_chat_allowed settings chat message_text now ge gs = (d, gs')" by fastforce
  then show ?thesis
    using ensure_chat_effect[OF run] ensure_chat_others[OF False, of gs settings message_text now ge] assms False
    by (auto simp: outside_def)
qed

text \<open>The instant of the wrong guess an input is, if it is one.\<close>

fun guess_time :: "telegram_settings \<Rightarrow> string \<Rightarrow> polling_input \<Rightarrow> gate_state \<Rightarrow> int option" where
  "guess_time settings c (GateMessage chat message_text now ge) gs =
     (if show_int (ch_id chat) = c \<and> counted_guess settings chat message_text now gs then Some now else None)"
| "guess_time settings c _ gs = None"

lemma polling_step_count:
  "outside c (polling_step settings input gs) \<Longrightarrow>
     outside c gs \<and> count_step c (guess_time settings c input gs) gs (polling_step settings input gs)"
proof (cases input)
  case (GateMessage chat message_text now ge)
  then show "outside c (polling_step settings input gs) \<Longrightarrow> ?thesis"
    using ensure_chat_count[of c settings chat message_text now ge gs]
    by (simp add: ensure_message_chat_allowed_def)
next
  case (GateCallback chat now ge)
  have "\<not> counted_guess settings ch None now gs" for ch by (simp add: counted_guess_def)
  then show "outside c (polling_step settings input gs) \<Longrightarrow> ?thesis"
    using GateCallback ensure_chat_count[of c settings _ None now ge gs]
    by (cases chat) (auto simp: ensure_callback_chat_allowed_def count_step_def)
qed (simp add: outside_def count_step_def)

lemma guess_in_time:
  "guess_in settings c start input gs \<longleftrightarrow>
     (case guess_time settings c input gs of None \<Rightarrow> False
      | Some now \<Rightarrow> start \<le> now \<and> now < start + PAIRING_COOLDOWN_MS)"
  by (cases input) (auto simp: answered_guess_counted)

lemma guess_time_input:
  "guess_time settings c input gs = Some now \<Longrightarrow> input_time input = Some now \<and> outside c gs \<and>
     (\<forall>until. locked_until c gs = Some until \<longrightarrow> until \<le> now)"
  by (cases input) (auto simp: outside_def counted_guess_def is_locked_def split: if_splits)

text \<open>A chat on the list guesses no more, and neither does a locked one until its pause is over.\<close>

lemma guesses_inside: "\<not> outside c gs \<Longrightarrow> guesses settings c start inputs gs = 0"
proof (induction inputs arbitrary: gs)
  case (Cons input inputs)
  have "guess_time settings c input gs = None"
    using guess_time_input[of settings c input gs] Cons.prems by (cases "guess_time settings c input gs") auto
  then show ?case using Cons polling_step_count[of c settings input gs] by (auto simp: guess_in_time)
qed simp

lemma guesses_locked:
  "locked_until c gs = Some until \<Longrightarrow> start + PAIRING_COOLDOWN_MS \<le> until \<Longrightarrow>
     guesses settings c start inputs gs = 0"
proof (induction inputs arbitrary: gs until)
  case (Cons input inputs)
  have none: "\<not> guess_in settings c start input gs"
    using guess_time_input[of settings c input gs] Cons.prems by (auto simp: guess_in_time split: option.split)
  show ?case
  proof (cases "outside c (polling_step settings input gs)")
    case True
    have "\<exists>until'. locked_until c (polling_step settings input gs) = Some until' \<and> start + PAIRING_COOLDOWN_MS \<le> until'"
      using polling_step_count[OF True] guess_time_input[of settings c input gs] Cons.prems
      by (fastforce simp: count_step_def PAIRING_COOLDOWN_MS_def split: option.splits if_splits)
    then show ?thesis using Cons.IH none by auto
  next
    case False
    then show ?thesis using none by (simp add: guesses_inside)
  qed
qed simp

lemma count_step_failures:
  "count_step c guessed gs gs' \<Longrightarrow> failures_of c gs < PAIRING_MAX_FAILURES \<Longrightarrow> failures_of c gs' < PAIRING_MAX_FAILURES"
  by (auto simp: count_step_def PAIRING_MAX_FAILURES_def split: option.splits if_splits)

lemma guesses_from_start:
  "in_order t inputs \<Longrightarrow> start \<le> t \<Longrightarrow> failures_of c gs < PAIRING_MAX_FAILURES \<Longrightarrow>
     guesses settings c start inputs gs + failures_of c gs \<le> PAIRING_MAX_FAILURES"
proof (induction inputs arbitrary: gs t)
  case (Cons input inputs)
  let ?gs' = "polling_step settings input gs"
  obtain t' where t': "in_order t' inputs" "start \<le> t'" "\<And>now. input_time input = Some now \<Longrightarrow> start \<le> now"
    using Cons.prems(1,2) by (cases "input_time input") auto
  show ?case
  proof (cases "outside c ?gs'")
    case False
    then show ?thesis using Cons.prems(3) by (simp add: guesses_inside)
  next
    case True
    note count = polling_step_count[OF True, THEN conjunct2]
    note IH = Cons.IH[OF t'(1,2) count_step_failures[OF count Cons.prems(3)]]
    show ?thesis
    proof (cases "guess_time settings c input gs")
      case None
      then show ?thesis using count IH by (simp add: guess_in_time count_step_def)
    next
      case (Some now)
      have late: "start \<le> now" using guess_time_input[OF Some] t'(3) by blast
      show ?thesis
      proof (cases "failures_of c gs + 1 < PAIRING_MAX_FAILURES")
        case True
        then show ?thesis using count IH Some by (simp add: count_step_def)
      next
        case False
        then have "guesses settings c start inputs ?gs' = 0"
          using count Some late by (intro guesses_locked[of _ _ "now + PAIRING_COOLDOWN_MS"]) (simp_all add: count_step_def)
        then show ?thesis using Cons.prems(3) by simp
      qed
    qed
  qed
qed (simp add: less_imp_le)

lemma guesses_bounded:
  "in_order t inputs \<Longrightarrow> failures_of c gs < PAIRING_MAX_FAILURES \<Longrightarrow>
     guesses settings c start inputs gs \<le> PAIRING_MAX_FAILURES"
proof (induction inputs arbitrary: gs t)
  case (Cons input inputs)
  let ?gs' = "polling_step settings input gs"
  show ?case
  proof (cases "\<exists>now. input_time input = Some now \<and> start \<le> now")
    case True
    then have "in_order start (input # inputs)" using Cons.prems(1) by auto
    from guesses_from_start[OF this order_refl Cons.prems(2), of settings] show ?thesis by linarith
  next
    case False
    then have none: "\<not> guess_in settings c start input gs"
      using guess_time_input[of settings c input gs] by (auto simp: guess_in_time split: option.split)
    obtain t' where t': "in_order t' inputs" using Cons.prems(1) by (auto split: option.splits)
    have "guesses settings c start inputs ?gs' \<le> PAIRING_MAX_FAILURES"
    proof (cases "outside c ?gs'")
      case True
      then show ?thesis
        using Cons.IH[OF t'] count_step_failures[OF _ Cons.prems(2)] polling_step_count by blast
    qed (simp add: guesses_inside)
    then show ?thesis using none by simp
  qed
qed simp

text \<open>C33. Guessing the pairing code is slow. Whatever arrives, and however often the configuration and its
  code change in between, as long as the clock does not run backwards, in any ten minutes at most five wrong
  guesses of a chat are answered at all; to any more the bot is silent.\<close>

theorem wrong_guesses_bounded:
  assumes "in_order t inputs" and "gs_attempts gs = pairing_attempts_default"
  shows "guesses settings c start inputs gs \<le> 5"
  using guesses_bounded[OF assms(1), where c = c and gs = gs and settings = settings and start = start] assms(2)
  by (simp add: PAIRING_MAX_FAILURES_def pairing_attempts_default_def)

definition sample_account :: telegram_config where
  "sample_account = \<lparr> tc_enabled = True, tc_account_id = ''tg'', tc_bot_token = ''t'', tc_display_name = [],
     tc_mention_only = False, tc_allowed_chat_ids = [''1''], tc_project_groups = [], tc_pairing_code = ''123456'' \<rparr>"

definition sample_gate :: gate_state where
  "sample_gate = \<lparr> gs_accounts = [sample_account], gs_access = [''1''], gs_attempts = pairing_attempts_default,
     gs_events = [], gs_sent = [] \<rparr>"

definition private_chat :: "int \<Rightarrow> telegram_chat" where
  "private_chat n = \<lparr> ch_id = n, ch_kind = ''private'' \<rparr>"

definition say :: "string \<Rightarrow> int \<Rightarrow> polling_input" where
  "say message_text now = GateMessage (private_chat 7) (Some message_text) now quiet_env"

text \<open>A chat that guesses wrong, sends the code and then talks.\<close>

lemma sample_pairing:
  "fst (ensure_message_chat_allowed (settings_from_app_config sample_account) (private_chat 7) (Some ''hello'') 3 quiet_env
     (polling_run (settings_from_app_config sample_account) [say ''hello'' 1, say ''/start@bot  123456'' 2] sample_gate))
     = ChatAllowed"
  by code_simp

theorem access_is_earned_witness:
  "\<not> chat_allowed (gs_access sample_gate) ''7'' \<and>
   ''7'' \<in> earned (settings_from_app_config sample_account)
     [say ''hello'' 1, say ''/start@bot  123456'' 2, GateMessage (private_chat 7) (Some ''hello'') 3 quiet_env] sample_gate"
proof -
  let ?settings = "settings_from_app_config sample_account" and ?input = "GateMessage (private_chat 7) (Some ''hello'') 3 quiet_env"
  have outside: "\<not> chat_allowed (gs_access sample_gate) (show_int (ch_id (private_chat 7)))"
    and seven: "show_int (ch_id (private_chat 7)) = ''7''" by code_simp+
  have let_in: "input_decision ?settings ?input
      (polling_run ?settings [say ''hello'' 1, say ''/start@bot  123456'' 2] sample_gate) = Some ChatAllowed"
    using sample_pairing by simp
  have "ch_kind (private_chat 7) = ''private''" "input_chat ?input = Some (private_chat 7)" by (simp_all add: private_chat_def)
  with access_is_earned[OF let_in] outside show ?thesis by (simp add: seven del: earned.simps)
qed

theorem wrong_guesses_bounded_witness:
  "guesses (settings_from_app_config sample_account) ''7'' 0
     [say ''1'' 1, say ''2'' 2, say ''3'' 3, say ''4'' 4, say ''5'' 5, say ''6'' 6, say ''7'' 7] sample_gate \<le> 5"
proof (rule wrong_guesses_bounded)
  show "in_order 0 [say ''1'' 1, say ''2'' 2, say ''3'' 3, say ''4'' 4, say ''5'' 5, say ''6'' 6, say ''7'' 7]"
    by (simp add: say_def)
  show "gs_attempts sample_gate = pairing_attempts_default" by (simp add: sample_gate_def)
qed

end
