(* ===== verification/TopicLifecycle.thy ===== *)
theory TopicLifecycle
  imports RuntimeRoutes
begin

section \<open>Lifecycle of threads with a Telegram topic (src/src/app_state.rs)\<close>

text \<open>
  What the daemon knows about archived and deleted threads. Every bridge generation has a number; an
  observation carries the generation it was made in. The greatest generation seen is an atomic counter and
  the intents are behind a lock, so an observation is two atomic steps and other observations may come in
  between: raising the counter, and the locked section, which drops the intents of older generations, refuses
  an observation that is out of date and keeps a deletion within its generation. The rest of the file holds
  the registrations of clean-up workers, the tokens of name updates and the deadlines for retries. Counters
  that issue tokens wrap at 64 bits. Instants are milliseconds.
\<close>

subsection \<open>State\<close>

datatype thread_lifecycle = LifecycleActive | LifecycleArchived | LifecycleDeleted

record lifecycle_intent =
  li_generation :: nat
  li_revision :: nat
  li_state :: thread_lifecycle

record cleanup_registration =
  cr_token :: nat
  cr_lifecycle_generation :: nat
  cr_lifecycle_revision :: nat
  cr_notified :: bool

record topic_lifecycle =
  tl_intents :: "(string, lifecycle_intent) hmap"
  tl_latest_generation :: nat
  tl_next_revision :: nat
  tl_cleanup_registrations :: "(string, cleanup_registration) hmap"
  tl_cleanup_next_token :: nat
  tl_name_update_ops :: "(string, nat) hmap"
  tl_name_update_next_token :: nat
  tl_name_sync_next_token :: nat
  tl_retry_deadlines :: "(string, nat) hmap"

definition topic_lifecycle_new :: topic_lifecycle where
  "topic_lifecycle_new = \<lparr> tl_intents = [], tl_latest_generation = 0, tl_next_revision = 1,
     tl_cleanup_registrations = [], tl_cleanup_next_token = 1, tl_name_update_ops = [],
     tl_name_update_next_token = 1, tl_name_sync_next_token = 1, tl_retry_deadlines = [] \<rparr>"

subsection \<open>Observations\<close>

text \<open>\<open>fetch_max\<close> on the latest generation: the previous one.\<close>

definition raise_generation :: "nat \<Rightarrow> topic_lifecycle \<Rightarrow> nat \<times> topic_lifecycle" where
  "raise_generation generation topics =
     (tl_latest_generation topics, topics\<lparr>tl_latest_generation := max (tl_latest_generation topics) generation\<rparr>)"

definition drop_old_intents :: "nat \<Rightarrow> nat \<Rightarrow> topic_lifecycle \<Rightarrow> topic_lifecycle" where
  "drop_old_intents generation previous topics =
     (if generation > previous
      then topics\<lparr>tl_intents := hretain (\<lambda>_ intent. li_generation intent \<ge> generation) (tl_intents topics)\<rparr> else topics)"

definition put_intent :: "string \<Rightarrow> lifecycle_intent \<Rightarrow> topic_lifecycle \<Rightarrow> topic_lifecycle" where
  "put_intent thread_id intent topics = topics\<lparr>tl_intents := hinsert thread_id intent (tl_intents topics)\<rparr>"

text \<open>The locked sections.\<close>

definition started_locked :: "string \<Rightarrow> nat \<Rightarrow> nat \<Rightarrow> topic_lifecycle \<Rightarrow> bool \<times> topic_lifecycle" where
  "started_locked thread_id generation previous topics =
     (let topics = drop_old_intents generation previous topics;
          active = \<lparr> li_generation = generation, li_revision = 0, li_state = LifecycleActive \<rparr>
      in case hget (tl_intents topics) thread_id of
           None \<Rightarrow> (True, put_intent thread_id active topics)
         | Some intent \<Rightarrow>
             if li_generation intent > generation then (False, topics)
             else if li_generation intent = generation then (li_state intent = LifecycleActive, topics)
             else (True, put_intent thread_id active topics))"

definition lifecycle_locked ::
  "string \<Rightarrow> nat \<Rightarrow> nat \<Rightarrow> nat option \<Rightarrow> thread_lifecycle \<Rightarrow> topic_lifecycle \<Rightarrow> bool option \<times> topic_lifecycle" where
  "lifecycle_locked thread_id generation previous expected_revision next_state topics =
     (let topics = drop_old_intents generation previous topics;
          current = hget (tl_intents topics) thread_id;
          same = opt_filter (\<lambda>intent. li_generation intent = generation) current;
          current_revision = (case same of None \<Rightarrow> 0 | Some intent \<Rightarrow> li_revision intent)
      in if (case current of None \<Rightarrow> False | Some intent \<Rightarrow> li_generation intent > generation) then (None, topics)
         else if (case expected_revision of None \<Rightarrow> False | Some expected \<Rightarrow> expected \<noteq> current_revision) then (None, topics)
         else if (case same of None \<Rightarrow> False | Some intent \<Rightarrow> li_state intent = LifecycleDeleted) \<and>
                 next_state \<noteq> LifecycleDeleted then (None, topics)
         else (Some (next_state = LifecycleActive),
               put_intent thread_id
                 \<lparr> li_generation = generation, li_revision = tl_next_revision topics, li_state = next_state \<rparr>
                 (topics\<lparr>tl_next_revision := (tl_next_revision topics + 1) mod 2 ^ 64\<rparr>)))"

definition observe_telegram_thread_started :: "string \<Rightarrow> nat \<Rightarrow> topic_lifecycle \<Rightarrow> bool \<times> topic_lifecycle" where
  "observe_telegram_thread_started thread_id generation topics =
     (let (previous, topics) = raise_generation generation topics
      in if generation < previous then (False, topics) else started_locked thread_id generation previous topics)"

definition observe_telegram_thread_lifecycle_inner ::
  "string \<Rightarrow> nat \<Rightarrow> nat option \<Rightarrow> thread_lifecycle \<Rightarrow> topic_lifecycle \<Rightarrow> bool option \<times> topic_lifecycle" where
  "observe_telegram_thread_lifecycle_inner thread_id generation expected_revision next_state topics =
     (let (previous, topics) = raise_generation generation topics
      in if generation < previous then (None, topics)
         else lifecycle_locked thread_id generation previous expected_revision next_state topics)"

definition observe_telegram_thread_lifecycle ::
  "string \<Rightarrow> nat \<Rightarrow> thread_lifecycle \<Rightarrow> topic_lifecycle \<Rightarrow> bool \<times> topic_lifecycle" where
  "observe_telegram_thread_lifecycle thread_id generation next_state topics =
     (let (accepted, topics) = observe_telegram_thread_lifecycle_inner thread_id generation None next_state topics
      in (unwrap_or accepted False, topics))"

definition observe_telegram_thread_lifecycle_if_revision ::
  "string \<Rightarrow> nat \<Rightarrow> nat \<Rightarrow> thread_lifecycle \<Rightarrow> topic_lifecycle \<Rightarrow> bool option \<times> topic_lifecycle" where
  "observe_telegram_thread_lifecycle_if_revision thread_id generation expected_revision =
     observe_telegram_thread_lifecycle_inner thread_id generation (Some expected_revision)"

text \<open>Reading a revision and checking a binding load the latest generation and only then take the lock: \<open>loaded\<close>
  is the generation of the state at the load, and other observations may come before the state that is locked.\<close>

definition telegram_thread_lifecycle_revision :: "string \<Rightarrow> nat \<Rightarrow> nat \<Rightarrow> topic_lifecycle \<Rightarrow> nat option" where
  "telegram_thread_lifecycle_revision thread_id generation loaded topics =
     (if generation < loaded then None
      else case hget (tl_intents topics) thread_id of
             None \<Rightarrow> Some 0
           | Some intent \<Rightarrow>
               if li_generation intent > generation then None
               else if li_generation intent = generation then Some (li_revision intent)
               else Some 0)"

definition telegram_thread_allows_topic_binding :: "string \<Rightarrow> nat \<Rightarrow> nat \<Rightarrow> topic_lifecycle \<Rightarrow> bool" where
  "telegram_thread_allows_topic_binding thread_id generation loaded topics \<longleftrightarrow>
     \<not> generation < loaded \<and>
     (case hget (tl_intents topics) thread_id of
        None \<Rightarrow> True
      | Some intent \<Rightarrow> li_generation intent < generation \<or>
          (li_generation intent = generation \<and> li_state intent = LifecycleActive))"

subsection \<open>Clean-up workers, name updates and deadlines\<close>

definition normalized_telegram_account_id :: "string \<Rightarrow> string" where
  "normalized_telegram_account_id account_id = (if trim account_id = [] then ''telegram'' else trim account_id)"

definition telegram_topic_cleanup_pending_for_account ::
  "(string \<Rightarrow> nat list) \<Rightarrow> string \<Rightarrow> topic_lifecycle \<Rightarrow> bool" where
  "telegram_topic_cleanup_pending_for_account sha256 account_id topics =
     list_ex (\<lambda>(conv_key, _). case route_from_conversation_key sha256 conv_key of
         None \<Rightarrow> False | Some route \<Rightarrow> ro_account_id route = normalized_telegram_account_id account_id)
       (tl_cleanup_registrations topics)"

definition next_telegram_topic_cleanup_token :: "topic_lifecycle \<Rightarrow> nat \<times> topic_lifecycle" where
  "next_telegram_topic_cleanup_token topics =
     (tl_cleanup_next_token topics, topics\<lparr>tl_cleanup_next_token := (tl_cleanup_next_token topics + 1) mod 2 ^ 64\<rparr>)"

definition notify_telegram_topic_cleanup_if_older ::
  "string \<Rightarrow> nat \<Rightarrow> nat \<Rightarrow> topic_lifecycle \<Rightarrow> topic_lifecycle" where
  "notify_telegram_topic_cleanup_if_older conv_key generation revision topics =
     (case hget (tl_cleanup_registrations topics) conv_key of
        None \<Rightarrow> topics
      | Some registration \<Rightarrow>
          if cr_lifecycle_generation registration < generation \<or>
             (cr_lifecycle_generation registration = generation \<and> cr_lifecycle_revision registration < revision)
          then topics\<lparr>tl_cleanup_registrations :=
                 hinsert conv_key (registration\<lparr>cr_notified := True\<rparr>) (tl_cleanup_registrations topics)\<rparr>
          else topics)"

definition extend_telegram_topic_cleanup_retry_deadline ::
  "nat \<Rightarrow> string \<Rightarrow> nat \<Rightarrow> topic_lifecycle \<Rightarrow> nat \<times> topic_lifecycle" where
  "extend_telegram_topic_cleanup_retry_deadline now account_id delay topics =
     (let account_id = normalized_telegram_account_id account_id;
          requested = now + delay;
          deadline = max (unwrap_or (hget (tl_retry_deadlines topics) account_id) requested) requested
      in (deadline, topics\<lparr>tl_retry_deadlines := hinsert account_id deadline (tl_retry_deadlines topics)\<rparr>))"

definition telegram_topic_cleanup_retry_deadline :: "string \<Rightarrow> topic_lifecycle \<Rightarrow> nat option" where
  "telegram_topic_cleanup_retry_deadline account_id topics =
     hget (tl_retry_deadlines topics) (normalized_telegram_account_id account_id)"

definition clear_telegram_topic_cleanup_retry_deadline_if_elapsed ::
  "nat \<Rightarrow> string \<Rightarrow> nat \<Rightarrow> topic_lifecycle \<Rightarrow> topic_lifecycle" where
  "clear_telegram_topic_cleanup_retry_deadline_if_elapsed now account_id observed_deadline topics =
     (let account_id = normalized_telegram_account_id account_id
      in case hget (tl_retry_deadlines topics) account_id of
           None \<Rightarrow> topics
         | Some deadline \<Rightarrow>
             if deadline \<le> observed_deadline \<and> deadline \<le> now
             then topics\<lparr>tl_retry_deadlines := hremove account_id (tl_retry_deadlines topics)\<rparr> else topics)"

definition begin_telegram_topic_name_update :: "string \<Rightarrow> topic_lifecycle \<Rightarrow> nat \<times> topic_lifecycle" where
  "begin_telegram_topic_name_update conv_key topics =
     (let token = tl_name_update_next_token topics
      in (token, topics\<lparr>tl_name_update_next_token := (token + 1) mod 2 ^ 64,
                    tl_name_update_ops := hinsert conv_key token (tl_name_update_ops topics)\<rparr>))"

definition next_telegram_topic_name_sync_token :: "topic_lifecycle \<Rightarrow> nat \<times> topic_lifecycle" where
  "next_telegram_topic_name_sync_token topics =
     (tl_name_sync_next_token topics, topics\<lparr>tl_name_sync_next_token := (tl_name_sync_next_token topics + 1) mod 2 ^ 64\<rparr>)"

definition telegram_topic_name_update_is_current :: "string \<Rightarrow> nat \<Rightarrow> topic_lifecycle \<Rightarrow> bool" where
  "telegram_topic_name_update_is_current conv_key token topics \<longleftrightarrow> hget (tl_name_update_ops topics) conv_key = Some token"

definition finish_telegram_topic_name_update :: "string \<Rightarrow> nat \<Rightarrow> topic_lifecycle \<Rightarrow> topic_lifecycle" where
  "finish_telegram_topic_name_update conv_key token topics =
     (if telegram_topic_name_update_is_current conv_key token topics
      then topics\<lparr>tl_name_update_ops := hremove conv_key (tl_name_update_ops topics)\<rparr> else topics)"

subsection \<open>Interleaved observations\<close>

text \<open>The tasks: an observation raised the counter and has not yet taken the lock. The list holds what each
  such task was asked and the generation it saw.\<close>

datatype observation = Started string nat | Observed string nat "nat option" thread_lifecycle

fun observed_generation :: "observation \<Rightarrow> nat" where
  "observed_generation (Started thread_id generation) = generation"
| "observed_generation (Observed thread_id generation expected_revision next_state) = generation"

fun commit :: "observation \<Rightarrow> nat \<Rightarrow> topic_lifecycle \<Rightarrow> bool option \<times> topic_lifecycle" where
  "commit (Started thread_id generation) previous topics =
     (let (active, topics) = started_locked thread_id generation previous topics in (Some active, topics))"
| "commit (Observed thread_id generation expected_revision next_state) previous topics =
     lifecycle_locked thread_id generation previous expected_revision next_state topics"

record lifecycle_tasks =
  lt_state :: topic_lifecycle
  lt_waiting :: "(observation \<times> nat) list"

inductive topic_step :: "lifecycle_tasks \<Rightarrow> lifecycle_tasks \<Rightarrow> bool" where
  refused: "raise_generation (observed_generation ob) (lt_state ts) = (previous, topics) \<Longrightarrow>
    observed_generation ob < previous \<Longrightarrow> topic_step ts (ts\<lparr>lt_state := topics\<rparr>)"
| raised: "raise_generation (observed_generation ob) (lt_state ts) = (previous, topics) \<Longrightarrow>
    previous \<le> observed_generation ob \<Longrightarrow>
    topic_step ts (ts\<lparr>lt_state := topics, lt_waiting := lt_waiting ts @ [(ob, previous)]\<rparr>)"
| committed: "lt_waiting ts = before @ (ob, previous) # after \<Longrightarrow>
    topic_step ts (ts\<lparr>lt_state := snd (commit ob previous (lt_state ts)), lt_waiting := before @ after\<rparr>)"

text \<open>A task that is not interrupted observes as the function does.\<close>

lemma uninterrupted_started:
  "observe_telegram_thread_started thread_id generation topics =
     (let (previous, raised) = raise_generation generation topics;
          result = commit (Started thread_id generation) previous raised
      in if generation < previous then (False, raised) else (the (fst result), snd result))"
  by (simp add: observe_telegram_thread_started_def case_prod_beta Let_def)

lemma uninterrupted_observed:
  "observe_telegram_thread_lifecycle_inner thread_id generation expected_revision next_state topics =
     (let (previous, raised) = raise_generation generation topics
      in if generation < previous then (None, raised)
         else commit (Observed thread_id generation expected_revision next_state) previous raised)"
  by (simp add: observe_telegram_thread_lifecycle_inner_def case_prod_beta)

definition deleted_in :: "string \<Rightarrow> nat \<Rightarrow> topic_lifecycle \<Rightarrow> bool" where
  "deleted_in thread_id generation topics \<longleftrightarrow> tl_latest_generation topics > generation \<or>
     (\<exists>intent. hget (tl_intents topics) thread_id = Some intent \<and> li_generation intent \<ge> generation \<and>
        (li_generation intent = generation \<longrightarrow> li_state intent = LifecycleDeleted))"

definition tasks_ok :: "lifecycle_tasks \<Rightarrow> bool" where
  "tasks_ok ts \<longleftrightarrow> hwf (tl_intents (lt_state ts)) \<and>
     (\<forall>(ob, previous) \<in> set (lt_waiting ts). observed_generation ob \<le> tl_latest_generation (lt_state ts))"

lemma drop_old_frame [simp]:
  "tl_latest_generation (drop_old_intents generation previous topics) = tl_latest_generation topics"
  "hwf (tl_intents topics) \<Longrightarrow> hwf (tl_intents (drop_old_intents generation previous topics))"
  by (simp_all add: drop_old_intents_def)

lemma put_intent_frame [simp]:
  "tl_latest_generation (put_intent thread_id intent topics) = tl_latest_generation topics"
  "tl_intents (put_intent thread_id intent topics) = hinsert thread_id intent (tl_intents topics)"
  by (simp_all add: put_intent_def)

lemma commit_frame [simp]:
  "tl_latest_generation (snd (commit ob previous topics)) = tl_latest_generation topics"
  "hwf (tl_intents topics) \<Longrightarrow> hwf (tl_intents (snd (commit ob previous topics)))"
  by (cases ob; simp add: started_locked_def lifecycle_locked_def Let_def case_prod_beta split: option.splits)+

text \<open>The locked section keeps an intent that is not older than the observation.\<close>

lemma commit_keeps_newer:
  assumes "hwf (tl_intents topics)" and "hget (tl_intents topics) t = Some intent"
    and "observed_generation ob \<le> li_generation intent"
    and "li_generation intent = observed_generation ob \<longrightarrow> li_state intent = LifecycleDeleted"
  shows "\<exists>kept. hget (tl_intents (snd (commit ob previous topics))) t = Some kept \<and>
    li_generation kept = li_generation intent \<and> li_state kept = li_state intent"
proof -
  have kept: "hget (tl_intents (drop_old_intents (observed_generation ob) previous topics)) t = Some intent"
    using assms(1-3) by (simp add: drop_old_intents_def hget_hretain)
  then show ?thesis
    using assms(3,4)
    by (cases ob) (auto simp: started_locked_def lifecycle_locked_def Let_def put_intent_def split: option.splits)
qed

lemma commit_deleted_in:
  assumes "hwf (tl_intents topics)" and "observed_generation ob \<le> tl_latest_generation topics"
    and "deleted_in t g topics"
  shows "deleted_in t g (snd (commit ob previous topics))"
proof (cases "tl_latest_generation topics > g")
  case True
  then show ?thesis by (simp add: deleted_in_def)
next
  case False
  then obtain intent where intent: "hget (tl_intents topics) t = Some intent" "li_generation intent \<ge> g"
    "li_generation intent = g \<longrightarrow> li_state intent = LifecycleDeleted"
    using assms(3) by (auto simp: deleted_in_def)
  have "observed_generation ob \<le> g" using False assms(2) by simp
  with intent have "\<exists>kept. hget (tl_intents (snd (commit ob previous topics))) t = Some kept \<and>
    li_generation kept = li_generation intent \<and> li_state kept = li_state intent"
    by (intro commit_keeps_newer[OF assms(1)]) auto
  then show ?thesis using intent by (auto simp: deleted_in_def)
qed

lemma topic_step_ok: "topic_step ts ts' \<Longrightarrow> tasks_ok ts \<Longrightarrow> tasks_ok ts'"
  by (induction rule: topic_step.induct) (fastforce simp: tasks_ok_def raise_generation_def)+

lemma topic_step_deleted:
  "topic_step ts ts' \<Longrightarrow> tasks_ok ts \<Longrightarrow> deleted_in t g (lt_state ts) \<Longrightarrow> deleted_in t g (lt_state ts')"
proof (induction rule: topic_step.induct)
  case (committed ts before ob previous after)
  then show ?case by (auto simp: tasks_ok_def intro: commit_deleted_in)
qed (auto simp: raise_generation_def deleted_in_def)

definition tasks_new :: lifecycle_tasks where
  "tasks_new = \<lparr> lt_state = topic_lifecycle_new, lt_waiting = [] \<rparr>"

lemma topic_steps_ok: "topic_step\<^sup>*\<^sup>* tasks_new ts \<Longrightarrow> tasks_ok ts"
  by (induction rule: rtranclp_induct) (simp add: tasks_ok_def tasks_new_def topic_lifecycle_new_def, rule topic_step_ok)

lemma topic_steps_deleted:
  assumes "topic_step\<^sup>*\<^sup>* ts ts'" and "tasks_ok ts" and "deleted_in t g (lt_state ts)"
  shows "tasks_ok ts' \<and> deleted_in t g (lt_state ts')"
  using assms by (induction rule: rtranclp_induct) (auto dest: topic_step_ok topic_step_deleted)

text \<open>An accepted deletion is recorded.\<close>

lemma accepted_deletion:
  "commit (Observed t g expected LifecycleDeleted) previous topics = (Some accepted, topics') \<Longrightarrow>
     \<exists>intent. hget (tl_intents topics') t = Some intent \<and> li_generation intent = g \<and> li_state intent = LifecycleDeleted"
  by (auto simp: lifecycle_locked_def Let_def split: if_splits)

text \<open>A deleted thread under a locked section of its generation or an earlier one, when no newer generation was
  seen.\<close>

fun observed_thread :: "observation \<Rightarrow> string" where
  "observed_thread (Started thread_id generation) = thread_id"
| "observed_thread (Observed thread_id generation expected_revision next_state) = thread_id"

lemma commit_refuses_deleted:
  assumes "hwf (tl_intents topics)" and "hget (tl_intents topics) t = Some kept" and "li_generation kept \<ge> g"
    and "li_generation kept = g \<longrightarrow> li_state kept = LifecycleDeleted"
    and "observed_thread ob = t" and "observed_generation ob \<le> g"
  shows "fst (commit ob previous topics) \<noteq> Some True"
proof -
  have "hget (tl_intents (drop_old_intents (observed_generation ob) previous topics)) t = Some kept"
    using assms(1-3,6) by (simp add: drop_old_intents_def hget_hretain)
  then show ?thesis using assms(3-6)
    by (cases ob) (auto simp: started_locked_def lifecycle_locked_def Let_def split: if_splits)
qed

lemma unwrap_or_False: "unwrap_or answer False \<longleftrightarrow> answer = Some True"
  by (cases answer) simp_all

lemma deleted_consider:
  assumes "deleted_in t g topics"
  obtains "g < tl_latest_generation topics"
    | kept where "tl_latest_generation topics \<le> g" "hget (tl_intents topics) t = Some kept" "li_generation kept \<ge> g"
        "li_generation kept = g \<longrightarrow> li_state kept = LifecycleDeleted"
  using assms leI unfolding deleted_in_def by blast

text \<open>C11. A deleted thread is not revived within its generation. In every run of the daemon's tasks, however
  their observations interleave between raising the generation and taking the lock, once a thread was recorded
  as deleted in a generation, observations of this or an earlier generation that it started or is active again
  are refused, and so is a binding of a topic to it. Operations already under way are refused as well, unless a
  newer generation came in between: a binding check that loaded the generation at any earlier time, and an
  observation that waits for the lock.\<close>

theorem deletion_is_final:
  assumes "topic_step\<^sup>*\<^sup>* tasks_new ts" and "hget (tl_intents (lt_state ts)) t = Some intent"
    and "li_state intent = LifecycleDeleted" and "topic_step\<^sup>*\<^sup>* ts ts'" and "g \<le> li_generation intent"
  shows "\<not> fst (observe_telegram_thread_started t g (lt_state ts')) \<and>
    \<not> fst (observe_telegram_thread_lifecycle t g LifecycleActive (lt_state ts')) \<and>
    \<not> telegram_thread_allows_topic_binding t g (tl_latest_generation (lt_state ts')) (lt_state ts') \<and>
    (\<forall>loaded. telegram_thread_allows_topic_binding t g loaded (lt_state ts') \<longrightarrow> g < tl_latest_generation (lt_state ts')) \<and>
    (\<forall>(ob, previous) \<in> set (lt_waiting ts').
       observed_thread ob = t \<and> observed_generation ob = g \<and> fst (commit ob previous (lt_state ts')) = Some True \<longrightarrow>
       g < tl_latest_generation (lt_state ts'))"
proof -
  let ?topics = "lt_state ts'"
  have "deleted_in t g (lt_state ts)" using assms(2,3,5) by (auto simp: deleted_in_def)
  then have deleted: "hwf (tl_intents ?topics)" "deleted_in t g ?topics"
    using topic_steps_deleted[OF assms(4) topic_steps_ok[OF assms(1)]] by (simp_all add: tasks_ok_def)
  from deleted(2) show ?thesis
  proof (rule deleted_consider)
    assume "g < tl_latest_generation ?topics"
    then show ?thesis
      by (simp add: telegram_thread_allows_topic_binding_def observe_telegram_thread_started_def raise_generation_def
          observe_telegram_thread_lifecycle_def observe_telegram_thread_lifecycle_inner_def case_prod_beta)
  next
    fix kept
    assume latest: "tl_latest_generation ?topics \<le> g" and kept: "hget (tl_intents ?topics) t = Some kept"
      "li_generation kept \<ge> g" "li_generation kept = g \<longrightarrow> li_state kept = LifecycleDeleted"
    let ?raised = "?topics\<lparr>tl_latest_generation := max (tl_latest_generation ?topics) g\<rparr>"
    have "fst (commit ob previous ?topics) \<noteq> Some True" "fst (commit ob previous ?raised) \<noteq> Some True"
      if "observed_thread ob = t" "observed_generation ob = g" for ob previous
      using commit_refuses_deleted[OF _ _ kept(2,3) that(1)] kept(1) deleted(1) that(2) by simp_all
    from this(1) this(2)[of "Started t g"] this(2)[of "Observed t g None LifecycleActive"] latest kept
    show ?thesis
      by (auto simp: telegram_thread_allows_topic_binding_def observe_telegram_thread_started_def raise_generation_def
          observe_telegram_thread_lifecycle_def observe_telegram_thread_lifecycle_inner_def case_prod_beta
          unwrap_or_False split: option.split)
  qed
qed

text \<open>Two tasks: a start raises the generation and waits while a deletion of the same generation is committed.\<close>

definition sample_racing :: lifecycle_tasks where
  "sample_racing = \<lparr> lt_state = topic_lifecycle_new\<lparr>tl_latest_generation := 7, tl_next_revision := Suc (Suc 0),
       tl_intents := [(''th'', \<lparr> li_generation = 7, li_revision = 1, li_state = LifecycleDeleted \<rparr>)]\<rparr>,
     lt_waiting = [(Started ''th'' 7, 0)] \<rparr>"

lemma sample_racing_reached: "topic_step\<^sup>*\<^sup>* tasks_new sample_racing"
proof -
  let ?raised = "topic_lifecycle_new\<lparr>tl_latest_generation := 7\<rparr>"
    and ?deletion = "Observed ''th'' 7 None LifecycleDeleted"
  have first: "topic_step tasks_new \<lparr> lt_state = ?raised, lt_waiting = [(Started ''th'' 7, 0)] \<rparr>"
    using topic_step.raised[of "Started ''th'' 7" tasks_new 0 ?raised]
    by (simp add: tasks_new_def raise_generation_def topic_lifecycle_new_def)
  have second: "topic_step \<lparr> lt_state = ?raised, lt_waiting = [(Started ''th'' 7, 0)] \<rparr>
      \<lparr> lt_state = ?raised, lt_waiting = [(Started ''th'' 7, 0), (?deletion, 7)] \<rparr>"
    using topic_step.raised[of ?deletion "\<lparr> lt_state = ?raised, lt_waiting = [(Started ''th'' 7, 0)] \<rparr>" 7 ?raised]
    by (simp add: raise_generation_def topic_lifecycle_new_def)
  have "topic_step \<lparr> lt_state = ?raised, lt_waiting = [(Started ''th'' 7, 0), (?deletion, 7)] \<rparr> sample_racing"
    using topic_step.committed[of "\<lparr> lt_state = ?raised, lt_waiting = [(Started ''th'' 7, 0), (?deletion, 7)] \<rparr>"
        "[(Started ''th'' 7, 0)]" ?deletion 7 "[]"]
    by (simp add: sample_racing_def lifecycle_locked_def drop_old_intents_def put_intent_def topic_lifecycle_new_def)
  with first second show ?thesis by (metis (no_types) converse_rtranclp_into_rtranclp rtranclp.rtrancl_refl)
qed

text \<open>The exception: a start of the old generation waits for the lock, a newer generation drops its intents, and
  then the start is answered that the thread is active. Its record is of the old generation, in which nothing
  can be bound any more.\<close>

definition sample_overtaken :: lifecycle_tasks where
  "sample_overtaken = \<lparr> lt_state = topic_lifecycle_new\<lparr>tl_latest_generation := 8, tl_next_revision := Suc (Suc 0),
       tl_intents := [(''other'', \<lparr> li_generation = 8, li_revision = 0, li_state = LifecycleActive \<rparr>)]\<rparr>,
     lt_waiting = [(Started ''th'' 7, 0)] \<rparr>"

lemma overtaken_start_is_answered:
  "topic_step\<^sup>*\<^sup>* sample_racing sample_overtaken" "(Started ''th'' 7, 0) \<in> set (lt_waiting sample_overtaken)"
  "fst (commit (Started ''th'' 7) 0 (lt_state sample_overtaken)) = Some True"
proof -
  let ?raised = "sample_racing\<lparr>lt_state := (lt_state sample_racing)\<lparr>tl_latest_generation := 8\<rparr>,
    lt_waiting := [(Started ''th'' 7, 0), (Started ''other'' 8, 7)]\<rparr>"
  have first: "topic_step sample_racing ?raised"
    using topic_step.raised[of "Started ''other'' 8" sample_racing 7] by (simp add: sample_racing_def raise_generation_def)
  have "topic_step ?raised sample_overtaken"
    using topic_step.committed[of ?raised "[(Started ''th'' 7, 0)]" "Started ''other'' 8" 7 "[]"]
    by (simp add: sample_racing_def sample_overtaken_def started_locked_def drop_old_intents_def put_intent_def
        topic_lifecycle_new_def hretain_def)
  with first show "topic_step\<^sup>*\<^sup>* sample_racing sample_overtaken"
    by (metis (no_types) converse_rtranclp_into_rtranclp rtranclp.rtrancl_refl)
qed (simp_all add: sample_overtaken_def started_locked_def drop_old_intents_def topic_lifecycle_new_def hretain_def)

theorem deletion_is_final_witness:
  "\<exists>ts. topic_step sample_racing ts \<and> lt_waiting ts = [] \<and>
     \<not> telegram_thread_allows_topic_binding ''th'' 7 (tl_latest_generation (lt_state ts)) (lt_state ts)"
proof -
  let ?ts = "sample_racing\<lparr>lt_state := snd (commit (Started ''th'' 7) 0 (lt_state sample_racing)), lt_waiting := []\<rparr>"
  have step: "topic_step sample_racing ?ts"
    using topic_step.committed[of sample_racing "[]" "Started ''th'' 7" 0 "[]"] by (simp add: sample_racing_def)
  have deleted: "hget (tl_intents (lt_state sample_racing)) ''th'' =
      Some \<lparr> li_generation = 7, li_revision = 1, li_state = LifecycleDeleted \<rparr>" by (simp add: sample_racing_def)
  have "topic_step\<^sup>*\<^sup>* sample_racing ?ts" by (rule r_into_rtranclp[where r = topic_step, OF step])
  from deletion_is_final[OF sample_racing_reached deleted _ this, of 7]
  have "\<not> telegram_thread_allows_topic_binding ''th'' 7 (tl_latest_generation (lt_state ?ts)) (lt_state ?ts)" by simp
  with step show ?thesis by (intro exI[of _ ?ts]) simp
qed

end
