(* ===== verification/ImBindings.thy ===== *)
theory ImBindings
  imports RcTracking RuntimeProperties TelegramAccess TopicLifecycle "HOL-Library.List_Lexorder" "HOL-Library.Char_ord"
begin

section \<open>Conversations bound to threads (src/src/im/core/session.rs, routing.rs, src/src/app_state.rs)\<close>

text \<open>
  A conversation of a messaging channel works on one thread. The binding lives in the runtime's routes and,
  for Telegram, in the persisted state, which is saved to a file after a change; a start of the daemon reads
  it back. The operations on bindings hold one lock, but other tasks may change the runtime and the records
  of topics while a binding is checked: what they do is an argument. Saving may fail; the outcome is an
  argument too. Of the persisted state the two maps of bindings are kept. Two hash maps are equal when they
  have the same entries.
\<close>

subsection \<open>State\<close>

record topic_binding_state =
  tb_thread_id :: string
  tb_codex_title :: string
  tb_topic_name :: string
  tb_last_synced_codex_title :: string
  tb_last_synced_topic_name :: string
  tb_codex_state :: string
  tb_telegram_state :: string
  tb_archived_at_ms :: "nat option"
  tb_missing_at_ms :: "nat option"
  tb_lifecycle_generation :: nat
  tb_lifecycle_revision :: nat
  tb_last_checked_at_ms :: nat

definition topic_binding_state_default :: topic_binding_state where
  "topic_binding_state_default = \<lparr> tb_thread_id = [], tb_codex_title = [], tb_topic_name = [],
     tb_last_synced_codex_title = [], tb_last_synced_topic_name = [], tb_codex_state = ''active'',
     tb_telegram_state = ''open'', tb_archived_at_ms = None, tb_missing_at_ms = None, tb_lifecycle_generation = 0,
     tb_lifecycle_revision = 0, tb_last_checked_at_ms = 0 \<rparr>"

type_synonym saved_bindings = "(string, string) hmap \<times> (string, topic_binding_state) hmap"

record im_world =
  im_daemon :: daemon_world
  im_topic_states :: "(string, topic_binding_state) hmap"
  im_topics :: topic_lifecycle
  im_saved :: saved_bindings

abbreviation im_runtime :: "im_world \<Rightarrow> runtime_state" where
  "im_runtime w \<equiv> dw_runtime (im_daemon w)"

abbreviation im_bindings :: "im_world \<Rightarrow> (string, string) hmap" where
  "im_bindings w \<equiv> dw_thread_bindings (im_daemon w)"

definition change_runtime :: "(runtime_state \<Rightarrow> runtime_state) \<Rightarrow> im_world \<Rightarrow> im_world" where
  "change_runtime f w = w\<lparr>im_daemon := (im_daemon w)\<lparr>dw_runtime := f (im_runtime w)\<rparr>\<rparr>"

definition change_bindings ::
  "((string, string) hmap \<Rightarrow> (string, string) hmap)
     \<Rightarrow> ((string, topic_binding_state) hmap \<Rightarrow> (string, topic_binding_state) hmap) \<Rightarrow> im_world \<Rightarrow> im_world" where
  "change_bindings f g w =
     w\<lparr>im_daemon := (im_daemon w)\<lparr>dw_thread_bindings := f (im_bindings w)\<rparr>, im_topic_states := g (im_topic_states w)\<rparr>"

definition bindings_of :: "im_world \<Rightarrow> saved_bindings" where
  "bindings_of w = (im_bindings w, im_topic_states w)"

definition same_bindings :: "saved_bindings \<Rightarrow> saved_bindings \<Rightarrow> bool" where
  "same_bindings p q \<longleftrightarrow> set (fst p) = set (fst q) \<and> set (snd p) = set (snd q)"

text \<open>\<open>PersistedState::save\<close>.\<close>

definition save_persisted :: "bool \<Rightarrow> im_world \<Rightarrow> bool \<times> im_world" where
  "save_persisted fails w = (if fails then (False, w) else (True, w\<lparr>im_saved := bindings_of w\<rparr>))"

subsection \<open>Looking up and clearing\<close>

definition live_thread_binding_for_route :: "route_target \<Rightarrow> runtime_state \<Rightarrow> (string \<times> route_target) option" where
  "live_thread_binding_for_route route rs =
     List.find (\<lambda>(_, existing). ro_conversation_key existing = ro_conversation_key route) (route_by_thread rs)"

definition live_thread_for_route :: "route_target \<Rightarrow> runtime_state \<Rightarrow> string option" where
  "live_thread_for_route route rs = map_option fst (live_thread_binding_for_route route rs)"

definition remote_client_key_for_thread :: "string \<Rightarrow> runtime_state \<Rightarrow> string option" where
  "remote_client_key_for_thread thread_id rs = map_option ro_remote_client_key (route_for_thread thread_id rs)"

text \<open>The fields of an inbound message that say where it comes from.\<close>

record inbound_origin =
  io_platform :: im_platform_kind
  io_account_id :: string
  io_chat_id :: string
  io_approval_request_key :: "string option"

definition origin_conversation_key :: "inbound_origin \<Rightarrow> string" where
  "origin_conversation_key message = conversation_key (io_platform message) (io_account_id message) (io_chat_id message)"

definition route_for_message :: "(string \<Rightarrow> nat list) \<Rightarrow> inbound_origin \<Rightarrow> route_target" where
  "route_for_message sha256 message = with_deterministic_remote_client_key sha256
     \<lparr> ro_platform = io_platform message, ro_conversation_key = origin_conversation_key message,
       ro_account_id = io_account_id message, ro_chat_id = io_chat_id message, ro_remote_client_key = [] \<rparr>"

definition active_turn_for_message ::
  "(string \<Rightarrow> nat list) \<Rightarrow> inbound_origin \<Rightarrow> runtime_state \<Rightarrow> (string \<times> string) option" where
  "active_turn_for_message sha256 message rs =
     Option.bind (live_thread_for_route (route_for_message sha256 message) rs)
       (\<lambda>thread_id. map_option (Pair thread_id) (hget (current_turn_by_thread rs) thread_id))"

definition turn_in_progress_for_message :: "(string \<Rightarrow> nat list) \<Rightarrow> inbound_origin \<Rightarrow> runtime_state \<Rightarrow> bool" where
  "turn_in_progress_for_message sha256 message rs =
     (case live_thread_for_route (route_for_message sha256 message) rs of
        None \<Rightarrow> False | Some thread_id \<Rightarrow> turn_in_progress thread_id rs)"

definition is_telegram_conversation :: "(string \<Rightarrow> nat list) \<Rightarrow> string \<Rightarrow> bool" where
  "is_telegram_conversation sha256 conv_key =
     (case route_from_conversation_key sha256 conv_key of
        None \<Rightarrow> False | Some route \<Rightarrow> ro_platform route = Telegram)"

definition forget_persisted_thread_binding ::
  "(string \<Rightarrow> nat list) \<Rightarrow> bool \<Rightarrow> string \<Rightarrow> im_world \<Rightarrow> bool \<times> im_world" where
  "forget_persisted_thread_binding sha256 fails conv_key w =
     (if \<not> is_telegram_conversation sha256 conv_key then (True, w)
      else let known = hcontains (im_bindings w) conv_key \<or> hcontains (im_topic_states w) conv_key;
               w = change_bindings (hremove conv_key) (hremove conv_key) w
           in if known then save_persisted fails w else (True, w))"

definition clear_thread_binding_with_reason ::
  "(string \<Rightarrow> nat list) \<Rightarrow> bool \<Rightarrow> string \<Rightarrow> im_world \<Rightarrow> bool \<times> im_world" where
  "clear_thread_binding_with_reason sha256 fails conv_key w =
     forget_persisted_thread_binding sha256 fails conv_key
       (change_runtime (\<lambda>rs. snd (unbind_routes_for_conversation_with_reason conv_key rs)) w)"

definition clear_thread_binding :: "(string \<Rightarrow> nat list) \<Rightarrow> bool \<Rightarrow> string \<Rightarrow> im_world \<Rightarrow> bool \<times> im_world" where
  "clear_thread_binding = clear_thread_binding_with_reason"

text \<open>\<open>Ok\<close> of the flag, or the error of a failed save.\<close>

definition clear_thread_binding_if_matches_with_reason ::
  "(string \<Rightarrow> nat list) \<Rightarrow> bool \<Rightarrow> string \<Rightarrow> string \<Rightarrow> im_world \<Rightarrow> bool option \<times> im_world" where
  "clear_thread_binding_if_matches_with_reason sha256 fails conv_key thread_id w =
     (if hget (im_bindings w) conv_key \<noteq> Some thread_id then (Some False, w)
      else let (saved, w) = clear_thread_binding_with_reason sha256 fails conv_key w
           in ((if saved then Some True else None), w))"

definition clear_thread_binding_for_thread_with_reason ::
  "(string \<Rightarrow> nat list) \<Rightarrow> bool \<Rightarrow> string \<Rightarrow> string \<Rightarrow> im_world \<Rightarrow> bool option \<times> im_world" where
  "clear_thread_binding_for_thread_with_reason sha256 fails thread_id remote_client_key w =
     (case route_for_thread thread_id (im_runtime w) of
        None \<Rightarrow> (Some False, w)
      | Some route \<Rightarrow>
          if ro_remote_client_key route \<noteq> remote_client_key then (Some False, w)
          else let (saved, w) = clear_thread_binding_with_reason sha256 fails (ro_conversation_key route) w
               in ((if saved then Some True else None), w))"

subsection \<open>Binding\<close>

datatype bind_error =
  GenerationChangedBefore | BlockedByLifecycle | CleanupInProgress | GenerationChangedWhile | SaveFailed

definition is_topic_route :: "route_target \<Rightarrow> bool" where
  "is_topic_route route \<longleftrightarrow>
     ro_platform route = Telegram \<and> snd (split_telegram_message_target (ro_chat_id route)) \<noteq> None"

definition cleanup_worker_pending :: "string \<Rightarrow> im_world \<Rightarrow> bool" where
  "cleanup_worker_pending conv_key w \<longleftrightarrow> hcontains (tl_cleanup_registrations (im_topics w)) conv_key"

definition cleanup_state_pending :: "string \<Rightarrow> im_world \<Rightarrow> bool" where
  "cleanup_state_pending conv_key w \<longleftrightarrow>
     (case hget (im_topic_states w) conv_key of
        None \<Rightarrow> False | Some binding \<Rightarrow> tb_codex_state binding \<in> {''archived'', ''deleted'', ''missing''})"

text \<open>Other tasks run wherever no lock is held across two accesses. What they do before each access of the
  binding: loading the generation of the lifecycle, reading the intents, the registrations of clean-up workers,
  the states of topics, taking the lock of the runtime, and taking that of the persisted state, when the
  runtime stays locked.\<close>

record bind_env =
  be_load :: "im_world \<Rightarrow> im_world"
  be_intents :: "im_world \<Rightarrow> im_world"
  be_registrations :: "im_world \<Rightarrow> im_world"
  be_states :: "im_world \<Rightarrow> im_world"
  be_runtime :: "im_world \<Rightarrow> im_world"
  be_persisted :: "im_world \<Rightarrow> im_world"

definition quiet_bind_env :: bind_env where
  "quiet_bind_env = \<lparr> be_load = (\<lambda>w. w), be_intents = (\<lambda>w. w), be_registrations = (\<lambda>w. w), be_states = (\<lambda>w. w),
     be_runtime = (\<lambda>w. w), be_persisted = (\<lambda>w. w) \<rparr>"

definition topic_check :: "bind_env \<Rightarrow> string \<Rightarrow> string \<Rightarrow> nat \<Rightarrow> im_world \<Rightarrow> bind_error option \<times> im_world" where
  "topic_check env conv_key thread_id generation w =
     (let w = be_load env w;
          loaded = tl_latest_generation (im_topics w);
          w = be_intents env w
      in if \<not> telegram_thread_allows_topic_binding thread_id generation loaded (im_topics w) then (Some BlockedByLifecycle, w)
         else
           (let w = be_registrations env w;
                worker_pending = cleanup_worker_pending conv_key w;
                w = be_states env w
            in ((if worker_pending \<or> cleanup_state_pending conv_key w then Some CleanupInProgress else None), w)))"

definition bind_in_runtime ::
  "route_target \<Rightarrow> string \<Rightarrow> string option \<Rightarrow> string \<Rightarrow> runtime_state \<Rightarrow> runtime_state" where
  "bind_in_runtime route thread_id request_id remote_client_key rs =
     (let rs = snd (unbind_routes_for_conversation_with_reason (ro_conversation_key route) rs);
          rs = bind_route thread_id (route\<lparr>ro_remote_client_key := remote_client_key\<rparr>) rs
      in case request_id of None \<Rightarrow> rs | Some request_id \<Rightarrow> snd (clear_thread_routing_request request_id rs))"

definition new_binding_state :: "route_target \<Rightarrow> string \<Rightarrow> nat \<Rightarrow> topic_binding_state" where
  "new_binding_state route thread_id generation =
     (let binding = topic_binding_state_default\<lparr>tb_thread_id := thread_id, tb_lifecycle_generation := generation\<rparr>
      in if snd (split_telegram_message_target (ro_chat_id route)) = None
         then binding\<lparr>tb_telegram_state := ''open''\<rparr> else binding)"

definition bind_persisted :: "route_target \<Rightarrow> string \<Rightarrow> nat \<Rightarrow> im_world \<Rightarrow> im_world" where
  "bind_persisted route thread_id generation w =
     (let w = change_bindings (hretain (\<lambda>_ bound. bound \<noteq> thread_id))
                (hretain (\<lambda>_ binding. tb_thread_id binding \<noteq> thread_id)) w
      in if ro_platform route = Telegram
         then change_bindings (hinsert (ro_conversation_key route) thread_id)
                (hinsert (ro_conversation_key route) (new_binding_state route thread_id generation)) w
         else w)"

text \<open>The section that holds the lock of the runtime.\<close>

definition bind_locked ::
  "bind_env \<Rightarrow> bool \<Rightarrow> route_target \<Rightarrow> string \<Rightarrow> string option \<Rightarrow> string \<Rightarrow> nat option \<Rightarrow> nat \<Rightarrow> im_world
     \<Rightarrow> (bind_error + unit) \<times> im_world" where
  "bind_locked env fails route thread_id request_id remote_client_key expected_generation generation w =
     (let current = bridge_generation (im_runtime w)
      in if (case expected_generation of None \<Rightarrow> False | Some expected \<Rightarrow> current \<noteq> expected) \<or>
            (is_topic_route route \<and> current \<noteq> generation)
         then (Inl GenerationChangedWhile, w)
         else
           (let w = change_runtime (bind_in_runtime route thread_id request_id remote_client_key) w;
                w = change_runtime (\<lambda>_. im_runtime w) (be_persisted env w);
                previous = bindings_of w;
                w = bind_persisted route thread_id current w
            in if same_bindings (bindings_of w) previous then (Inr (), w)
               else let (saved, w) = save_persisted fails w in ((if saved then Inr () else Inl SaveFailed), w)))"

definition bind_thread_to_route_for_generation ::
  "bind_env \<Rightarrow> bool \<Rightarrow> route_target \<Rightarrow> string \<Rightarrow> string option \<Rightarrow> string \<Rightarrow> nat option
     \<Rightarrow> im_world \<Rightarrow> (bind_error + unit) \<times> im_world" where
  "bind_thread_to_route_for_generation env fails route thread_id request_id remote_client_key expected_generation w =
     (let generation = bridge_generation (im_runtime w)
      in if (case expected_generation of None \<Rightarrow> False | Some expected \<Rightarrow> generation \<noteq> expected)
         then (Inl GenerationChangedBefore, w)
         else
           (let (refusal, w) = (if is_topic_route route
                  then topic_check env (ro_conversation_key route) thread_id generation w else (None, w))
            in case refusal of
                 Some refusal \<Rightarrow> (Inl refusal, w)
               | None \<Rightarrow> bind_locked env fails route thread_id request_id remote_client_key expected_generation generation
                   (be_runtime env w)))"

definition bind_thread_to_route ::
  "bind_env \<Rightarrow> bool \<Rightarrow> route_target \<Rightarrow> string \<Rightarrow> string option \<Rightarrow> string \<Rightarrow> im_world \<Rightarrow> (bind_error + unit) \<times> im_world" where
  "bind_thread_to_route env fails route thread_id request_id remote_client_key =
     bind_thread_to_route_for_generation env fails route thread_id request_id remote_client_key None"

subsection \<open>Restoring at the start of the daemon\<close>

definition account_is_active :: "telegram_config \<Rightarrow> bool" where
  "account_is_active account \<longleftrightarrow> tc_enabled account \<and> trim (tc_bot_token account) \<noteq> []"

definition telegram_account :: "string \<Rightarrow> telegram_config list \<Rightarrow> telegram_config option" where
  "telegram_account account_id = List.find (\<lambda>account. trim (tc_account_id account) = trim account_id)"

definition config_project_group_for_chat :: "string \<Rightarrow> telegram_config \<Rightarrow> project_group option" where
  "config_project_group_for_chat chat_id account =
     List.find (\<lambda>group. trim (tg_chat_id group) = trim chat_id \<and> trim (tg_cwd group) \<noteq> []) (tc_project_groups account)"

definition valid_persisted_telegram_route ::
  "(string \<Rightarrow> nat list) \<Rightarrow> telegram_config list \<Rightarrow> string \<Rightarrow> route_target option" where
  "valid_persisted_telegram_route sha256 accounts conv_key =
     Option.bind (route_from_conversation_key sha256 conv_key)
       (\<lambda>route. if ro_platform route \<noteq> Telegram \<or> trim (ro_account_id route) \<noteq> ro_account_id route \<or>
                   trim (ro_chat_id route) \<noteq> ro_chat_id route then None
          else Option.bind (telegram_account (ro_account_id route) accounts)
            (\<lambda>account. let (raw_chat_id, topic_id) = split_telegram_message_target (ro_chat_id route);
                allowed_private_chat = chat_allowed (tc_allowed_chat_ids account) raw_chat_id;
                configured_project_group = config_project_group_for_chat raw_chat_id account \<noteq> None;
                target_is_valid = (if topic_id \<noteq> None then configured_project_group
                                   else allowed_private_chat \<or> configured_project_group)
              in if \<not> account_is_active account \<or> \<not> target_is_valid then None
                 else Some (with_deterministic_remote_client_key sha256 route)))"

record restoration =
  re_runtime :: runtime_state
  re_bindings :: "(string, string) hmap"
  re_topic_states :: "(string, topic_binding_state) hmap"
  re_claimed :: "string set"

definition restore_binding ::
  "(string \<Rightarrow> route_target option) \<Rightarrow> (string, topic_binding_state) hmap \<Rightarrow> string \<times> string \<Rightarrow> restoration \<Rightarrow> restoration" where
  "restore_binding valid_route states entry re =
     (let (conv_key, thread_id) = (fst entry, trim (snd entry))
      in if thread_id = [] then re
         else case valid_route conv_key of
             None \<Rightarrow> re
           | Some route \<Rightarrow>
               if thread_id \<in> re_claimed re then re
               else \<lparr> re_runtime = bind_route thread_id route (re_runtime re),
                      re_bindings = hinsert conv_key thread_id (re_bindings re),
                      re_topic_states = hinsert conv_key
                        ((unwrap_or (hget states conv_key) topic_binding_state_default)
                           \<lparr>tb_thread_id := thread_id, tb_lifecycle_generation := 0\<rparr>) (re_topic_states re),
                      re_claimed = insert thread_id (re_claimed re) \<rparr>)"

definition restoration_new :: restoration where
  "restoration_new = \<lparr> re_runtime = runtime_default, re_bindings = [], re_topic_states = [], re_claimed = {} \<rparr>"

definition restore_bindings :: "(string \<Rightarrow> route_target option) \<Rightarrow> saved_bindings \<Rightarrow> restoration" where
  "restore_bindings valid_route persisted =
     fold (restore_binding valid_route (snd persisted)) (sort_key fst (fst persisted)) restoration_new"

definition restore_persisted_im_bindings ::
  "(string \<Rightarrow> nat list) \<Rightarrow> telegram_config list \<Rightarrow> saved_bindings \<Rightarrow> (runtime_state \<times> bool) \<times> saved_bindings" where
  "restore_persisted_im_bindings sha256 accounts persisted =
     (let re = restore_bindings (valid_persisted_telegram_route sha256 accounts) persisted;
          restored = (re_bindings re, re_topic_states re)
      in ((re_runtime re, \<not> same_bindings restored persisted), restored))"

subsection \<open>A bound thread belongs to one conversation\<close>

definition exclusive :: "(string, string) hmap \<Rightarrow> bool" where
  "exclusive m \<longleftrightarrow> hwf m \<and> (\<forall>c c' t. hget m c = Some t \<and> hget m c' = Some t \<longrightarrow> c = c')"

lemma exclusive_retain: "exclusive m \<Longrightarrow> exclusive (hretain P m)"
  by (auto simp: exclusive_def hget_hretain split: option.splits if_splits)

lemma exclusive_remove: "exclusive m \<Longrightarrow> exclusive (hremove c m)"
  by (auto simp: exclusive_def split: if_splits)

lemma exclusive_insert: "exclusive m \<Longrightarrow> \<forall>c'. hget m c' \<noteq> Some t \<Longrightarrow> exclusive (hinsert c t m)"
  by (auto simp: exclusive_def split: if_splits)

lemma im_frames [simp]:
  "im_bindings (change_runtime f w) = im_bindings w" "im_topic_states (change_runtime f w) = im_topic_states w"
  "im_saved (change_runtime f w) = im_saved w" "bindings_of (change_runtime f w) = bindings_of w"
  "im_topics (change_runtime f w) = im_topics w" "im_runtime (change_runtime f w) = f (im_runtime w)"
  "im_bindings (change_bindings h g w) = h (im_bindings w)"
  "im_topic_states (change_bindings h g w) = g (im_topic_states w)"
  "im_runtime (change_bindings h g w) = im_runtime w" "im_saved (change_bindings h g w) = im_saved w"
  "im_topics (change_bindings h g w) = im_topics w"
  by (simp_all add: change_runtime_def change_bindings_def bindings_of_def)

lemma save_persisted_frame [simp]:
  "im_daemon (snd (save_persisted fails w)) = im_daemon w" "fst (save_persisted fails w) = (\<not> fails)"
  "im_topic_states (snd (save_persisted fails w)) = im_topic_states w"
  "im_topics (snd (save_persisted fails w)) = im_topics w"
  "bindings_of (snd (save_persisted fails w)) = bindings_of w"
  "\<not> fails \<Longrightarrow> im_saved (snd (save_persisted fails w)) = bindings_of w"
  by (simp_all add: save_persisted_def bindings_of_def)

lemma unbound_route:
  assumes "hwf (route_by_thread rs)"
  shows "route_for_thread t (snd (unbind_routes_for_conversation_with_reason c rs)) =
    (case route_for_thread t rs of
       None \<Rightarrow> None | Some route \<Rightarrow> if ro_conversation_key route = c then None else Some route)"
proof -
  note effect = unbind_routes_effect[OF assms prod.collapse[symmetric], of t c c]
  show ?thesis using effect by (cases "route_for_thread t rs") auto
qed

lemma bind_route_lookup:
  "route_for_thread t (bind_route thread_id route rs) = (if t = thread_id then Some route else route_for_thread t rs)"
  by (simp add: bind_route_def route_for_thread_def Let_def split: option.split)

lemma bind_in_runtime_lookup:
  assumes "hwf (route_by_thread rs)"
  shows "route_for_thread t (bind_in_runtime route thread_id request_id key rs) =
    (if t = thread_id then Some (route\<lparr>ro_remote_client_key := key\<rparr>)
     else case route_for_thread t rs of
            None \<Rightarrow> None
          | Some other \<Rightarrow> if ro_conversation_key other = ro_conversation_key route then None else Some other)"
proof -
  have "route_for_thread t (snd (clear_thread_routing_request request rs0)) = route_for_thread t rs0" for t request rs0
    by (simp add: clear_thread_routing_request_def route_for_thread_def)
  then show ?thesis
    by (simp add: bind_in_runtime_def Let_def bind_route_lookup unbound_route[OF assms] split: option.split)
qed

lemma bind_persisted_bindings:
  assumes "hwf (im_bindings w)"
  shows "exclusive (im_bindings w) \<Longrightarrow> exclusive (im_bindings (bind_persisted route thread_id generation w))"
    and "hget (im_bindings (bind_persisted route thread_id generation w)) c = Some thread_id \<longleftrightarrow>
      ro_platform route = Telegram \<and> c = ro_conversation_key route"
proof -
  let ?kept = "hretain (\<lambda>_ bound. bound \<noteq> thread_id) (im_bindings w)"
  have lost: "hget ?kept c' \<noteq> Some thread_id" for c'
    using assms by (auto simp: hget_hretain split: option.splits)
  then show "hget (im_bindings (bind_persisted route thread_id generation w)) c = Some thread_id \<longleftrightarrow>
      ro_platform route = Telegram \<and> c = ro_conversation_key route"
    by (simp add: bind_persisted_def Let_def)
  assume "exclusive (im_bindings w)"
  then have "exclusive ?kept" by (auto intro: exclusive_retain)
  with lost show "exclusive (im_bindings (bind_persisted route thread_id generation w))"
    by (auto simp: bind_persisted_def Let_def intro: exclusive_insert)
qed

text \<open>The world in which the persisted state is locked, and what the locked section does to it.\<close>

definition stored_under :: "bind_env \<Rightarrow> route_target \<Rightarrow> string \<Rightarrow> string option \<Rightarrow> string \<Rightarrow> im_world \<Rightarrow> im_world" where
  "stored_under env route thread_id request_id key w =
     (let w = change_runtime (bind_in_runtime route thread_id request_id key) w
      in change_runtime (\<lambda>_. im_runtime w) (be_persisted env w))"

lemma change_runtime_keeps [simp]:
  "im_runtime (change_runtime f w) = f (im_runtime w)" "im_bindings (change_runtime f w) = im_bindings w"
  "im_topic_states (change_runtime f w) = im_topic_states w" "im_saved (change_runtime f w) = im_saved w"
  "im_topics (change_runtime f w) = im_topics w"
  by (simp_all add: change_runtime_def)

lemma bind_persisted_keeps [simp]:
  "im_runtime (bind_persisted route thread_id generation w) = im_runtime w"
  "im_saved (bind_persisted route thread_id generation w) = im_saved w"
  by (simp_all add: bind_persisted_def change_bindings_def Let_def)

lemma bind_locked_effect:
  assumes "bind_locked env fails route thread_id request_id key expected generation held = (outcome, w')"
    and "outcome \<noteq> Inl GenerationChangedWhile"
  defines "before \<equiv> stored_under env route thread_id request_id key held"
  assumes "hwf (route_by_thread (im_runtime held))" and "hwf (im_bindings before)"
  shows "route_for_thread thread_id (im_runtime w') = Some (route\<lparr>ro_remote_client_key := key\<rparr>)"
    and "t \<noteq> thread_id \<Longrightarrow> route_for_thread t (im_runtime w') = Some other \<Longrightarrow>
      ro_conversation_key other \<noteq> ro_conversation_key route"
    and "exclusive (im_bindings before) \<Longrightarrow> exclusive (im_bindings w')"
    and "hget (im_bindings w') c = Some thread_id \<longleftrightarrow> ro_platform route = Telegram \<and> c = ro_conversation_key route"
    and "outcome = Inr () \<and> (im_saved w' = bindings_of w' \<or>
           im_saved w' = im_saved before \<and> same_bindings (bindings_of w') (bindings_of before)) \<or>
         outcome = Inl SaveFailed \<and> fails \<and> im_saved w' = im_saved before"
proof -
  let ?stored = "bind_persisted route thread_id (bridge_generation (im_runtime held)) before"
  have ends: "if same_bindings (bindings_of ?stored) (bindings_of before) then (outcome, w') = (Inr (), ?stored)
      else (outcome, w') = ((if fails then Inl SaveFailed else Inr ()), snd (save_persisted fails ?stored))"
    using assms(1,2)
    by (auto simp: bind_locked_def before_def stored_under_def Let_def case_prod_beta save_persisted_def split: if_splits)
  have daemon: "im_daemon w' = im_daemon ?stored" using ends by (auto simp: save_persisted_def split: if_splits)
  have runtime: "im_runtime w' = bind_in_runtime route thread_id request_id key (im_runtime held)"
    unfolding daemon by (simp add: before_def stored_under_def Let_def)
  show "route_for_thread thread_id (im_runtime w') = Some (route\<lparr>ro_remote_client_key := key\<rparr>)"
    unfolding runtime by (simp add: bind_in_runtime_lookup[OF assms(4)])
  show "ro_conversation_key other \<noteq> ro_conversation_key route"
    if "t \<noteq> thread_id" "route_for_thread t (im_runtime w') = Some other"
    using that unfolding runtime by (auto simp: bind_in_runtime_lookup[OF assms(4)] split: option.splits if_splits)
  show "exclusive (im_bindings before) \<Longrightarrow> exclusive (im_bindings w')"
    "hget (im_bindings w') c = Some thread_id \<longleftrightarrow> ro_platform route = Telegram \<and> c = ro_conversation_key route"
    unfolding daemon using bind_persisted_bindings[OF assms(5)] by simp_all
  show "outcome = Inr () \<and> (im_saved w' = bindings_of w' \<or>
           im_saved w' = im_saved before \<and> same_bindings (bindings_of w') (bindings_of before)) \<or>
         outcome = Inl SaveFailed \<and> fails \<and> im_saved w' = im_saved before"
    using ends by (auto simp: save_persisted_def bindings_of_def split: if_splits)
qed

text \<open>What the checks saw.\<close>

lemma topic_check_passes:
  assumes "topic_check env conv_key thread_id generation w = (None, w')"
  defines "loaded \<equiv> be_load env w" and "intents \<equiv> be_intents env (be_load env w)"
  shows "telegram_thread_allows_topic_binding thread_id generation (tl_latest_generation (im_topics loaded)) (im_topics intents)"
    and "\<not> cleanup_worker_pending conv_key (be_registrations env intents)"
    and "w' = be_states env (be_registrations env intents)" and "\<not> cleanup_state_pending conv_key w'"
  using assms by (auto simp: topic_check_def Let_def split: if_splits)

lemma topic_check_refuses:
  assumes "topic_check env conv_key thread_id generation w = (Some refusal, w')"
  shows "refusal \<in> {BlockedByLifecycle, CleanupInProgress} \<and>
    w' \<in> {be_intents env (be_load env w), be_states env (be_registrations env (be_intents env (be_load env w)))}"
  using assms by (auto simp: topic_check_def Let_def split: if_splits)

text \<open>The world in which the lock of the runtime is taken.\<close>

definition checked_under :: "bind_env \<Rightarrow> route_target \<Rightarrow> im_world \<Rightarrow> im_world" where
  "checked_under env route w = be_runtime env (if is_topic_route route
     then be_states env (be_registrations env (be_intents env (be_load env w))) else w)"

lemma bind_ends:
  assumes "bind_thread_to_route_for_generation env fails route thread_id request_id key expected w = (outcome, w')"
    and "held = checked_under env route w"
  obtains (refused) refusal where "outcome = Inl refusal" "refusal \<noteq> SaveFailed"
      "w' \<in> {w, be_intents env (be_load env w), be_states env (be_registrations env (be_intents env (be_load env w))), held}"
    | (bound) "bind_locked env fails route thread_id request_id key expected (bridge_generation (im_runtime w)) held = (outcome, w')"
        "outcome \<noteq> Inl GenerationChangedWhile"
        "bridge_generation (im_runtime held) = bridge_generation (im_runtime w) \<or> \<not> is_topic_route route"
        "is_topic_route route \<Longrightarrow>
           fst (topic_check env (ro_conversation_key route) thread_id (bridge_generation (im_runtime w)) w) = None"
proof -
  let ?generation = "bridge_generation (im_runtime w)"
  let ?topic = "topic_check env (ro_conversation_key route) thread_id ?generation w"
  let ?locked = "bind_locked env fails route thread_id request_id key expected ?generation held"
  consider (early) "outcome = Inl GenerationChangedBefore" "w' = w"
    | (topic) refusal where "is_topic_route route" "?topic = (Some refusal, w')" "outcome = Inl refusal"
    | (locked) "is_topic_route route \<Longrightarrow> fst ?topic = None" "?locked = (outcome, w')"
    using assms topic_check_passes(3)[of env "ro_conversation_key route" thread_id ?generation w]
    by (auto simp: bind_thread_to_route_for_generation_def checked_under_def Let_def split: if_splits option.splits prod.splits)
  then show thesis
  proof cases
    case early
    then show thesis by (intro refused) auto
  next
    case topic
    from topic_check_refuses[OF topic(2)] topic(3) show thesis by (intro refused[of refusal]) auto
  next
    case locked
    show thesis
    proof (cases "outcome = Inl GenerationChangedWhile")
      case True
      with locked(2) have "w' = held"
        by (auto simp: bind_locked_def Let_def save_persisted_def split: if_splits)
      with True show thesis by (intro refused) auto
    next
      case False
      with locked(2) have "?generation = bridge_generation (im_runtime held) \<or> \<not> is_topic_route route"
        by (auto simp: bind_locked_def Let_def split: if_splits)
      with locked False show thesis by (intro bound) auto
    qed
  qed
qed

text \<open>C10. A binding is exclusive. When binding a thread to a conversation succeeds, whatever other tasks did
  while it was checked, the thread is routed to the conversation and no other thread is; a Telegram
  conversation is the only one persisted for the thread, and of another channel none is. The file was rewritten
  with what the memory holds, or nothing was to be changed, in memory or file; and when no thread was persisted
  twice before, none is afterwards, also when saving failed. A topic was bound only to a thread the lifecycle allowed when it
  was read, with no clean-up of the topic pending when those were read and the bridge's generation unchanged
  until the bindings were locked. A refusal changes nothing: the world is one the other tasks made.\<close>

theorem binding_is_exclusive:
  assumes "bind_thread_to_route_for_generation env fails route thread_id request_id key expected w = (outcome, w')"
    and "held = checked_under env route w" and "before = stored_under env route thread_id request_id key held"
    and "hwf (route_by_thread (im_runtime held))" and "hwf (im_bindings before)"
  shows "case outcome of
      Inr _ \<Rightarrow> route_for_thread thread_id (im_runtime w') = Some (route\<lparr>ro_remote_client_key := key\<rparr>) \<and>
        (\<forall>t other. t \<noteq> thread_id \<and> route_for_thread t (im_runtime w') = Some other \<longrightarrow>
           ro_conversation_key other \<noteq> ro_conversation_key route) \<and>
        (\<forall>c. hget (im_bindings w') c = Some thread_id \<longleftrightarrow>
           ro_platform route = Telegram \<and> c = ro_conversation_key route) \<and>
        (exclusive (im_bindings before) \<longrightarrow> exclusive (im_bindings w')) \<and>
        (im_saved w' = bindings_of w' \<or>
         im_saved w' = im_saved before \<and> same_bindings (bindings_of w') (bindings_of before)) \<and>
        (is_topic_route route \<longrightarrow>
           telegram_thread_allows_topic_binding thread_id (bridge_generation (im_runtime w))
             (tl_latest_generation (im_topics (be_load env w))) (im_topics (be_intents env (be_load env w))) \<and>
           \<not> cleanup_worker_pending (ro_conversation_key route) (be_registrations env (be_intents env (be_load env w))) \<and>
           \<not> cleanup_state_pending (ro_conversation_key route)
               (be_states env (be_registrations env (be_intents env (be_load env w)))) \<and>
           bridge_generation (im_runtime held) = bridge_generation (im_runtime w))
    | Inl SaveFailed \<Rightarrow> fails \<and> im_saved w' = im_saved before \<and>
        (exclusive (im_bindings before) \<longrightarrow> exclusive (im_bindings w'))
    | Inl _ \<Rightarrow> w' \<in> {w, be_intents env (be_load env w),
        be_states env (be_registrations env (be_intents env (be_load env w))), held}"
proof -
  let ?generation = "bridge_generation (im_runtime w)"
  show ?thesis using assms(1,2)
  proof (cases rule: bind_ends)
    case (refused refusal)
    then show ?thesis by (cases refusal) auto
  next
    case bound
    note effect = bind_locked_effect[OF bound(1,2) assms(4) assms(5)[unfolded assms(3)], folded assms(3)]
    have topic: "is_topic_route route \<Longrightarrow> topic_check env (ro_conversation_key route) thread_id ?generation w
        = (None, snd (topic_check env (ro_conversation_key route) thread_id ?generation w))"
      using bound(4) by (simp add: prod_eq_iff)
    let ?key = "ro_conversation_key route"
    have checked: "is_topic_route route \<longrightarrow>
        telegram_thread_allows_topic_binding thread_id ?generation
          (tl_latest_generation (im_topics (be_load env w))) (im_topics (be_intents env (be_load env w))) \<and>
        \<not> cleanup_worker_pending ?key (be_registrations env (be_intents env (be_load env w))) \<and>
        \<not> cleanup_state_pending ?key (be_states env (be_registrations env (be_intents env (be_load env w)))) \<and>
        bridge_generation (im_runtime held) = ?generation"
      using topic_check_passes[OF topic] bound(3) by auto
    have others: "\<forall>t other. t \<noteq> thread_id \<and> route_for_thread t (im_runtime w') = Some other \<longrightarrow>
        ro_conversation_key other \<noteq> ro_conversation_key route" using effect(2) by blast
    from effect(5) show ?thesis
    proof (elim disjE conjE)
      assume success: "outcome = Inr ()" and "im_saved w' = bindings_of w'"
      then show ?thesis unfolding success using effect(1,3,4) others checked by simp
    next
      assume success: "outcome = Inr ()" and "im_saved w' = im_saved before"
        and "same_bindings (bindings_of w') (bindings_of before)"
      then show ?thesis unfolding success using effect(1,3,4) others checked by simp
    next
      assume failure: "outcome = Inl SaveFailed" and "fails" "im_saved w' = im_saved before"
      then show ?thesis unfolding failure using effect(3) by simp
    qed
  qed
qed

text \<open>A save that fails is not made good by binding again: the memory holds the binding already, nothing is to
  be saved, the outcome is success and the file is as it was.\<close>

lemma set_hretain: "set (hretain P m) = {(k, v). (k, v) \<in> set m \<and> P k v}"
  by (auto simp: hretain_def)

lemma generation_bind_in_runtime:
  "bridge_generation (bind_in_runtime route thread_id request_id key rs) = bridge_generation rs"
proof -
  have outside: "bridge_generation (outside_typing rs0) = bridge_generation rs0"
    "bridge_generation (outside_menus rs0) = bridge_generation rs0" for rs0
    by (simp_all add: outside_typing_def outside_menus_def)
  have typing: "bridge_generation (clear_telegram_typing_for_thread t rs0) = bridge_generation rs0" for t rs0
    by (metis outside_typing_clear(1) outside(1))
  have switches: "bridge_generation (clear_telegram_model_switch_requests_for_conversation c rs0) = bridge_generation rs0"
    for c rs0 by (metis outside_menus_ops(2) outside(2))
  have "bridge_generation (unbind_thread entry rs0) = bridge_generation rs0" for entry rs0
    by (cases entry) (simp add: unbind_thread_def Let_def typing split: option.split)
  then have "bridge_generation (fold unbind_thread entries rs0) = bridge_generation rs0" for entries rs0
    by (induction entries arbitrary: rs0) simp_all
  then show ?thesis
    by (simp add: bind_in_runtime_def bind_route_def unbind_routes_for_conversation_with_reason_def switches
        clear_thread_routing_request_def Let_def split: option.split)
qed

lemma bind_persisted_again:
  assumes "hwf (im_bindings w)" and "hwf (im_topic_states w)"
  shows "same_bindings (bindings_of (bind_persisted route thread_id generation (bind_persisted route thread_id generation w)))
    (bindings_of (bind_persisted route thread_id generation w))"
  using assms
  by (auto simp: same_bindings_def bindings_of_def bind_persisted_def change_bindings_def Let_def set_hinsert set_hretain
      new_binding_state_def)

lemma failed_save_is_not_repeated:
  assumes "bind_thread_to_route_for_generation quiet_bind_env True route thread_id request_id key expected w = (Inl SaveFailed, w1)"
    and "\<not> is_topic_route route" and "hwf (im_bindings w)" and "hwf (im_topic_states w)"
  shows "\<exists>w2. bind_thread_to_route_for_generation quiet_bind_env False route thread_id request_id key expected w1 = (Inr (), w2) \<and>
    im_saved w2 = im_saved w \<and> \<not> same_bindings (bindings_of w2) (bindings_of w)"
proof -
  let ?store = "bind_persisted route thread_id (bridge_generation (im_runtime w))"
    and ?bind = "change_runtime (bind_in_runtime route thread_id request_id key)"
  have first: "w1 = ?store (?bind w)" "\<not> same_bindings (bindings_of (?store (?bind w))) (bindings_of (?bind w))"
    "case expected of None \<Rightarrow> True | Some e \<Rightarrow> bridge_generation (im_runtime w) = e"
    using assms(1,2)
    by (auto simp: bind_thread_to_route_for_generation_def bind_locked_def quiet_bind_env_def Let_def save_persisted_def
        change_runtime_def split: if_splits option.splits)
  have generation: "bridge_generation (im_runtime w1) = bridge_generation (im_runtime w)" unfolding first(1)
    by (simp add: generation_bind_in_runtime)
  have "bindings_of (?store (?bind w1)) = bindings_of (?store (?store (?bind w)))" unfolding first(1)
    by (simp add: bindings_of_def bind_persisted_def change_bindings_def change_runtime_def Let_def)
  then have again: "same_bindings (bindings_of (?store (?bind w1))) (bindings_of w1)"
    using bind_persisted_again[of "?bind w" route thread_id "bridge_generation (im_runtime w)"] assms(3,4)
    by (simp add: first(1))
  have "bind_thread_to_route_for_generation quiet_bind_env False route thread_id request_id key expected w1
      = (Inr (), ?store (?bind w1))"
    using again first(3) assms(2) generation
    by (auto simp: bind_thread_to_route_for_generation_def bind_locked_def quiet_bind_env_def Let_def change_runtime_def
        bindings_of_def split: option.splits)
  moreover have "\<not> same_bindings (bindings_of (?store (?bind w1))) (bindings_of w)"
    using again first(2) by (auto simp: same_bindings_def first(1) bindings_of_def)
  moreover have "im_saved (?store (?bind w1)) = im_saved w" by (simp add: first(1))
  ultimately show ?thesis by blast
qed

subsection \<open>What a start restores\<close>

definition restored_state :: "(string, topic_binding_state) hmap \<Rightarrow> string \<Rightarrow> string \<Rightarrow> topic_binding_state" where
  "restored_state states conv_key thread_id =
     (unwrap_or (hget states conv_key) topic_binding_state_default)\<lparr>tb_thread_id := thread_id, tb_lifecycle_generation := 0\<rparr>"

definition restoration_inv ::
  "(string \<Rightarrow> route_target option) \<Rightarrow> (string, topic_binding_state) hmap \<Rightarrow> (string \<times> string) list \<Rightarrow> restoration \<Rightarrow> bool" where
  "restoration_inv valid_route states entries re \<longleftrightarrow>
     exclusive (re_bindings re) \<and> hwf (re_topic_states re) \<and>
     (\<forall>t. t \<in> re_claimed re \<longleftrightarrow> (\<exists>c. hget (re_bindings re) c = Some t)) \<and>
     (\<forall>c t. hget (re_bindings re) c = Some t \<longrightarrow> t \<noteq> [] \<and> trim t = t \<and> valid_route c \<noteq> None \<and>
        (\<exists>stored. (c, stored) \<in> set entries \<and> trim stored = t)) \<and>
     (\<forall>(c, stored) \<in> set entries. trim stored \<noteq> [] \<and> valid_route c \<noteq> None \<longrightarrow>
        (\<exists>c' \<le> c. hget (re_bindings re) c' = Some (trim stored))) \<and>
     (\<forall>t route. route_for_thread t (re_runtime re) = Some route \<longleftrightarrow>
        (\<exists>c. hget (re_bindings re) c = Some t \<and> valid_route c = Some route)) \<and>
     (\<forall>c. hget (re_topic_states re) c = map_option (restored_state states c) (hget (re_bindings re) c))"

lemma restoration_inv_skip:
  assumes "restoration_inv valid_route states entries re"
    and "trim stored \<noteq> [] \<and> valid_route c \<noteq> None \<longrightarrow> (\<exists>c' \<le> c. hget (re_bindings re) c' = Some (trim stored))"
  shows "restoration_inv valid_route states (entries @ [(c, stored)]) re"
  unfolding restoration_inv_def
proof (intro conjI)
  show "\<forall>c' t. hget (re_bindings re) c' = Some t \<longrightarrow> t \<noteq> [] \<and> trim t = t \<and> valid_route c' \<noteq> None \<and>
      (\<exists>stored'. (c', stored') \<in> set (entries @ [(c, stored)]) \<and> trim stored' = t)"
    using assms(1) unfolding restoration_inv_def set_append by blast
  show "\<forall>(c', stored') \<in> set (entries @ [(c, stored)]). trim stored' \<noteq> [] \<and> valid_route c' \<noteq> None \<longrightarrow>
      (\<exists>c'' \<le> c'. hget (re_bindings re) c'' = Some (trim stored'))"
    using assms by (simp add: restoration_inv_def)
qed (use assms(1) in \<open>simp_all add: restoration_inv_def\<close>)

lemma restoration_inv_step:
  assumes "restoration_inv valid_route states entries re" and "fst entry \<notin> fst ` set entries"
    and "\<forall>earlier \<in> set entries. fst earlier \<le> fst entry"
  shows "restoration_inv valid_route states (entries @ [entry]) (restore_binding valid_route states entry re)"
proof -
  obtain c stored where entry: "entry = (c, stored)" by fastforce
  let ?t = "trim stored"
  note inv = assms(1)[unfolded restoration_inv_def]
  note excl = inv[THEN conjunct1] and states_wf = inv[THEN conjunct2, THEN conjunct1]
    and claimed = inv[THEN conjunct2, THEN conjunct2, THEN conjunct1]
    and sound = inv[THEN conjunct2, THEN conjunct2, THEN conjunct2, THEN conjunct1]
    and complete = inv[THEN conjunct2, THEN conjunct2, THEN conjunct2, THEN conjunct2, THEN conjunct1]
    and routes = inv[THEN conjunct2, THEN conjunct2, THEN conjunct2, THEN conjunct2, THEN conjunct2, THEN conjunct1]
    and topics = inv[THEN conjunct2, THEN conjunct2, THEN conjunct2, THEN conjunct2, THEN conjunct2, THEN conjunct2]
  have fresh: "hget (re_bindings re) c = None"
  proof (rule ccontr)
    assume "hget (re_bindings re) c \<noteq> None"
    then obtain stored' where "(c, stored') \<in> set entries" using sound by blast
    then show False using assms(2) entry by force
  qed
  show ?thesis
  proof (cases "?t = [] \<or> valid_route c = None")
    case True
    then have "restore_binding valid_route states entry re = re"
      by (auto simp: restore_binding_def entry Let_def split: option.split)
    then show ?thesis using restoration_inv_skip[OF assms(1), of stored c] True unfolding entry by auto
  next
    case False
    then obtain route where valid: "?t \<noteq> []" "valid_route c = Some route" by auto
    show ?thesis
    proof (cases "?t \<in> re_claimed re")
      case True
      then have same: "restore_binding valid_route states entry re = re"
        using valid by (simp add: restore_binding_def entry Let_def)
      from True claimed obtain c' where c': "hget (re_bindings re) c' = Some ?t" by blast
      with sound have "\<exists>stored'. (c', stored') \<in> set entries" by blast
      then have "c' \<le> c" using assms(3) entry by auto
      then have claimed_for: "\<exists>c' \<le> c. hget (re_bindings re) c' = Some ?t" using c' by blast
      show ?thesis unfolding same unfolding entry by (rule restoration_inv_skip[OF assms(1)]) (simp add: claimed_for)
    next
      case new: False
      let ?re = "restore_binding valid_route states entry re"
      have fields: "re_bindings ?re = hinsert c ?t (re_bindings re)" "re_claimed ?re = insert ?t (re_claimed re)"
        "re_runtime ?re = bind_route ?t route (re_runtime re)"
        "re_topic_states ?re = hinsert c (restored_state states c ?t) (re_topic_states re)"
        using valid new by (simp_all add: restore_binding_def entry Let_def restored_state_def)
      have unclaimed: "hget (re_bindings re) c' \<noteq> Some ?t" for c' using claimed new by blast
      have kept: "c' \<noteq> c" if "hget (re_bindings re) c' = Some t" for c' t using that fresh by auto
      have "exclusive (re_bindings ?re)" unfolding fields using excl unclaimed by (intro exclusive_insert) auto
      moreover have "hwf (re_topic_states ?re)" unfolding fields using states_wf by simp
      moreover have "\<forall>t. t \<in> re_claimed ?re \<longleftrightarrow> (\<exists>c'. hget (re_bindings ?re) c' = Some t)"
        unfolding fields using claimed kept by (auto split: if_splits)
      moreover have "\<forall>c' t. hget (re_bindings ?re) c' = Some t \<longrightarrow> t \<noteq> [] \<and> trim t = t \<and> valid_route c' \<noteq> None \<and>
          (\<exists>stored. (c', stored) \<in> set (entries @ [entry]) \<and> trim stored = t)"
        unfolding fields unfolding entry using sound valid by auto
      moreover have "\<forall>(c', stored') \<in> set (entries @ [entry]). trim stored' \<noteq> [] \<and> valid_route c' \<noteq> None \<longrightarrow>
          (\<exists>c'' \<le> c'. hget (re_bindings ?re) c'' = Some (trim stored'))"
      proof -
        define m where "m = hinsert c ?t (re_bindings re)"
        have "\<exists>c'' \<le> c'. hget m c'' = Some (trim stored')"
          if "(c', stored') \<in> set entries" "trim stored' \<noteq> []" "valid_route c' \<noteq> None" for c' stored'
        proof -
          have "\<exists>c'' \<le> c'. hget (re_bindings re) c'' = Some (trim stored')" using bspec[OF complete that(1)] that(2,3) by simp
          then obtain c'' where "c'' \<le> c'" "hget (re_bindings re) c'' = Some (trim stored')" by blast
          then show ?thesis using kept by (intro exI[of _ c'']) (simp add: m_def)
        qed
        moreover have "\<exists>c'' \<le> c. hget m c'' = Some ?t" by (intro exI[of _ c]) (simp add: m_def)
        ultimately show ?thesis unfolding fields m_def[symmetric] unfolding entry by auto
      qed
      moreover have "\<forall>t r. route_for_thread t (re_runtime ?re) = Some r \<longleftrightarrow>
          (\<exists>c'. hget (re_bindings ?re) c' = Some t \<and> valid_route c' = Some r)"
        unfolding fields bind_route_lookup using routes valid unclaimed kept by (auto split: if_splits) (metis kept)
      moreover have "\<forall>c'. hget (re_topic_states ?re) c' = map_option (restored_state states c') (hget (re_bindings ?re) c')"
        unfolding fields using topics by simp
      ultimately show ?thesis unfolding restoration_inv_def by blast
    qed
  qed
qed

lemma restoration_inv_fold:
  assumes "restoration_inv valid_route states entries re" and "sorted (map fst (entries @ rest))"
    and "distinct (map fst (entries @ rest))"
  shows "restoration_inv valid_route states (entries @ rest) (fold (restore_binding valid_route states) rest re)"
  using assms
proof (induction rest arbitrary: entries re)
  case (Cons entry rest)
  have "restoration_inv valid_route states (entries @ [entry]) (restore_binding valid_route states entry re)"
    using Cons.prems by (intro restoration_inv_step) (auto simp: sorted_append image_iff)
  from Cons.IH[OF this] Cons.prems show ?case by simp
qed simp

lemma restoration_inv_restore:
  assumes "hwf (fst persisted)"
  shows "restoration_inv valid_route (snd persisted) (sort_key fst (fst persisted)) (restore_bindings valid_route persisted)"
proof -
  have "restoration_inv valid_route (snd persisted) [] restoration_new"
    by (simp add: restoration_inv_def restoration_new_def exclusive_def route_for_thread_def runtime_default_def)
  from restoration_inv_fold[OF this, of "sort_key fst (fst persisted)"] assms
  show ?thesis by (simp add: restore_bindings_def hwf_def distinct_map inj_on_def)
qed

lemma restored_from:
  assumes "restoration_inv valid_route states entries re" and "hget (re_bindings re) c = Some t"
  shows "t \<noteq> []" "trim t = t" "valid_route c \<noteq> None" "\<exists>stored. (c, stored) \<in> set entries \<and> trim stored = t"
  using assms by (simp_all add: restoration_inv_def)

lemma restored_for:
  assumes "restoration_inv valid_route states entries re" and "(c, stored) \<in> set entries"
    and "trim stored \<noteq> []" and "valid_route c \<noteq> None"
  shows "\<exists>c' \<le> c. hget (re_bindings re) c' = Some (trim stored)"
  using assms by (fastforce simp: restoration_inv_def)

lemma restored_other:
  assumes "restoration_inv valid_route states entries re"
  shows "exclusive (re_bindings re)" "hwf (re_bindings re)" "hwf (re_topic_states re)"
    "route_for_thread t (re_runtime re) = Some route \<longleftrightarrow>
       (\<exists>c. hget (re_bindings re) c = Some t \<and> valid_route c = Some route)"
    "hget (re_topic_states re) c = map_option (restored_state states c) (hget (re_bindings re) c)"
  using assms by (simp_all add: restoration_inv_def exclusive_def)

lemma same_entries:
  "hwf m \<Longrightarrow> hwf m' \<Longrightarrow> (\<And>k. hget m k = hget m' k) \<Longrightarrow> set m = set m'"
  by (auto dest: hwf_in_set_hget hget_in_set) (metis hget_in_set hwf_in_set_hget)+

text \<open>A start of the daemon restores the valid bindings, each thread for one conversation, and settles.
  Every restored binding was persisted, its conversation is still configured and its thread is bound to it
  alone; every valid persisted binding's thread is restored, for its conversation or a smaller one that claims
  it; the runtime routes exactly the restored threads, over the route of their conversation; and a start with
  the restored state changes nothing.\<close>

theorem restored_bindings_settle:
  assumes "restore_persisted_im_bindings sha256 accounts persisted = ((rs, changed), restored)"
    and "hwf (fst persisted)"
  shows "exclusive (fst restored) \<and>
    (\<forall>c t. hget (fst restored) c = Some t \<longrightarrow> valid_persisted_telegram_route sha256 accounts c \<noteq> None \<and>
       (\<exists>stored. hget (fst persisted) c = Some stored \<and> trim stored = t)) \<and>
    (\<forall>c stored. hget (fst persisted) c = Some stored \<and> trim stored \<noteq> [] \<and>
       valid_persisted_telegram_route sha256 accounts c \<noteq> None \<longrightarrow>
       (\<exists>c' \<le> c. hget (fst restored) c' = Some (trim stored))) \<and>
    (\<forall>t route. route_for_thread t rs = Some route \<longleftrightarrow> (\<exists>c. hget (fst restored) c = Some t \<and>
       valid_persisted_telegram_route sha256 accounts c = Some route)) \<and>
    (\<forall>rs' changed' again. restore_persisted_im_bindings sha256 accounts restored = ((rs', changed'), again) \<longrightarrow>
       \<not> changed' \<and> same_bindings again restored)"
proof -
  let ?valid = "valid_persisted_telegram_route sha256 accounts"
  let ?first = "restore_bindings ?valid persisted" and ?second = "restore_bindings ?valid restored"
  have restored: "restored = (re_bindings ?first, re_topic_states ?first)" and rs: "rs = re_runtime ?first"
    using assms(1) by (auto simp: restore_persisted_im_bindings_def Let_def)
  note one = restoration_inv_restore[OF assms(2), of ?valid]
  have wf: "hwf (fst restored)" using restored_other(2)[OF one] by (simp add: restored)
  note two = restoration_inv_restore[OF wf, of ?valid]
  have same: "hget (re_bindings ?second) c = hget (re_bindings ?first) c" for c
  proof -
    have shrinks: "hget (re_bindings ?first) c = Some t" if second: "hget (re_bindings ?second) c = Some t" for c t
    proof -
      obtain stored where "(c, stored) \<in> set (fst restored)" "trim stored = t"
        using restored_from(4)[OF two second] by (auto simp only: set_sort)
      then have "hget (re_bindings ?first) c = Some stored" "trim stored = t"
        using hwf_in_set_hget[OF wf] by (simp_all add: restored)
      then show ?thesis using restored_from(2)[OF one] by simp
    qed
    moreover have "hget (re_bindings ?second) c = Some t" if first: "hget (re_bindings ?first) c = Some t" for c t
    proof -
      note t = restored_from(1,2,3)[OF one first]
      have "(c, t) \<in> set (sort_key fst (fst restored))" using hget_in_set[OF first] by (simp add: restored)
      then obtain c' where c': "hget (re_bindings ?second) c' = Some t"
        using restored_for[OF two, of c t] t by auto
      then have "c' = c" using shrinks[OF c'] first restored_other(1)[OF one] by (auto simp: exclusive_def)
      then show ?thesis using c' by simp
    qed
    ultimately show ?thesis by (metis not_None_eq)
  qed
  have states: "hget (re_topic_states ?second) c = hget (re_topic_states ?first) c" for c
    unfolding restored_other(5)[OF two] restored_other(5)[OF one] same
    by (cases "hget (re_bindings ?first) c") (auto simp: restored restored_state_def restored_other(5)[OF one])
  have settled: "same_bindings (re_bindings ?second, re_topic_states ?second) restored"
    unfolding same_bindings_def restored fst_conv snd_conv
    using same_entries[OF restored_other(2)[OF two] restored_other(2)[OF one] same]
      same_entries[OF restored_other(3)[OF two] restored_other(3)[OF one] states]
    by (simp add: restored)
  show ?thesis
  proof (intro conjI allI impI)
    show "exclusive (fst restored)" using restored_other(1)[OF one] by (simp add: restored)
  next
    fix c t assume "hget (fst restored) c = Some t"
    then have found: "hget (re_bindings ?first) c = Some t" by (simp add: restored)
    show "?valid c \<noteq> None" by (rule restored_from(3)[OF one found])
    show "\<exists>stored. hget (fst persisted) c = Some stored \<and> trim stored = t"
      using restored_from(4)[OF one found] hwf_in_set_hget[OF assms(2)] by auto
  next
    fix c stored assume "hget (fst persisted) c = Some stored \<and> trim stored \<noteq> [] \<and> ?valid c \<noteq> None"
    then show "\<exists>c' \<le> c. hget (fst restored) c' = Some (trim stored)"
      using restored_for[OF one, of c stored] hget_in_set[of "fst persisted" c stored] by (simp add: restored)
  next
    fix t route
    show "route_for_thread t rs = Some route \<longleftrightarrow>
        (\<exists>c. hget (fst restored) c = Some t \<and> ?valid c = Some route)"
      unfolding rs restored_other(4)[OF one] by (simp add: restored)
  next
    fix rs' changed' again assume "restore_persisted_im_bindings sha256 accounts restored = ((rs', changed'), again)"
    then have "again = (re_bindings ?second, re_topic_states ?second)" "changed' = (\<not> same_bindings again restored)"
      by (auto simp: restore_persisted_im_bindings_def Let_def)
    then show "\<not> changed'" "same_bindings again restored" using settled by simp_all
  qed
qed

text \<open>A conversation of an account that is no longer configured also claims the thread.\<close>

definition sample_persisted :: saved_bindings where
  "sample_persisted = ([(''telegram:tg:1'', '' th''), (''telegram:gone:1'', ''th'')], [])"

theorem restored_bindings_settle_witness:
  "\<exists>c \<le> ''telegram:tg:1''. hget (fst (snd (restore_persisted_im_bindings (\<lambda>_. []) [sample_account] sample_persisted))) c
     = Some ''th''"
proof -
  have facts: "valid_persisted_telegram_route (\<lambda>_. []) [sample_account] ''telegram:tg:1'' \<noteq> None"
    "hget (fst sample_persisted) ''telegram:tg:1'' = Some '' th''" "trim '' th'' = ''th''" "trim '' th'' \<noteq> []"
    "hwf (fst sample_persisted)"
    by code_simp+
  obtain rs changed restored where run:
    "restore_persisted_im_bindings (\<lambda>_. []) [sample_account] sample_persisted = ((rs, changed), restored)"
    by (metis surj_pair)
  from restored_bindings_settle[OF run facts(5), THEN conjunct2, THEN conjunct2, THEN conjunct1, rule_format,
      OF conjI[OF facts(2) conjI[OF facts(4,1)]]]
  show ?thesis unfolding run facts(3) by simp
qed

definition sample_route :: route_target where
  "sample_route = \<lparr> ro_platform = Telegram, ro_conversation_key = ''telegram:tg:1'', ro_account_id = ''tg'',
     ro_chat_id = ''1'', ro_remote_client_key = ''k'' \<rparr>"

definition sample_im :: im_world where
  "sample_im = \<lparr> im_daemon = \<lparr> dw_remote = world_new, dw_runtime = runtime_default,
       dw_thread_bindings = [(''telegram:tg:2'', ''th'')], dw_events = [], dw_notifications = [], dw_spawned = [] \<rparr>,
     im_topic_states = [], im_topics = topic_lifecycle_new, im_saved = ([(''telegram:tg:2'', ''th'')], []) \<rparr>"

theorem binding_is_exclusive_witness:
  "\<forall>c. hget (im_bindings (snd (bind_thread_to_route_for_generation quiet_bind_env False sample_route ''th'' None ''k'' None
     sample_im))) c = Some ''th'' \<longleftrightarrow> c = ''telegram:tg:1''"
proof -
  let ?bind = "bind_thread_to_route_for_generation quiet_bind_env False sample_route ''th'' None ''k'' None sample_im"
  have plain: "is_topic_route sample_route \<longleftrightarrow> False" by code_simp
  have bound: "?bind = (Inr (), snd ?bind)"
    by (simp add: bind_thread_to_route_for_generation_def bind_locked_def plain Let_def save_persisted_def case_prod_beta)
  have "hwf (route_by_thread (im_runtime (checked_under quiet_bind_env sample_route sample_im)))"
    "hwf (im_bindings (stored_under quiet_bind_env sample_route ''th'' None ''k''
       (checked_under quiet_bind_env sample_route sample_im)))"
    by (simp_all add: checked_under_def stored_under_def plain quiet_bind_env_def sample_im_def runtime_default_def hwf_def Let_def)
  then show ?thesis using binding_is_exclusive[OF bound refl refl] by (simp add: sample_route_def)
qed

end
