(* ===== verification/ImTurns.thy ===== *)
theory ImTurns
  imports ImBindings RcSessions
begin

section \<open>Starting a turn for a conversation (src/src/im/core/turn.rs)\<close>

text \<open>
  A message of a conversation becomes a turn of the thread the conversation is bound to. The thread is marked
  as starting before the request is sent, so a second message meanwhile is told the thread is busy; the mark is
  lifted on every way out but one: when the app server no longer knows the thread, the conversation is unbound,
  which frees the thread only if it is still bound to that conversation. The lock of the runtime is released while the request is in flight and other tasks
  run then: before the mark, during the request (the arguments of \<open>start_turn_for_client\<close>), and after it.
\<close>

datatype turn_start_outcome =
    TurnStarted string string
  | TurnBusy
  | TurnExpired string
  | TurnNoThread
  | TurnStale string
  | TurnFailed session_error

record turn_env =
  te_admitted :: bool
  te_before_mark :: "im_world \<Rightarrow> im_world"
  te_session :: session_env
  te_after_request :: "im_world \<Rightarrow> im_world"
  te_now_ms :: nat
  te_sha256 :: "string \<Rightarrow> nat list"
  te_save_fails :: bool

text \<open>Of the errors of a request only the app server's own and the display of a malformed response carry
  text from outside; the fixed texts contain neither phrase.\<close>

fun is_stale_thread_error :: "session_error \<Rightarrow> bool" where
  "is_stale_thread_error (SessionRequest (AnswerError message)) =
     (contains ''thread not found'' message \<or> contains ''is closing'' message)"
| "is_stale_thread_error (ResponseMissing message shown) =
     (contains ''thread not found'' (message @ shown) \<or> contains ''is closing'' (message @ shown))"
| "is_stale_thread_error _ = False"

text \<open>The locked section that marks the thread: the outcome when the turn is blocked.\<close>

definition mark_starting ::
  "string \<Rightarrow> nat \<Rightarrow> runtime_state \<Rightarrow> turn_start_outcome option \<times> runtime_state" where
  "mark_starting thread_id received_at_ms rs =
     (case try_mark_turn_starting thread_id rs of
        (Inl _, rs) \<Rightarrow> (Some TurnBusy, rs)
      | (Inr _, rs) \<Rightarrow>
          if message_is_stale_for_latest_turn thread_id received_at_ms rs
          then (Some (TurnExpired thread_id), clear_turn_starting thread_id rs)
          else (None, rs))"

definition after_request ::
  "turn_env \<Rightarrow> route_target \<Rightarrow> string \<Rightarrow> turn_origin \<Rightarrow> session_error + string \<Rightarrow> im_world
     \<Rightarrow> turn_start_outcome \<times> im_world" where
  "after_request env route thread_id origin result w =
     (case result of
        Inr turn_id \<Rightarrow>
          (TurnStarted thread_id turn_id, change_runtime (\<lambda>rs.
             remember_turn_origin turn_id origin (mark_turn_started thread_id turn_id (te_now_ms env) rs)) w)
      | Inl err \<Rightarrow>
          if is_stale_thread_error err
          then (TurnStale thread_id, snd (clear_thread_binding_with_reason (te_sha256 env) (te_save_fails env)
                  (ro_conversation_key route) w))
          else (TurnFailed err, change_runtime (clear_turn_starting thread_id) w))"

definition start_turn_for_route ::
  "turn_env \<Rightarrow> route_target \<Rightarrow> string \<Rightarrow> inbound_attachment list \<Rightarrow> nat \<Rightarrow> turn_origin \<Rightarrow> im_world
     \<Rightarrow> turn_start_outcome \<times> im_world" where
  "start_turn_for_route env route message attachments received_at_ms origin w =
     (if \<not> te_admitted env then (TurnBusy, w)
      else case live_thread_binding_for_route route (im_runtime w) of
          None \<Rightarrow> (TurnNoThread, w)
        | Some (thread_id, bound_route) \<Rightarrow>
            (let w = te_before_mark env w;
                 (blocked, rs) = mark_starting thread_id received_at_ms (im_runtime w);
                 w = change_runtime (\<lambda>_. rs) w
             in case blocked of
                  Some outcome \<Rightarrow> (outcome, w)
                | None \<Rightarrow>
                    (let (result, daemon) = start_turn_for_client (te_session env) (ro_remote_client_key bound_route)
                           thread_id message attachments (im_daemon w)
                     in after_request env route thread_id origin result
                          (te_after_request env (w\<lparr>im_daemon := daemon\<rparr>)))))"

subsection \<open>Every way out\<close>

lemma mark_starting_blocked:
  assumes "mark_starting thread_id received_at_ms rs = (Some outcome, rs')"
  shows "rs' = rs \<and> (outcome = TurnBusy \<and> turn_in_progress thread_id rs \<or>
    outcome = TurnExpired thread_id \<and> \<not> turn_in_progress thread_id rs \<and>
      message_is_stale_for_latest_turn thread_id received_at_ms rs)"
  using assms
  by (auto simp: mark_starting_def try_mark_turn_starting_def clear_turn_starting_def turn_in_progress_def
      message_is_stale_for_latest_turn_def hcontains_def split: option.splits if_splits)

lemma change_runtime_id [simp]: "change_runtime (\<lambda>_. im_runtime w) w = w"
  by (simp add: change_runtime_def)

lemma cleared_conversation:
  assumes "hwf (route_by_thread (im_runtime w))"
    and "clear_thread_binding_with_reason sha256 fails c w = (saved, w')"
  shows "route_for_thread t (im_runtime w') = Some route \<Longrightarrow> ro_conversation_key route \<noteq> c"
    and "route_for_thread t (im_runtime w) = Some route \<Longrightarrow> ro_conversation_key route = c \<Longrightarrow> thread_free t (im_runtime w')"
    and "is_telegram_conversation sha256 c \<Longrightarrow> hget (im_bindings w') c = None"
    and "saved \<or> fails"
proof -
  have daemon: "im_runtime w' = snd (unbind_routes_for_conversation_with_reason c (im_runtime w))"
    using assms(2)
    by (auto simp: clear_thread_binding_with_reason_def forget_persisted_thread_binding_def Let_def save_persisted_def
        split: if_splits)
  show "route_for_thread t (im_runtime w') = Some route \<Longrightarrow> ro_conversation_key route \<noteq> c"
    unfolding daemon unbound_route[OF assms(1)] by (auto split: option.splits if_splits)
  show "thread_free t (im_runtime w')"
    if "route_for_thread t (im_runtime w) = Some route" "ro_conversation_key route = c"
    using unbind_routes_effect[OF assms(1) prod.collapse[symmetric], of t c c] that unfolding daemon by auto
  show "is_telegram_conversation sha256 c \<Longrightarrow> hget (im_bindings w') c = None" "saved \<or> fails"
    using assms(2)
    by (auto simp: clear_thread_binding_with_reason_def forget_persisted_thread_binding_def Let_def save_persisted_def
        split: if_splits)
qed

lemma live_after_clear:
  assumes "hwf (route_by_thread (im_runtime w))"
    and "clear_thread_binding_with_reason sha256 fails (ro_conversation_key route) w = (saved, w')"
  shows "live_thread_for_route route (im_runtime w') = None"
proof -
  have "im_runtime w' = snd (unbind_routes_for_conversation_with_reason (ro_conversation_key route) (im_runtime w))"
    using assms(2)
    by (auto simp: clear_thread_binding_with_reason_def forget_persisted_thread_binding_def Let_def save_persisted_def
        split: if_splits)
  then have wf: "hwf (route_by_thread (im_runtime w'))"
    by (simp add: unbind_routes_for_conversation_with_reason_def Let_def routes_fold_unbind assms(1))
  have "ro_conversation_key bound \<noteq> ro_conversation_key route"
    if "(thread_id, bound) \<in> set (route_by_thread (im_runtime w'))" for thread_id bound
    using cleared_conversation(1)[OF assms] hwf_in_set_hget[OF wf that] by (simp add: route_for_thread_def)
  then show ?thesis by (auto simp: live_thread_for_route_def live_thread_binding_for_route_def find_None_iff_all)
qed

lemma started_turn_state:
  "current_turn_id thread_id (remember_turn_origin turn_id origin (mark_turn_started thread_id turn_id now rs)) = Some turn_id"
  "thread_id \<notin> starting_turn_by_thread (remember_turn_origin turn_id origin (mark_turn_started thread_id turn_id now rs))"
  "turn_origin_of turn_id (remember_turn_origin turn_id origin (mark_turn_started thread_id turn_id now rs)) = Some origin"
  by (auto simp: remember_turn_origin_def mark_turn_started_def current_turn_id_def turn_origin_of_def Let_def
      split: option.split)

text \<open>C12. Starting a turn settles on every way out. A thread that is missing, busy or newer than the message
  is told so and nothing of the state changes: no request is sent. A started turn is the thread's current one,
  with its origin; a failed start leaves the thread not starting; and when the app server no longer knows the
  thread, the conversation has no thread any more, and the thread is free if it was still bound to the
  conversation after the request.\<close>

theorem turn_start_settles:
  assumes "start_turn_for_route env route message attachments received_at_ms origin w = (outcome, w')"
    and "\<And>w. hwf (route_by_thread (im_runtime (te_after_request env w)))"
  shows "case outcome of
      TurnNoThread \<Rightarrow> w' = w \<and> (\<forall>entry \<in> set (route_by_thread (im_runtime w)).
        ro_conversation_key (snd entry) \<noteq> ro_conversation_key route)
    | TurnBusy \<Rightarrow> w' = w \<and> \<not> te_admitted env \<or>
        (\<exists>thread_id. live_thread_for_route route (im_runtime w) = Some thread_id \<and> w' = te_before_mark env w \<and>
           turn_in_progress thread_id (im_runtime w'))
    | TurnExpired thread_id \<Rightarrow> w' = te_before_mark env w \<and> \<not> turn_in_progress thread_id (im_runtime w') \<and>
        message_is_stale_for_latest_turn thread_id received_at_ms (im_runtime w')
    | TurnStarted thread_id turn_id \<Rightarrow> live_thread_for_route route (im_runtime w) = Some thread_id \<and>
        current_turn_id thread_id (im_runtime w') = Some turn_id \<and>
        thread_id \<notin> starting_turn_by_thread (im_runtime w') \<and> turn_origin_of turn_id (im_runtime w') = Some origin
    | TurnFailed err \<Rightarrow> \<not> is_stale_thread_error err \<and> (\<exists>thread_id.
        live_thread_for_route route (im_runtime w) = Some thread_id \<and>
        thread_id \<notin> starting_turn_by_thread (im_runtime w'))
    | TurnStale thread_id \<Rightarrow> live_thread_for_route route (im_runtime w) = Some thread_id \<and>
        live_thread_for_route route (im_runtime w') = None \<and>
        (is_telegram_conversation (te_sha256 env) (ro_conversation_key route) \<longrightarrow>
           hget (im_bindings w') (ro_conversation_key route) = None) \<and>
        (\<exists>at. w' = snd (clear_thread_binding_with_reason (te_sha256 env) (te_save_fails env)
             (ro_conversation_key route) (te_after_request env at)) \<and>
           (\<forall>bound. route_for_thread thread_id (im_runtime (te_after_request env at)) = Some bound \<and>
              ro_conversation_key bound = ro_conversation_key route \<longrightarrow> thread_free thread_id (im_runtime w')))"
proof (cases "te_admitted env \<and> live_thread_binding_for_route route (im_runtime w) \<noteq> None")
  case False
  then consider "\<not> te_admitted env" | "te_admitted env" "live_thread_binding_for_route route (im_runtime w) = None"
    by blast
  then show ?thesis
  proof cases
    case 2
    then have "outcome = TurnNoThread" "w' = w" using assms(1) by (auto simp: start_turn_for_route_def)
    with 2(2) show ?thesis by (auto simp: live_thread_binding_for_route_def find_None_iff_all)
  qed (use assms(1) in \<open>auto simp: start_turn_for_route_def\<close>)
next
  case True
  then obtain thread_id bound where found: "live_thread_binding_for_route route (im_runtime w) = Some (thread_id, bound)"
    by fastforce
  then have live: "live_thread_for_route route (im_runtime w) = Some thread_id" by (simp add: live_thread_for_route_def)
  let ?w1 = "te_before_mark env w"
  obtain blocked rs where mark: "mark_starting thread_id received_at_ms (im_runtime ?w1) = (blocked, rs)" by fastforce
  show ?thesis
  proof (cases blocked)
    case (Some blocking)
    note blocks = mark_starting_blocked[OF mark[unfolded Some]]
    have "outcome = blocking" "w' = ?w1"
      using assms(1) True found mark Some blocks by (auto simp: start_turn_for_route_def)
    then show ?thesis using blocks live by auto
  next
    case None
    then obtain result at where settled: "after_request env route thread_id origin result (te_after_request env at) = (outcome, w')"
      using assms(1) True found mark by (auto simp: start_turn_for_route_def case_prod_beta Let_def)
    let ?w2 = "te_after_request env at"
    consider (started) turn_id where "result = Inr turn_id" | (stale) err where "result = Inl err" "is_stale_thread_error err"
      | (failed) err where "result = Inl err" "\<not> is_stale_thread_error err"
      by (cases result) auto
    then show ?thesis
    proof cases
      case started
      then show ?thesis using settled live
        by (auto simp: after_request_def started_turn_state)
    next
      case stale
      let ?clear = "clear_thread_binding_with_reason (te_sha256 env) (te_save_fails env) (ro_conversation_key route) ?w2"
      have outcome: "outcome = TurnStale thread_id" and w': "w' = snd ?clear"
        using settled stale by (auto simp: after_request_def)
      then have clear: "?clear = (fst ?clear, w')" by simp
      note cleared = cleared_conversation[OF assms(2) clear]
      show ?thesis unfolding outcome using live cleared(3) w' cleared(2) live_after_clear[OF assms(2) clear] by auto
    next
      case failed
      then show ?thesis using settled live by (auto simp: after_request_def clear_turn_starting_def)
    qed
  qed
qed

text \<open>A stale thread that another task bound to another conversation during the request stays starting.\<close>

lemma starting_fold_unbind:
  "thread_id \<notin> fst ` set entries \<Longrightarrow>
     thread_id \<in> starting_turn_by_thread (fold unbind_thread entries rs) \<longleftrightarrow> thread_id \<in> starting_turn_by_thread rs"
proof (induction entries arbitrary: rs)
  case (Cons entry entries)
  then show ?case by (cases entry) (auto simp: unbind_thread_maps)
qed simp

lemma stale_thread_bound_elsewhere_stays_starting:
  assumes "after_request env route thread_id origin (Inl err) w = (outcome, w')" and "is_stale_thread_error err"
    and "thread_id \<in> starting_turn_by_thread (im_runtime w)" and "hwf (route_by_thread (im_runtime w))"
    and "route_for_thread thread_id (im_runtime w) = Some other"
    and "ro_conversation_key other \<noteq> ro_conversation_key route"
  shows "outcome = TurnStale thread_id \<and> thread_id \<in> starting_turn_by_thread (im_runtime w')"
proof -
  let ?entries = "filter (\<lambda>(_, bound). ro_conversation_key bound = ro_conversation_key route) (route_by_thread (im_runtime w))"
  have stale: "outcome = TurnStale thread_id"
    "im_runtime w' = snd (unbind_routes_for_conversation_with_reason (ro_conversation_key route) (im_runtime w))"
    using assms(1,2)
    by (auto simp: after_request_def clear_thread_binding_with_reason_def forget_persisted_thread_binding_def Let_def
        save_persisted_def change_bindings_def split: if_splits)
  have "thread_id \<notin> fst ` set ?entries"
  proof
    assume "thread_id \<in> fst ` set ?entries"
    then obtain bound where "(thread_id, bound) \<in> set (route_by_thread (im_runtime w))"
      "ro_conversation_key bound = ro_conversation_key route" by auto
    then show False using hwf_in_set_hget[OF assms(4)] assms(5,6) by (auto simp: route_for_thread_def)
  qed
  then have "thread_id \<in> starting_turn_by_thread (fold unbind_thread ?entries (im_runtime w))"
    using assms(3) by (simp add: starting_fold_unbind)
  then show ?thesis
    by (simp add: stale unbind_routes_for_conversation_with_reason_def Let_def
        clear_telegram_model_switch_requests_for_conversation_def)
qed

text \<open>The daemon drains when the request is made: the start fails, and the thread may start again.\<close>

definition sample_turn_env :: turn_env where
  "sample_turn_env = \<lparr> te_admitted = True, te_before_mark = (\<lambda>w. w),
     te_session = \<lparr> sn_attempts = (\<lambda>_. sample_request_env False), sn_polls = [], sn_uuid = ''u'', sn_display = (\<lambda>_. []) \<rparr>,
     te_after_request = (\<lambda>w. change_runtime (\<lambda>rs. rs\<lparr>route_by_thread := [(''th'', sample_route)]\<rparr>) w),
     te_now_ms = 5, te_sha256 = (\<lambda>_. []), te_save_fails = False \<rparr>"

definition sample_conversation :: im_world where
  "sample_conversation = change_runtime (\<lambda>rs. rs\<lparr>route_by_thread := [(''th'', sample_route)]\<rparr>) sample_im"

theorem turn_start_settles_witness:
  "''th'' \<notin> starting_turn_by_thread (im_runtime (snd
     (start_turn_for_route sample_turn_env sample_route ''hi'' [] 0 OriginTelegram sample_conversation)))"
proof -
  let ?start = "start_turn_for_route sample_turn_env sample_route ''hi'' [] 0 OriginTelegram sample_conversation"
  have draining: "start_turn_for_client (te_session sample_turn_env) client_key thread_id message attachments d
      = (Inl (SessionRequest RequestDraining), d)" for client_key thread_id message attachments d
    by (simp add: start_turn_for_client_def request_for_client_def request_with_timeout_for_client_def
        request_loop.simps request_once_with_timeout_for_client_def request_once_with_timeout_for_client_inner_def
        sample_turn_env_def sample_request_env_def lift_error_def)
  have env: "te_admitted sample_turn_env" "te_before_mark sample_turn_env = (\<lambda>w. w)"
    by (simp_all add: sample_turn_env_def)
  have live: "live_thread_binding_for_route sample_route (im_runtime sample_conversation) = Some (''th'', sample_route)"
    by (simp add: live_thread_binding_for_route_def sample_conversation_def)
  have idle: "mark_starting ''th'' 0 (im_runtime sample_conversation) =
      (None, (im_runtime sample_conversation)\<lparr>starting_turn_by_thread := {''th''}\<rparr>)"
    by (simp add: mark_starting_def try_mark_turn_starting_def sample_conversation_def sample_im_def
        message_is_stale_for_latest_turn_def runtime_default_def)
  have "fst ?start = TurnFailed (SessionRequest RequestDraining)"
    using live idle env by (simp add: start_turn_for_route_def draining after_request_def Let_def)
  then have start: "?start = (TurnFailed (SessionRequest RequestDraining), snd ?start)" by (simp add: prod_eq_iff)
  have wf: "hwf (route_by_thread (im_runtime (te_after_request sample_turn_env w)))" for w
    by (simp add: sample_turn_env_def hwf_def)
  from turn_start_settles[OF start wf] live show ?thesis by (simp add: live_thread_for_route_def)
qed

end
