(* ===== verification/CodexApprovals.thy ===== *)
theory CodexApprovals
  imports RcTracking
begin

section \<open>Approval requests of the app server (src/src/codex.rs)\<close>

text \<open>
  What an approval request offers the user and how the answer is read. A request of one of six methods
  becomes a kind, a summary and a list of labelled decisions; a reply of the user picks one by its number
  or by a word; the picked decision becomes the response. \<open>to_json\<close> is the serialiser. A result \<open>None\<close> of
  \<open>command_approval_decisions\<close> is the panic of an \<open>unwrap\<close> on a decision that has no option.
\<close>

definition LF :: char where "LF = CHR 0x0A"

definition code_quoted :: "string \<Rightarrow> string" where "code_quoted s = ''`'' @ s @ ''`''"

definition arrow :: string where "arrow = '' '' @ [CHR 0xE2, CHR 0x86, CHR 0x92] @ '' ''"

text \<open>The pattern \<open>if let Some(x) = value { lines.push(..) }\<close>, and the end of every summary.\<close>

definition line :: "('a \<Rightarrow> string) \<Rightarrow> 'a option \<Rightarrow> string list" where
  "line show_line value = (case value of None \<Rightarrow> [] | Some x \<Rightarrow> [show_line x])"

definition lines_or :: "string \<Rightarrow> string list \<Rightarrow> string" where
  "lines_or fallback lines = (if lines = [] then fallback else join_with [LF] lines)"

definition block_of :: "string \<Rightarrow> string list \<Rightarrow> string option" where
  "block_of heading lines = (if lines = [] then None else Some (heading @ join_with [LF] lines))"

definition jget_array :: "string \<Rightarrow> json \<Rightarrow> json list option" where
  "jget_array k v = Option.bind (jget k v) as_array"

subsection \<open>Summaries\<close>

definition compact_json_value :: "(json \<Rightarrow> string) \<Rightarrow> json \<Rightarrow> string" where
  "compact_json_value to_json v = (case as_str v of Some s \<Rightarrow> code_quoted s | None \<Rightarrow> to_json v)"

definition string_array :: "json option \<Rightarrow> string list option" where
  "string_array v = map_option (List.map_filter (\<lambda>v. map_option code_quoted (as_str v))) (Option.bind v as_array)"

definition concise_command :: "json \<Rightarrow> string" where
  "concise_command params =
     (case jget ''command'' params of
        None \<Rightarrow> []
      | Some (JStr s) \<Rightarrow> s
      | Some v \<Rightarrow> unwrap_or (map_option (\<lambda>items. join_with '' '' (List.map_filter as_str items)) (as_array v)) [])"

definition action_line :: "json \<Rightarrow> string option" where
  "action_line action =
     (let action_type = (let t = unwrap_or (jget_str ''type'' action) [] in if t = ''unknown'' then [] else t);
          command = unwrap_or (jget_str ''command'' action) [];
          detail = unwrap_or (opt_or (jget_str ''path'' action)
                     (opt_or (jget_str ''query'' action) (jget_str ''name'' action))) []
      in if command = [] \<and> detail = [] then None
         else if action_type = [] then
           (if detail = [] then Some (''- '' @ code_quoted command)
            else Some (''- '' @ code_quoted command @ arrow @ code_quoted detail))
         else if detail = [] then Some (''- '' @ code_quoted action_type @ '' '' @ code_quoted command)
         else Some (''- '' @ code_quoted action_type @ '' '' @ code_quoted command @ arrow @ code_quoted detail))"

definition command_actions_summary :: "json \<Rightarrow> string option" where
  "command_actions_summary params =
     Option.bind (jget_array ''commandActions'' params)
       (\<lambda>actions. if actions = [] then None
                  else block_of (''commandActions:'' @ [LF]) (List.map_filter action_line (take 4 actions)))"

definition entry_part :: "(json \<Rightarrow> string) \<Rightarrow> json \<Rightarrow> string option" where
  "entry_part to_json entry =
     map_option (\<lambda>path. unwrap_or (jget_str ''access'' entry) ''access'' @ '' '' @ compact_json_value to_json path)
       (jget ''path'' entry)"

definition list_part :: "string \<Rightarrow> string list option \<Rightarrow> string list" where
  "list_part label items = (case items of None \<Rightarrow> [] | Some [] \<Rightarrow> [] | Some xs \<Rightarrow> [label @ join_with '', '' xs])"

definition permission_profile_summary :: "(json \<Rightarrow> string) \<Rightarrow> string \<Rightarrow> json \<Rightarrow> string option" where
  "permission_profile_summary to_json label permissions =
     (let network = (if Option.bind (Option.bind (jget ''network'' permissions) (jget ''enabled'')) as_bool = Some True
                     then [''network''] else []);
          files = (case jget ''fileSystem'' permissions of
              None \<Rightarrow> []
            | Some file_system \<Rightarrow>
                list_part ''read '' (string_array (jget ''read'' file_system)) @
                list_part ''write '' (string_array (jget ''write'' file_system)) @
                (case jget_array ''entries'' file_system of
                   None \<Rightarrow> []
                 | Some entries \<Rightarrow>
                     (let shown = List.map_filter (entry_part to_json) (take 6 entries)
                      in if shown = [] then [] else [join_with '', '' shown])));
          parts = network @ files
      in if parts = [] then None else Some (label @ '': '' @ join_with ''; '' parts))"

definition additional_permissions_summary :: "(json \<Rightarrow> string) \<Rightarrow> json \<Rightarrow> string option" where
  "additional_permissions_summary to_json params =
     Option.bind (jget ''additionalPermissions'' params) (permission_profile_summary to_json ''additionalPermissions'')"

definition amendment_line :: "json \<Rightarrow> string option" where
  "amendment_line amendment =
     map_option (\<lambda>host. ''- '' @ code_quoted (unwrap_or (jget_str ''action'' amendment) ''allow'') @ '' '' @ code_quoted host)
       (jget_str ''host'' amendment)"

definition network_policy_amendments_summary :: "json \<Rightarrow> string option" where
  "network_policy_amendments_summary params =
     Option.bind (jget_array ''proposedNetworkPolicyAmendments'' params)
       (\<lambda>amendments. block_of (''proposedNetworkPolicyAmendments:'' @ [LF])
          (List.map_filter amendment_line (take 4 amendments)))"

definition quoted_field :: "string \<Rightarrow> string \<Rightarrow> string" where
  "quoted_field key s = key @ '': '' @ code_quoted s"

definition reason_line :: "json \<Rightarrow> string list" where
  "reason_line params = line (\<lambda>reason. ''reason: '' @ reason) (Option.bind (jget_str ''reason'' params) non_blank)"

definition network_line :: "json \<Rightarrow> string" where
  "network_line network = ''networkApprovalContext: '' @
     code_quoted (unwrap_or (jget_str ''protocol'' network) [] @ ''://'' @ unwrap_or (jget_str ''host'' network) [])"

definition command_approval_summary :: "(json \<Rightarrow> string) \<Rightarrow> json \<Rightarrow> string" where
  "command_approval_summary to_json params = lines_or ''approval requested''
     (reason_line params @
      line network_line (jget ''networkApprovalContext'' params) @
      (if trim (concise_command params) = [] then [] else [quoted_field ''command'' (concise_command params)]) @
      line (quoted_field ''cwd'') (jget_str ''cwd'' params) @
      line id (command_actions_summary params) @
      line id (additional_permissions_summary to_json params) @
      line id (network_policy_amendments_summary params))"

definition file_change_approval_summary :: "json \<Rightarrow> string" where
  "file_change_approval_summary params = lines_or ''fileChange approval requested''
     (line (quoted_field ''itemId'') (jget_str ''itemId'' params) @ reason_line params @
      line (quoted_field ''grantRoot'') (Option.bind (jget_str ''grantRoot'' params) non_blank))"

definition permissions_approval_summary :: "(json \<Rightarrow> string) \<Rightarrow> json \<Rightarrow> string" where
  "permissions_approval_summary to_json params = lines_or ''permissions approval requested''
     (reason_line params @ line (quoted_field ''cwd'') (jget_str ''cwd'' params) @
      line id (Option.bind (jget ''permissions'' params) (permission_profile_summary to_json ''permissions'')) @
      line (quoted_field ''itemId'') (jget_str ''itemId'' params))"

definition tool_param_line :: "(json \<Rightarrow> string) \<Rightarrow> json \<Rightarrow> string option" where
  "tool_param_line to_json param =
     Option.bind (Option.bind (opt_or (jget ''display_name'' param)
         (opt_or (jget ''displayName'' param) (jget ''name'' param))) as_str)
       (\<lambda>name. map_option (\<lambda>v. ''- '' @ code_quoted name @ '': '' @ compact_json_value to_json v) (jget ''value'' param))"

definition mcp_tool_display_summary :: "(json \<Rightarrow> string) \<Rightarrow> json \<Rightarrow> string option" where
  "mcp_tool_display_summary to_json params =
     Option.bind (Option.bind (jget ''_meta'' params) (jget_array ''tool_params_display''))
       (\<lambda>display_params. block_of (''tool params:'' @ [LF])
          (List.map_filter (tool_param_line to_json) (take 4 display_params)))"

definition mcp_elicitation_summary :: "(json \<Rightarrow> string) \<Rightarrow> json \<Rightarrow> string" where
  "mcp_elicitation_summary to_json params = lines_or ''MCP elicitation requested''
     (line (quoted_field ''serverName'') (jget_str ''serverName'' params) @
      line id (Option.bind (jget_str ''message'' params) non_blank) @
      line (quoted_field ''url'') (jget_str ''url'' params) @
      line (quoted_field ''elicitationId'') (jget_str ''elicitationId'' params) @
      line (quoted_field ''mode'') (jget_str ''mode'' params) @
      line id (mcp_tool_display_summary to_json params))"

subsection \<open>Decisions\<close>

definition decision_option :: "string \<Rightarrow> json \<Rightarrow> approval_decision_option" where
  "decision_option label decision = \<lparr> ad_label = label, ad_decision = decision \<rparr>"

definition last_path_component :: "string \<Rightarrow> string" where
  "last_path_component s = rev (takeWhile (\<lambda>c. c \<noteq> CHR ''/'' \<and> c \<noteq> CHR 0x5C) (rev s))"

definition decision_prefix_from_execpolicy_amendment :: "json \<Rightarrow> string option" where
  "decision_prefix_from_execpolicy_amendment v =
     Option.bind (as_array v)
       (\<lambda>items. let parts = List.map_filter as_str items
                in if parts = [] then None
                   else if length parts \<ge> 3 \<and> last_path_component (parts ! 0) \<in> {''bash'', ''zsh'', ''sh''} \<and>
                           parts ! 1 = ''-lc''
                   then Some (parts ! 2)
                   else Some (join_with '' '' parts))"

definition simple_decision_label :: "json \<Rightarrow> string \<Rightarrow> string option" where
  "simple_decision_label params name =
     (if name = ''accept'' then
        Some (if jget ''networkApprovalContext'' params \<noteq> None then ''Yes, just this once'' else ''Yes, proceed'')
      else if name = ''acceptForSession'' then
        Some (if jget ''networkApprovalContext'' params \<noteq> None
              then ''Yes, and allow this host for this conversation''
              else if jget ''additionalPermissions'' params \<noteq> None
              then ''Yes, and allow these permissions for this session''
              else ''Yes, and don't ask again for this command in this session'')
      else if name = ''decline'' then Some ''No, continue without running it''
      else if name = ''cancel'' then Some ''No, and tell Codex what to do differently''
      else None)"

definition execpolicy_prefix :: "json \<Rightarrow> string" where
  "execpolicy_prefix amendment =
     unwrap_or (Option.bind (opt_or (jget ''execpolicy_amendment'' amendment) (jget ''execpolicyAmendment'' amendment))
       decision_prefix_from_execpolicy_amendment) ''this command''"

definition network_amendment_action :: "json \<Rightarrow> string option" where
  "network_amendment_action amendment =
     Option.bind (Option.bind (opt_or (jget ''network_policy_amendment'' amendment)
       (jget ''networkPolicyAmendment'' amendment)) (jget ''action'')) as_str"

definition command_decision_label :: "json \<Rightarrow> json \<Rightarrow> string option" where
  "command_decision_label decision params =
     (case as_str decision of
        Some name \<Rightarrow> simple_decision_label params name
      | None \<Rightarrow>
          (case jget ''acceptWithExecpolicyAmendment'' decision of
             Some amendment \<Rightarrow>
               (let prefix = execpolicy_prefix amendment
                in if LF \<in> set prefix \<or> CHR 0x0D \<in> set prefix then None
                   else Some (''Yes, and don't ask again for commands that start with '' @ code_quoted prefix))
           | None \<Rightarrow>
               map_option (\<lambda>amendment. if unwrap_or (network_amendment_action amendment) ''allow'' = ''deny''
                             then ''No, and block this host in the future''
                             else ''Yes, and allow this host in the future'')
                 (jget ''applyNetworkPolicyAmendment'' decision)))"

definition command_decision_option :: "json \<Rightarrow> json \<Rightarrow> approval_decision_option option" where
  "command_decision_option decision params =
     map_option (\<lambda>label. decision_option label decision) (command_decision_label decision params)"

text \<open>The decisions the daemon offers when the request names none.\<close>

definition allow_amendment :: "json \<Rightarrow> json option" where
  "allow_amendment params =
     Option.bind (jget_array ''proposedNetworkPolicyAmendments'' params)
       (List.find (\<lambda>item. jget_str ''action'' item = Some ''allow''))"

definition default_command_decisions :: "json \<Rightarrow> json list" where
  "default_command_decisions params =
     [JStr ''accept''] @
     (if jget ''networkApprovalContext'' params \<noteq> None
      then [JStr ''acceptForSession''] @
        (case allow_amendment params of
           None \<Rightarrow> []
         | Some amendment \<Rightarrow>
             [JObj [(''applyNetworkPolicyAmendment'', JObj [(''network_policy_amendment'', amendment)])]])
      else if jget ''additionalPermissions'' params = None
      then (case jget ''proposedExecpolicyAmendment'' params of
              None \<Rightarrow> []
            | Some amendment \<Rightarrow>
                [JObj [(''acceptWithExecpolicyAmendment'', JObj [(''execpolicy_amendment'', amendment)])]])
      else []) @
     [JStr ''cancel'']"

definition offered_decisions :: "json \<Rightarrow> approval_decision_option list" where
  "offered_decisions params =
     (case jget_array ''availableDecisions'' params of
        None \<Rightarrow> []
      | Some decisions \<Rightarrow> List.map_filter (\<lambda>decision. command_decision_option decision params) decisions)"

definition command_approval_decisions :: "json \<Rightarrow> approval_decision_option list option" where
  "command_approval_decisions params =
     (if offered_decisions params \<noteq> [] then Some (offered_decisions params)
      else those (map (\<lambda>decision. command_decision_option decision params) (default_command_decisions params)))"

definition file_change_approval_decisions :: "approval_decision_option list" where
  "file_change_approval_decisions =
     [decision_option ''Yes, proceed'' (JStr ''accept''),
      decision_option ''Yes, and don't ask again for these files'' (JStr ''acceptForSession''),
      decision_option ''No, and tell Codex what to do differently'' (JStr ''cancel'')]"

definition permissions_decision :: "string \<Rightarrow> json \<Rightarrow> json" where
  "permissions_decision scope params = JObj [(''__codexRemotePermissionsResponse'',
     JObj [(''permissions'', unwrap_or (jget ''permissions'' params) (JObj [])), (''scope'', JStr scope),
           (''strictAutoReview'', JNull)])]"

definition permissions_denial_decision :: json where
  "permissions_denial_decision = JObj [(''__codexRemotePermissionsResponse'',
     JObj [(''permissions'', JObj []), (''scope'', JStr ''turn''), (''strictAutoReview'', JNull)])]"

definition permissions_approval_decisions :: "json \<Rightarrow> approval_decision_option list" where
  "permissions_approval_decisions params =
     [decision_option ''Yes, allow these permissions for this turn'' (permissions_decision ''turn'' params),
      decision_option ''Yes, allow these permissions for this session'' (permissions_decision ''session'' params),
      decision_option ''No, continue without granting them'' permissions_denial_decision]"

definition opt_json :: "json option \<Rightarrow> json" where "opt_json v = unwrap_or v JNull"

definition mcp_elicitation_decision :: "string \<Rightarrow> json \<Rightarrow> string option \<Rightarrow> json" where
  "mcp_elicitation_decision action content persist = JObj [(''__codexRemoteMcpElicitationResponse'',
     JObj [(''action'', JStr action),
           (''content'', opt_json (if content = JNull then None else Some content)),
           (''_meta'', opt_json (map_option (\<lambda>persist. JObj [(''persist'', JStr persist)]) persist))])]"

definition mcp_elicitation_supports_persist :: "json \<Rightarrow> string \<Rightarrow> bool" where
  "mcp_elicitation_supports_persist params expected =
     (case Option.bind (jget ''_meta'' params) (jget ''persist'') of
        Some (JStr s) \<Rightarrow> s = expected
      | Some (JArr values) \<Rightarrow> expected \<in> set (List.map_filter as_str values)
      | _ \<Rightarrow> False)"

definition add_accepted :: "(string \<times> json) list \<Rightarrow> string \<Rightarrow> (string \<times> json) list \<Rightarrow> (string \<times> json) list" where
  "add_accepted properties name content =
     (case map_of properties name of
        None \<Rightarrow> content
      | Some schema \<Rightarrow>
          (case jget ''default'' schema of
             Some preset \<Rightarrow> hinsert name preset content
           | None \<Rightarrow> if jget_str ''type'' schema = Some ''boolean'' then hinsert name (JBool True) content else content))"

definition mcp_accept_content :: "json \<Rightarrow> json" where
  "mcp_accept_content params =
     (case Option.bind (Option.bind (jget ''requestedSchema'' params) (jget ''properties'')) as_object of
        None \<Rightarrow> JNull
      | Some properties \<Rightarrow>
          (let required = unwrap_or (map_option (List.map_filter as_str)
                 (Option.bind (jget ''requestedSchema'' params) (jget_array ''required''))) [];
               content = fold (add_accepted properties) required []
           in if content = [] then JNull else JObj content))"

definition mcp_elicitation_decisions :: "json \<Rightarrow> approval_decision_option list" where
  "mcp_elicitation_decisions params =
     [decision_option ''Yes, allow once'' (mcp_elicitation_decision ''accept'' (mcp_accept_content params) None)] @
     (if mcp_elicitation_supports_persist params ''session''
      then [decision_option ''Yes, allow for this session''
              (mcp_elicitation_decision ''accept'' (mcp_accept_content params) (Some ''session''))] else []) @
     (if mcp_elicitation_supports_persist params ''always'' \<or> jget_str ''mode'' params = Some ''url''
      then [decision_option ''Yes, always allow''
              (mcp_elicitation_decision ''accept'' (mcp_accept_content params) (Some ''always''))] else []) @
     [decision_option ''No, continue without it'' (mcp_elicitation_decision ''decline'' JNull None),
      decision_option ''Cancel this request'' (mcp_elicitation_decision ''cancel'' JNull None)]"

subsection \<open>Requests, replies and responses\<close>

record approval_view =
  av_request_kind :: string
  av_summary :: string
  av_decisions :: "approval_decision_option list"

definition review_decisions :: "approval_decision_option list" where
  "review_decisions =
     [decision_option ''Yes, proceed'' (JStr ''approved''),
      decision_option ''No, and tell Codex what to do differently'' (JStr ''denied'')]"

text \<open>\<open>None\<close> is the panic; \<open>Some None\<close> a notification that is no approval request.\<close>

definition approval_request_view ::
  "(json \<Rightarrow> string) \<Rightarrow> codex_notification \<Rightarrow> approval_view option option" where
  "approval_request_view to_json notification =
     (case nt_params notification of
        None \<Rightarrow> Some None
      | Some params \<Rightarrow>
          (let method_name = nt_method notification;
               view = (\<lambda>kind summary decisions.
                 Some (Some \<lparr> av_request_kind = kind, av_summary = summary, av_decisions = decisions \<rparr>))
           in if method_name = ''item/commandExecution/requestApproval'' then
                Option.bind (command_approval_decisions params)
                  (view ''command'' (command_approval_summary to_json params))
              else if method_name = ''item/fileChange/requestApproval'' then
                view ''fileChange'' (file_change_approval_summary params) file_change_approval_decisions
              else if method_name = ''item/permissions/requestApproval'' then
                view ''permissions'' (permissions_approval_summary to_json params) (permissions_approval_decisions params)
              else if method_name = ''mcpServer/elicitation/request'' then
                view ''mcpElicitation'' (mcp_elicitation_summary to_json params) (mcp_elicitation_decisions params)
              else if method_name = ''applyPatchApproval'' then
                view ''review'' (''reason: '' @ unwrap_or (jget_str ''reason'' params) []) review_decisions
              else if method_name = ''execCommandApproval'' then
                view ''review'' (quoted_field ''command'' (concise_command params) @ [LF] @
                  quoted_field ''cwd'' (unwrap_or (jget_str ''cwd'' params) [])) review_decisions
              else Some None))"

definition approval_response :: "json \<Rightarrow> json" where
  "approval_response decision =
     (case jget ''__codexRemotePermissionsResponse'' decision of
        Some response \<Rightarrow> response
      | None \<Rightarrow>
          (case jget ''__codexRemoteMcpElicitationResponse'' decision of
             Some response \<Rightarrow> response
           | None \<Rightarrow> JObj [(''decision'', decision)]))"

definition granted_permissions :: "json \<Rightarrow> (string \<times> json) list option" where
  "granted_permissions decision =
     Option.bind (Option.bind (jget ''__codexRemotePermissionsResponse'' decision) (jget ''permissions'')) as_object"

definition elicitation_action :: "json \<Rightarrow> string option" where
  "elicitation_action decision =
     Option.bind (jget ''__codexRemoteMcpElicitationResponse'' decision) (jget_str ''action'')"

definition is_accept_decision :: "json \<Rightarrow> bool" where
  "is_accept_decision decision \<longleftrightarrow>
     as_str decision \<in> {Some ''accept'', Some ''approved''} \<or>
     (case granted_permissions decision of None \<Rightarrow> False | Some permissions \<Rightarrow> permissions \<noteq> []) \<or>
     elicitation_action decision = Some ''accept''"

definition is_negative_decision :: "json \<Rightarrow> bool" where
  "is_negative_decision decision \<longleftrightarrow>
     as_str decision \<in> {Some ''decline'', Some ''cancel'', Some ''denied''} \<or>
     granted_permissions decision = Some [] \<or>
     elicitation_action decision \<in> {Some ''decline'', Some ''cancel''} \<or>
     Option.bind (jget ''applyNetworkPolicyAmendment'' decision) network_amendment_action = Some ''deny''"

text \<open>\<open>str::parse::<usize>\<close>.\<close>

definition parse_usize :: "string \<Rightarrow> nat option" where
  "parse_usize s =
     opt_filter (\<lambda>n. n < 2 ^ 64) (parse_nat (case strip_prefix ''+'' s of Some digits \<Rightarrow> digits | None \<Rightarrow> s))"

definition nth_decision :: "pending_approval \<Rightarrow> nat \<Rightarrow> (nat \<times> approval_decision_option) option" where
  "nth_decision pending index =
     (if index \<le> length (ap_decisions pending) then Some (index, ap_decisions pending ! (index - 1)) else None)"

definition first_decision ::
  "(json \<Rightarrow> bool) \<Rightarrow> pending_approval \<Rightarrow> (nat \<times> approval_decision_option) option" where
  "first_decision P pending =
     map_option (\<lambda>index. (index + 1, ap_decisions pending ! index))
       (position (\<lambda>option. P (ad_decision option)) (ap_decisions pending))"

definition approval_decision_by_input ::
  "pending_approval \<Rightarrow> string \<Rightarrow> (nat \<times> approval_decision_option) option" where
  "approval_decision_by_input pending input =
     (let normalized = map ascii_lower (trim input);
          index = parse_usize (case strip_prefix ''/'' normalized of Some number \<Rightarrow> number | None \<Rightarrow> normalized)
      in case opt_filter (\<lambda>index. index > 0) index of
           Some index \<Rightarrow> nth_decision pending index
         | None \<Rightarrow>
             if normalized \<in> {''/y'', ''/yes'', ''y'', ''yes''} then first_decision is_accept_decision pending
             else if normalized \<in> {''/n'', ''/no'', ''n'', ''no''} then first_decision is_negative_decision pending
             else None)"

subsection \<open>Properties of replies\<close>

lemma show_nat_plain:
  "trim (show_nat n) = show_nat n" "map ascii_lower (show_nat n) = show_nat n"
  "strip_prefix ''/'' (show_nat n) = None" "strip_prefix ''+'' (show_nat n) = None"
proof -
  have digit: "48 \<le> (of_char c :: nat) \<and> (of_char c :: nat) \<le> 57" if "c \<in> set (show_nat n)" for c
    using show_nat_digits[OF that] .
  have ends: "hd (show_nat n) \<in> set (show_nat n)" "last (show_nat n) \<in> set (show_nat n)" by simp_all
  have "\<not> is_ws c" if "c \<in> set (show_nat n)" for c using digit[OF that] by (auto simp: is_ws_def)
  then show "trim (show_nat n) = show_nat n" using ends by (intro trim_id) blast
  show "map ascii_lower (show_nat n) = show_nat n"
    using digit by (intro map_idI) (fastforce simp: ascii_lower_def Let_def)
  have "\<not> starts_with [c] (show_nat n)" if "(of_char c :: nat) < 48" for c
    using ends(1) digit[of c] that by (cases "show_nat n") (auto simp: starts_with_def)
  from this[of "CHR ''/''"] this[of "CHR ''+''"] show "strip_prefix ''/'' (show_nat n) = None"
    "strip_prefix ''+'' (show_nat n) = None" by (simp_all add: strip_prefix_def starts_with_def)
qed

lemma number_picks:
  assumes "0 < i" and "i \<le> length (ap_decisions pending)" and "i < 2 ^ 64"
  shows "approval_decision_by_input pending (show_nat i) = Some (i, ap_decisions pending ! (i - 1))"
  using assms by (simp add: approval_decision_by_input_def show_nat_plain parse_usize_def nth_decision_def Let_def)

lemma first_decision_Some:
  "first_decision P pending = Some (i, option) \<Longrightarrow>
     0 < i \<and> i \<le> length (ap_decisions pending) \<and> option = ap_decisions pending ! (i - 1) \<and> P (ad_decision option)"
  by (auto simp: first_decision_def dest: position_Some)

lemma opt_filter_Some: "opt_filter P x = Some v \<longleftrightarrow> x = Some v \<and> P v"
  by (cases x) auto

lemma picked_is_offered:
  assumes "approval_decision_by_input pending input = Some (i, option)"
  shows "0 < i \<and> i \<le> length (ap_decisions pending) \<and> option = ap_decisions pending ! (i - 1)"
  using assms first_decision_Some[of is_accept_decision pending i option]
    first_decision_Some[of is_negative_decision pending i option]
  by (auto simp: approval_decision_by_input_def nth_decision_def Let_def opt_filter_Some split: option.splits if_splits)

lemma word_picks:
  "input \<in> {''y'', ''yes''} \<Longrightarrow> approval_decision_by_input pending input = first_decision is_accept_decision pending"
  "input \<in> {''n'', ''no''} \<Longrightarrow> approval_decision_by_input pending input = first_decision is_negative_decision pending"
  by (auto simp: approval_decision_by_input_def Let_def trim_def trim_start_def trim_end_def is_ws_def ascii_lower_def
      parse_usize_def parse_nat_def strip_prefix_def starts_with_def digit_value_def)

lemma first_decision_found:
  "\<exists>option \<in> set (ap_decisions pending). P (ad_decision option) \<Longrightarrow>
     \<exists>i option. first_decision P pending = Some (i, option)"
  by (auto simp: first_decision_def position_None dest!: iffD1[OF not_None_eq])
    (metis not_None_eq position_None)

lemma simple_decisions:
  "command_decision_option (JStr name) params = map_option (\<lambda>label. decision_option label (JStr name))
     (simple_decision_label params name)"
  by (simp add: command_decision_option_def command_decision_label_def)

lemma those_Some: "those xs = Some ys \<Longrightarrow> map Some ys = xs"
  by (induction xs arbitrary: ys) (auto split: option.splits)

lemma set_those: "those xs = Some ys \<Longrightarrow> set xs = Some ` set ys"
  by (drule those_Some) auto

lemma those_None: "those xs = None \<longleftrightarrow> None \<in> set xs"
  by (induction xs) (auto split: option.splits)

lemma default_decisions_answer:
  assumes "command_approval_decisions params = Some decisions" and "offered_decisions params = []"
  shows "\<exists>option \<in> set decisions. ad_decision option = JStr ''accept''"
    and "\<exists>option \<in> set decisions. ad_decision option = JStr ''cancel''"
proof -
  have own: "Some ` set decisions =
      (\<lambda>decision. command_decision_option decision params) ` set (default_command_decisions params)"
    using assms set_those[of "map (\<lambda>decision. command_decision_option decision params) (default_command_decisions params)"]
    by (simp add: command_approval_decisions_def)
  have found: "\<exists>option \<in> set decisions. ad_decision option = JStr name"
    if "JStr name \<in> set (default_command_decisions params)" and "simple_decision_label params name = Some label" for name label
  proof -
    have "command_decision_option (JStr name) params \<in> Some ` set decisions" unfolding own by (rule imageI) (rule that(1))
    then have "decision_option label (JStr name) \<in> set decisions" by (simp add: simple_decisions that(2) image_iff)
    then show ?thesis by (rule rev_bexI) (simp add: decision_option_def)
  qed
  show "\<exists>option \<in> set decisions. ad_decision option = JStr ''accept''"
    by (rule found) (simp_all add: default_command_decisions_def simple_decision_label_def)
  show "\<exists>option \<in> set decisions. ad_decision option = JStr ''cancel''"
    by (rule found) (simp_all add: default_command_decisions_def simple_decision_label_def)
qed

definition asks_for_something :: "json \<Rightarrow> bool" where
  "asks_for_something params \<longleftrightarrow> (\<exists>field fields. jget ''permissions'' params = Some (JObj (field # fields)))"

lemma view_answers:
  assumes "approval_request_view to_json notification = Some (Some view)" and "nt_params notification = Some params"
    and "nt_method notification = ''item/commandExecution/requestApproval'' \<longrightarrow> offered_decisions params = []"
    and "nt_method notification = ''item/permissions/requestApproval'' \<longrightarrow> asks_for_something params"
  shows "(\<exists>option \<in> set (av_decisions view). is_accept_decision (ad_decision option)) \<and>
    (\<exists>option \<in> set (av_decisions view). is_negative_decision (ad_decision option))"
proof (cases "nt_method notification = ''item/commandExecution/requestApproval''")
  case True
  then obtain decisions where "command_approval_decisions params = Some decisions" "av_decisions view = decisions"
    using assms(1,2) by (auto simp: approval_request_view_def Let_def bind_eq_Some_conv)
  with True assms(3) default_decisions_answer[of params decisions] show ?thesis
    by (auto simp: is_accept_decision_def is_negative_decision_def) (metis as_str.simps(1))+
next
  case False
  then show ?thesis
    using assms(1,2,4)
    by (auto simp: approval_request_view_def Let_def decision_option_def file_change_approval_decisions_def
        permissions_approval_decisions_def mcp_elicitation_decisions_def review_decisions_def is_accept_decision_def
        is_negative_decision_def granted_permissions_def elicitation_action_def permissions_decision_def
        permissions_denial_decision_def mcp_elicitation_decision_def asks_for_something_def split: if_splits)
qed

text \<open>C35. The user's answer picks what the user saw. For every approval request that is shown, the number
  written beside a decision picks that decision; whatever an answer picks is one of the decisions shown;
  yes picks only an accepting decision and no only a refusing one. When the decisions are the daemon's own,
  and a request for permissions asks for some, yes and no are always understood.\<close>

theorem approval_answers_understood:
  assumes "approval_request_view to_json notification = Some (Some view)" and "ap_decisions pending = av_decisions view"
    and "length (av_decisions view) < 2 ^ 64" and "nt_params notification = Some params"
  shows "(\<forall>i. 0 < i \<and> i \<le> length (av_decisions view) \<longrightarrow>
      approval_decision_by_input pending (show_nat i) = Some (i, av_decisions view ! (i - 1))) \<and>
    (\<forall>input i option. approval_decision_by_input pending input = Some (i, option) \<longrightarrow>
      0 < i \<and> i \<le> length (av_decisions view) \<and> option = av_decisions view ! (i - 1) \<and>
      (input \<in> {''y'', ''yes''} \<longrightarrow> is_accept_decision (ad_decision option)) \<and>
      (input \<in> {''n'', ''no''} \<longrightarrow> is_negative_decision (ad_decision option))) \<and>
    ((nt_method notification = ''item/commandExecution/requestApproval'' \<longrightarrow> offered_decisions params = []) \<and>
     (nt_method notification = ''item/permissions/requestApproval'' \<longrightarrow> asks_for_something params) \<longrightarrow>
      approval_decision_by_input pending ''y'' \<noteq> None \<and> approval_decision_by_input pending ''n'' \<noteq> None)"
proof (intro conjI allI impI)
  show "approval_decision_by_input pending (show_nat i) = Some (i, av_decisions view ! (i - 1))"
    if "0 < i \<and> i \<le> length (av_decisions view)" for i
    using number_picks[of i pending] that assms(2,3) by simp
next
  fix input i option assume picked: "approval_decision_by_input pending input = Some (i, option)"
  show "0 < i" "i \<le> length (av_decisions view)" "option = av_decisions view ! (i - 1)"
    using picked_is_offered[OF picked] assms(2) by simp_all
  show "is_accept_decision (ad_decision option)" if "input \<in> {''y'', ''yes''}"
    using picked first_decision_Some[of is_accept_decision] unfolding word_picks(1)[OF that] by blast
  show "is_negative_decision (ad_decision option)" if "input \<in> {''n'', ''no''}"
    using picked first_decision_Some[of is_negative_decision] unfolding word_picks(2)[OF that] by blast
next
  assume own: "(nt_method notification = ''item/commandExecution/requestApproval'' \<longrightarrow> offered_decisions params = []) \<and>
     (nt_method notification = ''item/permissions/requestApproval'' \<longrightarrow> asks_for_something params)"
  note both = view_answers[OF assms(1,4) own[THEN conjunct1] own[THEN conjunct2], folded assms(2)]
  show "approval_decision_by_input pending ''y'' \<noteq> None" "approval_decision_by_input pending ''n'' \<noteq> None"
    using first_decision_found[of pending is_accept_decision] first_decision_found[of pending is_negative_decision] both
    by (auto simp: word_picks)
qed

text \<open>The exception: a request for no permissions. Allowing grants an empty object, which is taken for the refusal,
  so yes is not understood and no picks the first option, which reads as consent.\<close>

lemma empty_permissions_take_no_for_the_first:
  assumes "jget ''permissions'' params = Some (JObj [])" and "ap_decisions pending = permissions_approval_decisions params"
  shows "approval_decision_by_input pending ''y'' = None \<and>
    approval_decision_by_input pending ''n'' =
      Some (1, decision_option ''Yes, allow these permissions for this turn'' (permissions_decision ''turn'' params))"
proof -
  have refusal: "\<not> is_accept_decision (permissions_decision scope params)" "is_negative_decision (permissions_decision scope params)"
    "\<not> is_accept_decision permissions_denial_decision" for scope
    using assms(1)
    by (simp_all add: is_accept_decision_def is_negative_decision_def permissions_decision_def permissions_denial_decision_def
        granted_permissions_def elicitation_action_def)
  have decisions: "ad_decision (decision_option label decision) = decision" for label decision
    by (simp add: decision_option_def)
  have "first_decision is_accept_decision pending = None"
    unfolding first_decision_def assms(2) permissions_approval_decisions_def position.simps decisions by (simp add: refusal)
  moreover have "first_decision is_negative_decision pending =
      Some (1, decision_option ''Yes, allow these permissions for this turn'' (permissions_decision ''turn'' params))"
    unfolding first_decision_def assms(2) permissions_approval_decisions_def position.simps decisions by (simp add: refusal)
  ultimately show ?thesis using word_picks(1)[of "''y''"] word_picks(2)[of "''n''"] by simp
qed

definition sample_request :: "string \<Rightarrow> (string \<times> json) list \<Rightarrow> codex_notification" where
  "sample_request method_name entries = \<lparr> nt_method = method_name, nt_params = Some (JObj entries), nt_request_id = Some (JNum 1),
     nt_remote_client_key = None, nt_remote_connection_epoch = None \<rparr>"

definition sample_asked :: "approval_decision_option list \<Rightarrow> pending_approval" where
  "sample_asked decisions = \<lparr> ap_request_id = JNum 1, ap_request_kind = ''fileChange'', ap_method = [], ap_params = JNull,
     ap_summary = [], ap_decisions = decisions, ap_message_id = None, ap_remote_client_key = None \<rparr>"

theorem approval_answers_understood_witness:
  "approval_decision_by_input (sample_asked file_change_approval_decisions) (show_nat 2) =
     Some (2, decision_option ''Yes, and don't ask again for these files'' (JStr ''acceptForSession'')) \<and>
   approval_decision_by_input (sample_asked file_change_approval_decisions) ''n'' \<noteq> None"
proof -
  have "\<exists>view. approval_request_view (\<lambda>_. []) (sample_request ''item/fileChange/requestApproval'' []) = Some (Some view) \<and>
      av_decisions view = file_change_approval_decisions"
    by (simp add: approval_request_view_def sample_request_def)
  then obtain view where view:
    "approval_request_view (\<lambda>_. []) (sample_request ''item/fileChange/requestApproval'' []) = Some (Some view)"
    "av_decisions view = file_change_approval_decisions" by blast
  have "length (av_decisions view) < 2 ^ 64" "length (av_decisions view) = 3"
    by (simp_all add: view(2) file_change_approval_decisions_def)
  with approval_answers_understood[OF view(1), of "sample_asked file_change_approval_decisions" "JObj []"] view(2)
  show ?thesis
    by (simp add: sample_asked_def sample_request_def) (simp add: file_change_approval_decisions_def)
qed

lemma named_decision_offered:
  "name \<in> {''accept'', ''acceptForSession'', ''cancel''} \<Longrightarrow> command_decision_option (JStr name) params \<noteq> None"
  by (auto simp: simple_decisions simple_decision_label_def)

lemma network_decision_offered:
  "command_decision_option (JObj [(''applyNetworkPolicyAmendment'', amendment)]) params \<noteq> None"
  by (simp add: command_decision_option_def command_decision_label_def)

lemma exec_decision_refused:
  "command_decision_option (JObj [(''acceptWithExecpolicyAmendment'', JObj [(''execpolicy_amendment'', amendment)])]) params
     = None \<longleftrightarrow>
   (\<exists>prefix. decision_prefix_from_execpolicy_amendment amendment = Some prefix \<and>
     (LF \<in> set prefix \<or> CHR 0x0D \<in> set prefix))"
  by (cases "decision_prefix_from_execpolicy_amendment amendment")
    (simp_all add: command_decision_option_def command_decision_label_def execpolicy_prefix_def LF_def Let_def)

lemma default_decision_refused:
  "(\<exists>decision \<in> set (default_command_decisions params). command_decision_option decision params = None) \<longleftrightarrow>
     (\<exists>amendment prefix. jget ''networkApprovalContext'' params = None \<and>
        jget ''additionalPermissions'' params = None \<and> jget ''proposedExecpolicyAmendment'' params = Some amendment \<and>
        decision_prefix_from_execpolicy_amendment amendment = Some prefix \<and>
        (LF \<in> set prefix \<or> CHR 0x0D \<in> set prefix))"
proof -
  have refused: "command_decision_option (JStr ''accept'') params = None \<longleftrightarrow> False"
    "command_decision_option (JStr ''acceptForSession'') params = None \<longleftrightarrow> False"
    "command_decision_option (JStr ''cancel'') params = None \<longleftrightarrow> False"
    "command_decision_option (JObj [(''applyNetworkPolicyAmendment'', amendment)]) params = None \<longleftrightarrow> False" for amendment
    by (simp_all add: named_decision_offered network_decision_offered del: not_None_eq)
  show ?thesis
    unfolding default_command_decisions_def
    by (cases "jget ''networkApprovalContext'' params"; cases "jget ''additionalPermissions'' params";
        cases "jget ''proposedExecpolicyAmendment'' params"; cases "allow_amendment params")
      (simp_all add: refused exec_decision_refused)
qed

text \<open>C36. Exactly one kind of request makes the daemon panic: a command request that offers no usable decision,
  without network context and additional permissions, whose proposed rule names a command with a line break.
  The decision for such a rule is refused, and the refusal is unwrapped.\<close>

theorem approval_view_panics_exactly:
  "approval_request_view to_json notification = None \<longleftrightarrow>
     nt_method notification = ''item/commandExecution/requestApproval'' \<and>
     (\<exists>params amendment prefix. nt_params notification = Some params \<and> offered_decisions params = [] \<and>
        jget ''networkApprovalContext'' params = None \<and> jget ''additionalPermissions'' params = None \<and>
        jget ''proposedExecpolicyAmendment'' params = Some amendment \<and>
        decision_prefix_from_execpolicy_amendment amendment = Some prefix \<and>
        (LF \<in> set prefix \<or> CHR 0x0D \<in> set prefix))"
proof -
  have "command_approval_decisions params = None \<longleftrightarrow> offered_decisions params = [] \<and>
      (\<exists>decision \<in> set (default_command_decisions params). command_decision_option decision params = None)" for params
    by (simp add: command_approval_decisions_def those_None image_iff eq_commute[of None])
  then have "command_approval_decisions params = None \<longleftrightarrow> offered_decisions params = [] \<and>
      (\<exists>amendment prefix. jget ''networkApprovalContext'' params = None \<and>
        jget ''additionalPermissions'' params = None \<and> jget ''proposedExecpolicyAmendment'' params = Some amendment \<and>
        decision_prefix_from_execpolicy_amendment amendment = Some prefix \<and>
        (LF \<in> set prefix \<or> CHR 0x0D \<in> set prefix))" for params
    by (simp add: default_decision_refused)
  moreover have "approval_request_view to_json notification = None \<longleftrightarrow>
     nt_method notification = ''item/commandExecution/requestApproval'' \<and>
     (\<exists>params. nt_params notification = Some params \<and> command_approval_decisions params = None)"
    by (cases "nt_params notification") (simp_all add: approval_request_view_def Let_def Option.bind_eq_None_conv)
  ultimately show ?thesis by simp
qed

end
