(* ===== verification/ImApprovals.thy ===== *)
theory ImApprovals
  imports ImTurns CodexApprovals
begin

section \<open>Answering approvals (src/src/im/core/approval.rs)\<close>

text \<open>
  The user answers an approval by a message that names it or answers the current one, or by a button that
  carries the fingerprint of the request. The picked decision is sent to the app server, and only then the
  approval is resolved. Hints to the user are texts and not modelled. The lock of the runtime is taken twice
  for a message that names an approval; what other tasks do between is the argument \<open>others\<close>.
\<close>

datatype approval_reply_outcome =
    ReplyReady string pending_approval nat approval_decision_option
  | ReplyNoPending
  | ReplyNotCurrent
  | ReplyInvalidInput

definition resolve_approval_reply ::
  "(json \<Rightarrow> string) \<Rightarrow> (runtime_state \<Rightarrow> runtime_state) \<Rightarrow> inbound_origin \<Rightarrow> string \<Rightarrow> runtime_state
     \<Rightarrow> approval_reply_outcome" where
  "resolve_approval_reply display others message command rs =
     (let conv_key = origin_conversation_key message;
          pending = (case io_approval_request_key message of
              Some key \<Rightarrow> approval_by_request_key_anywhere display key rs
            | None \<Rightarrow> map_option (Pair conv_key) (current_approval conv_key rs))
      in case pending of
           None \<Rightarrow> ReplyNoPending
         | Some (conv_key, pending) \<Rightarrow>
             if (case io_approval_request_key message of
                   None \<Rightarrow> False | Some key \<Rightarrow> \<not> is_current_approval display conv_key key (others rs))
             then ReplyNotCurrent
             else case approval_decision_by_input pending command of
                 None \<Rightarrow> ReplyInvalidInput
               | Some (index, decision) \<Rightarrow> ReplyReady conv_key pending index decision)"

definition resolve_approval_button_reply ::
  "(string \<Rightarrow> nat list) \<Rightarrow> (json \<Rightarrow> string) \<Rightarrow> inbound_origin \<Rightarrow> string \<Rightarrow> nat \<Rightarrow> runtime_state \<Rightarrow> approval_reply_outcome" where
  "resolve_approval_button_reply sha256 display message request_fingerprint option_index rs =
     (let conv_key = origin_conversation_key message
      in case current_approval conv_key rs of
           None \<Rightarrow> ReplyNoPending
         | Some pending \<Rightarrow>
             if approval_request_fingerprint sha256 (request_key display pending) \<noteq> request_fingerprint
             then ReplyNotCurrent
             else if option_index \<ge> 1 \<and> option_index - 1 < length (ap_decisions pending)
             then ReplyReady conv_key pending option_index (ap_decisions pending ! (option_index - 1))
             else ReplyInvalidInput)"

text \<open>\<open>send_response_for_client\<close> of src/src/remote\_control\_backend/outbound.rs.\<close>

definition send_response_for_client ::
  "request_env \<Rightarrow> string \<Rightarrow> json \<Rightarrow> json \<Rightarrow> daemon_world \<Rightarrow> (request_error + unit) \<times> daemon_world" where
  "send_response_for_client env client_key request_id result world =
     and_then (ensure_remote_control_client_ready env client_key world) (\<lambda>_ world.
       and_then (lift_error RequestSendFailed
           (with_remote (with_inner (next_client_envelope_parts (rq_uuid env) client_key)) world))
         (\<lambda>(client_id, stream_id, seq_id) world.
            let (cursor, world) = with_remote next_remote_subscribe_cursor world
            in case build_on (rq_codec env) client_id stream_id seq_id
                      (JObj [(''id'', request_id), (''result'', result)]) cursor of
                 Inl err \<Rightarrow> (Inl (RequestSendFailed err), world)
               | Inr envelopes \<Rightarrow> lift_error RequestSendFailed
                   (with_remote (send_envelopes (rq_codec env) (rq_now_ms env) envelopes) world)))"

datatype submit_error = ClientKeyMissing | ResponseNotSent request_error

definition submit_approval_decision ::
  "(json \<Rightarrow> string) \<Rightarrow> request_env \<Rightarrow> pending_approval \<Rightarrow> approval_decision_option \<Rightarrow> daemon_world
     \<Rightarrow> (submit_error + (string \<times> pending_approval) option) \<times> daemon_world" where
  "submit_approval_decision display env pending decision world =
     (case opt_filter (\<lambda>s. trim s \<noteq> []) (ap_remote_client_key pending) of
        None \<Rightarrow> (Inl ClientKeyMissing, world)
      | Some client_key \<Rightarrow>
          and_then (lift_error ResponseNotSent (send_response_for_client env client_key (ap_request_id pending)
              (approval_response (ad_decision decision)) world))
            (\<lambda>_ world.
               let (resolved, world) = with_runtime
                     (resolve_approval_request_with_context display (ap_request_id pending)) world
               in (Inr (Option.bind resolved (\<lambda>resolved.
                     map_option (Pair (ra_conversation_key resolved)) (ra_next_current resolved))), world)))"

subsection \<open>Replies\<close>

text \<open>A reply that is ready is the current approval's, at the moment it was looked at.\<close>

lemma ready_reply:
  assumes "resolve_approval_reply display others message command rs = ReplyReady conv_key pending index decision"
  shows "approval_decision_by_input pending command = Some (index, decision)"
    and "io_approval_request_key message = None \<Longrightarrow>
      conv_key = origin_conversation_key message \<and> current_approval conv_key rs = Some pending"
    and "io_approval_request_key message = Some key \<Longrightarrow>
      approval_by_request_key_anywhere display key rs = Some (conv_key, pending) \<and>
      is_current_approval display conv_key key (others rs)"
  using assms by (auto simp: resolve_approval_reply_def Let_def split: option.splits if_splits)

subsection \<open>Submitting a decision\<close>

lemma with_remote_runtime [simp]: "dw_runtime (snd (with_remote operation world)) = dw_runtime world"
  by (simp add: with_remote_def case_prod_beta)

lemma lift_error_snd [simp]: "snd (lift_error f outcome) = snd outcome"
  by (simp add: lift_error_def split: sum.split prod.split)

lemma poll_until_keeps:
  assumes "\<And>other w. other \<in> set polls \<Longrightarrow> P (dw_runtime w) \<Longrightarrow> P (dw_runtime (other w))" and "P (dw_runtime w)"
  shows "P (dw_runtime (snd (poll_until check polls w)))"
  using assms by (induction polls arbitrary: w) (auto split: option.split)

lemma and_then_keeps:
  assumes "P (snd outcome)" and "\<And>x w. P w \<Longrightarrow> P (snd (f x w))"
  shows "P (snd (and_then outcome f))"
  using assms by (cases "(outcome, f)" rule: and_then.cases) auto

definition others_keep :: "(runtime_state \<Rightarrow> bool) \<Rightarrow> others list \<Rightarrow> bool" where
  "others_keep P polls \<longleftrightarrow> (\<forall>other \<in> set polls. \<forall>w. P (dw_runtime w) \<longrightarrow> P (dw_runtime (other w)))"

lemma wait_keeps:
  assumes "others_keep P polls" and "P (dw_runtime w)"
  shows "P (dw_runtime (snd (wait_for_remote_control_initialized polls key w)))"
proof -
  let ?check = "initialized_check (normalize_remote_client_key key)"
  have "P (dw_runtime (snd (poll_until ?check polls w)))"
  proof (rule poll_until_keeps[where P = P])
    show "P (dw_runtime (other w))" if "other \<in> set polls" "P (dw_runtime w)" for other w
      using assms(1) that unfolding others_keep_def by blast
  qed (rule assms(2))
  then show ?thesis
    by (cases "poll_until ?check polls w"; cases "fst (poll_until ?check polls w)")
      (simp_all add: wait_for_remote_control_initialized_def)
qed

lemma ensure_ready_keeps:
  assumes "others_keep P (rq_ready_polls env)" and "P (dw_runtime w)"
  shows "P (dw_runtime (snd (ensure_remote_control_client_ready env client_key w)))"
proof -
  have "P (dw_runtime (snd (and_then (ensure_initialized env e key w)
      (\<lambda>_. wait_for_remote_control_initialized (rq_ready_polls env) key))))" for e key
    by (rule and_then_keeps[where P = "\<lambda>w. P (dw_runtime w)"])
      (simp_all add: ensure_initialized_def assms(2) wait_keeps[OF assms(1)])
  then show ?thesis using assms(2) by (simp add: ensure_remote_control_client_ready_def Let_def split: option.split)
qed

text \<open>What sending a response does: the runtime changes only by other tasks, and after a success the channel
  of the active connection got the envelopes of the response, in order.\<close>

lemma send_response_outcome:
  assumes "send_response_for_client env client_key request_id result w = (outcome, w')"
    and "others_keep P (rq_ready_polls env)" and "P (dw_runtime w)"
  shows "P (dw_runtime w')"
    and "outcome = Inr () \<Longrightarrow> \<exists>client_id stream_id seq_id cursor envelopes tx earlier.
      build_on (rq_codec env) client_id stream_id seq_id (JObj [(''id'', request_id), (''result'', result)]) cursor = Inr envelopes \<and>
      rw_sent (dw_remote w') = earlier @ map (\<lambda>envelope. (tx, OutText envelope)) envelopes"
proof -
  obtain ready w1 where ready: "ensure_remote_control_client_ready env client_key w = (ready, w1)" by fastforce
  have w1: "P (dw_runtime w1)" using ensure_ready_keeps[OF assms(2,3), of client_key] ready by simp
  obtain parts w2 where parts: "with_remote (with_inner (next_client_envelope_parts (rq_uuid env) client_key)) w1 = (parts, w2)"
    by fastforce
  obtain cursor w3 where cursor: "with_remote next_remote_subscribe_cursor w2 = (cursor, w3)" by fastforce
  have runtime: "dw_runtime w2 = dw_runtime w1" "dw_runtime w3 = dw_runtime w1"
    using with_remote_runtime[of "with_inner (next_client_envelope_parts (rq_uuid env) client_key)" w1]
      with_remote_runtime[of next_remote_subscribe_cursor w2] parts cursor by simp_all
  note unfolded = assms(1)[unfolded send_response_for_client_def ready]
  show "P (dw_runtime w')"
    using unfolded w1 runtime parts cursor
    by (cases ready; cases parts)
      (auto simp: lift_error_def with_remote_def Let_def split: sum.splits prod.splits)
  assume success: "outcome = Inr ()"
  then obtain client_id stream_id seq_id where done': "ready = Inr ()" "parts = Inr (client_id, stream_id, seq_id)"
    using unfolded parts by (cases ready; cases parts) (auto simp: lift_error_def)
  then obtain envelopes where envelopes: "build_on (rq_codec env) client_id stream_id seq_id
      (JObj [(''id'', request_id), (''result'', result)]) cursor = Inr envelopes"
    "with_remote (send_envelopes (rq_codec env) (rq_now_ms env) envelopes) w3 = (Inr (), w')"
    using unfolded success parts cursor by (auto simp: lift_error_def split: sum.splits prod.splits)
  obtain r where sent: "send_envelopes (rq_codec env) (rq_now_ms env) envelopes (dw_remote w3) = (Inr (), r)" "dw_remote w' = r"
    using envelopes(2) by (auto simp: with_remote_def split: prod.splits)
  then obtain e where "send_envelopes_on_connection (rq_codec env) (rq_now_ms env) e envelopes (dw_remote w3) = (Inr (), r)"
    by (auto simp: send_envelopes_def split: option.splits)
  then obtain tx where "send_all_on_channel (rq_codec env) (rq_now_ms env) e tx envelopes (dw_remote w3) = (Inr (), r)"
    by (auto simp: send_envelopes_on_connection_def split: option.splits)
  from send_all_outcome[OF this] sent(2)
  have "rw_sent (dw_remote w') = rw_sent (dw_remote w3) @ map (\<lambda>envelope. (tx, OutText envelope)) envelopes" by simp
  with envelopes(1) show "\<exists>client_id stream_id seq_id cursor envelopes tx earlier.
      build_on (rq_codec env) client_id stream_id seq_id (JObj [(''id'', request_id), (''result'', result)]) cursor = Inr envelopes \<and>
      rw_sent (dw_remote w') = earlier @ map (\<lambda>envelope. (tx, OutText envelope)) envelopes"
    by blast
qed

definition queued_approval :: "(json \<Rightarrow> string) \<Rightarrow> pending_approval \<Rightarrow> runtime_state \<Rightarrow> bool" where
  "queued_approval display approval rs \<longleftrightarrow> approval_inv display rs \<and> (\<exists>c. approval \<in> set (approvals_of c rs))"

lemma resolved_approval_gone:
  assumes "queued_approval display a rs"
    and "resolve_approval_request_with_context display (ap_request_id a) rs = (out, rs')"
  shows "request_key display a \<notin> pending_approval_request_keys rs'" "approval_inv display rs'"
    and "\<exists>resolved. out = Some resolved \<and> ra_approval resolved = a \<and>
      (\<forall>b. ra_next_current resolved = Some b \<longrightarrow> current_approval (ra_conversation_key resolved) rs' = Some b)"
proof -
  obtain c xs ys where at: "approvals_of c rs = xs @ a # ys" and inv: "approval_inv display rs"
    using assms(1) unfolding queued_approval_def by (meson split_list)
  have key: "request_key display a = approval_request_key display (ap_request_id a)" by (simp add: request_key_def)
  note effect = resolve_effect[OF inv at key assms(2)]
  show "request_key display a \<notin> pending_approval_request_keys rs'"
    using assms(2) by (auto simp: resolve_approval_request_with_context_def key Let_def split: prod.splits)
  show "approval_inv display rs'" by (rule effect(3))
  have "current_approval c rs' = (case approvals_of c rs' of [] \<Rightarrow> None | b # _ \<Rightarrow> Some b)"
    by (simp add: current_approval_def approvals_of_def split: option.split)
  then have "current_approval c rs' = (case xs @ ys of [] \<Rightarrow> None | b # _ \<Rightarrow> Some b)"
    unfolding effect(2)[of c] by simp
  then show "\<exists>resolved. out = Some resolved \<and> ra_approval resolved = a \<and>
      (\<forall>b. ra_next_current resolved = Some b \<longrightarrow> current_approval (ra_conversation_key resolved) rs' = Some b)"
    unfolding effect(1) by (auto split: list.splits)
qed

text \<open>C13. A decision on an approval counts once it was sent. While other tasks keep the approval queued: if
  submitting the decision fails, for whatever reason, the approval is still queued, so the user can answer
  again; if it succeeds, the active channel got the response with exactly the picked decision, the approval is
  no longer pending, and what is reported as next is the current approval of its conversation.\<close>

theorem decision_sent_then_resolved:
  assumes "submit_approval_decision display env a decision w = (outcome, w')"
    and "queued_approval display a (dw_runtime w)"
    and "others_keep (queued_approval display a) (rq_ready_polls env)"
  shows "case outcome of
      Inl _ \<Rightarrow> queued_approval display a (dw_runtime w')
    | Inr next_current \<Rightarrow> request_key display a \<notin> pending_approval_request_keys (dw_runtime w') \<and>
        approval_inv display (dw_runtime w') \<and>
        (\<forall>c b. next_current = Some (c, b) \<longrightarrow> current_approval c (dw_runtime w') = Some b) \<and>
        (\<exists>client_id stream_id seq_id cursor envelopes tx earlier.
           build_on (rq_codec env) client_id stream_id seq_id
             (JObj [(''id'', ap_request_id a), (''result'', approval_response (ad_decision decision))]) cursor = Inr envelopes \<and>
           rw_sent (dw_remote w') = earlier @ map (\<lambda>envelope. (tx, OutText envelope)) envelopes)"
proof (cases "opt_filter (\<lambda>s. trim s \<noteq> []) (ap_remote_client_key a)")
  case None
  then show ?thesis using assms(1,2) by (auto simp: submit_approval_decision_def)
next
  case (Some client_key)
  let ?send = "send_response_for_client env client_key (ap_request_id a) (approval_response (ad_decision decision)) w"
  obtain sent w1 where send: "?send = (sent, w1)" by fastforce
  note outcome = send_response_outcome[OF send assms(3,2)]
  show ?thesis
  proof (cases sent)
    case (Inl err)
    then show ?thesis using assms(1) Some send outcome(1) by (auto simp: submit_approval_decision_def lift_error_def)
  next
    case (Inr u)
    obtain out rs' where resolve:
      "resolve_approval_request_with_context display (ap_request_id a) (dw_runtime w1) = (out, rs')" by fastforce
    note gone = resolved_approval_gone[OF outcome(1) resolve]
    have result: "outcome = Inr (Option.bind out (\<lambda>resolved.
        map_option (Pair (ra_conversation_key resolved)) (ra_next_current resolved)))" "w' = w1\<lparr>dw_runtime := rs'\<rparr>"
      using assms(1) Some send Inr resolve by (auto simp: submit_approval_decision_def lift_error_def with_runtime_def)
    show ?thesis
      unfolding result using gone outcome(2) Inr by (auto simp: bind_eq_Some_conv)
  qed
qed

text \<open>The approval names no client: the submission fails and it stays queued.\<close>

theorem decision_sent_then_resolved_witness:
  "queued_approval (\<lambda>_. ''null'') (sample_approval 1) (dw_runtime (snd (submit_approval_decision (\<lambda>_. ''null'')
     (sample_request_env True) (sample_approval 1) (decision_option ''Yes'' (JStr ''accept'')) (sample_daemon sample_pending))))"
proof -
  let ?submit = "submit_approval_decision (\<lambda>_. ''null'') (sample_request_env True) (sample_approval 1)
    (decision_option ''Yes'' (JStr ''accept'')) (sample_daemon sample_pending)"
  have missing: "?submit = (Inl ClientKeyMissing, snd ?submit)"
    by (simp add: submit_approval_decision_def sample_approval_def)
  have queued: "queued_approval (\<lambda>_. ''null'') (sample_approval 1) (dw_runtime (sample_daemon sample_pending))"
    using sample_pending_inv sample_pending_approvals
    by (auto simp: queued_approval_def sample_daemon_def intro!: exI[of _ "''c''"])
  have "others_keep (queued_approval (\<lambda>_. ''null'') (sample_approval 1)) (rq_ready_polls (sample_request_env True))"
    by (simp add: others_keep_def sample_request_env_def)
  from decision_sent_then_resolved[OF missing queued this] show ?thesis by simp
qed

end
