(* ===== verification/GatewayConfig.thy ===== *)
theory GatewayConfig
  imports ImTypes "HOL-Library.List_Lexorder" "HOL-Library.Product_Lexorder"
begin

section \<open>Providers of the AI gateway (src/src/ai_gateway/config.rs)\<close>

text \<open>
  The configured providers, which models they serve, who owns a model, and the choice among several
  providers of a model. A \<open>BTreeMap\<close> is the list of its entries in iteration order. The digest (SHA-256) is
  a parameter. The score of a provider for a session is computed in \<open>f64\<close>: the rounding of the 64-bit hash
  and of the sum is written out (53 significant bits, ties to even); the division by a power of two is
  exact and does not change the order of two scores.
\<close>

datatype provider_type =
    OpenAiResponses | DeepSeekResponses | GrokResponses | ChatCompletions | AnthropicMessages

datatype model_family =
    FamilyOpenAiResponses | FamilyDeepSeekResponses | FamilyGrokResponses | FamilyChatCompletions
  | FamilyAnthropicMessages

record discovered_model_entry =
  dm_id :: string
  dm_display_name :: "string option"
  dm_context_window :: "nat option"
  dm_supports_image_input :: "bool option"

record provider_config =
  pc_name :: string
  pc_enabled :: bool
  pc_provider_type :: provider_type
  pc_compatibility :: "string option"
  pc_base_url :: string
  pc_models_url :: "string option"
  pc_api_key :: string
  pc_models :: "string list"
  pc_discovered_models :: "discovered_model_entry list"
  pc_model_aliases :: "(string, string) hmap"
  pc_prompt_cache_retention :: "string option"
  pc_weight :: nat
  pc_timeout_secs :: nat

definition DEFAULT_PROVIDER_TIMEOUT_SECS :: nat where "DEFAULT_PROVIDER_TIMEOUT_SECS = 600"

definition DEFAULT_PROVIDER_WEIGHT :: nat where "DEFAULT_PROVIDER_WEIGHT = 100"

definition provider_config_default :: provider_config where
  "provider_config_default = \<lparr> pc_name = [], pc_enabled = True, pc_provider_type = OpenAiResponses,
     pc_compatibility = None, pc_base_url = [], pc_models_url = None, pc_api_key = [], pc_models = [],
     pc_discovered_models = [], pc_model_aliases = [], pc_prompt_cache_retention = None,
     pc_weight = DEFAULT_PROVIDER_WEIGHT, pc_timeout_secs = DEFAULT_PROVIDER_TIMEOUT_SECS \<rparr>"

record custom_model_config =
  cm_slug :: string
  cm_provider_name :: "string option"
  cm_display_name :: "string option"
  cm_description :: "string option"
  cm_family :: "model_family option"
  cm_context_window :: "nat option"
  cm_supports_image_input :: "bool option"

text \<open>Of the gateway's configuration the fields that routing and the catalog use.\<close>

record gateway_config =
  gc_enabled :: bool
  gc_providers :: "provider_config list"
  gc_custom_models :: "custom_model_config list"
  gc_model_owners :: "(string, string) hmap"
  gc_provider_display_prefix :: bool

subsection \<open>Which models a provider serves\<close>

definition effective_weight :: "provider_config \<Rightarrow> nat" where
  "effective_weight provider = max (pc_weight provider) 1"

definition resolve_upstream_model :: "string \<Rightarrow> provider_config \<Rightarrow> string option" where
  "resolve_upstream_model model provider =
     (case hget (pc_model_aliases provider) model of
        Some mapped \<Rightarrow> Some mapped
      | None \<Rightarrow>
          (case List.find (\<lambda>(codex_model, _). eq_ignore_ascii_case codex_model model) (pc_model_aliases provider) of
             Some (_, mapped) \<Rightarrow> Some mapped
           | None \<Rightarrow>
               (case List.find (\<lambda>configured. configured = model) (pc_models provider) of
                  Some configured \<Rightarrow> Some configured
                | None \<Rightarrow> List.find (\<lambda>configured. eq_ignore_ascii_case configured model) (pc_models provider))))"

definition matches_model :: "string \<Rightarrow> provider_config \<Rightarrow> bool" where
  "matches_model model provider \<longleftrightarrow> resolve_upstream_model model provider \<noteq> None"

fun route_key :: "provider_type \<Rightarrow> string" where
  "route_key OpenAiResponses = ''openai_responses''"
| "route_key DeepSeekResponses = ''deepseek_responses''"
| "route_key GrokResponses = ''grok_responses''"
| "route_key ChatCompletions = ''chat_completions''"
| "route_key AnthropicMessages = ''anthropic_messages''"

definition provider_route_id :: "provider_config \<Rightarrow> string" where
  "provider_route_id provider =
     trim (pc_name provider) @ [CHR 0x00] @ route_key (pc_provider_type provider) @ [CHR 0x00] @
     trim (pc_base_url provider)"

definition trim_end_slashes :: "string \<Rightarrow> string" where
  "trim_end_slashes s = rev (dropWhile (\<lambda>c. c = CHR ''/'') (rev s))"

definition provider_api_root :: "string \<Rightarrow> string" where
  "provider_api_root base_url =
     (let base = trim_end_slashes (trim base_url)
      in if length base \<ge> 3 \<and> map ascii_lower (drop (length base - 3) base) = ''/v1''
         then trim_end_slashes (take (length base - 3) base) else base)"

fun family_from_provider_type :: "provider_type \<Rightarrow> model_family" where
  "family_from_provider_type OpenAiResponses = FamilyOpenAiResponses"
| "family_from_provider_type DeepSeekResponses = FamilyDeepSeekResponses"
| "family_from_provider_type GrokResponses = FamilyGrokResponses"
| "family_from_provider_type ChatCompletions = FamilyChatCompletions"
| "family_from_provider_type AnthropicMessages = FamilyAnthropicMessages"

subsection \<open>Owners and custom models\<close>

definition model_owner :: "string \<Rightarrow> gateway_config \<Rightarrow> string option" where
  "model_owner model config =
     Option.bind (non_blank model) (\<lambda>model.
       Option.bind (List.find (\<lambda>(key, _). eq_ignore_ascii_case (trim key) model) (gc_model_owners config))
         (\<lambda>(_, owner). non_blank owner))"

definition effective_model_owner :: "string \<Rightarrow> gateway_config \<Rightarrow> provider_config option" where
  "effective_model_owner model config =
     Option.bind (model_owner model config) (\<lambda>owner.
       List.find (\<lambda>provider. pc_name provider = owner \<and> pc_enabled provider \<and> matches_model model provider)
         (gc_providers config))"

definition custom_model :: "string \<Rightarrow> gateway_config \<Rightarrow> custom_model_config option" where
  "custom_model model config =
     List.find (\<lambda>entry. case non_blank (cm_slug entry) of
         None \<Rightarrow> False | Some slug \<Rightarrow> eq_ignore_ascii_case slug (trim model)) (gc_custom_models config)"

definition provider_for_custom_model :: "string \<Rightarrow> gateway_config \<Rightarrow> provider_config option" where
  "provider_for_custom_model model config =
     Option.bind (non_blank model) (\<lambda>model.
       case Option.bind (custom_model model config) (\<lambda>entry. Option.bind (cm_provider_name entry) non_blank) of
         Some name \<Rightarrow> List.find (\<lambda>provider. pc_name provider = name) (gc_providers config)
       | None \<Rightarrow> List.find (\<lambda>provider. pc_enabled provider \<and> matches_model model provider) (gc_providers config))"

definition resolve_family :: "gateway_config \<Rightarrow> custom_model_config \<Rightarrow> model_family" where
  "resolve_family config entry =
     (case cm_family entry of
        Some family \<Rightarrow> family
      | None \<Rightarrow>
          (case provider_for_custom_model (unwrap_or (non_blank (cm_slug entry)) []) config of
             Some provider \<Rightarrow> family_from_provider_type (pc_provider_type provider)
           | None \<Rightarrow> FamilyChatCompletions))"

definition model_display_prefix :: "string \<Rightarrow> gateway_config \<Rightarrow> string option" where
  "model_display_prefix model config =
     (if \<not> gc_provider_display_prefix config then None
      else Option.bind (opt_or (effective_model_owner model config) (provider_for_custom_model model config))
             (\<lambda>provider. non_blank (pc_name provider)))"

text \<open>Entries later in the table replace the value, and keep the spelling of the first key.\<close>

definition normalize_owner :: "string \<times> string \<Rightarrow> (string, string) hmap \<Rightarrow> (string, string) hmap" where
  "normalize_owner entry normalized =
     (let key = trim (fst entry); owner = trim (snd entry)
      in if key = [] \<or> owner = [] then normalized
         else case List.find (\<lambda>existing. eq_ignore_ascii_case existing key) (map fst normalized) of
                Some existing \<Rightarrow> hinsert existing owner normalized
              | None \<Rightarrow> hinsert key owner normalized)"

definition normalize_model_owners :: "(string, string) hmap \<Rightarrow> (string, string) hmap" where
  "normalize_model_owners owners = fold normalize_owner owners []"

definition normalized_entry :: "discovered_model_entry \<Rightarrow> discovered_model_entry option" where
  "normalized_entry entry =
     Option.bind (non_blank (dm_id entry)) (\<lambda>model_id.
       Some (entry\<lparr>dm_id := model_id, dm_display_name := Option.bind (dm_display_name entry) non_blank,
         dm_context_window := opt_filter (\<lambda>n. n > 0) (dm_context_window entry)\<rparr>))"

definition add_discovered :: "discovered_model_entry \<Rightarrow> discovered_model_entry list \<Rightarrow> discovered_model_entry list" where
  "add_discovered entry normalized =
     (case normalized_entry entry of
        None \<Rightarrow> normalized
      | Some entry \<Rightarrow>
          if list_ex (\<lambda>existing. eq_ignore_ascii_case (dm_id existing) (dm_id entry)) normalized
          then update_first (\<lambda>existing. eq_ignore_ascii_case (dm_id existing) (dm_id entry)) (\<lambda>_. entry) normalized
          else normalized @ [entry])"

definition normalize_discovered_models :: "discovered_model_entry list \<Rightarrow> discovered_model_entry list" where
  "normalize_discovered_models entries = fold add_discovered entries []"

definition discovered_model :: "string \<Rightarrow> provider_config \<Rightarrow> discovered_model_entry option" where
  "discovered_model model provider =
     Option.bind (non_blank model) (\<lambda>model.
       List.find (\<lambda>entry. case non_blank (dm_id entry) of
           None \<Rightarrow> False | Some entry_id \<Rightarrow> eq_ignore_ascii_case entry_id model) (pc_discovered_models provider))"

subsection \<open>The choice among the providers of a model\<close>

definition from_be_bytes :: "nat list \<Rightarrow> nat" where
  "from_be_bytes bytes = foldl (\<lambda>acc b. acc * 256 + b) 0 bytes"

definition hrw_hash_u64 :: "(string \<Rightarrow> nat list) \<Rightarrow> string \<Rightarrow> provider_config \<Rightarrow> nat" where
  "hrw_hash_u64 sha256 session_id provider =
     from_be_bytes (take 8 (sha256 (''codexhub-ai-gateway-hrw-v2'' @ [CHR 0x00] @ session_id @ [CHR 0x00] @
       provider_route_id provider)))"

fun bit_length :: "nat \<Rightarrow> nat" where
  "bit_length n = (if n = 0 then 0 else Suc (bit_length (n div 2)))"

declare bit_length.simps [simp del]

definition round_f64 :: "nat \<Rightarrow> nat" where
  "round_f64 n =
     (let unit = 2 ^ (bit_length n - 53); q = n div unit; r = n mod unit
      in if 2 * r > unit \<or> (2 * r = unit \<and> odd q) then Suc q * unit else q * unit)"

text \<open>The numerator of the score: the source divides it by \<open>2 ^ 64\<close>.\<close>

definition hrw_score :: "(string \<Rightarrow> nat list) \<Rightarrow> string \<Rightarrow> provider_config \<Rightarrow> nat" where
  "hrw_score sha256 session_id provider = round_f64 (round_f64 (hrw_hash_u64 sha256 session_id provider) + 1)"

text \<open>\<open>Iterator::max_by\<close> returns the last of several maxima.\<close>

fun max_by_rank :: "('a \<Rightarrow> 'k::linorder) \<Rightarrow> 'a list \<Rightarrow> 'a option" where
  "max_by_rank rank [] = None"
| "max_by_rank rank (x # xs) = Some (fold (\<lambda>y best. if rank y < rank best then best else y) xs x)"

text \<open>The comparison goes by weight, then score when there is a session, then route identifier; strings are
  compared by their bytes.\<close>

definition provider_rank ::
  "(string \<Rightarrow> nat list) \<Rightarrow> string option \<Rightarrow> provider_config \<Rightarrow> nat \<times> nat \<times> nat list" where
  "provider_rank sha256 session_id provider =
     (effective_weight provider,
      (case session_id of None \<Rightarrow> 0 | Some session_id \<Rightarrow> hrw_score sha256 session_id provider),
      map of_char (provider_route_id provider))"

definition select_by_priority ::
  "(string \<Rightarrow> nat list) \<Rightarrow> provider_config list \<Rightarrow> string option \<Rightarrow> provider_config option" where
  "select_by_priority sha256 candidates session_id =
     max_by_rank (provider_rank sha256 (Option.bind session_id non_blank)) candidates"

subsection \<open>The maximum\<close>

lemma fold_rank_in:
  "fold (\<lambda>y best. if rank y < rank best then best else y) xs x \<in> set (x # xs)"
proof (induction xs arbitrary: x)
  case (Cons y xs)
  then show ?case using Cons.IH[of x] Cons.IH[of y] by auto
qed simp

lemma fold_rank_best:
  fixes rank :: "'a \<Rightarrow> 'k::linorder"
  shows "y \<in> set (x # xs) \<Longrightarrow> rank y \<le> rank (fold (\<lambda>y best. if rank y < rank best then best else y) xs x)"
proof (induction xs arbitrary: x y)
  case (Cons z xs)
  let ?b = "if rank z < rank x then x else z"
  have "rank x \<le> rank ?b" "rank z \<le> rank ?b" by auto
  then have "rank y \<le> rank ?b \<or> y \<in> set xs" using Cons.prems by auto
  moreover have "rank ?b \<le> rank (fold (\<lambda>y best. if rank y < rank best then best else y) xs ?b)"
    by (rule Cons.IH[of ?b ?b]) simp
  moreover have "y \<in> set xs \<Longrightarrow> rank y \<le> rank (fold (\<lambda>y best. if rank y < rank best then best else y) xs ?b)"
    by (rule Cons.IH) simp
  ultimately show ?case by (auto dest: order_trans)
qed simp

lemma max_by_rank_Some:
  assumes "max_by_rank rank xs = Some x"
  shows "x \<in> set xs" "y \<in> set xs \<Longrightarrow> rank y \<le> rank x"
  using assms fold_rank_in[of rank] fold_rank_best[of _ _ _ rank] by (cases xs; fastforce)+

lemma max_by_rank_None [simp]: "max_by_rank rank xs = None \<longleftrightarrow> xs = []"
  by (cases xs) simp_all

lemma max_by_rank_unique:
  assumes "inj_on rank (set xs)" and "x \<in> set xs" and "\<And>y. y \<in> set xs \<Longrightarrow> rank y \<le> rank x"
  shows "max_by_rank rank xs = Some x"
proof -
  obtain m where m: "max_by_rank rank xs = Some m" using assms(2) by (cases "max_by_rank rank xs") auto
  then have "rank m = rank x" using max_by_rank_Some[OF m] assms(2,3) by (meson antisym)
  then show ?thesis using assms(1,2) max_by_rank_Some(1)[OF m] m by (metis inj_onD)
qed

subsection \<open>The choice is stable\<close>

lemma char_codes_inj: "map (of_char :: char \<Rightarrow> nat) s = map of_char s' \<Longrightarrow> s = s'"
  by (rule map_injective[of of_char]) (auto intro: injI)

lemma provider_rank_inj:
  assumes "inj_on provider_route_id (set candidates)"
  shows "inj_on (provider_rank sha256 session_id) (set candidates)"
  using assms by (auto simp: inj_on_def provider_rank_def dest: char_codes_inj)

lemma provider_rank_weight:
  "provider_rank sha256 session_id q \<le> provider_rank sha256 session_id p \<Longrightarrow> effective_weight q \<le> effective_weight p"
  by (auto simp: provider_rank_def less_eq_prod_def)

text \<open>The choice among the providers of a model is stable and respects the weights. Provided the
  candidates have different routes, the chosen one has the greatest weight, and it stays the choice for the
  session when the candidates are listed in another order and when any others of them are taken away or
  were never there: only the sessions of a provider that fails move to another one.\<close>

theorem priority_choice_stable:
  assumes "inj_on provider_route_id (set candidates)"
    and "select_by_priority sha256 candidates session_id = Some p"
    and "p \<in> set others" and "set others \<subseteq> set candidates"
  shows "select_by_priority sha256 others session_id = Some p \<and>
    (\<forall>q \<in> set candidates. effective_weight q \<le> effective_weight p)"
proof -
  let ?rank = "provider_rank sha256 (Option.bind session_id non_blank)"
  have best: "?rank q \<le> ?rank p" if "q \<in> set candidates" for q
    using max_by_rank_Some(2)[OF assms(2)[unfolded select_by_priority_def] that] .
  have "max_by_rank ?rank others = Some p"
    using assms(3,4) best inj_on_subset[OF provider_rank_inj[OF assms(1)] assms(4)]
    by (intro max_by_rank_unique) auto
  then show ?thesis using best[THEN provider_rank_weight] by (simp add: select_by_priority_def)
qed

definition sample_provider :: "string \<Rightarrow> nat \<Rightarrow> provider_config" where
  "sample_provider name weight = provider_config_default\<lparr>pc_name := name, pc_models := [''m''], pc_weight := weight\<rparr>"

lemma sample_route [simp]:
  "trim name = name \<Longrightarrow>
     provider_route_id (sample_provider name weight) = name @ [CHR 0x00] @ ''openai_responses'' @ [CHR 0x00]"
  by (simp add: provider_route_id_def sample_provider_def provider_config_default_def)

theorem priority_choice_stable_witness:
  "select_by_priority (\<lambda>_. []) [sample_provider ''b'' 7, sample_provider ''a'' 100] (Some ''s'')
     = Some (sample_provider ''a'' 100)"
proof -
  let ?a = "sample_provider ''a'' 100" and ?b = "sample_provider ''b'' 7"
  have names: "trim ''a'' = ''a''" "trim ''b'' = ''b''" by code_simp+
  have "inj_on provider_route_id (set [?a, ?b])" by (auto simp: inj_on_def names)
  moreover have "select_by_priority (\<lambda>_. []) [?a, ?b] (Some ''s'') = Some ?a"
    by (simp add: select_by_priority_def provider_rank_def effective_weight_def)
      (simp add: sample_provider_def)
  ultimately show ?thesis by (rule priority_choice_stable[THEN conjunct1]) simp_all
qed

end
