(* ===== verification/GatewayRouting.thy ===== *)
theory GatewayRouting
  imports GatewayConfig
begin

section \<open>Routing of the AI gateway (src/src/ai_gateway/routing_state.rs, router.rs, handler.rs)\<close>

text \<open>
  The routing state counts the consecutive failures of every route and remembers which route a session
  used last. A request goes to the owner of its model, else to the route its session is bound to, else to
  the healthy provider of the highest priority, and to any provider when none is healthy. Instants are
  milliseconds; the difference of two instants is zero when the second one is later.
\<close>

definition FAILURE_THRESHOLD :: nat where "FAILURE_THRESHOLD = 3"

definition COOLDOWN :: nat where "COOLDOWN = 30000"

definition BINDING_TTL :: nat where "BINDING_TTL = 30 * 60 * 1000"

record provider_health =
  ph_consecutive_failures :: nat
  ph_blacklisted_until :: "nat option"

record session_binding =
  sb_route_id :: string
  sb_last_used :: nat

record routing_state =
  rt_health :: "(string, provider_health) hmap"
  rt_bindings :: "(string, session_binding) hmap"

definition routing_state_default :: routing_state where
  "routing_state_default = \<lparr> rt_health = [], rt_bindings = [] \<rparr>"

definition provider_health_default :: provider_health where
  "provider_health_default = \<lparr> ph_consecutive_failures = 0, ph_blacklisted_until = None \<rparr>"

subsection \<open>The circuit breaker\<close>

definition is_blacklisted :: "string \<Rightarrow> nat \<Rightarrow> routing_state \<Rightarrow> bool" where
  "is_blacklisted route_id now state =
     (case Option.bind (hget (rt_health state) route_id) ph_blacklisted_until of
        None \<Rightarrow> False | Some until \<Rightarrow> now < until)"

definition record_success :: "string \<Rightarrow> routing_state \<Rightarrow> routing_state" where
  "record_success route_id state =
     (case hget (rt_health state) route_id of
        None \<Rightarrow> state
      | Some h \<Rightarrow> state\<lparr>rt_health := hinsert route_id
          (h\<lparr>ph_consecutive_failures := 0, ph_blacklisted_until := None\<rparr>) (rt_health state)\<rparr>)"

definition u32_max :: nat where "u32_max = 2 ^ 32 - 1"

definition record_failure :: "string \<Rightarrow> nat \<Rightarrow> routing_state \<Rightarrow> routing_state" where
  "record_failure route_id now state =
     (let h = unwrap_or (hget (rt_health state) route_id) provider_health_default;
          failures = min (ph_consecutive_failures h + 1) u32_max;
          h = h\<lparr>ph_consecutive_failures := failures,
                ph_blacklisted_until := (if failures \<ge> FAILURE_THRESHOLD then Some (now + COOLDOWN)
                                         else ph_blacklisted_until h)\<rparr>
      in state\<lparr>rt_health := hinsert route_id h (rt_health state)\<rparr>)"

subsection \<open>Sessions\<close>

definition binding_for :: "string \<Rightarrow> nat \<Rightarrow> routing_state \<Rightarrow> string option" where
  "binding_for session_id now state =
     Option.bind (hget (rt_bindings state) session_id) (\<lambda>b.
       if now - sb_last_used b \<le> BINDING_TTL then Some (sb_route_id b) else None)"

definition bind_session :: "string \<Rightarrow> string \<Rightarrow> nat \<Rightarrow> routing_state \<Rightarrow> routing_state" where
  "bind_session session_id route_id now state =
     state\<lparr>rt_bindings := hinsert session_id \<lparr> sb_route_id = route_id, sb_last_used = now \<rparr> (rt_bindings state)\<rparr>"

definition evict_stale :: "nat \<Rightarrow> routing_state \<Rightarrow> routing_state" where
  "evict_stale now state =
     state\<lparr>rt_bindings := hretain (\<lambda>_ b. now - sb_last_used b \<le> BINDING_TTL) (rt_bindings state)\<rparr>"

subsection \<open>Outcomes of requests\<close>

datatype routing_outcome = Success | UpstreamFailure | IgnoreOutcome

definition is_circuit_breaker_failure :: "nat \<Rightarrow> bool" where
  "is_circuit_breaker_failure status \<longleftrightarrow> (500 \<le> status \<and> status < 600) \<or> status = 429 \<or> status = 408"

definition classify_outcome :: "nat + 'a \<Rightarrow> routing_outcome" where
  "classify_outcome result =
     (case result of
        Inr _ \<Rightarrow> Success
      | Inl status \<Rightarrow> if is_circuit_breaker_failure status then UpstreamFailure else IgnoreOutcome)"

definition classify_response_status :: "nat \<Rightarrow> routing_outcome" where
  "classify_response_status status =
     (if 200 \<le> status \<and> status < 300 then Success
      else if is_circuit_breaker_failure status then UpstreamFailure else IgnoreOutcome)"

fun record_routing_outcome :: "string \<Rightarrow> routing_outcome \<Rightarrow> nat \<Rightarrow> routing_state \<Rightarrow> routing_state" where
  "record_routing_outcome route_id Success now state = record_success route_id state"
| "record_routing_outcome route_id UpstreamFailure now state = record_failure route_id now state"
| "record_routing_outcome route_id IgnoreOutcome now state = state"

subsection \<open>Choosing a provider\<close>

datatype gateway_error = InvalidModel string

definition bind_if :: "string option \<Rightarrow> string \<Rightarrow> nat \<Rightarrow> routing_state \<Rightarrow> routing_state" where
  "bind_if session_id route_id now state =
     (case session_id of None \<Rightarrow> state | Some session_id \<Rightarrow> bind_session session_id route_id now state)"

definition candidates_for :: "(provider_config \<Rightarrow> bool) \<Rightarrow> string \<Rightarrow> gateway_config \<Rightarrow> provider_config list" where
  "candidates_for matches model config =
     filter (\<lambda>provider. pc_enabled provider \<and> matches_model model provider \<and> matches provider) (gc_providers config)"

definition healthy_of :: "nat \<Rightarrow> routing_state \<Rightarrow> provider_config list \<Rightarrow> provider_config list" where
  "healthy_of now state = filter (\<lambda>provider. \<not> is_blacklisted (provider_route_id provider) now state)"

text \<open>The owner that locks the choice, and the healthy provider the session is bound to.\<close>

definition locked_owner ::
  "(provider_config \<Rightarrow> bool) \<Rightarrow> string \<Rightarrow> gateway_config \<Rightarrow> nat \<Rightarrow> routing_state \<Rightarrow> provider_config option" where
  "locked_owner matches model config now state =
     opt_filter (\<lambda>owner. matches owner \<and> \<not> is_blacklisted (provider_route_id owner) now state)
       (effective_model_owner model config)"

definition sticky_provider ::
  "string option \<Rightarrow> provider_config list \<Rightarrow> nat \<Rightarrow> routing_state \<Rightarrow> provider_config option" where
  "sticky_provider session_id healthy now state =
     Option.bind session_id (\<lambda>session_id. Option.bind (binding_for session_id now state) (\<lambda>bound.
       List.find (\<lambda>provider. provider_route_id provider = bound) healthy))"

definition resolve_provider_with_state_matching ::
  "(string \<Rightarrow> nat list) \<Rightarrow> string \<Rightarrow> string option \<Rightarrow> gateway_config \<Rightarrow> nat \<Rightarrow> (provider_config \<Rightarrow> bool) \<Rightarrow> routing_state
     \<Rightarrow> (gateway_error + provider_config \<times> string) \<times> routing_state" where
  "resolve_provider_with_state_matching sha256 model session_id config now matches state =
     (let candidates = candidates_for matches model config
      in if candidates = [] then (Inl (InvalidModel model), state)
         else
           (let session_id = Option.bind session_id non_blank
            in case locked_owner matches model config now state of
                 Some owner \<Rightarrow>
                   (Inr (owner, provider_route_id owner), bind_if session_id (provider_route_id owner) now state)
               | None \<Rightarrow>
                   (let healthy = healthy_of now state candidates
                    in case sticky_provider session_id healthy now state of
                         Some provider \<Rightarrow>
                           (Inr (provider, provider_route_id provider),
                            bind_if session_id (provider_route_id provider) now state)
                       | None \<Rightarrow>
                           (case select_by_priority sha256 (if healthy = [] then candidates else healthy) session_id of
                              None \<Rightarrow> (Inl (InvalidModel model), state)
                            | Some selected \<Rightarrow>
                                (Inr (selected, provider_route_id selected),
                                 bind_if session_id (provider_route_id selected) now state)))))"

definition resolve_provider_with_state ::
  "(string \<Rightarrow> nat list) \<Rightarrow> string \<Rightarrow> string option \<Rightarrow> gateway_config \<Rightarrow> nat \<Rightarrow> routing_state
     \<Rightarrow> (gateway_error + provider_config \<times> string) \<times> routing_state" where
  "resolve_provider_with_state sha256 model session_id config now =
     resolve_provider_with_state_matching sha256 model session_id config now (\<lambda>_. True)"

definition resolve_provider_with_state_for_type ::
  "(string \<Rightarrow> nat list) \<Rightarrow> string \<Rightarrow> string option \<Rightarrow> gateway_config \<Rightarrow> nat \<Rightarrow> provider_type \<Rightarrow> routing_state
     \<Rightarrow> (gateway_error + provider_config \<times> string) \<times> routing_state" where
  "resolve_provider_with_state_for_type sha256 model session_id config now kind =
     resolve_provider_with_state_matching sha256 model session_id config now (\<lambda>provider. pc_provider_type provider = kind)"

text \<open>What the handler of a request does in its locked section.\<close>

definition route_request ::
  "(string \<Rightarrow> nat list) \<Rightarrow> string \<Rightarrow> string option \<Rightarrow> gateway_config \<Rightarrow> nat \<Rightarrow> provider_type option \<Rightarrow> routing_state
     \<Rightarrow> (gateway_error + provider_config \<times> string) \<times> routing_state" where
  "route_request sha256 model session_id config now kind state =
     (let state = evict_stale now state
      in case kind of
           None \<Rightarrow> resolve_provider_with_state sha256 model session_id config now state
         | Some kind \<Rightarrow> resolve_provider_with_state_for_type sha256 model session_id config now kind state)"

subsection \<open>The circuit breaker counts consecutive failures\<close>

datatype breaker_event = Failed string nat | Succeeded string

fun apply_breaker_event :: "breaker_event \<Rightarrow> routing_state \<Rightarrow> routing_state" where
  "apply_breaker_event (Failed route_id now) = record_failure route_id now"
| "apply_breaker_event (Succeeded route_id) = record_success route_id"

text \<open>The reference: the times of a route's failures since its last success.\<close>

fun note_event :: "string \<Rightarrow> breaker_event \<Rightarrow> nat list \<Rightarrow> nat list" where
  "note_event route_id (Failed r now) ts = (if r = route_id then ts @ [now] else ts)"
| "note_event route_id (Succeeded r) ts = (if r = route_id then [] else ts)"

definition failures_since_success :: "string \<Rightarrow> breaker_event list \<Rightarrow> nat list" where
  "failures_since_success route_id events = fold (note_event route_id) events []"

definition health_shows :: "nat list \<Rightarrow> provider_health \<Rightarrow> bool" where
  "health_shows ts h \<longleftrightarrow> ph_consecutive_failures h = min (length ts) u32_max \<and>
     ph_blacklisted_until h =
       (if length ts \<ge> FAILURE_THRESHOLD then Some (last ts + COOLDOWN) else None)"

lemma breaker_event_shown:
  assumes "health_shows ts (unwrap_or (hget (rt_health state) route_id) provider_health_default)"
  shows "health_shows (note_event route_id event ts)
    (unwrap_or (hget (rt_health (apply_breaker_event event state)) route_id) provider_health_default)"
proof (cases event)
  case (Failed r now)
  then show ?thesis
    using assms by (auto simp: record_failure_def Let_def health_shows_def FAILURE_THRESHOLD_def u32_max_def)
next
  case (Succeeded r)
  then show ?thesis
    using assms by (auto simp: record_success_def health_shows_def FAILURE_THRESHOLD_def provider_health_default_def
        split: option.split)
qed

lemma breaker_events_shown:
  "health_shows ts (unwrap_or (hget (rt_health state) route_id) provider_health_default) \<Longrightarrow>
   health_shows (fold (note_event route_id) events ts)
     (unwrap_or (hget (rt_health (fold apply_breaker_event events state)) route_id) provider_health_default)"
proof (induction events arbitrary: ts state)
  case (Cons event events)
  then show ?case using breaker_event_shown[OF Cons.prems, of event] by simp
qed simp

lemma is_blacklisted_shown:
  assumes "health_shows ts (unwrap_or (hget (rt_health state) route_id) provider_health_default)"
  shows "is_blacklisted route_id now state \<longleftrightarrow> length ts \<ge> FAILURE_THRESHOLD \<and> now < last ts + COOLDOWN"
  using assms
  by (cases "hget (rt_health state) route_id")
    (auto simp: is_blacklisted_def health_shows_def provider_health_default_def FAILURE_THRESHOLD_def)

text \<open>C16. The circuit breaker does what it is specified to do. After any sequence of successes and failures
  of any routes, a route is out of service exactly when it failed at least three times since its last
  success and thirty seconds have not passed since the last of these failures. Other routes do not matter,
  and neither does the saturation of the counter.\<close>

theorem breaker_counts_consecutive_failures:
  "is_blacklisted route_id now (fold apply_breaker_event events routing_state_default) \<longleftrightarrow>
     (let ts = failures_since_success route_id events in length ts \<ge> 3 \<and> now < last ts + 30000)"
proof -
  have "health_shows [] (unwrap_or (hget (rt_health routing_state_default) route_id) provider_health_default)"
    by (simp add: health_shows_def routing_state_default_def provider_health_default_def FAILURE_THRESHOLD_def)
  then show ?thesis
    using is_blacklisted_shown[OF breaker_events_shown, of "[]" routing_state_default route_id now events]
    by (simp add: failures_since_success_def FAILURE_THRESHOLD_def COOLDOWN_def Let_def)
qed

subsection \<open>Which provider is chosen\<close>

lemma owner_is_candidate:
  assumes "locked_owner matches model config now state = Some owner"
  shows "owner \<in> set (candidates_for matches model config)" "\<not> is_blacklisted (provider_route_id owner) now state"
  using assms
  by (auto simp: locked_owner_def effective_model_owner_def opt_filter_def candidates_for_def
      split: option.splits if_splits bind_splits dest: find_Some_in)

lemma sticky_is_healthy:
  "sticky_provider session_id healthy now state = Some provider \<Longrightarrow> provider \<in> set healthy"
  by (auto simp: sticky_provider_def split: bind_splits dest: find_Some_in)

lemma selected_from_pool:
  "select_by_priority sha256 pool session_id = Some p \<Longrightarrow> p \<in> set pool"
  unfolding select_by_priority_def by (rule max_by_rank_Some(1))

lemma nonempty_pool_selects: "pool \<noteq> [] \<Longrightarrow> \<exists>p. select_by_priority sha256 pool session_id = Some p"
  by (simp add: select_by_priority_def flip: not_None_eq)

lemma set_healthy: "set (healthy_of now state candidates) =
    {p \<in> set candidates. \<not> is_blacklisted (provider_route_id p) now state}"
  by (auto simp: healthy_of_def)

lemma routing_outcome:
  assumes "resolve_provider_with_state_matching sha256 model session_id config now matches state = (outcome, state')"
    and "candidates = candidates_for matches model config"
  shows "case outcome of
      Inl err \<Rightarrow> candidates = [] \<and> err = InvalidModel model \<and> state' = state
    | Inr (p, route_id) \<Rightarrow>
        p \<in> set candidates \<and> route_id = provider_route_id p \<and>
        (is_blacklisted route_id now state \<longrightarrow> (\<forall>q \<in> set candidates. is_blacklisted (provider_route_id q) now state)) \<and>
        (\<forall>owner. effective_model_owner model config = Some owner \<and> matches owner \<and>
           \<not> is_blacklisted (provider_route_id owner) now state \<longrightarrow> p = owner) \<and>
        state' = bind_if (Option.bind session_id non_blank) route_id now state"
proof (cases "candidates = []")
  case True
  then show ?thesis using assms by (auto simp: resolve_provider_with_state_matching_def)
next
  case False
  let ?sid = "Option.bind session_id non_blank"
  let ?healthy = "healthy_of now state candidates"
  let ?chosen = "opt_or (locked_owner matches model config now state)
    (opt_or (sticky_provider ?sid ?healthy now state)
       (select_by_priority sha256 (if ?healthy = [] then candidates else ?healthy) ?sid))"
  have "?chosen \<noteq> None"
    using False nonempty_pool_selects[of "if ?healthy = [] then candidates else ?healthy" sha256 ?sid]
    by (auto simp: opt_or_def split: option.splits)
  then obtain p where p: "?chosen = Some p" by blast
  then have run: "outcome = Inr (p, provider_route_id p)" "state' = bind_if ?sid (provider_route_id p) now state"
    using assms False by (auto simp: resolve_provider_with_state_matching_def opt_or_def Let_def split: option.splits)
  have owner: "locked_owner matches model config now state = Some owner"
    if "effective_model_owner model config = Some owner" "matches owner"
      "\<not> is_blacklisted (provider_route_id owner) now state" for owner
    using that by (simp add: locked_owner_def)
  have "p \<in> set candidates \<and> (is_blacklisted (provider_route_id p) now state \<longrightarrow> ?healthy = [])"
  proof (cases "locked_owner matches model config now state")
    case (Some q)
    then show ?thesis using owner_is_candidate[OF Some] p assms(2) by simp
  next
    case None
    then show ?thesis
      using p sticky_is_healthy[of ?sid ?healthy now state] selected_from_pool set_healthy[of now state candidates]
      by (fastforce simp: opt_or_def split: option.splits if_splits)
  qed
  moreover have "?healthy = [] \<Longrightarrow> \<forall>q \<in> set candidates. is_blacklisted (provider_route_id q) now state"
    using set_healthy[of now state candidates] by auto
  ultimately show ?thesis using run owner p by (auto simp: opt_or_def)
qed

text \<open>C15. Every request that some provider can serve is routed, and as well as possible. Routing fails
  exactly when no enabled provider of a fitting kind serves the model. The chosen provider is one of those,
  the reported route is its route, and it is out of service only when all of them are; the owner of the
  model is chosen whenever it is configured, fitting and in service. The only change of the state is that
  the session, if there is one, is bound to the route.\<close>

theorem routing_serves_every_model:
  assumes "resolve_provider_with_state_matching sha256 model session_id config now matches state = (outcome, state')"
    and "candidates = candidates_for matches model config"
  shows "case outcome of
      Inl err \<Rightarrow> candidates = [] \<and> err = InvalidModel model \<and> state' = state
    | Inr (p, route_id) \<Rightarrow>
        p \<in> set candidates \<and> route_id = provider_route_id p \<and>
        (is_blacklisted route_id now state \<longrightarrow> (\<forall>q \<in> set candidates. is_blacklisted (provider_route_id q) now state)) \<and>
        (\<forall>owner. effective_model_owner model config = Some owner \<and> matches owner \<and>
           \<not> is_blacklisted (provider_route_id owner) now state \<longrightarrow> p = owner) \<and>
        state' = bind_if (Option.bind session_id non_blank) route_id now state"
  using assms by (rule routing_outcome)

definition sample_gateway :: gateway_config where
  "sample_gateway = \<lparr> gc_enabled = True, gc_providers = [sample_provider ''a'' 100, sample_provider ''b'' 7],
     gc_custom_models = [], gc_model_owners = [(''M'', '' b'')], gc_provider_display_prefix = False \<rparr>"

lemma sample_serves: "matches_model ''m'' (sample_provider name weight)"
  by (simp add: matches_model_def resolve_upstream_model_def sample_provider_def provider_config_default_def)

lemma sample_candidates:
  "candidates_for (\<lambda>_. True) ''m'' sample_gateway = [sample_provider ''a'' 100, sample_provider ''b'' 7]"
  using sample_serves
  by (simp add: candidates_for_def sample_gateway_def) (simp add: sample_provider_def provider_config_default_def)

lemma sample_owner: "effective_model_owner ''m'' sample_gateway = Some (sample_provider ''b'' 7)"
proof -
  have "model_owner ''m'' sample_gateway = Some ''b''" unfolding sample_gateway_def by code_simp
  moreover have "pc_name (sample_provider name weight) = name" "pc_enabled (sample_provider name weight)" for name weight
    by (simp_all add: sample_provider_def provider_config_default_def)
  ultimately show ?thesis
    using sample_serves by (simp add: effective_model_owner_def sample_gateway_def)
qed

theorem routing_serves_every_model_witness:
  "fst (resolve_provider_with_state_matching (\<lambda>_. []) ''m'' (Some ''s'') sample_gateway 5 (\<lambda>_. True) routing_state_default)
     = Inr (sample_provider ''b'' 7, provider_route_id (sample_provider ''b'' 7))"
proof -
  obtain outcome state' where run: "resolve_provider_with_state_matching (\<lambda>_. []) ''m'' (Some ''s'') sample_gateway 5
      (\<lambda>_. True) routing_state_default = (outcome, state')" by fastforce
  have "\<not> is_blacklisted r 5 routing_state_default" for r
    by (simp add: is_blacklisted_def routing_state_default_def)
  then show ?thesis
    using routing_serves_every_model[OF run refl] sample_owner run
    by (auto simp: sample_candidates split: sum.splits)
qed

subsection \<open>Sessions stay with their provider\<close>

text \<open>What happens in the gateway besides the requests of one session, until an instant: requests of other
  sessions, outcomes of any request, removal of stale bindings.\<close>

inductive gateway_step :: "string \<Rightarrow> nat \<Rightarrow> routing_state \<Rightarrow> routing_state \<Rightarrow> bool" for session until where
  routed: "Option.bind other non_blank \<noteq> Some session \<Longrightarrow> now \<le> until \<Longrightarrow>
     gateway_step session until state (snd (route_request sha256 model other config now kind state))"
| answered: "gateway_step session until state (record_routing_outcome route_id outcome now state)"
| evicted: "now \<le> until \<Longrightarrow> gateway_step session until state (evict_stale now state)"

definition bound_since :: "string \<Rightarrow> string \<Rightarrow> nat \<Rightarrow> routing_state \<Rightarrow> bool" where
  "bound_since session route_id at state \<longleftrightarrow> hwf (rt_bindings state) \<and>
     hget (rt_bindings state) session = Some \<lparr> sb_route_id = route_id, sb_last_used = at \<rparr>"

lemma bound_since_frames:
  "bound_since session route_id at (record_routing_outcome r outcome now state) = bound_since session route_id at state"
  "other \<noteq> Some session \<Longrightarrow> bound_since session route_id at state \<Longrightarrow>
     bound_since session route_id at (bind_if other r now state)"
  "now \<le> at + BINDING_TTL \<Longrightarrow> bound_since session route_id at state \<Longrightarrow>
     bound_since session route_id at (evict_stale now state)"
  by (cases outcome)
    (auto simp: bound_since_def record_success_def record_failure_def Let_def bind_if_def bind_session_def
      evict_stale_def hget_hretain split: option.split)

lemma resolve_binds_only:
  "snd (resolve_provider_with_state_matching sha256 model session_id config now matches state) = state \<or>
   (\<exists>r. snd (resolve_provider_with_state_matching sha256 model session_id config now matches state)
      = bind_if (Option.bind session_id non_blank) r now state)"
  by (auto simp: resolve_provider_with_state_matching_def Let_def split: option.split)

lemma route_request_binds_only:
  "snd (route_request sha256 model session_id config now kind state) = evict_stale now state \<or>
   (\<exists>r. snd (route_request sha256 model session_id config now kind state)
      = bind_if (Option.bind session_id non_blank) r now (evict_stale now state))"
  unfolding route_request_def Let_def resolve_provider_with_state_def resolve_provider_with_state_for_type_def
  using resolve_binds_only by (cases kind) auto

lemma gateway_step_keeps:
  assumes "gateway_step session until state state'" and "until \<le> at + BINDING_TTL"
    and "bound_since session route_id at state"
  shows "bound_since session route_id at state'"
  using assms(1)
proof cases
  case (routed other now sha256 model config kind)
  then show ?thesis
    using route_request_binds_only[of sha256 model other config now kind state] assms(2,3)
      bound_since_frames(2)[of "Option.bind other non_blank"] bound_since_frames(3)[of now at session route_id state]
    by auto
next
  case (answered r outcome now)
  then show ?thesis using assms(3) by (simp add: bound_since_frames(1))
next
  case (evicted now)
  then show ?thesis using assms(2,3) by (simp add: bound_since_frames(3))
qed

lemma gateway_steps_keep:
  assumes "(gateway_step session until)\<^sup>*\<^sup>* state state'" and "until \<le> at + BINDING_TTL"
    and "bound_since session route_id at state"
  shows "bound_since session route_id at state'"
  using assms(1,3) by (induction rule: rtranclp_induct) (auto intro: gateway_step_keeps[OF _ assms(2)])

definition fits :: "provider_type option \<Rightarrow> provider_config \<Rightarrow> bool" where
  "fits kind provider \<longleftrightarrow> (case kind of None \<Rightarrow> True | Some kind \<Rightarrow> pc_provider_type provider = kind)"

lemma fits_simps: "fits None = (\<lambda>_. True)" "fits (Some kind) = (\<lambda>provider. pc_provider_type provider = kind)"
  by (simp_all add: fits_def fun_eq_iff)

lemma route_request_matching:
  "route_request sha256 model session_id config now kind state =
     resolve_provider_with_state_matching sha256 model session_id config now (fits kind) (evict_stale now state)"
  by (cases kind) (simp_all add: route_request_def resolve_provider_with_state_def
      resolve_provider_with_state_for_type_def fits_simps)

lemma evict_health [simp]: "is_blacklisted r now (evict_stale now' state) = is_blacklisted r now state"
  by (simp add: is_blacklisted_def evict_stale_def)

lemma locked_owner_evict [simp]:
  "locked_owner matches model config now (evict_stale now' state) = locked_owner matches model config now state"
  by (simp add: locked_owner_def)

text \<open>C14. A session stays with its provider. After a request of a session was routed, whatever other sessions
  do and whatever outcomes are recorded in the next thirty minutes, the session's next request in that time
  goes over the same route, provided the route still serves the requested model, is in service, and no owner
  of the model takes precedence. The weights do not matter, and the model and the configuration may have
  changed.\<close>

theorem session_stays_with_provider:
  assumes "route_request sha256 model (Some session_id) config earlier kind state = (Inr (p, route_id), state1)"
    and "non_blank session_id = Some session" and "hwf (rt_bindings state)"
    and "(gateway_step session now)\<^sup>*\<^sup>* state1 state2" and "now \<le> earlier + BINDING_TTL"
    and "q \<in> set (candidates_for (fits kind') model' config')" and "provider_route_id q = route_id"
    and "\<not> is_blacklisted route_id now state2" and "locked_owner (fits kind') model' config' now state2 = None"
  shows "\<exists>p'. fst (route_request sha256 model' (Some session_id) config' now kind' state2) = Inr (p', route_id)"
proof -
  have "state1 = bind_if (Option.bind (Some session_id) non_blank) route_id earlier (evict_stale earlier state)"
    using routing_outcome[OF assms(1)[unfolded route_request_matching] refl] unfolding sum.case prod.case by blast
  then have "state1 = bind_if (Some session) route_id earlier (evict_stale earlier state)" by (simp add: assms(2))
  moreover have "hwf (rt_bindings (evict_stale earlier state))" using assms(3) by (simp add: evict_stale_def hwf_hretain)
  ultimately have "bound_since session route_id earlier state1"
    by (simp add: bound_since_def bind_if_def bind_session_def hwf_hinsert)
  then have "bound_since session route_id earlier state2" by (rule gateway_steps_keep[OF assms(4,5)])
  then have "bound_since session route_id earlier (evict_stale now state2)"
    by (rule bound_since_frames(3)[OF assms(5)])
  then have bound: "binding_for session now (evict_stale now state2) = Some route_id"
    using assms(5) by (simp add: binding_for_def bound_since_def)
  let ?candidates = "candidates_for (fits kind') model' config'"
  let ?healthy = "healthy_of now (evict_stale now state2) ?candidates"
  have "q \<in> set ?healthy" using assms(6,7,8) by (simp add: healthy_of_def)
  then obtain p' where p': "List.find (\<lambda>provider. provider_route_id provider = route_id) ?healthy = Some p'"
    using assms(7) by (cases "List.find (\<lambda>provider. provider_route_id provider = route_id) ?healthy")
      (auto simp: find_None_iff)
  then have "sticky_provider (Some session) ?healthy now (evict_stale now state2) = Some p'"
    using bound by (simp add: sticky_provider_def)
  moreover have "?candidates \<noteq> []" using assms(6) by auto
  moreover have "provider_route_id p' = route_id" using find_Some_in[OF p'] by simp
  ultimately show ?thesis
    using assms(2,9) by (simp add: route_request_matching resolve_provider_with_state_matching_def Let_def)
qed

lemma sample_routed:
  "resolve_provider_with_state_matching (\<lambda>_. []) ''m'' (Some ''s'') sample_gateway 5 (\<lambda>_. True) routing_state_default
     = (Inr (sample_provider ''b'' 7, provider_route_id (sample_provider ''b'' 7)),
        bind_session ''s'' (provider_route_id (sample_provider ''b'' 7)) 5 routing_state_default)"
proof -
  have "non_blank ''s'' = Some ''s''" by code_simp
  moreover have "\<not> is_blacklisted r 5 routing_state_default" for r
    by (simp add: is_blacklisted_def routing_state_default_def)
  ultimately show ?thesis
    by (simp add: resolve_provider_with_state_matching_def sample_candidates locked_owner_def sample_owner bind_if_def)
qed

theorem session_stays_with_provider_witness:
  "\<exists>p'. fst (route_request (\<lambda>_. []) ''m'' (Some ''s'') (sample_gateway\<lparr>gc_model_owners := []\<rparr>) 9 None
       (record_routing_outcome ''x'' UpstreamFailure 7
         (snd (route_request (\<lambda>_. []) ''m'' (Some ''s'') sample_gateway 5 None routing_state_default))))
     = Inr (p', provider_route_id (sample_provider ''b'' 7))"
proof -
  let ?b = "sample_provider ''b'' 7" and ?config = "sample_gateway\<lparr>gc_model_owners := []\<rparr>"
  let ?state1 = "snd (route_request (\<lambda>_. []) ''m'' (Some ''s'') sample_gateway 5 None routing_state_default)"
  let ?state2 = "record_routing_outcome ''x'' UpstreamFailure 7 ?state1"
  have blank: "non_blank ''s'' = Some ''s''" by code_simp
  have "evict_stale 5 routing_state_default = routing_state_default"
    by (simp add: evict_stale_def routing_state_default_def hretain_def)
  then have run: "route_request (\<lambda>_. []) ''m'' (Some ''s'') sample_gateway 5 None routing_state_default
      = (Inr (?b, provider_route_id ?b), bind_session ''s'' (provider_route_id ?b) 5 routing_state_default)"
    by (simp add: route_request_matching fits_simps sample_routed)
  then have first: "route_request (\<lambda>_. []) ''m'' (Some ''s'') sample_gateway 5 None routing_state_default
      = (Inr (?b, provider_route_id ?b), ?state1)" by simp
  show ?thesis
  proof (rule session_stays_with_provider[OF first blank])
    show "hwf (rt_bindings routing_state_default)" by (simp add: routing_state_default_def)
    show "(gateway_step ''s'' 9)\<^sup>*\<^sup>* ?state1 ?state2" by (intro r_into_rtranclp gateway_step.answered)
    show "9 \<le> 5 + BINDING_TTL" by (simp add: BINDING_TTL_def)
    show "?b \<in> set (candidates_for (fits None) ''m'' ?config)"
      using sample_candidates by (simp add: candidates_for_def sample_gateway_def fits_def)
    show "locked_owner (fits None) ''m'' ?config 9 ?state2 = None"
      by (simp add: locked_owner_def effective_model_owner_def model_owner_def Option.bind_eq_None_conv)
    show "\<not> is_blacklisted (provider_route_id ?b) 9 ?state2"
      unfolding run by (simp add: is_blacklisted_def bind_session_def routing_state_default_def record_failure_def
        provider_route_id_def Let_def provider_health_default_def FAILURE_THRESHOLD_def)
  qed (rule refl)
qed

end
