(* ===== verification/ToolNames.thy ===== *)
theory ToolNames
  imports Decimal
begin

section \<open>Names of tools (src/src/ai_gateway/tool_names.rs)\<close>

text \<open>
  The gateway offers the tools of a Codex request to providers that allow only short names of letters,
  digits, underscores and hyphens. A map gives every tool a provider name and finds the tool of a name in
  the provider's answer. A name that is too long or taken by another tool is cut and gets a digest of the
  tool, and a counter while that is taken too. SHA-256 is a parameter; all characters of a safe name are
  single bytes, so byte offsets are character offsets.
\<close>

definition TOOL_SEARCH_NAME :: string where "TOOL_SEARCH_NAME = ''tool_search''"

definition NAMESPACE_MARKER :: string where "NAMESPACE_MARKER = ''__codexns__''"

definition LEGACY_NAMESPACE_MARKER :: string where "LEGACY_NAMESPACE_MARKER = ''responses_unit__''"

definition PROVIDER_TOOL_NAME_MAX_LEN :: nat where "PROVIDER_TOOL_NAME_MAX_LEN = 64"

datatype tool_call_kind = FunctionTool | ToolSearchTool | CustomTool

record tool_call_target =
  tt_kind :: tool_call_kind
  tt_namespace :: "string option"
  tt_name :: string

definition not_blank :: "string option \<Rightarrow> string option" where
  "not_blank s = Option.bind s non_blank"

definition target_function :: "string option \<Rightarrow> string \<Rightarrow> tool_call_target" where
  "target_function namespace name =
     \<lparr> tt_kind = FunctionTool, tt_namespace = not_blank namespace, tt_name = name \<rparr>"

definition target_tool_search :: tool_call_target where
  "target_tool_search = \<lparr> tt_kind = ToolSearchTool, tt_namespace = None, tt_name = TOOL_SEARCH_NAME \<rparr>"

definition target_custom :: "string \<Rightarrow> tool_call_target" where
  "target_custom name = \<lparr> tt_kind = CustomTool, tt_namespace = None, tt_name = name \<rparr>"

record tool_name_map =
  encoded_to_target :: "(string, tool_call_target) hmap"
  target_to_encoded :: "(tool_call_target, string) hmap"

definition tool_name_map_default :: tool_name_map where
  "tool_name_map_default = \<lparr> encoded_to_target = [], target_to_encoded = [] \<rparr>"

subsection \<open>Names that need no map\<close>

definition encode_provider_tool_name :: "string option \<Rightarrow> string \<Rightarrow> string" where
  "encode_provider_tool_name namespace name =
     (case not_blank namespace of
        Some namespace \<Rightarrow>
          if trim name \<noteq> [] then namespace @ NAMESPACE_MARKER @ trim name else trim name
      | None \<Rightarrow> trim name)"

definition split_marker :: "string \<Rightarrow> string \<Rightarrow> (string \<times> string) option" where
  "split_marker s marker =
     Option.bind (find_sub marker s) (\<lambda>idx.
       let namespace = take idx s; name = drop (idx + length marker) s
       in if namespace = [] \<or> name = [] then None else Some (namespace, name))"

definition decode_provider_tool_name :: "string \<Rightarrow> tool_call_target" where
  "decode_provider_tool_name encoded =
     (if encoded = TOOL_SEARCH_NAME then target_tool_search
      else case opt_or (split_marker encoded NAMESPACE_MARKER) (split_marker encoded LEGACY_NAMESPACE_MARKER) of
             Some (namespace, name) \<Rightarrow> target_function (Some namespace) name
           | None \<Rightarrow> target_function None encoded)"

subsection \<open>Names a provider accepts\<close>

definition is_ascii_alphanumeric :: "char \<Rightarrow> bool" where
  "is_ascii_alphanumeric c =
     (let n = (of_char c :: nat) in (48 \<le> n \<and> n \<le> 57) \<or> (65 \<le> n \<and> n \<le> 90) \<or> (97 \<le> n \<and> n \<le> 122))"

definition is_safe :: "char \<Rightarrow> bool" where
  "is_safe c \<longleftrightarrow> is_ascii_alphanumeric c \<or> c = CHR ''_'' \<or> c = CHR ''-''"

definition provider_safe_tool_name :: "string \<Rightarrow> string" where
  "provider_safe_tool_name name =
     (let output = map (\<lambda>c. if is_safe c then c else CHR ''_'') (trim name)
      in if output = [] then ''tool'' else output)"

fun show_kind :: "tool_call_kind \<Rightarrow> string" where
  "show_kind FunctionTool = ''Function''"
| "show_kind ToolSearchTool = ''ToolSearch''"
| "show_kind CustomTool = ''Custom''"

definition target_hash :: "(string \<Rightarrow> nat list) \<Rightarrow> tool_call_target \<Rightarrow> string" where
  "target_hash sha256 target =
     hex_bytes (take 5 (sha256 (''codexhub-tool-name-v1'' @ [CHR 0x00] @ show_kind (tt_kind target) @ [CHR 0x00] @
       unwrap_or (tt_namespace target) [] @ [CHR 0x00] @ tt_name target)))"

definition trim_to_char_boundary :: "string \<Rightarrow> nat \<Rightarrow> string" where
  "trim_to_char_boundary s max_len = (if length s \<le> max_len then s else take max_len s)"

definition trim_end_underscores :: "string \<Rightarrow> string" where
  "trim_end_underscores s = rev (dropWhile (\<lambda>c. c = CHR ''_'') (rev s))"

text \<open>The name the loop of \<open>allocate_encoded_name\<close> tries with a counter.\<close>

definition numbered_name :: "string \<Rightarrow> string \<Rightarrow> nat \<Rightarrow> string" where
  "numbered_name base digest counter =
     (let suffix = (if counter = 0 then ''_h'' @ digest else ''_h'' @ digest @ show_nat counter);
          prefix_len = PROVIDER_TOOL_NAME_MAX_LEN - length suffix;
          prefix = trim_end_underscores (trim_to_char_boundary base prefix_len)
      in if prefix = [] then ''tool'' @ suffix else prefix @ suffix)"

subsection \<open>The loop over numbered names ends\<close>

text \<open>A digest has no underscore, so the part of a numbered name after its last underscore determines the
  counter: different counters give different names.\<close>

definition after_underscore :: "string \<Rightarrow> string" where
  "after_underscore s = rev (takeWhile (\<lambda>c. c \<noteq> CHR ''_'') (rev s))"

lemma after_underscore_append:
  "CHR ''_'' \<notin> set s \<Longrightarrow> after_underscore (p @ CHR ''_'' # s) = s"
  unfolding after_underscore_def by (simp, subst takeWhile_append2) auto

lemma numbered_name_parts:
  "\<exists>p. numbered_name base digest counter =
     p @ CHR ''_'' # (CHR ''h'' # digest @ (if counter = 0 then [] else show_nat counter))"
  by (auto simp: numbered_name_def Let_def)

lemma show_nat_no_underscore: "CHR ''_'' \<notin> set (show_nat n)"
  using show_nat_digits[of "CHR ''_''" n] by auto

lemma numbered_name_inj:
  assumes "CHR ''_'' \<notin> set digest" and "numbered_name base digest c = numbered_name base digest d"
  shows "c = d"
proof -
  have *: "after_underscore (numbered_name base digest n) = CHR ''h'' # digest @ (if n = 0 then [] else show_nat n)" for n
  proof -
    obtain p where p: "numbered_name base digest n = p @ CHR ''_'' # (CHR ''h'' # digest @ (if n = 0 then [] else show_nat n))"
      using numbered_name_parts by blast
    show ?thesis unfolding p using assms(1) show_nat_no_underscore by (intro after_underscore_append) auto
  qed
  have "(if c = 0 then [] else show_nat c) = (if d = 0 then [] else show_nat d)"
    using *[of c, unfolded assms(2)] *[of d] by simp
  then show ?thesis by (cases "c = 0"; cases "d = 0") (auto dest: show_nat_inj simp: show_nat_not_Nil[symmetric])
qed

lemma hex_no_underscore: "CHR ''_'' \<notin> set (hex_bytes bs)"
  using hex_bytes_chars[of "CHR ''_''" bs] by auto

lemma target_hash_no_underscore [simp]: "CHR ''_'' \<notin> set (target_hash sha256 target)"
  by (simp add: target_hash_def hex_no_underscore)

text \<open>The taken names a loop can still run into.\<close>

definition still_taken :: "(string, tool_call_target) hmap \<Rightarrow> string \<Rightarrow> string \<Rightarrow> nat \<Rightarrow> string set" where
  "still_taken names base digest counter =
     {name \<in> fst ` set names. \<exists>c \<ge> counter. numbered_name base digest c = name}"

lemma still_taken_finite [simp]: "finite (still_taken names base digest counter)"
  by (simp add: still_taken_def)

lemma still_taken_decreases:
  assumes "CHR ''_'' \<notin> set digest" and "hget names (numbered_name base digest counter) = Some existing"
  shows "card (still_taken names base digest (Suc counter)) < card (still_taken names base digest counter)"
proof (rule psubset_card_mono)
  have "numbered_name base digest counter \<in> still_taken names base digest counter"
    using hget_fst[OF assms(2)] by (auto simp: still_taken_def)
  moreover have "numbered_name base digest counter \<notin> still_taken names base digest (Suc counter)"
    using numbered_name_inj[OF assms(1)] by (fastforce simp: still_taken_def)
  moreover have "still_taken names base digest (Suc counter) \<subseteq> still_taken names base digest counter"
    by (auto simp: still_taken_def intro: Suc_leD)
  ultimately show "still_taken names base digest (Suc counter) \<subset> still_taken names base digest counter" by blast
qed simp

function allocate_loop ::
  "(string \<Rightarrow> nat list) \<Rightarrow> (string, tool_call_target) hmap \<Rightarrow> string \<Rightarrow> tool_call_target \<Rightarrow> nat \<Rightarrow> string" where
  "allocate_loop sha256 names base target counter =
     (let encoded = numbered_name base (target_hash sha256 target) counter
      in case hget names encoded of
           None \<Rightarrow> encoded
         | Some existing \<Rightarrow>
             if existing = target then encoded else allocate_loop sha256 names base target (Suc counter))"
  by pat_completeness auto
termination
  by (relation "measure (\<lambda>(sha256, names, base, target, counter).
        card (still_taken names base (target_hash sha256 target) counter))")
    (auto intro: still_taken_decreases)

declare allocate_loop.simps [simp del]

subsection \<open>The map\<close>

definition allocate_encoded_name ::
  "(string \<Rightarrow> nat list) \<Rightarrow> string \<Rightarrow> tool_call_target \<Rightarrow> tool_name_map \<Rightarrow> string" where
  "allocate_encoded_name sha256 preferred target m =
     (let base = provider_safe_tool_name preferred
      in if length base \<le> PROVIDER_TOOL_NAME_MAX_LEN \<and>
            (case hget (encoded_to_target m) base of None \<Rightarrow> True | Some existing \<Rightarrow> existing = target)
         then base else allocate_loop sha256 (encoded_to_target m) base target 0)"

definition insert_name :: "string \<Rightarrow> tool_call_target \<Rightarrow> tool_name_map \<Rightarrow> tool_name_map" where
  "insert_name encoded target m =
     m\<lparr>encoded_to_target := hinsert encoded target (encoded_to_target m),
       target_to_encoded := hinsert target encoded (target_to_encoded m)\<rparr>"

definition preferred_name :: "tool_call_target \<Rightarrow> string" where
  "preferred_name target =
     (case tt_kind target of
        FunctionTool \<Rightarrow> encode_provider_tool_name (tt_namespace target) (tt_name target)
      | ToolSearchTool \<Rightarrow> TOOL_SEARCH_NAME
      | CustomTool \<Rightarrow> tt_name target)"

definition encode_target ::
  "(string \<Rightarrow> nat list) \<Rightarrow> tool_call_target \<Rightarrow> tool_name_map \<Rightarrow> string \<times> tool_name_map" where
  "encode_target sha256 target m =
     (case hget (target_to_encoded m) target of
        Some encoded \<Rightarrow> (encoded, m)
      | None \<Rightarrow>
          (let encoded = allocate_encoded_name sha256 (preferred_name target) target m
           in (encoded, insert_name encoded target m)))"

definition encode_function ::
  "(string \<Rightarrow> nat list) \<Rightarrow> string option \<Rightarrow> string \<Rightarrow> tool_name_map \<Rightarrow> string \<times> tool_name_map" where
  "encode_function sha256 namespace name = encode_target sha256 (target_function namespace name)"

definition encode_custom :: "(string \<Rightarrow> nat list) \<Rightarrow> string \<Rightarrow> tool_name_map \<Rightarrow> string \<times> tool_name_map" where
  "encode_custom sha256 name = encode_target sha256 (target_custom name)"

definition encode_tool_search :: "(string \<Rightarrow> nat list) \<Rightarrow> tool_name_map \<Rightarrow> string \<times> tool_name_map" where
  "encode_tool_search sha256 = encode_target sha256 target_tool_search"

definition decode_target :: "string \<Rightarrow> tool_name_map \<Rightarrow> tool_call_target" where
  "decode_target encoded m = unwrap_or (hget (encoded_to_target m) encoded) (decode_provider_tool_name encoded)"

definition has_encoded :: "string \<Rightarrow> tool_name_map \<Rightarrow> bool" where
  "has_encoded encoded m = hcontains (encoded_to_target m) encoded"

subsection \<open>Valid names\<close>

definition valid_name :: "string \<Rightarrow> bool" where
  "valid_name name \<longleftrightarrow> name \<noteq> [] \<and> length name \<le> PROVIDER_TOOL_NAME_MAX_LEN \<and> list_all is_safe name"

lemma safe_tool: "is_safe CHR ''_'' \<and> list_all is_safe ''tool'' \<and> list_all is_safe ''_h''"
  by code_simp

lemma provider_safe_tool_name_safe:
  "provider_safe_tool_name name \<noteq> [] \<and> list_all is_safe (provider_safe_tool_name name)"
  using safe_tool by (auto simp: provider_safe_tool_name_def Let_def list_all_iff)

lemma hex_safe: "list_all is_safe (hex_bytes bs)"
  using hex_bytes_chars by (fastforce simp: list_all_iff is_safe_def is_ascii_alphanumeric_def Let_def)

lemma show_nat_safe: "list_all is_safe (show_nat n)"
  using show_nat_digits by (auto simp: list_all_iff is_safe_def is_ascii_alphanumeric_def Let_def)

lemma trim_end_underscores_props:
  "length (trim_end_underscores s) \<le> length s" "set (trim_end_underscores s) \<subseteq> set s"
  using length_dropWhile_le[of "\<lambda>c. c = CHR ''_''" "rev s"] set_dropWhileD[of _ "\<lambda>c. c = CHR ''_''" "rev s"]
  by (auto simp: trim_end_underscores_def)

lemma numbered_name_valid:
  assumes "list_all is_safe base" and "list_all is_safe digest" and "length digest \<le> 10"
    and "length (show_nat counter) \<le> 20"
  shows "valid_name (numbered_name base digest counter)"
proof -
  define suffix where "suffix = (if counter = 0 then ''_h'' @ digest else ''_h'' @ digest @ show_nat counter)"
  define prefix where "prefix = trim_end_underscores (trim_to_char_boundary base (64 - length suffix))"
  have suffix: "length suffix \<le> 32" "list_all is_safe suffix" "suffix \<noteq> []"
    using assms(2-4) safe_tool show_nat_safe[of counter] by (auto simp: suffix_def)
  have "length (trim_to_char_boundary base n) \<le> n" "set (trim_to_char_boundary base n) \<subseteq> set base" for n
    by (auto simp: trim_to_char_boundary_def dest: in_set_takeD)
  then have prefix: "length prefix \<le> 64 - length suffix" "list_all is_safe prefix"
    using trim_end_underscores_props[of "trim_to_char_boundary base (64 - length suffix)"] assms(1) le_trans
    unfolding prefix_def list_all_iff by blast+
  have "numbered_name base digest counter = (if prefix = [] then ''tool'' @ suffix else prefix @ suffix)"
    by (simp add: numbered_name_def suffix_def prefix_def PROVIDER_TOOL_NAME_MAX_LEN_def Let_def)
  moreover have "length prefix + length suffix \<le> 64" using prefix(1) suffix(1) by linarith
  ultimately show ?thesis using suffix prefix(2) safe_tool by (simp add: valid_name_def PROVIDER_TOOL_NAME_MAX_LEN_def)
qed

subsection \<open>Every tool has its own name\<close>

lemma allocate_loop_result:
  "\<exists>c. allocate_loop sha256 names base target counter = numbered_name base (target_hash sha256 target) c \<and>
     c \<le> counter + card (still_taken names base (target_hash sha256 target) counter) \<and>
     (case hget names (allocate_loop sha256 names base target counter) of
        None \<Rightarrow> True | Some existing \<Rightarrow> existing = target)"
proof (induction sha256 names base target counter rule: allocate_loop.induct)
  case (1 sha256 names base target counter)
  let ?digest = "target_hash sha256 target"
  show ?case
  proof (cases "\<exists>existing. hget names (numbered_name base ?digest counter) = Some existing \<and> existing \<noteq> target")
    case True
    then obtain existing where taken: "hget names (numbered_name base ?digest counter) = Some existing"
      "existing \<noteq> target" by blast
    have fewer: "card (still_taken names base ?digest (Suc counter)) < card (still_taken names base ?digest counter)"
      by (rule still_taken_decreases[OF target_hash_no_underscore taken(1)])
    have again: "allocate_loop sha256 names base target counter = allocate_loop sha256 names base target (Suc counter)"
      using taken by (subst allocate_loop.simps) (simp add: Let_def)
    show ?thesis using 1[OF refl taken] fewer unfolding again by fastforce
  next
    case False
    then have "allocate_loop sha256 names base target counter = numbered_name base ?digest counter"
      by (subst allocate_loop.simps) (auto simp: Let_def split: option.split)
    then show ?thesis using False by (auto split: option.split)
  qed
qed

lemma allocated_name_valid:
  assumes "length (encoded_to_target m) < 2 ^ 64"
  shows "valid_name (allocate_encoded_name sha256 preferred target m)"
    and "hget (encoded_to_target m) (allocate_encoded_name sha256 preferred target m) \<in> {None, Some target}"
proof -
  let ?names = "encoded_to_target m" and ?base = "provider_safe_tool_name preferred"
    and ?digest = "target_hash sha256 target"
  obtain c where c: "allocate_loop sha256 ?names ?base target 0 = numbered_name ?base ?digest c"
    "c \<le> card (still_taken ?names ?base ?digest 0)"
    "case hget ?names (allocate_loop sha256 ?names ?base target 0) of
       None \<Rightarrow> True | Some existing \<Rightarrow> existing = target"
    using allocate_loop_result[of sha256 ?names ?base target 0] by auto
  have "card (still_taken ?names ?base ?digest 0) \<le> card (fst ` set ?names)"
    by (rule card_mono) (auto simp: still_taken_def)
  also have "\<dots> \<le> length ?names" using card_length[of "map fst ?names"] by simp
  finally have "c < 10 ^ 20" using c(2) assms by simp
  then have "length (show_nat c) \<le> 20" by (rule length_show_nat_le) simp
  moreover have "length ?digest \<le> 10" by (simp add: target_hash_def)
  moreover have "list_all is_safe ?digest" by (simp add: target_hash_def hex_safe)
  ultimately have "valid_name (numbered_name ?base ?digest c)"
    using numbered_name_valid provider_safe_tool_name_safe by blast
  then show "valid_name (allocate_encoded_name sha256 preferred target m)"
    using c(1) provider_safe_tool_name_safe by (simp add: allocate_encoded_name_def valid_name_def Let_def)
  show "hget ?names (allocate_encoded_name sha256 preferred target m) \<in> {None, Some target}"
    using c(3) by (auto simp: allocate_encoded_name_def Let_def split: option.splits)
qed

definition names_ok :: "tool_name_map \<Rightarrow> bool" where
  "names_ok m \<longleftrightarrow> (\<forall>e t. hget (encoded_to_target m) e = Some t \<longleftrightarrow> hget (target_to_encoded m) t = Some e) \<and>
     (\<forall>e t. hget (encoded_to_target m) e = Some t \<longrightarrow> valid_name e)"

lemma encode_target_ok:
  assumes ok: "names_ok m" and room: "length (encoded_to_target m) < 2 ^ 64"
    and run: "encode_target sha256 target m = (encoded, m')"
  shows "names_ok m' \<and> hget (encoded_to_target m') encoded = Some target \<and>
    (\<forall>e t. hget (encoded_to_target m) e = Some t \<longrightarrow> hget (encoded_to_target m') e = Some t) \<and>
    length (encoded_to_target m') \<le> Suc (length (encoded_to_target m))"
proof (cases "hget (target_to_encoded m) target")
  case None
  let ?e = "allocate_encoded_name sha256 (preferred_name target) target m"
  have "hget (encoded_to_target m) ?e = None"
    using allocated_name_valid(2)[OF room, of sha256 "preferred_name target" target] None ok
    unfolding names_ok_def by (metis insertE option.distinct(1) singletonD)
  moreover from this have "hget (target_to_encoded m) t \<noteq> Some ?e" for t
    using ok unfolding names_ok_def by (metis option.distinct(1))
  moreover have "valid_name ?e" by (rule allocated_name_valid(1)[OF room])
  moreover have "encoded = ?e" "m' = insert_name ?e target m"
    using run None by (auto simp: encode_target_def Let_def)
  ultimately show ?thesis
    using ok None length_hinsert_le[of ?e target "encoded_to_target m"]
    by (auto simp: names_ok_def insert_name_def)
next
  case (Some e)
  then show ?thesis using run ok by (auto simp: encode_target_def names_ok_def)
qed

text \<open>What a caller does with the tools of a request, one after the other.\<close>

fun encode_targets ::
  "(string \<Rightarrow> nat list) \<Rightarrow> tool_call_target list \<Rightarrow> tool_name_map \<Rightarrow> string list \<times> tool_name_map" where
  "encode_targets sha256 [] m = ([], m)"
| "encode_targets sha256 (target # targets) m =
     (let (name, m) = encode_target sha256 target m; (names, m) = encode_targets sha256 targets m
      in (name # names, m))"

lemma encode_targets_ok:
  assumes "names_ok m" and "length (encoded_to_target m) + length targets \<le> 2 ^ 64"
    and "encode_targets sha256 targets m = (names, m')"
  shows "names_ok m' \<and> map (hget (encoded_to_target m')) names = map Some targets \<and>
    (\<forall>e t. hget (encoded_to_target m) e = Some t \<longrightarrow> hget (encoded_to_target m') e = Some t)"
  using assms
proof (induction targets arbitrary: m names)
  case (Cons target targets)
  obtain name m1 where one: "encode_target sha256 target m = (name, m1)" by fastforce
  obtain names1 where more: "encode_targets sha256 targets m1 = (names1, m')" "names = name # names1"
    using Cons.prems(3) one by (auto split: prod.splits)
  have step: "names_ok m1" "hget (encoded_to_target m1) name = Some target"
    "\<forall>e t. hget (encoded_to_target m) e = Some t \<longrightarrow> hget (encoded_to_target m1) e = Some t"
    "length (encoded_to_target m1) \<le> Suc (length (encoded_to_target m))"
    using encode_target_ok[OF Cons.prems(1) _ one] Cons.prems(2) by simp_all
  have "length (encoded_to_target m1) + length targets \<le> 2 ^ 64" using step(4) Cons.prems(2) by simp
  from Cons.IH[OF step(1) this more(1)] step(2,3) more(2) show ?case by simp
qed simp

lemma map_fixed: "map f xs = xs \<Longrightarrow> x \<in> set xs \<Longrightarrow> f x = x"
  by (induction xs) auto

lemma map_Some_pairs: "map f xs = map Some ys \<Longrightarrow> list_all2 (\<lambda>x y. f x = Some y) xs ys"
  by (induction xs arbitrary: ys) (auto simp: Cons_eq_map_conv)

text \<open>C17. Every tool has a name of its own that the provider accepts. Whatever tools are encoded, in
  whatever order and with whatever names, every name has 1 to 64 characters, all of them letters, digits,
  underscores or hyphens; the final map decodes it to its tool; and two tools get the same name exactly
  when they are the same tool. This needs nothing of the digest: also when digests collide, the loop over
  counters ends with a free name.\<close>

theorem tool_names_roundtrip:
  assumes "length targets \<le> 2 ^ 64"
    and "encode_targets sha256 targets tool_name_map_default = (names, m)"
  shows "list_all valid_name names \<and> map (\<lambda>name. decode_target name m) names = targets \<and>
    (\<exists>name_of. inj_on name_of (set targets) \<and> names = map name_of targets)"
proof -
  have ok: "names_ok m" and found: "map (hget (encoded_to_target m)) names = map Some targets"
    using encode_targets_ok[of tool_name_map_default targets sha256 names m] assms
    by (simp_all add: names_ok_def tool_name_map_default_def)
  have inverse: "hget (target_to_encoded m) target = Some name \<and> valid_name name"
    if "hget (encoded_to_target m) name = Some target" for name target
    using that ok unfolding names_ok_def by blast
  have each: "list_all2 (\<lambda>name target. hget (encoded_to_target m) name = Some target) names targets"
    using found by (rule map_Some_pairs)
  have decoded: "map (\<lambda>name. decode_target name m) names = targets"
    using each by (induction rule: list_all2_induct) (simp_all add: decode_target_def)
  have names: "names = map (\<lambda>target. the (hget (target_to_encoded m) target)) targets"
    using each by (induction rule: list_all2_induct) (auto dest: inverse)
  have "inj_on (\<lambda>target. the (hget (target_to_encoded m) target)) (set targets)"
    using map_fixed[OF decoded[unfolded names map_map]]
    by (intro inj_on_inverseI[of _ "\<lambda>name. decode_target name m"]) simp
  moreover have "list_all valid_name names"
    using each by (induction rule: list_all2_induct) (auto dest: inverse)
  ultimately show ?thesis using decoded names by blast
qed

definition sample_targets :: "tool_call_target list" where
  "sample_targets = [target_function None ''a:b'', target_function None ''a_b'', target_custom ''a_b'',
     target_function (Some '' '') ''a:b'']"

lemma sample_names:
  "fst (encode_targets (\<lambda>_. [7]) sample_targets tool_name_map_default) =
     [''a_b'', ''a_b_h07'', ''a_b_h071'', ''a_b'']"
  by code_simp

theorem tool_names_roundtrip_witness:
  "list_all valid_name [''a_b'', ''a_b_h07'', ''a_b_h071'', ''a_b''] \<and>
   map (\<lambda>name. decode_target name (snd (encode_targets (\<lambda>_. [7]) sample_targets tool_name_map_default)))
     [''a_b'', ''a_b_h07'', ''a_b_h071'', ''a_b''] = sample_targets"
  using tool_names_roundtrip[of sample_targets "\<lambda>_. [7]" "fst (encode_targets (\<lambda>_. [7]) sample_targets tool_name_map_default)"
      "snd (encode_targets (\<lambda>_. [7]) sample_targets tool_name_map_default)"]
  unfolding sample_names by (simp add: sample_targets_def flip: sample_names)

subsection \<open>Names with a namespace\<close>

lemma find_sub_at_marker:
  assumes "p \<noteq> []" and "\<not> contains p (s @ butlast p)"
  shows "find_sub p (s @ p @ t) = Some (length s)"
  using assms(2)
proof (induction s)
  case Nil
  then show ?case using assms(1) starts_with_append[of p t] by (cases "p @ t") auto
next
  case (Cons c s)
  have "take (length p) (c # s @ p @ t) = take (length p) (c # s @ butlast p)"
  proof -
    have "c # s @ p @ t = (c # s @ butlast p) @ last p # t"
      using append_butlast_last_id[OF assms(1)] by (metis append_Cons append_Nil append_assoc)
    then show ?thesis using assms(1) by (simp only: take_append) (simp add: Suc_diff_le)
  qed
  then have "\<not> starts_with p (c # s @ p @ t)"
    using Cons.prems by (auto simp: starts_with_def contains_def split: if_splits)
  moreover have "\<not> contains p (s @ butlast p)"
    using Cons.prems by (auto simp: contains_def split: if_splits)
  ultimately show ?case using Cons.IH by simp
qed

text \<open>A name that joins a namespace and a tool is split again into the same two, also where no map
  knows it: the decoder finds the separator the encoder wrote, provided the namespace, followed by the
  separator without its last character, does not already contain the separator.\<close>

theorem namespaced_name_roundtrip:
  assumes "trim namespace \<noteq> []" and "trim name \<noteq> []"
    and "\<not> contains NAMESPACE_MARKER (trim namespace @ butlast NAMESPACE_MARKER)"
  shows "decode_provider_tool_name (encode_provider_tool_name (Some namespace) name)
    = target_function (Some namespace) (trim name)"
proof -
  have "find_sub NAMESPACE_MARKER (trim namespace @ NAMESPACE_MARKER @ trim name) = Some (length (trim namespace))"
    using find_sub_at_marker[OF _ assms(3)] by (simp add: NAMESPACE_MARKER_def)
  moreover have "find_sub NAMESPACE_MARKER TOOL_SEARCH_NAME = None" by code_simp
  ultimately have "trim namespace @ NAMESPACE_MARKER @ trim name \<noteq> TOOL_SEARCH_NAME"
    "split_marker (trim namespace @ NAMESPACE_MARKER @ trim name) NAMESPACE_MARKER = Some (trim namespace, trim name)"
    using assms(1,2) by (auto simp: split_marker_def Let_def)
  then show ?thesis
    using assms by (simp add: encode_provider_tool_name_def decode_provider_tool_name_def not_blank_def non_blank_def target_function_def)
qed

theorem namespaced_name_roundtrip_witness:
  "decode_provider_tool_name (encode_provider_tool_name (Some ''codex_app'') ''read_thread_terminal'')
     = target_function (Some ''codex_app'') (trim ''read_thread_terminal'')"
proof (rule namespaced_name_roundtrip)
  show "trim ''codex_app'' \<noteq> []" "trim ''read_thread_terminal'' \<noteq> []" by code_simp+
  show "\<not> contains NAMESPACE_MARKER (trim ''codex_app'' @ butlast NAMESPACE_MARKER)" by code_simp
qed

end
