(* ===== verification/UsageLog.thy ===== *)
theory UsageLog
  imports Complex_Main Json RcUtils
begin

section \<open>Rollout logs of Codex (src/src/usage/log.rs)\<close>

text \<open>
  A line of a rollout log becomes one of four records. A string is its UTF-8 bytes here, since the code cuts
  timestamps at byte positions. The JSON parser and the reading of a decimal fraction are arguments; the
  derived deserialisers are written out: a struct is an object or an array of its members in order, a missing
  field takes its default and an optional field may be null. An \<open>f64\<close> is the rational it stands for, and a
  product of two is rounded to the nearest value with 53 significant bits, ties to even (the range of
  exponents is not bounded). An \<open>i64\<close> sum wraps.
\<close>

subsection \<open>Numbers\<close>

definition wrap_i64 :: "int \<Rightarrow> int" where
  "wrap_i64 i = (i + 2 ^ 63) mod 2 ^ 64 - 2 ^ 63"

text \<open>\<open>as i64\<close> of an \<open>f64\<close>: towards zero, saturating.\<close>

definition as_i64 :: "rat \<Rightarrow> int" where
  "as_i64 x = max (- (2 ^ 63)) (min (2 ^ 63 - 1) (if x < 0 then \<lceil>x\<rceil> else \<lfloor>x\<rfloor>))"

definition round_half_even :: "rat \<Rightarrow> int" where
  "round_half_even x =
     (let below = \<lfloor>x\<rfloor>; rest = x - of_int below
      in if rest > 1 / 2 \<or> (rest = 1 / 2 \<and> odd below) then below + 1 else below)"

fun bit_count :: "nat \<Rightarrow> nat" where
  "bit_count n = (if n = 0 then 0 else Suc (bit_count (n div 2)))"

declare bit_count.simps [simp del]

text \<open>The unit in the last place of a positive number \<open>p / q\<close>: the exponent is that of the quotient of
  the lengths, or one less.\<close>

definition two_power :: "int \<Rightarrow> rat" where
  "two_power e = (if e \<ge> 0 then 2 ^ nat e else 1 / 2 ^ nat (- e))"

definition binary_exponent :: "rat \<Rightarrow> int" where
  "binary_exponent x =
     (let (p, q) = quotient_of x;
          e = int (bit_count (nat p)) - int (bit_count (nat q))
      in if two_power e \<le> x then e else e - 1)"

definition round_rat :: "rat \<Rightarrow> rat" where
  "round_rat x =
     (if x = 0 then 0
      else let unit = two_power (binary_exponent \<bar>x\<bar> - 52)
           in (if x < 0 then - 1 else 1) * of_int (round_half_even (\<bar>x\<bar> / unit)) * unit)"

definition f64_times :: "rat \<Rightarrow> rat \<Rightarrow> rat" where "f64_times a b = round_rat (a * b)"

definition f64_plus :: "rat \<Rightarrow> rat \<Rightarrow> rat" where "f64_plus a b = round_rat (a + b)"

subsection \<open>Slices of a string\<close>

definition is_boundary :: "string \<Rightarrow> nat \<Rightarrow> bool" where
  "is_boundary s i \<longleftrightarrow> i = length s \<or>
     (i < length s \<and> \<not> (128 \<le> (of_char (s ! i) :: nat) \<and> (of_char (s ! i) :: nat) < 192))"

definition slice :: "nat \<Rightarrow> nat \<Rightarrow> string \<Rightarrow> string option" where
  "slice a b s = (if a \<le> b \<and> is_boundary s a \<and> is_boundary s b then Some (take (b - a) (drop a s)) else None)"

definition slice_i64 :: "nat \<Rightarrow> nat \<Rightarrow> string \<Rightarrow> int option" where
  "slice_i64 a b s = Option.bind (slice a b s) parse_i64"

subsection \<open>Timestamps\<close>

definition days_from_civil :: "int \<Rightarrow> int \<Rightarrow> int \<Rightarrow> int" where
  "days_from_civil year month day =
     (let adjusted_year = year - (if month \<le> 2 then 1 else 0);
          era = trunc_div (if adjusted_year \<ge> 0 then adjusted_year else adjusted_year - 399) 400;
          year_of_era = adjusted_year - era * 400;
          day_of_year = (153 * (month + (if month > 2 then - 3 else 9)) + 2) div 5 + day - 1;
          day_of_era = year_of_era * 365 + year_of_era div 4 - year_of_era div 100 + day_of_year
      in era * 146097 + day_of_era - 719468)"

text \<open>The offset behind the seconds: \<open>None\<close> when there is a sign and no readable offset.\<close>

definition utc_offset :: "string \<Rightarrow> int option" where
  "utc_offset timestamp =
     (case slice 19 (length timestamp) timestamp of
        None \<Rightarrow> Some 0
      | Some rest \<Rightarrow>
          (if rest \<noteq> [] \<and> hd rest \<in> {CHR ''+'', CHR ''-''} then
             Option.bind (slice_i64 1 3 rest) (\<lambda>offset_hours.
               Option.bind (slice_i64 4 6 rest) (\<lambda>offset_minutes.
                 let magnitude = offset_hours * 3600 + offset_minutes * 60
                 in Some (if hd rest = CHR ''+'' then - magnitude else magnitude)))
           else Some 0))"

definition timestamp_ms :: "string \<Rightarrow> int option" where
  "timestamp_ms timestamp =
     (if length timestamp < 19 then None
      else Option.bind (slice_i64 0 4 timestamp) (\<lambda>year.
           Option.bind (slice_i64 5 7 timestamp) (\<lambda>month.
           Option.bind (slice_i64 8 10 timestamp) (\<lambda>day.
           Option.bind (slice_i64 11 13 timestamp) (\<lambda>hour.
           Option.bind (slice_i64 14 16 timestamp) (\<lambda>minute.
           Option.bind (slice_i64 17 19 timestamp) (\<lambda>second.
             if \<not> (1 \<le> month \<and> month \<le> 12) \<or> \<not> (1 \<le> day \<and> day \<le> 31) \<or> hour > 23 \<or> minute > 59 \<or> second > 60
             then None
             else Option.bind (utc_offset timestamp) (\<lambda>offset.
               Some ((days_from_civil year month day * 86400 + hour * 3600 + minute * 60 + second + offset) * 1000)))))))))"

definition epoch_minute :: "string \<Rightarrow> int option" where
  "epoch_minute timestamp = map_option (\<lambda>ms. ms div 60000) (timestamp_ms timestamp)"

text \<open>\<open>str::parse::<u8>\<close> on two bytes: an optional plus sign and digits.\<close>

definition parse_unsigned :: "nat \<Rightarrow> string \<Rightarrow> nat option" where
  "parse_unsigned limit s =
     opt_filter (\<lambda>n. n < limit) (parse_nat (case strip_prefix ''+'' s of Some digits \<Rightarrow> digits | None \<Rightarrow> s))"

definition hour_of_day :: "string \<Rightarrow> nat option" where
  "hour_of_day timestamp =
     opt_filter (\<lambda>hour. hour < 24) (Option.bind (slice 11 13 timestamp) (parse_unsigned 256))"

subsection \<open>Records\<close>

record token_usage =
  tu_input_tokens :: nat
  tu_cached_input_tokens :: nat
  tu_cache_write_input_tokens :: nat
  tu_output_tokens :: nat
  tu_reasoning_output_tokens :: nat
  tu_total_tokens :: nat

definition no_usage :: token_usage where
  "no_usage = \<lparr> tu_input_tokens = 0, tu_cached_input_tokens = 0, tu_cache_write_input_tokens = 0,
     tu_output_tokens = 0, tu_reasoning_output_tokens = 0, tu_total_tokens = 0 \<rparr>"

record rate_limit_window =
  rw_used_percent :: rat
  rw_window_minutes :: "nat option"
  rw_resets_at_ms :: "int option"

record rate_limits =
  rl_limit_id :: "string option"
  rl_primary :: "rate_limit_window option"
  rl_secondary :: "rate_limit_window option"
  rl_plan_type :: "string option"
  rl_rate_limit_reached_type :: "string option"

definition no_rate_limits :: rate_limits where
  "no_rate_limits = \<lparr> rl_limit_id = None, rl_primary = None, rl_secondary = None, rl_plan_type = None,
     rl_rate_limit_reached_type = None \<rparr>"

definition has_window :: "rate_limits \<Rightarrow> bool" where
  "has_window limits \<longleftrightarrow> rl_primary limits \<noteq> None \<or> rl_secondary limits \<noteq> None"

record session_meta =
  sm_session_id :: "string option"
  sm_thread_id :: "string option"
  sm_cwd :: "string option"
  sm_originator :: "string option"
  sm_started_at :: "string option"
  sm_provider :: "string option"

record thread_settings =
  ts_model :: "string option"
  ts_provider :: "string option"

record turn_context =
  tx_model :: "string option"
  tx_cwd :: "string option"
  tx_timezone :: "string option"

record token_count =
  tk_usage :: token_usage
  tk_cumulative :: "token_usage option"
  tk_model_context_window :: "nat option"
  tk_rate_limits :: rate_limits
  tk_timestamp :: "string option"

datatype rollout_event =
    MetaEvent session_meta
  | CountEvent token_count
  | SettingsEvent thread_settings
  | ContextEvent turn_context

subsection \<open>Deserialisation\<close>

text \<open>The members of a struct that are present, by name.\<close>

definition de_struct :: "string list \<Rightarrow> json \<Rightarrow> (string, json) hmap option" where
  "de_struct names v =
     (case v of
        JObj members \<Rightarrow> Some members
      | JArr items \<Rightarrow> if length items \<le> length names then Some (zip names items) else None
      | _ \<Rightarrow> None)"

text \<open>A field of type \<open>Option\<close> that may be missing: the outer option is the failure.\<close>

definition de_opt :: "(json \<Rightarrow> 'a option) \<Rightarrow> string \<Rightarrow> (string, json) hmap \<Rightarrow> 'a option option" where
  "de_opt de name members =
     (case hget members name of
        None \<Rightarrow> Some None
      | Some JNull \<Rightarrow> Some None
      | Some v \<Rightarrow> map_option Some (de v))"

definition de_counter :: "string \<Rightarrow> (string, json) hmap \<Rightarrow> nat option" where
  "de_counter name members = (case hget members name of None \<Rightarrow> Some 0 | Some v \<Rightarrow> as_u64 v)"

definition de_u32 :: "json \<Rightarrow> nat option" where
  "de_u32 v = opt_filter (\<lambda>n. n < 2 ^ 32) (as_u64 v)"

definition de_f64 :: "(string \<Rightarrow> rat) \<Rightarrow> json \<Rightarrow> rat option" where
  "de_f64 read_decimal v =
     (case v of
        JNum i \<Rightarrow> Some (round_rat (of_int i))
      | JFloat digits \<Rightarrow> Some (read_decimal digits)
      | _ \<Rightarrow> None)"

definition de_token_usage :: "json \<Rightarrow> token_usage option" where
  "de_token_usage v =
     Option.bind (de_struct [''input_tokens'', ''cached_input_tokens'', ''cache_write_input_tokens'',
         ''output_tokens'', ''reasoning_output_tokens'', ''total_tokens''] v) (\<lambda>members.
       Option.bind (de_counter ''input_tokens'' members) (\<lambda>input.
       Option.bind (de_counter ''cached_input_tokens'' members) (\<lambda>cached.
       Option.bind (de_counter ''cache_write_input_tokens'' members) (\<lambda>cache_write.
       Option.bind (de_counter ''output_tokens'' members) (\<lambda>output.
       Option.bind (de_counter ''reasoning_output_tokens'' members) (\<lambda>reasoning.
       Option.bind (de_counter ''total_tokens'' members) (\<lambda>total.
         Some \<lparr> tu_input_tokens = input, tu_cached_input_tokens = cached, tu_cache_write_input_tokens = cache_write,
                tu_output_tokens = output, tu_reasoning_output_tokens = reasoning, tu_total_tokens = total \<rparr>)))))))"

record raw_rate_limit_window =
  rr_used_percent :: "rat option"
  rr_window_minutes :: "nat option"
  rr_resets_at :: "rat option"
  rr_resets_in_seconds :: "rat option"

definition de_raw_window :: "(string \<Rightarrow> rat) \<Rightarrow> json \<Rightarrow> raw_rate_limit_window option" where
  "de_raw_window read_decimal v =
     Option.bind (de_struct [''used_percent'', ''window_minutes'', ''resets_at'', ''resets_in_seconds''] v) (\<lambda>members.
       Option.bind (de_opt (de_f64 read_decimal) ''used_percent'' members) (\<lambda>used_percent.
       Option.bind (de_opt de_u32 ''window_minutes'' members) (\<lambda>window_minutes.
       Option.bind (de_opt (de_f64 read_decimal) ''resets_at'' members) (\<lambda>resets_at.
       Option.bind (de_opt (de_f64 read_decimal) ''resets_in_seconds'' members) (\<lambda>resets_in_seconds.
         Some \<lparr> rr_used_percent = used_percent, rr_window_minutes = window_minutes, rr_resets_at = resets_at,
                rr_resets_in_seconds = resets_in_seconds \<rparr>)))))"

definition normalize_window :: "int option \<Rightarrow> raw_rate_limit_window \<Rightarrow> rate_limit_window option" where
  "normalize_window record_timestamp_ms raw =
     map_option (\<lambda>used_percent.
       \<lparr> rw_used_percent = used_percent, rw_window_minutes = rr_window_minutes raw,
         rw_resets_at_ms =
           (case rr_resets_at raw of
              Some epoch_seconds \<Rightarrow> Some (as_i64 (f64_times epoch_seconds 1000))
            | None \<Rightarrow>
                (case (rr_resets_in_seconds raw, record_timestamp_ms) of
                   (Some seconds, Some now_ms) \<Rightarrow> Some (wrap_i64 (now_ms + as_i64 (f64_times seconds 1000)))
                 | _ \<Rightarrow> None)) \<rparr>) (rr_used_percent raw)"

text \<open>\<open>RawRateLimits\<close> with its normalisation.\<close>

definition de_rate_limits :: "(string \<Rightarrow> rat) \<Rightarrow> int option \<Rightarrow> json \<Rightarrow> rate_limits option" where
  "de_rate_limits read_decimal record_timestamp_ms v =
     Option.bind (de_struct [''limit_id'', ''primary'', ''secondary'', ''plan_type'', ''rate_limit_reached_type''] v) (\<lambda>members.
       Option.bind (de_opt as_str ''limit_id'' members) (\<lambda>limit_id.
       Option.bind (de_opt (de_raw_window read_decimal) ''primary'' members) (\<lambda>primary.
       Option.bind (de_opt (de_raw_window read_decimal) ''secondary'' members) (\<lambda>secondary.
       Option.bind (de_opt as_str ''plan_type'' members) (\<lambda>plan_type.
       Option.bind (de_opt as_str ''rate_limit_reached_type'' members) (\<lambda>reached_type.
         Some \<lparr> rl_limit_id = limit_id,
                rl_primary = Option.bind primary (normalize_window record_timestamp_ms),
                rl_secondary = Option.bind secondary (normalize_window record_timestamp_ms),
                rl_plan_type = plan_type, rl_rate_limit_reached_type = reached_type \<rparr>))))))"

record raw_record =
  rc_timestamp :: "string option"
  rc_kind :: "string option"
  rc_payload :: "json option"
  rc_model_provider :: "string option"

definition de_raw_record :: "json \<Rightarrow> raw_record option" where
  "de_raw_record v =
     Option.bind (de_struct [''timestamp'', ''type'', ''payload'', ''model_provider''] v) (\<lambda>members.
       Option.bind (de_opt as_str ''timestamp'' members) (\<lambda>timestamp.
       Option.bind (de_opt as_str ''type'' members) (\<lambda>kind.
       Option.bind (de_opt Some ''payload'' members) (\<lambda>payload.
       Option.bind (de_opt as_str ''model_provider'' members) (\<lambda>model_provider.
         Some \<lparr> rc_timestamp = timestamp, rc_kind = kind, rc_payload = payload,
                rc_model_provider = model_provider \<rparr>)))))"

definition session_meta_record :: "raw_record \<Rightarrow> json \<Rightarrow> session_meta option" where
  "session_meta_record rec payload =
     Option.bind (de_struct [''session_id'', ''id'', ''cwd'', ''originator'', ''timestamp'', ''model_provider'',
         ''provider''] payload) (\<lambda>members.
       Option.bind (de_opt as_str ''session_id'' members) (\<lambda>session_id.
       Option.bind (de_opt as_str ''id'' members) (\<lambda>thread_id.
       Option.bind (de_opt as_str ''cwd'' members) (\<lambda>cwd.
       Option.bind (de_opt as_str ''originator'' members) (\<lambda>originator.
       Option.bind (de_opt as_str ''timestamp'' members) (\<lambda>timestamp.
       Option.bind (de_opt as_str ''model_provider'' members) (\<lambda>model_provider.
       Option.bind (de_opt as_str ''provider'' members) (\<lambda>provider.
         Some \<lparr> sm_session_id = session_id, sm_thread_id = thread_id, sm_cwd = cwd, sm_originator = originator,
                sm_started_at = opt_or timestamp (rc_timestamp rec),
                sm_provider = opt_filter (\<lambda>p. trim p \<noteq> [])
                  (opt_or model_provider (opt_or provider (Option.bind (rc_model_provider rec) non_blank))) \<rparr>))))))))"

definition token_count_record :: "(string \<Rightarrow> rat) \<Rightarrow> raw_record \<Rightarrow> json \<Rightarrow> token_count option" where
  "token_count_record read_decimal rec payload =
     Option.bind (de_struct [''info'', ''rate_limits''] payload) (\<lambda>members.
       Option.bind (Option.bind (hget members ''info'')
           (de_struct [''total_token_usage'', ''last_token_usage'', ''model_context_window''])) (\<lambda>info.
       Option.bind (de_opt de_token_usage ''total_token_usage'' info) (\<lambda>cumulative.
       Option.bind (de_opt de_token_usage ''last_token_usage'' info) (\<lambda>last_usage.
       Option.bind (de_opt as_u64 ''model_context_window'' info) (\<lambda>context_window.
       Option.bind (de_opt (de_rate_limits read_decimal (Option.bind (rc_timestamp rec) timestamp_ms))
           ''rate_limits'' members) (\<lambda>limits.
         map_option (\<lambda>usage.
           \<lparr> tk_usage = usage, tk_cumulative = cumulative, tk_model_context_window = context_window,
             tk_rate_limits = unwrap_or limits no_rate_limits, tk_timestamp = rc_timestamp rec \<rparr>)
           (opt_or last_usage cumulative)))))))"

definition settings_record :: "json \<Rightarrow> thread_settings option" where
  "settings_record payload =
     Option.bind (jget ''thread_settings'' payload) (\<lambda>settings.
       let model = jget_str ''model'' settings; provider = jget_str ''model_provider_id'' settings
       in if model = None \<and> provider = None then None
          else Some \<lparr> ts_model = model, ts_provider = provider \<rparr>)"

definition context_record :: "json \<Rightarrow> turn_context option" where
  "context_record payload =
     (let model = opt_filter (\<lambda>m. m \<noteq> []) (jget_str ''model'' payload); cwd = jget_str ''cwd'' payload
      in if model = None \<and> cwd = None then None
         else Some \<lparr> tx_model = model, tx_cwd = cwd, tx_timezone = jget_str ''timezone'' payload \<rparr>)"

definition event_of_record :: "(string \<Rightarrow> rat) \<Rightarrow> raw_record \<Rightarrow> rollout_event option" where
  "event_of_record read_decimal rec =
     Option.bind (rc_payload rec) (\<lambda>payload.
     Option.bind (rc_kind rec) (\<lambda>kind.
       if kind = ''session_meta'' then map_option MetaEvent (session_meta_record rec payload)
       else if kind = ''event_msg'' then
         Option.bind (jget_str ''type'' payload) (\<lambda>event_type.
           if event_type = ''token_count'' then map_option CountEvent (token_count_record read_decimal rec payload)
           else if event_type = ''thread_settings_applied'' then map_option SettingsEvent (settings_record payload)
           else None)
       else if kind = ''turn_context'' then map_option ContextEvent (context_record payload)
       else None))"

definition parse_record :: "(string \<Rightarrow> json option) \<Rightarrow> (string \<Rightarrow> rat) \<Rightarrow> string \<Rightarrow> rollout_event option" where
  "parse_record parse read_decimal record_line =
     (if trim record_line = [] then None
      else Option.bind (Option.bind (parse (trim record_line)) de_raw_record) (event_of_record read_decimal))"

subsection \<open>The date of a timestamp\<close>

lemma length_pad_nat: "n < 10 ^ w \<Longrightarrow> 0 < w \<Longrightarrow> length (pad_nat w n) = w"
  using length_show_nat_le[of n w] by (simp add: pad_nat_def)

lemma parse_digits_zeros: "parse_digits 0 (replicate k (CHR ''0'') @ ds) = parse_digits 0 ds"
  by (induction k) (simp_all add: digit_value_def)

lemma digit_chars_pad: "c \<in> set (pad_nat w n) \<Longrightarrow> 48 \<le> (of_char c :: nat) \<and> (of_char c :: nat) \<le> 57"
  using show_nat_digits[of c n] by (auto simp: pad_nat_def)

lemma parse_i64_pad: "int n < 2 ^ 63 \<Longrightarrow> parse_i64 (pad_nat w n) = Some (int n)"
proof -
  assume n: "int n < 2 ^ 63"
  have whole: "parse_nat (pad_nat w n) = Some n"
    by (simp add: parse_nat_def pad_nat_def parse_digits_zeros parse_digits_show_nat)
  obtain c cs where pad: "pad_nat w n = c # cs" by (cases "pad_nat w n") (simp_all add: pad_nat_def)
  then have "c \<noteq> CHR ''-''" "c \<noteq> CHR ''+''" using digit_chars_pad[of c w n] by auto
  then show ?thesis using n whole pad by (simp add: parse_i64_def)
qed

definition ascii :: "string \<Rightarrow> bool" where
  "ascii s \<longleftrightarrow> (\<forall>c \<in> set s. (of_char c :: nat) < 128)"

lemma slice_ascii:
  assumes "ascii s" and "s = p @ x @ q" and "a = length p" and "b = length p + length x"
  shows "slice a b s = Some x"
proof -
  have boundary: "is_boundary s i" if "i \<le> length s" for i
  proof (cases "i = length s")
    case False
    then have "s ! i \<in> set s" using that by simp
    then show ?thesis using assms(1) that by (auto simp: is_boundary_def ascii_def)
  qed (simp add: is_boundary_def)
  then show ?thesis using assms(2-) by (simp add: slice_def)
qed

lemma ascii_append [simp]: "ascii (xs @ ys) \<longleftrightarrow> ascii xs \<and> ascii ys"
  by (auto simp: ascii_def)

lemma ascii_pad [simp]: "ascii (pad_nat w n)"
  using digit_chars_pad[of _ w n] by (fastforce simp: ascii_def)

lemma ascii_literals: "ascii ''-''" "ascii ''T''" "ascii '':''" "ascii ''Z''"
  by (simp_all add: ascii_def)

lemma days_from_march:
  assumes place: "era_place c q s" and k: "k = min 3 (s div 365)" and "0 \<le> era"
    and "march_date (400 * era + 100 * c + 4 * q + k) (s - 365 * k) = (year, month, day)"
  shows "days_from_civil year month day = 146097 * era + era_day c q s - 719468"
    and "1 \<le> month \<and> month \<le> 12" and "0 \<le> day \<and> day \<le> 31"
proof -
  let ?y = "400 * era + 100 * c + 4 * q + k" let ?doy = "s - 365 * k" let ?mp = "month_prime (s - 365 * k)"
  have bounds: "0 \<le> c" "c \<le> 3" "0 \<le> q" "q \<le> 24" "0 \<le> s" "s \<le> 1460"
    using place by (auto simp: era_place_def)
  have kb: "0 \<le> k" "k \<le> 3" "0 \<le> ?doy" "?doy \<le> 365"
    using bounds(5,6) k by (rule year_cases; simp)+
  have mp: "0 \<le> ?mp" "?mp \<le> 11" "0 \<le> month_day ?doy" "month_day ?doy \<le> 31"
    using month_bounds[OF kb(3,4)] by auto
  have date: "month = ?mp + (if ?mp < 10 then 3 else - 9)" "year = ?y + (if month \<le> 2 then 1 else 0)"
    "day = month_day ?doy"
    using assms(4) by (auto simp: march_date_def Let_def)
  have month: "month + (if month > 2 then - 3 else 9) = ?mp" using date(1) mp by auto
  have era: "trunc_div ?y 400 = era"
    using bounds kb assms(3) by (auto simp: trunc_div_def intro!: div_between)
  have y: "0 \<le> ?y" using bounds kb assms(3) by simp
  have y4: "(?y - era * 400) div 4 = 25 * c + q" and y100: "(?y - era * 400) div 100 = c"
    using kb bounds by (auto intro!: div_between)
  have "days_from_civil year month day = era * 146097 + ((?y - era * 400) * 365 + (25 * c + q) - c
      + ((153 * ?mp + 2) div 5 + day - 1)) - 719468"
    unfolding days_from_civil_def Let_def month using date(2) era y y4 y100 by simp
  also have "\<dots> = 146097 * era + era_day c q s - 719468"
    unfolding date(3) by (simp add: month_day_def era_day_def algebra_simps)
  finally show "days_from_civil year month day = 146097 * era + era_day c q s - 719468" .
  show "1 \<le> month \<and> month \<le> 12" using date(1) mp by auto
  show "0 \<le> day \<and> day \<le> 31" using date(3) mp by simp
qed

lemma month_day_pos: "0 \<le> doy \<Longrightarrow> doy \<le> 365 \<Longrightarrow> 1 \<le> month_day doy"
proof (cases "doy < 364")
  case True
  moreover assume "0 \<le> doy"
  ultimately show ?thesis using march_entry[of doy] by auto
next
  case False
  moreover assume "doy \<le> 365"
  ultimately have "doy = 364 \<or> doy = 365" by linarith
  then show ?thesis by (auto simp: month_prime_def month_day_def)
qed

text \<open>The days of the years 1970 to 9999.\<close>

lemma civil_of_day:
  assumes "d < 2932897"
  obtains year month day where "civil_from_days (int d) = (int year, int month, int day)"
    and "days_from_civil (int year) (int month) (int day) = int d"
    and "year < 10000" and "1 \<le> month" and "month \<le> 12" and "1 \<le> day" and "day \<le> 31"
proof -
  define era where "era = (int d + 719468) div 146097"
  have era: "0 \<le> era" "era \<le> 24"
    using assms zdiv_mono1[of "int d + 719468" 3652364 146097] unfolding era_def
    by (simp_all add: pos_imp_zdiv_nonneg_iff)
  have "0 \<le> (int d + 719468) mod 146097" "(int d + 719468) mod 146097 < 146097" by simp_all
  then obtain c q s where place: "era_place c q s" and doe: "(int d + 719468) mod 146097 = era_day c q s"
    using era_place_exists by blast
  have d: "int d = 146097 * era + era_day c q s - 719468" unfolding doe[symmetric] era_def by simp
  define k where "k = min 3 (s div 365)"
  obtain year month day where date: "march_date (400 * era + 100 * c + 4 * q + k) (s - 365 * k) = (year, month, day)"
    by (metis prod_cases3)
  have civil: "civil_from_days (int d) = (year, month, day)"
    unfolding d civil_of_era[OF place k_def era(1) order.trans[OF era(2)], simplified] by (rule date)
  note days = days_from_march[OF place k_def era(1) date]
  have bounds: "0 \<le> c" "c \<le> 3" "0 \<le> q" "q \<le> 24" "0 \<le> s" "s \<le> 1460"
    using place by (auto simp: era_place_def)
  have kb: "0 \<le> k" "k \<le> 3" "0 \<le> s - 365 * k" "s - 365 * k \<le> 365"
    using bounds(5,6) k_def by (rule year_cases; simp)+
  have parts: "year = 400 * era + 100 * c + 4 * q + k + (if month \<le> 2 then 1 else 0)"
    "day = month_day (s - 365 * k)" "month = month_prime (s - 365 * k) + (if month_prime (s - 365 * k) < 10 then 3 else - 9)"
    using date by (auto simp: march_date_def Let_def)
  have "year \<le> 9999"
  proof (rule ccontr)
    assume "\<not> year \<le> 9999"
    then have last: "era = 24" "c = 3" "q = 24" "k = 3" "month \<le> 2"
      using parts(1) era bounds kb by (auto split: if_splits)
    then have "s - 365 * k \<le> 305" using d assms unfolding era_day_def by simp
    then have "month_prime (s - 365 * k) < 10"
      using zdiv_mono1[of "5 * (s - 365 * k) + 2" 1527 153] unfolding month_prime_def by simp
    then show False using last(5) parts(3) month_bounds[OF kb(3,4)] by simp
  qed
  moreover have "0 \<le> year" using parts(1) era bounds kb by simp
  moreover have "1 \<le> day" using month_day_pos[OF kb(3,4)] parts(2) by simp
  moreover have "days_from_civil year month day = int d" using days(1) d by simp
  ultimately show ?thesis
    using that[of "nat year" "nat month" "nat day"] civil days(2,3) by (auto simp: le_nat_iff nat_le_iff)
qed

text \<open>C32. Timestamps survive the round trip: what \<open>format_rfc3339_utc\<close> writes for a second up to the end of
  the year 9999 is read back by \<open>timestamp_ms\<close> as that second, in milliseconds. The two conversions are
  written independently, one from days to dates and one from dates to days.\<close>

theorem timestamp_roundtrip:
  assumes "t < 253402300800"
  shows "timestamp_ms (format_rfc3339_utc t) = Some (int t * 1000)"
proof -
  have "t div 86400 < 2932897" using assms by (simp add: less_mult_imp_div_less)
  then obtain year month day where civil: "civil_from_days (int (t div 86400)) = (int year, int month, int day)"
    and days: "days_from_civil (int year) (int month) (int day) = int (t div 86400)"
    and ranges: "year < 10000" "1 \<le> month" "month \<le> 12" "1 \<le> day" "day \<le> 31"
    by (rule civil_of_day)
  define hour where "hour = t mod 86400 div 3600"
  define minute where "minute = t mod 86400 mod 3600 div 60"
  define sec where "sec = t mod 86400 mod 60"
  define Y where "Y = pad_nat 4 year" define M where "M = pad_nat 2 month" define D where "D = pad_nat 2 day"
  define h where "h = pad_nat 2 hour" define m where "m = pad_nat 2 minute" define s where "s = pad_nat 2 sec"
  note parts = Y_def M_def D_def h_def m_def s_def
  have small: "hour < 24" "minute < 60" "sec < 60"
    unfolding hour_def minute_def sec_def by (simp_all add: less_mult_imp_div_less)
  have lengths: "length Y = 4" "length M = 2" "length D = 2" "length h = 2" "length m = 2" "length s = 2"
    unfolding parts using ranges small by (simp_all add: length_pad_nat)
  have shown: "format_rfc3339_utc t = Y @ ''-'' @ M @ ''-'' @ D @ ''T'' @ h @ '':'' @ m @ '':'' @ s @ ''Z''"
    unfolding format_rfc3339_utc_def parts hour_def minute_def sec_def by (simp add: civil Let_def)
  let ?f = "format_rfc3339_utc t"
  have "ascii ?f" unfolding shown by (simp add: parts ascii_literals del: append_Cons append_Nil)
  note slice = slice_ascii[OF this]
  have cut: "slice 0 4 ?f = Some Y" "slice 5 7 ?f = Some M" "slice 8 10 ?f = Some D" "slice 11 13 ?f = Some h"
    "slice 14 16 ?f = Some m" "slice 17 19 ?f = Some s" "slice 19 (length ?f) ?f = Some ''Z''"
    using slice[of "[]" Y] slice[of "Y @ ''-''" M] slice[of "Y @ ''-'' @ M @ ''-''" D]
      slice[of "Y @ ''-'' @ M @ ''-'' @ D @ ''T''" h] slice[of "Y @ ''-'' @ M @ ''-'' @ D @ ''T'' @ h @ '':''" m]
      slice[of "Y @ ''-'' @ M @ ''-'' @ D @ ''T'' @ h @ '':'' @ m @ '':''" s]
      slice[of "Y @ ''-'' @ M @ ''-'' @ D @ ''T'' @ h @ '':'' @ m @ '':'' @ s" "''Z''" "[]"]
    unfolding shown by (simp_all add: lengths)
  have numbers: "parse_i64 Y = Some (int year)" "parse_i64 M = Some (int month)" "parse_i64 D = Some (int day)"
    "parse_i64 h = Some (int hour)" "parse_i64 m = Some (int minute)" "parse_i64 s = Some (int sec)"
    unfolding parts using ranges small by (simp_all add: parse_i64_pad)
  have "length ?f = 20" unfolding shown by (simp add: lengths)
  then have "timestamp_ms ?f = Some ((int (t div 86400) * 86400 + int hour * 3600 + int minute * 60 + int sec) * 1000)"
    using ranges small cut numbers
    by (simp add: timestamp_ms_def utc_offset_def slice_i64_def days)
  also have "int (t div 86400) * 86400 + int hour * 3600 + int minute * 60 + int sec = int t"
  proof -
    have "t = 86400 * (t div 86400) + t mod 86400" by simp
    moreover have "t mod 86400 = 3600 * hour + t mod 86400 mod 3600" unfolding hour_def by simp
    moreover have "t mod 86400 mod 3600 mod 60 = sec" unfolding sec_def by (rule mod_mod_cancel) simp
    then have "t mod 86400 mod 3600 = 60 * minute + sec" unfolding minute_def
      by (metis mult_div_mod_eq)
    ultimately show ?thesis by linarith
  qed
  finally show ?thesis .
qed

theorem timestamp_roundtrip_witness: "timestamp_ms (format_rfc3339_utc 1767225600) = Some 1767225600000"
  using timestamp_roundtrip[of 1767225600] by simp

end
