(* ===== verification/UsageScan.thy ===== *)
theory UsageScan
  imports UsageLog "HOL-Library.List_Lexorder" "HOL-Library.Product_Lexorder" "HOL-Library.Char_ord" "HOL-Library.Multiset"
begin

section \<open>Scanning a rollout log (src/src/usage/scan.rs)\<close>

text \<open>
  A scan reads the complete lines of a file from an offset and accumulates what they say. A file is its
  bytes; a line that is not UTF-8 makes the scan fail, which is the value \<open>None\<close>. Counters saturate. A
  \<open>BTreeMap\<close> is an association list with one entry per key; where the code iterates over it the entries are
  sorted by key first.
\<close>

subsection \<open>Tallies\<close>

text \<open>\<open>accumulate\<close> of \<open>src/src/usage/scan.rs\<close>, and the pattern \<open>accumulate(map.entry(key).or_default(), usage)\<close>.\<close>

definition accumulate :: "token_usage \<Rightarrow> token_usage \<Rightarrow> token_usage" where
  "accumulate so_far addition = \<lparr>
     tu_input_tokens = sat_add (tu_input_tokens so_far) (tu_input_tokens addition),
     tu_cached_input_tokens = sat_add (tu_cached_input_tokens so_far) (tu_cached_input_tokens addition),
     tu_cache_write_input_tokens = sat_add (tu_cache_write_input_tokens so_far) (tu_cache_write_input_tokens addition),
     tu_output_tokens = sat_add (tu_output_tokens so_far) (tu_output_tokens addition),
     tu_reasoning_output_tokens = sat_add (tu_reasoning_output_tokens so_far) (tu_reasoning_output_tokens addition),
     tu_total_tokens = sat_add (tu_total_tokens so_far) (tu_total_tokens addition) \<rparr>"

definition tally :: "'k \<Rightarrow> token_usage \<Rightarrow> ('k, token_usage) hmap \<Rightarrow> ('k, token_usage) hmap" where
  "tally k usage m = hinsert k (accumulate (unwrap_or (hget m k) no_usage) usage) m"

text \<open>A map that merges a value into the entry of its key, and the merge of a list.\<close>

definition merge_in :: "('v \<Rightarrow> 'v \<Rightarrow> 'v) \<Rightarrow> 'k \<Rightarrow> 'v \<Rightarrow> ('k, 'v) hmap \<Rightarrow> ('k, 'v) hmap" where
  "merge_in f k v m = hinsert k (case hget m k of None \<Rightarrow> v | Some w \<Rightarrow> f w v) m"

definition merge_opt :: "('v \<Rightarrow> 'v \<Rightarrow> 'v) \<Rightarrow> 'v \<Rightarrow> 'v option \<Rightarrow> 'v option" where
  "merge_opt f v acc = Some (case acc of None \<Rightarrow> v | Some w \<Rightarrow> f w v)"

definition merged :: "('v \<Rightarrow> 'v \<Rightarrow> 'v) \<Rightarrow> 'v list \<Rightarrow> 'v option" where
  "merged f vs = fold (merge_opt f) vs None"

definition merge_all :: "('v \<Rightarrow> 'v \<Rightarrow> 'v) \<Rightarrow> ('k \<times> 'v) list \<Rightarrow> ('k, 'v) hmap \<Rightarrow> ('k, 'v) hmap" where
  "merge_all f entries m = fold (\<lambda>(k, v). merge_in f k v) entries m"

lemma hwf_merge_in [simp, intro]: "hwf m \<Longrightarrow> hwf (merge_in f k v m)"
  by (simp add: merge_in_def)

lemma hwf_merge_all [simp, intro]: "hwf m \<Longrightarrow> hwf (merge_all f entries m)"
  by (induction entries arbitrary: m) (auto simp: merge_all_def)

lemma hget_merge_in:
  "hget (merge_in f k v m) k' = (if k' = k then merge_opt f v (hget m k) else hget m k')"
  by (simp add: merge_in_def merge_opt_def)

lemma hget_merge_all:
  "hget (merge_all f entries m) k = fold (merge_opt f) (map snd (filter (\<lambda>e. fst e = k) entries)) (hget m k)"
proof (induction entries arbitrary: m)
  case (Cons entry entries)
  obtain k0 v where entry: "entry = (k0, v)" by fastforce
  show ?case
    using Cons[of "merge_in f k0 v m"] by (simp add: merge_all_def entry hget_merge_in)
qed (simp add: merge_all_def)

text \<open>The order of merging does not matter for an operation that is associative and commutative.\<close>

locale merging =
  fixes f :: "'v \<Rightarrow> 'v \<Rightarrow> 'v"
  assumes assoc: "f (f a b) c = f a (f b c)" and commute: "f a b = f b a"
begin

lemma left_commute: "f a (f b c) = f b (f a c)"
  by (metis assoc commute)

lemma merge_opt_commute: "merge_opt f a (merge_opt f b acc) = merge_opt f b (merge_opt f a acc)"
  by (cases acc) (simp_all add: merge_opt_def assoc commute left_commute)

lemma fold_merge_opt: "fold (merge_opt f) vs (merge_opt f a acc) = merge_opt f a (fold (merge_opt f) vs acc)"
  by (induction vs arbitrary: acc) (simp_all add: merge_opt_commute[of _ a])

lemma merged_Cons: "merged f (v # vs) = merge_opt f v (merged f vs)"
  by (simp add: merged_def fold_merge_opt)

lemma fold_merge_acc:
  "fold (merge_opt f) vs (Some w) = Some (case merged f vs of None \<Rightarrow> w | Some v \<Rightarrow> f w v)"
proof (induction vs arbitrary: w)
  case (Cons v vs)
  have "fold (merge_opt f) (v # vs) (Some w) = merge_opt f v (fold (merge_opt f) vs (Some w))"
    by (simp add: fold_merge_opt)
  also have "\<dots> = Some (case merged f (v # vs) of None \<Rightarrow> w | Some u \<Rightarrow> f w u)"
    unfolding Cons merged_Cons
    by (cases "merged f vs") (simp_all add: merge_opt_def, metis assoc commute)
  finally show ?case .
qed (simp add: merged_def)

lemma merged_perm: "mset vs = mset ws \<Longrightarrow> fold (merge_opt f) vs acc = fold (merge_opt f) ws acc"
  by (rule fun_cong[OF fold_multiset_equiv]) (auto simp: merge_opt_commute)

lemma merge_all_perm:
  assumes "mset xs = mset ys"
  shows "hget (merge_all f xs m) k = hget (merge_all f ys m) k"
proof -
  have "mset (map snd (filter (\<lambda>e. fst e = k) xs)) = mset (map snd (filter (\<lambda>e. fst e = k) ys))"
    using assms by simp
  from merged_perm[OF this] show ?thesis by (simp add: hget_merge_all)
qed

text \<open>The entries of a map together are what was merged into it.\<close>

lemma merged_update:
  assumes "hwf m"
  shows "merged f (map snd (merge_in f k v m)) = merge_opt f v (merged f (map snd m))"
proof -
  have "merged f (map snd (AList.update k (case hget m k of None \<Rightarrow> v | Some w \<Rightarrow> f w v) m))
      = merge_opt f v (merged f (map snd m))"
    using assms
  proof (induction m)
    case (Cons entry m)
    obtain k0 w where entry: "entry = (k0, w)" by fastforce
    show ?case
    proof (cases "k0 = k")
      case True
      then show ?thesis
        by (simp add: entry merged_Cons)
          (cases "merged f (map snd m)"; simp add: merge_opt_def assoc; metis assoc commute)
    next
      case False
      have "hwf m" using Cons.prems by (simp add: hwf_def entry)
      from Cons.IH[OF this] False show ?thesis
        by (simp add: entry merged_Cons merge_opt_commute)
    qed
  qed (simp add: merged_def)
  then show ?thesis by (simp add: merge_in_def)
qed

lemma merged_all:
  assumes "hwf m"
  shows "merged f (map snd (merge_all f entries m)) = fold (merge_opt f) (map snd entries) (merged f (map snd m))"
  using assms
proof (induction entries arbitrary: m)
  case (Cons entry entries)
  obtain k v where entry: "entry = (k, v)" by fastforce
  show ?case
    using Cons.IH[of "merge_in f k v m"] Cons.prems
    by (simp add: merge_all_def entry merged_update)
qed (simp add: merge_all_def)

text \<open>The same for the entries whose keys are in a class.\<close>

lemma filter_merge_in:
  "filter (\<lambda>e. P (fst e)) (merge_in f k v m) =
     (if P k then merge_in f k v (filter (\<lambda>e. P (fst e)) m) else filter (\<lambda>e. P (fst e)) m)"
proof -
  have update: "filter (\<lambda>e. P (fst e)) (AList.update k w m) =
      (if P k then AList.update k w (filter (\<lambda>e. P (fst e)) m) else filter (\<lambda>e. P (fst e)) m)" for w
    by (induction m) auto
  have "P k \<Longrightarrow> hget (filter (\<lambda>e. P (fst e)) m) k = hget m k" by (induction m) auto
  then show ?thesis by (simp add: merge_in_def update)
qed

lemma merged_all_filter:
  assumes "hwf m"
  shows "merged f (map snd (filter (\<lambda>e. P (fst e)) (merge_all f entries m))) =
    fold (merge_opt f) (map snd (filter (\<lambda>e. P (fst e)) entries)) (merged f (map snd (filter (\<lambda>e. P (fst e)) m)))"
  using assms
proof (induction entries arbitrary: m)
  case (Cons entry entries)
  obtain k v where entry: "entry = (k, v)" by fastforce
  have kept: "hwf (filter (\<lambda>e. P (fst e)) m)"
    using Cons.prems by (simp add: hwf_def distinct_map_filter)
  show ?case
    using Cons.IH[of "merge_in f k v m"] Cons.prems
    by (simp add: merge_all_def entry filter_merge_in merged_update[OF kept])
qed (simp add: merge_all_def)

end

lemma fold_merge_all: "fold (\<lambda>x. merge_all f (entries_of x)) xs m = merge_all f (concat (map entries_of xs)) m"
  by (induction xs arbitrary: m) (simp_all add: merge_all_def)

definition clip_usage :: "token_usage \<Rightarrow> token_usage" where
  "clip_usage usage = accumulate no_usage usage"

lemma sat_add_assoc: "sat_add (sat_add a b) c = sat_add a (sat_add b c)"
  by (simp add: sat_add_def)

lemma sat_add_commute: "sat_add a b = sat_add b a"
  by (simp add: sat_add_def add.commute)

lemma sat_add_clip: "sat_add a (sat_add 0 b) = sat_add a b"
  by (simp add: sat_add_def)

lemma accumulate_assoc: "accumulate (accumulate a b) c = accumulate a (accumulate b c)"
  by (simp add: accumulate_def sat_add_assoc)

lemma accumulate_commute: "accumulate a b = accumulate b a"
  by (simp add: accumulate_def sat_add_commute)

interpretation usage_merge: merging accumulate
  by unfold_locales (fact accumulate_assoc accumulate_commute)+

interpretation peak_merge: merging "max :: 'a::linorder \<Rightarrow> 'a \<Rightarrow> 'a"
  by unfold_locales (simp_all add: ac_simps)

lemma accumulate_clip [simp]: "accumulate so_far (clip_usage usage) = accumulate so_far usage"
  by (simp add: accumulate_def clip_usage_def no_usage_def sat_add_clip)

lemma tally_merge: "tally k usage m = merge_in accumulate k (clip_usage usage) m"
  by (cases "hget m k") (simp_all add: tally_def merge_in_def, simp add: clip_usage_def)

subsection \<open>Names\<close>

definition ROLLOUT_PREFIX :: string where "ROLLOUT_PREFIX = ''rollout-''"

definition ROLLOUT_SUFFIX :: string where "ROLLOUT_SUFFIX = ''.jsonl''"

definition DEFAULT_CODEX_MODEL :: string where "DEFAULT_CODEX_MODEL = ''codex''"

definition LEGACY_PROVIDER :: string where "LEGACY_PROVIDER = ''legacy''"

text \<open>A path is the list of its components.\<close>

type_synonym path = "string list"

definition file_name :: "path \<Rightarrow> string option" where
  "file_name p = (if p = [] then None else Some (last p))"

definition is_rollout_file :: "path \<Rightarrow> bool" where
  "is_rollout_file p =
     (case file_name p of
        None \<Rightarrow> False
      | Some name \<Rightarrow> starts_with ROLLOUT_PREFIX name \<and> starts_with (rev ROLLOUT_SUFFIX) (rev name))"

definition is_ascii_digit :: "char \<Rightarrow> bool" where
  "is_ascii_digit c \<longleftrightarrow> 48 \<le> (of_char c :: nat) \<and> (of_char c :: nat) \<le> 57"

definition session_date_from_timestamp :: "string \<Rightarrow> string option" where
  "session_date_from_timestamp timestamp =
     Option.bind (slice 0 10 timestamp) (\<lambda>date.
       if date ! 4 \<noteq> CHR ''-'' \<or> date ! 7 \<noteq> CHR ''-'' then None
       else if \<not> list_all (\<lambda>i. i = 4 \<or> i = 7 \<or> is_ascii_digit (date ! i)) [0..<10] then None
       else Some date)"

definition rollout_day_from_path :: "path \<Rightarrow> string option" where
  "rollout_day_from_path p =
     (let named = Option.bind (file_name (butlast p)) (\<lambda>day.
            Option.bind (file_name (butlast (butlast p))) (\<lambda>month.
            Option.bind (file_name (butlast (butlast (butlast p)))) (\<lambda>year.
              session_date_from_timestamp (year @ ''-'' @ month @ ''-'' @ day))))
      in case named of
           Some date \<Rightarrow> Some date
         | None \<Rightarrow> Option.bind (Option.bind (Option.bind (file_name p) (strip_prefix ROLLOUT_PREFIX)) (slice 0 10))
                     session_date_from_timestamp)"

definition project_name :: "string \<Rightarrow> string option" where
  "project_name cwd =
     List.find (\<lambda>segment. segment \<noteq> []) (rev (split_at_char (CHR ''/'') (rev (dropWhile (\<lambda>c. c = CHR ''/'') (rev cwd)))))"

subsection \<open>The state of a scan\<close>

datatype quota_kind = Primary | Secondary

instantiation quota_kind :: linorder
begin

definition less_eq_quota_kind :: "quota_kind \<Rightarrow> quota_kind \<Rightarrow> bool" where
  "less_eq_quota_kind a b \<longleftrightarrow> a = Primary \<or> b = Secondary"

definition less_quota_kind :: "quota_kind \<Rightarrow> quota_kind \<Rightarrow> bool" where
  "less_quota_kind a b \<longleftrightarrow> a = Primary \<and> b = Secondary"

instance
proof
  fix x y z :: quota_kind
  show "(x < y) = (x \<le> y \<and> \<not> y \<le> x)" by (cases x; cases y) (auto simp: less_eq_quota_kind_def less_quota_kind_def)
  show "x \<le> x" by (cases x) (auto simp: less_eq_quota_kind_def)
  show "x \<le> y \<Longrightarrow> y \<le> z \<Longrightarrow> x \<le> z" by (auto simp: less_eq_quota_kind_def)
  show "x \<le> y \<Longrightarrow> y \<le> x \<Longrightarrow> x = y" by (auto simp: less_eq_quota_kind_def)
  show "x \<le> y \<or> y \<le> x" by (cases x; cases y) (auto simp: less_eq_quota_kind_def)
qed

end

record replay_key =
  rk_session_id :: string
  rk_model :: string
  rk_input :: nat
  rk_cached :: nat
  rk_output :: nat
  rk_total :: nat
  rk_cumulative :: "nat \<times> nat \<times> nat \<times> nat \<times> nat"

definition replay_key_of :: "string option \<Rightarrow> string option \<Rightarrow> token_count \<Rightarrow> replay_key option" where
  "replay_key_of session_id model sample =
     Option.bind session_id (\<lambda>session_id.
       map_option (\<lambda>cumulative.
         \<lparr> rk_session_id = session_id, rk_model = unwrap_or model [],
           rk_input = tu_input_tokens (tk_usage sample), rk_cached = tu_cached_input_tokens (tk_usage sample),
           rk_output = tu_output_tokens (tk_usage sample), rk_total = tu_total_tokens (tk_usage sample),
           rk_cumulative = (tu_input_tokens cumulative, tu_cached_input_tokens cumulative,
             tu_output_tokens cumulative, tu_reasoning_output_tokens cumulative, tu_total_tokens cumulative) \<rparr>)
         (tk_cumulative sample))"

record session_scan =
  ss_meta :: session_meta
  ss_usage :: token_usage
  ss_rate_limits :: rate_limits
  ss_context_window :: "nat option"
  ss_quota_observed_at :: "string option"
  ss_quota_minutes :: "(int \<times> quota_kind, rat) hmap"
  ss_quota_history :: "(string \<times> quota_kind, rat) hmap"
  ss_settings :: "thread_settings option"
  ss_hourly :: "(nat, token_usage) hmap"
  ss_seen_replays :: "replay_key set"
  ss_minutely :: "(int, token_usage) hmap"
  ss_models :: "(string, token_usage) hmap"
  ss_providers :: "(string, token_usage) hmap"
  ss_turn_context :: "turn_context option"
  ss_by_model_provider :: "(string \<times> string, token_usage) hmap"
  ss_samples :: nat

definition no_meta :: session_meta where
  "no_meta = \<lparr> sm_session_id = None, sm_thread_id = None, sm_cwd = None, sm_originator = None,
     sm_started_at = None, sm_provider = None \<rparr>"

definition empty_scan :: session_scan where
  "empty_scan = \<lparr> ss_meta = no_meta, ss_usage = no_usage, ss_rate_limits = no_rate_limits, ss_context_window = None,
     ss_quota_observed_at = None, ss_quota_minutes = [], ss_quota_history = [], ss_settings = None, ss_hourly = [],
     ss_seen_replays = {}, ss_minutely = [], ss_models = [], ss_providers = [], ss_turn_context = None,
     ss_by_model_provider = [], ss_samples = 0 \<rparr>"

definition effective_model :: "session_scan \<Rightarrow> string option" where
  "effective_model scan =
     opt_or (Option.bind (ss_settings scan) ts_model) (Option.bind (ss_turn_context scan) tx_model)"

definition attributed_model :: "session_scan \<Rightarrow> string" where
  "attributed_model scan = unwrap_or (effective_model scan) DEFAULT_CODEX_MODEL"

definition attributed_provider :: "session_scan \<Rightarrow> string" where
  "attributed_provider scan =
     unwrap_or (opt_or (Option.bind (ss_settings scan) ts_provider) (sm_provider (ss_meta scan))) LEGACY_PROVIDER"

definition scan_project :: "session_scan \<Rightarrow> string option" where
  "scan_project scan =
     Option.bind (opt_or (sm_cwd (ss_meta scan)) (Option.bind (ss_turn_context scan) tx_cwd)) project_name"

definition merge_meta :: "session_meta \<Rightarrow> session_meta \<Rightarrow> session_meta" where
  "merge_meta existing update = \<lparr>
     sm_session_id = opt_or (sm_session_id update) (sm_session_id existing),
     sm_thread_id = opt_or (sm_thread_id update) (sm_thread_id existing),
     sm_cwd = opt_or (sm_cwd update) (sm_cwd existing),
     sm_originator = opt_or (sm_originator update) (sm_originator existing),
     sm_started_at = opt_or (sm_started_at existing) (sm_started_at update),
     sm_provider = opt_or (sm_provider update) (sm_provider existing) \<rparr>"

subsection \<open>Reading a file\<close>

text \<open>The counters of a sample that is no replay.\<close>

definition count_usage :: "token_count \<Rightarrow> session_scan \<Rightarrow> session_scan" where
  "count_usage sample scan =
     (let usage = tk_usage sample;
          model = attributed_model scan;
          provider = attributed_provider scan
      in scan\<lparr>
           ss_samples := ss_samples scan + 1,
           ss_usage := accumulate (ss_usage scan) usage,
           ss_hourly := (case Option.bind (tk_timestamp sample) hour_of_day of
               None \<Rightarrow> ss_hourly scan | Some hour \<Rightarrow> tally hour usage (ss_hourly scan)),
           ss_minutely := (case Option.bind (tk_timestamp sample) epoch_minute of
               None \<Rightarrow> ss_minutely scan | Some minute \<Rightarrow> tally minute usage (ss_minutely scan)),
           ss_models := tally model usage (ss_models scan),
           ss_providers := tally provider usage (ss_providers scan),
           ss_by_model_provider := tally (model, provider) usage (ss_by_model_provider scan),
           ss_context_window := opt_or (tk_model_context_window sample) (ss_context_window scan)\<rparr>)"

definition record_quota ::
  "string \<Rightarrow> int option \<Rightarrow> quota_kind \<times> rate_limit_window option \<Rightarrow> session_scan \<Rightarrow> session_scan" where
  "record_quota day minute entry scan =
     (case snd entry of
        None \<Rightarrow> scan
      | Some quota_window \<Rightarrow>
          scan\<lparr>
            ss_quota_history := hinsert (day, fst entry) (rw_used_percent quota_window) (ss_quota_history scan),
            ss_quota_minutes := (case minute of
                None \<Rightarrow> ss_quota_minutes scan
              | Some minute \<Rightarrow> hinsert (minute, fst entry) (rw_used_percent quota_window) (ss_quota_minutes scan))\<rparr>)"

definition observe_quota :: "token_count \<Rightarrow> session_scan \<Rightarrow> session_scan" where
  "observe_quota sample scan =
     (let limits = tk_rate_limits sample
      in if \<not> has_window limits then scan
         else
           let scan = scan\<lparr>ss_quota_observed_at := tk_timestamp sample\<rparr>;
               scan = (case Option.bind (tk_timestamp sample) session_date_from_timestamp of
                   None \<Rightarrow> scan
                 | Some day \<Rightarrow>
                     fold (record_quota day (Option.bind (tk_timestamp sample) epoch_minute))
                       [(Primary, rl_primary limits), (Secondary, rl_secondary limits)] scan)
           in scan\<lparr>ss_rate_limits := limits\<rparr>)"

definition scan_count :: "token_count \<Rightarrow> session_scan \<Rightarrow> session_scan" where
  "scan_count sample scan =
     (case replay_key_of (sm_session_id (ss_meta scan)) (effective_model scan) sample of
        Some key \<Rightarrow>
          if key \<in> ss_seen_replays scan then scan
          else observe_quota sample (count_usage sample (scan\<lparr>ss_seen_replays := insert key (ss_seen_replays scan)\<rparr>))
      | None \<Rightarrow> observe_quota sample (count_usage sample scan))"

fun scan_event :: "rollout_event \<Rightarrow> session_scan \<Rightarrow> session_scan" where
  "scan_event (MetaEvent meta) scan = scan\<lparr>ss_meta := merge_meta (ss_meta scan) meta\<rparr>"
| "scan_event (CountEvent sample) scan = scan_count sample scan"
| "scan_event (SettingsEvent settings) scan = scan\<lparr>ss_settings := Some settings\<rparr>"
| "scan_event (ContextEvent context) scan = scan\<lparr>ss_turn_context := Some context\<rparr>"

text \<open>\<open>BufRead::read_line\<close>: up to and with the line feed, or to the end.\<close>

definition NL :: char where "NL = CHR 0x0A"

definition first_line :: "string \<Rightarrow> string" where
  "first_line s = takeWhile (\<lambda>c. c \<noteq> NL) s @ (if NL \<in> set s then [NL] else [])"

lemma first_line_prefix: "s = first_line s @ drop (length (first_line s)) s"
proof (cases "NL \<in> set s")
  case True
  then obtain a b where "s = a @ NL # b" "NL \<notin> set a" by (metis split_list_first)
  then have "takeWhile (\<lambda>c. c \<noteq> NL) s = a" by (subst \<open>s = _\<close>, subst takeWhile_append2) auto
  with \<open>s = a @ NL # b\<close> show ?thesis by (simp add: first_line_def)
next
  case False
  then have whole: "takeWhile (\<lambda>c. c \<noteq> NL) s = s" by (subst takeWhile_eq_all_conv) blast
  show ?thesis unfolding first_line_def whole using False by simp
qed

lemma first_line_empty [simp]: "first_line s = [] \<longleftrightarrow> s = []"
  by (cases s) (auto simp: first_line_def)

text \<open>\<open>utf8\<close> says whether bytes are UTF-8, \<open>event\<close> is \<open>parse_record\<close> with its library arguments.\<close>

function read_loop ::
  "(string \<Rightarrow> bool) \<Rightarrow> (string \<Rightarrow> rollout_event option) \<Rightarrow> string \<Rightarrow> session_scan \<Rightarrow> nat \<Rightarrow> (session_scan \<times> nat) option" where
  "read_loop utf8 event rest scan consumed =
     (if rest = [] then Some (scan, consumed)
      else let read = first_line rest
           in if \<not> utf8 read then None
              else if last read \<noteq> NL then Some (scan, consumed)
              else read_loop utf8 event (drop (length read) rest)
                     (case event read of None \<Rightarrow> scan | Some e \<Rightarrow> scan_event e scan) (consumed + length read))"
  by pat_completeness auto
termination
  by (relation "measure (\<lambda>(utf8, event, rest, scan, consumed). length rest)") (auto simp: Let_def)

declare read_loop.simps [simp del]

definition scan_from ::
  "(string \<Rightarrow> bool) \<Rightarrow> (string \<Rightarrow> rollout_event option) \<Rightarrow> string \<Rightarrow> nat \<Rightarrow> (session_scan \<times> nat) option" where
  "scan_from utf8 event content offset =
     (let start = min offset (length content)
      in read_loop utf8 event (drop start content) empty_scan start)"

subsection \<open>Totals of a day\<close>

record daily_usage =
  du_date :: string
  du_usage :: token_usage
  du_sessions :: nat

text \<open>The plain \<open>+=\<close> of the release build wraps.\<close>

definition wrapping_add :: "nat \<Rightarrow> nat \<Rightarrow> nat" where "wrapping_add a b = (a + b) mod 2 ^ 64"

definition add_wrapping :: "token_usage \<Rightarrow> token_usage \<Rightarrow> token_usage" where
  "add_wrapping so_far addition = \<lparr>
     tu_input_tokens = wrapping_add (tu_input_tokens so_far) (tu_input_tokens addition),
     tu_cached_input_tokens = wrapping_add (tu_cached_input_tokens so_far) (tu_cached_input_tokens addition),
     tu_cache_write_input_tokens = wrapping_add (tu_cache_write_input_tokens so_far) (tu_cache_write_input_tokens addition),
     tu_output_tokens = wrapping_add (tu_output_tokens so_far) (tu_output_tokens addition),
     tu_reasoning_output_tokens = wrapping_add (tu_reasoning_output_tokens so_far) (tu_reasoning_output_tokens addition),
     tu_total_tokens = wrapping_add (tu_total_tokens so_far) (tu_total_tokens addition) \<rparr>"

definition add_to_day :: "string \<times> session_scan \<Rightarrow> (string, daily_usage) hmap \<Rightarrow> (string, daily_usage) hmap" where
  "add_to_day entry days =
     (let (date, scan) = entry;
          day = unwrap_or (hget days date) \<lparr> du_date = date, du_usage = no_usage, du_sessions = 0 \<rparr>
      in hinsert date (day\<lparr>du_usage := add_wrapping (du_usage day) (ss_usage scan), du_sessions := du_sessions day + 1\<rparr>) days)"

definition aggregate_by_day :: "(string \<times> session_scan) list \<Rightarrow> daily_usage list" where
  "aggregate_by_day scans = rev (sort_key du_date (map snd (fold add_to_day scans [])))"

subsection \<open>What a scan reads\<close>

text \<open>The reference: the pieces between line feeds. All but the last are complete lines.\<close>

definition complete_lines :: "string \<Rightarrow> string list" where
  "complete_lines s = map (\<lambda>piece. piece @ [NL]) (butlast (split_at_char NL s))"

definition unfinished_line :: "string \<Rightarrow> string" where
  "unfinished_line s = last (split_at_char NL s)"

definition readable_lines :: "(string \<Rightarrow> bool) \<Rightarrow> string \<Rightarrow> bool" where
  "readable_lines utf8 s \<longleftrightarrow> (\<forall>l \<in> set (complete_lines s). utf8 l) \<and> (unfinished_line s \<noteq> [] \<longrightarrow> utf8 (unfinished_line s))"

definition scan_line :: "(string \<Rightarrow> rollout_event option) \<Rightarrow> string \<Rightarrow> session_scan \<Rightarrow> session_scan" where
  "scan_line event l scan = (case event l of None \<Rightarrow> scan | Some e \<Rightarrow> scan_event e scan)"

lemma lines_none:
  assumes "NL \<notin> set s"
  shows "complete_lines s = []" and "unfinished_line s = s"
  using assms by (simp_all add: complete_lines_def unfinished_line_def split_at_char_none)

lemma lines_at:
  assumes "NL \<notin> set p"
  shows "complete_lines (p @ NL # s) = (p @ [NL]) # complete_lines s"
    and "unfinished_line (p @ NL # s) = unfinished_line s"
  using assms by (simp_all add: complete_lines_def unfinished_line_def split_at_char_at)

lemma first_line_none: "NL \<notin> set s \<Longrightarrow> first_line s = s"
  using first_line_prefix[of s] by (auto simp: first_line_def takeWhile_eq_all_conv)

lemma first_line_at: "NL \<notin> set p \<Longrightarrow> first_line (p @ NL # s) = p @ [NL]"
  unfolding first_line_def by (subst takeWhile_append2) auto

lemma line_cases:
  obtains (unfinished) "NL \<notin> set s" | (complete) p t where "s = p @ NL # t" "NL \<notin> set p"
  by (cases "NL \<in> set s") (auto dest: split_list_first)

lemma read_loop_reads:
  "read_loop utf8 event s scan consumed =
     (if readable_lines utf8 s
      then Some (fold (scan_line event) (complete_lines s) scan, consumed + length (concat (complete_lines s)))
      else None)"
proof (induction s arbitrary: scan consumed rule: length_induct)
  case (1 s)
  show ?case
  proof (cases s rule: line_cases)
    case unfinished
    then have "s \<noteq> [] \<Longrightarrow> last s \<noteq> NL" using last_in_set by metis
    then show ?thesis
      by (subst read_loop.simps) (auto simp: readable_lines_def lines_none[OF unfinished] first_line_none[OF unfinished])
  next
    case (complete p t)
    have "length t < length s" using complete(1) by simp
    note IH = 1[rule_format, OF this]
    have "readable_lines utf8 s \<longleftrightarrow> utf8 (p @ [NL]) \<and> readable_lines utf8 t"
      using complete by (auto simp: readable_lines_def lines_at)
    then show ?thesis
      using complete IH
      by (subst read_loop.simps) (simp add: first_line_at lines_at scan_line_def Let_def)
  qed
qed

lemma lines_together: "concat (complete_lines s) @ unfinished_line s = s"
proof (induction s rule: length_induct)
  case (1 s)
  show ?case
  proof (cases s rule: line_cases)
    case (complete p t)
    then have "length t < length s" by simp
    then show ?thesis using 1 complete by (simp add: lines_at)
  qed (simp add: lines_none)
qed

lemma lines_append:
  "complete_lines (s @ extra) = complete_lines s @ complete_lines (unfinished_line s @ extra) \<and>
   unfinished_line (s @ extra) = unfinished_line (unfinished_line s @ extra)"
proof (induction s rule: length_induct)
  case (1 s)
  show ?case
  proof (cases s rule: line_cases)
    case (complete p t)
    then have "length t < length s" by simp
    then show ?thesis using 1 complete by (simp add: lines_at)
  qed (simp add: lines_none)
qed

lemma scan_from_reads:
  "scan_from utf8 event content offset =
     (let unread = drop (min offset (length content)) content
      in if readable_lines utf8 unread
         then Some (fold (scan_line event) (complete_lines unread) empty_scan,
                    min offset (length content) + length (concat (complete_lines unread)))
         else None)"
  by (simp add: scan_from_def read_loop_reads Let_def)

text \<open>A scan fails exactly when a line, the unfinished last one included, is not UTF-8.\<close>

lemma scan_fails_exactly:
  "scan_from utf8 event content offset = None \<longleftrightarrow>
     \<not> readable_lines utf8 (drop (min offset (length content)) content)"
  by (simp add: scan_from_reads Let_def)

text \<open>C29. An incremental scan reads every complete line exactly once. When a file was scanned from an offset and
  has grown since, a scan from the returned offset reads exactly the complete lines the first one did not: the
  lines of the two scans together are the complete lines from the first offset on, the last line without a
  line feed is left for later, and scanning all at once ends at the same place. A scan starts from nothing, so
  the second one knows neither the session nor the settings of the first.\<close>

theorem resumed_scan_reads_the_rest:
  assumes "scan_from utf8 event content offset = Some (scan1, consumed1)" and "offset \<le> length content"
    and "scan_from utf8 event (content @ extra) consumed1 = Some (scan2, consumed2)"
  shows "\<exists>earlier later. scan1 = fold (scan_line event) earlier empty_scan \<and> scan2 = fold (scan_line event) later empty_scan \<and>
      earlier = complete_lines (drop offset content) \<and> earlier @ later = complete_lines (drop offset (content @ extra)) \<and>
      offset \<le> consumed1 \<and> consumed1 \<le> consumed2 \<and>
      consumed2 + length (unfinished_line (drop offset (content @ extra))) = length (content @ extra) \<and>
      scan_from utf8 event (content @ extra) offset = Some (fold (scan_line event) (earlier @ later) empty_scan, consumed2)"
proof -
  let ?unread = "drop offset content"
  have first: "readable_lines utf8 ?unread" "scan1 = fold (scan_line event) (complete_lines ?unread) empty_scan"
    "consumed1 = offset + length (concat (complete_lines ?unread))"
    using assms(1,2) by (auto simp: scan_from_reads Let_def split: if_splits)
  have len: "length (concat (complete_lines ?unread)) + length (unfinished_line ?unread) = length ?unread"
    by (metis length_append lines_together)
  then have within: "consumed1 \<le> length content" using first(3) assms(2) by simp
  have "drop (length (concat (complete_lines ?unread))) ?unread = unfinished_line ?unread"
    by (metis append_eq_conv_conj lines_together)
  then have rest: "drop consumed1 (content @ extra) = unfinished_line ?unread @ extra"
    using within by (simp add: first(3) add.commute)
  have second: "readable_lines utf8 (unfinished_line ?unread @ extra)"
    "scan2 = fold (scan_line event) (complete_lines (unfinished_line ?unread @ extra)) empty_scan"
    "consumed2 = consumed1 + length (concat (complete_lines (unfinished_line ?unread @ extra)))"
    using assms(3) within rest by (auto simp: scan_from_reads Let_def split: if_splits)
  note whole = lines_append[of ?unread extra]
  have unread: "drop offset (content @ extra) = ?unread @ extra" using assms(2) by simp
  have readable: "readable_lines utf8 (?unread @ extra)"
    using first(1) second(1) whole by (auto simp: readable_lines_def)
  have ends: "length (concat (complete_lines (?unread @ extra))) + length (unfinished_line (?unread @ extra)) =
      length (?unread @ extra)"
    by (metis length_append lines_together)
  have "scan_from utf8 event (content @ extra) offset =
      Some (fold (scan_line event) (complete_lines (?unread @ extra)) empty_scan, consumed2)"
    using assms(2) readable unread whole first(3) second(3) by (simp add: scan_from_reads Let_def)
  moreover have "consumed2 + length (unfinished_line (?unread @ extra)) = length (content @ extra)"
    using ends assms(2) whole first(3) second(3) by simp
  ultimately show "\<exists>earlier later. scan1 = fold (scan_line event) earlier empty_scan \<and> scan2 = fold (scan_line event) later empty_scan \<and>
      earlier = complete_lines (drop offset content) \<and> earlier @ later = complete_lines (drop offset (content @ extra)) \<and>
      offset \<le> consumed1 \<and> consumed1 \<le> consumed2 \<and>
      consumed2 + length (unfinished_line (drop offset (content @ extra))) = length (content @ extra) \<and>
      scan_from utf8 event (content @ extra) offset = Some (fold (scan_line event) (earlier @ later) empty_scan, consumed2)"
    unfolding unread using first(2,3) second(2,3) whole
    by (intro exI[of _ "complete_lines ?unread"] exI[of _ "complete_lines (unfinished_line ?unread @ extra)"]) simp
qed

text \<open>The first two lines are scanned, the third is finished later.\<close>

definition sample_log :: string where "sample_log = ''a'' @ [NL] @ ''b'' @ [NL] @ ''c''"

theorem resumed_scan_reads_the_rest_witness:
  "scan_from (\<lambda>_. True) (\<lambda>_. None) (sample_log @ ''d'' @ [NL]) 0 = Some (empty_scan, 7)"
proof -
  have first: "scan_from (\<lambda>_. True) (\<lambda>_. None) sample_log 0 = Some (empty_scan, 4)"
    by (simp add: scan_from_def sample_log_def read_loop.simps first_line_def NL_def)
  have second: "scan_from (\<lambda>_. True) (\<lambda>_. None) (sample_log @ ''d'' @ [NL]) 4 = Some (empty_scan, 7)"
    by (simp add: scan_from_def sample_log_def read_loop.simps first_line_def NL_def)
  from resumed_scan_reads_the_rest[OF first _ second]
  obtain ls where "scan_from (\<lambda>_. True) (\<lambda>_. None) (sample_log @ ''d'' @ [NL]) 0
      = Some (fold (scan_line (\<lambda>_. None)) ls empty_scan, 7)"
    by auto
  moreover have "fold (scan_line (\<lambda>_. None)) ls empty_scan = empty_scan" for ls
    by (induction ls) (simp_all add: scan_line_def)
  ultimately show ?thesis by simp
qed

subsection \<open>What a scan counts\<close>

definition scan_inv :: "session_scan \<Rightarrow> bool" where
  "scan_inv scan \<longleftrightarrow> hwf (ss_models scan) \<and> hwf (ss_providers scan) \<and> hwf (ss_by_model_provider scan) \<and>
     hwf (ss_hourly scan) \<and> hwf (ss_minutely scan) \<and> hwf (ss_quota_minutes scan) \<and> hwf (ss_quota_history scan) \<and>
     (ss_samples scan = 0 \<longrightarrow> ss_usage scan = no_usage) \<and>
     (\<forall>parts \<in> {map snd (ss_models scan), map snd (ss_providers scan), map snd (ss_by_model_provider scan)}.
        merged accumulate parts = (if ss_samples scan = 0 then None else Some (ss_usage scan)))"

lemma hwf_tally [simp, intro]: "hwf m \<Longrightarrow> hwf (tally k usage m)"
  by (simp add: tally_def)

lemma merged_tally:
  assumes "hwf m" and "merged accumulate (map snd m) = (if n = 0 then None else Some usage)"
    and "n = 0 \<longrightarrow> usage = no_usage"
  shows "merged accumulate (map snd (tally k more_usage m)) = Some (accumulate usage more_usage)"
  unfolding tally_merge usage_merge.merged_update[OF assms(1)] assms(2)
  using assms(3) by (cases "n = 0") (simp_all add: merge_opt_def, simp add: clip_usage_def)

lemma count_usage_inv: "scan_inv scan \<Longrightarrow> scan_inv (count_usage sample scan)"
  by (auto simp: scan_inv_def count_usage_def Let_def merged_tally split: option.split)

lemma record_quota_inv: "scan_inv scan \<Longrightarrow> scan_inv (record_quota day minute entry scan)"
  by (simp add: scan_inv_def record_quota_def split: option.split)

lemma observe_quota_inv: "scan_inv scan \<Longrightarrow> scan_inv (observe_quota sample scan)"
proof -
  assume "scan_inv scan"
  then have stamped: "scan_inv (scan\<lparr>ss_quota_observed_at := stamp\<rparr>)" for stamp by (simp add: scan_inv_def)
  have limited: "scan_inv s \<Longrightarrow> scan_inv (s\<lparr>ss_rate_limits := limits\<rparr>)" for s limits by (simp add: scan_inv_def)
  show ?thesis
    using \<open>scan_inv scan\<close> by (auto simp: observe_quota_def Let_def intro!: limited record_quota_inv stamped split: option.split)
qed

lemma scan_event_inv: "scan_inv scan \<Longrightarrow> scan_inv (scan_event e scan)"
proof (cases e)
  case (CountEvent sample)
  assume inv: "scan_inv scan"
  then have "scan_inv (scan\<lparr>ss_seen_replays := seen\<rparr>)" for seen by (simp add: scan_inv_def)
  then show ?thesis
    using inv CountEvent by (auto simp: scan_count_def intro: observe_quota_inv count_usage_inv split: option.split)
qed (simp_all add: scan_inv_def)

lemma scan_lines_inv: "scan_inv scan \<Longrightarrow> scan_inv (fold (scan_line event) ls scan)"
  by (induction ls arbitrary: scan) (auto simp: scan_line_def intro: scan_event_inv split: option.split)

lemma empty_scan_inv: "scan_inv empty_scan"
  by (simp add: scan_inv_def empty_scan_def merged_def)

lemma scan_from_inv: "scan_from utf8 event content offset = Some (scan, consumed) \<Longrightarrow> scan_inv scan"
  by (auto simp: scan_from_reads Let_def intro!: scan_lines_inv empty_scan_inv split: if_splits)

text \<open>A turn that was counted is not counted again while the session and the model stay the same.\<close>

lemma scan_event_seen: "ss_seen_replays scan \<subseteq> ss_seen_replays (scan_event e scan)"
proof -
  have quota: "ss_seen_replays (observe_quota sample s) = ss_seen_replays s" for sample s
    by (auto simp: observe_quota_def record_quota_def Let_def split: option.split)
  show ?thesis
    by (cases e) (auto simp: scan_count_def quota count_usage_def Let_def split: option.split)
qed

lemma scan_events_seen: "ss_seen_replays scan \<subseteq> ss_seen_replays (fold scan_event es scan)"
  by (induction es arbitrary: scan) (auto dest: subsetD[OF scan_event_seen])

lemma replay_counted_once:
  assumes "replay_key_of (sm_session_id (ss_meta scan)) (effective_model scan) sample = Some key"
    and "later = fold scan_event es (scan_event (CountEvent sample) scan)"
    and "replay_key_of (sm_session_id (ss_meta later)) (effective_model later) sample = Some key"
  shows "scan_event (CountEvent sample) later = later"
proof -
  have quota: "ss_seen_replays (observe_quota sample s) = ss_seen_replays s" for s
    by (auto simp: observe_quota_def record_quota_def Let_def split: option.split)
  have "key \<in> ss_seen_replays (scan_event (CountEvent sample) scan)"
    using assms(1) by (auto simp: scan_count_def quota count_usage_def Let_def)
  then have "key \<in> ss_seen_replays later" unfolding assms(2) using scan_events_seen by blast
  then show ?thesis using assms(3) by (simp add: scan_count_def)
qed

end
