(* ===== verification/UsageCost.thy ===== *)
theory UsageCost
  imports UsageLog
begin

section \<open>Prices of usage (src/src/usage/cost.rs)\<close>

text \<open>
  A model name is matched against a table of prices, in order, by substring; the user's own table comes first.
  The literals of the source are the nearest \<open>f64\<close> of a decimal with at most three places, so they are written
  in thousandths. What the user's file holds is an argument: \<open>None\<close> when there is none or it is malformed.
\<close>

record pricing =
  pr_input :: rat
  pr_output :: rat
  pr_cached_input :: rat

definition pricing_new :: "nat \<Rightarrow> nat \<Rightarrow> nat \<Rightarrow> pricing" where
  "pricing_new input_thousandths output_thousandths cached_thousandths = \<lparr>
     pr_input = round_rat (of_nat input_thousandths / 1000), pr_output = round_rat (of_nat output_thousandths / 1000),
     pr_cached_input = round_rat (of_nat cached_thousandths / 1000) \<rparr>"

definition DEFAULT_PRICING :: pricing where "DEFAULT_PRICING = pricing_new 2500 15000 250"

definition PRICING :: "(string \<times> pricing) list" where
  "PRICING =
     [(''gpt-5.6-sol'', pricing_new 5000 30000 500),
      (''gpt-5.6-terra'', pricing_new 2500 15000 250),
      (''gpt-5.6-luna'', pricing_new 1000 6000 100),
      (''gpt-5.6'', pricing_new 5000 30000 500),
      (''gpt-5.5-pro'', pricing_new 30000 180000 0),
      (''gpt-5.5'', pricing_new 5000 30000 500),
      (''gpt-5.4-pro'', pricing_new 30000 180000 0),
      (''gpt-5.4-nano'', pricing_new 200 1250 20),
      (''gpt-5.4-mini'', pricing_new 750 4500 75),
      (''gpt-5.4'', pricing_new 2500 15000 250),
      (''gpt-5.3-codex'', pricing_new 1750 14000 175),
      (''gpt-5.3'', pricing_new 1750 14000 175),
      (''gpt-5.2-codex'', pricing_new 1750 14000 175),
      (''gpt-5.2'', pricing_new 1250 10000 125),
      (''gpt-5.1-codex-max'', pricing_new 1250 10000 125),
      (''gpt-5.1-codex-mini'', pricing_new 250 2000 25),
      (''gpt-5.1-codex'', pricing_new 1250 10000 125),
      (''gpt-5.1'', pricing_new 625 5000 125),
      (''gpt-5-codex'', pricing_new 1250 10000 125),
      (''gpt-5-mini'', pricing_new 125 1000 25),
      (''gpt-5-nano'', pricing_new 50 400 5),
      (''gpt-5'', pricing_new 1250 10000 125),
      (''gpt-4.1-mini'', pricing_new 400 1600 100),
      (''gpt-4.1'', pricing_new 2000 8000 500),
      (''o4-mini'', pricing_new 1100 4400 550),
      (''o3'', pricing_new 400 1600 200),
      (''codex-mini'', pricing_new 1500 6000 25)]"

definition VENDOR_PREFIXES :: "string list" where
  "VENDOR_PREFIXES = [''anthropic'', ''openai'', ''azure'', ''bedrock'', ''vertex'', ''google'', ''xai'', ''moonshot'',
     ''zhipu'', ''kiro'', ''litellm'', ''omniroute'', ''openrouter'']"

definition to_lower :: "char \<Rightarrow> char" where
  "to_lower c = (let n = (of_char c :: nat) in if 65 \<le> n \<and> n \<le> 90 then char_of (n + 32) else c)"

definition split_at_first :: "char \<Rightarrow> string \<Rightarrow> (string \<times> string) option" where
  "split_at_first sep s =
     (if sep \<in> set s then Some (takeWhile (\<lambda>c. c \<noteq> sep) s, tl (dropWhile (\<lambda>c. c \<noteq> sep) s)) else None)"

definition canonical_model :: "string \<Rightarrow> string" where
  "canonical_model model =
     (let lowered = map to_lower (trim model)
      in case split_at_first (CHR ''/'') lowered of
           Some (vendor, rest) \<Rightarrow> if vendor \<in> set VENDOR_PREFIXES then rest else lowered
         | None \<Rightarrow> lowered)"

definition pricing_for :: "(string \<times> pricing) list option \<Rightarrow> string \<Rightarrow> pricing" where
  "pricing_for user model =
     (let canonical = canonical_model model
      in case List.find (\<lambda>(pattern, _). contains (canonical_model pattern) canonical) (unwrap_or user []) of
           Some (_, pricing) \<Rightarrow> pricing
         | None \<Rightarrow>
             (case List.find (\<lambda>(name, _). contains name canonical) PRICING of
                Some (_, pricing) \<Rightarrow> pricing
              | None \<Rightarrow> DEFAULT_PRICING))"

definition cost_of :: "(string \<times> pricing) list option \<Rightarrow> string \<Rightarrow> token_usage \<Rightarrow> rat" where
  "cost_of user model usage =
     (let pricing = pricing_for user model;
          cached = min (tu_cached_input_tokens usage) (tu_input_tokens usage);
          uncached_input = tu_input_tokens usage - cached;
          per_million = round_rat (1 / 1000000);
          as_f64 = (\<lambda>n. round_rat (of_nat n))
      in f64_times
           (f64_plus
              (f64_plus (f64_times (as_f64 uncached_input) (pr_input pricing)) (f64_times (as_f64 cached) (pr_cached_input pricing)))
              (f64_times (as_f64 (tu_output_tokens usage)) (pr_output pricing)))
           per_million)"

subsection \<open>No entry is shadowed\<close>

text \<open>The names of the table, and that none is found in a name that comes after it.\<close>

definition plain_name :: "string \<Rightarrow> bool" where
  "plain_name name \<longleftrightarrow> name \<noteq> [] \<and> (\<forall>c \<in> set name. to_lower c = c \<and> \<not> is_ws c \<and> c \<noteq> CHR ''/'')"

fun unshadowed :: "string list \<Rightarrow> bool" where
  "unshadowed [] \<longleftrightarrow> True"
| "unshadowed (name # names) \<longleftrightarrow> list_all (\<lambda>later. \<not> contains name later) names \<and> unshadowed names"

definition listed_models :: "string list" where "listed_models = map fst PRICING"

lemma listed_models_plain: "list_all plain_name listed_models"
  by (simp add: listed_models_def PRICING_def plain_name_def to_lower_def is_ws_def)

lemma listed_models_unshadowed: "unshadowed listed_models"
  unfolding listed_models_def PRICING_def list.map fst_conv by code_simp

lemma contains_refl: "s \<noteq> [] \<Longrightarrow> contains s s"
  by (cases s) (simp_all add: contains_def starts_with_def)

lemma find_listed:
  assumes "unshadowed (map fst prices)" and "(name, pricing) \<in> set prices" and "name \<noteq> []"
  shows "List.find (\<lambda>(listed, _). contains listed name) prices = Some (name, pricing)"
  using assms
proof (induction prices)
  case (Cons entry prices)
  show ?case
  proof (cases "entry = (name, pricing)")
    case True
    then show ?thesis using Cons.prems(3) by (simp add: contains_refl)
  next
    case False
    then have "(name, pricing) \<in> set prices" using Cons.prems(2) by auto
    moreover have "\<not> contains (fst entry) name"
      using Cons.prems(1) calculation by (fastforce simp: list_all_iff)
    ultimately show ?thesis using Cons by (cases entry) simp
  qed
qed simp

lemma canonical_plain:
  assumes "plain_name name"
  shows "canonical_model name = name"
    and "vendor \<in> set VENDOR_PREFIXES \<Longrightarrow> canonical_model (vendor @ ''/'' @ name) = name"
proof -
  have lower: "map to_lower name = name" and slash: "CHR ''/'' \<notin> set name" and name: "name \<noteq> []"
    using assms by (auto simp: plain_name_def intro: map_idI)
  have ends: "\<not> is_ws (hd name)" "\<not> is_ws (last name)" using assms by (auto simp: plain_name_def)
  then show "canonical_model name = name"
    using trim_id[of name] lower slash by (simp add: canonical_model_def split_at_first_def)
  assume vendor: "vendor \<in> set VENDOR_PREFIXES"
  have plain: "list_all plain_name VENDOR_PREFIXES"
    by (simp add: VENDOR_PREFIXES_def plain_name_def to_lower_def is_ws_def)
  then have "plain_name vendor" using vendor by (simp add: list_all_iff)
  then have v: "map to_lower vendor = vendor" "CHR ''/'' \<notin> set vendor" "\<not> is_ws (hd vendor)" "vendor \<noteq> []"
    by (auto simp: plain_name_def intro: map_idI)
  have "trim (vendor @ ''/'' @ name) = vendor @ ''/'' @ name"
    using ends v(3,4) name by (intro trim_id) simp
  moreover have "to_lower (CHR ''/'') = CHR ''/''" by (simp add: to_lower_def)
  moreover have "takeWhile (\<lambda>c. c \<noteq> CHR ''/'') (vendor @ CHR ''/'' # name) = vendor"
    "dropWhile (\<lambda>c. c \<noteq> CHR ''/'') (vendor @ CHR ''/'' # name) = CHR ''/'' # name"
    using v(2) by (subst takeWhile_append2 dropWhile_append2; auto)+
  ultimately show "canonical_model (vendor @ ''/'' @ name) = name"
    using vendor v(1) lower by (simp add: canonical_model_def split_at_first_def)
qed

text \<open>Every entry of the price table is reached. Without a table of the user's own, a listed model is priced
  by its own entry and not by a broader family that precedes it, with or without a vendor in front.\<close>

theorem listed_models_have_their_price:
  assumes "(name, pricing) \<in> set PRICING" and "vendor \<in> set VENDOR_PREFIXES"
  shows "pricing_for None name = pricing" and "pricing_for None (vendor @ ''/'' @ name) = pricing"
proof -
  have "name \<in> set listed_models" using image_eqI[OF _ assms(1), of name fst] by (simp add: listed_models_def)
  then have plain: "plain_name name" using listed_models_plain by (simp add: list_all_iff)
  have found: "List.find (\<lambda>(listed, _). contains listed name) PRICING = Some (name, pricing)"
    using plain by (intro find_listed[OF listed_models_unshadowed[unfolded listed_models_def] assms(1)]) (simp add: plain_name_def)
  have "pricing_for None model = pricing" if "canonical_model model = name" for model
    using found by (simp add: pricing_for_def that)
  then show "pricing_for None name = pricing" "pricing_for None (vendor @ ''/'' @ name) = pricing"
    using canonical_plain[OF plain] assms(2) by blast+
qed

theorem listed_models_have_their_price_witness:
  "pricing_for None ''openai/gpt-5.1-codex-mini'' = pricing_new 250 2000 25"
proof -
  have "(''gpt-5.1-codex-mini'', pricing_new 250 2000 25) \<in> set PRICING" by (simp add: PRICING_def)
  moreover have "''openai'' \<in> set VENDOR_PREFIXES" by (simp add: VENDOR_PREFIXES_def)
  ultimately show ?thesis using listed_models_have_their_price(2)[of "''gpt-5.1-codex-mini''" _ "''openai''"] by simp
qed

end
