(* ===== verification/UsageService.thy ===== *)
theory UsageService
  imports UsageScan UsageCost
begin

section \<open>Usage summaries (src/src/usage/service.rs)\<close>

text \<open>
  The scans of all log files are rolled up by day, hour, project, model, provider and their combinations, and
  the quota readings are collected. The directory tree and the contents of the files are arguments, so are
  the roots and the clock. A summary is kept for thirty seconds. Indices of minutes are far from the bounds of
  \<open>i64\<close>; counts of sessions wrap at 32 bits.
\<close>

subsection \<open>Constants and results\<close>

definition DEFAULT_WINDOW_DAYS :: nat where "DEFAULT_WINDOW_DAYS = 7"
definition MAX_WINDOW_DAYS :: nat where "MAX_WINDOW_DAYS = 90"
definition HISTORY_WINDOW_DAYS :: nat where "HISTORY_WINDOW_DAYS = 3650"
definition CACHE_TTL :: nat where "CACHE_TTL = 30000"
definition MINUTE_WINDOW_MINUTES :: int where "MINUTE_WINDOW_MINUTES = 48 * 60"
definition QUOTA_MINUTE_WINDOW :: int where "QUOTA_MINUTE_WINDOW = 60"
definition CODEX_SERVICE :: string where "CODEX_SERVICE = ''codex''"

record day_usage =
  dy_date :: string
  dy_usage :: token_usage
  dy_sessions :: nat

record hour_usage =
  hu_date :: string
  hu_hour :: nat
  hu_usage :: token_usage
  hu_sessions :: nat

text \<open>\<open>ProjectUsage\<close> and \<open>ProviderUsage\<close> have the same fields.\<close>

record named_usage =
  nu_name :: string
  nu_usage :: token_usage
  nu_sessions :: nat

record model_usage =
  mu_model :: string
  mu_usage :: token_usage
  mu_sessions :: nat
  mu_cost_usd :: rat

record breakdown_row =
  br_day :: string
  br_service :: string
  br_source :: string
  br_model :: string
  br_project :: string
  br_usage :: token_usage
  br_cost_usd :: rat

record quota_point =
  qp_minute :: int
  qp_kind :: string
  qp_used_percent :: rat

record quota_history_point =
  qh_day :: string
  qh_kind :: string
  qh_used_percent :: rat

record minute_bucket =
  mb_minute :: int
  mb_usage :: token_usage

record quota_snapshot =
  qs_primary :: "rate_limit_window option"
  qs_secondary :: "rate_limit_window option"
  qs_plan_type :: "string option"
  qs_observed_at_ms :: "int option"

record summary =
  su_window_days :: nat
  su_sessions :: nat
  su_usage :: token_usage
  su_days :: "day_usage list"
  su_hours :: "hour_usage list"
  su_projects :: "named_usage list"
  su_models :: "model_usage list"
  su_providers :: "named_usage list"
  su_breakdown :: "breakdown_row list"
  su_quota :: "quota_snapshot option"
  su_minutes :: "minute_bucket list"
  su_quota_history :: "quota_history_point list"
  su_quota_minutes :: "quota_point list"
  su_sessions_root :: "path option"
  su_generated_at_ms :: nat

record summary_cache =
  sc_window_days :: nat
  sc_generated :: nat
  sc_summary :: summary

definition normalize_window_days :: "nat option \<Rightarrow> nat" where
  "normalize_window_days requested =
     (case requested of
        Some days \<Rightarrow> if days > 0 then min days MAX_WINDOW_DAYS else DEFAULT_WINDOW_DAYS
      | None \<Rightarrow> DEFAULT_WINDOW_DAYS)"

definition history_window_days :: "nat option \<Rightarrow> nat" where
  "history_window_days requested =
     (case requested of
        Some days \<Rightarrow> if days > 0 then min days HISTORY_WINDOW_DAYS else HISTORY_WINDOW_DAYS
      | None \<Rightarrow> HISTORY_WINDOW_DAYS)"

subsection \<open>Rolling up\<close>

text \<open>The entries of a \<open>BTreeMap\<close> in their order.\<close>

definition sorted_entries :: "('k::linorder, 'v) hmap \<Rightarrow> ('k \<times> 'v) list" where
  "sorted_entries m = sort_key fst m"

text \<open>Usage with the number of sessions, the pattern of most roll-ups.\<close>

type_synonym bucket = "token_usage \<times> nat"

definition add_buckets :: "bucket \<Rightarrow> bucket \<Rightarrow> bucket" where
  "add_buckets a b = (accumulate (fst a) (fst b), (snd a + snd b) mod 2 ^ 32)"

definition add_to_bucket :: "'k \<Rightarrow> token_usage \<Rightarrow> ('k, bucket) hmap \<Rightarrow> ('k, bucket) hmap" where
  "add_to_bucket k usage m =
     (let (so_far, sessions) = unwrap_or (hget m k) (no_usage, 0)
      in hinsert k (accumulate so_far usage, (sessions + 1) mod 2 ^ 32) m)"

definition usage_desc :: "('a \<Rightarrow> token_usage) \<Rightarrow> ('a \<Rightarrow> string) \<Rightarrow> 'a list \<Rightarrow> 'a list" where
  "usage_desc usage_of key items = sort_key (\<lambda>item. (- int (tu_total_tokens (usage_of item)), key item)) items"

definition aggregate_hours :: "(string \<times> session_scan) list \<Rightarrow> hour_usage list" where
  "aggregate_hours scans =
     (let buckets = fold (\<lambda>(date, scan).
            fold (\<lambda>(hour, usage). add_to_bucket (date, hour) usage) (sorted_entries (ss_hourly scan))) scans []
      in map (\<lambda>((date, hour), (usage, sessions)).
           \<lparr> hu_date = date, hu_hour = hour, hu_usage = usage, hu_sessions = sessions \<rparr>) (rev (sorted_entries buckets)))"

definition tally_breakdown ::
  "string \<times> session_scan \<Rightarrow> (string \<times> string \<times> string \<times> string, token_usage) hmap
     \<Rightarrow> (string \<times> string \<times> string \<times> string, token_usage) hmap" where
  "tally_breakdown entry =
     (let (day, scan) = entry; project = unwrap_or (scan_project scan) []
      in fold (\<lambda>((model, provider), usage). tally (day, model, provider, project) usage)
           (sorted_entries (ss_by_model_provider scan)))"

definition aggregate_breakdown ::
  "(string \<times> pricing) list option \<Rightarrow> (string \<times> session_scan) list \<Rightarrow> breakdown_row list" where
  "aggregate_breakdown user scans =
     (let rows = fold tally_breakdown scans []
      in sort_key (\<lambda>row. (br_day row, br_model row, br_source row, br_project row))
           (map (\<lambda>((day, model, source, project), usage).
              \<lparr> br_day = day, br_service = CODEX_SERVICE, br_source = source, br_model = model, br_project = project,
                br_usage = usage, br_cost_usd = cost_of user model usage \<rparr>) (sorted_entries rows)))"

text \<open>\<open>entry(key).or_insert(percent)\<close>, then the greater of the two.\<close>

definition keep_peak :: "'k \<Rightarrow> rat \<Rightarrow> ('k, rat) hmap \<Rightarrow> ('k, rat) hmap" where
  "keep_peak k percent m =
     (let entry = unwrap_or (hget m k) percent in hinsert k (if percent > entry then percent else entry) m)"

definition kind_name :: "quota_kind \<Rightarrow> string" where
  "kind_name kind = (case kind of Primary \<Rightarrow> ''primary'' | Secondary \<Rightarrow> ''secondary'')"

definition merged_quota_minutes :: "(string \<times> session_scan) list \<Rightarrow> (int \<times> quota_kind, rat) hmap" where
  "merged_quota_minutes scans =
     fold (\<lambda>(_, scan). fold (\<lambda>(k, percent). keep_peak k percent) (sorted_entries (ss_quota_minutes scan))) scans []"

definition aggregate_quota_minutes :: "(string \<times> session_scan) list \<Rightarrow> quota_point list" where
  "aggregate_quota_minutes scans =
     (let kept = merged_quota_minutes scans
      in if kept = [] then []
         else let cutoff = Max ((fst \<circ> fst) ` set kept) - QUOTA_MINUTE_WINDOW
              in map (\<lambda>((minute, kind), percent).
                   \<lparr> qp_minute = minute, qp_kind = kind_name kind, qp_used_percent = percent \<rparr>)
                   (filter (\<lambda>((minute, _), _). minute > cutoff) (sorted_entries kept)))"

definition aggregate_quota_history :: "(string \<times> session_scan) list \<Rightarrow> quota_history_point list" where
  "aggregate_quota_history scans =
     (let points = fold (\<lambda>(_, scan). fold (\<lambda>(k, percent). keep_peak k percent) (sorted_entries (ss_quota_history scan))) scans []
      in map (\<lambda>((day, kind), percent).
           \<lparr> qh_day = day, qh_kind = kind_name kind, qh_used_percent = percent \<rparr>) (sorted_entries points))"

definition merged_minutes :: "(string \<times> session_scan) list \<Rightarrow> (int, token_usage) hmap" where
  "merged_minutes scans =
     fold (\<lambda>(_, scan). fold (\<lambda>(minute, usage). tally minute usage) (sorted_entries (ss_minutely scan))) scans []"

definition aggregate_minutes :: "(string \<times> session_scan) list \<Rightarrow> minute_bucket list" where
  "aggregate_minutes scans =
     (let kept = sorted_entries (merged_minutes scans);
          cutoff = (if kept = [] then None else Some (fst (last kept) - MINUTE_WINDOW_MINUTES))
      in map (\<lambda>(minute, usage). \<lparr> mb_minute = minute, mb_usage = usage \<rparr>)
           (filter (\<lambda>(minute, _). case cutoff of None \<Rightarrow> True | Some cutoff \<Rightarrow> minute > cutoff) kept))"

text \<open>The best scan so far with its time.\<close>

definition newer_quota :: "string \<times> session_scan \<Rightarrow> (session_scan \<times> int option) option \<Rightarrow> (session_scan \<times> int option) option" where
  "newer_quota entry best =
     (let scan = snd entry; best_observed = Option.bind best snd
      in if \<not> has_window (ss_rate_limits scan) then best
         else let observed = Option.bind (ss_quota_observed_at scan) timestamp_ms;
                  is_newer = (case (best_observed, observed) of
                      (None, _) \<Rightarrow> best = None
                    | (Some previous, Some current) \<Rightarrow> current > previous
                    | (Some _, None) \<Rightarrow> False)
              in if is_newer then Some (scan, observed) else best)"

definition latest_quota :: "(string \<times> session_scan) list \<Rightarrow> quota_snapshot option" where
  "latest_quota scans =
     map_option (\<lambda>(scan, observed).
       \<lparr> qs_primary = rl_primary (ss_rate_limits scan), qs_secondary = rl_secondary (ss_rate_limits scan),
         qs_plan_type = rl_plan_type (ss_rate_limits scan), qs_observed_at_ms = observed \<rparr>)
       (fold newer_quota scans None)"

definition aggregate_models :: "(string \<times> pricing) list option \<Rightarrow> (string \<times> session_scan) list \<Rightarrow> model_usage list" where
  "aggregate_models user scans =
     (let grouped = fold (\<lambda>(_, scan). fold (\<lambda>(model, usage). add_to_bucket model usage) (sorted_entries (ss_models scan))) scans []
      in usage_desc mu_usage mu_model
           (map (\<lambda>(model, (usage, sessions)).
              \<lparr> mu_model = model, mu_usage = usage, mu_sessions = sessions, mu_cost_usd = cost_of user model usage \<rparr>)
              (sorted_entries grouped)))"

definition named :: "string \<times> bucket \<Rightarrow> named_usage" where
  "named entry = \<lparr> nu_name = fst entry, nu_usage = fst (snd entry), nu_sessions = snd (snd entry) \<rparr>"

definition aggregate_providers :: "(string \<times> session_scan) list \<Rightarrow> named_usage list" where
  "aggregate_providers scans =
     (let grouped = fold (\<lambda>(_, scan). fold (\<lambda>(provider, usage). add_to_bucket provider usage) (sorted_entries (ss_providers scan))) scans []
      in usage_desc nu_usage nu_name (map named (sorted_entries grouped)))"

definition aggregate_projects :: "(string \<times> session_scan) list \<Rightarrow> named_usage list" where
  "aggregate_projects scans =
     (let grouped = fold (\<lambda>(_, scan) m. case scan_project scan of
            None \<Rightarrow> m | Some project \<Rightarrow> add_to_bucket project (ss_usage scan) m) scans []
      in usage_desc nu_usage nu_name (map named (sorted_entries grouped)))"

subsection \<open>Finding the files\<close>

text \<open>\<open>se_entries\<close> lists a directory with a flag for directories, \<open>None\<close> when it cannot be read;
  \<open>se_content\<close> gives the bytes of a file.\<close>

record scan_env =
  se_entries :: "path \<Rightarrow> (string \<times> bool) list option"
  se_content :: "path \<Rightarrow> string option"
  se_utf8 :: "string \<Rightarrow> bool"
  se_event :: "string \<Rightarrow> rollout_event option"
  se_user_pricing :: "(string \<times> pricing) list option"

definition sorted_directories :: "scan_env \<Rightarrow> path \<Rightarrow> path list" where
  "sorted_directories env parent =
     sort (map (\<lambda>(name, _). parent @ [name]) (filter snd (unwrap_or (se_entries env parent) [])))"

definition sorted_rollout_files :: "scan_env \<Rightarrow> path \<Rightarrow> path list" where
  "sorted_rollout_files env directory =
     sort (filter is_rollout_file (map (\<lambda>(name, _). directory @ [name]) (unwrap_or (se_entries env directory) [])))"

definition day_directory_date :: "path \<Rightarrow> string option" where
  "day_directory_date directory =
     Option.bind (file_name directory) (\<lambda>day.
     Option.bind (file_name (butlast directory)) (\<lambda>month.
     Option.bind (file_name (butlast (butlast directory))) (\<lambda>year.
       Some (year @ ''-'' @ month @ ''-'' @ day))))"

definition newest_day_directories :: "scan_env \<Rightarrow> path \<Rightarrow> nat \<Rightarrow> path list" where
  "newest_day_directories env base limit =
     (let days = sort (concat (map (\<lambda>month. sorted_directories env month)
                   (concat (map (sorted_directories env) (sorted_directories env base)))))
      in keep_last (max limit 1) days)"

definition rollout_files :: "scan_env \<Rightarrow> path \<Rightarrow> nat \<Rightarrow> (string option \<times> path) list" where
  "rollout_files env base window_days =
     (let directories = newest_day_directories env base window_days
      in if directories = [] then map (\<lambda>p. (rollout_day_from_path p, p)) (sorted_rollout_files env base)
         else concat (map (\<lambda>directory. map (Pair (day_directory_date directory)) (sorted_rollout_files env directory))
                directories))"

definition scan_file :: "scan_env \<Rightarrow> string option \<times> path \<Rightarrow> (string \<times> session_scan) option" where
  "scan_file env entry =
     (case Option.bind (se_content env (snd entry)) (\<lambda>content. scan_from (se_utf8 env) (se_event env) content 0) of
        None \<Rightarrow> None
      | Some (scan, _) \<Rightarrow>
          if ss_samples scan = 0 then None
          else Some (unwrap_or (opt_or (fst entry)
                 (Option.bind (sm_started_at (ss_meta scan)) session_date_from_timestamp)) ''unknown'', scan))"

definition scan_roots :: "scan_env \<Rightarrow> path list \<Rightarrow> nat \<Rightarrow> (string \<times> session_scan) list" where
  "scan_roots env roots window_days =
     concat (map (\<lambda>base. List.map_filter (scan_file env) (rollout_files env base window_days)) roots)"

definition compute :: "scan_env \<Rightarrow> path list \<Rightarrow> nat \<Rightarrow> nat \<Rightarrow> summary" where
  "compute env roots now_ms window_days =
     (if roots = [] then
        \<lparr> su_window_days = window_days, su_sessions = 0, su_usage = no_usage, su_days = [], su_hours = [],
          su_projects = [], su_models = [], su_providers = [], su_breakdown = [], su_quota = None, su_minutes = [],
          su_quota_history = [], su_quota_minutes = [], su_sessions_root = None, su_generated_at_ms = now_ms \<rparr>
      else
        let scans = scan_roots env roots window_days
        in \<lparr> su_window_days = window_days,
             su_sessions = min (length scans) (2 ^ 32 - 1),
             su_usage = fold (\<lambda>(_, scan) usage. accumulate usage (ss_usage scan)) scans no_usage,
             su_days = map (\<lambda>day. \<lparr> dy_date = du_date day, dy_usage = du_usage day,
                 dy_sessions = min (du_sessions day) (2 ^ 32 - 1) \<rparr>) (aggregate_by_day scans),
             su_hours = aggregate_hours scans, su_projects = aggregate_projects scans,
             su_models = aggregate_models (se_user_pricing env) scans, su_providers = aggregate_providers scans,
             su_breakdown = aggregate_breakdown (se_user_pricing env) scans, su_quota = latest_quota scans,
             su_minutes = aggregate_minutes scans, su_quota_history = aggregate_quota_history scans,
             su_quota_minutes = aggregate_quota_minutes scans, su_sessions_root = Some (hd roots),
             su_generated_at_ms = now_ms \<rparr>)"

text \<open>\<open>now\<close> is the instant of the lookup and \<open>finished\<close> that of the store, in milliseconds; \<open>fresh\<close> is what a
  computation gives.\<close>

definition summarize ::
  "nat \<Rightarrow> nat \<Rightarrow> (nat \<Rightarrow> summary) \<Rightarrow> nat \<Rightarrow> summary_cache option \<Rightarrow> summary \<times> summary_cache option" where
  "summarize now finished fresh window_days cache =
     (case cache of
        Some entry \<Rightarrow>
          if sc_window_days entry = window_days \<and> now - sc_generated entry < CACHE_TTL then (sc_summary entry, cache)
          else (fresh window_days, Some \<lparr> sc_window_days = window_days, sc_generated = finished, sc_summary = fresh window_days \<rparr>)
      | None \<Rightarrow> (fresh window_days, Some \<lparr> sc_window_days = window_days, sc_generated = finished, sc_summary = fresh window_days \<rparr>))"

definition history_summary where
  "history_summary now finished fresh days = summarize now finished fresh (history_window_days days)"

definition window_summary where
  "window_summary now finished fresh window_days = summarize now finished fresh (normalize_window_days (Some window_days))"

subsection \<open>Totals\<close>

text \<open>The reference: the saturating sum of a list.\<close>

definition total_usage :: "token_usage list \<Rightarrow> token_usage" where
  "total_usage us = fold (\<lambda>usage so_far. accumulate so_far usage) us no_usage"

lemma sat_zero: "sat_add 0 (sat_add a b) = sat_add a b" "sat_add 0 0 = 0"
  by (simp_all add: sat_add_def)

lemma clip_clip [simp]: "clip_usage (accumulate a b) = accumulate a b"
  by (simp only: clip_usage_def accumulate_def no_usage_def sat_zero token_usage.simps)

lemma clip_idem [simp]: "clip_usage (clip_usage a) = clip_usage a"
  unfolding clip_usage_def by (rule clip_clip[unfolded clip_usage_def])

lemma accumulate_no_usage [simp]: "accumulate no_usage no_usage = no_usage"
  by (simp only: accumulate_def no_usage_def sat_zero token_usage.simps)

lemma clip_no_usage [simp]: "clip_usage no_usage = no_usage"
  by (simp add: clip_usage_def)

lemma fold_accumulate:
  "fold (merge_opt accumulate) us (Some w) = Some (fold (\<lambda>usage so_far. accumulate so_far usage) us w)"
  by (induction us arbitrary: w) (simp_all add: merge_opt_def)

lemma total_merged: "total_usage us = (case merged accumulate us of None \<Rightarrow> no_usage | Some usage \<Rightarrow> clip_usage usage)"
  using fold_accumulate[of us no_usage] usage_merge.fold_merge_acc[of us no_usage]
  by (simp add: total_usage_def clip_usage_def split: option.splits)

lemma total_mset: "mset us = mset vs \<Longrightarrow> total_usage us = total_usage vs"
  using usage_merge.merged_perm[of us vs] by (simp add: total_merged merged_def)

lemma mset_sorted_entries [simp]: "mset (sorted_entries m) = mset m"
  by (simp add: sorted_entries_def)

lemma set_sorted_entries [simp]: "set (sorted_entries m) = set m"
  by (simp add: sorted_entries_def)

text \<open>What each scan adds to a map of usage.\<close>

definition clipped :: "('k \<times> token_usage) list \<Rightarrow> ('k \<times> token_usage) list" where
  "clipped entries = map (\<lambda>(k, usage). (k, clip_usage usage)) entries"

lemma fold_tally: "fold (\<lambda>(k, usage). tally (g k) usage) entries m =
    merge_all accumulate (clipped (map (\<lambda>(k, usage). (g k, usage)) entries)) m"
  by (induction entries arbitrary: m) (auto simp: merge_all_def clipped_def tally_merge)

lemma total_clipped [simp]: "total_usage (map snd (clipped entries)) = total_usage (map snd entries)"
proof -
  have "fold (\<lambda>usage so_far. accumulate so_far usage) (map snd (clipped entries)) w
      = fold (\<lambda>usage so_far. accumulate so_far usage) (map snd entries) w" for w
    by (induction entries arbitrary: w) (auto simp: clipped_def)
  then show ?thesis by (simp add: total_usage_def)
qed

lemma fold_accumulate_clip:
  "fold (\<lambda>usage so_far. accumulate so_far usage) us (accumulate a w) = accumulate a (fold (\<lambda>usage so_far. accumulate so_far usage) us w)"
  by (induction us arbitrary: w) (simp_all add: accumulate_assoc)

lemma fold_accumulate_total: "fold (\<lambda>usage so_far. accumulate so_far usage) us (clip_usage w) = accumulate w (total_usage us)"
proof -
  have "clip_usage w = accumulate w no_usage" by (simp add: clip_usage_def accumulate_commute)
  then show ?thesis unfolding total_usage_def by (simp add: fold_accumulate_clip)
qed

lemma total_clip [simp]: "clip_usage (total_usage us) = total_usage us"
  by (cases us rule: rev_cases) (simp_all add: total_usage_def)

lemma total_append: "total_usage (xs @ ys) = accumulate (total_usage xs) (total_usage ys)"
proof -
  have "total_usage (xs @ ys) = fold (\<lambda>usage so_far. accumulate so_far usage) ys (clip_usage (total_usage xs))"
    by (simp del: total_clip add: total_clip[unfolded total_usage_def] total_usage_def)
  then show ?thesis by (simp only: fold_accumulate_total)
qed

lemma total_Nil [simp]: "total_usage [] = no_usage"
  by (simp add: total_usage_def)

lemma total_Cons: "total_usage (u # us) = accumulate u (total_usage us)"
proof -
  have "total_usage [u] = clip_usage u" by (simp add: total_usage_def clip_usage_def)
  then show ?thesis using total_append[of "[u]" us] by (simp add: accumulate_commute[of "clip_usage u"] accumulate_commute[of u])
qed

lemma accumulate_total [simp]:
  "accumulate no_usage (total_usage us) = total_usage us" "accumulate (total_usage us) no_usage = total_usage us"
  using total_clip[of us] by (simp_all only: clip_usage_def accumulate_commute[of no_usage])

lemma total_concat: "total_usage (concat (map f xs)) = total_usage (map (\<lambda>x. total_usage (f x)) xs)"
  by (induction xs) (simp_all add: total_append total_Cons)

lemma merge_all_total:
  "total_usage (map snd (filter (\<lambda>e. P (fst e)) (merge_all accumulate entries []))) =
   total_usage (map snd (filter (\<lambda>e. P (fst e)) entries))"
  by (simp add: total_merged usage_merge.merged_all_filter) (simp add: merged_def)

text \<open>A bucket without its number of sessions is a tally.\<close>

definition usage_part :: "('k, bucket) hmap \<Rightarrow> ('k, token_usage) hmap" where
  "usage_part m = map (\<lambda>(k, b). (k, fst b)) m"

lemma usage_part_add: "usage_part (add_to_bucket k usage m) = tally k usage (usage_part m)"
proof -
  have update: "usage_part (AList.update k (u, n) m') = AList.update k u (usage_part m')" for u n m'
    by (induction m') (auto simp: usage_part_def)
  have "hget (usage_part m) k = map_option fst (hget m k)"
    by (induction m) (auto simp: usage_part_def)
  then show ?thesis
    by (cases "hget m k") (simp_all add: add_to_bucket_def tally_def update split: prod.split)
qed

lemma usage_part_fold:
  "usage_part (fold (\<lambda>(k, usage). add_to_bucket (g k) usage) entries m) =
   merge_all accumulate (clipped (map (\<lambda>(k, usage). (g k, usage)) entries)) (usage_part m)"
  unfolding fold_tally[symmetric] by (induction entries arbitrary: m) (auto simp: usage_part_add)

lemma usage_part_scans:
  "usage_part (fold (\<lambda>entry. fold (\<lambda>(k, usage). add_to_bucket (g entry k) usage) (entries_of entry)) scans m) =
   merge_all accumulate (concat (map (\<lambda>entry. clipped (map (\<lambda>(k, usage). (g entry k, usage)) (entries_of entry))) scans)) (usage_part m)"
  unfolding fold_merge_all[symmetric] by (induction scans arbitrary: m) (simp_all add: usage_part_fold)

text \<open>A report lists the entries of a map in some order.\<close>

lemma report_total:
  assumes "mset items = mset (map h m)" and "\<And>e. usage_of (h e) = u e" and "\<And>e. Q (h e) = P (fst e)"
  shows "total_usage (map usage_of (filter Q items)) = total_usage (map u (filter (\<lambda>e. P (fst e)) m))"
proof -
  have "mset (map usage_of (filter Q items)) = image_mset usage_of (filter_mset Q (mset (map h m)))"
    using assms(1) by simp
  also have "\<dots> = mset (map u (filter (\<lambda>e. P (fst e)) m))"
    by (induction m) (simp_all add: assms(2,3))
  finally show ?thesis by (rule total_mset)
qed

definition counted_scan :: "session_scan \<Rightarrow> bool" where
  "counted_scan scan \<longleftrightarrow> scan_inv scan \<and> ss_samples scan \<noteq> 0"

lemma scan_file_counted: "scan_file env entry = Some (date, scan) \<Longrightarrow> counted_scan scan"
  by (cases "Option.bind (se_content env (snd entry)) (\<lambda>content. scan_from (se_utf8 env) (se_event env) content 0)")
    (auto simp: scan_file_def counted_scan_def bind_eq_Some_conv intro: scan_from_inv split: if_splits)

lemma counted_scans: "(date, scan) \<in> set (scan_roots env roots window_days) \<Longrightarrow> counted_scan scan"
  by (auto simp: scan_roots_def map_filter_def dest: scan_file_counted)

lemma counted_total:
  assumes "counted_scan scan"
    and "parts \<in> {map snd (ss_models scan), map snd (ss_providers scan), map snd (ss_by_model_provider scan)}"
  shows "total_usage parts = clip_usage (ss_usage scan)"
  using assms by (auto simp: counted_scan_def scan_inv_def total_merged)

lemma total_clips: "total_usage (map (\<lambda>x. clip_usage (g x)) xs) = total_usage (map g xs)"
  by (induction xs) (simp_all add: total_Cons, metis accumulate_clip accumulate_commute)

lemma reported_usage:
  assumes "\<And>day scan. (day, scan) \<in> set scans \<Longrightarrow> total_usage (map snd (parts scan)) = clip_usage (ss_usage scan)"
    and "\<And>day scan e. P (g (day, scan) e) = Q day"
  shows "total_usage (map snd (filter (\<lambda>e. P (fst e)) (merge_all accumulate
      (concat (map (\<lambda>entry. clipped (map (\<lambda>(k, usage). (g entry k, usage)) (sorted_entries (parts (snd entry))))) scans)) []))) =
    total_usage (map (\<lambda>entry. ss_usage (snd entry)) (filter (\<lambda>entry. Q (fst entry)) scans))"
proof -
  let ?of = "\<lambda>entry. clipped (map (\<lambda>(k, usage). (g entry k, usage)) (sorted_entries (parts (snd entry))))"
  have each: "total_usage (map snd (filter (\<lambda>e. P (fst e)) (?of entry))) =
      (if Q (fst entry) then clip_usage (ss_usage (snd entry)) else no_usage)" if "entry \<in> set scans" for entry
  proof -
    obtain day scan where entry: "entry = (day, scan)" by fastforce
    have "filter (\<lambda>e. P (fst e)) (?of entry) = (if Q day then ?of entry else [])"
      by (simp add: entry clipped_def filter_map o_def case_prod_beta assms(2))
    moreover have "total_usage (map snd (?of entry)) = total_usage (map snd (sorted_entries (parts scan)))"
      unfolding total_clipped by (simp add: entry o_def case_prod_beta)
    moreover have "\<dots> = clip_usage (ss_usage scan)"
      using assms(1)[of day scan] that total_mset[of "map snd (sorted_entries (parts scan))" "map snd (parts scan)"] entry by simp
    ultimately show ?thesis by (simp add: entry)
  qed
  have "total_usage (map snd (filter (\<lambda>e. P (fst e)) (concat (map ?of scans)))) =
      total_usage (map (\<lambda>entry. if Q (fst entry) then clip_usage (ss_usage (snd entry)) else no_usage) scans)"
    using each by (simp add: filter_concat map_concat o_def total_concat cong: map_cong)
  also have "\<dots> = total_usage (map (\<lambda>entry. clip_usage (ss_usage (snd entry))) (filter (\<lambda>entry. Q (fst entry)) scans))"
    by (induction scans) (simp_all add: total_Cons)
  finally show ?thesis by (simp add: merge_all_total total_clips)
qed

lemma breakdown_rows:
  "fold tally_breakdown scans [] = merge_all accumulate (concat (map (\<lambda>entry. clipped (map (\<lambda>(k, usage).
     ((fst entry, fst k, snd k, unwrap_or (scan_project (snd entry)) []), usage)) (sorted_entries (ss_by_model_provider (snd entry)))))
     scans)) []"
proof -
  have "tally_breakdown entry m = merge_all accumulate (clipped (map (\<lambda>(k, usage).
     ((fst entry, fst k, snd k, unwrap_or (scan_project (snd entry)) []), usage)) (sorted_entries (ss_by_model_provider (snd entry))))) m"
    for entry m
  proof -
    have "tally_breakdown entry m = fold (\<lambda>(k, usage).
        tally (fst entry, fst k, snd k, unwrap_or (scan_project (snd entry)) []) usage) (sorted_entries (ss_by_model_provider (snd entry))) m"
      by (simp add: tally_breakdown_def case_prod_unfold Let_def)
    then show ?thesis unfolding fold_tally .
  qed
  then show ?thesis unfolding fold_merge_all[symmetric] by presburger
qed

text \<open>The rows of a part of the breakdown hold the usage of the scans of that part.\<close>

lemma breakdown_total:
  assumes "\<And>day scan. (day, scan) \<in> set scans \<Longrightarrow> counted_scan scan"
  shows "total_usage (map br_usage (filter (\<lambda>row. Q (br_day row)) (aggregate_breakdown user scans))) =
    total_usage (map (\<lambda>entry. ss_usage (snd entry)) (filter (\<lambda>entry. Q (fst entry)) scans))"
proof -
  let ?row = "\<lambda>((day, model, source, project), usage). \<lparr> br_day = day, br_service = CODEX_SERVICE, br_source = source,
    br_model = model, br_project = project, br_usage = usage, br_cost_usd = cost_of user model usage \<rparr>"
  have "total_usage (map br_usage (filter (\<lambda>row. Q (br_day row)) (aggregate_breakdown user scans))) =
      total_usage (map snd (filter (\<lambda>e. Q (fst (fst e))) (fold tally_breakdown scans [])))"
    by (rule report_total[where h = ?row]) (auto simp: aggregate_breakdown_def Let_def)
  also have "\<dots> = total_usage (map (\<lambda>entry. ss_usage (snd entry)) (filter (\<lambda>entry. Q (fst entry)) scans))"
    unfolding breakdown_rows
    by (rule reported_usage[where g = "\<lambda>entry k. (fst entry, fst k, snd k, unwrap_or (scan_project (snd entry)) [])"
          and P = "\<lambda>k. Q (fst k)"]) (use assms counted_total in auto)
  finally show ?thesis .
qed

lemma grouped_total:
  assumes "\<And>day scan. (day, scan) \<in> set scans \<Longrightarrow> total_usage (map snd (parts scan)) = clip_usage (ss_usage scan)"
  shows "total_usage (map fst (map snd (fold (\<lambda>(_, scan). fold (\<lambda>(k, usage). add_to_bucket k usage) (sorted_entries (parts scan))) scans []))) =
    total_usage (map (\<lambda>entry. ss_usage (snd entry)) scans)"
proof -
  let ?grouped = "fold (\<lambda>(_, scan). fold (\<lambda>(k, usage). add_to_bucket k usage) (sorted_entries (parts scan))) scans []"
  have grouped: "?grouped = fold (\<lambda>entry. fold (\<lambda>(k, usage). add_to_bucket k usage) (sorted_entries (parts (snd entry)))) scans []"
    by (simp add: case_prod_unfold)
  have "map fst (map snd ?grouped) = map snd (usage_part ?grouped)"
    by (simp add: usage_part_def o_def case_prod_unfold)
  moreover have "total_usage (map snd (usage_part ?grouped)) = total_usage (map (\<lambda>entry. ss_usage (snd entry)) scans)"
    unfolding grouped usage_part_scans[where g = "\<lambda>_ k. k"]
    using reported_usage[OF assms, where scans = scans and g = "\<lambda>_ k. k" and P = "\<lambda>_. True" and Q = "\<lambda>_. True"]
    by (simp add: usage_part_def)
  ultimately show ?thesis by simp
qed

lemma usage_desc_total:
  "total_usage (map usage_of (usage_desc usage_of key (map h m))) = total_usage (map (\<lambda>e. usage_of (h e)) m)"
  by (rule total_mset) (simp add: usage_desc_def multiset.map_comp o_def)

lemma compute_scans:
  "su_usage (compute env roots now_ms window_days) = total_usage (map (\<lambda>entry. ss_usage (snd entry)) (scan_roots env roots window_days))"
  "su_breakdown (compute env roots now_ms window_days) = aggregate_breakdown (se_user_pricing env) (scan_roots env roots window_days)"
  "su_models (compute env roots now_ms window_days) = aggregate_models (se_user_pricing env) (scan_roots env roots window_days)"
  "su_providers (compute env roots now_ms window_days) = aggregate_providers (scan_roots env roots window_days)"
proof -
  have folded: "fold (\<lambda>(_, scan) usage. accumulate usage (ss_usage scan)) scans w =
      fold (\<lambda>usage so_far. accumulate so_far usage) (map (\<lambda>entry. ss_usage (snd entry)) scans) w" for scans w
    by (induction scans arbitrary: w) (simp_all add: case_prod_beta)
  then show "su_usage (compute env roots now_ms window_days) =
      total_usage (map (\<lambda>entry. ss_usage (snd entry)) (scan_roots env roots window_days))"
    by (cases "roots = []") (simp_all add: compute_def Let_def total_usage_def scan_roots_def[of env "[]"])
  show "su_breakdown (compute env roots now_ms window_days) = aggregate_breakdown (se_user_pricing env) (scan_roots env roots window_days)"
    "su_models (compute env roots now_ms window_days) = aggregate_models (se_user_pricing env) (scan_roots env roots window_days)"
    "su_providers (compute env roots now_ms window_days) = aggregate_providers (scan_roots env roots window_days)"
    by (simp_all add: compute_def Let_def)
      (simp_all add: scan_roots_def[of env "[]"] aggregate_breakdown_def aggregate_models_def aggregate_providers_def
        usage_desc_def sorted_entries_def)
qed

text \<open>C28. A summary loses no usage. Whatever the log files hold, the rows by day, provider, model and project
  add up to the usage of all scans, and so do the models and the providers; the rows of one day add up to the
  usage of the files of that day; and a combination has one row, in order. All sums saturate.\<close>

theorem breakdown_loses_nothing:
  "total_usage (map br_usage (su_breakdown (compute env roots now_ms window_days))) = su_usage (compute env roots now_ms window_days) \<and>
   total_usage (map mu_usage (su_models (compute env roots now_ms window_days))) = su_usage (compute env roots now_ms window_days) \<and>
   total_usage (map nu_usage (su_providers (compute env roots now_ms window_days))) = su_usage (compute env roots now_ms window_days) \<and>
   total_usage (map br_usage (filter (\<lambda>row. br_day row = day) (su_breakdown (compute env roots now_ms window_days)))) =
      total_usage (map (\<lambda>entry. ss_usage (snd entry)) (filter (\<lambda>entry. fst entry = day) (scan_roots env roots window_days))) \<and>
   sorted (map (\<lambda>row. (br_day row, br_model row, br_source row, br_project row)) (su_breakdown (compute env roots now_ms window_days))) \<and>
      distinct (map (\<lambda>row. (br_day row, br_model row, br_source row, br_project row)) (su_breakdown (compute env roots now_ms window_days)))"
proof (intro conjI)
  let ?su = "compute env roots now_ms window_days"
  let ?scans = "scan_roots env roots window_days" let ?user = "se_user_pricing env"
  note counted = counted_scans[of _ _ env roots window_days]
  show "total_usage (map br_usage (su_breakdown ?su)) = su_usage ?su"
    using breakdown_total[where Q = "\<lambda>_. True" and scans = ?scans] counted by (simp add: compute_scans)
  show "total_usage (map br_usage (filter (\<lambda>row. br_day row = day) (su_breakdown ?su))) =
      total_usage (map (\<lambda>entry. ss_usage (snd entry)) (filter (\<lambda>entry. fst entry = day) ?scans))"
    using breakdown_total[where Q = "\<lambda>d. d = day" and scans = ?scans] counted by (simp add: compute_scans)
  have whole: "total_usage (map u (sorted_entries m)) = total_usage (map u m)" for u and m :: "(string, bucket) hmap"
    by (rule total_mset) simp
  show "total_usage (map mu_usage (su_models ?su)) = su_usage ?su"
    using grouped_total[where parts = ss_models and scans = ?scans] counted_total[OF counted] whole[of "\<lambda>e. fst (snd e)"]
    by (simp add: compute_scans aggregate_models_def Let_def usage_desc_total case_prod_beta o_def)
  show "total_usage (map nu_usage (su_providers ?su)) = su_usage ?su"
    using grouped_total[where parts = ss_providers and scans = ?scans] counted_total[OF counted] whole[of "\<lambda>e. fst (snd e)"]
    by (simp add: compute_scans aggregate_providers_def Let_def usage_desc_total named_def case_prod_beta o_def)
  let ?key = "\<lambda>row. (br_day row, br_model row, br_source row, br_project row)"
  have "hwf (fold tally_breakdown ?scans [])" unfolding breakdown_rows by simp
  then have "distinct (map fst (sorted_entries (fold tally_breakdown ?scans [])))"
    by (simp add: sorted_entries_def hwf_def distinct_map)
  moreover have "mset (map ?key (su_breakdown ?su)) = mset (map fst (sorted_entries (fold tally_breakdown ?scans [])))"
    by (simp add: compute_scans aggregate_breakdown_def Let_def multiset.map_comp o_def case_prod_unfold)
  ultimately have "distinct (map ?key (su_breakdown ?su))" using mset_eq_imp_distinct_iff by blast
  then show "distinct (map ?key (su_breakdown ?su))" .
  show "sorted (map ?key (su_breakdown ?su))" by (simp add: compute_scans aggregate_breakdown_def Let_def)
qed

text \<open>The plain sum of a day wraps where the saturating sums do not.\<close>

lemma day_total_wraps:
  assumes "tu_total_tokens (ss_usage scan) = u64_max" and "tu_total_tokens (ss_usage scan') = 1"
  shows "map (\<lambda>day. tu_total_tokens (du_usage day)) (aggregate_by_day [(date, scan), (date, scan')]) = [0]"
    and "tu_total_tokens (total_usage [ss_usage scan, ss_usage scan']) = u64_max"
  using assms
  by (simp_all add: aggregate_by_day_def add_to_day_def add_wrapping_def wrapping_add_def no_usage_def u64_max_def
      total_usage_def accumulate_def sat_add_def)

subsection \<open>The latest quota\<close>

definition quota_time :: "string \<times> session_scan \<Rightarrow> int option" where
  "quota_time entry = Option.bind (ss_quota_observed_at (snd entry)) timestamp_ms"

definition quota_scans :: "(string \<times> session_scan) list \<Rightarrow> (string \<times> session_scan) list" where
  "quota_scans scans = filter (\<lambda>entry. has_window (ss_rate_limits (snd entry))) scans"

definition quota_times :: "(string \<times> session_scan) list \<Rightarrow> int set" where
  "quota_times scans = set (List.map_filter quota_time scans)"

text \<open>The reference: the first of the scans with the greatest time, unless the first scan of all has none.\<close>

definition quota_choice :: "(string \<times> session_scan) list \<Rightarrow> (string \<times> session_scan) option" where
  "quota_choice scans =
     (case scans of
        [] \<Rightarrow> None
      | first # _ \<Rightarrow>
          if quota_time first = None then Some first
          else List.find (\<lambda>entry. quota_time entry = Some (Max (quota_times scans))) scans)"

lemma quota_times_simps [simp]:
  "quota_times [] = {}" "quota_times (xs @ ys) = quota_times xs \<union> quota_times ys"
  "quota_times (entry # xs) = (case quota_time entry of None \<Rightarrow> quota_times xs | Some t \<Rightarrow> insert t (quota_times xs))"
  by (auto simp: quota_times_def map_filter_def split: option.split)

lemma finite_quota_times [simp]: "finite (quota_times scans)"
  by (simp add: quota_times_def)

lemma quota_times_iff: "t \<in> quota_times scans \<longleftrightarrow> (\<exists>entry \<in> set scans. quota_time entry = Some t)"
  by (induction scans) (auto split: option.split)

lemma quota_choice_dated:
  assumes "quota_time first = Some t"
  obtains chosen where "quota_choice (first # rest) = Some chosen" "chosen \<in> set (first # rest)"
    "quota_time chosen = Some (Max (quota_times (first # rest)))"
proof -
  have "Max (quota_times (first # rest)) \<in> quota_times (first # rest)" using assms by (intro Max_in) auto
  then have "List.find (\<lambda>entry. quota_time entry = Some (Max (quota_times (first # rest)))) (first # rest) \<noteq> None"
    unfolding quota_times_iff find_None_iff_all by blast
  then obtain chosen where found:
    "List.find (\<lambda>entry. quota_time entry = Some (Max (quota_times (first # rest)))) (first # rest) = Some chosen" by blast
  have "quota_choice (first # rest) = Some chosen" using assms found unfolding quota_choice_def list.case by simp
  from that[OF this] find_Some_in[OF found] show thesis by blast
qed

lemma newer_quota_chosen:
  "newer_quota entry (map_option (\<lambda>e. (snd e, quota_time e)) (quota_choice scans)) =
     map_option (\<lambda>e. (snd e, quota_time e))
       (quota_choice (scans @ (if has_window (ss_rate_limits (snd entry)) then [entry] else [])))"
proof (cases "has_window (ss_rate_limits (snd entry))")
  case window: True
  have time: "Option.bind (ss_quota_observed_at (snd entry)) timestamp_ms = quota_time entry" by (simp add: quota_time_def)
  show ?thesis
  proof (cases scans)
    case Nil
    then show ?thesis using window by (cases "quota_time entry") (simp_all add: newer_quota_def time quota_choice_def)
  next
    case (Cons first rest)
    show ?thesis
    proof (cases "quota_time first")
      case None
      then show ?thesis using window Cons by (simp add: newer_quota_def time quota_choice_def split: option.split)
    next
      case (Some t)
      then obtain chosen where chosen: "quota_choice scans = Some chosen" "chosen \<in> set scans"
        "quota_time chosen = Some (Max (quota_times scans))"
        unfolding Cons by (rule quota_choice_dated)
      have known: "List.find (\<lambda>e. quota_time e = Some (Max (quota_times scans))) scans = Some chosen"
        using chosen(1) Cons Some by (simp add: quota_choice_def)
      have nonempty: "quota_times scans \<noteq> {}" using chosen(2,3) quota_times_iff by fastforce
      have choice: "quota_choice (scans @ [entry]) =
          List.find (\<lambda>e. quota_time e = Some (Max (quota_times (scans @ [entry])))) (scans @ [entry])"
        using Cons Some by (simp add: quota_choice_def)
      show ?thesis
      proof (cases "quota_time entry")
        case None
        then show ?thesis
          using window chosen known by (simp add: newer_quota_def time choice find_append)
      next
        case (Some now)
        have joined: "Max (insert now (quota_times scans)) = max now (Max (quota_times scans))"
          using nonempty by simp
        show ?thesis
        proof (cases "now > Max (quota_times scans)")
          case True
          then have max: "Max (insert now (quota_times scans)) = now"
            unfolding joined by (intro max_absorb1 less_imp_le)
          have "List.find (\<lambda>e. quota_time e = Some now) scans = None"
            using leD[OF Max_ge[OF finite_quota_times, of now scans]] True
            unfolding find_None_iff_all quota_times_iff by blast
          then show ?thesis
            using window chosen Some True by (simp add: newer_quota_def time choice find_append max)
        next
          case False
          then have max: "Max (insert now (quota_times scans)) = Max (quota_times scans)"
            unfolding joined by (intro max_absorb2) (simp only: not_less)
          show ?thesis
            using window chosen Some False known by (simp add: newer_quota_def time choice find_append max)
        qed
      qed
    qed
  qed
qed (simp add: newer_quota_def)

lemma fold_newer_quota:
  "fold newer_quota scans None = map_option (\<lambda>e. (snd e, quota_time e)) (quota_choice (quota_scans scans))"
proof (induction scans rule: rev_induct)
  case (snoc entry scans)
  then show ?case
    using newer_quota_chosen[of entry "quota_scans scans"] by (simp add: quota_scans_def)
qed (simp add: quota_scans_def quota_choice_def)

text \<open>The latest quota: among the files that carry a quota window, the summary shows the first of those with
  the newest readable time, unless the very first one has no readable time; that one is shown then, however new
  the others are. There is no quota exactly when no file carries a window.\<close>

theorem latest_quota_exact:
  "latest_quota scans = map_option (\<lambda>entry.
     \<lparr> qs_primary = rl_primary (ss_rate_limits (snd entry)), qs_secondary = rl_secondary (ss_rate_limits (snd entry)),
       qs_plan_type = rl_plan_type (ss_rate_limits (snd entry)), qs_observed_at_ms = quota_time entry \<rparr>)
     (quota_choice (quota_scans scans)) \<and>
   (latest_quota scans = None \<longleftrightarrow> quota_scans scans = [])"
proof -
  have chosen: "quota_choice cs = None \<longleftrightarrow> cs = []" for cs
  proof (cases cs)
    case (Cons first rest)
    then show ?thesis
    proof (cases "quota_time first")
      case (Some t)
      then show ?thesis using Cons by (elim quota_choice_dated[of first t rest]) simp
    qed (simp add: quota_choice_def)
  qed (simp add: quota_choice_def)
  show ?thesis
    by (simp add: latest_quota_def fold_newer_quota option.map_comp o_def chosen)
qed

subsection \<open>Bounds\<close>

lemma distinct_ints_between:
  assumes "distinct xs" and "set xs \<subseteq> {a <.. b :: int}"
  shows "length xs \<le> nat (b - a)"
  using card_mono[OF _ assms(2)] distinct_card[OF assms(1)] by simp

lemma sorted_entries_keys: "hwf m \<Longrightarrow> sorted (map fst (sorted_entries m)) \<and> distinct (map fst (sorted_entries m))"
  unfolding sorted_entries_def hwf_def by (metis distinct_sort mset_eq_imp_distinct_iff mset_map mset_sort sorted_sort_key)

lemma hwf_keep_peak [simp, intro]: "hwf m \<Longrightarrow> hwf (keep_peak k percent m)"
  by (simp add: keep_peak_def Let_def)

lemma hwf_fold: "(\<And>x m. hwf m \<Longrightarrow> hwf (g x m)) \<Longrightarrow> hwf m \<Longrightarrow> hwf (fold g xs m)"
  by (induction xs arbitrary: m) auto

lemma merged_hwf: "hwf (merged_minutes scans)" "hwf (merged_quota_minutes scans)"
  unfolding merged_minutes_def merged_quota_minutes_def by (intro hwf_fold; auto intro!: hwf_fold)+

lemma last_sorted: "sorted xs \<Longrightarrow> x \<in> set xs \<Longrightarrow> x \<le> last xs"
  by (induction xs) auto

lemma filter_fst: "map fst (filter (\<lambda>e. P (fst e)) m) = filter P (map fst m)"
  by (induction m) auto

text \<open>The series stay bounded and current: the minutes of a summary are distinct, ascending, and all within the
  48 hours that end at the newest one, so there are at most 2880; the readings of a quota lie within the hour
  that ends at the newest one, so there are at most 120; and a window never opens more day directories than
  it has days (at least one).\<close>

theorem series_bounded:
  "length (aggregate_minutes scans) \<le> 2880 \<and>
   sorted (map mb_minute (aggregate_minutes scans)) \<and> distinct (map mb_minute (aggregate_minutes scans)) \<and>
   (\<exists>newest. set (map mb_minute (aggregate_minutes scans)) \<subseteq> {newest - 2880 <.. newest}) \<and>
   length (aggregate_quota_minutes scans) \<le> 120 \<and>
   length (newest_day_directories env base limit) \<le> max limit 1"
proof (intro conjI)
  let ?kept = "sorted_entries (merged_minutes scans)"
  have keys: "sorted (map fst ?kept)" "distinct (map fst ?kept)" using sorted_entries_keys[OF merged_hwf(1)] by auto
  let ?in_window = "\<lambda>minute. case (if ?kept = [] then None else Some (fst (last ?kept) - 2880)) of
      None \<Rightarrow> True | Some cutoff \<Rightarrow> minute > cutoff"
  have minutes: "map mb_minute (aggregate_minutes scans) = filter ?in_window (map fst ?kept)"
    unfolding filter_fst[symmetric]
    by (simp add: aggregate_minutes_def Let_def MINUTE_WINDOW_MINUTES_def o_def case_prod_unfold)
  show "sorted (map mb_minute (aggregate_minutes scans))" unfolding minutes using keys by (simp add: sorted_wrt_filter)
  show ordered: "distinct (map mb_minute (aggregate_minutes scans))" unfolding minutes using keys by simp
  have within: "set (map mb_minute (aggregate_minutes scans)) \<subseteq> {fst (last ?kept) - 2880 <.. fst (last ?kept)}"
  proof (cases "?kept = []")
    case False
    then have "m \<le> fst (last ?kept)" if "m \<in> set (map fst ?kept)" for m
      using last_sorted[OF keys(1) that] by (simp add: last_map)
    then show ?thesis unfolding minutes using False by (auto simp del: set_map)
  qed (simp add: minutes)
  show "length (aggregate_minutes scans) \<le> 2880"
    using distinct_ints_between[OF ordered within] by simp
  show "\<exists>newest. set (map mb_minute (aggregate_minutes scans)) \<subseteq> {newest - 2880 <.. newest}"
    using within by blast
  let ?quota = "merged_quota_minutes scans"
  show "length (aggregate_quota_minutes scans) \<le> 120"
  proof (cases "?quota = []")
    case False
    let ?newest = "Max ((fst \<circ> fst) ` set ?quota)"
    let ?shown = "filter (\<lambda>k. fst k > ?newest - 60) (map fst (sorted_entries ?quota))"
    have "length (aggregate_quota_minutes scans) = length ?shown"
      using False unfolding filter_fst[symmetric]
      by (simp add: aggregate_quota_minutes_def Let_def QUOTA_MINUTE_WINDOW_def case_prod_unfold)
    moreover have "set ?shown \<subseteq> {?newest - 60 <.. ?newest} \<times> {Primary, Secondary}"
    proof
      fix k assume "k \<in> set ?shown"
      then have k: "fst k > ?newest - 60" "k \<in> fst ` set ?quota" by auto
      then obtain e where "e \<in> set ?quota" "k = fst e" by blast
      then have "fst k \<in> (fst \<circ> fst) ` set ?quota" by (intro image_eqI[of _ _ e]) simp_all
      then have "fst k \<le> ?newest" by (intro Max_ge) simp_all
      then show "k \<in> {?newest - 60 <.. ?newest} \<times> {Primary, Secondary}"
        using k(1) by (cases k; cases "snd k") auto
    qed
    then have "card (set ?shown) \<le> card ({?newest - 60 <.. ?newest} \<times> {Primary, Secondary})"
      by (intro card_mono) simp_all
    moreover have "card ({?newest - 60 <.. ?newest} \<times> {Primary, Secondary}) = 120"
      by (simp add: card_cartesian_product)
    moreover have "distinct ?shown" using sorted_entries_keys[OF merged_hwf(2)[of scans]] by simp
    ultimately show ?thesis by (metis distinct_card)
  qed (simp add: aggregate_quota_minutes_def)
  show "length (newest_day_directories env base limit) \<le> max limit 1"
    by (simp add: newest_day_directories_def Let_def)
qed

subsection \<open>The order of the files does not matter\<close>

lemma add_buckets_assoc: "add_buckets (add_buckets a b) c = add_buckets a (add_buckets b c)"
  by (simp add: add_buckets_def accumulate_assoc mod_simps add.assoc)

interpretation bucket_merge: merging add_buckets
  by unfold_locales (fact add_buckets_assoc, simp add: add_buckets_def accumulate_commute add.commute)

lemma add_to_bucket_merge: "add_to_bucket k usage m = merge_in add_buckets k (clip_usage usage, 1) m"
  by (cases "hget m k")
    (simp_all add: add_to_bucket_def merge_in_def add_buckets_def clip_usage_def[of usage] split: prod.split,
      simp add: clip_usage_def[symmetric])

lemma keep_peak_merge: "keep_peak = merge_in max"
  by (intro ext) (simp add: keep_peak_def merge_in_def max_def split: option.split)

lemma sorted_entries_eq:
  assumes "hwf m" and "hwf m'" and "\<And>k. hget m k = hget m' k"
  shows "sorted_entries m = sorted_entries m'"
proof (rule map_sorted_distinct_set_unique[of fst])
  have "set m = set m'" using assms by (metis hwf_def map_of_eqI map_of_inject_set ext)
  then show "set (sorted_entries m) = set (sorted_entries m')" by simp
  show "inj_on fst (set (sorted_entries m) \<union> set (sorted_entries m'))"
    using assms(1) \<open>set m = set m'\<close> by (simp add: hwf_def distinct_map)
qed (use sorted_entries_keys[OF assms(1)] sorted_entries_keys[OF assms(2)] in auto)

lemma mset_concat_map: "mset xs = mset ys \<Longrightarrow> mset (concat (map g xs)) = mset (concat (map g ys))"
  unfolding mset_concat map_map by (metis mset_map sum_mset_sum_list)

context merging
begin

lemma fold_any_order:
  assumes "\<And>x m. F x m = merge_all f (g x) m" and "mset xs = mset ys"
  shows "sorted_entries (fold F xs []) = sorted_entries (fold F ys [])"
proof -
  have F: "F = (\<lambda>x. merge_all f (g x))" using assms(1) by blast
  show ?thesis
    unfolding F fold_merge_all by (intro sorted_entries_eq merge_all_perm mset_concat_map assms(2)) simp_all
qed

end

text \<open>The entries one scan merges.\<close>

lemma fold_buckets: "fold (\<lambda>(k, usage). add_to_bucket (g k) usage) entries m =
    merge_all add_buckets (map (\<lambda>(k, usage). (g k, (clip_usage usage, 1))) entries) m"
  by (induction entries arbitrary: m) (auto simp: merge_all_def add_to_bucket_merge)

lemma fold_peaks: "fold (\<lambda>(k, percent). keep_peak k percent) entries m = merge_all max entries m"
  by (simp add: merge_all_def keep_peak_merge)

lemma buckets_any_order:
  assumes "mset scans = mset scans'"
  shows "sorted_entries (fold (\<lambda>entry. fold (\<lambda>(k, usage). add_to_bucket (g entry k) usage) (entries_of entry)) scans []) =
    sorted_entries (fold (\<lambda>entry. fold (\<lambda>(k, usage). add_to_bucket (g entry k) usage) (entries_of entry)) scans' [])"
  by (rule bucket_merge.fold_any_order[OF fold_buckets assms])

lemma peaks_any_order:
  assumes "mset scans = mset scans'"
  shows "sorted_entries (fold (\<lambda>entry. fold (\<lambda>(k, percent). keep_peak k percent) (entries_of entry)) scans []) =
    sorted_entries (fold (\<lambda>entry. fold (\<lambda>(k, percent). keep_peak k percent) (entries_of entry)) scans' [])"
  by (rule peak_merge.fold_any_order[OF fold_peaks assms])

lemma tallies_any_order:
  assumes "mset scans = mset scans'"
  shows "sorted_entries (fold (\<lambda>entry. fold (\<lambda>(k, usage). tally (g entry k) usage) (entries_of entry)) scans []) =
    sorted_entries (fold (\<lambda>entry. fold (\<lambda>(k, usage). tally (g entry k) usage) (entries_of entry)) scans' [])"
  by (rule usage_merge.fold_any_order[OF fold_tally assms])

lemma projects_any_order:
  assumes "mset scans = mset scans'"
  shows "sorted_entries (fold (\<lambda>(_, scan) m. case scan_project scan of
        None \<Rightarrow> m | Some project \<Rightarrow> add_to_bucket project (ss_usage scan) m) scans []) =
    sorted_entries (fold (\<lambda>(_, scan) m. case scan_project scan of
        None \<Rightarrow> m | Some project \<Rightarrow> add_to_bucket project (ss_usage scan) m) scans' [])"
  by (rule bucket_merge.fold_any_order[where g = "\<lambda>entry. case scan_project (snd entry) of
        None \<Rightarrow> [] | Some project \<Rightarrow> [(project, (clip_usage (ss_usage (snd entry)), 1))]", OF _ assms])
    (auto simp: merge_all_def add_to_bucket_merge split: option.split)

text \<open>The days: the date of an entry is its key, so merging the dates is harmless.\<close>

definition add_days :: "daily_usage \<Rightarrow> daily_usage \<Rightarrow> daily_usage" where
  "add_days a b = \<lparr> du_date = max (du_date a) (du_date b), du_usage = add_wrapping (du_usage a) (du_usage b),
     du_sessions = du_sessions a + du_sessions b \<rparr>"

definition one_session :: "string \<times> session_scan \<Rightarrow> daily_usage" where
  "one_session entry = \<lparr> du_date = fst entry, du_usage = add_wrapping no_usage (ss_usage (snd entry)), du_sessions = 1 \<rparr>"

lemma wrapping_add_laws:
  "wrapping_add (wrapping_add a b) c = wrapping_add a (wrapping_add b c)" "wrapping_add a b = wrapping_add b a"
  "wrapping_add a (wrapping_add 0 b) = wrapping_add a b"
  by (simp_all add: wrapping_add_def mod_simps ac_simps)

lemma add_days_assoc: "add_days (add_days a b) c = add_days a (add_days b c)"
  by (simp add: add_days_def add_wrapping_def wrapping_add_laws(1) max.assoc)

lemma add_days_commute: "add_days a b = add_days b a"
  by (simp add: add_days_def add_wrapping_def wrapping_add_laws(2) max.commute add.commute)

interpretation day_merge: merging add_days
  by unfold_locales (fact add_days_assoc add_days_commute)+

definition dated :: "(string, daily_usage) hmap \<Rightarrow> bool" where
  "dated days \<longleftrightarrow> (\<forall>(date, day) \<in> set days. du_date day = date)"

lemma add_to_day_merge:
  assumes "dated days"
  shows "add_to_day entry days = merge_in add_days (fst entry) (one_session entry) days"
proof (cases "hget days (fst entry)")
  case None
  then show ?thesis by (simp add: add_to_day_def merge_in_def one_session_def case_prod_unfold)
next
  case (Some day)
  then have "du_date day = fst entry" using assms hget_in_set[OF Some] by (auto simp: dated_def)
  then obtain usage sessions where "day = \<lparr> du_date = fst entry, du_usage = usage, du_sessions = sessions \<rparr>"
    by (cases day) simp
  then show ?thesis
    using Some by (simp add: add_to_day_def merge_in_def one_session_def add_days_def add_wrapping_def no_usage_def
        wrapping_add_laws(3) case_prod_unfold)
qed

lemma dated_add: "dated days \<Longrightarrow> dated (add_to_day entry days)"
proof -
  assume days: "dated days"
  have "du_date (unwrap_or (hget days (fst entry)) \<lparr> du_date = fst entry, du_usage = no_usage, du_sessions = 0 \<rparr>) = fst entry"
    using days by (cases "hget days (fst entry)") (auto simp: dated_def dest: hget_in_set)
  then show ?thesis
    using days by (auto simp: add_to_day_def dated_def case_prod_unfold Let_def dest!: subsetD[OF set_hinsert_subset])
qed

lemma dated_fold: "dated days \<Longrightarrow> dated (fold add_to_day scans days)"
  by (induction scans arbitrary: days) (simp_all add: dated_add)

lemma fold_days:
  "dated days \<Longrightarrow> fold add_to_day scans days = merge_all add_days (map (\<lambda>entry. (fst entry, one_session entry)) scans) days"
proof (induction scans arbitrary: days)
  case (Cons entry scans)
  then show ?case using Cons.IH[OF dated_add[OF Cons.prems]]
    by (simp add: merge_all_def add_to_day_merge[OF Cons.prems])
qed (simp add: merge_all_def)

lemma sort_days: "hwf days \<Longrightarrow> dated days \<Longrightarrow> sort_key du_date (map snd days) = map snd (sorted_entries days)"
proof (rule map_sorted_distinct_set_unique[of du_date])
  assume days: "hwf days" "dated days"
  have keys: "map du_date (map snd ds) = map fst ds" if "set ds = set days" for ds
    using days(2) that by (auto simp: dated_def)
  show "sorted (map du_date (map snd (sorted_entries days)))" "distinct (map du_date (map snd (sorted_entries days)))"
    unfolding keys[OF set_sorted_entries] using sorted_entries_keys[OF days(1)] by simp_all
  show "sorted (map du_date (sort_key du_date (map snd days)))" by simp
  have "mset (map du_date (sort_key du_date (map snd days))) = mset (map du_date (map snd days))"
    by (simp add: multiset.map_comp)
  then show "distinct (map du_date (sort_key du_date (map snd days)))"
    unfolding keys[OF refl] using days(1) mset_eq_imp_distinct_iff unfolding hwf_def by blast
  show "set (sort_key du_date (map snd days)) = set (map snd (sorted_entries days))" by simp
  have "distinct (map du_date (map snd days))" unfolding keys[OF refl] using days(1) by (simp add: hwf_def)
  then have "inj_on du_date (set (map snd days))" unfolding distinct_map by blast
  then show "inj_on du_date (set (sort_key du_date (map snd days)) \<union> set (map snd (sorted_entries days)))" by simp
qed

lemma days_any_order: "mset scans = mset scans' \<Longrightarrow> aggregate_by_day scans = aggregate_by_day scans'"
proof -
  assume same: "mset scans = mset scans'"
  have empty: "dated []" by (simp add: dated_def)
  have sorted_days: "aggregate_by_day ss = rev (map snd (sorted_entries (merge_all add_days (map (\<lambda>entry. (fst entry, one_session entry)) ss) [])))"
    for ss
  proof -
    have folded: "fold add_to_day ss [] = merge_all add_days (map (\<lambda>entry. (fst entry, one_session entry)) ss) []"
      "dated (fold add_to_day ss [])" by (rule fold_days[OF empty], rule dated_fold[OF empty])
    have "hwf (fold add_to_day ss [])" unfolding folded(1) by simp
    then show ?thesis using folded(2) unfolding aggregate_by_day_def folded(1) by (simp only: sort_days)
  qed
  have "sorted_entries (merge_all add_days (map (\<lambda>entry. (fst entry, one_session entry)) scans) []) =
      sorted_entries (merge_all add_days (map (\<lambda>entry. (fst entry, one_session entry)) scans') [])"
    by (intro sorted_entries_eq day_merge.merge_all_perm) (simp_all add: same)
  then show ?thesis by (simp add: sorted_days)
qed

text \<open>C30. A summary does not depend on the order in which the files were scanned: every roll-up of it, that is
  the days, hours, projects, models, providers, the breakdown, the minutes and both series of quota readings,
  is the same for any order of the scans. (The latest quota is the one exception, by its ties.)\<close>

theorem summary_ignores_order:
  assumes "mset scans = mset scans'"
  shows "aggregate_by_day scans = aggregate_by_day scans' \<and>
    aggregate_hours scans = aggregate_hours scans' \<and>
    aggregate_projects scans = aggregate_projects scans' \<and>
    aggregate_models user scans = aggregate_models user scans' \<and>
    aggregate_providers scans = aggregate_providers scans' \<and>
    aggregate_breakdown user scans = aggregate_breakdown user scans' \<and>
    aggregate_minutes scans = aggregate_minutes scans' \<and>
    aggregate_quota_history scans = aggregate_quota_history scans' \<and>
    aggregate_quota_minutes scans = aggregate_quota_minutes scans'"
proof (intro conjI)
  show "aggregate_by_day scans = aggregate_by_day scans'" by (rule days_any_order[OF assms])
  show "aggregate_hours scans = aggregate_hours scans'"
    using buckets_any_order[OF assms, of "\<lambda>entry hour. (fst entry, hour)" "\<lambda>entry. sorted_entries (ss_hourly (snd entry))"]
    by (simp add: aggregate_hours_def Let_def case_prod_unfold)
  show "aggregate_projects scans = aggregate_projects scans'"
    using projects_any_order[OF assms] by (simp add: aggregate_projects_def Let_def)
  show "aggregate_models user scans = aggregate_models user scans'"
    using buckets_any_order[OF assms, of "\<lambda>_ k. k" "\<lambda>entry. sorted_entries (ss_models (snd entry))"]
    by (simp add: aggregate_models_def Let_def case_prod_unfold)
  show "aggregate_providers scans = aggregate_providers scans'"
    using buckets_any_order[OF assms, of "\<lambda>_ k. k" "\<lambda>entry. sorted_entries (ss_providers (snd entry))"]
    by (simp add: aggregate_providers_def Let_def case_prod_unfold)
  show "aggregate_breakdown user scans = aggregate_breakdown user scans'"
    using tallies_any_order[OF assms, of "\<lambda>entry k. (fst entry, fst k, snd k, unwrap_or (scan_project (snd entry)) [])"
        "\<lambda>entry. sorted_entries (ss_by_model_provider (snd entry))"]
    by (simp add: aggregate_breakdown_def tally_breakdown_def[abs_def] Let_def case_prod_unfold)
  have minutes: "sorted_entries (merged_minutes scans) = sorted_entries (merged_minutes scans')"
    using tallies_any_order[OF assms, of "\<lambda>_ k. k" "\<lambda>entry. sorted_entries (ss_minutely (snd entry))"]
    by (simp add: merged_minutes_def case_prod_unfold)
  then show "aggregate_minutes scans = aggregate_minutes scans'" by (simp add: aggregate_minutes_def)
  show "aggregate_quota_history scans = aggregate_quota_history scans'"
    using peaks_any_order[OF assms, of "\<lambda>entry. sorted_entries (ss_quota_history (snd entry))"]
    by (simp add: aggregate_quota_history_def Let_def case_prod_unfold)
  have quota: "sorted_entries (merged_quota_minutes scans) = sorted_entries (merged_quota_minutes scans')"
    using peaks_any_order[OF assms, of "\<lambda>entry. sorted_entries (ss_quota_minutes (snd entry))"]
    by (simp add: merged_quota_minutes_def case_prod_unfold)
  then have "set (merged_quota_minutes scans) = set (merged_quota_minutes scans')" by (metis set_sorted_entries)
  with quota show "aggregate_quota_minutes scans = aggregate_quota_minutes scans'"
    by (simp add: aggregate_quota_minutes_def Let_def flip: set_empty)
qed

text \<open>Two files in either order.\<close>

theorem summary_ignores_order_witness:
  "aggregate_by_day [(''a'', empty_scan), (''b'', empty_scan)] = aggregate_by_day [(''b'', empty_scan), (''a'', empty_scan)]"
  using summary_ignores_order[of "[(''a'', empty_scan), (''b'', empty_scan)]" "[(''b'', empty_scan), (''a'', empty_scan)]"]
  by simp

end
