(* ===== verification/TelegramText.thy ===== *)
theory TelegramText
  imports Decimal "HOL-Library.Sublist"
begin

section \<open>Telegram: texts and their HTML\<close>

text \<open>
  The text functions of \<open>im/telegram/adapter/text_blocks.rs\<close>: what a text of the agent becomes before it is
  sent to Telegram. A text is the list of its Unicode scalar values here, since the code counts \<open>chars()\<close> and
  the texts are rarely Latin; a literal of the source is \<open>scalars\<close> of its characters, or its scalar values
  where it is Chinese. The byte offsets of \<open>str::find\<close> and \<open>rfind\<close> are offsets of scalars.

  \<open>telegram_markdown_to_html\<close> is checked against a reference reader of Telegram's HTML, \<open>shown\<close>, which
  knows the tags Telegram knows: the markup is always complete and well nested, and nothing but markers is lost.
\<close>

type_synonym utext = "nat list"

definition scalars :: "string \<Rightarrow> utext" where
  "scalars s = map of_char s"

definition number :: "nat \<Rightarrow> utext" where
  "number n = scalars (show_nat n)"

subsection \<open>Strings of the standard library\<close>

text \<open>\<open>char::is_whitespace\<close>.\<close>

definition white :: "nat \<Rightarrow> bool" where
  "white c \<longleftrightarrow> (9 \<le> c \<and> c \<le> 13) \<or> c = 32 \<or> c = 133 \<or> c = 160 \<or> c = 5760 \<or> (8192 \<le> c \<and> c \<le> 8202) \<or>
     c = 8232 \<or> c = 8233 \<or> c = 8239 \<or> c = 8287 \<or> c = 12288"

definition utrim_start :: "utext \<Rightarrow> utext" where
  "utrim_start s = dropWhile white s"

definition utrim_end :: "utext \<Rightarrow> utext" where
  "utrim_end s = rev (dropWhile white (rev s))"

definition utrim :: "utext \<Rightarrow> utext" where
  "utrim s = utrim_end (utrim_start s)"

definition begins :: "utext \<Rightarrow> utext \<Rightarrow> bool" where
  "begins p s = (take (length p) s = p)"

definition after_prefix :: "utext \<Rightarrow> utext \<Rightarrow> utext option" where
  "after_prefix p s = (if begins p s then Some (drop (length p) s) else None)"

definition ends :: "utext \<Rightarrow> utext \<Rightarrow> bool" where
  "ends p s = begins (rev p) (rev s)"

text \<open>\<open>str::find\<close>.\<close>

fun locate :: "utext \<Rightarrow> utext \<Rightarrow> nat option" where
  "locate p [] = (if p = [] then Some 0 else None)"
| "locate p (c # s) = (if begins p (c # s) then Some 0 else map_option Suc (locate p s))"

definition occurs :: "utext \<Rightarrow> utext \<Rightarrow> bool" where
  "occurs p s = (locate p s \<noteq> None)"

text \<open>\<open>str::replace\<close> with a character and with a non-empty string.\<close>

definition replace_scalar :: "nat \<Rightarrow> utext \<Rightarrow> utext \<Rightarrow> utext" where
  "replace_scalar c new s = concat (map (\<lambda>x. if x = c then new else [x]) s)"

function replace_all :: "utext \<Rightarrow> utext \<Rightarrow> utext \<Rightarrow> utext" where
  "replace_all p new s =
     (if s = [] \<or> p = [] then s
      else if begins p s then new @ replace_all p new (drop (length p) s)
      else hd s # replace_all p new (tl s))"
  by pat_completeness auto
termination
  by (relation "measure (\<lambda>(p, new, s). length s)") auto

declare replace_all.simps [simp del]

text \<open>\<open>str::lines\<close>: a line ends with a line feed, together with the carriage return before it, or with the
  text.\<close>

definition drop_return :: "utext \<Rightarrow> utext" where
  "drop_return line = (if line \<noteq> [] \<and> last line = 13 then butlast line else line)"

function text_lines :: "utext \<Rightarrow> utext list" where
  "text_lines s =
     (if s = [] then []
      else case dropWhile (\<lambda>c. c \<noteq> 10) s of
        [] \<Rightarrow> [s]
      | _ # rest \<Rightarrow> drop_return (takeWhile (\<lambda>c. c \<noteq> 10) s) # text_lines rest)"
  by pat_completeness auto
termination
proof (relation "measure length", goal_cases)
  case (2 s c rest)
  then show ?case using length_dropWhile_le[of "\<lambda>c. c \<noteq> 10" s] by simp
qed simp

declare text_lines.simps [simp del]

definition join :: "utext \<Rightarrow> utext list \<Rightarrow> utext" where
  "join sep ls = concat (case ls of [] \<Rightarrow> [] | l # rest \<Rightarrow> l # concat (map (\<lambda>x. [sep, x]) rest))"

subsection \<open>Fences and directives\<close>

definition FENCE :: utext where "FENCE = scalars ''```''"

text \<open>The language of a fence line: its first word, reduced to safe characters and cut to 24.\<close>

definition language_scalar :: "nat \<Rightarrow> bool" where
  "language_scalar c \<longleftrightarrow> (48 \<le> c \<and> c \<le> 57) \<or> (65 \<le> c \<and> c \<le> 90) \<or> (97 \<le> c \<and> c \<le> 122) \<or> c = 45 \<or> c = 95 \<or> c = 43"

definition fence_language :: "utext \<Rightarrow> utext option" where
  "fence_language line =
     Option.bind (after_prefix FENCE (utrim_start line)) (\<lambda>info.
       let word = takeWhile (\<lambda>c. \<not> white c) (utrim_start (utrim info));
           language = take 24 (filter language_scalar word)
       in if language = [] then None else Some language)"

definition is_fence :: "utext \<Rightarrow> bool" where
  "is_fence line = begins FENCE (utrim_start line)"

definition is_markdown_fence_line :: "utext \<Rightarrow> bool" where
  "is_markdown_fence_line line = (let line = utrim_start line in begins FENCE line \<or> begins (scalars ''~~~'') line)"

definition is_codex_ui_directive_line :: "utext \<Rightarrow> bool" where
  "is_codex_ui_directive_line line =
     (case after_prefix (scalars ''::'') (utrim line) of
        None \<Rightarrow> False
      | Some rest \<Rightarrow>
          (case locate (scalars ''{'') rest of
             None \<Rightarrow> False
           | Some open_brace \<Rightarrow>
               ends (scalars ''}'') (drop (open_brace + 1) rest) \<and>
               take open_brace rest \<in> {scalars ''code-comment'', scalars ''git-commit'', scalars ''git-create-branch'',
                 scalars ''git-create-pr'', scalars ''git-push'', scalars ''git-stage''}))"

text \<open>The lines that are kept, in order, and whether one was removed; \<open>fenced\<close> is \<open>in_fenced_code\<close>.\<close>

fun kept_lines :: "bool \<Rightarrow> utext list \<Rightarrow> utext list" where
  "kept_lines fenced [] = []"
| "kept_lines fenced (raw_line # rest) =
     (let line = rev (dropWhile (\<lambda>c. c = 13) (rev raw_line))
      in if \<not> fenced \<and> is_codex_ui_directive_line line then kept_lines fenced rest
         else line # kept_lines (if is_markdown_fence_line line then \<not> fenced else fenced) rest)"

definition push_line :: "utext \<Rightarrow> utext \<Rightarrow> utext" where
  "push_line line out =
     (if utrim line = [] \<and> ends [10] out then out
      else (if out = [] then out else out @ [10]) @ line)"

definition strip_codex_ui_directives :: "utext \<Rightarrow> utext" where
  "strip_codex_ui_directives s =
     (let kept = kept_lines False (text_lines s)
      in if length kept = length (text_lines s) then s
         else utrim (fold push_line kept []))"

definition telegram_cleanup_text :: "utext \<Rightarrow> utext" where
  "telegram_cleanup_text s =
     replace_all (scalars ''</font>'') []
       (replace_all (scalars ''<font color='' @ [34] @ scalars ''grey'' @ [34] @ scalars ''>'') []
         (replace_all (scalars ''<font color='' @ [39] @ scalars ''grey'' @ [39] @ scalars ''>'') []
           (strip_codex_ui_directives s)))"

subsection \<open>HTML\<close>

definition telegram_html_escape :: "utext \<Rightarrow> utext" where
  "telegram_html_escape s =
     replace_scalar 62 (scalars ''&gt;'') (replace_scalar 60 (scalars ''&lt;'') (replace_scalar 38 (scalars ''&amp;'') s))"

definition telegram_html_attr_escape :: "utext \<Rightarrow> utext" where
  "telegram_html_attr_escape s = replace_scalar 34 (scalars ''&quot;'') (telegram_html_escape s)"

text \<open>A span between two markers: what lies between, and what follows.\<close>

definition span_between :: "utext \<Rightarrow> utext \<Rightarrow> (utext \<times> utext) option" where
  "span_between marker rest =
     Option.bind (after_prefix marker rest) (\<lambda>after.
       map_option (\<lambda>end_at. (take end_at after, drop (end_at + length marker) after)) (locate marker after))"

definition link_span :: "utext \<Rightarrow> (utext \<times> utext \<times> utext) option" where
  "link_span rest =
     Option.bind (after_prefix (scalars ''['') rest) (\<lambda>after_label.
       Option.bind (locate (scalars '']('') after_label) (\<lambda>label_end.
         map_option (\<lambda>url_end.
             (take label_end after_label, take url_end (drop (label_end + 2) after_label),
              drop (label_end + 2 + url_end + 1) after_label))
           (locate (scalars '')'') (drop (label_end + 2) after_label))))"

definition quoted_tag :: "string \<Rightarrow> utext \<Rightarrow> utext" where
  "quoted_tag start quoted = scalars start @ [34] @ quoted @ [34] @ scalars ''>''"

definition link_html :: "utext \<Rightarrow> utext \<Rightarrow> utext" where
  "link_html label url =
     (if begins (scalars ''http://'') url \<or> begins (scalars ''https://'') url
      then quoted_tag ''<a href='' (telegram_html_attr_escape url) @ telegram_html_escape label @ scalars ''</a>''
      else telegram_html_escape label)"

lemma span_between_shorter:
  "span_between marker rest = Some (inner, after) \<Longrightarrow> marker \<noteq> [] \<Longrightarrow> rest \<noteq> [] \<Longrightarrow> length after < length rest"
  by (auto simp: span_between_def after_prefix_def bind_eq_Some_conv split: if_splits)

lemma link_span_shorter:
  "link_span rest = Some (label, url, after) \<Longrightarrow> rest \<noteq> [] \<Longrightarrow> length after < length rest"
  by (auto simp: link_span_def after_prefix_def bind_eq_Some_conv split: if_splits)

text \<open>The loop over \<open>rest\<close>.\<close>

function telegram_inline_markdown_to_html :: "utext \<Rightarrow> utext" where
  "telegram_inline_markdown_to_html rest =
     (if rest = [] then []
      else case span_between (scalars ''**'') rest of
        Some (bold, after) \<Rightarrow>
          scalars ''<b>'' @ telegram_html_escape bold @ scalars ''</b>'' @ telegram_inline_markdown_to_html after
      | None \<Rightarrow>
        (case span_between (scalars ''`'') rest of
           Some (code, after) \<Rightarrow>
             scalars ''<code>'' @ telegram_html_escape code @ scalars ''</code>'' @ telegram_inline_markdown_to_html after
         | None \<Rightarrow>
           (case link_span rest of
              Some (label, url, after) \<Rightarrow> link_html label url @ telegram_inline_markdown_to_html after
            | None \<Rightarrow> telegram_html_escape [hd rest] @ telegram_inline_markdown_to_html (tl rest))))"
  by pat_completeness auto
termination
  by (relation "measure length")
    (auto simp: scalars_def dest: span_between_shorter link_span_shorter)

declare telegram_inline_markdown_to_html.simps [simp del]

definition fence_html :: "bool \<Rightarrow> utext \<Rightarrow> utext" where
  "fence_html in_code_block line =
     (if in_code_block then scalars ''</code></pre>'' @ [10]
      else case fence_language line of
        Some language \<Rightarrow> scalars ''<pre>'' @ quoted_tag ''<code class='' (scalars ''language-'' @ language)
      | None \<Rightarrow> scalars ''<pre><code>'')"

fun lines_html :: "bool \<Rightarrow> utext list \<Rightarrow> utext" where
  "lines_html in_code_block [] = (if in_code_block then scalars ''</code></pre>'' else [])"
| "lines_html in_code_block (line # rest) =
     (if is_fence line then fence_html in_code_block line @ lines_html (\<not> in_code_block) rest
      else (if in_code_block then telegram_html_escape line else telegram_inline_markdown_to_html line) @ [10] @
        lines_html in_code_block rest)"

definition telegram_markdown_to_html :: "utext \<Rightarrow> utext" where
  "telegram_markdown_to_html s = utrim_end (lines_html False (text_lines (telegram_cleanup_text s)))"

subsection \<open>The messages\<close>

definition TELEGRAM_CARD_SEPARATOR :: utext where "TELEGRAM_CARD_SEPARATOR = replicate 14 9472"

text \<open>A final reply under its card header: as Markdown and as plain text.\<close>

definition telegram_turn_completed_messages :: "utext \<Rightarrow> utext \<Rightarrow> utext \<times> utext" where
  "telegram_turn_completed_messages reply_text header =
     (let reply_text = utrim (telegram_cleanup_text reply_text);
          header = utrim header;
          marked = scalars ''**'' @ header @ scalars ''**''
      in if reply_text = [] then (marked, header)
         else (marked @ [10] @ TELEGRAM_CARD_SEPARATOR @ [10, 10] @ reply_text,
               header @ [10] @ TELEGRAM_CARD_SEPARATOR @ [10, 10] @ reply_text))"

definition plain_with_credit :: "utext \<Rightarrow> utext \<Rightarrow> utext" where
  "plain_with_credit body credit =
     (if credit = [] then body else if body = [] then credit else body @ [10, 10] @ credit)"

text \<open>A message the user typed elsewhere, as a quote, and the notice of a compaction: rich and plain.\<close>

definition telegram_user_message_messages :: "utext \<Rightarrow> utext \<Rightarrow> utext \<times> utext" where
  "telegram_user_message_messages message_text credit_text =
     (let message_text = utrim (telegram_cleanup_text message_text);
          credit_text = utrim credit_text
      in (scalars ''<blockquote>'' @ telegram_markdown_to_html message_text @ [10] @ scalars ''<cite>'' @
            telegram_html_escape credit_text @ scalars ''</cite></blockquote>'',
          plain_with_credit message_text credit_text))"

definition telegram_context_compaction_messages :: "utext \<Rightarrow> utext \<Rightarrow> utext \<times> utext" where
  "telegram_context_compaction_messages title_text credit_text =
     (let title_text = utrim title_text;
          credit_text = utrim credit_text;
          rich_title = telegram_html_escape title_text
      in (if credit_text = [] then scalars ''<aside>'' @ rich_title @ scalars ''</aside>''
          else scalars ''<aside>'' @ rich_title @ scalars ''<cite>'' @ telegram_html_escape credit_text @
            scalars ''</cite></aside>'',
          plain_with_credit title_text credit_text))"

datatype im_locale = ZhCn | EnUs

text \<open>The time a turn took; \<open>as u64\<close> of the seconds wraps.\<close>

definition two_digits :: "nat \<Rightarrow> utext" where
  "two_digits n = (if n < 10 then scalars ''0'' @ number n else number n)"

definition format_turn_elapsed :: "im_locale \<Rightarrow> nat \<Rightarrow> utext" where
  "format_turn_elapsed locale elapsed_ms =
     (let total_seconds = elapsed_ms div 1000 mod 2 ^ 64;
          hours = total_seconds div 3600;
          minutes = total_seconds mod 3600 div 60;
          seconds = total_seconds mod 60
      in case locale of
           ZhCn \<Rightarrow>
             if 0 < hours then number hours @ [23567, 26102] @ number minutes @ [20998]
             else if 0 < minutes then number minutes @ [20998] @ number seconds @ [31186]
             else number seconds @ [31186]
         | EnUs \<Rightarrow>
             if 0 < hours then number hours @ scalars ''h'' @ two_digits minutes @ scalars ''m''
             else if 0 < minutes then number minutes @ scalars ''m'' @ two_digits seconds @ scalars ''s''
             else number seconds @ scalars ''s'')"

text \<open>The label of a button: at most 48 characters, the last one an ellipsis when the text was cut.\<close>

definition ELLIPSIS :: nat where "ELLIPSIS = 8230"

definition truncate_button_text :: "utext \<Rightarrow> utext" where
  "truncate_button_text s =
     (let s = utrim s in if length s \<le> 48 then s else take (48 - 1) s @ [ELLIPSIS])"

subsection \<open>Reading the HTML back\<close>

text \<open>
  A reference reader of the HTML Telegram takes: the open tags, innermost first, and the text shown so far.
  An unknown tag, a closing tag that does not match, an unknown entity or a stray angle bracket is rejected.
\<close>

datatype html_reader =
    InText "utext list" utext
  | InTag "utext list" utext utext
  | InEntity "utext list" utext utext
  | Rejected

definition plain_tags :: "utext set" where
  "plain_tags = {scalars ''b'', scalars ''code'', scalars ''pre'', scalars ''blockquote'', scalars ''cite'', scalars ''aside''}"

text \<open>The attribute value between the quotes after \<open>start\<close>, when that is all of the tag.\<close>

definition quoted_part :: "string \<Rightarrow> utext \<Rightarrow> utext option" where
  "quoted_part start tag =
     Option.bind (after_prefix (scalars start @ [34]) tag) (\<lambda>rest.
       if rest \<noteq> [] \<and> last rest = 34 \<and> 34 \<notin> set (butlast rest) then Some (butlast rest) else None)"

definition finish_tag :: "utext list \<Rightarrow> utext \<Rightarrow> utext \<Rightarrow> html_reader" where
  "finish_tag opened out tag =
     (if tag \<in> plain_tags then InText (tag # opened) out
      else if quoted_part ''a href='' tag \<noteq> None then InText (scalars ''a'' # opened) out
      else if quoted_part ''code class='' tag \<noteq> None then InText (scalars ''code'' # opened) out
      else case after_prefix (scalars ''/'') tag of
        None \<Rightarrow> Rejected
      | Some name \<Rightarrow>
          (case opened of
             [] \<Rightarrow> Rejected
           | innermost # outer \<Rightarrow> if name = innermost then InText outer out else Rejected))"

definition entity :: "utext \<Rightarrow> nat option" where
  "entity name =
     (if name = scalars ''amp'' then Some 38
      else if name = scalars ''lt'' then Some 60
      else if name = scalars ''gt'' then Some 62
      else if name = scalars ''quot'' then Some 34
      else None)"

fun read_scalar :: "html_reader \<Rightarrow> nat \<Rightarrow> html_reader" where
  "read_scalar (InText opened out) c =
     (if c = 60 then InTag opened out []
      else if c = 38 then InEntity opened out []
      else if c = 62 then Rejected
      else InText opened (out @ [c]))"
| "read_scalar (InTag opened out tag) c =
     (if c = 62 then finish_tag opened out tag
      else if c = 60 then Rejected
      else InTag opened out (tag @ [c]))"
| "read_scalar (InEntity opened out name) c =
     (if c = 59 then (case entity name of None \<Rightarrow> Rejected | Some shown_as \<Rightarrow> InText opened (out @ [shown_as]))
      else InEntity opened out (name @ [c]))"
| "read_scalar Rejected c = Rejected"

definition read_html :: "html_reader \<Rightarrow> utext \<Rightarrow> html_reader" where
  "read_html = foldl read_scalar"

text \<open>What Telegram shows of the HTML, if it is well formed.\<close>

definition shown :: "utext \<Rightarrow> utext option" where
  "shown html = (case read_html (InText [] []) html of InText [] out \<Rightarrow> Some out | _ \<Rightarrow> None)"

lemma read_html_simps [simp]:
  "read_html q [] = q"
  "read_html q (c # s) = read_html (read_scalar q c) s"
  "read_html q (s @ t) = read_html (read_html q s) t"
  by (simp_all add: read_html_def)

lemma read_rejected [simp]: "read_html Rejected s = Rejected"
  by (induction s) auto

lemma read_plain: "\<forall>c \<in> set s. c \<notin> {38, 60, 62} \<Longrightarrow> read_html (InText opened out) s = InText opened (out @ s)"
  by (induction s arbitrary: out) auto

lemma read_tag: "60 \<notin> set s \<Longrightarrow> 62 \<notin> set s \<Longrightarrow> read_html (InTag opened out tag) s = InTag opened out (tag @ s)"
  by (induction s arbitrary: tag) auto

text \<open>Escaping.\<close>

definition escaped_scalar :: "nat \<Rightarrow> utext" where
  "escaped_scalar c =
     (if c = 38 then scalars ''&amp;'' else if c = 60 then scalars ''&lt;'' else if c = 62 then scalars ''&gt;'' else [c])"

lemma replace_scalar_simps [simp]:
  "replace_scalar c new [] = []"
  "replace_scalar c new (x # s) = (if x = c then new else [x]) @ replace_scalar c new s"
  "replace_scalar c new (s @ t) = replace_scalar c new s @ replace_scalar c new t"
  by (simp_all add: replace_scalar_def)

lemma escape_simps [simp]:
  "telegram_html_escape [] = []"
  "telegram_html_escape (c # s) = escaped_scalar c @ telegram_html_escape s"
  by (simp_all add: telegram_html_escape_def escaped_scalar_def scalars_def)

lemma attr_escape_simps [simp]:
  "telegram_html_attr_escape [] = []"
  "telegram_html_attr_escape (c # s) =
     (if c = 34 then scalars ''&quot;'' else escaped_scalar c) @ telegram_html_attr_escape s"
  by (auto simp: telegram_html_attr_escape_def escaped_scalar_def scalars_def)

lemma read_escaped: "read_html (InText opened out) (telegram_html_escape s) = InText opened (out @ s)"
  by (induction s arbitrary: out) (auto simp: escaped_scalar_def scalars_def entity_def)

lemma attr_escaped_set: "set (telegram_html_attr_escape s) \<inter> {34, 60, 62} = {}"
  by (induction s) (auto simp: escaped_scalar_def scalars_def split: if_splits)

text \<open>Tags.\<close>

lemma read_plain_tags:
  "read_html (InText opened out) (scalars ''<b>'') = InText (scalars ''b'' # opened) out"
  "read_html (InText opened out) (scalars ''<code>'') = InText (scalars ''code'' # opened) out"
  "read_html (InText opened out) (scalars ''<pre>'') = InText (scalars ''pre'' # opened) out"
  "read_html (InText opened out) (scalars ''<pre><code>'') = InText (scalars ''code'' # scalars ''pre'' # opened) out"
  "read_html (InText opened out) (scalars ''<blockquote>'') = InText (scalars ''blockquote'' # opened) out"
  "read_html (InText opened out) (scalars ''<cite>'') = InText (scalars ''cite'' # opened) out"
  "read_html (InText opened out) (scalars ''<aside>'') = InText (scalars ''aside'' # opened) out"
  by (simp_all add: scalars_def finish_tag_def plain_tags_def)

lemma read_closing_tags:
  "read_html (InText (scalars ''b'' # opened) out) (scalars ''</b>'') = InText opened out"
  "read_html (InText (scalars ''code'' # opened) out) (scalars ''</code>'') = InText opened out"
  "read_html (InText (scalars ''a'' # opened) out) (scalars ''</a>'') = InText opened out"
  "read_html (InText (scalars ''code'' # scalars ''pre'' # opened) out) (scalars ''</code></pre>'') = InText opened out"
  "read_html (InText (scalars ''cite'' # scalars ''blockquote'' # opened) out) (scalars ''</cite></blockquote>'') = InText opened out"
  "read_html (InText (scalars ''cite'' # scalars ''aside'' # opened) out) (scalars ''</cite></aside>'') = InText opened out"
  "read_html (InText (scalars ''aside'' # opened) out) (scalars ''</aside>'') = InText opened out"
  by (simp_all add: scalars_def finish_tag_def plain_tags_def quoted_part_def after_prefix_def begins_def)

lemma read_quoted_tags:
  assumes "set v \<inter> {34, 60, 62} = {}"
  shows "read_html (InText opened out) (quoted_tag ''<a href='' v) = InText (scalars ''a'' # opened) out"
    and "read_html (InText opened out) (quoted_tag ''<code class='' v) = InText (scalars ''code'' # opened) out"
  using assms
  by (auto simp: quoted_tag_def scalars_def read_tag finish_tag_def plain_tags_def quoted_part_def after_prefix_def
      begins_def)

lemmas read_tags = read_plain_tags read_closing_tags read_quoted_tags

subsection \<open>No markup is broken and no text lost\<close>

lemma locate_Some:
  "locate p s = Some i \<Longrightarrow> s = take i s @ p @ drop (i + length p) s"
proof (induction p s arbitrary: i rule: locate.induct)
  case (2 p c s)
  show ?case
  proof (cases "begins p (c # s)")
    case True
    then have "i = 0" "take (length p) (c # s) = p" using 2(2) by (auto simp: begins_def)
    then show ?thesis by (metis add_0 append_Nil append_take_drop_id take_0)
  next
    case False
    then obtain j where "locate p s = Some j" "i = Suc j" using 2(2) by auto
    then show ?thesis using 2(1)[OF False, of j] by simp
  qed
qed (auto split: if_splits)

lemma after_prefix_Some: "after_prefix p s = Some t \<longleftrightarrow> s = p @ t"
  by (auto simp: after_prefix_def begins_def) (metis append_take_drop_id)

lemma span_between_parts: "span_between marker rest = Some (inner, after) \<Longrightarrow> rest = marker @ inner @ marker @ after"
  by (auto simp: span_between_def bind_eq_Some_conv after_prefix_Some dest: locate_Some)

lemma link_span_bracket: "link_span rest = Some parts \<Longrightarrow> 91 \<in> set rest"
  by (auto simp: link_span_def bind_eq_Some_conv after_prefix_Some scalars_def)

text \<open>The characters that are neither white space nor markers.\<close>

definition content :: "utext \<Rightarrow> utext" where
  "content s = filter (\<lambda>c. \<not> white c \<and> c \<noteq> 42 \<and> c \<noteq> 96) s"

lemma content_simps [simp]:
  "content [] = []" "content (s @ t) = content s @ content t"
  "content (c # s) = (if white c \<or> c = 42 \<or> c = 96 then content s else c # content s)"
  by (simp_all add: content_def)

lemma read_link: "\<exists>t. read_html (InText opened out) (link_html label url) = InText opened (out @ t)"
  using attr_escaped_set[of url] by (simp add: link_html_def read_tags read_escaped)

lemma read_inline:
  "\<exists>t. read_html (InText opened out) (telegram_inline_markdown_to_html s) = InText opened (out @ t) \<and>
     (91 \<notin> set s \<longrightarrow> content t = content s)"
proof (induction s arbitrary: out rule: telegram_inline_markdown_to_html.induct)
  case (1 rest)
  note html = telegram_inline_markdown_to_html.simps[of rest]
  consider (empty) "rest = []"
    | (bold) inner after where "span_between (scalars ''**'') rest = Some (inner, after)" "rest \<noteq> []"
    | (code) inner after where "span_between (scalars ''**'') rest = None"
        "span_between (scalars ''`'') rest = Some (inner, after)" "rest \<noteq> []"
    | (link) label url after where "span_between (scalars ''**'') rest = None" "span_between (scalars ''`'') rest = None"
        "link_span rest = Some (label, url, after)" "rest \<noteq> []"
    | (plain) c s where "span_between (scalars ''**'') rest = None" "span_between (scalars ''`'') rest = None"
        "link_span rest = None" "rest = c # s"
    by (cases rest; cases "span_between (scalars ''**'') rest"; cases "span_between (scalars ''`'') rest"; cases "link_span rest") auto
  then show ?case
  proof cases
    case empty
    then show ?thesis using html by simp
  next
    case bold
    obtain t where "read_html (InText opened (out @ inner)) (telegram_inline_markdown_to_html after) = InText opened (out @ inner @ t)"
      "91 \<notin> set after \<longrightarrow> content t = content after"
      using 1(4)[OF bold(2,1) refl, of "out @ inner"] by auto
    then show ?thesis using bold html span_between_parts[OF bold(1)]
      by (intro exI[of _ "inner @ t"]) (auto simp: read_tags read_escaped, simp_all add: scalars_def)
  next
    case code
    obtain t where "read_html (InText opened (out @ inner)) (telegram_inline_markdown_to_html after) = InText opened (out @ inner @ t)"
      "91 \<notin> set after \<longrightarrow> content t = content after"
      using 1(3)[OF code(3,1,2) refl, of "out @ inner"] by auto
    then show ?thesis using code html span_between_parts[OF code(2)]
      by (intro exI[of _ "inner @ t"]) (auto simp: read_tags read_escaped, simp_all add: scalars_def)
  next
    case link
    obtain u where u: "read_html (InText opened out) (link_html label url) = InText opened (out @ u)"
      using read_link by blast
    obtain t where "read_html (InText opened (out @ u)) (telegram_inline_markdown_to_html after) = InText opened (out @ u @ t)"
      using 1(2)[OF link(4,1,2,3) refl refl, of "out @ u"] by auto
    then show ?thesis using link html u link_span_bracket[OF link(3)] by (intro exI[of _ "u @ t"]) auto
  next
    case plain
    obtain t where "read_html (InText opened (out @ [c])) (telegram_inline_markdown_to_html s) = InText opened (out @ [c] @ t)"
      "91 \<notin> set s \<longrightarrow> content t = content s"
      using 1(1)[OF _ plain(1,2,3), of "out @ [c]"] plain(4) by auto
    then show ?thesis using plain html read_escaped[of opened out "[c]"] by (intro exI[of _ "c # t"]) auto
  qed
qed

lemma fence_language_safe: "fence_language line = Some language \<Longrightarrow> set language \<inter> {34, 60, 62} = {}"
proof -
  assume "fence_language line = Some language"
  then have "\<forall>c \<in> set language. language_scalar c"
    by (auto simp: fence_language_def bind_eq_Some_conv Let_def dest!: in_set_takeD split: if_splits)
  then show ?thesis by (auto simp: language_scalar_def)
qed

definition in_block :: "bool \<Rightarrow> utext list \<Rightarrow> utext list" where
  "in_block code opened = (if code then scalars ''code'' # scalars ''pre'' # opened else opened)"

lemma read_fence:
  "read_html (InText (in_block code opened) out) (fence_html code line) =
     InText (in_block (\<not> code) opened) (out @ (if code then [10] else []))"
proof (cases "fence_language line")
  case (Some language)
  have "set (scalars ''language-'' @ language) \<inter> {34, 60, 62} = {}"
    using fence_language_safe[OF Some] by (auto simp: scalars_def)
  then show ?thesis using Some by (simp add: fence_html_def in_block_def read_tags)
qed (simp add: fence_html_def in_block_def read_tags)

lemma read_lines:
  "\<exists>t. read_html (InText (in_block code opened) out) (lines_html code ls) = InText opened (out @ t) \<and>
     (91 \<notin> set (concat ls) \<longrightarrow> content t = content (concat (filter (\<lambda>l. \<not> is_fence l) ls)))"
proof (induction code ls arbitrary: out rule: lines_html.induct)
  case (1 code)
  show ?case by (simp add: in_block_def read_tags)
next
  case (2 code line rest)
  have white: "white 10" by (simp add: white_def)
  consider (fence) "is_fence line" | (code) "\<not> is_fence line" code | (inline) "\<not> is_fence line" "\<not> code" by blast
  then show ?case
  proof cases
    case fence
    let ?out = "out @ (if code then [10] else [])"
    obtain t where "read_html (InText (in_block (\<not> code) opened) ?out) (lines_html (\<not> code) rest) = InText opened (?out @ t)"
      "91 \<notin> set (concat rest) \<longrightarrow> content t = content (concat (filter (\<lambda>l. \<not> is_fence l) rest))"
      using 2(1)[OF fence, of ?out] by auto
    then show ?thesis using fence white
      by (intro exI[of _ "(if code then [10] else []) @ t"]) (auto simp: read_fence)
  next
    case code
    let ?out = "out @ line @ [10]"
    obtain t where "read_html (InText (in_block code opened) ?out) (lines_html code rest) = InText opened (?out @ t)"
      "91 \<notin> set (concat rest) \<longrightarrow> content t = content (concat (filter (\<lambda>l. \<not> is_fence l) rest))"
      using 2(2)[OF code(1), of ?out] by auto
    then show ?thesis using code white by (intro exI[of _ "line @ [10] @ t"]) (auto simp: read_escaped)
  next
    case inline
    obtain u where u: "read_html (InText opened out) (telegram_inline_markdown_to_html line) = InText opened (out @ u)"
      "91 \<notin> set line \<longrightarrow> content u = content line"
      using read_inline by blast
    let ?out = "out @ u @ [10]"
    obtain t where "read_html (InText (in_block code opened) ?out) (lines_html code rest) = InText opened (?out @ t)"
      "91 \<notin> set (concat rest) \<longrightarrow> content t = content (concat (filter (\<lambda>l. \<not> is_fence l) rest))"
      using 2(2)[OF inline(1), of ?out] by auto
    then show ?thesis using inline white u by (intro exI[of _ "u @ [10] @ t"]) (auto simp: in_block_def)
  qed
qed

lemma read_white: "white c \<Longrightarrow> read_scalar q c = InText opened t \<Longrightarrow> \<exists>t'. q = InText opened t' \<and> t = t' @ [c]"
  by (cases q) (auto simp: white_def split: if_splits option.splits)

lemma read_white_end:
  "\<forall>c \<in> set ws. white c \<Longrightarrow> read_html q ws = InText opened t \<Longrightarrow> \<exists>t'. q = InText opened t' \<and> content t = content t'"
proof (induction ws arbitrary: q)
  case (Cons c ws)
  obtain t' where "read_scalar q c = InText opened t'" "content t = content t'"
    using Cons(1)[of "read_scalar q c"] Cons(2,3) by auto
  then show ?case using read_white[of c q opened t'] Cons(2) by auto
qed simp

lemma utrim_end_white: "\<exists>ws. s = utrim_end s @ ws \<and> (\<forall>c \<in> set ws. white c)"
proof -
  have "s = utrim_end s @ rev (takeWhile white (rev s))"
    unfolding utrim_end_def by (metis rev_append rev_rev_ident takeWhile_dropWhile_id)
  then show ?thesis by (metis set_rev set_takeWhileD)
qed

lemma text_lines_set: "set (concat (text_lines s)) \<subseteq> set s"
proof (induction s rule: text_lines.induct)
  case (1 s)
  show ?case
  proof (cases "dropWhile (\<lambda>c. c \<noteq> 10) s")
    case Nil
    then show ?thesis by (simp add: text_lines.simps[of s] del: dropWhile_eq_Nil_conv)
  next
    case (Cons c rest)
    then have "s \<noteq> []" by auto
    have "set (drop_return (takeWhile (\<lambda>c. c \<noteq> 10) s)) \<subseteq> set s"
      by (auto simp: drop_return_def dest: in_set_butlastD set_takeWhileD)
    moreover have "set rest \<subseteq> set s" using Cons set_dropWhileD[of _ "\<lambda>c. c \<noteq> 10" s] by (metis list.set_intros(2) subsetI)
    ultimately show ?thesis using 1[OF \<open>s \<noteq> []\<close> Cons] Cons \<open>s \<noteq> []\<close> by (auto simp: text_lines.simps[of s])
  qed
qed

lemma read_markdown:
  "\<exists>t. read_html (InText opened []) (telegram_markdown_to_html s) = InText opened t \<and>
     (91 \<notin> set (telegram_cleanup_text s) \<longrightarrow>
       content t = content (concat (filter (\<lambda>l. \<not> is_fence l) (text_lines (telegram_cleanup_text s)))))"
proof -
  let ?ls = "text_lines (telegram_cleanup_text s)"
  obtain t where t: "read_html (InText opened []) (lines_html False ?ls) = InText opened t"
    "91 \<notin> set (concat ?ls) \<longrightarrow> content t = content (concat (filter (\<lambda>l. \<not> is_fence l) ?ls))"
    using read_lines[of False opened "[]" ?ls] by (auto simp: in_block_def)
  obtain ws where ws: "lines_html False ?ls = telegram_markdown_to_html s @ ws" "\<forall>c \<in> set ws. white c"
    using utrim_end_white[of "lines_html False ?ls"] by (auto simp: telegram_markdown_to_html_def)
  then obtain t' where "read_html (InText opened []) (telegram_markdown_to_html s) = InText opened t'" "content t = content t'"
    using t(1) read_white_end[of ws "read_html (InText opened []) (telegram_markdown_to_html s)" opened t] by auto
  then show ?thesis using t(2) text_lines_set[of "telegram_cleanup_text s"] by auto
qed

subsection \<open>What cleaning leaves\<close>

text \<open>The content of the lines that are not fences, and the lines of a text as they stand between line feeds.\<close>

definition unfenced :: "utext list \<Rightarrow> utext" where
  "unfenced ls = content (concat (filter (\<lambda>l. \<not> is_fence l) ls))"

lemma unfenced_simps [simp]:
  "unfenced [] = []" "unfenced (l # ls) = (if is_fence l then [] else content l) @ unfenced ls"
  "unfenced (ls @ ls') = unfenced ls @ unfenced ls'"
  by (simp_all add: unfenced_def)

fun segments :: "utext \<Rightarrow> utext list" where
  "segments [] = [[]]"
| "segments (c # s) = (if c = 10 then [] # segments s else (c # hd (segments s)) # tl (segments s))"

lemma segments_nonempty [simp]: "segments s \<noteq> []"
  by (induction s) auto

lemma segments_append: "segments (s @ 10 # t) = segments s @ segments t"
  by (induction s) auto

lemma segments_line: "10 \<notin> set line \<Longrightarrow> segments line = [line]"
  by (induction line) auto

lemma begins_prefix: "begins p s \<longleftrightarrow> prefix p s"
  by (auto simp: begins_def prefix_def) (metis append_take_drop_id)

lemma begins_white_end: "\<forall>c \<in> set ws. white c \<Longrightarrow> \<forall>c \<in> set p. \<not> white c \<Longrightarrow> begins p (s @ ws) \<longleftrightarrow> begins p s"
proof -
  assume ws: "\<forall>c \<in> set ws. white c" and p: "\<forall>c \<in> set p. \<not> white c"
  show ?thesis
  proof
    assume "begins p (s @ ws)"
    then have "prefix p (s @ ws)" by (simp add: begins_prefix)
    then consider "prefix p s" | us where "p = s @ us" "prefix us ws" by (auto simp: prefix_append)
    then show "begins p s"
    proof cases
      case 2
      have "us = []" using 2 ws p by (cases us) (auto simp: prefix_def)
      then show ?thesis using 2 by (simp add: begins_prefix)
    qed (simp add: begins_prefix)
  qed (simp add: begins_prefix prefix_append)
qed

lemma utrim_start_white: "\<forall>c \<in> set s. white c \<Longrightarrow> utrim_start (s @ t) = utrim_start t"
  by (simp add: utrim_start_def dropWhile_append2)

lemma utrim_start_keeps: "\<not> (\<forall>c \<in> set s. white c) \<Longrightarrow> utrim_start (s @ t) = utrim_start s @ t"
  by (metis dropWhile_append1 utrim_start_def)

lemma utrim_start_all_white: "\<forall>c \<in> set s. white c \<Longrightarrow> utrim_start s = []"
  by (simp add: utrim_start_def)

lemma begins_line_white_end:
  assumes "\<forall>c \<in> set ws. white c" and "\<forall>c \<in> set p. \<not> white c" and "p \<noteq> []"
  shows "begins p (utrim_start (line @ ws)) \<longleftrightarrow> begins p (utrim_start line)"
proof (cases "\<forall>c \<in> set line. white c")
  case True
  then show ?thesis using assms by (simp add: utrim_start_white utrim_start_all_white)
next
  case False
  then have "utrim_start (line @ ws) = utrim_start line @ ws" by (rule utrim_start_keeps)
  then show ?thesis using assms begins_white_end by simp
qed

lemma markers_not_white: "\<forall>c \<in> set FENCE. \<not> white c" "FENCE \<noteq> []" "\<forall>c \<in> set (scalars ''~~~''). \<not> white c" "scalars ''~~~'' \<noteq> []"
  by (simp_all add: FENCE_def scalars_def white_def)

lemma fence_white_end: "\<forall>c \<in> set ws. white c \<Longrightarrow> is_fence (line @ ws) \<longleftrightarrow> is_fence line"
  unfolding is_fence_def by (rule begins_line_white_end) (simp_all add: markers_not_white)

lemma fence_white_start: "white c \<Longrightarrow> is_fence (c # line) \<longleftrightarrow> is_fence line"
  by (simp add: is_fence_def utrim_start_def)

lemma content_white: "\<forall>c \<in> set ws. white c \<Longrightarrow> content ws = []"
  by (induction ws) auto

text \<open>Lines with the ends of carriage returns or without.\<close>

definition without_returns :: "utext \<Rightarrow> utext" where
  "without_returns raw_line = rev (dropWhile (\<lambda>c. c = 13) (rev raw_line))"

lemma without_returns_split: "\<exists>ws. raw_line = without_returns raw_line @ ws \<and> (\<forall>c \<in> set ws. white c)"
proof -
  have "raw_line = without_returns raw_line @ rev (takeWhile (\<lambda>c. c = 13) (rev raw_line))"
    unfolding without_returns_def by (metis rev_append rev_rev_ident takeWhile_dropWhile_id)
  moreover have "\<forall>c \<in> set (rev (takeWhile (\<lambda>c. c = 13) (rev raw_line))). white c"
    by (auto simp: white_def dest: set_takeWhileD)
  ultimately show ?thesis by blast
qed

lemma without_returns_same:
  "is_fence (without_returns line) \<longleftrightarrow> is_fence line" "content (without_returns line) = content line"
  "is_markdown_fence_line (without_returns line) \<longleftrightarrow> is_markdown_fence_line line"
  "is_codex_ui_directive_line (without_returns line) \<longleftrightarrow> is_codex_ui_directive_line line"
  "prefix (without_returns line) line"
proof -
  obtain ws where ws: "line = without_returns line @ ws" "\<forall>c \<in> set ws. white c" using without_returns_split by blast
  let ?line = "without_returns line"
  have "is_fence (?line @ ws) \<longleftrightarrow> is_fence ?line" by (rule fence_white_end[OF ws(2)])
  then show "is_fence ?line \<longleftrightarrow> is_fence line" using ws(1) by simp
  have "content (?line @ ws) = content ?line" by (simp add: content_white[OF ws(2)])
  then show "content ?line = content line" using ws(1) by simp
  have "begins FENCE (utrim_start (?line @ ws)) \<longleftrightarrow> begins FENCE (utrim_start ?line)"
    "begins (scalars ''~~~'') (utrim_start (?line @ ws)) \<longleftrightarrow> begins (scalars ''~~~'') (utrim_start ?line)"
    by (rule begins_line_white_end[OF ws(2)]; rule markers_not_white)+
  then show "is_markdown_fence_line ?line \<longleftrightarrow> is_markdown_fence_line line"
    using ws(1) by (simp add: is_markdown_fence_line_def Let_def)
  have "utrim (?line @ ws) = utrim ?line"
  proof (cases "\<forall>c \<in> set ?line. white c")
    case True
    then show ?thesis using ws(2) by (simp add: utrim_def utrim_start_white utrim_start_all_white)
  next
    case False
    moreover have "dropWhile white (rev ws @ x) = dropWhile white x" for x
      by (rule dropWhile_append2) (use ws(2) in auto)
    ultimately show ?thesis by (simp add: utrim_def utrim_start_keeps utrim_end_def)
  qed
  then show "is_codex_ui_directive_line ?line \<longleftrightarrow> is_codex_ui_directive_line line"
    using ws(1) by (simp add: is_codex_ui_directive_line_def)
  show "prefix ?line line" using ws(1) by (metis prefixI)
qed

lemma segments_snoc: "c \<noteq> 10 \<Longrightarrow> segments s = ls @ [l] \<Longrightarrow> segments (s @ [c]) = ls @ [l @ [c]]"
proof (induction s arbitrary: ls l)
  case (Cons a s)
  obtain ls' l' where segs: "segments s = ls' @ [l']" by (metis rev_exhaust segments_nonempty)
  note IH = Cons.IH[OF Cons.prems(1) segs]
  show ?case
  proof (cases "a = 10")
    case True
    then have "ls = [] # ls' \<and> l = l'" using Cons.prems(2) segs by (metis append_Cons append1_eq_conv segments.simps(2))
    then show ?thesis using True IH by simp
  next
    case False
    then show ?thesis using Cons.prems(2) segs IH by (cases ls') auto
  qed
qed simp

lemma segments_white:
  assumes "white c"
  shows "unfenced (segments (c # s)) = unfenced (segments s)" and "unfenced (segments (s @ [c])) = unfenced (segments s)"
proof -
  obtain l ls where segs: "segments s = l # ls" by (meson list.exhaust segments_nonempty)
  then show "unfenced (segments (c # s)) = unfenced (segments s)"
    using assms by (simp add: fence_white_start is_fence_def utrim_start_def begins_def FENCE_def scalars_def)
  show "unfenced (segments (s @ [c])) = unfenced (segments s)"
  proof (cases "c = 10")
    case True
    then show ?thesis by (simp add: segments_append is_fence_def)
  next
    case False
    have "segments (s @ [c]) = butlast (segments s) @ [last (segments s) @ [c]]"
      by (rule segments_snoc[OF False]) simp
    moreover have "is_fence (last (segments s) @ [c]) \<longleftrightarrow> is_fence (last (segments s))"
      by (rule fence_white_end) (simp add: assms)
    moreover have "unfenced (segments s) = unfenced (butlast (segments s) @ [last (segments s)])" by simp
    ultimately show ?thesis using assms by (simp del: append_butlast_last_id)
  qed
qed

lemma segments_white_ends:
  "\<forall>c \<in> set ws. white c \<Longrightarrow> unfenced (segments (ws @ s)) = unfenced (segments s)"
  "\<forall>c \<in> set ws. white c \<Longrightarrow> unfenced (segments (s @ ws)) = unfenced (segments s)"
proof -
  show "\<forall>c \<in> set ws. white c \<Longrightarrow> unfenced (segments (ws @ s)) = unfenced (segments s)"
    by (induction ws) (simp_all add: segments_white(1) del: segments.simps)
  show "\<forall>c \<in> set ws. white c \<Longrightarrow> unfenced (segments (s @ ws)) = unfenced (segments s)"
    by (induction ws rule: rev_induct) (simp_all add: segments_white(2) del: segments.simps flip: append_assoc)
qed

lemma segments_utrim: "unfenced (segments (utrim s)) = unfenced (segments s)"
proof -
  obtain ws where ws: "utrim_start s = utrim s @ ws" "\<forall>c \<in> set ws. white c"
    unfolding utrim_def using utrim_end_white by blast
  have "s = takeWhile white s @ utrim_start s" by (simp add: utrim_start_def)
  moreover have "\<forall>c \<in> set (takeWhile white s). white c" by (auto dest: set_takeWhileD)
  ultimately have "unfenced (segments s) = unfenced (segments (utrim_start s))" using segments_white_ends(1) by metis
  then show ?thesis using segments_white_ends(2)[OF ws(2), of "utrim s"] ws(1) by simp
qed

text \<open>The lines of the standard library have the same content.\<close>

lemma segments_first:
  "segments s = (case dropWhile (\<lambda>c. c \<noteq> 10) s of [] \<Rightarrow> [s] | _ # rest \<Rightarrow> takeWhile (\<lambda>c. c \<noteq> 10) s # segments rest)"
  by (induction s) (auto split: list.splits simp del: dropWhile_eq_Nil_conv)

lemma unfenced_drop_return: "unfenced [drop_return line] = unfenced [line]"
proof (cases "line \<noteq> [] \<and> last line = 13")
  case True
  then have "line = butlast line @ [13]" "drop_return line = butlast line"
    by (metis append_butlast_last_id) (simp add: True drop_return_def)
  moreover have "\<forall>c \<in> set [13]. white c" by (simp add: white_def)
  ultimately show ?thesis using fence_white_end[of "[13]" "butlast line"] content_simps(2)[of "butlast line" "[13]"]
    content_white[of "[13]"] by (metis append_Nil2 unfenced_simps(1,2))
qed (auto simp: drop_return_def)

lemma unfenced_text_lines: "unfenced (text_lines s) = unfenced (segments s)"
proof (induction s rule: text_lines.induct)
  case (1 s)
  show ?case
  proof (cases "s = []")
    case True
    then show ?thesis by (simp add: text_lines.simps)
  next
    case False
    show ?thesis
    proof (cases "dropWhile (\<lambda>c. c \<noteq> 10) s")
      case Nil
      then show ?thesis using False by (simp add: text_lines.simps[of s] segments_first[of s] del: dropWhile_eq_Nil_conv)
    next
      case (Cons c rest)
      have "unfenced (drop_return (takeWhile (\<lambda>c. c \<noteq> 10) s) # text_lines rest) =
          unfenced [takeWhile (\<lambda>c. c \<noteq> 10) s] @ unfenced (segments rest)"
        using 1[OF False Cons] unfenced_drop_return by (metis append_Cons append_Nil unfenced_simps(3))
      then show ?thesis using Cons False by (simp add: text_lines.simps[of s] segments_first[of s])
    qed
  qed
qed

lemma text_lines_one_line: "line \<in> set (text_lines s) \<Longrightarrow> 10 \<notin> set line \<and> sublist line s"
proof (induction s rule: text_lines.induct)
  case (1 s)
  show ?case
  proof (cases "dropWhile (\<lambda>c. c \<noteq> 10) s")
    case Nil
    have "10 \<notin> set s" using Nil by auto
    then show ?thesis using 1(2) Nil by (auto simp: text_lines.simps[of s] simp del: dropWhile_eq_Nil_conv split: if_splits)
  next
    case (Cons c rest)
    then have whole: "s = takeWhile (\<lambda>c. c \<noteq> 10) s @ c # rest" "s \<noteq> []" by (metis takeWhile_dropWhile_id) (use Cons in auto)
    then consider "line = drop_return (takeWhile (\<lambda>c. c \<noteq> 10) s)" | "line \<in> set (text_lines rest)"
      using 1(2) Cons by (auto simp: text_lines.simps[of s])
    then show ?thesis
    proof cases
      case 1
      have "prefix line (takeWhile (\<lambda>c. c \<noteq> 10) s)" unfolding 1 by (simp add: drop_return_def prefixeq_butlast)
      then have "prefix line s" using takeWhile_is_prefix prefix_order.order_trans by blast
      moreover have "10 \<notin> set line"
        using set_mono_prefix[OF \<open>prefix line (takeWhile (\<lambda>c. c \<noteq> 10) s)\<close>] by (auto dest: set_takeWhileD)
      ultimately show ?thesis by (simp add: prefix_imp_sublist)
    next
      case 2
      then have "10 \<notin> set line \<and> sublist line rest" using "1.IH"[OF whole(2) Cons] by blast
      moreover have "suffix rest s" using whole(1) by (metis append_Cons append_Nil append_assoc suffixI)
      ultimately show ?thesis by (meson sublist_order.order.trans suffix_imp_sublist)
    qed
  qed
qed

text \<open>The lines that are to be read: not the fences, and not the directives outside of a block.\<close>

definition inside_block :: "utext list \<Rightarrow> nat \<Rightarrow> bool" where
  "inside_block ls i \<longleftrightarrow> odd (length (filter is_markdown_fence_line (take i ls)))"

definition visible_lines :: "utext list \<Rightarrow> utext list" where
  "visible_lines ls =
     nths ls {i. \<not> is_fence (ls ! i) \<and> (is_codex_ui_directive_line (ls ! i) \<longrightarrow> inside_block ls i)}"

lemma directive_no_fence: "is_codex_ui_directive_line line \<Longrightarrow> \<not> is_markdown_fence_line line"
proof
  assume directive: "is_codex_ui_directive_line line" and fence: "is_markdown_fence_line line"
  from directive obtain rest where "utrim line = scalars ''::'' @ rest"
    by (auto simp: is_codex_ui_directive_line_def after_prefix_Some split: option.splits)
  moreover obtain ws where "utrim_start line = utrim line @ ws" unfolding utrim_def using utrim_end_white by blast
  ultimately have "utrim_start line = 58 # 58 # rest @ ws" by (simp add: scalars_def)
  with fence show False by (auto simp: is_markdown_fence_line_def Let_def begins_def FENCE_def scalars_def)
qed

lemma kept_lines_readable:
  "unfenced (kept_lines fenced ls) = content (concat (nths ls {i. \<not> is_fence (ls ! i) \<and>
     (is_codex_ui_directive_line (ls ! i) \<longrightarrow> fenced \<noteq> inside_block ls i)}))"
proof (induction ls arbitrary: fenced)
  case (Cons line ls)
  have shift: "inside_block (line # ls) (Suc i) \<longleftrightarrow> is_markdown_fence_line line \<noteq> inside_block ls i" for i
    by (auto simp: inside_block_def)
  have first: "\<not> inside_block (line # ls) 0" by (simp add: inside_block_def)
  have "kept_lines fenced (line # ls) =
      (if \<not> fenced \<and> is_codex_ui_directive_line line then kept_lines fenced ls
       else without_returns line # kept_lines (if is_markdown_fence_line line then \<not> fenced else fenced) ls)"
    by (simp add: Let_def without_returns_same flip: without_returns_def)
  then show ?case
    by (cases "is_codex_ui_directive_line line")
      (simp_all add: nths_Cons shift first Cons.IH without_returns_same directive_no_fence del: kept_lines.simps)
qed simp

lemma kept_lines_all:
  "length (kept_lines fenced ls) \<le> length ls"
  "length (kept_lines fenced ls) = length ls \<Longrightarrow> kept_lines fenced ls = map without_returns ls"
proof -
  show shorter: "length (kept_lines fenced ls) \<le> length ls" for ls fenced
    by (induction fenced ls rule: kept_lines.induct) (auto simp: Let_def)
  show "length (kept_lines fenced ls) = length ls \<Longrightarrow> kept_lines fenced ls = map without_returns ls"
  proof (induction ls arbitrary: fenced)
    case (Cons line ls)
    then show ?case using shorter[of fenced ls] by (auto simp: Let_def without_returns_def split: if_splits)
  qed simp
qed

lemma unfenced_without_returns: "unfenced (map without_returns ls) = unfenced ls"
  by (induction ls) (simp_all add: without_returns_same)

lemma unfenced_blank: "utrim line = [] \<Longrightarrow> unfenced [line] = []"
proof -
  assume "utrim line = []"
  then have "\<forall>c \<in> set (utrim_start line). white c"
    using utrim_end_white[of "utrim_start line"] by (auto simp: utrim_def)
  then have "utrim_start line = []" by (metis dropWhile_eq_Nil_conv dropWhile_idem hd_dropWhile list.set_sel(1) utrim_start_def)
  then show ?thesis by (simp add: utrim_start_def content_white)
qed

lemma unfenced_push:
  assumes "10 \<notin> set line"
  shows "unfenced (segments (push_line line out)) = unfenced (segments out) @ unfenced [line]"
proof (cases "utrim line = [] \<and> ends [10] out")
  case True
  then have "unfenced [line] = []" by (intro unfenced_blank) simp
  then show ?thesis using True by (simp add: push_line_def del: unfenced_simps(2))
next
  case False
  have "unfenced (segments []) = []" by (simp add: is_fence_def)
  then show ?thesis using False assms by (auto simp: push_line_def segments_append segments_line simp del: unfenced_simps(2) segments.simps)
qed

lemma unfenced_fold_push:
  "\<forall>line \<in> set ls. 10 \<notin> set line \<Longrightarrow> unfenced (segments (fold push_line ls out)) = unfenced (segments out) @ unfenced ls"
  by (induction ls arbitrary: out) (simp_all add: unfenced_push)

lemma kept_lines_from: "line \<in> set (kept_lines fenced ls) \<Longrightarrow> \<exists>raw \<in> set ls. prefix line raw"
  by (induction fenced ls rule: kept_lines.induct)
    (auto simp: Let_def without_returns_same(5) simp flip: without_returns_def split: if_splits)

lemma unfenced_strip: "unfenced (text_lines (strip_codex_ui_directives s)) = content (concat (visible_lines (text_lines s)))"
proof -
  let ?kept = "kept_lines False (text_lines s)"
  have readable: "unfenced ?kept = content (concat (visible_lines (text_lines s)))"
    by (simp add: kept_lines_readable visible_lines_def)
  have "\<forall>line \<in> set ?kept. 10 \<notin> set line"
    using kept_lines_from text_lines_one_line set_mono_prefix by blast
  then have "unfenced (segments (utrim (fold push_line ?kept []))) = unfenced ?kept"
    by (simp add: segments_utrim unfenced_fold_push is_fence_def begins_def utrim_start_def FENCE_def scalars_def)
  moreover have "unfenced (text_lines s) = unfenced ?kept" if "length ?kept = length (text_lines s)"
    using kept_lines_all(2)[OF that] by (simp add: unfenced_without_returns)
  ultimately show ?thesis using readable by (simp add: strip_codex_ui_directives_def Let_def unfenced_text_lines)
qed

text \<open>The tags of grey text are within a line, so that stripping directives makes none.\<close>

definition grey_font_tags :: "utext set" where
  "grey_font_tags = {scalars ''</font>'', scalars ''<font color='' @ [34] @ scalars ''grey'' @ [34] @ scalars ''>'',
     scalars ''<font color='' @ [39] @ scalars ''grey'' @ [39] @ scalars ''>''}"

lemma replace_nothing: "\<not> sublist p s \<Longrightarrow> replace_all p new s = s"
proof (induction p new s rule: replace_all.induct)
  case (1 p new s)
  show ?case
  proof (cases "s = [] \<or> p = []")
    case False
    then have "\<not> begins p s" "\<not> sublist p (tl s)" using 1(3)
      by (auto simp: begins_prefix) (metis list.collapse sublist_Cons_right)
    then show ?thesis using 1(2) False by (simp add: replace_all.simps[of p new s])
  qed (simp add: replace_all.simps[of p new s])
qed

lemma sublist_join:
  assumes "sublist p (s @ 10 # t)" and "10 \<notin> set p"
  shows "sublist p s \<or> sublist p t"
proof -
  obtain a b where split: "s @ 10 # t = a @ p @ b" using assms(1) by (auto simp: sublist_def)
  then consider us where "s = a @ us" "us @ 10 # t = p @ b" | us where "s @ us = a" "10 # t = us @ p @ b"
    by (auto simp: append_eq_append_conv2)
  then show ?thesis
  proof cases
    case 1
    then consider us' where "us = p @ us'" | us' where "p = us @ us'" "10 # t = us' @ b" by (auto simp: append_eq_append_conv2)
    then show ?thesis
    proof cases
      case 1
      then show ?thesis using \<open>s = a @ us\<close> by (auto simp: sublist_def)
    next
      case 2
      then have "us' = []" using assms(2) by (cases us') auto
      then have "s = a @ p @ []" using 2(1) \<open>s = a @ us\<close> by simp
      then show ?thesis by (metis sublist_appendI)
    qed
  next
    case 2
    then show ?thesis using assms(2) by (cases us; cases p) (auto simp: sublist_def)
  qed
qed

lemma sublist_push:
  assumes "sublist p (push_line line out)" and "10 \<notin> set p"
  shows "sublist p out \<or> sublist p line"
  using assms sublist_join[of p out line] by (auto simp: push_line_def split: if_splits)

lemma sublist_fold_push:
  "sublist p (fold push_line ls out) \<Longrightarrow> 10 \<notin> set p \<Longrightarrow> p \<noteq> [] \<Longrightarrow> sublist p out \<or> (\<exists>line \<in> set ls. sublist p line)"
  by (induction ls arbitrary: out) (fastforce dest: sublist_push)+

lemma strip_makes_none:
  assumes "\<not> sublist p s" and "10 \<notin> set p" and "p \<noteq> []"
  shows "\<not> sublist p (strip_codex_ui_directives s)"
proof
  assume "sublist p (strip_codex_ui_directives s)"
  moreover have "sublist (utrim x) x" for x
    unfolding utrim_def
    by (metis append_Nil2 sublist_appendI sublist_order.order.trans suffix_dropWhile suffix_imp_sublist utrim_end_white
        utrim_start_def append_Nil)
  ultimately have "sublist p (fold push_line (kept_lines False (text_lines s)) [])"
    using assms(1) by (auto simp: strip_codex_ui_directives_def Let_def split: if_splits intro: sublist_order.order.trans)
  then obtain line where "line \<in> set (kept_lines False (text_lines s))" "sublist p line"
    using sublist_fold_push assms(2,3) by fastforce
  then show False
    using kept_lines_from text_lines_one_line assms(1) by (meson prefix_imp_sublist sublist_order.order.trans)
qed

lemma cleanup_untagged:
  assumes "\<forall>tag \<in> grey_font_tags. \<not> sublist tag s"
  shows "telegram_cleanup_text s = strip_codex_ui_directives s"
proof -
  have "\<not> sublist tag (strip_codex_ui_directives s)" if "tag \<in> grey_font_tags" for tag
    using that assms by (intro strip_makes_none) (auto simp: grey_font_tags_def scalars_def)
  then show ?thesis by (simp add: telegram_cleanup_text_def replace_nothing grey_font_tags_def)
qed

lemma strip_set: "set (strip_codex_ui_directives s) \<subseteq> insert 10 (set s)"
proof -
  have "set (fold push_line ls out) \<subseteq> insert 10 (set out \<union> set (concat ls))" for ls out
  proof (induction ls arbitrary: out)
    case (Cons line ls)
    have "set (push_line line out) \<subseteq> insert 10 (set out \<union> set line)" by (auto simp: push_line_def)
    then show ?case using Cons[of "push_line line out"] by fastforce
  qed auto
  moreover have "set (utrim x) \<subseteq> set x" for x
    by (auto simp: utrim_def utrim_start_def utrim_end_def dest!: set_dropWhileD)
  moreover have "set (concat (kept_lines False (text_lines s))) \<subseteq> set s"
    using kept_lines_from text_lines_set[of s] set_mono_prefix by fastforce
  ultimately have "set (utrim (fold push_line (kept_lines False (text_lines s)) [])) \<subseteq> insert 10 (set s)"
    by (metis (no_types, lifting) Un_empty_left empty_set insert_mono order.trans)
  then show ?thesis by (auto simp: strip_codex_ui_directives_def Let_def)
qed

text \<open>C21. A text of the agent always becomes complete HTML. Whatever the text is, the message, the quote of a message
  of the user and the notice of a compaction are well-formed HTML with tags that Telegram knows, so the text
  cannot open a tag or leave one open. And when it has no bracket of a link and no tag of grey text, what Telegram
  shows is the text itself, line by line, apart from white space, the markers \<open>*\<close> and \<open>`\<close>, the fence
  lines, and the lines with directives for the user interface of Codex outside of blocks. With such tags the same
  holds of the cleaned text.\<close>

theorem telegram_html_complete:
  "\<exists>out quote notice. shown (telegram_markdown_to_html s) = Some out \<and>
     shown (fst (telegram_user_message_messages s credit)) = Some quote \<and>
     shown (fst (telegram_context_compaction_messages s credit)) = Some notice \<and>
     (91 \<notin> set s \<and> (\<forall>tag \<in> grey_font_tags. \<not> sublist tag s) \<longrightarrow>
       content out = content (concat (visible_lines (text_lines s)))) \<and>
     (91 \<notin> set (telegram_cleanup_text s) \<longrightarrow>
       content out = content (concat (filter (\<lambda>l. \<not> is_fence l) (text_lines (telegram_cleanup_text s)))))"
proof -
  obtain out where out: "shown (telegram_markdown_to_html s) = Some out"
    "91 \<notin> set (telegram_cleanup_text s) \<longrightarrow>
       content out = content (concat (filter (\<lambda>l. \<not> is_fence l) (text_lines (telegram_cleanup_text s))))"
    using read_markdown[of "[]" s] by (auto simp: shown_def)
  have kept: "content out = content (concat (visible_lines (text_lines s)))"
    if "91 \<notin> set s" "\<forall>tag \<in> grey_font_tags. \<not> sublist tag s"
    using out(2) cleanup_untagged[OF that(2)] unfenced_strip[of s] strip_set[of s] that(1) by (auto simp: unfenced_def)
  let ?body = "utrim (telegram_cleanup_text s)"
  obtain t where t: "read_html (InText [scalars ''blockquote''] []) (telegram_markdown_to_html ?body) = InText [scalars ''blockquote''] t"
    using read_markdown by blast
  have "shown (fst (telegram_user_message_messages s credit)) = Some (t @ [10] @ utrim credit)"
    by (simp add: shown_def telegram_user_message_messages_def Let_def read_tags t read_escaped)
  moreover have "shown (fst (telegram_context_compaction_messages s credit)) = Some (utrim s @ utrim credit)"
    by (simp add: shown_def telegram_context_compaction_messages_def Let_def read_tags read_escaped)
  ultimately show ?thesis using out kept by blast
qed

text \<open>A text with bold words, code and an angle bracket.\<close>

theorem telegram_html_complete_witness:
  "\<exists>out. shown (telegram_markdown_to_html (scalars ''**a** < `b`'')) = Some out \<and> content out = scalars ''a<b''"
proof -
  let ?s = "scalars ''**a** < `b`''"
  have lines: "text_lines ?s = [?s]" by (simp add: scalars_def text_lines.simps)
  have "visible_lines [?s] = [?s]"
    by (simp add: visible_lines_def nths_Cons is_fence_def is_codex_ui_directive_line_def utrim_def utrim_start_def utrim_end_def
        after_prefix_def begins_def FENCE_def scalars_def white_def)
  moreover have "91 \<notin> set ?s" "\<forall>tag \<in> grey_font_tags. \<not> sublist tag ?s"
    by (simp_all add: scalars_def grey_font_tags_def sublist_Cons_right)
  ultimately have "\<exists>out. shown (telegram_markdown_to_html ?s) = Some out \<and> content out = content (concat [?s])"
    using telegram_html_complete[of ?s "[]"] unfolding lines by auto
  moreover have "content (concat [?s]) = scalars ''a<b''" by (simp add: scalars_def white_def)
  ultimately show ?thesis by simp
qed

end
