(* ===== verification/TelegramChunks.thy ===== *)
theory TelegramChunks
  imports TelegramText
begin

section \<open>Telegram: one message at a time\<close>

text \<open>
  A text longer than a Telegram message is cut (\<open>split_message_for_telegram\<close>), code fences that a cut falls into
  are closed and opened again (\<open>rebalance_code_fences\<close>), and the parts are marked as continued
  (\<open>telegram_text_chunks_with_limit\<close>), all of \<open>im/telegram/adapter/text_blocks.rs\<close>; the adapter sends them in
  order (\<open>send_text_with_silence\<close>, \<open>send_turn_completed\<close>, \<open>send_user_message_quote\<close> of
  \<open>im/telegram/adapter.rs\<close>).

  The loop that cuts does not end when there is no room for content, so it is a partial function:
  \<open>None\<close> is a loop that never ends. The theorems say when that is, and that the parts fit, lose nothing and
  keep the code in its fences.
\<close>

definition TELEGRAM_MAX_MESSAGE_CHARS :: nat where "TELEGRAM_MAX_MESSAGE_CHARS = 4096"

definition TELEGRAM_CONTINUATION_OVERHEAD :: nat where "TELEGRAM_CONTINUATION_OVERHEAD = 30"

definition TELEGRAM_FENCE_RESERVE :: nat where "TELEGRAM_FENCE_RESERVE = 32"

subsection \<open>Cutting\<close>

text \<open>\<open>str::rfind\<close> of a character.\<close>

fun locate_last :: "nat \<Rightarrow> utext \<Rightarrow> nat option" where
  "locate_last c [] = None"
| "locate_last c (x # s) =
     (case locate_last c s of
        Some i \<Rightarrow> Some (Suc i)
      | None \<Rightarrow> if x = c then Some 0 else None)"

text \<open>A break after \<open>c\<close>, when it leaves at least half of the room used.\<close>

definition break_after :: "nat \<Rightarrow> utext \<Rightarrow> nat \<Rightarrow> nat option" where
  "break_after c search_area content_limit =
     (case locate_last c search_area of
        None \<Rightarrow> None
      | Some pos \<Rightarrow> if content_limit div 2 \<le> length (take pos search_area) then Some (pos + 1) else None)"

definition best_split_point :: "utext \<Rightarrow> nat \<Rightarrow> nat \<Rightarrow> nat" where
  "best_split_point search_area hard_split content_limit =
     (case break_after 10 search_area content_limit of
        Some chunk_end \<Rightarrow> chunk_end
      | None \<Rightarrow>
          (case break_after 32 search_area content_limit of
             Some chunk_end \<Rightarrow> chunk_end
           | None \<Rightarrow> hard_split))"

partial_function (option) split_loop :: "nat \<Rightarrow> utext \<Rightarrow> utext list \<Rightarrow> utext list option" where
  "split_loop content_limit remaining chunks =
     (if remaining = [] then Some chunks
      else if length remaining \<le> content_limit then Some (chunks @ [remaining])
      else
        let hard_split = content_limit;
            search_area = take hard_split remaining;
            chunk_end = best_split_point search_area hard_split content_limit
        in split_loop content_limit (utrim_start (drop chunk_end remaining))
             (chunks @ [utrim_end (take chunk_end remaining)]))"

definition split_message_for_telegram :: "utext \<Rightarrow> nat \<Rightarrow> utext list option" where
  "split_message_for_telegram message max_chars =
     split_loop (max_chars - TELEGRAM_CONTINUATION_OVERHEAD) message []"

subsection \<open>Fences across cuts\<close>

text \<open>The fence that is open after a line.\<close>

definition next_fence :: "utext \<Rightarrow> utext option \<Rightarrow> utext option" where
  "next_fence line open_language =
     (if is_fence line then (case open_language of Some _ \<Rightarrow> None | None \<Rightarrow> fence_language line) else open_language)"

fun rebalance :: "utext option \<Rightarrow> utext list \<Rightarrow> utext list" where
  "rebalance open_language [] = []"
| "rebalance open_language (chunk # rest) =
     (let opening = (case open_language of Some language \<Rightarrow> FENCE @ language @ [10] | None \<Rightarrow> []);
          body = opening @ concat (map (\<lambda>line. line @ [10]) (text_lines chunk));
          open_language = fold next_fence (text_lines chunk) open_language
      in utrim_end (body @ (if open_language = None then [] else FENCE)) # rebalance open_language rest)"

definition rebalance_code_fences :: "utext list \<Rightarrow> utext list" where
  "rebalance_code_fences chunks = rebalance None chunks"

subsection \<open>Marking\<close>

definition marked_chunk :: "utext \<Rightarrow> utext \<Rightarrow> nat \<Rightarrow> nat \<Rightarrow> utext \<Rightarrow> utext" where
  "marked_chunk continues_marker continued_marker chunk_count index chunk =
     (if index = 0 then chunk @ [10, 10] @ continues_marker
      else if index + 1 = chunk_count then continued_marker @ [10, 10] @ chunk
      else continued_marker @ [10, 10] @ chunk @ [10, 10] @ continues_marker)"

definition telegram_text_chunks_with_limit :: "utext \<Rightarrow> nat \<Rightarrow> utext \<Rightarrow> utext \<Rightarrow> utext list option" where
  "telegram_text_chunks_with_limit s max_chars continues_marker continued_marker =
     (let trimmed = utrim s
      in if trimmed = [] then Some [scalars '' '']
         else if length trimmed \<le> max_chars then Some [trimmed]
         else
           let effective_max = (if occurs FENCE trimmed then max_chars - TELEGRAM_FENCE_RESERVE else max_chars)
           in map_option (\<lambda>pieces.
                let chunks = rebalance_code_fences pieces
                in map2 (marked_chunk continues_marker continued_marker (length chunks)) [0..<length chunks] chunks)
              (split_message_for_telegram trimmed effective_max))"

definition telegram_text_chunks :: "utext \<Rightarrow> utext \<Rightarrow> utext \<Rightarrow> utext list option" where
  "telegram_text_chunks s continues_marker continued_marker =
     telegram_text_chunks_with_limit s TELEGRAM_MAX_MESSAGE_CHARS continues_marker continued_marker"

definition telegram_turn_completed_chunks :: "utext \<Rightarrow> utext \<Rightarrow> utext \<Rightarrow> utext \<Rightarrow> utext list option" where
  "telegram_turn_completed_chunks s header continues_marker continued_marker =
     (let reserved_chars = length (utrim header) + length TELEGRAM_CARD_SEPARATOR + 4;
          max_chars = max (TELEGRAM_MAX_MESSAGE_CHARS - reserved_chars) (TELEGRAM_CONTINUATION_OVERHEAD + 1)
      in telegram_text_chunks_with_limit s max_chars continues_marker continued_marker)"

definition telegram_user_message_chunks :: "utext \<Rightarrow> utext \<Rightarrow> utext \<Rightarrow> utext \<Rightarrow> utext list option" where
  "telegram_user_message_chunks s credit_text continues_marker continued_marker =
     (let reserved_chars = sat_add (length (utrim credit_text)) 2;
          max_chars = max (TELEGRAM_MAX_MESSAGE_CHARS - reserved_chars) (TELEGRAM_CONTINUATION_OVERHEAD + 1)
      in telegram_text_chunks_with_limit s max_chars continues_marker continued_marker)"

text \<open>The markers of the adapter.\<close>

definition chunk_markers :: "im_locale \<Rightarrow> utext \<times> utext" where
  "chunk_markers locale =
     (case locale of
        ZhCn \<Rightarrow> ([65288, 26410, 23436, 24453, 32493, 65289], [65288, 25509, 19978, 25991, 65289])
      | EnUs \<Rightarrow> (scalars ''(continues...)'', scalars ''(continued)''))"

subsection \<open>Where the cuts are\<close>

lemma locate_last_less: "locate_last c s = Some i \<Longrightarrow> i < length s"
  by (induction s arbitrary: i) (auto split: option.splits if_splits)

lemma best_split_point_bounds:
  "length search_area = content_limit \<Longrightarrow> 0 < content_limit \<Longrightarrow>
     0 < best_split_point search_area content_limit content_limit \<and>
     best_split_point search_area content_limit content_limit \<le> content_limit"
  by (auto simp: best_split_point_def break_after_def dest!: locate_last_less split: option.split)

lemma utrim_start_parts: "\<exists>gap. s = gap @ utrim_start s \<and> list_all white gap"
  unfolding utrim_start_def by (metis list_all_iff set_takeWhileD takeWhile_dropWhile_id)

lemma utrim_end_parts: "\<exists>gap. s = utrim_end s @ gap \<and> list_all white gap"
  using utrim_end_white by (simp add: list_all_iff)

lemma utrim_start_hd: "utrim_start s = [] \<or> \<not> white (hd (utrim_start s))"
  unfolding utrim_start_def by (metis hd_dropWhile)

lemma utrim_end_last: "utrim_end s = [] \<or> \<not> white (last (utrim_end s))"
  unfolding utrim_end_def by (metis hd_dropWhile last_rev rev_is_Nil_conv rev_rev_ident)

lemma utrim_start_last: "utrim_start s \<noteq> [] \<Longrightarrow> last (utrim_start s) = last s"
  by (metis last_append utrim_start_parts)

lemma utrim_end_hd: "utrim_end s \<noteq> [] \<Longrightarrow> hd (utrim_end s) = hd s"
  by (metis hd_append2 utrim_end_parts)

lemma length_utrim_start: "length (utrim_start s) \<le> length s"
  by (simp add: utrim_start_def length_dropWhile_le)

lemma length_utrim_end: "length (utrim_end s) \<le> length s"
  by (metis length_dropWhile_le length_rev utrim_end_def)

lemma utrim_end_nonblank: "s \<noteq> [] \<Longrightarrow> \<not> white (hd s) \<Longrightarrow> utrim_end s \<noteq> []"
  by (simp add: utrim_end_def dropWhile_eq_Nil_conv) (metis hd_in_set)

lemma utrim_end_id: "s = [] \<or> \<not> white (last s) \<Longrightarrow> utrim_end s = s"
  by (cases s rule: rev_cases) (auto simp: utrim_end_def)

text \<open>No white space at either end.\<close>

definition tight :: "utext \<Rightarrow> bool" where
  "tight s \<longleftrightarrow> s \<noteq> [] \<and> \<not> white (hd s) \<and> \<not> white (last s)"

lemma utrim_tight: "utrim s = [] \<or> tight (utrim s)"
proof (cases "utrim s = []")
  case False
  then have "utrim_start s \<noteq> []" by (auto simp: utrim_def utrim_end_def)
  then show ?thesis
    using False utrim_end_last[of "utrim_start s"] utrim_end_hd[of "utrim_start s"] utrim_start_hd[of s]
    by (simp add: utrim_def tight_def)
qed simp

text \<open>The pieces of a text with the white space after each.\<close>

definition pieces_of :: "utext list \<Rightarrow> utext \<Rightarrow> bool" where
  "pieces_of pieces s = (\<exists>gaps. length gaps = length pieces \<and> s = concat (map2 (@) pieces gaps) \<and> list_all (list_all white) gaps)"

lemma pieces_of_Nil: "pieces_of [] []"
  by (simp add: pieces_of_def)

lemma pieces_of_Cons:
  assumes "pieces_of pieces s" and "list_all white gap"
  shows "pieces_of (piece # pieces) (piece @ gap @ s)"
proof -
  obtain gaps where "length gaps = length pieces" "s = concat (map2 (@) pieces gaps)" "list_all (list_all white) gaps"
    using assms(1) by (auto simp: pieces_of_def)
  then show ?thesis using assms(2) unfolding pieces_of_def by (intro exI[of _ "gap # gaps"]) simp
qed

text \<open>How a text is cut: while it is longer than the limit, a piece within the limit is taken off with the white
  space after it. A cut without white space is made only after exactly as many characters as the limit, when the
  second half of them has no line break and no space.\<close>

inductive cut_up :: "nat \<Rightarrow> (utext \<times> utext) list \<Rightarrow> utext \<Rightarrow> bool" for limit where
  nothing_left: "cut_up limit [] []"
| last_piece: "length s \<le> limit \<Longrightarrow> tight s \<Longrightarrow> cut_up limit [(s, [])] s"
| one_cut: "limit < length s \<Longrightarrow> s = piece @ gap @ rest \<Longrightarrow> length piece \<le> limit \<Longrightarrow> tight piece \<Longrightarrow> list_all white gap \<Longrightarrow>
    gap \<noteq> [] \<or> length piece = limit \<and> {10, 32} \<inter> set (drop (limit div 2) piece) = {} \<Longrightarrow>
    cut_up limit pieces rest \<Longrightarrow> cut_up limit ((piece, gap) # pieces) s"

lemma cut_up_pieces: "cut_up limit pieces s \<Longrightarrow>
    list_all (\<lambda>piece. length piece \<le> limit \<and> tight piece) (map fst pieces) \<and> pieces_of (map fst pieces) s"
proof (induction rule: cut_up.induct)
  case (last_piece s)
  then show ?case using pieces_of_Cons[OF pieces_of_Nil, of "[]" s] by simp
qed (simp_all add: pieces_of_Nil pieces_of_Cons)

lemma locate_last_Some: "locate_last c s = Some i \<Longrightarrow> s ! i = c \<and> c \<notin> set (drop (Suc i) s)"
proof (induction s arbitrary: i)
  case (Cons x s)
  have "locate_last c s = None \<longleftrightarrow> c \<notin> set s" by (induction s) (auto split: option.split)
  then show ?case using Cons by (auto split: option.splits if_splits)
qed simp

lemma locate_last_None: "locate_last c s = None \<Longrightarrow> c \<notin> set s"
  by (induction s) (auto split: option.splits if_splits)

lemma no_break_after:
  assumes "break_after c s limit = None"
  shows "c \<notin> set (drop (limit div 2) s)"
proof (cases "locate_last c s")
  case None
  then show ?thesis using locate_last_None in_set_dropD by metis
next
  case (Some i)
  then have "i < limit div 2" using assms locate_last_less[OF Some] by (auto simp: break_after_def split: if_splits)
  then have "Suc i \<le> limit div 2" by simp
  from set_drop_subset_set_drop[OF this, of s] show ?thesis using locate_last_Some[OF Some] by auto
qed

lemma white_breaks [simp]: "white 10" "white 32"
  by (simp_all add: white_def)

lemma split_point_cases:
  assumes "length search_area = limit"
  obtains "best_split_point search_area limit limit = limit" "{10, 32} \<inter> set (drop (limit div 2) search_area) = {}"
    | i where "best_split_point search_area limit limit = Suc i" "i < limit" "white (search_area ! i)"
proof (cases "break_after 10 search_area limit")
  case (Some chunk_end)
  then obtain i where "locate_last 10 search_area = Some i" "chunk_end = Suc i"
    by (auto simp: break_after_def split: option.splits if_splits)
  moreover from this have "i < limit" "search_area ! i = 10"
    using locate_last_Some locate_last_less assms by metis+
  ultimately show thesis using that(2)[of i] Some by (simp add: best_split_point_def)
next
  case none: None
  show thesis
  proof (cases "break_after 32 search_area limit")
    case (Some chunk_end)
    then obtain i where "locate_last 32 search_area = Some i" "chunk_end = Suc i"
      by (auto simp: break_after_def split: option.splits if_splits)
    moreover from this have "i < limit" "search_area ! i = 32"
      using locate_last_Some locate_last_less assms by metis+
    ultimately show thesis using that(2)[of i] Some none by (simp add: best_split_point_def)
  next
    case None
    then show thesis using that(1) none no_break_after by (auto simp: best_split_point_def)
  qed
qed

lemma split_loop_cut_up:
  assumes "0 < content_limit"
  shows "remaining = [] \<or> tight remaining \<Longrightarrow>
    \<exists>pieces. split_loop content_limit remaining chunks = Some (chunks @ map fst pieces) \<and> cut_up content_limit pieces remaining"
proof (induction "length remaining" arbitrary: remaining chunks rule: less_induct)
  case less
  show ?case
  proof (cases "length remaining \<le> content_limit")
    case True
    show ?thesis
    proof (cases "remaining = []")
      case True
      then show ?thesis using nothing_left by (intro exI[of _ "[]"]) (simp add: split_loop.simps)
    next
      case False
      then show ?thesis using less(2) last_piece[OF True]
        by (intro exI[of _ "[(remaining, [])]"]) (simp add: split_loop.simps True)
    qed
  next
    case False
    let ?area = "take content_limit remaining"
    define cut where "cut = best_split_point ?area content_limit content_limit"
    have area: "length ?area = content_limit" using False by simp
    have cut: "0 < cut" "cut \<le> content_limit" "cut < length remaining"
      using best_split_point_bounds[OF area assms] False by (auto simp: cut_def)
    let ?piece = "utrim_end (take cut remaining)" and ?rest = "utrim_start (drop cut remaining)"
    have nonempty: "remaining \<noteq> []" using cut by auto
    have tight: "\<not> white (hd remaining)" "\<not> white (last remaining)" using less(2) nonempty by (auto simp: tight_def)
    have step: "split_loop content_limit remaining chunks = split_loop content_limit ?rest (chunks @ [?piece])"
      using False nonempty by (subst split_loop.simps) (simp add: Let_def cut_def)
    have "length ?rest < length remaining"
      using cut length_utrim_start[of "drop cut remaining"] by simp
    moreover have "?rest = [] \<or> tight ?rest"
      using utrim_start_hd utrim_start_last cut(3) tight by (auto simp: tight_def)
    ultimately obtain pieces where pieces:
      "split_loop content_limit ?rest (chunks @ [?piece]) = Some ((chunks @ [?piece]) @ map fst pieces)" "cut_up content_limit pieces ?rest"
      using less(1)[of ?rest "chunks @ [?piece]"] by blast
    have "take cut remaining \<noteq> []" "hd (take cut remaining) = hd remaining" using cut nonempty by auto
    then have "?piece \<noteq> []" using utrim_end_nonblank tight(1) by metis
    then have piece: "tight ?piece" using utrim_end_hd utrim_end_last \<open>hd (take cut remaining) = hd remaining\<close> tight(1)
      by (metis tight_def)
    have short: "length ?piece \<le> content_limit" using length_utrim_end[of "take cut remaining"] cut(2) by simp
    obtain gap1 gap2 where gaps: "take cut remaining = ?piece @ gap1" "drop cut remaining = gap2 @ ?rest"
      "list_all white gap1" "list_all white gap2"
      using utrim_end_parts utrim_start_parts by metis
    then have whole: "remaining = ?piece @ (gap1 @ gap2) @ ?rest" by (metis append.assoc append_take_drop_id)
    have "gap1 @ gap2 \<noteq> [] \<or> length ?piece = content_limit \<and> {10, 32} \<inter> set (drop (content_limit div 2) ?piece) = {}"
    proof (cases "gap1 = []")
      case True
      then have uncut: "?piece = take cut remaining" using gaps(1) by simp
      from area show ?thesis
      proof (rule split_point_cases)
        assume "best_split_point ?area content_limit content_limit = content_limit"
          "{10, 32} \<inter> set (drop (content_limit div 2) ?area) = {}"
        then show ?thesis using uncut False unfolding cut_def by simp
      next
        fix i assume i: "best_split_point ?area content_limit content_limit = Suc i" "i < content_limit" "white (?area ! i)"
        have "last (take cut remaining) = remaining ! i" using i(1) cut(3) unfolding cut_def
          by (simp add: take_Suc_conv_app_nth)
        then show ?thesis using i(2,3) piece unfolding uncut by (simp add: tight_def)
      qed
    qed simp
    with whole short piece gaps(3,4) pieces(2) False have "cut_up content_limit ((?piece, gap1 @ gap2) # pieces) remaining"
      by (intro one_cut[of content_limit remaining ?piece "gap1 @ gap2" ?rest]) auto
    with pieces(1) step show ?thesis by (intro exI[of _ "(?piece, gap1 @ gap2) # pieces"]) simp
  qed
qed

lemma split_loop_cuts:
  assumes "0 < content_limit" and "remaining = [] \<or> tight remaining"
  shows "\<exists>pieces. split_loop content_limit remaining chunks = Some (chunks @ pieces) \<and>
    list_all (\<lambda>piece. length piece \<le> content_limit \<and> tight piece) pieces \<and> pieces_of pieces remaining"
  using split_loop_cut_up[OF assms, of chunks] cut_up_pieces by blast

lemma split_loop_endless:
  assumes "split_loop content_limit remaining chunks = Some out"
  shows "0 < content_limit \<or> list_all white remaining"
proof (rule split_loop.raw_induct[where P = "\<lambda>content_limit remaining chunks out. 0 < content_limit \<or> list_all white remaining", OF _ assms])
  fix f content_limit remaining chunks out
  assume IH: "\<And>content_limit remaining chunks out. f content_limit remaining chunks = Some out \<Longrightarrow>
      0 < content_limit \<or> list_all white remaining"
    and run: "(if remaining = [] then Some chunks
      else if length remaining \<le> content_limit then Some (chunks @ [remaining])
      else
        let hard_split = content_limit;
            search_area = take hard_split remaining;
            chunk_end = best_split_point search_area hard_split content_limit
        in f content_limit (utrim_start (drop chunk_end remaining))
             (chunks @ [utrim_end (take chunk_end remaining)])) = Some out"
  show "0 < content_limit \<or> list_all white remaining"
  proof (cases "content_limit = 0 \<and> remaining \<noteq> []")
    case True
    then have "f 0 (utrim_start remaining) (chunks @ [utrim_end []]) = Some out"
      using run by (simp add: Let_def best_split_point_def break_after_def)
    then have "list_all white (utrim_start remaining)" using IH by blast
    then show ?thesis using utrim_start_parts[of remaining] by (metis list_all_append)
  qed auto
qed

text \<open>The loop ends exactly when there is room for content, or nothing to send.\<close>

lemma split_ends_exactly:
  "split_message_for_telegram s max_chars = None \<longleftrightarrow> max_chars \<le> 30 \<and> \<not> list_all white s" if "s = [] \<or> tight s"
proof (cases "30 < max_chars")
  case True
  then show ?thesis
    using split_loop_cuts[OF _ that, of "max_chars - 30" "[]"]
    by (auto simp: split_message_for_telegram_def TELEGRAM_CONTINUATION_OVERHEAD_def)
next
  case False
  then have run: "split_message_for_telegram s max_chars = split_loop 0 s []"
    by (simp add: split_message_for_telegram_def TELEGRAM_CONTINUATION_OVERHEAD_def)
  show ?thesis
  proof (cases "s = []")
    case True
    then show ?thesis unfolding run by (simp add: split_loop.simps)
  next
    case nonempty: False
    then have "\<not> list_all white s" using that by (auto simp: tight_def list_all_iff)
    then show ?thesis unfolding run using False split_loop_endless[of 0 s "[]"] by (cases "split_loop 0 s []") auto
  qed
qed

subsection \<open>What rebalancing adds\<close>

lemma text_lines_cases:
  obtains (empty) "s = []" "text_lines s = []"
    | (single) "s \<noteq> []" "10 \<notin> set s" "text_lines s = [s]"
    | (more_lines) line rest where "s = line @ 10 # rest" "10 \<notin> set line" "text_lines s = drop_return line # text_lines rest"
proof (cases "dropWhile (\<lambda>c. c \<noteq> 10) s")
  case Nil
  then have "10 \<notin> set s" by (auto simp: dropWhile_eq_Nil_conv)
  then show thesis using that(1,2) Nil text_lines.simps[of "[]"] text_lines.simps[of s] by (cases "s = []") auto
next
  case (Cons c rest)
  then have "c = 10" by (metis (mono_tags, lifting) hd_dropWhile list.sel(1) list.simps(3))
  moreover have "s = takeWhile (\<lambda>c. c \<noteq> 10) s @ c # rest" using Cons by (metis takeWhile_dropWhile_id)
  moreover have "10 \<notin> set (takeWhile (\<lambda>c. c \<noteq> 10) s)" by (auto dest: set_takeWhileD)
  moreover have "s \<noteq> []" using Cons by auto
  ultimately show thesis using that(3) Cons by (auto simp: text_lines.simps[of s])
qed

lemma text_lines_append:
  "10 \<notin> set line \<Longrightarrow> text_lines (line @ 10 # rest) = drop_return line # text_lines rest"
proof (rule text_lines_cases[of "line @ 10 # rest"])
  fix line' rest'
  assume none: "10 \<notin> set line" "10 \<notin> set line'" and same: "line @ 10 # rest = line' @ 10 # rest'"
    and ls: "text_lines (line @ 10 # rest) = drop_return line' # text_lines rest'"
  have "takeWhile (\<lambda>c. c \<noteq> 10) (l @ 10 # r) = l" if "10 \<notin> set l" for l r
    using that by (induction l) auto
  then have "line = line'" using none same by metis
  then have "line = line' \<and> rest = rest'" using same by simp
  then show ?thesis using ls by simp
qed auto

lemma text_lines_single: "s \<noteq> [] \<Longrightarrow> 10 \<notin> set s \<Longrightarrow> text_lines s = [s]"
  by (rule text_lines_cases[of s]) auto

definition lines_size :: "utext list \<Rightarrow> nat" where
  "lines_size ls = sum_list (map (\<lambda>line. Suc (length line)) ls)"

lemma text_lines_size: "lines_size (text_lines s) \<le> Suc (length s)"
proof (induction "length s" arbitrary: s rule: less_induct)
  case less
  show ?case
  proof (rule text_lines_cases[of s])
    fix line rest assume s: "s = line @ 10 # rest" "text_lines s = drop_return line # text_lines rest"
    have "lines_size (text_lines rest) \<le> Suc (length rest)" using less s(1) by simp
    moreover have "length (drop_return line) \<le> length line" by (simp add: drop_return_def)
    ultimately show ?thesis using s by (simp add: lines_size_def)
  qed (auto simp: lines_size_def)
qed

lemma in_text_lines: "line \<in> set (text_lines s) \<Longrightarrow> \<exists>a b. s = a @ line @ b"
proof (induction "length s" arbitrary: s rule: less_induct)
  case less
  show ?case
  proof (rule text_lines_cases[of s])
    fix first rest assume s: "s = first @ 10 # rest" "text_lines s = drop_return first # text_lines rest"
    then consider "line = drop_return first" | "line \<in> set (text_lines rest)" using less(2) by auto
    then show ?thesis
    proof cases
      case 1
      have "\<exists>b. first = drop_return first @ b" by (auto simp: drop_return_def) (metis append_butlast_last_id)
      then show ?thesis using 1 s(1) by (metis append.assoc append_Nil)
    next
      case 2
      then obtain a b where "rest = a @ line @ b" using less(1)[of rest] s(1) by auto
      then show ?thesis using s(1) by (intro exI[of _ "first @ 10 # a"] exI[of _ b]) simp
    qed
  qed (use less(2) in \<open>auto intro: exI[of _ "[]"]\<close>)
qed

lemma occurs_iff: "occurs p s \<longleftrightarrow> (\<exists>a b. s = a @ p @ b)"
proof
  show "occurs p s \<Longrightarrow> \<exists>a b. s = a @ p @ b"
    by (auto simp: occurs_def) (metis locate_Some)
  have "locate p (a @ p @ b) \<noteq> None" for a b
  proof (induction a)
    case Nil
    have "begins p (p @ b)" by (simp add: begins_def)
    then show ?case by (cases "p @ b") auto
  qed simp
  then show "\<exists>a b. s = a @ p @ b \<Longrightarrow> occurs p s" by (auto simp: occurs_def)
qed

lemma is_fence_occurs: "is_fence line \<Longrightarrow> occurs FENCE line"
  unfolding occurs_iff is_fence_def begins_def
  by (metis append_take_drop_id utrim_start_parts)

lemma occurs_mono: "occurs p line \<Longrightarrow> occurs p (a @ line @ b)"
  unfolding occurs_iff by (metis append.assoc)

text \<open>An open fence has a language of at most 24 safe characters.\<close>

fun fence_ok :: "utext option \<Rightarrow> bool" where
  "fence_ok None = True"
| "fence_ok (Some language) \<longleftrightarrow> language \<noteq> [] \<and> length language \<le> 24 \<and> list_all language_scalar language"

lemma fence_language_ok: "fence_ok (fence_language line)"
  by (auto simp: fence_language_def Let_def list_all_iff dest: in_set_takeD split: bind_splits)

lemma next_fence_ok: "fence_ok open_language \<Longrightarrow> fence_ok (fold next_fence ls open_language)"
proof (induction ls arbitrary: open_language)
  case (Cons line ls)
  have "fence_ok (next_fence line open_language)"
    using Cons(2) fence_language_ok by (auto simp: next_fence_def split: option.split)
  then show ?case using Cons(1) by simp
qed simp

lemma length_joined_lines: "length (concat (map (\<lambda>line. line @ [10]) ls)) = lines_size ls"
  by (induction ls) (auto simp: lines_size_def)

lemma rebalance_adds:
  "fence_ok open_language \<Longrightarrow> list_all2 (\<lambda>piece chunk. length chunk \<le> length piece + 32) pieces (rebalance open_language pieces)"
proof (induction open_language pieces rule: rebalance.induct)
  case (2 open_language piece rest)
  let ?closing = "if fold next_fence (text_lines piece) open_language = None then [] else FENCE"
  let ?body = "(case open_language of Some language \<Rightarrow> FENCE @ language @ [10] | None \<Rightarrow> []) @
      concat (map (\<lambda>line. line @ [10]) (text_lines piece))"
  have "length ?body \<le> 28 + Suc (length piece)"
    using 2(2) text_lines_size[of piece] by (auto simp: length_joined_lines FENCE_def scalars_def split: option.splits)
  moreover have "length ?closing \<le> 3" by (simp add: FENCE_def scalars_def)
  moreover have "length (utrim_end (?body @ ?closing)) \<le> length (?body @ ?closing)" by (rule length_utrim_end)
  ultimately have "length (utrim_end (?body @ ?closing)) \<le> length piece + 32" by simp
  then show ?case using 2(1)[OF refl refl refl] next_fence_ok[OF 2(2)] by (simp add: Let_def)
qed simp

lemma fold_next_fence_none: "\<forall>line \<in> set ls. \<not> is_fence line \<Longrightarrow> fold next_fence ls open_language = open_language"
  by (induction ls) (auto simp: next_fence_def)

lemma rebalance_plain:
  "list_all (\<lambda>piece. \<not> occurs FENCE piece) pieces \<Longrightarrow>
     list_all2 (\<lambda>piece chunk. length chunk \<le> length piece) pieces (rebalance None pieces)"
proof (induction pieces)
  case (Cons piece rest)
  have "\<forall>line \<in> set (text_lines piece). \<not> is_fence line"
    using Cons(2) in_text_lines[of _ piece] is_fence_occurs occurs_mono by (metis list.pred_inject(2))
  then have closed: "fold next_fence (text_lines piece) None = None" by (rule fold_next_fence_none)
  let ?body = "concat (map (\<lambda>line. line @ [10]) (text_lines piece))"
  have "length (utrim_end ?body) \<le> length piece"
  proof (cases "text_lines piece" rule: rev_cases)
    case (snoc ls line)
    then have "?body = (concat (map (\<lambda>line. line @ [10]) ls) @ line) @ [10]" by simp
    then have "utrim_end ?body = utrim_end (concat (map (\<lambda>line. line @ [10]) ls) @ line)"
      by (simp add: utrim_end_def white_def)
    moreover have "length (concat (map (\<lambda>line. line @ [10]) ls) @ line) \<le> length piece"
      using text_lines_size[of piece] snoc by (simp add: length_joined_lines lines_size_def)
    ultimately show ?thesis using length_utrim_end le_trans by metis
  qed (simp add: utrim_end_def)
  then show ?case using Cons closed by (simp add: Let_def)
qed simp

subsection \<open>Every part fits into a message\<close>

lemma pieces_occur: "pieces_of pieces s \<Longrightarrow> piece \<in> set pieces \<Longrightarrow> \<exists>a b. s = a @ piece @ b"
proof (induction pieces arbitrary: s)
  case (Cons first rest)
  obtain gaps where gaps: "length gaps = Suc (length rest)" "s = concat (map2 (@) (first # rest) gaps)"
    "list_all (list_all white) gaps"
    using Cons(2) by (auto simp: pieces_of_def)
  then obtain gap more_gaps where split: "gaps = gap # more_gaps" by (cases gaps) auto
  then have s: "s = first @ gap @ concat (map2 (@) rest more_gaps)" using gaps(2) by simp
  show ?case
  proof (cases "piece = first")
    case True
    then show ?thesis using s by (metis append_Nil)
  next
    case False
    have "pieces_of rest (concat (map2 (@) rest more_gaps))"
      using gaps split unfolding pieces_of_def by (intro exI[of _ more_gaps]) simp
    moreover have "piece \<in> set rest" using Cons(3) False by simp
    ultimately obtain a b where "concat (map2 (@) rest more_gaps) = a @ piece @ b" using Cons(1) by blast
    then show ?thesis using s by (metis append.assoc)
  qed
qed simp

lemma list_all2_bound:
  "list_all2 R xs ys \<Longrightarrow> list_all P xs \<Longrightarrow> (\<And>x y. P x \<Longrightarrow> R x y \<Longrightarrow> Q y) \<Longrightarrow> list_all2 (\<lambda>x y. Q y) xs ys"
  by (induction rule: list_all2_induct) auto

lemma rebalance_fits:
  assumes "pieces_of pieces s" and "list_all (\<lambda>piece. length piece + (if occurs FENCE s then 32 else 0) \<le> room) pieces"
  shows "list_all2 (\<lambda>piece chunk. length chunk \<le> room) pieces (rebalance_code_fences pieces)"
proof (cases "occurs FENCE s")
  case True
  then show ?thesis using assms(2) unfolding rebalance_code_fences_def
    by (intro list_all2_bound[OF rebalance_adds[of None pieces] assms(2)]) auto
next
  case False
  then have "list_all (\<lambda>piece. \<not> occurs FENCE piece) pieces"
    using pieces_occur[OF assms(1)] occurs_mono by (metis list_all_iff)
  then show ?thesis using False unfolding rebalance_code_fences_def
    by (intro list_all2_bound[OF rebalance_plain[of pieces] assms(2)]) auto
qed

lemma chunks_fit:
  assumes "length continues_marker + length continued_marker \<le> 26" and "62 < max_chars"
  shows "\<exists>chunks. telegram_text_chunks_with_limit s max_chars continues_marker continued_marker = Some chunks \<and>
    chunks \<noteq> [] \<and> list_all (\<lambda>chunk. length chunk \<le> max_chars) chunks"
proof (cases "utrim s = [] \<or> length (utrim s) \<le> max_chars")
  case True
  then show ?thesis using assms(2) by (auto simp: telegram_text_chunks_with_limit_def Let_def scalars_def)
next
  case False
  let ?s = "utrim s"
  define room where "room = max_chars - 30"
  define limit where "limit = (if occurs FENCE ?s then max_chars - 32 else max_chars) - 30"
  have limit: "0 < limit" "limit + (if occurs FENCE ?s then 32 else 0) = room" using assms(2) by (auto simp: limit_def room_def)
  obtain pieces where pieces: "split_loop limit ?s [] = Some pieces" "list_all (\<lambda>piece. length piece \<le> limit \<and> tight piece) pieces"
    "pieces_of pieces ?s"
    using split_loop_cuts[OF limit(1), of ?s "[]"] utrim_tight by auto
  have "pieces \<noteq> []" using pieces(3) False by (auto simp: pieces_of_def)
  define chunks where "chunks = rebalance_code_fences pieces"
  have "list_all2 (\<lambda>piece chunk. length chunk \<le> room) pieces chunks"
    unfolding chunks_def using pieces(2) limit(2) by (intro rebalance_fits[OF pieces(3)]) (auto simp: list_all_iff)
  then have chunks: "\<forall>i < length chunks. length (chunks ! i) \<le> room" "chunks \<noteq> []"
    using \<open>pieces \<noteq> []\<close> by (auto simp: list_all2_conv_all_nth)
  let ?marked = "map2 (marked_chunk continues_marker continued_marker (length chunks)) [0..<length chunks] chunks"
  have marked: "length (marked_chunk continues_marker continued_marker n i chunk) \<le> length chunk + 30" for n i chunk
    using assms(1) by (simp add: marked_chunk_def)
  have "length (?marked ! i) \<le> max_chars" if "i < length ?marked" for i
  proof -
    have "i < length chunks" using that by simp
    then have "length (chunks ! i) + 30 \<le> max_chars" using chunks(1) assms(2) by (auto simp: room_def)
    then show ?thesis using that marked[of "length chunks" i "chunks ! i"] by simp
  qed
  then have "list_all (\<lambda>chunk. length chunk \<le> max_chars) ?marked" by (simp only: list_all_length) blast
  moreover have "telegram_text_chunks_with_limit s max_chars continues_marker continued_marker = Some ?marked"
    using False pieces(1)
    by (cases "occurs FENCE ?s") (simp_all add: telegram_text_chunks_with_limit_def split_message_for_telegram_def limit_def chunks_def Let_def
        TELEGRAM_FENCE_RESERVE_def TELEGRAM_CONTINUATION_OVERHEAD_def)
  ultimately show ?thesis using chunks(2) by (intro exI[of _ ?marked]) simp
qed

subsection \<open>Cleaning makes a text no longer\<close>

lemma replace_all_shorter: "length (replace_all p [] s) \<le> length s"
proof (induction p "[] :: utext" s rule: replace_all.induct)
  case (1 p s)
  consider "s = [] \<or> p = []" | "s \<noteq> []" "p \<noteq> []" "begins p s" | "s \<noteq> []" "p \<noteq> []" "\<not> begins p s" by blast
  then show ?case
  proof cases
    case 2
    then show ?thesis using 1(1) replace_all.simps[of p "[]" s] by (simp add: le_diff_conv)
  next
    case 3
    then show ?thesis using 1(2) replace_all.simps[of p "[]" s] by (cases s) auto
  qed (auto simp: replace_all.simps[of p "[]" s])
qed

lemma fold_push_line_size: "length (fold push_line ls out) \<le> length out + lines_size ls"
proof (induction ls arbitrary: out)
  case (Cons line ls)
  have "length (push_line line out) \<le> length out + Suc (length line)" by (simp add: push_line_def)
  then show ?case using Cons[of "push_line line out"] by (simp add: lines_size_def)
qed (simp add: lines_size_def)

lemma length_dropWhile_rev: "length (rev (dropWhile P (rev s))) \<le> length s"
  by (metis length_dropWhile_le length_rev)

lemma kept_lines_size:
  "lines_size (kept_lines fenced ls) \<le> lines_size ls" "length (kept_lines fenced ls) \<le> length ls"
  "length (kept_lines fenced ls) \<noteq> length ls \<longrightarrow> lines_size (kept_lines fenced ls) < lines_size ls"
proof (induction fenced ls rule: kept_lines.induct)
  case (2 fenced raw_line rest)
  let ?line = "rev (dropWhile (\<lambda>c. c = 13) (rev raw_line))"
  have shorter: "length ?line \<le> length raw_line" by (rule length_dropWhile_rev)
  show "lines_size (kept_lines fenced (raw_line # rest)) \<le> lines_size (raw_line # rest)"
    using 2(1)[OF refl] 2(4)[OF refl] shorter by (auto simp: lines_size_def Let_def)
  show "length (kept_lines fenced (raw_line # rest)) \<le> length (raw_line # rest)"
    using 2(2)[OF refl] 2(5)[OF refl] by (auto simp: Let_def)
  show "length (kept_lines fenced (raw_line # rest)) \<noteq> length (raw_line # rest) \<longrightarrow>
      lines_size (kept_lines fenced (raw_line # rest)) < lines_size (raw_line # rest)"
    using 2(1,3)[OF refl] 2(4,6)[OF refl] shorter by (auto simp: lines_size_def Let_def)
qed (simp_all add: lines_size_def)

lemma length_utrim: "length (utrim s) \<le> length s"
  using length_utrim_start[of s] length_utrim_end[of "utrim_start s"] by (simp add: utrim_def)

lemma strip_shorter: "length (strip_codex_ui_directives s) \<le> length s"
proof -
  let ?kept = "kept_lines False (text_lines s)"
  have "length (utrim (fold push_line ?kept [])) \<le> lines_size ?kept"
    using length_utrim fold_push_line_size[of ?kept "[]"] by (metis add_0 le_trans list.size(3))
  moreover have "length ?kept \<noteq> length (text_lines s) \<Longrightarrow> lines_size ?kept \<le> length s"
    using kept_lines_size(3)[where fenced = False and ls = "text_lines s"] text_lines_size[of s] by simp
  ultimately show ?thesis by (auto simp: strip_codex_ui_directives_def Let_def)
qed

lemma cleanup_shorter: "length (telegram_cleanup_text s) \<le> length s"
  unfolding telegram_cleanup_text_def by (meson le_trans replace_all_shorter strip_shorter)

subsection \<open>Code stays code\<close>

text \<open>
  How \<open>telegram_markdown_to_html\<close> reads lines: every line that is no fence with the code block it is in, if any,
  and the block's language, if any. A fence line inside a block closes it, whatever follows the fence.
\<close>

fun line_marks :: "utext option option \<Rightarrow> utext list \<Rightarrow> (utext \<times> utext option option) list" where
  "line_marks code [] = []"
| "line_marks code (line # rest) =
     (if is_fence line then line_marks (case code of Some _ \<Rightarrow> None | None \<Rightarrow> Some (fence_language line)) rest
      else (line, code) # line_marks code rest)"

text \<open>Every fence that opens a block names its language.\<close>

fun labelled :: "bool \<Rightarrow> utext list \<Rightarrow> bool" where
  "labelled code [] = True"
| "labelled code (line # rest) =
     (if is_fence line then (code \<or> fence_language line \<noteq> None) \<and> labelled (\<not> code) rest
      else labelled code rest)"

lemma line_marks_append:
  "labelled (open_language \<noteq> None) (ls @ rest) \<Longrightarrow>
     line_marks (map_option Some open_language) (ls @ rest) =
       line_marks (map_option Some open_language) ls @ line_marks (map_option Some (fold next_fence ls open_language)) rest \<and>
     labelled (fold next_fence ls open_language \<noteq> None) rest"
proof (induction ls arbitrary: open_language)
  case (Cons line ls)
  have "labelled (next_fence line open_language \<noteq> None) (ls @ rest)"
    using Cons(2) by (cases open_language) (auto simp: next_fence_def split: if_splits)
  moreover have "is_fence line \<Longrightarrow> map_option Some (next_fence line open_language) =
      (case map_option Some open_language of Some _ \<Rightarrow> None | None \<Rightarrow> Some (fence_language line))"
    using Cons(2) by (cases open_language) (auto simp: next_fence_def)
  moreover have "\<not> is_fence line \<Longrightarrow> next_fence line open_language = open_language" by (simp add: next_fence_def)
  ultimately show ?case using Cons(1)[of "next_fence line open_language"] by (cases "is_fence line") auto
qed simp

lemma reopened_fence:
  assumes "fence_ok (Some language)"
  shows "is_fence (FENCE @ language)" and "fence_language (FENCE @ language) = Some language"
proof -
  have plain: "\<forall>c \<in> set language. \<not> white c"
    using assms by (auto simp: list_all_iff language_scalar_def white_def)
  have start: "utrim_start (FENCE @ language) = FENCE @ language"
    by (simp add: utrim_start_def FENCE_def scalars_def white_def)
  then show "is_fence (FENCE @ language)" by (simp add: is_fence_def begins_def)
  have "dropWhile white language = language" using plain by (simp add: dropWhile_eq_self_iff)
  then have "utrim_start (utrim language) = language"
    using plain assms utrim_end_id[of language] by (simp add: utrim_def utrim_start_def)
  moreover have words: "takeWhile (\<lambda>c. \<not> white c) language = language" using plain by (simp add: takeWhile_eq_all_conv)
  moreover have "filter language_scalar language = language" using assms by (simp add: list_all_iff)
  ultimately show "fence_language (FENCE @ language) = Some language"
    using assms words by (simp add: fence_language_def start after_prefix_Some[THEN iffD2, OF refl] Let_def del: takeWhile_eq_all_conv)
qed

lemma drop_return_id: "13 \<notin> set line \<Longrightarrow> drop_return line = line"
  by (metis drop_return_def last_in_set)

lemma text_lines_joined:
  "list_all (\<lambda>line. 10 \<notin> set line \<and> 13 \<notin> set line) ls \<Longrightarrow>
     text_lines (concat (map (\<lambda>line. line @ [10]) ls) @ rest) = ls @ text_lines rest"
proof (induction ls)
  case (Cons line ls)
  then show ?case
    using text_lines_append[of line "concat (map (\<lambda>line. line @ [10]) ls) @ rest"] by (auto simp: drop_return_id)
qed simp

lemma text_lines_last:
  "s \<noteq> [] \<Longrightarrow> \<not> white (last s) \<Longrightarrow> \<exists>ls line. text_lines s = ls @ [line] \<and> line \<noteq> [] \<and> \<not> white (last line)"
proof (induction "length s" arbitrary: s rule: less_induct)
  case less
  show ?case
  proof (rule text_lines_cases[of s])
    fix line rest assume s: "s = line @ 10 # rest" "text_lines s = drop_return line # text_lines rest"
    have "rest \<noteq> []" "\<not> white (last rest)" using less(2,3) s(1) by (auto simp: white_def split: if_splits)
    then obtain ls l where "text_lines rest = ls @ [l] \<and> l \<noteq> [] \<and> \<not> white (last l)" using less(1)[of rest] s(1) by auto
    then show ?thesis using s(2) by (intro exI[of _ "drop_return line # ls"] exI[of _ l]) simp
  qed (use less(2,3) in auto)
qed

lemma text_lines_no_breaks: "13 \<notin> set s \<Longrightarrow> list_all (\<lambda>line. 10 \<notin> set line \<and> 13 \<notin> set line) (text_lines s)"
proof (induction "length s" arbitrary: s rule: less_induct)
  case less
  show ?case
  proof (rule text_lines_cases[of s])
    fix line rest assume s: "s = line @ 10 # rest" "10 \<notin> set line" "text_lines s = drop_return line # text_lines rest"
    moreover have "drop_return line = line" using less(2) s(1) by (intro drop_return_id) simp
    ultimately show ?thesis using less by simp
  qed (use less(2) in auto)
qed

definition opening_lines :: "utext option \<Rightarrow> utext list" where
  "opening_lines open_language = (case open_language of Some language \<Rightarrow> [FENCE @ language] | None \<Rightarrow> [])"

lemma rebalanced_lines:
  assumes "tight piece" and "13 \<notin> set piece" and "fence_ok open_language"
  shows "text_lines (utrim_end (((case open_language of Some language \<Rightarrow> FENCE @ language @ [10] | None \<Rightarrow> []) @
      concat (map (\<lambda>line. line @ [10]) (text_lines piece))) @ (if closed then [] else FENCE))) =
    opening_lines open_language @ text_lines piece @ (if closed then [] else [FENCE])"
proof -
  let ?ls = "opening_lines open_language @ text_lines piece"
  have body: "(case open_language of Some language \<Rightarrow> FENCE @ language @ [10] | None \<Rightarrow> []) @
      concat (map (\<lambda>line. line @ [10]) (text_lines piece)) = concat (map (\<lambda>line. line @ [10]) ?ls)"
    by (simp add: opening_lines_def split: option.split)
  have fence: "10 \<notin> set FENCE" "13 \<notin> set FENCE" "FENCE \<noteq> []" "\<not> white (last FENCE)"
    by (auto simp: FENCE_def scalars_def white_def)
  have "list_all (\<lambda>line. 10 \<notin> set line \<and> 13 \<notin> set line) (opening_lines open_language)"
  proof (cases open_language)
    case (Some language)
    then have "10 \<notin> set language \<and> 13 \<notin> set language" using assms(3) by (auto simp: list_all_iff language_scalar_def)
    then show ?thesis using Some fence by (simp add: opening_lines_def)
  qed (simp add: opening_lines_def)
  then have plain: "list_all (\<lambda>line. 10 \<notin> set line \<and> 13 \<notin> set line) ?ls" using text_lines_no_breaks[OF assms(2)] by simp
  show ?thesis
  proof (cases closed)
    case True
    obtain ls line where last: "text_lines piece = ls @ [line]" "line \<noteq> []" "\<not> white (last line)"
      using text_lines_last assms(1) by (metis tight_def)
    let ?front = "concat (map (\<lambda>line. line @ [10]) (opening_lines open_language @ ls))"
    have "utrim_end (concat (map (\<lambda>line. line @ [10]) ?ls)) = utrim_end ((?front @ line) @ [10])" using last(1) by simp
    also have "\<dots> = ?front @ line" using last(2,3) utrim_end_id[of "?front @ line"] by (simp add: utrim_end_def white_def)
    finally show ?thesis
      using True body plain last text_lines_joined[of "opening_lines open_language @ ls" line] text_lines_single[of line] by simp
  next
    case False
    have "utrim_end (concat (map (\<lambda>line. line @ [10]) ?ls) @ FENCE) = concat (map (\<lambda>line. line @ [10]) ?ls) @ FENCE"
      using fence by (intro utrim_end_id) simp
    then show ?thesis using False body plain text_lines_joined[of ?ls FENCE] text_lines_single[of FENCE] fence by simp
  qed
qed

lemma rebalance_marks:
  assumes "list_all (\<lambda>piece. tight piece \<and> 13 \<notin> set piece) pieces" and "fence_ok open_language"
    and "labelled (open_language \<noteq> None) (concat (map text_lines pieces))"
  shows "concat (map (\<lambda>chunk. line_marks None (text_lines chunk)) (rebalance open_language pieces)) =
    line_marks (map_option Some open_language) (concat (map text_lines pieces))"
  using assms
proof (induction open_language pieces rule: rebalance.induct)
  case (2 open_language piece rest)
  let ?ls = "text_lines piece" and ?later = "concat (map text_lines rest)"
  let ?next = "fold next_fence ?ls open_language"
  have whole: "line_marks (map_option Some open_language) (?ls @ ?later) =
      line_marks (map_option Some open_language) ?ls @ line_marks (map_option Some ?next) ?later"
    and later: "labelled (?next \<noteq> None) ?later"
    using line_marks_append[of open_language ?ls ?later] 2(4) by auto
  have fence: "is_fence FENCE" by (simp add: is_fence_def FENCE_def scalars_def utrim_start_def begins_def white_def)
  have closing: "line_marks code (ls @ [FENCE]) = line_marks code ls" for code ls
    using fence by (induction code ls rule: line_marks.induct) auto
  have "line_marks None (opening_lines open_language @ ls) = line_marks (map_option Some open_language) ls" for ls
    using reopened_fence 2(3) by (cases open_language) (auto simp: opening_lines_def)
  then have "line_marks None (opening_lines open_language @ ?ls @ (if ?next = None then [] else [FENCE])) =
      line_marks (map_option Some open_language) ?ls"
    using closing[of None "opening_lines open_language @ ?ls"] by simp
  then show ?case
    using 2(1)[OF refl refl refl] 2(2) next_fence_ok[OF 2(3), of ?ls] later whole
      rebalanced_lines[of piece open_language "?next = None"] 2(3) by (simp add: Let_def)
qed simp

text \<open>
  The characters of a text with the code block each is in; white space is left out, since cutting drops it. The
  fences and the other characters, in order, say all of it.
\<close>

definition character_marks :: "utext option option \<Rightarrow> utext list \<Rightarrow> (nat \<times> utext option option) list" where
  "character_marks code ls = concat (map (\<lambda>(line, mark). map (\<lambda>c. (c, mark)) (filter (\<lambda>c. \<not> white c) line)) (line_marks code ls))"

definition events :: "utext list \<Rightarrow> (utext option + nat) list" where
  "events ls = concat (map (\<lambda>line. if is_fence line then [Inl (fence_language line)] else map Inr (filter (\<lambda>c. \<not> white c) line)) ls)"

lemma events_simps [simp]:
  "events [] = []" "events (ls @ ls') = events ls @ events ls'"
  "events (line # ls) = (if is_fence line then [Inl (fence_language line)] else map Inr (filter (\<lambda>c. \<not> white c) line)) @ events ls"
  by (simp_all add: events_def)

fun marks_of_events :: "utext option option \<Rightarrow> (utext option + nat) list \<Rightarrow> (nat \<times> utext option option) list" where
  "marks_of_events code [] = []"
| "marks_of_events code (Inl language # rest) = marks_of_events (case code of Some _ \<Rightarrow> None | None \<Rightarrow> Some language) rest"
| "marks_of_events code (Inr c # rest) = (c, code) # marks_of_events code rest"

fun labelled_events :: "bool \<Rightarrow> (utext option + nat) list \<Rightarrow> bool" where
  "labelled_events code [] = True"
| "labelled_events code (Inl language # rest) = ((code \<or> language \<noteq> None) \<and> labelled_events (\<not> code) rest)"
| "labelled_events code (Inr c # rest) = labelled_events code rest"

lemma character_marks_events: "character_marks code ls = marks_of_events code (events ls)"
proof -
  have "marks_of_events code (map Inr cs @ rest) = map (\<lambda>c. (c, code)) cs @ marks_of_events code rest" for code cs rest
    by (induction cs) auto
  then show ?thesis by (induction code ls rule: line_marks.induct) (auto simp: character_marks_def)
qed

lemma labelled_iff_events: "labelled code ls \<longleftrightarrow> labelled_events code (events ls)"
proof -
  have "labelled_events code (map Inr cs @ rest) = labelled_events code rest" for code cs rest by (induction cs) auto
  then show ?thesis by (induction code ls rule: labelled.induct) auto
qed

text \<open>White space at the ends of a line or of a text changes none of it.\<close>

lemma fence_language_white:
  assumes "\<forall>c \<in> set ws. white c" and "is_fence line"
  shows "fence_language (ws @ line) = fence_language line" and "fence_language (line @ ws) = fence_language line"
proof -
  show "fence_language (ws @ line) = fence_language line" using assms(1) by (simp add: fence_language_def utrim_start_white)
  obtain info where info: "utrim_start line = FENCE @ info"
    using assms(2) by (metis is_fence_def begins_prefix prefix_def)
  then have "\<not> (\<forall>c \<in> set line. white c)" using utrim_start_all_white by (force simp: FENCE_def scalars_def)
  then have "utrim_start (line @ ws) = FENCE @ info @ ws" using utrim_start_keeps info by simp
  moreover have "utrim (info @ ws) = utrim info"
  proof (cases "\<forall>c \<in> set info. white c")
    case True
    then show ?thesis using assms(1) by (simp add: utrim_def utrim_start_white utrim_start_all_white)
  next
    case False
    moreover have "dropWhile white (rev ws @ x) = dropWhile white x" for x
      by (rule dropWhile_append2) (use assms(1) in auto)
    ultimately show ?thesis by (simp add: utrim_def utrim_start_keeps utrim_end_def)
  qed
  ultimately show "fence_language (line @ ws) = fence_language line"
    by (simp add: fence_language_def info after_prefix_Some[THEN iffD2, OF refl])
qed

lemma events_white_line:
  assumes "\<forall>c \<in> set ws. white c"
  shows "events [ws @ line] = events [line]" and "events [line @ ws] = events [line]"
proof -
  have "is_fence (ws @ line) \<longleftrightarrow> is_fence line" using assms by (simp add: is_fence_def utrim_start_white)
  moreover have "filter (\<lambda>c. \<not> white c) ws = []" using assms by simp
  ultimately show "events [ws @ line] = events [line]" "events [line @ ws] = events [line]"
    using fence_language_white[OF assms] fence_white_end[OF assms] by auto
qed

lemma segments_ends:
  obtains (one) line where "segments s = [line]" "s = line" "10 \<notin> set s"
    | (more) line ls where "segments s = line # ls" "10 \<in> set s"
  by (cases "10 \<in> set s") (metis neq_Nil_conv segments_nonempty, metis segments_line)

lemma segments_join:
  assumes "10 \<notin> set gap"
  shows "segments (s @ gap @ t) = butlast (segments s) @ [last (segments s) @ gap @ hd (segments t)] @ tl (segments t)"
proof (induction s)
  case Nil
  have "segments (gap @ t) = (gap @ hd (segments t)) # tl (segments t)" using assms by (induction gap) auto
  then show ?case by simp
next
  case (Cons c s)
  obtain l ls where "segments s = l # ls" by (meson list.exhaust segments_nonempty)
  then show ?case using Cons by (cases ls) auto
qed

lemma blank_no_fence [simp]: "\<not> is_fence []"
  by (simp add: is_fence_def begins_def utrim_start_def FENCE_def scalars_def)

lemma events_white:
  assumes "\<forall>c \<in> set ws. white c"
  shows "events (segments (ws @ s)) = events (segments s)" and "events (segments (s @ ws)) = events (segments s)"
proof -
  show "events (segments (ws @ s)) = events (segments s)" using assms
  proof (induction ws)
    case (Cons c ws)
    obtain l ls where "segments (ws @ s) = l # ls" by (meson list.exhaust segments_nonempty)
    then show ?case using Cons events_white_line(1)[of "[c]" l]
      by (cases "c = 10") simp_all
  qed simp
  show "events (segments (s @ ws)) = events (segments s)" using assms
  proof (induction ws rule: rev_induct)
    case (snoc c ws)
    obtain ls l where segs: "segments (s @ ws) = ls @ [l]" by (metis rev_exhaust segments_nonempty)
    have "events (segments ((s @ ws) @ [c])) = events (segments (s @ ws))"
    proof (cases "c = 10")
      case True
      then show ?thesis using segments_append[of "s @ ws" "[]"] by simp
    next
      case False
      show ?thesis unfolding segments_snoc[OF False segs] segs
        using events_white_line(2)[of "[c]" l] snoc.prems by simp
    qed
    then show ?case using snoc by simp
  qed simp
qed

lemma events_over_break:
  assumes "10 \<in> set gap" and "\<forall>c \<in> set gap. white c"
  shows "events (segments (piece @ gap @ rest)) = events (segments piece) @ events (segments rest)"
proof -
  obtain gap1 gap2 where gap: "gap = gap1 @ 10 # gap2" using assms(1) by (meson split_list)
  have "events (segments (piece @ gap @ rest)) = events (segments (piece @ gap1)) @ events (segments (gap2 @ rest))"
    unfolding gap using segments_append[of "piece @ gap1" "gap2 @ rest"] by simp
  then show ?thesis using events_white assms(2) by (simp add: gap)
qed

lemma events_within_line:
  assumes "10 \<notin> set gap" and "\<forall>c \<in> set gap. white c" and "piece \<noteq> []"
    and "\<not> is_fence (last (segments piece) @ gap @ hd (segments rest))" and "\<not> is_fence (hd (segments rest))"
  shows "events (segments (piece @ gap @ rest)) = events (segments piece) @ events (segments rest)"
proof -
  have "prefix (utrim_start l) (utrim_start (l @ t))" for l t
    by (cases "\<forall>c \<in> set l. white c") (simp_all add: utrim_start_all_white utrim_start_keeps)
  then have "\<not> is_fence (last (segments piece))"
    using assms(4) unfolding is_fence_def begins_prefix by (meson prefix_order.order_trans)
  moreover have "filter (\<lambda>c. \<not> white c) gap = []" using assms(2) by simp
  moreover have "events (segments piece) = events (butlast (segments piece)) @ events [last (segments piece)]"
    by (metis append_butlast_last_id events_simps(2) segments_nonempty)
  moreover have "events (segments rest) = events [hd (segments rest)] @ events (tl (segments rest))"
    by (metis append_Cons append_Nil events_simps(2) list.collapse segments_nonempty)
  ultimately show ?thesis unfolding segments_join[OF assms(1)] using assms(4,5) by simp
qed

text \<open>No cut within a line cuts the fence of that line, or leaves a line that begins with a fence.\<close>

definition text_of :: "(utext \<times> utext) list \<Rightarrow> utext" where
  "text_of pieces = concat (map (\<lambda>(piece, gap). piece @ gap) pieces)"

fun spares_fences :: "(utext \<times> utext) list \<Rightarrow> bool" where
  "spares_fences [] = True"
| "spares_fences ((piece, gap) # rest) = ((10 \<in> set gap \<or> rest = [] \<or>
     \<not> is_fence (last (segments piece) @ gap @ hd (segments (text_of rest))) \<and> \<not> is_fence (hd (segments (text_of rest)))) \<and>
     spares_fences rest)"

lemma text_lines_segments:
  assumes "13 \<notin> set s" and "s \<noteq> []" and "\<not> white (last s)"
  shows "text_lines s = segments s"
  using assms
proof (induction "length s" arbitrary: s rule: less_induct)
  case less
  show ?case
  proof (cases "dropWhile (\<lambda>c. c \<noteq> 10) s")
    case Nil
    then show ?thesis using less.prems by (simp add: text_lines.simps[of s] segments_first[of s] del: dropWhile_eq_Nil_conv)
  next
    case (Cons c rest)
    then have s: "s = takeWhile (\<lambda>c. c \<noteq> 10) s @ c # rest" by (metis takeWhile_dropWhile_id)
    have "c = 10" using Cons hd_dropWhile[of "\<lambda>c. c \<noteq> 10" s] by simp
    have "rest \<noteq> []"
    proof
      assume "rest = []"
      then have "last s = 10" using s \<open>c = 10\<close> by (metis last_snoc)
      then show False using less.prems(3) by simp
    qed
    moreover have "13 \<notin> set rest" "13 \<notin> set (takeWhile (\<lambda>c. c \<noteq> 10) s)" "length rest < length s"
      using less.prems(1) s by (metis Un_iff list.set_intros(2) set_append, metis set_takeWhileD,
        metis add_Suc_right length_Cons length_append less_add_Suc2)
    moreover from calculation(1) have "last rest = last s" using s by (metis last_ConsR last_appendR list.distinct(1))
    ultimately have "text_lines rest = segments rest" using less.hyps[of rest] less.prems(3) by simp
    then show ?thesis
      using Cons less.prems(2) drop_return_id[OF \<open>13 \<notin> set (takeWhile (\<lambda>c. c \<noteq> 10) s)\<close>]
      by (simp add: text_lines.simps[of s] segments_first[of s])
  qed
qed

lemma cut_up_events:
  "cut_up limit pieces s \<Longrightarrow> spares_fences pieces \<Longrightarrow> s = text_of pieces \<and>
     events (concat (map (\<lambda>(piece, _). segments piece) pieces)) = (if pieces = [] then [] else events (segments s))"
proof (induction rule: cut_up.induct)
  case (one_cut s piece gap rest pieces)
  then have whole: "s = piece @ gap @ text_of pieces" "rest = text_of pieces" by simp_all
  have white: "\<forall>c \<in> set gap. white c" using one_cut(5) by (simp add: list_all_iff)
  have later: "events (concat (map (\<lambda>(piece, _). segments piece) pieces)) = (if pieces = [] then [] else events (segments rest))"
    using one_cut by simp
  have "events (segments s) = events (segments piece) @ (if pieces = [] then [] else events (segments rest))"
  proof (cases "pieces = []")
    case True
    then show ?thesis using whole events_white(2)[OF white, of piece] by (simp add: text_of_def)
  next
    case False
    have nonempty: "piece \<noteq> []" using one_cut(4) by (simp add: tight_def)
    have "10 \<in> set gap \<or> \<not> is_fence (last (segments piece) @ gap @ hd (segments rest)) \<and> \<not> is_fence (hd (segments rest))"
      using one_cut.prems False whole(2) by simp
    then show ?thesis
      using events_over_break[OF _ white, of piece rest] events_within_line[OF _ white nonempty, of rest] False one_cut(2) by auto
  qed
  then show ?case using later whole(1) by (simp add: text_of_def)
qed (simp_all add: text_of_def)

text \<open>C22. A long text is cut without losing any of it and its code stays code. While the text is longer than the
  room in a message, a piece within it is taken off at white space, which is dropped; only when there is no line
  break and no space in the second half of the room a word is cut. A text without carriage returns in which
  every code block names its language, cut so that no fence line is cut and no piece begins with a fence in the
  middle of a line, keeps its code: in the parts that are sent every character, white space apart, is read inside
  the same block of the same language, or outside of one, as in the text itself.\<close>

theorem long_text_keeps_code:
  assumes "30 < max_chars"
  shows "\<exists>pieces. split_message_for_telegram (utrim s) max_chars = Some (map fst pieces) \<and>
    cut_up (max_chars - 30) pieces (utrim s) \<and> utrim s = text_of pieces \<and>
    (13 \<notin> set s \<and> labelled False (text_lines (utrim s)) \<and> spares_fences pieces \<longrightarrow>
      concat (map (\<lambda>chunk. character_marks None (text_lines chunk)) (rebalance_code_fences (map fst pieces))) =
        character_marks None (text_lines (utrim s)))"
proof -
  have "0 < max_chars - 30" using assms(1) by simp
  then obtain pieces where pieces: "split_message_for_telegram (utrim s) max_chars = Some (map fst pieces)"
    "cut_up (max_chars - 30) pieces (utrim s)"
    using split_loop_cut_up[of "max_chars - 30" "utrim s" "[]"] utrim_tight
    by (auto simp: split_message_for_telegram_def TELEGRAM_CONTINUATION_OVERHEAD_def)
  have whole: "utrim s = text_of pieces" using pieces(2) by (induction rule: cut_up.induct) (simp_all add: text_of_def)
  note shape = cut_up_pieces[OF pieces(2)]
  have "concat (map (\<lambda>chunk. character_marks None (text_lines chunk)) (rebalance_code_fences (map fst pieces))) =
      character_marks None (text_lines (utrim s))"
    if plain: "13 \<notin> set s" and labels: "labelled False (text_lines (utrim s))" and spared: "spares_fences pieces"
  proof (cases "pieces = []")
    case True
    then show ?thesis using whole by (simp add: text_of_def rebalance_code_fences_def text_lines.simps character_marks_def)
  next
    case False
    have "set (utrim s) \<subseteq> set s"
      by (auto simp: utrim_def utrim_end_def utrim_start_def dest!: set_dropWhileD)
    then have "13 \<notin> set piece" if "piece \<in> set (map fst pieces)" for piece
      using pieces_occur[OF shape[THEN conjunct2] that] plain by auto
    then have tight_pieces: "list_all (\<lambda>piece. tight piece \<and> 13 \<notin> set piece) (map fst pieces)" using shape by (auto simp: list_all_iff)
    then have lines: "map text_lines (map fst pieces) = map (\<lambda>(piece, _). segments piece) pieces"
      by (auto simp: list_all_iff tight_def case_prod_beta intro!: text_lines_segments)
    have "utrim s \<noteq> []" using pieces(2) False by (cases rule: cut_up.cases) (auto simp: tight_def)
    then have all_lines: "text_lines (utrim s) = segments (utrim s)"
      using utrim_tight[of s] plain \<open>set (utrim s) \<subseteq> set s\<close> by (intro text_lines_segments) (auto simp: tight_def)
    then have same: "events (concat (map text_lines (map fst pieces))) = events (text_lines (utrim s))"
      unfolding lines all_lines using cut_up_events[OF pieces(2) spared] False by simp
    then have "labelled False (concat (map text_lines (map fst pieces)))" using labels by (simp add: labelled_iff_events)
    then have "concat (map (\<lambda>chunk. line_marks None (text_lines chunk)) (rebalance_code_fences (map fst pieces))) =
        line_marks None (concat (map text_lines (map fst pieces)))"
      using rebalance_marks[OF tight_pieces, of None] by (simp add: rebalance_code_fences_def)
    moreover have "concat (map (\<lambda>chunk. character_marks None (text_lines chunk)) chunks) =
        concat (map (\<lambda>(line, mark). map (\<lambda>c. (c, mark)) (filter (\<lambda>c. \<not> white c) line))
          (concat (map (\<lambda>chunk. line_marks None (text_lines chunk)) chunks)))" for chunks
      by (induction chunks) (simp_all add: character_marks_def)
    ultimately have "concat (map (\<lambda>chunk. character_marks None (text_lines chunk)) (rebalance_code_fences (map fst pieces))) =
        character_marks None (concat (map text_lines (map fst pieces)))"
      by (simp add: character_marks_def)
    then show ?thesis using same by (simp add: character_marks_events)
  qed
  then show ?thesis using pieces whole by blast
qed

text \<open>Two lines of Rust, cut between them.\<close>

definition sample_pieces :: "utext list" where
  "sample_pieces = [scalars ''```rs'' @ [10] @ scalars ''a'', scalars ''b'' @ [10] @ scalars ''```'']"

theorem long_text_keeps_code_witness:
  "\<exists>pieces. split_message_for_telegram (utrim (scalars ''```rs'' @ [10] @ scalars ''a'' @ [10] @ scalars ''b'' @ [10] @ scalars ''```'')) 39 =
      Some pieces \<and>
    concat (map (\<lambda>chunk. character_marks None (text_lines chunk)) (rebalance_code_fences pieces)) =
      [(97, Some (Some (scalars ''rs''))), (98, Some (Some (scalars ''rs'')))]"
proof -
  let ?s = "scalars ''```rs'' @ [10] @ scalars ''a'' @ [10] @ scalars ''b'' @ [10] @ scalars ''```''"
  let ?ls = "[scalars ''```rs'', scalars ''a'', scalars ''b'', scalars ''```'']"
  note code = scalars_def FENCE_def is_fence_def fence_language_def utrim_start_def utrim_end_def utrim_def begins_def
    after_prefix_def white_def language_scalar_def Let_def
  have split: "split_message_for_telegram (utrim ?s) 39 = Some sample_pieces"
    by (simp add: split_message_for_telegram_def TELEGRAM_CONTINUATION_OVERHEAD_def split_loop.simps best_split_point_def
        break_after_def sample_pieces_def code)
  have trimmed: "utrim ?s = ?s" by (simp add: code)
  have ls: "text_lines ?s = ?ls" by (simp add: scalars_def text_lines.simps drop_return_def)
  have marks: "labelled False ?ls" "character_marks None ?ls = [(97, Some (Some (scalars ''rs''))), (98, Some (Some (scalars ''rs'')))]"
    by (simp_all add: code character_marks_def)
  have "13 \<notin> set ?s" by (simp add: scalars_def)
  have "30 < (39 :: nat)" by simp
  from long_text_keeps_code[OF this, of ?s] obtain pieces where pieces:
    "split_message_for_telegram (utrim ?s) 39 = Some (map fst pieces)" "utrim ?s = text_of pieces"
    "13 \<notin> set ?s \<and> labelled False (text_lines (utrim ?s)) \<and> spares_fences pieces \<longrightarrow>
      concat (map (\<lambda>chunk. character_marks None (text_lines chunk)) (rebalance_code_fences (map fst pieces))) =
        character_marks None (text_lines (utrim ?s))"
    by blast
  have sample: "map fst pieces = sample_pieces" using pieces(1) split by simp
  have whole: "?s = text_of pieces" using pieces(2) trimmed by simp
  have "spares_fences pieces"
    using sample whole by (auto simp: sample_pieces_def text_of_def map_eq_Cons_conv scalars_def Cons_eq_append_conv)
  with pieces(3) \<open>13 \<notin> set ?s\<close> marks(1)
  have "concat (map (\<lambda>chunk. character_marks None (text_lines chunk)) (rebalance_code_fences sample_pieces)) = character_marks None ?ls"
    unfolding trimmed ls sample by blast
  then show ?thesis using split marks(2) by (intro exI[of _ sample_pieces]) simp
qed

text \<open>A block without a language loses its code: the fence is not opened again after the cut, so the rest of
  the block is read as text, and its closing fence opens a block for the text after it.\<close>

definition unlabelled_pieces :: "utext list" where
  "unlabelled_pieces = [FENCE @ [10] @ scalars ''a'', scalars ''b'' @ [10] @ FENCE @ [10] @ scalars ''c'']"

lemma unlabelled_fence_lost:
  "line_marks None (concat (map text_lines unlabelled_pieces)) =
     [(scalars ''a'', Some None), (scalars ''b'', Some None), (scalars ''c'', None)]"
  "concat (map (\<lambda>chunk. line_marks None (text_lines chunk)) (rebalance_code_fences unlabelled_pieces)) =
     [(scalars ''a'', Some None), (scalars ''b'', None), (scalars ''c'', Some None)]"
proof -
  note code = scalars_def FENCE_def is_fence_def fence_language_def utrim_start_def utrim_end_def utrim_def begins_def
    after_prefix_def white_def language_scalar_def Let_def
  have ls: "text_lines (FENCE @ [10] @ scalars ''a'') = [FENCE, scalars ''a'']"
    "text_lines (scalars ''b'' @ [10] @ FENCE @ [10] @ scalars ''c'') = [scalars ''b'', FENCE, scalars ''c'']"
    by (simp_all add: scalars_def FENCE_def text_lines.simps drop_return_def)
  have next_none: "next_fence FENCE None = None" "next_fence (scalars ''a'') None = None" "next_fence (scalars ''b'') None = None"
    "next_fence (scalars ''c'') None = None"
    by (simp_all add: next_fence_def code)
  have same: "rebalance_code_fences unlabelled_pieces = unlabelled_pieces"
    unfolding unlabelled_pieces_def rebalance_code_fences_def by (simp only: rebalance.simps ls) (simp add: next_none, simp add: code)
  show "line_marks None (concat (map text_lines unlabelled_pieces)) =
     [(scalars ''a'', Some None), (scalars ''b'', Some None), (scalars ''c'', None)]"
    unfolding unlabelled_pieces_def list.map ls by (simp add: code)
  show "concat (map (\<lambda>chunk. line_marks None (text_lines chunk)) (rebalance_code_fences unlabelled_pieces)) =
     [(scalars ''a'', Some None), (scalars ''b'', None), (scalars ''c'', Some None)]"
    unfolding same unfolding unlabelled_pieces_def list.map ls by (simp add: code)
qed

text \<open>The room left for content when a header or a credit takes nearly all of a message: with a fence in the text
  the loop never ends, although the limit was raised above the overhead.\<close>

lemma endless_with_a_long_credit:
  assumes "4033 \<le> length (utrim credit)" and "occurs FENCE (utrim s)" and "62 < length (utrim s)"
  shows "telegram_user_message_chunks s credit continues_marker continued_marker = None"
proof -
  let ?max = "max (4096 - sat_add (length (utrim credit)) 2) 31"
  have "?max - 32 \<le> 30" using assms(1) by (simp add: sat_add_def u64_max_def)
  moreover have "?max < length (utrim s)" using assms(1,3) by (simp add: sat_add_def u64_max_def)
  moreover have "utrim s \<noteq> []" using assms(3) by auto
  moreover from this have "\<not> list_all white (utrim s)" using utrim_tight[of s] by (auto simp: tight_def list_all_iff)
  ultimately show ?thesis
    using assms(2) split_ends_exactly[of "utrim s" "?max - 32"] utrim_tight[of s]
    by (simp add: telegram_user_message_chunks_def telegram_text_chunks_with_limit_def Let_def TELEGRAM_MAX_MESSAGE_CHARS_def
        TELEGRAM_CONTINUATION_OVERHEAD_def TELEGRAM_FENCE_RESERVE_def not_le)
qed

end
