(* ===== verification/TelegramCards.thy ===== *)
theory TelegramCards
  imports TelegramChunks
begin

section \<open>Telegram: approval cards\<close>

text \<open>
  The text of an approval request as a Telegram message (\<open>im/telegram/adapter/approval.rs\<close>), with the texts of
  \<open>im/core/i18n.rs\<close> it is made of. Only one message of a card is remembered for the later edit, so the
  card is trimmed in a loop until it is one message. The loop is a partial function, and the theorem says when
  it ends: exactly when the frame of the card alone fits into a message.
\<close>

definition by_locale :: "im_locale \<Rightarrow> utext \<Rightarrow> utext \<Rightarrow> utext" where
  "by_locale locale zh_cn en_us = (case locale of ZhCn \<Rightarrow> zh_cn | EnUs \<Rightarrow> en_us)"

subsection \<open>Texts\<close>

definition field_line :: "im_locale \<Rightarrow> utext \<Rightarrow> utext \<Rightarrow> utext" where
  "field_line locale label shown_value = label @ by_locale locale ([65306]) (scalars '': '') @ shown_value"

definition approval_pending_title :: "im_locale \<Rightarrow> utext" where
  "approval_pending_title locale = by_locale locale ([23457, 25209, 24453, 22788, 29702]) (scalars ''approval pending'')"

definition approval_type_label :: "im_locale \<Rightarrow> utext" where
  "approval_type_label locale = by_locale locale ([31867, 22411]) (scalars ''Type'')"

definition approval_details_label :: "im_locale \<Rightarrow> utext" where
  "approval_details_label locale = by_locale locale ([35831, 27714, 20869, 23481]) (scalars ''Request'')"

definition approval_actions_label :: "im_locale \<Rightarrow> utext" where
  "approval_actions_label locale = by_locale locale ([21487, 36873, 25805, 20316]) (scalars ''Actions'')"

definition telegram_approval_reply_footer :: "im_locale \<Rightarrow> utext" where
  "telegram_approval_reply_footer locale = by_locale locale ([28857, 20987, 19979, 26041, 25353, 38062, 22788, 29702, 12290]) (scalars ''Tap a button below to choose.'')"

definition approval_accept_command_label :: "im_locale \<Rightarrow> utext" where
  "approval_accept_command_label locale = by_locale locale ([21516, 24847] @ scalars '' / approve'') (scalars ''approve'')"

definition approval_decline_command_label :: "im_locale \<Rightarrow> utext" where
  "approval_decline_command_label locale = by_locale locale ([25298, 32477] @ scalars '' / decline'') (scalars ''decline'')"

definition approval_resolved_title :: "im_locale \<Rightarrow> utext" where
  "approval_resolved_title locale = by_locale locale ([23457, 25209, 24050, 22788, 29702]) (scalars ''approval resolved'')"

definition approval_kind_label :: "im_locale \<Rightarrow> utext \<Rightarrow> utext" where
  "approval_kind_label locale kind =
     (let kind = utrim kind
      in if kind = scalars ''command'' \<or> kind = scalars ''commandExecution'' then by_locale locale ([21629, 20196, 25191, 34892]) (scalars ''Command execution'')
         else if kind = scalars ''fileChange'' then by_locale locale ([25991, 20214, 20462, 25913]) (scalars ''File change'')
         else if kind = scalars ''permissions'' then by_locale locale ([26435, 38480, 35831, 27714]) (scalars ''Permissions'')
         else if kind = scalars ''mcpElicitation'' then by_locale locale ([22806, 37096, 26381, 21153, 35831, 27714]) (scalars ''External service'')
         else if kind = scalars ''review'' then by_locale locale ([21464, 26356, 23457, 26597]) (scalars ''Change review'')
         else kind)"

text \<open>The decisions the daemon offers, by their English label, and \<open>strip_suffix\<close> for the labels with a prefix.\<close>

definition decision_labels_zh :: "(utext \<times> utext) list" where
  "decision_labels_zh =
     [(scalars ''Yes, just this once'', [20165, 26412, 27425, 20801, 35768]),
      (scalars ''Yes, allow once'', [20165, 26412, 27425, 20801, 35768]),
      (scalars ''Yes, proceed'', [20801, 35768, 25191, 34892]),
      (scalars ''Yes, allow for this session'', [26412, 20250, 35805, 20801, 35768]),
      (scalars ''Yes, always allow'', [22987, 32456, 20801, 35768]),
      (scalars ''Yes, and allow this host for this conversation'', [20801, 35768, 27492, 20250, 35805, 35775, 38382, 35813, 20027, 26426]),
      (scalars ''Yes, allow these permissions for this turn'', [20165, 26412, 27425, 20801, 35768, 36825, 20123, 26435, 38480]),
      (scalars ''Yes, and allow these permissions for this session'', [26412, 20250, 35805, 20801, 35768, 36825, 20123, 26435, 38480]),
      (scalars ''Yes, and don'' @ [39] @ scalars ''t ask again for this command in this session'', [26412, 20250, 35805, 19981, 20877, 35810, 38382, 27492, 21629, 20196]),
      (scalars ''Yes, and don'' @ [39] @ scalars ''t ask again for these files'', [36825, 20123, 25991, 20214, 19981, 20877, 35810, 38382]),
      (scalars ''No, continue without running it'', [25298, 32477, 25191, 34892]),
      (scalars ''No, and tell Codex what to do differently'', [25298, 32477, 65292, 24182, 21578, 35785] @ scalars '' Codex '' @ [22914, 20309, 35843, 25972]),
      (scalars ''No, continue without granting them'', [25298, 32477, 25480, 26435]),
      (scalars ''No, and block this host in the future'', [25298, 32477, 24182, 23631, 34109, 27492, 20027, 26426]),
      (scalars ''Yes, and allow this host in the future'', [20801, 35768, 24182, 35760, 20303, 27492, 20027, 26426]),
      (scalars ''No, continue without it'', [25298, 32477]),
      (scalars ''Cancel this request'', [21462, 28040, 35831, 27714]),
      (scalars ''Allow'', [20801, 35768]),
      (scalars ''Deny'', [25298, 32477]),
      (scalars ''Decline'', [25298, 32477])]"

definition before_suffix :: "utext \<Rightarrow> utext \<Rightarrow> utext option" where
  "before_suffix p s = map_option rev (after_prefix (rev p) (rev s))"

definition approval_decision_label :: "im_locale \<Rightarrow> utext \<Rightarrow> utext" where
  "approval_decision_label locale label =
     (let label = utrim label
      in if locale \<noteq> ZhCn then label
         else case Option.bind (after_prefix (scalars ''Yes, and don'' @ [39] @ scalars ''t ask again for commands that start with `'') label) (before_suffix (scalars ''`'')) of
           Some start \<Rightarrow> [19981, 20877, 35810, 38382, 27492, 21069, 32512, 21629, 20196, 65306] @ scalars ''`'' @ start @ scalars ''`''
         | None \<Rightarrow> unwrap_or (map_of decision_labels_zh label) label)"

text \<open>The parts of an approval's summary; a line with a known label is translated.\<close>

definition summary_labels_zh :: "(utext \<times> utext) list" where
  "summary_labels_zh =
     [(scalars ''reason: '', [21407, 22240, 65306]),
      (scalars ''command: '', [21629, 20196, 65306]),
      (scalars ''cwd: '', [24037, 20316, 30446, 24405, 65306]),
      (scalars ''networkApprovalContext: '', [35775, 38382, 22320, 22336, 65306]),
      (scalars ''additionalPermissions: '', [38468, 21152, 26435, 38480, 65306]),
      (scalars ''itemId: '', [25991, 20214, 32534, 21495, 65306]),
      (scalars ''commandActions:'', [23376, 21629, 20196, 65306]),
      (scalars ''proposedNetworkPolicyAmendments:'', [35760, 20303, 30340, 32593, 32476, 35775, 38382, 65306]),
      (scalars ''tool params:'', [24037, 20855, 21442, 25968, 65306])]"

fun localize_line :: "(utext \<times> utext) list \<Rightarrow> utext \<Rightarrow> utext" where
  "localize_line [] line = line"
| "localize_line ((raw, localized) # labels) line =
     (case after_prefix raw line of
        Some rest \<Rightarrow> localized @ rest
      | None \<Rightarrow> localize_line labels line)"

definition localize_approval_summary :: "im_locale \<Rightarrow> utext \<Rightarrow> utext" where
  "localize_approval_summary locale summary =
     (if locale \<noteq> ZhCn then summary
      else join [10] (map (localize_line summary_labels_zh) (text_lines summary)))"

definition approval_reply_hint :: "im_locale \<Rightarrow> utext list \<Rightarrow> utext" where
  "approval_reply_hint locale decisions =
     (let options = map (\<lambda>index. scalars ''/'' @ number (index + 1)) [0..<length decisions]
      in if options = [] then by_locale locale (scalars ''`/y` '' @ [25110] @ scalars '' `/n`'') (scalars ''`/y` or `/n`'')
         else join (by_locale locale ([12289]) (scalars '', '')) options)"

definition telegram_approval_fallback_footer :: "im_locale \<Rightarrow> utext \<Rightarrow> utext" where
  "telegram_approval_fallback_footer locale hint =
     by_locale locale ([22238, 22797] @ scalars '' '' @ hint @ scalars '' '' @ [22788, 29702, 12290]) (scalars ''Reply '' @ hint @ scalars '' to choose.'')"

definition approval_selected_label :: "im_locale \<Rightarrow> utext \<Rightarrow> utext" where
  "approval_selected_label locale label = by_locale locale ([24050, 36873, 25321, 65306]) (scalars ''selected: '') @ label"

subsection \<open>The card\<close>

text \<open>What a card shows of a pending approval: its kind, its summary and the labels of its decisions.\<close>

record approval_view_card =
  ac_request_kind :: utext
  ac_summary :: utext
  ac_decisions :: "utext list"

definition TELEGRAM_APPROVAL_SUMMARY_MAX_CHARS :: nat where "TELEGRAM_APPROVAL_SUMMARY_MAX_CHARS = 2800"

definition TELEGRAM_APPROVAL_DECISION_MAX_CHARS :: nat where "TELEGRAM_APPROVAL_DECISION_MAX_CHARS = 120"

definition truncate_approval_summary :: "utext \<Rightarrow> utext" where
  "truncate_approval_summary summary =
     (let summary = utrim (telegram_cleanup_text summary)
      in if length summary \<le> TELEGRAM_APPROVAL_SUMMARY_MAX_CHARS then summary
         else take (TELEGRAM_APPROVAL_SUMMARY_MAX_CHARS - 1) summary @ [ELLIPSIS])"

definition truncate_text_with_ellipsis :: "utext \<Rightarrow> nat \<Rightarrow> utext" where
  "truncate_text_with_ellipsis s max_chars =
     (if length s \<le> max_chars then s
      else if max_chars \<le> 1 then take max_chars [ELLIPSIS]
      else take (max_chars - 1) s @ [ELLIPSIS])"

definition bold_line :: "utext \<Rightarrow> utext" where
  "bold_line s = scalars ''**'' @ s @ scalars ''**''"

definition code_word :: "utext \<Rightarrow> utext" where
  "code_word s = scalars ''`'' @ s @ scalars ''`''"

definition render_approval_text :: "im_locale \<Rightarrow> utext \<Rightarrow> utext \<Rightarrow> utext list \<Rightarrow> utext \<Rightarrow> utext" where
  "render_approval_text locale kind summary action_lines footer =
     join [10]
       ([bold_line (approval_pending_title locale),
         field_line locale (approval_type_label locale) (code_word kind),
         [],
         bold_line (approval_details_label locale),
         summary,
         []] @
        (if action_lines = [] then [] else [bold_line (approval_actions_label locale)] @ action_lines @ [[]]) @
        [footer])"

partial_function (option) approval_loop :: "im_locale \<Rightarrow> utext \<Rightarrow> utext \<Rightarrow> utext list \<Rightarrow> utext \<Rightarrow> utext option" where
  "approval_loop locale kind summary action_lines footer =
     (let rendered = render_approval_text locale kind summary action_lines footer;
          excess = length rendered - TELEGRAM_MAX_MESSAGE_CHARS
      in if length rendered \<le> TELEGRAM_MAX_MESSAGE_CHARS then Some rendered
         else if summary \<noteq> [] then
           approval_loop locale kind (truncate_text_with_ellipsis summary (length summary - excess)) action_lines footer
         else if 1 < length action_lines then approval_loop locale kind summary (butlast action_lines) footer
         else approval_loop locale kind summary action_lines
           (truncate_text_with_ellipsis footer
             (TELEGRAM_MAX_MESSAGE_CHARS - length (render_approval_text locale kind summary action_lines []))))"

definition approval_text :: "approval_view_card \<Rightarrow> im_locale \<Rightarrow> utext option" where
  "approval_text approval locale =
     (let kind = approval_kind_label locale (ac_request_kind approval);
          summary = localize_approval_summary locale (truncate_approval_summary (ac_summary approval));
          action_lines =
            (if ac_decisions approval = [] then
               [scalars ''`/y`'' @ [32, 183, 32] @ approval_accept_command_label locale,
                scalars ''`/n`'' @ [32, 183, 32] @ approval_decline_command_label locale]
             else []);
          footer =
            (if ac_decisions approval = [] then
               telegram_approval_fallback_footer locale (approval_reply_hint locale (ac_decisions approval))
             else telegram_approval_reply_footer locale)
      in approval_loop locale kind summary action_lines footer)"

text \<open>\<open>truncate_display_text\<close> of \<open>thread_list_html.rs\<close>: the words of a text, joined by single spaces, cut.\<close>

fun words_from :: "utext \<Rightarrow> utext \<Rightarrow> utext list" where
  "words_from word [] = (if word = [] then [] else [word])"
| "words_from word (c # s) =
     (if white c then (if word = [] then words_from [] s else word # words_from [] s)
      else words_from (word @ [c]) s)"

definition truncate_display_text :: "utext \<Rightarrow> nat \<Rightarrow> utext" where
  "truncate_display_text s max_chars =
     (let s = join [32] (words_from [] (map (\<lambda>c. if c = 13 \<or> c = 10 then 32 else c) s))
      in if length s \<le> max_chars then s else take (max_chars - 1) s @ [ELLIPSIS])"

definition approval_decision_display_label :: "im_locale \<Rightarrow> utext \<Rightarrow> utext" where
  "approval_decision_display_label locale label =
     truncate_display_text (replace_scalar 96 [] (approval_decision_label locale label))
       TELEGRAM_APPROVAL_DECISION_MAX_CHARS"

definition resolved_approval_text :: "approval_view_card \<Rightarrow> utext \<Rightarrow> im_locale \<Rightarrow> utext" where
  "resolved_approval_text approval decision_label locale =
     (let kind = approval_kind_label locale (ac_request_kind approval);
          summary = localize_approval_summary locale (truncate_approval_summary (ac_summary approval))
      in join [10]
        [[9989] @ scalars '' '' @ bold_line (approval_resolved_title locale),
         field_line locale (approval_type_label locale) (code_word kind),
         [],
         bold_line (approval_details_label locale),
         summary,
         [],
         bold_line (approval_selected_label locale (approval_decision_display_label locale decision_label))])"

subsection \<open>When the loop ends\<close>

lemma length_join: "ls \<noteq> [] \<Longrightarrow> Suc (length (join [10] ls)) = lines_size ls"
proof -
  have "length (concat (concat (map (\<lambda>x. [[10], x]) ls))) = lines_size ls" for ls :: "utext list"
    by (induction ls) (auto simp: lines_size_def)
  then show "ls \<noteq> [] \<Longrightarrow> Suc (length (join [10] ls)) = lines_size ls"
    by (cases ls) (auto simp: join_def lines_size_def)
qed

lemma lines_size_simps [simp]:
  "lines_size [] = 0" "lines_size (line # ls) = Suc (length line) + lines_size ls"
  "lines_size (ls @ ls') = lines_size ls + lines_size ls'"
  by (simp_all add: lines_size_def)

text \<open>The size of a card: its frame, and what is put into it.\<close>

definition frame_size :: "im_locale \<Rightarrow> utext \<Rightarrow> nat" where
  "frame_size locale kind = length (render_approval_text locale kind [] [] [])"

definition actions_size :: "im_locale \<Rightarrow> utext list \<Rightarrow> nat" where
  "actions_size locale action_lines =
     (if action_lines = [] then 0 else length (approval_actions_label locale) + 6 + lines_size action_lines)"

lemma length_render:
  "length (render_approval_text locale kind summary action_lines footer) =
     frame_size locale kind + length summary + actions_size locale action_lines + length footer"
proof -
  have "Suc (length (render_approval_text locale kind summary action_lines footer)) =
      Suc (frame_size locale kind) + length summary + actions_size locale action_lines + length footer"
    unfolding frame_size_def render_approval_text_def by (simp add: length_join actions_size_def bold_line_def scalars_def)
  then show ?thesis by simp
qed

lemma length_truncate: "length (truncate_text_with_ellipsis s n) \<le> n"
  by (auto simp: truncate_text_with_ellipsis_def)

lemma truncate_shorter: "n < length s \<Longrightarrow> length (truncate_text_with_ellipsis s n) < length s"
  using length_truncate[of s n] by simp

lemma actions_size_butlast:
  "1 < length action_lines \<Longrightarrow> take 1 (butlast action_lines) = take 1 action_lines"
  by (cases action_lines) auto

text \<open>A card with at most one action and nothing else.\<close>

definition least_card :: "im_locale \<Rightarrow> utext \<Rightarrow> utext list \<Rightarrow> nat" where
  "least_card locale kind action_lines = frame_size locale kind + actions_size locale (take 1 action_lines)"

lemma least_card_le: "least_card locale kind action_lines \<le> frame_size locale kind + actions_size locale action_lines"
  by (cases action_lines) (auto simp: least_card_def actions_size_def)

lemma approval_loop_returns:
  "least_card locale kind action_lines \<le> TELEGRAM_MAX_MESSAGE_CHARS \<Longrightarrow>
     \<exists>out. approval_loop locale kind summary action_lines footer = Some out \<and> length out \<le> TELEGRAM_MAX_MESSAGE_CHARS"
proof (induction "length summary + length action_lines + length footer" arbitrary: summary action_lines footer rule: less_induct)
  case less
  let ?rendered = "render_approval_text locale kind summary action_lines footer"
  note step = approval_loop.simps[of "locale" kind summary action_lines footer]
  show ?case
  proof (cases "length ?rendered \<le> TELEGRAM_MAX_MESSAGE_CHARS")
    case True
    then show ?thesis using step by (simp add: Let_def)
  next
    case long: False
    consider "summary \<noteq> []" | "summary = []" "1 < length action_lines" | "summary = []" "length action_lines \<le> 1" by linarith
    then show ?thesis
    proof cases
      case 1
      let ?summary = "truncate_text_with_ellipsis summary (length summary - (length ?rendered - TELEGRAM_MAX_MESSAGE_CHARS))"
      have "length ?summary < length summary" using 1 long by (intro truncate_shorter diff_less) auto
      then show ?thesis using less(1)[of ?summary action_lines footer] less(2) 1 long step by (simp add: Let_def)
    next
      case 2
      then have "least_card locale kind (butlast action_lines) = least_card locale kind action_lines"
        by (simp only: least_card_def actions_size_butlast)
      then show ?thesis using less(1)[of summary "butlast action_lines" footer] less(2) 2 long step by (simp add: Let_def)
    next
      case 3
      then have all: "take 1 action_lines = action_lines" by simp
      let ?budget = "TELEGRAM_MAX_MESSAGE_CHARS - length (render_approval_text locale kind summary action_lines [])"
      have "?budget < length footer"
        using long less(2) 3(1) all by (simp add: length_render least_card_def)
      then have "length (truncate_text_with_ellipsis footer ?budget) < length footer" by (rule truncate_shorter)
      then show ?thesis
        using less(1)[of summary action_lines "truncate_text_with_ellipsis footer ?budget"] less(2) 3 long step
        by (simp add: Let_def)
    qed
  qed
qed

lemma approval_loop_endless:
  assumes "approval_loop locale kind summary action_lines footer = Some out"
  shows "least_card locale kind action_lines \<le> TELEGRAM_MAX_MESSAGE_CHARS"
proof (rule approval_loop.raw_induct[where P = "\<lambda>locale kind summary action_lines footer out.
    least_card locale kind action_lines \<le> TELEGRAM_MAX_MESSAGE_CHARS", OF _ assms])
  fix f "locale" kind summary action_lines footer out
  assume IH: "\<And>locale kind summary action_lines footer out. f locale kind summary action_lines footer = Some out \<Longrightarrow>
      least_card locale kind action_lines \<le> TELEGRAM_MAX_MESSAGE_CHARS"
    and run: "(let rendered = render_approval_text locale kind summary action_lines footer;
          excess = length rendered - TELEGRAM_MAX_MESSAGE_CHARS
      in if length rendered \<le> TELEGRAM_MAX_MESSAGE_CHARS then Some rendered
         else if summary \<noteq> [] then
           f locale kind (truncate_text_with_ellipsis summary (length summary - excess)) action_lines footer
         else if 1 < length action_lines then f locale kind summary (butlast action_lines) footer
         else f locale kind summary action_lines
           (truncate_text_with_ellipsis footer
             (TELEGRAM_MAX_MESSAGE_CHARS - length (render_approval_text locale kind summary action_lines [])))) = Some out"
  let ?rendered = "render_approval_text locale kind summary action_lines footer"
  show "least_card locale kind action_lines \<le> TELEGRAM_MAX_MESSAGE_CHARS"
  proof (cases "length ?rendered \<le> TELEGRAM_MAX_MESSAGE_CHARS")
    case True
    then show ?thesis using least_card_le[of "locale" kind action_lines] by (simp add: length_render)
  next
    case False
    have "1 < length action_lines \<Longrightarrow> least_card locale kind (butlast action_lines) = least_card locale kind action_lines"
      by (simp only: least_card_def actions_size_butlast)
    then show ?thesis using run False by (auto simp: Let_def split: if_splits dest: IH)
  qed
qed

lemma approval_loop_ends_exactly:
  "approval_loop locale kind summary action_lines footer = None \<longleftrightarrow>
     TELEGRAM_MAX_MESSAGE_CHARS < least_card locale kind action_lines"
  using approval_loop_returns[of "locale" kind action_lines summary footer] approval_loop_endless[of "locale" kind summary action_lines footer]
  by (cases "least_card locale kind action_lines \<le> TELEGRAM_MAX_MESSAGE_CHARS";
      cases "approval_loop locale kind summary action_lines footer") (auto simp: not_le)

subsection \<open>A card is one message\<close>

lemma length_truncated_summary: "length (truncate_approval_summary s) \<le> 2800"
  by (auto simp: truncate_approval_summary_def TELEGRAM_APPROVAL_SUMMARY_MAX_CHARS_def Let_def)

lemma length_localize_line: "length (localize_line summary_labels_zh line) \<le> length line"
proof -
  have shorter: "length (localize_line labels line) \<le> length line" if "list_all (\<lambda>(raw, localized). length localized \<le> length raw) labels"
    for labels :: "(utext \<times> utext) list"
    using that by (induction labels) (auto simp: after_prefix_Some split: option.split)
  have "list_all (\<lambda>(raw, localized). length localized \<le> length raw) summary_labels_zh"
    by (simp add: summary_labels_zh_def scalars_def)
  then show ?thesis by (rule shorter)
qed

lemma length_localized: "length (localize_approval_summary locale s) \<le> length s"
proof (cases "locale = ZhCn \<and> text_lines s \<noteq> []")
  case True
  have "lines_size (map (localize_line summary_labels_zh) ls) \<le> lines_size ls" for ls
    by (induction ls) (auto intro: add_mono length_localize_line)
  then have "Suc (length (localize_approval_summary locale s)) \<le> Suc (length s)"
    using True length_join[of "map (localize_line summary_labels_zh) (text_lines s)"] text_lines_size[of s]
    by (simp add: localize_approval_summary_def) (meson le_trans)
  then show ?thesis by simp
qed (auto simp: localize_approval_summary_def join_def)

lemma length_kind_label: "length (approval_kind_label locale kind) \<le> max 17 (length kind)"
  using length_utrim[of kind]
  by (cases "locale") (auto simp: approval_kind_label_def by_locale_def Let_def scalars_def)

lemma length_truncate_display: "0 < n \<Longrightarrow> length (truncate_display_text s n) \<le> n"
  by (auto simp: truncate_display_text_def Let_def)

lemma frame_size_bound: "frame_size locale kind \<le> length kind + 60"
proof -
  have "Suc (frame_size locale kind) \<le> length kind + 60"
    unfolding frame_size_def render_approval_text_def
    by (cases "locale") (simp_all add: length_join bold_line_def code_word_def field_line_def by_locale_def
      approval_pending_title_def approval_type_label_def approval_details_label_def scalars_def)
  then show ?thesis by simp
qed

lemma least_card_bound:
  "list_all (\<lambda>line. length line \<le> 30) action_lines \<Longrightarrow> least_card locale kind action_lines \<le> length kind + 110"
  using frame_size_bound[of "locale" kind]
  by (cases "locale"; cases action_lines)
    (auto simp: least_card_def actions_size_def approval_actions_label_def by_locale_def scalars_def)

lemma approval_text_short:
  assumes "length (ac_request_kind approval) \<le> 1000"
  shows "\<exists>out. approval_text approval locale = Some out \<and> length out \<le> TELEGRAM_MAX_MESSAGE_CHARS"
proof -
  let ?kind = "approval_kind_label locale (ac_request_kind approval)"
  have kind: "length ?kind \<le> 1000" using length_kind_label[of "locale" "ac_request_kind approval"] assms by simp
  let ?actions = "if ac_decisions approval = [] then
       [scalars ''`/y`'' @ [32, 183, 32] @ approval_accept_command_label locale,
        scalars ''`/n`'' @ [32, 183, 32] @ approval_decline_command_label locale] else []"
  have "list_all (\<lambda>line. length line \<le> 30) ?actions"
    by (cases "locale") (auto simp: approval_accept_command_label_def approval_decline_command_label_def by_locale_def scalars_def)
  then have "least_card locale ?kind ?actions \<le> TELEGRAM_MAX_MESSAGE_CHARS"
    using least_card_bound[of ?actions "locale" ?kind] kind by (simp add: TELEGRAM_MAX_MESSAGE_CHARS_def)
  then show ?thesis
    using approval_loop_returns[of "locale" ?kind ?actions] by (auto simp: approval_text_def Let_def)
qed

text \<open>An approval card is one message. However long the summary is and however many decisions there are, the
  loop that trims the card ends, the card fits into one message, is sent as a single part, and so is the text that
  replaces it when the request is resolved, as long as the kind of the request is not itself of the size of a
  message.\<close>

theorem approval_card_is_one_message:
  assumes "length (ac_request_kind approval) \<le> 1000"
  shows "\<exists>out. approval_text approval locale = Some out \<and> length out \<le> TELEGRAM_MAX_MESSAGE_CHARS \<and>
    (\<exists>part. telegram_text_chunks (telegram_cleanup_text out) continues_marker continued_marker = Some [part]) \<and>
    length (resolved_approval_text approval label locale) \<le> TELEGRAM_MAX_MESSAGE_CHARS"
proof -
  let ?kind = "approval_kind_label locale (ac_request_kind approval)"
  have kind: "length ?kind \<le> 1000" using length_kind_label[of "locale" "ac_request_kind approval"] assms by simp
  obtain out where out: "approval_text approval locale = Some out" "length out \<le> TELEGRAM_MAX_MESSAGE_CHARS"
    using approval_text_short[OF assms] by blast
  have "length (utrim (telegram_cleanup_text out)) \<le> TELEGRAM_MAX_MESSAGE_CHARS"
    using out(2) length_utrim[of "telegram_cleanup_text out"] cleanup_shorter[of out] by linarith
  then have "\<exists>part. telegram_text_chunks (telegram_cleanup_text out) continues_marker continued_marker = Some [part]"
    by (auto simp: telegram_text_chunks_def telegram_text_chunks_with_limit_def Let_def)
  moreover have "length (resolved_approval_text approval label locale) \<le> TELEGRAM_MAX_MESSAGE_CHARS"
  proof -
    let ?summary = "localize_approval_summary locale (truncate_approval_summary (ac_summary approval))"
    let ?label = "approval_decision_display_label locale label"
    have "length ?summary \<le> 2800" using length_localized length_truncated_summary le_trans by blast
    moreover have "length ?label \<le> 120"
      using length_truncate_display[of 120]
      by (simp add: approval_decision_display_label_def TELEGRAM_APPROVAL_DECISION_MAX_CHARS_def)
    ultimately have "Suc (length (resolved_approval_text approval label locale)) \<le> 4096"
      using kind
      by (cases "locale") (simp_all add: resolved_approval_text_def Let_def length_join bold_line_def code_word_def field_line_def
        by_locale_def approval_resolved_title_def approval_type_label_def approval_details_label_def
        approval_selected_label_def scalars_def)
    then show ?thesis by (simp add: TELEGRAM_MAX_MESSAGE_CHARS_def)
  qed
  ultimately show ?thesis using out by blast
qed

text \<open>A command with a summary longer than a message.\<close>

theorem approval_card_is_one_message_witness:
  "\<exists>out. approval_text \<lparr>ac_request_kind = scalars ''command'', ac_summary = replicate 8000 120, ac_decisions = [scalars ''Allow'']\<rparr> EnUs =
     Some out \<and> length out \<le> 4096"
proof -
  let ?approval = "\<lparr>ac_request_kind = scalars ''command'', ac_summary = replicate 8000 120, ac_decisions = [scalars ''Allow'']\<rparr>"
  have "length (ac_request_kind ?approval) \<le> 1000" by (simp add: scalars_def)
  from approval_card_is_one_message[OF this, of EnUs "[]" "[]" "[]"]
  show ?thesis unfolding TELEGRAM_MAX_MESSAGE_CHARS_def by blast
qed

end
