(* ===== verification/TelegramButtons.thy ===== *)
theory TelegramButtons
  imports TelegramCards ImApprovals RuntimeMenus
begin

section \<open>Telegram: buttons and what a tap means\<close>

text \<open>
  The inline keyboards of \<open>im/telegram/adapter/keyboards.rs\<close>, \<open>approval.rs\<close> and \<open>adapter.rs\<close>, and
  \<open>action_from_callback_data\<close> of \<open>im/telegram/polling.rs\<close>, which reads the data of a tapped button. A
  button is its label and its callback data. The labels are the texts of \<open>im/core/i18n.rs\<close>.
\<close>

subsection \<open>Actions\<close>

datatype route_direction = Prev | Next

datatype settings_field = ModelField | EffortField | SpeedField

datatype inbound_action =
    ThreadRouteOpen
  | ApprovalDecision string nat
  | ThreadRouteChoice string string
  | ThreadRouteCreateSubmit string "string option" "string option" "string option" "string option" "string option"
  | ThreadRouteCreateDefault string
  | ThreadRouteCreateConfigured string
  | ThreadRouteCreateEdit string string
  | ThreadRouteCreateSetIndex string string nat nat
  | ThreadRouteCreateSetValue string string string
  | ThreadRouteCreateOptionsPage string string route_direction
  | ThreadRouteResumeSelected string string
  | ThreadRouteResumeIndex string nat nat
  | ThreadRouteListPage string route_direction
  | ThreadSettingsOpenField string nat settings_field
  | ThreadSettingsModelPage string nat route_direction
  | ThreadSettingsChooseModel string nat nat nat
  | ThreadSettingsChooseEffort string nat nat
  | ThreadSettingsChooseSpeed string nat bool
  | ThreadSettingsBack string nat
  | ThreadSettingsApply string nat
  | ThreadSettingsCompatibilityConfirm string nat bool
  | ThreadSettingsCancel string nat

definition direction_of :: "string \<Rightarrow> route_direction option" where
  "direction_of s = (if s = ''prev'' then Some Prev else if s = ''next'' then Some Next else None)"

definition route_choice_of :: "string \<Rightarrow> string option" where
  "route_choice_of s =
     (if s = ''new'' then Some ''create_new''
      else if s = ''load'' then Some ''resume_history''
      else if s = ''back'' then Some ''back''
      else None)"

definition settings_field_of :: "string \<Rightarrow> settings_field option" where
  "settings_field_of s =
     (if s = ''model'' then Some ModelField
      else if s = ''effort'' then Some EffortField
      else if s = ''speed'' then Some SpeedField
      else None)"

definition flag_of :: "string \<Rightarrow> string \<Rightarrow> string \<Rightarrow> bool option" where
  "flag_of yes no s = (if s = no then Some False else if s = yes then Some True else None)"

text \<open>The match on the parts: a tag and what is behind it.\<close>

definition action_of_parts :: "string list \<Rightarrow> inbound_action option" where
  "action_of_parts parts =
     (case parts of
        [tag, a] \<Rightarrow>
          if tag = ''trd'' then Some (ThreadRouteCreateDefault a)
          else if tag = ''tcc'' then Some (ThreadRouteCreateConfigured a)
          else None
      | [tag, a, b] \<Rightarrow>
          if tag = ''ap'' then map_option (ApprovalDecision a) (parse_usize b)
          else if tag = ''trc'' then map_option (ThreadRouteChoice a) (route_choice_of b)
          else if tag = ''tce'' then Some (ThreadRouteCreateEdit a b)
          else if tag = ''tlp'' then map_option (ThreadRouteListPage a) (direction_of b)
          else if tag = ''tmb'' then map_option (ThreadSettingsBack a) (parse_usize b)
          else if tag = ''tma'' then map_option (ThreadSettingsApply a) (parse_usize b)
          else if tag = ''tmc'' then map_option (ThreadSettingsCancel a) (parse_usize b)
          else None
      | [tag, a, b, c] \<Rightarrow>
          if tag = ''tcv'' then Some (ThreadRouteCreateSetValue a b c)
          else if tag = ''tcp'' then map_option (ThreadRouteCreateOptionsPage a b) (direction_of c)
          else if tag = ''trs'' then
            Option.bind (parse_usize b) (\<lambda>page. map_option (ThreadRouteResumeIndex a page) (parse_usize c))
          else if tag = ''tmo'' then
            Option.bind (parse_usize b) (\<lambda>revision. map_option (ThreadSettingsOpenField a revision) (settings_field_of c))
          else if tag = ''tmp'' then
            Option.bind (parse_usize b) (\<lambda>revision. map_option (ThreadSettingsModelPage a revision) (direction_of c))
          else if tag = ''tme'' then
            Option.bind (parse_usize b) (\<lambda>revision. map_option (ThreadSettingsChooseEffort a revision) (parse_usize c))
          else if tag = ''tmv'' then
            Option.bind (parse_usize b) (\<lambda>revision. map_option (ThreadSettingsChooseSpeed a revision) (flag_of ''fast'' ''std'' c))
          else if tag = ''tmq'' then
            Option.bind (parse_usize b) (\<lambda>revision.
              map_option (ThreadSettingsCompatibilityConfirm a revision) (flag_of ''yes'' ''no'' c))
          else None
      | [tag, a, b, c, d] \<Rightarrow>
          if tag = ''tcs'' then
            Option.bind (parse_usize c) (\<lambda>page. map_option (ThreadRouteCreateSetIndex a b page) (parse_usize d))
          else if tag = ''tms'' then
            Option.bind (parse_usize b) (\<lambda>revision.
              Option.bind (parse_usize c) (\<lambda>page. map_option (ThreadSettingsChooseModel a revision page) (parse_usize d)))
          else None
      | _ \<Rightarrow> None)"

definition action_from_callback_data :: "string \<Rightarrow> inbound_action option" where
  "action_from_callback_data data = action_of_parts (split_at_char (CHR '':'') data)"

subsection \<open>Buttons\<close>

type_synonym inline_button = "utext \<times> string"

type_synonym keyboard = "inline_button list list"

text \<open>\<open>format!\<close> with colons between the parts.\<close>

fun callback :: "string list \<Rightarrow> string" where
  "callback [] = []"
| "callback [part] = part"
| "callback (part # parts) = part @ '':'' @ callback parts"

definition button :: "utext \<Rightarrow> string list \<Rightarrow> inline_button" where
  "button label parts = (truncate_button_text label, callback parts)"

definition previous_page_button :: "im_locale \<Rightarrow> utext" where
  "previous_page_button locale = by_locale locale ([19978, 19968, 39029]) (scalars ''Previous'')"

definition next_page_button :: "im_locale \<Rightarrow> utext" where
  "next_page_button locale = by_locale locale ([19979, 19968, 39029]) (scalars ''Next'')"

definition custom_cwd_label :: "im_locale \<Rightarrow> utext" where
  "custom_cwd_label locale = by_locale locale ([33258, 23450, 20041, 25110, 26032, 24314, 30446, 24405]) (scalars ''Custom or new directory'')"

definition back_to_create_settings_button :: "im_locale \<Rightarrow> utext" where
  "back_to_create_settings_button locale = by_locale locale ([36820, 22238, 21019, 24314, 35774, 32622]) (scalars ''Back to settings'')"

definition create_new_session_button :: "im_locale \<Rightarrow> utext" where
  "create_new_session_button locale = by_locale locale ([21019, 24314, 26032, 20250, 35805]) (scalars ''Create new session'')"

definition restore_history_button :: "im_locale \<Rightarrow> utext" where
  "restore_history_button locale = by_locale locale ([24674, 22797, 21382, 21490, 20250, 35805]) (scalars ''Restore history session'')"

definition directory_button :: "im_locale \<Rightarrow> utext" where
  "directory_button locale = by_locale locale ([30446, 24405]) (scalars ''Directory'')"

definition model_button :: "im_locale \<Rightarrow> utext" where
  "model_button locale = by_locale locale ([27169, 22411]) (scalars ''Model'')"

definition effort_button :: "im_locale \<Rightarrow> utext" where
  "effort_button locale = by_locale locale ([25512, 29702, 24378, 24230]) (scalars ''Reasoning'')"

definition permission_button :: "im_locale \<Rightarrow> utext" where
  "permission_button locale = by_locale locale ([26435, 38480]) (scalars ''Permissions'')"

definition create_button :: "im_locale \<Rightarrow> utext" where
  "create_button locale = by_locale locale ([21019, 24314]) (scalars ''Create'')"

definition telegram_thread_settings_standard_speed :: "im_locale \<Rightarrow> utext" where
  "telegram_thread_settings_standard_speed locale = by_locale locale ([26631, 20934]) (scalars ''Standard'')"

definition telegram_thread_settings_fast_speed :: "im_locale \<Rightarrow> utext" where
  "telegram_thread_settings_fast_speed locale = by_locale locale ([24555, 36895]) (scalars ''Fast'')"

definition telegram_thread_settings_model_button :: "im_locale \<Rightarrow> utext" where
  "telegram_thread_settings_model_button locale = by_locale locale ([27169, 22411]) (scalars ''Model'')"

definition telegram_thread_settings_effort_button :: "im_locale \<Rightarrow> utext" where
  "telegram_thread_settings_effort_button locale = by_locale locale ([25512, 29702, 24378, 24230]) (scalars ''Reasoning'')"

definition telegram_thread_settings_speed_button :: "im_locale \<Rightarrow> utext" where
  "telegram_thread_settings_speed_button locale = by_locale locale ([36895, 24230]) (scalars ''Speed'')"

definition telegram_thread_settings_apply_button :: "im_locale \<Rightarrow> utext" where
  "telegram_thread_settings_apply_button locale = by_locale locale ([24212, 29992]) (scalars ''Apply'')"

definition telegram_thread_settings_cancel_button :: "im_locale \<Rightarrow> utext" where
  "telegram_thread_settings_cancel_button locale = by_locale locale ([21462, 28040]) (scalars ''Cancel'')"

definition telegram_thread_settings_back_button :: "im_locale \<Rightarrow> utext" where
  "telegram_thread_settings_back_button locale = by_locale locale ([36820, 22238]) (scalars ''Back'')"

definition telegram_thread_settings_confirm_button :: "im_locale \<Rightarrow> utext" where
  "telegram_thread_settings_confirm_button locale = by_locale locale ([30830, 35748, 24182, 24212, 29992]) (scalars ''Confirm and apply'')"

definition effort_labels :: "im_locale \<Rightarrow> (string \<times> utext) list" where
  "effort_labels locale =
     [(''none'', by_locale locale ([26080] @ scalars '' (none)'') (scalars ''None (none)'')),
      (''minimal'', by_locale locale ([26497, 20302] @ scalars '' (minimal)'') (scalars ''Minimal (minimal)'')),
      (''low'', by_locale locale ([20302] @ scalars '' (low)'') (scalars ''Low (low)'')),
      (''medium'', by_locale locale ([20013] @ scalars '' (medium)'') (scalars ''Medium (medium)'')),
      (''high'', by_locale locale ([39640] @ scalars '' (high)'') (scalars ''High (high)'')),
      (''xhigh'', by_locale locale ([36229, 39640] @ scalars '' (xhigh)'') (scalars ''Extra high (xhigh)''))]"

definition reasoning_effort_label :: "im_locale \<Rightarrow> string \<Rightarrow> utext" where
  "reasoning_effort_label locale effort =
     (let effort = trim effort in unwrap_or (map_of (effort_labels locale) effort) (scalars effort))"

text \<open>The approval keyboard: \<open>None\<close> when there are no decisions.\<close>

definition approval_keyboard :: "(string \<Rightarrow> nat list) \<Rightarrow> (json \<Rightarrow> string) \<Rightarrow> pending_approval \<Rightarrow> im_locale \<Rightarrow> keyboard option" where
  "approval_keyboard sha256 display approval locale =
     (let fingerprint = approval_request_fingerprint sha256 (request_key display approval);
          rows = map2 (\<lambda>index decision.
              [button (approval_decision_display_label locale (scalars (ad_label decision)))
                 [''ap'', fingerprint, show_nat (index + 1)]])
            [0..<length (ap_decisions approval)] (ap_decisions approval)
      in if rows = [] then None else Some rows)"

text \<open>What the card of an approval shows of it.\<close>

definition approval_card_of :: "pending_approval \<Rightarrow> approval_view_card" where
  "approval_card_of approval =
     \<lparr> ac_request_kind = scalars (ap_request_kind approval), ac_summary = scalars (ap_summary approval),
       ac_decisions = map (\<lambda>decision. scalars (ad_label decision)) (ap_decisions approval) \<rparr>"

text \<open>The keyboards of thread routing; an option is its label.\<close>

definition page_row :: "im_locale \<Rightarrow> string list \<Rightarrow> bool \<Rightarrow> bool \<Rightarrow> keyboard" where
  "page_row locale parts has_prev has_next =
     (let nav = (if has_prev then [button (previous_page_button locale) (parts @ [''prev''])] else []) @
            (if has_next then [button (next_page_button locale) (parts @ [''next''])] else [])
      in if nav = [] then [] else [nav])"

definition create_options_keyboard ::
  "string \<Rightarrow> string \<Rightarrow> nat \<Rightarrow> utext list \<Rightarrow> bool \<Rightarrow> bool \<Rightarrow> im_locale \<Rightarrow> keyboard" where
  "create_options_keyboard request_id field page options has_prev has_next locale =
     map2 (\<lambda>index label. [button (utrim (replace_scalar 96 [] label))
         [''tcs'', request_id, field, show_nat page, show_nat index]]) [0..<length options] options @
     page_row locale [''tcp'', request_id, field] has_prev has_next @
     (if field = ''cwd'' then [[button (custom_cwd_label locale) [''tcv'', request_id, ''cwd'', ''__custom__'']]] else []) @
     [[button (back_to_create_settings_button locale) [''trc'', request_id, ''new'']]]"

definition routing_choice_keyboard :: "string \<Rightarrow> im_locale \<Rightarrow> keyboard" where
  "routing_choice_keyboard request_id locale =
     [[button (create_new_session_button locale) [''trc'', request_id, ''new'']],
      [button (restore_history_button locale) [''trc'', request_id, ''load'']]]"

definition create_settings_keyboard :: "string \<Rightarrow> im_locale \<Rightarrow> keyboard" where
  "create_settings_keyboard request_id locale =
     [[button (directory_button locale) [''tce'', request_id, ''cwd''], button (model_button locale) [''tce'', request_id, ''model'']],
      [button (effort_button locale) [''tce'', request_id, ''effort''], button (permission_button locale) [''tce'', request_id, ''perm'']],
      [button (create_button locale) [''tcc'', request_id]],
      [button (restore_history_button locale) [''trc'', request_id, ''load'']]]"

definition thread_list_keyboard :: "string \<Rightarrow> bool \<Rightarrow> bool \<Rightarrow> im_locale \<Rightarrow> keyboard" where
  "thread_list_keyboard request_id has_prev has_next locale =
     page_row locale [''tlp'', request_id] has_prev has_next @
     [[button (create_new_session_button locale) [''trc'', request_id, ''new'']]]"

text \<open>The model the editor speaks of: the draft's, or the observed one; and its entry in the catalog.\<close>

definition settings_model :: "model_switch_request \<Rightarrow> string option" where
  "settings_model request =
     (case dr_model (ms_draft request) of
        Some model \<Rightarrow> Some model
      | None \<Rightarrow> (case ss_model (ms_observed request) of Known (Some model) \<Rightarrow> Some model | _ \<Rightarrow> None))"

definition thread_settings_selected_model :: "model_switch_request \<Rightarrow> thread_settings_model_choice option" where
  "thread_settings_selected_model request =
     Option.bind (settings_model request) (\<lambda>model. List.find (\<lambda>choice. mc_model choice = model) (ms_catalog request))"

definition catalog_page :: "model_switch_request \<Rightarrow> thread_settings_model_choice list option" where
  "catalog_page request =
     (let page = max (ms_model_page request) 1;
          start = (page - 1) * 8;
          end_at = min (start + 8) (length (ms_catalog request))
      in if start \<le> end_at then Some (drop start (take end_at (ms_catalog request))) else None)"

text \<open>The editor's keyboard by its stage; \<open>None\<close> is the panic of a slice past the end of the catalog.\<close>

definition thread_settings_keyboard :: "model_switch_request \<Rightarrow> im_locale \<Rightarrow> keyboard option" where
  "thread_settings_keyboard request locale =
     (let request_id = ms_request_id request;
          revision = show_nat (ms_revision request);
          back_row = [button (telegram_thread_settings_back_button locale) [''tmb'', request_id, revision]]
      in case ms_stage request of
           Overview \<Rightarrow> Some
             [[button (telegram_thread_settings_model_button locale) [''tmo'', request_id, revision, ''model''],
               button (telegram_thread_settings_effort_button locale) [''tmo'', request_id, revision, ''effort'']],
              [button (telegram_thread_settings_speed_button locale) [''tmo'', request_id, revision, ''speed'']],
              [button (telegram_thread_settings_cancel_button locale) [''tmc'', request_id, revision],
               button (telegram_thread_settings_apply_button locale) [''tma'', request_id, revision]]]
         | ModelStage \<Rightarrow>
             map_option (\<lambda>choices.
               let page = max (ms_model_page request) 1;
                   end_at = min ((page - 1) * 8 + 8) (length (ms_catalog request))
               in map2 (\<lambda>index choice. [button (scalars (mc_label choice))
                      [''tms'', request_id, revision, show_nat page, show_nat index]]) [0..<length choices] choices @
                  page_row locale [''tmp'', request_id, revision] (page > 1) (end_at < length (ms_catalog request)) @
                  [back_row])
               (catalog_page request)
         | EffortStage \<Rightarrow> Some
             ((case thread_settings_selected_model request of
                 None \<Rightarrow> []
               | Some choice \<Rightarrow> map2 (\<lambda>index effort. [button (reasoning_effort_label locale effort)
                     [''tme'', request_id, revision, show_nat index]])
                   [0..<length (mc_supported_efforts choice)] (mc_supported_efforts choice)) @
              [back_row])
         | SpeedStage \<Rightarrow> Some
             ([[button (telegram_thread_settings_standard_speed locale) [''tmv'', request_id, revision, ''std'']]] @
              (case thread_settings_selected_model request of
                 Some choice \<Rightarrow> if mc_supports_fast choice
                   then [[button (telegram_thread_settings_fast_speed locale) [''tmv'', request_id, revision, ''fast'']]] else []
               | None \<Rightarrow> []) @
              [back_row])
         | CompatibilityConfirmation \<Rightarrow> Some
             [[button (telegram_thread_settings_confirm_button locale) [''tmq'', request_id, revision, ''yes'']],
              [button (telegram_thread_settings_back_button locale) [''tmq'', request_id, revision, ''no'']]])"

subsection \<open>A tap means what the button shows\<close>

lemma split_callback:
  "parts \<noteq> [] \<Longrightarrow> list_all (\<lambda>part. CHR '':'' \<notin> set part) parts \<Longrightarrow> split_at_char (CHR '':'') (callback parts) = parts"
proof (induction parts rule: callback.induct)
  case (3 part p parts)
  then show ?case by (simp add: split_at_char_at)
qed (simp_all add: split_at_char_none)

lemma show_nat_no_colon: "CHR '':'' \<notin> set (show_nat n)"
  using show_nat_digits[of "CHR '':''" n] by auto

lemma parse_usize_show: "n < 2 ^ 64 \<Longrightarrow> parse_usize (show_nat n) = Some n"
proof -
  assume "n < 2 ^ 64"
  moreover have "strip_prefix ''+'' (show_nat n) = None"
  proof (cases "show_nat n")
    case (Cons c cs)
    then have "c \<noteq> CHR ''+''" using show_nat_no_sign(2)[of n] by auto
    then show ?thesis using Cons by (simp add: strip_prefix_def starts_with_def)
  qed simp
  ultimately show "parse_usize (show_nat n) = Some n" by (simp add: parse_usize_def)
qed

lemma hex_no_colon: "CHR '':'' \<notin> set (hex_bytes bs)"
proof
  assume "CHR '':'' \<in> set (hex_bytes bs)"
  then show False using hex_bytes_chars[of "CHR '':''" bs] by auto
qed

text \<open>The reference: the actions the editor offers at a stage, in the order of its buttons.\<close>

definition editor_actions :: "model_switch_request \<Rightarrow> inbound_action list" where
  "editor_actions request =
     (let request_id = ms_request_id request;
          revision = ms_revision request;
          back = [ThreadSettingsBack request_id revision]
      in case ms_stage request of
           Overview \<Rightarrow>
             [ThreadSettingsOpenField request_id revision ModelField, ThreadSettingsOpenField request_id revision EffortField,
              ThreadSettingsOpenField request_id revision SpeedField, ThreadSettingsCancel request_id revision,
              ThreadSettingsApply request_id revision]
         | ModelStage \<Rightarrow>
             (let page = max (ms_model_page request) 1;
                  shown_entries = min 8 (length (ms_catalog request) - (page - 1) * 8)
              in map (ThreadSettingsChooseModel request_id revision page) [0..<shown_entries] @
                 (if 1 < page then [ThreadSettingsModelPage request_id revision Prev] else []) @
                 (if page * 8 < length (ms_catalog request) then [ThreadSettingsModelPage request_id revision Next] else []) @
                 back)
         | EffortStage \<Rightarrow>
             (case thread_settings_selected_model request of
                None \<Rightarrow> []
              | Some choice \<Rightarrow> map (ThreadSettingsChooseEffort request_id revision) [0..<length (mc_supported_efforts choice)]) @
             back
         | SpeedStage \<Rightarrow>
             [ThreadSettingsChooseSpeed request_id revision False] @
             (case thread_settings_selected_model request of
                Some choice \<Rightarrow> if mc_supports_fast choice then [ThreadSettingsChooseSpeed request_id revision True] else []
              | None \<Rightarrow> []) @
             back
         | CompatibilityConfirmation \<Rightarrow>
             [ThreadSettingsCompatibilityConfirm request_id revision True,
              ThreadSettingsCompatibilityConfirm request_id revision False])"

definition tapped :: "keyboard \<Rightarrow> inbound_action option list" where
  "tapped rows = map (\<lambda>(label, data). action_from_callback_data data) (concat rows)"

lemma action_of_callback:
  "list_all (\<lambda>part. CHR '':'' \<notin> set part) (part # parts) \<Longrightarrow>
     action_from_callback_data (callback (part # parts)) = action_of_parts (part # parts)"
  using split_callback[of "part # parts"] by (simp add: action_from_callback_data_def)

lemma callback_length: "length (callback (part # parts)) = length part + sum_list (map (\<lambda>p. Suc (length p)) parts)"
  by (induction "part # parts" arbitrary: part parts rule: callback.induct) auto

declare callback.simps(3) [simp del]

lemma tapped_simps [simp]:
  "tapped [] = []" "tapped (row # rows) = map (\<lambda>b. action_from_callback_data (snd b)) row @ tapped rows"
  "tapped (rows @ rows') = tapped rows @ tapped rows'"
  by (simp_all add: tapped_def case_prod_beta)

lemma tapped_column:
  "tapped (map2 (\<lambda>index x. [button (label x) (parts index)]) [0..<length xs] xs) =
     map (\<lambda>index. action_from_callback_data (callback (parts index))) [0..<length xs]"
proof -
  have "tapped (map2 (\<lambda>index x. [button (label x) (parts index)]) is ys) =
      map (\<lambda>index. action_from_callback_data (callback (parts index))) is" if "length is = length ys" for "is" ys
    using that by (induction "is" ys rule: list_induct2) (auto simp: button_def)
  then show ?thesis by simp
qed

text \<open>What fits into the data of a button: at most 64 bytes.\<close>

definition data_fits :: "keyboard \<Rightarrow> bool" where
  "data_fits rows = list_all (\<lambda>b. length (snd b) \<le> 64) (concat rows)"

lemma data_fits_simps [simp]:
  "data_fits []" "data_fits (row # rows) \<longleftrightarrow> list_all (\<lambda>b. length (snd b) \<le> 64) row \<and> data_fits rows"
  "data_fits (rows @ rows') \<longleftrightarrow> data_fits rows \<and> data_fits rows'"
  by (simp_all add: data_fits_def)

lemma data_fits_column:
  assumes "\<And>index. index < length xs \<Longrightarrow> length (callback (parts index)) \<le> 64"
  shows "data_fits (map2 (\<lambda>index x. [button (label x) (parts index)]) [0..<length xs] xs)"
  using assms by (auto simp: data_fits_def list_all_iff button_def set_zip)

text \<open>An editor whose numbers have at most nine digits, and whose identifier was made by the daemon.\<close>

definition editor_small :: "model_switch_request \<Rightarrow> bool" where
  "editor_small request \<longleftrightarrow>
     CHR '':'' \<notin> set (ms_request_id request) \<and> length (ms_request_id request) \<le> 24 \<and>
     ms_revision request < 10 ^ 9 \<and> ms_model_page request < 10 ^ 9 \<and>
     list_all (\<lambda>choice. length (mc_supported_efforts choice) < 10 ^ 9) (ms_catalog request)"

lemma length_show_small: "n < 10 ^ 9 \<Longrightarrow> length (show_nat n) \<le> 9"
  by (rule length_show_nat_le) simp_all

lemma parse_usize_small: "n < 10 ^ 9 \<Longrightarrow> parse_usize (show_nat n) = Some n"
  by (rule parse_usize_show) simp

lemma page_entries:
  "catalog_page request = Some choices \<Longrightarrow>
     length choices = min 8 (length (ms_catalog request) - (max (ms_model_page request) 1 - 1) * 8)"
proof -
  assume shown: "catalog_page request = Some choices"
  define start where "start = (max (ms_model_page request) 1 - 1) * 8"
  then have "choices = drop start (take (min (start + 8) (length (ms_catalog request))) (ms_catalog request))"
    using shown by (auto simp: catalog_page_def Let_def split: if_splits)
  then have "length choices = min 8 (length (ms_catalog request) - start)" by simp
  then show ?thesis by (simp add: start_def)
qed

text \<open>C24. A button of the settings editor does what it shows. In every stage the callback data of the buttons, read
  back by the polling task, are the actions of that stage in order, each of this editor at this revision, no two
  buttons mean the same, and the data keep within the 64 bytes Telegram allows.\<close>

theorem editor_buttons_roundtrip:
  assumes "editor_small request" and "thread_settings_keyboard request locale = Some rows"
  shows "tapped rows = map Some (editor_actions request) \<and> distinct (editor_actions request) \<and> data_fits rows"
proof -
  let ?id = "ms_request_id request" and ?rev = "show_nat (ms_revision request)"
  have id: "CHR '':'' \<notin> set ?id" "length ?id \<le> 24" using assms(1) by (auto simp: editor_small_def)
  have rev: "CHR '':'' \<notin> set ?rev" "length ?rev \<le> 9" "parse_usize ?rev = Some (ms_revision request)"
    using assms(1) show_nat_no_colon length_show_small parse_usize_small by (auto simp: editor_small_def)
  note reading = action_of_callback action_of_parts_def rev(3) settings_field_of_def direction_of_def flag_of_def
    button_def page_row_def
  show ?thesis
  proof (cases "ms_stage request")
    case Overview
    then show ?thesis using assms(2) id rev
      by (auto simp: thread_settings_keyboard_def editor_actions_def Let_def reading callback_length)
  next
    case ModelStage
    define page where "page = max (ms_model_page request) 1"
    obtain choices where choices: "catalog_page request = Some choices"
      using assms(2) ModelStage by (auto simp: thread_settings_keyboard_def Let_def)
    have len: "length choices = min 8 (length (ms_catalog request) - (page - 1) * 8)"
      using page_entries[OF choices] by (simp add: page_def)
    have "page < 10 ^ 9" using assms(1) by (auto simp: editor_small_def page_def)
    then have page: "CHR '':'' \<notin> set (show_nat page)" "length (show_nat page) \<le> 9" "parse_usize (show_nat page) = Some page"
      using show_nat_no_colon length_show_small parse_usize_small by auto
    have index: "CHR '':'' \<notin> set (show_nat i)" "length (show_nat i) \<le> 9" "parse_usize (show_nat i) = Some i" if "i < length choices" for i
      using that len show_nat_no_colon length_show_small[of i] parse_usize_small[of i] by auto
    have column: "map (\<lambda>index. action_from_callback_data (callback [''tms'', ?id, ?rev, show_nat page, show_nat index])) [0..<length choices] =
        map (\<lambda>index. Some (ThreadSettingsChooseModel ?id (ms_revision request) page index)) [0..<length choices]"
      using page index id rev by (auto simp: reading)
    have fits: "length (callback [''tms'', ?id, ?rev, show_nat page, show_nat index]) \<le> 64" if "index < length choices" for index
      using id rev page index[OF that] by (simp add: callback_length)
    have pages: "min ((page - 1) * 8 + 8) (length (ms_catalog request)) < length (ms_catalog request) \<longleftrightarrow>
        page * 8 < length (ms_catalog request)"
      by (cases page) (auto simp: page_def)
    have rows: "rows = map2 (\<lambda>index choice. [button (scalars (mc_label choice)) [''tms'', ?id, ?rev, show_nat page, show_nat index]])
          [0..<length choices] choices @
        page_row locale [''tmp'', ?id, ?rev] (1 < page) (page * 8 < length (ms_catalog request)) @
        [[button (telegram_thread_settings_back_button locale) [''tmb'', ?id, ?rev]]]"
      using assms(2) ModelStage choices unfolding pages[symmetric] by (simp add: thread_settings_keyboard_def Let_def page_def)
    have offered: "editor_actions request =
        map (ThreadSettingsChooseModel ?id (ms_revision request) page) [0..<length choices] @
        (if 1 < page then [ThreadSettingsModelPage ?id (ms_revision request) Prev] else []) @
        (if page * 8 < length (ms_catalog request) then [ThreadSettingsModelPage ?id (ms_revision request) Next] else []) @
        [ThreadSettingsBack ?id (ms_revision request)]"
      using ModelStage unfolding len by (simp add: editor_actions_def Let_def page_def)
    have "tapped rows = map Some (editor_actions request)"
      using id rev unfolding rows offered tapped_simps(3) tapped_column column by (simp add: reading o_def)
    moreover have "data_fits rows"
      unfolding rows data_fits_simps(3) using id rev data_fits_column[of choices, OF fits]
      by (simp add: page_row_def button_def callback_length)
    moreover have "distinct (editor_actions request)"
      unfolding offered by (auto simp: distinct_map inj_on_def)
    ultimately show ?thesis by blast
  next
    case EffortStage
    show ?thesis
    proof (cases "thread_settings_selected_model request")
      case (Some choice)
      let ?efforts = "mc_supported_efforts choice"
      have "choice \<in> set (ms_catalog request)"
        using Some find_Some_in by (fastforce simp: thread_settings_selected_model_def bind_eq_Some_conv)
      then have "length ?efforts < 10 ^ 9" using assms(1) by (auto simp: editor_small_def list_all_iff)
      then have index: "CHR '':'' \<notin> set (show_nat i)" "length (show_nat i) \<le> 9" "parse_usize (show_nat i) = Some i"
        if "i < length ?efforts" for i
        using that show_nat_no_colon length_show_small[of i] parse_usize_small[of i] by auto
      have column: "map (\<lambda>index. action_from_callback_data (callback [''tme'', ?id, ?rev, show_nat index])) [0..<length ?efforts] =
          map (\<lambda>index. Some (ThreadSettingsChooseEffort ?id (ms_revision request) index)) [0..<length ?efforts]"
        using index id rev by (auto simp: reading)
      have fits: "length (callback [''tme'', ?id, ?rev, show_nat index]) \<le> 64" if "index < length ?efforts" for index
        using id rev index[OF that] by (simp add: callback_length)
      have rows: "rows = map2 (\<lambda>index effort. [button (reasoning_effort_label locale effort) [''tme'', ?id, ?rev, show_nat index]])
            [0..<length ?efforts] ?efforts @
          [[button (telegram_thread_settings_back_button locale) [''tmb'', ?id, ?rev]]]"
        using assms(2) EffortStage Some by (simp add: thread_settings_keyboard_def Let_def)
      have "tapped rows = map Some (editor_actions request)"
        using EffortStage Some id rev unfolding rows tapped_simps(3) tapped_column column
        by (simp add: editor_actions_def Let_def reading o_def)
      moreover have "data_fits rows"
        unfolding rows data_fits_simps(3) using id rev data_fits_column[of ?efforts, OF fits]
        by (simp add: page_row_def button_def callback_length)
      moreover have "distinct (editor_actions request)"
        using EffortStage Some by (auto simp: editor_actions_def Let_def distinct_map inj_on_def)
      ultimately show ?thesis by blast
    next
      case None
      then show ?thesis using EffortStage assms(2) id rev
        by (auto simp: thread_settings_keyboard_def editor_actions_def Let_def reading callback_length)
    qed
  next
    case SpeedStage
    then show ?thesis using assms(2) id rev
      by (cases "thread_settings_selected_model request")
        (auto simp: thread_settings_keyboard_def editor_actions_def Let_def reading callback_length)
  next
    case CompatibilityConfirmation
    then show ?thesis using assms(2) id rev
      by (auto simp: thread_settings_keyboard_def editor_actions_def Let_def reading callback_length)
  qed
qed

text \<open>The overview of an editor with two models.\<close>

theorem editor_buttons_roundtrip_witness:
  "\<exists>rows. thread_settings_keyboard sample_editor EnUs = Some rows \<and> data_fits rows \<and>
     tapped rows = map Some [ThreadSettingsOpenField ''e1'' 3 ModelField, ThreadSettingsOpenField ''e1'' 3 EffortField,
       ThreadSettingsOpenField ''e1'' 3 SpeedField, ThreadSettingsCancel ''e1'' 3, ThreadSettingsApply ''e1'' 3]"
proof -
  have small: "editor_small sample_editor" by (simp add: editor_small_def sample_editor_def)
  obtain rows where rows: "thread_settings_keyboard sample_editor EnUs = Some rows"
    by (simp add: thread_settings_keyboard_def sample_editor_def Let_def)
  then show ?thesis using editor_buttons_roundtrip[OF small rows]
    by (simp add: editor_actions_def sample_editor_def Let_def)
qed

text \<open>C25. The buttons of an approval card pick their decisions. While the approval is the conversation's current one,
  tapping the button in row \<open>i\<close> is read as the decision of that number for this very request, and the reply is
  ready with exactly the decision whose label the button shows; the callback data keep within 64 bytes.\<close>

theorem approval_button_picks_its_decision:
  assumes "approval_keyboard sha256 display pending locale = Some rows" and "i < length (ap_decisions pending)"
    and "length (ap_decisions pending) < 10 ^ 9"
    and "current_approval (origin_conversation_key message) rs = Some pending"
  shows "\<exists>data fingerprint. rows ! i =
      [(truncate_button_text (approval_decision_display_label locale (scalars (ad_label (ap_decisions pending ! i)))), data)] \<and>
    length data \<le> 64 \<and> action_from_callback_data data = Some (ApprovalDecision fingerprint (i + 1)) \<and>
    resolve_approval_button_reply sha256 display message fingerprint (i + 1) rs =
      ReplyReady (origin_conversation_key message) pending (i + 1) (ap_decisions pending ! i)"
proof -
  let ?fingerprint = "approval_request_fingerprint sha256 (request_key display pending)"
  let ?data = "callback [''ap'', ?fingerprint, show_nat (i + 1)]"
  have number: "parse_usize (show_nat (i + 1)) = Some (i + 1)" "CHR '':'' \<notin> set (show_nat (i + 1))" "length (show_nat (i + 1)) \<le> 10"
    using assms(2,3) parse_usize_show[of "i + 1"] show_nat_no_colon[of "i + 1"] length_show_nat_le[of "i + 1" 10] by simp_all
  have fingerprint: "CHR '':'' \<notin> set ?fingerprint" "length ?fingerprint \<le> 16"
    using hex_no_colon by (simp_all add: approval_request_fingerprint_def)
  have "rows ! i = [(truncate_button_text (approval_decision_display_label locale (scalars (ad_label (ap_decisions pending ! i)))), ?data)]"
    using assms(1,2) by (auto simp: approval_keyboard_def Let_def button_def split: if_splits)
  moreover have "length ?data \<le> 64" using number fingerprint by (simp add: callback_length)
  moreover have "action_from_callback_data ?data = Some (ApprovalDecision ?fingerprint (i + 1))"
    using number fingerprint by (simp add: action_of_callback action_of_parts_def)
  moreover have "resolve_approval_button_reply sha256 display message ?fingerprint (i + 1) rs =
      ReplyReady (origin_conversation_key message) pending (i + 1) (ap_decisions pending ! i)"
    using assms(2,4) by (simp add: resolve_approval_button_reply_def Let_def)
  ultimately show ?thesis by blast
qed

text \<open>An approval with one decision, queued for a private chat.\<close>

definition sample_asking :: pending_approval where
  "sample_asking = (sample_approval 1)\<lparr>ap_decisions := [decision_option ''Yes'' (JStr ''accept'')]\<rparr>"

theorem approval_button_picks_its_decision_witness:
  "\<exists>fingerprint. resolve_approval_button_reply (\<lambda>_. [1, 2]) (\<lambda>_. ''null'')
      \<lparr> io_platform = Telegram, io_account_id = ''a'', io_chat_id = ''1'', io_approval_request_key = None \<rparr> fingerprint 1
      (runtime_default\<lparr>pending_approvals_by_conversation := [(conversation_key Telegram ''a'' ''1'', [sample_asking])]\<rparr>) =
    ReplyReady (conversation_key Telegram ''a'' ''1'') sample_asking 1 (decision_option ''Yes'' (JStr ''accept''))"
proof -
  let ?message = "\<lparr> io_platform = Telegram, io_account_id = ''a'', io_chat_id = ''1'', io_approval_request_key = None \<rparr>"
  let ?rs = "runtime_default\<lparr>pending_approvals_by_conversation := [(conversation_key Telegram ''a'' ''1'', [sample_asking])]\<rparr>"
  obtain rows where rows: "approval_keyboard (\<lambda>_. [1, 2]) (\<lambda>_. ''null'') sample_asking EnUs = Some rows"
    by (simp add: approval_keyboard_def sample_asking_def Let_def)
  have one: "0 < length (ap_decisions sample_asking)" "length (ap_decisions sample_asking) < 10 ^ 9"
    by (simp_all add: sample_asking_def)
  have current: "current_approval (origin_conversation_key ?message) ?rs = Some sample_asking"
    by (simp add: current_approval_def origin_conversation_key_def)
  from approval_button_picks_its_decision[OF rows one current]
  show ?thesis by (auto simp: sample_asking_def origin_conversation_key_def)
qed

end
