(* ===== verification/TelegramAdapter.thy ===== *)
theory TelegramAdapter
  imports TelegramButtons
begin

section \<open>Telegram: sending\<close>

text \<open>
  The adapter (\<open>im/telegram/adapter.rs\<close>) turns texts, cards and images into requests of the Bot API, and falls
  back to a simpler request when Telegram refuses one. A request is what \<open>im/telegram/api.rs\<close> would post; what
  Telegram answers is a function of the requests sent before, so every answer at every point is covered. An
  operation carries the list of requests sent; it is \<open>None\<close> when the loop that cuts a text never ends.
\<close>

subsection \<open>Requests and errors\<close>

datatype parse_mode = MarkdownV2 | Html

datatype rich_content = RichMarkdown utext | RichHtml utext | RichBlocks "json list"

datatype attachment = LocalFile string | TurnDocument utext

datatype tg_request =
    SendMessage string utext "parse_mode option" bool "keyboard option"
  | SendRichMessage string rich_content
  | EditMessageText string int utext "parse_mode option" "keyboard option"
  | EditRichMessage string int rich_content "keyboard option"
  | EditReplyMarkup string int keyboard
  | SendPhoto string attachment "utext option" "parse_mode option"
  | SendDocument string attachment "utext option" "parse_mode option"
  | SendMediaGroup string "(string \<times> utext option) list"

record telegram_api_error =
  tae_method :: utext
  tae_status :: nat
  tae_error_code :: "int option"
  tae_description :: utext
  tae_retry_after :: "nat option"

text \<open>An error of the API, or one of the transport, the decoding or the disk; context added to an error does not
  change what it is.\<close>

datatype send_error =
    ApiError telegram_api_error
  | OtherError utext
  | ImageAndFallback send_error send_error

definition lower :: "utext \<Rightarrow> utext" where
  "lower s = map (\<lambda>c. if 65 \<le> c \<and> c \<le> 90 then c + 32 else c) s"

definition mentions :: "telegram_api_error \<Rightarrow> utext \<Rightarrow> bool" where
  "mentions err phrase = occurs phrase (lower (tae_description err))"

definition is_message_not_modified :: "telegram_api_error \<Rightarrow> bool" where
  "is_message_not_modified err \<longleftrightarrow> tae_error_code err = Some 400 \<and> mentions err (scalars ''message is not modified'')"

definition is_edit_target_unavailable :: "telegram_api_error \<Rightarrow> bool" where
  "is_edit_target_unavailable err \<longleftrightarrow> tae_error_code err = Some 400 \<and>
     (mentions err (scalars ''message to edit not found'') \<or>
      mentions err (scalars ''message can'' @ [39] @ scalars ''t be edited'') \<or>
      mentions err (scalars ''message identifier is not specified''))"

definition should_fallback_from_rich_message :: "telegram_api_error \<Rightarrow> bool" where
  "should_fallback_from_rich_message err \<longleftrightarrow>
     (let called = lower (utrim (tae_method err));
          send_rich = called = scalars ''sendrichmessage''
      in send_rich \<and> (tae_error_code err = Some 404 \<or> tae_status err = 404) \<or>
         (tae_error_code err = Some 400 \<or> tae_status err = 400) \<and>
         (mentions err (scalars ''rich_message'') \<or> mentions err (scalars ''rich message'') \<or>
          mentions err (scalars ''sendrichmessage'') \<or>
          mentions err (scalars ''can'' @ [39] @ scalars ''t parse entities'') \<or> mentions err (scalars ''cannot parse entities'') \<or>
          mentions err (scalars ''can'' @ [39] @ scalars ''t find end of the entity'') \<or> mentions err (scalars ''unsupported start tag'') \<or>
          mentions err (scalars ''unsupported end tag'') \<or>
          send_rich \<and> (mentions err (scalars ''blocks'') \<or> mentions err (scalars ''inputrichblock'') \<or>
            mentions err (scalars ''unsupported rich'') \<or> mentions err (scalars ''unknown field'')) \<or>
          called = scalars ''editmessagetext'' \<and> mentions err (scalars ''message text is empty'')))"

text \<open>\<open>downcast_ref\<close>: the API's own errors only.\<close>

fun api_error :: "(telegram_api_error \<Rightarrow> bool) \<Rightarrow> send_error \<Rightarrow> bool" where
  "api_error P (ApiError err) = P err"
| "api_error P _ = False"

subsection \<open>Operations\<close>

text \<open>What Telegram answers to a request after others; a group of photos is answered with their identifiers.\<close>

record telegram_api =
  ta_answer :: "tg_request list \<Rightarrow> tg_request \<Rightarrow> send_error + int"
  ta_group_answer :: "tg_request list \<Rightarrow> tg_request \<Rightarrow> send_error + int list"
  ta_document_written :: "tg_request list \<Rightarrow> bool"

type_synonym 'a tg = "tg_request list \<Rightarrow> ((send_error + 'a) \<times> tg_request list) option"

definition tg_ok :: "'a \<Rightarrow> 'a tg" where
  "tg_ok x = (\<lambda>sent. Some (Inr x, sent))"

definition tg_error :: "send_error \<Rightarrow> 'a tg" where
  "tg_error err = (\<lambda>sent. Some (Inl err, sent))"

definition tg_case :: "'a tg \<Rightarrow> ('a \<Rightarrow> 'b tg) \<Rightarrow> (send_error \<Rightarrow> 'b tg) \<Rightarrow> 'b tg" where
  "tg_case operation on_ok on_error =
     (\<lambda>sent. case operation sent of
        None \<Rightarrow> None
      | Some (Inr x, sent) \<Rightarrow> on_ok x sent
      | Some (Inl err, sent) \<Rightarrow> on_error err sent)"

definition tg_then :: "'a tg \<Rightarrow> ('a \<Rightarrow> 'b tg) \<Rightarrow> 'b tg" where
  "tg_then operation next_step = tg_case operation next_step tg_error"

definition post :: "telegram_api \<Rightarrow> tg_request \<Rightarrow> int tg" where
  "post api request = (\<lambda>sent. Some (ta_answer api sent request, sent @ [request]))"

definition post_group :: "telegram_api \<Rightarrow> string \<Rightarrow> (string \<times> utext option) list \<Rightarrow> int list tg" where
  "post_group api target items =
     (\<lambda>sent. let request = SendMediaGroup target items
       in if \<not> (2 \<le> length items \<and> length items \<le> 10)
          then Some (Inl (OtherError (scalars ''telegram media groups require 2-10 photos'')), sent)
          else case ta_group_answer api sent request of
            Inl err \<Rightarrow> Some (Inl err, sent @ [request])
          | Inr ids \<Rightarrow>
              if length ids \<noteq> length items
              then Some (Inl (OtherError (scalars ''telegram api sendMediaGroup returned too few messages'')), sent @ [request])
              else Some (Inr ids, sent @ [request]))"

text \<open>The result of cutting a text, as an operation that sends nothing.\<close>

definition tg_cut :: "'a option \<Rightarrow> 'a tg" where
  "tg_cut parts = (\<lambda>sent. map_option (\<lambda>x. (Inr x, sent)) parts)"

subsection \<open>Texts\<close>

text \<open>A part is sent as HTML, and as plain text when that fails; every part but the first is silent.\<close>

fun send_parts :: "telegram_api \<Rightarrow> string \<Rightarrow> bool \<Rightarrow> int \<Rightarrow> nat \<Rightarrow> utext list \<Rightarrow> int tg" where
  "send_parts api target silent last_id index [] = tg_ok last_id"
| "send_parts api target silent last_id index (chunk # rest) =
     (let chunk_silent = silent \<or> 0 < index
      in tg_case (post api (SendMessage target (telegram_markdown_to_html chunk) (Some Html) chunk_silent None))
           (\<lambda>message_id. send_parts api target silent message_id (index + 1) rest)
           (\<lambda>_. tg_then (post api (SendMessage target chunk None chunk_silent None))
              (\<lambda>message_id. send_parts api target silent message_id (index + 1) rest)))"

definition send_text_with_silence :: "telegram_api \<Rightarrow> im_locale \<Rightarrow> string \<Rightarrow> utext \<Rightarrow> bool \<Rightarrow> string tg" where
  "send_text_with_silence api locale target s silent =
     (let (continues_marker, continued_marker) = chunk_markers locale
      in tg_then (tg_cut (telegram_text_chunks (telegram_cleanup_text s) continues_marker continued_marker)) (\<lambda>chunks.
         tg_then (send_parts api target silent 0 0 chunks) (\<lambda>message_id. tg_ok (show_int message_id))))"

definition send_text :: "telegram_api \<Rightarrow> im_locale \<Rightarrow> string \<Rightarrow> utext \<Rightarrow> string tg" where
  "send_text api locale target s = send_text_with_silence api locale target s False"

subsection \<open>Editing\<close>

text \<open>\<open>Ok(None)\<close> is an edit that cannot be made, so that a message has to be sent.\<close>

definition try_edit :: "telegram_api \<Rightarrow> string \<Rightarrow> (int \<Rightarrow> tg_request) \<Rightarrow> int option tg" where
  "try_edit api message_id request =
     (case parse_i64 (trim message_id) of
        None \<Rightarrow> tg_ok None
      | Some number_of_message \<Rightarrow>
          tg_case (post api (request number_of_message)) (\<lambda>updated. tg_ok (Some updated))
            (\<lambda>err. if api_error is_message_not_modified err then tg_ok (Some number_of_message)
                   else if api_error is_edit_target_unavailable err then tg_ok None
                   else tg_error err))"

definition try_edit_message_text ::
  "telegram_api \<Rightarrow> string \<Rightarrow> string \<Rightarrow> utext \<Rightarrow> parse_mode option \<Rightarrow> keyboard option \<Rightarrow> int option tg" where
  "try_edit_message_text api target message_id s mode reply_markup =
     try_edit api message_id (\<lambda>number_of_message. EditMessageText target number_of_message s mode reply_markup)"

definition try_edit_rich_message ::
  "telegram_api \<Rightarrow> string \<Rightarrow> string \<Rightarrow> rich_content \<Rightarrow> keyboard option \<Rightarrow> int option tg" where
  "try_edit_rich_message api target message_id rich_message reply_markup =
     try_edit api message_id (\<lambda>number_of_message. EditRichMessage target number_of_message rich_message reply_markup)"

definition clear_reply_markup :: "telegram_api \<Rightarrow> string \<Rightarrow> string option \<Rightarrow> bool tg" where
  "clear_reply_markup api target message_id =
     (case Option.bind message_id (\<lambda>message_id. parse_i64 (trim message_id)) of
        None \<Rightarrow> tg_ok False
      | Some number_of_message \<Rightarrow>
          tg_case (post api (EditReplyMarkup target number_of_message [])) (\<lambda>_. tg_ok True)
            (\<lambda>err. if api_error is_message_not_modified err then tg_ok True
                   else if api_error is_edit_target_unavailable err then tg_ok False
                   else tg_error err))"

text \<open>\<open>let _ =\<close>: the outcome does not matter.\<close>

definition tg_ignore :: "'a tg \<Rightarrow> 'b tg \<Rightarrow> 'b tg" where
  "tg_ignore operation next_step = tg_case operation (\<lambda>_. next_step) (\<lambda>_. next_step)"

definition send_or_update_with_markup ::
  "telegram_api \<Rightarrow> string \<Rightarrow> string option \<Rightarrow> utext \<Rightarrow> keyboard \<Rightarrow> parse_mode option \<Rightarrow> string tg" where
  "send_or_update_with_markup api target message_id s reply_markup mode =
     (let s = telegram_cleanup_text s
      in tg_then (try_edit_message_text api target (unwrap_or message_id []) s mode (Some reply_markup)) (\<lambda>updated.
         case updated of
           Some updated_id \<Rightarrow> tg_ok (show_int updated_id)
         | None \<Rightarrow> tg_ignore (clear_reply_markup api target message_id)
             (tg_then (post api (SendMessage target s mode False (Some reply_markup))) (\<lambda>sent_id. tg_ok (show_int sent_id)))))"

definition send_or_update_text :: "telegram_api \<Rightarrow> im_locale \<Rightarrow> string \<Rightarrow> string option \<Rightarrow> utext \<Rightarrow> string tg" where
  "send_or_update_text api locale target message_id s =
     (let s = telegram_cleanup_text s
      in tg_then (try_edit_message_text api target (unwrap_or message_id []) (telegram_markdown_to_html s) (Some Html) (Some []))
           (\<lambda>updated. case updated of
              Some updated_id \<Rightarrow> tg_ok (show_int updated_id)
            | None \<Rightarrow> tg_ignore (clear_reply_markup api target message_id) (send_text api locale target s)))"

definition send_or_update_rich_message ::
  "telegram_api \<Rightarrow> im_locale \<Rightarrow> string \<Rightarrow> string option \<Rightarrow> rich_content \<Rightarrow> utext \<Rightarrow> string tg" where
  "send_or_update_rich_message api locale target message_id rich_message fallback_markdown =
     (let fallback = (\<lambda>err. if api_error should_fallback_from_rich_message err
            then send_or_update_text api locale target message_id fallback_markdown
            else tg_error err)
      in tg_case (try_edit_rich_message api target (unwrap_or message_id []) rich_message (Some []))
           (\<lambda>updated. case updated of
              Some updated_id \<Rightarrow> tg_ok (show_int updated_id)
            | None \<Rightarrow> tg_case (post api (SendRichMessage target rich_message)) (\<lambda>sent_id. tg_ok (show_int sent_id)) fallback)
           fallback)"

definition send_or_update_rich_blocks ::
  "telegram_api \<Rightarrow> im_locale \<Rightarrow> string \<Rightarrow> string option \<Rightarrow> json list \<Rightarrow> utext \<Rightarrow> string tg" where
  "send_or_update_rich_blocks api locale target message_id blocks fallback_markdown =
     send_or_update_rich_message api locale target message_id (RichBlocks blocks) (telegram_cleanup_text fallback_markdown)"

subsection \<open>Final replies, quotes and notices\<close>

definition telegram_turn_completed_card_title :: "im_locale \<Rightarrow> utext" where
  "telegram_turn_completed_card_title locale = by_locale locale ([9989] @ scalars '' '' @ [24050, 23436, 25104]) ([9989] @ scalars '' Completed'')"

definition turn_completed_card_header :: "im_locale \<Rightarrow> nat option \<Rightarrow> utext" where
  "turn_completed_card_header locale elapsed_ms =
     (let base = telegram_turn_completed_card_title locale
      in case opt_filter (\<lambda>ms. 1000 \<le> ms) elapsed_ms of
           Some ms \<Rightarrow> base @ [32, 183, 32] @ format_turn_elapsed locale ms
         | None \<Rightarrow> base)"

definition telegram_desktop_user_credit_for_os :: "im_locale \<Rightarrow> string \<Rightarrow> utext" where
  "telegram_desktop_user_credit_for_os locale os =
     (if os = ''macos'' \<or> os = ''darwin'' then by_locale locale ([20320] @ scalars '' '' @ [183] @ scalars '' Codex Mac '' @ [31471]) (scalars ''You '' @ [183] @ scalars '' Codex for Mac'')
      else if os = ''windows'' then by_locale locale ([20320] @ scalars '' '' @ [183] @ scalars '' Codex Windows '' @ [31471]) (scalars ''You '' @ [183] @ scalars '' Codex for Windows'')
      else if os = ''linux'' then by_locale locale ([20320] @ scalars '' '' @ [183] @ scalars '' Codex Linux '' @ [31471]) (scalars ''You '' @ [183] @ scalars '' Codex for Linux'')
      else by_locale locale ([20320] @ scalars '' '' @ [183] @ scalars '' Codex '' @ [30005, 33041, 31471]) (scalars ''You '' @ [183] @ scalars '' Codex Desktop''))"

definition telegram_turn_completed_footer :: "im_locale \<Rightarrow> utext" where
  "telegram_turn_completed_footer locale = by_locale locale ([24050, 23436, 25104]) (scalars ''Completed'')"

definition telegram_context_compaction_title :: "im_locale \<Rightarrow> utext" where
  "telegram_context_compaction_title locale = by_locale locale ([19978, 19979, 25991, 24050, 33258, 21160, 21387, 32553]) (scalars ''Context compressed automatically'')"

definition telegram_context_compaction_credit :: "im_locale \<Rightarrow> utext" where
  "telegram_context_compaction_credit locale = by_locale locale ([20219, 21153, 32487, 32493]) (scalars ''Task continues'')"

definition turn_document_notice :: "im_locale \<Rightarrow> nat \<Rightarrow> utext" where
  "turn_document_notice locale chars =
     by_locale locale ([22238, 22797, 36739, 38271, 65288] @ number chars @ scalars '' '' @ [23383, 31526, 65289, 65292, 24050, 20316, 20026, 38468, 20214, 21457, 36865, 12290]) (scalars ''Long reply ('' @ number chars @ scalars '' chars) attached as a file.'')"

definition TELEGRAM_TURN_DOCUMENT_CHUNK_LIMIT :: nat where "TELEGRAM_TURN_DOCUMENT_CHUNK_LIMIT = 2"

text \<open>The reply as a file; writing it may fail.\<close>

definition send_turn_completed_document ::
  "telegram_api \<Rightarrow> im_locale \<Rightarrow> string \<Rightarrow> utext \<Rightarrow> utext \<Rightarrow> string tg" where
  "send_turn_completed_document api locale target reply_text footer_text =
     (\<lambda>sent. if \<not> ta_document_written api sent
        then Some (Inl (OtherError (scalars ''failed to write'')), sent)
        else
          let notice = turn_document_notice locale (length reply_text);
              footer = utrim footer_text;
              caption = take 980 (if footer = [] then notice else notice @ [10, 10] @ footer)
          in tg_then (post api (SendDocument target (TurnDocument reply_text) (Some caption) (Some Html)))
               (\<lambda>message_id. tg_ok (show_int message_id)) sent)"

fun send_turn_parts :: "telegram_api \<Rightarrow> im_locale \<Rightarrow> string \<Rightarrow> utext \<Rightarrow> string \<Rightarrow> utext list \<Rightarrow> string tg" where
  "send_turn_parts api locale target header last_id [] = tg_ok last_id"
| "send_turn_parts api locale target header last_id [chunk] =
     (let (rich_markdown, fallback_markdown) = telegram_turn_completed_messages chunk header
      in send_or_update_rich_message api locale target None (RichMarkdown rich_markdown) fallback_markdown)"
| "send_turn_parts api locale target header last_id (chunk # rest) =
     tg_then (send_text api locale target chunk) (\<lambda>message_id. send_turn_parts api locale target header message_id rest)"

definition send_turn_completed ::
  "telegram_api \<Rightarrow> im_locale \<Rightarrow> string \<Rightarrow> utext \<Rightarrow> utext \<Rightarrow> nat option \<Rightarrow> string tg" where
  "send_turn_completed api locale target reply_text footer_text elapsed_ms =
     (let header = turn_completed_card_header locale elapsed_ms;
          (continues_marker, continued_marker) = chunk_markers locale
      in tg_then (tg_cut (telegram_turn_completed_chunks reply_text header continues_marker continued_marker)) (\<lambda>chunks.
           let as_parts = send_turn_parts api locale target header [] chunks
           in if TELEGRAM_TURN_DOCUMENT_CHUNK_LIMIT < length chunks
              then tg_case (send_turn_completed_document api locale target reply_text footer_text) tg_ok (\<lambda>_. as_parts)
              else as_parts))"

fun send_quote_parts :: "telegram_api \<Rightarrow> im_locale \<Rightarrow> string \<Rightarrow> utext \<Rightarrow> string \<Rightarrow> utext list \<Rightarrow> string tg" where
  "send_quote_parts api locale target credit_text last_id [] = tg_ok last_id"
| "send_quote_parts api locale target credit_text last_id (chunk # rest) =
     (let (rich_html, fallback_markdown) = telegram_user_message_messages chunk credit_text
      in tg_then (send_or_update_rich_message api locale target None (RichHtml rich_html) fallback_markdown)
           (\<lambda>message_id. send_quote_parts api locale target credit_text message_id rest))"

definition send_user_message_quote :: "telegram_api \<Rightarrow> im_locale \<Rightarrow> string \<Rightarrow> utext \<Rightarrow> utext \<Rightarrow> string tg" where
  "send_user_message_quote api locale target message_text credit_text =
     (let (continues_marker, continued_marker) = chunk_markers locale
      in tg_then (tg_cut (telegram_user_message_chunks message_text credit_text continues_marker continued_marker))
           (send_quote_parts api locale target credit_text []))"

definition send_context_compaction :: "telegram_api \<Rightarrow> im_locale \<Rightarrow> string \<Rightarrow> utext \<Rightarrow> utext \<Rightarrow> string tg" where
  "send_context_compaction api locale target title_text credit_text =
     (let (rich_html, fallback_text) = telegram_context_compaction_messages title_text credit_text
      in send_or_update_rich_message api locale target None (RichHtml rich_html) fallback_text)"

subsection \<open>Approvals\<close>

fun send_card_parts :: "telegram_api \<Rightarrow> string \<Rightarrow> keyboard \<Rightarrow> int \<Rightarrow> utext list \<Rightarrow> int tg" where
  "send_card_parts api target reply_markup last_id [] = tg_ok last_id"
| "send_card_parts api target reply_markup last_id (chunk # rest) =
     (let markup = (if rest = [] then Some reply_markup else None)
      in tg_case (post api (SendMessage target (telegram_markdown_to_html chunk) (Some Html) False markup))
           (\<lambda>message_id. send_card_parts api target reply_markup message_id rest)
           (\<lambda>_. tg_then (post api (SendMessage target chunk None False markup))
              (\<lambda>message_id. send_card_parts api target reply_markup message_id rest)))"

definition send_approval ::
  "telegram_api \<Rightarrow> im_locale \<Rightarrow> (string \<Rightarrow> nat list) \<Rightarrow> (json \<Rightarrow> string) \<Rightarrow> string \<Rightarrow> pending_approval \<Rightarrow> im_locale \<Rightarrow> string tg" where
  "send_approval api locale sha256 display target approval text_locale =
     tg_then (tg_cut (approval_text (approval_card_of approval) text_locale)) (\<lambda>card_text.
       let s = telegram_cleanup_text card_text;
           (continues_marker, continued_marker) = chunk_markers locale
       in case approval_keyboard sha256 display approval text_locale of
            None \<Rightarrow> send_text api locale target s
          | Some reply_markup \<Rightarrow>
              tg_then (tg_cut (telegram_text_chunks s continues_marker continued_marker)) (\<lambda>chunks.
              tg_then (send_card_parts api target reply_markup 0 chunks) (\<lambda>message_id. tg_ok (show_int message_id))))"

definition update_resolved_approval ::
  "telegram_api \<Rightarrow> string \<Rightarrow> string option \<Rightarrow> pending_approval \<Rightarrow> utext \<Rightarrow> im_locale \<Rightarrow> bool tg" where
  "update_resolved_approval api target message_id approval decision_label locale =
     (case message_id of
        None \<Rightarrow> tg_ok False
      | Some message_id \<Rightarrow>
          let resolved_html = telegram_markdown_to_html (resolved_approval_text (approval_card_of approval) decision_label locale);
              clear = clear_reply_markup api target (Some message_id)
          in tg_case (try_edit_message_text api target message_id resolved_html (Some Html) (Some []))
               (\<lambda>updated. if updated \<noteq> None then tg_ok True else tg_ignore clear (tg_ok False))
               (\<lambda>err. tg_ignore clear (tg_error err)))"

subsection \<open>Images\<close>

definition TELEGRAM_MAX_MEDIA_GROUP_ITEMS :: nat where "TELEGRAM_MAX_MEDIA_GROUP_ITEMS = 10"

text \<open>An image: where it is, its caption, and the text that is sent instead when it cannot be.\<close>

type_synonym image_item = "string \<times> utext option \<times> utext option"

definition caption_html :: "utext option \<Rightarrow> utext option" where
  "caption_html caption = map_option telegram_markdown_to_html (map_option telegram_cleanup_text caption)"

definition send_image_path :: "telegram_api \<Rightarrow> string \<Rightarrow> string \<Rightarrow> utext option \<Rightarrow> string tg" where
  "send_image_path api target local_path caption =
     tg_case (post api (SendPhoto target (LocalFile local_path) (caption_html caption) (Some Html)))
       (\<lambda>message_id. tg_ok (show_int message_id))
       (\<lambda>photo_err. tg_case (post api (SendDocument target (LocalFile local_path) (caption_html caption) (Some Html)))
          (\<lambda>message_id. tg_ok (show_int message_id)) (\<lambda>_. tg_error photo_err))"

definition send_image_path_with_fallback :: "telegram_api \<Rightarrow> im_locale \<Rightarrow> string \<Rightarrow> image_item \<Rightarrow> string tg" where
  "send_image_path_with_fallback api locale target item =
     (case item of (local_path, caption, fallback_text) \<Rightarrow>
        tg_case (send_image_path api target local_path caption) tg_ok
          (\<lambda>image_err. case opt_filter (\<lambda>s. s \<noteq> []) (map_option utrim fallback_text) of
             None \<Rightarrow> tg_error image_err
           | Some fallback \<Rightarrow> tg_case (send_text api locale target fallback) tg_ok
               (\<lambda>fallback_err. tg_error (ImageAndFallback image_err fallback_err))))"

definition telegram_media_group_sizes :: "nat \<Rightarrow> nat list" where
  "telegram_media_group_sizes item_count =
     (if item_count = 0 then []
      else if item_count \<le> TELEGRAM_MAX_MEDIA_GROUP_ITEMS then [item_count]
      else
        let group_count = div_ceil item_count TELEGRAM_MAX_MEDIA_GROUP_ITEMS;
            base_size = item_count div group_count;
            remainder = item_count mod group_count
        in map (\<lambda>index. base_size + (if index < remainder then 1 else 0)) [0..<group_count])"

text \<open>What went wrong with which image: the album's error is added when an album was tried first.\<close>

datatype image_failure = ImageFailed nat string "send_error option" send_error

text \<open>The images of a group one by one; \<open>number_of\<close> counts an image for the report.\<close>

fun send_singly ::
  "telegram_api \<Rightarrow> im_locale \<Rightarrow> string \<Rightarrow> (nat \<Rightarrow> nat) \<Rightarrow> send_error option \<Rightarrow> nat \<Rightarrow> image_item list
     \<Rightarrow> string list \<Rightarrow> image_failure list \<Rightarrow> (string list \<times> image_failure list) tg" where
  "send_singly api locale target number_of album_err offset [] ids failures = tg_ok (ids, failures)"
| "send_singly api locale target number_of album_err offset (item # rest) ids failures =
     tg_case (send_image_path_with_fallback api locale target item)
       (\<lambda>message_id. send_singly api locale target number_of album_err (offset + 1) rest (ids @ [message_id]) failures)
       (\<lambda>err. send_singly api locale target number_of album_err (offset + 1) rest ids
          (failures @ [ImageFailed (number_of offset) (fst item) album_err err]))"

text \<open>The groups in order. A slice past the end would panic; \<open>take\<close> and \<open>drop\<close> stand for slices that the sizes
  keep within the items.\<close>

fun send_groups ::
  "telegram_api \<Rightarrow> im_locale \<Rightarrow> string \<Rightarrow> nat \<Rightarrow> nat list \<Rightarrow> image_item list
     \<Rightarrow> string list \<Rightarrow> image_failure list \<Rightarrow> (string list \<times> image_failure list) tg" where
  "send_groups api locale target group_index [] items ids failures = tg_ok (ids, failures)"
| "send_groups api locale target group_index (group_size # sizes) items ids failures =
     (let group = take group_size items;
          others = drop group_size items;
          number_of = (\<lambda>offset. group_index * TELEGRAM_MAX_MEDIA_GROUP_ITEMS + offset + 1);
          go_on = (\<lambda>(ids, failures). send_groups api locale target (group_index + 1) sizes others ids failures)
      in if length group = 1
         then tg_then (send_singly api locale target number_of None 0 group ids failures) go_on
         else tg_case (post_group api target (map (\<lambda>(local_path, caption, _). (local_path, caption_html caption)) group))
           (\<lambda>group_ids. go_on (ids @ map show_int group_ids, failures))
           (\<lambda>group_err. tg_then (send_singly api locale target number_of (Some group_err) 0 group ids failures) go_on))"

text \<open>All images arrived, with their messages, or some did not: the failures of how many images.\<close>

datatype images_outcome = ImagesSent "string list" | ImagesFailed "image_failure list" nat

definition send_image_paths :: "telegram_api \<Rightarrow> im_locale \<Rightarrow> string \<Rightarrow> image_item list \<Rightarrow> images_outcome tg" where
  "send_image_paths api locale target items =
     (case items of
        [] \<Rightarrow> tg_ok (ImagesSent [])
      | [item] \<Rightarrow> tg_then (send_image_path_with_fallback api locale target item) (\<lambda>message_id. tg_ok (ImagesSent [message_id]))
      | _ \<Rightarrow> tg_then (send_groups api locale target 0 (telegram_media_group_sizes (length items)) items [] [])
          (\<lambda>(ids, failures). tg_ok (if failures = [] then ImagesSent ids else ImagesFailed failures (length items))))"

end
