(* ===== verification/TelegramDelivery.thy ===== *)
theory TelegramDelivery
  imports TelegramAdapter "HOL-Library.Sublist"
begin

section \<open>Telegram: what arrives\<close>

text \<open>
  What the operations of \<open>im/telegram/adapter.rs\<close> achieve, whatever Telegram answers: they end, they only add
  requests to those sent before, the parts of a text arrive in order and fit into messages, and every image
  arrives or is reported.
\<close>

subsection \<open>Operations that end\<close>

definition always_ends :: "'a tg \<Rightarrow> bool" where
  "always_ends operation = (\<forall>sent. \<exists>outcome log. operation sent = Some (outcome, sent @ log))"

lemma ends_run: "always_ends operation \<Longrightarrow> \<exists>outcome log. operation sent = Some (outcome, sent @ log)"
  unfolding always_ends_def by blast

lemma ends_ok [intro!, simp]: "always_ends (tg_ok x)"
  by (simp add: always_ends_def tg_ok_def)

lemma ends_error [intro!, simp]: "always_ends (tg_error err)"
  by (simp add: always_ends_def tg_error_def)

lemma ends_post [intro!, simp]: "always_ends (post api request)"
  by (simp add: always_ends_def post_def)

lemma ends_post_group [intro!, simp]: "always_ends (post_group api target items)"
  by (auto simp: always_ends_def post_group_def Let_def split: sum.split)

lemma ends_case [intro!]:
  assumes "always_ends operation" and "\<And>x. always_ends (on_ok x)" and "\<And>err. always_ends (on_error err)"
  shows "always_ends (tg_case operation on_ok on_error)"
  unfolding always_ends_def
proof
  fix sent
  obtain outcome log where first: "operation sent = Some (outcome, sent @ log)" using ends_run[OF assms(1)] by blast
  have "always_ends (case outcome of Inr x \<Rightarrow> on_ok x | Inl err \<Rightarrow> on_error err)"
    using assms(2,3) by (simp split: sum.split)
  then obtain outcome' log' where
    "(case outcome of Inr x \<Rightarrow> on_ok x | Inl err \<Rightarrow> on_error err) (sent @ log) = Some (outcome', (sent @ log) @ log')"
    using ends_run by blast
  then have "tg_case operation on_ok on_error sent = Some (outcome', sent @ (log @ log'))"
    using first by (cases outcome) (simp_all add: tg_case_def)
  then show "\<exists>outcome log. tg_case operation on_ok on_error sent = Some (outcome, sent @ log)" by blast
qed

lemma ends_then [intro!]: "always_ends operation \<Longrightarrow> (\<And>x. always_ends (next_step x)) \<Longrightarrow> always_ends (tg_then operation next_step)"
  unfolding tg_then_def by auto

lemma ends_ignore [intro!]: "always_ends operation \<Longrightarrow> always_ends next_step \<Longrightarrow> always_ends (tg_ignore operation next_step)"
  unfolding tg_ignore_def by auto

lemma ends_option [intro!]:
  "always_ends none \<Longrightarrow> (\<And>x. always_ends (some x)) \<Longrightarrow> always_ends (case found of None \<Rightarrow> none | Some x \<Rightarrow> some x)"
  by (cases found) simp_all

lemma ends_if [intro!]: "always_ends yes \<Longrightarrow> always_ends no \<Longrightarrow> always_ends (if condition then yes else no)"
  by simp

lemma tg_cut_Some: "tg_then (tg_cut (Some x)) next_step = next_step x"
  by (rule ext) (simp add: tg_then_def tg_case_def tg_cut_def)

lemma short_markers: "length (fst (chunk_markers locale)) + length (snd (chunk_markers locale)) \<le> 26"
  by (cases "locale") (simp_all add: chunk_markers_def scalars_def)

lemma cut_text:
  obtains parts where
    "telegram_text_chunks s (fst (chunk_markers locale)) (snd (chunk_markers locale)) = Some parts"
    "parts \<noteq> []" "list_all (\<lambda>chunk. length chunk \<le> 4096) parts"
  using chunks_fit[OF short_markers[of "locale"], of 4096 s]
  by (auto simp: telegram_text_chunks_def TELEGRAM_MAX_MESSAGE_CHARS_def)

lemma ends_send_parts: "always_ends (send_parts api target silent last_id index parts)"
  by (induction parts arbitrary: last_id index) (auto simp: Let_def)

lemma ends_send_text [intro!, simp]:
  "always_ends (send_text_with_silence api locale target s silent)" "always_ends (send_text api locale target s)"
proof -
  obtain parts where "telegram_text_chunks (telegram_cleanup_text s) (fst (chunk_markers locale)) (snd (chunk_markers locale)) = Some parts"
    by (rule cut_text)
  then have "always_ends (send_text_with_silence api locale target s silent)" for silent
    by (auto simp: send_text_with_silence_def case_prod_unfold tg_cut_Some ends_send_parts)
  then show "always_ends (send_text_with_silence api locale target s silent)" "always_ends (send_text api locale target s)"
    by (simp_all add: send_text_def)
qed

lemma ends_edits [intro!, simp]:
  "always_ends (try_edit_message_text api target message_id s mode reply_markup)"
  "always_ends (try_edit_rich_message api target message_id rich_message reply_markup)"
  "always_ends (clear_reply_markup api target target_id)"
  by (auto simp: try_edit_message_text_def try_edit_rich_message_def try_edit_def clear_reply_markup_def)

lemma ends_update_text [intro!, simp]: "always_ends (send_or_update_text api locale target message_id s)"
  by (auto simp: send_or_update_text_def Let_def)

lemma ends_rich_message [intro!, simp]:
  "always_ends (send_or_update_rich_message api locale target message_id rich_message fallback_markdown)"
  by (auto simp: send_or_update_rich_message_def Let_def)

lemma ends_turn_parts: "always_ends (send_turn_parts api locale target header last_id parts)"
  by (induction api "locale" target header last_id parts rule: send_turn_parts.induct) (auto simp: case_prod_unfold Let_def)

lemma ends_quote_parts: "always_ends (send_quote_parts api locale target credit_text last_id parts)"
  by (induction parts arbitrary: last_id) (auto simp: case_prod_unfold Let_def)

lemma ends_card_parts: "always_ends (send_card_parts api target reply_markup last_id parts)"
  by (induction parts arbitrary: last_id) (auto simp: Let_def)

lemma ends_document: "always_ends (send_turn_completed_document api locale target reply_text footer_text)"
  unfolding always_ends_def
proof
  fix sent
  let ?post = "\<lambda>caption. tg_then (post api (SendDocument target (TurnDocument reply_text) (Some caption) (Some Html)))
       (\<lambda>message_id. tg_ok (show_int message_id))"
  have "always_ends (?post caption)" for caption by auto
  then show "\<exists>outcome log. send_turn_completed_document api locale target reply_text footer_text sent = Some (outcome, sent @ log)"
    using ends_run by (cases "ta_document_written api sent") (fastforce simp: send_turn_completed_document_def Let_def)+
qed

lemma ends_image [intro!, simp]:
  "always_ends (send_image_path api target local_path caption)" "always_ends (send_image_path_with_fallback api locale target item)"
  by (auto simp: send_image_path_def send_image_path_with_fallback_def split: prod.split)

subsection \<open>Parts in order\<close>

text \<open>Each part in two forms, the second tried when the first is refused: what sending a text and sending a card
  have in common.\<close>

fun deliver :: "telegram_api \<Rightarrow> int \<Rightarrow> (tg_request \<times> tg_request) list \<Rightarrow> int tg" where
  "deliver api last_id [] = tg_ok last_id"
| "deliver api last_id ((html, plain) # rest) =
     tg_case (post api html) (\<lambda>message_id. deliver api message_id rest)
       (\<lambda>_. tg_then (post api plain) (\<lambda>message_id. deliver api message_id rest))"

definition both_forms :: "string \<Rightarrow> bool \<Rightarrow> keyboard option \<Rightarrow> utext \<Rightarrow> tg_request \<times> tg_request" where
  "both_forms target silent markup chunk =
     (SendMessage target (telegram_markdown_to_html chunk) (Some Html) silent markup, SendMessage target chunk None silent markup)"

fun text_forms :: "string \<Rightarrow> bool \<Rightarrow> utext list \<Rightarrow> (tg_request \<times> tg_request) list" where
  "text_forms target silent [] = []"
| "text_forms target silent (chunk # rest) = both_forms target silent None chunk # text_forms target True rest"

lemma length_text_forms [simp]: "length (text_forms target silent parts) = length parts"
  by (induction parts arbitrary: silent) simp_all

lemma send_parts_deliver: "send_parts api target silent last_id index parts = deliver api last_id (text_forms target (silent \<or> 0 < index) parts)"
proof (induction parts arbitrary: last_id index)
  case (Cons chunk rest)
  then show ?case by (cases silent) (simp_all add: both_forms_def Let_def)
qed simp

fun card_forms :: "string \<Rightarrow> keyboard \<Rightarrow> utext list \<Rightarrow> (tg_request \<times> tg_request) list" where
  "card_forms target reply_markup [] = []"
| "card_forms target reply_markup (chunk # rest) =
     both_forms target False (if rest = [] then Some reply_markup else None) chunk # card_forms target reply_markup rest"

lemma send_card_parts_deliver: "send_card_parts api target reply_markup last_id parts = deliver api last_id (card_forms target reply_markup parts)"
  by (induction parts arbitrary: last_id) (simp_all add: both_forms_def Let_def)

text \<open>The requests of a log that Telegram accepted.\<close>

fun accepted :: "telegram_api \<Rightarrow> tg_request list \<Rightarrow> tg_request list \<Rightarrow> tg_request list" where
  "accepted api sent [] = []"
| "accepted api sent (request # log) =
     (case ta_answer api sent request of Inr _ \<Rightarrow> [request] | Inl _ \<Rightarrow> []) @ accepted api (sent @ [request]) log"

text \<open>What was sent for a list of parts: for each part that was tried its HTML, or its HTML and then the plain text.\<close>

inductive tried :: "(tg_request \<times> tg_request) list \<Rightarrow> tg_request list \<Rightarrow> bool" where
  nothing_tried: "tried forms []"
| html_tried: "tried forms log \<Longrightarrow> tried ((html, plain) # forms) (html # log)"
| both_tried: "tried forms log \<Longrightarrow> tried ((html, plain) # forms) (html # plain # log)"

text \<open>The parts arrive in order, each in one of its forms; nothing else was sent; what the operation returns is the
  last answer, an error exactly when a part did not arrive, and then no later part was tried.\<close>

definition arrives :: "telegram_api \<Rightarrow> tg_request list \<Rightarrow> (tg_request \<times> tg_request) list \<Rightarrow> send_error + int \<Rightarrow> tg_request list \<Rightarrow> bool" where
  "arrives api sent forms answer log \<longleftrightarrow>
     log \<noteq> [] \<and> tried forms log \<and> answer = ta_answer api (sent @ butlast log) (last log) \<and>
     list_all2 (\<lambda>(html, plain) request. request = html \<or> request = plain)
       (take (length (accepted api sent log)) forms) (accepted api sent log) \<and>
     (isl answer \<longleftrightarrow> length (accepted api sent log) < length forms)"

lemma arrives_html:
  assumes "arrives api (sent @ [html]) forms answer log" and "ta_answer api sent html = Inr message_id"
  shows "arrives api sent ((html, plain) # forms) answer (html # log)"
  using assms by (auto simp: arrives_def intro: html_tried)

lemma arrives_plain:
  assumes "arrives api (sent @ [html, plain]) forms answer log" and "ta_answer api sent html = Inl err"
    and "ta_answer api (sent @ [html]) plain = Inr message_id"
  shows "arrives api sent ((html, plain) # forms) answer (html # plain # log)"
  using assms by (auto simp: arrives_def intro: both_tried)

lemma deliver_arrives:
  "forms \<noteq> [] \<Longrightarrow> \<exists>answer log. deliver api last_id forms sent = Some (answer, sent @ log) \<and> arrives api sent forms answer log"
proof (induction forms arbitrary: last_id sent)
  case (Cons form rest)
  obtain html plain where form: "form = (html, plain)" by (cases form)
  have later: "rest = [] \<and> deliver api message_id rest (sent @ log) = Some (Inr message_id, sent @ log) \<or>
      (\<exists>answer log'. deliver api message_id rest (sent @ log) = Some (answer, (sent @ log) @ log') \<and>
         arrives api (sent @ log) rest answer log')" for message_id log
    using Cons.IH[of message_id "sent @ log"] by (cases rest) (auto simp: tg_ok_def)
  have alone: "tried [(html, plain)] [html]" "tried [(html, plain)] [html, plain]" "tried (form # rest) [html, plain]"
    unfolding form by (intro html_tried both_tried nothing_tried)+
  show ?case
  proof (cases "ta_answer api sent html")
    case (Inr message_id)
    then have "deliver api last_id (form # rest) sent = deliver api message_id rest (sent @ [html])"
      using form by (simp add: tg_case_def post_def)
    with later[of message_id "[html]"] arrives_html[OF _ Inr, of rest _ _ plain] Inr form alone(1) show ?thesis
      by (elim disjE conjE exE) (fastforce simp: arrives_def)+
  next
    case first: (Inl err)
    show ?thesis
    proof (cases "ta_answer api (sent @ [html]) plain")
      case (Inr message_id)
      then have "deliver api last_id (form # rest) sent = deliver api message_id rest (sent @ [html, plain])"
        using form first by (simp add: tg_case_def tg_then_def post_def)
      with later[of message_id "[html, plain]"] arrives_plain[OF _ first Inr, of rest] first Inr form alone(2) show ?thesis
        by (elim disjE conjE exE) (fastforce simp: arrives_def)+
    next
      case (Inl err')
      then have "deliver api last_id (form # rest) sent = Some (Inl err', sent @ [html, plain])"
        using form first by (simp add: tg_case_def tg_then_def post_def tg_error_def)
      moreover have "arrives api sent (form # rest) (Inl err') [html, plain]" using first Inl alone(3) by (simp add: arrives_def)
      ultimately show ?thesis by blast
    qed
  qed
qed simp

lemma deliver_shown:
  assumes "forms \<noteq> []"
  shows "\<exists>answer log. tg_then (deliver api 0 forms) (\<lambda>message_id. tg_ok (show_int message_id)) sent =
      Some (map_sum id show_int answer, sent @ log) \<and> arrives api sent forms answer log"
proof -
  obtain answer log where run: "deliver api 0 forms sent = Some (answer, sent @ log)" "arrives api sent forms answer log"
    using deliver_arrives[OF assms] by blast
  have "tg_then (deliver api 0 forms) (\<lambda>message_id. tg_ok (show_int message_id)) sent = Some (map_sum id show_int answer, sent @ log)"
    using run(1) by (cases answer) (simp_all add: tg_then_def tg_case_def tg_ok_def tg_error_def)
  then show ?thesis using run(2) by blast
qed

text \<open>C20. A text arrives in order. However long it is and whatever Telegram answers, sending a text ends; the messages
  that Telegram accepts are the parts of the text one after the other, each of at most 4096 characters, as HTML or
  as plain text; only the first rings. The operation returns the last answer: an error exactly when a part did not
  arrive in either form, and then no later part arrives.\<close>

theorem text_arrives_in_order:
  "\<exists>parts answer log.
     telegram_text_chunks (telegram_cleanup_text s) (fst (chunk_markers locale)) (snd (chunk_markers locale)) = Some parts \<and>
     list_all (\<lambda>part. length part \<le> 4096) parts \<and>
     send_text_with_silence api locale target s silent sent = Some (map_sum id show_int answer, sent @ log) \<and>
     arrives api sent (text_forms target silent parts) answer log"
proof -
  obtain parts where parts: "parts \<noteq> []" "list_all (\<lambda>part. length part \<le> 4096) parts"
    "telegram_text_chunks (telegram_cleanup_text s) (fst (chunk_markers locale)) (snd (chunk_markers locale)) = Some parts"
    by (rule cut_text)
  then have "text_forms target silent parts \<noteq> []" by (cases parts) simp_all
  then obtain answer log where run: "arrives api sent (text_forms target silent parts) answer log"
    "tg_then (deliver api 0 (text_forms target silent parts)) (\<lambda>message_id. tg_ok (show_int message_id)) sent =
      Some (map_sum id show_int answer, sent @ log)"
    using deliver_shown by blast
  then have "send_text_with_silence api locale target s silent sent = Some (map_sum id show_int answer, sent @ log)"
    using parts(3) by (simp add: send_text_with_silence_def case_prod_unfold tg_cut_Some send_parts_deliver)
  then show ?thesis using parts run(1) by blast
qed

subsection \<open>Replies, quotes and cards\<close>

text \<open>A text that fits is one part, trimmed; a space stands for a blank one.\<close>

definition trimmed_part :: "utext \<Rightarrow> utext" where
  "trimmed_part s = (if utrim s = [] then scalars '' '' else utrim s)"

lemma one_message: "length s \<le> 4096 \<Longrightarrow>
    telegram_text_chunks (telegram_cleanup_text s) continues_marker continued_marker = Some [trimmed_part (telegram_cleanup_text s)]"
  using length_utrim[of "telegram_cleanup_text s"] cleanup_shorter[of s]
  by (auto simp: telegram_text_chunks_def telegram_text_chunks_with_limit_def Let_def TELEGRAM_MAX_MESSAGE_CHARS_def trimmed_part_def)

lemma cleaned_shorter: "length (utrim (telegram_cleanup_text s)) \<le> length s"
  using length_utrim[of "telegram_cleanup_text s"] cleanup_shorter[of s] by linarith

lemma length_number: "n < 2 ^ 64 \<Longrightarrow> length (number n) \<le> 20"
  using length_show_nat_le[of n 20] by (simp add: number_def scalars_def)

lemma length_header: "length (turn_completed_card_header locale elapsed_ms) \<le> 100"
proof -
  have short: "length (format_turn_elapsed locale ms) \<le> 80" for ms
  proof -
    define seconds where "seconds = ms div 1000 mod 2 ^ 64"
    have "seconds < 2 ^ 64" unfolding seconds_def by (rule mod_less_divisor) simp
    then have "seconds div 3600 < 2 ^ 64" "seconds mod 3600 div 60 < 2 ^ 64" "seconds mod 60 < 2 ^ 64"
      by (meson div_le_dividend mod_less_eq_dividend order.strict_trans1)+
    note small = this[THEN length_number]
    have "length (two_digits n) \<le> Suc (length (number n))" for n by (simp add: two_digits_def scalars_def)
    then have "length (two_digits (seconds mod 3600 div 60)) \<le> 21" "length (two_digits (seconds mod 60)) \<le> 21"
      using small le_trans[of _ "Suc _" 21] by fastforce+
    then show ?thesis
      unfolding format_turn_elapsed_def seconds_def[symmetric] Let_def
      using small by (cases "locale"; cases "0 < seconds div 3600"; cases "0 < seconds mod 3600 div 60") (simp_all add: scalars_def)
  qed
  have "length (format_turn_elapsed locale ms) \<le> 86" "length (format_turn_elapsed locale ms) \<le> 92" for ms
    using short[of ms] by simp_all
  then show ?thesis
    by (cases "locale"; cases "opt_filter (\<lambda>ms. 1000 \<le> ms) elapsed_ms")
      (simp_all add: turn_completed_card_header_def telegram_turn_completed_card_title_def by_locale_def Let_def scalars_def)
qed

lemma length_credit: "length (telegram_desktop_user_credit_for_os locale os) \<le> 100"
  by (cases "locale") (simp_all add: telegram_desktop_user_credit_for_os_def by_locale_def scalars_def)

lemma reply_cut:
  obtains parts where
    "telegram_turn_completed_chunks s (turn_completed_card_header locale elapsed_ms) (fst (chunk_markers locale)) (snd (chunk_markers locale)) = Some parts"
    "parts \<noteq> []" "list_all (\<lambda>part. length part + length (utrim (turn_completed_card_header locale elapsed_ms)) + 18 \<le> 4096) parts"
proof -
  let ?header = "turn_completed_card_header locale elapsed_ms"
  have header: "length (utrim ?header) \<le> 100" using length_utrim length_header le_trans by blast
  let ?max = "max (4096 - (length (utrim ?header) + 14 + 4)) 31"
  have "62 < ?max" "?max + length (utrim ?header) + 18 = 4096" using header by auto
  then obtain parts where parts: "telegram_text_chunks_with_limit s ?max (fst (chunk_markers locale)) (snd (chunk_markers locale)) = Some parts"
    "parts \<noteq> []" "list_all (\<lambda>part. length part \<le> ?max) parts"
    using chunks_fit[OF short_markers[of "locale"], of ?max s] by blast
  moreover have "list_all (\<lambda>part. length part + length (utrim ?header) + 18 \<le> 4096) parts"
    using parts(3) \<open>?max + length (utrim ?header) + 18 = 4096\<close> by (auto simp: list_all_iff)
  ultimately show thesis
    using that 
    by (simp add: telegram_turn_completed_chunks_def Let_def TELEGRAM_MAX_MESSAGE_CHARS_def TELEGRAM_CONTINUATION_OVERHEAD_def
        TELEGRAM_CARD_SEPARATOR_def)
qed

lemma quote_cut:
  obtains parts where
    "telegram_user_message_chunks s (telegram_desktop_user_credit_for_os locale os) (fst (chunk_markers locale)) (snd (chunk_markers locale)) = Some parts"
    "parts \<noteq> []" "list_all (\<lambda>part. length part + length (utrim (telegram_desktop_user_credit_for_os locale os)) + 2 \<le> 4096) parts"
proof -
  let ?credit = "telegram_desktop_user_credit_for_os locale os"
  have credit: "length (utrim ?credit) \<le> 100" using length_utrim length_credit le_trans by blast
  let ?max = "max (4096 - (length (utrim ?credit) + 2)) 31"
  have "62 < ?max" "?max + length (utrim ?credit) + 2 = 4096" "sat_add (length (utrim ?credit)) 2 = length (utrim ?credit) + 2"
    using credit by (auto simp: sat_add_def u64_max_def)
  then obtain parts where parts: "telegram_text_chunks_with_limit s ?max (fst (chunk_markers locale)) (snd (chunk_markers locale)) = Some parts"
    "parts \<noteq> []" "list_all (\<lambda>part. length part \<le> ?max) parts"
    using chunks_fit[OF short_markers[of "locale"], of ?max s] by blast
  moreover have "list_all (\<lambda>part. length part + length (utrim ?credit) + 2 \<le> 4096) parts"
    using parts(3) \<open>?max + length (utrim ?credit) + 2 = 4096\<close> by (auto simp: list_all_iff)
  ultimately show thesis
    using that \<open>sat_add (length (utrim ?credit)) 2 = length (utrim ?credit) + 2\<close>
    by (simp add: telegram_user_message_chunks_def Let_def TELEGRAM_MAX_MESSAGE_CHARS_def TELEGRAM_CONTINUATION_OVERHEAD_def)
qed

text \<open>Replies and quotes fit. However long a reply of the agent or a message of the user is, it is cut so that
  each part, together with the header with the elapsed time or the credit that goes with it, is one message also
  in the plain form that is sent when Telegram does not take the rich one.\<close>

theorem replies_and_quotes_fit:
  "\<exists>replies quotes.
     telegram_turn_completed_chunks s (turn_completed_card_header locale elapsed_ms) (fst (chunk_markers locale)) (snd (chunk_markers locale)) =
       Some replies \<and>
     telegram_user_message_chunks s (telegram_desktop_user_credit_for_os locale os) (fst (chunk_markers locale)) (snd (chunk_markers locale)) =
       Some quotes \<and>
     list_all (\<lambda>fallback. length fallback \<le> 4096 \<and>
         (\<exists>part. telegram_text_chunks (telegram_cleanup_text fallback) (fst (chunk_markers locale)) (snd (chunk_markers locale)) = Some [part]))
       (map (\<lambda>part. snd (telegram_turn_completed_messages part (turn_completed_card_header locale elapsed_ms))) replies @
        map (\<lambda>part. snd (telegram_user_message_messages part (telegram_desktop_user_credit_for_os locale os))) quotes)"
proof -
  let ?header = "turn_completed_card_header locale elapsed_ms" and ?credit = "telegram_desktop_user_credit_for_os locale os"
  obtain replies where replies:
    "telegram_turn_completed_chunks s ?header (fst (chunk_markers locale)) (snd (chunk_markers locale)) = Some replies"
    "list_all (\<lambda>part. length part + length (utrim ?header) + 18 \<le> 4096) replies"
    by (rule reply_cut)
  obtain quotes where quotes:
    "telegram_user_message_chunks s ?credit (fst (chunk_markers locale)) (snd (chunk_markers locale)) = Some quotes"
    "list_all (\<lambda>part. length part + length (utrim ?credit) + 2 \<le> 4096) quotes"
    by (rule quote_cut)
  have reply: "length (snd (telegram_turn_completed_messages part ?header)) \<le> length part + length (utrim ?header) + 18" for part
    using cleaned_shorter[of part] by (simp add: telegram_turn_completed_messages_def Let_def TELEGRAM_CARD_SEPARATOR_def)
  have quote: "length (snd (telegram_user_message_messages part ?credit)) \<le> length part + length (utrim ?credit) + 2" for part
    using cleaned_shorter[of part] by (simp add: telegram_user_message_messages_def Let_def plain_with_credit_def)
  have "list_all (\<lambda>part. length (snd (telegram_turn_completed_messages part ?header)) \<le> 4096) replies"
    by (rule list.pred_mono_strong[OF replies(2)]) (rule le_trans[OF reply])
  moreover have "list_all (\<lambda>part. length (snd (telegram_user_message_messages part ?credit)) \<le> 4096) quotes"
    by (rule list.pred_mono_strong[OF quotes(2)]) (rule le_trans[OF quote])
  ultimately have "list_all (\<lambda>fallback. length fallback \<le> 4096)
      (map (\<lambda>part. snd (telegram_turn_completed_messages part ?header)) replies @
       map (\<lambda>part. snd (telegram_user_message_messages part ?credit)) quotes)"
    by (simp add: list.pred_map comp_def)
  then have "list_all (\<lambda>fallback. length fallback \<le> 4096 \<and>
         (\<exists>part. telegram_text_chunks (telegram_cleanup_text fallback) (fst (chunk_markers locale)) (snd (chunk_markers locale)) = Some [part]))
      (map (\<lambda>part. snd (telegram_turn_completed_messages part ?header)) replies @
       map (\<lambda>part. snd (telegram_user_message_messages part ?credit)) quotes)"
    by (rule list.pred_mono_strong) (simp add: one_message)
  then show ?thesis using replies(1) quotes(1) by blast
qed

lemma ends_turn_completed: "always_ends (send_turn_completed api locale target reply_text footer_text elapsed_ms)"
proof -
  obtain parts where "telegram_turn_completed_chunks reply_text (turn_completed_card_header locale elapsed_ms)
      (fst (chunk_markers locale)) (snd (chunk_markers locale)) = Some parts"
    by (rule reply_cut)
  then show ?thesis
    by (auto simp: send_turn_completed_def Let_def case_prod_unfold tg_cut_Some ends_turn_parts ends_document)
qed

lemma ends_quote: "always_ends (send_user_message_quote api locale target message_text (telegram_desktop_user_credit_for_os locale os))"
proof -
  obtain parts where "telegram_user_message_chunks message_text (telegram_desktop_user_credit_for_os locale os)
      (fst (chunk_markers locale)) (snd (chunk_markers locale)) = Some parts"
    by (rule quote_cut)
  then show ?thesis by (auto simp: send_user_message_quote_def Let_def case_prod_unfold tg_cut_Some ends_quote_parts)
qed

text \<open>C23. An approval arrives as one message with its buttons. The card of an approval, cleaned and trimmed, is one
  part; it is sent as HTML and, exactly when that is refused, as plain text, and nothing else is sent. Either form
  carries the whole keyboard of the approval, and the operation returns the answer to the last form. (Without
  buttons the card takes the way of an ordinary text, which cleans it once more.)\<close>

theorem approval_arrives_with_its_buttons:
  assumes "length (ap_request_kind approval) \<le> 1000"
    and "keyboard = approval_keyboard sha256 display approval text_locale"
  shows "\<exists>card_text part answer log.
    approval_text (approval_card_of approval) text_locale = Some card_text \<and>
    part = trimmed_part (if keyboard = None then telegram_cleanup_text (telegram_cleanup_text card_text) else telegram_cleanup_text card_text) \<and>
    send_approval api locale sha256 display target approval text_locale sent = Some (map_sum id show_int answer, sent @ log) \<and>
    (let html = SendMessage target (telegram_markdown_to_html part) (Some Html) False keyboard;
         plain = SendMessage target part None False keyboard
     in case ta_answer api sent html of
          Inr message_id \<Rightarrow> log = [html] \<and> answer = Inr message_id
        | Inl _ \<Rightarrow> log = [html, plain] \<and> answer = ta_answer api (sent @ [html]) plain)"
proof -
  have "length (ac_request_kind (approval_card_of approval)) \<le> 1000"
    using assms(1) by (simp add: approval_card_of_def scalars_def)
  then obtain out where out: "approval_text (approval_card_of approval) text_locale = Some out" "length out \<le> 4096"
    using approval_text_short unfolding TELEGRAM_MAX_MESSAGE_CHARS_def by blast
  let ?s = "telegram_cleanup_text out"
  define part where "part = trimmed_part (if keyboard = None then telegram_cleanup_text ?s else ?s)"
  have once: "telegram_text_chunks ?s (fst (chunk_markers locale)) (snd (chunk_markers locale)) = Some [trimmed_part ?s]"
    using out(2) by (rule one_message)
  have twice: "telegram_text_chunks (telegram_cleanup_text ?s) (fst (chunk_markers locale)) (snd (chunk_markers locale)) =
      Some [trimmed_part (telegram_cleanup_text ?s)]"
    using out(2) cleanup_shorter[of out] by (intro one_message) simp
  have run: "send_approval api locale sha256 display target approval text_locale =
      tg_then (deliver api 0 [both_forms target False keyboard part]) (\<lambda>message_id. tg_ok (show_int message_id))"
    using once twice out(1) unfolding assms(2) part_def
    by (cases "approval_keyboard sha256 display approval text_locale")
      (auto simp: send_approval_def tg_cut_Some Let_def case_prod_unfold send_card_parts_deliver send_text_def send_text_with_silence_def
        send_parts_deliver)
  let ?html = "SendMessage target (telegram_markdown_to_html part) (Some Html) False keyboard"
    and ?plain = "SendMessage target part None False keyboard"
  obtain answer log where sent: "send_approval api locale sha256 display target approval text_locale sent =
      Some (map_sum id show_int answer, sent @ log)"
    "case ta_answer api sent ?html of Inr message_id \<Rightarrow> log = [?html] \<and> answer = Inr message_id
     | Inl _ \<Rightarrow> log = [?html, ?plain] \<and> answer = ta_answer api (sent @ [?html]) ?plain"
    unfolding run
    by (cases "ta_answer api sent ?html"; cases "ta_answer api (sent @ [?html]) ?plain")
      (auto simp: both_forms_def tg_then_def tg_case_def post_def tg_ok_def tg_error_def)
  show ?thesis unfolding Let_def using out(1) part_def sent by blast
qed

text \<open>An approval whose HTML Telegram refuses: the plain text arrives, with the keyboard.\<close>

definition plain_only_api :: telegram_api where
  "plain_only_api = \<lparr> ta_answer = (\<lambda>_ request. case request of SendMessage _ _ None _ _ \<Rightarrow> Inr 7 | _ \<Rightarrow> Inl (OtherError [])),
     ta_group_answer = (\<lambda>_ _. Inl (OtherError [])), ta_document_written = (\<lambda>_. False) \<rparr>"

theorem approval_arrives_with_its_buttons_witness:
  "\<exists>rows part log. approval_keyboard (\<lambda>_. [1, 2]) (\<lambda>_. ''null'') sample_asking EnUs = Some rows \<and>
    send_approval plain_only_api EnUs (\<lambda>_. [1, 2]) (\<lambda>_. ''null'') ''1'' sample_asking EnUs [] = Some (Inr (show_int 7), log) \<and>
    log = [SendMessage ''1'' (telegram_markdown_to_html part) (Some Html) False (Some rows), SendMessage ''1'' part None False (Some rows)]"
proof -
  obtain rows where rows: "approval_keyboard (\<lambda>_. [1, 2]) (\<lambda>_. ''null'') sample_asking EnUs = Some rows"
    by (simp add: approval_keyboard_def sample_asking_def Let_def)
  have "length (ap_request_kind sample_asking) \<le> 1000" by (simp add: sample_asking_def sample_approval_def)
  from approval_arrives_with_its_buttons[OF this rows[symmetric], of plain_only_api EnUs "''1''" "[]"]
  show ?thesis using rows by (fastforce simp: plain_only_api_def Let_def)
qed

subsection \<open>Images\<close>

lemma sum_balanced:
  "sum_list (map (\<lambda>index. base + (if index < remainder then 1 else 0)) [0..<n]) = n * base + min remainder n" for base :: nat
  by (induction n) auto

text \<open>The sizes of albums: they are all of the images, each album is one that Telegram takes.\<close>

lemma album_sizes:
  "sum_list (telegram_media_group_sizes n) = n"
  "list_all (\<lambda>k. k \<le> 10 \<and> (1 < k \<or> n = 1)) (telegram_media_group_sizes n)"
proof -
  let ?groups = "div_ceil n 10"
  have "sum_list (telegram_media_group_sizes n) = n \<and>
      list_all (\<lambda>k. k \<le> 10 \<and> (1 < k \<or> n = 1)) (telegram_media_group_sizes n)"
  proof (cases "n \<le> 10")
    case False
    define groups where "groups = div_ceil n 10"
    have groups: "10 * groups < n + 10" "n \<le> 10 * groups" "0 < groups"
      using False unfolding groups_def div_ceil_def by (auto; presburger)+
    have many: "telegram_media_group_sizes n = map (\<lambda>index. n div groups + (if index < n mod groups then 1 else 0)) [0..<groups]"
      using False by (simp add: telegram_media_group_sizes_def TELEGRAM_MAX_MEDIA_GROUP_ITEMS_def groups_def Let_def)
    have "n mod groups < groups" using groups by simp
    then have "sum_list (telegram_media_group_sizes n) = groups * (n div groups) + n mod groups"
      by (simp add: many sum_balanced min_def)
    moreover have "2 \<le> n div groups"
      using groups False by (simp add: less_eq_div_iff_mult_less_eq)
    moreover have "n div groups + (if index < n mod groups then 1 else 0) \<le> 10" for index
    proof (cases "n mod groups = 0")
      case True
      then have "n div groups * groups \<le> 10 * groups" using groups(2) div_mult_mod_eq[of n groups] by linarith
      then show ?thesis using groups True by simp
    next
      case False
      have "n div groups * groups < 10 * groups"
        using groups(2) False div_mult_mod_eq[of n groups] by linarith
      then show ?thesis by simp
    qed
    ultimately show ?thesis by (auto simp: many list_all_iff)
  qed (auto simp: telegram_media_group_sizes_def TELEGRAM_MAX_MEDIA_GROUP_ITEMS_def)
  then show "sum_list (telegram_media_group_sizes n) = n"
    "list_all (\<lambda>k. k \<le> 10 \<and> (1 < k \<or> n = 1)) (telegram_media_group_sizes n)" by blast+
qed

text \<open>What becomes of each image: the error of its album when that was refused, and the answer to the image's own
  sending, or its message of the album. First images sent one by one, each after the other.\<close>

type_synonym image_fate = "send_error option \<times> (send_error + string)"

inductive singly_handled ::
  "telegram_api \<Rightarrow> im_locale \<Rightarrow> string \<Rightarrow> send_error option \<Rightarrow> image_item list \<Rightarrow> tg_request list \<Rightarrow> image_fate list
     \<Rightarrow> tg_request list \<Rightarrow> bool" for api "locale" target album_err where
  no_image: "singly_handled api locale target album_err [] sent [] sent"
| one_image: "send_image_path_with_fallback api locale target item sent = Some (outcome, sent') \<Longrightarrow>
    singly_handled api locale target album_err items sent' fates sent'' \<Longrightarrow>
    singly_handled api locale target album_err (item # items) sent ((album_err, outcome) # fates) sent''"

text \<open>Then the albums: accepted as a whole, or refused and sent one by one; one image alone is not an album.\<close>

definition album_items :: "image_item list \<Rightarrow> (string \<times> utext option) list" where
  "album_items = map (\<lambda>(local_path, caption, _). (local_path, caption_html caption))"

inductive images_handled ::
  "telegram_api \<Rightarrow> im_locale \<Rightarrow> string \<Rightarrow> nat list \<Rightarrow> image_item list \<Rightarrow> tg_request list \<Rightarrow> image_fate list
     \<Rightarrow> tg_request list \<Rightarrow> bool" for api "locale" target where
  no_album: "images_handled api locale target [] [] sent [] sent"
| single: "singly_handled api locale target None [item] sent fates sent' \<Longrightarrow>
    images_handled api locale target sizes items sent' fates' sent'' \<Longrightarrow>
    images_handled api locale target (1 # sizes) (item # items) sent (fates @ fates') sent''"
| album: "post_group api target (album_items images) sent = Some (Inr ids, sent') \<Longrightarrow> length images \<noteq> 1 \<Longrightarrow>
    images_handled api locale target sizes items sent' fates' sent'' \<Longrightarrow>
    images_handled api locale target (length images # sizes) (images @ items) sent (map (\<lambda>i. (None, Inr (show_int i))) ids @ fates') sent''"
| refused_album: "post_group api target (album_items images) sent = Some (Inl err, sent') \<Longrightarrow> length images \<noteq> 1 \<Longrightarrow>
    singly_handled api locale target (Some err) images sent' fates sent'' \<Longrightarrow>
    images_handled api locale target sizes items sent'' fates' sent3 \<Longrightarrow>
    images_handled api locale target (length images # sizes) (images @ items) sent (fates @ fates') sent3"

text \<open>What is reported of a failure, and the images that did not arrive with their errors.\<close>

fun failure_report :: "image_failure \<Rightarrow> string \<times> send_error option \<times> send_error" where
  "failure_report (ImageFailed _ local_path album_err err) = (local_path, album_err, err)"

fun not_arrived :: "image_item list \<Rightarrow> image_fate list \<Rightarrow> (string \<times> send_error option \<times> send_error) list" where
  "not_arrived (item # items) ((album_err, Inl err) # fates) = (fst item, album_err, err) # not_arrived items fates"
| "not_arrived (item # items) ((album_err, Inr message_id) # fates) = not_arrived items fates"
| "not_arrived _ _ = []"

fun messages_of :: "image_fate list \<Rightarrow> string list" where
  "messages_of [] = []"
| "messages_of ((album_err, Inl err) # fates) = messages_of fates"
| "messages_of ((album_err, Inr message_id) # fates) = message_id # messages_of fates"

lemma messages_of_append: "messages_of (fates @ fates') = messages_of fates @ messages_of fates'"
  by (induction fates rule: messages_of.induct) simp_all

lemma messages_of_album: "messages_of (map (\<lambda>i. (None, Inr (f i))) ids) = map f ids"
  by (induction ids) simp_all

lemma not_arrived_append:
  "length items = length fates \<Longrightarrow> not_arrived (items @ items') (fates @ fates') = not_arrived items fates @ not_arrived items' fates'"
  by (induction items fates rule: not_arrived.induct) simp_all

lemma not_arrived_album: "not_arrived items (map (\<lambda>i. (None, Inr (f i))) ids) = []"
  by (induction ids arbitrary: items) (case_tac items; simp)+

lemma all_arrived: "length items = length fates \<Longrightarrow> not_arrived items fates = [] \<Longrightarrow> map snd fates = map Inr (messages_of fates)"
  by (induction items fates rule: not_arrived.induct) simp_all

lemma singly_handled_length: "singly_handled api locale target album_err items sent fates sent' \<Longrightarrow> length fates = length items"
  by (induction rule: singly_handled.induct) simp_all

lemma post_group_accounts:
  assumes "post_group api target images sent = Some (Inr group_ids, sent')"
  shows "length group_ids = length images"
  using assms by (auto simp: post_group_def Let_def split: if_splits sum.splits)

lemma images_handled_length: "images_handled api locale target sizes items sent fates sent' \<Longrightarrow> length fates = length items"
  by (induction rule: images_handled.induct) (auto simp: album_items_def dest: singly_handled_length post_group_accounts)

lemma send_singly_handles:
  "\<exists>fates failures' log. singly_handled api locale target album_err items sent fates (sent @ log) \<and>
     send_singly api locale target number_of album_err offset items ids failures sent =
      Some (Inr (ids @ messages_of fates, failures @ failures'), sent @ log) \<and> map failure_report failures' = not_arrived items fates"
proof (induction items arbitrary: offset ids failures sent)
  case Nil
  have "singly_handled api locale target album_err [] sent [] (sent @ [])" using no_image by simp
  then show ?case by (intro exI[of _ "[]"]) (auto simp: tg_ok_def)
next
  case (Cons item rest)
  obtain outcome log where run: "send_image_path_with_fallback api locale target item sent = Some (outcome, sent @ log)"
    using ends_run[OF ends_image(2)] by blast
  show ?case
  proof (cases outcome)
    case (Inr message_id)
    obtain fates failures' log' where later: "singly_handled api locale target album_err rest (sent @ log) fates ((sent @ log) @ log')"
      "send_singly api locale target number_of album_err (offset + 1) rest (ids @ [message_id]) failures (sent @ log) =
        Some (Inr ((ids @ [message_id]) @ messages_of fates, failures @ failures'), (sent @ log) @ log')"
      "map failure_report failures' = not_arrived rest fates"
      using Cons by blast
    from one_image[OF run later(1)] later(2,3) run Inr show ?thesis
      by (intro exI[of _ "(album_err, outcome) # fates"] exI[of _ failures'] exI[of _ "log @ log'"]) (simp add: tg_case_def)
  next
    case (Inl err)
    let ?failure = "ImageFailed (number_of offset) (fst item) album_err err"
    obtain fates failures' log' where later: "singly_handled api locale target album_err rest (sent @ log) fates ((sent @ log) @ log')"
      "send_singly api locale target number_of album_err (offset + 1) rest ids (failures @ [?failure]) (sent @ log) =
        Some (Inr (ids @ messages_of fates, (failures @ [?failure]) @ failures'), (sent @ log) @ log')"
      "map failure_report failures' = not_arrived rest fates"
      using Cons by blast
    from one_image[OF run later(1)] later(2,3) run Inl show ?thesis
      by (intro exI[of _ "(album_err, outcome) # fates"] exI[of _ "?failure # failures'"] exI[of _ "log @ log'"]) (simp add: tg_case_def)
  qed
qed

lemma send_groups_handles:
  "sum_list sizes = length items \<Longrightarrow>
    \<exists>fates failures' log. images_handled api locale target sizes items sent fates (sent @ log) \<and>
      send_groups api locale target group_index sizes items ids failures sent =
        Some (Inr (ids @ messages_of fates, failures @ failures'), sent @ log) \<and> map failure_report failures' = not_arrived items fates"
proof (induction sizes arbitrary: group_index items ids failures sent)
  case Nil
  have "images_handled api locale target [] [] sent [] (sent @ [])" using no_album by simp
  then show ?case using Nil by (intro exI[of _ "[]"]) (auto simp: tg_ok_def)
next
  case (Cons group_size sizes)
  let ?group = "take group_size items" and ?others = "drop group_size items"
  have group: "length ?group = group_size" "items = ?group @ ?others" "sum_list sizes = length ?others" using Cons.prems by auto
  let ?go_on = "\<lambda>(ids, failures). send_groups api locale target (group_index + 1) sizes ?others ids failures"
  have later: "\<exists>fates' failures'' log'. images_handled api locale target sizes ?others (sent @ log) fates' (sent @ log @ log') \<and>
      ?go_on (ids', failures') (sent @ log) = Some (Inr (ids' @ messages_of fates', failures' @ failures''), sent @ log @ log') \<and>
      map failure_report failures'' = not_arrived ?others fates'" for ids' failures' log
    using Cons.IH[OF group(3), of "sent @ log" "group_index + 1" ids' failures'] by simp
  have singly: "\<exists>fates failures1 log1 fates' failures2 log2.
      singly_handled api locale target album_err ?group (sent @ log) fates (sent @ log @ log1) \<and>
      images_handled api locale target sizes ?others (sent @ log @ log1) fates' (sent @ log @ log1 @ log2) \<and>
      tg_then (send_singly api locale target number_of album_err 0 ?group ids failures) ?go_on (sent @ log) =
        Some (Inr (ids @ messages_of (fates @ fates'), failures @ failures1 @ failures2), sent @ log @ log1 @ log2) \<and>
      map failure_report (failures1 @ failures2) = not_arrived items (fates @ fates')"
    for number_of album_err log
  proof -
    obtain fates failures1 log1 where one: "singly_handled api locale target album_err ?group (sent @ log) fates (sent @ log @ log1)"
      "send_singly api locale target number_of album_err 0 ?group ids failures (sent @ log) =
        Some (Inr (ids @ messages_of fates, failures @ failures1), sent @ log @ log1)" "map failure_report failures1 = not_arrived ?group fates"
      using send_singly_handles[of api "locale" target album_err ?group "sent @ log" number_of 0 ids failures] by auto
    obtain fates' failures2 log2 where two: "images_handled api locale target sizes ?others (sent @ log @ log1) fates' (sent @ log @ log1 @ log2)"
      "?go_on (ids @ messages_of fates, failures @ failures1) (sent @ log @ log1) =
        Some (Inr ((ids @ messages_of fates) @ messages_of fates', (failures @ failures1) @ failures2), sent @ log @ log1 @ log2)"
      "map failure_report failures2 = not_arrived ?others fates'"
      using later[of "log @ log1" "ids @ messages_of fates" "failures @ failures1"] by auto
    have "not_arrived items (fates @ fates') = not_arrived ?group fates @ not_arrived ?others fates'"
      using not_arrived_append[of ?group fates ?others fates'] singly_handled_length[OF one(1)] by simp
    then show ?thesis using one two
      by (intro exI[of _ fates] exI[of _ failures1] exI[of _ log1] exI[of _ fates'] exI[of _ failures2] exI[of _ log2])
        (simp add: tg_then_def tg_case_def messages_of_append)
  qed
  show ?case
  proof (cases "length ?group = 1")
    case True
    then obtain item where item: "?group = [item]" by (metis One_nat_def length_0_conv length_Suc_conv)
    obtain fates failures1 log1 fates' failures2 log2 where run:
      "singly_handled api locale target None ?group (sent @ []) fates (sent @ [] @ log1)"
      "images_handled api locale target sizes ?others (sent @ [] @ log1) fates' (sent @ [] @ log1 @ log2)"
      "tg_then (send_singly api locale target (\<lambda>offset. group_index * TELEGRAM_MAX_MEDIA_GROUP_ITEMS + offset + 1) None 0 ?group ids failures)
          ?go_on (sent @ []) =
        Some (Inr (ids @ messages_of (fates @ fates'), failures @ failures1 @ failures2), sent @ [] @ log1 @ log2)"
      "map failure_report (failures1 @ failures2) = not_arrived items (fates @ fates')"
      using singly by blast
    have "images_handled api locale target (1 # sizes) (item # ?others) sent (fates @ fates') (sent @ log1 @ log2)"
      using run(1,2) unfolding item by (intro images_handled.single) simp_all
    moreover have "item # ?others = items" "group_size = 1" using item group(1) append_take_drop_id[of group_size items] by simp_all
    ultimately show ?thesis using run(3,4) True
      by (intro exI[of _ "fates @ fates'"] exI[of _ "failures1 @ failures2"] exI[of _ "log1 @ log2"]) (simp add: Let_def)
  next
    case False
    obtain outcome log where run: "post_group api target (album_items ?group) sent = Some (outcome, sent @ log)"
      using ends_run[OF ends_post_group] by blast
    show ?thesis
    proof (cases outcome)
      case (Inl err)
      obtain fates failures1 log1 fates' failures2 log2 where each:
        "singly_handled api locale target (Some err) ?group (sent @ log) fates (sent @ log @ log1)"
        "images_handled api locale target sizes ?others (sent @ log @ log1) fates' (sent @ log @ log1 @ log2)"
        "tg_then (send_singly api locale target (\<lambda>offset. group_index * TELEGRAM_MAX_MEDIA_GROUP_ITEMS + offset + 1) (Some err) 0 ?group ids failures)
            ?go_on (sent @ log) =
          Some (Inr (ids @ messages_of (fates @ fates'), failures @ failures1 @ failures2), sent @ log @ log1 @ log2)"
        "map failure_report (failures1 @ failures2) = not_arrived items (fates @ fates')"
        using singly by blast
      have "images_handled api locale target (length ?group # sizes) (?group @ ?others) sent (fates @ fates') (sent @ log @ log1 @ log2)"
        using refused_album[OF run[unfolded Inl] False each(1,2)] .
      then have "images_handled api locale target (group_size # sizes) items sent (fates @ fates') (sent @ log @ log1 @ log2)"
        unfolding group(1) using group(2) by simp
      then show ?thesis using each(3,4) False run Inl
        by (intro exI[of _ "fates @ fates'"] exI[of _ "failures1 @ failures2"] exI[of _ "log @ log1 @ log2"])
          (simp add: Let_def tg_case_def album_items_def)
    next
      case (Inr group_ids)
      let ?fates = "map (\<lambda>i. (None, Inr (show_int i))) group_ids :: image_fate list"
      obtain fates' failures2 log2 where two: "images_handled api locale target sizes ?others (sent @ log) fates' (sent @ log @ log2)"
        "?go_on (ids @ map show_int group_ids, failures) (sent @ log) =
          Some (Inr ((ids @ map show_int group_ids) @ messages_of fates', failures @ failures2), sent @ log @ log2)"
        "map failure_report failures2 = not_arrived ?others fates'"
        using later by blast
      have "images_handled api locale target (length ?group # sizes) (?group @ ?others) sent (?fates @ fates') (sent @ log @ log2)"
        using album[OF run[unfolded Inr] False two(1)] .
      then have handled: "images_handled api locale target (group_size # sizes) items sent (?fates @ fates') (sent @ log @ log2)"
        unfolding group(1) using group(2) by simp
      have "length ?fates = length ?group" using post_group_accounts[OF run[unfolded Inr]] by (simp add: album_items_def)
      then have "not_arrived items (?fates @ fates') = not_arrived ?others fates'"
        using not_arrived_append[of ?group ?fates ?others fates'] not_arrived_album[of ?group show_int group_ids] by simp
      then show ?thesis using handled two(2,3) False run Inr
        by (intro exI[of _ "?fates @ fates'"] exI[of _ failures2] exI[of _ "log @ log2"])
          (simp add: Let_def tg_case_def album_items_def messages_of_append messages_of_album)
    qed
  qed
qed

lemma send_image_paths_handles:
  "\<exists>fates answer log. images_handled api locale target (telegram_media_group_sizes (length items)) items sent fates (sent @ log) \<and>
     length fates = length items \<and> send_image_paths api locale target items sent = Some (answer, sent @ log) \<and>
     (case answer of
        Inr (ImagesSent ids) \<Rightarrow> map snd fates = map Inr ids
      | Inr (ImagesFailed failures n) \<Rightarrow> n = length items \<and> failures \<noteq> [] \<and> map failure_report failures = not_arrived items fates
      | Inl err \<Rightarrow> map snd fates = [Inl err])"
proof -
  consider "items = []" | (one) item where "items = [item]" | (many) item item' rest where "items = item # item' # rest"
    by (metis list.exhaust)
  then show ?thesis
  proof cases
    case 1
    then have "images_handled api locale target (telegram_media_group_sizes (length items)) items sent [] (sent @ [])"
      using no_album by (simp add: telegram_media_group_sizes_def)
    with 1 show ?thesis by (intro exI[of _ "[]"]) (simp add: send_image_paths_def tg_ok_def)
  next
    case one
    obtain outcome log where run: "send_image_path_with_fallback api locale target item sent = Some (outcome, sent @ log)"
      using ends_run[OF ends_image(2)] by blast
    have "images_handled api locale target (1 # []) (item # []) sent ([(None, outcome)] @ []) (sent @ log)"
      by (rule images_handled.single[OF one_image[OF run no_image] no_album])
    moreover have "telegram_media_group_sizes (length items) = [1]"
      using one by (simp add: telegram_media_group_sizes_def TELEGRAM_MAX_MEDIA_GROUP_ITEMS_def)
    ultimately have handled: "images_handled api locale target (telegram_media_group_sizes (length items)) items sent [(None, outcome)] (sent @ log)"
      using one by simp
    have "send_image_paths api locale target items sent = Some (map_sum id (\<lambda>message_id. ImagesSent [message_id]) outcome, sent @ log)"
      using one run by (cases outcome) (simp_all add: send_image_paths_def tg_then_def tg_case_def tg_ok_def tg_error_def)
    with handled one show ?thesis
      by (intro exI[of _ "[(None, outcome)]"] exI[of _ "map_sum id (\<lambda>message_id. ImagesSent [message_id]) outcome"] exI[of _ log])
        (cases outcome; simp)
  next
    case many
    obtain fates failures log where run:
      "images_handled api locale target (telegram_media_group_sizes (length items)) items sent fates (sent @ log)"
      "send_groups api locale target 0 (telegram_media_group_sizes (length items)) items [] [] sent =
        Some (Inr (messages_of fates, failures), sent @ log)" "map failure_report failures = not_arrived items fates"
      using send_groups_handles[OF album_sizes(1), of api "locale" target items sent 0 "[]" "[]"] by auto
    note lengths = images_handled_length[OF run(1)]
    let ?answer = "if failures = [] then ImagesSent (messages_of fates) else ImagesFailed failures (length items)"
    have "send_image_paths api locale target items =
        tg_then (send_groups api locale target 0 (telegram_media_group_sizes (length items)) items [] [])
          (\<lambda>(ids, failures). tg_ok (if failures = [] then ImagesSent ids else ImagesFailed failures (length items)))"
      unfolding many by (simp add: send_image_paths_def)
    then have "send_image_paths api locale target items sent = Some (Inr ?answer, sent @ log)"
      by (simp add: tg_then_def tg_case_def tg_ok_def run(2))
    with run(1,3) lengths all_arrived[OF lengths[symmetric]] show ?thesis
      by (intro exI[of _ fates] exI[of _ "Inr ?answer"] exI[of _ log]) auto
  qed
qed

text \<open>C26. Every image arrives or is reported. The albums are all of the images, of two to ten each, unless there is
  one image only. They are sent one after the other, an album that is refused image by image, and this ends whatever
  Telegram answers. Then either all images arrived, and the result is the message of each, in order; or the result
  reports exactly the images that did not arrive, in order, each with its error and that of its album. An image
  sent alone fails with its own error.\<close>

theorem images_arrive_or_are_reported:
  "sum_list (telegram_media_group_sizes (length items)) = length items \<and>
   list_all (\<lambda>k. k \<le> 10 \<and> (1 < k \<or> length items = 1)) (telegram_media_group_sizes (length items)) \<and>
   (\<exists>fates answer log. images_handled api locale target (telegram_media_group_sizes (length items)) items sent fates (sent @ log) \<and>
     length fates = length items \<and> send_image_paths api locale target items sent = Some (answer, sent @ log) \<and>
     (case answer of
        Inr (ImagesSent ids) \<Rightarrow> map snd fates = map Inr ids
      | Inr (ImagesFailed failures n) \<Rightarrow> n = length items \<and> failures \<noteq> [] \<and> map failure_report failures = not_arrived items fates
      | Inl err \<Rightarrow> map snd fates = [Inl err]))"
  using album_sizes send_image_paths_handles by simp

text \<open>The number that a report gives an image assumes full albums before it, and albums are balanced: of eleven
  images, six and five, the seventh is reported as the eleventh.\<close>

definition refusing_api :: telegram_api where
  "refusing_api = \<lparr> ta_answer = (\<lambda>_ _. Inl (OtherError [])), ta_group_answer = (\<lambda>_ _. Inl (OtherError [])),
     ta_document_written = (\<lambda>_. False) \<rparr>"

fun reported_number :: "image_failure \<Rightarrow> nat" where
  "reported_number (ImageFailed n _ _ _) = n"

lemma refused_image:
  "send_image_path_with_fallback refusing_api locale target (local_path, caption, None) sent =
     Some (Inl (OtherError []), sent @ [SendPhoto target (LocalFile local_path) (caption_html caption) (Some Html),
       SendDocument target (LocalFile local_path) (caption_html caption) (Some Html)])"
  by (simp add: send_image_path_with_fallback_def send_image_path_def tg_case_def post_def tg_error_def refusing_api_def opt_filter_def)

lemma refused_singly:
  "\<exists>log failures'. send_singly refusing_api locale target number_of album_err offset (replicate k (local_path, caption, None)) ids failures sent =
      Some (Inr (ids, failures @ failures'), sent @ log) \<and>
    map reported_number failures' = map (\<lambda>i. number_of (offset + i)) [0..<k]"
proof (induction k arbitrary: offset failures sent)
  case 0
  then show ?case by (simp add: tg_ok_def)
next
  case (Suc k)
  let ?failure = "ImageFailed (number_of offset) local_path album_err (OtherError [])"
  obtain log where run: "send_image_path_with_fallback refusing_api locale target (local_path, caption, None) sent =
      Some (Inl (OtherError []), sent @ log)"
    using refused_image by blast
  obtain log' failures' where
    "send_singly refusing_api locale target number_of album_err (offset + 1) (replicate k (local_path, caption, None)) ids
        (failures @ [?failure]) (sent @ log) = Some (Inr (ids, (failures @ [?failure]) @ failures'), (sent @ log) @ log')"
    "map reported_number failures' = map (\<lambda>i. number_of (offset + 1 + i)) [0..<k]"
    using Suc by blast
  then show ?case
    by (intro exI[of _ "log @ log'"] exI[of _ "?failure # failures'"])
      (simp add: tg_case_def run upt_conv_Cons map_Suc_upt[symmetric] del: upt_Suc)
qed

lemma refused_group:
  assumes "2 \<le> k" and "k \<le> 10"
  shows "\<exists>log failures'. send_groups refusing_api locale target group_index (k # sizes) (replicate (k + n) (local_path, caption, None)) ids failures sent =
      send_groups refusing_api locale target (group_index + 1) sizes (replicate n (local_path, caption, None)) ids (failures @ failures') (sent @ log) \<and>
    map reported_number failures' = map (\<lambda>i. group_index * 10 + i + 1) [0..<k]"
proof -
  let ?group = "replicate k (local_path, caption, None) :: image_item list"
  let ?request = "SendMediaGroup target (map (\<lambda>(local_path, caption, _). (local_path, caption_html caption)) ?group)"
  have album: "post_group refusing_api target (map (\<lambda>(local_path, caption, _). (local_path, caption_html caption)) ?group) sent =
      Some (Inl (OtherError []), sent @ [?request])"
    using assms by (simp add: post_group_def refusing_api_def Let_def)
  have parts: "take k (replicate (k + n) (local_path, caption, None)) = ?group"
    "drop k (replicate (k + n) (local_path, caption, None)) = replicate n (local_path, caption, None)" "k \<noteq> 1"
    using assms by (simp_all add: min_def)
  obtain log failures' where singly:
    "send_singly refusing_api locale target (\<lambda>offset. group_index * TELEGRAM_MAX_MEDIA_GROUP_ITEMS + offset + 1) (Some (OtherError [])) 0
        ?group ids failures (sent @ [?request]) = Some (Inr (ids, failures @ failures'), (sent @ [?request]) @ log)"
    "map reported_number failures' = map (\<lambda>i. group_index * TELEGRAM_MAX_MEDIA_GROUP_ITEMS + (0 + i) + 1) [0..<k]"
    using refused_singly by blast
  show ?thesis
    unfolding send_groups.simps parts Let_def
    using parts(3) album singly
    by (intro exI[of _ "?request # log"] exI[of _ failures']) (simp add: tg_case_def tg_then_def TELEGRAM_MAX_MEDIA_GROUP_ITEMS_def)
qed

lemma seventh_image_reported_as_eleventh:
  "\<exists>log failures. send_image_paths refusing_api locale target (replicate 11 (local_path, None, None)) [] = Some (Inr (ImagesFailed failures 11), log) \<and>
    map reported_number failures = [1, 2, 3, 4, 5, 6, 11, 12, 13, 14, 15]"
proof -
  let ?items = "\<lambda>n. replicate n (local_path, None, None) :: image_item list"
  have sizes: "telegram_media_group_sizes 11 = [6, 5]"
  proof -
    have "div_ceil 11 10 = 2" by (simp add: div_ceil_def)
    moreover have "[0..<2] = [0, 1 :: nat]" by (simp add: upt_rec)
    ultimately show ?thesis by (simp add: telegram_media_group_sizes_def TELEGRAM_MAX_MEDIA_GROUP_ITEMS_def Let_def)
  qed
  obtain log1 failures1 where one: "send_groups refusing_api locale target 0 [6, 5] (?items (6 + 5)) [] [] [] =
      send_groups refusing_api locale target (0 + 1) [5] (?items 5) [] ([] @ failures1) ([] @ log1)"
    "map reported_number failures1 = map (\<lambda>i. 0 * 10 + i + 1) [0..<6]"
    using refused_group[of 6 "locale" target 0 "[5]" 5 local_path None "[]" "[]" "[]"] by auto
  obtain log2 failures2 where two: "send_groups refusing_api locale target 1 [5] (?items (5 + 0)) [] failures1 log1 =
      send_groups refusing_api locale target (1 + 1) [] (?items 0) [] (failures1 @ failures2) (log1 @ log2)"
    "map reported_number failures2 = map (\<lambda>i. 1 * 10 + i + 1) [0..<5]"
    using refused_group[of 5 "locale" target 1 "[]" 0 local_path None "[]" failures1 log1] by auto
  have "send_groups refusing_api locale target 0 [6, 5] (?items 11) [] [] [] = Some (Inr ([], failures1 @ failures2), log1 @ log2)"
    using one(1) two(1) by (simp add: tg_ok_def)
  moreover have numbers: "map reported_number (failures1 @ failures2) = [1, 2, 3, 4, 5, 6, 11, 12, 13, 14, 15]"
    using one(2) two(2) by (simp add: upt_rec)
  moreover from this have "failures1 @ failures2 \<noteq> []" by auto
  moreover have "?items 11 = (local_path, None, None) # (local_path, None, None) # ?items 9" by (simp add: numeral_eq_Suc)
  ultimately show ?thesis
    by (intro exI[of _ "log1 @ log2"] exI[of _ "failures1 @ failures2"])
      (simp add: send_image_paths_def sizes tg_then_def tg_case_def tg_ok_def)
qed

subsection \<open>Sending ends\<close>

text \<open>C27. Sending ends. Whatever the text is and whatever Telegram answers, sending or updating a text, a rich message,
  the final reply of a turn, the quote of a message of the user and images ends, although the loop that cuts a
  text need not: with the markers, headers and credits of the daemon there is always room for content.\<close>

theorem sending_ends:
  "always_ends (send_text_with_silence api locale target s silent) \<and>
   always_ends (send_or_update_text api locale target message_id s) \<and>
   always_ends (send_or_update_rich_message api locale target message_id rich_message s) \<and>
   always_ends (send_turn_completed api locale target s footer_text elapsed_ms) \<and>
   always_ends (send_user_message_quote api locale target s (telegram_desktop_user_credit_for_os locale os)) \<and>
   always_ends (send_image_paths api locale target items)"
proof -
  have "always_ends (send_image_paths api locale target items)"
    unfolding always_ends_def using send_image_paths_handles by blast
  then show ?thesis using ends_turn_completed ends_quote by simp
qed

end
