(* ===== verification/Spec2Isabelle.thy ===== *)
theory Spec2Isabelle
  imports Lifecycle RcBackend RcInitialize ImApprovals GatewayRouting ToolNames UsageService TelegramDelivery
begin

section \<open>MochiPort: messaging runtime, conversations, remote-control backend, AI gateway, usage, Telegram\<close>

text \<open>
  MochiPort is a daemon that connects messaging channels (Telegram, Feishu, WeChat, WeCom) with
  Codex. The development models seven of its parts.

  \<^bold>\<open>Messaging runtime.\<close> The channel adapters and the event loop share one mutable state,
  \<open>RuntimeState\<close> in src/src/im/runtime.rs, behind a lock: every method of it runs to its end
  before another starts, so the concurrency of the program is the interleaving of these methods.

  \<^bold>\<open>Lifecycle gate.\<close> src/src/app_state.rs guards work from a restart of the daemon: work is admitted
  with a permit while the daemon runs, and a restart closes admission and waits for the permits.

  \<^bold>\<open>Remote-control backend.\<close> The app servers of Codex connect to the daemon over websockets
  (src/src/remote_control_backend.rs). A connection carries several virtual clients; requests are
  numbered, sent in envelopes (in segments when too big), acknowledged by sequence number, replayed
  after a reconnect, and the messages of the server are handed to a bounded work queue.

  \<^bold>\<open>Conversations.\<close> A conversation of a channel is bound to a thread of Codex; its messages become turns
  of the thread, requests to the app server and answers to approval requests. src/src/im/core,
  src/src/codex.rs and the gate of src/src/im/telegram/polling.rs join the runtime and the backend.

  \<^bold>\<open>AI gateway.\<close> src/src/ai_gateway routes model requests to configured providers, with a circuit breaker
  and sessions that stay with their provider, and renames tools for providers that restrict names.

  \<^bold>\<open>Usage.\<close> src/src/usage reads the rollout logs of Codex and rolls the token counts up into summaries.

  \<^bold>\<open>Telegram.\<close> src/src/im/telegram/adapter.rs and its modules turn texts, approvals, menus and images into
  messages of Telegram, with simpler messages when Telegram refuses one, and the data of its buttons
  come back as actions.

  Theories used by all parts:
  \<^item> \<open>Prelude\<close>: association lists with one entry per key for \<open>HashMap\<close> (in the order of the
    iteration the code would see, so results that depend on the order are stated for every order),
    saturating addition of \<open>u64\<close>, string functions of the standard library, bounded lists.
  \<^item> \<open>Decimal\<close>, \<open>Json\<close>, \<open>Outcome\<close>: decimal and hexadecimal spelling and parsing of integers; JSON
    values; \<open>Result\<close> as a sum with the error on the left, \<open>?\<close> and collecting a list of results.

  Theories of the messaging runtime:
  \<^item> \<open>ImTypes\<close> (src/src/types.rs): platform kinds, conversation keys, Telegram message targets.
  \<^item> \<open>RuntimeTypes\<close>: the structs, enums and constants of runtime.rs; a struct is a record with
    prefixed fields, \<open>runtime_default\<close> is \<open>RuntimeState::default()\<close>.
  \<^item> \<open>History\<close>: the locale of a bounded history (the newest n keys that were remembered).
  \<^item> \<open>RuntimeTyping\<close>: typing indicators, their generations, drivers and the completed history.
  \<^item> \<open>RuntimeTurns\<close>: turn starts and completions, terminal notices, the fallback latch.
  \<^item> \<open>RuntimeCollab\<close>, \<open>RuntimeProgress\<close>, \<open>RuntimeDelivery\<close>: the aggregate progress message, that is
    its agents, its content with arrival numbers and bounds, and its delivery (dirty flag, revision
    in flight, clean-up).
  \<^item> \<open>RuntimeQueues\<close>, \<open>RuntimeApprovals\<close>, \<open>RuntimeMenus\<close>, \<open>RuntimeRoutes\<close>: held attachments and
    queued turns; approvals; menus and observed settings; routes, bridge generations, counts.
  \<^item> \<open>RuntimeSystem\<close>: one step relation over all operations, reachability from the default state, and
    the invariant that joins those of the components.
  \<^item> \<open>RuntimeProperties\<close>: properties over reachable states that span components.

  Theory of the lifecycle gate:
  \<^item> \<open>Lifecycle\<close>: the methods of \<open>LifecycleAdmission\<close> are made of atomic operations that threads
    interleave, so here each atomic operation is one step: a worker of \<open>try_admit\<close> (read the state,
    count itself, read again, back out) and a waiter (test the count, wait for the notification). The
    atomics are sequentially consistent here; the code's orderings (AcqRel, Acquire) are not modelled.
    \<open>wait_for_drain_with_time\<close> only names the outcome of the waiter.

  Theories of the remote-control backend (files of src/src/remote_control_backend unless named):
  \<^item> \<open>RcProtocol\<close> (protocol.rs): envelopes of a client message, its
    segments, and the assembly of the segments of a server message. The search for a chunk size
    terminates because every attempt that is too big shrinks the size.
  \<^item> \<open>RcUtils\<close>: civil dates and timestamps, stable identifiers by FNV-1a on 64-bit words.
  \<^item> \<open>RcTypes\<close> (src/src/app_state.rs, src/src/remote_control_backend.rs): structs and constants,
    lookup and change of a connection.
  \<^item> \<open>RcClients\<close>: keys and creation of virtual clients, the choice of the active connection, the
    migration of the default client.
  \<^item> \<open>RcConnections\<close>: opening, liveness and clean-up of connections, recovery of an unknown client,
    enrollment metadata, authorized clients, recent events.
  \<^item> \<open>RcMessages\<close>: the identifiers a message carries and its summaries.
  \<^item> \<open>RcOutbound\<close>: requests, notifications, acknowledgements, initialize requests, replays, resets.
  \<^item> \<open>RcServer\<close>, \<open>RcReader\<close>: the reader of a connection: diagnostics, the work queue, acknowledgement
    cursors and \<open>handle_server_envelope\<close>; its delivery and acknowledgement properties.
  \<^item> \<open>RcSystem\<close>: one step relation over the operations of the theories above and the invariant they keep.
  \<^item> \<open>RcInitialize\<close>: the bookkeeping of an initialize request, kept or undone.
  \<^item> \<open>RcTracking\<close>, \<open>RcIncoming\<close> (session_api.rs, server_messages.rs, server_work.rs): \<open>daemon_world\<close> joins
    the runtime, the backend, the persisted bindings and the events; the worker's treatment of a message
    of the server. \<open>RcAnswers\<close> and \<open>RcDaemon\<close> prove that answers reach their requests, that the worker
    and both components together keep their invariants, and when a lost end of a turn is repaired.
  \<^item> \<open>RcRequests\<close>, \<open>RcReply\<close>, \<open>RcSessions\<close> (session_api.rs): a request with its waits, its registration and
    its repetition; the reply that reaches it; every method with its parameters; the history query.
    What other tasks do at each wait is an argument: a list of functions on the state, one per turn of
    the waiting loop, so a wait ends at a check that succeeds or when the list, that is the time, is over.
    Only an answer's text can be that of the internal error of a reinitialized client; the texts of the
    daemon's own errors, which may quote a key, are not searched for it.
  \<^item> \<open>RcBackend\<close>: every section of code that changes the backend's state under its lock, as a step, and the
    invariant of all states they reach in any order, together with the operations made of them.

  Theories of conversations:
  \<^item> \<open>TelegramAccess\<close> (im/telegram/polling.rs, src/src/config.rs): who may talk to the bot, by message or by tap. Other tasks may change
    the configuration between the reading of the pairing code and the binding of the chat.
  \<^item> \<open>TopicLifecycle\<close> (src/src/app_state.rs): archived and deleted threads. An observation is two atomic
    steps, the counter and the locked section, and so is the check before a binding; other observations may
    come in between.
  \<^item> \<open>ImBindings\<close> (im/core/routing.rs, im/core/session.rs, src/src/store.rs): bindings, persisted and live,
    and their restoration at the start. What other tasks do before each access of a binding is an argument
    \<open>bind_env\<close>.
  \<^item> \<open>ImTurns\<close>, \<open>ImApprovals\<close> (im/core/turn.rs, im/core/approval.rs): starting a turn and answering an approval.
  \<^item> \<open>CodexApprovals\<close> (src/src/codex.rs): what an approval request offers and how a reply is read.

  Theories of the AI gateway (files of src/src/ai_gateway):
  \<^item> \<open>GatewayConfig\<close> (config.rs): providers, models and their choice by weight and rendezvous hashing; the
    score is the rational the code computes, rounded to a multiple of a power of two as f64 does.
  \<^item> \<open>GatewayRouting\<close> (routing_state.rs, router.rs, handler.rs): the breaker, the bindings of sessions, the route.
  \<^item> \<open>ToolNames\<close> (tool_names.rs): encoded tool names and the search for a free one, a recursion that ends
    because the names tried are distinct and the map is finite.

  Theories of usage (files of src/src/usage):
  \<^item> \<open>UsageLog\<close> (log.rs): timestamps, the \<open>f64\<close> operations as rationals rounded to 53 bits, the records of a log
    with their derived deserialisers.
  \<^item> \<open>UsageScan\<close> (scan.rs): the scan of a file from an offset, as a recursion over its lines; the locale
    \<open>merging\<close> states what the roll-ups need of an operation that merges two entries of a key, and is
    interpreted on the saturating sum of counters, the greater of two readings, and the buckets.
  \<^item> \<open>UsageCost\<close> (cost.rs), \<open>UsageService\<close> (service.rs): prices; the roll-ups, the files of a window, the cache.

  Theories of Telegram (files of src/src/im/telegram/adapter unless named):
  \<^item> \<open>TelegramText\<close> (text_blocks.rs): cleaning and HTML of a text, against a reference reader of the HTML.
    A text is the list of its Unicode scalar values, since its size in characters matters.
  \<^item> \<open>TelegramChunks\<close> (text_blocks.rs): cutting a text into messages. The loop that cuts is a partial
    function, \<open>None\<close> when it never ends, and \<open>split_ends_exactly\<close> says when that is. \<open>cut_up\<close> is the
    reference for where a text may be cut.
  \<^item> \<open>TelegramCards\<close> (approval.rs, src/src/im/core/i18n.rs): the text of an approval, trimmed by another such loop.
  \<^item> \<open>TelegramButtons\<close> (keyboards.rs, approval.rs, ../polling.rs, src/src/types.rs): keyboards and the reading of a tap.
  \<^item> \<open>TelegramAdapter\<close> (../adapter.rs, ../api.rs): every operation that sends or edits a message. It carries
    the list of requests sent; what Telegram answers is a function of that list and the request.
  \<^item> \<open>TelegramDelivery\<close>: what arrives, for every such function.

  Correspondence: a method \<open>fn f(&mut self, args) -> R\<close> is a function
  \<open>f args rs = (result, rs')\<close> with the source's name; a method of the aggregate message is its
  \<open>_body\<close> on the message's state, wrapped by the lookup, creation or reset of that state
  (\<open>with_progress\<close>, \<open>with_new_progress\<close>, \<open>with_reset_progress\<close>). A function that returns a mutable
  reference takes the change to make as an argument. Early returns are branches; \<open>Option\<close> and
  \<open>Result\<close> are \<open>option\<close> and sums. Time (\<open>now_ms\<close>) and generated identifiers (\<open>uuid\<close>) are arguments.
  Integers are naturals with the saturation or wrap-around written out, words where they are hashed.
  A \<open>Notify\<close> or a channel is an identifier; \<open>notify_log\<close> lists the notifications given, and the state
  of the backend is extended by the log of what was sent on each channel and the answers given to
  waiting requests. Strings are lists of characters; where the code counts or cuts text it does so by
  characters. \<open>handle_server_envelope\<close> locks the state several times; what other tasks do between its
  locked sections is an argument \<open>others\<close>, and so it is for requests, bindings, turns and approvals. The other
  asynchronous functions of the backend are given as they run when no other task changes the state
  between their locked sections.

  Parameters, which stand for libraries or the environment: the SHA-256 digest (\<open>sha256\<close>), the display
  of a JSON value (\<open>display\<close>), base64 and the JSON serialiser and parser (\<open>codec\<close> and its parts), and
  the version of the package, and the answers of Telegram.

  Lemmas: each component has an invariant, one preservation lemma per operation and a step lemma that
  joins them; locales state the interfaces components rely on (a bounded history, a channel that shows
  the latest value, a bounded queue) and are interpreted on the runtime's operations. The properties of
  the gate are over all interleavings of its steps; those of the backend are the round trip of
  segmented messages, hand-off of every message exactly once, acknowledgement of exactly what was dealt
  with, the choice and clean-up of connections, and the invariant of every state it reaches.

  Properties of conversations: access is earned, wrong codes are bounded, a deletion is final (a start that a
  newer generation overtook may still be answered), a binding
  ties one thread to one conversation, starting a turn settles on every way out, an approval is resolved
  only after its answer was sent. A save that failed is not repeated by a retry, and the mark of a starting
  turn stays when the thread was bound elsewhere meanwhile; both are stated where they occur. Those of the gateway: a session stays with its provider, routing fails
  only when nobody serves the model, the breaker counts consecutive failures, tool names round trip. Those of usage: a scan reads every complete
  line once, no roll-up loses usage or depends on the order of the files, series are bounded. Those of
  Telegram: the HTML of any text is complete, cutting ends, fits and keeps text and code, a text arrives in
  order, an approval in one message with its buttons, a tap means what its button shows, and every image
  arrives or is reported.

  Not modelled: sockets, HTTP handlers, timers and the asynchronous loops that call these methods,
  logging, texts of events and hints, the functions compiled only for tests; of the backend the status
  pages, compatibility routes, authorisation tokens (a parameter) and the resubscription of threads after
  a recovery; of the gateway the HTTP side, the translation between provider protocols, the request log;
  of Telegram the HTTP requests, polling, drafts, typing actions, the progress messages and the flows that
  act on a tap; and the other parts of the program, that is the formatting of events, the network clients of
  the other channels, the worker that cleans up topics, the web interface, the edits of the Codex
  configuration and the desktop applications.
\<close>

end
